(* ===== verification/Oci_Prelude.thy ===== *)
theory Oci_Prelude
  imports Main "HOL-Library.Sublist"
begin

text \<open>
  What every theory of the development shares: the named collections of rules, the errors of the
  Go code as values, and the result and state passing conventions.

  A Go function that may fail is a function into \<open>'a res\<close>: \<open>Ok\<close> for a normal return, \<open>Err\<close> for a
  non-nil error, \<open>Panic\<close> for a run-time panic, which no error check of the code intercepts. A
  function with effects is an \<open>('w, 'a) io\<close>: it takes the world it runs in (the store backends, the
  file system, the context's deadline) and returns its result with the new world.
\<close>

named_theorems io_simps \<open>unfolding of the state passing combinators\<close>
named_theorems io_ok \<open>inversion of a computation that returned normally\<close>
named_theorems keeps_intros \<open>a computation keeps an invariant of the world\<close>
named_theorems path_simps \<open>evaluation of path functions on plain segments\<close>

section \<open>Errors\<close>

text \<open>
  The package-level error variables of the code and of the Go standard library that some code
  tests with \<open>errors.Is\<close>. Errors the code only prints are \<open>Msg\<close>.
\<close>

datatype sentinel =
    ErrNotExist | ErrExist | ErrUnsupported | EOF | Canceled
  | ErrConflict | ErrNotListable | ErrForeignLayer | ErrPlatform | ErrAmbiguous
  | ErrMismatch | ErrDuplicateID
  | ErrInvalidLocation | ErrInvalidConfig | ErrUnsupportedDirection | ErrReadOnly
  | ErrInvalidReference | ErrInvalidPlatform

record platform =
  OS :: string
  Architecture :: string
  Variant :: string

record reference =
  Repository :: string
  Tag :: string
  Digest :: string

text \<open>
  \<open>Wrap1\<close> is \<open>fmt.Errorf\<close> with one \<open>%w\<close> (its \<open>Unwrap\<close> returns one error), \<open>WrapN\<close> with several,
  and \<open>Joined\<close> is \<open>errors.Join\<close> (their \<open>Unwrap\<close> returns a slice). \<open>EntryError\<close> is transfer's
  \<open>*EntryError\<close> and \<open>UsageError\<close> the command line's \<open>*UsageError\<close>. \<open>HTTPStatus\<close> is an error of an
  HTTP client that knows its status code.
\<close>

datatype gerr =
    Sentinel sentinel
  | Msg string
  | Wrap1 string gerr
  | WrapN string "gerr list"
  | Joined "gerr list"
  | EntryError reference platform gerr
  | UsageError gerr
  | HTTPStatus int

text \<open>\<open>errors.Is\<close> against a sentinel: a depth-first search of the error's tree.\<close>

fun err_is :: "gerr \<Rightarrow> sentinel \<Rightarrow> bool" where
  "err_is (Sentinel s) t = (s = t)"
| "err_is (Msg _) t = False"
| "err_is (Wrap1 _ e) t = err_is e t"
| "err_is (WrapN _ es) t = list_ex (\<lambda>e. err_is e t) es"
| "err_is (Joined es) t = list_ex (\<lambda>e. err_is e t) es"
| "err_is (EntryError _ _ e) t = err_is e t"
| "err_is (UsageError e) t = err_is e t"
| "err_is (HTTPStatus _) t = False"

text \<open>\<open>errors.As\<close> for the error with a status code: the first one of the same search.\<close>

fun err_status :: "gerr \<Rightarrow> int option" where
  "err_status (HTTPStatus c) = Some c"
| "err_status (Wrap1 _ e) = err_status e"
| "err_status (WrapN _ es) =
     fold (\<lambda>e acc. case acc of Some c \<Rightarrow> Some c | None \<Rightarrow> e) (map err_status es) None"
| "err_status (Joined es) =
     fold (\<lambda>e acc. case acc of Some c \<Rightarrow> Some c | None \<Rightarrow> e) (map err_status es) None"
| "err_status (EntryError _ _ e) = err_status e"
| "err_status (UsageError e) = err_status e"
| "err_status (Sentinel _) = None"
| "err_status (Msg _) = None"

text \<open>
  \<open>errors.Join\<close> drops nil errors, and returns nil when none is left. A nil error is \<open>None\<close>.
\<close>

definition errors_Join :: "gerr option list \<Rightarrow> gerr option" where
  "errors_Join es = (let rs = List.map_filter id es in if rs = [] then None else Some (Joined rs))"

definition join_errs :: "gerr list \<Rightarrow> gerr option" where
  "join_errs es = (if es = [] then None else Some (Joined es))"

lemma errors_Join_Some: "errors_Join (map Some es) = join_errs es"
proof -
  have "List.map_filter id (map Some es) = es"
    by (induction es) (simp_all add: List.map_filter_simps)
  then show ?thesis by (simp add: errors_Join_def join_errs_def)
qed

lemma join_errs_None [simp]: "join_errs es = None \<longleftrightarrow> es = []"
  by (simp add: join_errs_def)

section \<open>Results and state passing\<close>

datatype 'a res = Ok 'a | Err gerr | Panic

type_synonym ('w, 'a) io = "'w \<Rightarrow> 'a res \<times> 'w"

definition ret :: "'a \<Rightarrow> ('w, 'a) io" where
  "ret x w = (Ok x, w)"

definition throw :: "gerr \<Rightarrow> ('w, 'a) io" where
  "throw e w = (Err e, w)"

text \<open>A pure computation, inside the state passing.\<close>

definition pure_res :: "'a res \<Rightarrow> ('w, 'a) io" where
  "pure_res r w = (r, w)"

text \<open>\<open>x, err := m(); if err != nil { return err }; f x\<close>\<close>

definition ebind :: "('w, 'a) io \<Rightarrow> ('a \<Rightarrow> ('w, 'b) io) \<Rightarrow> ('w, 'b) io" where
  "ebind m f w =
     (case m w of
        (Ok x, w') \<Rightarrow> f x w'
      | (Err e, w') \<Rightarrow> (Err e, w')
      | (Panic, w') \<Rightarrow> (Panic, w'))"

text \<open>\<open>x, err := m()\<close>, with both results at hand.\<close>

definition attempt :: "('w, 'a) io \<Rightarrow> ('w, gerr + 'a) io" where
  "attempt m w =
     (case m w of
        (Ok x, w') \<Rightarrow> (Ok (Inr x), w')
      | (Err e, w') \<Rightarrow> (Ok (Inl e), w')
      | (Panic, w') \<Rightarrow> (Panic, w'))"

text \<open>\<open>if err := m(); err != nil { return g(err) }\<close>\<close>

definition map_err :: "(gerr \<Rightarrow> gerr) \<Rightarrow> ('w, 'a) io \<Rightarrow> ('w, 'a) io" where
  "map_err g m w =
     (case m w of
        (Ok x, w') \<Rightarrow> (Ok x, w')
      | (Err e, w') \<Rightarrow> (Err (g e), w')
      | (Panic, w') \<Rightarrow> (Panic, w'))"

text \<open>A loop over a slice that returns at the first error.\<close>

fun for_each :: "('a \<Rightarrow> ('w, unit) io) \<Rightarrow> 'a list \<Rightarrow> ('w, unit) io" where
  "for_each f [] = ret ()"
| "for_each f (x # xs) = ebind (f x) (\<lambda>_. for_each f xs)"

text \<open>A loop that collects the errors of its rounds and never stops on one.\<close>

fun collect_errs :: "('a \<Rightarrow> ('w, unit) io) \<Rightarrow> 'a list \<Rightarrow> ('w, gerr list) io" where
  "collect_errs f [] = ret []"
| "collect_errs f (x # xs) =
     ebind (attempt (f x)) (\<lambda>r.
     ebind (collect_errs f xs) (\<lambda>es.
       ret (case r of Inl e \<Rightarrow> e # es | Inr _ \<Rightarrow> es)))"

definition raise_opt :: "gerr option \<Rightarrow> ('w, unit) io" where
  "raise_opt e = (case e of None \<Rightarrow> ret () | Some x \<Rightarrow> throw x)"

lemma ret_Ok [io_ok, simp]: "ret x w = (Ok y, w') \<longleftrightarrow> y = x \<and> w' = w"
  by (auto simp: ret_def)

lemma ret_Err [io_ok, simp]: "ret x w = (Err e, w') \<longleftrightarrow> False"
  by (simp add: ret_def)

lemma ret_Panic [io_ok, simp]: "ret x w = (Panic, w') \<longleftrightarrow> False"
  by (simp add: ret_def)

lemma throw_Ok [io_ok, simp]: "throw e w = (Ok y, w') \<longleftrightarrow> False"
  by (simp add: throw_def)

lemma throw_Err [io_ok, simp]: "throw e w = (Err e', w') \<longleftrightarrow> e' = e \<and> w' = w"
  by (auto simp: throw_def)

lemma throw_Panic [io_ok, simp]: "throw e w = (Panic, w') \<longleftrightarrow> False"
  by (simp add: throw_def)

lemma pure_res_eq [io_ok, simp]: "pure_res r w = (r', w') \<longleftrightarrow> r = r' \<and> w' = w"
  by (auto simp: pure_res_def)

text \<open>A step with nothing left to do, for any result.\<close>

lemma ret_run: "ret x w = (r, w') \<longleftrightarrow> r = Ok x \<and> w' = w"
  by (auto simp: ret_def)

lemma throw_run: "throw e w = (r, w') \<longleftrightarrow> r = Err e \<and> w' = w"
  by (auto simp: throw_def)

lemma ebind_Ok [io_ok]:
  "ebind m f w = (Ok y, w') \<longleftrightarrow> (\<exists>x w1. m w = (Ok x, w1) \<and> f x w1 = (Ok y, w'))"
  by (auto simp: ebind_def split: prod.splits res.splits)

lemma ebind_Err:
  "ebind m f w = (Err e, w') \<longleftrightarrow>
     m w = (Err e, w') \<or> (\<exists>x w1. m w = (Ok x, w1) \<and> f x w1 = (Err e, w'))"
  by (auto simp: ebind_def split: prod.splits res.splits)

lemma ebind_Panic:
  "ebind m f w = (Panic, w') \<longleftrightarrow>
     m w = (Panic, w') \<or> (\<exists>x w1. m w = (Ok x, w1) \<and> f x w1 = (Panic, w'))"
  by (auto simp: ebind_def split: prod.splits res.splits)

text \<open>A sequence either goes on after a normal return or ends in the first part.\<close>

lemma ebindE:
  assumes "ebind m f w = (r, w')"
  obtains (Next) x w1 where "m w = (Ok x, w1)" "f x w1 = (r, w')"
  | (Stop) r0 where "m w = (r0, w')" "\<And>x. r0 \<noteq> Ok x" "\<And>y. r \<noteq> Ok y"
      "\<And>e. r = Err e \<Longrightarrow> r0 = Err e"
  using assms by (auto simp: ebind_def split: prod.splits res.splits)

lemma attempt_Ok [io_ok]:
  "attempt m w = (Ok r, w') \<longleftrightarrow>
     (case r of Inl e \<Rightarrow> m w = (Err e, w') | Inr x \<Rightarrow> m w = (Ok x, w'))"
  by (auto simp: attempt_def split: prod.splits res.splits sum.splits)

lemma attempt_Err [io_ok, simp]: "attempt m w = (Err e, w') \<longleftrightarrow> False"
  by (auto simp: attempt_def split: prod.splits res.splits)

lemma attempt_Panic: "attempt m w = (Panic, w') \<longleftrightarrow> m w = (Panic, w')"
  by (auto simp: attempt_def split: prod.splits res.splits)

text \<open>A call whose error the caller looks at.\<close>

lemma ebind_attempt_Ok:
  "ebind (attempt m) f w = (Ok y, w') \<longleftrightarrow>
     (\<exists>x w1. m w = (Ok x, w1) \<and> f (Inr x) w1 = (Ok y, w')) \<or>
     (\<exists>e w1. m w = (Err e, w1) \<and> f (Inl e) w1 = (Ok y, w'))"
  by (auto simp: ebind_def attempt_def split: prod.splits res.splits)

lemma ebind_attempt_Err:
  "ebind (attempt m) f w = (Err y, w') \<longleftrightarrow>
     (\<exists>x w1. m w = (Ok x, w1) \<and> f (Inr x) w1 = (Err y, w')) \<or>
     (\<exists>e w1. m w = (Err e, w1) \<and> f (Inl e) w1 = (Err y, w'))"
  by (auto simp: ebind_def attempt_def split: prod.splits res.splits)

lemma ebind_attemptE:
  assumes "ebind (attempt m) f w = (r, w')"
  obtains (Val) x w1 where "m w = (Ok x, w1)" "f (Inr x) w1 = (r, w')"
  | (Fail) e w1 where "m w = (Err e, w1)" "f (Inl e) w1 = (r, w')"
  | (Stop) "m w = (Panic, w')" "r = Panic"
  using assms by (auto simp: ebind_def attempt_def split: prod.splits res.splits)

text \<open>Steps that touch no world.\<close>

lemma ebind_pure [simp]:
  "ebind (ret x) f = f x" "ebind (pure_res (Ok x)) f = f x"
  "ebind (throw e) f = throw e" "ebind (pure_res (Err e)) f = throw e"
  "ebind (pure_res Panic) f = pure_res Panic"
  by (rule ext, simp add: ebind_def ret_def throw_def pure_res_def)+

lemma ebind_assoc: "ebind (ebind m f) g = ebind m (\<lambda>x. ebind (f x) g)"
  by (rule ext) (simp add: ebind_def split: prod.splits res.splits)

lemma attempt_pure [simp]:
  "attempt (ret x) = ret (Inr x)" "attempt (throw e) = ret (Inl e)"
  by (rule ext, simp add: attempt_def ret_def throw_def)+

lemma map_err_Ok [io_ok]: "map_err g m w = (Ok x, w') \<longleftrightarrow> m w = (Ok x, w')"
  by (auto simp: map_err_def split: prod.splits res.splits)

lemma map_err_Err: "map_err g m w = (Err e, w') \<longleftrightarrow> (\<exists>e0. m w = (Err e0, w') \<and> e = g e0)"
  by (auto simp: map_err_def split: prod.splits res.splits)

lemma map_err_Panic: "map_err g m w = (Panic, w') \<longleftrightarrow> m w = (Panic, w')"
  by (auto simp: map_err_def split: prod.splits res.splits)

lemma raise_opt_Ok [io_ok]: "raise_opt e w = (Ok u, w') \<longleftrightarrow> e = None \<and> w' = w"
  by (auto simp: raise_opt_def split: option.splits)

text \<open>Evaluation on a known result, for witnesses.\<close>

lemma ebind_eval [io_simps]: "m w = (Ok x, w1) \<Longrightarrow> ebind m f w = f x w1"
  and ebind_eval_Err [io_simps]: "m w = (Err e, w1) \<Longrightarrow> ebind m f w = (Err e, w1)"
  by (simp_all add: ebind_def)

lemmas io_defs = ret_def throw_def pure_res_def ebind_def attempt_def map_err_def raise_opt_def

section \<open>What a computation keeps\<close>

text \<open>
  \<open>moves R m\<close>: whatever \<open>m\<close> returns, the world moves along \<open>R\<close>. With \<open>R\<close> reflexive and
  transitive the combinators preserve it, so a property of an operation follows from the
  properties of the calls it makes.
\<close>

definition moves :: "('w \<Rightarrow> 'w \<Rightarrow> bool) \<Rightarrow> ('w, 'a) io \<Rightarrow> bool" where
  "moves R m \<longleftrightarrow> (\<forall>w. R w (snd (m w)))"

lemma movesD: "moves R m \<Longrightarrow> m w = (r, w') \<Longrightarrow> R w w'"
  unfolding moves_def by (metis snd_conv)

lemma movesI: "(\<And>w r w'. m w = (r, w') \<Longrightarrow> R w w') \<Longrightarrow> moves R m"
  unfolding moves_def by (metis prod.collapse)

lemma moves_ret [keeps_intros]: "reflp R \<Longrightarrow> moves R (ret x)"
  by (simp add: moves_def ret_def reflpD)

lemma moves_throw [keeps_intros]: "reflp R \<Longrightarrow> moves R (throw e)"
  by (simp add: moves_def throw_def reflpD)

lemma moves_pure_res [keeps_intros]: "reflp R \<Longrightarrow> moves R (pure_res r)"
  by (simp add: moves_def pure_res_def reflpD)

lemma moves_ebind [keeps_intros]:
  assumes "transp R" "moves R m" "\<And>x. moves R (f x)"
  shows "moves R (ebind m f)"
proof (rule movesI)
  fix w r w'
  assume run: "ebind m f w = (r, w')"
  show "R w w'"
  proof (cases r)
    case (Ok y)
    with run obtain x w1 where "m w = (Ok x, w1)" "f x w1 = (Ok y, w')"
      by (auto simp: ebind_Ok)
    with assms show ?thesis by (meson movesD transpD)
  next
    case (Err e)
    with run assms show ?thesis by (auto simp: ebind_Err dest: movesD transpD)
  next
    case Panic
    with run assms show ?thesis by (auto simp: ebind_Panic dest: movesD transpD)
  qed
qed

text \<open>What follows need only be shown for the values the first part can give.\<close>

lemma moves_ebind_run:
  assumes "transp R" "moves R m" "\<And>w x w'. m w = (Ok x, w') \<Longrightarrow> moves R (f x)"
  shows "moves R (ebind m f)"
proof (rule movesI)
  fix w r w'
  assume "ebind m f w = (r, w')"
  then show "R w w'"
  proof (cases rule: ebindE)
    case (Next x w1)
    with assms show ?thesis by (meson movesD transpD)
  next
    case (Stop r0)
    with assms(2) show ?thesis by (blast dest: movesD)
  qed
qed

lemma moves_attempt [keeps_intros]: "moves R m \<Longrightarrow> moves R (attempt m)"
  unfolding moves_def attempt_def by (auto split: prod.splits res.splits) (metis snd_conv)+

lemma moves_map_err [keeps_intros]: "moves R m \<Longrightarrow> moves R (map_err g m)"
  unfolding moves_def map_err_def by (auto split: prod.splits res.splits) (metis snd_conv)+

lemma moves_for_each [keeps_intros]:
  assumes "reflp R" "transp R" "\<And>x. x \<in> set xs \<Longrightarrow> moves R (f x)"
  shows "moves R (for_each f xs)"
  using assms by (induction xs) (auto intro!: moves_ret moves_ebind)

lemma moves_collect_errs [keeps_intros]:
  assumes "reflp R" "transp R" "\<And>x. x \<in> set xs \<Longrightarrow> moves R (f x)"
  shows "moves R (collect_errs f xs)"
  using assms by (induction xs) (auto intro!: moves_ret moves_ebind moves_attempt)

lemma moves_raise_opt [keeps_intros]: "reflp R \<Longrightarrow> moves R (raise_opt e)"
  by (auto simp: raise_opt_def intro: keeps_intros split: option.splits)

lemma for_each_Ok:
  assumes "for_each f xs w = (Ok u, w')" "x \<in> set xs" "transp R" "reflp R"
    and "\<And>y. y \<in> set xs \<Longrightarrow> moves R (f y)"
  shows "\<exists>w1 w2. R w w1 \<and> f x w1 = (Ok (), w2) \<and> R w2 w'"
  using assms
proof (induction xs arbitrary: w)
  case Nil
  then show ?case by simp
next
  case (Cons y ys)
  from Cons.prems(1) obtain w1 where y: "f y w = (Ok (), w1)" and rest: "for_each f ys w1 = (Ok u, w')"
    by (auto simp: ebind_Ok)
  have step: "R w w1" using movesD [OF Cons.prems(5) y] by simp
  have tail: "R w1 w'"
    using movesD [OF moves_for_each rest] Cons.prems by auto
  show ?case
  proof (cases "x = y")
    case True
    with y tail Cons.prems(4) show ?thesis by (auto dest: reflpD)
  next
    case False
    with Cons.prems obtain u1 u2 where "R w1 u1" "f x u1 = (Ok (), u2)" "R u2 w'"
      using Cons.IH [OF rest] by auto
    with step Cons.prems(3) show ?thesis by (blast dest: transpD)
  qed
qed

text \<open>A collecting loop that collects nothing ran every round without an error.\<close>

lemma collect_errs_no_Err: "collect_errs f xs w \<noteq> (Err e, w')"
  by (induction xs arbitrary: w) (auto simp: ebind_Err attempt_Err)

lemma collect_errs_Nil:
  assumes "collect_errs f xs w = (Ok [], w')" "x \<in> set xs" "transp R" "reflp R"
    and "\<And>y. y \<in> set xs \<Longrightarrow> moves R (f y)"
  shows "\<exists>w1 w2. R w w1 \<and> f x w1 = (Ok (), w2) \<and> R w2 w'"
  using assms
proof (induction xs arbitrary: w)
  case Nil
  then show ?case by simp
next
  case (Cons y ys)
  from Cons.prems(1) obtain w1 where y: "f y w = (Ok (), w1)" and rest: "collect_errs f ys w1 = (Ok [], w')"
    unfolding collect_errs.simps by (cases rule: ebind_attemptE) (auto simp: ebind_Ok)
  have step: "R w w1" using movesD [OF Cons.prems(5) y] by simp
  have tail: "R w1 w'" using movesD [OF moves_collect_errs rest] Cons.prems by auto
  show ?case
  proof (cases "x = y")
    case True
    with y tail Cons.prems(4) show ?thesis by (auto dest: reflpD)
  next
    case False
    with Cons.prems obtain u1 u2 where "R w1 u1" "f x u1 = (Ok (), u2)" "R u2 w'"
      using Cons.IH [OF rest] by auto
    with step Cons.prems(3) show ?thesis by (blast dest: transpD)
  qed
qed

text \<open>A loop whose rounds all return without an error.\<close>

lemma for_each_up:
  assumes "\<And>x w. x \<in> set xs \<Longrightarrow> I w \<Longrightarrow> \<exists>w'. f x w = (Ok (), w') \<and> I w'" and "I w"
  shows "\<exists>w'. for_each f xs w = (Ok (), w') \<and> I w'"
  using assms
proof (induction xs arbitrary: w)
  case Nil
  then show ?case by simp
next
  case (Cons x xs)
  then obtain w1 where "f x w = (Ok (), w1)" "I w1" by (meson list.set_intros(1))
  with Cons.IH [of w1] Cons.prems show ?case by (auto simp: ebind_Ok)
qed

text \<open>\<open>keeps I m\<close>: a one-state invariant, the case of \<open>moves\<close> every component's invariant uses.\<close>

abbreviation keeps :: "('w \<Rightarrow> bool) \<Rightarrow> ('w, 'a) io \<Rightarrow> bool" where
  "keeps I m \<equiv> moves (\<lambda>w w'. I w \<longrightarrow> I w') m"

lemma keeps_refl_trans [simp]:
  "reflp (\<lambda>w w'. I w \<longrightarrow> I w')" "transp (\<lambda>w w'. I w \<longrightarrow> I w')"
  by (auto intro!: reflpI transpI)

section \<open>Signed 64-bit integers\<close>

text \<open>
  Sizes are \<open>int64\<close> in the code. They are integers here, and every sum the code forms is reduced
  to two's complement, as Go's addition wraps around.
\<close>

definition wrap64 :: "int \<Rightarrow> int" where
  "wrap64 n = (n + 2 ^ 63) mod 2 ^ 64 - 2 ^ 63"

definition in_int64 :: "int \<Rightarrow> bool" where
  "in_int64 n \<longleftrightarrow> - (2 ^ 63) \<le> n \<and> n < 2 ^ 63"

lemma wrap64_id: "in_int64 n \<Longrightarrow> wrap64 n = n"
  by (simp add: wrap64_def in_int64_def)

lemma wrap64_range: "in_int64 (wrap64 n)"
  by (simp add: wrap64_def in_int64_def)

lemma wrap64_add: "wrap64 (wrap64 a + b) = wrap64 (a + b)"
proof -
  have "((a + 2 ^ 63) mod 2 ^ 64 - 2 ^ 63 + b + 2 ^ 63) mod (2 ^ 64 :: int)
      = ((a + 2 ^ 63) mod 2 ^ 64 + b) mod 2 ^ 64"
    by simp
  also have "\<dots> = (a + 2 ^ 63 + b) mod 2 ^ 64"
    by (rule mod_add_left_eq)
  also have "\<dots> = (a + b + 2 ^ 63) mod 2 ^ 64"
    by (simp only: ac_simps)
  finally show ?thesis by (simp add: wrap64_def)
qed

end
