(* ===== verification/Go_Strings.thy ===== *)
theory Go_Strings
  imports Oci_Prelude
begin

text \<open>
  The functions of Go's \<open>strings\<close> and \<open>path\<close> packages the program uses, on byte strings: cutting,
  splitting and joining, and the lexical path cleaning behind \<open>path.Join\<close>. The lemmas give the
  facts the store's path layout rests on: splitting inverts joining, and cleaning is the identity
  on a path of plain segments.
\<close>

section \<open>Package strings\<close>

definition has_prefix :: "string \<Rightarrow> string \<Rightarrow> bool" where
  "has_prefix s p \<longleftrightarrow> take (length p) s = p"

definition has_suffix :: "string \<Rightarrow> string \<Rightarrow> bool" where
  "has_suffix s p \<longleftrightarrow> length p \<le> length s \<and> drop (length s - length p) s = p"

text \<open>\<open>strings.CutPrefix\<close> and \<open>strings.CutSuffix\<close>: \<open>None\<close> when the boolean result is false.\<close>

definition cut_prefix :: "string \<Rightarrow> string \<Rightarrow> string option" where
  "cut_prefix s p = (if has_prefix s p then Some (drop (length p) s) else None)"

definition cut_suffix :: "string \<Rightarrow> string \<Rightarrow> string option" where
  "cut_suffix s p = (if has_suffix s p then Some (take (length s - length p) s) else None)"

definition trim_suffix :: "string \<Rightarrow> string \<Rightarrow> string" where
  "trim_suffix s p = (case cut_suffix s p of Some t \<Rightarrow> t | None \<Rightarrow> s)"

text \<open>\<open>strings.Cut\<close>: the text before and after the first occurrence of the separator.\<close>

fun cut :: "string \<Rightarrow> string \<Rightarrow> (string \<times> string) option" where
  "cut [] sep = (if sep = [] then Some ([], []) else None)"
| "cut (c # s) sep =
     (if has_prefix (c # s) sep then Some ([], drop (length sep) (c # s))
      else case cut s sep of None \<Rightarrow> None | Some (a, b) \<Rightarrow> Some (c # a, b))"

text \<open>\<open>strings.Split\<close> with a separator of one byte; it never returns an empty slice.\<close>

fun split_on :: "char \<Rightarrow> string \<Rightarrow> string list" where
  "split_on c [] = [[]]"
| "split_on c (x # xs) =
     (if x = c then [] # split_on c xs
      else case split_on c xs of [] \<Rightarrow> [[x]] | y # ys \<Rightarrow> (x # y) # ys)"

text \<open>\<open>strings.Join\<close> with a separator of one byte.\<close>

fun join_on :: "char \<Rightarrow> string list \<Rightarrow> string" where
  "join_on c [] = []"
| "join_on c [x] = x"
| "join_on c (x # y # ys) = x @ c # join_on c (y # ys)"

text \<open>\<open>strings.Trim\<close> with a cutset of one byte.\<close>

definition trim_char :: "char \<Rightarrow> string \<Rightarrow> string" where
  "trim_char c s = rev (dropWhile (\<lambda>x. x = c) (rev (dropWhile (\<lambda>x. x = c) s)))"

text \<open>\<open>strings.ToLower\<close> and \<open>strings.ToUpper\<close> on ASCII bytes.\<close>

definition lower_char :: "char \<Rightarrow> char" where
  "lower_char c =
     (let n = of_char c :: nat in if 65 \<le> n \<and> n \<le> 90 then char_of (n + 32) else c)"

definition upper_char :: "char \<Rightarrow> char" where
  "upper_char c =
     (let n = of_char c :: nat in if 97 \<le> n \<and> n \<le> 122 then char_of (n - 32) else c)"

definition to_lower :: "string \<Rightarrow> string" where
  "to_lower s = map lower_char s"

definition to_upper :: "string \<Rightarrow> string" where
  "to_upper s = map upper_char s"

lemma has_prefix_iff: "has_prefix s p \<longleftrightarrow> (\<exists>t. s = p @ t)"
  unfolding has_prefix_def by (metis append_eq_conv_conj append_take_drop_id)

lemma has_prefix_append [simp]: "has_prefix (p @ t) p"
  by (simp add: has_prefix_def)

lemma cut_prefix_append [simp]: "cut_prefix (p @ t) p = Some t"
  by (simp add: cut_prefix_def)

lemma cut_prefix_Some: "cut_prefix s p = Some t \<longleftrightarrow> s = p @ t"
  unfolding cut_prefix_def by (auto simp: has_prefix_iff)

lemma has_suffix_append [simp]: "has_suffix (t @ p) p"
  by (simp add: has_suffix_def)

lemma cut_suffix_append [simp]: "cut_suffix (t @ p) p = Some t"
  by (simp add: cut_suffix_def)

lemma cut_suffix_Some: "cut_suffix s p = Some t \<longleftrightarrow> s = t @ p"
proof
  assume *: "cut_suffix s p = Some t"
  then have "drop (length s - length p) s = p" and "t = take (length s - length p) s"
    by (auto simp: cut_suffix_def has_suffix_def split: if_splits)
  then show "s = t @ p" by (metis append_take_drop_id)
qed simp

lemma cut_Some: "cut s sep = Some (a, b) \<Longrightarrow> s = a @ sep @ b"
  by (induction s sep arbitrary: a b rule: cut.induct)
    (auto simp: has_prefix_iff split: if_splits option.splits)

lemma cut_char: "c \<notin> set a \<Longrightarrow> cut (a @ c # b) [c] = Some (a, b)"
  by (induction a) (auto simp: has_prefix_def)

lemma cut_char_None: "cut s [c] = None \<longleftrightarrow> c \<notin> set s"
  by (induction s "[c]" rule: cut.induct) (auto simp: has_prefix_def split: option.splits)

lemma cut_char_Some: "cut s [c] = Some (a, b) \<longleftrightarrow> s = a @ c # b \<and> c \<notin> set a"
proof
  show "cut s [c] = Some (a, b) \<Longrightarrow> s = a @ c # b \<and> c \<notin> set a"
    by (induction s "[c]" arbitrary: a b rule: cut.induct)
      (auto simp: has_prefix_def split: if_splits option.splits)
qed (auto simp: cut_char)

lemma split_on_nonempty [simp]: "split_on c s \<noteq> []"
  by (cases s) (auto split: list.splits)

lemma join_split [simp]: "join_on c (split_on c s) = s"
proof (induction s)
  case (Cons x s)
  obtain y ys where *: "split_on c s = y # ys" by (cases "split_on c s") auto
  with Cons show ?case by (cases ys) auto
qed simp

lemma split_on_free: "c \<notin> set s \<Longrightarrow> split_on c s = [s]"
  by (induction s) auto

lemma split_on_append: "c \<notin> set a \<Longrightarrow> split_on c (a @ c # b) = a # split_on c b"
  by (induction a) auto

lemma split_on_concat: "split_on c (a @ c # b) = split_on c a @ split_on c b"
proof (induction a)
  case (Cons x a)
  obtain y ys where "split_on c a = y # ys" by (cases "split_on c a") auto
  with Cons show ?case by simp
qed simp

lemma split_join: "xs \<noteq> [] \<Longrightarrow> (\<And>x. x \<in> set xs \<Longrightarrow> c \<notin> set x) \<Longrightarrow> split_on c (join_on c xs) = xs"
  by (induction c xs rule: join_on.induct) (auto simp: split_on_free split_on_append)

lemma split_on_parts: "x \<in> set (split_on c s) \<Longrightarrow> c \<notin> set x"
proof (induction s arbitrary: x)
  case (Cons a s)
  obtain y ys where "split_on c s = y # ys" by (cases "split_on c s") auto
  with Cons show ?case by (auto split: if_splits)
qed simp

lemma join_on_append:
  "xs \<noteq> [] \<Longrightarrow> ys \<noteq> [] \<Longrightarrow> join_on c (xs @ ys) = join_on c xs @ c # join_on c ys"
  by (induction c xs rule: join_on.induct) (auto simp: neq_Nil_conv)

lemma join_on_Cons: "join_on c (x # xs) = (if xs = [] then x else x @ c # join_on c xs)"
  by (cases xs) auto

lemma join_on_inject:
  assumes "join_on c xs = join_on c ys" "xs \<noteq> []" "ys \<noteq> []"
    and "\<And>x. x \<in> set xs \<Longrightarrow> c \<notin> set x" "\<And>x. x \<in> set ys \<Longrightarrow> c \<notin> set x"
  shows "xs = ys"
  using assms by (metis split_join)

section \<open>Package path\<close>

text \<open>
  \<open>path.Clean\<close> works on the segments between slashes: empty and \<open>.\<close> segments are dropped, \<open>..\<close>
  removes the segment before it, and is dropped at the root of a rooted path.
\<close>

fun clean_segs :: "bool \<Rightarrow> string list \<Rightarrow> string list \<Rightarrow> string list" where
  "clean_segs rooted acc [] = rev acc"
| "clean_segs rooted acc (x # xs) =
     (if x = [] \<or> x = ''.'' then clean_segs rooted acc xs
      else if x = ''..'' then
        (case acc of
           [] \<Rightarrow> clean_segs rooted (if rooted then [] else [''..'']) xs
         | a # as \<Rightarrow> clean_segs rooted (if a = ''..'' then x # acc else as) xs)
      else clean_segs rooted (x # acc) xs)"

definition path_Clean :: "string \<Rightarrow> string" where
  "path_Clean s =
     (let rooted = has_prefix s ''/'';
          segs = clean_segs rooted [] (split_on CHR ''/'' s)
      in if rooted then CHR ''/'' # join_on CHR ''/'' segs
         else if segs = [] then ''.'' else join_on CHR ''/'' segs)"

definition path_Join :: "string list \<Rightarrow> string" where
  "path_Join es =
     (let ne = filter (\<lambda>e. e \<noteq> []) es
      in if ne = [] then [] else path_Clean (join_on CHR ''/'' ne))"

text \<open>\<open>path.Base\<close>: the last segment, after trailing slashes are removed.\<close>

definition path_Base :: "string \<Rightarrow> string" where
  "path_Base s =
     (if s = [] then ''.''
      else let t = rev (dropWhile (\<lambda>c. c = CHR ''/'') (rev s))
           in if t = [] then ''/'' else last (split_on CHR ''/'' t))"

text \<open>\<open>path.Dir\<close>: everything before the last slash, cleaned.\<close>

definition path_Dir :: "string \<Rightarrow> string" where
  "path_Dir s = path_Clean (rev (dropWhile (\<lambda>c. c \<noteq> CHR ''/'') (rev s)))"

text \<open>
  A plain segment is one that cleaning leaves alone and that is not a hidden file: not empty, no
  slash, no leading dot.
\<close>

definition plain_seg :: "string \<Rightarrow> bool" where
  "plain_seg x \<longleftrightarrow> x \<noteq> [] \<and> hd x \<noteq> CHR ''.'' \<and> CHR ''/'' \<notin> set x"

text \<open>What cleaning leaves alone; a hidden file's name is also such a segment.\<close>

definition clean_seg :: "string \<Rightarrow> bool" where
  "clean_seg x \<longleftrightarrow> x \<noteq> [] \<and> x \<noteq> ''.'' \<and> x \<noteq> ''..'' \<and> CHR ''/'' \<notin> set x"

lemma plain_clean [simp]: "plain_seg x \<Longrightarrow> clean_seg x"
  by (auto simp: plain_seg_def clean_seg_def)

lemma clean_segs_clean: "(\<And>x. x \<in> set xs \<Longrightarrow> clean_seg x) \<Longrightarrow> clean_segs r acc xs = rev acc @ xs"
  by (induction xs arbitrary: acc) (auto simp: clean_seg_def)

lemma clean_segs_append:
  "(\<And>x. x \<in> set xs \<Longrightarrow> clean_seg x) \<Longrightarrow>
     clean_segs r acc (xs @ ys) = clean_segs r (rev xs @ acc) ys"
  by (induction xs arbitrary: acc) (auto simp: clean_seg_def)

lemma clean_seg_hd: "clean_seg x \<Longrightarrow> \<not> has_prefix (x @ t) ''/''"
  by (cases x) (auto simp: clean_seg_def has_prefix_def)

lemma join_not_rooted: "xs \<noteq> [] \<Longrightarrow> clean_seg (hd xs) \<Longrightarrow> \<not> has_prefix (join_on CHR ''/'' xs) ''/''"
proof (cases xs)
  case (Cons a list)
  moreover assume "clean_seg (hd xs)"
  ultimately show ?thesis
    using clean_seg_hd [of a] clean_seg_hd [of a "[]"] by (simp add: join_on_Cons)
qed simp

lemma path_Clean_clean:
  assumes "xs \<noteq> []" "\<And>x. x \<in> set xs \<Longrightarrow> clean_seg x"
  shows "path_Clean (join_on CHR ''/'' xs) = join_on CHR ''/'' xs"
proof -
  have "split_on CHR ''/'' (join_on CHR ''/'' xs) = xs"
    using assms by (intro split_join) (auto simp: clean_seg_def)
  moreover have "\<not> has_prefix (join_on CHR ''/'' xs) ''/''"
    using assms by (intro join_not_rooted) auto
  ultimately show ?thesis
    using assms by (simp add: path_Clean_def clean_segs_clean Let_def)
qed

lemma path_Clean_plain [path_simps]:
  "xs \<noteq> [] \<Longrightarrow> (\<And>x. x \<in> set xs \<Longrightarrow> plain_seg x) \<Longrightarrow>
     path_Clean (join_on CHR ''/'' xs) = join_on CHR ''/'' xs"
  by (rule path_Clean_clean) simp_all

lemma join_on_plain_nonempty: "xs \<noteq> [] \<Longrightarrow> clean_seg (hd xs) \<Longrightarrow> join_on c xs \<noteq> []"
  by (cases xs) (auto simp: join_on_Cons clean_seg_def)

lemma join_concat:
  assumes "xss \<noteq> []" "\<And>xs. xs \<in> set xss \<Longrightarrow> xs \<noteq> []"
  shows "join_on c (map (join_on c) xss) = join_on c (concat xss)"
  using assms
proof (induction xss)
  case (Cons xs xss)
  show ?case
  proof (cases "xss = []")
    case False
    moreover have "concat xss \<noteq> []" using Cons.prems False by (cases xss) auto
    ultimately show ?thesis using Cons by (simp add: join_on_Cons join_on_append)
  qed simp
qed simp

text \<open>
  \<open>path.Join\<close> of elements that are themselves paths of plain segments concatenates the segments.
\<close>

lemma path_Join_clean:
  assumes "xss \<noteq> []" "\<And>xs. xs \<in> set xss \<Longrightarrow> xs \<noteq> [] \<and> (\<forall>x \<in> set xs. clean_seg x)"
  shows "path_Join (map (join_on CHR ''/'') xss) = join_on CHR ''/'' (concat xss)"
proof -
  have ne: "join_on CHR ''/'' xs \<noteq> []" if "xs \<in> set xss" for xs
    using assms(2) [OF that] by (intro join_on_plain_nonempty) (auto simp: list.set_sel)
  then have "filter (\<lambda>e. e \<noteq> []) (map (join_on CHR ''/'') xss) = map (join_on CHR ''/'') xss"
    by (auto simp: filter_empty_conv filter_id_conv)
  moreover have "path_Clean (join_on CHR ''/'' (concat xss)) = join_on CHR ''/'' (concat xss)"
    using assms by (intro path_Clean_clean) (auto simp: neq_Nil_conv)
  ultimately show ?thesis
    using assms by (simp add: path_Join_def join_concat)
qed

lemma path_Join_plain [path_simps]:
  "xss \<noteq> [] \<Longrightarrow> (\<And>xs. xs \<in> set xss \<Longrightarrow> xs \<noteq> [] \<and> (\<forall>x \<in> set xs. plain_seg x)) \<Longrightarrow>
     path_Join (map (join_on CHR ''/'') xss) = join_on CHR ''/'' (concat xss)"
  by (rule path_Join_clean) simp_all

lemma path_Join_list_all [path_simps]:
  "xss \<noteq> [] \<Longrightarrow> list_all (\<lambda>xs. xs \<noteq> [] \<and> list_all plain_seg xs) xss \<Longrightarrow>
     path_Join (map (join_on CHR ''/'') xss) = join_on CHR ''/'' (concat xss)"
  by (rule path_Join_plain) (auto simp: list_all_iff)

lemma path_Base_seg:
  assumes x: "x \<noteq> []" "CHR ''/'' \<notin> set x"
  shows "path_Base (join_on CHR ''/'' (xs @ [x])) = x"
proof -
  let ?s = "join_on CHR ''/'' (xs @ [x])"
  have split: "?s = (if xs = [] then x else join_on CHR ''/'' xs @ CHR ''/'' # x)"
    by (simp add: join_on_append)
  then have ne: "?s \<noteq> []" and last: "last ?s = last x" using x by auto
  then have "hd (rev ?s) \<noteq> CHR ''/''" using x by (metis hd_rev last_in_set)
  then have "dropWhile (\<lambda>c. c = CHR ''/'') (rev ?s) = rev ?s"
    using ne by (cases "rev ?s") auto
  moreover have "last (split_on CHR ''/'' ?s) = x"
  proof (cases "xs = []")
    case True
    then show ?thesis using x by (simp add: split_on_free)
  next
    case False
    with split x show ?thesis by (simp add: split_on_concat split_on_free)
  qed
  ultimately show ?thesis using ne by (simp add: path_Base_def)
qed

lemma path_Base_join: "plain_seg x \<Longrightarrow> path_Base (join_on CHR ''/'' (xs @ [x])) = x"
  by (rule path_Base_seg) (simp_all add: plain_seg_def)

lemma path_Dir_join:
  assumes "xs \<noteq> []" "\<And>y. y \<in> set xs \<Longrightarrow> plain_seg y" "CHR ''/'' \<notin> set x"
  shows "path_Dir (join_on CHR ''/'' (xs @ [x])) = join_on CHR ''/'' xs"
proof -
  let ?d = "join_on CHR ''/'' xs"
  have "rev (join_on CHR ''/'' (xs @ [x])) = rev x @ CHR ''/'' # rev ?d"
    using assms(1) by (simp add: join_on_append)
  moreover have "dropWhile (\<lambda>c. c \<noteq> CHR ''/'') (rev x @ CHR ''/'' # rev ?d) = CHR ''/'' # rev ?d"
    using assms(3) by (subst dropWhile_append2) auto
  ultimately have dir: "path_Dir (join_on CHR ''/'' (xs @ [x])) = path_Clean (?d @ ''/'')"
    by (simp add: path_Dir_def)
  have "split_on CHR ''/'' (?d @ ''/'') = xs @ [[]]"
    using assms(1,2) split_on_concat [of "CHR ''/''" ?d "[]"]
    by (simp add: split_join plain_seg_def)
  moreover have "clean_segs r acc (xs @ [[]]) = rev acc @ xs" for r acc
    using assms(2) by (subst clean_segs_append) simp_all
  moreover have "\<not> has_prefix (?d @ ''/'') ''/''"
    using join_not_rooted [of xs] join_on_plain_nonempty [of xs] assms(1,2)
    by (cases ?d) (auto simp: has_prefix_def)
  ultimately show ?thesis
    using assms(1) dir by (simp add: path_Clean_def Let_def)
qed

text \<open>A trailing \<open>.\<close> element is lost in cleaning.\<close>

lemma clean_segs_dot: "clean_segs r acc (xs @ [''.'']) = clean_segs r acc xs"
  by (induction xs arbitrary: r acc) (simp_all split: list.splits)

lemma path_Clean_dot:
  assumes "s \<noteq> []" shows "path_Clean (s @ ''/.'') = path_Clean s"
proof -
  have "split_on CHR ''/'' (s @ ''/.'') = split_on CHR ''/'' s @ [''.'']"
    using split_on_concat [of "CHR ''/''" s "''.''"] by simp
  moreover have "has_prefix (s @ ''/.'') ''/'' = has_prefix s ''/''"
    using assms by (cases s) (simp_all add: has_prefix_def)
  ultimately show ?thesis by (simp add: path_Clean_def clean_segs_dot)
qed

lemma path_Join_dot:
  assumes "s \<noteq> []" shows "path_Join (es @ [s @ ''/.'']) = path_Join (es @ [s])"
proof -
  let ?ne = "filter (\<lambda>e. e \<noteq> []) es"
  have "join_on CHR ''/'' (?ne @ [s @ ''/.'']) = join_on CHR ''/'' (?ne @ [s]) @ ''/.''"
    by (cases "?ne = []") (simp_all add: join_on_append)
  moreover have "join_on CHR ''/'' (?ne @ [s]) \<noteq> []"
    using assms by (cases "?ne = []") (simp_all add: join_on_append)
  ultimately show ?thesis using assms by (simp add: path_Join_def path_Clean_dot)
qed

end
