(* ===== verification/Oci_Types.thy ===== *)
theory Oci_Types
  imports Go_Strings "HOL-Library.Finite_Map"
begin

text \<open>
  Package types (platforms and image references), the OCI data the other packages pass around, and
  the third-party code they call: go-digest, the reference grammar, and the JSON codecs of the
  image-spec structs. That code is the record \<open>oci_lib\<close>, an argument of every definition that uses
  it; the predicates \<open>digest_laws\<close>, \<open>json_laws\<close> and \<open>reference_laws\<close> state the documented
  behaviour the proofs rely on.
\<close>

type_synonym bytes = string

section \<open>OCI image-spec data\<close>

record descriptor =
  d_MediaType :: string
  d_Digest :: string
  d_Size :: int
  d_Annotations :: "(string, string) fmap"
  d_Platform :: "platform option"

record manifest =
  m_MediaType :: string
  m_Config :: descriptor
  m_Layers :: "descriptor list"

record image_index =
  i_Manifests :: "descriptor list"

record image_config =
  c_Platform :: platform
  c_DiffIDs :: "string list"
  c_Created :: "string option"

record image_layout =
  l_Version :: string

definition AnnotationRefName :: string where
  "AnnotationRefName = ''org.opencontainers.image.ref.name''"

definition MediaTypeImageManifest :: string where
  "MediaTypeImageManifest = ''application/vnd.oci.image.manifest.v1+json''"

definition MediaTypeImageIndex :: string where
  "MediaTypeImageIndex = ''application/vnd.oci.image.index.v1+json''"

definition MediaTypeImageConfig :: string where
  "MediaTypeImageConfig = ''application/vnd.oci.image.config.v1+json''"

definition MediaTypeImageLayerGzip :: string where
  "MediaTypeImageLayerGzip = ''application/vnd.oci.image.layer.v1.tar+gzip''"

definition MediaTypeImageLayerZstd :: string where
  "MediaTypeImageLayerZstd = ''application/vnd.oci.image.layer.v1.tar+zstd''"

definition MediaTypeDockerManifest :: string where
  "MediaTypeDockerManifest = ''application/vnd.docker.distribution.manifest.v2+json''"

definition MediaTypeDockerManifestList :: string where
  "MediaTypeDockerManifestList = ''application/vnd.docker.distribution.manifest.list.v2+json''"

text \<open>An annotation lookup: Go's map read gives the zero value for an absent key.\<close>

definition annotation :: "descriptor \<Rightarrow> string \<Rightarrow> string" where
  "annotation d k = (case fmlookup (d_Annotations d) k of None \<Rightarrow> [] | Some v \<Rightarrow> v)"

section \<open>Third-party code as a parameter\<close>

record named_ref =
  n_Name :: string
  n_Tag :: "string option"
  n_Digest :: "string option"

text \<open>
  \<open>digest_Algorithm\<close> and \<open>digest_Encoded\<close> are \<open>None\<close> where go-digest panics (no colon in the
  digest). \<open>digest_Digester a b\<close> is the digest the algorithm \<open>a\<close> computes for the content \<open>b\<close>.
  The decoders are \<open>json.Unmarshal\<close> into the image-spec struct.
\<close>

record oci_lib =
  digest_Algorithm :: "string \<Rightarrow> string option"
  digest_Encoded :: "string \<Rightarrow> string option"
  digest_Validate :: "string \<Rightarrow> gerr option"
  digest_NewFromEncoded :: "string \<Rightarrow> string \<Rightarrow> string"
  digest_FromBytes :: "bytes \<Rightarrow> string"
  digest_Digester :: "string \<Rightarrow> bytes \<Rightarrow> string"
  json_Manifest :: "bytes \<Rightarrow> gerr + manifest"
  json_Index :: "bytes \<Rightarrow> gerr + image_index"
  json_Image :: "bytes \<Rightarrow> gerr + image_config"
  json_Layout :: "bytes \<Rightarrow> gerr + image_layout"
  json_MediaType :: "bytes \<Rightarrow> gerr + string"
  marshal_Index :: "image_index \<Rightarrow> gerr + bytes"
  marshal_Layout :: "image_layout \<Rightarrow> bytes"
  marshal_Manifest :: "manifest \<Rightarrow> gerr + bytes"
  ParseNormalizedNamed :: "string \<Rightarrow> gerr + named_ref"

definition valid_digest :: "oci_lib \<Rightarrow> string \<Rightarrow> bool" where
  "valid_digest L d \<longleftrightarrow> digest_Validate L d = None"

text \<open>A part of a digest as a path segment: it has no slash and does not start with a dot.\<close>

definition digest_seg :: "string \<Rightarrow> bool" where
  "digest_seg x \<longleftrightarrow> x \<noteq> [] \<and> CHR ''/'' \<notin> set x \<and> hd x \<noteq> CHR ''.''"

lemma digest_seg_plain [simp]: "digest_seg x \<Longrightarrow> plain_seg x"
  by (auto simp: digest_seg_def plain_seg_def)

text \<open>
  go-digest: a digest that validates is \<open>algorithm:encoded\<close>, both parts are made of characters that
  are plain path segments, and it is rebuilt from them; \<open>FromBytes\<close> gives a valid digest of the
  canonical algorithm.
\<close>

definition digest_laws :: "oci_lib \<Rightarrow> bool" where
  "digest_laws L \<longleftrightarrow>
     (\<forall>d. digest_Validate L d = None \<longrightarrow>
        (\<exists>a h. digest_Algorithm L d = Some a \<and> digest_Encoded L d = Some h \<and>
               digest_seg a \<and> digest_seg h \<and> digest_NewFromEncoded L a h = d)) \<and>
     (\<forall>b. digest_Validate L (digest_FromBytes L b) = None) \<and>
     (\<forall>a h. digest_NewFromEncoded L a h = a @ '':'' @ h) \<and>
     digest_Validate L [] \<noteq> None \<and>
     (\<forall>d e. digest_Validate L d = Some e \<longrightarrow> \<not> err_is e ErrNotExist \<and> \<not> err_is e ErrExist)"

text \<open>
  A valid digest names the content whose digest it is under its own algorithm. The canonical
  algorithm is the one of \<open>FromBytes\<close>.
\<close>

definition digest_matches :: "oci_lib \<Rightarrow> string \<Rightarrow> bytes \<Rightarrow> bool" where
  "digest_matches L d b \<longleftrightarrow>
     (case digest_Algorithm L d of None \<Rightarrow> False | Some a \<Rightarrow> digest_Digester L a b = d)"

definition canonical_laws :: "oci_lib \<Rightarrow> bool" where
  "canonical_laws L \<longleftrightarrow>
     (\<forall>b. digest_Algorithm L (digest_FromBytes L b) = Some ''sha256'') \<and>
     (\<forall>b. digest_Digester L ''sha256'' b = digest_FromBytes L b)"

text \<open>
  encoding/json: what \<open>Marshal\<close> writes, \<open>Unmarshal\<close> reads back, and an error of \<open>Unmarshal\<close> is one
  of the decoder's own.
\<close>

definition json_laws :: "oci_lib \<Rightarrow> bool" where
  "json_laws L \<longleftrightarrow>
     (\<forall>ix b. marshal_Index L ix = Inr b \<longrightarrow> json_Index L b = Inr ix) \<and>
     (\<forall>m b. marshal_Manifest L m = Inr b \<longrightarrow> json_Manifest L b = Inr m) \<and>
     (\<forall>l. json_Layout L (marshal_Layout L l) = Inr l) \<and>
     (\<forall>b e. json_Index L b = Inl e \<longrightarrow> \<not> err_is e ErrNotExist)"

lemma digest_parts:
  assumes "digest_laws L" "valid_digest L d"
  obtains a h where "digest_Algorithm L d = Some a" "digest_Encoded L d = Some h"
    "digest_seg a" "digest_seg h" "digest_NewFromEncoded L a h = d"
  using assms unfolding digest_laws_def valid_digest_def by blast

lemma valid_digest_nonempty: "digest_laws L \<Longrightarrow> valid_digest L d \<Longrightarrow> d \<noteq> []"
  unfolding digest_laws_def valid_digest_def by auto

lemma valid_FromBytes: "digest_laws L \<Longrightarrow> valid_digest L (digest_FromBytes L b)"
  unfolding digest_laws_def valid_digest_def by blast

lemma invalid_not_NotExist:
  "digest_laws L \<Longrightarrow> digest_Validate L d = Some e \<Longrightarrow> \<not> err_is e ErrNotExist"
  unfolding digest_laws_def by blast

lemma canonical_matches:
  "canonical_laws L \<Longrightarrow> digest_FromBytes L b = d \<Longrightarrow> digest_matches L d b"
  unfolding canonical_laws_def digest_matches_def by auto

section \<open>types/platform.go\<close>

definition types_ParsePlatform :: "string \<Rightarrow> platform res" where
  "types_ParsePlatform s =
     (let parts = split_on CHR ''/'' s in
      if length parts < 2 \<or> 3 < length parts then Err (Msg ''types: platform: want os/arch[/variant]'')
      else if [] \<in> set parts then Err (Msg ''types: platform: empty component'')
      else Ok \<lparr>OS = parts ! 0, Architecture = parts ! 1,
               Variant = (if length parts = 3 then parts ! 2 else [])\<rparr>)"

definition platform_String :: "platform \<Rightarrow> string" where
  "platform_String p =
     (let s = OS p @ ''/'' @ Architecture p
      in if Variant p \<noteq> [] then s @ ''/'' @ Variant p else s)"

text \<open>What Go's \<open>runtime\<close> reports of the build, for \<open>HostPlatform\<close>.\<close>

record go_runtime =
  GOOS :: string
  GOARCH :: string
  build_settings :: "(string \<times> string) list option"

definition types_goarmVariant :: "go_runtime \<Rightarrow> string" where
  "types_goarmVariant rt =
     (case build_settings rt of
        None \<Rightarrow> []
      | Some settings \<Rightarrow>
          (case List.find (\<lambda>(k, v). k = ''GOARM'') settings of
             None \<Rightarrow> []
           | Some (k, v) \<Rightarrow> ''v'' @ (case cut v '','' of Some (a, b) \<Rightarrow> a | None \<Rightarrow> v)))"

definition types_HostPlatform :: "go_runtime \<Rightarrow> platform" where
  "types_HostPlatform rt =
     \<lparr>OS = GOOS rt, Architecture = GOARCH rt,
      Variant = (if GOARCH rt = ''arm'' then types_goarmVariant rt else [])\<rparr>"

definition platform_Matches :: "platform \<Rightarrow> platform \<Rightarrow> bool" where
  "platform_Matches p q =
     (if OS p \<noteq> OS q \<or> Architecture p \<noteq> Architecture q then False
      else Variant p = [] \<or> Variant q = [] \<or> Variant p = Variant q)"

text \<open>The platforms \<open>ParsePlatform\<close> returns.\<close>

definition wf_platform :: "platform \<Rightarrow> bool" where
  "wf_platform p \<longleftrightarrow>
     OS p \<noteq> [] \<and> Architecture p \<noteq> [] \<and>
     CHR ''/'' \<notin> set (OS p) \<and> CHR ''/'' \<notin> set (Architecture p) \<and> CHR ''/'' \<notin> set (Variant p)"

text \<open>The path segments of a platform.\<close>

definition platform_segs :: "platform \<Rightarrow> string list" where
  "platform_segs p = [OS p, Architecture p] @ (if Variant p = [] then [] else [Variant p])"

lemma platform_String_join: "platform_String p = join_on CHR ''/'' (platform_segs p)"
  by (simp add: platform_String_def platform_segs_def Let_def)

lemma split_platform_String:
  "wf_platform p \<Longrightarrow> split_on CHR ''/'' (platform_String p) = platform_segs p"
  unfolding platform_String_join
  by (rule split_join) (auto simp: platform_segs_def wf_platform_def split: if_splits)

lemma ParsePlatform_String:
  assumes "wf_platform p" shows "types_ParsePlatform (platform_String p) = Ok p"
  using split_platform_String [OF assms] assms
  by (auto simp: types_ParsePlatform_def platform_segs_def wf_platform_def Let_def)

lemma ParsePlatform_inv:
  assumes "types_ParsePlatform s = Ok p"
  shows "wf_platform p" "platform_String p = s"
proof -
  let ?parts = "split_on CHR ''/'' s"
  from assms have len: "length ?parts = 2 \<or> length ?parts = 3" and ne: "[] \<notin> set ?parts"
    and p: "p = \<lparr>OS = ?parts ! 0, Architecture = ?parts ! 1,
                  Variant = (if length ?parts = 3 then ?parts ! 2 else [])\<rparr>"
    by (auto simp: types_ParsePlatform_def Let_def split: if_splits)
  have noslash: "CHR ''/'' \<notin> set x" if "x \<in> set ?parts" for x
    using that by (rule split_on_parts)
  from len have segs: "platform_segs p = ?parts"
    using ne p by (auto simp: platform_segs_def length_Suc_conv numeral_2_eq_2 numeral_3_eq_3)
  show "platform_String p = s"
    by (simp add: platform_String_join segs)
  have mem: "x \<in> set ?parts \<Longrightarrow> x \<noteq> [] \<and> CHR ''/'' \<notin> set x" for x
    using ne noslash by metis
  have "Variant p = [] \<or> Variant p \<in> set ?parts" "OS p \<in> set ?parts" "Architecture p \<in> set ?parts"
    unfolding segs [symmetric] by (auto simp: platform_segs_def)
  with mem show "wf_platform p"
    unfolding wf_platform_def by (metis empty_iff list.set(1))
qed

lemma platform_Matches_refl [simp]: "platform_Matches p p"
  by (simp add: platform_Matches_def)

lemma platform_Matches_sym: "platform_Matches p q = platform_Matches q p"
  by (auto simp: platform_Matches_def)

section \<open>types/reference.go\<close>

definition types_ParseReference :: "oci_lib \<Rightarrow> string \<Rightarrow> reference res" where
  "types_ParseReference L s =
     (case ParseNormalizedNamed L s of
        Inl e \<Rightarrow> Err (Wrap1 ''types: parsing reference'' e)
      | Inr n \<Rightarrow>
          (let tag = (case n_Tag n of Some t \<Rightarrow> t | None \<Rightarrow> []);
               dgst = (case n_Digest n of Some d \<Rightarrow> d | None \<Rightarrow> [])
           in Ok \<lparr>Repository = n_Name n,
                  Tag = (if tag = [] \<and> dgst = [] then ''latest'' else tag),
                  Digest = dgst\<rparr>))"

lemma ParseReference_Ok:
  assumes "types_ParseReference L s = Ok r"
  obtains n where "ParseNormalizedNamed L s = Inr n" "Repository r = n_Name n"
    "Digest r = (case n_Digest n of Some d \<Rightarrow> d | None \<Rightarrow> [])"
    "Tag r = (if (case n_Tag n of Some t \<Rightarrow> t | None \<Rightarrow> []) = [] \<and> Digest r = [] then ''latest''
              else case n_Tag n of Some t \<Rightarrow> t | None \<Rightarrow> [])"
  using assms that by (cases "ParseNormalizedNamed L s") (auto simp: types_ParseReference_def Let_def)

definition reference_String :: "reference \<Rightarrow> string" where
  "reference_String r =
     (let s = Repository r;
          s = (if Tag r \<noteq> [] then s @ '':'' @ Tag r else s)
      in if Digest r \<noteq> [] then s @ ''@'' @ Digest r else s)"

text \<open>
  The reference grammar of distribution: names are slash-separated components, none of which is one
  of the store's markers (they start with an underscore, which no component does), tags contain no
  slash and are never a dot segment, digests validate; and the printed form of a normalized
  reference parses back to it.
\<close>

definition wf_named :: "oci_lib \<Rightarrow> named_ref \<Rightarrow> bool" where
  "wf_named L n \<longleftrightarrow>
     (\<forall>x \<in> set (split_on CHR ''/'' (n_Name n)). plain_seg x \<and> x \<noteq> ''_tag'' \<and> x \<noteq> ''_digest'') \<and>
     (\<forall>t. n_Tag n = Some t \<longrightarrow> plain_seg t) \<and>
     (\<forall>d. n_Digest n = Some d \<longrightarrow> valid_digest L d)"

definition named_String :: "named_ref \<Rightarrow> string" where
  "named_String n =
     n_Name n @ (case n_Tag n of Some t \<Rightarrow> '':'' @ t | None \<Rightarrow> []) @
     (case n_Digest n of Some d \<Rightarrow> ''@'' @ d | None \<Rightarrow> [])"

definition reference_laws :: "oci_lib \<Rightarrow> bool" where
  "reference_laws L \<longleftrightarrow>
     (\<forall>s n. ParseNormalizedNamed L s = Inr n \<longrightarrow>
        wf_named L n \<and> ParseNormalizedNamed L (named_String n) = Inr n \<and>
        (n_Tag n = None \<and> n_Digest n = None \<longrightarrow>
           ParseNormalizedNamed L (n_Name n @ '':latest'') = Inr (n\<lparr>n_Tag := Some ''latest''\<rparr>)))"

definition wf_reference :: "oci_lib \<Rightarrow> reference \<Rightarrow> bool" where
  "wf_reference L r \<longleftrightarrow>
     (\<forall>x \<in> set (split_on CHR ''/'' (Repository r)). plain_seg x \<and> x \<noteq> ''_tag'' \<and> x \<noteq> ''_digest'') \<and>
     (Tag r = [] \<or> plain_seg (Tag r)) \<and>
     (Digest r = [] \<or> valid_digest L (Digest r)) \<and>
     (Tag r \<noteq> [] \<or> Digest r \<noteq> [])"

lemma wf_referenceD:
  assumes "wf_reference L r"
  shows "x \<in> set (split_on CHR ''/'' (Repository r)) \<Longrightarrow> plain_seg x"
    and "Digest r = [] \<Longrightarrow> plain_seg (Tag r)"
    and "Digest r \<noteq> [] \<Longrightarrow> valid_digest L (Digest r)"
  using assms unfolding wf_reference_def by blast+

lemma reference_lawsD:
  assumes "reference_laws L" "ParseNormalizedNamed L s = Inr n"
  shows "wf_named L n" "ParseNormalizedNamed L (named_String n) = Inr n"
    and "n_Tag n = None \<Longrightarrow> n_Digest n = None \<Longrightarrow>
       ParseNormalizedNamed L (n_Name n @ '':latest'') = Inr (n\<lparr>n_Tag := Some ''latest''\<rparr>)"
  using assms unfolding reference_laws_def by blast+

lemma plain_seg_latest: "plain_seg ''latest''"
  by (simp add: plain_seg_def)

lemma ParseReference_wf:
  assumes laws: "reference_laws L" and ok: "types_ParseReference L s = Ok r"
  shows "wf_reference L r"
proof -
  from ok obtain n where n: "ParseNormalizedNamed L s = Inr n" and repo: "Repository r = n_Name n"
    and dgst: "Digest r = (case n_Digest n of Some d \<Rightarrow> d | None \<Rightarrow> [])"
    and tag: "Tag r = (if (case n_Tag n of Some t \<Rightarrow> t | None \<Rightarrow> []) = [] \<and> Digest r = [] then ''latest''
              else case n_Tag n of Some t \<Rightarrow> t | None \<Rightarrow> [])"
    by (rule ParseReference_Ok)
  note wf = reference_lawsD(1) [OF laws n, unfolded wf_named_def]
  have "Digest r = [] \<or> valid_digest L (Digest r)"
    using dgst wf by (cases "n_Digest n") simp_all
  moreover have "Tag r = [] \<or> plain_seg (Tag r)"
    using tag wf plain_seg_latest by (cases "n_Tag n") (auto split: if_splits)
  moreover have "Tag r \<noteq> [] \<or> Digest r \<noteq> []"
    using tag by (auto split: if_splits)
  ultimately show ?thesis
    using wf repo unfolding wf_reference_def by simp
qed

lemma ParseReference_String:
  assumes laws: "digest_laws L" "reference_laws L" and ok: "types_ParseReference L s = Ok r"
  shows "types_ParseReference L (reference_String r) = Ok r"
proof -
  from ok obtain n where n: "ParseNormalizedNamed L s = Inr n" and repo: "Repository r = n_Name n"
    and dgst: "Digest r = (case n_Digest n of Some d \<Rightarrow> d | None \<Rightarrow> [])"
    and tag: "Tag r = (if (case n_Tag n of Some t \<Rightarrow> t | None \<Rightarrow> []) = [] \<and> Digest r = [] then ''latest''
              else case n_Tag n of Some t \<Rightarrow> t | None \<Rightarrow> [])"
    by (rule ParseReference_Ok)
  note wf = reference_lawsD(1) [OF laws(2) n, unfolded wf_named_def]
  note same = reference_lawsD(2) [OF laws(2) n] and bare = reference_lawsD(3) [OF laws(2) n]
  have tag_ne: "\<And>t. n_Tag n = Some t \<Longrightarrow> t \<noteq> []"
    using wf unfolding plain_seg_def by blast
  have dig_ne: "\<And>d. n_Digest n = Some d \<Longrightarrow> d \<noteq> []"
    using wf valid_digest_nonempty [OF laws(1)] by blast
  show ?thesis
  proof (cases "n_Tag n = None \<and> n_Digest n = None")
    case True
    with dgst tag repo have r: "r = \<lparr>Repository = n_Name n, Tag = ''latest'', Digest = []\<rparr>"
      by (intro reference.equality) simp_all
    then have "reference_String r = n_Name n @ '':latest''"
      by (simp add: reference_String_def)
    with True bare r show ?thesis by (simp add: types_ParseReference_def)
  next
    case False
    then have tag': "Tag r = (case n_Tag n of Some t \<Rightarrow> t | None \<Rightarrow> [])"
      using tag dgst dig_ne tag_ne by (cases "n_Tag n"; cases "n_Digest n") simp_all
    have "reference_String r = named_String n"
      using repo tag' dgst tag_ne dig_ne
      by (cases "n_Tag n"; cases "n_Digest n") (simp_all add: reference_String_def named_String_def Let_def)
    with n same have "types_ParseReference L (reference_String r) = types_ParseReference L s"
      by (simp add: types_ParseReference_def)
    with ok show ?thesis by simp
  qed
qed

end
