(* ===== verification/Store_Paths.thy ===== *)
theory Store_Paths
  imports Oci_Types
begin

text \<open>
  The logical tree of package store: where blobs, diffID markers and leaves live
  (\<open>BlobPath\<close>, \<open>DiffIDPath\<close>, \<open>LeafPath\<close>), and \<open>parseLeaf\<close>, which reads a leaf's path back. The
  lemmas give each path as a list of plain segments, that the three families never meet, that no
  file of the tree is a directory of another, and that \<open>parseLeaf\<close> inverts \<open>LeafPath\<close>.
\<close>

section \<open>Paths\<close>

definition sharedBlobsDir :: string where "sharedBlobsDir = ''shared/blobs''"
definition imageRefsDir :: string where "imageRefsDir = ''image_refs''"
definition diffIDsDir :: string where "diffIDsDir = ''diff_ids''"
definition tagMarker :: string where "tagMarker = ''_tag''"
definition digestMarker :: string where "digestMarker = ''_digest''"

definition ImageLayoutFile :: string where "ImageLayoutFile = ''oci-layout''"
definition ImageIndexFile :: string where "ImageIndexFile = ''index.json''"
definition ImageBlobsDir :: string where "ImageBlobsDir = ''blobs''"

text \<open>\<open>Algorithm\<close> and \<open>Encoded\<close> panic on a digest without a colon.\<close>

definition digest_split :: "oci_lib \<Rightarrow> string \<Rightarrow> (string \<times> string) res" where
  "digest_split L d =
     (case (digest_Algorithm L d, digest_Encoded L d) of
        (Some a, Some h) \<Rightarrow> Ok (a, h)
      | _ \<Rightarrow> Panic)"

definition store_BlobPath :: "oci_lib \<Rightarrow> string \<Rightarrow> string res" where
  "store_BlobPath L dgst =
     (case digest_split L dgst of
        Ok (a, h) \<Rightarrow> Ok (path_Join [sharedBlobsDir, a, h])
      | Err e \<Rightarrow> Err e | Panic \<Rightarrow> Panic)"

definition store_DiffIDPath :: "oci_lib \<Rightarrow> string \<Rightarrow> string \<Rightarrow> string res" where
  "store_DiffIDPath L diffID blob =
     (case (digest_split L diffID, digest_split L blob) of
        (Ok (a, h), Ok (ba, bh)) \<Rightarrow> Ok (path_Join [diffIDsDir, a, h, ba, bh])
      | _ \<Rightarrow> Panic)"

definition store_LeafPath :: "oci_lib \<Rightarrow> reference \<Rightarrow> platform \<Rightarrow> string res" where
  "store_LeafPath L ref p =
     (if Digest ref \<noteq> [] then
        (case digest_split L (Digest ref) of
           Ok (a, h) \<Rightarrow>
             Ok (path_Join [imageRefsDir, Repository ref, path_Join [digestMarker, a, h],
                            platform_String p])
         | Err e \<Rightarrow> Err e | Panic \<Rightarrow> Panic)
      else Ok (path_Join [imageRefsDir, Repository ref, path_Join [tagMarker, Tag ref],
                          platform_String p]))"

text \<open>\<open>slices.IndexFunc\<close>; \<open>None\<close> is its -1.\<close>

fun index_func :: "('a \<Rightarrow> bool) \<Rightarrow> 'a list \<Rightarrow> nat option" where
  "index_func P [] = None"
| "index_func P (x # xs) = (if P x then Some 0 else map_option Suc (index_func P xs))"

definition leaf_platform :: "reference \<Rightarrow> string list \<Rightarrow> (reference \<times> platform) res" where
  "leaf_platform ref platformSegs =
     (case types_ParsePlatform (join_on CHR ''/'' platformSegs) of
        Ok p \<Rightarrow> Ok (ref, p) | Err e \<Rightarrow> Err e | Panic \<Rightarrow> Panic)"

definition store_parseLeaf :: "oci_lib \<Rightarrow> string \<Rightarrow> (reference \<times> platform) res" where
  "store_parseLeaf L leaf =
     (case cut_prefix leaf (imageRefsDir @ ''/'') of
        None \<Rightarrow> Err (Msg ''not under image_refs'')
      | Some rest \<Rightarrow>
          (let segs = split_on CHR ''/'' rest in
           case index_func (\<lambda>s. s = tagMarker \<or> s = digestMarker) segs of
             None \<Rightarrow> Err (Msg ''no marker'')
           | Some i \<Rightarrow>
               if i < 1 then Err (Msg ''no marker'')
               else
                 (let repo = join_on CHR ''/'' (take i segs) in
                  if segs ! i = tagMarker then
                    if length segs < i + 2 then Err (Msg ''short tag leaf'')
                    else leaf_platform \<lparr>Repository = repo, Tag = segs ! (i + 1), Digest = []\<rparr>
                           (drop (i + 2) segs)
                  else
                    if length segs < i + 3 then Err (Msg ''short digest leaf'')
                    else
                      (let d = digest_NewFromEncoded L (segs ! (i + 1)) (segs ! (i + 2)) in
                       case digest_Validate L d of
                         Some e \<Rightarrow> Err e
                       | None \<Rightarrow> leaf_platform \<lparr>Repository = repo, Tag = [], Digest = d\<rparr>
                                   (drop (i + 3) segs)))))"

section \<open>Paths as lists of segments\<close>

abbreviation seg_path :: "string list \<Rightarrow> string" where
  "seg_path \<equiv> join_on CHR ''/''"

definition plain_platform :: "platform \<Rightarrow> bool" where
  "plain_platform p \<longleftrightarrow>
     plain_seg (OS p) \<and> plain_seg (Architecture p) \<and> (Variant p = [] \<or> plain_seg (Variant p))"

lemma plain_platform_wf: "plain_platform p \<Longrightarrow> wf_platform p"
  by (auto simp: plain_platform_def wf_platform_def plain_seg_def)

lemma platform_segs_plain: "plain_platform p \<Longrightarrow> x \<in> set (platform_segs p) \<Longrightarrow> plain_seg x"
  by (auto simp: plain_platform_def platform_segs_def split: if_splits)

lemma platform_segs_nonempty [simp]: "platform_segs p \<noteq> []"
  by (simp add: platform_segs_def)

definition blob_segs :: "oci_lib \<Rightarrow> string \<Rightarrow> string list" where
  "blob_segs L d =
     [''shared'', ''blobs'', the (digest_Algorithm L d), the (digest_Encoded L d)]"

definition diff_segs :: "oci_lib \<Rightarrow> string \<Rightarrow> string \<Rightarrow> string list" where
  "diff_segs L d b =
     [''diff_ids'', the (digest_Algorithm L d), the (digest_Encoded L d),
      the (digest_Algorithm L b), the (digest_Encoded L b)]"

definition key_segs :: "oci_lib \<Rightarrow> reference \<Rightarrow> string list" where
  "key_segs L ref =
     (if Digest ref \<noteq> [] then
        [digestMarker, the (digest_Algorithm L (Digest ref)), the (digest_Encoded L (Digest ref))]
      else [tagMarker, Tag ref])"

definition leaf_segs :: "oci_lib \<Rightarrow> reference \<Rightarrow> platform \<Rightarrow> string list" where
  "leaf_segs L ref p =
     imageRefsDir # split_on CHR ''/'' (Repository ref) @ key_segs L ref @ platform_segs p"

lemmas marker_defs = sharedBlobsDir_def imageRefsDir_def diffIDsDir_def tagMarker_def
  digestMarker_def ImageLayoutFile_def ImageIndexFile_def ImageBlobsDir_def

lemma plain_consts [simp]:
  "plain_seg imageRefsDir" "plain_seg diffIDsDir" "plain_seg tagMarker" "plain_seg digestMarker"
  "plain_seg ImageLayoutFile" "plain_seg ImageIndexFile" "plain_seg ImageBlobsDir"
  "plain_seg ''shared''" "plain_seg ''blobs''" "plain_seg ''image_refs''" "plain_seg ''diff_ids''"
  by (simp_all add: plain_seg_def marker_defs)

lemma sharedBlobs_segs: "sharedBlobsDir = seg_path [''shared'', ''blobs'']"
  by (simp add: sharedBlobsDir_def)

text \<open>\<open>path.Join\<close> on plain elements given one by one.\<close>

lemma path_Join_segs:
  assumes "xs \<noteq> []" "list_all plain_seg xs"
  shows "path_Join xs = seg_path xs"
proof -
  have "path_Join (map seg_path (map (\<lambda>x. [x]) xs)) = seg_path (concat (map (\<lambda>x. [x]) xs))"
    using assms by (intro path_Join_list_all) (auto simp: list_all_iff)
  moreover have "concat (map (\<lambda>x. [x]) xs) = xs" by (induction xs) simp_all
  ultimately show ?thesis by (simp add: comp_def)
qed

lemma path_Join_leaf:
  assumes "xs \<noteq> []" "list_all plain_seg xs" "plain_seg f"
  shows "path_Join [seg_path xs, f] = seg_path (xs @ [f])"
proof -
  have "path_Join (map seg_path [xs, [f]]) = seg_path (concat [xs, [f]])"
    using assms by (intro path_Join_list_all) auto
  then show ?thesis by simp
qed

lemma digest_split_valid:
  assumes "digest_laws L" "valid_digest L d"
  shows "digest_split L d = Ok (the (digest_Algorithm L d), the (digest_Encoded L d))"
    and "digest_seg (the (digest_Algorithm L d))" "digest_seg (the (digest_Encoded L d))"
proof -
  obtain a h where "digest_Algorithm L d = Some a" "digest_Encoded L d = Some h"
    "digest_seg a" "digest_seg h"
    using digest_parts [OF assms] by metis
  then show "digest_split L d = Ok (the (digest_Algorithm L d), the (digest_Encoded L d))"
    and "digest_seg (the (digest_Algorithm L d))" "digest_seg (the (digest_Encoded L d))"
    by (simp_all add: digest_split_def)
qed

lemma valid_digest_inj:
  assumes "digest_laws L" "valid_digest L d" "valid_digest L d'"
    and "digest_Algorithm L d = digest_Algorithm L d'" "digest_Encoded L d = digest_Encoded L d'"
  shows "d = d'"
  using digest_parts [OF assms(1,2)] digest_parts [OF assms(1,3)] assms(4,5) by (metis option.inject)

lemma BlobPath_valid:
  assumes "digest_laws L" "valid_digest L d"
  shows "store_BlobPath L d = Ok (seg_path (blob_segs L d))"
proof -
  note d = digest_split_valid [OF assms]
  have "path_Join (map seg_path [[''shared'', ''blobs''], [the (digest_Algorithm L d)],
          [the (digest_Encoded L d)]])
      = seg_path (concat [[''shared'', ''blobs''], [the (digest_Algorithm L d)],
          [the (digest_Encoded L d)]])"
    using d by (intro path_Join_list_all) auto
  then have "path_Join [sharedBlobsDir, the (digest_Algorithm L d), the (digest_Encoded L d)]
      = seg_path (blob_segs L d)"
    by (simp add: blob_segs_def sharedBlobsDir_def)
  with d show ?thesis by (simp add: store_BlobPath_def)
qed

lemma DiffIDPath_valid:
  assumes "digest_laws L" "valid_digest L d" "valid_digest L b"
  shows "store_DiffIDPath L d b = Ok (seg_path (diff_segs L d b))"
proof -
  note d = digest_split_valid [OF assms(1,2)] and b = digest_split_valid [OF assms(1,3)]
  have "path_Join (diff_segs L d b) = seg_path (diff_segs L d b)"
    using d b by (intro path_Join_segs) (simp_all add: diff_segs_def)
  with d b show ?thesis by (simp add: store_DiffIDPath_def diff_segs_def diffIDsDir_def)
qed

lemma key_segs_plain:
  assumes "digest_laws L" "wf_reference L ref" "x \<in> set (key_segs L ref)"
  shows "plain_seg x"
proof (cases "Digest ref = []")
  case True
  with assms(3) wf_referenceD(2) [OF assms(2)] show ?thesis by (auto simp: key_segs_def)
next
  case False
  then have "valid_digest L (Digest ref)" by (rule wf_referenceD(3) [OF assms(2)])
  from digest_split_valid [OF assms(1) this] False assms(3) show ?thesis
    by (auto simp: key_segs_def)
qed

lemma repo_segs_plain:
  "wf_reference L ref \<Longrightarrow> x \<in> set (split_on CHR ''/'' (Repository ref)) \<Longrightarrow>
     plain_seg x \<and> x \<noteq> tagMarker \<and> x \<noteq> digestMarker"
  unfolding wf_reference_def tagMarker_def digestMarker_def by blast

lemma leaf_segs_plain:
  assumes "digest_laws L" "wf_reference L ref" "plain_platform p" "x \<in> set (leaf_segs L ref p)"
  shows "plain_seg x"
proof -
  from assms(4) consider "x = imageRefsDir" | "x \<in> set (split_on CHR ''/'' (Repository ref))"
    | "x \<in> set (key_segs L ref)" | "x \<in> set (platform_segs p)"
    unfolding leaf_segs_def by fastforce
  then show ?thesis
    using key_segs_plain [OF assms(1,2)] platform_segs_plain [OF assms(3)] repo_segs_plain [OF assms(2)]
    by cases (simp_all del: split_on.simps)
qed

lemma key_segs_nonempty [simp]: "key_segs L ref \<noteq> []"
  by (simp add: key_segs_def)

lemma leaf_segs_nonempty [simp]: "leaf_segs L ref p \<noteq> []"
  by (simp add: leaf_segs_def)

lemma LeafPath_wf:
  assumes "digest_laws L" "wf_reference L ref" "plain_platform p"
  shows "store_LeafPath L ref p = Ok (seg_path (leaf_segs L ref p))"
proof -
  let ?repo = "split_on CHR ''/'' (Repository ref)"
  have "path_Join (map seg_path [[imageRefsDir], ?repo, key_segs L ref, platform_segs p])
      = seg_path (concat [[imageRefsDir], ?repo, key_segs L ref, platform_segs p])"
    using repo_segs_plain [OF assms(2)] key_segs_plain [OF assms(1,2)] platform_segs_plain [OF assms(3)]
    by (intro path_Join_list_all) (simp_all add: list_all_iff)
  then have join: "path_Join [imageRefsDir, Repository ref, seg_path (key_segs L ref), platform_String p]
      = seg_path (leaf_segs L ref p)"
    by (simp add: leaf_segs_def platform_String_join)
  have key: "path_Join (key_segs L ref) = seg_path (key_segs L ref)"
    using key_segs_plain [OF assms(1,2)] by (intro path_Join_segs) (simp_all add: list_all_iff)
  show ?thesis
  proof (cases "Digest ref = []")
    case True
    with join key show ?thesis by (simp add: store_LeafPath_def key_segs_def)
  next
    case False
    then have "valid_digest L (Digest ref)" by (rule wf_referenceD(3) [OF assms(2)])
    from digest_split_valid [OF assms(1) this] False join key show ?thesis
      by (simp add: store_LeafPath_def key_segs_def)
  qed
qed

section \<open>parseLeaf inverts LeafPath\<close>

lemma index_func_append:
  "(\<And>x. x \<in> set xs \<Longrightarrow> \<not> P x) \<Longrightarrow> P y \<Longrightarrow> index_func P (xs @ y # ys) = Some (length xs)"
  by (induction xs) auto

text \<open>What a leaf's path tells of the reference: a digest reference loses its tag.\<close>

definition leaf_reference :: "reference \<Rightarrow> reference" where
  "leaf_reference ref = (if Digest ref \<noteq> [] then ref\<lparr>Tag := []\<rparr> else ref)"

lemma parseLeaf_segs:
  assumes laws: "digest_laws L" and ref: "wf_reference L ref" and p: "plain_platform p"
  shows "store_parseLeaf L (seg_path (leaf_segs L ref p)) = Ok (leaf_reference ref, p)"
proof -
  let ?repo = "split_on CHR ''/'' (Repository ref)"
  let ?tail = "?repo @ key_segs L ref @ platform_segs p"
  let ?P = "\<lambda>s. s = tagMarker \<or> s = digestMarker"
  have path: "seg_path (leaf_segs L ref p) = (imageRefsDir @ ''/'') @ seg_path ?tail"
    by (simp add: leaf_segs_def join_on_Cons)
  have split: "split_on CHR ''/'' (seg_path ?tail) = ?tail"
    using leaf_segs_plain [OF laws ref p]
    by (intro split_join) (auto simp: leaf_segs_def plain_seg_def)
  have idx: "index_func ?P ?tail = Some (length ?repo)"
    using repo_segs_plain [OF ref] index_func_append [of ?repo ?P]
    by (auto simp: key_segs_def)
  have "0 < length ?repo" by simp
  have plat: "types_ParsePlatform (seg_path (platform_segs p)) = Ok p"
    using ParsePlatform_String [OF plain_platform_wf [OF p]] by (simp add: platform_String_join)
  show ?thesis
  proof (cases "Digest ref = []")
    case True
    then have k: "key_segs L ref = [tagMarker, Tag ref]" by (simp add: key_segs_def)
    show ?thesis
      unfolding store_parseLeaf_def path cut_prefix_append
      using split idx \<open>0 < length ?repo\<close> True plat
      by (simp add: Let_def k nth_append leaf_platform_def leaf_reference_def del: split_on.simps)
  next
    case False
    then have v: "valid_digest L (Digest ref)" by (rule wf_referenceD(3) [OF ref])
    obtain a h where ah: "digest_Algorithm L (Digest ref) = Some a"
      "digest_Encoded L (Digest ref) = Some h" "digest_NewFromEncoded L a h = Digest ref"
      using digest_parts [OF laws v] by metis
    have k: "key_segs L ref = [digestMarker, a, h]" using False ah by (simp add: key_segs_def)
    have "digestMarker \<noteq> tagMarker" by (simp add: marker_defs)
    then show ?thesis
      unfolding store_parseLeaf_def path cut_prefix_append
      using split idx \<open>0 < length ?repo\<close> False plat ah v
      by (simp add: Let_def k nth_append leaf_platform_def leaf_reference_def valid_digest_def
          numeral_2_eq_2 numeral_3_eq_3 del: split_on.simps)
  qed
qed

lemma leaf_segs_inj:
  assumes "digest_laws L" "wf_reference L r" "wf_reference L r'" "plain_platform p" "plain_platform p'"
    and "seg_path (leaf_segs L r p) = seg_path (leaf_segs L r' p')"
  shows "leaf_reference r = leaf_reference r'" "p = p'"
  using parseLeaf_segs [OF assms(1,2,4)] parseLeaf_segs [OF assms(1,3,5)] assms(6) by auto

section \<open>The files of the tree\<close>

text \<open>
  The names of the files a store writes, by their segments. A leaf's directory may not itself be
  named like one of the files of a leaf, so that no file's path is the directory of another.
\<close>

definition leaf_file :: "string \<Rightarrow> bool" where
  "leaf_file x \<longleftrightarrow> x = ImageIndexFile \<or> x = ImageLayoutFile"

definition store_segs :: "string list \<Rightarrow> bool" where
  "store_segs xs \<longleftrightarrow>
     (\<forall>x \<in> set xs. plain_seg x) \<and> xs \<noteq> [] \<and>
     (if hd xs = ''shared'' then length xs = 4 \<and> digest_seg (last xs)
      else if hd xs = ''diff_ids'' then length xs = 5 \<and> digest_seg (last xs)
      else hd xs = ''image_refs'' \<and> leaf_file (last xs) \<and> (\<forall>x \<in> set (butlast xs). \<not> leaf_file x))"

definition store_file :: "string \<Rightarrow> bool" where
  "store_file n \<longleftrightarrow> store_segs (split_on CHR ''/'' n)"

text \<open>A directory of the leaf tree: none of its segments is a leaf's file.\<close>

definition store_dir :: "string \<Rightarrow> bool" where
  "store_dir n \<longleftrightarrow>
     (let xs = split_on CHR ''/'' n in
      hd xs = ''image_refs'' \<and> (\<forall>x \<in> set xs. plain_seg x \<and> \<not> leaf_file x))"

lemma split_seg_path:
  "xs \<noteq> [] \<Longrightarrow> (\<And>x. x \<in> set xs \<Longrightarrow> plain_seg x) \<Longrightarrow> split_on CHR ''/'' (seg_path xs) = xs"
  by (rule split_join) (auto simp: plain_seg_def)

lemma store_file_seg_path: "store_segs xs \<Longrightarrow> store_file (seg_path xs)"
  by (auto simp: store_file_def split_seg_path store_segs_def)

lemma leaf_file_consts [simp]:
  "\<not> leaf_file ''image_refs''" "\<not> leaf_file tagMarker" "\<not> leaf_file digestMarker"
  "leaf_file ImageIndexFile" "leaf_file ImageLayoutFile" "\<not> leaf_file ImageBlobsDir"
  by (simp_all add: leaf_file_def marker_defs)

lemma store_segs_prefix_free:
  assumes "store_segs xs" "store_segs (xs @ ys)" shows "ys = []"
proof (rule ccontr)
  assume ys: "ys \<noteq> []"
  have ne: "xs \<noteq> []" using assms(1) by (simp add: store_segs_def)
  then have hd: "hd (xs @ ys) = hd xs" by simp
  have "last xs \<in> set (butlast (xs @ ys))" using ne ys by (simp add: butlast_append)
  then show False
    using assms ys hd unfolding store_segs_def by (auto split: if_splits)
qed

lemma store_segs_blob:
  "digest_laws L \<Longrightarrow> valid_digest L d \<Longrightarrow> store_segs (blob_segs L d)"
  using digest_split_valid [of L d] by (simp add: store_segs_def blob_segs_def)

lemma store_segs_diff:
  "digest_laws L \<Longrightarrow> valid_digest L d \<Longrightarrow> valid_digest L b \<Longrightarrow> store_segs (diff_segs L d b)"
  using digest_split_valid [of L d] digest_split_valid [of L b]
  by (simp add: store_segs_def diff_segs_def)

text \<open>
  References and platforms whose leaf directory avoids the names of a leaf's files. The reference
  grammar allows \<open>index.json\<close> as a repository component or tag, so this is a condition of its own.
\<close>

definition leafable :: "oci_lib \<Rightarrow> reference \<Rightarrow> platform \<Rightarrow> bool" where
  "leafable L ref p \<longleftrightarrow>
     wf_reference L ref \<and> plain_platform p \<and> (\<forall>x \<in> set (leaf_segs L ref p). \<not> leaf_file x)"

lemma leafableD:
  assumes "leafable L ref p"
  shows "wf_reference L ref" "plain_platform p" "\<forall>x \<in> set (leaf_segs L ref p). \<not> leaf_file x"
  using assms by (simp_all add: leafable_def)

lemma store_segs_leaf:
  assumes "digest_laws L" "leafable L ref p" "leaf_file f"
  shows "store_segs (leaf_segs L ref p @ [f])"
proof -
  have f: "plain_seg f" using assms(3) by (auto simp: leaf_file_def)
  have plain: "\<forall>x \<in> set (leaf_segs L ref p). plain_seg x"
    using leaf_segs_plain [OF assms(1)] leafableD [OF assms(2)] by blast
  have hd: "hd (leaf_segs L ref p @ [f]) = ''image_refs''"
    by (simp add: leaf_segs_def imageRefsDir_def)
  show ?thesis
    unfolding store_segs_def hd using f plain leafableD(3) [OF assms(2)] assms(3) by simp
qed

lemma store_dir_leaf:
  assumes "digest_laws L" "leafable L ref p"
  shows "store_dir (seg_path (leaf_segs L ref p @ [ImageBlobsDir]))"
proof -
  let ?xs = "leaf_segs L ref p @ [ImageBlobsDir]"
  have plain: "\<And>x. x \<in> set ?xs \<Longrightarrow> plain_seg x"
    using leaf_segs_plain [OF assms(1)] leafableD [OF assms(2)] by auto
  then have "split_on CHR ''/'' (seg_path ?xs) = ?xs" by (intro split_seg_path) auto
  then show ?thesis
    using plain leafableD(3) [OF assms(2)] by (simp add: store_dir_def Let_def leaf_segs_def imageRefsDir_def)
qed

lemma seg_path_inj:
  assumes "seg_path xs = seg_path ys" "store_segs xs" "store_segs ys" shows "xs = ys"
  using assms join_on_inject [of "CHR ''/''" xs ys] unfolding store_segs_def plain_seg_def by blast

lemma blob_segs_inj:
  assumes "digest_laws L" "valid_digest L d" "valid_digest L d'"
    and "seg_path (blob_segs L d) = seg_path (blob_segs L d')"
  shows "d = d'"
proof -
  have "blob_segs L d = blob_segs L d'"
    using assms by (intro seg_path_inj) (auto intro: store_segs_blob)
  then have "the (digest_Algorithm L d) = the (digest_Algorithm L d')"
    and "the (digest_Encoded L d) = the (digest_Encoded L d')"
    by (simp_all add: blob_segs_def)
  moreover obtain a h where "digest_Algorithm L d = Some a" "digest_Encoded L d = Some h"
    using digest_parts [OF assms(1,2)] by metis
  moreover obtain a' h' where "digest_Algorithm L d' = Some a'" "digest_Encoded L d' = Some h'"
    using digest_parts [OF assms(1,3)] by metis
  ultimately show ?thesis using valid_digest_inj [OF assms(1-3)] by simp
qed

text \<open>The three families of files never meet.\<close>

lemma paths_disjoint:
  assumes "store_segs xs" "store_segs ys" "hd xs \<noteq> hd ys"
  shows "seg_path xs \<noteq> seg_path ys"
  using assms seg_path_inj by metis

lemma hd_segs [simp]:
  "hd (blob_segs L d) = ''shared''" "hd (diff_segs L d b) = ''diff_ids''"
  "hd (leaf_segs L ref p @ fs) = ''image_refs''" "hd (leaf_segs L ref p) = ''image_refs''"
  by (simp_all add: blob_segs_def diff_segs_def leaf_segs_def imageRefsDir_def)

end
