(* ===== verification/Store_Backend.thy ===== *)
theory Store_Backend
  imports Store_Paths
begin

text \<open>
  The interface between package store and its backends: \<open>ocidir.ReadAtCloser\<close>, \<open>ocidir.OciDir\<close>
  and \<open>store.Backend\<close> with its optional \<open>Lister\<close> and \<open>DirMaker\<close>, each as the record of its
  methods, and the locale \<open>store_backend\<close> with the contract the store relies on. The packages
  fsdir, s3dir and httpdir provide backends; each interprets the locale in its own theory.
\<close>

section \<open>Readers\<close>

text \<open>
  An open blob. Its size is fixed when it is opened; a read that reaches \<open>rd_Fail\<close>'s offset fails
  there with its error (a network failure, a directory opened as a file).
\<close>

record reader =
  rd_Size :: int
  rd_Content :: bytes
  rd_Fail :: "(nat \<times> gerr) option"

text \<open>The bytes a section \<open>[0, Size)\<close> of the reader holds.\<close>

definition section_bytes :: "reader \<Rightarrow> bytes" where
  "section_bytes r = take (nat (rd_Size r)) (rd_Content r)"

text \<open>\<open>io.ReadAll(io.NewSectionReader(r, 0, r.Size()))\<close>\<close>

definition read_all :: "reader \<Rightarrow> bytes res" where
  "read_all r =
     (case rd_Fail r of
        None \<Rightarrow> Ok (section_bytes r)
      | Some (k, e) \<Rightarrow> if k < length (section_bytes r) then Err e else Ok (section_bytes r))"

text \<open>\<open>ReadAt(p, off)\<close> with \<open>len(p) = n\<close>: the bytes up to the end or the failing offset, and the error.\<close>

definition reader_end :: "reader \<Rightarrow> nat" where
  "reader_end r =
     (case rd_Fail r of None \<Rightarrow> length (rd_Content r) | Some (k, e) \<Rightarrow> min k (length (rd_Content r)))"

definition reader_err :: "reader \<Rightarrow> gerr" where
  "reader_err r =
     (case rd_Fail r of
        None \<Rightarrow> Sentinel EOF
      | Some (k, e) \<Rightarrow> if k < length (rd_Content r) then e else Sentinel EOF)"

definition reader_ReadAt :: "reader \<Rightarrow> nat \<Rightarrow> nat \<Rightarrow> bytes \<times> gerr option" where
  "reader_ReadAt r off n =
     (if off + n \<le> reader_end r then (take n (drop off (rd_Content r)), None)
      else (drop off (take (reader_end r) (rd_Content r)), Some (reader_err r)))"

lemma reader_ReadAt_full: "reader_ReadAt r off n = (bs, None) \<Longrightarrow> length bs = n"
  by (auto simp: reader_ReadAt_def reader_end_def split: if_splits option.splits prod.splits)

text \<open>
  An \<open>io.Reader\<close> handed to a writer: the bytes it delivers, then \<open>None\<close> for EOF or an error.
\<close>

type_synonym body = "bytes \<times> gerr option"

text \<open>\<open>io.NewSectionReader(r, 0, r.Size())\<close> as a body.\<close>

definition section_body :: "reader \<Rightarrow> body" where
  "section_body r =
     (case rd_Fail r of
        None \<Rightarrow> (section_bytes r, None)
      | Some (k, e) \<Rightarrow>
          if k < length (section_bytes r) then (take k (section_bytes r), Some e)
          else (section_bytes r, None))"

definition bytes_body :: "bytes \<Rightarrow> body" where
  "bytes_body b = (b, None)"

text \<open>
  A source that does not fail as if a file existed: the code tells a lost race from a failure by
  the error \<open>Create\<close> returns, which wraps the source's. Package s3dir looks for the status code 412.
\<close>

definition body_ok :: "body \<Rightarrow> bool" where
  "body_ok body \<longleftrightarrow> (\<forall>e. snd body = Some e \<longrightarrow> \<not> err_is e ErrExist \<and> err_status e \<noteq> Some 412)"

lemma body_ok_simps [simp]: "body_ok (bytes_body b)" "body_ok (b, None)"
  by (simp_all add: body_ok_def bytes_body_def)

lemma section_body_Ok: "section_body r = (b, None) \<longleftrightarrow> read_all r = Ok b"
  by (auto simp: section_body_def read_all_def split: option.splits if_splits)

text \<open>
  A reader serves content \<open>c\<close>: whatever it returns in full is \<open>c\<close>, and it does not fail as if the
  file it was opened on were not there, nor as if it were in the way of another.
\<close>

definition serves :: "reader \<Rightarrow> bytes \<Rightarrow> bool" where
  "serves r c \<longleftrightarrow>
     (\<forall>b. read_all r = Ok b \<longrightarrow> b = c) \<and>
     (\<forall>k e. rd_Fail r = Some (k, e) \<longrightarrow>
        \<not> err_is e ErrNotExist \<and> \<not> err_is e ErrExist \<and> err_status e \<noteq> Some 412)"

lemma serves_body_ok: "serves r c \<Longrightarrow> body_ok (section_body r)"
  by (auto simp: serves_def body_ok_def section_body_def split: option.splits if_splits)

section \<open>Interfaces\<close>

text \<open>\<open>ocidir.OciDir\<close>\<close>

record 'w oci_dir =
  od_Blobs :: "string \<Rightarrow> ('w, reader) io"
  od_Index :: "('w, image_index) io"
  od_OciLayout :: "('w, image_layout) io"
  od_IndexBin :: "('w, bytes) io"
  od_OciLayoutBin :: "('w, bytes) io"

text \<open>
  \<open>store.Backend\<close>; \<open>b_List\<close> and \<open>b_MkdirAll\<close> are \<open>None\<close> for a backend that does not implement
  \<open>Lister\<close> or \<open>DirMaker\<close>. A listing is the sequence of names and errors the iterator yields.
\<close>

record 'w backend =
  b_Open :: "string \<Rightarrow> ('w, reader) io"
  b_Create :: "string \<Rightarrow> body \<Rightarrow> int \<Rightarrow> string \<Rightarrow> ('w, unit) io"
  b_List :: "(string \<Rightarrow> ('w, (gerr + string) list) io) option"
  b_MkdirAll :: "(string \<Rightarrow> ('w, unit) io) option"

section \<open>The contract of a backend\<close>

type_synonym tree = "string \<rightharpoonup> bytes"

text \<open>
  What a \<open>Create\<close> may do to the tree: nothing, or add the file with the verified content of the
  body. An error leaves either (the upload may have arrived before the connection broke).
\<close>

definition created :: "oci_lib \<Rightarrow> tree \<Rightarrow> string \<Rightarrow> body \<Rightarrow> int \<Rightarrow> string \<Rightarrow> tree \<Rightarrow> bool" where
  "created L t n body sz dgst t' \<longleftrightarrow>
     snd body = None \<and> t n = None \<and> t' = t(n \<mapsto> fst body) \<and>
     (0 \<le> sz \<longrightarrow> int (length (fst body)) = sz) \<and>
     (dgst \<noteq> [] \<longrightarrow> valid_digest L dgst \<longrightarrow> digest_matches L dgst (fst body))"

text \<open>A body that delivers what is announced of it.\<close>

definition offers :: "oci_lib \<Rightarrow> body \<Rightarrow> int \<Rightarrow> string \<Rightarrow> bool" where
  "offers L body sz dgst \<longleftrightarrow>
     snd body = None \<and> (0 \<le> sz \<longrightarrow> int (length (fst body)) = sz) \<and>
     (dgst \<noteq> [] \<longrightarrow> valid_digest L dgst \<and> digest_matches L dgst (fst body))"

text \<open>
  The contract covers the names of the store's files and worlds in a proper state (\<open>ok\<close>: for a
  file system, no directory sits at the name of a file). \<open>tree\<close> is the backend's content.
\<close>

locale store_backend =
  fixes L :: oci_lib
    and B :: "'w backend"
    and tree :: "'w \<Rightarrow> string \<rightharpoonup> bytes"
    and ok :: "'w \<Rightarrow> bool"
  assumes open_tree: "b_Open B n w = (ro, w') \<Longrightarrow> tree w' = tree w"
    and open_ok: "ok w \<Longrightarrow> b_Open B n w = (ro, w') \<Longrightarrow> ok w'"
    and open_Ok: "ok w \<Longrightarrow> store_file n \<Longrightarrow> b_Open B n w = (Ok rd, w') \<Longrightarrow>
        \<exists>c. tree w n = Some c \<and> serves rd c"
    and open_Err: "ok w \<Longrightarrow> store_file n \<Longrightarrow> b_Open B n w = (Err e, w') \<Longrightarrow>
        err_is e ErrNotExist \<Longrightarrow> tree w n = None"
    and create_Ok: "ok w \<Longrightarrow> store_file n \<Longrightarrow> b_Create B n body sz dgst w = (Ok u, w') \<Longrightarrow>
        created L (tree w) n body sz dgst (tree w')"
    and create_any: "ok w \<Longrightarrow> store_file n \<Longrightarrow> b_Create B n body sz dgst w = (r, w') \<Longrightarrow>
        tree w' = tree w \<or> created L (tree w) n body sz dgst (tree w')"
    and create_ok: "ok w \<Longrightarrow> store_file n \<Longrightarrow> b_Create B n body sz dgst w = (r, w') \<Longrightarrow> ok w'"
    and create_Exist: "ok w \<Longrightarrow> store_file n \<Longrightarrow> b_Create B n body sz dgst w = (Err e, w') \<Longrightarrow>
        err_is e ErrExist \<Longrightarrow> body_ok body \<Longrightarrow> tree w n \<noteq> None \<and> tree w' = tree w"
    and mkdir_tree: "b_MkdirAll B = Some mk \<Longrightarrow> mk n w = (r, w') \<Longrightarrow> tree w' = tree w"
    and mkdir_ok: "b_MkdirAll B = Some mk \<Longrightarrow> ok w \<Longrightarrow> store_dir n \<Longrightarrow> mk n w = (r, w') \<Longrightarrow> ok w'"
    and list_tree: "b_List B = Some ls \<Longrightarrow> ls n w = (rl, w') \<Longrightarrow> tree w' = tree w"
    and list_ok: "b_List B = Some ls \<Longrightarrow> ok w \<Longrightarrow> ls n w = (rl, w') \<Longrightarrow> ok w'"
begin

text \<open>Files never change or vanish, whatever a backend call returns.\<close>

lemma created_extends: "created L t n body sz dgst t' \<Longrightarrow> t \<subseteq>\<^sub>m t'"
  by (auto simp: created_def map_le_def)

lemma create_extends:
  "ok w \<Longrightarrow> store_file n \<Longrightarrow> b_Create B n body sz dgst w = (r, w') \<Longrightarrow> tree w \<subseteq>\<^sub>m tree w'"
  by (metis create_any created_extends map_le_refl)

lemmas backend_frame = open_tree open_ok mkdir_tree mkdir_ok list_tree list_ok create_ok

end

end
