(* ===== verification/Store.thy ===== *)
theory Store
  imports Store_Backend
begin

text \<open>
  Package store: the operations of \<open>*store.Store\<close> over any backend \<open>B\<close>. Each definition follows
  the Go method of the same name, with its checks, early returns and panics in order. The error
  texts keep the wrapped errors and drop the formatted operands.
\<close>

section \<open>Blobs\<close>

definition store_Blob :: "oci_lib \<Rightarrow> 'w backend \<Rightarrow> string \<Rightarrow> ('w, reader) io" where
  "store_Blob L B dgst =
     (case digest_Validate L dgst of
        Some e \<Rightarrow> throw e
      | None \<Rightarrow> ebind (pure_res (store_BlobPath L dgst)) (b_Open B))"

definition store_HasBlob :: "oci_lib \<Rightarrow> 'w backend \<Rightarrow> string \<Rightarrow> ('w, bool) io" where
  "store_HasBlob L B dgst =
     ebind (attempt (store_Blob L B dgst)) (\<lambda>r.
       case r of
         Inl e \<Rightarrow> if err_is e ErrNotExist then ret False else throw e
       | Inr rd \<Rightarrow> ret True)"

definition store_PutBlob :: "oci_lib \<Rightarrow> 'w backend \<Rightarrow> descriptor \<Rightarrow> body \<Rightarrow> ('w, unit) io" where
  "store_PutBlob L B desc r =
     (case digest_Validate L (d_Digest desc) of
        Some e \<Rightarrow> throw e
      | None \<Rightarrow>
          ebind (store_HasBlob L B (d_Digest desc)) (\<lambda>has.
          if has then ret ()
          else
            ebind (pure_res (store_BlobPath L (d_Digest desc))) (\<lambda>name.
            ebind (attempt (b_Create B name r (d_Size desc) (d_Digest desc))) (\<lambda>res.
              case res of
                Inl e \<Rightarrow> if err_is e ErrExist then ret () else throw e
              | Inr _ \<Rightarrow> ret ()))))"

definition store_readAll :: "'w backend \<Rightarrow> string \<Rightarrow> ('w, bytes) io" where
  "store_readAll B name = ebind (b_Open B name) (\<lambda>r. pure_res (read_all r))"

text \<open>The decoder stands for the type of the variable \<open>json.Unmarshal\<close> fills.\<close>

definition store_readJSON ::
  "oci_lib \<Rightarrow> 'w backend \<Rightarrow> (bytes \<Rightarrow> gerr + 'v) \<Rightarrow> string \<Rightarrow> ('w, bytes \<times> 'v) io" where
  "store_readJSON L B dec dgst =
     ebind (pure_res (store_BlobPath L dgst)) (\<lambda>name.
     ebind (store_readAll B name) (\<lambda>b.
       if digest_FromBytes L b \<noteq> dgst then throw (Msg ''store: blob does not match its digest'')
       else case dec b of Inl e \<Rightarrow> throw e | Inr v \<Rightarrow> ret (b, v)))"

definition store_isManifest :: "string \<Rightarrow> bool" where
  "store_isManifest mt \<longleftrightarrow> mt = MediaTypeImageManifest \<or> mt = MediaTypeDockerManifest"

definition store_isForeign :: "string \<Rightarrow> bool" where
  "store_isForeign mt \<longleftrightarrow>
     List.member
       [''application/vnd.oci.image.layer.nondistributable.v1.tar'',
        ''application/vnd.oci.image.layer.nondistributable.v1.tar+gzip'',
        ''application/vnd.oci.image.layer.nondistributable.v1.tar+zstd'',
        ''application/vnd.docker.image.rootfs.foreign.diff.tar.gzip''] mt"

section \<open>Leaves\<close>

definition store_createOnce :: "'w backend \<Rightarrow> string \<Rightarrow> bytes \<Rightarrow> ('w, unit) io" where
  "store_createOnce B name b =
     ebind (attempt (b_Create B name (bytes_body b) (int (length b)) [])) (\<lambda>r.
       case r of
         Inl e \<Rightarrow> if err_is e ErrExist then ret () else throw e
       | Inr _ \<Rightarrow> ret ())"

definition ImageLayoutVersion :: string where "ImageLayoutVersion = ''1.0.0''"

definition store_layoutJSON :: "oci_lib \<Rightarrow> bytes" where
  "store_layoutJSON L = marshal_Layout L \<lparr>l_Version = ImageLayoutVersion\<rparr>"

definition leaf_index :: "reference \<Rightarrow> platform \<Rightarrow> descriptor \<Rightarrow> image_index" where
  "leaf_index ref p md =
     \<lparr>i_Manifests =
        [\<lparr>d_MediaType = d_MediaType md, d_Digest = d_Digest md, d_Size = d_Size md,
          d_Annotations =
            (if Digest ref = [] then fmupd AnnotationRefName (Tag ref) fmempty else fmempty),
          d_Platform = Some p\<rparr>]\<rparr>"

definition store_indexJSON :: "oci_lib \<Rightarrow> reference \<Rightarrow> platform \<Rightarrow> descriptor \<Rightarrow> bytes res" where
  "store_indexJSON L ref p md =
     (case marshal_Index L (leaf_index ref p md) of Inl e \<Rightarrow> Err e | Inr b \<Rightarrow> Ok b)"

definition store_leafManifest :: "oci_lib \<Rightarrow> 'w backend \<Rightarrow> string \<Rightarrow> ('w, descriptor) io" where
  "store_leafManifest L B leaf =
     ebind (store_readAll B (path_Join [leaf, ImageIndexFile])) (\<lambda>b.
       case json_Index L b of
         Inl e \<Rightarrow> throw (Wrap1 ''store: index.json'' e)
       | Inr idx \<Rightarrow>
           (case i_Manifests idx of
              [d] \<Rightarrow> ret d
            | _ \<Rightarrow> throw (Msg ''store: index.json: manifests, want 1'')))"

section \<open>Commit\<close>

text \<open>
  The checks of \<open>Commit\<close> up to the first write: manifest, foreign layers, config, platform, the
  presence of every layer and the number of diffIDs. They give the manifest and the config.
\<close>

definition store_layerPresent ::
  "oci_lib \<Rightarrow> 'w backend \<Rightarrow> descriptor \<Rightarrow> ('w, unit) io" where
  "store_layerPresent L B l =
     ebind (store_HasBlob L B (d_Digest l)) (\<lambda>ok.
       if ok then ret () else throw (Wrap1 ''store: layer of manifest'' (Sentinel ErrNotExist)))"

definition store_Commit_check ::
  "oci_lib \<Rightarrow> 'w backend \<Rightarrow> platform \<Rightarrow> descriptor \<Rightarrow> ('w, manifest \<times> image_config) io" where
  "store_Commit_check L B p md =
     (if \<not> store_isManifest (d_MediaType md)
      then throw (Msg ''store: media type is not a single-platform image manifest'')
      else
        ebind (map_err (Wrap1 ''store: manifest'') (store_readJSON L B (json_Manifest L) (d_Digest md)))
          (\<lambda>(mb, m).
        if list_ex (\<lambda>l. store_isForeign (d_MediaType l)) (m_Layers m)
        then throw (Wrap1 ''foreign layer'' (Sentinel ErrForeignLayer))
        else
          ebind (map_err (Wrap1 ''store: config'')
                   (store_readJSON L B (json_Image L) (d_Digest (m_Config m))))
            (\<lambda>(cb, cfg).
          if \<not> platform_Matches p (c_Platform cfg)
          then throw (Wrap1 ''config platform'' (Sentinel ErrPlatform))
          else
            ebind (for_each (store_layerPresent L B) (m_Layers m)) (\<lambda>_.
            if length (c_DiffIDs cfg) \<noteq> length (m_Layers m)
            then throw (Msg ''store: config lists diffIDs for layers'')
            else ret (m, cfg)))))"

text \<open>The writes: the diffID markers, the layout file, the empty blobs directory, the index.\<close>

definition store_marker ::
  "oci_lib \<Rightarrow> 'w backend \<Rightarrow> string \<times> descriptor \<Rightarrow> ('w, unit) io" where
  "store_marker L B dl =
     ebind (pure_res (store_DiffIDPath L (fst dl) (d_Digest (snd dl)))) (\<lambda>name.
       store_createOnce B name ''{}'')"

definition store_Commit_index ::
  "oci_lib \<Rightarrow> 'w backend \<Rightarrow> reference \<Rightarrow> platform \<Rightarrow> descriptor \<Rightarrow> string \<Rightarrow> ('w, unit) io" where
  "store_Commit_index L B ref p md leaf =
     ebind (pure_res (store_indexJSON L ref p md)) (\<lambda>index.
     ebind (attempt (b_Create B (path_Join [leaf, ImageIndexFile]) (bytes_body index)
                       (int (length index)) [])) (\<lambda>r.
       case r of
         Inr _ \<Rightarrow> ret ()
       | Inl e \<Rightarrow>
           if \<not> err_is e ErrExist then throw e
           else
             ebind (store_leafManifest L B leaf) (\<lambda>existing.
               if d_Digest existing \<noteq> d_Digest md
               then throw (Wrap1 ''leaf holds another manifest'' (Sentinel ErrConflict))
               else ret ())))"

definition store_Commit_write ::
  "oci_lib \<Rightarrow> 'w backend \<Rightarrow> reference \<Rightarrow> platform \<Rightarrow> descriptor \<Rightarrow> manifest \<Rightarrow> image_config
     \<Rightarrow> ('w, unit) io" where
  "store_Commit_write L B ref p md m cfg =
     ebind (for_each (store_marker L B) (zip (c_DiffIDs cfg) (m_Layers m))) (\<lambda>_.
     ebind (pure_res (store_LeafPath L ref p)) (\<lambda>leaf.
     ebind (store_createOnce B (path_Join [leaf, ImageLayoutFile]) (store_layoutJSON L)) (\<lambda>_.
     ebind (case b_MkdirAll B of
              None \<Rightarrow> ret ()
            | Some mk \<Rightarrow> mk (path_Join [leaf, ImageBlobsDir])) (\<lambda>_.
       store_Commit_index L B ref p md leaf))))"

definition store_Commit ::
  "oci_lib \<Rightarrow> 'w backend \<Rightarrow> reference \<Rightarrow> platform \<Rightarrow> descriptor \<Rightarrow> ('w, unit) io" where
  "store_Commit L B ref p md =
     ebind (store_Commit_check L B p md) (\<lambda>(m, cfg). store_Commit_write L B ref p md m cfg)"

section \<open>Resolve and the oci-dir views\<close>

record 'w image =
  im_Ref :: reference
  im_Platform :: platform
  im_Manifest :: descriptor
  im_Dir :: "'w oci_dir"

definition decode :: "(bytes \<Rightarrow> gerr + 'v) \<Rightarrow> ('w, bytes) io \<Rightarrow> ('w, 'v) io" where
  "decode dec m = ebind m (\<lambda>b. case dec b of Inl e \<Rightarrow> throw e | Inr v \<Rightarrow> ret v)"

definition store_leafDir :: "oci_lib \<Rightarrow> 'w backend \<Rightarrow> string \<Rightarrow> 'w oci_dir" where
  "store_leafDir L B leaf =
     (let indexBin = store_readAll B (path_Join [leaf, ImageIndexFile]);
          layoutBin = store_readAll B (path_Join [leaf, ImageLayoutFile])
      in \<lparr>od_Blobs = store_Blob L B,
          od_Index = decode (json_Index L) indexBin,
          od_OciLayout = decode (json_Layout L) layoutBin,
          od_IndexBin = indexBin,
          od_OciLayoutBin = layoutBin\<rparr>)"

definition store_SingleManifestDir ::
  "oci_lib \<Rightarrow> (string \<Rightarrow> ('w, reader) io) \<Rightarrow> platform \<Rightarrow> descriptor \<Rightarrow> 'w oci_dir" where
  "store_SingleManifestDir L blobs p md =
     (let indexBin = pure_res (store_indexJSON L
            \<lparr>Repository = [], Tag = [], Digest = d_Digest md\<rparr> p md)
      in \<lparr>od_Blobs = blobs,
          od_Index = decode (json_Index L) indexBin,
          od_OciLayout = ret \<lparr>l_Version = ImageLayoutVersion\<rparr>,
          od_IndexBin = indexBin,
          od_OciLayoutBin = ret (store_layoutJSON L)\<rparr>)"

definition store_image ::
  "oci_lib \<Rightarrow> 'w backend \<Rightarrow> reference \<Rightarrow> platform \<Rightarrow> descriptor \<Rightarrow> string \<Rightarrow> 'w image" where
  "store_image L B ref p md leaf =
     \<lparr>im_Ref = ref, im_Platform = p, im_Manifest = md,
      im_Dir = (if leaf = [] then store_SingleManifestDir L (store_Blob L B) p md
                else store_leafDir L B leaf)\<rparr>"

definition store_Resolve ::
  "oci_lib \<Rightarrow> 'w backend \<Rightarrow> reference \<Rightarrow> platform \<Rightarrow> ('w, 'w image) io" where
  "store_Resolve L B ref p =
     ebind (pure_res (store_LeafPath L ref p)) (\<lambda>leaf.
     ebind (attempt (store_leafManifest L B leaf)) (\<lambda>r.
       case r of
         Inr md \<Rightarrow> ret (store_image L B ref p md leaf)
       | Inl err \<Rightarrow>
           if \<not> err_is err ErrNotExist \<or> Digest ref = []
           then throw (Wrap1 ''store: resolving'' err)
           else
             ebind (attempt (store_readJSON L B (json_MediaType L) (Digest ref))) (\<lambda>r2.
               case r2 of
                 Inl _ \<Rightarrow> throw (Wrap1 ''store: resolving'' err)
               | Inr (b, mt) \<Rightarrow>
                   if \<not> store_isManifest mt then throw (Wrap1 ''store: resolving'' err)
                   else ret (store_image L B ref p
                          \<lparr>d_MediaType = mt, d_Digest = Digest ref, d_Size = int (length b),
                           d_Annotations = fmempty, d_Platform = None\<rparr> []))))"

section \<open>Listing\<close>

text \<open>
  \<open>Walk\<close> is the list of what the iterator yields when it is run to its end. One entry of the
  listing gives at most one item.
\<close>

definition store_walkEntry ::
  "oci_lib \<Rightarrow> 'w backend \<Rightarrow> gerr + string \<Rightarrow> ('w, (gerr + 'w image) list) io" where
  "store_walkEntry L B entry =
     (case entry of
        Inl e \<Rightarrow> ret [Inl e]
      | Inr name \<Rightarrow>
          (case cut_suffix name (''/'' @ ImageIndexFile) of
             None \<Rightarrow> ret []
           | Some leaf \<Rightarrow>
               (case store_parseLeaf L leaf of
                  Err _ \<Rightarrow> ret []
                | Panic \<Rightarrow> pure_res Panic
                | Ok (ref, p) \<Rightarrow>
                    ebind (attempt (store_leafManifest L B leaf)) (\<lambda>r.
                      case r of
                        Inl e \<Rightarrow> ret [Inl e]
                      | Inr md \<Rightarrow> ret [Inr (store_image L B ref p md leaf)]))))"

fun store_walkAll ::
  "oci_lib \<Rightarrow> 'w backend \<Rightarrow> (gerr + string) list \<Rightarrow> ('w, (gerr + 'w image) list) io" where
  "store_walkAll L B [] = ret []"
| "store_walkAll L B (x # xs) =
     ebind (store_walkEntry L B x) (\<lambda>ys. ebind (store_walkAll L B xs) (\<lambda>zs. ret (ys @ zs)))"

definition store_Walk :: "oci_lib \<Rightarrow> 'w backend \<Rightarrow> ('w, (gerr + 'w image) list) io" where
  "store_Walk L B =
     (case b_List B of
        None \<Rightarrow> ret [Inl (Sentinel ErrNotListable)]
      | Some ls \<Rightarrow> ebind (ls (imageRefsDir @ ''/'')) (store_walkAll L B))"

definition store_HasDiffIDBlob ::
  "oci_lib \<Rightarrow> 'w backend \<Rightarrow> string \<Rightarrow> string \<Rightarrow> ('w, bool) io" where
  "store_HasDiffIDBlob L B diffID blob =
     (case digest_Validate L diffID of
        Some e \<Rightarrow> throw e
      | None \<Rightarrow>
          (case digest_Validate L blob of
             Some e \<Rightarrow> throw e
           | None \<Rightarrow>
               ebind (pure_res (store_DiffIDPath L diffID blob)) (\<lambda>name.
               ebind (attempt (b_Open B name)) (\<lambda>r.
                 case r of
                   Inl e \<Rightarrow> if err_is e ErrNotExist then ret False else throw e
                 | Inr _ \<Rightarrow> ret True))))"

text \<open>One name of the listing: an error ends the call, a name that is no marker is skipped.\<close>

fun store_diffIDEntries ::
  "oci_lib \<Rightarrow> string \<Rightarrow> (gerr + string) list \<Rightarrow> string list res" where
  "store_diffIDEntries L pre [] = Ok []"
| "store_diffIDEntries L pre (Inl e # xs) = Err e"
| "store_diffIDEntries L pre (Inr name # xs) =
     (case store_diffIDEntries L pre xs of
        Err e \<Rightarrow> Err e
      | Panic \<Rightarrow> Panic
      | Ok out \<Rightarrow>
          (case cut_prefix name pre of
             None \<Rightarrow> Ok out
           | Some rest \<Rightarrow>
               (case cut rest ''/'' of
                  None \<Rightarrow> Ok out
                | Some (alg, hex) \<Rightarrow>
                    (let d = digest_NewFromEncoded L alg hex in
                     if digest_Validate L d = None then Ok (d # out) else Ok out))))"

definition store_DiffIDBlobs ::
  "oci_lib \<Rightarrow> 'w backend \<Rightarrow> string \<Rightarrow> ('w, string list) io" where
  "store_DiffIDBlobs L B diffID =
     (case digest_Validate L diffID of
        Some e \<Rightarrow> throw e
      | None \<Rightarrow>
          (case b_List B of
             None \<Rightarrow> throw (Sentinel ErrNotListable)
           | Some ls \<Rightarrow>
               ebind (pure_res (digest_split L diffID)) (\<lambda>(a, h).
               let pre = path_Join [diffIDsDir, a, h] @ ''/'' in
               ebind (ls pre) (\<lambda>names. pure_res (store_diffIDEntries L pre names)))))"

end
