(* ===== verification/Store_Invariant.thy ===== *)
theory Store_Invariant
  imports Store
begin

text \<open>
  What package store promises of its tree, and the proofs that its operations keep it over every
  backend that meets the contract: every stored blob has the content its digest names, every digest
  a leaf refers to is present, and files never change once written. The lemmas live in the locale
  \<open>store_backend\<close>; the theories of the backends interpret it.
\<close>

section \<open>The promise\<close>

definition blob_at :: "oci_lib \<Rightarrow> tree \<Rightarrow> string \<Rightarrow> bytes \<Rightarrow> bool" where
  "blob_at L t d b \<longleftrightarrow> valid_digest L d \<and> t (seg_path (blob_segs L d)) = Some b"

definition has_blob :: "oci_lib \<Rightarrow> tree \<Rightarrow> string \<Rightarrow> bool" where
  "has_blob L t d \<longleftrightarrow> valid_digest L d \<and> t (seg_path (blob_segs L d)) \<noteq> None"

text \<open>
  The image of manifest \<open>d\<close> is complete for platform \<open>p\<close> with manifest \<open>m\<close> and config \<open>cfg\<close>: both
  are stored under their own digests, the config matches the platform, no layer is foreign and
  every layer is stored, with one diffID each.
\<close>

definition image_data ::
  "oci_lib \<Rightarrow> tree \<Rightarrow> platform \<Rightarrow> string \<Rightarrow> manifest \<Rightarrow> image_config \<Rightarrow> bool" where
  "image_data L t p d m cfg \<longleftrightarrow>
     (\<exists>b. blob_at L t d b \<and> digest_FromBytes L b = d \<and> json_Manifest L b = Inr m) \<and>
     (\<exists>b. blob_at L t (d_Digest (m_Config m)) b \<and> digest_FromBytes L b = d_Digest (m_Config m) \<and>
          json_Image L b = Inr cfg) \<and>
     platform_Matches p (c_Platform cfg) \<and>
     (\<forall>l \<in> set (m_Layers m). has_blob L t (d_Digest l) \<and> \<not> store_isForeign (d_MediaType l)) \<and>
     length (c_DiffIDs cfg) = length (m_Layers m)"

definition markers_at :: "oci_lib \<Rightarrow> tree \<Rightarrow> manifest \<Rightarrow> image_config \<Rightarrow> bool" where
  "markers_at L t m cfg \<longleftrightarrow>
     (\<forall>(d, l) \<in> set (zip (c_DiffIDs cfg) (m_Layers m)).
        t (seg_path (diff_segs L d (d_Digest l))) \<noteq> None)"

definition image_closed :: "oci_lib \<Rightarrow> tree \<Rightarrow> platform \<Rightarrow> string \<Rightarrow> bool" where
  "image_closed L t p d \<longleftrightarrow> (\<exists>m cfg. image_data L t p d m cfg \<and> markers_at L t m cfg)"

definition leaf_index_path :: "oci_lib \<Rightarrow> reference \<Rightarrow> platform \<Rightarrow> string" where
  "leaf_index_path L ref p = seg_path (leaf_segs L ref p @ [ImageIndexFile])"

definition leaf_layout_path :: "oci_lib \<Rightarrow> reference \<Rightarrow> platform \<Rightarrow> string" where
  "leaf_layout_path L ref p = seg_path (leaf_segs L ref p @ [ImageLayoutFile])"

text \<open>The leaf's index.json holds the one manifest \<open>md\<close>.\<close>

definition leaf_holds ::
  "oci_lib \<Rightarrow> tree \<Rightarrow> reference \<Rightarrow> platform \<Rightarrow> descriptor \<Rightarrow> bool" where
  "leaf_holds L t ref p md \<longleftrightarrow>
     (\<exists>b ix. t (leaf_index_path L ref p) = Some b \<and> json_Index L b = Inr ix \<and>
             i_Manifests ix = [md])"

definition blobs_verified :: "oci_lib \<Rightarrow> tree \<Rightarrow> bool" where
  "blobs_verified L t \<longleftrightarrow> (\<forall>d b. blob_at L t d b \<longrightarrow> digest_matches L d b)"

definition leaves_closed :: "oci_lib \<Rightarrow> tree \<Rightarrow> bool" where
  "leaves_closed L t \<longleftrightarrow>
     (\<forall>ref p. leafable L ref p \<longrightarrow> t (leaf_index_path L ref p) \<noteq> None \<longrightarrow>
        t (leaf_layout_path L ref p) \<noteq> None \<and>
        (\<exists>md. leaf_holds L t ref p md \<and> image_closed L t p (d_Digest md)))"

definition store_inv :: "oci_lib \<Rightarrow> tree \<Rightarrow> bool" where
  "store_inv L t \<longleftrightarrow> blobs_verified L t \<and> leaves_closed L t"

text \<open>Every config the tree holds under its digest lists valid diffIDs.\<close>

definition diff_ids_valid :: "oci_lib \<Rightarrow> tree \<Rightarrow> bool" where
  "diff_ids_valid L t \<longleftrightarrow>
     (\<forall>d b cfg. blob_at L t d b \<longrightarrow> json_Image L b = Inr cfg \<longrightarrow>
        list_all (valid_digest L) (c_DiffIDs cfg))"

section \<open>Growing the tree\<close>

lemma blob_at_mono: "blob_at L t d b \<Longrightarrow> t \<subseteq>\<^sub>m t' \<Longrightarrow> blob_at L t' d b"
  unfolding blob_at_def map_le_def by force

lemma has_blob_mono: "has_blob L t d \<Longrightarrow> t \<subseteq>\<^sub>m t' \<Longrightarrow> has_blob L t' d"
  unfolding has_blob_def map_le_def by force

lemma image_data_mono: "image_data L t p d m cfg \<Longrightarrow> t \<subseteq>\<^sub>m t' \<Longrightarrow> image_data L t' p d m cfg"
  unfolding image_data_def by (blast intro: blob_at_mono has_blob_mono)

lemma image_data_unique: "image_data L t p d m cfg \<Longrightarrow> image_data L t p' d m' cfg' \<Longrightarrow> m' = m \<and> cfg' = cfg"
  unfolding image_data_def blob_at_def by fastforce

lemma map_le_present: "t \<subseteq>\<^sub>m t' \<Longrightarrow> t n \<noteq> None \<Longrightarrow> t' n \<noteq> None"
  unfolding map_le_def by (metis domIff)

lemma markers_at_mono: "markers_at L t m cfg \<Longrightarrow> t \<subseteq>\<^sub>m t' \<Longrightarrow> markers_at L t' m cfg"
  unfolding markers_at_def by (clarify, blast dest: map_le_present)

lemma image_closed_mono: "image_closed L t p d \<Longrightarrow> t \<subseteq>\<^sub>m t' \<Longrightarrow> image_closed L t' p d"
  unfolding image_closed_def by (meson image_data_mono markers_at_mono)

lemma leaf_holds_mono: "leaf_holds L t ref p md \<Longrightarrow> t \<subseteq>\<^sub>m t' \<Longrightarrow> leaf_holds L t' ref p md"
  unfolding leaf_holds_def map_le_def by force

lemma leaf_holds_unique: "leaf_holds L t ref p md \<Longrightarrow> leaf_holds L t ref p md' \<Longrightarrow> md = md'"
  unfolding leaf_holds_def by auto

lemma map_le_new: "t n = None \<Longrightarrow> t \<subseteq>\<^sub>m t(n \<mapsto> c)"
  by (auto simp: map_le_def)

lemma leaf_promise_mono:
  assumes "t (leaf_layout_path L ref p) \<noteq> None" "leaf_holds L t ref p md" "image_closed L t p (d_Digest md)"
    and "t \<subseteq>\<^sub>m t'"
  shows "t' (leaf_layout_path L ref p) \<noteq> None \<and>
    (\<exists>md. leaf_holds L t' ref p md \<and> image_closed L t' p (d_Digest md))"
  by (intro conjI exI) (rule map_le_present [OF assms(4,1)] leaf_holds_mono [OF assms(2,4)]
    image_closed_mono [OF assms(3,4)])+

text \<open>A new file that is neither a blob nor a leaf's index.\<close>

lemma store_inv_other:
  assumes "store_inv L t" "t n = None"
    and "\<And>d. valid_digest L d \<Longrightarrow> n \<noteq> seg_path (blob_segs L d)"
    and "\<And>ref p. leafable L ref p \<Longrightarrow> n \<noteq> leaf_index_path L ref p"
  shows "store_inv L (t(n \<mapsto> c))"
proof -
  note grow = map_le_new [of t n, OF assms(2)]
  have "blobs_verified L (t(n \<mapsto> c))"
    using assms(1,3) by (auto simp: store_inv_def blobs_verified_def blob_at_def)
  moreover have "leaves_closed L (t(n \<mapsto> c))"
    unfolding leaves_closed_def
  proof (intro allI impI)
    fix ref p
    assume *: "leafable L ref p" "(t(n \<mapsto> c)) (leaf_index_path L ref p) \<noteq> None"
    have "leaf_index_path L ref p \<noteq> n" using assms(4) [OF *(1)] by simp
    with * have "t (leaf_index_path L ref p) \<noteq> None" by simp
    with * assms(1) obtain md where "t (leaf_layout_path L ref p) \<noteq> None"
      "leaf_holds L t ref p md" "image_closed L t p (d_Digest md)"
      by (auto simp: store_inv_def leaves_closed_def)
    from leaf_promise_mono [OF this grow] show "(t(n \<mapsto> c)) (leaf_layout_path L ref p) \<noteq> None \<and>
        (\<exists>md. leaf_holds L (t(n \<mapsto> c)) ref p md \<and> image_closed L (t(n \<mapsto> c)) p (d_Digest md))"
      .
  qed
  ultimately show ?thesis by (simp add: store_inv_def)
qed

text \<open>A new blob with the content its digest names.\<close>

lemma store_inv_blob:
  assumes laws: "digest_laws L" and inv: "store_inv L t" and new: "t (seg_path (blob_segs L d)) = None"
    and d: "valid_digest L d" "digest_matches L d c"
  shows "store_inv L (t(seg_path (blob_segs L d) \<mapsto> c))" (is "store_inv L ?t'")
proof -
  note grow = map_le_new [of t "seg_path (blob_segs L d)", OF new]
  have "blobs_verified L ?t'"
    unfolding blobs_verified_def
  proof (intro allI impI)
    fix d' b assume b: "blob_at L ?t' d' b"
    show "digest_matches L d' b"
    proof (cases "seg_path (blob_segs L d') = seg_path (blob_segs L d)")
      case True
      with b have "d' = d" using laws d by (auto simp: blob_at_def dest: blob_segs_inj)
      with b d show ?thesis by (simp add: blob_at_def)
    next
      case False
      with b have "blob_at L t d' b" by (simp add: blob_at_def)
      with inv show ?thesis by (simp add: store_inv_def blobs_verified_def)
    qed
  qed
  moreover have "leaves_closed L ?t'"
    unfolding leaves_closed_def
  proof (intro allI impI)
    fix ref p
    assume *: "leafable L ref p" "?t' (leaf_index_path L ref p) \<noteq> None"
    have "leaf_index_path L ref p \<noteq> seg_path (blob_segs L d)"
      unfolding leaf_index_path_def
      by (rule paths_disjoint)
        (simp_all add: store_segs_leaf [OF laws *(1)] store_segs_blob [OF laws d(1)])
    with * have "t (leaf_index_path L ref p) \<noteq> None" by simp
    with * inv obtain md where "t (leaf_layout_path L ref p) \<noteq> None"
      "leaf_holds L t ref p md" "image_closed L t p (d_Digest md)"
      by (auto simp: store_inv_def leaves_closed_def)
    from leaf_promise_mono [OF this grow] show "?t' (leaf_layout_path L ref p) \<noteq> None \<and>
        (\<exists>md. leaf_holds L ?t' ref p md \<and> image_closed L ?t' p (d_Digest md))"
      .
  qed
  ultimately show ?thesis by (simp add: store_inv_def)
qed

text \<open>A new leaf index for a complete image.\<close>

lemma store_inv_index:
  assumes laws: "digest_laws L" and inv: "store_inv L t" and leaf: "leafable L ref p"
    and new: "t (leaf_index_path L ref p) = None" and layout: "t (leaf_layout_path L ref p) \<noteq> None"
    and c: "json_Index L c = Inr ix" "i_Manifests ix = [md]"
    and closed: "image_closed L t p (d_Digest md)"
  shows "store_inv L (t(leaf_index_path L ref p \<mapsto> c))" (is "store_inv L ?t'")
proof -
  note grow = map_le_new [of t "leaf_index_path L ref p", OF new]
  have "blobs_verified L ?t'"
    unfolding blobs_verified_def
  proof (intro allI impI)
    fix d b assume b: "blob_at L ?t' d b"
    then have "seg_path (blob_segs L d) \<noteq> leaf_index_path L ref p"
      unfolding leaf_index_path_def blob_at_def
      by (intro paths_disjoint) (simp_all add: store_segs_leaf [OF laws leaf] store_segs_blob [OF laws])
    with b inv show "digest_matches L d b"
      by (auto simp: blob_at_def store_inv_def blobs_verified_def)
  qed
  moreover have "leaves_closed L ?t'"
    unfolding leaves_closed_def
  proof (intro allI impI)
    fix ref' p'
    assume *: "leafable L ref' p'" "?t' (leaf_index_path L ref' p') \<noteq> None"
    show "?t' (leaf_layout_path L ref' p') \<noteq> None \<and>
        (\<exists>md. leaf_holds L ?t' ref' p' md \<and> image_closed L ?t' p' (d_Digest md))"
    proof (cases "leaf_index_path L ref' p' = leaf_index_path L ref p")
      case True
      then have segs: "leaf_segs L ref' p' = leaf_segs L ref p"
        using seg_path_inj [of "leaf_segs L ref' p' @ [ImageIndexFile]" "leaf_segs L ref p @ [ImageIndexFile]"]
          store_segs_leaf [OF laws] leaf *(1) unfolding leaf_index_path_def by auto
      then have "p' = p" using leaf_segs_inj [OF laws] leafableD leaf *(1) by metis
      moreover have "leaf_layout_path L ref' p' = leaf_layout_path L ref p"
        using segs by (simp add: leaf_layout_path_def)
      moreover have "leaf_holds L ?t' ref' p' md"
        using c True by (auto simp: leaf_holds_def)
      ultimately show ?thesis
        using layout closed grow by (metis fun_upd_apply image_closed_mono option.distinct(1))
    next
      case False
      with * have "t (leaf_index_path L ref' p') \<noteq> None" by simp
      with * inv obtain md' where "t (leaf_layout_path L ref' p') \<noteq> None"
        "leaf_holds L t ref' p' md'" "image_closed L t p' (d_Digest md')"
        by (auto simp: store_inv_def leaves_closed_def)
      from leaf_promise_mono [OF this grow] show ?thesis .
    qed
  qed
  ultimately show ?thesis by (simp add: store_inv_def)
qed

lemma store_inv_empty: "store_inv L Map.empty"
  by (simp add: store_inv_def blobs_verified_def leaves_closed_def blob_at_def)

section \<open>The operations over a backend\<close>

context store_backend
begin

text \<open>A read leaves the tree alone; a write only adds to it.\<close>

abbreviation reads :: "('w, 'a) io \<Rightarrow> bool" where
  "reads m \<equiv> moves (\<lambda>w w'. tree w' = tree w \<and> (ok w \<longrightarrow> ok w')) m"

abbreviation grows :: "('w, 'a) io \<Rightarrow> bool" where
  "grows m \<equiv> moves (\<lambda>w w'. ok w \<longrightarrow> ok w' \<and> tree w \<subseteq>\<^sub>m tree w') m"

lemma reads_grows_rel [simp]:
  "reflp (\<lambda>w w'. tree w' = tree w \<and> (ok w \<longrightarrow> ok w'))"
  "transp (\<lambda>w w'. tree w' = tree w \<and> (ok w \<longrightarrow> ok w'))"
  "reflp (\<lambda>w w'. ok w \<longrightarrow> ok w' \<and> tree w \<subseteq>\<^sub>m tree w')"
  "transp (\<lambda>w w'. ok w \<longrightarrow> ok w' \<and> tree w \<subseteq>\<^sub>m tree w')"
  by (auto intro!: reflpI transpI intro: map_le_trans)

lemma reads_grows: "reads m \<Longrightarrow> grows m"
  unfolding moves_def by auto

lemma reads_open [keeps_intros]: "reads (b_Open B n)"
  by (rule movesI) (auto dest: open_tree open_ok)

lemma reads_Blob [keeps_intros]: "reads (store_Blob L B d)"
  by (auto simp: store_Blob_def intro!: keeps_intros split: option.splits)

lemma reads_HasBlob [keeps_intros]: "reads (store_HasBlob L B d)"
  unfolding store_HasBlob_def by (auto intro!: keeps_intros split: sum.splits)

lemma reads_readAll [keeps_intros]: "reads (store_readAll B n)"
  unfolding store_readAll_def by (auto intro!: keeps_intros)

lemma reads_readJSON [keeps_intros]: "reads (store_readJSON L B dec d)"
  unfolding store_readJSON_def by (auto intro!: keeps_intros split: sum.splits)

lemma reads_leafManifest [keeps_intros]: "reads (store_leafManifest L B leaf)"
  unfolding store_leafManifest_def by (auto intro!: keeps_intros split: sum.splits list.splits)

lemma reads_layerPresent [keeps_intros]: "reads (store_layerPresent L B l)"
  unfolding store_layerPresent_def by (auto intro!: keeps_intros)

lemma reads_Commit_check [keeps_intros]: "reads (store_Commit_check L B p md)"
  unfolding store_Commit_check_def by (auto intro!: keeps_intros split: prod.splits)

lemma reads_Resolve [keeps_intros]: "reads (store_Resolve L B ref p)"
  unfolding store_Resolve_def by (auto intro!: keeps_intros split: sum.splits prod.splits)

lemma reads_walkEntry [keeps_intros]: "reads (store_walkEntry L B x)"
  unfolding store_walkEntry_def
  by (auto intro!: keeps_intros split: sum.splits option.splits res.splits prod.splits)

lemma reads_walkAll [keeps_intros]: "reads (store_walkAll L B xs)"
  by (induction xs) (auto intro!: keeps_intros)

lemma reads_Walk: "reads (store_Walk L B)"
proof (cases "b_List B")
  case None
  then show ?thesis by (simp add: store_Walk_def moves_ret)
next
  case (Some ls)
  have "reads (ls n)" for n
    by (rule movesI) (auto dest: list_tree [OF Some] list_ok [OF Some])
  with Some show ?thesis by (auto simp: store_Walk_def intro!: keeps_intros)
qed

subsection \<open>What a successful read tells\<close>

lemma readAll_Ok:
  assumes "ok w" "store_file n" "store_readAll B n w = (Ok b, w')"
  shows "tree w n = Some b"
proof -
  from assms(3) obtain r where "b_Open B n w = (Ok r, w')" "read_all r = Ok b"
    by (auto simp: store_readAll_def ebind_Ok)
  with open_Ok [OF assms(1,2)] show ?thesis by (auto simp: serves_def)
qed

lemma readJSON_Ok:
  assumes laws: "digest_laws L" and w: "ok w" "store_readJSON L B dec d w = (Ok (b, v), w')"
  shows "blob_at L (tree w) d b" "digest_FromBytes L b = d" "dec b = Inr v"
proof -
  from w(2) obtain n where n: "store_BlobPath L d = Ok n" "store_readAll B n w = (Ok b, w')"
    and d: "digest_FromBytes L b = d" "dec b = Inr v"
    by (auto simp: store_readJSON_def ebind_Ok split: if_splits sum.splits)
  from d(1) have v: "valid_digest L d" using valid_FromBytes [OF laws] by blast
  with n(1) have path: "n = seg_path (blob_segs L d)" by (simp add: BlobPath_valid [OF laws])
  then have "store_file n" by (simp add: store_file_seg_path store_segs_blob [OF laws v])
  from readAll_Ok [OF w(1) this n(2)] v path show "blob_at L (tree w) d b"
    by (simp add: blob_at_def)
  show "digest_FromBytes L b = d" "dec b = Inr v" using d by auto
qed

lemma HasBlob_Ok:
  assumes laws: "digest_laws L" and w: "ok w" "store_HasBlob L B d w = (Ok r, w')"
  shows "valid_digest L d" "r \<longleftrightarrow> has_blob L (tree w) d"
proof -
  from w(2) have v: "valid_digest L d"
    using invalid_not_NotExist [OF laws]
    by (auto simp: store_HasBlob_def store_Blob_def valid_digest_def ebind_Ok attempt_Ok
        split: option.splits sum.splits if_splits)
  let ?n = "seg_path (blob_segs L d)"
  have "store_file ?n" by (simp add: store_file_seg_path store_segs_blob [OF laws v])
  moreover from w(2) v have "(r \<and> (\<exists>rd. b_Open B ?n w = (Ok rd, w'))) \<or>
      (\<not> r \<and> (\<exists>e. b_Open B ?n w = (Err e, w') \<and> err_is e ErrNotExist))"
    by (auto simp: store_HasBlob_def store_Blob_def valid_digest_def BlobPath_valid [OF laws v]
        ebind_Ok attempt_Ok ebind_Err split: option.splits sum.splits if_splits)
  ultimately show "r \<longleftrightarrow> has_blob L (tree w) d"
    using open_Ok [OF w(1)] open_Err [OF w(1)] v unfolding has_blob_def by (metis option.distinct(1))
  show "valid_digest L d" by (rule v)
qed

lemma leafManifest_Ok:
  assumes laws: "digest_laws L" and leaf: "leafable L ref p"
    and w: "ok w" "store_leafManifest L B (seg_path (leaf_segs L ref p)) w = (Ok md, w')"
  shows "leaf_holds L (tree w) ref p md"
proof -
  note plain = leaf_segs_plain [OF laws leafableD(1) [OF leaf] leafableD(2) [OF leaf]]
  have path: "path_Join [seg_path (leaf_segs L ref p), ImageIndexFile] = leaf_index_path L ref p"
    unfolding leaf_index_path_def using plain
    by (intro path_Join_leaf) (auto simp: list_all_iff)
  have fl: "store_file (leaf_index_path L ref p)"
    unfolding leaf_index_path_def
    by (intro store_file_seg_path store_segs_leaf [OF laws leaf]) simp
  from w(2) obtain b w1 where b: "store_readAll B (leaf_index_path L ref p) w = (Ok b, w1)"
    and rest: "(case json_Index L b of
         Inl e \<Rightarrow> throw (Wrap1 ''store: index.json'' e)
       | Inr idx \<Rightarrow>
           (case i_Manifests idx of
              [d] \<Rightarrow> ret d
            | _ \<Rightarrow> throw (Msg ''store: index.json: manifests, want 1''))) w1 = (Ok md, w')"
    by (auto simp: store_leafManifest_def path ebind_Ok)
  from rest obtain ix where ix: "json_Index L b = Inr ix" "i_Manifests ix = [md]"
    by (cases "json_Index L b") (auto split: list.splits)
  from readAll_Ok [OF w(1) fl b] ix show ?thesis by (auto simp: leaf_holds_def)
qed

end

end
