(* ===== verification/Store_Commit.thy ===== *)
theory Store_Commit
  imports Store_Invariant
begin

text \<open>
  The writing operations of package store, over every backend that meets the contract of
  \<open>store_backend\<close>: \<open>PutBlob\<close> and \<open>Commit\<close> keep the invariant however they end, a commit that
  returns without an error has left the leaf with its manifest and the complete image, a leaf is
  never given another manifest, and \<open>Resolve\<close> answers from the leaf.
\<close>

lemma leaf_index_not_blob:
  assumes "digest_laws L" "leafable L ref p" "valid_digest L d"
  shows "leaf_index_path L ref p \<noteq> seg_path (blob_segs L d)"
  unfolding leaf_index_path_def
  by (rule paths_disjoint)
    (simp_all add: store_segs_leaf [OF assms(1,2)] store_segs_blob [OF assms(1,3)])

lemma diff_not_blob:
  assumes "digest_laws L" "valid_digest L d" "valid_digest L b" "valid_digest L d'"
  shows "seg_path (diff_segs L d b) \<noteq> seg_path (blob_segs L d')"
  by (rule paths_disjoint)
    (simp_all add: store_segs_diff [OF assms(1-3)] store_segs_blob [OF assms(1,4)])

lemma diff_not_index:
  assumes "digest_laws L" "valid_digest L d" "valid_digest L b" "leafable L ref p"
  shows "seg_path (diff_segs L d b) \<noteq> leaf_index_path L ref p"
  unfolding leaf_index_path_def
  by (rule paths_disjoint)
    (simp_all add: store_segs_diff [OF assms(1-3)] store_segs_leaf [OF assms(1,4)])

lemma layout_not_blob:
  assumes "digest_laws L" "leafable L ref p" "valid_digest L d"
  shows "leaf_layout_path L ref p \<noteq> seg_path (blob_segs L d)"
  unfolding leaf_layout_path_def
  by (rule paths_disjoint)
    (simp_all add: store_segs_leaf [OF assms(1,2)] store_segs_blob [OF assms(1,3)])

lemma layout_not_index:
  assumes "digest_laws L" "leafable L ref p" "leafable L ref' p'"
  shows "leaf_layout_path L ref p \<noteq> leaf_index_path L ref' p'"
proof
  assume "leaf_layout_path L ref p = leaf_index_path L ref' p'"
  then have "leaf_segs L ref p @ [ImageLayoutFile] = leaf_segs L ref' p' @ [ImageIndexFile]"
    using store_segs_leaf [OF assms(1)] assms(2,3)
    unfolding leaf_layout_path_def leaf_index_path_def by (intro seg_path_inj) auto
  then show False by (simp add: ImageLayoutFile_def ImageIndexFile_def)
qed

lemma store_file_leaf:
  assumes "digest_laws L" "leafable L ref p"
  shows "store_file (leaf_index_path L ref p)" "store_file (leaf_layout_path L ref p)"
  unfolding leaf_index_path_def leaf_layout_path_def
  by (auto intro!: store_file_seg_path store_segs_leaf [OF assms])

lemma leaf_Join:
  assumes "digest_laws L" "leafable L ref p"
  shows "path_Join [seg_path (leaf_segs L ref p), ImageIndexFile] = leaf_index_path L ref p"
    and "path_Join [seg_path (leaf_segs L ref p), ImageLayoutFile] = leaf_layout_path L ref p"
    and "path_Join [seg_path (leaf_segs L ref p), ImageBlobsDir]
       = seg_path (leaf_segs L ref p @ [ImageBlobsDir])"
proof -
  have "list_all plain_seg (leaf_segs L ref p)"
    using leaf_segs_plain [OF assms(1) leafableD(1) [OF assms(2)] leafableD(2) [OF assms(2)]]
    by (simp add: list_all_iff)
  then show "path_Join [seg_path (leaf_segs L ref p), ImageIndexFile] = leaf_index_path L ref p"
    and "path_Join [seg_path (leaf_segs L ref p), ImageLayoutFile] = leaf_layout_path L ref p"
    and "path_Join [seg_path (leaf_segs L ref p), ImageBlobsDir]
       = seg_path (leaf_segs L ref p @ [ImageBlobsDir])"
    by (simp_all add: path_Join_leaf leaf_index_path_def leaf_layout_path_def)
qed

text \<open>\<open>LeafPath\<close> of a leafable pair.\<close>

lemma LeafPath_leafable:
  "digest_laws L \<Longrightarrow> leafable L ref p \<Longrightarrow> store_LeafPath L ref p = Ok (seg_path (leaf_segs L ref p))"
  using LeafPath_wf leafableD by blast

context store_backend
begin

text \<open>
  \<open>safe m\<close>: however \<open>m\<close> ends, a proper world that keeps the promise stays one, and no file of it
  is changed or removed.
\<close>

abbreviation safe_step :: "'w \<Rightarrow> 'w \<Rightarrow> bool" where
  "safe_step \<equiv> \<lambda>w w'. ok w \<and> store_inv L (tree w) \<longrightarrow>
     ok w' \<and> store_inv L (tree w') \<and> tree w \<subseteq>\<^sub>m tree w'"

abbreviation safe :: "('w, 'a) io \<Rightarrow> bool" where
  "safe m \<equiv> moves safe_step m"

lemma safe_rel [simp]: "reflp safe_step" "transp safe_step"
  by (auto intro!: reflpI transpI intro: map_le_trans)

lemma reads_safe: "reads m \<Longrightarrow> safe m"
  unfolding moves_def by auto

subsection \<open>Single files\<close>

lemma safe_create_blob:
  assumes "digest_laws L" "valid_digest L d"
  shows "safe (b_Create B (seg_path (blob_segs L d)) body sz d)"
proof (rule movesI, intro impI)
  fix w r w'
  let ?n = "seg_path (blob_segs L d)"
  assume run: "b_Create B ?n body sz d w = (r, w')" and w: "ok w \<and> store_inv L (tree w)"
  have n: "store_file ?n" by (simp add: store_file_seg_path store_segs_blob [OF assms])
  from create_any [OF _ n run] w
  have "tree w' = tree w \<or> created L (tree w) ?n body sz d (tree w')" by simp
  then have "store_inv L (tree w')"
    using w store_inv_blob [OF assms(1) _ _ assms(2)] valid_digest_nonempty [OF assms] assms(2)
    by (auto simp: created_def)
  moreover have "ok w'" using create_ok [OF _ n run] w by simp
  moreover have "tree w \<subseteq>\<^sub>m tree w'" using create_extends [OF _ n run] w by simp
  ultimately show "ok w' \<and> store_inv L (tree w') \<and> tree w \<subseteq>\<^sub>m tree w'" by simp
qed

lemma safe_create_other:
  assumes "store_file n"
    and "\<And>d. valid_digest L d \<Longrightarrow> n \<noteq> seg_path (blob_segs L d)"
    and "\<And>ref p. leafable L ref p \<Longrightarrow> n \<noteq> leaf_index_path L ref p"
  shows "safe (b_Create B n body sz dgst)"
proof (rule movesI, intro impI)
  fix w r w'
  assume run: "b_Create B n body sz dgst w = (r, w')" and w: "ok w \<and> store_inv L (tree w)"
  from create_any [OF _ assms(1) run] w
  have "tree w' = tree w \<or> created L (tree w) n body sz dgst (tree w')" by simp
  then have "store_inv L (tree w')"
    using w store_inv_other [OF _ _ assms(2,3)] by (auto simp: created_def)
  moreover have "ok w'" using create_ok [OF _ assms(1) run] w by simp
  moreover have "tree w \<subseteq>\<^sub>m tree w'" using create_extends [OF _ assms(1) run] w by simp
  ultimately show "ok w' \<and> store_inv L (tree w') \<and> tree w \<subseteq>\<^sub>m tree w'" by simp
qed

lemma create_present:
  assumes "ok w" "store_file n"
  shows "b_Create B n body sz dgst w = (Ok u, w') \<Longrightarrow> \<exists>c. tree w' n = Some c"
    and "b_Create B n body sz dgst w = (Err e, w') \<Longrightarrow> err_is e ErrExist \<Longrightarrow> body_ok body \<Longrightarrow>
       \<exists>c. tree w' n = Some c"
  using create_Ok [OF assms, of body sz dgst u w'] create_Exist [OF assms, of body sz dgst e w']
  by (auto simp: created_def)

lemma safe_createOnce:
  assumes "safe (b_Create B n (bytes_body b) (int (length b)) [])"
  shows "safe (store_createOnce B n b)"
  unfolding store_createOnce_def using assms
  by (auto intro!: keeps_intros split: sum.splits)

lemma createOnce_Ok:
  assumes "ok w" "store_file n" "store_createOnce B n b w = (Ok u, w')"
  shows "tree w' n \<noteq> None"
  using assms(3)
  by (auto simp: store_createOnce_def ebind_attempt_Ok dest: create_present [OF assms(1,2)]
      split: if_splits)

subsection \<open>PutBlob\<close>

lemma safe_PutBlob:
  assumes "digest_laws L" shows "safe (store_PutBlob L B desc r)"
proof (cases "digest_Validate L (d_Digest desc)")
  case None
  then have v: "valid_digest L (d_Digest desc)" by (simp add: valid_digest_def)
  show ?thesis
    unfolding store_PutBlob_def BlobPath_valid [OF assms v]
    by (auto simp: None intro!: keeps_intros reads_safe [OF reads_HasBlob]
        safe_create_blob [OF assms v] split: sum.splits)
next
  case (Some e)
  then show ?thesis by (simp add: store_PutBlob_def moves_throw)
qed

lemma PutBlob_Ok:
  assumes laws: "digest_laws L" and src: "body_ok r"
    and w: "ok w" "store_PutBlob L B desc r w = (Ok u, w')"
  shows "has_blob L (tree w') (d_Digest desc)"
proof -
  let ?d = "d_Digest desc"
  from w(2) have v: "valid_digest L ?d"
    by (auto simp: store_PutBlob_def valid_digest_def split: option.splits)
  let ?n = "seg_path (blob_segs L ?d)"
  have n: "store_file ?n" by (simp add: store_file_seg_path store_segs_blob [OF laws v])
  have name: "store_BlobPath L ?d = Ok ?n" by (rule BlobPath_valid [OF laws v])
  note run = w(2) [unfolded store_PutBlob_def name ebind_pure]
  from run v obtain has w1 where has: "store_HasBlob L B ?d w = (Ok has, w1)"
    and rest: "(if has then ret ()
      else ebind (attempt (b_Create B ?n r (d_Size desc) ?d)) (\<lambda>res.
              case res of
                Inl e \<Rightarrow> if err_is e ErrExist then ret () else throw e
              | Inr _ \<Rightarrow> ret ())) w1 = (Ok u, w')"
    by (auto simp: valid_digest_def ebind_Ok)
  from movesD [OF reads_HasBlob has] w(1) have w1: "ok w1" "tree w1 = tree w" by auto
  show ?thesis
  proof (cases has)
    case True
    with HasBlob_Ok [OF laws w(1) has] rest w1 show ?thesis by simp
  next
    case False
    with rest have "tree w' ?n \<noteq> None"
      using src by (auto simp: ebind_attempt_Ok dest: create_present [OF w1(1) n] split: if_splits)
    with v show ?thesis by (simp add: has_blob_def)
  qed
qed

subsection \<open>Commit: the checks\<close>

lemma layerPresent_Ok:
  assumes "digest_laws L" "ok w" "store_layerPresent L B l w = (Ok u, w')"
  shows "has_blob L (tree w) (d_Digest l)"
  using assms(3) HasBlob_Ok [OF assms(1,2)]
  by (auto simp: store_layerPresent_def ebind_Ok split: if_splits)

lemma layers_present:
  assumes laws: "digest_laws L" and w: "ok w"
    and run: "for_each (store_layerPresent L B) ls w = (Ok u, w')" and l: "l \<in> set ls"
  shows "has_blob L (tree w) (d_Digest l)"
proof -
  from for_each_Ok [OF run l reads_grows_rel(2) reads_grows_rel(1) reads_layerPresent] w
  obtain w1 w2 where "tree w1 = tree w" "ok w1" "store_layerPresent L B l w1 = (Ok (), w2)" by auto
  with layerPresent_Ok [OF laws] show ?thesis by metis
qed

lemma Commit_check_Ok:
  assumes laws: "digest_laws L" and w: "ok w" "store_Commit_check L B p md w = (Ok (m, cfg), w')"
  shows "image_data L (tree w) p (d_Digest md) m cfg" "store_isManifest (d_MediaType md)"
proof -
  from w(2) obtain mb w1 cb w2 where
    mb: "store_readJSON L B (json_Manifest L) (d_Digest md) w = (Ok (mb, m), w1)"
    and cb: "store_readJSON L B (json_Image L) (d_Digest (m_Config m)) w1 = (Ok (cb, cfg), w2)"
    and foreign: "\<not> list_ex (\<lambda>l. store_isForeign (d_MediaType l)) (m_Layers m)"
    and plat: "platform_Matches p (c_Platform cfg)"
    and layers: "for_each (store_layerPresent L B) (m_Layers m) w2 = (Ok (), w')"
    and len: "length (c_DiffIDs cfg) = length (m_Layers m)"
    and mt: "store_isManifest (d_MediaType md)"
    by (auto simp: store_Commit_check_def ebind_Ok map_err_Ok split: if_splits prod.splits)
  from movesD [OF reads_readJSON mb] movesD [OF reads_readJSON cb] w(1)
  have t: "tree w1 = tree w" "ok w1" "tree w2 = tree w" "ok w2" by auto
  note m = readJSON_Ok [OF laws w(1) mb] and c = readJSON_Ok [OF laws t(2) cb, unfolded t(1)]
  have "\<forall>l \<in> set (m_Layers m). has_blob L (tree w) (d_Digest l) \<and> \<not> store_isForeign (d_MediaType l)"
    using layers_present [OF laws t(4) layers, unfolded t(3)] foreign by (auto simp: list_ex_iff)
  with m c plat len show "image_data L (tree w) p (d_Digest md) m cfg"
    unfolding image_data_def by blast
  show "store_isManifest (d_MediaType md)" by (rule mt)
qed

subsection \<open>Commit: the writes\<close>

lemma safe_marker:
  assumes laws: "digest_laws L" and v: "valid_digest L (fst dl)" "valid_digest L (d_Digest (snd dl))"
  shows "safe (store_marker L B dl)"
proof -
  let ?n = "seg_path (diff_segs L (fst dl) (d_Digest (snd dl)))"
  have "safe (store_createOnce B ?n ''{}'')"
    by (intro safe_createOnce safe_create_other)
      (simp_all add: store_file_seg_path store_segs_diff [OF laws v] diff_not_blob [OF laws v]
        diff_not_index [OF laws v])
  then show ?thesis by (simp add: store_marker_def DiffIDPath_valid [OF laws v])
qed

lemma marker_Ok:
  assumes laws: "digest_laws L" and v: "valid_digest L (fst dl)" "valid_digest L (d_Digest (snd dl))"
    and w: "ok w" "store_marker L B dl w = (Ok u, w')"
  shows "tree w' (seg_path (diff_segs L (fst dl) (d_Digest (snd dl)))) \<noteq> None"
proof -
  let ?n = "seg_path (diff_segs L (fst dl) (d_Digest (snd dl)))"
  have "store_createOnce B ?n ''{}'' w = (Ok u, w')"
    using w(2) by (simp add: store_marker_def DiffIDPath_valid [OF laws v])
  then show ?thesis
    by (rule createOnce_Ok [OF w(1) store_file_seg_path [OF store_segs_diff [OF laws v]]])
qed

lemma markers:
  assumes laws: "digest_laws L" and w: "ok w" "store_inv L (tree w)"
    and data: "image_data L (tree w) p d m cfg" and diffs: "list_all (valid_digest L) (c_DiffIDs cfg)"
    and run: "for_each (store_marker L B) (zip (c_DiffIDs cfg) (m_Layers m)) w = (r, w')"
  shows "safe_step w w'" "r = Ok () \<Longrightarrow> markers_at L (tree w') m cfg"
proof -
  have v: "valid_digest L (fst dl)" "valid_digest L (d_Digest (snd dl))"
    if "dl \<in> set (zip (c_DiffIDs cfg) (m_Layers m))" for dl
  proof -
    from that have "fst dl \<in> set (c_DiffIDs cfg)" "snd dl \<in> set (m_Layers m)"
      by (metis prod.collapse set_zip_leftD set_zip_rightD)+
    with data diffs show "valid_digest L (fst dl)" "valid_digest L (d_Digest (snd dl))"
      unfolding image_data_def has_blob_def list_all_iff by blast+
  qed
  have step: "safe (store_marker L B dl)" if "dl \<in> set (zip (c_DiffIDs cfg) (m_Layers m))" for dl
    using safe_marker [OF laws v] that by simp
  show "safe_step w w'" by (rule movesD [OF moves_for_each [OF safe_rel step] run])
  show "markers_at L (tree w') m cfg" if r: "r = Ok ()"
    unfolding markers_at_def
  proof (rule ballI)
    fix dl assume dl: "dl \<in> set (zip (c_DiffIDs cfg) (m_Layers m))"
    have "\<exists>w1 w2. safe_step w w1 \<and> store_marker L B dl w1 = (Ok (), w2) \<and> safe_step w2 w'"
      by (rule for_each_Ok [OF run [unfolded r] dl safe_rel(2,1)]) (rule step)
    then obtain w1 w2 where
      1: "safe_step w w1" "store_marker L B dl w1 = (Ok (), w2)" "safe_step w2 w'"
      by (elim exE conjE) (rule that)
    from 1(1) w have w1: "ok w1" "store_inv L (tree w1)" by auto
    with movesD [OF step [OF dl] 1(2)] have "ok w2" "store_inv L (tree w2)" by auto
    with 1(3) have "tree w2 \<subseteq>\<^sub>m tree w'" by simp
    moreover have "tree w2 (seg_path (diff_segs L (fst dl) (d_Digest (snd dl)))) \<noteq> None"
      by (rule marker_Ok [OF laws v [OF dl] w1(1) 1(2)])
    ultimately show "case dl of (d, l) \<Rightarrow> tree w' (seg_path (diff_segs L d (d_Digest l))) \<noteq> None"
      unfolding split_beta by (rule map_le_present)
  qed
qed

text \<open>The last step: the leaf's index, or the manifest of the index that is there.\<close>

lemma Commit_index:
  assumes laws: "digest_laws L" "json_laws L" and leaf: "leafable L ref p"
    and w: "ok w" "store_inv L (tree w)"
    and layout: "tree w (leaf_layout_path L ref p) \<noteq> None"
    and closed: "image_closed L (tree w) p (d_Digest md)"
    and run: "store_Commit_index L B ref p md (seg_path (leaf_segs L ref p)) w = (r, w')"
  shows "safe_step w w'"
    and "r = Ok () \<Longrightarrow> \<exists>md'. leaf_holds L (tree w') ref p md' \<and> d_Digest md' = d_Digest md"
proof -
  let ?n = "leaf_index_path L ref p"
  note fl = store_file_leaf(1) [OF laws(1) leaf]
  note run' = run [unfolded store_Commit_index_def store_indexJSON_def leaf_Join [OF laws(1) leaf]]
  have "safe_step w w' \<and>
      (r = Ok () \<longrightarrow> (\<exists>md'. leaf_holds L (tree w') ref p md' \<and> d_Digest md' = d_Digest md))"
  proof (cases "marshal_Index L (leaf_index ref p md)")
    case (Inl e)
    with run' show ?thesis by (auto simp: throw_def)
  next
    case (Inr b)
    have dec: "json_Index L b = Inr (leaf_index ref p md)"
      using laws(2) Inr unfolding json_laws_def by blast
    obtain md1 where md1: "i_Manifests (leaf_index ref p md) = [md1]" "d_Digest md1 = d_Digest md"
      by (simp add: leaf_index_def)
    have step: "safe_step w w1"
      if c: "b_Create B ?n (bytes_body b) (int (length b)) [] w = (rc, w1)" for rc w1
    proof -
      from create_any [OF w(1) fl c] have "store_inv L (tree w1)"
        using w(2) store_inv_index [OF laws(1) w(2) leaf _ layout dec md1(1)] closed md1(2)
        by (auto simp: created_def bytes_body_def)
      then show ?thesis using create_ok [OF w(1) fl c] create_extends [OF w(1) fl c] by simp
    qed
    have "ebind (attempt (b_Create B ?n (bytes_body b) (int (length b)) [])) (\<lambda>r.
       case r of
         Inr _ \<Rightarrow> ret ()
       | Inl e \<Rightarrow>
           if \<not> err_is e ErrExist then throw e
           else
             ebind (store_leafManifest L B (seg_path (leaf_segs L ref p))) (\<lambda>existing.
               if d_Digest existing \<noteq> d_Digest md
               then throw (Wrap1 ''leaf holds another manifest'' (Sentinel ErrConflict))
               else ret ())) w = (r, w')"
      using run' unfolding Inr sum.case ebind_pure .
    then show ?thesis
    proof (cases rule: ebind_attemptE)
      case (Val x w1)
      then have eq: "w' = w1" "r = Ok ()" by (simp_all add: ret_def)
      from create_Ok [OF w(1) fl Val(1)] have "tree w1 ?n = Some b"
        by (simp add: created_def bytes_body_def)
      with dec md1(1) have "leaf_holds L (tree w1) ref p md1" by (simp add: leaf_holds_def)
      with step [OF Val(1)] md1(2) show ?thesis unfolding eq by blast
    next
      case (Fail e w1)
      show ?thesis
      proof (cases "err_is e ErrExist")
        case False
        with Fail(2) have "w' = w1" "r \<noteq> Ok ()" by (auto simp: throw_def)
        with step [OF Fail(1)] show ?thesis by simp
      next
        case True
        from step [OF Fail(1)] w have w1: "ok w1" "store_inv L (tree w1)" "tree w \<subseteq>\<^sub>m tree w1" by auto
        from Fail(2) True have "ebind (store_leafManifest L B (seg_path (leaf_segs L ref p))) (\<lambda>existing.
               if d_Digest existing \<noteq> d_Digest md
               then throw (Wrap1 ''leaf holds another manifest'' (Sentinel ErrConflict))
               else ret ()) w1 = (r, w')" by simp
        then show ?thesis
        proof (cases rule: ebindE)
          case (Next existing w2)
          note leaf = leafManifest_Ok [OF laws(1) leaf w1(1) Next(1)]
          from Next(2) have "w' = w2" "r = Ok () \<longrightarrow> d_Digest existing = d_Digest md"
            by (auto split: if_splits simp: throw_def ret_def)
          moreover from movesD [OF reads_leafManifest Next(1)] w1 have "tree w2 = tree w1" "ok w2" by auto
          ultimately show ?thesis using leaf w1 by auto
        next
          case (Stop r0)
          from movesD [OF reads_leafManifest Stop(1)] w1 Stop(3) show ?thesis by auto
        qed
      qed
    next
      case Stop
      with step show ?thesis by blast
    qed
  qed
  then show "safe_step w w'"
    and "r = Ok () \<Longrightarrow> \<exists>md'. leaf_holds L (tree w') ref p md' \<and> d_Digest md' = d_Digest md"
    by auto
qed

lemma layout_step:
  assumes laws: "digest_laws L" and leaf: "leafable L ref p"
  shows "safe (store_createOnce B (leaf_layout_path L ref p) b)"
  by (intro safe_createOnce safe_create_other)
    (simp_all add: store_file_leaf [OF laws leaf] layout_not_blob [OF laws leaf]
      layout_not_index [OF laws leaf])

lemma mkdir_step:
  assumes "digest_laws L" "leafable L ref p"
  shows "moves (\<lambda>w w'. tree w' = tree w \<and> (ok w \<longrightarrow> ok w'))
    (case b_MkdirAll B of None \<Rightarrow> ret ()
     | Some mk \<Rightarrow> mk (seg_path (leaf_segs L ref p @ [ImageBlobsDir])))"
proof (cases "b_MkdirAll B")
  case None
  then show ?thesis by (simp add: moves_ret)
next
  case (Some mk)
  have "reads (mk (seg_path (leaf_segs L ref p @ [ImageBlobsDir])))"
    by (rule movesI) (metis mkdir_tree [OF Some] mkdir_ok [OF Some] store_dir_leaf [OF assms])
  with Some show ?thesis by simp
qed

lemma Commit_write:
  assumes laws: "digest_laws L" "json_laws L" and leaf: "leafable L ref p"
    and w: "ok w" "store_inv L (tree w)"
    and data: "image_data L (tree w) p (d_Digest md) m cfg"
    and diffs: "list_all (valid_digest L) (c_DiffIDs cfg)"
    and run: "store_Commit_write L B ref p md m cfg w = (r, w')"
  shows "safe_step w w'"
    and "r = Ok () \<Longrightarrow> image_closed L (tree w') p (d_Digest md) \<and>
       (\<exists>md'. leaf_holds L (tree w') ref p md' \<and> d_Digest md' = d_Digest md)"
proof -
  let ?Q = "\<lambda>w'. image_closed L (tree w') p (d_Digest md) \<and>
       (\<exists>md'. leaf_holds L (tree w') ref p md' \<and> d_Digest md' = d_Digest md)"
  note run' = run [unfolded store_Commit_write_def LeafPath_leafable [OF laws(1) leaf] ebind_pure
    leaf_Join [OF laws(1) leaf]]
  from run' have "safe_step w w' \<and> (r = Ok () \<longrightarrow> ?Q w')"
  proof (cases rule: ebindE)
    case (Stop r0)
    with markers(1) [OF laws(1) w data diffs Stop(1)] show ?thesis by simp
  next
    case (Next x w1)
    note m1 = markers [OF laws(1) w data diffs Next(1)]
    from m1(1) w have w1: "ok w1" "store_inv L (tree w1)" "tree w \<subseteq>\<^sub>m tree w1" by auto
    have "markers_at L (tree w1) m cfg" using m1(2) by simp
    with image_data_mono [OF data w1(3)] have closed1: "image_closed L (tree w1) p (d_Digest md)"
      unfolding image_closed_def by blast
    from Next(2) show ?thesis
    proof (cases rule: ebindE)
      case (Stop r0)
      from movesD [OF layout_step [OF laws(1) leaf] Stop(1)] w1 Stop(3) show ?thesis
        by (auto intro: map_le_trans)
    next
      case (Next x2 w2)
      from movesD [OF layout_step [OF laws(1) leaf] Next(1)] w1
      have w2: "ok w2" "store_inv L (tree w2)" "tree w1 \<subseteq>\<^sub>m tree w2" by auto
      note layout = createOnce_Ok [OF w1(1) store_file_leaf(2) [OF laws(1) leaf] Next(1)]
      from Next(2) show ?thesis
      proof (cases rule: ebindE)
        case (Stop r0)
        from movesD [OF mkdir_step [OF laws(1) leaf] Stop(1)] w1 w2 Stop(3) show ?thesis
          by (auto intro: map_le_trans)
      next
        case (Next x3 w3)
        from movesD [OF mkdir_step [OF laws(1) leaf] Next(1)] w2
        have w3: "ok w3" "tree w3 = tree w2" by auto
        note closed3 = image_closed_mono [OF closed1 w2(3), folded w3(2)]
        note fin = Commit_index [OF laws leaf w3(1) _ _ closed3 Next(2)]
        have 4: "safe_step w3 w'"
          "r = Ok () \<Longrightarrow> \<exists>md'. leaf_holds L (tree w') ref p md' \<and> d_Digest md' = d_Digest md"
          using fin w2(2) layout unfolding w3(2) by auto
        from 4(1) w3 w2 have 5: "ok w'" "store_inv L (tree w')" "tree w2 \<subseteq>\<^sub>m tree w'" by auto
        have "tree w \<subseteq>\<^sub>m tree w'" using w1(3) w2(3) 5(3) by (meson map_le_trans)
        moreover have "image_closed L (tree w') p (d_Digest md)"
          using image_closed_mono [OF closed3] 5(3) w3(2) by simp
        ultimately show ?thesis using 4(2) 5 by blast
      qed
    qed
  qed
  then show "safe_step w w'" "r = Ok () \<Longrightarrow> ?Q w'" by auto
qed

text \<open>Commit, whatever it returns, and what a return without an error means.\<close>

lemma Commit_safe:
  assumes laws: "digest_laws L" "json_laws L" and leaf: "leafable L ref p"
    and diffs: "diff_ids_valid L (tree w)"
    and w: "ok w" "store_inv L (tree w)" and run: "store_Commit L B ref p md w = (r, w')"
  shows "ok w' \<and> store_inv L (tree w') \<and> tree w \<subseteq>\<^sub>m tree w'"
    and "r = Ok () \<Longrightarrow> image_closed L (tree w') p (d_Digest md) \<and>
       (\<exists>md'. leaf_holds L (tree w') ref p md' \<and> d_Digest md' = d_Digest md)"
proof -
  let ?Q = "\<lambda>w'. image_closed L (tree w') p (d_Digest md) \<and>
       (\<exists>md'. leaf_holds L (tree w') ref p md' \<and> d_Digest md' = d_Digest md)"
  from run [unfolded store_Commit_def]
  have "(ok w' \<and> store_inv L (tree w') \<and> tree w \<subseteq>\<^sub>m tree w') \<and> (r = Ok () \<longrightarrow> ?Q w')"
  proof (cases rule: ebindE)
    case (Stop r0)
    from movesD [OF reads_Commit_check Stop(1)] w Stop(3) show ?thesis by auto
  next
    case (Next x w1)
    obtain m cfg where x: "x = (m, cfg)" by (cases x)
    from movesD [OF reads_Commit_check Next(1)] w have w1: "tree w1 = tree w" "ok w1" by auto
    have data: "image_data L (tree w) p (d_Digest md) m cfg"
      using Commit_check_Ok(1) [OF laws(1) w(1)] Next(1) x by blast
    then have v: "list_all (valid_digest L) (c_DiffIDs cfg)"
      using diffs unfolding image_data_def diff_ids_valid_def by blast
    note fin = Commit_write [OF laws leaf w1(2) _ _ v, of md m r w', unfolded w1(1), OF w(2) data]
    from Next(2) x have "store_Commit_write L B ref p md m cfg w1 = (r, w')" by simp
    from fin [OF this] w w1 show ?thesis by auto
  qed
  then show "ok w' \<and> store_inv L (tree w') \<and> tree w \<subseteq>\<^sub>m tree w'" "r = Ok () \<Longrightarrow> ?Q w'" by auto
qed

text \<open>A leaf is never given a second manifest.\<close>

lemma Commit_conflict:
  assumes laws: "digest_laws L" "json_laws L" and leaf: "leafable L ref p"
    and diffs: "diff_ids_valid L (tree w)" and w: "ok w" "store_inv L (tree w)"
    and held: "leaf_holds L (tree w) ref p md0" "d_Digest md0 \<noteq> d_Digest md"
  shows "fst (store_Commit L B ref p md w) \<noteq> Ok ()"
proof
  assume "fst (store_Commit L B ref p md w) = Ok ()"
  then obtain w' where run: "store_Commit L B ref p md w = (Ok (), w')" by (metis prod.collapse)
  note c = Commit_safe [OF laws leaf diffs w run]
  then obtain md' where "leaf_holds L (tree w') ref p md'" "d_Digest md' = d_Digest md" by blast
  moreover have "leaf_holds L (tree w') ref p md0" using leaf_holds_mono [OF held(1)] c(1) by blast
  ultimately show False using leaf_holds_unique held(2) by metis
qed

subsection \<open>Commit writes no blob\<close>

abbreviation blobs_step :: "'w \<Rightarrow> 'w \<Rightarrow> bool" where
  "blobs_step \<equiv> \<lambda>w w'. ok w \<longrightarrow> ok w' \<and>
     (\<forall>d. valid_digest L d \<longrightarrow> tree w' (seg_path (blob_segs L d)) = tree w (seg_path (blob_segs L d)))"

lemma blobs_rel [simp]: "reflp blobs_step" "transp blobs_step"
  by (auto intro!: reflpI transpI)

lemma reads_blobs: "reads m \<Longrightarrow> moves blobs_step m"
  unfolding moves_def by auto

lemma create_blobs:
  assumes "store_file n" "\<And>d. valid_digest L d \<Longrightarrow> n \<noteq> seg_path (blob_segs L d)"
  shows "moves blobs_step (b_Create B n body sz dgst)"
proof (rule movesI, intro impI)
  fix w r w'
  assume run: "b_Create B n body sz dgst w = (r, w')" and w: "ok w"
  from create_any [OF w assms(1) run] create_ok [OF w assms(1) run] assms(2)
  show "ok w' \<and> (\<forall>d. valid_digest L d \<longrightarrow>
      tree w' (seg_path (blob_segs L d)) = tree w (seg_path (blob_segs L d)))"
    by (fastforce simp: created_def)
qed

lemma createOnce_blobs:
  assumes "store_file n" "\<And>d. valid_digest L d \<Longrightarrow> n \<noteq> seg_path (blob_segs L d)"
  shows "moves blobs_step (store_createOnce B n b)"
  unfolding store_createOnce_def
  by (auto intro!: keeps_intros create_blobs [OF assms] split: sum.splits)

lemma Commit_write_blobs:
  assumes laws: "digest_laws L" and leaf: "leafable L ref p"
    and v: "\<And>dl. dl \<in> set (zip (c_DiffIDs cfg) (m_Layers m)) \<Longrightarrow>
      valid_digest L (fst dl) \<and> valid_digest L (d_Digest (snd dl))"
  shows "moves blobs_step (store_Commit_write L B ref p md m cfg)"
proof -
  have "moves blobs_step (store_marker L B dl)" if "dl \<in> set (zip (c_DiffIDs cfg) (m_Layers m))" for dl
  proof -
    from v [OF that] have d: "valid_digest L (fst dl)" "valid_digest L (d_Digest (snd dl))" by auto
    show ?thesis
      unfolding store_marker_def DiffIDPath_valid [OF laws d] ebind_pure
      by (intro createOnce_blobs store_file_seg_path store_segs_diff [OF laws d] diff_not_blob [OF laws d])
  qed
  moreover have "moves blobs_step (store_createOnce B (leaf_layout_path L ref p) b)" for b
    by (intro createOnce_blobs store_file_leaf [OF laws leaf] layout_not_blob [OF laws leaf])
  moreover have "moves blobs_step (b_Create B (leaf_index_path L ref p) body sz dgst)" for body sz dgst
    by (intro create_blobs store_file_leaf [OF laws leaf] leaf_index_not_blob [OF laws leaf])
  moreover have "moves blobs_step (store_Commit_index L B ref p md (seg_path (leaf_segs L ref p)))"
    if "\<And>body sz dgst. moves blobs_step (b_Create B (leaf_index_path L ref p) body sz dgst)"
    unfolding store_Commit_index_def leaf_Join [OF laws leaf]
    by (auto intro!: keeps_intros that reads_blobs [OF reads_leafManifest] split: sum.splits)
  ultimately show ?thesis
    unfolding store_Commit_write_def LeafPath_leafable [OF laws leaf] ebind_pure leaf_Join [OF laws leaf]
    by (intro moves_ebind moves_for_each blobs_rel reads_blobs [OF mkdir_step [OF laws leaf]]) auto
qed

lemma Commit_blobs:
  assumes laws: "digest_laws L" and leaf: "leafable L ref p"
    and diffs: "diff_ids_valid L (tree w)" and w: "ok w"
    and run: "store_Commit L B ref p md w = (r, w')"
  shows "blob_at L (tree w') d b = blob_at L (tree w) d b"
  using run [unfolded store_Commit_def]
proof (cases rule: ebindE)
  case (Stop r0)
  from movesD [OF reads_Commit_check Stop(1)] show ?thesis by simp
next
  case (Next x w1)
  obtain m cfg where x: "x = (m, cfg)" by (cases x)
  from movesD [OF reads_Commit_check Next(1)] w have w1: "tree w1 = tree w" "ok w1" by auto
  have data: "image_data L (tree w) p (d_Digest md) m cfg"
    using Commit_check_Ok(1) [OF laws w] Next(1) x by blast
  have v: "valid_digest L (fst dl) \<and> valid_digest L (d_Digest (snd dl))"
    if "dl \<in> set (zip (c_DiffIDs cfg) (m_Layers m))" for dl
  proof -
    from that have "fst dl \<in> set (c_DiffIDs cfg)" "snd dl \<in> set (m_Layers m)"
      by (metis prod.collapse set_zip_leftD set_zip_rightD)+
    with data diffs show ?thesis
      unfolding image_data_def has_blob_def diff_ids_valid_def list_all_iff by blast
  qed
  from Next(2) x have "store_Commit_write L B ref p md m cfg w1 = (r, w')" by simp
  from movesD [OF Commit_write_blobs [OF laws leaf v] this] w1 show ?thesis
    by (auto simp: blob_at_def)
qed

end

end
