(* ===== verification/Store_Resolve.thy ===== *)
theory Store_Resolve
  imports Store_Commit
begin

text \<open>
  \<open>Resolve\<close> answers from the leaf, or from the blob a digest reference names. Over a backend whose
  calls do not fail (\<open>reliable_backend\<close>) the operations also succeed: \<open>PutBlob\<close> stores, \<open>Commit\<close>
  returns without an error on a complete image and a second time changes nothing, and \<open>Resolve\<close>
  finds what was committed.
\<close>

section \<open>Resolve over any backend\<close>

definition blob_manifest :: "oci_lib \<Rightarrow> tree \<Rightarrow> string \<Rightarrow> descriptor \<Rightarrow> bool" where
  "blob_manifest L t d md \<longleftrightarrow>
     d_Digest md = d \<and> store_isManifest (d_MediaType md) \<and>
     (\<exists>b. blob_at L t d b \<and> digest_FromBytes L b = d \<and> d_Size md = int (length b) \<and>
          json_MediaType L b = Inr (d_MediaType md))"

context store_backend
begin

lemma readAll_NotExist:
  assumes "ok w" "store_file n" "store_readAll B n w = (Err e, w')" "err_is e ErrNotExist"
  shows "tree w n = None"
proof (rule ccontr)
  assume some: "tree w n \<noteq> None"
  from assms(3) consider "b_Open B n w = (Err e, w')"
    | rd where "b_Open B n w = (Ok rd, w')" "read_all rd = Err e"
    by (auto simp: store_readAll_def ebind_Err)
  then show False
  proof cases
    case 1
    from open_Err [OF assms(1,2) 1 assms(4)] some show False by contradiction
  next
    case 2
    from open_Ok [OF assms(1,2) 2(1)] obtain c where "serves rd c" by blast
    with 2(2) assms(4) show False
      by (auto simp: serves_def read_all_def split: option.splits if_splits)
  qed
qed

lemma leafManifest_NotExist:
  assumes laws: "digest_laws L" "json_laws L" and leaf: "leafable L ref p"
    and w: "ok w" "store_leafManifest L B (seg_path (leaf_segs L ref p)) w = (Err e, w')"
    and e: "err_is e ErrNotExist"
  shows "tree w (leaf_index_path L ref p) = None"
proof -
  note run = w(2) [unfolded store_leafManifest_def leaf_Join [OF laws(1) leaf]]
  from run show ?thesis
  proof (cases rule: ebindE)
    case (Next b w1)
    from Next(2) laws(2) e have False
      by (auto simp: json_laws_def split: sum.splits list.splits)
    then show ?thesis ..
  next
    case (Stop r0)
    with run have "store_readAll B (leaf_index_path L ref p) w = (Err e, w')"
      by (cases r0) (auto simp: ebind_def split: prod.splits res.splits)
    from readAll_NotExist [OF w(1) store_file_leaf(1) [OF laws(1) leaf] this e] show ?thesis .
  qed
qed

lemma Resolve_Ok:
  assumes laws: "digest_laws L" "json_laws L" and leaf: "leafable L ref p"
    and w: "ok w" "store_Resolve L B ref p w = (Ok im, w')"
  shows "im_Ref im = ref" "im_Platform im = p"
    and "leaf_holds L (tree w) ref p (im_Manifest im) \<or>
      tree w (leaf_index_path L ref p) = None \<and> Digest ref \<noteq> [] \<and>
      blob_manifest L (tree w) (Digest ref) (im_Manifest im)"
proof -
  let ?leaf = "seg_path (leaf_segs L ref p)"
  let ?Q = "im_Ref im = ref \<and> im_Platform im = p \<and>
    (leaf_holds L (tree w) ref p (im_Manifest im) \<or>
      tree w (leaf_index_path L ref p) = None \<and> Digest ref \<noteq> [] \<and>
      blob_manifest L (tree w) (Digest ref) (im_Manifest im))"
  note run = w(2) [unfolded store_Resolve_def LeafPath_leafable [OF laws(1) leaf] ebind_pure]
  from run have ?Q
  proof (cases rule: ebind_attemptE)
    case (Val md w1)
    from leafManifest_Ok [OF laws(1) leaf w(1) Val(1)] Val(2) show ?thesis
      by (auto simp: store_image_def)
  next
    case (Fail e w1)
    then have e: "err_is e ErrNotExist" "Digest ref \<noteq> []" by (auto split: if_splits)
    note absent = leafManifest_NotExist [OF laws leaf w(1) Fail(1) e(1)]
    from movesD [OF reads_leafManifest Fail(1)] w(1) have w1: "ok w1" "tree w1 = tree w" by auto
    from Fail(2) e obtain b mt w2 where
      b: "store_readJSON L B (json_MediaType L) (Digest ref) w1 = (Ok (b, mt), w2)"
      and mt: "store_isManifest mt"
      and im: "im = store_image L B ref p
        \<lparr>d_MediaType = mt, d_Digest = Digest ref, d_Size = int (length b),
         d_Annotations = fmempty, d_Platform = None\<rparr> []"
      by (auto simp: ebind_attempt_Ok split: if_splits prod.splits)
    have "blob_manifest L (tree w) (Digest ref) (im_Manifest im)"
      using readJSON_Ok [OF laws(1) w1(1) b, unfolded w1(2)] mt im
      unfolding blob_manifest_def by (auto simp: store_image_def)
    with absent e(2) im show ?thesis by (simp add: store_image_def)
  next
    case Stop
    then show ?thesis by simp
  qed
  then show "im_Ref im = ref" "im_Platform im = p"
    and "leaf_holds L (tree w) ref p (im_Manifest im) \<or>
      tree w (leaf_index_path L ref p) = None \<and> Digest ref \<noteq> [] \<and>
      blob_manifest L (tree w) (Digest ref) (im_Manifest im)" by blast+
qed

text \<open>What \<open>Resolve\<close> finds in a leaf after a commit is what was committed.\<close>

lemma Commit_Resolve:
  assumes laws: "digest_laws L" "json_laws L" and leaf: "leafable L ref p"
    and diffs: "diff_ids_valid L (tree w)" and w: "ok w" "store_inv L (tree w)"
    and commit: "store_Commit L B ref p md w = (Ok (), w1)"
    and later: "ok w2" "tree w1 \<subseteq>\<^sub>m tree w2"
    and resolve: "store_Resolve L B ref p w2 = (Ok im, w3)"
  shows "d_Digest (im_Manifest im) = d_Digest md"
proof -
  from Commit_safe(2) [OF laws leaf diffs w commit] obtain md' where
    md': "leaf_holds L (tree w1) ref p md'" "d_Digest md' = d_Digest md" by blast
  note held = leaf_holds_mono [OF md'(1) later(2)]
  then have "tree w2 (leaf_index_path L ref p) \<noteq> None" by (auto simp: leaf_holds_def)
  with Resolve_Ok(3) [OF laws leaf later(1) resolve] have "leaf_holds L (tree w2) ref p (im_Manifest im)"
    by blast
  with held have "im_Manifest im = md'" by (rule leaf_holds_unique [rotated])
  with md'(2) show ?thesis by simp
qed

end

section \<open>A backend whose calls succeed\<close>

locale reliable_backend = store_backend +
  assumes open_up: "ok w \<Longrightarrow> store_file n \<Longrightarrow> tree w n = Some c \<Longrightarrow>
        \<exists>rd w'. b_Open B n w = (Ok rd, w') \<and> read_all rd = Ok c"
    and open_absent: "ok w \<Longrightarrow> store_file n \<Longrightarrow> tree w n = None \<Longrightarrow>
        \<exists>e w'. b_Open B n w = (Err e, w') \<and> err_is e ErrNotExist"
    and create_up: "ok w \<Longrightarrow> store_file n \<Longrightarrow> created L (tree w) n body sz dgst t' \<Longrightarrow>
        dgst \<noteq> [] \<longrightarrow> valid_digest L dgst \<Longrightarrow> \<exists>w'. b_Create B n body sz dgst w = (Ok (), w')"
    and create_held: "ok w \<Longrightarrow> store_file n \<Longrightarrow> tree w n \<noteq> None \<Longrightarrow> offers L body sz dgst \<Longrightarrow>
        \<exists>e w'. b_Create B n body sz dgst w = (Err e, w') \<and> err_is e ErrExist"
    and mkdir_up: "b_MkdirAll B = Some mk \<Longrightarrow> ok w \<Longrightarrow> store_dir n \<Longrightarrow>
        \<exists>w'. mk n w = (Ok (), w')"
begin

abbreviation quiet :: "'a \<Rightarrow> 'a \<Rightarrow> bool" where
  "quiet w w' \<equiv> ok w' \<and> tree w' = tree w"

lemma readAll_up:
  assumes "ok w" "store_file n" "tree w n = Some c"
  shows "\<exists>w'. store_readAll B n w = (Ok c, w') \<and> quiet w w'"
proof -
  from open_up [OF assms] obtain rd w' where o: "b_Open B n w = (Ok rd, w')" "read_all rd = Ok c" by blast
  then have "store_readAll B n w = (Ok c, w')" by (simp add: store_readAll_def ebind_Ok)
  with open_ok [OF assms(1) o(1)] open_tree [OF o(1)] show ?thesis by blast
qed

lemma readJSON_up:
  assumes laws: "digest_laws L" and w: "ok w" "blob_at L (tree w) d b"
    and d: "digest_FromBytes L b = d" "dec b = Inr v"
  shows "\<exists>w'. store_readJSON L B dec d w = (Ok (b, v), w') \<and> quiet w w'"
proof -
  from w(2) have v: "valid_digest L d" and t: "tree w (seg_path (blob_segs L d)) = Some b"
    by (auto simp: blob_at_def)
  from readAll_up [OF w(1) store_file_seg_path [OF store_segs_blob [OF laws v]] t] obtain w' where
    "store_readAll B (seg_path (blob_segs L d)) w = (Ok b, w')" "quiet w w'" by blast
  with d show ?thesis by (auto simp: store_readJSON_def BlobPath_valid [OF laws v] ebind_Ok)
qed

lemma HasBlob_up:
  assumes laws: "digest_laws L" and w: "ok w" and v: "valid_digest L d"
  shows "\<exists>w'. store_HasBlob L B d w = (Ok (has_blob L (tree w) d), w') \<and> quiet w w'"
proof -
  let ?n = "seg_path (blob_segs L d)"
  note n = store_file_seg_path [OF store_segs_blob [OF laws v]]
  have blob: "store_Blob L B d = b_Open B ?n"
    using v by (simp add: store_Blob_def valid_digest_def BlobPath_valid [OF laws v])
  show ?thesis
  proof (cases "tree w ?n")
    case None
    from open_absent [OF w n None] obtain e w' where o: "b_Open B ?n w = (Err e, w')" "err_is e ErrNotExist"
      by blast
    moreover have "quiet w w'" using open_ok [OF w o(1)] open_tree [OF o(1)] by simp
    ultimately show ?thesis using None
      by (auto simp: store_HasBlob_def blob has_blob_def ebind_attempt_Ok)
  next
    case (Some c)
    from open_up [OF w n Some] obtain rd w' where o: "b_Open B ?n w = (Ok rd, w')" by blast
    moreover have "quiet w w'" using open_ok [OF w o(1)] open_tree [OF o(1)] by simp
    ultimately show ?thesis using Some v
      by (auto simp: store_HasBlob_def blob has_blob_def ebind_attempt_Ok)
  qed
qed

lemma PutBlob_up:
  assumes laws: "digest_laws L" and w: "ok w" and v: "valid_digest L (d_Digest desc)"
    and body: "digest_matches L (d_Digest desc) b" "0 \<le> d_Size desc \<longrightarrow> d_Size desc = int (length b)"
  shows "\<exists>w'. store_PutBlob L B desc (b, None) w = (Ok (), w') \<and> ok w' \<and>
    tree w' = (if has_blob L (tree w) (d_Digest desc) then tree w
               else (tree w)(seg_path (blob_segs L (d_Digest desc)) \<mapsto> b))"
proof -
  let ?d = "d_Digest desc"
  let ?n = "seg_path (blob_segs L ?d)"
  note n = store_file_seg_path [OF store_segs_blob [OF laws v]]
  have name: "store_BlobPath L ?d = Ok ?n" by (rule BlobPath_valid [OF laws v])
  from HasBlob_up [OF laws w v] obtain w1 where
    has: "store_HasBlob L B ?d w = (Ok (has_blob L (tree w) ?d), w1)" and w1: "quiet w w1" by blast
  have val: "digest_Validate L ?d = None" using v by (simp add: valid_digest_def)
  show ?thesis
  proof (cases "has_blob L (tree w) ?d")
    case True
    with has val w1 show ?thesis by (auto simp: store_PutBlob_def ebind_Ok)
  next
    case False
    with v w1 have new: "tree w1 ?n = None" by (simp add: has_blob_def)
    with body have "created L (tree w1) ?n (b, None) (d_Size desc) ?d ((tree w1)(?n \<mapsto> b))"
      by (simp add: created_def)
    from create_up [OF _ n this] w1 v obtain w2 where
      c: "b_Create B ?n (b, None) (d_Size desc) ?d w1 = (Ok (), w2)" by blast
    then have "store_PutBlob L B desc (b, None) w = (Ok (), w2)"
      unfolding store_PutBlob_def name ebind_pure val option.case ebind_eval [where m = "store_HasBlob L B (d_Digest desc)", OF has]
      using False by (simp add: ebind_attempt_Ok)
    moreover have "tree w2 = (tree w)(?n \<mapsto> b)"
      using create_Ok [OF _ n c] w1 by (simp add: created_def)
    ultimately show ?thesis using False create_ok [OF _ n c] w1 by auto
  qed
qed

lemma Blob_up:
  assumes laws: "digest_laws L" and w: "ok w" "blob_at L (tree w) d b"
  shows "\<exists>rd w'. store_Blob L B d w = (Ok rd, w') \<and> read_all rd = Ok b"
proof -
  from w(2) have v: "valid_digest L d" and t: "tree w (seg_path (blob_segs L d)) = Some b"
    by (auto simp: blob_at_def)
  have "store_Blob L B d = b_Open B (seg_path (blob_segs L d))"
    using v by (simp add: store_Blob_def valid_digest_def BlobPath_valid [OF laws v])
  with open_up [OF w(1) store_file_seg_path [OF store_segs_blob [OF laws v]] t] show ?thesis by simp
qed

subsection \<open>Commit succeeds\<close>

lemma offers_bytes: "offers L (bytes_body b) (int (length b)) []"
  by (simp add: offers_def bytes_body_def)

lemma createOnce_up:
  assumes "ok w" "store_file n"
  shows "\<exists>w'. store_createOnce B n b w = (Ok (), w') \<and> ok w' \<and>
    tree w' = (if tree w n = None then (tree w)(n \<mapsto> b) else tree w)"
proof (cases "tree w n")
  case None
  then have "created L (tree w) n (bytes_body b) (int (length b)) [] ((tree w)(n \<mapsto> b))"
    by (simp add: created_def bytes_body_def)
  from create_up [OF assms this] obtain w' where
    c: "b_Create B n (bytes_body b) (int (length b)) [] w = (Ok (), w')" by auto
  have "store_createOnce B n b w = (Ok (), w')" by (simp add: store_createOnce_def ebind_attempt_Ok c)
  moreover have "tree w' = (tree w)(n \<mapsto> b)"
    using create_Ok [OF assms c] by (simp add: created_def bytes_body_def)
  ultimately show ?thesis using create_ok [OF assms c] None by auto
next
  case (Some c0)
  then obtain e w' where c: "b_Create B n (bytes_body b) (int (length b)) [] w = (Err e, w')"
    and e: "err_is e ErrExist" using create_held [OF assms _ offers_bytes] by blast
  then have "store_createOnce B n b w = (Ok (), w')" by (simp add: store_createOnce_def ebind_attempt_Ok)
  moreover have "tree w' = tree w" using create_Exist [OF assms c e] by simp
  ultimately show ?thesis using create_ok [OF assms c] Some by auto
qed

lemma Commit_check_up:
  assumes laws: "digest_laws L" and w: "ok w" and data: "image_data L (tree w) p (d_Digest md) m cfg"
    and mt: "store_isManifest (d_MediaType md)"
  shows "\<exists>w'. store_Commit_check L B p md w = (Ok (m, cfg), w') \<and> quiet w w'"
proof -
  from data obtain mb cb where
    mb: "blob_at L (tree w) (d_Digest md) mb" "digest_FromBytes L mb = d_Digest md" "json_Manifest L mb = Inr m"
    and cb: "blob_at L (tree w) (d_Digest (m_Config m)) cb" "digest_FromBytes L cb = d_Digest (m_Config m)"
      "json_Image L cb = Inr cfg"
    and plat: "platform_Matches p (c_Platform cfg)"
    and layers: "\<And>l. l \<in> set (m_Layers m) \<Longrightarrow> has_blob L (tree w) (d_Digest l) \<and> \<not> store_isForeign (d_MediaType l)"
    and len: "length (c_DiffIDs cfg) = length (m_Layers m)"
    unfolding image_data_def by blast
  from readJSON_up [of w _ _ "json_Manifest L", OF laws w mb] obtain w1 where
    1: "store_readJSON L B (json_Manifest L) (d_Digest md) w = (Ok (mb, m), w1)" "quiet w w1" by blast
  from readJSON_up [of w1 "d_Digest (m_Config m)" cb "json_Image L", OF laws _ _ cb(2,3)] 1(2) cb(1) obtain w2 where
    2: "store_readJSON L B (json_Image L) (d_Digest (m_Config m)) w1 = (Ok (cb, cfg), w2)" "quiet w w2" by auto
  have "\<exists>w3. for_each (store_layerPresent L B) (m_Layers m) w2 = (Ok (), w3) \<and> quiet w w3"
  proof (rule for_each_up)
    fix l u assume l: "l \<in> set (m_Layers m)" and u: "quiet w u"
    from layers [OF l] have h: "has_blob L (tree u) (d_Digest l)" "valid_digest L (d_Digest l)"
      using u by (auto simp: has_blob_def)
    from HasBlob_up [OF laws _ h(2), of u] u obtain u' where
      "store_HasBlob L B (d_Digest l) u = (Ok True, u')" "quiet w u'" using h(1) by auto
    then show "\<exists>w'. store_layerPresent L B l u = (Ok (), w') \<and> quiet w w'"
      by (auto simp: store_layerPresent_def ebind_Ok)
  qed (rule 2)
  then obtain w3 where 3: "for_each (store_layerPresent L B) (m_Layers m) w2 = (Ok (), w3)" "quiet w w3" by blast
  have "\<not> list_ex (\<lambda>l. store_isForeign (d_MediaType l)) (m_Layers m)"
    using layers by (auto simp: list_ex_iff)
  with mt 1 2 3 plat len have "store_Commit_check L B p md w = (Ok (m, cfg), w3)"
    by (simp add: store_Commit_check_def ebind_Ok map_err_Ok)
  with 3(2) show ?thesis by blast
qed

text \<open>
  The writes of a commit on a leaf whose index is absent or names the same manifest. The first
  conclusion is that they succeed; the second, that on a tree which has all of them nothing changes.
\<close>

lemma marker_up:
  assumes laws: "digest_laws L" and v: "valid_digest L (fst dl)" "valid_digest L (d_Digest (snd dl))"
    and w: "ok w"
  shows "\<exists>w'. store_marker L B dl w = (Ok (), w') \<and> ok w' \<and>
    tree w' = (let n = seg_path (diff_segs L (fst dl) (d_Digest (snd dl))) in
      if tree w n = None then (tree w)(n \<mapsto> ''{}'') else tree w)"
  using createOnce_up [OF w store_file_seg_path [OF store_segs_diff [OF laws v]], of "''{}''"]
  by (simp add: store_marker_def DiffIDPath_valid [OF laws v] Let_def)

lemma Commit_index_up:
  assumes laws: "digest_laws L" "json_laws L" and leaf: "leafable L ref p" and w: "ok w"
    and enc: "marshal_Index L (leaf_index ref p md) = Inr b"
    and free: "tree w (leaf_index_path L ref p) = None \<or>
      (\<exists>md'. leaf_holds L (tree w) ref p md' \<and> d_Digest md' = d_Digest md)"
  shows "\<exists>w'. store_Commit_index L B ref p md (seg_path (leaf_segs L ref p)) w = (Ok (), w') \<and>
    (tree w (leaf_index_path L ref p) \<noteq> None \<longrightarrow> tree w' = tree w)"
proof -
  let ?n = "leaf_index_path L ref p"
  note fl = store_file_leaf(1) [OF laws(1) leaf]
  note op = store_Commit_index_def store_indexJSON_def leaf_Join [OF laws(1) leaf] enc sum.case ebind_pure
  show ?thesis
  proof (cases "tree w ?n")
    case None
    then have "created L (tree w) ?n (bytes_body b) (int (length b)) [] ((tree w)(?n \<mapsto> b))"
      by (simp add: created_def bytes_body_def)
    from create_up [OF w fl this] show ?thesis
      unfolding op using None by (auto simp: ebind_attempt_Ok)
  next
    case (Some c)
    then obtain e w1 where c: "b_Create B ?n (bytes_body b) (int (length b)) [] w = (Err e, w1)"
      "err_is e ErrExist" using create_held [OF w fl _ offers_bytes] by blast
    from create_Exist [OF w fl c body_ok_simps(1)] create_ok [OF w fl c(1)] have w1: "tree w1 = tree w" "ok w1" by auto
    from free Some obtain md' where md': "leaf_holds L (tree w1) ref p md'" "d_Digest md' = d_Digest md"
      unfolding w1 by auto
    then obtain c' ix where ix: "tree w1 ?n = Some c'" "json_Index L c' = Inr ix" "i_Manifests ix = [md']"
      by (auto simp: leaf_holds_def)
    from readAll_up [OF w1(2) fl ix(1)] obtain w2 where
      "store_readAll B ?n w1 = (Ok c', w2)" and w2: "quiet w1 w2" by blast
    with ix have "store_leafManifest L B (seg_path (leaf_segs L ref p)) w1 = (Ok md', w2)"
      by (simp add: store_leafManifest_def leaf_Join [OF laws(1) leaf] ebind_Ok)
    with c md'(2) have "store_Commit_index L B ref p md (seg_path (leaf_segs L ref p)) w = (Ok (), w2)"
      unfolding op by (simp add: ebind_attempt_Ok ebind_eval)
    with w1 w2 show ?thesis by auto
  qed
qed

lemma leaf_holds_at:
  "t (leaf_index_path L ref p) = t' (leaf_index_path L ref p) \<Longrightarrow>
     leaf_holds L t ref p md = leaf_holds L t' ref p md"
  by (simp add: leaf_holds_def)

lemma Commit_up:
  assumes laws: "digest_laws L" "json_laws L" and leaf: "leafable L ref p" and w: "ok w"
    and data: "image_data L (tree w) p (d_Digest md) m cfg"
    and mt: "store_isManifest (d_MediaType md)"
    and diffs: "list_all (valid_digest L) (c_DiffIDs cfg)"
    and enc: "marshal_Index L (leaf_index ref p md) = Inr b"
    and free: "tree w (leaf_index_path L ref p) = None \<or>
      (\<exists>md'. leaf_holds L (tree w) ref p md' \<and> d_Digest md' = d_Digest md)"
  shows "\<exists>w'. store_Commit L B ref p md w = (Ok (), w') \<and>
    (markers_at L (tree w) m cfg \<and> tree w (leaf_layout_path L ref p) \<noteq> None \<and>
       tree w (leaf_index_path L ref p) \<noteq> None \<longrightarrow> tree w' = tree w)"
proof -
  let ?idx = "leaf_index_path L ref p" and ?lay = "leaf_layout_path L ref p"
  let ?ms = "zip (c_DiffIDs cfg) (m_Layers m)"
  let ?I = "\<lambda>u. ok u \<and> tree u ?idx = tree w ?idx \<and> tree u ?lay = tree w ?lay \<and>
    (markers_at L (tree w) m cfg \<longrightarrow> tree u = tree w)"
  from Commit_check_up [OF laws(1) w data mt] obtain w1 where
    1: "store_Commit_check L B p md w = (Ok (m, cfg), w1)" "quiet w w1" by blast
  have "\<exists>w2. for_each (store_marker L B) ?ms w1 = (Ok (), w2) \<and> ?I w2"
  proof (rule for_each_up)
    fix dl u assume dl: "dl \<in> set ?ms" and u: "?I u"
    from dl have "fst dl \<in> set (c_DiffIDs cfg)" "snd dl \<in> set (m_Layers m)"
      by (metis prod.collapse set_zip_leftD set_zip_rightD)+
    with data diffs have v: "valid_digest L (fst dl)" "valid_digest L (d_Digest (snd dl))"
      unfolding image_data_def has_blob_def list_all_iff by blast+
    let ?n = "seg_path (diff_segs L (fst dl) (d_Digest (snd dl)))"
    from marker_up [OF laws(1) v] u obtain u' where
      m: "store_marker L B dl u = (Ok (), u')" "ok u'"
        "tree u' = (if tree u ?n = None then (tree u)(?n \<mapsto> ''{}'') else tree u)"
      unfolding Let_def by blast
    have "?n \<noteq> ?idx" by (rule diff_not_index [OF laws(1) v leaf])
    moreover have "?n \<noteq> ?lay"
      unfolding leaf_layout_path_def
      by (rule paths_disjoint)
        (simp_all add: store_segs_diff [OF laws(1) v] store_segs_leaf [OF laws(1) leaf])
    moreover have "markers_at L (tree w) m cfg \<Longrightarrow> tree w ?n \<noteq> None"
      using dl unfolding markers_at_def by (metis (mono_tags, lifting) case_prod_beta)
    ultimately have "?I u'" using m(2,3) u by auto
    with m(1) show "\<exists>u'. store_marker L B dl u = (Ok (), u') \<and> ?I u'" by blast
  qed (use 1 in auto)
  then obtain w2 where 2: "for_each (store_marker L B) ?ms w1 = (Ok (), w2)" "?I w2" by blast
  from createOnce_up [OF _ store_file_leaf(2) [OF laws(1) leaf], of w2 "store_layoutJSON L"] 2(2)
  obtain w3 where 3: "store_createOnce B ?lay (store_layoutJSON L) w2 = (Ok (), w3)" "ok w3"
    "tree w3 = (if tree w2 ?lay = None then (tree w2)(?lay \<mapsto> store_layoutJSON L) else tree w2)" by blast
  have idx: "tree w3 ?idx = tree w ?idx"
    using 3(3) 2(2) layout_not_index [OF laws(1) leaf leaf] by simp
  let ?mk = "case b_MkdirAll B of None \<Rightarrow> ret ()
     | Some mk \<Rightarrow> mk (seg_path (leaf_segs L ref p @ [ImageBlobsDir]))"
  have "\<exists>w4. ?mk w3 = (Ok (), w4)"
    using mkdir_up [OF _ 3(2) store_dir_leaf [OF laws(1) leaf]]
    by (cases "b_MkdirAll B") (auto simp: ret_def)
  then obtain w4 where mk: "?mk w3 = (Ok (), w4)" by blast
  from movesD [OF mkdir_step [OF laws(1) leaf] mk] 3(2) have w4: "ok w4" "tree w4 = tree w3" by auto
  have "tree w4 ?idx = None \<or> (\<exists>md'. leaf_holds L (tree w4) ref p md' \<and> d_Digest md' = d_Digest md)"
    using free idx w4(2) leaf_holds_at [of "tree w4" ref p "tree w"] by auto
  from Commit_index_up [OF laws leaf w4(1) enc this] obtain w5 where
    5: "store_Commit_index L B ref p md (seg_path (leaf_segs L ref p)) w4 = (Ok (), w5)"
      "tree w4 ?idx \<noteq> None \<longrightarrow> tree w5 = tree w4" by blast
  have "store_Commit_write L B ref p md m cfg w1 = (Ok (), w5)"
    unfolding store_Commit_write_def LeafPath_leafable [OF laws(1) leaf] ebind_pure
      leaf_Join [OF laws(1) leaf]
    by (simp add: ebind_def 2(1) 3(1) mk 5(1))
  then have "store_Commit L B ref p md w = (Ok (), w5)"
    unfolding store_Commit_def by (simp add: ebind_def 1(1))
  moreover have "tree w5 = tree w"
    if "markers_at L (tree w) m cfg" "tree w ?lay \<noteq> None" "tree w ?idx \<noteq> None"
    using that 2(2) 3(3) w4(2) 5(2) by auto
  ultimately show ?thesis by blast
qed

text \<open>\<open>Resolve\<close> finds a leaf that is there.\<close>

lemma Resolve_up:
  assumes laws: "digest_laws L" "json_laws L" and leaf: "leafable L ref p" and w: "ok w"
    and held: "leaf_holds L (tree w) ref p md"
  shows "\<exists>im w'. store_Resolve L B ref p w = (Ok im, w') \<and> im_Manifest im = md \<and> tree w' = tree w"
proof -
  from held obtain c ix where ix: "tree w (leaf_index_path L ref p) = Some c" "json_Index L c = Inr ix"
    "i_Manifests ix = [md]" by (auto simp: leaf_holds_def)
  from readAll_up [OF w store_file_leaf(1) [OF laws(1) leaf] ix(1)] obtain w' where
    "store_readAll B (leaf_index_path L ref p) w = (Ok c, w')" and w': "quiet w w'" by blast
  with ix have "store_leafManifest L B (seg_path (leaf_segs L ref p)) w = (Ok md, w')"
    by (simp add: store_leafManifest_def leaf_Join [OF laws(1) leaf] ebind_Ok)
  then have "store_Resolve L B ref p w = (Ok (store_image L B ref p md (seg_path (leaf_segs L ref p))), w')"
    unfolding store_Resolve_def LeafPath_leafable [OF laws(1) leaf] ebind_pure
    by (simp add: ebind_attempt_Ok)
  with w' show ?thesis by (auto simp: store_image_def)
qed

text \<open>A diffID without an algorithm makes the commit of an otherwise complete image panic.\<close>

lemma Commit_panics:
  assumes laws: "digest_laws L" and w: "ok w"
    and data: "image_data L (tree w) p (d_Digest md) m cfg"
    and mt: "store_isManifest (d_MediaType md)"
    and bad: "c_DiffIDs cfg = d # ds" "digest_Algorithm L d = None"
  shows "\<exists>w'. store_Commit L B ref p md w = (Panic, w')"
proof -
  from Commit_check_up [OF laws w data mt] obtain w1 where
    1: "store_Commit_check L B p md w = (Ok (m, cfg), w1)" by blast
  from data bad(1) obtain l ls where "m_Layers m = l # ls"
    by (cases "m_Layers m") (auto simp: image_data_def)
  with bad have "store_Commit_write L B ref p md m cfg w1 = (Panic, w1)"
    by (simp add: store_Commit_write_def store_marker_def store_DiffIDPath_def digest_split_def
        ebind_def pure_res_def)
  with 1 show ?thesis by (auto simp: store_Commit_def ebind_def)
qed

text \<open>Committing again changes nothing.\<close>

lemma Commit_again:
  assumes laws: "digest_laws L" "json_laws L" and leaf: "leafable L ref p"
    and w: "ok w" "store_inv L (tree w)" and diffs: "diff_ids_valid L (tree w)"
    and enc: "marshal_Index L (leaf_index ref p md) = Inr b"
    and run: "store_Commit L B ref p md w = (Ok (), w1)"
  shows "\<exists>w2. store_Commit L B ref p md w1 = (Ok (), w2) \<and> tree w2 = tree w1"
proof -
  note c = Commit_safe [OF laws leaf diffs w run]
  then have w1: "ok w1" "store_inv L (tree w1)" by auto
  from c(2) obtain m cfg md' where data: "image_data L (tree w1) p (d_Digest md) m cfg"
    and mk: "markers_at L (tree w1) m cfg"
    and md': "leaf_holds L (tree w1) ref p md'" "d_Digest md' = d_Digest md"
    by (auto simp: image_closed_def)
  from md'(1) have idx: "tree w1 (leaf_index_path L ref p) \<noteq> None" by (auto simp: leaf_holds_def)
  with w1(2) leaf have lay: "tree w1 (leaf_layout_path L ref p) \<noteq> None"
    by (simp add: store_inv_def leaves_closed_def)
  from run obtain x u where "store_Commit_check L B p md w = (Ok x, u)"
    by (auto simp: store_Commit_def ebind_Ok)
  then have mt: "store_isManifest (d_MediaType md)"
    using Commit_check_Ok(2) [OF laws(1) w(1)] by (cases x) blast
  have "diff_ids_valid L (tree w1)"
    using diffs Commit_blobs [OF laws(1) leaf diffs w(1) run] by (simp add: diff_ids_valid_def)
  with data have "list_all (valid_digest L) (c_DiffIDs cfg)"
    unfolding image_data_def diff_ids_valid_def by blast
  from Commit_up [OF laws leaf w1(1) data mt this enc] md' mk lay idx show ?thesis by blast
qed

end

end
