(* ===== verification/Fsdir.thy ===== *)
theory Fsdir
  imports Store_Resolve
begin

text \<open>
  Package fsdir over \<open>vroot.Fs\<close>: the backend \<open>*fsdir.Store\<close> (fsdir/store.go) and the oci-dir view
  \<open>*fsdir.Dir\<close> (fsdir/fsdir.go). The file system is third-party code: its calls are the record
  \<open>vfs\<close> and what the package relies on is the locale \<open>vroot_fs\<close> of
  theory Fsdir_Backend, whose sublocale shows that the backend meets the contract of package store.
\<close>

section \<open>The file system interface\<close>

text \<open>
  \<open>'f\<close> is the handle type \<open>F\<close>. \<open>v_Content\<close> is what reads of an open handle deliver: the bytes, and
  an offset at which they fail. \<open>v_Stat\<close> gives the size. \<open>v_Walk\<close> is the sequence of callback
  invocations of \<open>vroot.WalkDir\<close>, each a path with an error or the regular-file bit. \<open>v_Rand\<close> is
  the hex string of the eight bytes \<open>crypto/rand\<close> gives.
\<close>

record ('w, 'f) vfs =
  v_Open :: "string \<Rightarrow> ('w, 'f) io"
  v_Stat :: "'f \<Rightarrow> ('w, int) io"
  v_Content :: "'f \<Rightarrow> bytes \<times> (nat \<times> gerr) option"
  v_Lstat :: "string \<Rightarrow> ('w, unit) io"
  v_MkdirAll :: "string \<Rightarrow> ('w, unit) io"
  v_Rand :: "'w \<Rightarrow> string \<times> 'w"
  v_OpenExcl :: "string \<Rightarrow> ('w, 'f) io"
  v_Write :: "'f \<Rightarrow> bytes \<Rightarrow> ('w, unit) io"
  v_Close :: "'f \<Rightarrow> ('w, unit) io"
  v_Link :: "string \<Rightarrow> string \<Rightarrow> ('w, unit) io"
  v_Remove :: "string \<Rightarrow> ('w, unit) io"
  v_Walk :: "string \<Rightarrow> ('w, (string \<times> (gerr + bool)) list) io"

section \<open>fsdir/store.go\<close>

text \<open>\<open>defer func() { _ = cleanup() }()\<close>\<close>

definition finally_do :: "('w, 'b) io \<Rightarrow> ('w, 'a) io \<Rightarrow> ('w, 'a) io" where
  "finally_do fin m w = (case m w of (r, w1) \<Rightarrow> (r, snd (fin w1)))"

definition fsdir_file :: "('w, 'f) vfs \<Rightarrow> 'f \<Rightarrow> int \<Rightarrow> reader" where
  "fsdir_file V f sz =
     \<lparr>rd_Size = sz, rd_Content = fst (v_Content V f), rd_Fail = snd (v_Content V f)\<rparr>"

text \<open>Opening a file and asking for its size; the handle is closed when \<open>Stat\<close> fails.\<close>

definition fsdir_openStat :: "('w, 'f) vfs \<Rightarrow> string \<Rightarrow> ('w, reader) io" where
  "fsdir_openStat V name =
     ebind (v_Open V name) (\<lambda>f.
     ebind (attempt (v_Stat V f)) (\<lambda>r.
       case r of
         Inl e \<Rightarrow> ebind (attempt (v_Close V f)) (\<lambda>_. throw e)
       | Inr sz \<Rightarrow> ret (fsdir_file V f sz)))"

definition fsdir_Open :: "('w, unit) io \<Rightarrow> ('w, 'f) vfs \<Rightarrow> string \<Rightarrow> ('w, reader) io" where
  "fsdir_Open ctx_Err V name = ebind ctx_Err (\<lambda>_. fsdir_openStat V name)"

text \<open>
  The body is copied before its error, its size and its digest are looked at, in this order.
\<close>

definition fsdir_writeVerified ::
  "oci_lib \<Rightarrow> ('w, 'f) vfs \<Rightarrow> 'f \<Rightarrow> body \<Rightarrow> int \<Rightarrow> string \<Rightarrow> ('w, unit) io" where
  "fsdir_writeVerified L V f r sz dgst =
     (case (if dgst = [] then None else digest_Validate L dgst) of
        Some e \<Rightarrow> throw e
      | None \<Rightarrow>
          (case (if dgst = [] then Some [] else digest_Algorithm L dgst) of
             None \<Rightarrow> pure_res Panic
           | Some alg \<Rightarrow>
               ebind (v_Write V f (fst r)) (\<lambda>_.
                 case snd r of
                   Some e \<Rightarrow> throw e
                 | None \<Rightarrow>
                     if 0 \<le> sz \<and> int (length (fst r)) \<noteq> sz then throw (Msg ''wrote bytes, want'')
                     else if dgst \<noteq> [] \<and> digest_Digester L alg (fst r) \<noteq> dgst
                     then throw (Msg ''content digest, want'')
                     else ret ())))"

text \<open>\<open>_, _ = rand.Read(suffix[:])\<close>: \<open>crypto/rand\<close> never returns an error.\<close>

definition random_hex :: "('w, 'f) vfs \<Rightarrow> ('w, string) io" where
  "random_hex V w = (case v_Rand V w of (s, w') \<Rightarrow> (Ok s, w'))"

definition tmp_name :: "string \<Rightarrow> string \<Rightarrow> string" where
  "tmp_name name suf =
     path_Join [path_Dir name, ''.tmp-'' @ path_Base name @ ''-'' @ suf]"

definition fsdir_Create ::
  "oci_lib \<Rightarrow> ('w, unit) io \<Rightarrow> ('w, 'f) vfs \<Rightarrow> string \<Rightarrow> body \<Rightarrow> int \<Rightarrow> string \<Rightarrow> ('w, unit) io" where
  "fsdir_Create L ctx_Err V name r sz dgst =
     ebind ctx_Err (\<lambda>_.
     ebind (attempt (v_Lstat V name)) (\<lambda>st.
       case st of
         Inr _ \<Rightarrow> throw (Wrap1 ''create'' (Sentinel ErrExist))
       | Inl _ \<Rightarrow>
           ebind (v_MkdirAll V (path_Dir name)) (\<lambda>_.
           ebind (random_hex V) (\<lambda>suf.
           let tmp = tmp_name name suf in
           ebind (v_OpenExcl V tmp) (\<lambda>f.
             finally_do (v_Remove V tmp)
               (ebind (attempt (fsdir_writeVerified L V f r sz dgst)) (\<lambda>werr.
                ebind (attempt (v_Close V f)) (\<lambda>cerr.
                  case (werr, cerr) of
                    (Inl e, _) \<Rightarrow> throw (Wrap1 ''fsdir: creating'' e)
                  | (Inr _, Inl e) \<Rightarrow> throw (Wrap1 ''fsdir: creating'' e)
                  | (Inr _, Inr _) \<Rightarrow> v_Link V tmp name))))))))"

definition fsdir_MkdirAll :: "('w, unit) io \<Rightarrow> ('w, 'f) vfs \<Rightarrow> string \<Rightarrow> ('w, unit) io" where
  "fsdir_MkdirAll ctx_Err V name = ebind ctx_Err (\<lambda>_. v_MkdirAll V name)"

text \<open>The callback of \<open>WalkDir\<close> over its invocations: \<open>SkipAll\<close> and an error end the walk.\<close>

fun fsdir_walk ::
  "('w, unit) io \<Rightarrow> string \<Rightarrow> (string \<times> (gerr + bool)) list \<Rightarrow> ('w, (gerr + string) list) io" where
  "fsdir_walk ctx_Err root [] = ret []"
| "fsdir_walk ctx_Err root ((p, Inl e) # xs) =
     (if err_is e ErrNotExist \<and> p = root then ret []
      else ebind (fsdir_walk ctx_Err root xs) (\<lambda>ys. ret (Inl e # ys)))"
| "fsdir_walk ctx_Err root ((p, Inr regular) # xs) =
     ebind (attempt ctx_Err) (\<lambda>r.
       case r of
         Inl e \<Rightarrow> ret [Inl e]
       | Inr _ \<Rightarrow>
           if \<not> regular \<or> has_prefix (path_Base p) ''.tmp-'' then fsdir_walk ctx_Err root xs
           else ebind (fsdir_walk ctx_Err root xs) (\<lambda>ys. ret (Inr p # ys)))"

definition fsdir_List ::
  "('w, unit) io \<Rightarrow> ('w, 'f) vfs \<Rightarrow> string \<Rightarrow> ('w, (gerr + string) list) io" where
  "fsdir_List ctx_Err V pre =
     (let root = trim_suffix pre ''/'' in
      ebind (v_Walk V root) (fsdir_walk ctx_Err root))"

definition fsdir_NewStore :: "oci_lib \<Rightarrow> ('w, unit) io \<Rightarrow> ('w, 'f) vfs \<Rightarrow> 'w backend" where
  "fsdir_NewStore L ctx_Err V =
     \<lparr>b_Open = fsdir_Open ctx_Err V,
      b_Create = fsdir_Create L ctx_Err V,
      b_List = Some (fsdir_List ctx_Err V),
      b_MkdirAll = Some (fsdir_MkdirAll ctx_Err V)\<rparr>"

section \<open>fsdir/fsdir.go\<close>

record ('w, 'f) fsdir_dir =
  fd_fsys :: "('w, 'f) vfs"
  fd_sharedBlob :: "('w, 'f) vfs option"

definition fsdir_Blobs ::
  "oci_lib \<Rightarrow> ('w, unit) io \<Rightarrow> ('w, 'f) fsdir_dir \<Rightarrow> string \<Rightarrow> ('w, reader) io" where
  "fsdir_Blobs L ctx_Err d dgst =
     ebind ctx_Err (\<lambda>_.
       case digest_Validate L dgst of
         Some e \<Rightarrow> throw e
       | None \<Rightarrow>
           ebind (pure_res (digest_split L dgst)) (\<lambda>(a, h).
             case fd_sharedBlob d of
               None \<Rightarrow> fsdir_openStat (fd_fsys d) (path_Join [ImageBlobsDir, a, h])
             | Some shared \<Rightarrow> fsdir_openStat shared (path_Join [a, h])))"

text \<open>\<open>readFile\<close> reads the handle to its end, whatever size \<open>Stat\<close> would report.\<close>

definition fsdir_readFile :: "('w, unit) io \<Rightarrow> ('w, 'f) vfs \<Rightarrow> string \<Rightarrow> ('w, bytes) io" where
  "fsdir_readFile ctx_Err V name =
     ebind ctx_Err (\<lambda>_.
     ebind (v_Open V name) (\<lambda>f.
       finally_do (v_Close V f)
         (pure_res (case v_Content V f of (c, None) \<Rightarrow> Ok c | (c, Some (_, e)) \<Rightarrow> Err e))))"

definition fsdir_New :: "oci_lib \<Rightarrow> ('w, unit) io \<Rightarrow> ('w, 'f) fsdir_dir \<Rightarrow> 'w oci_dir" where
  "fsdir_New L ctx_Err d =
     (let indexBin = fsdir_readFile ctx_Err (fd_fsys d) ImageIndexFile;
          layoutBin = fsdir_readFile ctx_Err (fd_fsys d) ImageLayoutFile
      in \<lparr>od_Blobs = fsdir_Blobs L ctx_Err d,
          od_Index = decode (json_Index L) indexBin,
          od_OciLayout = decode (json_Layout L) layoutBin,
          od_IndexBin = indexBin,
          od_OciLayoutBin = layoutBin\<rparr>)"

end
