(* ===== verification/Fsdir_Backend.thy ===== *)
theory Fsdir_Backend
  imports Fsdir
begin

text \<open>
  The contract package fsdir needs of a \<open>vroot.Fs\<close>, and the proof that \<open>*fsdir.Store\<close> meets the
  contract of package store over every file system that keeps it. \<open>files\<close> and \<open>dirs\<close> are the
  regular files and the directories; the laws say what each call does to them whatever it returns,
  so a failed or half done write, a crash of the rename and a leftover temporary file are covered.
\<close>

section \<open>Names\<close>

text \<open>The directories \<open>MkdirAll\<close> may create: the path and its ancestors.\<close>

definition ancestors :: "string \<Rightarrow> string set" where
  "ancestors n = {seg_path ys | ys zs. split_on CHR ''/'' n = ys @ zs \<and> ys \<noteq> []}"

lemma store_fileE:
  assumes "store_file n"
  obtains xs x where "n = seg_path (xs @ [x])" "store_segs (xs @ [x])" "xs \<noteq> []"
    "\<forall>y \<in> set xs. plain_seg y" "plain_seg x" "split_on CHR ''/'' n = xs @ [x]"
proof -
  let ?ss = "split_on CHR ''/'' n"
  from assms have s: "store_segs ?ss" by (simp add: store_file_def)
  obtain xs x where ss: "?ss = xs @ [x]" by (metis append_butlast_last_id split_on_nonempty)
  have "xs \<noteq> []"
  proof
    assume "xs = []"
    with s ss show False by (auto simp: store_segs_def split: if_splits)
  qed
  moreover have "n = seg_path (xs @ [x])" using ss by (metis join_split)
  moreover have "\<forall>y \<in> set (xs @ [x]). plain_seg y" using s ss by (simp add: store_segs_def)
  ultimately show ?thesis using that [of xs x] s ss by simp
qed

lemma ancestors_store_file:
  assumes n: "store_file n" and m: "store_file m" and d: "m \<in> ancestors (path_Dir n)"
  shows False
proof -
  from n obtain xs x where x: "n = seg_path (xs @ [x])" "store_segs (xs @ [x])" "xs \<noteq> []"
    "\<forall>y \<in> set xs. plain_seg y" "plain_seg x" "split_on CHR ''/'' n = xs @ [x]"
    by (rule store_fileE)
  have "CHR ''/'' \<notin> set x" using x(5) by (simp add: plain_seg_def)
  from path_Dir_join [OF x(3) x(4) [rule_format] this] have "path_Dir n = seg_path xs" by (simp add: x(1))
  then have sp: "split_on CHR ''/'' (path_Dir n) = xs"
    by (simp only: split_seg_path [OF x(3) x(4) [rule_format]])
  from d obtain ys zs where "m = seg_path ys" "split_on CHR ''/'' (path_Dir n) = ys @ zs" "ys \<noteq> []"
    unfolding ancestors_def by blast
  then have ys: "m = seg_path ys" "xs = ys @ zs" "ys \<noteq> []" unfolding sp by blast+
  have "split_on CHR ''/'' m = ys"
    unfolding ys(1) using ys(2,3) x(4) by (intro split_seg_path) auto
  with m have "store_segs ys" by (simp add: store_file_def)
  from store_segs_prefix_free [OF this, of "zs @ [x]"] x(2) ys(2) show False by simp
qed

lemma ancestors_store_dir:
  assumes n: "store_dir n" and m: "store_file m" and d: "m \<in> ancestors n"
  shows False
proof -
  let ?xs = "split_on CHR ''/'' n"
  from d obtain ys zs where ys: "m = seg_path ys" "?xs = ys @ zs" "ys \<noteq> []"
    unfolding ancestors_def by blast
  have plain: "\<forall>x \<in> set ?xs. plain_seg x \<and> \<not> leaf_file x" and hd: "hd ?xs = ''image_refs''"
    using n by (simp_all add: store_dir_def Let_def)
  have "split_on CHR ''/'' m = ys"
    unfolding ys(1) using plain [unfolded ys(2)] by (intro split_seg_path ys(3)) simp
  with m have "store_segs ys" by (simp add: store_file_def)
  moreover have "hd ys = ''image_refs''" using hd ys by simp
  ultimately have "leaf_file (last ys)" by (simp add: store_segs_def)
  with plain ys show False by simp
qed

lemma tmp_name_segs:
  assumes "store_file n" "CHR ''/'' \<notin> set s"
  obtains xs x where "split_on CHR ''/'' n = xs @ [x]" "xs \<noteq> []"
    "path_Dir n = seg_path xs" "\<forall>y \<in> set xs. plain_seg y"
    "tmp_name n s = seg_path (xs @ [''.tmp-'' @ x @ ''-'' @ s])"
    "split_on CHR ''/'' (tmp_name n s) = xs @ [''.tmp-'' @ x @ ''-'' @ s]"
proof -
  from assms(1) obtain xs x where segs: "n = seg_path (xs @ [x])" "store_segs (xs @ [x])" "xs \<noteq> []"
    "\<forall>y \<in> set xs. plain_seg y" "plain_seg x" "split_on CHR ''/'' n = xs @ [x]"
    by (rule store_fileE)
  note x = segs(1,3-5)
  let ?t = "''.tmp-'' @ x @ ''-'' @ s"
  have slash: "CHR ''/'' \<notin> set x" using x(4) by (simp add: plain_seg_def)
  have dir: "path_Dir n = seg_path xs" "path_Base n = x"
    using path_Dir_join [OF x(2) x(3) [rule_format] slash] path_Base_join [OF x(4), of xs] by (simp_all add: x(1))
  then have "tmp_name n s = path_Join (map seg_path [xs, [?t]])" by (simp add: tmp_name_def)
  also have "\<dots> = seg_path (concat [xs, [?t]])"
  proof (rule path_Join_clean)
    have "clean_seg ?t" using slash assms(2) by (simp add: clean_seg_def)
    then show "ys \<noteq> [] \<and> (\<forall>y \<in> set ys. clean_seg y)" if "ys \<in> set [xs, [?t]]" for ys
      using that x(2,3) by auto
  qed simp
  finally have t: "tmp_name n s = seg_path (xs @ [?t])" by simp
  have "split_on CHR ''/'' (tmp_name n s) = xs @ [?t]"
    unfolding t using x(3) slash assms(2) by (intro split_join) (auto simp: plain_seg_def)
  with that segs(6) x(2,3) dir(1) t show ?thesis by blast
qed

lemma tmp_not_store_file:
  assumes "store_file n" "CHR ''/'' \<notin> set s"
  shows "\<not> store_file (tmp_name n s)"
proof
  assume tmp: "store_file (tmp_name n s)"
  obtain xs x where "split_on CHR ''/'' (tmp_name n s) = xs @ [''.tmp-'' @ x @ ''-'' @ s]"
    by (rule tmp_name_segs [OF assms])
  with tmp have "plain_seg (''.tmp-'' @ x @ ''-'' @ s)" by (simp add: store_file_def store_segs_def)
  then show False by (simp add: plain_seg_def)
qed

section \<open>The contract of the file system\<close>

text \<open>An error that does not say whether a file is there.\<close>

definition plain_err :: "gerr \<Rightarrow> bool" where
  "plain_err e \<longleftrightarrow> \<not> err_is e ErrNotExist \<and> \<not> err_is e ErrExist \<and> err_status e \<noteq> Some 412"

text \<open>The tree of the store, and the condition that no directory sits at one of its files.\<close>

definition fs_tree :: "('w \<Rightarrow> string \<rightharpoonup> bytes) \<Rightarrow> 'w \<Rightarrow> tree" where
  "fs_tree files w n = (if store_file n then files w n else None)"

definition fs_ok :: "('w \<Rightarrow> string set) \<Rightarrow> 'w \<Rightarrow> bool" where
  "fs_ok dirs w \<longleftrightarrow> (\<forall>n. store_file n \<longrightarrow> n \<notin> dirs w)"

locale vroot_fs =
  fixes L :: oci_lib
    and ctx_Err :: "('w, unit) io"
    and V :: "('w, 'f) vfs"
    and files :: "'w \<Rightarrow> string \<rightharpoonup> bytes"
    and dirs :: "'w \<Rightarrow> string set"
    and fname :: "'f \<Rightarrow> string"
  assumes lib: "digest_laws L"
    and ctx_still: "ctx_Err w = (r, w') \<Longrightarrow> files w' = files w \<and> dirs w' = dirs w"
    and ctx_kind: "ctx_Err w = (Err e, w') \<Longrightarrow> plain_err e"
    and open_still: "v_Open V n w = (ro, w') \<Longrightarrow> files w' = files w \<and> dirs w' = dirs w"
    and open_file: "v_Open V n w = (Ok f, w') \<Longrightarrow> n \<notin> dirs w \<Longrightarrow> files w n = Some (fst (v_Content V f))"
    and open_absent: "v_Open V n w = (Err e, w') \<Longrightarrow> err_is e ErrNotExist \<Longrightarrow> files w n = None"
    and content_kind: "snd (v_Content V f) = Some (k, e) \<Longrightarrow> plain_err e"
    and stat_still: "v_Stat V f w = (rs, w') \<Longrightarrow> files w' = files w \<and> dirs w' = dirs w"
    and stat_size: "v_Stat V f w = (Ok sz, w') \<Longrightarrow> sz = int (length (fst (v_Content V f)))"
    and stat_kind: "v_Stat V f w = (Err e, w') \<Longrightarrow> plain_err e"
    and lstat_still: "v_Lstat V n w = (r, w') \<Longrightarrow> files w' = files w \<and> dirs w' = dirs w"
    and lstat_found: "v_Lstat V n w = (Ok u, w') \<Longrightarrow> files w n \<noteq> None \<or> n \<in> dirs w"
    and mkdir_files: "v_MkdirAll V n w = (r, w') \<Longrightarrow> files w' = files w \<and> dirs w' \<subseteq> dirs w \<union> ancestors n"
    and mkdir_kind: "v_MkdirAll V n w = (Err e, w') \<Longrightarrow> plain_err e"
    and rand_still: "v_Rand V w = (s, w') \<Longrightarrow> files w' = files w \<and> dirs w' = dirs w \<and> CHR ''/'' \<notin> set s"
    and rand_fresh: "v_Rand V w = (s, w') \<Longrightarrow> store_file n \<Longrightarrow>
        files w (tmp_name n s) = None \<and> tmp_name n s \<notin> dirs w"
    and excl_Ok: "v_OpenExcl V n w = (Ok f, w') \<Longrightarrow>
        files w' = (files w)(n \<mapsto> []) \<and> dirs w' = dirs w \<and> fname f = n"
    and excl_fails: "v_OpenExcl V n w = (ro, w') \<Longrightarrow> \<forall>f. ro \<noteq> Ok f \<Longrightarrow>
        files w' = files w \<and> dirs w' = dirs w"
    and excl_held: "v_OpenExcl V n w = (Err e, w') \<Longrightarrow> err_is e ErrExist \<Longrightarrow>
        files w n \<noteq> None \<or> n \<in> dirs w"
    and write_any: "v_Write V f b w = (r, w') \<Longrightarrow> files w (fname f) = Some c0 \<Longrightarrow>
        dirs w' = dirs w \<and> (\<exists>c. files w' = (files w)(fname f \<mapsto> c) \<and> (r = Ok () \<longrightarrow> c = c0 @ b))"
    and write_kind: "v_Write V f b w = (Err e, w') \<Longrightarrow> plain_err e"
    and close_still: "v_Close V f w = (r, w') \<Longrightarrow> files w' = files w \<and> dirs w' = dirs w"
    and close_kind: "v_Close V f w = (Err e, w') \<Longrightarrow> plain_err e"
    and link_any: "v_Link V a b w = (r, w') \<Longrightarrow> dirs w' = dirs w \<and>
        (files w' = files w \<and> r \<noteq> Ok () \<or>
         (\<exists>c. files w a = Some c \<and> files w b = None \<and> files w' = (files w)(b \<mapsto> c) \<and>
           (\<forall>e. r = Err e \<longrightarrow> \<not> err_is e ErrExist)))"
    and link_held: "v_Link V a b w = (Err e, w') \<Longrightarrow> err_is e ErrExist \<Longrightarrow>
        files w b \<noteq> None \<or> b \<in> dirs w"
    and remove_any: "v_Remove V n w = (r, w') \<Longrightarrow> files w n \<noteq> None \<Longrightarrow>
        dirs w' = dirs w \<and> (files w' = files w \<or> files w' = (files w)(n := None))"
    and walk_still: "v_Walk V n w = (rk, w') \<Longrightarrow> files w' = files w \<and> dirs w' = dirs w"
begin

abbreviation still :: "('w, 'a) io \<Rightarrow> bool" where
  "still m \<equiv> moves (\<lambda>w w'. files w' = files w \<and> dirs w' = dirs w) m"

lemma still_rel [simp]:
  "reflp (\<lambda>w w'. files w' = files w \<and> dirs w' = dirs w)"
  "transp (\<lambda>w w'. files w' = files w \<and> dirs w' = dirs w)"
  by (auto intro!: reflpI transpI)

lemma still_calls [keeps_intros]:
  "still ctx_Err" "still (v_Open V n)" "still (v_Stat V f)" "still (v_Lstat V n)"
  "still (v_Close V f)" "still (v_Walk V n)"
  by (rule movesI, erule ctx_still open_still stat_still lstat_still close_still walk_still)+

lemma still_tree:
  assumes "still m" "m w = (r, w')" shows "fs_tree files w' = fs_tree files w" "fs_ok dirs w \<Longrightarrow> fs_ok dirs w'"
  using movesD [OF assms] by (simp_all add: fs_tree_def fs_ok_def fun_eq_iff)

subsection \<open>Open, list and mkdir\<close>

lemma still_openStat [keeps_intros]: "still (fsdir_openStat V n)"
  unfolding fsdir_openStat_def by (auto intro!: keeps_intros split: sum.splits)

lemma still_Open [keeps_intros]: "still (fsdir_Open ctx_Err V n)"
  unfolding fsdir_Open_def by (auto intro!: keeps_intros)

lemma openStat_Ok:
  assumes "fsdir_openStat V n w = (Ok rd, w')" "n \<notin> dirs w"
  shows "\<exists>c. files w n = Some c \<and> serves rd c"
proof -
  from assms(1) [unfolded fsdir_openStat_def] obtain f w1 where f1: "v_Open V n w = (Ok f, w1)"
    and rest: "ebind (attempt (v_Stat V f)) (\<lambda>r. case r of
         Inl e \<Rightarrow> ebind (attempt (v_Close V f)) (\<lambda>_. throw e)
       | Inr sz \<Rightarrow> ret (fsdir_file V f sz)) w1 = (Ok rd, w')"
    by (auto simp: ebind_Ok)
  from rest obtain sz where f: "v_Open V n w = (Ok f, w1)" "v_Stat V f w1 = (Ok sz, w')"
    and rd: "rd = fsdir_file V f sz"
    using f1 by (cases rule: ebind_attemptE) (auto simp: ebind_Ok)
  have "serves rd (fst (v_Content V f))"
    using stat_size [OF f(2)] content_kind [of f] rd
    by (auto simp: serves_def fsdir_file_def read_all_def section_bytes_def plain_err_def
        split: option.splits if_splits)
  with open_file [OF f(1) assms(2)] show ?thesis by blast
qed

lemma openStat_absent:
  assumes "fsdir_openStat V n w = (Err e, w')" "err_is e ErrNotExist"
  shows "files w n = None"
proof -
  from assms(1) [unfolded fsdir_openStat_def]
  consider "v_Open V n w = (Err e, w')"
    | f w1 where "v_Open V n w = (Ok f, w1)" "ebind (attempt (v_Stat V f)) (\<lambda>r. case r of
         Inl e \<Rightarrow> ebind (attempt (v_Close V f)) (\<lambda>_. throw e)
       | Inr sz \<Rightarrow> ret (fsdir_file V f sz)) w1 = (Err e, w')"
    unfolding ebind_Err by blast
  then show ?thesis
  proof cases
    case 1
    then show ?thesis using open_absent assms(2) by blast
  next
    case 2
    from 2(2) obtain w2 where "v_Stat V f w1 = (Err e, w2)"
      by (cases rule: ebind_attemptE) (auto simp: ebind_Err)
    with stat_kind assms(2) show ?thesis by (auto simp: plain_err_def)
  qed
qed

lemma MkdirAll_any:
  assumes "fsdir_MkdirAll ctx_Err V n w = (r, w')"
  shows "files w' = files w" "dirs w' \<subseteq> dirs w \<union> ancestors n"
proof -
  from assms [unfolded fsdir_MkdirAll_def]
  have "files w' = files w \<and> dirs w' \<subseteq> dirs w \<union> ancestors n"
  proof (cases rule: ebindE)
    case (Next x w1)
    from ctx_still [OF Next(1)] mkdir_files [OF Next(2)] show ?thesis by simp
  next
    case (Stop r0)
    from ctx_still [OF Stop(1)] show ?thesis by simp
  qed
  then show "files w' = files w" "dirs w' \<subseteq> dirs w \<union> ancestors n" by auto
qed

lemma still_walk [keeps_intros]: "still (fsdir_walk ctx_Err root xs)"
proof (induction xs)
  case (Cons x xs)
  obtain p e where x: "x = (p, e)" by (cases x)
  from Cons show ?case
    by (cases e) (auto simp: x intro!: keeps_intros split: sum.splits)
qed (simp add: moves_ret)

subsection \<open>Create\<close>

text \<open>Copying into the temporary file, whatever comes of it.\<close>

lemma writeVerified:
  assumes run: "fsdir_writeVerified L V f body sz dgst w = (r, w')"
    and new: "files w (fname f) = Some []"
  shows "dirs w' = dirs w" "\<exists>c. files w' = (files w)(fname f \<mapsto> c) \<and> (r = Ok () \<longrightarrow> c = fst body)"
    and "r = Ok () \<Longrightarrow> snd body = None \<and> (0 \<le> sz \<longrightarrow> int (length (fst body)) = sz) \<and>
       (dgst \<noteq> [] \<longrightarrow> digest_matches L dgst (fst body))"
    and "r = Err e \<Longrightarrow> body_ok body \<Longrightarrow> \<not> err_is e ErrExist"
proof -
  let ?P = "dirs w' = dirs w \<and> (\<exists>c. files w' = (files w)(fname f \<mapsto> c) \<and> (r = Ok () \<longrightarrow> c = fst body)) \<and>
    (r = Ok () \<longrightarrow> snd body = None \<and> (0 \<le> sz \<longrightarrow> int (length (fst body)) = sz) \<and>
       (dgst \<noteq> [] \<longrightarrow> digest_matches L dgst (fst body))) \<and>
    (\<forall>e. r = Err e \<longrightarrow> body_ok body \<longrightarrow> \<not> err_is e ErrExist)"
  have same: "\<exists>c. files w = (files w)(fname f \<mapsto> c)" using new by (metis map_upd_triv)
  have ?P
  proof (cases "if dgst = [] then None else digest_Validate L dgst")
    case (Some e)
    then have "digest_Validate L dgst = Some e" by (simp split: if_splits)
    with lib have "\<not> err_is e ErrExist" unfolding digest_laws_def by blast
    with run Some same show ?thesis by (auto simp: fsdir_writeVerified_def throw_def)
  next
    case None
    then have "dgst \<noteq> [] \<Longrightarrow> valid_digest L dgst" by (simp add: valid_digest_def)
    then obtain alg where alg: "(if dgst = [] then Some [] else digest_Algorithm L dgst) = Some alg"
      using digest_parts [OF lib] by (cases "dgst = []") auto
    from run None alg have "ebind (v_Write V f (fst body)) (\<lambda>_.
                 case snd body of
                   Some e \<Rightarrow> throw e
                 | None \<Rightarrow>
                     if 0 \<le> sz \<and> int (length (fst body)) \<noteq> sz then throw (Msg ''wrote bytes, want'')
                     else if dgst \<noteq> [] \<and> digest_Digester L alg (fst body) \<noteq> dgst
                     then throw (Msg ''content digest, want'')
                     else ret ()) w = (r, w')"
      by (simp add: fsdir_writeVerified_def)
    then show ?thesis
    proof (cases rule: ebindE)
      case (Next x w1)
      note wr = write_any [OF Next(1) new]
      have w1: "w' = w1" using Next(2) by (auto simp: throw_def ret_def split: option.splits if_splits)
      have ok: "r = Ok () \<Longrightarrow> snd body = None \<and> (0 \<le> sz \<longrightarrow> int (length (fst body)) = sz) \<and>
          (dgst \<noteq> [] \<longrightarrow> digest_matches L dgst (fst body))"
        using Next(2) alg by (auto simp: throw_def digest_matches_def split: option.splits if_splits)
      have err: "r = Err e \<Longrightarrow> body_ok body \<Longrightarrow> \<not> err_is e ErrExist" for e
        using Next(2) by (auto simp: throw_def ret_def body_ok_def split: option.splits if_splits)
      from wr ok err show ?thesis unfolding w1 by auto
    next
      case (Stop r0)
      note wr = write_any [OF Stop(1) new]
      have "\<not> err_is e ErrExist" if e: "r = Err e" for e
        using write_kind Stop(1) Stop(4) [OF e] by (auto simp: plain_err_def)
      with wr Stop(3) show ?thesis by auto
    qed
  qed
  then show "dirs w' = dirs w" "\<exists>c. files w' = (files w)(fname f \<mapsto> c) \<and> (r = Ok () \<longrightarrow> c = fst body)"
    and "r = Ok () \<Longrightarrow> snd body = None \<and> (0 \<le> sz \<longrightarrow> int (length (fst body)) = sz) \<and>
       (dgst \<noteq> [] \<longrightarrow> digest_matches L dgst (fst body))"
    and "r = Err e \<Longrightarrow> body_ok body \<Longrightarrow> \<not> err_is e ErrExist" by blast+
qed

text \<open>What a \<open>Create\<close> may leave, by the contract of package store.\<close>

abbreviation outcome :: "'w \<Rightarrow> string \<Rightarrow> body \<Rightarrow> int \<Rightarrow> string \<Rightarrow> unit res \<Rightarrow> 'w \<Rightarrow> bool" where
  "outcome w n body sz dgst r w' \<equiv>
     fs_ok dirs w' \<and>
     (fs_tree files w' = fs_tree files w \<or>
      created L (fs_tree files w) n body sz dgst (fs_tree files w')) \<and>
     (r = Ok () \<longrightarrow> created L (fs_tree files w) n body sz dgst (fs_tree files w')) \<and>
     (\<forall>e. r = Err e \<longrightarrow> err_is e ErrExist \<longrightarrow> body_ok body \<longrightarrow>
        fs_tree files w n \<noteq> None \<and> fs_tree files w' = fs_tree files w)"

lemma fs_tree_upd:
  "\<not> store_file m \<Longrightarrow> files w' = (files w)(m \<mapsto> c) \<Longrightarrow> fs_tree files w' = fs_tree files w"
  "\<not> store_file m \<Longrightarrow> files w' = (files w)(m := None) \<Longrightarrow> fs_tree files w' = fs_tree files w"
  "files w' = files w \<Longrightarrow> fs_tree files w' = fs_tree files w"
  by (auto simp: fs_tree_def fun_eq_iff)

text \<open>From the open temporary file on: write, verify, close, link, and remove in any case.\<close>

lemma Create_tmp:
  assumes n: "store_file n" and tmp: "\<not> store_file tmp" and w: "fs_ok dirs w"
    and f: "files w (fname f) = Some []" "fname f = tmp"
    and run: "finally_do (v_Remove V tmp)
       (ebind (attempt (fsdir_writeVerified L V f body sz dgst)) (\<lambda>werr.
        ebind (attempt (v_Close V f)) (\<lambda>cerr.
          case (werr, cerr) of
            (Inl e, _) \<Rightarrow> throw (Wrap1 ''fsdir: creating'' e)
          | (Inr _, Inl e) \<Rightarrow> throw (Wrap1 ''fsdir: creating'' e)
          | (Inr _, Inr _) \<Rightarrow> v_Link V tmp n))) w = (r, w')"
  shows "outcome w n body sz dgst r w'"
proof -
  let ?m = "ebind (attempt (fsdir_writeVerified L V f body sz dgst)) (\<lambda>werr.
        ebind (attempt (v_Close V f)) (\<lambda>cerr.
          case (werr, cerr) of
            (Inl e, _) \<Rightarrow> throw (Wrap1 ''fsdir: creating'' e)
          | (Inr _, Inl e) \<Rightarrow> throw (Wrap1 ''fsdir: creating'' e)
          | (Inr _, Inr _) \<Rightarrow> v_Link V tmp n))"
  obtain w1 where m: "?m w = (r, w1)" and w': "w' = snd (v_Remove V tmp w1)"
    using run by (auto simp: finally_do_def split: prod.splits)
  have core: "outcome w n body sz dgst r w1 \<and> files w1 tmp \<noteq> None"
    using m
  proof (cases rule: ebind_attemptE)
    case (Val x w2)
    note wv = writeVerified [OF Val(1) f(1)]
    from wv(1,2) have w2: "dirs w2 = dirs w" "files w2 = (files w)(tmp \<mapsto> fst body)" using f(2) by auto
    note t2 = fs_tree_upd(1) [OF tmp w2(2)]
    from Val(2) show ?thesis
    proof (cases rule: ebind_attemptE)
      case (Val y w3)
      from movesD [OF still_calls(5) Val(1)] w2 have w3: "dirs w3 = dirs w"
        "files w3 = (files w)(tmp \<mapsto> fst body)" by auto
      note t3 = fs_tree_upd(1) [OF tmp w3(2)]
      from Val(2) have ln: "v_Link V tmp n w3 = (r, w1)" by simp
      from link_any [OF ln] have d1: "dirs w1 = dirs w"
        and cases: "files w1 = files w3 \<and> r \<noteq> Ok () \<or>
         (\<exists>c. files w3 tmp = Some c \<and> files w3 n = None \<and> files w1 = (files w3)(n \<mapsto> c) \<and>
           (\<forall>e. r = Err e \<longrightarrow> \<not> err_is e ErrExist))" using w3 by auto
      have held: "fs_tree files w n \<noteq> None" if "r = Err e" "err_is e ErrExist" for e
        using link_held [of tmp n w3 e w1] ln that w3 w n tmp
        by (auto simp: fs_ok_def fs_tree_def split: if_splits)
      from cases show ?thesis
      proof
        assume "files w1 = files w3 \<and> r \<noteq> Ok ()"
        then show ?thesis
          using d1 w held t3 fs_tree_upd(3) [of w1 w3] w3(2) by (auto simp: fs_ok_def)
      next
        assume "\<exists>c. files w3 tmp = Some c \<and> files w3 n = None \<and> files w1 = (files w3)(n \<mapsto> c) \<and>
           (\<forall>e. r = Err e \<longrightarrow> \<not> err_is e ErrExist)"
        then have l: "files w3 n = None" "files w1 = (files w3)(n \<mapsto> fst body)"
          and ne: "\<forall>e. r = Err e \<longrightarrow> \<not> err_is e ErrExist"
          using w3(2) by auto
        have "fs_tree files w n = None" using l(1) t3 n by (metis fs_tree_def)
        moreover have "fs_tree files w1 = (fs_tree files w)(n \<mapsto> fst body)"
          using l(2) n unfolding t3 [symmetric] by (auto simp: fs_tree_def fun_eq_iff)
        ultimately have "created L (fs_tree files w) n body sz dgst (fs_tree files w1)"
          using wv(3) by (simp add: created_def)
        then show ?thesis using ne d1 w l(2) w3(2) by (auto simp: fs_ok_def)
      qed
    next
      case (Fail e w3)
      from movesD [OF still_calls(5) Fail(1)] w2 have w3: "dirs w3 = dirs w"
        "files w3 = (files w)(tmp \<mapsto> fst body)" by auto
      from Fail(2) have "w1 = w3" "r = Err (Wrap1 ''fsdir: creating'' e)" by (auto simp: throw_def)
      with fs_tree_upd(1) [OF tmp w3(2)] w3 w close_kind [OF Fail(1)] show ?thesis
        by (auto simp: fs_ok_def plain_err_def)
    next
      case Stop
      from movesD [OF still_calls(5) Stop(1)] w2 have w3: "dirs w1 = dirs w"
        "files w1 = (files w)(tmp \<mapsto> fst body)" by auto
      with fs_tree_upd(1) [OF tmp w3(2)] w Stop(2) show ?thesis by (auto simp: fs_ok_def)
    qed
  next
    case (Fail e w2)
    note wv = writeVerified [OF Fail(1) f(1)]
    from wv(1,2) f(2) obtain c where w2: "dirs w2 = dirs w" "files w2 = (files w)(tmp \<mapsto> c)" by auto
    from Fail(2) have cl: "dirs w1 = dirs w2 \<and> files w1 = files w2 \<and>
        (r = Err (Wrap1 ''fsdir: creating'' e) \<or> r = Panic)"
      by (cases rule: ebind_attemptE)
        (auto dest!: close_still simp: throw_def split: sum.splits)
    with fs_tree_upd(1) [OF tmp, of w1] w2 w wv(4) show ?thesis by (auto simp: fs_ok_def)
  next
    case Stop
    note wv = writeVerified [OF Stop(1) f(1)]
    from wv(1,2) f(2) obtain c where "dirs w1 = dirs w" "files w1 = (files w)(tmp \<mapsto> c)" by auto
    with fs_tree_upd(1) [OF tmp] w Stop(2) show ?thesis by (auto simp: fs_ok_def)
  qed
  obtain rr where rm: "v_Remove V tmp w1 = (rr, w')" unfolding w' by (cases "v_Remove V tmp w1") simp
  from remove_any [OF rm] core have "dirs w' = dirs w1"
    and "files w' = files w1 \<or> files w' = (files w1)(tmp := None)" by auto
  then have "dirs w' = dirs w1" "fs_tree files w' = fs_tree files w1"
    using fs_tree_upd(2) [OF tmp, of w' w1] fs_tree_upd(3) [of w' w1] by auto
  with core show ?thesis by (auto simp: fs_ok_def)
qed

lemma Create_outcome:
  assumes n: "store_file n" and w: "fs_ok dirs w"
    and run: "fsdir_Create L ctx_Err V n body sz dgst w = (r, w')"
  shows "outcome w n body sz dgst r w'"
  using run [unfolded fsdir_Create_def]
proof (cases rule: ebindE)
  case (Stop r0)
  from movesD [OF still_calls(1) Stop(1)] have w': "files w' = files w" "dirs w' = dirs w" by auto
  have "\<not> err_is e ErrExist" if "r = Err e" for e
    using ctx_kind Stop(1) Stop(4) [OF that] by (auto simp: plain_err_def)
  with w' w fs_tree_upd(3) [OF w'(1)] Stop(3) show ?thesis by (simp add: fs_ok_def)
next
  case (Next x w1)
  from movesD [OF still_calls(1) Next(1)] have w1: "files w1 = files w" "dirs w1 = dirs w" by auto
  from Next(2) show ?thesis
  proof (cases rule: ebind_attemptE)
    case (Val y w2)
    from movesD [OF still_calls(4) Val(1)] w1 have w2: "files w2 = files w" "dirs w2 = dirs w" by auto
    from Val(2) have "w' = w2" "r = Err (Wrap1 ''create'' (Sentinel ErrExist))" by (auto simp: throw_def)
    moreover have "fs_tree files w n \<noteq> None"
      using lstat_found [OF Val(1)] w1 w n by (auto simp: fs_ok_def fs_tree_def)
    ultimately show ?thesis using w w2 fs_tree_upd(3) [OF w2(1)] by (auto simp: fs_ok_def)
  next
    case (Fail e w2)
    from movesD [OF still_calls(4) Fail(1)] w1 have w2: "files w2 = files w" "dirs w2 = dirs w" by auto
    from Fail(2) have "ebind (v_MkdirAll V (path_Dir n)) (\<lambda>_.
           ebind (random_hex V) (\<lambda>suf.
           let tmp = tmp_name n suf in
           ebind (v_OpenExcl V tmp) (\<lambda>f.
             finally_do (v_Remove V tmp)
               (ebind (attempt (fsdir_writeVerified L V f body sz dgst)) (\<lambda>werr.
                ebind (attempt (v_Close V f)) (\<lambda>cerr.
                  case (werr, cerr) of
                    (Inl e, _) \<Rightarrow> throw (Wrap1 ''fsdir: creating'' e)
                  | (Inr _, Inl e) \<Rightarrow> throw (Wrap1 ''fsdir: creating'' e)
                  | (Inr _, Inr _) \<Rightarrow> v_Link V tmp n)))))) w2 = (r, w')" by simp
    then show ?thesis
    proof (cases rule: ebindE)
      case (Stop r0)
      from mkdir_files [OF Stop(1)] w2 have w3: "files w' = files w" "dirs w' \<subseteq> dirs w \<union> ancestors (path_Dir n)"
        by auto
      then have "fs_ok dirs w'" using w ancestors_store_file [OF n] by (fastforce simp: fs_ok_def)
      moreover have "\<not> err_is e ErrExist" if "r = Err e" for e
        using mkdir_kind Stop(1) Stop(4) [OF that] by (auto simp: plain_err_def)
      ultimately show ?thesis using fs_tree_upd(3) [OF w3(1)] Stop(3) by simp
    next
      case (Next u w3)
      from mkdir_files [OF Next(1)] w2 have w3: "files w3 = files w" "dirs w3 \<subseteq> dirs w \<union> ancestors (path_Dir n)"
        by auto
      then have ok3: "fs_ok dirs w3" using w ancestors_store_file [OF n] by (fastforce simp: fs_ok_def)
      obtain s w4 where rand: "v_Rand V w3 = (s, w4)" by (cases "v_Rand V w3")
      note r = rand_still [OF rand] rand_fresh [OF rand n]
      let ?tmp = "tmp_name n s"
      have nsf: "\<not> store_file ?tmp" using tmp_not_store_file [OF n] r by simp
      have ok4: "fs_ok dirs w4" using ok3 r by (simp add: fs_ok_def)
      from Next(2) rand have "ebind (v_OpenExcl V ?tmp) (\<lambda>f.
             finally_do (v_Remove V ?tmp)
               (ebind (attempt (fsdir_writeVerified L V f body sz dgst)) (\<lambda>werr.
                ebind (attempt (v_Close V f)) (\<lambda>cerr.
                  case (werr, cerr) of
                    (Inl e, _) \<Rightarrow> throw (Wrap1 ''fsdir: creating'' e)
                  | (Inr _, Inl e) \<Rightarrow> throw (Wrap1 ''fsdir: creating'' e)
                  | (Inr _, Inr _) \<Rightarrow> v_Link V ?tmp n)))) w4 = (r, w')"
        by (simp add: ebind_def [of "random_hex V"] random_hex_def Let_def)
      then show ?thesis
      proof (cases rule: ebindE)
        case (Stop r0)
        from excl_fails [OF Stop(1)] Stop(2) r w3 have w5: "files w' = files w" "dirs w' = dirs w3" by auto
        have "\<not> err_is e ErrExist" if "r = Err e" for e
          using excl_held [of ?tmp w4 e w'] Stop(1,4) that r by auto
        with fs_tree_upd(3) [OF w5(1)] ok3 w5 Stop(3) show ?thesis by (auto simp: fs_ok_def)
      next
        case (Next f w5)
        from excl_Ok [OF Next(1)] r w3 have w5: "files w5 = (files w)(?tmp \<mapsto> [])" "dirs w5 = dirs w3"
          "fname f = ?tmp" by auto
        have "fs_ok dirs w5" using ok3 w5 by (simp add: fs_ok_def)
        from Create_tmp [OF n nsf this _ w5(3) Next(2)] w5 show ?thesis
          using fs_tree_upd(1) [OF nsf w5(1)] by simp
      qed
    qed
  next
    case Stop
    from movesD [OF still_calls(4) Stop(1)] w1 have w': "files w' = files w" "dirs w' = dirs w" by auto
    with w fs_tree_upd(3) [OF w'(1)] Stop(2) show ?thesis by (simp add: fs_ok_def)
  qed
qed

end

sublocale vroot_fs \<subseteq> fsdir: store_backend L "fsdir_NewStore L ctx_Err V" "fs_tree files" "fs_ok dirs"
proof (unfold_locales, goal_cases)
  case (1 n w ro w')
  then show ?case using still_tree(1) [OF still_Open] by (simp add: fsdir_NewStore_def)
next
  case (2 w n ro w')
  then show ?case using still_tree(2) [OF still_Open] by (simp add: fsdir_NewStore_def)
next
  case (3 w n rd w')
  then obtain w1 where "fsdir_openStat V n w1 = (Ok rd, w')" "ctx_Err w = (Ok (), w1)"
    by (auto simp: fsdir_NewStore_def fsdir_Open_def ebind_Ok)
  with openStat_Ok [of n w1 rd w'] ctx_still [of w "Ok ()" w1] 3 show ?case
    by (auto simp: fs_ok_def fs_tree_def)
next
  case (4 w n e w')
  then have "fsdir_Open ctx_Err V n w = (Err e, w')" by (simp add: fsdir_NewStore_def)
  then consider "ctx_Err w = (Err e, w')" | w1 where "ctx_Err w = (Ok (), w1)" "fsdir_openStat V n w1 = (Err e, w')"
    by (auto simp: fsdir_Open_def ebind_Err)
  then show ?case
  proof cases
    case 1
    with ctx_kind 4 show ?thesis by (auto simp: plain_err_def)
  next
    case 2
    with openStat_absent [OF 2(2)] ctx_still [OF 2(1)] 4 show ?thesis by (simp add: fs_tree_def)
  qed
next
  case (5 w n body sz dgst u w')
  then show ?case using Create_outcome [of n w body sz dgst "Ok u" w'] by (simp add: fsdir_NewStore_def)
next
  case (6 w n body sz dgst r w')
  then show ?case using Create_outcome [of n w body sz dgst r w'] by (simp add: fsdir_NewStore_def)
next
  case (7 w n body sz dgst r w')
  then show ?case using Create_outcome [of n w body sz dgst r w'] by (simp add: fsdir_NewStore_def)
next
  case (8 w n body sz dgst e w')
  then show ?case using Create_outcome [of n w body sz dgst "Err e" w'] by (simp add: fsdir_NewStore_def)
next
  case (9 mk n w r w')
  then have "fsdir_MkdirAll ctx_Err V n w = (r, w')" by (simp add: fsdir_NewStore_def)
  then show ?case by (intro fs_tree_upd(3)) (rule MkdirAll_any(1))
next
  case (10 mk w n r w')
  then have "fsdir_MkdirAll ctx_Err V n w = (r, w')" by (simp add: fsdir_NewStore_def)
  then have "dirs w' \<subseteq> dirs w \<union> ancestors n" by (rule MkdirAll_any(2))
  then show ?case using 10(2,3) ancestors_store_dir [of n] by (fastforce simp: fs_ok_def)
next
  case (11 ls n w rl w')
  then have "fsdir_List ctx_Err V n w = (rl, w')" by (simp add: fsdir_NewStore_def)
  moreover have "still (fsdir_List ctx_Err V n)"
    unfolding fsdir_List_def Let_def by (intro keeps_intros) auto
  ultimately show ?case using still_tree(1) by blast
next
  case (12 ls w n rl w')
  then have "fsdir_List ctx_Err V n w = (rl, w')" by (simp add: fsdir_NewStore_def)
  moreover have "still (fsdir_List ctx_Err V n)"
    unfolding fsdir_List_def Let_def by (intro keeps_intros) auto
  ultimately show ?case using still_tree(2) 12 by blast
qed

context vroot_fs
begin

lemma fsdir_backend: "store_backend L (fsdir_NewStore L ctx_Err V) (fs_tree files) (fs_ok dirs)"
  by (rule fsdir.store_backend_axioms)

end

text \<open>A listing never names a temporary file.\<close>

lemma fsdir_walk_names:
  assumes "fsdir_walk ctx root xs w = (Ok ys, w')" "Inr p \<in> set ys"
  shows "\<not> has_prefix (path_Base p) ''.tmp-''" "(p, Inr True) \<in> set xs"
proof -
  have "\<not> has_prefix (path_Base p) ''.tmp-'' \<and> (p, Inr True) \<in> set xs"
    using assms
  proof (induction xs arbitrary: w ys)
    case Nil
    then show ?case by simp
  next
    case (Cons x xs)
    obtain q e where x: "x = (q, e)" by (cases x)
    show ?case
    proof (cases e)
      case (Inl er)
      with Cons x show ?thesis by (fastforce simp: ebind_Ok split: if_splits)
    next
      case (Inr regular)
      have "ebind (attempt ctx) (\<lambda>r. case r of
         Inl e \<Rightarrow> ret [Inl e]
       | Inr _ \<Rightarrow>
           if \<not> regular \<or> has_prefix (path_Base q) ''.tmp-'' then fsdir_walk ctx root xs
           else ebind (fsdir_walk ctx root xs) (\<lambda>ys. ret (Inr q # ys))) w = (Ok ys, w')"
        using Cons.prems(1) unfolding x Inr fsdir_walk.simps .
      then show ?thesis
      proof (cases rule: ebind_attemptE)
        case (Val y w1)
        then show ?thesis
          using Cons.IH Cons.prems(2) x Inr by (cases "\<not> regular \<or> has_prefix (path_Base q) ''.tmp-''")
            (fastforce simp: ebind_Ok)+
      next
        case (Fail e w1)
        with Cons.prems(2) show ?thesis by simp
      qed simp
    qed
  qed
  then show "\<not> has_prefix (path_Base p) ''.tmp-''" "(p, Inr True) \<in> set xs" by auto
qed

end
