(* ===== verification/Demo_Lib.thy ===== *)
theory Demo_Lib
  imports Oci_Types
begin

text \<open>
  A concrete instance of the third-party parameter \<open>oci_lib\<close>, which shows that its laws can hold
  together and gives the witnesses something to run on: digests whose hash is the length of the
  content, a self-delimiting encoding in place of JSON, and a small reference grammar.
\<close>

section \<open>Digests\<close>

definition demo_char :: "char \<Rightarrow> bool" where
  "demo_char c \<longleftrightarrow> List.member ''abcdefghijklmnopqrstuvwxyz0123456789.-'' c"

definition demo_word :: "string \<Rightarrow> bool" where
  "demo_word s \<longleftrightarrow> s \<noteq> [] \<and> hd s \<noteq> CHR ''.'' \<and> list_all demo_char s"

fun digits :: "nat \<Rightarrow> string" where
  "digits n = (if n < 10 then [''0123456789'' ! n] else digits (n div 10) @ [''0123456789'' ! (n mod 10)])"

definition demo_hash :: "bytes \<Rightarrow> string" where
  "demo_hash b = CHR ''h'' # digits (length b)"

definition demo_Validate :: "string \<Rightarrow> gerr option" where
  "demo_Validate d =
     (case cut d '':'' of
        None \<Rightarrow> Some (Msg ''invalid checksum digest format'')
      | Some (a, h) \<Rightarrow>
          if demo_word a \<and> demo_word h then None else Some (Msg ''invalid checksum digest format''))"

lemma demo_char_simps:
  "\<not> demo_char CHR '':''" "\<not> demo_char CHR ''/''" "\<not> demo_char CHR ''@''" "\<not> demo_char CHR ''_''"
  by (simp_all add: demo_char_def)

lemma demo_word_free: "demo_word s \<Longrightarrow> \<not> demo_char c \<Longrightarrow> c \<notin> set s"
  unfolding demo_word_def list_all_iff by blast

lemma demo_word_plain: "demo_word s \<Longrightarrow> plain_seg s" "demo_word s \<Longrightarrow> digest_seg s"
  using demo_word_free [of s "CHR ''/''"] demo_char_simps
  by (auto simp: plain_seg_def digest_seg_def demo_word_def)

lemma digits_chars: "list_all demo_char (digits n)"
proof (induction n rule: digits.induct)
  case (1 n)
  have digit: "demo_char (''0123456789'' ! k)" if "k < 10" for k
    using that by (auto simp: demo_char_def less_Suc_eq numeral_eq_Suc)
  show ?case
  proof (cases "n < 10")
    case True
    then show ?thesis using digit by (subst digits.simps) simp
  next
    case False
    then show ?thesis using 1 digit [of "n mod 10"] by (subst digits.simps) simp
  qed
qed

declare digits.simps [simp del]

lemma demo_hash_word: "demo_word (demo_hash b)"
  using digits_chars by (simp add: demo_word_def demo_hash_def demo_char_def)

lemma demo_sha256_word: "demo_word ''sha256''"
  by (simp add: demo_word_def demo_char_def)

section \<open>Encoding\<close>

type_synonym 'a getter = "bytes \<Rightarrow> ('a \<times> bytes) option"

definition gbind :: "'a getter \<Rightarrow> ('a \<Rightarrow> 'b getter) \<Rightarrow> 'b getter" where
  "gbind g f b = (case g b of None \<Rightarrow> None | Some (x, r) \<Rightarrow> f x r)"

definition gret :: "'a \<Rightarrow> 'a getter" where
  "gret x b = Some (x, b)"

fun put_str :: "string \<Rightarrow> bytes" where
  "put_str [] = ''.''"
| "put_str (c # cs) = CHR ''+'' # c # put_str cs"

fun get_str :: "string getter" where
  "get_str [] = None"
| "get_str [x] = (if x = CHR ''.'' then Some ([], []) else None)"
| "get_str (x # c # r) =
     (if x = CHR ''.'' then Some ([], c # r)
      else case get_str r of None \<Rightarrow> None | Some (s, r') \<Rightarrow> Some (c # s, r'))"

lemma get_put_str [simp]: "get_str (put_str x @ r) = Some (x, r)"
  by (induction x) (cases r, simp_all)

fun put_nat :: "nat \<Rightarrow> bytes" where
  "put_nat 0 = ''.''"
| "put_nat (Suc n) = CHR ''1'' # put_nat n"

fun get_nat :: "nat getter" where
  "get_nat [] = None"
| "get_nat (x # r) =
     (if x = CHR ''.'' then Some (0, r)
      else case get_nat r of None \<Rightarrow> None | Some (n, r') \<Rightarrow> Some (Suc n, r'))"

lemma get_put_nat [simp]: "get_nat (put_nat n @ r) = Some (n, r)"
  by (induction n) simp_all

definition put_int :: "int \<Rightarrow> bytes" where
  "put_int i = put_nat (nat i) @ put_nat (nat (- i))"

definition get_int :: "int getter" where
  "get_int = gbind get_nat (\<lambda>a. gbind get_nat (\<lambda>b. gret (int a - int b)))"

lemma get_put_int [simp]: "get_int (put_int i @ r) = Some (i, r)"
  by (simp add: put_int_def get_int_def gbind_def gret_def)

fun put_list :: "('a \<Rightarrow> bytes) \<Rightarrow> 'a list \<Rightarrow> bytes" where
  "put_list p [] = []"
| "put_list p (x # xs) = p x @ put_list p xs"

fun get_list :: "'a getter \<Rightarrow> nat \<Rightarrow> 'a list getter" where
  "get_list g 0 = gret []"
| "get_list g (Suc n) = gbind g (\<lambda>x. gbind (get_list g n) (\<lambda>xs. gret (x # xs)))"

lemma get_put_list:
  assumes "\<And>x r. x \<in> set xs \<Longrightarrow> g (p x @ r) = Some (x, r)"
  shows "get_list g (length xs) (put_list p xs @ r) = Some (xs, r)"
  using assms by (induction xs) (simp_all add: gret_def gbind_def)

definition put_platform :: "platform \<Rightarrow> bytes" where
  "put_platform p = put_str (OS p) @ put_str (Architecture p) @ put_str (Variant p)"

definition get_platform :: "platform getter" where
  "get_platform = gbind get_str (\<lambda>a. gbind get_str (\<lambda>b. gbind get_str (\<lambda>c.
     gret \<lparr>OS = a, Architecture = b, Variant = c\<rparr>)))"

lemma get_put_platform [simp]: "get_platform (put_platform p @ r) = Some (p, r)"
  by (simp add: put_platform_def get_platform_def gret_def gbind_def)

text \<open>Annotations are encoded when they are empty or hold the reference name only.\<close>

definition short_annotations :: "string option \<Rightarrow> (string, string) fmap" where
  "short_annotations o' =
     (case o' of None \<Rightarrow> fmempty | Some t \<Rightarrow> fmupd AnnotationRefName t fmempty)"

definition put_opt :: "('a \<Rightarrow> bytes) \<Rightarrow> 'a option \<Rightarrow> bytes" where
  "put_opt p x = (case x of None \<Rightarrow> ''0'' | Some y \<Rightarrow> CHR ''1'' # p y)"

definition get_opt :: "'a getter \<Rightarrow> 'a option getter" where
  "get_opt g b =
     (case b of [] \<Rightarrow> None
      | x # r \<Rightarrow> if x = CHR ''0'' then Some (None, r) else gbind g (\<lambda>y. gret (Some y)) r)"

lemma get_put_opt:
  assumes "\<And>y r. g (p y @ r) = Some (y, r)"
  shows "get_opt g (put_opt p x @ r) = Some (x, r)"
  by (cases x) (simp_all add: put_opt_def get_opt_def gbind_def gret_def assms)

lemmas get_put_opts [simp] =
  get_put_opt [of get_str put_str, OF get_put_str]
  get_put_opt [of get_platform put_platform, OF get_put_platform]

definition short :: "descriptor \<Rightarrow> bool" where
  "short d \<longleftrightarrow> d_Annotations d = short_annotations (fmlookup (d_Annotations d) AnnotationRefName)"

definition put_descriptor :: "descriptor \<Rightarrow> bytes" where
  "put_descriptor d =
     put_str (d_MediaType d) @ put_str (d_Digest d) @ put_int (d_Size d) @
     put_opt put_str (fmlookup (d_Annotations d) AnnotationRefName) @
     put_opt put_platform (d_Platform d)"

definition get_descriptor :: "descriptor getter" where
  "get_descriptor =
     gbind get_str (\<lambda>mt. gbind get_str (\<lambda>dg. gbind get_int (\<lambda>sz.
     gbind (get_opt get_str) (\<lambda>a. gbind (get_opt get_platform) (\<lambda>p.
       gret \<lparr>d_MediaType = mt, d_Digest = dg, d_Size = sz,
             d_Annotations = short_annotations a, d_Platform = p\<rparr>)))))"

lemma get_put_descriptor: "short d \<Longrightarrow> get_descriptor (put_descriptor d @ r) = Some (d, r)"
  by (simp add: put_descriptor_def get_descriptor_def gret_def gbind_def short_def [symmetric])
    (simp add: short_def)

lemma get_put_descriptors:
  "list_all short ds \<Longrightarrow> get_list get_descriptor (length ds) (put_list put_descriptor ds @ r) = Some (ds, r)"
  by (rule get_put_list) (simp add: get_put_descriptor list_all_iff)

definition whole :: "'a getter \<Rightarrow> bytes \<Rightarrow> gerr + 'a" where
  "whole g b = (case g b of Some (x, []) \<Rightarrow> Inr x | _ \<Rightarrow> Inl (Msg ''unexpected end of JSON input''))"

lemma whole_back: "g (b @ []) = Some (x, []) \<Longrightarrow> whole g b = Inr x"
  by (simp add: whole_def)

definition put_index :: "image_index \<Rightarrow> bytes" where
  "put_index ix = put_nat (length (i_Manifests ix)) @ put_list put_descriptor (i_Manifests ix)"

definition get_index :: "image_index getter" where
  "get_index = gbind get_nat (\<lambda>n. gbind (get_list get_descriptor n) (\<lambda>ds. gret \<lparr>i_Manifests = ds\<rparr>))"

definition put_manifest :: "manifest \<Rightarrow> bytes" where
  "put_manifest m =
     put_str (m_MediaType m) @ put_descriptor (m_Config m) @
     put_nat (length (m_Layers m)) @ put_list put_descriptor (m_Layers m)"

definition get_manifest :: "manifest getter" where
  "get_manifest =
     gbind get_str (\<lambda>mt. gbind get_descriptor (\<lambda>c. gbind get_nat (\<lambda>n.
     gbind (get_list get_descriptor n) (\<lambda>ds.
       gret \<lparr>m_MediaType = mt, m_Config = c, m_Layers = ds\<rparr>))))"

definition put_config :: "image_config \<Rightarrow> bytes" where
  "put_config c =
     put_platform (c_Platform c) @ put_nat (length (c_DiffIDs c)) @ put_list put_str (c_DiffIDs c) @
     put_opt put_str (c_Created c)"

definition get_config :: "image_config getter" where
  "get_config =
     gbind get_platform (\<lambda>p. gbind get_nat (\<lambda>n. gbind (get_list get_str n) (\<lambda>ds.
     gbind (get_opt get_str) (\<lambda>cr. gret \<lparr>c_Platform = p, c_DiffIDs = ds, c_Created = cr\<rparr>))))"

lemma index_back:
  assumes "list_all short (i_Manifests ix)" shows "whole get_index (put_index ix) = Inr ix"
proof (rule whole_back)
  have "get_index (put_index ix @ r) = Some (ix, r)" for r
    using get_put_descriptors [OF assms] by (simp add: put_index_def get_index_def gret_def gbind_def)
  then show "get_index (put_index ix @ []) = Some (ix, [])" .
qed

lemma manifest_back:
  assumes "short (m_Config m)" "list_all short (m_Layers m)"
  shows "whole get_manifest (put_manifest m) = Inr m"
proof (rule whole_back)
  have "get_manifest (put_manifest m @ r) = Some (m, r)" for r
    using get_put_descriptors [OF assms(2)] get_put_descriptor [OF assms(1)]
    by (simp add: put_manifest_def get_manifest_def gret_def gbind_def)
  then show "get_manifest (put_manifest m @ []) = Some (m, [])" .
qed

lemma config_back: "whole get_config (put_config c) = Inr c"
proof (rule whole_back)
  have "get_config (put_config c @ r) = Some (c, r)" for r
    using get_put_list [of "c_DiffIDs c" get_str put_str]
    by (simp add: put_config_def get_config_def gret_def gbind_def)
  then show "get_config (put_config c @ []) = Some (c, [])" .
qed

section \<open>References\<close>

definition demo_named :: "string \<Rightarrow> string option \<Rightarrow> string option \<Rightarrow> gerr + named_ref" where
  "demo_named name tag dgst =
     (if list_all demo_word (split_on CHR ''/'' name) \<and>
         (case tag of None \<Rightarrow> True | Some t \<Rightarrow> demo_word t) \<and>
         (case dgst of None \<Rightarrow> True | Some d \<Rightarrow> demo_Validate d = None)
      then Inr \<lparr>n_Name = name, n_Tag = tag, n_Digest = dgst\<rparr>
      else Inl (Msg ''invalid reference format''))"

definition demo_parse :: "string \<Rightarrow> gerr + named_ref" where
  "demo_parse s =
     (let (rest, dgst) = (case cut s ''@'' of None \<Rightarrow> (s, None) | Some (a, d) \<Rightarrow> (a, Some d));
          (name, tag) = (case cut rest '':'' of None \<Rightarrow> (rest, None) | Some (a, t) \<Rightarrow> (a, Some t))
      in demo_named name tag dgst)"

section \<open>The instance\<close>

definition demo_lib :: oci_lib where
  "demo_lib =
     \<lparr>digest_Algorithm = (\<lambda>d. map_option fst (cut d '':'')),
      digest_Encoded = (\<lambda>d. map_option snd (cut d '':'')),
      digest_Validate = demo_Validate,
      digest_NewFromEncoded = (\<lambda>a h. a @ '':'' @ h),
      digest_FromBytes = (\<lambda>b. ''sha256:'' @ demo_hash b),
      digest_Digester = (\<lambda>a b. a @ '':'' @ demo_hash b),
      json_Manifest = whole get_manifest,
      json_Index = whole get_index,
      json_Image = whole get_config,
      json_Layout = (\<lambda>b. Inr \<lparr>l_Version = b\<rparr>),
      json_MediaType = (\<lambda>b. case whole get_manifest b of Inl e \<Rightarrow> Inl e | Inr m \<Rightarrow> Inr (m_MediaType m)),
      marshal_Index = (\<lambda>ix. if list_all short (i_Manifests ix) then Inr (put_index ix)
                            else Inl (Msg ''unsupported annotations'')),
      marshal_Layout = l_Version,
      marshal_Manifest = (\<lambda>m. if short (m_Config m) \<and> list_all short (m_Layers m)
                              then Inr (put_manifest m) else Inl (Msg ''unsupported annotations'')),
      ParseNormalizedNamed = demo_parse\<rparr>"

lemma demo_valid: "valid_digest demo_lib d \<longleftrightarrow>
    (\<exists>a h. d = a @ CHR '':'' # h \<and> CHR '':'' \<notin> set a \<and> demo_word a \<and> demo_word h)"
proof
  assume "valid_digest demo_lib d"
  then obtain a h where "cut d '':'' = Some (a, h)" "demo_word a" "demo_word h"
    by (auto simp: valid_digest_def demo_lib_def demo_Validate_def split: option.splits if_splits)
  then show "\<exists>a h. d = a @ CHR '':'' # h \<and> CHR '':'' \<notin> set a \<and> demo_word a \<and> demo_word h"
    by (auto simp: cut_char_Some)
next
  assume "\<exists>a h. d = a @ CHR '':'' # h \<and> CHR '':'' \<notin> set a \<and> demo_word a \<and> demo_word h"
  then show "valid_digest demo_lib d"
    by (auto simp: valid_digest_def demo_lib_def demo_Validate_def cut_char)
qed

lemma demo_digest_laws: "digest_laws demo_lib"
proof -
  have parts: "\<exists>a h. digest_Algorithm demo_lib d = Some a \<and> digest_Encoded demo_lib d = Some h \<and>
      digest_seg a \<and> digest_seg h \<and> digest_NewFromEncoded demo_lib a h = d"
    if "digest_Validate demo_lib d = None" for d
  proof -
    from that obtain a h where "d = a @ CHR '':'' # h" "CHR '':'' \<notin> set a" "demo_word a" "demo_word h"
      using demo_valid [of d] by (auto simp: valid_digest_def)
    then show ?thesis by (simp add: demo_lib_def cut_char demo_word_plain)
  qed
  have "cut (''sha256:'' @ demo_hash b) '':'' = Some (''sha256'', demo_hash b)" for b
    using cut_char [of "CHR '':''" "''sha256''" "demo_hash b"] by simp
  then have "digest_Validate demo_lib (digest_FromBytes demo_lib b) = None" for b
    using demo_hash_word demo_sha256_word by (simp add: demo_lib_def demo_Validate_def)
  moreover have "\<not> err_is e ErrNotExist \<and> \<not> err_is e ErrExist" if "digest_Validate demo_lib d = Some e" for d e
    using that by (auto simp: demo_lib_def demo_Validate_def split: option.splits prod.splits if_splits)
  moreover have "digest_Validate demo_lib [] \<noteq> None"
    by (simp add: demo_lib_def demo_Validate_def)
  ultimately show ?thesis
    unfolding digest_laws_def using parts by (simp add: demo_lib_def)
qed

lemma demo_canonical_laws: "canonical_laws demo_lib"
proof -
  have "cut (''sha256:'' @ demo_hash b) '':'' = Some (''sha256'', demo_hash b)" for b
    using cut_char [of "CHR '':''" "''sha256''" "demo_hash b"] by simp
  then show ?thesis by (simp add: canonical_laws_def demo_lib_def)
qed

lemma whole_error: "whole g b = Inl e \<Longrightarrow> e = Msg ''unexpected end of JSON input''"
  by (auto simp: whole_def split: option.splits prod.splits list.splits)

lemma demo_json_laws: "json_laws demo_lib"
  unfolding json_laws_def
  by (auto simp: demo_lib_def index_back manifest_back split: if_splits dest: whole_error)

lemma join_on_set: "set (join_on c xs) \<subseteq> insert c (\<Union> (set ` set xs))"
  by (induction c xs rule: join_on.induct) auto

lemma demo_name_free:
  assumes "list_all demo_word (split_on CHR ''/'' x)" "\<not> demo_char c" "c \<noteq> CHR ''/''"
  shows "c \<notin> set x"
proof
  assume "c \<in> set x"
  moreover have "set x \<subseteq> insert CHR ''/'' (\<Union> (set ` set (split_on CHR ''/'' x)))"
    using join_on_set [of "CHR ''/''" "split_on CHR ''/'' x"] by simp
  ultimately obtain y where "y \<in> set (split_on CHR ''/'' x)" "c \<in> set y" using assms(3) by auto
  with assms(1,2) demo_word_free show False unfolding list_all_iff by blast
qed

lemma demo_parse_String:
  assumes "demo_named (n_Name n) (n_Tag n) (n_Digest n) = Inr n"
  shows "demo_parse (named_String n) = Inr n"
proof -
  let ?tag = "case n_Tag n of Some t \<Rightarrow> '':'' @ t | None \<Rightarrow> []"
  from assms have name: "list_all demo_word (split_on CHR ''/'' (n_Name n))"
    and tag: "\<And>t. n_Tag n = Some t \<Longrightarrow> demo_word t"
    by (auto simp: demo_named_def split: if_splits)
  have free: "CHR ''@'' \<notin> set (n_Name n)" "CHR '':'' \<notin> set (n_Name n)"
    using demo_name_free [OF name] demo_char_simps by auto
  have "CHR ''@'' \<notin> set ?tag"
    using tag demo_word_free [of _ "CHR ''@''"] demo_char_simps by (auto split: option.splits)
  with free have at: "CHR ''@'' \<notin> set (n_Name n @ ?tag)" by simp
  have rest: "(case cut (named_String n) ''@'' of None \<Rightarrow> (named_String n, None) | Some (a, d) \<Rightarrow> (a, Some d))
      = (n_Name n @ ?tag, n_Digest n)"
  proof (cases "n_Digest n")
    case None
    with at have "cut (named_String n) ''@'' = None" by (simp add: named_String_def cut_char_None)
    with None show ?thesis by (simp add: named_String_def)
  next
    case (Some d)
    then have "named_String n = (n_Name n @ ?tag) @ CHR ''@'' # d" by (simp add: named_String_def)
    with cut_char [OF at, of d] Some show ?thesis by simp
  qed
  have name_tag: "(case cut (n_Name n @ ?tag) '':'' of None \<Rightarrow> (n_Name n @ ?tag, None)
      | Some (a, t) \<Rightarrow> (a, Some t)) = (n_Name n, n_Tag n)"
  proof (cases "n_Tag n")
    case None
    with free have "cut (n_Name n @ ?tag) '':'' = None" by (simp add: cut_char_None)
    with None show ?thesis by simp
  next
    case (Some t)
    with cut_char [OF free(2), of t] show ?thesis by simp
  qed
  show ?thesis
    unfolding demo_parse_def Let_def rest prod.case name_tag by (rule assms)
qed

lemma demo_parse_Inr:
  assumes "demo_parse s = Inr n"
  shows "demo_named (n_Name n) (n_Tag n) (n_Digest n) = Inr n"
  using assms by (auto simp: demo_parse_def demo_named_def Let_def split: if_splits prod.splits)

lemma demo_reference_laws: "reference_laws demo_lib"
  unfolding reference_laws_def
proof (intro allI impI conjI)
  fix s n assume "ParseNormalizedNamed demo_lib s = Inr n"
  then have n: "demo_named (n_Name n) (n_Tag n) (n_Digest n) = Inr n"
    by (intro demo_parse_Inr) (simp add: demo_lib_def)
  then have parts: "list_all demo_word (split_on CHR ''/'' (n_Name n))"
    "\<And>t. n_Tag n = Some t \<Longrightarrow> demo_word t" "\<And>d. n_Digest n = Some d \<Longrightarrow> demo_Validate d = None"
    by (auto simp: demo_named_def split: if_splits)
  have marker: "\<not> demo_word ''_tag''" "\<not> demo_word ''_digest''"
    by (simp_all add: demo_word_def demo_char_def)
  show "wf_named demo_lib n"
    using parts demo_word_plain marker
    unfolding wf_named_def list_all_iff by (auto simp: valid_digest_def demo_lib_def)
  show "ParseNormalizedNamed demo_lib (named_String n) = Inr n"
    using demo_parse_String [OF n] by (simp add: demo_lib_def)
  assume none: "n_Tag n = None \<and> n_Digest n = None"
  let ?n = "n\<lparr>n_Tag := Some ''latest''\<rparr>"
  have "demo_word ''latest''" by (simp add: demo_word_def demo_char_def)
  with parts none have "demo_named (n_Name ?n) (n_Tag ?n) (n_Digest ?n) = Inr ?n"
    by (simp add: demo_named_def)
  from demo_parse_String [OF this] none
  show "ParseNormalizedNamed demo_lib (n_Name n @ '':latest'') = Inr ?n"
    by (simp add: demo_lib_def named_String_def)
qed

end
