(* ===== verification/Os_Fs.thy ===== *)
theory Os_Fs
  imports Fsdir_Backend Demo_Lib
begin

text \<open>
  A POSIX file system as a \<open>vroot.Fs\<close>: files and directories by path, parents that must exist,
  files in the way, \<open>O_EXCL\<close> and \<open>link\<close> that fail on an existing name, and an I/O error at any call
  the schedule \<open>o_faults\<close> picks. It interprets the contract of package fsdir, so everything proved
  of package store holds of \<open>*fsdir.Store\<close> on it, faults included.
\<close>

record os =
  o_files :: "(string \<times> bytes) list"
  o_dirs :: "string list"
  o_faults :: "nat \<Rightarrow> bool"
  o_clock :: nat

record os_handle =
  h_name :: string
  h_bytes :: bytes
  h_dir :: bool

definition os_files :: "os \<Rightarrow> string \<rightharpoonup> bytes" where
  "os_files w = map_of (o_files w)"

definition os_dirs :: "os \<Rightarrow> string set" where
  "os_dirs w = set (o_dirs w)"

definition os_empty :: os where
  "os_empty = \<lparr>o_files = [], o_dirs = [], o_faults = (\<lambda>_. False), o_clock = 0\<rparr>"

text \<open>Every call takes a tick, and fails on a tick of the schedule.\<close>

definition os_call :: "(os, 'a) io \<Rightarrow> (os, 'a) io" where
  "os_call m w =
     (let w' = w\<lparr>o_clock := Suc (o_clock w)\<rparr> in
      if o_faults w (o_clock w) then (Err (Msg ''input/output error''), w') else m w')"

text \<open>The proper ancestors of a path, and the path with them.\<close>

definition parents :: "string \<Rightarrow> string list" where
  "parents n = (let xs = split_on CHR ''/'' n in map (\<lambda>k. seg_path (take k xs)) [1..<length xs])"

definition under_file :: "os \<Rightarrow> string \<Rightarrow> bool" where
  "under_file w n \<longleftrightarrow> list_ex (\<lambda>d. os_files w d \<noteq> None) (parents n)"

definition has_parent :: "os \<Rightarrow> string \<Rightarrow> bool" where
  "has_parent w n \<longleftrightarrow> list_all (\<lambda>d. List.member (o_dirs w) d) (parents n)"

definition os_lookup :: "os \<Rightarrow> string \<Rightarrow> (os, os_handle) io" where
  "os_lookup w n =
     (if List.member (o_dirs w) n then ret \<lparr>h_name = n, h_bytes = '' '', h_dir = True\<rparr>
      else if under_file w n then throw (Msg ''not a directory'')
      else case os_files w n of
             None \<Rightarrow> throw (Sentinel ErrNotExist)
           | Some c \<Rightarrow> ret \<lparr>h_name = n, h_bytes = c, h_dir = False\<rparr>)"

definition os_Open :: "string \<Rightarrow> (os, os_handle) io" where
  "os_Open n = os_call (\<lambda>w. os_lookup w n w)"

definition os_Content :: "os_handle \<Rightarrow> bytes \<times> (nat \<times> gerr) option" where
  "os_Content f = (h_bytes f, if h_dir f then Some (0, Msg ''is a directory'') else None)"

definition os_Stat :: "os_handle \<Rightarrow> (os, int) io" where
  "os_Stat f = os_call (ret (int (length (h_bytes f))))"

definition os_Lstat :: "string \<Rightarrow> (os, unit) io" where
  "os_Lstat n = os_call (\<lambda>w. ebind (os_lookup w n) (\<lambda>_. ret ()) w)"

definition os_MkdirAll :: "string \<Rightarrow> (os, unit) io" where
  "os_MkdirAll n = os_call (\<lambda>w.
     if under_file w n \<or> os_files w n \<noteq> None then throw (Msg ''not a directory'') w
     else (Ok (), w\<lparr>o_dirs := n # parents n @ o_dirs w\<rparr>))"

text \<open>A name longer than every name in use: what eight random bytes are meant to give.\<close>

definition os_Rand :: "os \<Rightarrow> string \<times> os" where
  "os_Rand w =
     (replicate (Suc (sum_list (map (length \<circ> fst) (o_files w)) + sum_list (map length (o_dirs w)))) CHR ''f'',
      w)"

definition os_OpenExcl :: "string \<Rightarrow> (os, os_handle) io" where
  "os_OpenExcl n = os_call (\<lambda>w.
     if os_files w n \<noteq> None \<or> List.member (o_dirs w) n then throw (Sentinel ErrExist) w
     else if \<not> has_parent w n then throw (Sentinel ErrNotExist) w
     else (Ok \<lparr>h_name = n, h_bytes = [], h_dir = False\<rparr>, w\<lparr>o_files := (n, []) # o_files w\<rparr>))"

definition os_Write :: "os_handle \<Rightarrow> bytes \<Rightarrow> (os, unit) io" where
  "os_Write f b = os_call (\<lambda>w.
     case os_files w (h_name f) of
       None \<Rightarrow> throw (Msg ''bad file descriptor'') w
     | Some c \<Rightarrow> (Ok (), w\<lparr>o_files := (h_name f, c @ b) # o_files w\<rparr>))"

definition os_Link :: "string \<Rightarrow> string \<Rightarrow> (os, unit) io" where
  "os_Link a b = os_call (\<lambda>w.
     case os_files w a of
       None \<Rightarrow> throw (Sentinel ErrNotExist) w
     | Some c \<Rightarrow>
         if os_files w b \<noteq> None \<or> List.member (o_dirs w) b then throw (Sentinel ErrExist) w
         else if \<not> has_parent w b then throw (Sentinel ErrNotExist) w
         else (Ok (), w\<lparr>o_files := (b, c) # o_files w\<rparr>))"

definition os_Remove :: "string \<Rightarrow> (os, unit) io" where
  "os_Remove n = os_call (\<lambda>w.
     if os_files w n = None then throw (Sentinel ErrNotExist) w
     else (Ok (), w\<lparr>o_files := filter (\<lambda>(m, c). m \<noteq> n) (o_files w)\<rparr>))"

definition os_Walk :: "string \<Rightarrow> (os, (string \<times> (gerr + bool)) list) io" where
  "os_Walk root = os_call (\<lambda>w.
     ret (map (\<lambda>n. (n, Inr True)) (remdups (filter (\<lambda>n. has_prefix n (root @ ''/'')) (map fst (o_files w))))) w)"

definition os_vfs :: "(os, os_handle) vfs" where
  "os_vfs =
     \<lparr>v_Open = os_Open, v_Stat = os_Stat, v_Content = os_Content, v_Lstat = os_Lstat,
      v_MkdirAll = os_MkdirAll, v_Rand = os_Rand, v_OpenExcl = os_OpenExcl, v_Write = os_Write,
      v_Close = (\<lambda>f. ret ()), v_Link = os_Link, v_Remove = os_Remove, v_Walk = os_Walk\<rparr>"

definition os_ctx_Err :: "(os, unit) io" where
  "os_ctx_Err w =
     (if o_faults w (o_clock w) then (Err (Sentinel Canceled), w) else (Ok (), w))"

lemma os_call_cases:
  assumes "os_call m w = (r, w')"
  obtains (Fault) "r = Err (Msg ''input/output error'')" "w' = w\<lparr>o_clock := Suc (o_clock w)\<rparr>"
  | (Run) "m (w\<lparr>o_clock := Suc (o_clock w)\<rparr>) = (r, w')" "\<not> o_faults w (o_clock w)"
proof (cases "o_faults w (o_clock w)")
  case True
  with assms Fault show ?thesis by (simp add: os_call_def Let_def)
next
  case False
  with assms Run show ?thesis by (simp add: os_call_def Let_def)
qed

lemma os_clock [simp]:
  "os_files (w\<lparr>o_clock := k\<rparr>) = os_files w" "os_dirs (w\<lparr>o_clock := k\<rparr>) = os_dirs w"
  by (simp_all add: os_files_def os_dirs_def)

lemma os_dirs_member [simp]: "List.member (o_dirs w) n \<longleftrightarrow> n \<in> os_dirs w"
  by (simp add: os_dirs_def)

lemma os_dirs_set: "n \<in> set (o_dirs w) \<longleftrightarrow> n \<in> os_dirs w"
  by (simp add: os_dirs_def)

lemma os_files_upd [simp]:
  "os_files (w\<lparr>o_files := (n, c) # o_files v\<rparr>) = (os_files v)(n \<mapsto> c)"
  "os_files (w\<lparr>o_files := filter (\<lambda>(m, c). m \<noteq> n) (o_files v)\<rparr>) = (os_files v)(n := None)"
  "os_dirs (w\<lparr>o_files := fs\<rparr>) = os_dirs w"
  "os_files (w\<lparr>o_dirs := ds\<rparr>) = os_files w"
  "os_dirs (w\<lparr>o_dirs := ds\<rparr>) = set ds"
proof -
  have "map_of (filter (\<lambda>(m, c). m \<noteq> n) fs) = (map_of fs)(n := None)" for fs :: "(string \<times> bytes) list"
    by (induction fs) (auto simp: fun_eq_iff)
  then show "os_files (w\<lparr>o_files := filter (\<lambda>(m, c). m \<noteq> n) (o_files v)\<rparr>) = (os_files v)(n := None)"
    by (simp add: os_files_def)
qed (simp_all add: os_files_def os_dirs_def fun_eq_iff)

lemma parents_ancestors: "set (n # parents n) \<subseteq> ancestors n"
proof -
  let ?xs = "split_on CHR ''/'' n"
  have "n = seg_path ?xs \<and> ?xs = ?xs @ [] \<and> ?xs \<noteq> []" by simp
  then have "n \<in> ancestors n" unfolding ancestors_def by blast
  moreover have "seg_path (take k ?xs) \<in> ancestors n" if "1 \<le> k" for k
  proof -
    have "?xs = take k ?xs @ drop k ?xs \<and> take k ?xs \<noteq> []" using that by simp
    then show ?thesis unfolding ancestors_def by blast
  qed
  ultimately show ?thesis by (auto simp: parents_def Let_def)
qed

lemma parents_ancestor: "m = n \<or> m \<in> set (parents n) \<Longrightarrow> m \<in> ancestors n"
  using parents_ancestors by auto

lemma os_Rand_fresh:
  assumes "os_Rand w = (s, w')" "length s \<le> length m"
  shows "os_files w m = None" "m \<notin> os_dirs w"
proof -
  have len: "sum_list (map (length \<circ> fst) (o_files w)) + sum_list (map length (o_dirs w)) < length m"
    using assms by (auto simp: os_Rand_def)
  have "length n \<le> sum_list (map (length \<circ> fst) (o_files w))" if "n \<in> fst ` set (o_files w)" for n
    using that member_le_sum_list [of "length n" "map (length \<circ> fst) (o_files w)"] by force
  then have "m \<notin> fst ` set (o_files w)" using len by fastforce
  then show "os_files w m = None" by (simp add: os_files_def map_of_eq_None_iff)
  have "length n \<le> sum_list (map length (o_dirs w))" if "n \<in> set (o_dirs w)" for n
    using that member_le_sum_list [of "length n" "map length (o_dirs w)"] by force
  then show "m \<notin> os_dirs w" using len by (fastforce simp: os_dirs_def)
qed

lemma tmp_name_length:
  assumes "store_file n" "CHR ''/'' \<notin> set s"
  shows "length s \<le> length (tmp_name n s)"
proof -
  obtain xs x where x: "tmp_name n s = seg_path (xs @ [''.tmp-'' @ x @ ''-'' @ s])"
    by (rule tmp_name_segs [OF assms])
  show ?thesis unfolding x by (cases "xs = []") (simp_all add: join_on_append)
qed

lemmas os_ops = os_vfs_def os_Content_def os_ctx_Err_def os_Open_def os_Stat_def os_Lstat_def os_lookup_def
  os_MkdirAll_def os_OpenExcl_def os_Write_def os_Link_def os_Remove_def os_Walk_def
  throw_def ret_def ebind_def plain_err_def

lemma upd_same: "m n = Some c0 \<Longrightarrow> \<exists>c. m = m(n \<mapsto> c)"
  by (metis map_upd_triv)

interpretation os_fs: vroot_fs demo_lib os_ctx_Err os_vfs os_files os_dirs h_name
proof
  show "digest_laws demo_lib" by (rule demo_digest_laws)
next
  fix w w' :: os and s n
  assume "v_Rand os_vfs w = (s, w')" "store_file n"
  then have s: "os_Rand w = (s, w')" "CHR ''/'' \<notin> set s" by (auto simp: os_vfs_def os_Rand_def)
  from os_Rand_fresh [OF s(1) tmp_name_length [OF \<open>store_file n\<close> s(2)]]
  show "os_files w (tmp_name n s) = None \<and> tmp_name n s \<notin> os_dirs w" by simp
next
  fix w w' :: os and r n
  assume "v_MkdirAll os_vfs n w = (r, w')"
  then show "os_files w' = os_files w \<and> os_dirs w' \<subseteq> os_dirs w \<union> ancestors n"
    by (auto simp: os_ops os_dirs_def parents_ancestor elim!: os_call_cases split: if_splits)
next
  fix f k e assume "snd (v_Content os_vfs f) = Some (k, e)"
  then show "plain_err e" by (auto simp: os_ops split: if_splits)
qed (auto simp: os_ops os_Rand_def os_dirs_set intro: upd_same elim!: os_call_cases split: if_splits option.splits prod.splits)

end
