(* ===== verification/Fsdir_Reliable.thy ===== *)
theory Fsdir_Reliable
  imports Os_Fs
begin

text \<open>
  A file system whose calls succeed when nothing stands in their way: what \<open>*fsdir.Store\<close> then
  adds to its contract, and the interpretation on the POSIX model without faults.
\<close>

locale reliable_vfs = vroot_fs +
  fixes good :: "'a \<Rightarrow> bool"
    and ready :: "'a \<Rightarrow> string \<Rightarrow> bool"
  assumes ctx_up: "good w \<Longrightarrow> \<exists>w'. ctx_Err w = (Ok (), w') \<and> good w'"
    and open_good: "good w \<Longrightarrow> v_Open V n w = (ro, w') \<Longrightarrow> good w'"
    and open_present: "good w \<Longrightarrow> fs_ok dirs w \<Longrightarrow> store_file n \<Longrightarrow> files w n \<noteq> None \<Longrightarrow>
        \<exists>f w'. v_Open V n w = (Ok f, w') \<and> snd (v_Content V f) = None"
    and open_missing: "good w \<Longrightarrow> fs_ok dirs w \<Longrightarrow> store_file n \<Longrightarrow> files w n = None \<Longrightarrow>
        \<exists>e w'. v_Open V n w = (Err e, w') \<and> err_is e ErrNotExist"
    and stat_up: "good w \<Longrightarrow> \<exists>sz w'. v_Stat V f w = (Ok sz, w') \<and> good w'"
    and lstat_good: "good w \<Longrightarrow> v_Lstat V n w = (r, w') \<Longrightarrow> good w'"
    and lstat_present: "good w \<Longrightarrow> fs_ok dirs w \<Longrightarrow> store_file n \<Longrightarrow> files w n \<noteq> None \<Longrightarrow>
        \<exists>w'. v_Lstat V n w = (Ok (), w')"
    and lstat_missing: "good w \<Longrightarrow> fs_ok dirs w \<Longrightarrow> store_file n \<Longrightarrow> files w n = None \<Longrightarrow>
        \<exists>e w'. v_Lstat V n w = (Err e, w')"
    and mkdir_up: "good w \<Longrightarrow> fs_ok dirs w \<Longrightarrow> store_dir n \<or> (\<exists>m. store_file m \<and> n = path_Dir m) \<Longrightarrow>
        \<exists>w'. v_MkdirAll V n w = (Ok (), w') \<and> good w' \<and> ready w' n"
    and rand_good: "good w \<Longrightarrow> v_Rand V w = (s, w') \<Longrightarrow> good w' \<and> (\<forall>d. ready w d \<longrightarrow> ready w' d)"
    and excl_up: "good w \<Longrightarrow> store_file n \<Longrightarrow> CHR ''/'' \<notin> set s \<Longrightarrow> ready w (path_Dir n) \<Longrightarrow>
        files w (tmp_name n s) = None \<Longrightarrow> tmp_name n s \<notin> dirs w \<Longrightarrow>
        \<exists>f w'. v_OpenExcl V (tmp_name n s) w = (Ok f, w') \<and> good w' \<and> ready w' (path_Dir n)"
    and write_up: "good w \<Longrightarrow> files w (fname f) \<noteq> None \<Longrightarrow>
        \<exists>w'. v_Write V f b w = (Ok (), w') \<and> good w' \<and> (\<forall>d. ready w d \<longrightarrow> ready w' d)"
    and close_up: "good w \<Longrightarrow> \<exists>w'. v_Close V f w = (Ok (), w') \<and> good w' \<and> (\<forall>d. ready w d \<longrightarrow> ready w' d)"
    and link_up: "good w \<Longrightarrow> fs_ok dirs w \<Longrightarrow> store_file n \<Longrightarrow> files w a \<noteq> None \<Longrightarrow> files w n = None \<Longrightarrow>
        ready w (path_Dir n) \<Longrightarrow> \<exists>w'. v_Link V a n w = (Ok (), w') \<and> good w'"
    and remove_good: "good w \<Longrightarrow> v_Remove V n w = (r, w') \<Longrightarrow> good w'"
    and walk_good: "good w \<Longrightarrow> v_Walk V n w = (rk, w') \<Longrightarrow> good w'"
begin

lemma keeps_good [keeps_intros]:
  "keeps good ctx_Err" "keeps good (v_Open V n)" "keeps good (v_Stat V f)" "keeps good (v_Close V f)"
  "keeps good (v_Walk V n)"
proof -
  show "keeps good ctx_Err" by (rule movesI) (metis ctx_up Pair_inject)
  show "keeps good (v_Open V n)" by (rule movesI) (metis open_good)
  show "keeps good (v_Stat V f)" by (rule movesI) (metis stat_up Pair_inject)
  show "keeps good (v_Close V f)" by (rule movesI) (metis close_up Pair_inject)
  show "keeps good (v_Walk V n)" by (rule movesI) (metis walk_good)
qed

lemma keeps_good_Open: "keeps good (fsdir_Open ctx_Err V n)"
  unfolding fsdir_Open_def fsdir_openStat_def by (auto intro!: keeps_intros split: sum.splits)

lemma keeps_good_walk [keeps_intros]: "keeps good (fsdir_walk ctx_Err root xs)"
proof (induction xs)
  case (Cons x xs)
  obtain p e where x: "x = (p, e)" by (cases x)
  from Cons show ?case
    by (cases e) (auto simp: x intro!: keeps_intros split: sum.splits)
qed (simp add: moves_ret)

lemma keeps_good_List: "keeps good (fsdir_List ctx_Err V n)"
  unfolding fsdir_List_def Let_def by (intro keeps_intros) auto

lemma Open_present:
  assumes w: "good w" "fs_ok dirs w" "store_file n" "files w n = Some c"
  shows "\<exists>rd w'. fsdir_Open ctx_Err V n w = (Ok rd, w') \<and> read_all rd = Ok c"
proof -
  from ctx_up [OF w(1)] obtain w1 where c: "ctx_Err w = (Ok (), w1)" "good w1" by blast
  from ctx_still [OF c(1)] w have w1: "files w1 n = Some c" "fs_ok dirs w1" by (auto simp: fs_ok_def)
  from open_present [OF c(2) w1(2) w(3)] w1(1) obtain f w2 where
    o: "v_Open V n w1 = (Ok f, w2)" "snd (v_Content V f) = None" by auto
  from stat_up [OF open_good [OF c(2) o(1)]] obtain sz w3 where s: "v_Stat V f w2 = (Ok sz, w3)" by blast
  have run: "fsdir_Open ctx_Err V n w = (Ok (fsdir_file V f sz), w3)"
    by (simp add: fsdir_Open_def fsdir_openStat_def ebind_def attempt_def c o s ret_def)
  have "n \<notin> dirs w1" using w1(2) w(3) by (simp add: fs_ok_def)
  from open_file [OF o(1) this] w1(1) have "fst (v_Content V f) = c" by simp
  with stat_size [OF s] o(2) have "read_all (fsdir_file V f sz) = Ok c"
    by (simp add: read_all_def fsdir_file_def section_bytes_def)
  with run show ?thesis by blast
qed

lemma Open_missing:
  assumes w: "good w" "fs_ok dirs w" "store_file n" "files w n = None"
  shows "\<exists>e w'. fsdir_Open ctx_Err V n w = (Err e, w') \<and> err_is e ErrNotExist"
proof -
  from ctx_up [OF w(1)] obtain w1 where c: "ctx_Err w = (Ok (), w1)" "good w1" by blast
  from ctx_still [OF c(1)] w have w1: "files w1 n = None" "fs_ok dirs w1" by (auto simp: fs_ok_def)
  from open_missing [OF c(2) w1(2) w(3) w1(1)] obtain e w2 where
    o: "v_Open V n w1 = (Err e, w2)" "err_is e ErrNotExist" by blast
  then show ?thesis
    by (auto simp: fsdir_Open_def fsdir_openStat_def ebind_def c)
qed

text \<open>Writing succeeds exactly when the body is what size and digest say.\<close>

lemma writeVerified_up:
  assumes run: "fsdir_writeVerified L V f body sz dgst w = (r, w')"
    and w: "good w" "files w (fname f) = Some []"
  shows "good w'" "ready w d \<Longrightarrow> ready w' d"
    and "snd body = None \<Longrightarrow> (0 \<le> sz \<longrightarrow> int (length (fst body)) = sz) \<Longrightarrow>
      (dgst \<noteq> [] \<longrightarrow> digest_Validate L dgst = None \<and> digest_matches L dgst (fst body)) \<Longrightarrow> r = Ok ()"
proof -
  from write_up [OF w(1)] w(2) obtain w1 where
    wr: "v_Write V f (fst body) w = (Ok (), w1)" "good w1" "\<forall>d. ready w d \<longrightarrow> ready w1 d" by blast
  from run wr(1) have w': "w' = w \<or> w' = w1"
    by (auto simp: fsdir_writeVerified_def ebind_def throw_def pure_res_def ret_def
        split: option.splits if_splits)
  with w(1) wr show "good w'" "ready w d \<Longrightarrow> ready w' d" by auto
  assume body: "snd body = None" "0 \<le> sz \<longrightarrow> int (length (fst body)) = sz"
    "dgst \<noteq> [] \<longrightarrow> digest_Validate L dgst = None \<and> digest_matches L dgst (fst body)"
  have "\<not> (0 \<le> sz \<and> int (length (fst body)) \<noteq> sz)" using body(2) by blast
  with run wr(1) body(1,3) show "r = Ok ()"
    by (cases "dgst = []")
      (auto simp: fsdir_writeVerified_def ebind_def ret_def digest_matches_def split: option.splits)
qed

lemma Create_up:
  assumes n: "store_file n" and w: "good w" "fs_ok dirs w"
    and run: "fsdir_Create L ctx_Err V n body sz dgst w = (r, w')"
  shows "good w'"
    and "files w n \<noteq> None \<Longrightarrow> \<exists>e. r = Err e \<and> err_is e ErrExist"
    and "created L (fs_tree files w) n body sz dgst t' \<Longrightarrow> dgst \<noteq> [] \<longrightarrow> valid_digest L dgst \<Longrightarrow> r = Ok ()"
proof -
  let ?Q = "good w' \<and> (files w n \<noteq> None \<longrightarrow> (\<exists>e. r = Err e \<and> err_is e ErrExist)) \<and>
    (created L (fs_tree files w) n body sz dgst t' \<and> (dgst \<noteq> [] \<longrightarrow> valid_digest L dgst) \<longrightarrow> r = Ok ())"
  from ctx_up [OF w(1)] obtain w1 where c: "ctx_Err w = (Ok (), w1)" "good w1" by blast
  from ctx_still [OF c(1)] w(2) have w1: "files w1 = files w" "dirs w1 = dirs w" "fs_ok dirs w1"
    by (auto simp: fs_ok_def)
  have ?Q
  proof (cases "files w n")
    case (Some c0)
    with lstat_present [OF c(2) w1(3) n] w1(1) obtain w2 where l: "v_Lstat V n w1 = (Ok (), w2)" by auto
    with run c(1) have "r = Err (Wrap1 ''create'' (Sentinel ErrExist))" "w' = w2"
      by (auto simp: fsdir_Create_def ebind_def attempt_def throw_def)
    moreover have "\<not> created L (fs_tree files w) n body sz dgst t'"
      using Some n by (simp add: created_def fs_tree_def)
    ultimately show ?thesis using lstat_good [OF c(2) l] by simp
  next
    case None
    with lstat_missing [OF c(2) w1(3) n] w1(1) obtain e w2 where l: "v_Lstat V n w1 = (Err e, w2)" by auto
    from lstat_still [OF l] w1 have w2: "files w2 = files w" "dirs w2 = dirs w" "fs_ok dirs w2"
      by (auto simp: fs_ok_def)
    from mkdir_up [OF lstat_good [OF c(2) l] w2(3)] n obtain w3 where
      m: "v_MkdirAll V (path_Dir n) w2 = (Ok (), w3)" "good w3" "ready w3 (path_Dir n)" by blast
    from mkdir_files [OF m(1)] w2 have w3: "files w3 = files w" "dirs w3 \<subseteq> dirs w \<union> ancestors (path_Dir n)"
      by auto
    then have ok3: "fs_ok dirs w3" using w(2) ancestors_store_file [OF n] by (fastforce simp: fs_ok_def)
    obtain s w4 where rand: "v_Rand V w3 = (s, w4)" by (cases "v_Rand V w3")
    note rd = rand_still [OF rand] rand_fresh [OF rand n] rand_good [OF m(2) rand]
    let ?tmp = "tmp_name n s"
    have nsf: "\<not> store_file ?tmp" using tmp_not_store_file [OF n] rd by simp
    from excl_up [of w4 n s] rd n m(3) obtain f w5 where
      x: "v_OpenExcl V ?tmp w4 = (Ok f, w5)" "good w5" "ready w5 (path_Dir n)" by auto
    from excl_Ok [OF x(1)] rd w3 have w5: "files w5 = (files w)(?tmp \<mapsto> [])" "dirs w5 = dirs w3"
      "fname f = ?tmp" by auto
    obtain rw w6 where wv: "fsdir_writeVerified L V f body sz dgst w5 = (rw, w6)"
      by (cases "fsdir_writeVerified L V f body sz dgst w5")
    have new: "files w5 (fname f) = Some []" using w5 by simp
    note up = writeVerified_up [OF wv x(2) new]
    from writeVerified(1,2) [OF wv new] w5 obtain cc where
      w6: "dirs w6 = dirs w3" "files w6 = (files w)(?tmp \<mapsto> cc)" by auto
    from close_up [OF up(1)] obtain w7 where
      cl: "v_Close V f w6 = (Ok (), w7)" "good w7" "\<forall>d. ready w6 d \<longrightarrow> ready w7 d" by blast
    from close_still [OF cl(1)] w6 ok3 have w7: "files w7 = (files w)(?tmp \<mapsto> cc)" "fs_ok dirs w7"
      by (auto simp: fs_ok_def)
    have "files w7 n = None" using None w7 n nsf by auto
    with link_up [OF cl(2) w7(2) n, of ?tmp] w7(1) up(2) [OF x(3)] cl(3) obtain w8 where
      ln: "v_Link V ?tmp n w7 = (Ok (), w8)" "good w8" by auto
    let ?fin = "\<lambda>v. snd (v_Remove V ?tmp v)"
    have rm: "good v \<Longrightarrow> good (?fin v)" for v using remove_good [of v ?tmp] by (metis prod.collapse)
    have eval: "(r, w') = (case rw of
        Ok _ \<Rightarrow> (Ok (), ?fin w8)
      | Err e \<Rightarrow> (Err (Wrap1 ''fsdir: creating'' e), ?fin w7)
      | Panic \<Rightarrow> (Panic, ?fin w6))"
      using run by (cases rw) (auto simp: fsdir_Create_def random_hex_def ebind_def attempt_def
          finally_do_def throw_def Let_def c l m rand x wv cl ln)
    have "rw = Ok ()"
      if "created L (fs_tree files w) n body sz dgst t'" "dgst \<noteq> [] \<longrightarrow> valid_digest L dgst"
      using up(3) that by (simp add: created_def valid_digest_def)
    with eval rm None ln cl up(1) show ?thesis by (auto split: res.splits)
  qed
  then show "good w'"
    and "files w n \<noteq> None \<Longrightarrow> \<exists>e. r = Err e \<and> err_is e ErrExist"
    and "created L (fs_tree files w) n body sz dgst t' \<Longrightarrow> dgst \<noteq> [] \<longrightarrow> valid_digest L dgst \<Longrightarrow> r = Ok ()" by auto
qed

end

sublocale reliable_vfs \<subseteq> fsdir_up: reliable_backend L "fsdir_NewStore L ctx_Err V" "fs_tree files"
  "\<lambda>w. fs_ok dirs w \<and> good w"
proof (unfold_locales, goal_cases)
  case (1 n w ro w')
  then show ?case by (rule fsdir.open_tree)
next
  case (2 w n ro w')
  then show ?case
    using fsdir.open_ok [of w n ro w'] movesD [OF keeps_good_Open, of n w ro w']
    by (simp add: fsdir_NewStore_def)
next
  case (3 w n rd w')
  then show ?case using fsdir.open_Ok by blast
next
  case (4 w n e w')
  then show ?case using fsdir.open_Err by blast
next
  case (5 w n body sz dgst u w')
  then show ?case using fsdir.create_Ok by blast
next
  case (6 w n body sz dgst r w')
  then show ?case using fsdir.create_any by blast
next
  case (7 w n body sz dgst r w')
  then show ?case
    using fsdir.create_ok [of w n body sz dgst r w'] Create_up(1) [of n w body sz dgst r w']
    by (simp add: fsdir_NewStore_def)
next
  case (8 w n body sz dgst e w')
  then show ?case using fsdir.create_Exist by blast
next
  case (9 mk n w r w')
  then show ?case by (rule fsdir.mkdir_tree)
next
  case (10 mk w n r w')
  then have run: "fsdir_MkdirAll ctx_Err V n w = (r, w')" by (simp add: fsdir_NewStore_def)
  from ctx_up 10 obtain w1 where c: "ctx_Err w = (Ok (), w1)" "good w1" by blast
  with run have mk: "v_MkdirAll V n w1 = (r, w')" by (simp add: fsdir_MkdirAll_def ebind_def)
  from ctx_still [OF c(1)] 10 have "fs_ok dirs w1" by (simp add: fs_ok_def)
  from mkdir_up [OF c(2) this, of n] 10(3) mk have "good w'" by auto
  with fsdir.mkdir_ok [OF 10(1) _ 10(3,4)] 10(2) show ?case by blast
next
  case (11 ls n w rl w')
  then show ?case by (rule fsdir.list_tree)
next
  case (12 ls w n rl w')
  then show ?case
    using fsdir.list_ok [of ls w n rl w'] movesD [OF keeps_good_List, of n w rl w']
    by (simp add: fsdir_NewStore_def)
next
  case (13 w n c)
  then show ?case using Open_present [of w n c] by (auto simp: fsdir_NewStore_def fs_tree_def)
next
  case (14 w n)
  then show ?case using Open_missing [of w n] by (auto simp: fsdir_NewStore_def fs_tree_def)
next
  case (15 w n body sz dgst t')
  obtain r w' where run: "fsdir_Create L ctx_Err V n body sz dgst w = (r, w')"
    by (cases "fsdir_Create L ctx_Err V n body sz dgst w")
  from Create_up(3) [OF _ _ _ run] 15 run show ?case by (auto simp: fsdir_NewStore_def)
next
  case (16 w n body sz dgst)
  obtain r w' where run: "fsdir_Create L ctx_Err V n body sz dgst w = (r, w')"
    by (cases "fsdir_Create L ctx_Err V n body sz dgst w")
  from Create_up(2) [OF _ _ _ run] 16 run show ?case by (auto simp: fsdir_NewStore_def fs_tree_def)
next
  case (17 mk w n)
  from ctx_up 17 obtain w1 where c: "ctx_Err w = (Ok (), w1)" "good w1" by blast
  from ctx_still [OF c(1)] 17 have "fs_ok dirs w1" by (simp add: fs_ok_def)
  from mkdir_up [OF c(2) this, of n] 17(3) obtain w' where "v_MkdirAll V n w1 = (Ok (), w')" by blast
  with 17(1) c show ?case by (auto simp: fsdir_NewStore_def fsdir_MkdirAll_def ebind_def)
qed

section \<open>The POSIX model without faults\<close>

definition os_good :: "os \<Rightarrow> bool" where
  "os_good w \<longleftrightarrow> (\<forall>k. \<not> o_faults w k) \<and>
     (\<forall>m. os_files w m \<noteq> None \<longrightarrow> store_file m \<or> has_prefix (last (split_on CHR ''/'' m)) ''.tmp-'')"

lemma tmp_not_plain_seg: "has_prefix x ''.tmp-'' \<Longrightarrow> \<not> plain_seg x"
  by (auto simp: has_prefix_iff plain_seg_def)

lemma os_good_plain:
  "os_good w \<Longrightarrow> os_files w m \<noteq> None \<Longrightarrow> store_file m \<or> (\<exists>x \<in> set (split_on CHR ''/'' m). \<not> plain_seg x)"
  using tmp_not_plain_seg [of "last (split_on CHR ''/'' m)"] last_in_set [of "split_on CHR ''/'' m"]
  unfolding os_good_def by (metis split_on_nonempty)

definition os_ready :: "os \<Rightarrow> string \<Rightarrow> bool" where
  "os_ready w d \<longleftrightarrow> (\<forall>m \<in> set (d # parents d). m \<in> os_dirs w)"

lemma parents_snoc:
  assumes "split_on CHR ''/'' n = xs @ [x]" "xs \<noteq> []" "\<forall>y \<in> set xs. plain_seg y"
  shows "parents n = parents (seg_path xs) @ [seg_path xs]"
proof -
  have "split_on CHR ''/'' (seg_path xs) = xs" using assms(2,3) by (simp add: split_seg_path)
  moreover have "[1..<length (xs @ [x])] = [1..<length xs] @ [length xs]"
    using assms(2) by (simp add: upt_Suc_append Suc_le_eq)
  ultimately show ?thesis by (simp add: parents_def assms(1) Let_def)
qed

lemma parents_split:
  assumes "m \<in> set (parents n)"
  obtains k where "1 \<le> k" "k < length (split_on CHR ''/'' n)" "m = seg_path (take k (split_on CHR ''/'' n))"
  using assms by (auto simp: parents_def Let_def)

lemma dir_of_store:
  assumes "store_dir n \<or> (\<exists>m. store_file m \<and> n = path_Dir m)" "d \<in> set (n # parents n)"
  shows "\<not> store_file d" "\<forall>x \<in> set (split_on CHR ''/'' d). plain_seg x"
proof -
  let ?xs = "split_on CHR ''/'' n"
  have plain: "\<forall>x \<in> set ?xs. plain_seg x"
  proof (cases "store_dir n")
    case True
    then show ?thesis by (simp add: store_dir_def Let_def)
  next
    case False
    with assms(1) obtain m where m: "store_file m" "n = path_Dir m" by blast
    obtain xs x where xs: "xs \<noteq> []" "path_Dir m = seg_path xs" "\<forall>y \<in> set xs. plain_seg y"
      by (rule tmp_name_segs [OF m(1), of "[]"]) simp_all
    then show ?thesis using m(2) split_seg_path [of xs] by simp
  qed
  have d: "d \<in> ancestors n" using assms(2) by (auto intro: parents_ancestor)
  show "\<not> store_file d"
    using d assms(1) ancestors_store_dir ancestors_store_file by blast
  from d obtain ys zs where ys: "d = seg_path ys" "?xs = ys @ zs" "ys \<noteq> []"
    unfolding ancestors_def by blast
  have "split_on CHR ''/'' d = ys"
    unfolding ys(1) using plain [unfolded ys(2)] by (intro split_seg_path ys(3)) simp
  then show "\<forall>x \<in> set (split_on CHR ''/'' d). plain_seg x" using plain [unfolded ys(2)] by simp
qed

lemma os_good_clear:
  assumes "os_good w" "store_dir n \<or> (\<exists>m. store_file m \<and> n = path_Dir m)"
  shows "\<not> under_file w n" "os_files w n = None"
proof -
  have none: "os_files w d = None" if "d \<in> set (n # parents n)" for d
    using os_good_plain [OF assms(1), of d] dir_of_store [OF assms(2) that] by blast
  then show "\<not> under_file w n" "os_files w n = None" by (auto simp: under_file_def list_ex_iff)
qed

lemma store_file_parents:
  assumes "store_file n" "CHR ''/'' \<notin> set s"
  shows "parents n = parents (path_Dir n) @ [path_Dir n]"
    and "parents (tmp_name n s) = parents (path_Dir n) @ [path_Dir n]"
proof -
  obtain xs x where x: "split_on CHR ''/'' n = xs @ [x]" "xs \<noteq> []" "path_Dir n = seg_path xs"
    "\<forall>y \<in> set xs. plain_seg y" "split_on CHR ''/'' (tmp_name n s) = xs @ [''.tmp-'' @ x @ ''-'' @ s]"
    by (rule tmp_name_segs [OF assms])
  show "parents n = parents (path_Dir n) @ [path_Dir n]"
    and "parents (tmp_name n s) = parents (path_Dir n) @ [path_Dir n]"
    using parents_snoc [OF x(1,2,4)] parents_snoc [OF x(5,2,4)] x(3) by simp_all
qed

lemma os_good_file:
  assumes "os_good w" "store_file n" shows "\<not> under_file w n"
proof -
  have "parents n = parents (path_Dir n) @ [path_Dir n]"
    by (rule store_file_parents(1) [OF assms(2), of "[]"]) simp
  then show ?thesis
    using os_good_clear [OF assms(1), of "path_Dir n"] assms(2) by (auto simp: under_file_def)
qed

lemma os_ready_parent:
  assumes "os_ready w (path_Dir n)" "store_file n" "CHR ''/'' \<notin> set s"
  shows "has_parent w n" "has_parent w (tmp_name n s)"
  using assms(1) store_file_parents [OF assms(2,3)]
  by (auto simp: os_ready_def has_parent_def list_all_iff os_dirs_def)

lemma os_good_simps [simp]:
  "os_good (w\<lparr>o_clock := k\<rparr>) = os_good w" "os_good (w\<lparr>o_dirs := ds\<rparr>) = os_good w"
  "os_ready (w\<lparr>o_clock := k\<rparr>) = os_ready w" "os_ready (w\<lparr>o_files := fs\<rparr>) = os_ready w"
  "under_file (w\<lparr>o_clock := k\<rparr>) = under_file w" "has_parent (w\<lparr>o_clock := k\<rparr>) = has_parent w"
  "has_parent (w\<lparr>o_files := fs\<rparr>) = has_parent w"
  by (simp_all add: os_good_def os_ready_def under_file_def has_parent_def os_dirs_def fun_eq_iff)

lemma os_good_nofault: "os_good w \<Longrightarrow> os_call m w = m (w\<lparr>o_clock := Suc (o_clock w)\<rparr>)"
  by (simp add: os_good_def os_call_def Let_def)

lemma os_good_add:
  "os_good w \<Longrightarrow> store_file n \<or> has_prefix (last (split_on CHR ''/'' n)) ''.tmp-'' \<or> os_files w n \<noteq> None \<Longrightarrow>
     os_good (w\<lparr>o_clock := k, o_files := (n, c) # o_files w\<rparr>)"
  by (auto simp: os_good_def)

lemma os_good_del: "os_good w \<Longrightarrow> os_good (w\<lparr>o_clock := k, o_files := filter (\<lambda>(m, c). m \<noteq> n) (o_files w)\<rparr>)"
  by (auto simp: os_good_def)

lemma tmp_last:
  assumes "store_file n" "CHR ''/'' \<notin> set s"
  shows "has_prefix (last (split_on CHR ''/'' (tmp_name n s))) ''.tmp-''"
proof -
  obtain xs x where "split_on CHR ''/'' (tmp_name n s) = xs @ [''.tmp-'' @ x @ ''-'' @ s]"
    by (rule tmp_name_segs [OF assms])
  then show ?thesis by (simp add: has_prefix_iff)
qed

interpretation os_up: reliable_vfs demo_lib os_ctx_Err os_vfs os_files os_dirs h_name os_good os_ready
proof (unfold_locales, goal_cases)
  case (1 w)
  then show ?case by (simp add: os_ctx_Err_def os_good_def)
next
  case (2 w n ro w')
  then show ?case by (auto simp: os_ops os_good_nofault split: if_splits option.splits)
next
  case (3 w n)
  from 3(4) obtain c where c: "os_files w n = Some c" by blast
  let ?f = "\<lparr>h_name = n, h_bytes = c, h_dir = False\<rparr>"
  have "\<exists>w'. v_Open os_vfs n w = (Ok ?f, w')"
    using 3 c os_good_file [OF 3(1,3)] by (auto simp: os_ops os_good_nofault os_dirs_set fs_ok_def)
  moreover have "snd (v_Content os_vfs ?f) = None" by (simp add: os_ops)
  ultimately show ?case by blast
next
  case (4 w n)
  then show ?case using os_good_file [OF 4(1,3)]
    by (auto simp: os_ops os_good_nofault os_dirs_set fs_ok_def)
next
  case (5 w f)
  then show ?case by (auto simp: os_ops os_good_nofault)
next
  case (6 w n r w')
  then show ?case by (auto simp: os_ops os_good_nofault split: if_splits option.splits)
next
  case (7 w n)
  then show ?case using os_good_file [OF 7(1,3)]
    by (auto simp: os_ops os_good_nofault os_dirs_set fs_ok_def)
next
  case (8 w n)
  then show ?case using os_good_file [OF 8(1,3)]
    by (auto simp: os_ops os_good_nofault os_dirs_set fs_ok_def)
next
  case (9 w n)
  then show ?case using os_good_clear [OF 9(1,3)]
    by (auto simp: os_ops os_good_nofault os_ready_def)
next
  case (10 w s w')
  then show ?case by (auto simp: os_vfs_def os_Rand_def)
next
  case (11 w n s)
  then show ?case
    using os_ready_parent(2) [OF 11(4,2,3)] tmp_last [OF 11(2,3)]
    by (auto simp: os_ops os_good_nofault os_dirs_set intro!: os_good_add)
next
  case (12 w f b)
  then show ?case by (auto simp: os_ops os_good_nofault intro!: os_good_add)
next
  case (13 w f)
  then show ?case by (auto simp: os_ops)
next
  case (14 w n a)
  then show ?case
    using os_ready_parent(1) [OF 14(6,3), of "[]"]
    by (auto simp: os_ops os_good_nofault os_dirs_set fs_ok_def intro!: os_good_add)
next
  case (15 w n r w')
  then show ?case by (auto simp: os_ops os_good_nofault os_good_del split: if_splits)
next
  case (16 w n rk w')
  then show ?case by (auto simp: os_ops os_good_nofault)
qed

end
