(* ===== verification/Demo_Image.thy ===== *)
theory Demo_Image
  imports Fsdir_Reliable
begin

text \<open>
  A small image on the POSIX model: one layer, its config and manifest, uploaded through the
  store's own \<open>PutBlob\<close>. The witnesses of the store's properties run on it.
\<close>

definition demo_store :: "os backend" where
  "demo_store = fsdir_NewStore demo_lib os_ctx_Err os_vfs"

abbreviation demo_tree :: "os \<Rightarrow> tree" where
  "demo_tree \<equiv> fs_tree os_files"

abbreviation demo_ok :: "os \<Rightarrow> bool" where
  "demo_ok w \<equiv> fs_ok os_dirs w \<and> os_good w"

definition demo_desc :: "string \<Rightarrow> bytes \<Rightarrow> descriptor" where
  "demo_desc mt b =
     \<lparr>d_MediaType = mt, d_Digest = digest_FromBytes demo_lib b, d_Size = int (length b),
      d_Annotations = fmempty, d_Platform = None\<rparr>"

definition demo_platform :: platform where
  "demo_platform = \<lparr>OS = ''linux'', Architecture = ''amd64'', Variant = []\<rparr>"

definition demo_ref :: reference where
  "demo_ref = \<lparr>Repository = ''example.com/app'', Tag = ''v1'', Digest = []\<rparr>"

definition demo_layer :: bytes where "demo_layer = ''layer''"

definition demo_config :: "string \<Rightarrow> image_config" where
  "demo_config d = \<lparr>c_Platform = demo_platform, c_DiffIDs = [d], c_Created = None\<rparr>"

definition demo_manifest :: "string \<Rightarrow> manifest" where
  "demo_manifest d =
     \<lparr>m_MediaType = MediaTypeImageManifest,
      m_Config = demo_desc MediaTypeImageConfig (put_config (demo_config d)),
      m_Layers = [demo_desc MediaTypeImageLayerGzip demo_layer]\<rparr>"

definition demo_md :: "string \<Rightarrow> descriptor" where
  "demo_md d = demo_desc MediaTypeImageManifest (put_manifest (demo_manifest d))"

definition demo_put :: "bytes \<Rightarrow> os \<Rightarrow> os" where
  "demo_put b w = snd (store_PutBlob demo_lib demo_store (demo_desc [] b) (b, None) w)"

text \<open>The store that holds the blobs of the image with diffID \<open>d\<close>, before its commit.\<close>

definition demo_world :: "string \<Rightarrow> os" where
  "demo_world d =
     demo_put (put_manifest (demo_manifest d)) (demo_put (put_config (demo_config d))
       (demo_put demo_layer os_empty))"

definition demo_diff :: string where "demo_diff = ''sha256:d1''"

text \<open>A diffID \<open>digest.Validate\<close> would refuse.\<close>

definition demo_bad :: string where "demo_bad = ''nocolon''"

lemma demo_up: "reliable_backend demo_lib demo_store demo_tree (\<lambda>w. demo_ok w)"
  unfolding demo_store_def by (rule os_up.fsdir_up.reliable_backend_axioms)

lemma demo_backend: "store_backend demo_lib demo_store demo_tree (\<lambda>w. demo_ok w)"
  by (rule reliable_backend.axioms(1) [OF demo_up])

lemma demo_faulty: "store_backend demo_lib demo_store demo_tree (fs_ok os_dirs)"
  unfolding demo_store_def by (rule os_fs.fsdir.store_backend_axioms)

lemma demo_digest: "digest_FromBytes demo_lib b = ''sha256:'' @ demo_hash b"
  by (simp add: demo_lib_def)

lemma demo_valid_FromBytes: "valid_digest demo_lib (digest_FromBytes demo_lib b)"
  by (rule valid_FromBytes [OF demo_digest_laws])

lemma demo_put:
  assumes "demo_ok w" "\<not> has_blob demo_lib (demo_tree w) (digest_FromBytes demo_lib b)"
  shows "demo_ok (demo_put b w)"
    and "demo_tree (demo_put b w) =
      (demo_tree w)(seg_path (blob_segs demo_lib (digest_FromBytes demo_lib b)) \<mapsto> b)"
proof -
  have "valid_digest demo_lib (d_Digest (demo_desc [] b))"
    "digest_matches demo_lib (d_Digest (demo_desc [] b)) b"
    "0 \<le> d_Size (demo_desc [] b) \<longrightarrow> d_Size (demo_desc [] b) = int (length b)"
    by (simp_all add: demo_desc_def demo_valid_FromBytes canonical_matches [OF demo_canonical_laws])
  from reliable_backend.PutBlob_up [OF demo_up demo_digest_laws assms(1) this] assms(2)
  obtain w' where "store_PutBlob demo_lib demo_store (demo_desc [] b) (b, None) w = (Ok (), w')"
    "demo_ok w'" "demo_tree w' =
      (demo_tree w)(seg_path (blob_segs demo_lib (digest_FromBytes demo_lib b)) \<mapsto> b)"
    by (auto simp: demo_desc_def)
  then show "demo_ok (demo_put b w)"
    and "demo_tree (demo_put b w) =
      (demo_tree w)(seg_path (blob_segs demo_lib (digest_FromBytes demo_lib b)) \<mapsto> b)"
    by (simp_all add: demo_put_def)
qed

lemma demo_blob_path:
  "seg_path (blob_segs demo_lib (digest_FromBytes demo_lib b)) = ''shared/blobs/sha256/'' @ demo_hash b"
proof -
  have "cut (''sha256:'' @ demo_hash b) '':'' = Some (''sha256'', demo_hash b)"
    using cut_char [of "CHR '':''" "''sha256''" "demo_hash b"] by simp
  then show ?thesis by (simp add: blob_segs_def demo_lib_def)
qed

lemma demo_has_blob:
  "has_blob demo_lib t (digest_FromBytes demo_lib b) \<longleftrightarrow> t (''shared/blobs/sha256/'' @ demo_hash b) \<noteq> None"
  by (simp add: has_blob_def demo_valid_FromBytes demo_blob_path)

lemma demo_blob_at:
  "blob_at demo_lib t (digest_FromBytes demo_lib b) c \<longleftrightarrow> t (''shared/blobs/sha256/'' @ demo_hash b) = Some c"
  by (simp add: blob_at_def demo_valid_FromBytes demo_blob_path)

lemma os_empty_ok: "demo_ok os_empty" "demo_tree os_empty = Map.empty"
  by (auto simp: fs_ok_def os_good_def os_empty_def os_files_def os_dirs_def fs_tree_def)

lemma digits_val: "foldl (\<lambda>a c. 10 * a + (of_char c - 48)) 0 (digits n) = (n :: nat)"
proof (induction n rule: digits.induct)
  case (1 n)
  have digit: "of_char (''0123456789'' ! k) = 48 + k" if "k < 10" for k
    using that by (auto simp: less_Suc_eq numeral_eq_Suc)
  show ?case
  proof (cases "n < 10")
    case True
    then show ?thesis using digit by (subst digits.simps) simp
  next
    case False
    then show ?thesis using 1 digit [of "n mod 10"] by (subst digits.simps) simp
  qed
qed

lemma demo_hash_inject: "demo_hash a = demo_hash b \<longleftrightarrow> length a = length b"
proof
  assume "demo_hash a = demo_hash b"
  then have "digits (length a) = digits (length b)" by (simp add: demo_hash_def)
  then show "length a = length b" by (metis digits_val)
qed (simp add: demo_hash_def)

text \<open>The blobs of the image have different lengths, so their digests differ.\<close>

definition demo_sizes :: "string \<Rightarrow> bool" where
  "demo_sizes d \<longleftrightarrow>
     distinct [length demo_layer, length (put_config (demo_config d)), length (put_manifest (demo_manifest d))]"

lemma demo_world:
  assumes "demo_sizes d"
  shows "demo_ok (demo_world d)"
    and "demo_tree (demo_world d) =
      [''shared/blobs/sha256/'' @ demo_hash demo_layer \<mapsto> demo_layer,
       ''shared/blobs/sha256/'' @ demo_hash (put_config (demo_config d)) \<mapsto> put_config (demo_config d),
       ''shared/blobs/sha256/'' @ demo_hash (put_manifest (demo_manifest d)) \<mapsto>
         put_manifest (demo_manifest d)]"
proof -
  let ?w1 = "demo_put demo_layer os_empty"
  let ?w2 = "demo_put (put_config (demo_config d)) ?w1"
  note 1 = demo_put [OF os_empty_ok(1), of demo_layer, unfolded os_empty_ok(2) demo_blob_path]
  have "\<not> has_blob demo_lib Map.empty (digest_FromBytes demo_lib demo_layer)" by (simp add: has_blob_def)
  note w1 = 1 [OF this]
  have "\<not> has_blob demo_lib (demo_tree ?w1) (digest_FromBytes demo_lib (put_config (demo_config d)))"
    using assms by (simp add: w1(2) demo_has_blob demo_hash_inject demo_sizes_def)
  note w2 = demo_put [OF w1(1) this, unfolded w1(2) demo_blob_path]
  have "\<not> has_blob demo_lib (demo_tree ?w2) (digest_FromBytes demo_lib (put_manifest (demo_manifest d)))"
    using assms by (simp add: w2(2) demo_has_blob demo_hash_inject demo_sizes_def)
  note w3 = demo_put [OF w2(1) this, unfolded w2(2) demo_blob_path]
  show "demo_ok (demo_world d)" using w3(1) by (simp add: demo_world_def)
  show "demo_tree (demo_world d) =
      [''shared/blobs/sha256/'' @ demo_hash demo_layer \<mapsto> demo_layer,
       ''shared/blobs/sha256/'' @ demo_hash (put_config (demo_config d)) \<mapsto> put_config (demo_config d),
       ''shared/blobs/sha256/'' @ demo_hash (put_manifest (demo_manifest d)) \<mapsto>
         put_manifest (demo_manifest d)]"
    using w3(2) by (simp add: demo_world_def)
qed

lemma demo_short: "short (demo_desc mt b)"
  by (simp add: short_def demo_desc_def short_annotations_def)

lemma demo_image_data:
  assumes "demo_sizes d"
  shows "image_data demo_lib (demo_tree (demo_world d)) demo_platform (d_Digest (demo_md d))
    (demo_manifest d) (demo_config d)"
proof -
  let ?t = "demo_tree (demo_world d)" and ?m = "put_manifest (demo_manifest d)"
    and ?c = "put_config (demo_config d)"
  note t = demo_world(2) [OF assms]
  have dig: "d_Digest (demo_md d) = digest_FromBytes demo_lib ?m"
    "d_Digest (m_Config (demo_manifest d)) = digest_FromBytes demo_lib ?c"
    by (simp_all add: demo_md_def demo_manifest_def demo_desc_def)
  have m: "blob_at demo_lib ?t (digest_FromBytes demo_lib ?m) ?m"
    and c: "blob_at demo_lib ?t (digest_FromBytes demo_lib ?c) ?c"
    using assms by (simp_all add: demo_blob_at t demo_hash_inject demo_sizes_def)
  have "json_Manifest demo_lib ?m = Inr (demo_manifest d)"
    using manifest_back [of "demo_manifest d"] by (simp add: demo_lib_def demo_manifest_def demo_short)
  moreover have "json_Image demo_lib ?c = Inr (demo_config d)"
    by (simp add: demo_lib_def config_back)
  moreover have "has_blob demo_lib ?t (digest_FromBytes demo_lib demo_layer)"
    by (simp add: demo_has_blob t)
  ultimately show ?thesis
    unfolding image_data_def dig using m c
    by (auto simp: demo_config_def demo_manifest_def demo_desc_def store_isForeign_def
        MediaTypeImageLayerGzip_def)
qed

lemma demo_leafable: "leafable demo_lib demo_ref demo_platform"
  by (simp add: leafable_def wf_reference_def demo_ref_def demo_platform_def plain_platform_def plain_seg_def
      leaf_segs_def key_segs_def platform_segs_def leaf_file_def marker_defs)

lemma demo_sizes_diff: "demo_sizes demo_diff" "demo_sizes demo_bad"
  by (code_simp, code_simp)

lemma demo_marshal: "\<exists>b. marshal_Index demo_lib (leaf_index ref p md) = Inr b"
  by (simp add: demo_lib_def leaf_index_def short_def short_annotations_def)

lemma demo_inv:
  assumes "demo_sizes d" shows "store_inv demo_lib (demo_tree (demo_world d))"
proof -
  have step: "demo_ok (demo_put b w) \<Longrightarrow> demo_ok w \<Longrightarrow> store_inv demo_lib (demo_tree w) \<Longrightarrow>
      store_inv demo_lib (demo_tree (demo_put b w))" for b w
    using movesD [OF store_backend.safe_PutBlob [OF demo_backend demo_digest_laws], of "demo_desc [] b" "(b, None)" w]
    unfolding demo_put_def by (metis prod.collapse)
  let ?w1 = "demo_put demo_layer os_empty"
  let ?w2 = "demo_put (put_config (demo_config d)) ?w1"
  have n1: "\<not> has_blob demo_lib (demo_tree os_empty) (digest_FromBytes demo_lib demo_layer)"
    by (simp add: os_empty_ok has_blob_def)
  note 1 = demo_put [OF os_empty_ok(1) n1, unfolded os_empty_ok(2) demo_blob_path]
  have n2: "\<not> has_blob demo_lib (demo_tree ?w1) (digest_FromBytes demo_lib (put_config (demo_config d)))"
    using assms by (simp add: 1(2) demo_has_blob demo_hash_inject demo_sizes_def)
  note 2 = demo_put(1) [OF 1(1) n2]
  have "store_inv demo_lib (demo_tree os_empty)" by (simp add: os_empty_ok store_inv_empty)
  from step [OF 2 1(1) step [OF 1(1) os_empty_ok(1) this]]
  have "store_inv demo_lib (demo_tree ?w2)" .
  from step [OF _ 2 this] demo_world(1) [OF assms] show ?thesis by (simp add: demo_world_def)
qed

lemma demo_diffs: "diff_ids_valid demo_lib (demo_tree (demo_world demo_diff))"
  unfolding diff_ids_valid_def
proof (intro allI impI)
  fix d b cfg
  assume b: "blob_at demo_lib (demo_tree (demo_world demo_diff)) d b" and cfg: "json_Image demo_lib b = Inr cfg"
  from b consider "b = demo_layer" | "b = put_config (demo_config demo_diff)"
    | "b = put_manifest (demo_manifest demo_diff)"
    by (auto simp: blob_at_def demo_world(2) [OF demo_sizes_diff(1)] split: if_splits)
  then show "list_all (valid_digest demo_lib) (c_DiffIDs cfg)"
  proof cases
    case 1
    have "json_Image demo_lib demo_layer = Inl (Msg ''unexpected end of JSON input'')" by code_simp
    with 1 cfg show ?thesis by simp
  next
    case 2
    then have "cfg = demo_config demo_diff" using cfg by (simp add: demo_lib_def config_back)
    moreover have "list_all (\<lambda>d. digest_Validate demo_lib d = None) (c_DiffIDs (demo_config demo_diff))" by code_simp
    ultimately show ?thesis by (simp add: valid_digest_def [abs_def])
  next
    case 3
    have "json_Image demo_lib (put_manifest (demo_manifest demo_diff)) =
        Inl (Msg ''unexpected end of JSON input'')" by code_simp
    with 3 cfg show ?thesis by simp
  qed
qed

end
