(* ===== verification/Store_Properties.thy ===== *)
theory Store_Properties
  imports Demo_Image
begin

text \<open>
  The properties of packages types, store and fsdir, each over every backend that meets the
  contract, with its witness on the POSIX model of \<open>Demo_Image\<close>.
\<close>

section \<open>The demo image, committed\<close>

definition demo_done :: os where
  "demo_done = snd (store_Commit demo_lib demo_store demo_ref demo_platform (demo_md demo_diff)
     (demo_world demo_diff))"

lemma demo_leaf_free:
  "demo_tree (demo_world demo_diff) (leaf_index_path demo_lib demo_ref demo_platform) = None"
proof -
  have "leaf_index_path demo_lib demo_ref demo_platform \<noteq>
      seg_path (blob_segs demo_lib (digest_FromBytes demo_lib b))" for b
    by (rule leaf_index_not_blob [OF demo_digest_laws demo_leafable demo_valid_FromBytes])
  then show ?thesis by (simp add: demo_world(2) [OF demo_sizes_diff(1)] demo_blob_path)
qed

lemma demo_commit:
  "store_Commit demo_lib demo_store demo_ref demo_platform (demo_md demo_diff) (demo_world demo_diff)
     = (Ok (), demo_done)"
proof -
  obtain b where b: "marshal_Index demo_lib (leaf_index demo_ref demo_platform (demo_md demo_diff)) = Inr b"
    using demo_marshal by blast
  have mt: "store_isManifest (d_MediaType (demo_md demo_diff))"
    by (simp add: store_isManifest_def demo_md_def demo_desc_def)
  have "list_all (\<lambda>d. digest_Validate demo_lib d = None) (c_DiffIDs (demo_config demo_diff))" by code_simp
  then have diffs: "list_all (valid_digest demo_lib) (c_DiffIDs (demo_config demo_diff))"
    by (simp add: valid_digest_def [abs_def])
  from reliable_backend.Commit_up [OF demo_up demo_digest_laws demo_json_laws demo_leafable
      demo_world(1) [OF demo_sizes_diff(1)] demo_image_data [OF demo_sizes_diff(1)] mt diffs b disjI1 [OF demo_leaf_free]]
  show ?thesis by (auto simp: demo_done_def)
qed

lemmas demo_commit_safe = store_backend.Commit_safe [OF demo_backend demo_digest_laws demo_json_laws
  demo_leafable demo_diffs demo_world(1) [OF demo_sizes_diff(1)] demo_inv [OF demo_sizes_diff(1)] demo_commit]

lemma demo_done_ok: "demo_ok demo_done" "store_inv demo_lib (demo_tree demo_done)"
  "diff_ids_valid demo_lib (demo_tree demo_done)"
proof -
  show "demo_ok demo_done" "store_inv demo_lib (demo_tree demo_done)" using demo_commit_safe(1) by auto
  show "diff_ids_valid demo_lib (demo_tree demo_done)"
    using demo_diffs store_backend.Commit_blobs [OF demo_backend demo_digest_laws demo_leafable demo_diffs
        demo_world(1) [OF demo_sizes_diff(1)] demo_commit]
    by (simp add: diff_ids_valid_def)
qed

lemma demo_done_grown: "demo_tree (demo_world demo_diff) \<subseteq>\<^sub>m demo_tree demo_done"
  using demo_commit_safe(1) by blast

lemma demo_done_data:
  "image_data demo_lib (demo_tree demo_done) demo_platform (d_Digest (demo_md demo_diff)) (demo_manifest demo_diff)
     (demo_config demo_diff)"
  by (rule image_data_mono [OF demo_image_data [OF demo_sizes_diff(1)] demo_done_grown])

lemma demo_diffs_listed: "list_all (valid_digest demo_lib) (c_DiffIDs (demo_config demo_diff))"
proof -
  have "list_all (\<lambda>d. digest_Validate demo_lib d = None) (c_DiffIDs (demo_config demo_diff))" by code_simp
  then show ?thesis by (simp add: valid_digest_def [abs_def])
qed

lemma demo_manifest_type: "store_isManifest (d_MediaType (demo_md d))"
  by (simp add: store_isManifest_def demo_md_def demo_desc_def)

section \<open>Commit\<close>

text \<open>
  C1: \<open>Commit\<close> keeps the promise of the store however it ends, at any write it stops after: every
  blob has the content its digest names, every leaf with an index has its layout file and a complete
  image, and no file that was there is changed or removed.
\<close>

theorem commit_keeps_store:
  assumes "store_backend L B tree ok" "digest_laws L" "json_laws L" "leafable L ref p"
    and "diff_ids_valid L (tree w)" "ok w" "store_inv L (tree w)"
    and "store_Commit L B ref p md w = (r, w')"
  shows "ok w' \<and> store_inv L (tree w') \<and> tree w \<subseteq>\<^sub>m tree w'"
  by (rule store_backend.Commit_safe(1) [OF assms])

theorem commit_keeps_store_witness:
  "demo_ok demo_done \<and> store_inv demo_lib (demo_tree demo_done) \<and>
     demo_tree (demo_world demo_diff) \<subseteq>\<^sub>m demo_tree demo_done"
  by (rule commit_keeps_store [OF demo_backend demo_digest_laws demo_json_laws demo_leafable demo_diffs
        demo_world(1) [OF demo_sizes_diff(1)] demo_inv [OF demo_sizes_diff(1)] demo_commit])

text \<open>
  C2: when \<open>Commit\<close> returns without an error, the leaf of the reference and platform names the
  manifest and everything the manifest refers to is stored: its config, which matches the platform,
  all its layers, none of them foreign, and a diffID marker for each.
\<close>

theorem commit_complete:
  assumes "store_backend L B tree ok" "digest_laws L" "json_laws L" "leafable L ref p"
    and "diff_ids_valid L (tree w)" "ok w" "store_inv L (tree w)"
    and "store_Commit L B ref p md w = (Ok (), w')"
  shows "image_closed L (tree w') p (d_Digest md) \<and>
    (\<exists>md'. leaf_holds L (tree w') ref p md' \<and> d_Digest md' = d_Digest md)"
  by (rule store_backend.Commit_safe(2) [OF assms refl])

theorem commit_complete_witness:
  "image_closed demo_lib (demo_tree demo_done) demo_platform (d_Digest (demo_md demo_diff)) \<and>
    (\<exists>md'. leaf_holds demo_lib (demo_tree demo_done) demo_ref demo_platform md' \<and>
           d_Digest md' = d_Digest (demo_md demo_diff))"
  by (rule commit_complete [OF demo_backend demo_digest_laws demo_json_laws demo_leafable demo_diffs
        demo_world(1) [OF demo_sizes_diff(1)] demo_inv [OF demo_sizes_diff(1)] demo_commit])

text \<open>
  C3: a leaf is immutable: \<open>Commit\<close> of another manifest under a reference and platform that
  already hold one never returns without an error.
\<close>

theorem commit_conflict:
  assumes "store_backend L B tree ok" "digest_laws L" "json_laws L" "leafable L ref p"
    and "diff_ids_valid L (tree w)" "ok w" "store_inv L (tree w)"
    and "leaf_holds L (tree w) ref p md0" "d_Digest md0 \<noteq> d_Digest md"
  shows "fst (store_Commit L B ref p md w) \<noteq> Ok ()"
  by (rule store_backend.Commit_conflict [OF assms])

theorem commit_conflict_witness:
  "fst (store_Commit demo_lib demo_store demo_ref demo_platform
     (demo_desc MediaTypeImageManifest demo_layer) demo_done) \<noteq> Ok ()"
proof -
  obtain md' where md': "leaf_holds demo_lib (demo_tree demo_done) demo_ref demo_platform md'"
    "d_Digest md' = d_Digest (demo_md demo_diff)"
    using demo_commit_safe(2) by blast
  have "d_Digest (demo_md demo_diff) \<noteq> d_Digest (demo_desc MediaTypeImageManifest demo_layer)"
    using demo_sizes_diff(1) by (simp add: demo_md_def demo_desc_def demo_digest demo_hash_inject demo_sizes_def)
  with md'(2) have "d_Digest md' \<noteq> d_Digest (demo_desc MediaTypeImageManifest demo_layer)" by simp
  from commit_conflict [OF demo_backend demo_digest_laws demo_json_laws demo_leafable demo_done_ok(3,1,2)
      md'(1) this] show ?thesis .
qed

text \<open>
  C4: what is committed is what is resolved: after a \<open>Commit\<close> without an error, at any later state
  of the store, a \<open>Resolve\<close> of the same reference and platform that returns gives the manifest.
\<close>

theorem commit_resolve:
  assumes "store_backend L B tree ok" "digest_laws L" "json_laws L" "leafable L ref p"
    and "diff_ids_valid L (tree w)" "ok w" "store_inv L (tree w)"
    and "store_Commit L B ref p md w = (Ok (), w1)"
    and "ok w2" "tree w1 \<subseteq>\<^sub>m tree w2"
    and "store_Resolve L B ref p w2 = (Ok im, w3)"
  shows "d_Digest (im_Manifest im) = d_Digest md"
  by (rule store_backend.Commit_Resolve [OF assms])

theorem commit_resolve_witness:
  "\<exists>im w3. store_Resolve demo_lib demo_store demo_ref demo_platform demo_done = (Ok im, w3) \<and>
     d_Digest (im_Manifest im) = d_Digest (demo_md demo_diff)"
proof -
  obtain md' where "leaf_holds demo_lib (demo_tree demo_done) demo_ref demo_platform md'"
    using demo_commit_safe(2) by blast
  from reliable_backend.Resolve_up [OF demo_up demo_digest_laws demo_json_laws demo_leafable
      demo_done_ok(1) this] obtain im w3 where
    r: "store_Resolve demo_lib demo_store demo_ref demo_platform demo_done = (Ok im, w3)" by blast
  from commit_resolve [OF demo_backend demo_digest_laws demo_json_laws demo_leafable demo_diffs
      demo_world(1) [OF demo_sizes_diff(1)] demo_inv [OF demo_sizes_diff(1)] demo_commit
      demo_done_ok(1) map_le_refl r] r
  show ?thesis by blast
qed

text \<open>
  Over a backend whose calls succeed, \<open>Commit\<close> of a complete image under a leaf that is free or
  holds the same manifest returns without an error, and on a store that has all it would write it
  changes nothing.
\<close>

theorem commit_succeeds:
  assumes "reliable_backend L B tree ok" "digest_laws L" "json_laws L" "leafable L ref p" "ok w"
    and "image_data L (tree w) p (d_Digest md) m cfg" "store_isManifest (d_MediaType md)"
    and "list_all (valid_digest L) (c_DiffIDs cfg)"
    and "marshal_Index L (leaf_index ref p md) = Inr b"
    and "tree w (leaf_index_path L ref p) = None \<or>
      (\<exists>md'. leaf_holds L (tree w) ref p md' \<and> d_Digest md' = d_Digest md)"
  shows "\<exists>w'. store_Commit L B ref p md w = (Ok (), w') \<and>
    (markers_at L (tree w) m cfg \<and> tree w (leaf_layout_path L ref p) \<noteq> None \<and>
       tree w (leaf_index_path L ref p) \<noteq> None \<longrightarrow> tree w' = tree w)"
  by (rule reliable_backend.Commit_up [OF assms])

theorem commit_succeeds_witness:
  "\<exists>w'. store_Commit demo_lib demo_store demo_ref demo_platform (demo_md demo_diff)
     (demo_world demo_diff) = (Ok (), w')"
proof -
  obtain b where b: "marshal_Index demo_lib (leaf_index demo_ref demo_platform (demo_md demo_diff)) = Inr b"
    using demo_marshal by blast
  have "demo_tree (demo_world demo_diff) (leaf_index_path demo_lib demo_ref demo_platform) = None"
    by (rule demo_leaf_free)
  from commit_succeeds [OF demo_up demo_digest_laws demo_json_laws demo_leafable
      demo_world(1) [OF demo_sizes_diff(1)] demo_image_data [OF demo_sizes_diff(1)]
      demo_manifest_type demo_diffs_listed b disjI1 [OF this]]
  show ?thesis by blast
qed

text \<open>
  C6: committing again is a no-op: over a backend whose calls succeed, after a \<open>Commit\<close> without an
  error the same \<open>Commit\<close> returns without an error and leaves every file of the store as it is.
\<close>

theorem commit_idempotent:
  assumes "reliable_backend L B tree ok" "digest_laws L" "json_laws L" "leafable L ref p"
    and "ok w" "store_inv L (tree w)" "diff_ids_valid L (tree w)"
    and "marshal_Index L (leaf_index ref p md) = Inr b"
    and "store_Commit L B ref p md w = (Ok (), w1)"
  shows "\<exists>w2. store_Commit L B ref p md w1 = (Ok (), w2) \<and> tree w2 = tree w1"
  by (rule reliable_backend.Commit_again [OF assms])

theorem commit_idempotent_witness:
  "\<exists>w2. store_Commit demo_lib demo_store demo_ref demo_platform (demo_md demo_diff) demo_done = (Ok (), w2) \<and>
     demo_tree w2 = demo_tree demo_done"
proof -
  obtain b where b: "marshal_Index demo_lib (leaf_index demo_ref demo_platform (demo_md demo_diff)) = Inr b"
    using demo_marshal by blast
  show ?thesis
    by (rule commit_idempotent [OF demo_up demo_digest_laws demo_json_laws demo_leafable
        demo_world(1) [OF demo_sizes_diff(1)] demo_inv [OF demo_sizes_diff(1)] demo_diffs b demo_commit])
qed

text \<open>
  C7: \<open>Commit\<close> trusts the diffIDs of the config: on a complete image whose first diffID has no colon
  it passes all its checks and then panics in \<open>DiffIDPath\<close>, instead of returning an error.
\<close>

theorem commit_panics_on_diffid:
  assumes "reliable_backend L B tree ok" "digest_laws L" "ok w"
    and "image_data L (tree w) p (d_Digest md) m cfg" "store_isManifest (d_MediaType md)"
    and "c_DiffIDs cfg = d # ds" "digest_Algorithm L d = None"
  shows "\<exists>w'. store_Commit L B ref p md w = (Panic, w')"
  by (rule reliable_backend.Commit_panics [OF assms])

theorem commit_panics_on_diffid_witness:
  "\<exists>w'. store_Commit demo_lib demo_store demo_ref demo_platform (demo_md demo_bad)
     (demo_world demo_bad) = (Panic, w')"
proof -
  have 1: "c_DiffIDs (demo_config demo_bad) = [demo_bad]" by (simp add: demo_config_def)
  have 2: "digest_Algorithm demo_lib demo_bad = None" by code_simp
  show ?thesis
    by (rule commit_panics_on_diffid [OF demo_up demo_digest_laws demo_world(1) [OF demo_sizes_diff(2)]
        demo_image_data [OF demo_sizes_diff(2)] demo_manifest_type  1 2])
qed

section \<open>Blobs and resolving\<close>

text \<open>
  A blob \<open>PutBlob\<close> stored without an error is there, whoever of several writers won, and the
  store keeps its promise whatever \<open>PutBlob\<close> returns.
\<close>

theorem put_blob_safe:
  assumes "store_backend L B tree ok" "digest_laws L" "ok w" "store_inv L (tree w)" "body_ok body"
    and "store_PutBlob L B desc body w = (r, w')"
  shows "ok w' \<and> store_inv L (tree w') \<and> tree w \<subseteq>\<^sub>m tree w' \<and>
    (r = Ok () \<longrightarrow> has_blob L (tree w') (d_Digest desc))"
  using movesD [OF store_backend.safe_PutBlob [OF assms(1,2)] assms(6)]
    store_backend.PutBlob_Ok [OF assms(1,2,5,3)] assms(3,4,6) by auto

theorem put_blob_safe_witness:
  "demo_ok (demo_put demo_layer os_empty) \<and> store_inv demo_lib (demo_tree (demo_put demo_layer os_empty))"
proof -
  obtain r where "store_PutBlob demo_lib demo_store (demo_desc [] demo_layer) (demo_layer, None) os_empty
      = (r, demo_put demo_layer os_empty)"
    unfolding demo_put_def by (metis prod.collapse)
  from put_blob_safe [OF demo_backend demo_digest_laws os_empty_ok(1) _ _ this]
  show ?thesis by (simp add: os_empty_ok store_inv_empty)
qed

text \<open>
  A round trip through the store: over a backend whose calls succeed, content uploaded under its
  digest and size is read back unchanged by \<open>Blob\<close>.
\<close>

theorem put_blob_roundtrip:
  assumes "reliable_backend L B tree ok" "digest_laws L" "ok w" "valid_digest L (d_Digest desc)"
    and "digest_matches L (d_Digest desc) b" "d_Size desc = int (length b)"
    and "\<not> has_blob L (tree w) (d_Digest desc)"
  shows "\<exists>w1 rd w2. store_PutBlob L B desc (b, None) w = (Ok (), w1) \<and>
    store_Blob L B (d_Digest desc) w1 = (Ok rd, w2) \<and> read_all rd = Ok b"
proof -
  from reliable_backend.PutBlob_up [OF assms(1-5)] assms(6,7) obtain w1 where
    1: "store_PutBlob L B desc (b, None) w = (Ok (), w1)" "ok w1"
      "tree w1 = (tree w)(seg_path (blob_segs L (d_Digest desc)) \<mapsto> b)" by auto
  then have "blob_at L (tree w1) (d_Digest desc) b" using assms(4) by (simp add: blob_at_def)
  from reliable_backend.Blob_up [OF assms(1,2) 1(2) this] 1(1) show ?thesis by blast
qed

theorem put_blob_roundtrip_witness:
  "\<exists>w1 rd w2. store_PutBlob demo_lib demo_store (demo_desc [] demo_layer) (demo_layer, None) os_empty = (Ok (), w1) \<and>
    store_Blob demo_lib demo_store (d_Digest (demo_desc [] demo_layer)) w1 = (Ok rd, w2) \<and>
    read_all rd = Ok demo_layer"
  by (rule put_blob_roundtrip [OF demo_up demo_digest_laws os_empty_ok(1)])
    (simp_all add: demo_desc_def demo_valid_FromBytes canonical_matches [OF demo_canonical_laws]
      os_empty_ok has_blob_def)

text \<open>
  C8: \<open>Resolve\<close> answers only from the store: a result without an error is the manifest the leaf's
  index holds, or, where that leaf has no index and the reference has a digest, a single-platform
  manifest stored as the blob of that digest.
\<close>

theorem resolve_sound:
  assumes "store_backend L B tree ok" "digest_laws L" "json_laws L" "leafable L ref p" "ok w"
    and "store_Resolve L B ref p w = (Ok im, w')"
  shows "im_Ref im = ref \<and> im_Platform im = p \<and>
    (leaf_holds L (tree w) ref p (im_Manifest im) \<or>
      tree w (leaf_index_path L ref p) = None \<and> Digest ref \<noteq> [] \<and>
      blob_manifest L (tree w) (Digest ref) (im_Manifest im))"
  using store_backend.Resolve_Ok [OF assms] by blast

theorem resolve_sound_witness:
  "\<exists>im :: os image. im_Ref im = demo_ref \<and> im_Platform im = demo_platform \<and>
    (leaf_holds demo_lib (demo_tree demo_done) demo_ref demo_platform (im_Manifest im) \<or>
      demo_tree demo_done (leaf_index_path demo_lib demo_ref demo_platform) = None \<and> Digest demo_ref \<noteq> [] \<and>
      blob_manifest demo_lib (demo_tree demo_done) (Digest demo_ref) (im_Manifest im))"
proof -
  obtain md' where "leaf_holds demo_lib (demo_tree demo_done) demo_ref demo_platform md'"
    using demo_commit_safe(2) by blast
  from reliable_backend.Resolve_up [OF demo_up demo_digest_laws demo_json_laws demo_leafable
      demo_done_ok(1) this] obtain im w3 where
    r: "store_Resolve demo_lib demo_store demo_ref demo_platform demo_done = (Ok im, w3)" by blast
  from resolve_sound [OF demo_backend demo_digest_laws demo_json_laws demo_leafable demo_done_ok(1) r]
  show ?thesis by (rule exI)
qed

section \<open>Platforms, references and paths\<close>

text \<open>
  C11: \<open>ParsePlatform\<close> accepts exactly the strings that \<open>String\<close> prints of a platform with non-empty,
  slash-free components, and gives that platform back.
\<close>

theorem parse_platform_exact:
  "types_ParsePlatform s = Ok p \<longleftrightarrow> wf_platform p \<and> platform_String p = s"
  using ParsePlatform_String ParsePlatform_inv by blast

text \<open>
  A parsed reference has a tag or a digest, parts that are safe as directory names, and prints
  as a string that parses to the same reference.
\<close>

theorem parse_reference_roundtrip:
  assumes "digest_laws L" "reference_laws L" "types_ParseReference L s = Ok r"
  shows "wf_reference L r \<and> types_ParseReference L (reference_String r) = Ok r"
  using ParseReference_wf [OF assms(2,3)] ParseReference_String [OF assms] by blast

theorem parse_reference_roundtrip_witness:
  "\<exists>r. types_ParseReference demo_lib ''example.com/app'' = Ok r \<and>
     types_ParseReference demo_lib (reference_String r) = Ok r \<and> Tag r = ''latest''"
proof -
  let ?r = "\<lparr>Repository = ''example.com/app'', Tag = ''latest'', Digest = []\<rparr>"
  have "types_ParseReference demo_lib ''example.com/app'' = Ok ?r" by code_simp
  from parse_reference_roundtrip [OF demo_digest_laws demo_reference_laws this] this show ?thesis by force
qed

text \<open>
  A leaf's path tells its reference and platform: \<open>parseLeaf\<close> reads back from the path
  \<open>LeafPath\<close> gives what identifies the leaf, for every parsed reference (which keeps no tag beside a
  digest) and every platform whose components are no hidden names.
\<close>

theorem parse_leaf_roundtrip:
  assumes "digest_laws L" "wf_reference L ref" "plain_platform p"
  shows "\<exists>leaf. store_LeafPath L ref p = Ok leaf \<and> store_parseLeaf L leaf = Ok (leaf_reference ref, p)"
  using LeafPath_wf [OF assms] parseLeaf_segs [OF assms] by blast

theorem parse_leaf_roundtrip_witness:
  "\<exists>leaf. store_LeafPath demo_lib demo_ref demo_platform = Ok leaf \<and>
     store_parseLeaf demo_lib leaf = Ok (leaf_reference demo_ref, demo_platform)"
  by (rule parse_leaf_roundtrip [OF demo_digest_laws leafableD(1,2) [OF demo_leafable]])

text \<open>
  C12: the platforms \<open>ParsePlatform\<close> accepts are not all safe as directory names: the variant \<open>.\<close>
  is lost in \<open>path.Join\<close>, so two different platforms share a leaf.
\<close>

theorem leaf_path_alias:
  "\<exists>p p'. types_ParsePlatform ''linux/amd64/.'' = Ok p \<and> types_ParsePlatform ''linux/amd64'' = Ok p' \<and>
     p \<noteq> p' \<and> store_LeafPath L ref p = store_LeafPath L ref p'"
proof -
  let ?p = "\<lparr>OS = ''linux'', Architecture = ''amd64'', Variant = ''.''\<rparr>"
    and ?p' = "\<lparr>OS = ''linux'', Architecture = ''amd64'', Variant = []\<rparr>"
  have "platform_String ?p = platform_String ?p' @ ''/.''" "platform_String ?p' \<noteq> []"
    by (simp_all add: platform_String_def)
  then have "path_Join [a, b, c, platform_String ?p] = path_Join [a, b, c, platform_String ?p']" for a b c
    using path_Join_dot [of "platform_String ?p'" "[a, b, c]"] by simp
  then have "store_LeafPath L ref ?p = store_LeafPath L ref ?p'"
    by (auto simp: store_LeafPath_def split: res.splits)
  moreover have "types_ParsePlatform ''linux/amd64/.'' = Ok ?p" "types_ParsePlatform ''linux/amd64'' = Ok ?p'"
    by (simp_all add: types_ParsePlatform_def Let_def)
  moreover have "?p \<noteq> ?p'" by simp
  ultimately show ?thesis by blast
qed

section \<open>The files of the tree\<close>

text \<open>
  Everything a store writes, and the path the code writes it at: \<open>BlobPath\<close>, \<open>DiffIDPath\<close>, and the two files
  that \<open>Commit\<close> joins to \<open>LeafPath\<close>. A reference with a digest is stored by that digest, whatever its tag.
\<close>

datatype tree_entry =
    Blob_of string
  | Marker_of string string
  | Index_of reference platform
  | Layout_of reference platform

fun entry_path :: "oci_lib \<Rightarrow> tree_entry \<Rightarrow> string res" where
  "entry_path L (Blob_of d) = store_BlobPath L d"
| "entry_path L (Marker_of d b) = store_DiffIDPath L d b"
| "entry_path L (Index_of ref p) =
     (case store_LeafPath L ref p of Ok leaf \<Rightarrow> Ok (path_Join [leaf, ImageIndexFile]) | Err e \<Rightarrow> Err e | Panic \<Rightarrow> Panic)"
| "entry_path L (Layout_of ref p) =
     (case store_LeafPath L ref p of Ok leaf \<Rightarrow> Ok (path_Join [leaf, ImageLayoutFile]) | Err e \<Rightarrow> Err e | Panic \<Rightarrow> Panic)"

fun entry_valid :: "oci_lib \<Rightarrow> tree_entry \<Rightarrow> bool" where
  "entry_valid L (Blob_of d) = valid_digest L d"
| "entry_valid L (Marker_of d b) = (valid_digest L d \<and> valid_digest L b)"
| "entry_valid L (Index_of ref p) = leafable L ref p"
| "entry_valid L (Layout_of ref p) = leafable L ref p"

fun entry_key :: "tree_entry \<Rightarrow> tree_entry" where
  "entry_key (Index_of ref p) = Index_of (leaf_reference ref) p"
| "entry_key (Layout_of ref p) = Layout_of (leaf_reference ref) p"
| "entry_key x = x"

fun entry_segs :: "oci_lib \<Rightarrow> tree_entry \<Rightarrow> string list" where
  "entry_segs L (Blob_of d) = blob_segs L d"
| "entry_segs L (Marker_of d b) = diff_segs L d b"
| "entry_segs L (Index_of ref p) = leaf_segs L ref p @ [ImageIndexFile]"
| "entry_segs L (Layout_of ref p) = leaf_segs L ref p @ [ImageLayoutFile]"

lemma entry_path_segs:
  assumes "digest_laws L" "entry_valid L x"
  shows "entry_path L x = Ok (seg_path (entry_segs L x))" "store_segs (entry_segs L x)"
  using assms(2)
  by (cases x; simp add: BlobPath_valid DiffIDPath_valid LeafPath_leafable leaf_Join leaf_index_path_def leaf_layout_path_def
      store_segs_blob store_segs_diff store_segs_leaf assms(1))+

lemma leaf_key_segs:
  assumes "digest_laws L" "leafable L r p" "leafable L r' p'"
  shows "leaf_segs L r p = leaf_segs L r' p' \<longleftrightarrow> leaf_reference r = leaf_reference r' \<and> p = p'"
proof
  assume "leaf_segs L r p = leaf_segs L r' p'"
  then show "leaf_reference r = leaf_reference r' \<and> p = p'"
    using leaf_segs_inj [OF assms(1) leafableD(1) [OF assms(2)] leafableD(1) [OF assms(3)] leafableD(2) [OF assms(2)]
        leafableD(2) [OF assms(3)]] by simp
next
  have "leaf_segs L (leaf_reference q) x = leaf_segs L q x" for q x
    by (simp add: leaf_reference_def leaf_segs_def key_segs_def)
  moreover assume "leaf_reference r = leaf_reference r' \<and> p = p'"
  ultimately show "leaf_segs L r p = leaf_segs L r' p'" by metis
qed

lemma digest_parts_inj:
  assumes "digest_laws L" "valid_digest L d" "valid_digest L d'"
    and "the (digest_Algorithm L d) = the (digest_Algorithm L d')" "the (digest_Encoded L d) = the (digest_Encoded L d')"
  shows "d = d'"
  by (rule blob_segs_inj [OF assms(1-3)]) (simp add: blob_segs_def assms(4,5))

lemma leaf_segs_head: "leaf_segs L r p = x # xs \<Longrightarrow> x = ''image_refs''"
  by (simp add: leaf_segs_def imageRefsDir_def)

lemma entry_segs_inj:
  assumes "digest_laws L" "entry_valid L x" "entry_valid L y"
  shows "entry_segs L x = entry_segs L y \<longleftrightarrow> entry_key x = entry_key y"
proof -
  from assms show ?thesis
    by (cases x; cases y)
      (auto simp: leaf_key_segs blob_segs_def diff_segs_def ImageIndexFile_def ImageLayoutFile_def
        intro: digest_parts_inj [OF assms(1)] dest!: leaf_segs_head leaf_segs_head [OF sym])
qed

lemma below_segs:
  assumes "store_segs xs" "store_segs ys" shows "\<not> has_prefix (seg_path ys) (seg_path xs @ ''/'')"
proof
  have split: "split_on CHR ''/'' (seg_path zs) = zs" if "store_segs zs" for zs
    using that by (intro split_seg_path) (auto simp: store_segs_def)
  assume "has_prefix (seg_path ys) (seg_path xs @ ''/'')"
  then obtain t where "seg_path ys = seg_path xs @ CHR ''/'' # t" by (auto simp: has_prefix_iff)
  then have "ys = xs @ split_on CHR ''/'' t" using split assms by (metis split_on_concat)
  with store_segs_prefix_free [of xs] assms have "split_on CHR ''/'' t = []" by metis
  then show False by (cases t) (auto split: list.splits if_splits)
qed

text \<open>
  C13: no two files of a store meet. For valid digests and leaves the paths of two blobs, markers or files of a
  leaf are equal only when they are the same thing (a leaf's reference up to the tag beside a digest), and no
  file lies below another, so that none can overwrite or block another.
\<close>

theorem store_paths_separate:
  assumes "digest_laws L" "entry_valid L x" "entry_valid L y"
  shows "\<exists>n m. entry_path L x = Ok n \<and> entry_path L y = Ok m \<and>
    (n = m \<longleftrightarrow> entry_key x = entry_key y) \<and> \<not> has_prefix m (n @ ''/'')"
proof -
  note x = entry_path_segs [OF assms(1,2)] and y = entry_path_segs [OF assms(1,3)]
  have "seg_path (entry_segs L x) = seg_path (entry_segs L y) \<longleftrightarrow> entry_key x = entry_key y"
    using seg_path_inj [OF _ x(2) y(2)] entry_segs_inj [OF assms] by metis
  with x(1) y(1) below_segs [OF x(2) y(2)] show ?thesis by blast
qed

theorem store_paths_separate_witness:
  "\<exists>leaf n m. store_LeafPath demo_lib demo_ref demo_platform = Ok leaf \<and> n = path_Join [leaf, ImageIndexFile] \<and>
     store_BlobPath demo_lib (digest_FromBytes demo_lib demo_layer) = Ok m \<and> n \<noteq> m \<and>
     \<not> has_prefix m (n @ ''/'') \<and> path_Join [leaf, ImageLayoutFile] \<noteq> n"
proof -
  have v: "entry_valid demo_lib (Index_of demo_ref demo_platform)" "entry_valid demo_lib (Layout_of demo_ref demo_platform)"
    "entry_valid demo_lib (Blob_of (digest_FromBytes demo_lib demo_layer))"
    using demo_leafable demo_valid_FromBytes by simp_all
  from store_paths_separate [OF demo_digest_laws v(1,3)] store_paths_separate [OF demo_digest_laws v(1,2)]
  show ?thesis by (fastforce split: res.splits)
qed

section \<open>The fsdir backend\<close>

text \<open>
  C14: \<open>*fsdir.Store\<close> meets the contract of package store on every file system that keeps its own,
  whatever of its calls fail: \<open>Create\<close> adds the complete verified file or nothing, never replaces a
  file, reports an existing one only when there is one, and its temporary files are outside the tree.
\<close>

theorem fsdir_meets_contract:
  assumes "vroot_fs L ctx V files dirs fname"
  shows "store_backend L (fsdir_NewStore L ctx V) (fs_tree files) (fs_ok dirs)"
  by (rule vroot_fs.fsdir_backend [OF assms])

theorem fsdir_meets_contract_witness:
  "store_backend demo_lib (fsdir_NewStore demo_lib os_ctx_Err os_vfs) (fs_tree os_files) (fs_ok os_dirs)"
  by (rule fsdir_meets_contract [OF os_fs.vroot_fs_axioms])

text \<open>
  A listing of \<open>*fsdir.Store\<close> names regular files of the walk only, and never a temporary file
  of a \<open>Create\<close>, finished or crashed.
\<close>

theorem fsdir_list_names:
  assumes "fsdir_List ctx V pre w = (Ok ys, w')" "Inr n \<in> set ys"
  shows "\<not> has_prefix (path_Base n) ''.tmp-'' \<and>
    (\<exists>xs w1. v_Walk V (trim_suffix pre ''/'') w = (Ok xs, w1) \<and> (n, Inr True) \<in> set xs)"
proof -
  from assms(1) obtain xs w1 where 1: "v_Walk V (trim_suffix pre ''/'') w = (Ok xs, w1)"
    "fsdir_walk ctx (trim_suffix pre ''/'') xs w1 = (Ok ys, w')"
    by (auto simp: fsdir_List_def Let_def ebind_Ok)
  from fsdir_walk_names [OF 1(2) assms(2)] 1(1) show ?thesis by blast
qed

theorem fsdir_list_names_witness:
  "\<not> has_prefix (path_Base ''image_refs/a/index.json'') ''.tmp-''"
proof -
  let ?w = "os_empty\<lparr>o_files := [(''image_refs/a/.tmp-index.json-ff'', []), (''image_refs/a/index.json'', [])]\<rparr>"
  have "fst (fsdir_List os_ctx_Err os_vfs ''image_refs/'' ?w) = Ok [Inr ''image_refs/a/index.json'']"
    by code_simp
  then obtain w' where "fsdir_List os_ctx_Err os_vfs ''image_refs/'' ?w = (Ok [Inr ''image_refs/a/index.json''], w')"
    by (metis prod.collapse)
  from fsdir_list_names [OF this, of "''image_refs/a/index.json''"] show ?thesis by simp
qed

end
