(* ===== verification/Store_Walk.thy ===== *)
theory Store_Walk
  imports Store_Resolve
begin

text \<open>
  What a listing finds: over a backend whose listings are complete (\<open>listed_backend\<close>), \<open>Walk\<close> yields every
  committed leaf once and nothing else, and \<open>DiffIDBlobs\<close> exactly the blobs marked for a diffID.
\<close>

section \<open>The path of a leaf that parses\<close>

text \<open>A digest that validates has one colon, so its parts are those it is put together from.\<close>

definition colon_laws :: "oci_lib \<Rightarrow> bool" where
  "colon_laws L \<longleftrightarrow>
     (\<forall>a h. valid_digest L (a @ '':'' @ h) \<longrightarrow>
        digest_Algorithm L (a @ '':'' @ h) = Some a \<and> digest_Encoded L (a @ '':'' @ h) = Some h)"

lemma new_digest_parts:
  assumes "digest_laws L" "colon_laws L" "valid_digest L (digest_NewFromEncoded L a h)"
  shows "digest_Algorithm L (digest_NewFromEncoded L a h) = Some a"
    "digest_Encoded L (digest_NewFromEncoded L a h) = Some h"
  using assms unfolding digest_laws_def colon_laws_def by metis+

lemma index_func_Some:
  "index_func P xs = Some i \<Longrightarrow> i < length xs \<and> P (xs ! i) \<and> (\<forall>x \<in> set (take i xs). \<not> P x)"
  by (induction xs arbitrary: i) (auto split: if_splits)

text \<open>The names \<open>Walk\<close> takes for leaves, with what they tell.\<close>

definition leaf_name :: "oci_lib \<Rightarrow> string \<Rightarrow> (reference \<times> platform) option" where
  "leaf_name L n =
     (case cut_suffix n (''/'' @ ImageIndexFile) of
        None \<Rightarrow> None
      | Some leaf \<Rightarrow> (case store_parseLeaf L leaf of Ok rp \<Rightarrow> Some rp | _ \<Rightarrow> None))"

lemma ParsePlatform_total: "types_ParsePlatform s \<noteq> Panic"
  by (simp add: types_ParsePlatform_def Let_def split: list.splits)

lemma leaf_platform_no_panic: "leaf_platform ref segs \<noteq> Panic"
  by (simp add: leaf_platform_def ParsePlatform_total split: res.split)

lemma parseLeaf_no_panic: "store_parseLeaf L leaf \<noteq> Panic"
  by (simp add: store_parseLeaf_def Let_def leaf_platform_no_panic split: option.split)

lemma leaf_platform_Ok:
  assumes "leaf_platform ref segs = Ok (r, p)" "\<forall>x \<in> set segs. plain_seg x"
  shows "r = ref \<and> platform_segs p = segs \<and> plain_platform p"
proof -
  from assms(1) have r: "r = ref" and p: "types_ParsePlatform (seg_path segs) = Ok p"
    by (auto simp: leaf_platform_def split: res.splits)
  from ParsePlatform_inv [OF p] have wf: "wf_platform p" "seg_path (platform_segs p) = seg_path segs"
    by (simp_all add: platform_String_join)
  have ne: "segs \<noteq> []" using p by (auto simp: types_ParsePlatform_def)
  have slash: "CHR ''/'' \<notin> set x" if "x \<in> set (platform_segs p)" for x
    using that wf(1) by (auto simp: wf_platform_def platform_segs_def split: if_splits)
  have "split_on CHR ''/'' (seg_path (platform_segs p)) = platform_segs p"
    using slash by (intro split_join) auto
  moreover have "split_on CHR ''/'' (seg_path segs) = segs"
    using assms(2) ne by (intro split_seg_path) auto
  ultimately have segs: "platform_segs p = segs" unfolding wf(2) by (rule trans [OF sym])
  have "OS p \<in> set (platform_segs p)" "Architecture p \<in> set (platform_segs p)"
    "Variant p \<noteq> [] \<Longrightarrow> Variant p \<in> set (platform_segs p)" by (simp_all add: platform_segs_def)
  with segs assms(2) have "plain_platform p" by (auto simp: plain_platform_def)
  with r segs show ?thesis by blast
qed

lemma parseLeaf_inv:
  assumes laws: "digest_laws L" "colon_laws L" and run: "store_parseLeaf L (seg_path (imageRefsDir # segs)) = Ok (ref, p)"
    and segs: "\<forall>x \<in> set segs. plain_seg x \<and> \<not> leaf_file x" "segs \<noteq> []"
  shows "leafable L ref p \<and> leaf_segs L ref p = imageRefsDir # segs \<and> leaf_reference ref = ref"
proof -
  have path: "seg_path (imageRefsDir # segs) = (imageRefsDir @ ''/'') @ seg_path segs"
    using segs(2) by (cases segs) (simp_all add: join_on_Cons)
  have split: "split_on CHR ''/'' (seg_path segs) = segs" using segs by (intro split_seg_path) auto
  note run = run [unfolded store_parseLeaf_def path cut_prefix_append option.case Let_def split]
  let ?P = "\<lambda>s. s = tagMarker \<or> s = digestMarker"
  from run obtain i where i: "index_func ?P segs = Some i" "\<not> i < 1"
    by (auto split: option.splits if_splits)
  note at = index_func_Some [OF i(1)]
  note run = run [unfolded i(1) option.case if_not_P [OF i(2)]]
  let ?repo = "take i segs"
  have repo: "split_on CHR ''/'' (seg_path ?repo) = ?repo"
    using segs i(2) by (intro split_seg_path) (auto dest: in_set_takeD)
  have repo_ok: "\<forall>x \<in> set ?repo. plain_seg x \<and> x \<noteq> ''_tag'' \<and> x \<noteq> ''_digest''"
    using segs(1) at by (auto simp: tagMarker_def digestMarker_def dest: in_set_takeD)
  have plain_drop: "\<forall>x \<in> set (drop k segs). plain_seg x" for k using segs(1) by (auto dest: in_set_dropD)
  have nth_plain: "plain_seg (segs ! k)" if "k < length segs" for k using segs(1) that by auto
  have done1: ?thesis if "wf_reference L ref" "leaf_reference ref = ref" "plain_platform p"
    "split_on CHR ''/'' (Repository ref) @ key_segs L ref @ platform_segs p = segs"
  proof -
    have "leaf_segs L ref p = imageRefsDir # segs" using that(4) by (simp add: leaf_segs_def)
    with that segs(1) show ?thesis by (auto simp: leafable_def imageRefsDir_def)
  qed
  show ?thesis
  proof (cases "segs ! i = tagMarker")
    case True
    note run = run [unfolded if_P [OF True]]
    from run have len: "\<not> length segs < i + 2"
      and plat: "leaf_platform \<lparr>Repository = seg_path ?repo, Tag = segs ! (i + 1), Digest = []\<rparr> (drop (i + 2) segs) = Ok (ref, p)"
      by (auto split: if_splits)
    from leaf_platform_Ok [OF plat plain_drop] have ref: "ref = \<lparr>Repository = seg_path ?repo, Tag = segs ! (i + 1), Digest = []\<rparr>"
      and p: "platform_segs p = drop (i + 2) segs" "plain_platform p" by auto
    have tag: "plain_seg (segs ! (i + 1))" using len by (intro nth_plain) simp
    have "take i segs @ segs ! i # segs ! (i + 1) # drop (i + 2) segs = segs"
    proof -
      have "drop i segs = segs ! i # segs ! (i + 1) # drop (i + 2) segs"
        using len by (simp add: Cons_nth_drop_Suc [symmetric] numeral_2_eq_2)
      then show ?thesis by (metis append_take_drop_id)
    qed
    with True have "?repo @ key_segs L ref @ platform_segs p = segs" by (simp add: ref key_segs_def p)
    moreover have "wf_reference L ref" using repo_ok repo tag by (auto simp: ref wf_reference_def plain_seg_def)
    ultimately show ?thesis using p(2) repo by (intro done1) (simp_all add: ref leaf_reference_def)
  next
    case False
    note run = run [unfolded if_not_P [OF False]]
    let ?d = "digest_NewFromEncoded L (segs ! (i + 1)) (segs ! (i + 2))"
    from run have len: "\<not> length segs < i + 3" and valid: "valid_digest L ?d"
      and plat: "leaf_platform \<lparr>Repository = seg_path ?repo, Tag = [], Digest = ?d\<rparr> (drop (i + 3) segs) = Ok (ref, p)"
      by (auto simp: valid_digest_def split: if_splits option.splits)
    from leaf_platform_Ok [OF plat plain_drop] have ref: "ref = \<lparr>Repository = seg_path ?repo, Tag = [], Digest = ?d\<rparr>"
      and p: "platform_segs p = drop (i + 3) segs" "plain_platform p" by auto
    note d = valid_digest_nonempty [OF laws(1) valid] new_digest_parts [OF laws valid]
    have marker: "segs ! i = digestMarker" using at False by auto
    have "take i segs @ segs ! i # segs ! (i + 1) # segs ! (i + 2) # drop (i + 3) segs = segs"
    proof -
      have "drop i segs = segs ! i # segs ! (i + 1) # segs ! (i + 2) # drop (i + 3) segs"
        using len by (simp add: Cons_nth_drop_Suc [symmetric] numeral_3_eq_3)
      then show ?thesis by (metis append_take_drop_id)
    qed
    with marker d have "?repo @ key_segs L ref @ platform_segs p = segs" by (simp add: ref key_segs_def p)
    moreover have "wf_reference L ref" using repo_ok repo valid d(1) by (auto simp: ref wf_reference_def)
    ultimately show ?thesis using p(2) repo d(1) by (intro done1) (simp_all add: ref leaf_reference_def)
  qed
qed

lemma leaf_dir_segs:
  assumes "store_segs (xs @ [ImageIndexFile])"
  shows "\<forall>x \<in> set xs. plain_seg x" "hd (xs @ [ImageIndexFile]) = ''image_refs'' \<Longrightarrow> \<forall>x \<in> set xs. \<not> leaf_file x"
  using assms by (simp_all add: store_segs_def)

lemma leaf_name_Some:
  assumes laws: "digest_laws L" "colon_laws L" and n: "store_file n" "has_prefix n (imageRefsDir @ ''/'')"
    and some: "leaf_name L n = Some (ref, p)"
  shows "leafable L ref p \<and> leaf_reference ref = ref \<and> n = leaf_index_path L ref p \<and>
    cut_suffix n (''/'' @ ImageIndexFile) = Some (seg_path (leaf_segs L ref p)) \<and>
    store_parseLeaf L (seg_path (leaf_segs L ref p)) = Ok (ref, p)"
proof -
  from some obtain leaf where leaf: "cut_suffix n (''/'' @ ImageIndexFile) = Some leaf"
    "store_parseLeaf L leaf = Ok (ref, p)"
    by (auto simp: leaf_name_def split: option.splits res.splits)
  then have cut: "n = leaf @ ''/'' @ ImageIndexFile" by (simp only: cut_suffix_Some)
  let ?xs = "split_on CHR ''/'' leaf"
  have xs: "leaf = seg_path ?xs" by simp
  have name: "CHR ''/'' \<notin> set ImageIndexFile" by (simp add: ImageIndexFile_def)
  have split: "split_on CHR ''/'' n = ?xs @ [ImageIndexFile]"
    unfolding cut using split_on_concat [of "CHR ''/''" leaf ImageIndexFile] split_on_free [OF name] by simp
  from n(1) have "store_segs (?xs @ [ImageIndexFile])" unfolding store_file_def split .
  note segs = leaf_dir_segs [OF this]
  from leaf(2) obtain rest where rest: "leaf = (imageRefsDir @ ''/'') @ rest"
    by (auto simp: store_parseLeaf_def cut_prefix_Some split: option.splits)
  have "CHR ''/'' \<notin> set imageRefsDir" by (simp add: imageRefsDir_def)
  from split_on_append [OF this, of rest] rest have ne: "?xs = imageRefsDir # split_on CHR ''/'' rest" by simp
  let ?segs = "split_on CHR ''/'' rest"
  have ok: "\<forall>x \<in> set ?segs. plain_seg x \<and> \<not> leaf_file x"
    using segs unfolding ne by (simp add: imageRefsDir_def del: split_on.simps)
  from leaf(2) have "store_parseLeaf L (seg_path (imageRefsDir # ?segs)) = Ok (ref, p)" using xs unfolding ne by simp
  from parseLeaf_inv [OF laws this ok split_on_nonempty]
  have p: "leafable L ref p" "leaf_segs L ref p = imageRefsDir # ?segs" "leaf_reference ref = ref" by simp_all
  have l: "seg_path (leaf_segs L ref p) = leaf" unfolding p(2) using xs unfolding ne by simp
  have "leaf_index_path L ref p = n"
    unfolding leaf_index_path_def cut by (subst join_on_append) (simp_all add: l)
  with p(1,3) leaf show ?thesis unfolding l by simp
qed

lemma leaf_name_leaf:
  assumes "digest_laws L" "leafable L ref p" "leaf_reference ref = ref"
  shows "leaf_name L (leaf_index_path L ref p) = Some (ref, p)"
proof -
  have "leaf_index_path L ref p = seg_path (leaf_segs L ref p) @ ''/'' @ ImageIndexFile"
    unfolding leaf_index_path_def by (subst join_on_append) simp_all
  then show ?thesis
    using parseLeaf_segs [OF assms(1) leafableD(1,2) [OF assms(2)]] assms(3)
    by (simp only: leaf_name_def cut_suffix_append option.case res.case)
qed

lemma in_map_filter: "x \<in> set (List.map_filter f xs) \<longleftrightarrow> (\<exists>y \<in> set xs. f y = Some x)"
  by (induction xs) (auto simp: List.map_filter_simps split: option.splits)

lemma distinct_map_filter:
  assumes "distinct xs" "\<And>a b x. a \<in> set xs \<Longrightarrow> b \<in> set xs \<Longrightarrow> f a = Some x \<Longrightarrow> f b = Some x \<Longrightarrow> a = b"
  shows "distinct (List.map_filter f xs)"
  using assms
proof (induction xs)
  case (Cons a xs)
  have "distinct (List.map_filter f xs)" using Cons.prems by (intro Cons.IH) (simp, meson list.set_intros(2))
  moreover have "x \<notin> set (List.map_filter f xs)" if x: "f a = Some x" for x
  proof
    assume "x \<in> set (List.map_filter f xs)"
    then obtain b where b: "b \<in> set xs" "f b = Some x" unfolding in_map_filter by blast
    from Cons.prems(2) [OF list.set_intros(1) list.set_intros(2) [OF b(1)] x b(2)] have "a = b" .
    with b(1) Cons.prems(1) show False by simp
  qed
  ultimately show ?case by (simp add: List.map_filter_simps split: option.split)
qed (simp add: List.map_filter_simps)

section \<open>The markers of a diffID\<close>

definition diff_name :: "oci_lib \<Rightarrow> string \<Rightarrow> string \<Rightarrow> string option" where
  "diff_name L pre n =
     (case cut_prefix n pre of
        None \<Rightarrow> None
      | Some rest \<Rightarrow>
          (case cut rest ''/'' of
             None \<Rightarrow> None
           | Some (alg, hex) \<Rightarrow>
               (let d = digest_NewFromEncoded L alg hex in if digest_Validate L d = None then Some d else None)))"

lemma diffIDEntries_names: "store_diffIDEntries L pre (map Inr ns) = Ok (List.map_filter (diff_name L pre) ns)"
  by (induction ns) (auto simp: List.map_filter_simps diff_name_def Let_def split: option.splits)

lemma diff_segs_path:
  assumes "digest_laws L" "valid_digest L d"
  shows "path_Join [diffIDsDir, the (digest_Algorithm L d), the (digest_Encoded L d)] =
      seg_path [diffIDsDir, the (digest_Algorithm L d), the (digest_Encoded L d)]"
    and "seg_path (diff_segs L d b) =
      (seg_path [diffIDsDir, the (digest_Algorithm L d), the (digest_Encoded L d)] @ ''/'') @
        the (digest_Algorithm L b) @ ''/'' @ the (digest_Encoded L b)"
proof -
  note d = digest_split_valid [OF assms]
  show "path_Join [diffIDsDir, the (digest_Algorithm L d), the (digest_Encoded L d)] =
      seg_path [diffIDsDir, the (digest_Algorithm L d), the (digest_Encoded L d)]"
    using d by (intro path_Join_segs) simp_all
qed (simp add: diff_segs_def diffIDsDir_def)

lemma diff_name_iff:
  assumes laws: "digest_laws L" "colon_laws L" and d: "valid_digest L d"
  shows "diff_name L (seg_path [diffIDsDir, the (digest_Algorithm L d), the (digest_Encoded L d)] @ ''/'') n = Some b \<longleftrightarrow>
    valid_digest L b \<and> n = seg_path (diff_segs L d b)"
proof -
  let ?pre = "seg_path [diffIDsDir, the (digest_Algorithm L d), the (digest_Encoded L d)] @ ''/''"
  show ?thesis
  proof
    assume "diff_name L ?pre n = Some b"
    then obtain alg hex where n: "n = ?pre @ alg @ CHR ''/'' # hex" "b = digest_NewFromEncoded L alg hex" "valid_digest L b"
      by (auto simp: diff_name_def cut_prefix_Some cut_char_Some Let_def valid_digest_def split: option.splits if_splits)
    with new_digest_parts [OF laws, of alg hex] show "valid_digest L b \<and> n = seg_path (diff_segs L d b)"
      unfolding diff_segs_path(2) [OF laws(1) d] by simp
  next
    assume b: "valid_digest L b \<and> n = seg_path (diff_segs L d b)"
    obtain alg hex where parts: "digest_Algorithm L b = Some alg" "digest_Encoded L b = Some hex" "digest_seg alg"
      "digest_NewFromEncoded L alg hex = b" using digest_parts [OF laws(1)] b by metis
    then have n: "cut_prefix n ?pre = Some (alg @ CHR ''/'' # hex)"
      using b diff_segs_path(2) [OF laws(1) d, of b] by (simp only: cut_prefix_Some) simp
    from parts(3) have "cut (alg @ CHR ''/'' # hex) ''/'' = Some (alg, hex)"
      by (intro cut_char) (simp add: digest_seg_def)
    with n parts(4) b show "diff_name L ?pre n = Some b"
      by (simp add: diff_name_def valid_digest_def)
  qed
qed

section \<open>Complete listings\<close>

text \<open>The directories package store lists.\<close>

definition listed_dir :: "string \<Rightarrow> bool" where
  "listed_dir d \<longleftrightarrow> d = imageRefsDir \<or> (\<exists>a h. digest_seg a \<and> digest_seg h \<and> d = seg_path [diffIDsDir, a, h])"

text \<open>
  A listing that succeeds and names the files below the directory, each once, when it fits into what the
  backend can deliver.
\<close>

locale listed_backend = reliable_backend +
  fixes ls :: "string \<Rightarrow> ('a, (gerr + string) list) io"
    and fits :: "'a \<Rightarrow> bool"
  assumes lister: "b_List B = Some ls"
    and list_up: "ok w \<Longrightarrow> fits w \<Longrightarrow> listed_dir d \<Longrightarrow> \<exists>ns w'. ls (d @ ''/'') w = (Ok (map Inr ns), w') \<and> distinct ns \<and>
        set ns = {n. store_file n \<and> has_prefix n (d @ ''/'') \<and> tree w n \<noteq> None}"
begin

lemma leafManifest_up:
  assumes "digest_laws L" "leafable L ref p" "ok w" "leaf_holds L (tree w) ref p md"
  shows "\<exists>w'. store_leafManifest L B (seg_path (leaf_segs L ref p)) w = (Ok md, w') \<and> quiet w w'"
proof -
  from assms(4) obtain c ix where ix: "tree w (leaf_index_path L ref p) = Some c" "json_Index L c = Inr ix"
    "i_Manifests ix = [md]" by (auto simp: leaf_holds_def)
  from readAll_up [OF assms(3) store_file_leaf(1) [OF assms(1,2)] ix(1)] obtain w' where
    "store_readAll B (leaf_index_path L ref p) w = (Ok c, w')" "quiet w w'" by blast
  with ix show ?thesis
    by (intro exI [of _ w']) (simp add: store_leafManifest_def leaf_Join [OF assms(1,2)] ebind_Ok)
qed

text \<open>One name: an image if it is a leaf's index, and nothing else.\<close>

lemma walkEntry_up:
  assumes laws: "digest_laws L" "colon_laws L" and w: "ok w" "store_inv L (tree w)"
    and n: "store_file n" "has_prefix n (imageRefsDir @ ''/'')" "tree w n \<noteq> None"
  shows "\<exists>imgs w'. store_walkEntry L B (Inr n) w = (Ok (map Inr imgs), w') \<and> quiet w w' \<and>
    map (\<lambda>i. (im_Ref i, im_Platform i)) imgs = (case leaf_name L n of None \<Rightarrow> [] | Some rp \<Rightarrow> [rp]) \<and>
    (\<forall>i \<in> set imgs. leaf_holds L (tree w) (im_Ref i) (im_Platform i) (im_Manifest i))"
proof (cases "leaf_name L n")
  case None
  then have "store_walkEntry L B (Inr n) w = (Ok (map Inr []), w)"
    using parseLeaf_no_panic [of L]
    by (auto simp: store_walkEntry_def leaf_name_def ret_def split: option.splits res.splits)
  with None w show ?thesis by (intro exI [of _ "[]"]) simp
next
  case (Some rp)
  obtain ref p where rp: "rp = (ref, p)" by fastforce
  note leaf = leaf_name_Some [OF laws n(1,2) Some [unfolded rp]]
  from leaf n(3) w(2) obtain md where md: "leaf_holds L (tree w) ref p md"
    unfolding store_inv_def leaves_closed_def by blast
  from leafManifest_up [OF laws(1) conjunct1 [OF leaf] w(1) md] obtain w' where
    run: "store_leafManifest L B (seg_path (leaf_segs L ref p)) w = (Ok md, w')" "quiet w w'" by blast
  from leaf have cut: "cut_suffix n (''/'' @ ImageIndexFile) = Some (seg_path (leaf_segs L ref p))"
    "store_parseLeaf L (seg_path (leaf_segs L ref p)) = Ok (ref, p)" by blast+
  have "store_walkEntry L B (Inr n) w =
      (Ok (map Inr [store_image L B ref p md (seg_path (leaf_segs L ref p))]), w')"
    unfolding store_walkEntry_def sum.case cut option.case res.case prod.case
    using run(1) by (simp add: ebind_attempt_Ok)
  with run(2) md Some rp show ?thesis
    by (intro exI [of _ "[store_image L B ref p md (seg_path (leaf_segs L ref p))]"]) (simp add: store_image_def)
qed

lemma walkAll_up:
  assumes laws: "digest_laws L" "colon_laws L" and w: "ok w" "store_inv L (tree w)"
    and ns: "\<forall>n \<in> set ns. store_file n \<and> has_prefix n (imageRefsDir @ ''/'') \<and> tree w n \<noteq> None"
  shows "\<exists>imgs w'. store_walkAll L B (map Inr ns) w = (Ok (map Inr imgs), w') \<and> quiet w w' \<and>
    map (\<lambda>i. (im_Ref i, im_Platform i)) imgs = List.map_filter (leaf_name L) ns \<and>
    (\<forall>i \<in> set imgs. leaf_holds L (tree w) (im_Ref i) (im_Platform i) (im_Manifest i))"
  using w ns
proof (induction ns arbitrary: w)
  case Nil
  then show ?case by (intro exI [of _ "[]"]) (simp add: ret_def List.map_filter_simps)
next
  case (Cons n ns)
  from walkEntry_up [OF laws Cons.prems(1,2), of n] Cons.prems(3) obtain imgs1 w1 where
    one: "store_walkEntry L B (Inr n) w = (Ok (map Inr imgs1), w1)" "quiet w w1"
    "map (\<lambda>i. (im_Ref i, im_Platform i)) imgs1 = (case leaf_name L n of None \<Rightarrow> [] | Some rp \<Rightarrow> [rp])"
    "\<forall>i \<in> set imgs1. leaf_holds L (tree w) (im_Ref i) (im_Platform i) (im_Manifest i)" by auto
  from Cons.IH [of w1] Cons.prems one(2) obtain imgs2 w2 where
    rest: "store_walkAll L B (map Inr ns) w1 = (Ok (map Inr imgs2), w2)" "quiet w w2"
    "map (\<lambda>i. (im_Ref i, im_Platform i)) imgs2 = List.map_filter (leaf_name L) ns"
    "\<forall>i \<in> set imgs2. leaf_holds L (tree w) (im_Ref i) (im_Platform i) (im_Manifest i)" by auto
  have "store_walkAll L B (map Inr (n # ns)) w = (Ok (map Inr (imgs1 @ imgs2)), w2)"
    using one(1) rest(1) by (simp add: ebind_def ret_def)
  with one rest show ?case
    by (intro exI [of _ "imgs1 @ imgs2"]) (auto simp: List.map_filter_simps split: option.splits)
qed

text \<open>\<open>Walk\<close> yields the committed leaves, each once, with what it holds.\<close>

lemma Walk_up:
  assumes laws: "digest_laws L" "colon_laws L" and w: "ok w" "store_inv L (tree w)" and fit: "fits w"
  shows "\<exists>imgs w'. store_Walk L B w = (Ok (map Inr imgs), w') \<and> quiet w w' \<and>
    distinct (map (\<lambda>i. (im_Ref i, im_Platform i)) imgs) \<and>
    (\<lambda>i. (im_Ref i, im_Platform i, im_Manifest i)) ` set imgs =
      {(ref, p, md). leafable L ref p \<and> leaf_reference ref = ref \<and> leaf_holds L (tree w) ref p md}"
proof -
  have dir: "listed_dir imageRefsDir" by (simp add: listed_dir_def)
  from list_up [OF w(1) fit dir] obtain ns w1 where ns: "ls (imageRefsDir @ ''/'') w = (Ok (map Inr ns), w1)" "distinct ns"
    "set ns = {n. store_file n \<and> has_prefix n (imageRefsDir @ ''/'') \<and> tree w n \<noteq> None}" by blast
  note w1 = list_tree [OF lister ns(1)] list_ok [OF lister w(1) ns(1)]
  have inv1: "store_inv L (tree w1)" using w(2) w1(1) by simp
  have in_tree: "\<forall>n \<in> set ns. store_file n \<and> has_prefix n (imageRefsDir @ ''/'') \<and> tree w1 n \<noteq> None"
    using ns(3) w1(1) by simp
  from walkAll_up [OF laws w1(2) inv1 in_tree] obtain imgs w2 where all: "store_walkAll L B (map Inr ns) w1 = (Ok (map Inr imgs), w2)"
    "quiet w1 w2" "map (\<lambda>i. (im_Ref i, im_Platform i)) imgs = List.map_filter (leaf_name L) ns"
    "\<forall>i \<in> set imgs. leaf_holds L (tree w1) (im_Ref i) (im_Platform i) (im_Manifest i)" by blast
  have run: "store_Walk L B w = (Ok (map Inr imgs), w2)"
    using all(1) ns(1) by (simp add: store_Walk_def lister ebind_def)
  have named: "leafable L ref p \<and> leaf_reference ref = ref \<and> n = leaf_index_path L ref p"
    if "n \<in> set ns" "leaf_name L n = Some (ref, p)" for n ref p
    using leaf_name_Some [OF laws _ _ that(2)] in_tree that(1) by blast
  have dist: "distinct (List.map_filter (leaf_name L) ns)"
    by (rule distinct_map_filter [OF ns(2)]) (metis named surj_pair)
  have rps: "set (List.map_filter (leaf_name L) ns) =
      {(ref, p). leafable L ref p \<and> leaf_reference ref = ref \<and> tree w (leaf_index_path L ref p) \<noteq> None}"
  proof -
    have "(ref, p) \<in> set (List.map_filter (leaf_name L) ns) \<longleftrightarrow>
        leafable L ref p \<and> leaf_reference ref = ref \<and> tree w (leaf_index_path L ref p) \<noteq> None" for ref p
    proof
      assume "(ref, p) \<in> set (List.map_filter (leaf_name L) ns)"
      then obtain n where n: "n \<in> set ns" "leaf_name L n = Some (ref, p)" by (auto simp: in_map_filter)
      with named [OF n] ns(3) show "leafable L ref p \<and> leaf_reference ref = ref \<and> tree w (leaf_index_path L ref p) \<noteq> None"
        by auto
    next
      assume r: "leafable L ref p \<and> leaf_reference ref = ref \<and> tree w (leaf_index_path L ref p) \<noteq> None"
      have "has_prefix (leaf_index_path L ref p) (imageRefsDir @ ''/'')"
        by (simp add: leaf_index_path_def leaf_segs_def join_on_Cons has_prefix_iff)
      with r ns(3) store_file_leaf(1) [OF laws(1), of ref p] have "leaf_index_path L ref p \<in> set ns" by simp
      with leaf_name_leaf [OF laws(1)] r show "(ref, p) \<in> set (List.map_filter (leaf_name L) ns)"
        by (auto simp: in_map_filter)
    qed
    then show ?thesis by auto
  qed
  have keys: "(\<lambda>i. (im_Ref i, im_Platform i)) ` set imgs =
      {(ref, p). leafable L ref p \<and> leaf_reference ref = ref \<and> tree w (leaf_index_path L ref p) \<noteq> None}"
    using arg_cong [OF all(3), of set] rps by simp
  have held: "\<forall>i \<in> set imgs. leaf_holds L (tree w) (im_Ref i) (im_Platform i) (im_Manifest i)"
    using all(4) w1(1) by simp
  have "(\<lambda>i. (im_Ref i, im_Platform i, im_Manifest i)) ` set imgs =
      {(ref, p, md). leafable L ref p \<and> leaf_reference ref = ref \<and> leaf_holds L (tree w) ref p md}" (is "?A = ?B")
  proof (intro set_eqI iffI)
    fix x assume "x \<in> ?A"
    then obtain i where i: "i \<in> set imgs" "x = (im_Ref i, im_Platform i, im_Manifest i)" by blast
    then have "(im_Ref i, im_Platform i) \<in> (\<lambda>i. (im_Ref i, im_Platform i)) ` set imgs" by blast
    with held i show "x \<in> ?B" unfolding keys by simp
  next
    fix x assume "x \<in> ?B"
    then obtain ref p md where x: "x = (ref, p, md)" "leafable L ref p" "leaf_reference ref = ref"
      "leaf_holds L (tree w) ref p md" by blast
    then have "(ref, p) \<in> (\<lambda>i. (im_Ref i, im_Platform i)) ` set imgs"
      unfolding keys by (auto simp: leaf_holds_def)
    then obtain i where i: "i \<in> set imgs" "im_Ref i = ref" "im_Platform i = p" by auto
    with held leaf_holds_unique [OF x(4)] have "im_Manifest i = md" by metis
    with i x(1) show "x \<in> ?A" by force
  qed
  moreover have "distinct (map (\<lambda>i. (im_Ref i, im_Platform i)) imgs)" unfolding all(3) by (rule dist)
  ultimately show ?thesis using run all(2) w1 by (intro exI [of _ imgs] exI [of _ w2]) simp
qed

text \<open>\<open>DiffIDBlobs\<close> and \<open>HasDiffIDBlob\<close> agree with the markers.\<close>

lemma DiffIDBlobs_up:
  assumes laws: "digest_laws L" "colon_laws L" and d: "valid_digest L d" and w: "ok w" and fit: "fits w"
  shows "\<exists>out w'. store_DiffIDBlobs L B d w = (Ok out, w') \<and> quiet w w' \<and> distinct out \<and>
    set out = {b. valid_digest L b \<and> tree w (seg_path (diff_segs L d b)) \<noteq> None}"
proof -
  let ?dir = "seg_path [diffIDsDir, the (digest_Algorithm L d), the (digest_Encoded L d)]"
  note split = digest_split_valid [OF laws(1) d]
  have dir: "listed_dir ?dir" using split unfolding listed_dir_def by blast
  from list_up [OF w fit dir] obtain ns w1 where ns: "ls (?dir @ ''/'') w = (Ok (map Inr ns), w1)" "distinct ns"
    "set ns = {n. store_file n \<and> has_prefix n (?dir @ ''/'') \<and> tree w n \<noteq> None}" by blast
  note w1 = list_tree [OF lister ns(1)] list_ok [OF lister w ns(1)]
  let ?out = "List.map_filter (diff_name L (?dir @ ''/'')) ns"
  have run: "store_DiffIDBlobs L B d w = (Ok ?out, w1)"
    using ns(1) d
    by (simp add: store_DiffIDBlobs_def valid_digest_def lister split(1) ebind_def pure_res_def Let_def
        diff_segs_path(1) [OF laws(1) d] diffIDEntries_names del: join_on.simps)
  have iff: "diff_name L (?dir @ ''/'') n = Some b \<longleftrightarrow> valid_digest L b \<and> n = seg_path (diff_segs L d b)" for n b
    by (rule diff_name_iff [OF laws d])
  have "distinct ?out" by (rule distinct_map_filter [OF ns(2)]) (simp only: iff)
  moreover have "b \<in> set ?out \<longleftrightarrow> valid_digest L b \<and> tree w (seg_path (diff_segs L d b)) \<noteq> None" for b
  proof -
    have "seg_path (diff_segs L d b) \<in> set ns \<longleftrightarrow> tree w (seg_path (diff_segs L d b)) \<noteq> None" if "valid_digest L b"
      unfolding ns(3) mem_Collect_eq
      using store_file_seg_path [OF store_segs_diff [OF laws(1) d that]] diff_segs_path(2) [OF laws(1) d, of b]
      by (metis has_prefix_append)
    then show ?thesis unfolding in_map_filter iff by blast
  qed
  ultimately show ?thesis using run w1 by (intro exI [of _ ?out] exI [of _ w1]) auto
qed

end

text \<open>\<open>HasDiffIDBlob\<close> needs no listing.\<close>

context reliable_backend
begin

lemma HasDiffIDBlob_up:
  assumes laws: "digest_laws L" and d: "valid_digest L d" "valid_digest L b" and w: "ok w"
  shows "\<exists>w'. store_HasDiffIDBlob L B d b w = (Ok (tree w (seg_path (diff_segs L d b)) \<noteq> None), w') \<and> quiet w w'"
proof -
  let ?n = "seg_path (diff_segs L d b)"
  have n: "store_file ?n" by (intro store_file_seg_path store_segs_diff [OF laws d])
  have valid: "digest_Validate L d = None" "digest_Validate L b = None" using d by (simp_all add: valid_digest_def)
  show ?thesis
  proof (cases "tree w ?n")
    case (Some c)
    from open_up [OF w n Some] obtain rd w' where o: "b_Open B ?n w = (Ok rd, w')" by blast
    with Some open_ok [OF w o] open_tree [OF o] show ?thesis
      by (intro exI [of _ w']) (simp add: store_HasDiffIDBlob_def valid DiffIDPath_valid [OF laws d] ebind_attempt_Ok)
  next
    case None
    from open_absent [OF w n None] obtain e w' where o: "b_Open B ?n w = (Err e, w')" "err_is e ErrNotExist" by blast
    with None open_ok [OF w o(1)] open_tree [OF o(1)] show ?thesis
      by (intro exI [of _ w']) (simp add: store_HasDiffIDBlob_def valid DiffIDPath_valid [OF laws d] ebind_attempt_Ok)
  qed
qed

end

end
