(* ===== verification/Fsdir_Listed.thy ===== *)
theory Fsdir_Listed
  imports Fsdir_Reliable Store_Walk
begin

text \<open>
  The listings of \<open>*fsdir.Store\<close> are complete on a file system whose walk visits every file, when the
  files below it are those of the tree and the temporary files of \<open>Create\<close>, left over or not.
\<close>

text \<open>
  A walk visits the directories and files below its root once each, or reports that the root is missing
  when nothing is below it.
\<close>

definition walk_finds :: "(string \<Rightarrow> 'c option) \<Rightarrow> string \<Rightarrow> (string \<times> (gerr + bool)) list \<Rightarrow> bool" where
  "walk_finds t d xs \<longleftrightarrow> (\<forall>x \<in> set xs. \<exists>b. snd x = Inr b) \<and>
     {n. (n, Inr True) \<in> set xs} = {n. has_prefix n (d @ ''/'') \<and> t n \<noteq> None}"

definition walk_misses :: "(string \<Rightarrow> 'c option) \<Rightarrow> string \<Rightarrow> (string \<times> (gerr + bool)) list \<Rightarrow> bool" where
  "walk_misses t d xs \<longleftrightarrow> (\<exists>e. xs = [(d, Inl e)] \<and> err_is e ErrNotExist) \<and>
     (\<forall>n. has_prefix n (d @ ''/'') \<longrightarrow> t n = None)"

locale listed_vfs = reliable_vfs +
  assumes own_files: "good w \<Longrightarrow> files w n \<noteq> None \<Longrightarrow> store_file n \<or> has_prefix (path_Base n) ''.tmp-''"
    and walk_up: "good w \<Longrightarrow> listed_dir d \<Longrightarrow> \<exists>xs w'. v_Walk V d w = (Ok xs, w') \<and> distinct (map fst xs) \<and>
      (walk_finds (files w) d xs \<or> walk_misses (files w) d xs)"
begin

definition listed_name :: "string \<times> (gerr + bool) \<Rightarrow> string option" where
  "listed_name x = (case snd x of Inl _ \<Rightarrow> None
     | Inr regular \<Rightarrow> if \<not> regular \<or> has_prefix (path_Base (fst x)) ''.tmp-'' then None else Some (fst x))"

lemma listed_name_Some: "listed_name x = Some n \<longleftrightarrow> x = (n, Inr True) \<and> \<not> has_prefix (path_Base n) ''.tmp-''"
  by (cases x; cases "snd x") (auto simp: listed_name_def)

lemma walk_names:
  assumes "\<forall>x \<in> set xs. \<exists>b. snd x = Inr b" "good w"
  shows "\<exists>w'. fsdir_walk ctx_Err root xs w = (Ok (map Inr (List.map_filter listed_name xs)), w') \<and> good w'"
  using assms
proof (induction xs arbitrary: w)
  case Nil
  then show ?case by (simp add: ret_def List.map_filter_simps)
next
  case (Cons x xs)
  from Cons.prems(1) obtain p b where x: "x = (p, Inr b)" by (cases x) auto
  from ctx_up [OF Cons.prems(2)] obtain w1 where c: "ctx_Err w = (Ok (), w1)" "good w1" by blast
  from Cons.IH [OF _ c(2)] Cons.prems(1) obtain w2 where
    rest: "fsdir_walk ctx_Err root xs w1 = (Ok (map Inr (List.map_filter listed_name xs)), w2)" "good w2" by auto
  show ?case
  proof (cases "\<not> b \<or> has_prefix (path_Base p) ''.tmp-''")
    case True
    then have "listed_name x = None" by (simp add: x listed_name_def)
    with True rest c show ?thesis by (simp add: x ebind_def attempt_def List.map_filter_simps)
  next
    case False
    then have "listed_name x = Some p" by (simp add: x listed_name_def)
    with False rest c show ?thesis by (simp add: x ebind_def attempt_def ret_def List.map_filter_simps)
  qed
qed

lemma store_file_Base: "store_file n \<Longrightarrow> \<not> has_prefix (path_Base n) ''.tmp-''"
proof
  assume n: "store_file n" and tmp: "has_prefix (path_Base n) ''.tmp-''"
  from n obtain xs x where x: "n = seg_path (xs @ [x])" "plain_seg x" by (rule store_fileE) metis
  then have "path_Base n = x" using path_Base_join [of x xs] by simp
  with tmp x(2) show False using tmp_not_plain_seg by blast
qed

lemma List_names:
  assumes w: "good w" and d: "listed_dir d"
  shows "\<exists>ns w'. fsdir_List ctx_Err V (d @ ''/'') w = (Ok (map Inr ns), w') \<and> distinct ns \<and>
    set ns = {n. store_file n \<and> has_prefix n (d @ ''/'') \<and> fs_tree files w n \<noteq> None}"
proof -
  from walk_up [OF w d] obtain xs w1 where walk: "v_Walk V d w = (Ok xs, w1)" "distinct (map fst xs)"
    and kinds: "walk_finds (files w) d xs \<or> walk_misses (files w) d xs" by blast
  have run: "fsdir_List ctx_Err V (d @ ''/'') w = fsdir_walk ctx_Err d xs w1"
    using walk(1) by (simp add: fsdir_List_def trim_suffix_def ebind_def)
  from kinds show ?thesis
  proof
    assume "walk_finds (files w) d xs"
    then have all: "(\<forall>x \<in> set xs. \<exists>b. snd x = Inr b) \<and> {n. (n, Inr True) \<in> set xs} = {n. has_prefix n (d @ ''/'') \<and> files w n \<noteq> None}"
      by (simp add: walk_finds_def)
    from walk_names [OF conjunct1 [OF all] walk_good [OF w walk(1)]] obtain w2 where
      w2: "fsdir_walk ctx_Err d xs w1 = (Ok (map Inr (List.map_filter listed_name xs)), w2)" by blast
    have "distinct (List.map_filter listed_name xs)"
    proof (rule distinct_map_filter)
      show "distinct xs" using walk(2) by (simp add: distinct_map)
    next
      fix a b x assume "a \<in> set xs" "b \<in> set xs" "listed_name a = Some x" "listed_name b = Some x"
      then show "a = b" unfolding listed_name_Some by blast
    qed
    moreover have "n \<in> set (List.map_filter listed_name xs) \<longleftrightarrow>
        store_file n \<and> has_prefix n (d @ ''/'') \<and> fs_tree files w n \<noteq> None" for n
    proof -
      have "n \<in> set (List.map_filter listed_name xs) \<longleftrightarrow>
          (n, Inr True) \<in> set xs \<and> \<not> has_prefix (path_Base n) ''.tmp-''"
        unfolding in_map_filter listed_name_Some by blast
      also have "\<dots> \<longleftrightarrow> (has_prefix n (d @ ''/'') \<and> files w n \<noteq> None) \<and> \<not> has_prefix (path_Base n) ''.tmp-''"
        using conjunct2 [OF all] by blast
      also have "\<dots> \<longleftrightarrow> store_file n \<and> has_prefix n (d @ ''/'') \<and> fs_tree files w n \<noteq> None"
        using own_files [OF w, of n] store_file_Base [of n]
        by (cases "store_file n"; cases "files w n") (simp_all add: fs_tree_def)
      finally show ?thesis .
    qed
    ultimately show ?thesis using run w2 by (intro exI [of _ "List.map_filter listed_name xs"] exI [of _ w2]) auto
  next
    assume "walk_misses (files w) d xs"
    then have none: "(\<exists>e. xs = [(d, Inl e)] \<and> err_is e ErrNotExist) \<and> (\<forall>n. has_prefix n (d @ ''/'') \<longrightarrow> files w n = None)"
      by (simp add: walk_misses_def)
    then have "fsdir_List ctx_Err V (d @ ''/'') w = (Ok (map Inr []), w1)" using run by (auto simp: ret_def)
    with none show ?thesis by (intro exI [of _ "[]"] exI [of _ w1]) (auto simp: fs_tree_def)
  qed
qed

end

sublocale listed_vfs \<subseteq> fsdir_listed: listed_backend L "fsdir_NewStore L ctx_Err V" "fs_tree files"
  "\<lambda>w. fs_ok dirs w \<and> good w" "fsdir_List ctx_Err V" "\<lambda>_. True"
  by unfold_locales (use List_names in \<open>simp_all add: fsdir_NewStore_def\<close>)

interpretation os_listed: listed_vfs demo_lib os_ctx_Err os_vfs os_files os_dirs h_name os_good os_ready
proof (unfold_locales, goal_cases)
  case (1 w n)
  have "path_Base n = last (split_on CHR ''/'' n)" if "last (split_on CHR ''/'' n) \<noteq> []"
  proof -
    let ?xs = "split_on CHR ''/'' n"
    have n: "n = seg_path (butlast ?xs @ [last ?xs])" by simp
    have "CHR ''/'' \<notin> set (last ?xs)" using split_on_parts last_in_set split_on_nonempty by blast
    from path_Base_seg [OF that this, of "butlast ?xs"] show ?thesis unfolding n [symmetric] .
  qed
  with 1 show ?case by (auto simp: os_good_def has_prefix_iff)
next
  case (2 w d)
  let ?ns = "remdups (filter (\<lambda>n. has_prefix n (d @ ''/'')) (map fst (o_files w)))"
  have "v_Walk os_vfs d w = (Ok (map (\<lambda>n. (n, Inr True)) ?ns), w\<lparr>o_clock := Suc (o_clock w)\<rparr>)"
    using 2(1) by (simp add: os_vfs_def os_Walk_def os_good_nofault ret_def)
  moreover have "distinct (map fst (map (\<lambda>n. (n, Inr True :: gerr + bool)) ?ns))" by (simp add: comp_def)
  moreover have "n \<in> fst ` set (o_files w) \<longleftrightarrow> os_files w n \<noteq> None" for n
    by (simp add: os_files_def map_of_eq_None_iff)
  then have "walk_finds (os_files w) d (map (\<lambda>n. (n, Inr True)) ?ns)" by (auto simp: walk_finds_def)
  ultimately show ?case by blast
qed

end
