(* ===== verification/Walk_Properties.thy ===== *)
theory Walk_Properties
  imports Fsdir_Listed Store_Properties
begin

text \<open>
  What a store says of its contents is what it holds, over every backend whose listings are complete.
  The witnesses list the store of \<open>Store_Properties\<close> after its one \<open>Commit\<close>.
\<close>

lemma demo_colon_laws: "colon_laws demo_lib"
proof -
  have "digest_Algorithm demo_lib (a @ '':'' @ h) = Some a \<and> digest_Encoded demo_lib (a @ '':'' @ h) = Some h"
    if "valid_digest demo_lib (a @ '':'' @ h)" for a h
  proof -
    from that obtain a' h' where eq: "a @ '':'' @ h = a' @ CHR '':'' # h'" and
      a': "CHR '':'' \<notin> set a'" "demo_word h'" unfolding demo_valid by blast
    from demo_word_free [OF a'(2)] have h': "CHR '':'' \<notin> set h'" by (simp add: demo_char_def)
    from eq a'(1) h' have "CHR '':'' \<notin> set a"
      by (auto simp: append_eq_append_conv2 append_eq_Cons_conv Cons_eq_append_conv)
    then show ?thesis by (simp add: demo_lib_def cut_char)
  qed
  then show ?thesis unfolding colon_laws_def by blast
qed

lemma demo_listed: "listed_backend demo_lib demo_store demo_tree (\<lambda>w. demo_ok w) (fsdir_List os_ctx_Err os_vfs) (\<lambda>_. True)"
  unfolding demo_store_def by (rule os_listed.fsdir_listed.listed_backend_axioms)

lemma demo_leaf_reference: "leaf_reference demo_ref = demo_ref"
  by (simp add: leaf_reference_def demo_ref_def)

lemma demo_leaf_held: "\<exists>md. leaf_holds demo_lib (demo_tree demo_done) demo_ref demo_platform md"
  using demo_commit_safe(2) [OF refl] by blast

lemma demo_diff_marked:
  "valid_digest demo_lib demo_diff"
  "demo_tree demo_done (seg_path (diff_segs demo_lib demo_diff (digest_FromBytes demo_lib demo_layer))) \<noteq> None"
proof -
  show "valid_digest demo_lib demo_diff" using demo_diffs_listed by (simp add: demo_config_def)
  obtain m cfg where m: "image_data demo_lib (demo_tree demo_done) demo_platform (d_Digest (demo_md demo_diff)) m cfg"
    "markers_at demo_lib (demo_tree demo_done) m cfg"
    using demo_commit_safe(2) [OF refl] by (auto simp: image_closed_def)
  from image_data_unique [OF demo_done_data m(1)] m(2)
  show "demo_tree demo_done (seg_path (diff_segs demo_lib demo_diff (digest_FromBytes demo_lib demo_layer))) \<noteq> None"
    by (simp add: markers_at_def demo_config_def demo_manifest_def demo_desc_def)
qed

section \<open>Walk\<close>

text \<open>
  C9: \<open>Walk\<close> of a store that keeps its promise yields no error and exactly the committed leaves, each
  reference and platform once and with the manifest its index names; it changes nothing.
\<close>

theorem walk_exact:
  assumes "listed_backend L B tree ok ls fits" "digest_laws L" "colon_laws L" "ok w" "store_inv L (tree w)" "fits w"
  shows "\<exists>imgs w'. store_Walk L B w = (Ok (map Inr imgs), w') \<and> ok w' \<and> tree w' = tree w \<and>
    distinct (map (\<lambda>i. (im_Ref i, im_Platform i)) imgs) \<and>
    (\<lambda>i. (im_Ref i, im_Platform i, im_Manifest i)) ` set imgs =
      {(ref, p, md). leafable L ref p \<and> leaf_reference ref = ref \<and> leaf_holds L (tree w) ref p md}"
  using listed_backend.Walk_up [OF assms] by blast

theorem walk_exact_witness:
  "\<exists>imgs w'. store_Walk demo_lib demo_store demo_done = (Ok (map Inr imgs), w') \<and>
     (\<exists>i \<in> set imgs. im_Ref i = demo_ref \<and> im_Platform i = demo_platform)"
proof -
  obtain md where md: "leaf_holds demo_lib (demo_tree demo_done) demo_ref demo_platform md"
    using demo_leaf_held by blast
  from walk_exact [OF demo_listed demo_digest_laws demo_colon_laws demo_done_ok(1,2) TrueI] obtain imgs w' where
    walk: "store_Walk demo_lib demo_store demo_done = (Ok (map Inr imgs), w')" and
    imgs: "(\<lambda>i. (im_Ref i, im_Platform i, im_Manifest i)) ` set imgs =
      {(ref, p, md). leafable demo_lib ref p \<and> leaf_reference ref = ref \<and>
         leaf_holds demo_lib (demo_tree demo_done) ref p md}" by blast
  have "(demo_ref, demo_platform, md) \<in> (\<lambda>i. (im_Ref i, im_Platform i, im_Manifest i)) ` set imgs"
    unfolding imgs using md demo_leafable demo_leaf_reference by simp
  then obtain i where "i \<in> set imgs" "im_Ref i = demo_ref" "im_Platform i = demo_platform" by auto
  with walk show ?thesis by blast
qed

section \<open>Blobs of a diffID\<close>

text \<open>
  C10: \<open>DiffIDBlobs\<close> yields exactly the blobs a marker ties to the diffID, each once, and
  \<open>HasDiffIDBlob\<close> agrees with it for every blob; neither changes anything.
\<close>

theorem diffid_blobs_exact:
  assumes "listed_backend L B tree ok ls fits" "digest_laws L" "colon_laws L" "ok w" "valid_digest L d" "fits w"
  shows "\<exists>blobs w'. store_DiffIDBlobs L B d w = (Ok blobs, w') \<and> ok w' \<and> tree w' = tree w \<and> distinct blobs \<and>
    set blobs = {b. valid_digest L b \<and> tree w (seg_path (diff_segs L d b)) \<noteq> None} \<and>
    (\<forall>b. valid_digest L b \<longrightarrow> (\<exists>w''. store_HasDiffIDBlob L B d b w' = (Ok (b \<in> set blobs), w'') \<and> tree w'' = tree w))"
proof -
  from listed_backend.DiffIDBlobs_up [OF assms(1-3,5,4,6)] obtain blobs w' where
    b: "store_DiffIDBlobs L B d w = (Ok blobs, w')" "ok w'" "tree w' = tree w" "distinct blobs"
    "set blobs = {b. valid_digest L b \<and> tree w (seg_path (diff_segs L d b)) \<noteq> None}" by blast
  have "\<exists>w''. store_HasDiffIDBlob L B d c w' = (Ok (c \<in> set blobs), w'') \<and> tree w'' = tree w" if "valid_digest L c" for c
    using reliable_backend.HasDiffIDBlob_up [OF listed_backend.axioms(1) [OF assms(1)] assms(2,5) that b(2)] that
    by (auto simp: b(3,5))
  with b show ?thesis by blast
qed

theorem diffid_blobs_exact_witness:
  "\<exists>blobs w'. store_DiffIDBlobs demo_lib demo_store demo_diff demo_done = (Ok blobs, w') \<and>
     digest_FromBytes demo_lib demo_layer \<in> set blobs"
  using diffid_blobs_exact [OF demo_listed demo_digest_laws demo_colon_laws demo_done_ok(1) demo_diff_marked(1) TrueI]
    demo_diff_marked(2) demo_valid_FromBytes by auto

end
