(* ===== verification/Push.thy ===== *)
theory Push
  imports Store_Resolve
begin

text \<open>
  Package transfer, transfer.go: planning a push of an image set into a store and executing it.
  \<open>Push\<close> runs its uploads in goroutines; an upload is a worker that makes one call of the source or
  of the target at a time, and the pool of workers is the step relation \<open>push_step\<close>. The commits
  that follow are sequential.
\<close>

section \<open>Plans\<close>

text \<open>\<open>Source\<close>: the method \<open>Resolve\<close>.\<close>

type_synonym 'w source = "reference \<Rightarrow> platform \<Rightarrow> ('w, 'w image) io"

record 'w entry =
  en_Image :: "'w image"
  en_Missing :: "descriptor list"
  en_Present :: "descriptor list"
  en_Fallback :: bool

record 'w plan =
  pl_Entries :: "'w entry list"

text \<open>\<open>seen\<close> is the map of the code, and the sum wraps around at 64 bits.\<close>

fun bytes_of :: "descriptor list \<Rightarrow> string set \<times> int \<Rightarrow> string set \<times> int" where
  "bytes_of [] st = st"
| "bytes_of (d # ds) (seen, n) =
     bytes_of ds (if d_Digest d \<in> seen then (seen, n)
                  else (insert (d_Digest d) seen, wrap64 (n + d_Size d)))"

definition transfer_Bytes :: "'w plan \<Rightarrow> int" where
  "transfer_Bytes p = snd (fold (\<lambda>e. bytes_of (en_Missing e)) (pl_Entries p) ({}, 0))"

definition transfer_ImageBlobs :: "oci_lib \<Rightarrow> 'w image \<Rightarrow> ('w, descriptor list) io" where
  "transfer_ImageBlobs L img =
     ebind (od_Blobs (im_Dir img) (d_Digest (im_Manifest img))) (\<lambda>r.
     ebind (pure_res (read_all r)) (\<lambda>b.
       if digest_FromBytes L b \<noteq> d_Digest (im_Manifest img)
       then throw (Msg ''transfer: manifest does not match its digest'')
       else case json_Manifest L b of
         Inl e \<Rightarrow> throw (Wrap1 ''transfer: manifest'' e)
       | Inr m \<Rightarrow> ret (m_Layers m @ [m_Config m, im_Manifest img])))"

definition transfer_entryError :: "reference \<Rightarrow> platform \<Rightarrow> gerr \<Rightarrow> gerr" where
  "transfer_entryError ref p err = EntryError ref p (Wrap1 ''transfer: for'' err)"

text \<open>The loop of \<open>Diff\<close> appends to \<open>e.Present\<close> or \<open>e.Missing\<close>.\<close>

fun diff_loop :: "oci_lib \<Rightarrow> 'w backend \<Rightarrow> descriptor list \<Rightarrow> 'w entry \<Rightarrow> ('w, 'w entry) io" where
  "diff_loop L B [] e = ret e"
| "diff_loop L B (d # ds) e =
     ebind (store_HasBlob L B (d_Digest d)) (\<lambda>has.
       diff_loop L B ds
         (if has then e\<lparr>en_Present := en_Present e @ [d]\<rparr>
          else e\<lparr>en_Missing := en_Missing e @ [d]\<rparr>))"

definition transfer_Diff :: "oci_lib \<Rightarrow> 'w image \<Rightarrow> 'w backend \<Rightarrow> ('w, 'w entry) io" where
  "transfer_Diff L img dst =
     ebind (transfer_ImageBlobs L img) (\<lambda>descs.
       diff_loop L dst descs
         \<lparr>en_Image = img, en_Missing = [], en_Present = [], en_Fallback = False\<rparr>)"

text \<open>One round of the inner loop of \<open>PlanPush\<close>: the entry or its failure.\<close>

definition plan_entry ::
  "oci_lib \<Rightarrow> 'w source \<Rightarrow> 'w backend \<Rightarrow> reference \<Rightarrow> platform \<Rightarrow> ('w, gerr + 'w entry) io" where
  "plan_entry L src dst ref p =
     ebind (attempt (src ref p)) (\<lambda>r.
       case r of
         Inl e \<Rightarrow> ret (Inl (transfer_entryError ref p e))
       | Inr img \<Rightarrow>
           ebind (attempt (transfer_Diff L img dst)) (\<lambda>r2.
             case r2 of
               Inl e \<Rightarrow> ret (Inl (transfer_entryError ref p e))
             | Inr en \<Rightarrow> ret (Inr en)))"

fun plan_platforms ::
  "oci_lib \<Rightarrow> 'w source \<Rightarrow> 'w backend \<Rightarrow> reference \<Rightarrow> platform list
     \<Rightarrow> 'w plan \<times> gerr list \<Rightarrow> ('w, 'w plan \<times> gerr list) io" where
  "plan_platforms L src dst ref [] st = ret st"
| "plan_platforms L src dst ref (p # ps) (plan, errs) =
     ebind (plan_entry L src dst ref p) (\<lambda>r.
       plan_platforms L src dst ref ps
         (case r of
            Inl e \<Rightarrow> (plan, errs @ [e])
          | Inr en \<Rightarrow> (plan\<lparr>pl_Entries := pl_Entries plan @ [en]\<rparr>, errs)))"

fun plan_images ::
  "oci_lib \<Rightarrow> 'w source \<Rightarrow> 'w backend \<Rightarrow> platform list \<Rightarrow> string list
     \<Rightarrow> 'w plan \<times> gerr list \<Rightarrow> ('w, 'w plan \<times> gerr list) io" where
  "plan_images L src dst ps [] st = ret st"
| "plan_images L src dst ps (s # ss) (plan, errs) =
     (case types_ParseReference L s of
        Panic \<Rightarrow> pure_res Panic
      | Err e \<Rightarrow> plan_images L src dst ps ss (plan, errs @ [e])
      | Ok ref \<Rightarrow>
          ebind (plan_platforms L src dst ref ps (plan, errs)) (plan_images L src dst ps ss))"

text \<open>The plan comes with the error, which is nil for \<open>None\<close>.\<close>

definition transfer_PlanPush ::
  "oci_lib \<Rightarrow> go_runtime \<Rightarrow> 'w source \<Rightarrow> 'w backend \<Rightarrow> string list \<Rightarrow> platform list
     \<Rightarrow> ('w, 'w plan \<times> gerr option) io" where
  "transfer_PlanPush L rt src dst images platforms =
     (let ps = (if platforms = [] then [types_HostPlatform rt] else platforms) in
      ebind (plan_images L src dst ps images (\<lparr>pl_Entries = []\<rparr>, [])) (\<lambda>(plan, errs).
        ret (plan, join_errs errs)))"

section \<open>Uploads\<close>

record upload =
  up_entry :: nat
  up_desc :: descriptor

fun uploads_of :: "nat \<Rightarrow> descriptor list \<Rightarrow> string set \<times> upload list \<Rightarrow> string set \<times> upload list" where
  "uploads_of i [] st = st"
| "uploads_of i (d # ds) (seen, us) =
     uploads_of i ds (if d_Digest d \<in> seen then (seen, us)
                      else (insert (d_Digest d) seen, us @ [\<lparr>up_entry = i, up_desc = d\<rparr>]))"

definition transfer_uploads :: "'w plan \<Rightarrow> upload list" where
  "transfer_uploads p =
     snd (fold (\<lambda>(i, e). uploads_of i (en_Missing e)) (enumerate 0 (pl_Entries p)) ({}, []))"

text \<open>
  The body of an upload is the section of the blob's reader. With a progress callback it is read
  through \<open>progressReader\<close>, which passes the same bytes on and emits one event per non-empty chunk.
\<close>

definition transfer_putBlob ::
  "oci_lib \<Rightarrow> 'w image \<Rightarrow> descriptor \<Rightarrow> 'w backend \<Rightarrow> ('w, unit) io" where
  "transfer_putBlob L img d dst =
     ebind (map_err (Wrap1 ''transfer: reading'') (od_Blobs (im_Dir img) (d_Digest d))) (\<lambda>r.
       map_err (Wrap1 ''transfer: uploading'') (store_PutBlob L dst d (section_body r)))"

record event =
  ev_Ref :: reference
  ev_Platform :: platform
  ev_Blob :: string
  ev_Done :: int
  ev_Total :: int

fun progress_events :: "event \<Rightarrow> int list \<Rightarrow> event list" where
  "progress_events ev [] = []"
| "progress_events ev (n # ns) =
     (if 0 < n then (let ev' = ev\<lparr>ev_Done := wrap64 (ev_Done ev + n)\<rparr> in ev' # progress_events ev' ns)
      else progress_events ev ns)"

text \<open>
  The same upload as a worker: what is left to do before each of its calls, and the result of the
  goroutine.
\<close>

datatype phase = Opening | Checking reader | Creating reader

definition worker_check :: "oci_lib \<Rightarrow> 'w backend \<Rightarrow> descriptor \<Rightarrow> reader \<Rightarrow> ('w, phase + gerr option) io" where
  "worker_check L dst d r =
     (case digest_Validate L (d_Digest d) of
        Some e \<Rightarrow> ret (Inr (Some (Wrap1 ''transfer: uploading'' e)))
      | None \<Rightarrow>
          ebind (attempt (store_HasBlob L dst (d_Digest d))) (\<lambda>has.
            case has of
              Inl e \<Rightarrow> ret (Inr (Some (Wrap1 ''transfer: uploading'' e)))
            | Inr True \<Rightarrow> ret (Inr None)
            | Inr False \<Rightarrow> ret (Inl (Creating r))))"

definition worker_create :: "oci_lib \<Rightarrow> 'w backend \<Rightarrow> descriptor \<Rightarrow> reader \<Rightarrow> ('w, phase + gerr option) io" where
  "worker_create L dst d r =
     ebind (pure_res (store_BlobPath L (d_Digest d))) (\<lambda>name.
     ebind (attempt (b_Create dst name (section_body r) (d_Size d) (d_Digest d))) (\<lambda>res.
       case res of
         Inl e \<Rightarrow> ret (Inr (if err_is e ErrExist then None else Some (Wrap1 ''transfer: uploading'' e)))
       | Inr _ \<Rightarrow> ret (Inr None)))"

definition worker_step ::
  "oci_lib \<Rightarrow> 'w backend \<Rightarrow> 'w image \<Rightarrow> descriptor \<Rightarrow> phase \<Rightarrow> ('w, phase + gerr option) io" where
  "worker_step L dst img d ph =
     (case ph of
        Opening \<Rightarrow>
          ebind (attempt (od_Blobs (im_Dir img) (d_Digest d))) (\<lambda>r.
            case r of
              Inl e \<Rightarrow> ret (Inr (Some (Wrap1 ''transfer: reading'' e)))
            | Inr rd \<Rightarrow> ret (Inl (Checking rd)))
      | Checking r \<Rightarrow> worker_check L dst d r
      | Creating r \<Rightarrow> worker_create L dst d r)"

text \<open>
  The state of \<open>Push\<close> while it uploads: the uploads the loop has not started, the running
  goroutines (each holds a slot of the semaphore), and the errors collected under the mutex.
\<close>

record pool =
  po_pending :: "upload list"
  po_running :: "(upload \<times> phase) list"
  po_errs :: "gerr list"

definition push_start :: "'w plan \<Rightarrow> pool" where
  "push_start p = \<lparr>po_pending = transfer_uploads p, po_running = [], po_errs = []\<rparr>"

definition push_concurrency :: "int \<Rightarrow> nat" where
  "push_concurrency c = (if c \<le> 0 then 4 else nat c)"

definition upload_image :: "'w plan \<Rightarrow> upload \<Rightarrow> 'w image" where
  "upload_image p u = en_Image (pl_Entries p ! up_entry u)"

definition upload_error :: "'w plan \<Rightarrow> upload \<Rightarrow> gerr \<Rightarrow> gerr" where
  "upload_error p u e =
     EntryError (im_Ref (upload_image p u)) (im_Platform (upload_image p u)) e"

text \<open>A step: the loop takes a free slot for the next upload, or one goroutine makes its next call.\<close>

inductive push_step ::
  "oci_lib \<Rightarrow> 'w backend \<Rightarrow> 'w plan \<Rightarrow> nat \<Rightarrow> pool \<times> 'w \<Rightarrow> pool \<times> 'w \<Rightarrow> bool"
  for L dst p conc
where
  start: "po_pending s = u # us \<Longrightarrow> length (po_running s) < conc \<Longrightarrow>
    push_step L dst p conc (s, w)
      (s\<lparr>po_pending := us, po_running := po_running s @ [(u, Opening)]\<rparr>, w)"
| call: "po_running s = xs @ (u, ph) # ys \<Longrightarrow>
    worker_step L dst (upload_image p u) (up_desc u) ph w = (Ok (Inl ph'), w') \<Longrightarrow>
    push_step L dst p conc (s, w) (s\<lparr>po_running := xs @ (u, ph') # ys\<rparr>, w')"
| finish: "po_running s = xs @ (u, ph) # ys \<Longrightarrow>
    worker_step L dst (upload_image p u) (up_desc u) ph w = (Ok (Inr None), w') \<Longrightarrow>
    push_step L dst p conc (s, w) (s\<lparr>po_running := xs @ ys\<rparr>, w')"
| fail: "po_running s = xs @ (u, ph) # ys \<Longrightarrow>
    worker_step L dst (upload_image p u) (up_desc u) ph w = (Ok (Inr (Some e)), w') \<Longrightarrow>
    push_step L dst p conc (s, w)
      (s\<lparr>po_running := xs @ ys, po_errs := po_errs s @ [upload_error p u e]\<rparr>, w')"

inductive_cases push_stepE: "push_step L dst p conc (s, w) (s', w')"
inductive_simps push_step_none: "push_step L dst p conc (\<lparr>po_pending = [], po_running = [], po_errs = es\<rparr>, w) x"

section \<open>Commits\<close>

text \<open>The loop after \<open>wg.Wait()\<close>: every entry adds at most one error.\<close>

definition push_commit ::
  "oci_lib \<Rightarrow> ('w, unit) io \<Rightarrow> 'w backend \<Rightarrow> 'w entry \<Rightarrow> ('w, unit) io" where
  "push_commit L ctx_Err dst e =
     (let img = en_Image e in
      ebind (map_err (EntryError (im_Ref img) (im_Platform img)) ctx_Err) (\<lambda>_.
        map_err (\<lambda>err. EntryError (im_Ref img) (im_Platform img) (Wrap1 ''transfer: committing for'' err))
          (store_Commit L dst (im_Ref img) (im_Platform img) (im_Manifest img))))"

definition push_commits ::
  "oci_lib \<Rightarrow> ('w, unit) io \<Rightarrow> 'w backend \<Rightarrow> 'w plan \<Rightarrow> gerr list \<Rightarrow> ('w, unit) io" where
  "push_commits L ctx_Err dst p errs =
     ebind (collect_errs (push_commit L ctx_Err dst) (pl_Entries p)) (\<lambda>es.
       raise_opt (join_errs (errs @ es)))"

text \<open>
  A run of \<open>Push\<close> with \<open>opt.Concurrency = conc\<close>: some schedule of the pool to its end, in the world
  \<open>w1\<close> when \<open>wg.Wait()\<close> returns, then the commits.
\<close>

definition transfer_Push ::
  "oci_lib \<Rightarrow> ('w, unit) io \<Rightarrow> 'w backend \<Rightarrow> 'w plan \<Rightarrow> int \<Rightarrow> 'w \<Rightarrow> 'w \<Rightarrow> unit res \<times> 'w \<Rightarrow> bool" where
  "transfer_Push L ctx_Err dst p conc w w1 out \<longleftrightarrow>
     (\<exists>s. (push_step L dst p (push_concurrency conc))\<^sup>*\<^sup>* (push_start p, w) (s, w1) \<and>
        po_pending s = [] \<and> po_running s = [] \<and>
        push_commits L ctx_Err dst p (po_errs s) w1 = out)"

text \<open>
  \<open>Push\<close> as a function, for a schedule of its goroutines: \<open>uploads\<close> runs the pool to its end and gives
  the errors it has collected.
\<close>

definition upload_schedule ::
  "oci_lib \<Rightarrow> 'w backend \<Rightarrow> int \<Rightarrow> ('w plan \<Rightarrow> ('w, gerr list) io) \<Rightarrow> bool" where
  "upload_schedule L dst conc uploads \<longleftrightarrow>
     (\<forall>p w. (\<forall>es w1. uploads p w = (Ok es, w1) \<longrightarrow>
        (\<exists>s. (push_step L dst p (push_concurrency conc))\<^sup>*\<^sup>* (push_start p, w) (s, w1) \<and>
           po_pending s = [] \<and> po_running s = [] \<and> po_errs s = es)) \<and>
      (\<forall>e w1. uploads p w \<noteq> (Err e, w1)))"

definition push_run ::
  "oci_lib \<Rightarrow> ('w, unit) io \<Rightarrow> ('w plan \<Rightarrow> ('w, gerr list) io) \<Rightarrow> 'w backend \<Rightarrow> 'w plan \<Rightarrow> ('w, unit) io" where
  "push_run L ctx_Err uploads dst p = ebind (uploads p) (push_commits L ctx_Err dst p)"

text \<open>The schedule that runs one upload after the other, as a function.\<close>

fun push_sequential ::
  "oci_lib \<Rightarrow> 'w backend \<Rightarrow> 'w plan \<Rightarrow> upload list \<Rightarrow> ('w, gerr list) io" where
  "push_sequential L dst p [] = ret []"
| "push_sequential L dst p (u # us) =
     ebind (attempt (transfer_putBlob L (upload_image p u) (up_desc u) dst)) (\<lambda>r.
     ebind (push_sequential L dst p us) (\<lambda>es.
       ret (case r of Inl e \<Rightarrow> upload_error p u e # es | Inr _ \<Rightarrow> es)))"

end
