(* ===== verification/Push_Facts.thy ===== *)
theory Push_Facts
  imports Push
begin

text \<open>
  Proofs about package transfer over any target that meets the backend contract: what a plan says,
  the invariant of the upload pool (bounded, safe, every upload accounted for), its termination,
  and what a push that returns without an error has stored.
\<close>

section \<open>Plans\<close>

lemma bytes_uploads:
  "bytes_of ds (seen, wrap64 ((\<Sum>u\<leftarrow>us. d_Size (up_desc u))))
     = (case uploads_of i ds (seen, us) of (seen', us') \<Rightarrow>
          (seen', wrap64 ((\<Sum>u\<leftarrow>us'. d_Size (up_desc u)))))"
proof (induction ds arbitrary: seen us)
  case Nil
  then show ?case by simp
next
  case (Cons d ds)
  show ?case
    using Cons [of seen us] Cons [of "insert (d_Digest d) seen" "us @ [\<lparr>up_entry = i, up_desc = d\<rparr>]"]
    by (simp add: wrap64_add)
qed

lemma bytes_uploads_fold:
  "fold (\<lambda>e. bytes_of (en_Missing e)) es (seen, wrap64 ((\<Sum>u\<leftarrow>us. d_Size (up_desc u))))
     = (case fold (\<lambda>(i, e). uploads_of i (en_Missing e)) (enumerate n es) (seen, us) of (seen', us') \<Rightarrow>
          (seen', wrap64 ((\<Sum>u\<leftarrow>us'. d_Size (up_desc u)))))"
proof (induction es arbitrary: n seen us)
  case Nil
  then show ?case by simp
next
  case (Cons e es)
  obtain seen' us' where 1: "uploads_of n (en_Missing e) (seen, us) = (seen', us')"
    by (cases "uploads_of n (en_Missing e) (seen, us)")
  show ?case using Cons [of seen' us' "Suc n"] bytes_uploads [of "en_Missing e" seen us n]
    by (simp add: 1)
qed

lemma Bytes_uploads: "transfer_Bytes p = wrap64 (\<Sum>u\<leftarrow>transfer_uploads p. d_Size (up_desc u))"
proof -
  have "wrap64 0 = 0" by (simp add: wrap64_def)
  with bytes_uploads_fold [of "pl_Entries p" "{}" "[]" 0] show ?thesis
    by (simp add: transfer_Bytes_def transfer_uploads_def split: prod.splits)
qed

text \<open>The uploads: every missing digest of the plan once, with the entry that lacks it.\<close>

definition uploads_wf :: "'w entry list \<Rightarrow> string set \<times> upload list \<Rightarrow> bool" where
  "uploads_wf es st \<longleftrightarrow>
     fst st = (\<lambda>u. d_Digest (up_desc u)) ` set (snd st) \<and>
     distinct (map (\<lambda>u. d_Digest (up_desc u)) (snd st)) \<and>
     (\<forall>u \<in> set (snd st). up_entry u < length es \<and> up_desc u \<in> set (en_Missing (es ! up_entry u)))"

lemma uploads_of_wf:
  assumes "uploads_wf es (seen, us)" "i < length es" "set ds \<subseteq> set (en_Missing (es ! i))"
  shows "uploads_wf es (uploads_of i ds (seen, us)) \<and>
    fst (uploads_of i ds (seen, us)) = seen \<union> d_Digest ` set ds"
  using assms
proof (induction ds arbitrary: seen us)
  case Nil
  then show ?case by simp
next
  case (Cons d ds)
  show ?case
  proof (cases "d_Digest d \<in> seen")
    case True
    with Cons show ?thesis by (auto simp: insert_absorb)
  next
    case False
    then have "uploads_wf es (insert (d_Digest d) seen, us @ [\<lparr>up_entry = i, up_desc = d\<rparr>])"
      using Cons.prems by (auto simp: uploads_wf_def)
    from Cons.IH [OF this Cons.prems(2)] Cons.prems(3) False show ?thesis by auto
  qed
qed

lemma uploads_fold_wf:
  assumes "uploads_wf es (seen, us)" "n + length xs = length es" "xs = drop n es"
  shows "uploads_wf es (fold (\<lambda>(i, e). uploads_of i (en_Missing e)) (enumerate n xs) (seen, us)) \<and>
    fst (fold (\<lambda>(i, e). uploads_of i (en_Missing e)) (enumerate n xs) (seen, us))
      = seen \<union> (\<Union>e \<in> set xs. d_Digest ` set (en_Missing e))"
  using assms
proof (induction xs arbitrary: n seen us)
  case Nil
  then show ?case by simp
next
  case (Cons e xs)
  from Cons.prems(2) have "n < length es" by (simp only: list.size)
  with Cons.prems(3) Cons_nth_drop_Suc [OF this] have n: "n < length es" "es ! n = e" "xs = drop (Suc n) es"
    by (simp, metis list.inject, metis list.inject)
  obtain seen' us' where 1: "uploads_of n (en_Missing e) (seen, us) = (seen', us')"
    by (cases "uploads_of n (en_Missing e) (seen, us)")
  from uploads_of_wf [OF Cons.prems(1) n(1), of "en_Missing e"] n(2) 1
  have "uploads_wf es (seen', us')" "seen' = seen \<union> d_Digest ` set (en_Missing e)" by auto
  with Cons.IH [OF this(1), of "Suc n"] Cons.prems(2) n(3) 1 show ?case by auto
qed

lemma transfer_uploads_wf:
  "distinct (map (\<lambda>u. d_Digest (up_desc u)) (transfer_uploads p))"
  "(\<lambda>u. d_Digest (up_desc u)) ` set (transfer_uploads p)
     = (\<Union>e \<in> set (pl_Entries p). d_Digest ` set (en_Missing e))"
  "u \<in> set (transfer_uploads p) \<Longrightarrow> up_entry u < length (pl_Entries p)"
proof -
  let ?st = "fold (\<lambda>(i, e). uploads_of i (en_Missing e)) (enumerate 0 (pl_Entries p)) ({}, [])"
  have 1: "uploads_wf (pl_Entries p) ?st"
    and 2: "fst ?st = (\<Union>e \<in> set (pl_Entries p). d_Digest ` set (en_Missing e))"
    using uploads_fold_wf [of "pl_Entries p" "{}" "[]" 0 "pl_Entries p"]
    by (simp_all add: uploads_wf_def [of _ "({}, [])"])
  have u: "transfer_uploads p = snd ?st" by (simp add: transfer_uploads_def)
  show "distinct (map (\<lambda>u. d_Digest (up_desc u)) (transfer_uploads p))"
    "u \<in> set (transfer_uploads p) \<Longrightarrow> up_entry u < length (pl_Entries p)"
    using 1 unfolding uploads_wf_def u by blast+
  show "(\<lambda>u. d_Digest (up_desc u)) ` set (transfer_uploads p)
     = (\<Union>e \<in> set (pl_Entries p). d_Digest ` set (en_Missing e))"
    using 1 2 unfolding uploads_wf_def u by metis
qed

text \<open>A listing of platforms loses no pair: each gives an entry or an error.\<close>

lemma plan_platforms_count:
  "plan_platforms L src dst ref ps (plan, errs) w = (Ok (plan', errs'), w') \<Longrightarrow>
     length (pl_Entries plan') + length errs' = length (pl_Entries plan) + length errs + length ps"
proof (induction ps arbitrary: plan errs w)
  case Nil
  then show ?case by simp
next
  case (Cons p ps)
  from Cons.prems obtain r w1 where
    "plan_platforms L src dst ref ps (case r of Inl e \<Rightarrow> (plan, errs @ [e])
       | Inr en \<Rightarrow> (plan\<lparr>pl_Entries := pl_Entries plan @ [en]\<rparr>, errs)) w1 = (Ok (plan', errs'), w')"
    by (auto simp: ebind_Ok)
  then show ?case by (cases r) (auto dest!: Cons.IH)
qed

lemma plan_images_count:
  assumes "plan_images L src dst ps ss (plan, errs) w = (Ok (plan', errs'), w')"
  shows "length (pl_Entries plan') + length errs' = length (pl_Entries plan) + length errs +
    sum_list (map (\<lambda>s. if \<exists>r. types_ParseReference L s = Ok r then length ps else 1) ss)"
  using assms
proof (induction ss arbitrary: plan errs w)
  case Nil
  then show ?case by simp
next
  case (Cons s ss)
  show ?case
  proof (cases "types_ParseReference L s")
    case (Ok ref)
    with Cons.prems obtain plan1 errs1 w1 where
      1: "plan_platforms L src dst ref ps (plan, errs) w = (Ok (plan1, errs1), w1)"
      and 2: "plan_images L src dst ps ss (plan1, errs1) w1 = (Ok (plan', errs'), w')"
      by (auto simp: ebind_Ok)
    from Cons.IH [OF 2] plan_platforms_count [OF 1] Ok show ?thesis by simp
  next
    case (Err e)
    with Cons.prems have "plan_images L src dst ps ss (plan, errs @ [e]) w = (Ok (plan', errs'), w')"
      by simp
    from Cons.IH [OF this] Err show ?thesis by simp
  next
    case Panic
    with Cons.prems show ?thesis by simp
  qed
qed

section \<open>Termination of the pool\<close>

fun phase_calls :: "phase \<Rightarrow> nat" where
  "phase_calls Opening = 3"
| "phase_calls (Checking r) = 2"
| "phase_calls (Creating r) = 1"

text \<open>The steps a pool has left.\<close>

definition pool_steps :: "pool \<Rightarrow> nat" where
  "pool_steps s = 4 * length (po_pending s) + sum_list (map (phase_calls \<circ> snd) (po_running s))"

lemma worker_step_calls:
  assumes "worker_step L dst img d ph w = (Ok (Inl ph'), w')"
  shows "phase_calls ph' < phase_calls ph"
proof (cases ph)
  case Opening
  with assms have "ebind (attempt (od_Blobs (im_Dir img) (d_Digest d))) (\<lambda>r. case r of
      Inl e \<Rightarrow> ret (Inr (Some (Wrap1 ''transfer: reading'' e)))
    | Inr rd \<Rightarrow> ret (Inl (Checking rd))) w = (Ok (Inl ph'), w')" by (simp add: worker_step_def)
  then show ?thesis by (cases rule: ebind_attemptE) (use Opening in auto)
next
  case (Checking r)
  with assms have "worker_check L dst d r w = (Ok (Inl ph'), w')" by (simp add: worker_step_def)
  then have "\<exists>r. ph' = Creating r"
    unfolding worker_check_def
    by (cases "digest_Validate L (d_Digest d)") (auto elim!: ebind_attemptE split: bool.splits)
  with Checking show ?thesis by auto
next
  case (Creating r)
  with assms have "worker_create L dst d r w = (Ok (Inl ph'), w')" by (simp add: worker_step_def)
  then show ?thesis
    unfolding worker_create_def by (cases "store_BlobPath L (d_Digest d)") (auto elim!: ebind_attemptE)
qed

lemma phase_calls_pos [simp]: "0 < phase_calls ph"
  by (cases ph) simp_all

lemma push_step_decreases: "push_step L dst p conc (s, w) (s', w') \<Longrightarrow> pool_steps s' < pool_steps s"
  by (erule push_stepE) (auto simp: pool_steps_def dest!: worker_step_calls)

lemma push_steps_bound:
  assumes "(push_step L dst p conc ^^ n) (s, w) (s', w')"
  shows "n + pool_steps s' \<le> pool_steps s"
  using assms
proof (induction n arbitrary: s' w')
  case 0
  then show ?case by simp
next
  case (Suc n)
  then obtain s1 w1 where "(push_step L dst p conc ^^ n) (s, w) (s1, w1)"
    "push_step L dst p conc (s1, w1) (s', w')" by auto
  with Suc.IH [OF this(1)] push_step_decreases [OF this(2)] show ?case by simp
qed

text \<open>A pool that is not done can go on, unless a call it is about to make panics.\<close>

lemma worker_create_no_Err: "worker_create L dst d r w \<noteq> (Err e, w')"
  unfolding worker_create_def store_BlobPath_def digest_split_def
  by (auto elim!: ebind_attemptE split: option.splits)

lemma worker_check_no_Err: "worker_check L dst d r w \<noteq> (Err e, w')"
  unfolding worker_check_def
  by (auto elim!: ebind_attemptE split: option.splits bool.splits)

lemma worker_step_no_Err: "worker_step L dst img d ph w = (Err e, w') \<Longrightarrow> False"
  by (cases ph) (auto simp: worker_step_def worker_create_no_Err worker_check_no_Err elim!: ebind_attemptE)

lemma push_progress:
  assumes "0 < conc" "po_pending s \<noteq> [] \<or> po_running s \<noteq> []"
  shows "(\<exists>x. push_step L dst p conc (s, w) x) \<or>
    (\<exists>(u, ph) \<in> set (po_running s). \<exists>w'. worker_step L dst (upload_image p u) (up_desc u) ph w = (Panic, w'))"
proof (cases "po_running s")
  case Nil
  with assms obtain u us where "po_pending s = u # us" by (cases "po_pending s") auto
  with push_step.start [of s u us conc L dst p w] Nil assms(1) show ?thesis by auto
next
  case (Cons r rs)
  obtain u ph where r: "r = (u, ph)" by (cases r)
  with Cons have run: "po_running s = [] @ (u, ph) # rs" by simp
  obtain res w' where step: "worker_step L dst (upload_image p u) (up_desc u) ph w = (res, w')"
    by (cases "worker_step L dst (upload_image p u) (up_desc u) ph w")
  show ?thesis
  proof (cases res)
    case (Ok x)
    note step = step [unfolded Ok]
    show ?thesis
    proof (cases x)
      case (Inl ph')
      from push_step.call [OF run step [unfolded Inl]] show ?thesis by blast
    next
      case (Inr e)
      note step = step [unfolded Inr]
      show ?thesis
      proof (cases e)
        case None
        from push_step.finish [OF run step [unfolded None]] show ?thesis by blast
      next
        case (Some e')
        from push_step.fail [OF run step [unfolded Some]] show ?thesis by blast
      qed
    qed
  next
    case (Err e)
    with step show ?thesis by (auto dest: worker_step_no_Err)
  next
    case Panic
    with step Cons r show ?thesis by auto
  qed
qed

section \<open>The pool over a backend\<close>

text \<open>
  What the proofs ask of an image's source: its calls leave the target alone, and a blob it opens
  does not fail as if a file of the target existed.
\<close>

definition source_dir :: "('w \<Rightarrow> tree) \<Rightarrow> ('w \<Rightarrow> bool) \<Rightarrow> 'w oci_dir \<Rightarrow> bool" where
  "source_dir tree ok dir \<longleftrightarrow>
     (\<forall>d. moves (\<lambda>w w'. tree w' = tree w \<and> (ok w \<longrightarrow> ok w')) (od_Blobs dir d)) \<and>
     (\<forall>d w rd w'. ok w \<longrightarrow> od_Blobs dir d w = (Ok rd, w') \<longrightarrow> body_ok (section_body rd))"

definition plan_sources :: "('w \<Rightarrow> tree) \<Rightarrow> ('w \<Rightarrow> bool) \<Rightarrow> 'w plan \<Rightarrow> bool" where
  "plan_sources tree ok p \<longleftrightarrow> (\<forall>e \<in> set (pl_Entries p). source_dir tree ok (im_Dir (en_Image e)))"

text \<open>A running upload is past its validation when it is about to create, and its body is sound.\<close>

fun phase_ok :: "oci_lib \<Rightarrow> descriptor \<Rightarrow> phase \<Rightarrow> bool" where
  "phase_ok L d Opening = True"
| "phase_ok L d (Checking r) = body_ok (section_body r)"
| "phase_ok L d (Creating r) = (body_ok (section_body r) \<and> valid_digest L (d_Digest d))"

text \<open>
  The invariant of the pool: the slots taken, sound phases, and every upload of the plan waits, runs,
  has its blob in the target or has its error recorded.
\<close>

definition pool_inv :: "oci_lib \<Rightarrow> tree \<Rightarrow> 'w plan \<Rightarrow> nat \<Rightarrow> pool \<Rightarrow> bool" where
  "pool_inv L t p conc s \<longleftrightarrow>
     length (po_running s) \<le> conc \<and>
     (\<forall>(u, ph) \<in> set (po_running s). phase_ok L (up_desc u) ph) \<and>
     set (po_pending s) \<union> fst ` set (po_running s) \<subseteq> set (transfer_uploads p) \<and>
     (\<forall>u \<in> set (transfer_uploads p).
        u \<in> set (po_pending s) \<or> u \<in> fst ` set (po_running s) \<or>
        has_blob L t (d_Digest (up_desc u)) \<or> (\<exists>e. upload_error p u e \<in> set (po_errs s)))"

lemma pool_inv_start: "pool_inv L t p conc (push_start p)"
  by (simp add: pool_inv_def push_start_def)

lemma pool_inv_mono: "pool_inv L t p conc s \<Longrightarrow> t \<subseteq>\<^sub>m t' \<Longrightarrow> pool_inv L t' p conc s"
  unfolding pool_inv_def by (meson has_blob_mono)

lemma pool_inv_call:
  assumes "pool_inv L t p conc s" "po_running s = xs @ (u, ph) # ys" "phase_ok L (up_desc u) ph'"
  shows "pool_inv L t p conc (s\<lparr>po_running := xs @ (u, ph') # ys\<rparr>)"
  using assms unfolding pool_inv_def by simp

lemma pool_inv_finish:
  assumes "pool_inv L t p conc s" "po_running s = xs @ (u, ph) # ys"
    and "has_blob L t (d_Digest (up_desc u)) \<or> (\<exists>e. upload_error p u e \<in> set es)"
  shows "pool_inv L t p conc (s\<lparr>po_running := xs @ ys, po_errs := po_errs s @ es\<rparr>)"
  using assms unfolding pool_inv_def by auto

context store_backend
begin

lemma source_dirD:
  assumes "source_dir tree ok dir"
  shows "reads (od_Blobs dir d)"
    and "ok w \<Longrightarrow> od_Blobs dir d w = (Ok rd, w') \<Longrightarrow> body_ok (section_body rd)"
  using assms unfolding source_dir_def by blast+

text \<open>The store's own images are sources: a push from the store is a mirror.\<close>

lemma source_Blob:
  assumes laws: "digest_laws L" and w: "ok w" "store_Blob L B d w = (Ok rd, w')"
  shows "body_ok (section_body rd)"
proof -
  from w(2) have v: "valid_digest L d"
    by (auto simp: store_Blob_def valid_digest_def split: option.splits)
  have n: "store_file (seg_path (blob_segs L d))"
    by (simp add: store_file_seg_path store_segs_blob [OF laws v])
  from w(2) v have "b_Open B (seg_path (blob_segs L d)) w = (Ok rd, w')"
    by (simp add: store_Blob_def valid_digest_def BlobPath_valid [OF laws v])
  with open_Ok [OF w(1) n] serves_body_ok show ?thesis by blast
qed

lemma source_image: "digest_laws L \<Longrightarrow> source_dir tree ok (im_Dir (store_image L B ref p md leaf))"
  unfolding source_dir_def store_image_def store_SingleManifestDir_def store_leafDir_def
  by (auto simp: Let_def reads_Blob dest: source_Blob)

lemma source_Resolve:
  "digest_laws L \<Longrightarrow> store_Resolve L B ref p w = (Ok im, w') \<Longrightarrow> source_dir tree ok (im_Dir im)"
  unfolding store_Resolve_def
  by (auto simp: source_image elim!: ebindE ebind_attemptE split: sum.splits if_splits prod.splits)

lemma Creating_safe:
  assumes "digest_laws L" "phase_ok L d (Creating r)"
  shows "safe (worker_create L B d r)"
  using assms(2) unfolding worker_create_def
  by (auto simp: BlobPath_valid [OF assms(1)] intro!: keeps_intros safe_create_blob [OF assms(1)] split: sum.splits)

lemma Checking_safe: "safe (worker_check L B d r)"
  unfolding worker_check_def
  by (auto intro!: keeps_intros reads_safe [OF reads_HasBlob] split: option.splits sum.splits bool.splits)

lemma worker_safe:
  assumes "digest_laws L" "source_dir tree ok (im_Dir img)" "phase_ok L d ph"
  shows "safe (worker_step L B img d ph)"
proof (cases ph)
  case Opening
  then show ?thesis
    by (auto simp: worker_step_def intro!: keeps_intros reads_safe [OF source_dirD(1) [OF assms(2)]] split: sum.splits)
qed (use assms(1,3) Creating_safe Checking_safe in \<open>simp_all add: worker_step_def\<close>)

text \<open>What the three kinds of result of a call say.\<close>

lemma worker_next:
  assumes laws: "digest_laws L" and src: "source_dir tree ok (im_Dir img)" and ph: "phase_ok L d ph"
    and w: "ok w" "worker_step L B img d ph w = (Ok (Inl ph'), w')"
  shows "phase_ok L d ph'"
proof (cases ph)
  case Opening
  with w(2) have "ebind (attempt (od_Blobs (im_Dir img) (d_Digest d))) (\<lambda>r. case r of
      Inl e \<Rightarrow> ret (Inr (Some (Wrap1 ''transfer: reading'' e)))
    | Inr rd \<Rightarrow> ret (Inl (Checking rd))) w = (Ok (Inl ph'), w')" by (simp add: worker_step_def)
  then show ?thesis
    by (cases rule: ebind_attemptE) (auto dest: source_dirD(2) [OF src w(1)])
next
  case (Checking r)
  with w(2) have "worker_check L B d r w = (Ok (Inl ph'), w')" by (simp add: worker_step_def)
  then have "ph' = Creating r \<and> digest_Validate L (d_Digest d) = None"
    unfolding worker_check_def
    by (cases "digest_Validate L (d_Digest d)") (auto elim!: ebind_attemptE split: bool.splits)
  with Checking ph show ?thesis by (simp add: valid_digest_def)
next
  case (Creating r)
  with w(2) worker_step_calls [OF w(2)] show ?thesis by (cases ph') auto
qed

lemma worker_done:
  assumes laws: "digest_laws L" and ph: "phase_ok L d ph"
    and w: "ok w" "worker_step L B img d ph w = (Ok (Inr None), w')"
  shows "has_blob L (tree w') (d_Digest d)"
proof (cases ph)
  case Opening
  with w(2) show ?thesis by (auto simp: worker_step_def elim!: ebind_attemptE)
next
  case (Checking r)
  with w(2) have run: "worker_check L B d r w = (Ok (Inr None), w')" by (simp add: worker_step_def)
  then have "store_HasBlob L B (d_Digest d) w = (Ok True, w')"
    unfolding worker_check_def
    by (cases "digest_Validate L (d_Digest d)") (auto elim!: ebind_attemptE split: bool.splits)
  from HasBlob_Ok [OF laws w(1) this] movesD [OF reads_HasBlob this] show ?thesis by simp
next
  case (Creating r)
  with ph have v: "valid_digest L (d_Digest d)" and src: "body_ok (section_body r)" by auto
  let ?n = "seg_path (blob_segs L (d_Digest d))"
  have n: "store_file ?n" by (simp add: store_file_seg_path store_segs_blob [OF laws v])
  from Creating w(2) have "worker_create L B d r w = (Ok (Inr None), w')" by (simp add: worker_step_def)
  then consider (new) "b_Create B ?n (section_body r) (d_Size d) (d_Digest d) w = (Ok (), w')"
    | (raced) e where "b_Create B ?n (section_body r) (d_Size d) (d_Digest d) w = (Err e, w')" "err_is e ErrExist"
    unfolding worker_create_def by (auto simp: BlobPath_valid [OF laws v] elim!: ebind_attemptE split: if_splits)
  then have "\<exists>c. tree w' ?n = Some c"
    by cases (auto dest: create_present(1) [OF w(1) n] create_present(2) [OF w(1) n _ _ src])
  with v show ?thesis by (auto simp: has_blob_def)
qed

lemma push_step_inv:
  assumes laws: "digest_laws L" and src: "plan_sources tree ok p"
    and inv: "pool_inv L (tree w) p conc s" and w: "ok w" "store_inv L (tree w)"
    and step: "push_step L B p conc (s, w) (s', w')"
  shows "pool_inv L (tree w') p conc s' \<and> safe_step w w'"
proof -
  have run: "safe_step w w2 \<and> phase_ok L (up_desc u) ph \<and> source_dir tree ok (im_Dir (upload_image p u))"
    if "po_running s = xs @ (u, ph) # ys"
      "worker_step L B (upload_image p u) (up_desc u) ph w = (res, w2)" for xs u ph ys res w2
  proof -
    from inv that(1) have ph: "phase_ok L (up_desc u) ph" and "u \<in> set (transfer_uploads p)"
      by (auto simp: pool_inv_def)
    with src have dir: "source_dir tree ok (im_Dir (upload_image p u))"
      using nth_mem [OF transfer_uploads_wf(3)] by (auto simp: plan_sources_def upload_image_def)
    from movesD [OF worker_safe [OF laws dir ph] that(2)] ph dir show ?thesis by blast
  qed
  from step show ?thesis
  proof (cases rule: push_stepE [consumes 1, case_names start call finish fail])
    case (start u us)
    with inv show ?thesis by (auto simp: pool_inv_def)
  next
    case (call xs u ph ys ph')
    note r = run [OF call(2,3)]
    have "phase_ok L (up_desc u) ph'" using worker_next [OF laws _ _ w(1) call(3)] r by blast
    then show ?thesis
      using pool_inv_call [OF pool_inv_mono [OF inv] call(2)] r w call(1) by blast
  next
    case (finish xs u ph ys)
    note r = run [OF finish(2,3)]
    have "has_blob L (tree w') (d_Digest (up_desc u))" using worker_done [OF laws _ w(1) finish(3)] r by blast
    then show ?thesis
      using pool_inv_finish [OF pool_inv_mono [OF inv] finish(2), of _ "[]"] r w finish(1) by simp
  next
    case (fail xs u ph ys e)
    note r = run [OF fail(2,3)]
    show ?thesis
      using pool_inv_finish [OF pool_inv_mono [OF inv] fail(2), of _ "[upload_error p u e]"] r w fail(1) by auto
  qed
qed

lemma push_steps_inv:
  assumes laws: "digest_laws L" and src: "plan_sources tree ok p" and w: "ok w" "store_inv L (tree w)"
    and steps: "(push_step L B p conc)\<^sup>*\<^sup>* (push_start p, w) (s, w1)"
  shows "pool_inv L (tree w1) p conc s \<and> safe_step w w1"
  using steps
proof (induction rule: rtranclp_induct2)
  case refl
  show ?case by (simp add: pool_inv_start)
next
  case (step s1 w1 s2 w2)
  with w push_step_inv [OF laws src, of w1 conc s1 s2 w2] show ?case
    by (blast intro: map_le_trans)
qed

end

section \<open>Commits and whole pushes\<close>

text \<open>The commits add files that are no blobs, so what the configs list stays valid.\<close>

definition plan_leafable :: "oci_lib \<Rightarrow> 'w plan \<Rightarrow> bool" where
  "plan_leafable L p \<longleftrightarrow>
     (\<forall>e \<in> set (pl_Entries p). leafable L (im_Ref (en_Image e)) (im_Platform (en_Image e)))"

text \<open>An entry's leaf names its manifest and the image behind it is complete.\<close>

definition entry_committed :: "oci_lib \<Rightarrow> tree \<Rightarrow> 'w entry \<Rightarrow> bool" where
  "entry_committed L t e \<longleftrightarrow>
     (let img = en_Image e; d = d_Digest (im_Manifest img) in
      image_closed L t (im_Platform img) d \<and>
      (\<exists>md. leaf_holds L t (im_Ref img) (im_Platform img) md \<and> d_Digest md = d))"

lemma entry_committed_mono: "entry_committed L t e \<Longrightarrow> t \<subseteq>\<^sub>m t' \<Longrightarrow> entry_committed L t' e"
  unfolding entry_committed_def Let_def by (blast intro: image_closed_mono leaf_holds_mono)

context store_backend
begin

abbreviation commit_step :: "'w \<Rightarrow> 'w \<Rightarrow> bool" where
  "commit_step \<equiv> \<lambda>w w'. ok w \<and> store_inv L (tree w) \<and> diff_ids_valid L (tree w) \<longrightarrow>
     ok w' \<and> store_inv L (tree w') \<and> diff_ids_valid L (tree w') \<and> tree w \<subseteq>\<^sub>m tree w'"

lemma commit_rel [simp]: "reflp commit_step" "transp commit_step"
  by (auto intro!: reflpI transpI intro: map_le_trans)

lemma Commit_step:
  assumes "digest_laws L" "json_laws L" "leafable L ref p"
  shows "moves commit_step (store_Commit L B ref p md)"
proof (rule movesI, intro impI)
  fix w r w' assume run: "store_Commit L B ref p md w = (r, w')"
    and w: "ok w \<and> store_inv L (tree w) \<and> diff_ids_valid L (tree w)"
  from w have "diff_ids_valid L (tree w')"
    using Commit_blobs [OF assms(1,3) _ _ run] by (simp add: diff_ids_valid_def)
  with Commit_safe(1) [OF assms _ _ _ run] w
  show "ok w' \<and> store_inv L (tree w') \<and> diff_ids_valid L (tree w') \<and> tree w \<subseteq>\<^sub>m tree w'" by blast
qed

lemma push_commit_step:
  assumes laws: "digest_laws L" "json_laws L" and ctx: "reads ctx_Err"
    and leaf: "leafable L (im_Ref (en_Image e)) (im_Platform (en_Image e))"
  shows "moves commit_step (push_commit L ctx_Err B e)"
proof -
  have "moves commit_step ctx_Err" using ctx unfolding moves_def by auto
  then show ?thesis
    unfolding push_commit_def Let_def by (intro keeps_intros Commit_step laws leaf) simp_all
qed

lemma push_commit_Ok:
  assumes laws: "digest_laws L" "json_laws L" and ctx: "reads ctx_Err"
    and leaf: "leafable L (im_Ref (en_Image e)) (im_Platform (en_Image e))"
    and w: "ok w" "store_inv L (tree w)" "diff_ids_valid L (tree w)"
    and run: "push_commit L ctx_Err B e w = (Ok (), w')"
  shows "entry_committed L (tree w') e"
proof -
  let ?i = "en_Image e"
  from run obtain u w1 where c: "ctx_Err w = (Ok u, w1)"
    and run: "store_Commit L B (im_Ref ?i) (im_Platform ?i) (im_Manifest ?i) w1 = (Ok (), w')"
    by (auto simp: push_commit_def Let_def ebind_Ok map_err_Ok)
  from movesD [OF ctx c] w have w1: "ok w1" "store_inv L (tree w1)" "diff_ids_valid L (tree w1)" by simp_all
  from Commit_safe(2) [OF laws leaf w1(3,1,2) run refl] show ?thesis
    by (simp add: entry_committed_def Let_def)
qed

lemma push_commits_step:
  assumes laws: "digest_laws L" "json_laws L" and ctx: "reads ctx_Err" and leaf: "plan_leafable L p"
  shows "moves commit_step (push_commits L ctx_Err B p errs)"
  unfolding push_commits_def
  by (intro keeps_intros push_commit_step laws ctx)
    (use leaf in \<open>simp_all add: plan_leafable_def\<close>)

lemma push_commits_Ok:
  assumes laws: "digest_laws L" "json_laws L" and ctx: "reads ctx_Err" and leaf: "plan_leafable L p"
    and w: "ok w" "store_inv L (tree w)" "diff_ids_valid L (tree w)"
    and run: "push_commits L ctx_Err B p errs w = (Ok (), w')" and e: "e \<in> set (pl_Entries p)"
  shows "errs = []" "entry_committed L (tree w') e"
proof -
  from run have c: "errs = []" "collect_errs (push_commit L ctx_Err B) (pl_Entries p) w = (Ok [], w')"
    by (auto simp: push_commits_def ebind_Ok raise_opt_Ok)
  show "errs = []" by (rule c(1))
  have step: "moves commit_step (push_commit L ctx_Err B e)" if "e \<in> set (pl_Entries p)" for e
    using push_commit_step [OF laws ctx] leaf that by (simp add: plan_leafable_def)
  from collect_errs_Nil [OF c(2) e commit_rel(2,1) step] w obtain w1 w2 where
    1: "ok w1" "store_inv L (tree w1)" "diff_ids_valid L (tree w1)"
    and 2: "push_commit L ctx_Err B e w1 = (Ok (), w2)" and 3: "commit_step w2 w'" by blast
  from movesD [OF step [OF e] 2] 1 3 have "tree w2 \<subseteq>\<^sub>m tree w'" by blast
  moreover have "entry_committed L (tree w2) e"
    using push_commit_Ok [OF laws ctx _ 1 2] leaf e by (simp add: plan_leafable_def)
  ultimately show "entry_committed L (tree w') e" by (blast intro: entry_committed_mono)
qed

lemma Push_safe:
  assumes laws: "digest_laws L" "json_laws L" and ctx: "reads ctx_Err" and leaf: "plan_leafable L p"
    and src: "plan_sources tree ok p" and w: "ok w" "store_inv L (tree w)"
    and run: "transfer_Push L ctx_Err B p conc w w1 (r, w')" and diffs: "diff_ids_valid L (tree w1)"
  shows "ok w' \<and> store_inv L (tree w') \<and> tree w \<subseteq>\<^sub>m tree w'"
    and "r = Ok () \<Longrightarrow> e \<in> set (pl_Entries p) \<Longrightarrow> entry_committed L (tree w') e"
    and "r = Ok () \<Longrightarrow> d \<in> set (en_Missing e) \<Longrightarrow> e \<in> set (pl_Entries p) \<Longrightarrow> has_blob L (tree w') (d_Digest d)"
proof -
  from run obtain s where steps: "(push_step L B p (push_concurrency conc))\<^sup>*\<^sup>* (push_start p, w) (s, w1)"
    and fin: "po_pending s = []" "po_running s = []"
    and com: "push_commits L ctx_Err B p (po_errs s) w1 = (r, w')"
    by (auto simp: transfer_Push_def)
  from push_steps_inv [OF laws(1) src w steps] w
  have inv: "pool_inv L (tree w1) p (push_concurrency conc) s"
    and w1: "ok w1" "store_inv L (tree w1)" "tree w \<subseteq>\<^sub>m tree w1" by auto
  from movesD [OF push_commits_step [OF laws ctx leaf] com] w1 diffs
  have grow: "ok w'" "store_inv L (tree w')" "tree w1 \<subseteq>\<^sub>m tree w'" by auto
  with w1(3) show "ok w' \<and> store_inv L (tree w') \<and> tree w \<subseteq>\<^sub>m tree w'" by (blast intro: map_le_trans)
  {
    assume r: "r = Ok ()" and e: "e \<in> set (pl_Entries p)"
    from push_commits_Ok(2) [OF laws ctx leaf w1(1,2) diffs com [unfolded r] e]
    show "entry_committed L (tree w') e" .
  next
    assume r: "r = Ok ()" and d: "d \<in> set (en_Missing e)" and e: "e \<in> set (pl_Entries p)"
    from push_commits_Ok(1) [OF laws ctx leaf w1(1,2) diffs com [unfolded r] e] have "po_errs s = []" .
    moreover from d e have "d_Digest d \<in> (\<lambda>u. d_Digest (up_desc u)) ` set (transfer_uploads p)"
      unfolding transfer_uploads_wf(2) by blast
    ultimately have "has_blob L (tree w1) (d_Digest d)"
      using inv fin by (auto simp: pool_inv_def)
    with grow(3) show "has_blob L (tree w') (d_Digest d)" by (blast intro: has_blob_mono)
  }
qed

text \<open>What \<open>Diff\<close> reports is what the target holds.\<close>

lemma diff_loop_Ok:
  assumes laws: "digest_laws L" and w: "ok w" "diff_loop L B ds e w = (Ok e', w')"
  shows "tree w' = tree w \<and> ok w' \<and> e' = e\<lparr>
    en_Present := en_Present e @ filter (\<lambda>d. has_blob L (tree w) (d_Digest d)) ds,
    en_Missing := en_Missing e @ filter (\<lambda>d. \<not> has_blob L (tree w) (d_Digest d)) ds\<rparr>"
  using w
proof (induction ds arbitrary: e w)
  case Nil
  then show ?case by simp
next
  case (Cons d ds)
  from Cons.prems(2) obtain has w1 where has: "store_HasBlob L B (d_Digest d) w = (Ok has, w1)"
    and rest: "diff_loop L B ds (if has then e\<lparr>en_Present := en_Present e @ [d]\<rparr>
          else e\<lparr>en_Missing := en_Missing e @ [d]\<rparr>) w1 = (Ok e', w')"
    by (auto simp: ebind_Ok)
  from movesD [OF reads_HasBlob has] Cons.prems(1) have w1: "ok w1" "tree w1 = tree w" by auto
  from Cons.IH [OF w1(1) rest] HasBlob_Ok(2) [OF laws Cons.prems(1) has] w1(2) show ?case by simp
qed

lemma Diff_Ok:
  assumes laws: "digest_laws L" and src: "source_dir tree ok (im_Dir img)"
    and w: "ok w" "transfer_Diff L img B w = (Ok e, w')"
  shows "\<exists>rd w1 b m. od_Blobs (im_Dir img) (d_Digest (im_Manifest img)) w = (Ok rd, w1) \<and> read_all rd = Ok b \<and>
    digest_FromBytes L b = d_Digest (im_Manifest img) \<and> json_Manifest L b = Inr m \<and> en_Image e = img \<and>
    (let ds = m_Layers m @ [m_Config m, im_Manifest img] in
      en_Present e = filter (\<lambda>d. has_blob L (tree w) (d_Digest d)) ds \<and>
      en_Missing e = filter (\<lambda>d. \<not> has_blob L (tree w) (d_Digest d)) ds)"
proof -
  from w(2) obtain ds w1 where blobs: "transfer_ImageBlobs L img w = (Ok ds, w1)"
    and loop: "diff_loop L B ds \<lparr>en_Image = img, en_Missing = [], en_Present = [], en_Fallback = False\<rparr> w1 = (Ok e, w')"
    by (auto simp: transfer_Diff_def ebind_Ok)
  from blobs obtain rd b m where rd: "od_Blobs (im_Dir img) (d_Digest (im_Manifest img)) w = (Ok rd, w1)"
    and b: "read_all rd = Ok b" "digest_FromBytes L b = d_Digest (im_Manifest img)" "json_Manifest L b = Inr m"
    and ds: "ds = m_Layers m @ [m_Config m, im_Manifest img]"
    by (auto simp: transfer_ImageBlobs_def ebind_Ok split: if_splits sum.splits)
  from movesD [OF source_dirD(1) [OF src] rd] w(1) have w1: "ok w1" "tree w1 = tree w" by auto
  show ?thesis
    using diff_loop_Ok [OF laws w1(1) loop] w1(2) ds rd b
    by (intro exI [of _ rd] exI [of _ w1] exI [of _ b] exI [of _ m]) (simp add: Let_def)
qed

end

section \<open>One upload after the other\<close>

text \<open>
  The result of the upload \<open>u\<close> on its own: the function \<open>putBlob\<close> and the worker that makes the same
  calls one by one agree.
\<close>

definition upload_ends ::
  "oci_lib \<Rightarrow> 'w backend \<Rightarrow> 'w plan \<Rightarrow> nat \<Rightarrow> upload \<Rightarrow> phase \<Rightarrow> 'w \<Rightarrow> unit res \<Rightarrow> 'w \<Rightarrow> bool" where
  "upload_ends L dst p conc u ph w res w' \<longleftrightarrow>
     (\<forall>us es. (push_step L dst p conc)\<^sup>*\<^sup>*
        (\<lparr>po_pending = us, po_running = [(u, ph)], po_errs = es\<rparr>, w)
        (\<lparr>po_pending = us, po_running = [],
          po_errs = es @ (case res of Err e \<Rightarrow> [upload_error p u e] | _ \<Rightarrow> [])\<rparr>, w'))"

lemma upload_ends_call:
  assumes "worker_step L dst (upload_image p u) (up_desc u) ph w = (Ok (Inl ph'), w1)"
    and "upload_ends L dst p conc u ph' w1 res w'"
  shows "upload_ends L dst p conc u ph w res w'"
  unfolding upload_ends_def
proof (intro allI)
  fix us es
  let ?s = "\<lparr>po_pending = us, po_running = [(u, ph)], po_errs = es\<rparr>"
  have "push_step L dst p conc (?s, w) (?s\<lparr>po_running := [] @ (u, ph') # []\<rparr>, w1)"
    by (rule push_step.call [OF _ assms(1)]) simp
  with assms(2) show "(push_step L dst p conc)\<^sup>*\<^sup>* (?s, w)
      (\<lparr>po_pending = us, po_running = [],
        po_errs = es @ (case res of Err e \<Rightarrow> [upload_error p u e] | _ \<Rightarrow> [])\<rparr>, w')"
    by (simp add: upload_ends_def converse_rtranclp_into_rtranclp)
qed

lemma upload_ends_finish:
  assumes "worker_step L dst (upload_image p u) (up_desc u) ph w = (Ok (Inr None), w')"
  shows "upload_ends L dst p conc u ph w (Ok ()) w'"
  unfolding upload_ends_def
  using push_step.finish [of "\<lparr>po_pending = us, po_running = [(u, ph)], po_errs = es\<rparr>" "[]" u ph "[]" for us es, OF _ assms]
  by (simp add: r_into_rtranclp)

lemma upload_ends_fail:
  assumes "worker_step L dst (upload_image p u) (up_desc u) ph w = (Ok (Inr (Some e)), w')"
  shows "upload_ends L dst p conc u ph w (Err e) w'"
  unfolding upload_ends_def
  using push_step.fail [of "\<lparr>po_pending = us, po_running = [(u, ph)], po_errs = es\<rparr>" "[]" u ph "[]" for us es, OF _ assms]
  by (simp add: r_into_rtranclp)

lemma create_ends:
  assumes "valid_digest L (d_Digest (up_desc u))"
    and "map_err (Wrap1 ''transfer: uploading'')
      (ebind (pure_res (store_BlobPath L (d_Digest (up_desc u)))) (\<lambda>name.
       ebind (attempt (b_Create dst name (section_body r) (d_Size (up_desc u)) (d_Digest (up_desc u)))) (\<lambda>res.
         case res of Inl e \<Rightarrow> if err_is e ErrExist then ret () else throw e | Inr _ \<Rightarrow> ret ()))) w = (res, w')"
    and "res \<noteq> Panic"
  shows "upload_ends L dst p conc u (Creating r) w res w'"
proof -
  obtain x where m: "ebind (pure_res (store_BlobPath L (d_Digest (up_desc u)))) (\<lambda>name.
       ebind (attempt (b_Create dst name (section_body r) (d_Size (up_desc u)) (d_Digest (up_desc u)))) (\<lambda>res.
         case res of Inl e \<Rightarrow> if err_is e ErrExist then ret () else throw e | Inr _ \<Rightarrow> ret ())) w = (x, w')"
    and res: "res = (case x of Err e \<Rightarrow> Err (Wrap1 ''transfer: uploading'' e) | y \<Rightarrow> y)"
    using assms(2) by (auto simp: map_err_def split: prod.splits res.splits)
  from m assms(3) res obtain name where n: "store_BlobPath L (d_Digest (up_desc u)) = Ok name"
    and rest: "ebind (attempt (b_Create dst name (section_body r) (d_Size (up_desc u)) (d_Digest (up_desc u)))) (\<lambda>res.
         case res of Inl e \<Rightarrow> if err_is e ErrExist then ret () else throw e | Inr _ \<Rightarrow> ret ()) w = (x, w')"
    by (cases "store_BlobPath L (d_Digest (up_desc u))")
      (auto simp: store_BlobPath_def digest_split_def split: option.splits)
  let ?w = "worker_step L dst (upload_image p u) (up_desc u) (Creating r) w"
  from rest show ?thesis
  proof (cases rule: ebind_attemptE)
    case (Val y w1)
    then have v: "x = Ok ()" "w1 = w'" by (auto simp: ret_def)
    with Val(1) have "?w = (Ok (Inr None), w')"
      by (simp add: worker_step_def worker_create_def n ebind_def attempt_def ret_def)
    with upload_ends_finish [OF this] res v show ?thesis by simp
  next
    case (Fail e w1)
    show ?thesis
    proof (cases "err_is e ErrExist")
      case True
      with Fail(2) have v: "x = Ok ()" "w1 = w'" by (auto simp: ret_def)
      with Fail(1) True have "?w = (Ok (Inr None), w')"
        by (simp add: worker_step_def worker_create_def n ebind_def attempt_def ret_def)
      with upload_ends_finish [OF this] res v show ?thesis by simp
    next
      case False
      with Fail(2) have v: "x = Err e" "w1 = w'" by (auto simp: throw_def)
      with Fail(1) False have "?w = (Ok (Inr (Some (Wrap1 ''transfer: uploading'' e))), w')"
        by (simp add: worker_step_def worker_create_def n ebind_def attempt_def ret_def)
      with upload_ends_fail [OF this] res v show ?thesis by simp
    qed
  next
    case Stop
    with res assms(3) show ?thesis by simp
  qed
qed

lemma check_ends:
  assumes "map_err (Wrap1 ''transfer: uploading'') (store_PutBlob L dst (up_desc u) (section_body r)) w = (res, w')"
    and "res \<noteq> Panic"
  shows "upload_ends L dst p conc u (Checking r) w res w'"
proof (cases "digest_Validate L (d_Digest (up_desc u))")
  case (Some e)
  with assms(1) have "res = Err (Wrap1 ''transfer: uploading'' e)" "w' = w"
    by (simp_all add: store_PutBlob_def map_err_def throw_def)
  moreover have "worker_step L dst (upload_image p u) (up_desc u) (Checking r) w
      = (Ok (Inr (Some (Wrap1 ''transfer: uploading'' e))), w)"
    by (simp add: worker_step_def worker_check_def Some ret_def)
  ultimately show ?thesis by (simp add: upload_ends_fail)
next
  case None
  let ?d = "d_Digest (up_desc u)"
  let ?w = "worker_step L dst (upload_image p u) (up_desc u) (Checking r) w"
  obtain h w1 where has: "store_HasBlob L dst ?d w = (h, w1)" by (cases "store_HasBlob L dst ?d w")
  show ?thesis
  proof (cases h)
    case (Ok b)
    show ?thesis
    proof (cases b)
      case True
      with has Ok assms(1) None have "res = Ok ()" "w' = w1" "?w = (Ok (Inr None), w1)"
        by (simp_all add: store_PutBlob_def map_err_def ebind_def attempt_def ret_def worker_step_def worker_check_def)
      then show ?thesis by (simp add: upload_ends_finish)
    next
      case False
      with has Ok assms(1) None have "?w = (Ok (Inl (Creating r)), w1)"
        by (simp add: ebind_def attempt_def ret_def worker_step_def worker_check_def)
      moreover have "store_PutBlob L dst (up_desc u) (section_body r) w =
        ebind (pure_res (store_BlobPath L ?d)) (\<lambda>name.
        ebind (attempt (b_Create dst name (section_body r) (d_Size (up_desc u)) ?d)) (\<lambda>res.
          case res of Inl e \<Rightarrow> if err_is e ErrExist then ret () else throw e | Inr _ \<Rightarrow> ret ())) w1"
        using has Ok False
        by (simp only: store_PutBlob_def None ebind_def [of "store_HasBlob L dst ?d"] option.case prod.case res.case
            simp_thms if_False)
      then have "upload_ends L dst p conc u (Creating r) w1 res w'"
        using assms None by (intro create_ends) (simp_all add: valid_digest_def map_err_def)
      ultimately show ?thesis by (simp add: upload_ends_call)
    qed
  next
    case (Err e)
    with has assms(1) None have "res = Err (Wrap1 ''transfer: uploading'' e)" "w' = w1"
      "?w = (Ok (Inr (Some (Wrap1 ''transfer: uploading'' e))), w1)"
      by (simp_all add: store_PutBlob_def map_err_def ebind_def attempt_def ret_def worker_step_def worker_check_def)
    then show ?thesis by (simp add: upload_ends_fail)
  next
    case Panic
    with has assms None show ?thesis by (simp add: store_PutBlob_def map_err_def ebind_def)
  qed
qed

lemma putBlob_ends:
  assumes "transfer_putBlob L (upload_image p u) (up_desc u) dst w = (res, w')" "res \<noteq> Panic"
  shows "upload_ends L dst p conc u Opening w res w'"
proof -
  let ?i = "upload_image p u"
  obtain r0 w1 where o: "od_Blobs (im_Dir ?i) (d_Digest (up_desc u)) w = (r0, w1)"
    by (cases "od_Blobs (im_Dir ?i) (d_Digest (up_desc u)) w")
  let ?w = "worker_step L dst ?i (up_desc u) Opening w"
  show ?thesis
  proof (cases r0)
    case (Ok rd)
    with o have "?w = (Ok (Inl (Checking rd)), w1)"
      by (simp add: worker_step_def ebind_def attempt_def ret_def)
    moreover have "upload_ends L dst p conc u (Checking rd) w1 res w'"
      using assms o Ok by (intro check_ends) (simp_all add: transfer_putBlob_def ebind_def map_err_def)
    ultimately show ?thesis by (rule upload_ends_call)
  next
    case (Err e)
    with o assms(1) have "res = Err (Wrap1 ''transfer: reading'' e)" "w' = w1"
      "?w = (Ok (Inr (Some (Wrap1 ''transfer: reading'' e))), w1)"
      by (simp_all add: transfer_putBlob_def worker_step_def ebind_def attempt_def map_err_def ret_def)
    then show ?thesis by (simp add: upload_ends_fail)
  next
    case Panic
    with o assms show ?thesis by (simp add: transfer_putBlob_def ebind_def map_err_def)
  qed
qed

lemma sequential_run:
  assumes "0 < conc" "push_sequential L dst p us w = (Ok es, w')"
  shows "(push_step L dst p conc)\<^sup>*\<^sup>*
    (\<lparr>po_pending = us, po_running = [], po_errs = es0\<rparr>, w)
    (\<lparr>po_pending = [], po_running = [], po_errs = es0 @ es\<rparr>, w')"
  using assms(2)
proof (induction us arbitrary: w es0 es)
  case Nil
  then show ?case by simp
next
  case (Cons u us)
  from Cons.prems obtain r w1 es1 where
    r: "attempt (transfer_putBlob L (upload_image p u) (up_desc u) dst) w = (Ok r, w1)"
    and rest: "push_sequential L dst p us w1 = (Ok es1, w')"
    and es: "es = (case r of Inl e \<Rightarrow> upload_error p u e # es1 | Inr _ \<Rightarrow> es1)"
    by (auto simp: ebind_Ok)
  define res where "res = (case r of Inl e \<Rightarrow> Err e | Inr x \<Rightarrow> Ok x)"
  have put: "transfer_putBlob L (upload_image p u) (up_desc u) dst w = (res, w1)" "res \<noteq> Panic"
    using r by (auto simp: res_def attempt_Ok split: sum.splits)
  let ?s0 = "\<lparr>po_pending = u # us, po_running = [], po_errs = es0\<rparr>"
  let ?s1 = "\<lparr>po_pending = us, po_running = [(u, Opening)], po_errs = es0\<rparr>"
  let ?es = "es0 @ (case res of Err e \<Rightarrow> [upload_error p u e] | _ \<Rightarrow> [])"
  have "push_step L dst p conc (?s0, w) (?s1, w)"
    using push_step.start [of ?s0 u us conc L dst p w] assms(1) by simp
  also have "(push_step L dst p conc)\<^sup>*\<^sup>* (?s1, w) (\<lparr>po_pending = us, po_running = [], po_errs = ?es\<rparr>, w1)"
    using putBlob_ends [OF put] by (simp add: upload_ends_def)
  also have "(push_step L dst p conc)\<^sup>*\<^sup>* \<dots> (\<lparr>po_pending = [], po_running = [], po_errs = ?es @ es1\<rparr>, w')"
    by (rule Cons.IH [OF rest])
  finally show ?case using es by (simp add: res_def split: sum.splits)
qed

lemma sequential_Push:
  assumes "push_sequential L dst p (transfer_uploads p) w = (Ok es, w1)"
    and "push_commits L ctx_Err dst p es w1 = out"
  shows "transfer_Push L ctx_Err dst p conc w w1 out"
proof -
  have "0 < push_concurrency conc" by (simp add: push_concurrency_def)
  from sequential_run [OF this assms(1), of "[]"] assms(2) show ?thesis
    unfolding transfer_Push_def push_start_def by fastforce
qed

section \<open>Planning over a target whose calls succeed\<close>

context reliable_backend
begin

lemma diff_loop_up:
  assumes laws: "digest_laws L" and w: "ok w" and v: "\<forall>d \<in> set ds. valid_digest L (d_Digest d)"
  shows "\<exists>e' w'. diff_loop L B ds e w = (Ok e', w')"
  using w v
proof (induction ds arbitrary: e w)
  case Nil
  then show ?case by simp
next
  case (Cons d ds)
  from HasBlob_up [OF laws Cons.prems(1), of "d_Digest d"] Cons.prems(2) obtain w1 where
    "store_HasBlob L B (d_Digest d) w = (Ok (has_blob L (tree w) (d_Digest d)), w1)" "ok w1" by auto
  with Cons.IH [OF this(2)] Cons.prems(2) show ?case by (auto simp: ebind_Ok)
qed

end

end
