(* ===== verification/From_Oci_Dir.thy ===== *)
theory From_Oci_Dir
  imports Push
begin

text \<open>
  Package transfer, ocidir.go: \<open>FromOciDir\<close>, a source that selects entries of an oci-dir by name or
  digest and flattens image indexes by platform. The recursion into nested indexes is bounded by the
  depth of the call stack: a Go program that exceeds it dies, which is the result \<open>Panic\<close>. The last
  section shows that a depth above the nesting of the indexes is enough.
\<close>

definition transfer_isIndex :: "string \<Rightarrow> bool" where
  "transfer_isIndex mt \<longleftrightarrow> mt = MediaTypeImageIndex \<or> mt = MediaTypeDockerManifestList"

definition transfer_readJSON ::
  "oci_lib \<Rightarrow> 'w oci_dir \<Rightarrow> (bytes \<Rightarrow> gerr + 'v) \<Rightarrow> string \<Rightarrow> ('w, 'v) io" where
  "transfer_readJSON L dir dec dgst =
     ebind (od_Blobs dir dgst) (\<lambda>r.
     ebind (pure_res (read_all r)) (\<lambda>b.
       if digest_FromBytes L b \<noteq> dgst then throw (Msg ''transfer: blob does not match its digest'')
       else case dec b of Inl e \<Rightarrow> throw e | Inr v \<Rightarrow> ret v))"

definition transfer_nameMatches :: "oci_lib \<Rightarrow> string \<Rightarrow> reference \<Rightarrow> bool" where
  "transfer_nameMatches L ann ref \<longleftrightarrow>
     (if ann = [] then False
      else if ann = Tag ref then True
      else case types_ParseReference L ann of
        Ok parsed \<Rightarrow> Repository parsed = Repository ref \<and> Tag parsed = Tag ref \<and> Digest parsed = []
      | _ \<Rightarrow> False)"

text \<open>
  The digest branch of \<open>find\<close>: an error inside a nested index is dropped and the loop goes on, an
  error of reading the index itself ends it.
\<close>

function transfer_findDigest ::
  "oci_lib \<Rightarrow> 'w oci_dir \<Rightarrow> reference \<Rightarrow> nat \<Rightarrow> descriptor list \<Rightarrow> ('w, descriptor) io" where
  "transfer_findDigest L dir ref k [] = throw (Wrap1 ''transfer: find'' (Sentinel ErrNotExist))"
| "transfer_findDigest L dir ref k (d # ds) =
     (if d_Digest d = Digest ref then ret d
      else if transfer_isIndex (d_MediaType d) then
        (case k of
           0 \<Rightarrow> pure_res Panic
         | Suc k' \<Rightarrow>
             ebind (transfer_readJSON L dir (json_Index L) (d_Digest d)) (\<lambda>child.
             ebind (attempt (transfer_findDigest L dir ref k' (i_Manifests child))) (\<lambda>r.
               case r of
                 Inr found \<Rightarrow> ret found
               | Inl _ \<Rightarrow> transfer_findDigest L dir ref k ds)))
      else transfer_findDigest L dir ref k ds)"
  by pat_completeness auto

termination
  by (relation "measures [\<lambda>(L, dir, ref, k, ds). k, \<lambda>(L, dir, ref, k, ds). length ds]") auto

definition transfer_find ::
  "oci_lib \<Rightarrow> 'w oci_dir \<Rightarrow> nat \<Rightarrow> descriptor list \<Rightarrow> reference \<Rightarrow> ('w, descriptor) io" where
  "transfer_find L dir depth descs ref =
     (if Digest ref = [] then
        (case List.find (\<lambda>d. transfer_nameMatches L (annotation d AnnotationRefName) ref) descs of
           Some d \<Rightarrow> ret d
         | None \<Rightarrow> throw (Wrap1 ''transfer: find'' (Sentinel ErrNotExist)))
      else transfer_findDigest L dir ref depth descs)"

text \<open>The children of an index the loop of \<open>selectPlatform\<close> collects.\<close>

definition platform_children :: "platform \<Rightarrow> descriptor list \<Rightarrow> descriptor list" where
  "platform_children p ds =
     filter (\<lambda>c. case d_Platform c of None \<Rightarrow> False
       | Some q \<Rightarrow> \<not> transfer_isIndex (d_MediaType c) \<and> platform_Matches p q) ds"

definition transfer_selectPlatform ::
  "oci_lib \<Rightarrow> 'w oci_dir \<Rightarrow> descriptor \<Rightarrow> platform \<Rightarrow> ('w, descriptor) io" where
  "transfer_selectPlatform L dir desc p =
     (if \<not> transfer_isIndex (d_MediaType desc) then
        ebind (transfer_readJSON L dir (json_Manifest L) (d_Digest desc)) (\<lambda>m.
        ebind (transfer_readJSON L dir (json_Image L) (d_Digest (m_Config m))) (\<lambda>cfg.
          if \<not> platform_Matches p (c_Platform cfg)
          then throw (Wrap1 ''transfer: manifest is, not'' (Sentinel ErrNotExist))
          else ret (desc\<lparr>d_Platform := None, d_Annotations := fmempty\<rparr>)))
      else
        ebind (transfer_readJSON L dir (json_Index L) (d_Digest desc)) (\<lambda>idx.
          case platform_children p (i_Manifests idx) of
            [] \<Rightarrow> throw (Wrap1 ''transfer: index has no manifest'' (Sentinel ErrNotExist))
          | [m] \<Rightarrow> ret (m\<lparr>d_Platform := None\<rparr>)
          | _ \<Rightarrow> throw (Wrap1 ''index for'' (Sentinel ErrAmbiguous))))"

definition transfer_FromOciDir :: "oci_lib \<Rightarrow> nat \<Rightarrow> 'w oci_dir \<Rightarrow> 'w source" where
  "transfer_FromOciDir L depth dir ref p =
     ebind (od_Index dir) (\<lambda>idx.
     ebind (transfer_find L dir depth (i_Manifests idx) ref) (\<lambda>desc.
     ebind (transfer_selectPlatform L dir desc p) (\<lambda>md.
       ret \<lparr>im_Ref = ref, im_Platform = p, im_Manifest = md,
            im_Dir = store_SingleManifestDir L (od_Blobs dir) p md\<rparr>)))"

section \<open>What it selects\<close>

text \<open>Content with digest \<open>d\<close> that decodes as an index listing \<open>c\<close>: digests vouch for the bytes.\<close>

definition index_lists :: "oci_lib \<Rightarrow> string \<Rightarrow> descriptor \<Rightarrow> bool" where
  "index_lists L d c \<longleftrightarrow>
     (\<exists>b ix. digest_FromBytes L b = d \<and> json_Index L b = Inr ix \<and> c \<in> set (i_Manifests ix))"

inductive nested_in :: "oci_lib \<Rightarrow> descriptor list \<Rightarrow> descriptor \<Rightarrow> bool" for L tops where
  top: "d \<in> set tops \<Longrightarrow> nested_in L tops d"
| child: "nested_in L tops d \<Longrightarrow> transfer_isIndex (d_MediaType d) \<Longrightarrow> index_lists L (d_Digest d) c \<Longrightarrow>
    nested_in L tops c"

text \<open>Content with digest \<open>d\<close> that decodes as \<open>v\<close>.\<close>

definition content_is :: "oci_lib \<Rightarrow> (bytes \<Rightarrow> gerr + 'v) \<Rightarrow> string \<Rightarrow> 'v \<Rightarrow> bool" where
  "content_is L dec d v \<longleftrightarrow> (\<exists>b. digest_FromBytes L b = d \<and> dec b = Inr v)"

lemma readJSON_content: "transfer_readJSON L dir dec d w = (Ok v, w') \<Longrightarrow> content_is L dec d v"
  by (auto simp: transfer_readJSON_def content_is_def ebind_Ok split: if_splits sum.splits)

lemma nested_in_trans:
  "nested_in L xs c \<Longrightarrow> (\<And>x. x \<in> set xs \<Longrightarrow> nested_in L tops x) \<Longrightarrow> nested_in L tops c"
  by (induction rule: nested_in.induct) (auto intro: nested_in.child)

lemma nested_in_mono: "nested_in L xs c \<Longrightarrow> set xs \<subseteq> set ys \<Longrightarrow> nested_in L ys c"
  by (erule nested_in_trans) (auto intro: nested_in.top)

lemma findDigest_Ok:
  assumes "transfer_findDigest L dir ref k ds w = (Ok d, w')"
  shows "d_Digest d = Digest ref \<and> nested_in L ds d"
  using assms
proof (induction L dir ref k ds arbitrary: w d w' rule: transfer_findDigest.induct)
  case (1 L dir ref k)
  then show ?case by simp
next
  case (2 L dir ref k x xs)
  have tail: ?case if "d_Digest d = Digest ref \<and> nested_in L xs d"
    using that by (auto intro: nested_in_mono)
  show ?case
  proof (cases "d_Digest x = Digest ref \<or> \<not> transfer_isIndex (d_MediaType x)")
    case True
    show ?thesis
    proof (cases "d_Digest x = Digest ref")
      case True
      with "2.prems" have "d = x" by simp
      with True show ?thesis by (simp add: nested_in.top)
    next
      case no: False
      with \<open>d_Digest x = Digest ref \<or> \<not> transfer_isIndex (d_MediaType x)\<close> "2.prems"
      have "transfer_findDigest L dir ref k xs w = (Ok d, w')" by simp
      with "2.IH"(3) [OF no] True no tail show ?thesis by blast
    qed
  next
    case False
    with "2.prems" obtain k' where k: "k = Suc k'" by (cases k) auto
    with "2.prems" False obtain ix w1 where
      ix: "transfer_readJSON L dir (json_Index L) (d_Digest x) w = (Ok ix, w1)"
      and rest: "ebind (attempt (transfer_findDigest L dir ref k' (i_Manifests ix))) (\<lambda>r. case r of
         Inr found \<Rightarrow> ret found | Inl _ \<Rightarrow> transfer_findDigest L dir ref k xs) w1 = (Ok d, w')"
      by (auto simp: ebind_Ok)
    from rest show ?thesis
    proof (cases rule: ebind_attemptE)
      case (Val f w2)
      then have f: "f = d" by auto
      with "2.IH"(1) [OF _ _ k Val(1)] False
      have d: "d_Digest d = Digest ref" "nested_in L (i_Manifests ix) d" by auto
      have "nested_in L (x # xs) c" if "c \<in> set (i_Manifests ix)" for c
      proof (rule nested_in.child)
        show "nested_in L (x # xs) x" by (simp add: nested_in.top)
        show "transfer_isIndex (d_MediaType x)" using False by simp
        show "index_lists L (d_Digest x) c"
          using readJSON_content [OF ix] that by (auto simp: content_is_def index_lists_def)
      qed
      with d nested_in_trans show ?thesis by blast
    next
      case (Fail e w2)
      with "2.IH"(2) [OF _ _ k] False tail show ?thesis by auto
    qed simp
  qed
qed

text \<open>The descriptor chosen for a reference, and the manifest for a platform.\<close>

definition selects_entry :: "oci_lib \<Rightarrow> descriptor list \<Rightarrow> reference \<Rightarrow> descriptor \<Rightarrow> bool" where
  "selects_entry L tops ref d \<longleftrightarrow>
     (if Digest ref = [] then d \<in> set tops \<and> transfer_nameMatches L (annotation d AnnotationRefName) ref
      else d_Digest d = Digest ref \<and> nested_in L tops d)"

definition selects_manifest :: "oci_lib \<Rightarrow> descriptor \<Rightarrow> platform \<Rightarrow> descriptor \<Rightarrow> bool" where
  "selects_manifest L d p md \<longleftrightarrow>
     (if transfer_isIndex (d_MediaType d)
      then \<exists>ix c. content_is L (json_Index L) (d_Digest d) ix \<and>
             platform_children p (i_Manifests ix) = [c] \<and> md = c\<lparr>d_Platform := None\<rparr>
      else md = d\<lparr>d_Platform := None, d_Annotations := fmempty\<rparr> \<and>
           (\<exists>m cfg. content_is L (json_Manifest L) (d_Digest d) m \<and>
              content_is L (json_Image L) (d_Digest (m_Config m)) cfg \<and> platform_Matches p (c_Platform cfg)))"

lemma find_Ok:
  assumes "transfer_find L dir k ds ref w = (Ok d, w')"
  shows "selects_entry L ds ref d"
  using assms
  by (auto simp: transfer_find_def selects_entry_def find_Some_iff dest: findDigest_Ok
      split: if_splits option.splits)

lemma selectPlatform_Ok:
  assumes "transfer_selectPlatform L dir d p w = (Ok md, w')"
  shows "selects_manifest L d p md"
proof (cases "transfer_isIndex (d_MediaType d)")
  case True
  with assms obtain ix w1 where ix: "transfer_readJSON L dir (json_Index L) (d_Digest d) w = (Ok ix, w1)"
    and "(case platform_children p (i_Manifests ix) of
            [] \<Rightarrow> throw (Wrap1 ''transfer: index has no manifest'' (Sentinel ErrNotExist))
          | [m] \<Rightarrow> ret (m\<lparr>d_Platform := None\<rparr>)
          | _ \<Rightarrow> throw (Wrap1 ''index for'' (Sentinel ErrAmbiguous))) w1 = (Ok md, w')"
    by (auto simp: transfer_selectPlatform_def ebind_Ok)
  then show ?thesis
    using True readJSON_content [OF ix] by (auto simp: selects_manifest_def split: list.splits)
next
  case False
  with assms obtain m w1 cfg w2 where m: "transfer_readJSON L dir (json_Manifest L) (d_Digest d) w = (Ok m, w1)"
    and cfg: "transfer_readJSON L dir (json_Image L) (d_Digest (m_Config m)) w1 = (Ok cfg, w2)"
    and "platform_Matches p (c_Platform cfg)" "md = d\<lparr>d_Platform := None, d_Annotations := fmempty\<rparr>"
    by (auto simp: transfer_selectPlatform_def ebind_Ok split: if_splits)
  then show ?thesis
    using False readJSON_content [OF m] readJSON_content [OF cfg] by (auto simp: selects_manifest_def)
qed

text \<open>An index with several children for the platform is refused.\<close>

lemma selectPlatform_ambiguous:
  assumes "transfer_isIndex (d_MediaType d)" "transfer_readJSON L dir (json_Index L) (d_Digest d) w = (Ok ix, w1)"
    and "2 \<le> length (platform_children p (i_Manifests ix))"
  shows "\<exists>e. transfer_selectPlatform L dir d p w = (Err e, w1) \<and> err_is e ErrAmbiguous"
proof -
  from assms(3) obtain a b cs where "platform_children p (i_Manifests ix) = a # b # cs"
    by (metis One_nat_def Suc_le_length_iff numeral_2_eq_2)
  with assms(1,2) show ?thesis
    by (simp add: transfer_selectPlatform_def ebind_def throw_def)
qed

section \<open>The depth of the recursion\<close>

text \<open>
  A rank that falls from an index the directory serves to the indexes it lists. Every directory of
  finite nesting has one. Above it, \<open>find\<close> gives the same result at every depth.
\<close>

definition nesting_rank :: "oci_lib \<Rightarrow> 'w oci_dir \<Rightarrow> (string \<Rightarrow> nat) \<Rightarrow> bool" where
  "nesting_rank L dir rank \<longleftrightarrow>
     (\<forall>d w ix w'. transfer_readJSON L dir (json_Index L) d w = (Ok ix, w') \<longrightarrow>
        (\<forall>c \<in> set (i_Manifests ix). transfer_isIndex (d_MediaType c) \<longrightarrow> rank (d_Digest c) < rank d))"

lemma findDigest_depth:
  assumes "nesting_rank L dir rank"
    and "\<forall>d \<in> set ds. transfer_isIndex (d_MediaType d) \<longrightarrow> rank (d_Digest d) < k \<and> rank (d_Digest d) < j"
  shows "transfer_findDigest L dir ref k ds w = transfer_findDigest L dir ref j ds w"
  using assms
proof (induction L dir ref k ds arbitrary: w j rule: transfer_findDigest.induct)
  case (1 L dir ref k)
  then show ?case by simp
next
  case (2 L dir ref k x xs)
  show ?case
  proof (cases "d_Digest x = Digest ref \<or> \<not> transfer_isIndex (d_MediaType x)")
    case True
    have "transfer_findDigest L dir ref k xs w = transfer_findDigest L dir ref j xs w"
      if "d_Digest x \<noteq> Digest ref" "\<not> transfer_isIndex (d_MediaType x)"
      by (rule "2.IH"(3) [OF that]) (use "2.prems" in simp_all)
    with True show ?thesis by (cases "d_Digest x = Digest ref") simp_all
  next
    case False
    with "2.prems"(2) obtain k' j' where k: "k = Suc k'" "j = Suc j'"
      and rank: "rank (d_Digest x) \<le> k'" "rank (d_Digest x) \<le> j'"
      by (cases k; cases j) auto
    obtain r w1 where read: "transfer_readJSON L dir (json_Index L) (d_Digest x) w = (r, w1)"
      by (cases "transfer_readJSON L dir (json_Index L) (d_Digest x) w")
    show ?thesis
    proof (cases r)
      case (Ok ix)
      have "rank (d_Digest c) < rank (d_Digest x)" if "c \<in> set (i_Manifests ix)" "transfer_isIndex (d_MediaType c)" for c
        using "2.prems"(1) read Ok that unfolding nesting_rank_def by blast
      with rank have sub: "\<forall>d \<in> set (i_Manifests ix). transfer_isIndex (d_MediaType d) \<longrightarrow>
          rank (d_Digest d) < k' \<and> rank (d_Digest d) < j'" by (meson less_le_trans)
      have inner: "transfer_findDigest L dir ref k' (i_Manifests ix) v = transfer_findDigest L dir ref j' (i_Manifests ix) v" for v
        using "2.IH"(1) [OF _ _ k(1) "2.prems"(1) sub] False by simp
      have tail: "transfer_findDigest L dir ref k xs v = transfer_findDigest L dir ref j xs v" for v
        using "2.IH"(2) [OF _ _ k(1)] "2.prems" False by simp
      from False k read Ok show ?thesis
        by (simp add: ebind_def attempt_def inner tail [unfolded k] split: prod.splits res.splits)
    qed (use False k read in \<open>simp_all add: ebind_def\<close>)
  qed
qed

end

