(* ===== verification/Demo_Push.thy ===== *)
theory Demo_Push
  imports Push_Facts From_Oci_Dir Store_Properties
begin

text \<open>
  A push of the demo image from an oci-dir held in memory into an empty store, for the witnesses of
  package transfer's properties.
\<close>

definition demo_contents :: "bytes list" where
  "demo_contents =
     [demo_layer, put_config (demo_config demo_diff), put_manifest (demo_manifest demo_diff)]"

text \<open>A blob held in memory, opened by its digest.\<close>

definition memory_Blobs :: "bytes list \<Rightarrow> string \<Rightarrow> ('w, reader) io" where
  "memory_Blobs bs d =
     (case List.find (\<lambda>b. digest_FromBytes demo_lib b = d) bs of
        None \<Rightarrow> throw (Sentinel ErrNotExist)
      | Some b \<Rightarrow> ret \<lparr>rd_Size = int (length b), rd_Content = b, rd_Fail = None\<rparr>)"

definition demo_dir :: "os oci_dir" where
  "demo_dir = store_SingleManifestDir demo_lib (memory_Blobs demo_contents) demo_platform (demo_md demo_diff)"

definition demo_img :: "os image" where
  "demo_img = \<lparr>im_Ref = demo_ref, im_Platform = demo_platform, im_Manifest = demo_md demo_diff,
     im_Dir = demo_dir\<rparr>"

definition demo_blobs :: "descriptor list" where
  "demo_blobs = m_Layers (demo_manifest demo_diff) @ [m_Config (demo_manifest demo_diff), demo_md demo_diff]"

definition demo_plan :: "os plan" where
  "demo_plan = \<lparr>pl_Entries = [\<lparr>en_Image = demo_img, en_Missing = demo_blobs, en_Present = [],
     en_Fallback = False\<rparr>]\<rparr>"

lemma memory_source: "source_dir tree ok \<lparr>od_Blobs = memory_Blobs bs, od_Index = i, od_OciLayout = l, od_IndexBin = ib, od_OciLayoutBin = lb\<rparr>"
  by (auto simp: source_dir_def memory_Blobs_def section_body_def section_bytes_def intro!: keeps_intros
      reflpI split: option.splits)

lemma demo_sources: "plan_sources demo_tree (\<lambda>w. demo_ok w) demo_plan"
  by (simp add: plan_sources_def demo_plan_def demo_img_def demo_dir_def store_SingleManifestDir_def
      Let_def memory_source)

lemma demo_plan_leafable: "plan_leafable demo_lib demo_plan"
  by (simp add: plan_leafable_def demo_plan_def demo_img_def demo_leafable)

lemma demo_blobs_digests:
  "d_Digest (demo_desc mt b) = digest_FromBytes demo_lib b" "d_Size (demo_desc mt b) = int (length b)"
  by (simp_all add: demo_desc_def)

lemma demo_lengths:
  "length demo_layer \<noteq> length (put_config (demo_config demo_diff))"
  "length demo_layer \<noteq> length (put_manifest (demo_manifest demo_diff))"
  "length (put_config (demo_config demo_diff)) \<noteq> length (put_manifest (demo_manifest demo_diff))"
  using demo_sizes_diff(1) by (simp_all add: demo_sizes_def)

lemma demo_uploads:
  "transfer_uploads demo_plan = map (\<lambda>d. \<lparr>up_entry = 0, up_desc = d\<rparr>) demo_blobs"
  using demo_lengths
  by (simp add: transfer_uploads_def demo_plan_def demo_blobs_def demo_manifest_def demo_md_def
      demo_blobs_digests demo_digest demo_hash_inject)

lemma demo_open:
  "b \<in> set demo_contents \<Longrightarrow>
     memory_Blobs demo_contents (digest_FromBytes demo_lib b) =
       ret \<lparr>rd_Size = int (length b), rd_Content = b, rd_Fail = None\<rparr>"
  using demo_lengths
  by (auto simp: memory_Blobs_def demo_contents_def demo_digest demo_hash_inject)

lemma demo_put_Ok:
  assumes "demo_ok w"
  shows "store_PutBlob demo_lib demo_store (demo_desc mt b) (b, None) w = (Ok (), demo_put b w)"
proof -
  have "valid_digest demo_lib (d_Digest (demo_desc [] b))"
    "digest_matches demo_lib (d_Digest (demo_desc [] b)) b"
    "0 \<le> d_Size (demo_desc [] b) \<longrightarrow> d_Size (demo_desc [] b) = int (length b)"
    by (simp_all add: demo_desc_def demo_valid_FromBytes canonical_matches [OF demo_canonical_laws])
  from reliable_backend.PutBlob_up [OF demo_up demo_digest_laws assms this]
  have "store_PutBlob demo_lib demo_store (demo_desc [] b) (b, None) w = (Ok (), demo_put b w)"
    by (auto simp: demo_put_def)
  moreover have "store_PutBlob demo_lib demo_store (demo_desc mt b) (b, None) w =
      store_PutBlob demo_lib demo_store (demo_desc [] b) (b, None) w"
    by (simp only: store_PutBlob_def demo_blobs_digests)
  ultimately show ?thesis by simp
qed

lemma demo_putBlob:
  assumes "demo_ok w" "b \<in> set demo_contents"
  shows "transfer_putBlob demo_lib demo_img (demo_desc mt b) demo_store w = (Ok (), demo_put b w)"
proof -
  have "od_Blobs (im_Dir demo_img) = memory_Blobs demo_contents"
    by (simp add: demo_img_def demo_dir_def store_SingleManifestDir_def Let_def)
  then show ?thesis
    by (simp add: transfer_putBlob_def demo_blobs_digests demo_open [OF assms(2)] demo_put_Ok [OF assms(1)]
        ebind_def map_err_def ret_def section_body_def section_bytes_def)
qed

lemma demo_grow:
  assumes "demo_ok w" shows "demo_ok (demo_put b w)"
proof -
  have "valid_digest demo_lib (d_Digest (demo_desc [] b))"
    "digest_matches demo_lib (d_Digest (demo_desc [] b)) b"
    "0 \<le> d_Size (demo_desc [] b) \<longrightarrow> d_Size (demo_desc [] b) = int (length b)"
    by (simp_all add: demo_desc_def demo_valid_FromBytes canonical_matches [OF demo_canonical_laws])
  from reliable_backend.PutBlob_up [OF demo_up demo_digest_laws assms this] show ?thesis
    by (auto simp: demo_put_def)
qed

lemma demo_sequential:
  "push_sequential demo_lib demo_store demo_plan (transfer_uploads demo_plan) os_empty
     = (Ok [], demo_world demo_diff)"
proof -
  have im: "upload_image demo_plan \<lparr>up_entry = 0, up_desc = d\<rparr> = demo_img" for d
    by (simp add: upload_image_def demo_plan_def)
  have mem: "demo_layer \<in> set demo_contents" "put_config (demo_config demo_diff) \<in> set demo_contents"
    "put_manifest (demo_manifest demo_diff) \<in> set demo_contents"
    by (simp_all add: demo_contents_def)
  let ?w1 = "demo_put demo_layer os_empty"
  let ?w2 = "demo_put (put_config (demo_config demo_diff)) ?w1"
  have ok: "demo_ok ?w1" "demo_ok ?w2" using demo_grow os_empty_ok(1) by blast+
  have ds: "demo_blobs = [demo_desc MediaTypeImageLayerGzip demo_layer,
      demo_desc MediaTypeImageConfig (put_config (demo_config demo_diff)),
      demo_desc MediaTypeImageManifest (put_manifest (demo_manifest demo_diff))]"
    by (simp add: demo_blobs_def demo_manifest_def demo_md_def)
  show ?thesis
    unfolding demo_uploads ds demo_world_def
    by (simp add: im ebind_def attempt_def ret_def demo_putBlob [OF os_empty_ok(1) mem(1)]
        demo_putBlob [OF ok(1) mem(2)] demo_putBlob [OF ok(2) mem(3)])
qed

lemma demo_commits:
  "push_commits demo_lib os_ctx_Err demo_store demo_plan [] (demo_world demo_diff) = (Ok (), demo_done)"
  using demo_world(1) [OF demo_sizes_diff(1)]
  by (simp add: push_commits_def push_commit_def demo_plan_def demo_img_def demo_commit os_ctx_Err_def os_good_def
      ebind_def map_err_def attempt_def ret_def raise_opt_def join_errs_def)

lemma demo_Push:
  "transfer_Push demo_lib os_ctx_Err demo_store demo_plan 2 os_empty (demo_world demo_diff) (Ok (), demo_done)"
  by (rule sequential_Push [OF demo_sequential demo_commits])

lemma demo_ctx_reads: "moves (\<lambda>w w'. demo_tree w' = demo_tree w \<and> (demo_ok w \<longrightarrow> demo_ok w')) os_ctx_Err"
  by (simp add: moves_def os_ctx_Err_def ret_def)


section \<open>Diff and the oci-dir source\<close>

lemma demo_manifest_json: "json_Manifest demo_lib (put_manifest (demo_manifest d)) = Inr (demo_manifest d)"
  using manifest_back [of "demo_manifest d"] by (simp add: demo_lib_def demo_manifest_def demo_short)

lemma demo_config_json: "json_Image demo_lib (put_config (demo_config d)) = Inr (demo_config d)"
  by (simp add: demo_lib_def config_back)

lemma demo_dir_Blobs: "od_Blobs demo_dir = memory_Blobs demo_contents"
  by (simp add: demo_dir_def store_SingleManifestDir_def Let_def)

lemma demo_md_digest: "d_Digest (demo_md d) = digest_FromBytes demo_lib (put_manifest (demo_manifest d))"
  by (simp add: demo_md_def demo_desc_def)

lemma demo_ImageBlobs: "transfer_ImageBlobs demo_lib demo_img w = (Ok demo_blobs, w)"
proof -
  have mem: "put_manifest (demo_manifest demo_diff) \<in> set demo_contents" by (simp add: demo_contents_def)
  show ?thesis
    by (simp add: demo_open [OF mem] transfer_ImageBlobs_def demo_img_def demo_dir_Blobs demo_md_digest
      read_all_def section_bytes_def demo_manifest_json demo_blobs_def ret_def)
qed

lemma demo_Diff: "\<exists>e w'. transfer_Diff demo_lib demo_img demo_store os_empty = (Ok e, w')"
proof -
  have "\<forall>d \<in> set demo_blobs. valid_digest demo_lib (d_Digest d)"
    by (simp add: demo_blobs_def demo_manifest_def demo_md_def demo_blobs_digests demo_valid_FromBytes)
  from reliable_backend.diff_loop_up [OF demo_up demo_digest_laws os_empty_ok(1) this] show ?thesis
    by (simp add: transfer_Diff_def ebind_def demo_ImageBlobs)
qed

text \<open>A reference to the demo image by its digest.\<close>

definition demo_digest_ref :: reference where
  "demo_digest_ref = \<lparr>Repository = ''example.com/app'', Tag = [], Digest = d_Digest (demo_md demo_diff)\<rparr>"

lemma demo_readJSON:
  assumes "b \<in> set demo_contents" "dec b = Inr v"
  shows "transfer_readJSON demo_lib demo_dir dec (digest_FromBytes demo_lib b) w = (Ok v, w)"
  using assms(2) by (simp add: transfer_readJSON_def demo_dir_Blobs demo_open [OF assms(1)] read_all_def
      section_bytes_def ret_def)

lemma demo_select:
  "transfer_selectPlatform demo_lib demo_dir (demo_md demo_diff\<lparr>d_Platform := x\<rparr>) demo_platform w =
     (Ok (demo_md demo_diff), w)"
proof -
  have "\<not> transfer_isIndex (d_MediaType (demo_md demo_diff))"
    by (simp add: demo_md_def demo_desc_def transfer_isIndex_def MediaTypeImageIndex_def
        MediaTypeDockerManifestList_def MediaTypeImageManifest_def)
  moreover have "transfer_readJSON demo_lib demo_dir (json_Manifest demo_lib) (d_Digest (demo_md demo_diff)) w
      = (Ok (demo_manifest demo_diff), w)"
    unfolding demo_md_digest by (rule demo_readJSON) (simp_all add: demo_contents_def demo_manifest_json)
  moreover have "transfer_readJSON demo_lib demo_dir (json_Image demo_lib) (d_Digest (m_Config (demo_manifest demo_diff))) w
      = (Ok (demo_config demo_diff), w)"
    unfolding demo_manifest_def manifest.simps demo_blobs_digests
    by (rule demo_readJSON) (simp_all add: demo_contents_def demo_config_json)
  moreover have "platform_Matches demo_platform (c_Platform (demo_config demo_diff))"
    by (simp add: demo_config_def platform_Matches_def)
  ultimately show ?thesis
    by (simp add: transfer_selectPlatform_def ebind_def ret_def demo_md_def demo_desc_def)
qed

lemma demo_dir_Index:
  "od_Index demo_dir w = (Ok (leaf_index \<lparr>Repository = [], Tag = [], Digest = d_Digest (demo_md demo_diff)\<rparr>
     demo_platform (demo_md demo_diff)), w)"
proof -
  let ?ix = "leaf_index \<lparr>Repository = [], Tag = [], Digest = d_Digest (demo_md demo_diff)\<rparr>
     demo_platform (demo_md demo_diff)"
  obtain b where b: "marshal_Index demo_lib ?ix = Inr b" using demo_marshal by blast
  then have "json_Index demo_lib b = Inr ?ix" using demo_json_laws unfolding json_laws_def by blast
  with b show ?thesis
    by (simp add: demo_dir_def store_SingleManifestDir_def Let_def decode_def store_indexJSON_def ret_def)
qed

lemma demo_from_dir:
  "transfer_FromOciDir demo_lib k demo_dir demo_digest_ref demo_platform w =
     (Ok \<lparr>im_Ref = demo_digest_ref, im_Platform = demo_platform, im_Manifest = demo_md demo_diff,
       im_Dir = demo_dir\<rparr>, w)"
proof -
  have "d_Digest (demo_md demo_diff) \<noteq> []" by (simp add: demo_md_digest demo_digest)
  then have "transfer_find demo_lib demo_dir k (i_Manifests (leaf_index \<lparr>Repository = [], Tag = [],
      Digest = d_Digest (demo_md demo_diff)\<rparr> demo_platform (demo_md demo_diff))) demo_digest_ref w
    = (Ok (demo_md demo_diff\<lparr>d_Platform := Some demo_platform\<rparr>), w)"
    by (simp add: transfer_find_def demo_digest_ref_def leaf_index_def ret_def demo_md_def demo_desc_def)
  then show ?thesis
    by (simp add: transfer_FromOciDir_def ebind_def demo_dir_Index demo_select ret_def demo_dir_Blobs)
      (simp add: demo_dir_def)
qed

text \<open>The same image behind a nested index.\<close>

definition demo_nested_bytes :: bytes where
  "demo_nested_bytes = put_index \<lparr>i_Manifests = [demo_md demo_diff]\<rparr>"

definition demo_nested :: "os oci_dir" where
  "demo_nested = demo_dir\<lparr>od_Blobs := memory_Blobs (demo_nested_bytes # demo_contents),
     od_Index := ret \<lparr>i_Manifests = [demo_desc MediaTypeImageIndex demo_nested_bytes]\<rparr>\<rparr>"

lemma demo_nested_indexes:
  "list_all (\<lambda>b. case json_Index demo_lib b of Inl e \<Rightarrow> True
     | Inr ix \<Rightarrow> list_all (\<lambda>c. \<not> transfer_isIndex (d_MediaType c)) (i_Manifests ix))
   (demo_nested_bytes # demo_contents)"
  by code_simp

lemma demo_nested_rank: "nesting_rank demo_lib demo_nested (\<lambda>_. 0)"
  unfolding nesting_rank_def
proof (intro allI impI ballI)
  fix d w ix w' c
  assume read: "transfer_readJSON demo_lib demo_nested (json_Index demo_lib) d w = (Ok ix, w')"
    and c: "c \<in> set (i_Manifests ix)" "transfer_isIndex (d_MediaType c)"
  from read obtain b where "b \<in> set (demo_nested_bytes # demo_contents)" "json_Index demo_lib b = Inr ix"
    by (auto simp: transfer_readJSON_def ebind_Ok demo_nested_def memory_Blobs_def find_Some_iff
        read_all_def section_bytes_def split: option.splits if_splits sum.splits) (meson nth_mem)
  with demo_nested_indexes c show "(0 :: nat) < 0"
    by (auto simp: list_all_iff split: sum.splits)
qed

end
