(* ===== verification/Push_Properties.thy ===== *)
theory Push_Properties
  imports Demo_Push
begin

text \<open>
  The properties of package transfer, for every target that meets the backend contract and every
  source whose calls leave the target alone.
\<close>

text \<open>
  C16: a push keeps the promise of the store however its uploads interleave and whatever fails: at its
  end every blob is verified, every leaf complete, and no stored file has changed or vanished.
\<close>

theorem push_keeps_store:
  assumes "store_backend L B tree ok" "digest_laws L" "json_laws L" "plan_leafable L p"
    and "moves (\<lambda>w w'. tree w' = tree w \<and> (ok w \<longrightarrow> ok w')) ctx_Err" "plan_sources tree ok p"
    and "ok w" "store_inv L (tree w)"
    and "transfer_Push L ctx_Err B p conc w w1 (r, w')" "diff_ids_valid L (tree w1)"
  shows "ok w' \<and> store_inv L (tree w') \<and> tree w \<subseteq>\<^sub>m tree w'"
  by (rule store_backend.Push_safe(1) [OF assms(1-3,5,4,6-10)])

theorem push_keeps_store_witness:
  "demo_ok demo_done \<and> store_inv demo_lib (demo_tree demo_done) \<and> demo_tree os_empty \<subseteq>\<^sub>m demo_tree demo_done"
  using push_keeps_store [OF demo_backend demo_digest_laws demo_json_laws demo_plan_leafable demo_ctx_reads
      demo_sources os_empty_ok(1) _ demo_Push demo_diffs]
  by (simp add: os_empty_ok(2) store_inv_empty)

text \<open>
  C17: a push that returns without an error has done all it was asked: every missing blob of the plan
  is in the target, and every entry's leaf names its manifest with a complete image behind it.
\<close>

theorem push_complete:
  assumes "store_backend L B tree ok" "digest_laws L" "json_laws L" "plan_leafable L p"
    and "moves (\<lambda>w w'. tree w' = tree w \<and> (ok w \<longrightarrow> ok w')) ctx_Err" "plan_sources tree ok p"
    and "ok w" "store_inv L (tree w)"
    and "transfer_Push L ctx_Err B p conc w w1 (Ok (), w')" "diff_ids_valid L (tree w1)"
    and "e \<in> set (pl_Entries p)"
  shows "entry_committed L (tree w') e \<and> (\<forall>d \<in> set (en_Missing e). has_blob L (tree w') (d_Digest d))"
  using store_backend.Push_safe(2,3) [OF assms(1-3,5,4,6-10)] assms(11) by blast

theorem push_complete_witness:
  "\<exists>e. en_Image e = demo_img \<and> entry_committed demo_lib (demo_tree demo_done) e"
proof -
  have inv: "store_inv demo_lib (demo_tree os_empty)" by (simp add: os_empty_ok(2) store_inv_empty)
  have e: "\<lparr>en_Image = demo_img, en_Missing = demo_blobs, en_Present = [], en_Fallback = False\<rparr> \<in> set (pl_Entries demo_plan)"
    by (simp add: demo_plan_def)
  from push_complete [OF demo_backend demo_digest_laws demo_json_laws demo_plan_leafable demo_ctx_reads
      demo_sources os_empty_ok(1) inv demo_Push demo_diffs e]
  show ?thesis by (intro exI conjI) (auto simp del: entry_committed_def)
qed

text \<open>
  C18: uploads are bounded: in every state a push can reach, at most \<open>Concurrency\<close> uploads run (4 when
  it is not positive), and no schedule makes more than four steps per upload.
\<close>

theorem push_bounded:
  assumes "store_backend L B tree ok" "digest_laws L" "plan_sources tree ok p" "ok w" "store_inv L (tree w)"
    and "(push_step L B p (push_concurrency conc) ^^ n) (push_start p, w) (s, w')"
  shows "length (po_running s) \<le> push_concurrency conc \<and> n \<le> 4 * length (transfer_uploads p)"
proof -
  from assms(6) have "(push_step L B p (push_concurrency conc))\<^sup>*\<^sup>* (push_start p, w) (s, w')"
    by (rule relpowp_imp_rtranclp)
  from store_backend.push_steps_inv [OF assms(1-5) this]
  have "length (po_running s) \<le> push_concurrency conc" by (simp add: pool_inv_def)
  moreover have "n + pool_steps s \<le> pool_steps (push_start p)" by (rule push_steps_bound [OF assms(6)])
  ultimately show ?thesis by (simp add: pool_steps_def push_start_def)
qed

theorem push_bounded_witness:
  "\<exists>n s w'. (push_step demo_lib demo_store demo_plan (push_concurrency 0) ^^ n) (push_start demo_plan, os_empty) (s, w') \<and>
     length (po_running s) \<le> 4 \<and> n \<le> 12 \<and> po_pending s = []"
proof -
  have c: "push_concurrency 0 = 4" by (simp add: push_concurrency_def)
  have "(push_step demo_lib demo_store demo_plan 4)\<^sup>*\<^sup>* (push_start demo_plan, os_empty)
      (\<lparr>po_pending = [], po_running = [], po_errs = []\<rparr>, demo_world demo_diff)"
    using sequential_run [OF _ demo_sequential, of 4 "[]"] by (simp add: push_start_def)
  then obtain n where n: "(push_step demo_lib demo_store demo_plan (push_concurrency 0) ^^ n) (push_start demo_plan, os_empty)
      (\<lparr>po_pending = [], po_running = [], po_errs = []\<rparr>, demo_world demo_diff)"
    by (auto simp: c dest: rtranclp_imp_relpowp)
  have inv: "store_inv demo_lib (demo_tree os_empty)" by (simp add: os_empty_ok(2) store_inv_empty)
  have "length (transfer_uploads demo_plan) = 3"
    by (simp add: demo_uploads demo_blobs_def demo_manifest_def)
  with push_bounded [OF demo_backend demo_digest_laws demo_sources os_empty_ok(1) inv n] n
  show ?thesis by (intro exI [of _ n] exI conjI) (auto simp: c)
qed

text \<open>
  C19: a push never hangs: while an upload waits or runs, some step is possible or a call about to be
  made panics, whatever the uploads have done so far.
\<close>

theorem push_never_hangs:
  assumes "po_pending s \<noteq> [] \<or> po_running s \<noteq> []"
  shows "(\<exists>x. push_step L dst p (push_concurrency conc) (s, w) x) \<or>
    (\<exists>(u, ph) \<in> set (po_running s). \<exists>w'. worker_step L dst (upload_image p u) (up_desc u) ph w = (Panic, w'))"
  by (rule push_progress [OF _ assms]) (simp add: push_concurrency_def)

theorem push_never_hangs_witness:
  "\<exists>x. push_step demo_lib demo_store demo_plan (push_concurrency 1) (push_start demo_plan, os_empty) x"
  using push_never_hangs [of "push_start demo_plan" demo_lib demo_store demo_plan 1 os_empty]
  by (simp add: push_start_def demo_uploads demo_blobs_def)

text \<open>
  C20: the size \<open>Bytes\<close> reports is the size of what \<open>Push\<close> uploads, each digest once, as a 64-bit sum.
\<close>

theorem bytes_is_upload_total:
  "transfer_Bytes p = wrap64 (\<Sum>u\<leftarrow>transfer_uploads p. d_Size (up_desc u)) \<and>
   distinct (map (\<lambda>u. d_Digest (up_desc u)) (transfer_uploads p)) \<and>
   (\<lambda>u. d_Digest (up_desc u)) ` set (transfer_uploads p)
     = (\<Union>e \<in> set (pl_Entries p). d_Digest ` set (en_Missing e))"
  by (intro conjI Bytes_uploads transfer_uploads_wf)

text \<open>
  C21: \<open>Diff\<close> reads the image's manifest from its directory, goes on only when the content has the digest it
  is asked for by, and splits the blobs that manifest names, layers before config before the manifest itself,
  into exactly those the target has and those it lacks.
\<close>

theorem diff_exact:
  assumes "store_backend L B tree ok" "digest_laws L" "source_dir tree ok (im_Dir img)" "ok w"
    and "transfer_Diff L img B w = (Ok e, w')"
  shows "\<exists>rd w1 b m. od_Blobs (im_Dir img) (d_Digest (im_Manifest img)) w = (Ok rd, w1) \<and> read_all rd = Ok b \<and>
    digest_FromBytes L b = d_Digest (im_Manifest img) \<and> json_Manifest L b = Inr m \<and> en_Image e = img \<and>
    (let ds = m_Layers m @ [m_Config m, im_Manifest img] in
      en_Present e = filter (\<lambda>d. has_blob L (tree w) (d_Digest d)) ds \<and>
      en_Missing e = filter (\<lambda>d. \<not> has_blob L (tree w) (d_Digest d)) ds)"
  by (rule store_backend.Diff_Ok [OF assms])

theorem diff_exact_witness:
  "\<exists>e w'. transfer_Diff demo_lib demo_img demo_store os_empty = (Ok e, w') \<and> en_Present e = [] \<and>
     en_Missing e = demo_blobs"
proof -
  obtain e w' where e: "transfer_Diff demo_lib demo_img demo_store os_empty = (Ok e, w')"
    using demo_Diff by blast
  have "source_dir demo_tree (\<lambda>w. demo_ok w) (im_Dir demo_img)"
    using demo_sources by (simp add: plan_sources_def demo_plan_def)
  from diff_exact [OF demo_backend demo_digest_laws this os_empty_ok(1) e] obtain rd w1 b and m :: manifest where
    b: "od_Blobs (im_Dir demo_img) (d_Digest (im_Manifest demo_img)) os_empty = (Ok rd, w1)" "read_all rd = Ok b"
      "digest_FromBytes demo_lib b = d_Digest (im_Manifest demo_img)" "json_Manifest demo_lib b = Inr m"
    and split: "en_Present e = filter (\<lambda>d. has_blob demo_lib (demo_tree os_empty) (d_Digest d))
       (m_Layers m @ [m_Config m, im_Manifest demo_img])"
      "en_Missing e = filter (\<lambda>d. \<not> has_blob demo_lib (demo_tree os_empty) (d_Digest d))
       (m_Layers m @ [m_Config m, im_Manifest demo_img])" by (auto simp: Let_def)
  from b have "transfer_ImageBlobs demo_lib demo_img os_empty = (Ok (m_Layers m @ [m_Config m, im_Manifest demo_img]), w1)"
    by (simp add: transfer_ImageBlobs_def ebind_def ret_def)
  with demo_ImageBlobs [of os_empty] have "m_Layers m @ [m_Config m, im_Manifest demo_img] = demo_blobs" by simp
  with split have "en_Present e = []" "en_Missing e = demo_blobs" by (simp_all add: os_empty_ok(2) has_blob_def)
  with e show ?thesis by blast
qed

text \<open>
  \<open>PlanPush\<close> loses no entry: each pair of a reference that parses and a platform is in the plan or
  among the joined errors, and each other reference is one error; without an error the plan has all.
\<close>

theorem plan_loses_nothing:
  assumes "transfer_PlanPush L rt src dst images platforms w = (Ok (plan, err), w')"
  shows "length (pl_Entries plan) + (case err of None \<Rightarrow> 0 | Some e \<Rightarrow> (case e of Joined es \<Rightarrow> length es | _ \<Rightarrow> 0)) =
    (\<Sum>s\<leftarrow>images. if \<exists>r. types_ParseReference L s = Ok r then max 1 (length platforms) else 1)"
proof -
  let ?ps = "if platforms = [] then [types_HostPlatform rt] else platforms"
  from assms obtain errs where run: "plan_images L src dst ?ps images (\<lparr>pl_Entries = []\<rparr>, []) w = (Ok (plan, errs), w')"
    and err: "err = join_errs errs"
    by (auto simp: transfer_PlanPush_def ebind_Ok)
  have "length ?ps = max 1 (length platforms)" by (cases platforms) auto
  with plan_images_count [OF run] err show ?thesis by (simp only: join_errs_def) (simp split: if_splits)
qed

theorem plan_loses_nothing_witness:
  "\<forall>rt. \<exists>plan e w'. transfer_PlanPush demo_lib rt (transfer_FromOciDir demo_lib 0 demo_dir) demo_store [[]] [] os_empty
     = (Ok (plan, Some e), w') \<and> length (pl_Entries plan) = 0"
proof
  fix rt
  have "case types_ParseReference demo_lib [] of Err e \<Rightarrow> True | _ \<Rightarrow> False" by code_simp
  then obtain e where "types_ParseReference demo_lib [] = Err e" by (auto split: res.splits)
  then have 1: "transfer_PlanPush demo_lib rt (transfer_FromOciDir demo_lib 0 demo_dir) demo_store [[]] [] os_empty
      = (Ok (\<lparr>pl_Entries = []\<rparr>, Some (Joined [e])), os_empty)" and 2: "\<nexists>r. types_ParseReference demo_lib [] = Ok r"
    by (simp_all add: transfer_PlanPush_def ret_def join_errs_def)
  from plan_loses_nothing [OF 1] 2 have "length (pl_Entries (\<lparr>pl_Entries = []\<rparr> :: os plan)) = 0" by simp
  with 1 show "\<exists>plan e w'. transfer_PlanPush demo_lib rt (transfer_FromOciDir demo_lib 0 demo_dir) demo_store [[]] [] os_empty
     = (Ok (plan, Some e), w') \<and> length (pl_Entries plan) = 0" by blast
qed

text \<open>
  C22: an oci-dir source gives a manifest the named entry vouches for, whatever bytes the directory
  serves: the entry is the one the tag names or, at any depth of verified indexes, the one the digest
  names; the manifest is the entry itself when its verified config matches the platform, or the only
  child of its verified index that does.
\<close>

theorem from_dir_sound:
  assumes "transfer_FromOciDir L depth dir ref p w = (Ok im, w')"
  shows "\<exists>ix w1 d. od_Index dir w = (Ok ix, w1) \<and> selects_entry L (i_Manifests ix) ref d \<and>
    selects_manifest L d p (im_Manifest im) \<and> im_Ref im = ref \<and> im_Platform im = p"
  using assms by (auto simp: transfer_FromOciDir_def ebind_Ok dest!: find_Ok selectPlatform_Ok)

theorem from_dir_sound_witness:
  "\<exists>d. selects_manifest demo_lib d demo_platform (demo_md demo_diff)"
  using from_dir_sound [OF demo_from_dir [of 0 os_empty]] by auto

text \<open>
  The search through nested indexes ends: at every call depth above the rank of the indexes it
  starts from, in any ranking that falls along the nesting, \<open>Resolve\<close> gives the same result.
\<close>

theorem from_dir_depth:
  assumes "nesting_rank L dir rank" "od_Index dir w = (Ok ix, w1)"
    and "\<forall>d \<in> set (i_Manifests ix). transfer_isIndex (d_MediaType d) \<longrightarrow> rank (d_Digest d) < k"
  shows "transfer_FromOciDir L (k + j) dir ref p w = transfer_FromOciDir L k dir ref p w"
proof -
  have "transfer_findDigest L dir ref (k + j) (i_Manifests ix) w1 = transfer_findDigest L dir ref k (i_Manifests ix) w1"
    by (rule findDigest_depth [OF assms(1)]) (use assms(3) in auto)
  then show ?thesis using assms(2) by (simp add: transfer_FromOciDir_def ebind_def transfer_find_def)
qed

theorem from_dir_depth_witness:
  "transfer_FromOciDir demo_lib (1 + 5) demo_nested demo_digest_ref demo_platform os_empty =
     transfer_FromOciDir demo_lib 1 demo_nested demo_digest_ref demo_platform os_empty"
  by (rule from_dir_depth [OF demo_nested_rank]) (simp_all add: demo_nested_def ret_def)

end
