(* ===== verification/Blobcache.thy ===== *)
theory Blobcache
  imports Store_Backend
begin

text \<open>
  Package blobcache: a pool of verified blobs filled by resumable downloads. The cache directory is
  the map \<open>bw_files\<close> from paths to contents; every call into package os may fail, as the stream
  \<open>bw_faults\<close> decides, and a failing write leaves a part of its bytes behind. \<open>bw_reports\<close> is what the callback
  \<open>progress\<close> of \<open>Fetch\<close> has been called with. The operations on one
  digest run under its lock, so they are sequential here; the lock protocol between processes is
  the theory Blobcache_Lock.
\<close>

section \<open>The cache directory\<close>

record bworld =
  bw_files :: "string \<rightharpoonup> bytes"
  bw_faults :: "nat \<Rightarrow> gerr option"
  bw_short :: "nat \<Rightarrow> nat"
  bw_rand :: "nat \<Rightarrow> string"
  bw_clock :: nat
  bw_reports :: "int list"

text \<open>One call into the operating system: it takes a step of the clock and may fail.\<close>

definition sys :: "(bworld, 'a) io \<Rightarrow> (bworld, 'a) io" where
  "sys m w =
     (let w' = w\<lparr>bw_clock := Suc (bw_clock w)\<rparr> in
      case bw_faults w (bw_clock w) of Some e \<Rightarrow> (Err e, w') | None \<Rightarrow> m w')"

definition sys_MkdirAll :: "string \<Rightarrow> (bworld, unit) io" where
  "sys_MkdirAll n = sys (ret ())"

definition sys_Stat :: "string \<Rightarrow> (bworld, int) io" where
  "sys_Stat n = sys (\<lambda>w. case bw_files w n of
     None \<Rightarrow> (Err (Wrap1 ''stat'' (Sentinel ErrNotExist)), w)
   | Some b \<Rightarrow> (Ok (int (length b)), w))"

definition sys_Open :: "string \<Rightarrow> (bworld, bytes) io" where
  "sys_Open n = sys (\<lambda>w. case bw_files w n of
     None \<Rightarrow> (Err (Wrap1 ''open'' (Sentinel ErrNotExist)), w)
   | Some b \<Rightarrow> (Ok b, w))"

text \<open>\<open>O_CREATE\<close> opens or makes the file; with \<open>O_EXCL\<close> an existing one is an error.\<close>

definition sys_OpenCreate :: "string \<Rightarrow> (bworld, unit) io" where
  "sys_OpenCreate n = sys (\<lambda>w. case bw_files w n of
     None \<Rightarrow> (Ok (), w\<lparr>bw_files := (bw_files w)(n \<mapsto> [])\<rparr>)
   | Some b \<Rightarrow> (Ok (), w))"

definition sys_OpenExcl :: "string \<Rightarrow> (bworld, unit) io" where
  "sys_OpenExcl n = sys (\<lambda>w. case bw_files w n of
     None \<Rightarrow> (Ok (), w\<lparr>bw_files := (bw_files w)(n \<mapsto> [])\<rparr>)
   | Some b \<Rightarrow> (Err (Wrap1 ''open'' (Sentinel ErrExist)), w))"

definition sys_Truncate0 :: "string \<Rightarrow> (bworld, unit) io" where
  "sys_Truncate0 n = sys (\<lambda>w. (Ok (), w\<lparr>bw_files := (bw_files w)(n \<mapsto> [])\<rparr>))"

text \<open>Writing at the end of the file \<open>n\<close>.\<close>

definition append_file :: "string \<Rightarrow> bytes \<Rightarrow> bworld \<Rightarrow> bworld" where
  "append_file n bs w =
     (case bw_files w n of
        None \<Rightarrow> w
      | Some b \<Rightarrow> w\<lparr>bw_files := (bw_files w)(n \<mapsto> b @ bs)\<rparr>)"

definition sys_Write :: "string \<Rightarrow> bytes \<Rightarrow> (bworld, unit) io" where
  "sys_Write n bs w =
     (let k = bw_clock w; w' = w\<lparr>bw_clock := Suc k\<rparr> in
      case bw_faults w k of
        Some e \<Rightarrow> (Err e, append_file n (take (bw_short w k) bs) w')
      | None \<Rightarrow> (Ok (), append_file n bs w'))"

definition sys_Sync :: "string \<Rightarrow> (bworld, unit) io" where
  "sys_Sync n = sys (ret ())"

definition sys_Remove :: "string \<Rightarrow> (bworld, unit) io" where
  "sys_Remove n = sys (\<lambda>w. (Ok (), w\<lparr>bw_files := (bw_files w)(n := None)\<rparr>))"

definition sys_Rename :: "string \<Rightarrow> string \<Rightarrow> (bworld, unit) io" where
  "sys_Rename a b = sys (\<lambda>w. case bw_files w a of
     None \<Rightarrow> (Err (Wrap1 ''rename'' (Sentinel ErrNotExist)), w)
   | Some c \<Rightarrow> (Ok (), w\<lparr>bw_files := (bw_files w)(a := None, b \<mapsto> c)\<rparr>))"

definition sys_Rand :: "(bworld, string) io" where
  "sys_Rand w = (Ok (bw_rand w (bw_clock w)), w\<lparr>bw_clock := Suc (bw_clock w)\<rparr>)"

definition cache_progress :: "int \<Rightarrow> (bworld, unit) io" where
  "cache_progress done_bytes w = (Ok (), w\<lparr>bw_reports := bw_reports w @ [done_bytes]\<rparr>)"

section \<open>The operations\<close>

definition blobsDir :: string where "blobsDir = ''blobs''"
definition partialDir :: string where "partialDir = ''partial''"
definition tmpDir :: string where "tmpDir = ''tmp''"
definition bufSize :: nat where "bufSize = 1048576"

text \<open>
  \<open>New\<close> makes the directories; opening and closing a root are calls that may fail. \<open>Close\<close> closes it.
\<close>

definition cache_New :: "string \<Rightarrow> (bworld, unit) io" where
  "cache_New dir =
     ebind (sys_MkdirAll dir) (\<lambda>_.
     ebind (sys (ret ())) (\<lambda>_.
       for_each
         (\<lambda>d. ebind (attempt (sys_MkdirAll d)) (\<lambda>r.
            case r of
              Inl e \<Rightarrow> ebind (attempt (sys (ret ()))) (\<lambda>_. throw e)
            | Inr _ \<Rightarrow> ret ()))
         [blobsDir, partialDir, tmpDir]))"

definition cache_Close :: "(bworld, unit) io" where
  "cache_Close = sys (ret ())"

definition cache_entry :: "oci_lib \<Rightarrow> string \<Rightarrow> string \<Rightarrow> string res" where
  "cache_entry L dir dgst =
     (case digest_split L dgst of
        Ok (a, h) \<Rightarrow> Ok (path_Join [dir, a, h]) | Err e \<Rightarrow> Err e | Panic \<Rightarrow> Panic)"

definition cache_Has :: "oci_lib \<Rightarrow> string \<Rightarrow> (bworld, bool) io" where
  "cache_Has L dgst =
     (if digest_Validate L dgst \<noteq> None then ret False
      else
        ebind (pure_res (cache_entry L blobsDir dgst)) (\<lambda>n.
        ebind (attempt (sys_Stat n)) (\<lambda>r.
          case r of Inl _ \<Rightarrow> ret False | Inr _ \<Rightarrow> ret True)))"

definition cache_Open :: "oci_lib \<Rightarrow> string \<Rightarrow> (bworld, reader) io" where
  "cache_Open L dgst =
     (case digest_Validate L dgst of
        Some e \<Rightarrow> throw e
      | None \<Rightarrow>
          ebind (pure_res (cache_entry L blobsDir dgst)) (\<lambda>n.
          ebind (sys_Open n) (\<lambda>b.
          ebind (sys (ret ())) (\<lambda>_.
            ret \<lparr>rd_Size = int (length b), rd_Content = b, rd_Fail = None\<rparr>))))"

definition cache_discard :: "string \<Rightarrow> (bworld, unit) io" where
  "cache_discard n = ebind (attempt (sys_Remove n)) (\<lambda>_. ret ())"

definition cache_commit :: "oci_lib \<Rightarrow> string \<Rightarrow> string \<Rightarrow> (bworld, unit) io" where
  "cache_commit L name dgst =
     ebind (pure_res (cache_entry L blobsDir dgst)) (\<lambda>target.
     ebind (sys_MkdirAll (path_Dir target)) (\<lambda>_. sys_Rename name target))"

text \<open>
  The copy loop of \<open>fetch\<close>: \<open>acc\<close> is what went into the digester, \<open>done\<close> bytes. It ends with the
  whole blob or an error. \<open>ErrMismatch\<close> marks a source that ended early.
\<close>

definition fetch_error :: "gerr \<Rightarrow> gerr" where
  "fetch_error e = Wrap1 ''blobcache: fetching'' e"

definition source_ended :: gerr where
  "source_ended = Wrap1 ''source ended'' (Sentinel ErrMismatch)"

function fetch_loop ::
  "(bworld, unit) io \<Rightarrow> string \<Rightarrow> nat \<Rightarrow> reader \<Rightarrow> bytes \<Rightarrow> (bworld, bytes) io" where
  "fetch_loop ctx_Err name sz src acc =
     (if sz \<le> length acc then ret acc
      else
        ebind ctx_Err (\<lambda>_.
        case reader_ReadAt src (length acc) (min bufSize (sz - length acc)) of
          (bs, rerr) \<Rightarrow>
            ebind (if bs = [] then ret ()
                   else ebind (sys_Write name bs) (\<lambda>_. cache_progress (int (length (acc @ bs))))) (\<lambda>_.
              case rerr of
                None \<Rightarrow> fetch_loop ctx_Err name sz src (acc @ bs)
              | Some e \<Rightarrow>
                  if \<not> err_is e EOF then throw (fetch_error e)
                  else if length (acc @ bs) \<noteq> sz
                  then ebind (cache_discard name) (\<lambda>_. throw (fetch_error source_ended))
                  else ret (acc @ bs))))"
  by pat_completeness auto

termination
  by (relation "measure (\<lambda>(ctx, name, sz, src, acc). sz - length acc)")
    (auto simp: bufSize_def dest!: reader_ReadAt_full [OF sym])

declare fetch_loop.simps [simp del]

text \<open>The whole of \<open>fetch\<close> under the lock; it also tells whether it reused a partial file.\<close>

definition cache_fetch_body ::
  "oci_lib \<Rightarrow> (bworld, unit) io \<Rightarrow> descriptor \<Rightarrow> reader \<Rightarrow> string \<Rightarrow> bytes \<Rightarrow> (bworld, unit) io" where
  "cache_fetch_body L ctx_Err desc src name held =
     (case digest_Algorithm L (d_Digest desc) of
        None \<Rightarrow> pure_res Panic
      | Some alg \<Rightarrow>
          ebind (sys (ret ())) (\<lambda>_.
          ebind (sys (ret ())) (\<lambda>_.
          ebind (cache_progress (int (length held))) (\<lambda>_.
          ebind (fetch_loop ctx_Err name (nat (d_Size desc)) src held) (\<lambda>b.
            if digest_Digester L alg b \<noteq> d_Digest desc
            then ebind (cache_discard name) (\<lambda>_.
              throw (Wrap1 ''blobcache'' (Sentinel ErrMismatch)))
            else
              ebind (sys_Sync name) (\<lambda>_. cache_commit L name (d_Digest desc)))))))"

text \<open>
  \<open>openLocked\<close> here is the state in which it returns: the file at \<open>name\<close> exists and is locked. The
  steps before it are an open, a lock and two stats, each of which may fail.
\<close>

definition cache_openLocked :: "string \<Rightarrow> (bworld, unit) io" where
  "cache_openLocked name =
     ebind (sys_OpenCreate name) (\<lambda>_.
     ebind (sys (ret ())) (\<lambda>_.
     ebind (sys (ret ())) (\<lambda>_. sys (ret ()))))"

definition cache_fetch ::
  "oci_lib \<Rightarrow> (bworld, unit) io \<Rightarrow> descriptor \<Rightarrow> reader \<Rightarrow> (bworld, bool \<times> gerr option) io" where
  "cache_fetch L ctx_Err desc src =
     ebind (pure_res (cache_entry L partialDir (d_Digest desc))) (\<lambda>name.
     ebind (attempt (ebind (sys_MkdirAll (path_Dir name)) (\<lambda>_. cache_openLocked name))) (\<lambda>lk.
       case lk of
         Inl e \<Rightarrow> ret (False, Some e)
       | Inr _ \<Rightarrow>
           ebind (cache_Has L (d_Digest desc)) (\<lambda>has.
           if has then ebind (cache_progress (d_Size desc)) (\<lambda>_. ret (False, None))
           else
             ebind (attempt (sys_Open name)) (\<lambda>st.
               case st of
                 Inl e \<Rightarrow> ret (False, Some e)
               | Inr b \<Rightarrow>
                   ebind (attempt (if d_Size desc < int (length b) then sys_Truncate0 name else ret ())) (\<lambda>t.
                     case t of
                       Inl e \<Rightarrow> ret (False, Some e)
                     | Inr _ \<Rightarrow>
                         let held = (if d_Size desc < int (length b) then [] else b) in
                         ebind (attempt (cache_fetch_body L ctx_Err desc src name held)) (\<lambda>r.
                           ret (held \<noteq> [], case r of Inl e \<Rightarrow> Some e | Inr _ \<Rightarrow> None)))))))"

definition cache_Fetch ::
  "oci_lib \<Rightarrow> (bworld, unit) io \<Rightarrow> descriptor \<Rightarrow> reader \<Rightarrow> (bworld, unit) io" where
  "cache_Fetch L ctx_Err desc src =
     (case digest_Validate L (d_Digest desc) of
        Some e \<Rightarrow> throw e
      | None \<Rightarrow>
          if d_Size desc < 0 then throw (Msg ''blobcache: negative size'')
          else
            ebind (cache_Has L (d_Digest desc)) (\<lambda>has.
            if has then cache_progress (d_Size desc)
            else
              ebind (cache_fetch L ctx_Err desc src) (\<lambda>(resumed, err).
                case err of
                  None \<Rightarrow> ret ()
                | Some e \<Rightarrow>
                    if err_is e ErrMismatch \<and> resumed
                    then ebind (cache_fetch L ctx_Err desc src) (\<lambda>(_, err2). raise_opt err2)
                    else throw e)))"

text \<open>
  \<open>Put\<close>: the body is copied to a scratch file, whose content is hashed; the deferred cleanup removes
  it unless it was renamed into place. \<open>contextReader\<close> makes the copy fail once the context is done.
\<close>

definition cache_Put ::
  "oci_lib \<Rightarrow> (bworld, unit) io \<Rightarrow> string \<Rightarrow> body \<Rightarrow> (bworld, descriptor) io" where
  "cache_Put L ctx_Err mediaType r =
     ebind sys_Rand (\<lambda>suf.
     let name = path_Join [tmpDir, suf] in
     ebind (sys_OpenExcl name) (\<lambda>_.
     ebind (attempt
         (ebind ctx_Err (\<lambda>_.
          ebind (sys_Write name (fst r)) (\<lambda>_.
          ebind (raise_opt (snd r)) (\<lambda>_.
          ebind (sys_Sync name) (\<lambda>_.
          ebind (sys (ret ())) (\<lambda>_.
            let d = digest_FromBytes L (fst r);
                desc = \<lparr>d_MediaType = mediaType, d_Digest = d, d_Size = int (length (fst r)),
                        d_Annotations = fmempty, d_Platform = None\<rparr> in
            ebind (cache_Has L d) (\<lambda>has.
              if has then ret (desc, False)
              else ebind (cache_commit L name d) (\<lambda>_. ret (desc, True)))))))))) (\<lambda>res.
       case res of
         Inl e \<Rightarrow> ebind (attempt (sys (ret ()))) (\<lambda>_. ebind (cache_discard name) (\<lambda>_. throw e))
       | Inr (desc, committed) \<Rightarrow>
           if committed then ret desc
           else ebind (attempt (sys (ret ()))) (\<lambda>_. ebind (cache_discard name) (\<lambda>_. ret desc)))))"

end
