(* ===== verification/Cache_Interface.thy ===== *)
theory Cache_Interface
  imports Store_Backend
begin

text \<open>
  What the packages registry and cstorage use of a \<open>*blobcache.Cache\<close>: its methods, each with the
  caller's context already applied, and the contract they rely on. Package blobcache interprets it.
\<close>

record 'w cache =
  co_Has :: "string \<Rightarrow> ('w, bool) io"
  co_Open :: "string \<Rightarrow> ('w, reader) io"
  co_Fetch :: "descriptor \<Rightarrow> reader \<Rightarrow> ('w, unit) io"
  co_Put :: "string \<Rightarrow> body \<Rightarrow> ('w, descriptor) io"

text \<open>
  A blob that is in the cache stays there, what is opened has the digest it is opened by, and a
  normal return of \<open>Fetch\<close> or \<open>Put\<close> means that the blob is there.
\<close>

locale blob_cache =
  fixes L :: oci_lib
    and C :: "'w cache"
    and sane :: "'w \<Rightarrow> bool"
    and holds :: "'w \<Rightarrow> string \<Rightarrow> bool"
  assumes has_step: "sane w \<Longrightarrow> co_Has C d w = (rb, w') \<Longrightarrow> sane w' \<and> holds w' = holds w"
    and has_true: "sane w \<Longrightarrow> co_Has C d w = (Ok True, w') \<Longrightarrow> holds w' d"
    and open_step: "sane w \<Longrightarrow> co_Open C d w = (ro, w') \<Longrightarrow> sane w' \<and> holds w' = holds w"
    and open_content: "sane w \<Longrightarrow> co_Open C d w = (Ok rd, w') \<Longrightarrow> holds w d \<and> valid_digest L d \<and>
        rd_Fail rd = None \<and> rd_Size rd = int (length (rd_Content rd)) \<and> digest_matches L d (rd_Content rd)"
    and fetch_step: "sane w \<Longrightarrow> co_Fetch C desc src w = (ru, w') \<Longrightarrow>
        sane w' \<and> (\<forall>d. holds w d \<longrightarrow> holds w' d) \<and> (ru = Ok () \<longrightarrow> holds w' (d_Digest desc))"
    and put_step: "sane w \<Longrightarrow> co_Put C mt body w = (rp, w') \<Longrightarrow>
        sane w' \<and> (\<forall>d. holds w d \<longrightarrow> holds w' d) \<and>
        (\<forall>desc. rp = Ok desc \<longrightarrow> snd body = None \<and> d_MediaType desc = mt \<and>
           d_Digest desc = digest_FromBytes L (fst body) \<and> d_Size desc = int (length (fst body)) \<and>
           holds w' (d_Digest desc))"
begin

text \<open>\<open>grows\<close>: the cache stays sane and loses nothing.\<close>

definition grows :: "'w \<Rightarrow> 'w \<Rightarrow> bool" where
  "grows w w' \<longleftrightarrow> (sane w \<longrightarrow> sane w' \<and> (\<forall>d. holds w d \<longrightarrow> holds w' d))"

lemma growsD: "grows w w' \<Longrightarrow> sane w \<Longrightarrow> sane w' \<and> (\<forall>d. holds w d \<longrightarrow> holds w' d)"
  by (simp add: grows_def)

lemma grows_rel: "reflp grows" "transp grows"
  by (auto simp: grows_def intro!: reflpI transpI)

lemma grows_ops:
  "moves grows (co_Has C d)" "moves grows (co_Open C d)" "moves grows (co_Fetch C desc src)"
  "moves grows (co_Put C mt body)"
  unfolding moves_def grows_def
  by (metis prod.collapse has_step, metis prod.collapse open_step, metis prod.collapse fetch_step,
      metis prod.collapse put_step)

lemmas grows_intros = keeps_intros grows_ops grows_rel

text \<open>What is opened reads as verified content.\<close>

lemma open_read:
  assumes "sane w" "co_Open C d w = (Ok rd, w')" "read_all rd = Ok b"
  shows "digest_matches L d b"
  using open_content [OF assms(1,2)] assms(3) by (simp add: read_all_def section_bytes_def)

end

end
