(* ===== verification/Blobcache_Facts.thy ===== *)
theory Blobcache_Facts
  imports Blobcache Cache_Interface
begin

text \<open>
  What the blob cache keeps: only verified content is ever at a blob's path, whatever system calls
  fail, and blobs do not vanish. \<open>Fetch\<close> and \<open>Put\<close> store what they promise, and a fetch heals a
  corrupt partial file.
\<close>

declare ret_run [simp] throw_run [simp]

section \<open>Paths\<close>

definition cache_path :: "oci_lib \<Rightarrow> string \<Rightarrow> string \<Rightarrow> string" where
  "cache_path L dir d = seg_path [dir, the (digest_Algorithm L d), the (digest_Encoded L d)]"

lemma cache_dirs [simp]: "plain_seg blobsDir" "plain_seg partialDir" "plain_seg tmpDir"
  "blobsDir \<noteq> partialDir" "blobsDir \<noteq> tmpDir" "tmpDir \<noteq> blobsDir" "partialDir \<noteq> blobsDir"
  "CHR ''/'' \<notin> set tmpDir" "CHR ''/'' \<notin> set blobsDir"
  by (simp_all add: plain_seg_def blobsDir_def partialDir_def tmpDir_def)

lemma cache_entry_valid:
  assumes "digest_laws L" "valid_digest L d" "plain_seg dir"
  shows "cache_entry L dir d = Ok (cache_path L dir d)"
  using digest_split_valid [OF assms(1,2)] assms(3)
    path_Join_segs [of "[dir, the (digest_Algorithm L d), the (digest_Encoded L d)]"]
  by (simp add: cache_entry_def cache_path_def)

lemma plain_no_slash: "plain_seg x \<Longrightarrow> CHR ''/'' \<notin> set x"
  by (simp add: plain_seg_def)

lemma cache_path_inj:
  assumes "digest_laws L" "valid_digest L d" "valid_digest L d'" "plain_seg dir" "plain_seg dir'"
  shows "cache_path L dir d = cache_path L dir' d' \<longleftrightarrow> dir = dir' \<and> d = d'"
proof
  assume eq: "cache_path L dir d = cache_path L dir' d'"
  note d = digest_split_valid [OF assms(1,2)] digest_split_valid [OF assms(1,3)]
  have "[dir, the (digest_Algorithm L d), the (digest_Encoded L d)] =
      [dir', the (digest_Algorithm L d'), the (digest_Encoded L d')]"
    using eq unfolding cache_path_def
    by (rule join_on_inject) (use d assms(4,5) in \<open>auto dest: plain_no_slash digest_seg_plain\<close>)
  moreover obtain a h a' h' where "digest_Algorithm L d = Some a" "digest_Encoded L d = Some h"
    "digest_Algorithm L d' = Some a'" "digest_Encoded L d' = Some h'"
    using digest_parts [OF assms(1,2)] digest_parts [OF assms(1,3)] by metis
  ultimately show "dir = dir' \<and> d = d'" using valid_digest_inj [OF assms(1-3)] by simp
qed simp

lemma tmp_not_blob:
  assumes "digest_laws L" "valid_digest L d" "plain_seg s"
  shows "path_Join [tmpDir, s] \<noteq> cache_path L blobsDir d"
proof
  assume eq: "path_Join [tmpDir, s] = cache_path L blobsDir d"
  have "path_Join [tmpDir, s] = seg_path [tmpDir, s]"
    using assms(3) by (intro path_Join_segs) simp_all
  with eq have "seg_path [tmpDir, s] = seg_path [blobsDir, the (digest_Algorithm L d), the (digest_Encoded L d)]"
    by (simp only: cache_path_def)
  then have "[tmpDir, s] = [blobsDir, the (digest_Algorithm L d), the (digest_Encoded L d)]"
    by (rule join_on_inject)
      (use digest_split_valid [OF assms(1,2)] assms(3) in \<open>auto dest: plain_no_slash digest_seg_plain\<close>)
  then show False by simp
qed

section \<open>The invariant\<close>

definition cache_has :: "oci_lib \<Rightarrow> bworld \<Rightarrow> string \<Rightarrow> bool" where
  "cache_has L w d \<longleftrightarrow> valid_digest L d \<and> bw_files w (cache_path L blobsDir d) \<noteq> None"

definition cache_inv :: "oci_lib \<Rightarrow> bworld \<Rightarrow> bool" where
  "cache_inv L w \<longleftrightarrow>
     (\<forall>d b. valid_digest L d \<longrightarrow> bw_files w (cache_path L blobsDir d) = Some b \<longrightarrow> digest_matches L d b) \<and>
     (\<forall>k. plain_seg (bw_rand w k))"

definition cache_step :: "oci_lib \<Rightarrow> bworld \<Rightarrow> bworld \<Rightarrow> bool" where
  "cache_step L w w' \<longleftrightarrow>
     (cache_inv L w \<longrightarrow> cache_inv L w' \<and> (\<forall>d. cache_has L w d \<longrightarrow> cache_has L w' d))"

lemma cache_step_rel [simp]: "reflp (cache_step L)" "transp (cache_step L)"
  by (auto simp: cache_step_def intro!: reflpI transpI)

text \<open>A step that touches at most the file \<open>n\<close>.\<close>

definition only :: "string \<Rightarrow> bworld \<Rightarrow> bworld \<Rightarrow> bool" where
  "only n w w' \<longleftrightarrow> bw_rand w' = bw_rand w \<and> (\<forall>m. m \<noteq> n \<longrightarrow> bw_files w' m = bw_files w m)"

lemma only_rel [simp]: "reflp (only n)" "transp (only n)"
  by (auto simp: only_def intro!: reflpI transpI)

lemma only_step:
  assumes "\<And>d. valid_digest L d \<Longrightarrow> n \<noteq> cache_path L blobsDir d" "only n w w'"
  shows "cache_step L w w'"
  using assms unfolding cache_step_def only_def cache_inv_def cache_has_def by metis

lemma moves_mono: "moves R m \<Longrightarrow> (\<And>w w'. R w w' \<Longrightarrow> S w w') \<Longrightarrow> moves S m"
  unfolding moves_def by blast

text \<open>A step that touches no file.\<close>

abbreviation untouched :: "bworld \<Rightarrow> bworld \<Rightarrow> bool" where
  "untouched \<equiv> \<lambda>w w'. bw_rand w' = bw_rand w \<and> bw_files w' = bw_files w"

lemma untouched_rel [simp]: "reflp untouched" "transp untouched"
  by (auto intro!: reflpI transpI)

lemma untouched_only: "moves untouched m \<Longrightarrow> moves (only n) m"
  by (erule moves_mono) (simp add: only_def)

lemma sys_untouched: "moves untouched m \<Longrightarrow> moves untouched (sys m)"
  unfolding moves_def sys_def Let_def by (auto split: option.splits)

lemma sys_plain [keeps_intros]: "moves untouched (sys (ret x))"
  by (simp add: moves_def sys_def Let_def ret_def split: option.splits)

lemma sys_reads [keeps_intros]: "moves untouched (sys_Stat n)" "moves untouched (sys_Open n)"
  "moves untouched (sys_MkdirAll n)" "moves untouched (sys_Sync n)" "moves untouched sys_Rand"
  by (simp_all add: moves_def sys_def Let_def ret_def sys_Stat_def sys_Open_def sys_MkdirAll_def sys_Sync_def
      sys_Rand_def split: option.splits)

lemma progress_untouched [keeps_intros]: "moves untouched (cache_progress n)"
  by (simp add: moves_def cache_progress_def)

lemma progress_only [keeps_intros]: "moves (only m) (cache_progress n)"
  by (rule untouched_only [OF progress_untouched])

lemma progress_run: "cache_progress n w = (Ok (), w\<lparr>bw_reports := bw_reports w @ [n]\<rparr>)"
  by (simp add: cache_progress_def)

lemma sys_writes [keeps_intros]: "moves (only n) (sys_OpenCreate n)" "moves (only n) (sys_OpenExcl n)"
  "moves (only n) (sys_Truncate0 n)" "moves (only n) (sys_Write n bs)" "moves (only n) (sys_Remove n)"
  by (simp_all add: moves_def sys_def Let_def sys_OpenCreate_def sys_OpenExcl_def sys_Truncate0_def
      sys_Write_def sys_Remove_def append_file_def only_def split: option.splits)

lemma untouched_Has [keeps_intros]: "moves untouched (cache_Has L d)"
  unfolding cache_Has_def by (auto intro!: keeps_intros split: sum.splits)

lemma untouched_Open: "moves untouched (cache_Open L d)"
  unfolding cache_Open_def by (auto intro!: keeps_intros split: option.splits)

lemma only_discard [keeps_intros]: "moves (only n) (cache_discard n)"
  unfolding cache_discard_def by (auto intro!: keeps_intros)

lemma only_openLocked [keeps_intros]: "moves (only n) (cache_openLocked n)"
  unfolding cache_openLocked_def by (auto intro!: keeps_intros untouched_only [OF sys_plain])

lemma only_fetch_loop:
  assumes "moves untouched ctx_Err"
  shows "moves (only name) (fetch_loop ctx_Err name sz src acc)"
  using assms
proof (induction ctx_Err name sz src acc rule: fetch_loop.induct)
  case (1 ctx_Err name sz src acc)
  note ctx = untouched_only [OF "1.prems"]
  obtain bs rerr where read: "reader_ReadAt src (length acc) (min bufSize (sz - length acc)) = (bs, rerr)"
    by (cases "reader_ReadAt src (length acc) (min bufSize (sz - length acc))")
  have go_on: "moves (only name) (fetch_loop ctx_Err name sz src (acc @ bs))"
    if "\<not> sz \<le> length acc" "rerr = None"
    using "1.IH" [OF that(1) read [symmetric] that(2) "1.prems"] .
  show ?case
  proof (cases "sz \<le> length acc")
    case True
    then show ?thesis by (simp add: fetch_loop.simps moves_ret)
  next
    case False
    have wr: "moves (only name) (if bs = [] then ret () else ebind (sys_Write name bs) (\<lambda>_. cache_progress (int (length (acc @ bs)))))"
      by (simp split: if_split) (intro conjI impI keeps_intros, simp_all)
    have "moves (only name) (case rerr of
          None \<Rightarrow> fetch_loop ctx_Err name sz src (acc @ bs)
        | Some e \<Rightarrow>
            if \<not> err_is e EOF then throw (fetch_error e)
            else if length (acc @ bs) \<noteq> sz
            then ebind (cache_discard name) (\<lambda>_. throw (fetch_error source_ended))
            else ret (acc @ bs))"
      using go_on [OF False] by (cases rerr) (auto intro!: keeps_intros)
    then show ?thesis
      unfolding fetch_loop.simps [of ctx_Err name sz src acc] if_not_P [OF False] read prod.case
      by (intro moves_ebind only_rel ctx wr)
  qed
qed

text \<open>The loop's result is what the partial file holds, and as long as the blob.\<close>

lemma append_file_at: "bw_files w n = Some b \<Longrightarrow> bw_files (append_file n bs w) n = Some (b @ bs)"
  by (simp add: append_file_def)

lemma sys_Write_Ok:
  "sys_Write n bs w = (Ok u, w') \<Longrightarrow> bw_files w n = Some b \<Longrightarrow> bw_files w' n = Some (b @ bs)"
  by (auto simp: sys_Write_def Let_def append_file_def split: option.splits)

lemma chunk_length:
  assumes "reader_ReadAt src off n = (bs, r)" shows "length bs \<le> n"
  using assms by (auto simp: reader_ReadAt_def split: if_splits)

lemma fetch_loop_Ok:
  assumes "moves untouched ctx_Err" "fetch_loop ctx_Err name sz src acc w = (Ok b, w')"
    and "bw_files w name = Some acc" "length acc \<le> sz"
  shows "bw_files w' name = Some b \<and> length b = sz"
  using assms
proof (induction ctx_Err name sz src acc arbitrary: w rule: fetch_loop.induct)
  case (1 ctx_Err name sz src acc)
  note run = "1.prems"(2) [unfolded fetch_loop.simps [of ctx_Err name sz src acc]]
  obtain bs rerr where read: "reader_ReadAt src (length acc) (min bufSize (sz - length acc)) = (bs, rerr)"
    by (cases "reader_ReadAt src (length acc) (min bufSize (sz - length acc))")
  show ?case
  proof (cases "sz \<le> length acc")
    case True
    with run "1.prems"(3,4) show ?thesis by auto
  next
    case False
    with run read obtain u w1 v w2 where ctx: "ctx_Err w = (Ok u, w1)"
      and wr: "(if bs = [] then ret () else ebind (sys_Write name bs) (\<lambda>_. cache_progress (int (length (acc @ bs))))) w1 = (Ok v, w2)"
      and rest: "(case rerr of
          None \<Rightarrow> fetch_loop ctx_Err name sz src (acc @ bs)
        | Some e \<Rightarrow>
            if \<not> err_is e EOF then throw (fetch_error e)
            else if length (acc @ bs) \<noteq> sz
            then ebind (cache_discard name) (\<lambda>_. throw (fetch_error source_ended))
            else ret (acc @ bs)) w2 = (Ok b, w')"
      by (auto simp: ebind_Ok)
    from movesD [OF "1.prems"(1) ctx] "1.prems"(3) have "bw_files w1 name = Some acc" by simp
    with wr have w2: "bw_files w2 name = Some (acc @ bs)"
      by (auto simp: ebind_Ok progress_run dest: sys_Write_Ok split: if_splits)
    have len: "length (acc @ bs) \<le> sz" using chunk_length [OF read] False by auto
    show ?thesis
    proof (cases rerr)
      case None
      with rest have "fetch_loop ctx_Err name sz src (acc @ bs) w2 = (Ok b, w')" by simp
      from "1.IH" [OF False read [symmetric] None "1.prems"(1) this w2 len] show ?thesis .
    next
      case (Some e)
      with rest w2 show ?thesis by (auto simp: ebind_Ok split: if_splits)
    qed
  qed
qed

section \<open>Fetch\<close>

text \<open>Renaming a file with the right content into place.\<close>

lemma commit_step:
  assumes laws: "digest_laws L" and d: "valid_digest L d" and n: "\<And>d. valid_digest L d \<Longrightarrow> n \<noteq> cache_path L blobsDir d"
    and b: "bw_files w n = Some b" "digest_matches L d b" and run: "cache_commit L n d w = (r, w')"
  shows "cache_step L w w'" "r = Ok () \<Longrightarrow> bw_files w' (cache_path L blobsDir d) = Some b"
proof -
  let ?t = "cache_path L blobsDir d"
  have target: "cache_entry L blobsDir d = Ok ?t" by (rule cache_entry_valid [OF laws d]) simp
  from run have "(bw_files w' = bw_files w \<and> bw_rand w' = bw_rand w \<and> r \<noteq> Ok ()) \<or>
      (bw_files w' = (bw_files w)(n := None, ?t \<mapsto> b) \<and> bw_rand w' = bw_rand w)"
    by (auto simp: cache_commit_def target ebind_def sys_MkdirAll_def sys_Rename_def sys_def Let_def ret_def b(1)
        split: option.splits)
  then consider (same) "bw_files w' = bw_files w" "bw_rand w' = bw_rand w" "r \<noteq> Ok ()"
    | (moved) "bw_files w' = (bw_files w)(n := None, ?t \<mapsto> b)" "bw_rand w' = bw_rand w" by blast
  then show "cache_step L w w'"
  proof cases
    case same
    then show ?thesis by (simp add: cache_step_def cache_inv_def cache_has_def)
  next
    case moved
    have inj: "d' = d" if "valid_digest L d'" "cache_path L blobsDir d' = ?t" for d'
      using cache_path_inj [OF laws that(1) d] that(2) by simp
    show ?thesis
      unfolding cache_step_def cache_inv_def cache_has_def moved
      using n b(2) inj by (auto split: if_splits)
  qed
  assume "r = Ok ()"
  with run show "bw_files w' ?t = Some b"
    by (auto simp: cache_commit_def target ebind_def sys_MkdirAll_def sys_Rename_def sys_def Let_def ret_def b(1)
        split: option.splits)
qed

lemma Has_Ok:
  assumes laws: "digest_laws L" and run: "cache_Has L d w = (Ok True, w')"
  shows "cache_has L w' d"
proof -
  from run have v: "valid_digest L d" by (auto simp: cache_Has_def valid_digest_def split: if_splits)
  have e: "cache_entry L blobsDir d = Ok (cache_path L blobsDir d)"
    by (rule cache_entry_valid [OF laws v]) simp
  from run v have "bw_files w (cache_path L blobsDir d) \<noteq> None"
    by (auto simp: cache_Has_def valid_digest_def e ebind_def attempt_def sys_Stat_def sys_def Let_def ret_def
        split: option.splits)
  with movesD [OF untouched_Has run] v show ?thesis by (simp add: cache_has_def)
qed

text \<open>A report of progress after a lookup changes nothing.\<close>

lemma progress_same:
  assumes "cache_progress n w = (r, w')"
  shows "r = Ok () \<and> cache_step L w w' \<and> cache_has L w' = cache_has L w"
  using assms by (auto simp: progress_run cache_step_def cache_inv_def cache_has_def fun_eq_iff)

lemma Has_no_Err: "cache_Has L d w \<noteq> (Err e, w')"
  unfolding cache_Has_def cache_entry_def digest_split_def
  by (auto elim!: ebind_attemptE split: option.splits)

lemma partial_not_blob:
  assumes "digest_laws L" "valid_digest L d" "valid_digest L d'"
  shows "cache_path L partialDir d \<noteq> cache_path L blobsDir d'"
  using cache_path_inj [OF assms, of partialDir blobsDir] by simp

lemma untouched_step: "moves untouched m \<Longrightarrow> moves (cache_step L) m"
  by (erule moves_mono) (simp add: cache_step_def cache_inv_def cache_has_def)

lemma only_moves_step:
  "moves (only n) m \<Longrightarrow> (\<And>d. valid_digest L d \<Longrightarrow> n \<noteq> cache_path L blobsDir d) \<Longrightarrow> moves (cache_step L) m"
  by (erule moves_mono) (rule only_step)

lemma cache_step_trans: "cache_step L w w1 \<Longrightarrow> cache_step L w1 w2 \<Longrightarrow> cache_step L w w2"
  by (simp add: cache_step_def)

lemma fetch_body_step:
  assumes laws: "digest_laws L" and v: "valid_digest L (d_Digest desc)" and ctx: "moves untouched ctx_Err"
    and name: "name = cache_path L partialDir (d_Digest desc)"
    and held: "bw_files w name = Some held" "length held \<le> nat (d_Size desc)"
    and run: "cache_fetch_body L ctx_Err desc src name held w = (r, w')"
  shows "cache_step L w w' \<and> (r = Ok () \<longrightarrow> cache_has L w' (d_Digest desc))"
proof -
  let ?d = "d_Digest desc"
  have n: "\<And>d. valid_digest L d \<Longrightarrow> name \<noteq> cache_path L blobsDir d"
    using partial_not_blob [OF laws v] name by simp
  obtain a where a: "digest_Algorithm L ?d = Some a" using digest_parts [OF laws v] by metis
  note own = only_moves_step [OF _ n]
  from run have run: "ebind (ebind (sys (ret ())) (\<lambda>_. ebind (sys (ret ())) (\<lambda>_. cache_progress (int (length held))))) (\<lambda>_.
      ebind (fetch_loop ctx_Err name (nat (d_Size desc)) src held) (\<lambda>b.
        if digest_Digester L a b \<noteq> ?d
        then ebind (cache_discard name) (\<lambda>_. throw (Wrap1 ''blobcache'' (Sentinel ErrMismatch)))
        else ebind (sys_Sync name) (\<lambda>_. cache_commit L name ?d))) w = (r, w')"
    by (simp add: cache_fetch_body_def a ebind_assoc)
  have pre: "moves untouched (ebind (sys (ret ())) (\<lambda>_. ebind (sys (ret ())) (\<lambda>_. cache_progress (int (length held)))))"
    by (auto intro!: keeps_intros)
  from run show ?thesis
  proof (cases rule: ebindE)
    case (Stop r0)
    with movesD [OF untouched_step [OF pre] Stop(1)] show ?thesis by auto
  next
    case (Next u w1)
    from movesD [OF pre Next(1)] held(1) have w1: "bw_files w1 name = Some held" by simp
    note s1 = movesD [OF untouched_step [OF pre] Next(1), of L]
    from Next(2) show ?thesis
    proof (cases rule: ebindE)
      case (Stop r0)
      with cache_step_trans [OF s1 movesD [OF own [OF only_fetch_loop [OF ctx]] Stop(1)]] show ?thesis by auto
    next
      case (Next b w2)
      from fetch_loop_Ok [OF ctx Next(1) w1 held(2)] have w2: "bw_files w2 name = Some b" by simp
      note s2 = cache_step_trans [OF s1 movesD [OF own [OF only_fetch_loop [OF ctx]] Next(1)]]
      show ?thesis
      proof (cases "digest_Digester L a b = ?d")
        case False
        have "moves (cache_step L) (ebind (cache_discard name) (\<lambda>_. throw (Wrap1 ''blobcache'' (Sentinel ErrMismatch)) :: (bworld, unit) io))"
          by (intro keeps_intros own) simp_all
        from movesD [OF this] Next(2) False have "cache_step L w2 w'" "r \<noteq> Ok ()"
          by (auto simp: ebind_Ok)
        with cache_step_trans [OF s2] show ?thesis by simp
      next
        case True
        with a have m: "digest_matches L ?d b" by (simp add: digest_matches_def)
        from Next(2) True have "ebind (sys_Sync name) (\<lambda>_. cache_commit L name ?d) w2 = (r, w')" by simp
        then show ?thesis
        proof (cases rule: ebindE)
          case (Stop r0)
          with cache_step_trans [OF s2 movesD [OF untouched_step [OF sys_reads(4)] Stop(1)]] show ?thesis by auto
        next
          case (Next u w3)
          from movesD [OF sys_reads(4) Next(1)] w2 have w3: "bw_files w3 name = Some b" by simp
          note c = commit_step [OF laws v n w3 m Next(2)]
          have "cache_step L w w'"
            by (rule cache_step_trans [OF cache_step_trans [OF s2 movesD [OF untouched_step [OF sys_reads(4)] Next(1)]] c(1)])
          with c(2) v show ?thesis by (simp add: cache_has_def)
        qed
      qed
    qed
  qed
qed

lemma openLocked_Ok:
  assumes "cache_openLocked n w = (Ok u, w')" shows "\<exists>b. bw_files w' n = Some b"
proof -
  from assms obtain w1 where o: "sys_OpenCreate n w = (Ok (), w1)"
    and rest: "ebind (sys (ret ())) (\<lambda>_. ebind (sys (ret ())) (\<lambda>_. sys (ret ()))) w1 = (Ok u, w')"
    by (auto simp: cache_openLocked_def ebind_Ok)
  have "moves untouched (ebind (sys (ret ())) (\<lambda>_. ebind (sys (ret ())) (\<lambda>_. sys (ret ()))))"
    by (auto intro!: keeps_intros)
  from movesD [OF this rest] o show ?thesis
    by (auto simp: sys_OpenCreate_def sys_def Let_def split: option.splits)
qed

lemma sys_Open_Ok: "sys_Open n w = (Ok b, w') \<Longrightarrow> bw_files w' n = Some b"
  by (auto simp: sys_Open_def sys_def Let_def split: option.splits)

lemma Truncate_Ok: "sys_Truncate0 n w = (Ok u, w') \<Longrightarrow> bw_files w' n = Some []"
  by (auto simp: sys_Truncate0_def sys_def Let_def split: option.splits)

lemma fetch_step:
  assumes laws: "digest_laws L" and v: "valid_digest L (d_Digest desc)" and ctx: "moves untouched ctx_Err"
    and run: "cache_fetch L ctx_Err desc src w = (r, w')"
  shows "cache_step L w w' \<and> (\<forall>b. r = Ok (b, None) \<longrightarrow> cache_has L w' (d_Digest desc))"
proof -
  let ?d = "d_Digest desc" and ?n = "cache_path L partialDir (d_Digest desc)"
  have n: "\<And>d. valid_digest L d \<Longrightarrow> ?n \<noteq> cache_path L blobsDir d"
    using partial_not_blob [OF laws v] by simp
  note own = only_moves_step [OF _ n]
  have e: "cache_entry L partialDir ?d = Ok ?n" by (rule cache_entry_valid [OF laws v]) simp
  have opens: "moves (cache_step L) (ebind (sys_MkdirAll (path_Dir ?n)) (\<lambda>_. cache_openLocked ?n))"
    by (intro moves_ebind cache_step_rel untouched_step sys_reads own only_openLocked)
  note run = run [unfolded cache_fetch_def e ebind_pure]
  from run show ?thesis
  proof (cases rule: ebind_attemptE)
    case (Fail x w1)
    with movesD [OF opens Fail(1)] show ?thesis by auto
  next
    case Stop
    with movesD [OF opens Stop(1)] show ?thesis by auto
  next
    case (Val u w1)
    note s1 = movesD [OF opens Val(1)]
    from Val(2) [unfolded sum.case] show ?thesis
    proof (cases rule: ebindE)
      case (Stop r0)
      with cache_step_trans [OF s1 movesD [OF untouched_step [OF untouched_Has] Stop(1)]] show ?thesis by auto
    next
      case (Next has w2)
      note s2 = cache_step_trans [OF s1 movesD [OF untouched_step [OF untouched_Has] Next(1)]]
      show ?thesis
      proof (cases has)
        case True
        with Next have has: "cache_Has L ?d w1 = (Ok True, w2)"
          and "ebind (cache_progress (d_Size desc)) (\<lambda>_. ret (False, None)) w2 = (r, w')" by simp_all
        then obtain u where "cache_progress (d_Size desc) w2 = (u, w')" "r = Ok (False, None)"
          by (auto simp: ebind_def progress_run)
        with progress_same [of "d_Size desc" w2 u w' L] Has_Ok [OF laws has] cache_step_trans [OF s2] show ?thesis by auto
      next
        case False
        from Next(2) [unfolded if_not_P [OF False]] show ?thesis
        proof (cases rule: ebind_attemptE)
          case (Fail x w3)
          with cache_step_trans [OF s2 movesD [OF untouched_step [OF sys_reads(2)] Fail(1)]] show ?thesis by auto
        next
          case Stop
          with cache_step_trans [OF s2 movesD [OF untouched_step [OF sys_reads(2)] Stop(1)]] show ?thesis by auto
        next
          case (Val b w3)
          note s3 = cache_step_trans [OF s2 movesD [OF untouched_step [OF sys_reads(2)] Val(1)]]
          have trunc: "moves (cache_step L) (if d_Size desc < int (length b) then sys_Truncate0 ?n else ret ())"
            using own [OF sys_writes(3)] by (simp add: moves_ret)
          from Val(2) [unfolded sum.case] show ?thesis
          proof (cases rule: ebind_attemptE)
            case (Fail x w4)
            with cache_step_trans [OF s3 movesD [OF trunc Fail(1)]] show ?thesis by auto
          next
            case Stop
            with cache_step_trans [OF s3 movesD [OF trunc Stop(1)]] show ?thesis by auto
          next
            case t: (Val u w4)
            note s4 = cache_step_trans [OF s3 movesD [OF trunc t(1)]]
            define held where "held = (if d_Size desc < int (length b) then [] else b)"
            have w4: "bw_files w4 ?n = Some held" "length held \<le> nat (d_Size desc)"
              using t(1) sys_Open_Ok [OF Val(1)] by (auto simp: held_def dest: Truncate_Ok split: if_splits)
            from t(2) have "ebind (attempt (cache_fetch_body L ctx_Err desc src ?n held)) (\<lambda>r.
                ret (held \<noteq> [], case r of Inl e \<Rightarrow> Some e | Inr _ \<Rightarrow> None)) w4 = (r, w')"
              by (simp add: held_def Let_def)
            then show ?thesis
            proof (cases rule: ebind_attemptE)
              case (Val u w5)
              from fetch_body_step [OF laws v ctx refl w4 Val(1)] Val(2) cache_step_trans [OF s4] show ?thesis by auto
            next
              case (Fail x w5)
              from fetch_body_step [OF laws v ctx refl w4 Fail(1)] Fail(2) cache_step_trans [OF s4] show ?thesis by auto
            next
              case Stop
              from fetch_body_step [OF laws v ctx refl w4 Stop(1)] Stop(2) cache_step_trans [OF s4] show ?thesis by auto
            qed
          qed
        qed
      qed
    qed
  qed
qed

lemma Fetch_step:
  assumes laws: "digest_laws L" and ctx: "moves untouched ctx_Err"
    and run: "cache_Fetch L ctx_Err desc src w = (r, w')"
  shows "cache_step L w w' \<and> (r = Ok () \<longrightarrow> cache_has L w' (d_Digest desc))"
proof (cases "digest_Validate L (d_Digest desc) = None \<and> 0 \<le> d_Size desc")
  case False
  with run have "w' = w" "r \<noteq> Ok ()" by (auto simp: cache_Fetch_def throw_def split: option.splits if_splits)
  then show ?thesis by (simp add: cache_step_def)
next
  case True
  then have v: "valid_digest L (d_Digest desc)" by (simp add: valid_digest_def)
  note fetch = fetch_step [OF laws v ctx]
  have fm: "moves (cache_step L) (cache_fetch L ctx_Err desc src)" using fetch by (blast intro: movesI)
  from True run have "ebind (cache_Has L (d_Digest desc)) (\<lambda>has.
      if has then cache_progress (d_Size desc)
      else ebind (cache_fetch L ctx_Err desc src) (\<lambda>(resumed, err).
        case err of None \<Rightarrow> ret ()
        | Some e \<Rightarrow>
            if err_is e ErrMismatch \<and> resumed
            then ebind (cache_fetch L ctx_Err desc src) (\<lambda>(_, err2). raise_opt err2)
            else throw e)) w = (r, w')"
    by (simp add: cache_Fetch_def)
  then show ?thesis
  proof (cases rule: ebindE)
    case (Stop r0)
    with movesD [OF untouched_step [OF untouched_Has] Stop(1)] show ?thesis by auto
  next
    case (Next has w1)
    note s1 = movesD [OF untouched_step [OF untouched_Has] Next(1), of L]
    show ?thesis
    proof (cases has)
      case True
      with Next have has: "cache_Has L (d_Digest desc) w = (Ok True, w1)" and p: "cache_progress (d_Size desc) w1 = (r, w')" by simp_all
      from progress_same [OF p, of L] Has_Ok [OF laws has] cache_step_trans [OF s1] show ?thesis by simp
    next
      case False
      from Next(2) [unfolded if_not_P [OF False]] show ?thesis
      proof (cases rule: ebindE)
        case (Stop r0)
        with cache_step_trans [OF s1 movesD [OF fm Stop(1)]] show ?thesis by auto
      next
        case (Next x w2)
        obtain resumed err where x: "x = (resumed, err)" by (cases x)
        note s2 = cache_step_trans [OF s1 movesD [OF fm Next(1)]]
        show ?thesis
        proof (cases err)
          case None
          with fetch [OF Next(1)] Next(2) x s2 show ?thesis by auto
        next
          case (Some e)
          show ?thesis
          proof (cases "err_is e ErrMismatch \<and> resumed")
            case False
            with Next(2) x Some s2 show ?thesis by auto
          next
            case True
            with Next(2) x Some have "ebind (cache_fetch L ctx_Err desc src) (\<lambda>(_, err2). raise_opt err2) w2 = (r, w')" by simp
            then show ?thesis
            proof (cases rule: ebindE)
              case (Stop r0)
              with cache_step_trans [OF s2 movesD [OF fm Stop(1)]] show ?thesis by auto
            next
              case (Next y w3)
              with cache_step_trans [OF s2 movesD [OF fm Next(1)]] fetch [OF Next(1)] show ?thesis
                by (auto simp: raise_opt_def split: option.splits prod.splits)
            qed
          qed
        qed
      qed
    qed
  qed
qed

section \<open>Put\<close>

text \<open>The part of \<open>Put\<close> after the scratch file exists, up to the deferred cleanup.\<close>

lemma Put_body:
  assumes laws: "digest_laws L" "canonical_laws L" and ctx: "moves untouched ctx_Err"
    and n: "\<forall>d. valid_digest L d \<longrightarrow> name \<noteq> cache_path L blobsDir d" and w: "bw_files w name = Some []"
    and desc: "desc = \<lparr>d_MediaType = mt, d_Digest = digest_FromBytes L b, d_Size = int (length b),
                        d_Annotations = fmempty, d_Platform = None\<rparr>"
    and run: "ebind ctx_Err (\<lambda>_.
          ebind (sys_Write name b) (\<lambda>_.
          ebind (raise_opt err) (\<lambda>_.
          ebind (sys_Sync name) (\<lambda>_.
          ebind (sys (ret ())) (\<lambda>_.
          ebind (cache_Has L (d_Digest desc)) (\<lambda>has.
              if has then ret (desc, False)
              else ebind (cache_commit L name (d_Digest desc)) (\<lambda>_. ret (desc, True)))))))) w = (r, w')"
  shows "cache_step L w w' \<and> (\<forall>x. r = Ok x \<longrightarrow> fst x = desc \<and> err = None \<and> cache_has L w' (d_Digest desc))"
proof -
  have n: "\<And>d. valid_digest L d \<Longrightarrow> name \<noteq> cache_path L blobsDir d" using n by blast
  note own = only_moves_step [OF _ n]
  have v: "valid_digest L (d_Digest desc)" using desc by (simp add: valid_FromBytes [OF laws(1)])
  have m: "digest_matches L (d_Digest desc) b" using desc by (simp add: canonical_matches [OF laws(2)])
  let ?pre = "ebind ctx_Err (\<lambda>_. ebind (sys_Write name b) (\<lambda>_. ebind (raise_opt err) (\<lambda>_.
      ebind (sys_Sync name) (\<lambda>_. sys (ret ())))))"
  have pre: "moves (cache_step L) ?pre"
    by (intro keeps_intros own untouched_step [OF ctx] untouched_step [OF sys_reads(4)] untouched_step [OF sys_plain])
      simp_all
  from run have "ebind ?pre (\<lambda>_. ebind (cache_Has L (d_Digest desc)) (\<lambda>has.
      if has then ret (desc, False)
      else ebind (cache_commit L name (d_Digest desc)) (\<lambda>_. ret (desc, True)))) w = (r, w')"
    by (simp only: ebind_assoc)
  then show ?thesis
  proof (cases rule: ebindE)
    case (Stop r0)
    with movesD [OF pre Stop(1)] show ?thesis by auto
  next
    case (Next u w1)
    note s1 = movesD [OF pre Next(1)]
    from Next(1) obtain u1 v1 u2 v2 u3 v3 where c: "ctx_Err w = (Ok u1, v1)" "sys_Write name b v1 = (Ok u2, v2)"
      "err = None" "sys_Sync name v2 = (Ok u3, v3)" "sys (ret ()) v3 = (Ok u, w1)"
      by (auto simp: ebind_Ok raise_opt_Ok)
    have "bw_files v1 name = Some []" using movesD [OF ctx c(1)] w by simp
    from sys_Write_Ok [OF c(2) this] movesD [OF sys_reads(4) c(4)] movesD [OF sys_plain c(5)]
    have w1: "bw_files w1 name = Some b" by simp
    from Next(2) show ?thesis
    proof (cases rule: ebindE)
      case (Stop r0)
      with cache_step_trans [OF s1 movesD [OF untouched_step [OF untouched_Has] Stop(1)]] show ?thesis by auto
    next
      case (Next has w2)
      note s2 = cache_step_trans [OF s1 movesD [OF untouched_step [OF untouched_Has] Next(1)]]
      show ?thesis
      proof (cases has)
        case True
        with Next Has_Ok [OF laws(1)] s2 c(3) show ?thesis by auto
      next
        case False
        from movesD [OF untouched_Has Next(1)] w1 have w2: "bw_files w2 name = Some b" by simp
        from Next(2) [unfolded if_not_P [OF False]] show ?thesis
        proof (cases rule: ebindE)
          case (Stop r0)
          with cache_step_trans [OF s2 commit_step(1) [OF laws(1) v n w2 m Stop(1)]] show ?thesis by auto
        next
          case (Next u w3)
          note k = commit_step [OF laws(1) v n w2 m Next(1)]
          from cache_step_trans [OF s2 k(1)] k(2) Next(2) v c(3) show ?thesis by (auto simp: cache_has_def)
        qed
      qed
    qed
  qed
qed

lemma OpenExcl_Ok: "sys_OpenExcl n w = (Ok u, w') \<Longrightarrow> bw_files w' n = Some []"
  by (auto simp: sys_OpenExcl_def sys_def Let_def split: option.splits)

lemma Put_step:
  assumes laws: "digest_laws L" "canonical_laws L" and ctx: "moves untouched ctx_Err" and inv: "cache_inv L w"
    and run: "cache_Put L ctx_Err mt body w = (r, w')"
  shows "cache_inv L w' \<and> (\<forall>d. cache_has L w d \<longrightarrow> cache_has L w' d) \<and>
    (\<forall>desc. r = Ok desc \<longrightarrow> snd body = None \<and> d_MediaType desc = mt \<and>
       d_Digest desc = digest_FromBytes L (fst body) \<and> d_Size desc = int (length (fst body)) \<and>
       cache_has L w' (d_Digest desc))"
proof -
  obtain suf w0 where suf: "sys_Rand w = (Ok suf, w0)" "suf = bw_rand w (bw_clock w)" by (simp add: sys_Rand_def)
  let ?n = "path_Join [tmpDir, suf]"
  have "plain_seg suf" using inv suf(2) by (simp add: cache_inv_def)
  then have n: "\<And>d. valid_digest L d \<Longrightarrow> ?n \<noteq> cache_path L blobsDir d"
    using tmp_not_blob [OF laws(1)] by blast
  note own = only_moves_step [OF _ n]
  have s0: "cache_step L w w0" by (rule movesD [OF untouched_step [OF sys_reads(5)] suf(1)])
  let ?b = "fst body"
  define desc where "desc = \<lparr>d_MediaType = mt, d_Digest = digest_FromBytes L ?b, d_Size = int (length ?b),
                        d_Annotations = fmempty, d_Platform = None\<rparr>"
  let ?body = "ebind ctx_Err (\<lambda>_.
          ebind (sys_Write ?n ?b) (\<lambda>_.
          ebind (raise_opt (snd body)) (\<lambda>_.
          ebind (sys_Sync ?n) (\<lambda>_.
          ebind (sys (ret ())) (\<lambda>_.
          ebind (cache_Has L (d_Digest desc)) (\<lambda>has.
              if has then ret (desc, False)
              else ebind (cache_commit L ?n (d_Digest desc)) (\<lambda>_. ret (desc, True))))))))"
  have clean: "moves (cache_step L) (ebind (attempt (sys (ret ()))) (\<lambda>_. ebind (cache_discard ?n) (\<lambda>_. m)))"
    if "moves (cache_step L) m" for m :: "(bworld, descriptor) io"
    by (intro keeps_intros own untouched_step [OF sys_plain] that) simp_all
  have cleanr: "ebind (attempt (sys (ret ()))) (\<lambda>_. ebind (cache_discard ?n) (\<lambda>_. ret desc)) v = (Ok x, v') \<Longrightarrow> x = desc"
    "ebind (attempt (sys (ret ()))) (\<lambda>_. ebind (cache_discard ?n) (\<lambda>_. throw e)) v = (Ok x, v') \<Longrightarrow> False" for v x v' e
    by (auto simp: ebind_Ok)
  let ?goal = "cache_step L w w' \<and> (\<forall>x. r = Ok x \<longrightarrow> x = desc \<and> snd body = None \<and> cache_has L w' (d_Digest desc))"
  from run have "ebind (sys_OpenExcl ?n) (\<lambda>_. ebind (attempt ?body) (\<lambda>res.
       case res of
         Inl e \<Rightarrow> ebind (attempt (sys (ret ()))) (\<lambda>_. ebind (cache_discard ?n) (\<lambda>_. throw e))
       | Inr (desc, committed) \<Rightarrow>
           if committed then ret desc
           else ebind (attempt (sys (ret ()))) (\<lambda>_. ebind (cache_discard ?n) (\<lambda>_. ret desc)))) w0 = (r, w')"
    by (simp only: cache_Put_def Let_def ebind_def [of sys_Rand] suf(1) desc_def prod.case res.case descriptor.simps)
  then have ?goal
  proof (cases rule: ebindE)
    case (Stop r0)
    with cache_step_trans [OF s0 movesD [OF own [OF sys_writes(2)] Stop(1)]] show ?thesis by auto
  next
    case (Next u w1)
    note s1 = cache_step_trans [OF s0 movesD [OF own [OF sys_writes(2)] Next(1)]]
    have "\<forall>d. valid_digest L d \<longrightarrow> ?n \<noteq> cache_path L blobsDir d" using n by blast
    note body = Put_body [OF laws ctx this OpenExcl_Ok [OF Next(1)] desc_def]
    from Next(2) show ?thesis
    proof (cases rule: ebind_attemptE)
      case (Val x w2)
      from body [OF Val(1)] have b: "cache_step L w1 w2" "fst x = desc" "snd body = None" "cache_has L w2 (d_Digest desc)"
        by auto
      note s2 = cache_step_trans [OF s1 b(1)]
      show ?thesis
      proof (cases "snd x")
        case True
        with Val(2) b s2 show ?thesis by (cases x) auto
      next
        case False
        with Val(2) b(2) have c: "ebind (attempt (sys (ret ()))) (\<lambda>_. ebind (cache_discard ?n) (\<lambda>_. ret desc)) w2 = (r, w')"
          by (cases x) auto
        from movesD [OF clean [OF moves_ret [OF cache_step_rel(1)]] c] have s3: "cache_step L w2 w'" .
        moreover have "cache_has L w' (d_Digest desc)"
          using s3 b(4) s2 inv by (simp add: cache_step_def)
        moreover have "x = desc" if "r = Ok x" for x using cleanr(1) c that by blast
        ultimately show ?thesis using cache_step_trans [OF s2 s3] b(3) by blast
      qed
    next
      case (Fail e w2)
      from body [OF Fail(1)] have "cache_step L w1 w2" by simp
      with movesD [OF clean [OF moves_throw [OF cache_step_rel(1)]] Fail(2) [unfolded sum.case]]
      have "cache_step L w w'" using cache_step_trans [OF s1] by (blast intro: cache_step_trans)
      moreover have "r \<noteq> Ok x" for x using cleanr(2) Fail(2) by auto
      ultimately show ?thesis by simp
    next
      case Stop
      from body [OF Stop(1)] Stop(2) cache_step_trans [OF s1] show ?thesis by auto
    qed
  qed
  then show ?thesis using inv by (auto simp: cache_step_def desc_def)
qed

section \<open>A fetch from a sound source\<close>

text \<open>No system call fails.\<close>

definition quiet_os :: "bworld \<Rightarrow> bool" where
  "quiet_os w \<longleftrightarrow> (\<forall>k. bw_faults w k = None)"

lemma quiet_sys: "quiet_os w \<Longrightarrow> sys m w = m (w\<lparr>bw_clock := Suc (bw_clock w)\<rparr>)"
  by (simp add: quiet_os_def sys_def Let_def)

lemma quiet_tick [simp]: "quiet_os (w\<lparr>bw_reports := rs\<rparr>) = quiet_os w" "quiet_os (w\<lparr>bw_clock := k\<rparr>) = quiet_os w" "quiet_os (w\<lparr>bw_files := f\<rparr>) = quiet_os w"
  by (simp_all add: quiet_os_def)

lemma quiet_Write:
  "quiet_os w \<Longrightarrow> \<exists>w'. sys_Write n bs w = (Ok (), w') \<and> quiet_os w'"
  by (auto simp: sys_Write_def Let_def append_file_def quiet_os_def split: option.splits)

definition sound_source :: "oci_lib \<Rightarrow> descriptor \<Rightarrow> reader \<Rightarrow> bool" where
  "sound_source L desc src \<longleftrightarrow>
     rd_Fail src = None \<and> d_Size desc = int (length (rd_Content src)) \<and>
     digest_matches L (d_Digest desc) (rd_Content src)"

lemma fetch_loop_up:
  assumes "\<And>w. ctx_Err w = (Ok (), w)" "rd_Fail src = None" "sz = length (rd_Content src)" "length acc \<le> sz" "quiet_os w"
  shows "\<exists>w'. fetch_loop ctx_Err name sz src acc w = (Ok (acc @ drop (length acc) (rd_Content src)), w') \<and> quiet_os w'"
  using assms
proof (induction ctx_Err name sz src acc arbitrary: w rule: fetch_loop.induct)
  case (1 ctx_Err name sz src acc)
  show ?case
  proof (cases "sz \<le> length acc")
    case True
    with "1.prems" show ?thesis by (simp add: fetch_loop.simps)
  next
    case False
    let ?n = "min bufSize (sz - length acc)"
    let ?bs = "take ?n (drop (length acc) (rd_Content src))"
    have read: "reader_ReadAt src (length acc) ?n = (?bs, None)"
      using "1.prems"(2,3) False by (auto simp: reader_ReadAt_def reader_end_def)
    let ?wr = "if ?bs = [] then ret () else ebind (sys_Write name ?bs) (\<lambda>_. cache_progress (int (length (acc @ ?bs))))"
    obtain w1 where wr: "?wr w = (Ok (), w1)" "quiet_os w1"
    proof (cases "?bs = []")
      case True
      then have "?wr w = (Ok (), w)" by (simp only: if_P ret_run)
      with "1.prems"(5) that show ?thesis by blast
    next
      case False
      from quiet_Write [OF "1.prems"(5), of name ?bs] obtain v where v: "sys_Write name ?bs w = (Ok (), v)" "quiet_os v" by blast
      have "?wr w = (Ok (), v\<lparr>bw_reports := bw_reports v @ [int (length (acc @ ?bs))]\<rparr>)"
        unfolding if_not_P [OF False] by (simp only: ebind_def v(1) prod.case res.case progress_run)
      with v(2) that show ?thesis by (simp add: quiet_os_def)
    qed
    have len: "length (acc @ ?bs) \<le> sz" using False "1.prems"(3) by auto
    from "1.IH" [OF False read [symmetric] refl "1.prems"(1-3) len wr(2)] obtain w' where
      w': "fetch_loop ctx_Err name sz src (acc @ ?bs) w1 =
        (Ok ((acc @ ?bs) @ drop (length (acc @ ?bs)) (rd_Content src)), w')" "quiet_os w'" by blast
    have "?bs @ drop (length acc + length ?bs) (rd_Content src) = drop (length acc) (rd_Content src)"
    proof -
      let ?d = "drop (length acc) (rd_Content src)"
      have "drop (length acc + length ?bs) (rd_Content src) = drop (length ?bs) ?d" by (simp add: add.commute)
      moreover have "take ?n ?d @ drop (length (take ?n ?d)) ?d = ?d"
        by (metis append_eq_conv_conj append_take_drop_id)
      ultimately show ?thesis by (simp only:)
    qed
    with w' have "fetch_loop ctx_Err name sz src (acc @ ?bs) w1 = (Ok (acc @ drop (length acc) (rd_Content src)), w')"
      by (simp only: append_assoc length_append)
    with w'(2) show ?thesis
      unfolding fetch_loop.simps [of ctx_Err name sz src acc] if_not_P [OF False] read prod.case option.case
      by (simp only: ebind_def "1.prems"(1) wr(1) prod.case res.case) blast
  qed
qed

lemma quiet_Has:
  assumes "digest_laws L" "valid_digest L d" "quiet_os w"
  shows "\<exists>w'. cache_Has L d w = (Ok (cache_has L w d), w') \<and> quiet_os w' \<and> bw_files w' = bw_files w"
proof -
  have e: "cache_entry L blobsDir d = Ok (cache_path L blobsDir d)"
    by (rule cache_entry_valid [OF assms(1,2)]) simp
  show ?thesis
    using assms(2,3)
    by (simp add: cache_Has_def valid_digest_def e ebind_def attempt_def sys_Stat_def quiet_sys ret_def cache_has_def
        split: option.splits)
qed

lemma fetch_up:
  assumes laws: "digest_laws L" and v: "valid_digest L (d_Digest desc)" and ctx: "\<And>w. ctx_Err w = (Ok (), w)"
    and src: "sound_source L desc src" and w: "quiet_os w"
  shows "\<exists>resumed err w'. cache_fetch L ctx_Err desc src w = (Ok (resumed, err), w') \<and> quiet_os w' \<and>
    (err = None \<or> (resumed \<and> (\<exists>e. err = Some e \<and> err_is e ErrMismatch) \<and>
       bw_files w' (cache_path L partialDir (d_Digest desc)) = None)) \<and>
    (bw_files w (cache_path L partialDir (d_Digest desc)) = None \<longrightarrow> err = None)"
proof -
  let ?d = "d_Digest desc" and ?n = "cache_path L partialDir (d_Digest desc)"
  let ?c = "rd_Content src"
  have e: "cache_entry L partialDir ?d = Ok ?n" "cache_entry L blobsDir ?d = Ok (cache_path L blobsDir ?d)"
    by (rule cache_entry_valid [OF laws v], simp)+
  obtain a where a: "digest_Algorithm L ?d = Some a" using digest_parts [OF laws v] by metis
  have sz: "nat (d_Size desc) = length ?c" and dig: "digest_Digester L a ?c = ?d" and nofail: "rd_Fail src = None"
    using src a by (auto simp: sound_source_def digest_matches_def)
  define w1 where "w1 = snd (ebind (sys_MkdirAll (path_Dir ?n)) (\<lambda>_. cache_openLocked ?n) w)"
  define b where "b = (case bw_files w ?n of None \<Rightarrow> [] | Some b \<Rightarrow> b)"
  have opened: "ebind (sys_MkdirAll (path_Dir ?n)) (\<lambda>_. cache_openLocked ?n) w = (Ok (), w1)"
    and q1: "quiet_os w1" and f1: "bw_files w1 ?n = Some b"
    unfolding w1_def b_def using w
    by (simp_all add: cache_openLocked_def sys_MkdirAll_def sys_OpenCreate_def quiet_sys ebind_def ret_def
        split: option.splits)
  from quiet_Has [OF laws v q1] obtain w2 where
    has: "cache_Has L ?d w1 = (Ok (cache_has L w1 ?d), w2)" and q2: "quiet_os w2" and f2: "bw_files w2 = bw_files w1"
    by blast
  show ?thesis
  proof (cases "cache_has L w1 ?d")
    case True
    then have "cache_fetch L ctx_Err desc src w = (Ok (False, None), w2\<lparr>bw_reports := bw_reports w2 @ [d_Size desc]\<rparr>)"
      by (simp add: cache_fetch_def e ebind_def [of "attempt _"] attempt_def opened ebind_def [of "cache_Has L ?d"] has
          ebind_def [of "cache_progress _"] progress_run ret_def)
    with q2 show ?thesis by (intro exI conjI) (assumption, simp_all)
  next
    case False
    define w3 where "w3 = w2\<lparr>bw_clock := Suc (bw_clock w2)\<rparr>"
    have op: "sys_Open ?n w2 = (Ok b, w3)"
      using f1 f2 q2 by (simp add: sys_Open_def quiet_sys w3_def)
    define held where "held = (if d_Size desc < int (length b) then [] else b)"
    have "\<exists>w4. (if d_Size desc < int (length b) then sys_Truncate0 ?n else ret ()) w3 = (Ok (), w4) \<and>
        quiet_os w4 \<and> bw_files w4 ?n = Some held"
      using q2 f1 f2
      by (cases "d_Size desc < int (length b)") (simp_all add: sys_Truncate0_def quiet_sys w3_def held_def)
    then obtain w4 where tr: "(if d_Size desc < int (length b) then sys_Truncate0 ?n else ret ()) w3 = (Ok (), w4)"
      and q4: "quiet_os w4" and f4: "bw_files w4 ?n = Some held" by blast
    define w5 where "w5 = w4\<lparr>bw_clock := Suc (Suc (bw_clock w4)), bw_reports := bw_reports w4 @ [int (length held)]\<rparr>"
    have q5: "quiet_os w5" and f5: "bw_files w5 ?n = Some held" using q4 f4 by (simp_all add: w5_def)
    have held: "length held \<le> nat (d_Size desc)"
      using nat_mono [of "int (length b)" "d_Size desc"] by (auto simp: held_def)
    from fetch_loop_up [of ctx_Err, OF ctx nofail sz, of held w5 ?n] held q5 sz obtain w6 where
      loop: "fetch_loop ctx_Err ?n (nat (d_Size desc)) src held w5 = (Ok (held @ drop (length held) ?c), w6)"
      and q6: "quiet_os w6" by auto
    let ?b = "held @ drop (length held) ?c"
    have ctxm: "moves untouched ctx_Err" by (simp add: moves_def ctx)
    from fetch_loop_Ok [OF ctxm loop f5 held] have f6: "bw_files w6 ?n = Some ?b" by simp
    have body: "\<exists>r w'. cache_fetch_body L ctx_Err desc src ?n held w4 = (r, w') \<and> quiet_os w' \<and>
        (r = Ok () \<or> (held \<noteq> [] \<and> (\<exists>e. r = Err e \<and> err_is e ErrMismatch) \<and> bw_files w' ?n = None))"
    proof (cases "digest_Digester L a ?b = ?d")
      case True
      have "\<exists>w'. cache_fetch_body L ctx_Err desc src ?n held w4 = (Ok (), w') \<and> quiet_os w'"
        using q4 q6 f6 loop True
        by (simp add: cache_fetch_body_def a ebind_def quiet_sys ret_def w5_def progress_run sys_Sync_def cache_commit_def e
            sys_MkdirAll_def sys_Rename_def)
      then show ?thesis by blast
    next
      case False
      with dig have "held \<noteq> []" by auto
      moreover have "\<exists>w'. cache_fetch_body L ctx_Err desc src ?n held w4 =
          (Err (Wrap1 ''blobcache'' (Sentinel ErrMismatch)), w') \<and> quiet_os w' \<and> bw_files w' ?n = None"
        using q4 q6 f6 loop False
        by (simp add: cache_fetch_body_def a ebind_def quiet_sys ret_def w5_def progress_run cache_discard_def attempt_def
            sys_Remove_def throw_def)
      ultimately show ?thesis by (metis err_is.simps(1,3))
    qed
    then obtain r w' where r: "cache_fetch_body L ctx_Err desc src ?n held w4 = (r, w')" "quiet_os w'"
      "r = Ok () \<or> (held \<noteq> [] \<and> (\<exists>e. r = Err e \<and> err_is e ErrMismatch) \<and> bw_files w' ?n = None)" by blast
    then have res: "attempt (cache_fetch_body L ctx_Err desc src ?n held) w4 =
        (Ok (case r of Err e \<Rightarrow> Inl e | _ \<Rightarrow> Inr ()), w')"
      by (auto simp: attempt_def)
    have "cache_fetch L ctx_Err desc src w = (Ok (held \<noteq> [], case r of Err e \<Rightarrow> Some e | _ \<Rightarrow> None), w')"
      using False r(3)
      by (auto simp: cache_fetch_def e ebind_def [of "attempt _"] attempt_def [of "ebind _ _"] opened
          ebind_def [of "cache_Has L ?d"] has attempt_def [of "sys_Open _"] op attempt_def [of "if _ then _ else _"] tr
          Let_def res [unfolded held_def] held_def ret_def split: res.splits)
    moreover have "held = []" if "bw_files w ?n = None" using that by (simp add: held_def b_def)
    ultimately show ?thesis using r(2,3) by auto
  qed
qed

lemma Fetch_up:
  assumes laws: "digest_laws L" and v: "valid_digest L (d_Digest desc)" and ctx: "\<And>w. ctx_Err w = (Ok (), w)"
    and src: "sound_source L desc src" and w: "quiet_os w"
  shows "\<exists>w'. cache_Fetch L ctx_Err desc src w = (Ok (), w') \<and> quiet_os w'"
proof -
  have pre: "digest_Validate L (d_Digest desc) = None" "\<not> d_Size desc < 0"
    using v src by (simp_all add: valid_digest_def sound_source_def)
  from quiet_Has [OF laws v w] obtain w1 where
    has: "cache_Has L (d_Digest desc) w = (Ok (cache_has L w (d_Digest desc)), w1)" "quiet_os w1" by blast
  from fetch_up [OF laws v ctx src has(2)] obtain resumed err w2 where
    f1: "cache_fetch L ctx_Err desc src w1 = (Ok (resumed, err), w2)" "quiet_os w2"
    "err = None \<or> (resumed \<and> (\<exists>e. err = Some e \<and> err_is e ErrMismatch) \<and>
       bw_files w2 (cache_path L partialDir (d_Digest desc)) = None)" by blast
  from fetch_up [OF laws v ctx src f1(2)] obtain resumed2 err2 w3 where
    f2: "cache_fetch L ctx_Err desc src w2 = (Ok (resumed2, err2), w3)" "quiet_os w3"
    "bw_files w2 (cache_path L partialDir (d_Digest desc)) = None \<longrightarrow> err2 = None"
    by (elim exE conjE) (rule that)
  show ?thesis
    using f1(3) f2(3) f1(2) f2(2) has(2)
    by (auto simp: cache_Fetch_def pre ebind_def has(1) f1(1) f2(1) raise_opt_def ret_def progress_run)
qed

section \<open>Progress\<close>

text \<open>What the callback of \<open>Fetch\<close> is told. A step that reports nothing:\<close>

abbreviation silent :: "bworld \<Rightarrow> bworld \<Rightarrow> bool" where
  "silent \<equiv> \<lambda>w w'. bw_reports w' = bw_reports w"

lemma silent_rel [simp]: "reflp silent" "transp silent"
  by (auto intro!: reflpI transpI)

lemma silent_sys [keeps_intros]: "moves silent (sys (ret x))" "moves silent (sys_Stat n)" "moves silent (sys_Open n)"
  "moves silent (sys_MkdirAll n)" "moves silent (sys_Sync n)" "moves silent (sys_OpenCreate n)" "moves silent (sys_Truncate0 n)"
  "moves silent (sys_Write n bs)" "moves silent (sys_Remove n)" "moves silent (sys_Rename n m)"
  by (simp_all add: moves_def sys_def Let_def ret_def sys_Stat_def sys_Open_def sys_MkdirAll_def sys_Sync_def
      sys_OpenCreate_def sys_Truncate0_def sys_Write_def sys_Remove_def sys_Rename_def append_file_def split: option.splits)

lemma silent_ops [keeps_intros]: "moves silent (cache_Has L d)" "moves silent (cache_discard n)"
  "moves silent (cache_openLocked n)" "moves silent (cache_commit L n d)"
  unfolding cache_Has_def cache_discard_def cache_openLocked_def cache_commit_def
  by (auto intro!: keeps_intros split: sum.splits)

text \<open>\<open>adds a b rs w w'\<close>: the reports \<open>rs\<close> were made, in ascending order and from \<open>a\<close> to \<open>b\<close>.\<close>

definition adds :: "int \<Rightarrow> int \<Rightarrow> int list \<Rightarrow> bworld \<Rightarrow> bworld \<Rightarrow> bool" where
  "adds a b rs w w' \<longleftrightarrow> bw_reports w' = bw_reports w @ rs \<and> sorted rs \<and> (\<forall>n \<in> set rs. a \<le> n \<and> n \<le> b)"

lemma adds_nothing: "silent w w' \<Longrightarrow> adds a b [] w w'"
  by (simp add: adds_def)

lemma adds_silent:
  "silent w w1 \<Longrightarrow> adds a b rs w1 w2 \<Longrightarrow> adds a b rs w w2" "adds a b rs w w1 \<Longrightarrow> silent w1 w2 \<Longrightarrow> adds a b rs w w2"
  by (simp_all add: adds_def)

lemma adds_report:
  "cache_progress n w = (r, w1) \<Longrightarrow> adds n b rs w1 w2 \<Longrightarrow> a \<le> n \<Longrightarrow> n \<le> b \<Longrightarrow> adds a b (n # rs) w w2"
  by (auto simp: adds_def progress_run)

lemma fetch_loop_reports:
  assumes "moves silent ctx_Err" "fetch_loop ctx_Err name sz src acc w = (r, w')"
  shows "\<exists>rs. adds (int (length acc)) (int sz) rs w w' \<and> (\<forall>b. r = Ok b \<longrightarrow> length acc < sz \<longrightarrow> rs \<noteq> [] \<and> last rs = int sz)"
  using assms
proof (induction ctx_Err name sz src acc arbitrary: w rule: fetch_loop.induct)
  case (1 ctx_Err name sz src acc)
  obtain bs rerr where read: "reader_ReadAt src (length acc) (min bufSize (sz - length acc)) = (bs, rerr)"
    by (cases "reader_ReadAt src (length acc) (min bufSize (sz - length acc))")
  show ?case
  proof (cases "sz \<le> length acc")
    case True
    with "1.prems"(2) show ?thesis by (auto simp: fetch_loop.simps adds_def intro!: exI [of _ "[]"])
  next
    case False
    let ?rest = "case rerr of
          None \<Rightarrow> fetch_loop ctx_Err name sz src (acc @ bs)
        | Some e \<Rightarrow>
            if \<not> err_is e EOF then throw (fetch_error e)
            else if length (acc @ bs) \<noteq> sz
            then ebind (cache_discard name) (\<lambda>_. throw (fetch_error source_ended))
            else ret (acc @ bs)"
    let ?rep = "cache_progress (int (length (acc @ bs)))"
    have len: "length (acc @ bs) \<le> sz" using chunk_length [OF read] False by auto
    have rest: "\<exists>rs. adds (int (length (acc @ bs))) (int sz) rs u w' \<and>
        (\<forall>b. r = Ok b \<longrightarrow> length (acc @ bs) < sz \<longrightarrow> rs \<noteq> [] \<and> last rs = int sz)" if "?rest u = (r, w')" for u
    proof (cases rerr)
      case None
      with that "1.IH" [OF False read [symmetric] None "1.prems"(1)] show ?thesis by simp
    next
      case (Some e)
      have still: "moves silent (if \<not> err_is e EOF then throw (fetch_error e)
            else if length (acc @ bs) \<noteq> sz then ebind (cache_discard name) (\<lambda>_. throw (fetch_error source_ended))
            else ret (acc @ bs))" by (simp split: if_split) (intro conjI impI keeps_intros, simp_all)
      from that Some have run: "(if \<not> err_is e EOF then throw (fetch_error e)
            else if length (acc @ bs) \<noteq> sz then ebind (cache_discard name) (\<lambda>_. throw (fetch_error source_ended))
            else ret (acc @ bs)) u = (r, w')" by simp
      have "length (acc @ bs) = sz" if "r = Ok b" for b
        using run that by (auto simp: ebind_Ok split: if_splits)
      with adds_nothing [OF movesD [OF still run]] show ?thesis by (intro exI [of _ "[]"]) auto
    qed
    from "1.prems"(2) have run: "ebind ctx_Err (\<lambda>_. ebind (if bs = [] then ret () else ebind (sys_Write name bs) (\<lambda>_. ?rep)) (\<lambda>_. ?rest)) w = (r, w')"
      unfolding fetch_loop.simps [of ctx_Err name sz src acc] if_not_P [OF False] read prod.case .
    then show ?thesis
    proof (cases rule: ebindE)
      case (Stop r0)
      with adds_nothing [OF movesD [OF "1.prems"(1) Stop(1)]] show ?thesis by (intro exI [of _ "[]"]) auto
    next
      case (Next u w1)
      note s1 = movesD [OF "1.prems"(1) Next(1)]
      show ?thesis
      proof (cases "bs = []")
        case True
        with Next(2) have "?rest w1 = (r, w')" by (simp add: ebind_def)
        from rest [OF this] obtain rs where rs: "adds (int (length (acc @ bs))) (int sz) rs w1 w'"
          "\<forall>b. r = Ok b \<longrightarrow> length (acc @ bs) < sz \<longrightarrow> rs \<noteq> [] \<and> last rs = int sz" by blast
        from adds_silent(1) [OF s1 rs(1)] rs(2) True show ?thesis by (intro exI [of _ rs]) simp
      next
        case False
        from Next(2) have "ebind (sys_Write name bs) (\<lambda>_. ebind ?rep (\<lambda>_. ?rest)) w1 = (r, w')"
          unfolding if_not_P [OF False] ebind_assoc .
        then show ?thesis
        proof (cases rule: ebindE)
          case (Stop r0)
          with adds_nothing [OF s1 [folded movesD [OF silent_sys(8) Stop(1)]]] show ?thesis by (intro exI [of _ "[]"]) auto
        next
          case w: (Next v w2)
          note s2 = movesD [OF silent_sys(8) w(1)]
          obtain w3 where p: "?rep w2 = (Ok (), w3)" by (simp add: progress_run)
          with w(2) have "?rest w3 = (r, w')" by (simp add: ebind_def)
          from rest [OF this] obtain rs where rs: "adds (int (length (acc @ bs))) (int sz) rs w3 w'"
            "\<forall>b. r = Ok b \<longrightarrow> length (acc @ bs) < sz \<longrightarrow> rs \<noteq> [] \<and> last rs = int sz" by blast
          have up: "int (length acc) \<le> int (length (acc @ bs))" "int (length (acc @ bs)) \<le> int sz" using len by simp_all
          have "last (int (length (acc @ bs)) # rs) = int sz" if "r = Ok b" for b
          proof (cases "length (acc @ bs) < sz")
            case True
            with rs(2) that show ?thesis by auto
          next
            case False
            with len have "int sz = int (length (acc @ bs))" by simp
            with rs(1) have "\<forall>n \<in> set rs. n = int sz" by (auto simp: adds_def)
            with last_in_set [of rs] \<open>int sz = int (length (acc @ bs))\<close> show ?thesis by (cases "rs = []") simp_all
          qed
          with adds_silent(1) [OF s1 adds_silent(1) [OF s2 adds_report [OF p rs(1) up]]] show ?thesis
            by (intro exI [of _ "int (length (acc @ bs)) # rs"]) auto
        qed
      qed
    qed
  qed
qed

lemma fetch_body_reports:
  assumes ctx: "moves silent ctx_Err" and held: "length held \<le> nat (d_Size desc)" "0 \<le> d_Size desc"
    and run: "cache_fetch_body L ctx_Err desc src name held w = (r, w')"
  shows "\<exists>rs. adds 0 (d_Size desc) rs w w' \<and> (\<forall>x. r = Ok x \<longrightarrow> rs \<noteq> [] \<and> last rs = d_Size desc)"
proof (cases "digest_Algorithm L (d_Digest desc)")
  case None
  with run show ?thesis by (auto simp: cache_fetch_body_def pure_res_def intro!: exI [of _ "[]"] adds_nothing)
next
  case (Some a)
  let ?rep = "cache_progress (int (length held))" and ?sz = "nat (d_Size desc)"
  let ?finish = "\<lambda>b. if digest_Digester L a b \<noteq> d_Digest desc
        then ebind (cache_discard name) (\<lambda>_. throw (Wrap1 ''blobcache'' (Sentinel ErrMismatch)))
        else ebind (sys_Sync name) (\<lambda>_. cache_commit L name (d_Digest desc))"
  have still: "moves silent (?finish b)" for b by (simp split: if_split) (intro conjI impI keeps_intros, simp_all)
  from run Some have "ebind (ebind (sys (ret ())) (\<lambda>_. sys (ret ()))) (\<lambda>_. ebind ?rep (\<lambda>_.
      ebind (fetch_loop ctx_Err name ?sz src held) ?finish)) w = (r, w')"
    by (simp add: cache_fetch_body_def ebind_assoc)
  then show ?thesis
  proof (cases rule: ebindE)
    case (Stop r0)
    have "moves silent (ebind (sys (ret ())) (\<lambda>_. sys (ret ())))" by (intro keeps_intros silent_rel)
    from adds_nothing [OF movesD [OF this Stop(1)]] Stop(3) show ?thesis by (intro exI [of _ "[]"]) auto
  next
    case (Next u w1)
    have "moves silent (ebind (sys (ret ())) (\<lambda>_. sys (ret ())))" by (intro keeps_intros silent_rel)
    note s1 = movesD [OF this Next(1)]
    obtain w2 where p: "?rep w1 = (Ok (), w2)" by (simp add: progress_run)
    with Next(2) have loop: "ebind (fetch_loop ctx_Err name ?sz src held) ?finish w2 = (r, w')" by (simp add: ebind_def)
    have sz: "int (length held) \<le> d_Size desc" "int ?sz = d_Size desc" using held by auto
    have "\<exists>rs. adds (int (length held)) (d_Size desc) rs w2 w' \<and>
      (\<forall>x. r = Ok x \<longrightarrow> int (length held) < d_Size desc \<longrightarrow> rs \<noteq> [] \<and> last rs = d_Size desc)"
      using loop
    proof (cases rule: ebindE)
      case (Stop r0)
      from fetch_loop_reports [OF ctx Stop(1)] Stop(3) show ?thesis unfolding sz(2) by auto
    next
      case (Next b w3)
      from fetch_loop_reports [OF ctx Next(1)] obtain rs where rs: "adds (int (length held)) (d_Size desc) rs w2 w3"
        "length held < ?sz \<longrightarrow> rs \<noteq> [] \<and> last rs = d_Size desc" unfolding sz(2) by auto
      from adds_silent(2) [OF rs(1) movesD [OF still Next(2)]] rs(2) show ?thesis by (intro exI [of _ rs]) auto
    qed
    then obtain rs where rs: "adds (int (length held)) (d_Size desc) rs w2 w'"
      "\<forall>x. r = Ok x \<longrightarrow> int (length held) < d_Size desc \<longrightarrow> rs \<noteq> [] \<and> last rs = d_Size desc" by blast
    have "adds 0 (d_Size desc) (int (length held) # rs) w w'"
      using adds_silent(1) [OF s1 adds_report [OF p rs(1), of 0]] sz(1) by simp
    moreover have "last (int (length held) # rs) = d_Size desc" if "r = Ok x" for x
    proof (cases "int (length held) < d_Size desc")
      case True
      with rs(2) that show ?thesis by auto
    next
      case False
      with sz(1) have "d_Size desc = int (length held)" by simp
      with rs(1) have "\<forall>n \<in> set rs. n = d_Size desc" by (auto simp: adds_def)
      with last_in_set [of rs] \<open>d_Size desc = int (length held)\<close> show ?thesis by (cases "rs = []") simp_all
    qed
    ultimately show ?thesis by (intro exI [of _ "int (length held) # rs"]) auto
  qed
qed

lemma fetch_reports:
  assumes ctx: "moves silent ctx_Err" and sz: "0 \<le> d_Size desc" and run: "cache_fetch L ctx_Err desc src w = (r, w')"
  shows "\<exists>rs. adds 0 (d_Size desc) rs w w' \<and> (\<forall>b. r = Ok (b, None) \<longrightarrow> rs \<noteq> [] \<and> last rs = d_Size desc)"
proof (cases "cache_entry L partialDir (d_Digest desc)")
  case (Ok name)
  have none: ?thesis if "silent w w'" "\<And>b. r \<noteq> Ok (b, None)" using that by (intro exI [of _ "[]"]) (simp add: adds_def)
  have opens: "moves silent (ebind (sys_MkdirAll (path_Dir name)) (\<lambda>_. cache_openLocked name))"
    by (intro keeps_intros silent_rel)
  note run = run [unfolded cache_fetch_def Ok ebind_pure]
  from run show ?thesis
  proof (cases rule: ebind_attemptE)
    case (Fail x w1)
    with movesD [OF opens Fail(1)] show ?thesis by (intro none) auto
  next
    case Stop
    with movesD [OF opens Stop(1)] show ?thesis by (intro none) auto
  next
    case (Val u w1)
    note s1 = movesD [OF opens Val(1)]
    from Val(2) [unfolded sum.case] show ?thesis
    proof (cases rule: ebindE)
      case (Stop r0)
      with movesD [OF silent_ops(1) Stop(1)] s1 show ?thesis by (intro none) auto
    next
      case (Next has w2)
      note s2 = trans [OF movesD [OF silent_ops(1) Next(1)] s1]
      show ?thesis
      proof (cases has)
        case True
        with Next(2) have "bw_reports w' = bw_reports w2 @ [d_Size desc]" by (auto simp: ebind_def progress_run)
        with s2 sz show ?thesis by (intro exI [of _ "[d_Size desc]"]) (simp add: adds_def)
      next
        case False
        from Next(2) [unfolded if_not_P [OF False]] show ?thesis
        proof (cases rule: ebind_attemptE)
          case (Fail x w3)
          with movesD [OF silent_sys(3) Fail(1)] s2 show ?thesis by (intro none) auto
        next
          case Stop
          with movesD [OF silent_sys(3) Stop(1)] s2 show ?thesis by (intro none) auto
        next
          case (Val b w3)
          note s3 = trans [OF movesD [OF silent_sys(3) Val(1)] s2]
          have trunc: "moves silent (if d_Size desc < int (length b) then sys_Truncate0 name else ret ())"
            by (simp split: if_split) (intro conjI impI keeps_intros, simp_all)
          from Val(2) [unfolded sum.case] show ?thesis
          proof (cases rule: ebind_attemptE)
            case (Fail x w4)
            with movesD [OF trunc Fail(1)] s3 show ?thesis by (intro none) auto
          next
            case Stop
            with movesD [OF trunc Stop(1)] s3 show ?thesis by (intro none) auto
          next
            case t: (Val u w4)
            note s4 = trans [OF movesD [OF trunc t(1)] s3]
            let ?held = "if d_Size desc < int (length b) then [] else b"
            have held: "length ?held \<le> nat (d_Size desc)" by auto
            note body = fetch_body_reports [OF ctx held sz]
            from t(2) have "ebind (attempt (cache_fetch_body L ctx_Err desc src name ?held)) (\<lambda>r.
                ret (?held \<noteq> [], case r of Inl e \<Rightarrow> Some e | Inr _ \<Rightarrow> None)) w4 = (r, w')"
              by (simp only: sum.case Let_def)
            then show ?thesis
            proof (cases rule: ebind_attemptE)
              case (Val u w5)
              from body [OF Val(1)] obtain rs where rs: "adds 0 (d_Size desc) rs w4 w5" "rs \<noteq> [] \<and> last rs = d_Size desc" by auto
              from adds_silent(1) [OF s4 rs(1)] rs(2) Val(2) show ?thesis by (intro exI [of _ rs]) auto
            next
              case (Fail x w5)
              from body [OF Fail(1)] obtain rs where rs: "adds 0 (d_Size desc) rs w4 w5" by auto
              from adds_silent(1) [OF s4 rs] Fail(2) show ?thesis by (intro exI [of _ rs]) auto
            next
              case Stop
              from body [OF Stop(1)] obtain rs where rs: "adds 0 (d_Size desc) rs w4 w'" by auto
              from adds_silent(1) [OF s4 rs] Stop(2) show ?thesis by (intro exI [of _ rs]) auto
            qed
          qed
        qed
      qed
    qed
  qed
qed (use run in \<open>auto simp: cache_fetch_def pure_res_def throw_def ebind_def adds_def intro!: exI [of _ "[]"]\<close>)

text \<open>All of \<open>Fetch\<close>: at most two attempts, and a success is reported with the whole size at the end.\<close>

lemma Fetch_reports:
  assumes ctx: "moves silent ctx_Err" and run: "cache_Fetch L ctx_Err desc src w = (r, w')"
  shows "\<exists>xs ys. bw_reports w' = bw_reports w @ xs @ ys \<and> sorted xs \<and> sorted ys \<and>
    (\<forall>n \<in> set (xs @ ys). 0 \<le> n \<and> n \<le> d_Size desc) \<and> (r = Ok () \<longrightarrow> xs @ ys \<noteq> [] \<and> last (xs @ ys) = d_Size desc)"
proof -
  have one: ?thesis if "adds 0 (d_Size desc) rs w w'" "r = Ok () \<longrightarrow> rs \<noteq> [] \<and> last rs = d_Size desc" for rs
    using that by (intro exI [of _ rs] exI [of _ "[]"]) (simp add: adds_def)
  have two: ?thesis if "adds 0 (d_Size desc) xs w v" "adds 0 (d_Size desc) ys v w'" "r = Ok () \<longrightarrow> ys \<noteq> [] \<and> last ys = d_Size desc" for xs ys v
    using that by (intro exI [of _ xs] exI [of _ ys]) (auto simp: adds_def)
  show ?thesis
  proof (cases "digest_Validate L (d_Digest desc) = None \<and> 0 \<le> d_Size desc")
    case False
    with run have "w' = w" "r \<noteq> Ok ()" by (auto simp: cache_Fetch_def throw_def split: option.splits if_splits)
    then show ?thesis by (intro one [of "[]"]) (simp_all add: adds_def)
  next
    case True
    let ?again = "\<lambda>(resumed, err). case err of None \<Rightarrow> ret ()
        | Some e \<Rightarrow>
            if err_is e ErrMismatch \<and> resumed
            then ebind (cache_fetch L ctx_Err desc src) (\<lambda>(_, err2). raise_opt err2)
            else throw e"
    note fetch = fetch_reports [OF ctx conjunct2 [OF True]]
    from True run have "ebind (cache_Has L (d_Digest desc)) (\<lambda>has.
        if has then cache_progress (d_Size desc) else ebind (cache_fetch L ctx_Err desc src) ?again) w = (r, w')"
      by (simp add: cache_Fetch_def)
    then show ?thesis
    proof (cases rule: ebindE)
      case (Stop r0)
      with movesD [OF silent_ops(1) Stop(1)] show ?thesis by (intro one [of "[]"]) (auto simp: adds_def)
    next
      case (Next has w1)
      note s1 = movesD [OF silent_ops(1) Next(1)]
      show ?thesis
      proof (cases has)
        case True
        with Next(2) have "w' = w1\<lparr>bw_reports := bw_reports w1 @ [d_Size desc]\<rparr>" by (auto simp: progress_run)
        with s1 \<open>_ \<and> 0 \<le> d_Size desc\<close> show ?thesis by (intro one [of "[d_Size desc]"]) (simp_all add: adds_def)
      next
        case False
        from Next(2) [unfolded if_not_P [OF False]] show ?thesis
        proof (cases rule: ebindE)
          case (Stop r0)
          from fetch [OF Stop(1)] obtain rs where rs: "adds 0 (d_Size desc) rs w1 w'" by auto
          from one [OF adds_silent(1) [OF s1 rs]] Stop(3) show ?thesis by auto
        next
          case (Next x w2)
          from fetch [OF Next(1)] obtain rs where rs: "adds 0 (d_Size desc) rs w1 w2"
            "\<forall>b. x = (b, None) \<longrightarrow> rs \<noteq> [] \<and> last rs = d_Size desc" by auto
          note a1 = adds_silent(1) [OF s1 rs(1)]
          show ?thesis
          proof (cases "\<exists>e. snd x = Some e \<and> err_is e ErrMismatch \<and> fst x")
            case False
            with Next(2) have "w' = w2 \<and> (r = Ok () \<longrightarrow> snd x = None)"
              by (auto simp: case_prod_unfold throw_def ret_def split: option.splits if_splits)
            with one [of rs] a1 rs(2) show ?thesis by (cases x) auto
          next
            case True
            with Next(2) have "ebind (cache_fetch L ctx_Err desc src) (\<lambda>(_, err2). raise_opt err2) w2 = (r, w')"
              by (auto simp: case_prod_unfold)
            then show ?thesis
            proof (cases rule: ebindE)
              case (Stop r0)
              from fetch [OF Stop(1)] obtain ys where "adds 0 (d_Size desc) ys w2 w'" by auto
              with two [OF a1] Stop(3) show ?thesis by auto
            next
              case (Next y w3)
              from fetch [OF Next(1)] obtain ys where ys: "adds 0 (d_Size desc) ys w2 w3"
                "\<forall>b. y = (b, None) \<longrightarrow> ys \<noteq> [] \<and> last ys = d_Size desc" by auto
              from Next(2) have fin: "w' = w3" "r = Ok () \<longrightarrow> snd y = None"
                by (auto simp: case_prod_unfold raise_opt_def ret_def throw_def split: option.splits)
              from two [OF a1, of ys] ys fin show ?thesis by (cases y) auto
            qed
          qed
        qed
      qed
    qed
  qed
qed

section \<open>The contract\<close>

text \<open>The cache as its clients use it, in a fixed context.\<close>

definition blobcache_ops :: "oci_lib \<Rightarrow> (bworld, unit) io \<Rightarrow> bworld cache" where
  "blobcache_ops L ctx_Err =
     \<lparr>co_Has = cache_Has L, co_Open = cache_Open L, co_Fetch = cache_Fetch L ctx_Err,
      co_Put = cache_Put L ctx_Err\<rparr>"

lemma cache_has_same: "bw_files w' = bw_files w \<Longrightarrow> cache_has L w' = cache_has L w"
  by (rule ext) (simp add: cache_has_def)

lemma cache_inv_same: "bw_files w' = bw_files w \<Longrightarrow> bw_rand w' = bw_rand w \<Longrightarrow> cache_inv L w' = cache_inv L w"
  by (simp add: cache_inv_def)

lemma Open_Ok:
  assumes "digest_laws L" and run: "cache_Open L d w = (Ok rd, w')"
  shows "valid_digest L d \<and> (\<exists>b. bw_files w (cache_path L blobsDir d) = Some b \<and>
    rd = \<lparr>rd_Size = int (length b), rd_Content = b, rd_Fail = None\<rparr>)"
proof -
  from run have v: "valid_digest L d" by (auto simp: cache_Open_def valid_digest_def split: option.splits)
  have e: "cache_entry L blobsDir d = Ok (cache_path L blobsDir d)"
    by (rule cache_entry_valid [OF assms(1) v]) simp
  from run v show ?thesis
    by (auto simp: cache_Open_def valid_digest_def e sys_Open_def sys_def Let_def ebind_Ok split: option.splits)
qed

lemma blobcache_contract:
  assumes "digest_laws L" "canonical_laws L" "moves untouched ctx_Err"
  shows "blob_cache L (blobcache_ops L ctx_Err) (cache_inv L) (cache_has L)"
proof
  fix w d rb w'
  assume inv: "cache_inv L w" and run: "co_Has (blobcache_ops L ctx_Err) d w = (rb, w')"
  have "untouched w w'" using movesD [OF untouched_Has, of L d w rb w'] run by (simp add: blobcache_ops_def)
  then show "cache_inv L w' \<and> cache_has L w' = cache_has L w"
    using inv cache_inv_same [of w' w L] cache_has_same [of w' w L] by simp
next
  fix w d w'
  assume "co_Has (blobcache_ops L ctx_Err) d w = (Ok True, w')"
  then show "cache_has L w' d" using Has_Ok [OF assms(1)] by (simp add: blobcache_ops_def)
next
  fix w d ro w'
  assume inv: "cache_inv L w" and run: "co_Open (blobcache_ops L ctx_Err) d w = (ro, w')"
  have "untouched w w'" using movesD [OF untouched_Open, of L d w ro w'] run by (simp add: blobcache_ops_def)
  then show "cache_inv L w' \<and> cache_has L w' = cache_has L w"
    using inv cache_inv_same [of w' w L] cache_has_same [of w' w L] by simp
next
  fix w d rd w'
  assume inv: "cache_inv L w" and "co_Open (blobcache_ops L ctx_Err) d w = (Ok rd, w')"
  with Open_Ok [OF assms(1), of d w rd w'] show "cache_has L w d \<and> valid_digest L d \<and>
      rd_Fail rd = None \<and> rd_Size rd = int (length (rd_Content rd)) \<and> digest_matches L d (rd_Content rd)"
    by (auto simp: blobcache_ops_def cache_inv_def cache_has_def)
next
  fix w desc src ru w'
  assume inv: "cache_inv L w" and "co_Fetch (blobcache_ops L ctx_Err) desc src w = (ru, w')"
  with Fetch_step [OF assms(1,3), of desc src w ru w']
  show "cache_inv L w' \<and> (\<forall>d. cache_has L w d \<longrightarrow> cache_has L w' d) \<and>
      (ru = Ok () \<longrightarrow> cache_has L w' (d_Digest desc))"
    by (simp add: blobcache_ops_def cache_step_def)
next
  fix w mt body rp w'
  assume inv: "cache_inv L w" and "co_Put (blobcache_ops L ctx_Err) mt body w = (rp, w')"
  then have "cache_Put L ctx_Err mt body w = (rp, w')" by (simp add: blobcache_ops_def)
  from Put_step [OF assms inv this]
  show "cache_inv L w' \<and> (\<forall>d. cache_has L w d \<longrightarrow> cache_has L w' d) \<and>
      (\<forall>desc. rp = Ok desc \<longrightarrow> snd body = None \<and> d_MediaType desc = mt \<and>
         d_Digest desc = digest_FromBytes L (fst body) \<and> d_Size desc = int (length (fst body)) \<and>
         cache_has L w' (d_Digest desc))"
    .
qed

text \<open>Any cache directory, under the laws of go-digest and in any context, provides the interface.\<close>

locale cache_directory =
  fixes L :: oci_lib and ctx_Err :: "(bworld, unit) io"
  assumes directory_laws: "digest_laws L" "canonical_laws L" "moves untouched ctx_Err"

sublocale cache_directory \<subseteq> disk: blob_cache L "blobcache_ops L ctx_Err" "cache_inv L" "cache_has L"
  by (rule blobcache_contract [OF directory_laws])

end
