(* ===== verification/Blobcache_Lock.thy ===== *)
theory Blobcache_Lock
  imports Main
begin

text \<open>
  How processes that share a cache directory serialise the fetches of one digest: the loop of
  \<open>openLocked\<close> over the partial file of that digest. A waiter may wake up with a lock on a file that
  the previous holder has renamed or removed; it compares the file it holds with the one at the
  name and opens again when they differ. The steps are those system calls; a call that fails, or a
  process that dies, closes the file, which is the step \<open>Close\<close> from any state.
\<close>

section \<open>The protocol\<close>

text \<open>
  The state of one process: it has the file with that inode open (\<open>Opened\<close>), has locked it
  (\<open>Locked\<close>), has returned from \<open>openLocked\<close> with it (\<open>Holding\<close>), or has renamed or removed it
  (\<open>Unlinked\<close>). \<open>Idle\<close> processes have no file open.
\<close>

datatype lock_pc = Idle | Opened nat | Locked nat | Holding nat | Unlinked nat

fun has_open :: "nat \<Rightarrow> lock_pc \<Rightarrow> bool" where
  "has_open i Idle = False"
| "has_open i (Opened j) = (i = j)"
| "has_open i (Locked j) = (i = j)"
| "has_open i (Holding j) = (i = j)"
| "has_open i (Unlinked j) = (i = j)"

text \<open>\<open>flock(LOCK_EX)\<close> belongs to the open file.\<close>

fun has_lock :: "nat \<Rightarrow> lock_pc \<Rightarrow> bool" where
  "has_lock i Idle = False"
| "has_lock i (Opened j) = False"
| "has_lock i (Locked j) = (i = j)"
| "has_lock i (Holding j) = (i = j)"
| "has_lock i (Unlinked j) = (i = j)"

text \<open>\<open>at_name\<close> is the inode at the partial file's name, if the file exists.\<close>

record lock_state =
  at_name :: "nat option"
  pc_of :: "nat \<Rightarrow> lock_pc"

inductive lock_step :: "lock_state \<Rightarrow> lock_state \<Rightarrow> bool" where
  OpenOld: "pc_of s p = Idle \<Longrightarrow> at_name s = Some i \<Longrightarrow>
     lock_step s (s\<lparr>pc_of := (pc_of s)(p := Opened i)\<rparr>)"
| OpenNew: "pc_of s p = Idle \<Longrightarrow> at_name s = None \<Longrightarrow> (\<And>q. \<not> has_open i (pc_of s q)) \<Longrightarrow>
     lock_step s (s\<lparr>at_name := Some i, pc_of := (pc_of s)(p := Opened i)\<rparr>)"
| Flock: "pc_of s p = Opened i \<Longrightarrow> (\<And>q. \<not> has_lock i (pc_of s q)) \<Longrightarrow>
     lock_step s (s\<lparr>pc_of := (pc_of s)(p := Locked i)\<rparr>)"
| SameFile: "pc_of s p = Locked i \<Longrightarrow> at_name s = Some i \<Longrightarrow>
     lock_step s (s\<lparr>pc_of := (pc_of s)(p := Holding i)\<rparr>)"
| Reopen: "pc_of s p = Locked i \<Longrightarrow> at_name s \<noteq> Some i \<Longrightarrow>
     lock_step s (s\<lparr>pc_of := (pc_of s)(p := Idle)\<rparr>)"
| Unlink: "pc_of s p = Holding i \<Longrightarrow>
     lock_step s (s\<lparr>at_name := None, pc_of := (pc_of s)(p := Unlinked i)\<rparr>)"
| Close: "pc_of s p \<noteq> Idle \<Longrightarrow>
     lock_step s (s\<lparr>pc_of := (pc_of s)(p := Idle)\<rparr>)"

inductive_cases lock_stepE [consumes 1, case_names OpenOld OpenNew Flock SameFile Reopen Unlink Close]:
  "lock_step s s'"

text \<open>No process has the file open; one may be left over from an earlier run.\<close>

definition lock_start :: "nat option \<Rightarrow> lock_state" where
  "lock_start i = \<lparr>at_name = i, pc_of = \<lambda>_. Idle\<rparr>"

section \<open>Mutual exclusion\<close>

definition lock_inv :: "lock_state \<Rightarrow> bool" where
  "lock_inv s \<longleftrightarrow>
     (\<forall>p q i. has_lock i (pc_of s p) \<longrightarrow> has_lock i (pc_of s q) \<longrightarrow> p = q) \<and>
     (\<forall>p i. pc_of s p = Holding i \<longrightarrow> at_name s = Some i)"

lemma has_lock_open: "has_lock i pc \<Longrightarrow> has_open i pc"
  by (cases pc) auto

lemma lock_inv_start: "lock_inv (lock_start i)"
  by (simp add: lock_inv_def lock_start_def)

text \<open>A process that gains no lock keeps the invariant, as long as the name stays.\<close>

lemma lock_inv_same:
  assumes "lock_inv s" "\<And>i. has_lock i pc \<Longrightarrow> has_lock i (pc_of s p)" "\<And>i. pc = Holding i \<Longrightarrow> at_name s = Some i"
  shows "lock_inv (s\<lparr>pc_of := (pc_of s)(p := pc)\<rparr>)"
  using assms unfolding lock_inv_def by auto

text \<open>One that gains the lock keeps it when nobody else has it.\<close>

lemma lock_inv_gain:
  assumes "lock_inv s" "\<And>q. \<not> has_lock i (pc_of s q)"
  shows "lock_inv (s\<lparr>pc_of := (pc_of s)(p := Locked i)\<rparr>)"
  using assms unfolding lock_inv_def by auto

text \<open>Nobody holds the file: what is at the name may change.\<close>

lemma lock_inv_name:
  assumes "lock_inv s" "\<And>q j. pc_of s q \<noteq> Holding j"
  shows "lock_inv (s\<lparr>at_name := x\<rparr>)"
  using assms by (simp add: lock_inv_def)

lemma lock_inv_step:
  assumes "lock_step s s'" "lock_inv s" shows "lock_inv s'"
  using assms(1)
proof (cases rule: lock_stepE)
  case (OpenNew p i)
  have "lock_inv (s\<lparr>at_name := Some i\<rparr>)" using assms(2) OpenNew(3) by (simp add: lock_inv_def)
  from lock_inv_same [OF this, of "Opened i" p] OpenNew(1) show ?thesis by simp
next
  case (Flock p i)
  then show ?thesis using lock_inv_gain [OF assms(2)] by simp
next
  case (SameFile p i)
  then show ?thesis using lock_inv_same [OF assms(2), of "Holding i" p] by simp
next
  case (Unlink p i)
  have one: "q = p" if "pc_of s q = Holding j" for q j
  proof -
    have "j = i" using that Unlink(2) assms(2) unfolding lock_inv_def by (metis option.inject)
    with that Unlink(2) have "has_lock i (pc_of s q)" "has_lock i (pc_of s p)" by simp_all
    with assms(2) show "q = p" unfolding lock_inv_def by blast
  qed
  have inv: "lock_inv (s\<lparr>pc_of := (pc_of s)(p := Unlinked i)\<rparr>)"
    using lock_inv_same [OF assms(2), of "Unlinked i" p] Unlink(2) by simp
  have "pc_of (s\<lparr>pc_of := (pc_of s)(p := Unlinked i)\<rparr>) q \<noteq> Holding j" for q j
    using one [of q j] by auto
  note named = lock_inv_name [OF inv this, of None]
  have "s' = s\<lparr>pc_of := (pc_of s)(p := Unlinked i)\<rparr>\<lparr>at_name := None\<rparr>"
    unfolding Unlink(1) by (rule lock_state.equality) simp_all
  with named show ?thesis by (simp only:)
next
  case (OpenOld p i)
  then show ?thesis using lock_inv_same [OF assms(2), of "Opened i" p] by simp
next
  case (Reopen p i)
  then show ?thesis using lock_inv_same [OF assms(2), of Idle p] by simp
next
  case (Close p)
  then show ?thesis using lock_inv_same [OF assms(2), of Idle p] by simp
qed

lemma lock_reachable_inv: "lock_step\<^sup>*\<^sup>* (lock_start i) s \<Longrightarrow> lock_inv s"
  by (induction rule: rtranclp_induct) (auto intro: lock_inv_start lock_inv_step)

text \<open>While a process holds the file, no step of another changes which file is at the name.\<close>

lemma lock_name_stable:
  assumes "lock_inv s" "pc_of s p = Holding i" "lock_step s s'"
  shows "at_name s' = Some i \<or> pc_of s' p = Unlinked i"
  using assms(3)
proof (cases rule: lock_stepE)
  case (Unlink q j)
  have "i = j" using assms(1,2) Unlink(2) unfolding lock_inv_def by (metis option.inject)
  with assms(2) Unlink(2) have "has_lock j (pc_of s p)" "has_lock j (pc_of s q)" by simp_all
  with assms(1) have "p = q" unfolding lock_inv_def by blast
  with Unlink \<open>i = j\<close> show ?thesis by simp
qed (use assms(1,2) in \<open>auto simp: lock_inv_def\<close>)

text \<open>
  A process that waits for the lock can take it or another one can let go of it: nobody waits for
  good while the others make progress.
\<close>

lemma lock_no_deadlock:
  assumes "pc_of s p = Opened i"
  shows "lock_step s (s\<lparr>pc_of := (pc_of s)(p := Locked i)\<rparr>) \<or>
    (\<exists>q. has_lock i (pc_of s q) \<and> lock_step s (s\<lparr>pc_of := (pc_of s)(q := Idle)\<rparr>))"
proof (cases "\<exists>q. has_lock i (pc_of s q)")
  case True
  then obtain q where q: "has_lock i (pc_of s q)" by blast
  then have "pc_of s q \<noteq> Idle" by auto
  with q lock_step.Close [of s q] show ?thesis by blast
next
  case False
  then show ?thesis using lock_step.Flock [OF assms] by blast
qed

end
