(* ===== verification/Blobcache_Properties.thy ===== *)
theory Blobcache_Properties
  imports Blobcache_Facts Blobcache_Lock Demo_Lib
begin

text \<open>
  The properties of package blobcache. The cache the witnesses use has a corrupt partial file; in
  \<open>demo_flaky\<close> every fifth system call fails.
\<close>

section \<open>A cache with a corrupt partial file\<close>

definition demo_blob :: bytes where
  "demo_blob = ''hello''"

definition demo_blob_desc :: descriptor where
  "demo_blob_desc = \<lparr>d_MediaType = MediaTypeImageLayerGzip, d_Digest = digest_FromBytes demo_lib demo_blob,
     d_Size = 5, d_Annotations = fmempty, d_Platform = None\<rparr>"

definition demo_blob_src :: reader where
  "demo_blob_src = \<lparr>rd_Size = 5, rd_Content = demo_blob, rd_Fail = None\<rparr>"

definition demo_cache :: bworld where
  "demo_cache = \<lparr>bw_files = [cache_path demo_lib partialDir (d_Digest demo_blob_desc) \<mapsto> ''x''],
     bw_faults = \<lambda>_. None, bw_short = \<lambda>_. 0, bw_rand = \<lambda>_. ''r'', bw_clock = 0, bw_reports = []\<rparr>"

definition demo_flaky :: bworld where
  "demo_flaky = demo_cache\<lparr>bw_faults := (\<lambda>k. if k mod 5 = 4 then Some (Msg ''input/output error'') else None)\<rparr>"

lemma demo_blob_valid: "valid_digest demo_lib (d_Digest demo_blob_desc)"
  by (simp add: demo_blob_desc_def valid_FromBytes [OF demo_digest_laws])

lemma demo_cache_inv: "cache_inv demo_lib demo_cache" "cache_inv demo_lib demo_flaky"
proof -
  have "cache_path demo_lib blobsDir d \<noteq> cache_path demo_lib partialDir (d_Digest demo_blob_desc)"
    if "valid_digest demo_lib d" for d
    using cache_path_inj [OF demo_digest_laws that demo_blob_valid, of blobsDir partialDir] by simp
  then show "cache_inv demo_lib demo_cache" "cache_inv demo_lib demo_flaky"
    by (auto simp: cache_inv_def demo_cache_def demo_flaky_def plain_seg_def)
qed

lemma demo_source: "sound_source demo_lib demo_blob_desc demo_blob_src"
  using canonical_matches [OF demo_canonical_laws refl, of demo_blob]
  by (simp add: sound_source_def demo_blob_desc_def demo_blob_src_def) (simp add: demo_blob_def)

lemma untouched_ret: "moves untouched (ret ())"
  by (intro keeps_intros) simp

interpretation demo_directory: cache_directory demo_lib "ret ()"
  by unfold_locales (rule demo_digest_laws demo_canonical_laws untouched_ret)+

section \<open>The properties\<close>

text \<open>
  C23: whatever system calls fail and whatever the source delivers, a \<open>Fetch\<close> and a \<open>Put\<close> leave only
  verified content at the paths of the cached blobs, and lose none of them; the descriptor \<open>Put\<close>
  returns is that of the bytes it was given, all of which were read, and its blob is in the cache.
\<close>

theorem cache_keeps_verified:
  assumes "digest_laws L" "canonical_laws L" "moves untouched ctx_Err" "cache_inv L w"
  shows "cache_inv L (snd (cache_Fetch L ctx_Err desc src w)) \<and>
    cache_inv L (snd (cache_Put L ctx_Err mt body w)) \<and>
    (\<forall>d. cache_has L w d \<longrightarrow>
       cache_has L (snd (cache_Fetch L ctx_Err desc src w)) d \<and> cache_has L (snd (cache_Put L ctx_Err mt body w)) d) \<and>
    (\<forall>x. fst (cache_Put L ctx_Err mt body w) = Ok x \<longrightarrow>
       snd body = None \<and> d_Digest x = digest_FromBytes L (fst body) \<and> d_Size x = int (length (fst body)) \<and>
       cache_has L (snd (cache_Put L ctx_Err mt body w)) (d_Digest x))"
  using Fetch_step [OF assms(1,3) prod.collapse [symmetric], of w desc src]
    Put_step [OF assms prod.collapse [symmetric], of mt body] assms(4)
  unfolding cache_step_def by blast

theorem cache_keeps_verified_witness:
  "cache_inv demo_lib (snd (cache_Fetch demo_lib (ret ()) demo_blob_desc demo_blob_src demo_flaky)) \<and>
   cache_inv demo_lib (snd (cache_Put demo_lib (ret ()) ''application/x'' (demo_blob, Some (Msg ''reset'')) demo_flaky))"
  using cache_keeps_verified [OF demo_digest_laws demo_canonical_laws untouched_ret demo_cache_inv(2)] by blast

text \<open>
  What \<open>Fetch\<close> has returned without an error is what \<open>Open\<close> then gives: when the system calls of
  \<open>Open\<close> succeed it opens the blob, and the content has the digest of the descriptor, also when the
  source was corrupt in places that were served by an earlier source.
\<close>

theorem cache_fetch_then_open:
  assumes "digest_laws L" "canonical_laws L" "moves untouched ctx_Err" "cache_inv L w"
    and "cache_Fetch L ctx_Err desc src w = (Ok (), w1)" "quiet_os w1"
  shows "\<exists>rd w2. cache_Open L (d_Digest desc) w1 = (Ok rd, w2) \<and> rd_Fail rd = None \<and>
    rd_Size rd = int (length (rd_Content rd)) \<and> digest_matches L (d_Digest desc) (rd_Content rd)"
proof -
  have inv: "cache_inv L w1" and has: "cache_has L w1 (d_Digest desc)"
    using Fetch_step [OF assms(1,3,5)] assms(4) by (simp_all add: cache_step_def)
  from has have v: "valid_digest L (d_Digest desc)" by (simp add: cache_has_def)
  from has obtain b where b: "bw_files w1 (cache_path L blobsDir (d_Digest desc)) = Some b"
    by (auto simp: cache_has_def)
  have "cache_entry L blobsDir (d_Digest desc) = Ok (cache_path L blobsDir (d_Digest desc))"
    by (rule cache_entry_valid [OF assms(1) v]) simp
  with v b inv assms(6) show ?thesis
    by (simp add: cache_Open_def valid_digest_def sys_Open_def quiet_sys ebind_def ret_def cache_inv_def)
qed

text \<open>
  C24: a fetch from a source with the right content returns without an error when no system call
  fails, whatever the partial file of an earlier run holds: a corrupt prefix is found by the digest
  check, discarded, and the second attempt starts from nothing. The progress it reports rises within each of
  the two attempts, stays between nothing and the blob's size, and ends with the size.
\<close>

theorem cache_fetch_heals:
  assumes "digest_laws L" "valid_digest L (d_Digest desc)" "\<And>w. ctx_Err w = (Ok (), w)"
    and "sound_source L desc src" "quiet_os w"
  shows "\<exists>w' xs ys. cache_Fetch L ctx_Err desc src w = (Ok (), w') \<and> bw_reports w' = bw_reports w @ xs @ ys \<and>
    sorted xs \<and> sorted ys \<and> (\<forall>n \<in> set (xs @ ys). 0 \<le> n \<and> n \<le> d_Size desc) \<and>
    xs @ ys \<noteq> [] \<and> last (xs @ ys) = d_Size desc"
proof -
  from Fetch_up [OF assms] obtain w' where run: "cache_Fetch L ctx_Err desc src w = (Ok (), w')" by blast
  have "moves silent ctx_Err" by (simp add: moves_def assms(3))
  from Fetch_reports [OF this run] run show ?thesis by auto
qed

lemma demo_fetch_ok:
  "quiet_os demo_cache" "\<And>w. ret () w = (Ok (), w :: bworld)"
  by (simp_all add: quiet_os_def demo_cache_def ret_def)

theorem cache_fetch_heals_witness:
  "\<exists>w' xs ys. cache_Fetch demo_lib (ret ()) demo_blob_desc demo_blob_src demo_cache = (Ok (), w') \<and>
     bw_reports w' = bw_reports demo_cache @ xs @ ys \<and> sorted xs \<and> sorted ys \<and>
     (\<forall>n \<in> set (xs @ ys). 0 \<le> n \<and> n \<le> d_Size demo_blob_desc) \<and> xs @ ys \<noteq> [] \<and> last (xs @ ys) = d_Size demo_blob_desc"
  by (rule cache_fetch_heals [OF demo_digest_laws demo_blob_valid demo_fetch_ok(2) demo_source demo_fetch_ok(1)])

lemma demo_fetched:
  "\<exists>w'. cache_Fetch demo_lib (ret ()) demo_blob_desc demo_blob_src demo_cache = (Ok (), w') \<and> quiet_os w'"
  by (rule Fetch_up [OF demo_digest_laws demo_blob_valid demo_fetch_ok(2) demo_source demo_fetch_ok(1)])

theorem cache_fetch_then_open_witness:
  "\<exists>w1 rd w2. cache_Fetch demo_lib (ret ()) demo_blob_desc demo_blob_src demo_cache = (Ok (), w1) \<and>
     cache_Open demo_lib (d_Digest demo_blob_desc) w1 = (Ok rd, w2)"
proof -
  from demo_fetched obtain w1 where
    run: "cache_Fetch demo_lib (ret ()) demo_blob_desc demo_blob_src demo_cache = (Ok (), w1)" "quiet_os w1" by blast
  from cache_fetch_then_open [OF demo_digest_laws demo_canonical_laws untouched_ret demo_cache_inv(1) run(1,2)] run(1)
  show ?thesis by blast
qed

text \<open>
  C25: at no time have two processes passed \<open>openLocked\<close> for one digest with the file, and the file a
  process has is the one at the partial file's name, which no step of another process changes: not
  even one that had waited for a file since renamed or removed.
\<close>

theorem cache_lock_exclusive:
  assumes "lock_step\<^sup>*\<^sup>* (lock_start left) s" "pc_of s p = Holding i"
  shows "at_name s = Some i \<and> (\<forall>q j. pc_of s q = Holding j \<longrightarrow> q = p) \<and>
    (\<forall>s'. lock_step s s' \<longrightarrow> at_name s' = Some i \<or> pc_of s' p = Unlinked i)"
proof -
  note inv = lock_reachable_inv [OF assms(1)]
  from inv assms(2) have "at_name s = Some i" unfolding lock_inv_def by blast
  moreover have "q = p" if "pc_of s q = Holding j" for q j
  proof -
    have "j = i" using that calculation inv unfolding lock_inv_def by (metis option.inject)
    with that assms(2) have "has_lock i (pc_of s q)" "has_lock i (pc_of s p)" by simp_all
    with inv show "q = p" unfolding lock_inv_def by blast
  qed
  ultimately show ?thesis using lock_name_stable [OF inv assms(2)] by blast
qed

text \<open>Process 1 waits while 0 removes the file, gets the stale lock, reopens and goes on with a new file.\<close>

definition two :: "lock_pc \<Rightarrow> lock_pc \<Rightarrow> nat \<Rightarrow> lock_pc" where
  "two a b p = (if p = 0 then a else if p = 1 then b else Idle)"

definition demo_two :: "lock_pc \<Rightarrow> lock_pc \<Rightarrow> nat option \<Rightarrow> lock_state" where
  "demo_two a b n = \<lparr>at_name = n, pc_of = two a b\<rparr>"

lemma two_upd: "(two a b)(0 := x) = two x b" "(two a b)(1 := x) = two a x" "two a b 0 = a" "two a b 1 = b"
  "two Idle Idle = (\<lambda>_. Idle)"
  by (auto simp: two_def)

lemma demo_two_intros:
  "lock_step (demo_two Idle b (Some i)) (demo_two (Opened i) b (Some i))"
  "lock_step (demo_two a Idle (Some i)) (demo_two a (Opened i) (Some i))"
  "\<not> has_lock i b \<Longrightarrow> lock_step (demo_two (Opened i) b n) (demo_two (Locked i) b n)"
  "\<not> has_lock i a \<Longrightarrow> lock_step (demo_two a (Opened i) n) (demo_two a (Locked i) n)"
  "lock_step (demo_two (Locked i) b (Some i)) (demo_two (Holding i) b (Some i))"
  "lock_step (demo_two a (Locked i) (Some i)) (demo_two a (Holding i) (Some i))"
  "lock_step (demo_two (Holding i) b n) (demo_two (Unlinked i) b None)"
  "lock_step (demo_two (Unlinked i) b n) (demo_two Idle b n)"
  "n \<noteq> Some i \<Longrightarrow> lock_step (demo_two a (Locked i) n) (demo_two a Idle n)"
  "\<not> has_open i a \<Longrightarrow> lock_step (demo_two a Idle None) (demo_two a (Opened i) (Some i))"
  using lock_step.intros(1) [of "demo_two Idle b (Some i)" 0 i] lock_step.intros(1) [of "demo_two a Idle (Some i)" 1 i]
    lock_step.intros(3) [of "demo_two (Opened i) b n" 0 i] lock_step.intros(3) [of "demo_two a (Opened i) n" 1 i]
    lock_step.intros(4) [of "demo_two (Locked i) b (Some i)" 0 i]
    lock_step.intros(4) [of "demo_two a (Locked i) (Some i)" 1 i]
    lock_step.intros(6) [of "demo_two (Holding i) b n" 0 i] lock_step.intros(7) [of "demo_two (Unlinked i) b n" 0]
    lock_step.intros(5) [of "demo_two a (Locked i) n" 1 i] lock_step.intros(2) [of "demo_two a Idle None" 1 i]
  by (simp_all only: demo_two_def lock_state.simps two_upd) (simp_all add: two_def)

lemma demo_lock_run: "lock_step\<^sup>*\<^sup>* (lock_start (Some 7)) (demo_two Idle (Holding 8) (Some 8))"
proof -
  note go = rtranclp.rtrancl_into_rtrancl [of lock_step]
  have start: "lock_start (Some 7) = demo_two Idle Idle (Some 7)"
    by (simp add: lock_start_def demo_two_def two_upd)
  note run = rtranclp.rtrancl_refl [of lock_step "demo_two Idle Idle (Some 7)"]
  note run = go [OF go [OF run demo_two_intros(1)] demo_two_intros(2)]
  note run = go [OF go [OF run demo_two_intros(3) [of 7 "Opened 7", simplified]] demo_two_intros(5)]
  note run = go [OF go [OF run demo_two_intros(7)] demo_two_intros(8)]
  note run = go [OF go [OF run demo_two_intros(4) [of 7 Idle, simplified]] demo_two_intros(9) [of None 7, simplified]]
  note run = go [OF go [OF run demo_two_intros(10) [of 8 Idle, simplified]] demo_two_intros(4) [of 8 Idle, simplified]]
  from go [OF run demo_two_intros(6)] show ?thesis by (simp only: start)
qed

theorem cache_lock_exclusive_witness:
  "\<exists>s. lock_step\<^sup>*\<^sup>* (lock_start (Some 7)) s \<and> pc_of s 1 = Holding 8 \<and> at_name s = Some 8"
proof -
  have pc: "pc_of (demo_two Idle (Holding 8) (Some 8)) 1 = Holding 8" by (simp add: demo_two_def two_def)
  from cache_lock_exclusive [OF demo_lock_run pc] pc demo_lock_run show ?thesis by blast
qed

section \<open>Progress of a fetch that starts over\<close>

text \<open>
  The progress of a corrupt partial file is reported up to the whole size before the digest is checked, and
  again by the second attempt: here the file holds one wrong byte of the five. What is shown as finished is
  finished twice, and a first time when the content is wrong.
\<close>

definition picky_lib :: oci_lib where
  "picky_lib = demo_lib\<lparr>digest_Digester := (\<lambda>a b. if b = demo_blob then a @ '':'' @ demo_hash b else a @ '':other'')\<rparr>"

lemma picky_facts:
  "digest_Validate picky_lib ''sha256:h5'' = None" "digest_Algorithm picky_lib ''sha256:h5'' = Some ''sha256''"
  "cache_entry picky_lib partialDir ''sha256:h5'' = Ok ''partial/sha256/h5''"
  "cache_entry picky_lib blobsDir ''sha256:h5'' = Ok ''blobs/sha256/h5''"
  "digest_Digester picky_lib ''sha256'' ''xello'' = ''sha256:other''" "digest_Digester picky_lib ''sha256'' ''hello'' = ''sha256:h5''"
  "d_Digest demo_blob_desc = ''sha256:h5''" "cache_path demo_lib partialDir ''sha256:h5'' = ''partial/sha256/h5''"
  by code_simp+

lemma picky_loop:
  "fetch_loop (ret ()) n 5 demo_blob_src ''x'' = ebind (sys_Write n ''ello'') (\<lambda>_. ebind (cache_progress 5) (\<lambda>_. ret ''xello''))"
  "fetch_loop (ret ()) n 5 demo_blob_src [] = ebind (sys_Write n ''hello'') (\<lambda>_. ebind (cache_progress 5) (\<lambda>_. ret ''hello''))"
  by (rule ext, subst fetch_loop.simps, simp add: demo_blob_src_def demo_blob_def reader_ReadAt_def reader_end_def bufSize_def ebind_assoc,
      subst fetch_loop.simps, simp)+

lemma restart_reports:
  "bw_reports (snd (cache_Fetch picky_lib (ret ()) demo_blob_desc demo_blob_src demo_cache)) = [1, 5, 0, 5]"
proof -
  have sz: "d_Size demo_blob_desc = 5" by (simp add: demo_blob_desc_def)
  show ?thesis
    by (simp add: cache_Fetch_def cache_Has_def cache_fetch_def cache_openLocked_def cache_fetch_body_def cache_discard_def cache_commit_def
        picky_facts sz picky_loop demo_cache_def sys_Stat_def sys_Open_def sys_MkdirAll_def sys_Sync_def sys_OpenCreate_def
        sys_Write_def sys_Remove_def sys_Rename_def append_file_def sys_def Let_def ebind_def attempt_def ret_def throw_def progress_run raise_opt_def)
qed

end
