(* ===== verification/Ocidir_Helper.thy ===== *)
theory Ocidir_Helper
  imports Store_Backend
begin

text \<open>
  Package ocidir, helper.go: the images of an oci-dir, and the blobs its images depend on in the order
  a copy needs them. The closures that collect into captured slices and maps are functions that
  return the collection; a walk that fails returns none. The walks recurse into nested indexes, up to
  the depth of the call stack, beyond which the program dies (\<open>Panic\<close>).
\<close>

definition helper_isIndex :: "string \<Rightarrow> bool" where
  "helper_isIndex mt \<longleftrightarrow> mt = MediaTypeImageIndex \<or> mt = MediaTypeDockerManifestList"

definition helper_isManifest :: "string \<Rightarrow> bool" where
  "helper_isManifest mt \<longleftrightarrow> mt = MediaTypeImageManifest \<or> mt = MediaTypeDockerManifest"

definition helper_readJSON :: "'w oci_dir \<Rightarrow> (bytes \<Rightarrow> gerr + 'v) \<Rightarrow> string \<Rightarrow> ('w, 'v) io" where
  "helper_readJSON dir dec dgst =
     ebind (od_Blobs dir dgst) (\<lambda>r.
       case read_all r of
         Ok b \<Rightarrow> (case dec b of Inl e \<Rightarrow> throw (Wrap1 ''ocidir: decoding blob'' e) | Inr v \<Rightarrow> ret v)
       | Err e \<Rightarrow> throw (Wrap1 ''ocidir: reading blob'' e)
       | Panic \<Rightarrow> pure_res Panic)"

text \<open>The closure \<open>add\<close> of \<open>blobsFrom\<close>: \<open>seen\<close> is the set of the digests in \<open>ordered\<close>.\<close>

definition add_once :: "string \<Rightarrow> string list \<Rightarrow> string list" where
  "add_once d ordered = (if d \<in> set ordered then ordered else ordered @ [d])"

section \<open>The walks\<close>

text \<open>
  \<open>helper_walkBlobs L dir k ds ordered\<close> is the loop that calls \<open>walkBlobs\<close> on every one of \<open>ds\<close>, with \<open>k\<close>
  frames of the call stack left for nested indexes.
\<close>

function helper_walkBlobs ::
  "oci_lib \<Rightarrow> 'w oci_dir \<Rightarrow> nat \<Rightarrow> descriptor list \<Rightarrow> string list \<Rightarrow> ('w, string list) io" where
  "helper_walkBlobs L dir k [] ordered = ret ordered"
| "helper_walkBlobs L dir k (d # ds) ordered =
     ebind
       (if helper_isIndex (d_MediaType d) then
          (case k of
             0 \<Rightarrow> pure_res Panic
           | Suc k' \<Rightarrow>
               ebind (helper_readJSON dir (json_Index L) (d_Digest d)) (\<lambda>idx.
                 helper_walkBlobs L dir k' (i_Manifests idx) ordered))
        else if helper_isManifest (d_MediaType d) then
          ebind (helper_readJSON dir (json_Manifest L) (d_Digest d)) (\<lambda>m.
            ret (add_once (d_Digest (m_Config m)) (fold (\<lambda>l. add_once (d_Digest l)) (m_Layers m) ordered)))
        else ret ordered)
       (\<lambda>ordered'. helper_walkBlobs L dir k ds (add_once (d_Digest d) ordered'))"
  by pat_completeness auto

termination
  by (relation "measures [\<lambda>(L, dir, k, ds, o'). k, \<lambda>(L, dir, k, ds, o'). length ds]") auto

text \<open>\<open>walkManifests\<close> over a list of descriptors; \<open>fn\<close> takes what it captured and returns it updated.\<close>

function helper_walkManifests ::
  "oci_lib \<Rightarrow> 'w oci_dir \<Rightarrow> (manifest \<Rightarrow> 's \<Rightarrow> ('w, 's) io) \<Rightarrow> nat \<Rightarrow> descriptor list \<Rightarrow> 's \<Rightarrow> ('w, 's) io"
where
  "helper_walkManifests L dir fn k [] st = ret st"
| "helper_walkManifests L dir fn k (d # ds) st =
     ebind
       (if helper_isIndex (d_MediaType d) then
          (case k of
             0 \<Rightarrow> pure_res Panic
           | Suc k' \<Rightarrow>
               ebind (helper_readJSON dir (json_Index L) (d_Digest d)) (\<lambda>idx.
                 helper_walkManifests L dir fn k' (i_Manifests idx) st))
        else if helper_isManifest (d_MediaType d) then
          ebind (helper_readJSON dir (json_Manifest L) (d_Digest d)) (\<lambda>m. fn m st)
        else ret st)
       (\<lambda>st'. helper_walkManifests L dir fn k ds st')"
  by pat_completeness auto

termination
  by (relation "measures [\<lambda>(L, dir, fn, k, ds, st). k, \<lambda>(L, dir, fn, k, ds, st). length ds]") auto

text \<open>\<open>collectDescriptors\<close> skips what is known, so it ends on every directory; \<open>k\<close> bounds the stack only.\<close>

function helper_collect ::
  "oci_lib \<Rightarrow> 'w oci_dir \<Rightarrow> nat \<Rightarrow> descriptor list \<Rightarrow> (string \<rightharpoonup> descriptor) \<Rightarrow>
   ('w, string \<rightharpoonup> descriptor) io" where
  "helper_collect L dir k [] known = ret known"
| "helper_collect L dir k (d # ds) known =
     ebind
       (if known (d_Digest d) \<noteq> None then ret known
        else if \<not> helper_isIndex (d_MediaType d) then ret (known(d_Digest d \<mapsto> d))
        else
          (case k of
             0 \<Rightarrow> pure_res Panic
           | Suc k' \<Rightarrow>
               ebind (helper_readJSON dir (json_Index L) (d_Digest d)) (\<lambda>idx.
                 helper_collect L dir k' (i_Manifests idx) (known(d_Digest d \<mapsto> d)))))
       (\<lambda>known'. helper_collect L dir k ds known')"
  by pat_completeness auto

termination
  by (relation "measures [\<lambda>(L, dir, k, ds, kn). k, \<lambda>(L, dir, k, ds, kn). length ds]") auto

section \<open>The operations\<close>

text \<open>The iterators come last: \<open>helper_yield\<close> is what a caller that consumes all of one receives.\<close>

definition helper_blobsFrom ::
  "oci_lib \<Rightarrow> nat \<Rightarrow> 'w oci_dir \<Rightarrow> descriptor list \<Rightarrow> ('w, string list) io" where
  "helper_blobsFrom L depth dir roots = helper_walkBlobs L dir depth roots []"

fun helper_yield :: "'w oci_dir \<Rightarrow> string list \<Rightarrow> ('w, (string \<times> (gerr + reader)) list) io" where
  "helper_yield dir [] = ret []"
| "helper_yield dir (d # ds) =
     ebind (attempt (od_Blobs dir d)) (\<lambda>r. ebind (helper_yield dir ds) (\<lambda>rs. ret ((d, r) # rs)))"

fun helper_namedRoots :: "descriptor list \<Rightarrow> string list \<Rightarrow> ('w, descriptor list) io" where
  "helper_namedRoots ms [] = ret []"
| "helper_namedRoots ms (n # ns) =
     (case List.find (\<lambda>d. annotation d AnnotationRefName = n) ms of
        None \<Rightarrow> throw (Wrap1 ''ocidir: ref name'' (Sentinel ErrNotExist))
      | Some d \<Rightarrow> ebind (helper_namedRoots ms ns) (\<lambda>ds. ret (d # ds)))"

fun helper_knownRoots :: "(string \<rightharpoonup> descriptor) \<Rightarrow> string list \<Rightarrow> ('w, descriptor list) io" where
  "helper_knownRoots known [] = ret []"
| "helper_knownRoots known (g # gs) =
     (case known g of
        None \<Rightarrow> throw (Wrap1 ''ocidir: digest'' (Sentinel ErrNotExist))
      | Some d \<Rightarrow> ebind (helper_knownRoots known gs) (\<lambda>ds. ret (d # ds)))"

definition helper_AllBlobsFromNames ::
  "oci_lib \<Rightarrow> nat \<Rightarrow> 'w oci_dir \<Rightarrow> string list \<Rightarrow> ('w, string list) io" where
  "helper_AllBlobsFromNames L depth dir refNames =
     ebind (od_Index dir) (\<lambda>idx.
     ebind (if refNames = [] then ret (i_Manifests idx) else helper_namedRoots (i_Manifests idx) refNames)
       (helper_blobsFrom L depth dir))"

definition helper_AllBlobsFromDigests ::
  "oci_lib \<Rightarrow> nat \<Rightarrow> 'w oci_dir \<Rightarrow> string list \<Rightarrow> ('w, string list) io" where
  "helper_AllBlobsFromDigests L depth dir digests =
     ebind (od_Index dir) (\<lambda>idx.
     ebind (if digests = [] then ret (i_Manifests idx)
            else
              ebind (helper_collect L dir depth (i_Manifests idx) Map.empty) (\<lambda>known.
                helper_knownRoots known digests))
       (helper_blobsFrom L depth dir))"

text \<open>The closure of \<open>AllImages\<close>, and its loop over the index.\<close>

definition helper_addImage ::
  "oci_lib \<Rightarrow> 'w oci_dir \<Rightarrow> string \<Rightarrow> manifest \<Rightarrow> (string \<times> image_config) list \<Rightarrow>
   ('w, (string \<times> image_config) list) io" where
  "helper_addImage L dir name m images =
     ebind (helper_readJSON dir (json_Image L) (d_Digest (m_Config m))) (\<lambda>img. ret (images @ [(name, img)]))"

fun helper_imagesOf ::
  "oci_lib \<Rightarrow> nat \<Rightarrow> 'w oci_dir \<Rightarrow> descriptor list \<Rightarrow> (string \<times> image_config) list \<Rightarrow>
   ('w, (string \<times> image_config) list) io" where
  "helper_imagesOf L depth dir [] images = ret images"
| "helper_imagesOf L depth dir (d # ds) images =
     (case fmlookup (d_Annotations d) AnnotationRefName of
        None \<Rightarrow> helper_imagesOf L depth dir ds images
      | Some name \<Rightarrow>
          ebind (map_err (Wrap1 ''ocidir: image'')
              (helper_walkManifests L dir (helper_addImage L dir name) depth [d] images))
            (\<lambda>images'. helper_imagesOf L depth dir ds images'))"

definition helper_AllImages ::
  "oci_lib \<Rightarrow> nat \<Rightarrow> 'w oci_dir \<Rightarrow> ('w, (string \<times> image_config) list) io" where
  "helper_AllImages L depth dir =
     ebind (od_Index dir) (\<lambda>idx. helper_imagesOf L depth dir (i_Manifests idx) [])"

section \<open>The order of the blobs\<close>

text \<open>The directory serves the blobs \<open>c\<close>, whenever it serves one.\<close>

definition dir_serves :: "'w oci_dir \<Rightarrow> (string \<rightharpoonup> bytes) \<Rightarrow> bool" where
  "dir_serves dir c \<longleftrightarrow>
     (\<forall>d w r w' b. od_Blobs dir d w = (Ok r, w') \<longrightarrow> read_all r = Ok b \<longrightarrow> c d = Some b)"

definition decoded :: "(string \<rightharpoonup> bytes) \<Rightarrow> (bytes \<Rightarrow> gerr + 'v) \<Rightarrow> string \<Rightarrow> 'v option" where
  "decoded c dec d =
     (case c d of None \<Rightarrow> None | Some b \<Rightarrow> (case dec b of Inl _ \<Rightarrow> None | Inr v \<Rightarrow> Some v))"

lemma readJSON_decoded:
  assumes "dir_serves dir c" "helper_readJSON dir dec d w = (Ok v, w')"
  shows "decoded c dec d = Some v"
proof -
  from assms(2) obtain r w1 where r: "od_Blobs dir d w = (Ok r, w1)"
    and rest: "(case read_all r of
         Ok b \<Rightarrow> (case dec b of Inl e \<Rightarrow> throw (Wrap1 ''ocidir: decoding blob'' e) | Inr v \<Rightarrow> ret v)
       | Err e \<Rightarrow> throw (Wrap1 ''ocidir: reading blob'' e)
       | Panic \<Rightarrow> pure_res Panic) w1 = (Ok v, w')"
    by (auto simp: helper_readJSON_def ebind_Ok)
  from rest obtain b where b: "read_all r = Ok b" and v: "dec b = Inr v"
    by (auto split: res.splits sum.splits)
  from assms(1) r b have "c d = Some b" unfolding dir_serves_def by blast
  with v show ?thesis by (simp add: decoded_def)
qed

text \<open>The digests a blob depends on directly, and the descriptors reachable from some roots.\<close>

definition deps :: "oci_lib \<Rightarrow> (string \<rightharpoonup> bytes) \<Rightarrow> descriptor \<Rightarrow> string set" where
  "deps L c d =
     (if helper_isIndex (d_MediaType d) then
        (case decoded c (json_Index L) (d_Digest d) of
           None \<Rightarrow> {} | Some ix \<Rightarrow> d_Digest ` set (i_Manifests ix))
      else if helper_isManifest (d_MediaType d) then
        (case decoded c (json_Manifest L) (d_Digest d) of
           None \<Rightarrow> {} | Some m \<Rightarrow> insert (d_Digest (m_Config m)) (d_Digest ` set (m_Layers m)))
      else {})"

inductive reached :: "oci_lib \<Rightarrow> (string \<rightharpoonup> bytes) \<Rightarrow> descriptor list \<Rightarrow> descriptor \<Rightarrow> bool"
  for L c roots where
  root: "d \<in> set roots \<Longrightarrow> reached L c roots d"
| nested: "reached L c roots d \<Longrightarrow> helper_isIndex (d_MediaType d) \<Longrightarrow>
    decoded c (json_Index L) (d_Digest d) = Some ix \<Longrightarrow> x \<in> set (i_Manifests ix) \<Longrightarrow>
    reached L c roots x"

lemma reached_mono: "reached L c xs d \<Longrightarrow> set xs \<subseteq> set ys \<Longrightarrow> reached L c ys d"
  by (induction rule: reached.induct) (auto intro: reached.intros)

lemma reached_roots: "reached L c roots d \<Longrightarrow> roots \<noteq> []"
  by (induction rule: reached.induct) auto

lemma reached_none [simp]: "\<not> reached L c [] d"
  using reached_roots by blast

lemma reached_children:
  "reached L c (i_Manifests ix) y \<Longrightarrow> helper_isIndex (d_MediaType d) \<Longrightarrow>
   decoded c (json_Index L) (d_Digest d) = Some ix \<Longrightarrow> d \<in> set roots \<Longrightarrow> reached L c roots y"
  by (induction rule: reached.induct) (auto intro: reached.intros)

lemma reached_Cons:
  "reached L c (d # ds) y \<Longrightarrow> y = d \<or> reached L c ds y \<or>
     (helper_isIndex (d_MediaType d) \<and>
      (\<exists>ix. decoded c (json_Index L) (d_Digest d) = Some ix \<and> reached L c (i_Manifests ix) y))"
  by (induction rule: reached.induct) (auto intro: reached.intros)

text \<open>
  A list is well ordered when each digest in it is there once, as the layer or the config of a
  manifest or after everything that some descriptor with that digest depends on.
\<close>

definition leaf_of :: "oci_lib \<Rightarrow> (string \<rightharpoonup> bytes) \<Rightarrow> descriptor \<Rightarrow> string \<Rightarrow> bool" where
  "leaf_of L c d x \<longleftrightarrow> \<not> helper_isIndex (d_MediaType d) \<and> helper_isManifest (d_MediaType d) \<and> x \<in> deps L c d"

definition justified :: "oci_lib \<Rightarrow> (string \<rightharpoonup> bytes) \<Rightarrow> descriptor list \<Rightarrow> string list \<Rightarrow> string \<Rightarrow> bool" where
  "justified L c roots before x \<longleftrightarrow>
     (\<exists>d. reached L c roots d \<and> (leaf_of L c d x \<or> (d_Digest d = x \<and> deps L c d \<subseteq> set before)))"

definition well_ordered :: "oci_lib \<Rightarrow> (string \<rightharpoonup> bytes) \<Rightarrow> descriptor list \<Rightarrow> string list \<Rightarrow> bool" where
  "well_ordered L c roots xs \<longleftrightarrow>
     distinct xs \<and> (\<forall>i < length xs. justified L c roots (take i xs) (xs ! i))"

lemma justified_mono:
  "justified L c roots before x \<Longrightarrow> set before \<subseteq> set before' \<Longrightarrow>
   (\<And>d. reached L c roots d \<Longrightarrow> reached L c roots' d) \<Longrightarrow> justified L c roots' before' x"
  unfolding justified_def by (elim exE conjE disjE) (blast intro: order_trans)+

lemma well_ordered_mono:
  "well_ordered L c roots xs \<Longrightarrow> (\<And>d. reached L c roots d \<Longrightarrow> reached L c roots' d) \<Longrightarrow> well_ordered L c roots' xs"
  unfolding well_ordered_def by (meson justified_mono order_refl)

lemma well_ordered_add:
  assumes "well_ordered L c roots xs" "justified L c roots xs x"
  shows "well_ordered L c roots (add_once x xs)"
  using assms unfolding well_ordered_def add_once_def
  by (auto simp: nth_append less_Suc_eq)

lemma add_once_set [simp]: "set (add_once x xs) = insert x (set xs)"
  by (auto simp: add_once_def)

lemma fold_add_set [simp]: "set (fold (\<lambda>l. add_once (d_Digest l)) ls xs) = d_Digest ` set ls \<union> set xs"
  by (induction ls arbitrary: xs) auto

lemma well_ordered_fold:
  assumes "well_ordered L c roots xs" "\<And>l. l \<in> set ls \<Longrightarrow> \<exists>d. reached L c roots d \<and> leaf_of L c d (d_Digest l)"
  shows "well_ordered L c roots (fold (\<lambda>l. add_once (d_Digest l)) ls xs)"
  using assms
proof (induction ls arbitrary: xs)
  case (Cons l ls)
  have "justified L c roots xs (d_Digest l)" using Cons.prems(2) by (auto simp: justified_def)
  from well_ordered_add [OF Cons.prems(1) this] Cons show ?case by simp
qed simp

text \<open>The invariant of the walk.\<close>

definition covers :: "oci_lib \<Rightarrow> (string \<rightharpoonup> bytes) \<Rightarrow> descriptor list \<Rightarrow> string list \<Rightarrow> bool" where
  "covers L c ds xs \<longleftrightarrow> (\<forall>d. reached L c ds d \<longrightarrow> d_Digest d \<in> set xs \<and> deps L c d \<subseteq> set xs)"

lemma covers_mono: "covers L c ds xs \<Longrightarrow> set xs \<subseteq> set ys \<Longrightarrow> covers L c ds ys"
  unfolding covers_def by blast

lemma covers_Nil [simp]: "covers L c [] xs"
  by (simp add: covers_def)

text \<open>What one round of the loop adds, before the digest of the descriptor itself.\<close>

definition round_ok :: "oci_lib \<Rightarrow> (string \<rightharpoonup> bytes) \<Rightarrow> descriptor list \<Rightarrow> descriptor \<Rightarrow> string list \<Rightarrow> bool" where
  "round_ok L c roots d xs \<longleftrightarrow> well_ordered L c roots xs \<and> deps L c d \<subseteq> set xs \<and>
     (\<forall>ix. helper_isIndex (d_MediaType d) \<longrightarrow> decoded c (json_Index L) (d_Digest d) = Some ix \<longrightarrow>
        covers L c (i_Manifests ix) xs)"

lemma covers_Cons:
  assumes "round_ok L c roots d xs" "set xs \<subseteq> set ys" "d_Digest d \<in> set ys" "covers L c ds ys"
  shows "covers L c (d # ds) ys"
  unfolding covers_def
proof (intro allI impI)
  fix y assume "reached L c (d # ds) y"
  with reached_Cons consider "y = d" | "reached L c ds y"
    | ix where "helper_isIndex (d_MediaType d)" "decoded c (json_Index L) (d_Digest d) = Some ix"
        "reached L c (i_Manifests ix) y" by blast
  then show "d_Digest y \<in> set ys \<and> deps L c y \<subseteq> set ys"
  proof cases
    case 1
    with assms show ?thesis by (auto simp: round_ok_def)
  next
    case 2
    with assms(4) show ?thesis by (simp add: covers_def)
  next
    case 3
    with assms(1) have "covers L c (i_Manifests ix) xs" by (simp add: round_ok_def)
    with 3(3) assms(2) show ?thesis unfolding covers_def by blast
  qed
qed

text \<open>A manifest's round.\<close>

lemma round_manifest:
  assumes "well_ordered L c roots xs" "reached L c roots d"
    and "\<not> helper_isIndex (d_MediaType d)" "helper_isManifest (d_MediaType d)"
    and "decoded c (json_Manifest L) (d_Digest d) = Some m"
  shows "round_ok L c roots d
    (add_once (d_Digest (m_Config m)) (fold (\<lambda>l. add_once (d_Digest l)) (m_Layers m) xs))"
proof -
  have deps: "deps L c d = insert (d_Digest (m_Config m)) (d_Digest ` set (m_Layers m))"
    using assms(3-5) by (simp add: deps_def)
  have leaf: "leaf_of L c d x" if "x \<in> deps L c d" for x
    using that assms(3,4) by (simp add: leaf_of_def)
  have "well_ordered L c roots (fold (\<lambda>l. add_once (d_Digest l)) (m_Layers m) xs)"
    using assms(2) leaf deps by (intro well_ordered_fold [OF assms(1)]) blast
  moreover have "justified L c roots ys (d_Digest (m_Config m))" for ys
    using assms(2) leaf deps by (auto simp: justified_def)
  ultimately show ?thesis
    using well_ordered_add assms(3) by (auto simp: round_ok_def deps)
qed

lemma round_done:
  assumes "round_ok L c roots d xs" "reached L c roots d"
  shows "well_ordered L c roots (add_once (d_Digest d) xs)"
  using assms by (intro well_ordered_add) (auto simp: round_ok_def justified_def)

lemma walkBlobs_Ok:
  assumes "dir_serves dir c" "helper_walkBlobs L dir k ds xs w = (Ok out, w')"
    and "well_ordered L c roots xs" "\<And>d. d \<in> set ds \<Longrightarrow> reached L c roots d"
  shows "well_ordered L c roots out \<and> set xs \<subseteq> set out \<and> covers L c ds out"
  using assms
proof (induction L dir k ds xs arbitrary: w out w' rule: helper_walkBlobs.induct)
  case (1 L dir k xs)
  then show ?case by simp
next
  case (2 L dir k d ds xs)
  note reach = "2.prems"(4)
  let ?round = "if helper_isIndex (d_MediaType d) then
          (case k of
             0 \<Rightarrow> pure_res Panic
           | Suc k' \<Rightarrow>
               ebind (helper_readJSON dir (json_Index L) (d_Digest d)) (\<lambda>idx.
                 helper_walkBlobs L dir k' (i_Manifests idx) xs))
        else if helper_isManifest (d_MediaType d) then
          ebind (helper_readJSON dir (json_Manifest L) (d_Digest d)) (\<lambda>m.
            ret (add_once (d_Digest (m_Config m)) (fold (\<lambda>l. add_once (d_Digest l)) (m_Layers m) xs)))
        else ret xs"
  from "2.prems"(2) obtain xs1 w1 where round: "?round w = (Ok xs1, w1)"
    and rest: "helper_walkBlobs L dir k ds (add_once (d_Digest d) xs1) w1 = (Ok out, w')"
    by (auto simp only: helper_walkBlobs.simps ebind_Ok)
  have d: "reached L c roots d" using reach by simp
  have r: "round_ok L c roots d xs1 \<and> set xs \<subseteq> set xs1"
  proof (cases "helper_isIndex (d_MediaType d)")
    case True
    with round obtain k' ix w2 where k: "k = Suc k'"
      and ix: "helper_readJSON dir (json_Index L) (d_Digest d) w = (Ok ix, w2)"
      and walk: "helper_walkBlobs L dir k' (i_Manifests ix) xs w2 = (Ok xs1, w1)"
      by (cases k) (auto simp: ebind_Ok)
    note dec = readJSON_decoded [OF "2.prems"(1) ix]
    have "\<And>x. x \<in> set (i_Manifests ix) \<Longrightarrow> reached L c roots x"
      using reached.nested [OF d True dec] .
    from "2.IH"(1) [OF True k "2.prems"(1) walk "2.prems"(3) this] dec True show ?thesis
      by (auto simp: round_ok_def covers_def deps_def intro: reached.root)
  next
    case index: False
    show ?thesis
    proof (cases "helper_isManifest (d_MediaType d)")
      case True
      with round index obtain m where m: "helper_readJSON dir (json_Manifest L) (d_Digest d) w = (Ok m, w1)"
        and xs1: "xs1 = add_once (d_Digest (m_Config m)) (fold (\<lambda>l. add_once (d_Digest l)) (m_Layers m) xs)"
        by (auto simp: ebind_Ok)
      from round_manifest [OF "2.prems"(3) d index True readJSON_decoded [OF "2.prems"(1) m]] xs1
      show ?thesis by auto
    next
      case False
      with round index have "xs1 = xs" by simp
      with index False "2.prems"(3) show ?thesis by (simp add: round_ok_def deps_def)
    qed
  qed
  have tail: "\<And>x. x \<in> set ds \<Longrightarrow> reached L c roots x" using reach by simp
  from "2.IH"(2) [OF "2.prems"(1) rest round_done [OF conjunct1 [OF r] d] tail]
  have "well_ordered L c roots out" "insert (d_Digest d) (set xs1) \<subseteq> set out" "covers L c ds out" by auto
  with r covers_Cons [of L c roots d xs1 out ds] show ?case by auto
qed

section \<open>The depth of the walk\<close>

text \<open>Indexes are nested at most \<open>k\<close> deep below the descriptors, in what the directory serves.\<close>

fun shallow :: "oci_lib \<Rightarrow> (string \<rightharpoonup> bytes) \<Rightarrow> nat \<Rightarrow> descriptor list \<Rightarrow> bool" where
  "shallow L c 0 ds = (\<forall>d \<in> set ds. \<not> helper_isIndex (d_MediaType d))"
| "shallow L c (Suc k) ds =
     (\<forall>d \<in> set ds. helper_isIndex (d_MediaType d) \<longrightarrow>
        (\<forall>ix. decoded c (json_Index L) (d_Digest d) = Some ix \<longrightarrow> shallow L c k (i_Manifests ix)))"

lemma shallow_tail: "shallow L c k (d # ds) \<Longrightarrow> shallow L c k ds"
  by (cases k) auto

lemma readJSON_no_panic:
  assumes "\<And>d w. fst (od_Blobs dir d w) \<noteq> Panic"
  shows "helper_readJSON dir dec d w \<noteq> (Panic, w')"
proof
  assume "helper_readJSON dir dec d w = (Panic, w')"
  moreover have "od_Blobs dir d w \<noteq> (Panic, w')" using assms by (metis fst_conv)
  ultimately obtain r w1 where
    rest: "(case read_all r of
         Ok b \<Rightarrow> (case dec b of Inl e \<Rightarrow> throw (Wrap1 ''ocidir: decoding blob'' e) | Inr v \<Rightarrow> ret v)
       | Err e \<Rightarrow> throw (Wrap1 ''ocidir: reading blob'' e)
       | Panic \<Rightarrow> pure_res Panic) w1 = (Panic, w')"
    by (auto simp: helper_readJSON_def ebind_Panic)
  have "read_all r \<noteq> Panic" by (simp add: read_all_def split: option.split prod.split)
  with rest show False by (auto split: res.splits sum.splits)
qed

lemma walkBlobs_no_panic:
  assumes "dir_serves dir c" "\<And>d w. fst (od_Blobs dir d w) \<noteq> Panic" "shallow L c k ds"
  shows "helper_walkBlobs L dir k ds xs w \<noteq> (Panic, w')"
  using assms
proof (induction L dir k ds xs arbitrary: w w' rule: helper_walkBlobs.induct)
  case (1 L dir k xs)
  then show ?case by simp
next
  case (2 L dir k d ds xs)
  note np = readJSON_no_panic [OF "2.prems"(2)]
  let ?round = "if helper_isIndex (d_MediaType d) then
          (case k of
             0 \<Rightarrow> pure_res Panic
           | Suc k' \<Rightarrow>
               ebind (helper_readJSON dir (json_Index L) (d_Digest d)) (\<lambda>idx.
                 helper_walkBlobs L dir k' (i_Manifests idx) xs))
        else if helper_isManifest (d_MediaType d) then
          ebind (helper_readJSON dir (json_Manifest L) (d_Digest d)) (\<lambda>m.
            ret (add_once (d_Digest (m_Config m)) (fold (\<lambda>l. add_once (d_Digest l)) (m_Layers m) xs)))
        else ret xs"
  have "?round w \<noteq> (Panic, v)" for v
  proof (cases "helper_isIndex (d_MediaType d)")
    case True
    with "2.prems"(3) obtain k' where k: "k = Suc k'" by (cases k) auto
    have "helper_walkBlobs L dir k' (i_Manifests ix) xs w1 \<noteq> (Panic, v)"
      if "helper_readJSON dir (json_Index L) (d_Digest d) w = (Ok ix, w1)" for ix w1
    proof -
      have "shallow L c k' (i_Manifests ix)"
        using readJSON_decoded [OF "2.prems"(1) that] "2.prems"(3) True k by simp
      from "2.IH"(1) [OF True k "2.prems"(1,2) this] show ?thesis by blast
    qed
    with True k np show ?thesis by (auto simp: ebind_Panic)
  next
    case False
    with np show ?thesis by (auto simp: ebind_Panic)
  qed
  moreover have "helper_walkBlobs L dir k ds (add_once (d_Digest d) xs1) w1 \<noteq> (Panic, w')" for xs1 w1
    by (rule "2.IH"(2) [OF "2.prems"(1,2) shallow_tail [OF "2.prems"(3)]])
  ultimately show ?case by (auto simp only: helper_walkBlobs.simps ebind_Panic)
qed

section \<open>A cyclic directory\<close>

text \<open>
  \<open>readJSON\<close> does not compare what it reads with the digest it was asked for, so a directory can serve
  an index that lists itself. \<open>walkBlobs\<close> does not return on it, whatever the depth of the stack;
  \<open>collectDescriptors\<close> does.
\<close>

lemma walkBlobs_cycle:
  assumes "helper_isIndex (d_MediaType d)"
    and "\<And>w. helper_readJSON dir (json_Index L) (d_Digest d) w = (Ok \<lparr>i_Manifests = [d]\<rparr>, w)"
  shows "fst (helper_walkBlobs L dir k [d] xs w) = Panic"
  using assms
proof (induction k arbitrary: xs w)
  case 0
  then show ?case by (simp add: pure_res_def)
next
  case (Suc k)
  from Suc.IH [OF Suc.prems, of xs w] Suc.prems show ?case
    by (cases "helper_walkBlobs L dir k [d] xs w") (simp add: ebind_def)
qed

lemma collect_cycle:
  assumes "helper_isIndex (d_MediaType d)"
    and "\<And>w. helper_readJSON dir (json_Index L) (d_Digest d) w = (Ok \<lparr>i_Manifests = [d]\<rparr>, w)"
  shows "helper_collect L dir (Suc k) [d] Map.empty w = (Ok [d_Digest d \<mapsto> d], w)"
  using assms by (simp add: ebind_def ret_def)

end
