(* ===== verification/Ocidir_Properties.thy ===== *)
theory Ocidir_Properties
  imports Ocidir_Helper Demo_Push
begin

text \<open>The properties of package ocidir's helpers.\<close>

definition demo_files :: "string \<rightharpoonup> bytes" where
  "demo_files d = List.find (\<lambda>b. digest_FromBytes demo_lib b = d) demo_contents"

lemma demo_dir_serves: "dir_serves demo_dir demo_files"
  by (auto simp: dir_serves_def demo_dir_Blobs memory_Blobs_def demo_files_def read_all_def section_bytes_def
      split: option.splits)

lemma demo_helper_read:
  "helper_readJSON demo_dir (json_Manifest demo_lib) (d_Digest (demo_md demo_diff)) w = (Ok (demo_manifest demo_diff), w)"
proof -
  have mem: "put_manifest (demo_manifest demo_diff) \<in> set demo_contents" by (simp add: demo_contents_def)
  show ?thesis
    by (simp add: helper_readJSON_def demo_dir_Blobs demo_md_digest demo_open [OF mem] read_all_def
        section_bytes_def demo_manifest_json ret_def)
qed

lemma demo_blobsFrom: "\<exists>out. helper_blobsFrom demo_lib 0 demo_dir [demo_md demo_diff] w = (Ok out, w)"
  by (simp add: helper_blobsFrom_def demo_md_def demo_desc_def ebind_def ret_def pure_res_def
      demo_helper_read [unfolded demo_md_def demo_desc_def, simplified]
      helper_isIndex_def helper_isManifest_def MediaTypeImageManifest_def MediaTypeImageIndex_def
      MediaTypeDockerManifestList_def)

text \<open>
  C26: the blobs that \<open>AllBlobsFromNames\<close> and \<open>AllBlobsFromDigests\<close> yield for some roots are each named
  once, every descriptor reached through nested indexes is there with all it depends on, and the order
  is that of a copy: a digest is there as a layer or a config, or after everything that a descriptor
  with that digest depends on. The walk returns when the call stack is deep enough for the nesting.
\<close>

theorem helper_blobs_order:
  assumes "dir_serves dir c"
  shows "(\<forall>out w'. helper_blobsFrom L depth dir roots w = (Ok out, w') \<longrightarrow>
       distinct out \<and> covers L c roots out \<and> (\<forall>i < length out. justified L c roots (take i out) (out ! i))) \<and>
    ((\<forall>d w. fst (od_Blobs dir d w) \<noteq> Panic) \<and> shallow L c depth roots \<longrightarrow>
       fst (helper_blobsFrom L depth dir roots w) \<noteq> Panic)"
proof -
  have start: "well_ordered L c roots []" by (simp add: well_ordered_def)
  have "distinct out \<and> covers L c roots out \<and> (\<forall>i < length out. justified L c roots (take i out) (out ! i))"
    if "helper_blobsFrom L depth dir roots w = (Ok out, w')" for out w'
    using walkBlobs_Ok [OF assms that [unfolded helper_blobsFrom_def] start reached.root]
    by (simp add: well_ordered_def)
  moreover have "fst (helper_blobsFrom L depth dir roots w) \<noteq> Panic"
    if "\<forall>d w. fst (od_Blobs dir d w) \<noteq> Panic" "shallow L c depth roots"
    using walkBlobs_no_panic [OF assms, of L depth roots "[]" w] that unfolding helper_blobsFrom_def
    by (metis prod.collapse)
  ultimately show ?thesis by blast
qed

lemma demo_shallow: "shallow demo_lib demo_files 0 [demo_md demo_diff]"
  by (simp add: demo_md_def demo_desc_def helper_isIndex_def MediaTypeImageManifest_def MediaTypeImageIndex_def
      MediaTypeDockerManifestList_def)

lemma demo_no_panic: "fst (od_Blobs demo_dir d w) \<noteq> Panic"
  by (simp add: demo_dir_Blobs memory_Blobs_def throw_def ret_def split: option.split)

theorem helper_blobs_order_witness:
  "(\<exists>out w'. helper_blobsFrom demo_lib 0 demo_dir [demo_md demo_diff] os_empty = (Ok out, w') \<and> distinct out \<and>
     covers demo_lib demo_files [demo_md demo_diff] out) \<and>
   fst (helper_blobsFrom demo_lib 0 demo_dir [demo_md demo_diff] os_empty) \<noteq> Panic"
  using helper_blobs_order [OF demo_dir_serves, of demo_lib 0 "[demo_md demo_diff]" os_empty]
    demo_blobsFrom [of os_empty] demo_shallow demo_no_panic by blast

end
