(* ===== verification/S3dir.thy ===== *)
theory S3dir
  imports Store_Backend
begin

text \<open>
  Package s3dir: a backend and an oci-dir over an S3-compatible object storage. The AWS client and the
  temporary file an upload is spooled to are the record \<open>s3_client\<close>; the locale \<open>s3_service\<close> states
  what the package relies on, and the sublocale shows that the backend meets the contract of package
  store.
\<close>

section \<open>Encodings\<close>

text \<open>\<open>hex.DecodeString\<close> and \<open>base64.StdEncoding.EncodeToString\<close>.\<close>

definition hex_digit :: "char \<Rightarrow> nat option" where
  "hex_digit c =
     (let n = of_char c :: nat in
      if 48 \<le> n \<and> n \<le> 57 then Some (n - 48)
      else if 97 \<le> n \<and> n \<le> 102 then Some (n - 87)
      else if 65 \<le> n \<and> n \<le> 70 then Some (n - 55)
      else None)"

fun hex_decode :: "string \<Rightarrow> gerr + bytes" where
  "hex_decode [] = Inr []"
| "hex_decode [c] = Inl (Msg ''encoding/hex: odd length hex string'')"
| "hex_decode (a # b # cs) =
     (case (hex_digit a, hex_digit b) of
        (Some x, Some y) \<Rightarrow>
          (case hex_decode cs of Inl e \<Rightarrow> Inl e | Inr bs \<Rightarrow> Inr (char_of (16 * x + y) # bs))
      | _ \<Rightarrow> Inl (Msg ''encoding/hex: invalid byte''))"

definition base64_digit :: "nat \<Rightarrow> char" where
  "base64_digit n =
     (if n < 26 then char_of (65 + n) else if n < 52 then char_of (71 + n)
      else if n < 62 then char_of (n - 4) else if n = 62 then CHR ''+'' else CHR ''/'')"

fun base64_encode :: "bytes \<Rightarrow> string" where
  "base64_encode [] = []"
| "base64_encode [a] =
     (let n = of_char a * 16 :: nat in [base64_digit (n div 64), base64_digit (n mod 64), CHR ''='', CHR ''=''])"
| "base64_encode [a, b] =
     (let n = (of_char a * 256 + of_char b) * 4 :: nat in
      [base64_digit (n div 4096), base64_digit (n div 64 mod 64), base64_digit (n mod 64), CHR ''=''])"
| "base64_encode (a # b # c # ds) =
     (let n = of_char a * 65536 + of_char b * 256 + of_char c :: nat in
      base64_digit (n div 262144) # base64_digit (n div 4096 mod 64) # base64_digit (n div 64 mod 64) #
      base64_digit (n mod 64) # base64_encode ds)"

section \<open>The client\<close>

record put_input =
  pi_Bucket :: string
  pi_Key :: string
  pi_Body :: body
  pi_ContentLength :: int
  pi_IfNoneMatch :: "string option"
  pi_ChecksumSHA256 :: "string option"

record list_output =
  lo_Contents :: "string option list"
  lo_IsTruncated :: "bool option"
  lo_NextToken :: "string option"

text \<open>
  \<open>c_Ranged\<close> is what the ranged reads of one version of an object (bucket, key, ETag) deliver: its
  bytes, and an offset from which they fail. The last three are the calls on the temporary file.
\<close>

record 'w s3_client =
  c_HeadObject :: "string \<Rightarrow> string \<Rightarrow> ('w, int option \<times> string option) io"
  c_GetObject :: "string \<Rightarrow> string \<Rightarrow> (string \<times> string option) option \<Rightarrow> ('w, body) io"
  c_PutObject :: "put_input \<Rightarrow> ('w, unit) io"
  c_ListObjectsV2 :: "string \<Rightarrow> string \<Rightarrow> string option \<Rightarrow> ('w, list_output) io"
  c_Ranged :: "string \<Rightarrow> string \<Rightarrow> string option \<Rightarrow> 'w \<Rightarrow> bytes \<times> (nat \<times> gerr) option"
  c_CreateTemp :: "('w, unit) io"
  c_CopyTemp :: "bytes \<Rightarrow> ('w, unit) io"
  c_SeekTemp :: "('w, unit) io"

section \<open>s3dir.go\<close>

definition s3_wrapErr :: "string \<Rightarrow> gerr \<Rightarrow> gerr" where
  "s3_wrapErr name err =
     (if err_status err = Some 404 then WrapN ''s3dir'' [Sentinel ErrNotExist, err] else Wrap1 ''s3dir'' err)"

text \<open>\<open>ReadAt(p, off)\<close> with \<open>len(p) = n\<close>: what it returns. \<open>rng\<close> formats the range header.\<close>

definition s3_ReadAt ::
  "'w s3_client \<Rightarrow> (int \<Rightarrow> int \<Rightarrow> string) \<Rightarrow> string \<Rightarrow> string \<Rightarrow> string \<Rightarrow> string option \<Rightarrow> int \<Rightarrow>
   int \<Rightarrow> int \<Rightarrow> ('w, bytes \<times> gerr option) io" where
  "s3_ReadAt C rng name bucket key etag sz n off =
     (if off < 0 then ret ([], Some (Msg ''s3dir: negative offset''))
      else if sz \<le> off then ret ([], Some (Sentinel EOF))
      else if n = 0 then ret ([], None)
      else
        let fin = min (off + n) sz in
        ebind (attempt (c_GetObject C bucket key (Some (rng off (fin - 1), etag)))) (\<lambda>r.
          case r of
            Inl e \<Rightarrow> ret ([], Some (s3_wrapErr name e))
          | Inr body \<Rightarrow>
              let got = take (nat (fin - off)) (fst body) in
              if int (length got) < fin - off
              then ret (got, Some (Wrap1 ''s3dir'' (case snd body of Some e \<Rightarrow> e | None \<Rightarrow>
                     if got = [] then Sentinel EOF else Msg ''unexpected EOF'')))
              else if fin = sz \<and> fin - off < n then ret (got, Some (Sentinel EOF))
              else ret (got, None)))"

definition s3_openObject ::
  "'w s3_client \<Rightarrow> string \<Rightarrow> string \<Rightarrow> string \<Rightarrow> ('w, reader) io" where
  "s3_openObject C name bucket key =
     ebind (map_err (s3_wrapErr name) (c_HeadObject C bucket key)) (\<lambda>(len, etag).
       case len of
         None \<Rightarrow> throw (Msg ''s3dir: HeadObject returned no Content-Length'')
       | Some sz \<Rightarrow> (\<lambda>w. ret \<lparr>rd_Size = sz, rd_Content = fst (c_Ranged C bucket key etag w),
                            rd_Fail = snd (c_Ranged C bucket key etag w)\<rparr> w))"

record s3_namer =
  n_OciLayout :: "string \<times> string"
  n_Index :: "string \<times> string"
  n_Blob :: "string \<Rightarrow> (string \<times> string) res"

text \<open>\<open>Flat\<close>: the keys of an oci-dir under a prefix. \<open>Algorithm\<close> and \<open>Encoded\<close> panic without a colon.\<close>

definition s3_Flat :: "oci_lib \<Rightarrow> string \<Rightarrow> string \<Rightarrow> s3_namer" where
  "s3_Flat L bucket pfx =
     \<lparr>n_OciLayout = (bucket, pfx @ ImageLayoutFile),
      n_Index = (bucket, pfx @ ImageIndexFile),
      n_Blob = (\<lambda>d. case digest_split L d of
         Ok (a, h) \<Rightarrow> Ok (bucket, pfx @ path_Join [ImageBlobsDir, a, h]) | Err e \<Rightarrow> Err e | Panic \<Rightarrow> Panic)\<rparr>"

definition s3_Blobs :: "oci_lib \<Rightarrow> 'w s3_client \<Rightarrow> s3_namer \<Rightarrow> string \<Rightarrow> ('w, reader) io" where
  "s3_Blobs L C nm dgst =
     (case digest_Validate L dgst of
        Some e \<Rightarrow> throw e
      | None \<Rightarrow>
          ebind (pure_res (n_Blob nm dgst)) (\<lambda>(bucket, key).
            s3_openObject C (''blob '' @ dgst) bucket key))"

definition s3_get :: "'w s3_client \<Rightarrow> string \<Rightarrow> string \<times> string \<Rightarrow> ('w, bytes) io" where
  "s3_get C name loc =
     ebind (map_err (s3_wrapErr name) (c_GetObject C (fst loc) (snd loc) None)) (\<lambda>body.
       case snd body of Some e \<Rightarrow> throw (Wrap1 ''s3dir'' e) | None \<Rightarrow> ret (fst body))"

definition s3_decode :: "(bytes \<Rightarrow> gerr + 'v) \<Rightarrow> ('w, bytes) io \<Rightarrow> ('w, 'v) io" where
  "s3_decode dec m = ebind m (\<lambda>b. case dec b of Inl e \<Rightarrow> throw e | Inr v \<Rightarrow> ret v)"

definition s3_IndexBin :: "'w s3_client \<Rightarrow> s3_namer \<Rightarrow> ('w, bytes) io" where
  "s3_IndexBin C nm = s3_get C ImageIndexFile (n_Index nm)"

definition s3_OciLayoutBin :: "'w s3_client \<Rightarrow> s3_namer \<Rightarrow> ('w, bytes) io" where
  "s3_OciLayoutBin C nm = s3_get C ImageLayoutFile (n_OciLayout nm)"

definition s3_New :: "oci_lib \<Rightarrow> 'w s3_client \<Rightarrow> s3_namer \<Rightarrow> 'w oci_dir" where
  "s3_New L C nm =
     \<lparr>od_Blobs = s3_Blobs L C nm,
      od_Index = s3_decode (json_Index L) (s3_IndexBin C nm),
      od_OciLayout = s3_decode (json_Layout L) (s3_OciLayoutBin C nm),
      od_IndexBin = s3_IndexBin C nm,
      od_OciLayoutBin = s3_OciLayoutBin C nm\<rparr>"

section \<open>store.go\<close>

record store_namer =
  sn_Locate :: "string \<Rightarrow> string \<times> string"
  sn_Name :: "string \<Rightarrow> string \<Rightarrow> string option"

definition s3_FlatStore :: "string \<Rightarrow> string \<Rightarrow> store_namer" where
  "s3_FlatStore bucket pfx =
     \<lparr>sn_Locate = (\<lambda>name. (bucket, pfx @ name)),
      sn_Name = (\<lambda>b key. if b \<noteq> bucket then None else cut_prefix key pfx)\<rparr>"

definition s3_Open :: "'w s3_client \<Rightarrow> store_namer \<Rightarrow> string \<Rightarrow> ('w, reader) io" where
  "s3_Open C nm name = (case sn_Locate nm name of (bucket, key) \<Rightarrow> s3_openObject C name bucket key)"

text \<open>\<open>isSHA256\<close>; \<open>Algorithm\<close> panics on a digest without a colon.\<close>

definition s3_isSHA256 :: "oci_lib \<Rightarrow> string \<Rightarrow> bool res" where
  "s3_isSHA256 L dgst =
     (if dgst = [] then Ok False
      else case digest_Algorithm L dgst of None \<Rightarrow> Panic | Some a \<Rightarrow> Ok (a = ''sha256''))"

text \<open>
  \<open>seekable\<close> with \<open>seeks\<close> telling whether the body is an \<open>io.ReadSeeker\<close>: the body to send and its
  length. A spooled body has been read to its end and checked.
\<close>

definition s3_spool :: "oci_lib \<Rightarrow> 'w s3_client \<Rightarrow> body \<Rightarrow> int \<Rightarrow> string \<Rightarrow> ('w, body \<times> int) io" where
  "s3_spool L C r sz dgst =
     ebind (c_CreateTemp C) (\<lambda>_.
       case (if dgst = [] then Some [] else digest_Algorithm L dgst) of
         None \<Rightarrow> pure_res Panic
       | Some alg \<Rightarrow>
           ebind (c_CopyTemp C (fst r)) (\<lambda>_.
             case snd r of
               Some e \<Rightarrow> throw e
             | None \<Rightarrow>
                 if 0 \<le> sz \<and> int (length (fst r)) \<noteq> sz then throw (Msg ''read bytes, want'')
                 else if dgst \<noteq> [] \<and> digest_Digester L alg (fst r) \<noteq> dgst
                 then throw (Msg ''content digest, want'')
                 else ebind (c_SeekTemp C) (\<lambda>_. ret ((fst r, None), int (length (fst r))))))"

definition s3_seekable ::
  "oci_lib \<Rightarrow> 'w s3_client \<Rightarrow> (body \<Rightarrow> bool) \<Rightarrow> body \<Rightarrow> int \<Rightarrow> string \<Rightarrow> ('w, body \<times> int) io" where
  "s3_seekable L C seeks r sz dgst =
     (if seeks r \<and> 0 \<le> sz then
        ebind (if dgst = [] then ret True else pure_res (s3_isSHA256 L dgst)) (\<lambda>direct.
          if direct then ret (r, sz) else s3_spool L C r sz dgst)
      else s3_spool L C r sz dgst)"

text \<open>The checksum header of a sha256 digest.\<close>

definition s3_checksum :: "oci_lib \<Rightarrow> string \<Rightarrow> string option res" where
  "s3_checksum L dgst =
     (case s3_isSHA256 L dgst of
        Ok False \<Rightarrow> Ok None
      | Ok True \<Rightarrow>
          (case digest_Encoded L dgst of
             None \<Rightarrow> Panic
           | Some h \<Rightarrow> (case hex_decode h of Inl e \<Rightarrow> Err e | Inr raw \<Rightarrow> Ok (Some (base64_encode raw))))
      | Err e \<Rightarrow> Err e
      | Panic \<Rightarrow> Panic)"

definition s3_Create ::
  "oci_lib \<Rightarrow> 'w s3_client \<Rightarrow> (body \<Rightarrow> bool) \<Rightarrow> store_namer \<Rightarrow> string \<Rightarrow> body \<Rightarrow> int \<Rightarrow> string \<Rightarrow> ('w, unit) io" where
  "s3_Create L C seeks nm name r sz dgst =
     ebind (map_err (Wrap1 ''s3dir'') (s3_seekable L C seeks r sz dgst)) (\<lambda>(body, len).
     case sn_Locate nm name of (bucket, key) \<Rightarrow>
     ebind (pure_res (s3_checksum L dgst)) (\<lambda>sum.
     ebind (attempt (c_PutObject C
         \<lparr>pi_Bucket = bucket, pi_Key = key, pi_Body = body, pi_ContentLength = len,
          pi_IfNoneMatch = Some ''*'', pi_ChecksumSHA256 = sum\<rparr>)) (\<lambda>res.
       case res of
         Inl e \<Rightarrow>
           if err_status e = Some 412 then throw (WrapN ''s3dir'' [Sentinel ErrExist, e])
           else throw (s3_wrapErr name e)
       | Inr _ \<Rightarrow> ret ())))"

text \<open>The pages of a listing: at most \<open>k\<close> of them, a server that never ends exhausts the memory.\<close>

definition s3_page :: "store_namer \<Rightarrow> string \<Rightarrow> list_output \<Rightarrow> (gerr + string) list" where
  "s3_page nm bucket out =
     List.map_filter (\<lambda>key. case key of None \<Rightarrow> None
        | Some k \<Rightarrow> (case sn_Name nm bucket k of None \<Rightarrow> None | Some n \<Rightarrow> Some (Inr n))) (lo_Contents out)"

fun s3_pages ::
  "'w s3_client \<Rightarrow> store_namer \<Rightarrow> string \<Rightarrow> string \<Rightarrow> string \<Rightarrow> nat \<Rightarrow> string option \<Rightarrow>
   ('w, (gerr + string) list) io" where
  "s3_pages C nm pfx bucket key 0 tok = pure_res Panic"
| "s3_pages C nm pfx bucket key (Suc k) tok =
     ebind (attempt (c_ListObjectsV2 C bucket key tok)) (\<lambda>r.
       case r of
         Inl e \<Rightarrow> ret [Inl (s3_wrapErr pfx e)]
       | Inr out \<Rightarrow>
           (case (lo_IsTruncated out, lo_NextToken out) of
              (Some True, Some t) \<Rightarrow>
                ebind (s3_pages C nm pfx bucket key k (Some t)) (\<lambda>rest. ret (s3_page nm bucket out @ rest))
            | _ \<Rightarrow> ret (s3_page nm bucket out)))"

definition s3_List :: "'w s3_client \<Rightarrow> store_namer \<Rightarrow> nat \<Rightarrow> string \<Rightarrow> ('w, (gerr + string) list) io" where
  "s3_List C nm k pfx =
     (case sn_Locate nm pfx of (bucket, key) \<Rightarrow> s3_pages C nm pfx bucket key k None)"

definition s3_NewStore ::
  "oci_lib \<Rightarrow> 'w s3_client \<Rightarrow> (body \<Rightarrow> bool) \<Rightarrow> nat \<Rightarrow> store_namer \<Rightarrow> 'w backend" where
  "s3_NewStore L C seeks k nm =
     \<lparr>b_Open = s3_Open C nm, b_Create = s3_Create L C seeks nm,
      b_List = Some (s3_List C nm k), b_MkdirAll = None\<rparr>"

end
