(* ===== verification/S3dir_Backend.thy ===== *)
theory S3dir_Backend
  imports S3dir
begin

text \<open>
  The object storage as the package relies on it, and the backend's contract: a conditional upload
  never replaces an object, and what it stores has been checked, by the service against the sha256
  checksum or by the package while it spooled the body.
\<close>

section \<open>The service\<close>

text \<open>The request carries what the code sends and its checksum is that of \<open>dgst\<close>.\<close>

definition checksum_of :: "oci_lib \<Rightarrow> string \<Rightarrow> string \<Rightarrow> bool" where
  "checksum_of L dgst csum \<longleftrightarrow>
     digest_Algorithm L dgst = Some ''sha256'' \<and>
     (\<exists>h raw. digest_Encoded L dgst = Some h \<and> hex_decode h = Inr raw \<and> csum = base64_encode raw)"

text \<open>
  \<open>objs\<close> is the content of the storage. An upload with \<open>If-None-Match: *\<close> either changes nothing or
  creates the object with the bytes of the body; it succeeds only when the body did not fail, has the
  announced length and the announced checksum. The client's errors are its own: they wrap none of the
  sentinels of package fs, and 404 and 412 are answers about the object, unless the body failed with
  such an answer of its own. The objects of a store are never replaced, so a ranged read does not fail
  for a changed ETag.
\<close>

locale s3_service =
  fixes L :: oci_lib
    and C :: "'w s3_client"
    and objs :: "'w \<Rightarrow> string \<times> string \<rightharpoonup> bytes"
  assumes laws: "digest_laws L"
    and head_same: "c_HeadObject C b k w = (rh, w') \<Longrightarrow> objs w' = objs w"
    and head_found: "c_HeadObject C b k w = (Ok (Some sz, etag), w') \<Longrightarrow>
        \<exists>c. objs w (b, k) = Some c \<and> sz = int (length c) \<and> fst (c_Ranged C b k etag w') = c \<and>
          (\<forall>j e. snd (c_Ranged C b k etag w') = Some (j, e) \<longrightarrow>
             \<not> err_is e ErrNotExist \<and> \<not> err_is e ErrExist \<and> err_status e \<noteq> Some 412)"
    and head_absent: "c_HeadObject C b k w = (Err e, w') \<Longrightarrow> err_status e = Some 404 \<Longrightarrow> objs w (b, k) = None"
    and head_kind: "c_HeadObject C b k w = (Err e, w') \<Longrightarrow> \<not> err_is e ErrNotExist"
    and list_same: "c_ListObjectsV2 C b k tok w = (rl, w') \<Longrightarrow> objs w' = objs w"
    and temp_same: "c_CreateTemp C w = (ru, w') \<Longrightarrow> objs w' = objs w"
      "c_CopyTemp C bs w = (ru, w') \<Longrightarrow> objs w' = objs w"
      "c_SeekTemp C w = (ru, w') \<Longrightarrow> objs w' = objs w"
    and temp_kind: "c_CreateTemp C w = (Err e, w') \<Longrightarrow> \<not> err_is e ErrExist"
      "c_CopyTemp C bs w = (Err e, w') \<Longrightarrow> \<not> err_is e ErrExist"
      "c_SeekTemp C w = (Err e, w') \<Longrightarrow> \<not> err_is e ErrExist"
    and put_any: "c_PutObject C inp w = (ru, w') \<Longrightarrow> pi_IfNoneMatch inp = Some ''*'' \<Longrightarrow>
        objs w' = objs w \<and> ru \<noteq> Ok () \<or>
        (objs w (pi_Bucket inp, pi_Key inp) = None \<and> snd (pi_Body inp) = None \<and>
         int (length (fst (pi_Body inp))) = pi_ContentLength inp \<and>
         objs w' = (objs w)((pi_Bucket inp, pi_Key inp) \<mapsto> fst (pi_Body inp)) \<and>
         (\<forall>csum d. pi_ChecksumSHA256 inp = Some csum \<longrightarrow> valid_digest L d \<longrightarrow> checksum_of L d csum \<longrightarrow>
            digest_matches L d (fst (pi_Body inp))) \<and>
         (\<forall>e. ru = Err e \<longrightarrow> err_status e \<noteq> Some 412))"
    and put_exists: "c_PutObject C inp w = (Err e, w') \<Longrightarrow> err_status e = Some 412 \<Longrightarrow>
        objs w (pi_Bucket inp, pi_Key inp) \<noteq> None \<or>
        (\<exists>e0. snd (pi_Body inp) = Some e0 \<and> err_status e0 = Some 412)"
    and put_kind: "c_PutObject C inp w = (Err e, w') \<Longrightarrow> err_is e ErrExist \<Longrightarrow>
        \<exists>e0. snd (pi_Body inp) = Some e0 \<and> err_is e0 ErrExist"
begin

section \<open>Opening\<close>

lemma openObject_Ok:
  assumes "s3_openObject C name b k w = (Ok rd, w')"
  shows "\<exists>c. objs w (b, k) = Some c \<and> serves rd c"
proof -
  from assms obtain sz etag where h: "c_HeadObject C b k w = (Ok (Some sz, etag), w')"
    and rd: "rd = \<lparr>rd_Size = sz, rd_Content = fst (c_Ranged C b k etag w'), rd_Fail = snd (c_Ranged C b k etag w')\<rparr>"
    by (auto simp: s3_openObject_def ebind_Ok map_err_Ok split: option.splits)
  from head_found [OF h] rd show ?thesis
    by (auto simp: serves_def read_all_def section_bytes_def split: option.splits prod.splits if_splits)
qed

lemma openObject_same: "s3_openObject C name b k w = (ro, w') \<Longrightarrow> objs w' = objs w"
  by (cases ro) (auto simp: s3_openObject_def ebind_Ok ebind_Err ebind_Panic map_err_Ok map_err_Err map_err_Panic
      dest: head_same split: option.splits)

lemma openObject_absent:
  assumes "s3_openObject C name b k w = (Err e, w')" "err_is e ErrNotExist"
  shows "objs w (b, k) = None"
  using assms
  by (auto simp: s3_openObject_def ebind_Ok ebind_Err map_err_Ok map_err_Err s3_wrapErr_def
      dest: head_kind head_absent split: option.splits if_splits)

section \<open>Creating\<close>

text \<open>What \<open>seekable\<close> hands to the upload, and its errors.\<close>

lemma spool_same: "moves (\<lambda>w w'. objs w' = objs w) (s3_spool L C r sz dgst)"
proof -
  have rel: "reflp (\<lambda>w w'. objs w' = objs w)" "transp (\<lambda>w w'. objs w' = objs w)"
    by (auto intro: reflpI transpI)
  have ops: "moves (\<lambda>w w'. objs w' = objs w) (c_CreateTemp C)" "moves (\<lambda>w w'. objs w' = objs w) (c_CopyTemp C bs)"
    "moves (\<lambda>w w'. objs w' = objs w) (c_SeekTemp C)" for bs
    by (rule movesI; rule temp_same; assumption)+
  show ?thesis unfolding s3_spool_def
    by (auto intro!: keeps_intros rel ops split: option.splits)
qed

lemma seekable_same: "moves (\<lambda>w w'. objs w' = objs w) (s3_seekable L C seeks r sz dgst)"
proof -
  have rel: "reflp (\<lambda>w w'. objs w' = objs w)" "transp (\<lambda>w w'. objs w' = objs w)"
    by (auto intro: reflpI transpI)
  show ?thesis unfolding s3_seekable_def by (auto intro!: keeps_intros rel spool_same)
qed

lemma spool_Ok:
  assumes "s3_spool L C r sz dgst w = (Ok (b, n), w')"
  shows "b = (fst r, None) \<and> n = int (length (fst r)) \<and> snd r = None \<and> (0 \<le> sz \<longrightarrow> n = sz) \<and>
    (dgst \<noteq> [] \<longrightarrow> digest_matches L dgst (fst r))"
  using assms
  by (auto simp: s3_spool_def ebind_Ok digest_matches_def split: option.splits if_splits)

lemma spool_Err:
  assumes "s3_spool L C r sz dgst w = (Err e, w')" "body_ok r"
  shows "\<not> err_is e ErrExist"
  using assms
  by (auto simp: s3_spool_def ebind_Ok ebind_Err body_ok_def dest: temp_kind split: option.splits if_splits)

lemma seekable_Ok:
  assumes "s3_seekable L C seeks r sz dgst w = (Ok (b, n), w')"
  shows "fst b = fst r \<and> (snd b = None \<longrightarrow> snd r = None) \<and> (snd b = None \<or> b = r) \<and> (0 \<le> sz \<longrightarrow> int (length (fst b)) = n \<longrightarrow> n = sz) \<and>
    (dgst \<noteq> [] \<longrightarrow> snd b = None \<longrightarrow> s3_isSHA256 L dgst = Ok True \<or> digest_matches L dgst (fst r))"
proof -
  from assms consider "b = r" "n = sz" "dgst = [] \<or> s3_isSHA256 L dgst = Ok True"
    | v where "s3_spool L C r sz dgst v = (Ok (b, n), w')"
    unfolding s3_seekable_def by (auto simp: ebind_Ok split: if_splits)
  then show ?thesis
  proof cases
    case 1
    then show ?thesis by auto
  next
    case 2
    from spool_Ok [OF this] show ?thesis by auto
  qed
qed

lemma seekable_Err:
  assumes "s3_seekable L C seeks r sz dgst w = (Err e, w')" "body_ok r"
  shows "\<not> err_is e ErrExist"
proof -
  have "s3_isSHA256 L dgst \<noteq> Err x" for x by (simp add: s3_isSHA256_def split: option.split)
  with assms obtain v where "s3_spool L C r sz dgst v = (Err e, w')"
    unfolding s3_seekable_def by (auto simp: ebind_Err ebind_Ok split: if_splits)
  then show ?thesis using assms(2) by (rule spool_Err)
qed

lemma checksum_Ok:
  "s3_checksum L dgst = Ok csum \<Longrightarrow>
     (csum = None \<and> s3_isSHA256 L dgst = Ok False) \<or>
     (s3_isSHA256 L dgst = Ok True \<and> (\<exists>c. csum = Some c \<and> checksum_of L dgst c))"
  by (auto simp: s3_checksum_def checksum_of_def s3_isSHA256_def split: res.splits bool.splits option.splits sum.splits if_splits)

lemma checksum_Err: "s3_checksum L dgst = Err e \<Longrightarrow> \<not> err_is e ErrExist"
proof -
  have "hex_decode h = Inl x \<Longrightarrow> \<not> err_is x s" for h x s
    by (induction h arbitrary: x rule: hex_decode.induct) (auto split: option.splits sum.splits)
  then show "s3_checksum L dgst = Err e \<Longrightarrow> \<not> err_is e ErrExist"
    by (auto simp: s3_checksum_def s3_isSHA256_def split: res.splits bool.splits option.splits sum.splits if_splits)
qed

section \<open>The backend\<close>

text \<open>The store's tree: the objects under the prefix.\<close>

definition s3_tree :: "string \<Rightarrow> string \<Rightarrow> 'w \<Rightarrow> tree" where
  "s3_tree bucket pfx w n = objs w (bucket, pfx @ n)"

lemma s3_tree_same: "objs w' = objs w \<Longrightarrow> s3_tree bucket pfx w' = s3_tree bucket pfx w"
  by (rule ext) (simp add: s3_tree_def)

lemma s3_tree_upd:
  "objs w' = (objs w)((bucket, pfx @ n) \<mapsto> c) \<Longrightarrow> s3_tree bucket pfx w' = (s3_tree bucket pfx w)(n \<mapsto> c)"
  by (rule ext) (simp add: s3_tree_def)

lemma Create_outcome:
  assumes run: "s3_Create L C seeks (s3_FlatStore bucket pfx) n r sz dgst w = (res, w')"
  shows "(objs w' = objs w \<and> res \<noteq> Ok () \<or> created L (s3_tree bucket pfx w) n r sz dgst (s3_tree bucket pfx w')) \<and>
    (\<forall>e. res = Err e \<longrightarrow> err_is e ErrExist \<longrightarrow> body_ok r \<longrightarrow>
       s3_tree bucket pfx w n \<noteq> None \<and> objs w' = objs w)"
  using run [unfolded s3_Create_def]
proof (cases rule: ebindE)
  case (Stop r0)
  have "objs w' = objs w"
    by (rule movesD [OF moves_map_err [OF seekable_same] Stop(1)])
  moreover have "\<not> err_is e ErrExist" if "res = Err e" "body_ok r" for e
  proof -
    from Stop(1) Stop(4) [OF that(1)] obtain e0 where "s3_seekable L C seeks r sz dgst w = (Err e0, w')"
      "e = Wrap1 ''s3dir'' e0" by (auto simp: map_err_Err)
    with seekable_Err [OF this(1) that(2)] show ?thesis by simp
  qed
  ultimately show ?thesis using Stop(3) by blast
next
  case (Next x w1)
  obtain b len where x: "x = (b, len)" by (cases x)
  from Next(1) x have sk: "s3_seekable L C seeks r sz dgst w = (Ok (b, len), w1)" by (simp add: map_err_Ok)
  note same = movesD [OF seekable_same sk] and body = seekable_Ok [OF sk]
  have "body_ok r \<Longrightarrow> body_ok b" using body by (auto simp: body_ok_def)
  from Next(2) x have "ebind (pure_res (s3_checksum L dgst)) (\<lambda>csum.
     ebind (attempt (c_PutObject C
         \<lparr>pi_Bucket = bucket, pi_Key = pfx @ n, pi_Body = b, pi_ContentLength = len,
          pi_IfNoneMatch = Some ''*'', pi_ChecksumSHA256 = csum\<rparr>)) (\<lambda>res.
       case res of
         Inl e \<Rightarrow>
           if err_status e = Some 412 then throw (WrapN ''s3dir'' [Sentinel ErrExist, e])
           else throw (s3_wrapErr n e)
       | Inr _ \<Rightarrow> ret ())) w1 = (res, w')"
    by (simp only: s3_FlatStore_def store_namer.simps prod.case)
  then show ?thesis
  proof (cases rule: ebindE)
    case (Stop r0)
    with same checksum_Err show ?thesis by (auto simp: pure_res_def)
  next
    case (Next csum w2)
    then have w2: "w2 = w1" and csum: "s3_checksum L dgst = Ok csum" by simp_all
    let ?in = "\<lparr>pi_Bucket = bucket, pi_Key = pfx @ n, pi_Body = b, pi_ContentLength = len,
          pi_IfNoneMatch = Some ''*'', pi_ChecksumSHA256 = csum\<rparr>"
    have made: "created L (s3_tree bucket pfx w) n r sz dgst (s3_tree bucket pfx v)"
      if ch: "objs v \<noteq> objs w1 \<or> ru = Ok ()" and put: "c_PutObject C ?in w1 = (ru, v)" for ru v
    proof -
      from put_any [OF put] ch have p: "objs w1 (bucket, pfx @ n) = None" "snd b = None"
        "int (length (fst b)) = len" "objs v = (objs w1)((bucket, pfx @ n) \<mapsto> fst b)"
        "\<And>c d. csum = Some c \<Longrightarrow> valid_digest L d \<Longrightarrow> checksum_of L d c \<Longrightarrow> digest_matches L d (fst b)"
        by auto
      have "digest_matches L dgst (fst r)" if "dgst \<noteq> []" "valid_digest L dgst"
        using body p(2,5) that checksum_Ok [OF csum] by auto
      with body p(1-4) same show ?thesis
        by (auto simp: created_def s3_tree_def fun_eq_iff)
    qed
    from Next(2) w2 show ?thesis
    proof (cases rule: ebind_attemptE)
      case (Val u w3)
      with made [of w3 "Ok u"] show ?thesis by (auto simp: ret_run w2)
    next
      case (Fail e w3)
      have res: "w' = w3" "res = Err (if err_status e = Some 412 then WrapN ''s3dir'' [Sentinel ErrExist, e] else s3_wrapErr n e)"
        using Fail(2) by (auto simp: throw_run split: if_splits)
      have "objs w3 = objs w \<or> created L (s3_tree bucket pfx w) n r sz dgst (s3_tree bucket pfx w3)"
        using made [OF _ Fail(1) [unfolded w2]] same by auto
      then have first: "objs w3 = objs w \<and> res \<noteq> Ok () \<or> created L (s3_tree bucket pfx w) n r sz dgst (s3_tree bucket pfx w3)"
        unfolding res(2) by blast
      have "s3_tree bucket pfx w n \<noteq> None \<and> objs w3 = objs w"
        if "err_is e' ErrExist" "res = Err e'" "body_ok r" for e'
      proof -
        have "\<not> err_is e ErrExist"
        proof
          assume "err_is e ErrExist"
          from put_kind [OF Fail(1) [unfolded w2] this] obtain e0 where "snd b = Some e0" "err_is e0 ErrExist" by auto
          with \<open>body_ok r \<Longrightarrow> body_ok b\<close> [OF that(3)] show False by (simp add: body_ok_def)
        qed
        with that(1,2) res(2) have st: "err_status e = Some 412" by (auto simp: s3_wrapErr_def split: if_splits)
        have "objs w3 = objs w1" using put_any [OF Fail(1) [unfolded w2]] st by auto
        moreover have "objs w1 (bucket, pfx @ n) \<noteq> None"
          using put_exists [OF Fail(1) [unfolded w2] st] \<open>body_ok r \<Longrightarrow> body_ok b\<close> [OF that(3)]
          by (auto simp: body_ok_def)
        ultimately show ?thesis using same by (simp add: s3_tree_def)
      qed
      with first show ?thesis unfolding res(1) by blast
    next
      case Stop
      have "objs w' = objs w \<or> created L (s3_tree bucket pfx w) n r sz dgst (s3_tree bucket pfx w')"
        using made [OF _ Stop(1) [unfolded w2]] same by auto
      then show ?thesis unfolding Stop(2) by blast
    qed
  qed
qed

end

text \<open>Other calls leave the objects alone.\<close>

context s3_service
begin

lemma pages_same: "s3_pages C nm pfx b k j tok w = (rl, w') \<Longrightarrow> objs w' = objs w"
proof -
  have rel: "reflp (\<lambda>w w'. objs w' = objs w)" "transp (\<lambda>w w'. objs w' = objs w)"
    by (auto intro: reflpI transpI)
  have "moves (\<lambda>w w'. objs w' = objs w) (s3_pages C nm pfx b k j tok)"
  proof (induction j arbitrary: tok)
    case (Suc j)
    have "moves (\<lambda>w w'. objs w' = objs w) (c_ListObjectsV2 C b k tok)" by (rule movesI) (rule list_same)
    with Suc rel show ?case by (auto intro!: keeps_intros split: sum.splits option.splits bool.splits)
  qed (simp add: moves_pure_res rel)
  then show "s3_pages C nm pfx b k j tok w = (rl, w') \<Longrightarrow> objs w' = objs w" by (rule movesD)
qed

end

sublocale s3_service \<subseteq> bucket: store_backend L "s3_NewStore L C seeks k (s3_FlatStore bucket pfx)" "s3_tree bucket pfx" "\<lambda>_. True"
proof (unfold_locales, goal_cases)
  case (1 n w ro w')
  then have "objs w' = objs w" by (auto simp: s3_NewStore_def s3_Open_def s3_FlatStore_def dest: openObject_same)
  then show ?case by (rule s3_tree_same)
next
  case (3 w n rd w')
  then show ?case using openObject_Ok by (auto simp: s3_NewStore_def s3_Open_def s3_FlatStore_def s3_tree_def)
next
  case (4 w n e w')
  then show ?case using openObject_absent by (auto simp: s3_NewStore_def s3_Open_def s3_FlatStore_def s3_tree_def)
next
  case (5 w n body sz dgst u w')
  then have "s3_Create L C seeks (s3_FlatStore bucket pfx) n body sz dgst w = (Ok u, w')" by (simp add: s3_NewStore_def)
  from Create_outcome [OF this] show ?case by simp
next
  case (6 w n body sz dgst r w')
  then have "s3_Create L C seeks (s3_FlatStore bucket pfx) n body sz dgst w = (r, w')" by (simp add: s3_NewStore_def)
  from Create_outcome [OF this] show ?case using s3_tree_same by blast
next
  case (8 w n body sz dgst e w')
  then have "s3_Create L C seeks (s3_FlatStore bucket pfx) n body sz dgst w = (Err e, w')" by (simp add: s3_NewStore_def)
  from Create_outcome [OF this] 8 show ?case using s3_tree_same by blast
next
  case (11 ls n w rl w')
  then have "objs w' = objs w" by (auto simp: s3_NewStore_def s3_List_def s3_FlatStore_def dest: pages_same)
  then show ?case by (rule s3_tree_same)
qed (simp_all add: s3_NewStore_def)

end
