(* ===== verification/Httpdir.thy ===== *)
theory Httpdir
  imports Store_Backend
begin

text \<open>
  Package httpdir: a read-only backend and an oci-dir over HTTP. The library httprange and the HTTP
  client are the record \<open>http_client\<close>; \<open>h_Ranged\<close> is what the range requests of an open reader
  deliver. \<open>h_NotFound\<close> is \<open>StatusCodeError.NotFound\<close> on a status code.
\<close>

record ('w, 'r) http_client =
  h_New :: "string \<Rightarrow> ('w, 'r) io"
  h_Probe :: "'r \<Rightarrow> ('w, unit) io"
  h_Metadata :: "'r \<Rightarrow> 'w \<Rightarrow> int option"
  h_Close :: "'r \<Rightarrow> ('w, unit) io"
  h_Ranged :: "'r \<Rightarrow> 'w \<Rightarrow> bytes \<times> (nat \<times> gerr) option"
  h_NewRequest :: "string \<Rightarrow> gerr option"
  h_Do :: "string \<Rightarrow> ('w, int \<times> body) io"
  h_NotFound :: "int \<Rightarrow> bool"

section \<open>httpdir.go\<close>

definition http_wrapErr :: "('w, 'r) http_client \<Rightarrow> gerr \<Rightarrow> gerr" where
  "http_wrapErr H err =
     (case err_status err of
        Some c \<Rightarrow> if h_NotFound H c then WrapN ''httpdir'' [Sentinel ErrNotExist, err] else Wrap1 ''httpdir'' err
      | None \<Rightarrow> Wrap1 ''httpdir'' err)"

definition http_openURL :: "('w, 'r) http_client \<Rightarrow> string \<Rightarrow> ('w, reader) io" where
  "http_openURL H url =
     ebind (map_err (Wrap1 ''httpdir'') (h_New H url)) (\<lambda>r.
     ebind (attempt (h_Probe H r)) (\<lambda>p.
       case p of
         Inl e \<Rightarrow> ebind (attempt (h_Close H r)) (\<lambda>_. throw (http_wrapErr H e))
       | Inr _ \<Rightarrow> (\<lambda>w.
           case h_Metadata H r w of
             None \<Rightarrow> ebind (attempt (h_Close H r)) (\<lambda>_. throw (Msg ''httpdir: size unknown after probe'')) w
           | Some sz \<Rightarrow> ret \<lparr>rd_Size = sz, rd_Content = fst (h_Ranged H r w), rd_Fail = snd (h_Ranged H r w)\<rparr> w)))"

record http_namer =
  hn_OciLayout :: string
  hn_Index :: string
  hn_Blob :: "string \<Rightarrow> string res"

definition http_BaseURL :: "oci_lib \<Rightarrow> string \<Rightarrow> http_namer" where
  "http_BaseURL L base0 =
     (let base = trim_suffix base0 ''/'' in
      \<lparr>hn_OciLayout = base @ ''/'' @ ImageLayoutFile,
       hn_Index = base @ ''/'' @ ImageIndexFile,
       hn_Blob = (\<lambda>d. case digest_split L d of
          Ok (a, h) \<Rightarrow> Ok (base @ ''/'' @ path_Join [ImageBlobsDir, a, h]) | Err e \<Rightarrow> Err e | Panic \<Rightarrow> Panic)\<rparr>)"

definition http_Blobs :: "oci_lib \<Rightarrow> ('w, 'r) http_client \<Rightarrow> http_namer \<Rightarrow> string \<Rightarrow> ('w, reader) io" where
  "http_Blobs L H nm dgst =
     (case digest_Validate L dgst of
        Some e \<Rightarrow> throw e
      | None \<Rightarrow> ebind (pure_res (hn_Blob nm dgst)) (http_openURL H))"

definition http_get :: "('w, 'r) http_client \<Rightarrow> string \<Rightarrow> ('w, bytes) io" where
  "http_get H url =
     (case h_NewRequest H url of
        Some e \<Rightarrow> throw (Wrap1 ''httpdir'' e)
      | None \<Rightarrow>
          ebind (map_err (Wrap1 ''httpdir'') (h_Do H url)) (\<lambda>(code, body).
            if code \<noteq> 200 then throw (http_wrapErr H (HTTPStatus code))
            else case snd body of Some e \<Rightarrow> throw (Wrap1 ''httpdir'' e) | None \<Rightarrow> ret (fst body)))"

definition http_decode :: "(bytes \<Rightarrow> gerr + 'v) \<Rightarrow> ('w, bytes) io \<Rightarrow> ('w, 'v) io" where
  "http_decode dec m = ebind m (\<lambda>b. case dec b of Inl e \<Rightarrow> throw e | Inr v \<Rightarrow> ret v)"

definition http_IndexBin :: "('w, 'r) http_client \<Rightarrow> http_namer \<Rightarrow> ('w, bytes) io" where
  "http_IndexBin H nm = http_get H (hn_Index nm)"

definition http_OciLayoutBin :: "('w, 'r) http_client \<Rightarrow> http_namer \<Rightarrow> ('w, bytes) io" where
  "http_OciLayoutBin H nm = http_get H (hn_OciLayout nm)"

definition http_New :: "oci_lib \<Rightarrow> ('w, 'r) http_client \<Rightarrow> http_namer \<Rightarrow> 'w oci_dir" where
  "http_New L H nm =
     \<lparr>od_Blobs = http_Blobs L H nm,
      od_Index = http_decode (json_Index L) (http_IndexBin H nm),
      od_OciLayout = http_decode (json_Layout L) (http_OciLayoutBin H nm),
      od_IndexBin = http_IndexBin H nm,
      od_OciLayoutBin = http_OciLayoutBin H nm\<rparr>"

section \<open>store.go\<close>

definition http_BaseURLStore :: "string \<Rightarrow> string \<Rightarrow> string" where
  "http_BaseURLStore base0 = (\<lambda>name. trim_suffix base0 ''/'' @ ''/'' @ name)"

definition http_Open :: "('w, 'r) http_client \<Rightarrow> (string \<Rightarrow> string) \<Rightarrow> string \<Rightarrow> ('w, reader) io" where
  "http_Open H namer name = http_openURL H (namer name)"

definition http_Create :: "string \<Rightarrow> body \<Rightarrow> int \<Rightarrow> string \<Rightarrow> ('w, unit) io" where
  "http_Create name r sz dgst = throw (Sentinel ErrUnsupported)"

definition http_NewStore :: "('w, 'r) http_client \<Rightarrow> (string \<Rightarrow> string) \<Rightarrow> 'w backend" where
  "http_NewStore H namer =
     \<lparr>b_Open = http_Open H namer, b_Create = http_Create, b_List = None, b_MkdirAll = None\<rparr>"

section \<open>What is not there\<close>

lemma err_is_wrapErr:
  "err_is (http_wrapErr H e) s \<longleftrightarrow> err_is e s \<or> s = ErrNotExist \<and> (\<exists>c. err_status e = Some c \<and> h_NotFound H c)"
  by (auto simp: http_wrapErr_def split: option.split)

lemma openURL_probe_failed:
  assumes "h_New H url w = (Ok r, w1)" "h_Probe H r w1 = (Err e, w2)" "fst (h_Close H r w2) \<noteq> Panic"
  shows "http_openURL H url w = (Err (http_wrapErr H e), snd (h_Close H r w2))"
  using assms
  by (cases "h_Close H r w2"; cases "fst (h_Close H r w2)")
    (simp_all add: http_openURL_def ebind_def map_err_def attempt_def throw_def)

lemma openURL_opened:
  assumes "h_New H url w = (Ok r, w1)" "h_Probe H r w1 = (Ok (), w2)" "h_Metadata H r w2 = Some sz"
  shows "http_openURL H url w = (Ok \<lparr>rd_Size = sz, rd_Content = fst (h_Ranged H r w2), rd_Fail = snd (h_Ranged H r w2)\<rparr>, w2)"
  using assms by (simp add: http_openURL_def ebind_def map_err_def attempt_def ret_def)

lemma get_refused:
  assumes "h_NewRequest H url = None" "h_Do H url w = (Ok (code, body), w1)" "code \<noteq> 200"
  shows "http_get H url w = (Err (http_wrapErr H (HTTPStatus code)), w1)"
  using assms by (simp add: http_get_def ebind_def map_err_def throw_def)

section \<open>The contract\<close>

text \<open>
  A web server whose pages do not change: \<open>pages\<close> is what it serves. A probe of a page that is there
  does not answer that it is not found, and what a reader delivers is the page.
\<close>

locale http_service =
  fixes H :: "('w, 'r) http_client"
    and pages :: "string \<rightharpoonup> bytes"
    and url_of :: "'r \<Rightarrow> string"
  assumes new_url: "h_New H url w = (Ok r, w') \<Longrightarrow> url_of r = url"
    and new_kind: "h_New H url w = (Err e, w') \<Longrightarrow> \<not> err_is e ErrNotExist"
    and probe_found: "h_Probe H r w = (Ok u, w') \<Longrightarrow> pages (url_of r) \<noteq> None"
    and probe_kind: "h_Probe H r w = (Err e, w') \<Longrightarrow> \<not> err_is e ErrNotExist"
    and probe_absent: "h_Probe H r w = (Err e, w') \<Longrightarrow> err_status e = Some code \<Longrightarrow> h_NotFound H code \<Longrightarrow>
        pages (url_of r) = None"
    and ranged: "h_Metadata H r w = Some sz \<Longrightarrow> pages (url_of r) = Some c \<Longrightarrow>
        fst (h_Ranged H r w) = c \<and> sz = int (length c) \<and>
        (\<forall>k e. snd (h_Ranged H r w) = Some (k, e) \<longrightarrow>
          \<not> err_is e ErrNotExist \<and> \<not> err_is e ErrExist \<and> err_status e \<noteq> Some 412)"
begin

lemma openURL_cases:
  assumes "http_openURL H url w = (res, w')"
  obtains (New) e where "h_New H url w = (Err e, w')" "res = Err (Wrap1 ''httpdir'' e)"
  | (Dead) "res = Panic"
  | (Probe) r w1 e w2 where "h_New H url w = (Ok r, w1)" "h_Probe H r w1 = (Err e, w2)" "res = Err (http_wrapErr H e)"
  | (Size) "res = Err (Msg ''httpdir: size unknown after probe'')"
  | (Open) r w1 sz where "h_New H url w = (Ok r, w1)" "h_Probe H r w1 = (Ok (), w')" "h_Metadata H r w' = Some sz"
      "res = Ok \<lparr>rd_Size = sz, rd_Content = fst (h_Ranged H r w'), rd_Fail = snd (h_Ranged H r w')\<rparr>"
  using assms [unfolded http_openURL_def]
proof (cases rule: ebindE)
  case (Stop r0)
  with New Dead show ?thesis
    by (cases "h_New H url w"; cases "fst (h_New H url w)"; cases res) (auto simp: map_err_def)
next
  case (Next r w1)
  then have r: "h_New H url w = (Ok r, w1)" by (simp add: map_err_Ok)
  from Next(2) show ?thesis
  proof (cases rule: ebind_attemptE)
    case (Val u w2)
    show ?thesis
    proof (cases "h_Metadata H r w2")
      case None
      with Val(2) Size Dead show ?thesis
        by (auto simp: ebind_def attempt_def throw_def split: res.splits prod.splits)
    next
      case (Some sz)
      with Val r Open [of r w1 sz] show ?thesis by (auto simp: ret_run)
    qed
  next
    case (Fail e w2)
    with r Probe [of r w1 e w2] Dead show ?thesis
      by (auto simp: ebind_def attempt_def throw_def split: res.splits prod.splits)
  next
    case Stop
    with Dead show ?thesis by simp
  qed
qed

lemma openURL_Ok:
  assumes "http_openURL H url w = (Ok rd, w')"
  shows "\<exists>c. pages url = Some c \<and> serves rd c"
  using assms
proof (cases rule: openURL_cases)
  case (Open r w1 sz)
  obtain c where c: "pages url = Some c" using probe_found [OF Open(2)] new_url [OF Open(1)] by auto
  from ranged [OF Open(3), of c] new_url [OF Open(1)] c have "serves rd c"
    using Open(4) by (auto simp: serves_def read_all_def section_bytes_def split: option.splits prod.splits if_splits)
  with c show ?thesis by blast
qed simp_all

lemma openURL_absent:
  assumes "http_openURL H url w = (Err e, w')" "err_is e ErrNotExist"
  shows "pages url = None"
  using assms(1)
proof (cases rule: openURL_cases)
  case (New e0)
  with new_kind assms(2) show ?thesis by auto
next
  case (Probe r w1 e0 w2)
  with assms(2) probe_kind [OF Probe(2)] obtain c where "err_status e0 = Some c" "h_NotFound H c"
    by (auto simp: http_wrapErr_def split: option.splits if_splits)
  with probe_absent [OF Probe(2)] new_url [OF Probe(1)] show ?thesis by simp
qed (use assms(2) in simp_all)

end

sublocale http_service \<subseteq> web: store_backend L "http_NewStore H namer" "\<lambda>_ n. pages (namer n)" "\<lambda>_. True"
  by unfold_locales
    (auto simp: http_NewStore_def http_Open_def http_Create_def dest: openURL_Ok openURL_absent)

end
