(* ===== verification/Demo_Remote.thy ===== *)
theory Demo_Remote
  imports S3dir_Backend Httpdir Store Demo_Lib
begin

text \<open>
  An object storage and a web server as instances of the interfaces of s3dir and httpdir. Every third
  call to the storage fails with status 503.
\<close>

section \<open>An object storage\<close>

record bucket_world =
  bk_objs :: "string \<times> string \<rightharpoonup> bytes"
  bk_calls :: nat

definition bk_call :: "(bucket_world, 'a) io \<Rightarrow> (bucket_world, 'a) io" where
  "bk_call m w =
     (let w' = w\<lparr>bk_calls := Suc (bk_calls w)\<rparr> in
      if bk_calls w mod 3 = 2 then (Err (HTTPStatus 503), w') else m w')"

text \<open>The service accepts the content when it has the digest that the checksum stands for.\<close>

definition bk_accepts :: "put_input \<Rightarrow> bool" where
  "bk_accepts inp \<longleftrightarrow>
     int (length (fst (pi_Body inp))) = pi_ContentLength inp \<and>
     (\<forall>csum d. pi_ChecksumSHA256 inp = Some csum \<longrightarrow> valid_digest demo_lib d \<longrightarrow> checksum_of demo_lib d csum \<longrightarrow>
        digest_matches demo_lib d (fst (pi_Body inp)))"

definition bk_put :: "put_input \<Rightarrow> (bucket_world, unit) io" where
  "bk_put inp w =
     (case snd (pi_Body inp) of
        Some e \<Rightarrow> (Err (Wrap1 ''operation error S3: PutObject'' e), w)
      | None \<Rightarrow>
          if bk_objs w (pi_Bucket inp, pi_Key inp) \<noteq> None \<and> pi_IfNoneMatch inp = Some ''*''
          then (Err (HTTPStatus 412), w)
          else if \<not> bk_accepts inp then (Err (HTTPStatus 400), w)
          else (Ok (), w\<lparr>bk_objs := (bk_objs w)((pi_Bucket inp, pi_Key inp) \<mapsto> fst (pi_Body inp))\<rparr>))"

definition bk_head :: "string \<Rightarrow> string \<Rightarrow> (bucket_world, int option \<times> string option) io" where
  "bk_head b k w =
     (case bk_objs w (b, k) of
        None \<Rightarrow> (Err (HTTPStatus 404), w)
      | Some c \<Rightarrow> (Ok (Some (int (length c)), Some (demo_hash c)), w))"

definition bk_get :: "string \<Rightarrow> string \<Rightarrow> (string \<times> string option) option \<Rightarrow> (bucket_world, body) io" where
  "bk_get b k rng w =
     (case bk_objs w (b, k) of None \<Rightarrow> (Err (HTTPStatus 404), w) | Some c \<Rightarrow> (Ok (c, None), w))"

definition bk_ranged :: "string \<Rightarrow> string \<Rightarrow> string option \<Rightarrow> bucket_world \<Rightarrow> bytes \<times> (nat \<times> gerr) option" where
  "bk_ranged b k etag w =
     (case bk_objs w (b, k) of None \<Rightarrow> ([], Some (0, HTTPStatus 404)) | Some c \<Rightarrow> (c, None))"

definition demo_s3 :: "bucket_world s3_client" where
  "demo_s3 =
     \<lparr>c_HeadObject = (\<lambda>b k. bk_call (bk_head b k)), c_GetObject = (\<lambda>b k r. bk_call (bk_get b k r)),
      c_PutObject = (\<lambda>inp. bk_call (bk_put inp)),
      c_ListObjectsV2 = (\<lambda>b k tok. bk_call (ret \<lparr>lo_Contents = [], lo_IsTruncated = None, lo_NextToken = None\<rparr>)),
      c_Ranged = bk_ranged, c_CreateTemp = ret (), c_CopyTemp = (\<lambda>_. ret ()), c_SeekTemp = ret ()\<rparr>"

interpretation demo_bucket: s3_service demo_lib demo_s3 bk_objs
proof (unfold_locales, goal_cases)
  case 1
  then show ?case by (rule demo_digest_laws)
qed (auto simp: demo_s3_def bk_call_def bk_head_def bk_put_def bk_ranged_def bk_accepts_def Let_def ret_def
    split: option.splits if_splits)

definition demo_s3_store :: "bucket_world backend" where
  "demo_s3_store = s3_NewStore demo_lib demo_s3 (\<lambda>_. True) 10 (s3_FlatStore ''bucket'' ''pfx/'')"

definition demo_s3_empty :: bucket_world where
  "demo_s3_empty = \<lparr>bk_objs = Map.empty, bk_calls = 0\<rparr>"

text \<open>
  \<open>Create\<close> looks for the status 412 anywhere in the error, also in the one with which the body failed:
  a source that breaks off with such an answer (an object of another bucket replaced while it is
  read) passes for a blob that is already stored, and \<open>PutBlob\<close> returns without an error.
\<close>

lemma s3_source_precondition:
  "\<exists>w'. store_PutBlob demo_lib demo_s3_store
       \<lparr>d_MediaType = [], d_Digest = ''sha256:00'', d_Size = 5, d_Annotations = fmempty, d_Platform = None\<rparr>
       (''he'', Some (HTTPStatus 412)) demo_s3_empty = (Ok (), w') \<and> bk_objs w' = Map.empty"
proof -
  have v: "digest_Validate demo_lib ''sha256:00'' = None" "digest_Algorithm demo_lib ''sha256:00'' = Some ''sha256''"
    "digest_Encoded demo_lib ''sha256:00'' = Some ''00''" "hex_digit CHR ''0'' = Some 0"
    by (code_simp+)
  obtain n where n: "store_BlobPath demo_lib ''sha256:00'' = Ok n"
    using v by (simp add: store_BlobPath_def digest_split_def)
  show ?thesis
    by (simp add: store_PutBlob_def store_HasBlob_def store_Blob_def v n demo_s3_store_def s3_NewStore_def s3_Open_def
        s3_FlatStore_def s3_openObject_def demo_s3_def bk_call_def bk_head_def demo_s3_empty_def ebind_def attempt_def
        map_err_def s3_wrapErr_def pure_res_def throw_def ret_def s3_Create_def s3_seekable_def s3_isSHA256_def
        s3_checksum_def bk_put_def Let_def)
qed

section \<open>A web server\<close>

definition demo_pages :: "string \<rightharpoonup> bytes" where
  "demo_pages u = (if u = ''http://h/s/blobs/sha256/1'' then Some ''hello'' else None)"

definition demo_http :: "('w, string) http_client" where
  "demo_http =
     \<lparr>h_New = ret, h_Probe = (\<lambda>u. if demo_pages u = None then throw (HTTPStatus 404) else ret ()),
      h_Metadata = (\<lambda>u w. map_option (\<lambda>c. int (length c)) (demo_pages u)), h_Close = (\<lambda>u. ret ()),
      h_Ranged = (\<lambda>u w. (case demo_pages u of None \<Rightarrow> [] | Some c \<Rightarrow> c, None)),
      h_NewRequest = (\<lambda>u. None),
      h_Do = (\<lambda>u. case demo_pages u of None \<Rightarrow> ret (404, ([], None)) | Some c \<Rightarrow> ret (200, (c, None))),
      h_NotFound = (\<lambda>c. c = 404)\<rparr>"

interpretation demo_web: http_service demo_http demo_pages id
  by unfold_locales (auto simp: demo_http_def split: if_splits option.splits)

end
