(* ===== verification/S3dir_Reliable.thy ===== *)
theory S3dir_Reliable
  imports S3dir_Backend Store_Walk
begin

text \<open>
  An object storage whose calls succeed: what the backend of package s3dir then adds to its contract.
  Conditional uploads of new objects succeed, those of existing ones are refused, and a listing is
  complete when its pages are no more than the model reads.
\<close>

section \<open>The service\<close>

text \<open>The pages of a listing, each continued by its token, until one is not truncated.\<close>

fun delivers ::
  "'w s3_client \<Rightarrow> string \<Rightarrow> string \<Rightarrow> string option \<Rightarrow> 'w \<Rightarrow> list_output list \<Rightarrow> 'w \<Rightarrow> bool" where
  "delivers C b key tok w [] w' \<longleftrightarrow> False"
| "delivers C b key tok w (out # outs) w' \<longleftrightarrow>
     (\<exists>w1. c_ListObjectsV2 C b key tok w = (Ok out, w1) \<and>
       (case (lo_IsTruncated out, lo_NextToken out) of
          (Some True, Some t) \<Rightarrow> delivers C b key (Some t) w1 outs w'
        | _ \<Rightarrow> outs = [] \<and> w' = w1))"

text \<open>An upload the service has no reason to refuse, but for an object of the same key.\<close>

definition acceptable :: "oci_lib \<Rightarrow> put_input \<Rightarrow> bool" where
  "acceptable L inp \<longleftrightarrow>
     snd (pi_Body inp) = None \<and> int (length (fst (pi_Body inp))) = pi_ContentLength inp \<and>
     pi_IfNoneMatch inp = Some ''*'' \<and>
     (\<forall>csum. pi_ChecksumSHA256 inp = Some csum \<longrightarrow>
        (\<exists>d. valid_digest L d \<and> checksum_of L d csum \<and> digest_matches L d (fst (pi_Body inp))))"

definition keeps_good :: "('w \<Rightarrow> bool) \<Rightarrow> ('w, 'x) io \<Rightarrow> bool" where
  "keeps_good good m \<longleftrightarrow> moves (\<lambda>w w'. good w \<longrightarrow> good w') m"

text \<open>The encoded part of a valid sha256 digest is hexadecimal; \<open>page_count\<close> bounds the pages of a listing.\<close>

locale reliable_s3 = s3_service +
  fixes good :: "'a \<Rightarrow> bool"
    and page_count :: "'a \<Rightarrow> string \<Rightarrow> string \<Rightarrow> nat"
  assumes hex_law: "valid_digest L d \<Longrightarrow> digest_Algorithm L d = Some ''sha256'' \<Longrightarrow> digest_Encoded L d = Some h \<Longrightarrow>
        \<exists>raw. hex_decode h = Inr raw"
    and head_up: "good w \<Longrightarrow> objs w (b, k) = Some c \<Longrightarrow>
        \<exists>sz etag w'. c_HeadObject C b k w = (Ok (Some sz, etag), w') \<and> snd (c_Ranged C b k etag w') = None"
    and head_missing: "good w \<Longrightarrow> objs w (b, k) = None \<Longrightarrow>
        \<exists>e w'. c_HeadObject C b k w = (Err e, w') \<and> err_status e = Some 404"
    and put_up: "good w \<Longrightarrow> acceptable L inp \<Longrightarrow> objs w (pi_Bucket inp, pi_Key inp) = None \<Longrightarrow>
        \<exists>w'. c_PutObject C inp w = (Ok (), w')"
    and put_taken: "good w \<Longrightarrow> acceptable L inp \<Longrightarrow> objs w (pi_Bucket inp, pi_Key inp) \<noteq> None \<Longrightarrow>
        \<exists>e w'. c_PutObject C inp w = (Err e, w') \<and> err_status e = Some 412"
    and temp_up: "good w \<Longrightarrow> \<exists>w'. c_CreateTemp C w = (Ok (), w')"
      "good w \<Longrightarrow> \<exists>w'. c_CopyTemp C bs w = (Ok (), w')"
      "good w \<Longrightarrow> \<exists>w'. c_SeekTemp C w = (Ok (), w')"
    and list_pages: "good w \<Longrightarrow> \<exists>outs w'. delivers C b key None w outs w' \<and> length outs \<le> page_count w b key \<and>
        distinct (concat (map lo_Contents outs)) \<and>
        set (concat (map lo_Contents outs)) = Some ` {k. has_prefix k key \<and> objs w (b, k) \<noteq> None}"
    and good_stays: "keeps_good good (c_HeadObject C b k)" "keeps_good good (c_PutObject C inp)"
      "keeps_good good (c_CreateTemp C)" "keeps_good good (c_CopyTemp C bs)" "keeps_good good (c_SeekTemp C)"
      "keeps_good good (c_ListObjectsV2 C b key tok)"
begin

lemma good_rel: "reflp (\<lambda>w w'. good w \<longrightarrow> good w')" "transp (\<lambda>w w'. good w \<longrightarrow> good w')"
  by (auto intro: reflpI transpI)

lemmas good_calls = good_stays [unfolded keeps_good_def]

lemma good_openObject: "moves (\<lambda>w w'. good w \<longrightarrow> good w') (s3_openObject C name b k)"
proof -
  have "moves (\<lambda>w w'. good w \<longrightarrow> good w') (\<lambda>w. ret (f w) w)" for f by (simp add: moves_def ret_def)
  then show ?thesis unfolding s3_openObject_def
    by (auto intro!: keeps_intros good_rel good_calls split: option.splits)
qed

lemma good_spool: "moves (\<lambda>w w'. good w \<longrightarrow> good w') (s3_spool L C r sz dgst)"
  unfolding s3_spool_def by (auto intro!: keeps_intros good_rel good_calls split: option.splits)

lemma good_Create: "moves (\<lambda>w w'. good w \<longrightarrow> good w') (s3_Create L C seeks nm n r sz dgst)"
  unfolding s3_Create_def s3_seekable_def
  by (auto intro!: keeps_intros good_rel good_calls good_spool split: option.splits sum.splits prod.splits)

lemma good_pages: "moves (\<lambda>w w'. good w \<longrightarrow> good w') (s3_pages C nm pfx b k j tok)"
proof (induction j arbitrary: tok)
  case (Suc j)
  then show ?case
    by (auto intro!: keeps_intros good_rel good_calls split: sum.splits option.splits bool.splits)
qed (simp add: moves_pure_res good_rel)

lemma good_List: "moves (\<lambda>w w'. good w \<longrightarrow> good w') (s3_List C nm k p)"
  using good_pages by (simp add: s3_List_def split: prod.split)

section \<open>Opening and creating\<close>

lemma openObject_up:
  assumes "good w" "objs w (b, k) = Some c"
  shows "\<exists>rd w'. s3_openObject C name b k w = (Ok rd, w') \<and> read_all rd = Ok c"
proof -
  from head_up [OF assms] obtain sz etag w' where
    h: "c_HeadObject C b k w = (Ok (Some sz, etag), w')" "snd (c_Ranged C b k etag w') = None" by blast
  with head_found [OF h(1)] assms(2) show ?thesis
    by (simp add: s3_openObject_def map_err_def ebind_def ret_def read_all_def section_bytes_def)
qed

lemma openObject_missing:
  assumes "good w" "objs w (b, k) = None"
  shows "\<exists>e w'. s3_openObject C name b k w = (Err e, w') \<and> err_is e ErrNotExist"
proof -
  from head_missing [OF assms] obtain e w' where "c_HeadObject C b k w = (Err e, w')" "err_status e = Some 404" by blast
  then show ?thesis by (simp add: s3_openObject_def map_err_def ebind_def s3_wrapErr_def)
qed

lemma offers_digest:
  assumes "offers L r sz dgst"
  obtains "dgst = []" | alg where "dgst \<noteq> []" "digest_Algorithm L dgst = Some alg" "digest_Digester L alg (fst r) = dgst"
  using assms by (cases "dgst = []"; cases "digest_Algorithm L dgst") (simp_all add: offers_def digest_matches_def)

lemma spool_up:
  assumes w: "good w" and o: "offers L r sz dgst"
  shows "\<exists>w'. s3_spool L C r sz dgst w = (Ok (r, int (length (fst r))), w')"
proof -
  from temp_up(1) [OF w] obtain w1 where 1: "c_CreateTemp C w = (Ok (), w1)" by blast
  with w have g1: "good w1" using movesD [OF good_calls(3)] by blast
  from temp_up(2) [OF g1] obtain w2 where 2: "c_CopyTemp C (fst r) w1 = (Ok (), w2)" by blast
  with g1 have "good w2" using movesD [OF good_calls(4)] by blast
  from temp_up(3) [OF this] obtain w3 where 3: "c_SeekTemp C w2 = (Ok (), w3)" by blast
  have r: "r = (fst r, None)" using o by (cases r) (simp add: offers_def)
  obtain alg where alg: "(if dgst = [] then Some [] else digest_Algorithm L dgst) = Some alg"
    and same: "\<not> (dgst \<noteq> [] \<and> digest_Digester L alg (fst r) \<noteq> dgst)"
    using o by (cases rule: offers_digest) simp_all
  have len: "\<not> (0 \<le> sz \<and> int (length (fst r)) \<noteq> sz)" and none: "snd r = None" using o by (auto simp: offers_def)
  show ?thesis
    unfolding s3_spool_def ebind_eval [where m = "c_CreateTemp C", OF 1] alg option.case ebind_eval [where m = "c_CopyTemp C (fst r)", OF 2]
      none if_not_P [OF len] if_not_P [OF same] ebind_eval [where m = "c_SeekTemp C", OF 3]
    using r by (simp add: ret_def)
qed

lemma seekable_up:
  assumes w: "good w" and o: "offers L r sz dgst"
  shows "\<exists>w'. s3_seekable L C seeks r sz dgst w = (Ok (r, int (length (fst r))), w')"
proof -
  obtain direct where "(if dgst = [] then ret True else pure_res (s3_isSHA256 L dgst)) = (ret direct :: ('a, bool) io)"
  proof (cases rule: offers_digest [OF o])
    case (2 alg)
    then have "pure_res (s3_isSHA256 L dgst) = ret (alg = ''sha256'')"
      by (intro ext) (simp add: s3_isSHA256_def pure_res_def ret_def)
    with 2(1) that show thesis by simp
  qed simp
  note E = this
  have run: "s3_seekable L C seeks r sz dgst w =
      (if seeks r \<and> 0 \<le> sz \<and> direct then ret (r, sz) w else s3_spool L C r sz dgst w)"
    unfolding s3_seekable_def E ebind_pure by simp
  show ?thesis
  proof (cases "seeks r \<and> 0 \<le> sz \<and> direct")
    case True
    then show ?thesis using o by (simp add: run ret_def offers_def)
  next
    case False
    show ?thesis unfolding run if_not_P [OF False] by (rule spool_up [OF w o])
  qed
qed

lemma checksum_up:
  assumes "offers L r sz dgst"
  shows "\<exists>csum. s3_checksum L dgst = Ok csum \<and> (\<forall>c. csum = Some c \<longrightarrow> valid_digest L dgst \<and> checksum_of L dgst c)"
proof (cases "s3_isSHA256 L dgst = Ok True")
  case True
  then have d: "dgst \<noteq> []" "digest_Algorithm L dgst = Some ''sha256''"
    by (auto simp: s3_isSHA256_def split: option.splits if_splits)
  with assms have v: "valid_digest L dgst" by (simp add: offers_def)
  then obtain h where h: "digest_Encoded L dgst = Some h" using digest_parts [OF laws] by metis
  from hex_law [OF v d(2) h] obtain raw where "hex_decode h = Inr raw" by blast
  with True d v h show ?thesis by (simp add: s3_checksum_def checksum_of_def)
next
  case False
  with assms have "s3_isSHA256 L dgst = Ok False"
    by (cases rule: offers_digest) (simp_all add: s3_isSHA256_def)
  then show ?thesis by (simp add: s3_checksum_def)
qed

text \<open>What an upload of a body that keeps its promise comes down to.\<close>

lemma Create_up:
  assumes w: "good w" and o: "offers L r sz dgst"
  shows "\<exists>inp w1. acceptable L inp \<and> pi_Bucket inp = bucket \<and> pi_Key inp = pfx @ n \<and> good w1 \<and> objs w1 = objs w \<and>
    s3_Create L C seeks (s3_FlatStore bucket pfx) n r sz dgst w =
      ebind (attempt (c_PutObject C inp)) (\<lambda>res. case res of
         Inl e \<Rightarrow>
           if err_status e = Some 412 then throw (WrapN ''s3dir'' [Sentinel ErrExist, e])
           else throw (s3_wrapErr n e)
       | Inr _ \<Rightarrow> ret ()) w1"
proof -
  from seekable_up [OF w o] obtain w1 where
    s: "s3_seekable L C seeks r sz dgst w = (Ok (r, int (length (fst r))), w1)" by blast
  then have m: "map_err (Wrap1 ''s3dir'') (s3_seekable L C seeks r sz dgst) w = (Ok (r, int (length (fst r))), w1)"
    by (simp add: map_err_Ok)
  have "moves (\<lambda>w w'. good w \<longrightarrow> good w') (s3_seekable L C seeks r sz dgst)"
    unfolding s3_seekable_def by (auto intro!: keeps_intros good_rel good_spool)
  from movesD [OF this s] w have g: "good w1" by blast
  from checksum_up [OF o] obtain csum where c: "s3_checksum L dgst = Ok csum"
    "\<And>c. csum = Some c \<Longrightarrow> valid_digest L dgst \<and> checksum_of L dgst c" by blast
  let ?in = "\<lparr>pi_Bucket = bucket, pi_Key = pfx @ n, pi_Body = r, pi_ContentLength = int (length (fst r)),
          pi_IfNoneMatch = Some ''*'', pi_ChecksumSHA256 = csum\<rparr>"
  have "dgst \<noteq> []" if "csum = Some x" for x
    using c(2) [OF that] valid_digest_nonempty [OF laws] by blast
  then have "acceptable L ?in" using o c(2) by (auto simp: acceptable_def offers_def)
  moreover have "s3_Create L C seeks (s3_FlatStore bucket pfx) n r sz dgst w =
      ebind (attempt (c_PutObject C ?in)) (\<lambda>res. case res of
         Inl e \<Rightarrow>
           if err_status e = Some 412 then throw (WrapN ''s3dir'' [Sentinel ErrExist, e])
           else throw (s3_wrapErr n e)
       | Inr _ \<Rightarrow> ret ()) w1"
    unfolding s3_Create_def ebind_eval [where m = "map_err (Wrap1 ''s3dir'') (s3_seekable L C seeks r sz dgst)", OF m]
    by (simp only: prod.case s3_FlatStore_def store_namer.simps c(1) ebind_pure)
  ultimately show ?thesis using g movesD [OF seekable_same s] by (intro exI [of _ ?in] exI [of _ w1]) simp
qed

lemma Create_new:
  assumes "good w" "offers L r sz dgst" "s3_tree bucket pfx w n = None"
  shows "\<exists>w'. s3_Create L C seeks (s3_FlatStore bucket pfx) n r sz dgst w = (Ok (), w')"
proof -
  from Create_up [OF assms(1,2)] obtain inp w1 where u: "acceptable L inp" "pi_Bucket inp = bucket"
    "pi_Key inp = pfx @ n" "good w1" "objs w1 = objs w" and
    run: "s3_Create L C seeks (s3_FlatStore bucket pfx) n r sz dgst w =
      ebind (attempt (c_PutObject C inp)) (\<lambda>res. case res of
         Inl e \<Rightarrow>
           if err_status e = Some 412 then throw (WrapN ''s3dir'' [Sentinel ErrExist, e])
           else throw (s3_wrapErr n e)
       | Inr _ \<Rightarrow> ret ()) w1" by blast
  from put_up [OF u(4,1)] u(2,3,5) assms(3) obtain w' where "c_PutObject C inp w1 = (Ok (), w')"
    by (auto simp: s3_tree_def)
  then show ?thesis unfolding run by (simp add: ebind_def attempt_def ret_def)
qed

lemma Create_taken:
  assumes "good w" "offers L r sz dgst" "s3_tree bucket pfx w n \<noteq> None"
  shows "\<exists>e w'. s3_Create L C seeks (s3_FlatStore bucket pfx) n r sz dgst w = (Err e, w') \<and> err_is e ErrExist"
proof -
  from Create_up [OF assms(1,2)] obtain inp w1 where u: "acceptable L inp" "pi_Bucket inp = bucket"
    "pi_Key inp = pfx @ n" "good w1" "objs w1 = objs w" and
    run: "s3_Create L C seeks (s3_FlatStore bucket pfx) n r sz dgst w =
      ebind (attempt (c_PutObject C inp)) (\<lambda>res. case res of
         Inl e \<Rightarrow>
           if err_status e = Some 412 then throw (WrapN ''s3dir'' [Sentinel ErrExist, e])
           else throw (s3_wrapErr n e)
       | Inr _ \<Rightarrow> ret ()) w1" by blast
  from put_taken [OF u(4,1)] u(2,3,5) assms(3) obtain e w' where
    "c_PutObject C inp w1 = (Err e, w')" "err_status e = Some 412" by (auto simp: s3_tree_def)
  then show ?thesis unfolding run by (simp add: ebind_def attempt_def throw_def)
qed

section \<open>Listing\<close>

text \<open>The store has its prefix of the bucket to itself, and \<open>k\<close> pages are enough for its listings.\<close>

definition s3_own :: "string \<Rightarrow> string \<Rightarrow> 'a \<Rightarrow> bool" where
  "s3_own bucket pfx w \<longleftrightarrow> (\<forall>n. s3_tree bucket pfx w n \<noteq> None \<longrightarrow> store_file n)"

definition s3_fits :: "nat \<Rightarrow> string \<Rightarrow> string \<Rightarrow> 'a \<Rightarrow> bool" where
  "s3_fits k bucket pfx w \<longleftrightarrow> (\<forall>d. listed_dir d \<longrightarrow> page_count w bucket (pfx @ d @ ''/'') \<le> k)"

lemma map_filter_append: "List.map_filter f (xs @ ys) = List.map_filter f xs @ List.map_filter f ys"
  by (simp add: List.map_filter_def)

lemma s3_page_Flat:
  "s3_page (s3_FlatStore bucket pfx) bucket out =
     map Inr (List.map_filter (\<lambda>key. Option.bind key (\<lambda>k. cut_prefix k pfx)) (lo_Contents out))"
proof -
  have "List.map_filter (\<lambda>key. case key of None \<Rightarrow> None
        | Some k \<Rightarrow> (case cut_prefix k pfx of None \<Rightarrow> None | Some n \<Rightarrow> Some (Inr n))) xs =
      map Inr (List.map_filter (\<lambda>key. Option.bind key (\<lambda>k. cut_prefix k pfx)) xs)" for xs :: "string option list"
    by (induction xs) (auto simp: List.map_filter_simps split: option.splits bind_split)
  moreover have "sn_Name (s3_FlatStore bucket pfx) bucket = (\<lambda>k. cut_prefix k pfx)"
    by (intro ext) (simp add: s3_FlatStore_def)
  ultimately show ?thesis unfolding s3_page_def by simp
qed

lemma list_pages_up:
  assumes "delivers C b key tok w outs w'" "length outs \<le> k"
  shows "s3_pages C nm p b key k tok w = (Ok (concat (map (s3_page nm b) outs)), w')"
  using assms
proof (induction outs arbitrary: k tok w)
  case (Cons out outs)
  from Cons.prems(1) obtain w1 where c: "c_ListObjectsV2 C b key tok w = (Ok out, w1)" and
    rest: "case (lo_IsTruncated out, lo_NextToken out) of
          (Some True, Some t) \<Rightarrow> delivers C b key (Some t) w1 outs w'
        | _ \<Rightarrow> outs = [] \<and> w' = w1" by auto
  from Cons.prems(2) obtain k' where k: "k = Suc k'" "length outs \<le> k'" by (cases k) auto
  show ?case
  proof (cases "\<exists>t. lo_IsTruncated out = Some True \<and> lo_NextToken out = Some t")
    case True
    then obtain t where t: "lo_IsTruncated out = Some True" "lo_NextToken out = Some t" by blast
    with rest have "delivers C b key (Some t) w1 outs w'" by simp
    from Cons.IH [OF this k(2)] c t show ?thesis by (simp add: k ebind_def attempt_def ret_def)
  next
    case False
    with rest have "outs = []" "w' = w1" by (auto split: option.splits bool.splits)
    with c False show ?thesis
      by (auto simp: k ebind_def attempt_def ret_def split: option.splits bool.splits)
  qed
qed simp

lemma List_up:
  assumes w: "good w" "s3_own bucket pfx w" "s3_fits k bucket pfx w" and d: "listed_dir d"
  shows "\<exists>ns w'. s3_List C (s3_FlatStore bucket pfx) k (d @ ''/'') w = (Ok (map Inr ns), w') \<and> distinct ns \<and>
    set ns = {n. store_file n \<and> has_prefix n (d @ ''/'') \<and> s3_tree bucket pfx w n \<noteq> None}"
proof -
  let ?key = "pfx @ d @ ''/''"
  from list_pages [OF w(1)] obtain outs w' where outs: "delivers C bucket ?key None w outs w'"
    "length outs \<le> page_count w bucket ?key" "distinct (concat (map lo_Contents outs))"
    "set (concat (map lo_Contents outs)) = Some ` {k. has_prefix k ?key \<and> objs w (bucket, k) \<noteq> None}" by blast
  let ?f = "\<lambda>key. Option.bind key (\<lambda>k. cut_prefix k pfx)"
  let ?ns = "List.map_filter ?f (concat (map lo_Contents outs))"
  have "length outs \<le> k" using outs(2) w(3) d unfolding s3_fits_def by (meson le_trans)
  from list_pages_up [OF outs(1) this] have "s3_List C (s3_FlatStore bucket pfx) k (d @ ''/'') w =
      (Ok (concat (map (s3_page (s3_FlatStore bucket pfx) bucket) outs)), w')"
    by (simp add: s3_List_def s3_FlatStore_def)
  moreover have "concat (map (s3_page (s3_FlatStore bucket pfx) bucket) outs) = map Inr ?ns"
    by (induction outs) (simp_all add: s3_page_Flat List.map_filter_simps map_filter_append)
  moreover have "distinct ?ns"
    by (rule distinct_map_filter [OF outs(3)]) (auto simp: bind_eq_Some_conv cut_prefix_Some)
  moreover have "n \<in> set ?ns \<longleftrightarrow> store_file n \<and> has_prefix n (d @ ''/'') \<and> s3_tree bucket pfx w n \<noteq> None" for n
  proof -
    have "n \<in> set ?ns \<longleftrightarrow> has_prefix (pfx @ n) ?key \<and> objs w (bucket, pfx @ n) \<noteq> None"
      unfolding in_map_filter outs(4) by (auto simp: bind_eq_Some_conv cut_prefix_Some)
    then show ?thesis using w(2) by (auto simp: s3_own_def s3_tree_def has_prefix_iff)
  qed
  ultimately show ?thesis by auto
qed

lemma own_same: "s3_own bucket pfx w \<Longrightarrow> s3_tree bucket pfx w' = s3_tree bucket pfx w \<Longrightarrow> s3_own bucket pfx w'"
  by (simp add: s3_own_def)

end

section \<open>The backend\<close>

sublocale reliable_s3 \<subseteq> bucket_up: listed_backend L "s3_NewStore L C seeks k (s3_FlatStore bucket pfx)"
  "s3_tree bucket pfx" "\<lambda>w. good w \<and> s3_own bucket pfx w" "s3_List C (s3_FlatStore bucket pfx) k" "s3_fits k bucket pfx"
proof (unfold_locales, goal_cases)
  case (1 n w ro w')
  then show ?case by (rule bucket.open_tree)
next
  case (2 w n ro w')
  then have "s3_openObject C n bucket (pfx @ n) w = (ro, w')"
    by (simp add: s3_NewStore_def s3_Open_def s3_FlatStore_def)
  from 2(1) movesD [OF good_openObject this] own_same [OF _ bucket.open_tree [OF 2(2)]] show ?case by blast
next
  case (3 w n rd w')
  from bucket.open_Ok [OF TrueI 3(2,3)] show ?case .
next
  case (4 w n e w')
  from bucket.open_Err [OF TrueI 4(2-4)] show ?case .
next
  case (5 w n body sz dgst u w')
  from bucket.create_Ok [OF TrueI 5(2,3)] show ?case .
next
  case (6 w n body sz dgst r w')
  from bucket.create_any [OF TrueI 6(2,3)] show ?case .
next
  case (7 w n body sz dgst r w')
  then have "s3_Create L C seeks (s3_FlatStore bucket pfx) n body sz dgst w = (r, w')" by (simp add: s3_NewStore_def)
  with 7(1) have "good w'" using movesD [OF good_Create] by blast
  moreover have "s3_own bucket pfx w'"
    using bucket.create_any [OF TrueI 7(2,3)] 7(1,2) by (auto simp: s3_own_def created_def split: if_splits)
  ultimately show ?case by blast
next
  case (8 w n body sz dgst e w')
  from bucket.create_Exist [OF TrueI 8(2-5)] show ?case .
next
  case (11 ls n w rl w')
  then show ?case by (rule bucket.list_tree)
next
  case (12 ls w n rl w')
  then have "s3_List C (s3_FlatStore bucket pfx) k n w = (rl, w')" by (simp add: s3_NewStore_def)
  from 12(2) movesD [OF good_List this] own_same [OF _ bucket.list_tree [OF 12(1,3)]] show ?case by blast
next
  case (13 w n c)
  then show ?case using openObject_up [of w bucket "pfx @ n" c n]
    by (simp add: s3_NewStore_def s3_Open_def s3_FlatStore_def s3_tree_def)
next
  case (14 w n)
  then show ?case using openObject_missing [of w bucket "pfx @ n" n]
    by (simp add: s3_NewStore_def s3_Open_def s3_FlatStore_def s3_tree_def)
next
  case (15 w n body sz dgst t')
  then have "offers L body sz dgst" "s3_tree bucket pfx w n = None" by (auto simp: created_def offers_def)
  with Create_new 15(1) show ?case by (simp add: s3_NewStore_def)
next
  case (16 w n body sz dgst)
  with Create_taken show ?case by (simp add: s3_NewStore_def)
next
  case (19 w d)
  then show ?case by (intro List_up) auto
qed (simp_all add: s3_NewStore_def)

end
