(* ===== verification/Demo_Bucket.thy ===== *)
theory Demo_Bucket
  imports S3dir_Reliable Demo_Lib
begin

text \<open>
  An object storage none of whose calls fails, as an instance of \<open>reliable_s3\<close>. It delivers one key a page.
  Its digests are those of \<open>demo_lib\<close> with a hexadecimal hash of one byte.
\<close>

section \<open>Digests\<close>

definition byte_pairs :: "string list" where
  "byte_pairs = map (\<lambda>c. [CHR ''0'', c]) ''0123456789abcdef''"

definition byte_hash :: "bytes \<Rightarrow> string" where
  "byte_hash b = byte_pairs ! (length b mod 16)"

definition byte_Validate :: "string \<Rightarrow> gerr option" where
  "byte_Validate d =
     (case cut d '':'' of
        None \<Rightarrow> demo_Validate d
      | Some (a, h) \<Rightarrow>
          if a = ''sha256'' \<and> h \<notin> set byte_pairs then Some (Msg ''invalid checksum digest length'')
          else demo_Validate d)"

definition byte_lib :: oci_lib where
  "byte_lib = demo_lib
     \<lparr>digest_Validate := byte_Validate,
      digest_FromBytes := (\<lambda>b. ''sha256:'' @ byte_hash b),
      digest_Digester := (\<lambda>a b. a @ '':'' @ byte_hash b)\<rparr>"

definition byte_sum :: "string \<Rightarrow> string" where
  "byte_sum h = (case hex_decode h of Inl _ \<Rightarrow> [] | Inr raw \<Rightarrow> base64_encode raw)"

lemma byte_hash_pair: "byte_hash b \<in> set byte_pairs"
  unfolding byte_hash_def by (rule nth_mem) (simp add: byte_pairs_def)

lemma byte_pairs_word: "h \<in> set byte_pairs \<Longrightarrow> demo_word h"
proof -
  have "list_all demo_word byte_pairs" by code_simp
  then show "h \<in> set byte_pairs \<Longrightarrow> demo_word h" unfolding list_all_iff by blast
qed

lemma byte_pairs_hex: "h \<in> set byte_pairs \<Longrightarrow> \<exists>raw. hex_decode h = Inr raw"
proof -
  have "list_all (\<lambda>h. case hex_decode h of Inl _ \<Rightarrow> False | Inr _ \<Rightarrow> True) byte_pairs" by code_simp
  then show "h \<in> set byte_pairs \<Longrightarrow> \<exists>raw. hex_decode h = Inr raw"
    unfolding list_all_iff by (cases "hex_decode h") auto
qed

lemma byte_sum_inj: "g \<in> set byte_pairs \<Longrightarrow> h \<in> set byte_pairs \<Longrightarrow> byte_sum g = byte_sum h \<Longrightarrow> g = h"
proof -
  have "distinct (map byte_sum byte_pairs)" by code_simp
  then show "g \<in> set byte_pairs \<Longrightarrow> h \<in> set byte_pairs \<Longrightarrow> byte_sum g = byte_sum h \<Longrightarrow> g = h"
    by (auto simp: distinct_map dest: inj_onD)
qed

lemma byte_valid:
  "valid_digest byte_lib d \<longleftrightarrow> valid_digest demo_lib d \<and> (\<forall>h. cut d '':'' = Some (''sha256'', h) \<longrightarrow> h \<in> set byte_pairs)"
  by (auto simp: valid_digest_def byte_lib_def byte_Validate_def demo_lib_def split: option.splits)

lemma byte_digest_laws: "digest_laws byte_lib"
proof -
  note demo = demo_digest_laws [unfolded digest_laws_def]
  have "\<exists>a h. digest_Algorithm byte_lib d = Some a \<and> digest_Encoded byte_lib d = Some h \<and>
      digest_seg a \<and> digest_seg h \<and> digest_NewFromEncoded byte_lib a h = d"
    if "digest_Validate byte_lib d = None" for d
  proof -
    from that have "valid_digest demo_lib d" using byte_valid [of d] by (simp add: valid_digest_def)
    then obtain a h where "digest_Algorithm demo_lib d = Some a" "digest_Encoded demo_lib d = Some h"
      "digest_seg a" "digest_seg h" "digest_NewFromEncoded demo_lib a h = d" by (rule digest_parts [OF demo_digest_laws])
    then show ?thesis by (simp add: byte_lib_def)
  qed
  moreover have "digest_Validate byte_lib (digest_FromBytes byte_lib b) = None" for b
  proof -
    have cut: "cut (''sha256:'' @ byte_hash b) '':'' = Some (''sha256'', byte_hash b)"
      using cut_char [of "CHR '':''" "''sha256''" "byte_hash b"] by simp
    have "demo_Validate (''sha256:'' @ byte_hash b) = None"
      unfolding demo_Validate_def cut using demo_sha256_word byte_pairs_word [OF byte_hash_pair] by simp
    with cut byte_hash_pair [of b] show ?thesis by (simp add: byte_lib_def byte_Validate_def)
  qed
  moreover have "\<not> err_is e ErrNotExist \<and> \<not> err_is e ErrExist" if "digest_Validate byte_lib d = Some e" for d e
    using that demo by (auto simp: byte_lib_def byte_Validate_def demo_lib_def split: option.splits prod.splits if_splits)
  moreover have "digest_Validate byte_lib [] \<noteq> None"
    using byte_valid [of "[]"] demo by (simp add: valid_digest_def)
  ultimately show ?thesis unfolding digest_laws_def by (simp add: byte_lib_def demo_lib_def)
qed

lemma byte_hex:
  assumes "valid_digest byte_lib d" "digest_Algorithm byte_lib d = Some ''sha256''" "digest_Encoded byte_lib d = Some h"
  shows "h \<in> set byte_pairs \<and> d = ''sha256:'' @ h"
proof -
  from assms(2,3) have cut: "cut d '':'' = Some (''sha256'', h)"
    by (cases "cut d '':''") (auto simp: byte_lib_def demo_lib_def)
  with assms(1) show ?thesis by (auto simp: byte_valid cut_char_Some)
qed

text \<open>A checksum stands for one digest.\<close>

lemma byte_checksum:
  assumes "valid_digest byte_lib d" "checksum_of byte_lib d csum"
  shows "digest_matches byte_lib d b \<longleftrightarrow> csum = byte_sum (byte_hash b)"
proof -
  from assms(2) obtain h raw where h: "digest_Algorithm byte_lib d = Some ''sha256''" "digest_Encoded byte_lib d = Some h"
    "hex_decode h = Inr raw" "csum = base64_encode raw" by (auto simp: checksum_of_def)
  note d = byte_hex [OF assms(1) h(1,2)]
  have "csum = byte_sum h" using h(3,4) by (simp add: byte_sum_def)
  moreover have "digest_matches byte_lib d b \<longleftrightarrow> byte_hash b = h"
    using h(1) d by (simp add: digest_matches_def byte_lib_def)
  ultimately show ?thesis using byte_sum_inj [OF _ byte_hash_pair, of h b] d by auto
qed

lemmas byte_accepted = byte_checksum [THEN iffD2, OF _ _ refl]

section \<open>The storage\<close>

type_synonym shelf = "((string \<times> string) \<times> bytes) list"

definition shelf_keys :: "shelf \<Rightarrow> string \<Rightarrow> string \<Rightarrow> string list" where
  "shelf_keys w b key = remdups (map snd (filter (\<lambda>(b', k). b' = b \<and> has_prefix k key) (map fst w)))"

definition shelf_page :: "string list \<Rightarrow> nat \<Rightarrow> list_output" where
  "shelf_page keys i =
     \<lparr>lo_Contents = map Some (take 1 (drop i keys)), lo_IsTruncated = Some (Suc i < length keys),
      lo_NextToken = Some (replicate (Suc i) CHR ''x'')\<rparr>"

definition shelf_put :: "put_input \<Rightarrow> (shelf, unit) io" where
  "shelf_put inp w =
     (case snd (pi_Body inp) of
        Some e \<Rightarrow> (Err (Wrap1 ''operation error S3: PutObject'' e), w)
      | None \<Rightarrow>
          if map_of w (pi_Bucket inp, pi_Key inp) \<noteq> None then (Err (HTTPStatus 412), w)
          else if int (length (fst (pi_Body inp))) \<noteq> pi_ContentLength inp \<or>
            (pi_ChecksumSHA256 inp \<noteq> None \<and> pi_ChecksumSHA256 inp \<noteq> Some (byte_sum (byte_hash (fst (pi_Body inp)))))
          then (Err (HTTPStatus 400), w)
          else (Ok (), ((pi_Bucket inp, pi_Key inp), fst (pi_Body inp)) # w))"

definition shelf_s3 :: "shelf s3_client" where
  "shelf_s3 =
     \<lparr>c_HeadObject = (\<lambda>b k w. case map_of w (b, k) of
         None \<Rightarrow> (Err (HTTPStatus 404), w) | Some c \<Rightarrow> (Ok (Some (int (length c)), None), w)),
      c_GetObject = (\<lambda>b k r w. case map_of w (b, k) of None \<Rightarrow> (Err (HTTPStatus 404), w) | Some c \<Rightarrow> (Ok (c, None), w)),
      c_PutObject = shelf_put,
      c_ListObjectsV2 = (\<lambda>b key tok w.
         (Ok (shelf_page (shelf_keys w b key) (case tok of None \<Rightarrow> 0 | Some t \<Rightarrow> length t)), w)),
      c_Ranged = (\<lambda>b k etag w. (case map_of w (b, k) of None \<Rightarrow> [] | Some c \<Rightarrow> c, None)),
      c_CreateTemp = ret (), c_CopyTemp = (\<lambda>_. ret ()), c_SeekTemp = ret ()\<rparr>"

lemma shelf_delivers:
  assumes "i = (case tok of None \<Rightarrow> 0 | Some t \<Rightarrow> length t)" "i \<le> length (shelf_keys w b key) - 1"
  shows "\<exists>outs. delivers shelf_s3 b key tok w outs w \<and> length outs + i \<le> Suc (length (shelf_keys w b key)) \<and>
    concat (map lo_Contents outs) = map Some (drop i (shelf_keys w b key))"
  using assms
proof (induction "length (shelf_keys w b key) - i" arbitrary: i tok rule: less_induct)
  case less
  let ?keys = "shelf_keys w b key"
  have list: "c_ListObjectsV2 shelf_s3 b key tok w = (Ok (shelf_page ?keys i), w)"
    using less.prems(1) by (simp add: shelf_s3_def)
  show ?case
  proof (cases "Suc i < length ?keys")
    case True
    let ?t = "replicate (Suc i) CHR ''x''"
    have "length ?keys - Suc i < length ?keys - i" using True by simp
    moreover have "Suc i = (case Some ?t of None \<Rightarrow> 0 | Some t \<Rightarrow> length t)" "Suc i \<le> length ?keys - 1" using True by simp_all
    ultimately obtain outs where outs: "delivers shelf_s3 b key (Some ?t) w outs w"
      "length outs + Suc i \<le> Suc (length ?keys)" "concat (map lo_Contents outs) = map Some (drop (Suc i) ?keys)"
      using less.hyps [of "Suc i" "Some ?t"] by blast
    have "delivers shelf_s3 b key tok w (shelf_page ?keys i # outs) w"
      using list outs(1) True by (simp add: shelf_page_def)
    moreover have "drop i ?keys = take 1 (drop i ?keys) @ drop (Suc i) ?keys"
      by (metis append_take_drop_id drop_drop plus_1_eq_Suc)
    then have "concat (map lo_Contents (shelf_page ?keys i # outs)) = map Some (drop i ?keys)"
      using outs(3) by (simp add: shelf_page_def) (metis map_append)
    moreover have "length (shelf_page ?keys i # outs) + i \<le> Suc (length ?keys)" using outs(2) by simp
    ultimately show ?thesis by blast
  next
    case False
    then have "delivers shelf_s3 b key tok w [shelf_page ?keys i] w" using list by (simp add: shelf_page_def)
    moreover have "concat (map lo_Contents [shelf_page ?keys i]) = map Some (drop i ?keys)"
      using False by (simp add: shelf_page_def)
    moreover have "length [shelf_page ?keys i] + i \<le> Suc (length ?keys)" using less.prems(2) by simp
    ultimately show ?thesis by blast
  qed
qed

lemma shelf_keys_set: "set (shelf_keys w b key) = {k. has_prefix k key \<and> map_of w (b, k) \<noteq> None}"
  by (force simp: shelf_keys_def map_of_eq_None_iff)

interpretation demo_shelf: s3_service byte_lib shelf_s3 map_of
proof (unfold_locales, goal_cases)
  case 1
  show ?case by (rule byte_digest_laws)
qed (auto simp: shelf_s3_def shelf_put_def ret_def byte_accepted split: option.splits if_splits)

interpretation demo_reliable: reliable_s3 byte_lib shelf_s3 map_of "\<lambda>_. True" "\<lambda>w b key. Suc (length (shelf_keys w b key))"
proof (unfold_locales, goal_cases)
  case (1 d h)
  from byte_pairs_hex [OF conjunct1 [OF byte_hex [OF this]]] show ?case .
next
  case (4 w inp)
  have "pi_ChecksumSHA256 inp = None \<or> pi_ChecksumSHA256 inp = Some (byte_sum (byte_hash (fst (pi_Body inp))))"
  proof (cases "pi_ChecksumSHA256 inp")
    case (Some csum)
    with 4(2) obtain d where d: "valid_digest byte_lib d" "checksum_of byte_lib d csum" "digest_matches byte_lib d (fst (pi_Body inp))"
      by (auto simp: acceptable_def)
    with Some show ?thesis using byte_checksum [OF d(1,2)] by simp
  qed simp
  with 4 show ?case by (auto simp: shelf_s3_def shelf_put_def acceptable_def)
next
  case (5 w inp)
  then show ?case by (auto simp: shelf_s3_def shelf_put_def acceptable_def)
next
  case (9 w b key)
  from shelf_delivers [of 0 None w b key] obtain outs where "delivers shelf_s3 b key None w outs w"
    "length outs \<le> Suc (length (shelf_keys w b key))" "concat (map lo_Contents outs) = map Some (shelf_keys w b key)" by auto
  moreover have "distinct (map Some (shelf_keys w b key))" by (simp add: distinct_map shelf_keys_def)
  moreover have "set (map Some (shelf_keys w b key)) = Some ` {k. has_prefix k key \<and> map_of w (b, k) \<noteq> None}"
    unfolding set_map shelf_keys_set ..
  ultimately show ?case by (intro exI [of _ outs] exI [of _ w]) simp
qed (auto simp: shelf_s3_def ret_def keeps_good_def moves_def)

end
