(* ===== verification/Remote_Properties.thy ===== *)
theory Remote_Properties
  imports Demo_Remote Demo_Bucket
begin

text \<open>The properties of the remote backends, packages s3dir and httpdir.\<close>

context s3_service
begin

lemma s3_backend: "store_backend L (s3_NewStore L C seeks k (s3_FlatStore bucket pfx)) (s3_tree bucket pfx) (\<lambda>_. True)"
  by (rule bucket.store_backend_axioms)

end

context reliable_s3
begin

lemma s3_listed: "listed_backend L (s3_NewStore L C seeks k (s3_FlatStore bucket pfx)) (s3_tree bucket pfx)
    (\<lambda>w. good w \<and> s3_own bucket pfx w) (s3_List C (s3_FlatStore bucket pfx) k) (s3_fits k bucket pfx)"
  by (rule bucket_up.listed_backend_axioms)

end

context http_service
begin

lemma http_backend: "store_backend L (http_NewStore H namer) (\<lambda>_ n. pages (namer n)) (\<lambda>_. True)"
  by (rule web.store_backend_axioms)

end

text \<open>
  C27: \<open>*s3dir.Store\<close> meets the contract of package store on every S3-compatible service, whatever calls
  fail and whether or not a body can seek: an upload creates the complete verified object or nothing,
  never replaces one, and reports an existing one only when there is one. \<open>s3_service.s3_tree objs\<close> is
  what lies under the prefix of the bucket.
\<close>

theorem s3dir_meets_contract:
  assumes "s3_service L C objs"
  shows "store_backend L (s3_NewStore L C seeks k (s3_FlatStore bucket pfx)) (s3_service.s3_tree objs bucket pfx)
    (\<lambda>_. True)"
  by (rule s3_service.s3_backend [OF assms])

theorem s3dir_meets_contract_witness:
  "store_backend demo_lib demo_s3_store (s3_service.s3_tree bk_objs ''bucket'' ''pfx/'') (\<lambda>_. True)"
  unfolding demo_s3_store_def by (rule s3dir_meets_contract [OF demo_bucket.s3_service_axioms])

text \<open>
  On a service whose calls succeed it also lists completely and creates what is new, so that everything
  proved of \<open>listed_backend\<close> holds of it; here on the storage of \<open>Demo_Bucket\<close>.
\<close>

lemma s3dir_shelf_listed:
  "listed_backend byte_lib (s3_NewStore byte_lib shelf_s3 seeks k (s3_FlatStore bucket pfx)) (demo_shelf.s3_tree bucket pfx)
     (\<lambda>w. True \<and> demo_reliable.s3_own bucket pfx w) (s3_List shelf_s3 (s3_FlatStore bucket pfx) k)
     (demo_reliable.s3_fits k bucket pfx)"
  by (rule demo_reliable.s3_listed)

text \<open>
  C28: \<open>*httpdir.Store\<close> meets the contract on a server whose pages do not change, a file being the page at its
  path below the base URL, and refuses every creation as unsupported before anything is sent. What is not
  there is reported as not existing, and nothing else is: a probe that fails gives \<open>fs.ErrNotExist\<close> exactly
  when the answer was a status that means not found, so \<open>HasBlob\<close> is then false without an error and an
  error after any other failure; and the same holds of index.json and oci-layout of the oci-dir.
\<close>

theorem httpdir_meets_contract:
  fixes base :: string
  assumes "http_service H pages url_of"
  defines "B \<equiv> http_NewStore H (http_BaseURLStore base)"
    and "url \<equiv> \<lambda>n. trim_suffix base ''/'' @ ''/'' @ n"
    and "missing \<equiv> \<lambda>e. \<exists>c. err_status e = Some c \<and> h_NotFound H c"
  shows "store_backend L B (\<lambda>_ n. pages (url n)) (\<lambda>_. True) \<and>
    b_Create B n body sz dgst w = (Err (Sentinel ErrUnsupported), w) \<and>
    (h_New H (url n) w = (Ok r, w1) \<and> h_Probe H r w1 = (Err e, w2) \<and> fst (h_Close H r w2) \<noteq> Panic \<longrightarrow>
      (\<exists>e' w'. b_Open B n w = (Err e', w') \<and> (err_is e' ErrNotExist \<longleftrightarrow> missing e) \<and>
        (valid_digest L d \<and> store_BlobPath L d = Ok n \<longrightarrow>
          store_HasBlob L B d w = (if missing e then (Ok False, w') else (Err e', w'))))) \<and>
    (h_New H (url n) w = (Ok r, w1) \<and> h_Probe H r w1 = (Ok (), w2) \<and> h_Metadata H r w2 = Some sz \<longrightarrow>
      (\<exists>rd c. b_Open B n w = (Ok rd, w2) \<and> rd_Size rd = sz \<and> pages (url n) = Some c \<and> sz = int (length c))) \<and>
    (\<forall>(get, page) \<in> {(od_IndexBin, ImageIndexFile), (od_OciLayoutBin, ImageLayoutFile)}.
      h_NewRequest H (url page) = None \<and> h_Do H (url page) w = (Ok (code, answer), w1) \<and> code \<noteq> 200 \<longrightarrow>
      (\<exists>e'. get (http_New L H (http_BaseURL L base)) w = (Err e', w1) \<and> (err_is e' ErrNotExist \<longleftrightarrow> h_NotFound H code)))"
proof -
  note laws = http_service.probe_kind [OF assms(1)] http_service.probe_found [OF assms(1)] http_service.new_url [OF assms(1)]
  have B: "b_Open B n = http_openURL H (url n)"
    by (simp add: B_def url_def http_NewStore_def http_Open_def [abs_def] http_BaseURLStore_def)
  have failed: "\<exists>e' w'. b_Open B n w = (Err e', w') \<and> (err_is e' ErrNotExist \<longleftrightarrow> missing e) \<and>
      (valid_digest L d \<and> store_BlobPath L d = Ok n \<longrightarrow>
        store_HasBlob L B d w = (if missing e then (Ok False, w') else (Err e', w')))"
    if "h_New H (url n) w = (Ok r, w1)" "h_Probe H r w1 = (Err e, w2)" "fst (h_Close H r w2) \<noteq> Panic"
  proof -
    note run = openURL_probe_failed [OF that]
    have "err_is (http_wrapErr H e) ErrNotExist \<longleftrightarrow> missing e"
      using laws(1) [OF that(2)] by (simp add: err_is_wrapErr missing_def)
    with run show ?thesis
      by (auto simp: B store_HasBlob_def store_Blob_def valid_digest_def ebind_def attempt_def ret_def throw_def)
  qed
  have opened: "\<exists>rd c. b_Open B n w = (Ok rd, w2) \<and> rd_Size rd = sz \<and> pages (url n) = Some c \<and> sz = int (length c)"
    if "h_New H (url n) w = (Ok r, w1)" "h_Probe H r w1 = (Ok (), w2)" "h_Metadata H r w2 = Some sz"
  proof -
    from laws(2) [OF that(2)] laws(3) [OF that(1)] obtain c where c: "pages (url n) = Some c" by auto
    with http_service.ranged [OF assms(1) that(3), of c] laws(3) [OF that(1)] openURL_opened [OF that]
    show ?thesis by (simp add: B)
  qed
  have refused: "\<exists>e'. get (http_New L H (http_BaseURL L base)) w = (Err e', w1) \<and> (err_is e' ErrNotExist \<longleftrightarrow> h_NotFound H code)"
    if "(get, page) \<in> {(od_IndexBin, ImageIndexFile), (od_OciLayoutBin, ImageLayoutFile)}"
      "h_NewRequest H (url page) = None \<and> h_Do H (url page) w = (Ok (code, answer), w1) \<and> code \<noteq> 200" for get page
  proof -
    have "get (http_New L H (http_BaseURL L base)) = http_get H (url page)"
      using that(1) by (auto simp: http_New_def http_IndexBin_def http_OciLayoutBin_def http_BaseURL_def url_def Let_def)
    with get_refused [of H "url page" w code answer w1] that(2) show ?thesis by (simp add: err_is_wrapErr)
  qed
  have "store_backend L B (\<lambda>_ n. pages (url n)) (\<lambda>_. True)"
    using http_service.http_backend [OF assms(1), of L "http_BaseURLStore base"]
    by (simp add: B_def url_def http_BaseURLStore_def)
  moreover have "b_Create B n body sz dgst w = (Err (Sentinel ErrUnsupported), w)"
    by (simp add: B_def http_NewStore_def http_Create_def throw_def)
  ultimately show ?thesis using failed opened refused by blast
qed

theorem httpdir_meets_contract_witness:
  "\<exists>e. b_Open (http_NewStore (demo_http :: (unit, string) http_client) (http_BaseURLStore ''http://h/s/'')) ''other'' () = (Err e, ()) \<and>
     err_is e ErrNotExist"
proof -
  have answer: "h_New demo_http (trim_suffix ''http://h/s/'' ''/'' @ ''/'' @ ''other'') () = (Ok ''http://h/s/other'', ())"
    "h_Probe demo_http ''http://h/s/other'' () = (Err (HTTPStatus 404), ())"
    "fst (h_Close demo_http ''http://h/s/other'' ()) \<noteq> Panic"
    "\<exists>c. err_status (HTTPStatus 404) = Some c \<and> h_NotFound (demo_http :: (unit, string) http_client) c"
    by (simp_all add: demo_http_def demo_pages_def ret_def throw_def trim_suffix_def cut_suffix_def has_suffix_def)
  note checked = httpdir_meets_contract [OF demo_web.http_service_axioms, where base = "''http://h/s/''" and n = "''other''" and w = "()"
    and L = demo_lib and d = "[]"]
  from conjunct1 [OF conjunct2 [OF conjunct2 [OF checked]], THEN mp, OF conjI [OF answer(1) conjI [OF answer(2,3)]]] answer(4)
  obtain e w' where "b_Open (http_NewStore (demo_http :: (unit, string) http_client) (http_BaseURLStore ''http://h/s/'')) ''other'' () =
      (Err e, w')" "err_is e ErrNotExist" by blast
  then show ?thesis by (cases w') blast
qed

end
