(* ===== verification/Location.thy ===== *)
theory Location
  imports Go_Strings
begin

text \<open>
  Package ociimagecopy, location.go: the parser of SRC and DST and its checks. \<open>url.Parse\<close> and
  \<open>URL.String\<close> of net/url and the working directory are the record \<open>url_env\<close>, so what is proved
  holds whatever they return. Paths are those of a unix system, where \<open>filepath.FromSlash\<close> and
  \<open>filepath.ToSlash\<close> change nothing.
\<close>

section \<open>The data\<close>

text \<open>The fields of \<open>url.URL\<close> the code reads; \<open>u_User\<close> is nil without user info.\<close>

record url =
  u_Scheme :: string
  u_Opaque :: string
  u_User :: "string option"
  u_Host :: string
  u_Path :: string
  u_ForceQuery :: bool
  u_RawQuery :: string
  u_Fragment :: string

definition file_url :: "string \<Rightarrow> url" where
  "file_url p =
     \<lparr>u_Scheme = ''file'', u_Opaque = [], u_User = None, u_Host = [], u_Path = p, u_ForceQuery = False,
      u_RawQuery = [], u_Fragment = []\<rparr>"

record url_env =
  url_Parse :: "string \<Rightarrow> gerr + url"
  url_String :: "url \<Rightarrow> string"
  os_Getwd :: "gerr + string"

text \<open>\<open>Kind\<close> is an integer type, so a caller can build one that is neither constant.\<close>

datatype kind = KindStore | KindContainersStorage | OtherKind int

record location =
  Kind :: kind
  URL :: "url option"

definition storePrefix :: string where "storePrefix = ''store:''"
definition containersStoragePrefix :: string where "containersStoragePrefix = ''containers-storage:''"

section \<open>Package filepath on unix\<close>

definition filepath_IsAbs :: "string \<Rightarrow> bool" where
  "filepath_IsAbs p = has_prefix p ''/''"

definition filepath_Abs :: "url_env \<Rightarrow> string \<Rightarrow> gerr + string" where
  "filepath_Abs E p =
     (if filepath_IsAbs p then Inr (path_Clean p)
      else case os_Getwd E of Inl e \<Rightarrow> Inl e | Inr wd \<Rightarrow> Inr (path_Join [wd, p]))"

section \<open>The functions\<close>

definition location_String :: "url_env \<Rightarrow> location \<Rightarrow> string" where
  "location_String E l =
     (case Kind l of
        KindContainersStorage \<Rightarrow> containersStoragePrefix
      | KindStore \<Rightarrow>
          (case URL l of
             None \<Rightarrow> storePrefix
           | Some u \<Rightarrow>
               if u_Scheme u = ''file'' then storePrefix @ u_Path u else storePrefix @ url_String E u)
      | OtherKind _ \<Rightarrow> ''invalid location kind'')"

definition invalid_location :: "string \<Rightarrow> gerr" where
  "invalid_location msg = Wrap1 msg (Sentinel ErrInvalidLocation)"

definition location_validate :: "location \<Rightarrow> gerr option" where
  "location_validate l =
     (case Kind l of
        KindContainersStorage \<Rightarrow> None
      | OtherKind _ \<Rightarrow> Some (invalid_location ''unknown kind'')
      | KindStore \<Rightarrow>
          (case URL l of
             None \<Rightarrow> Some (invalid_location ''store location without a URL'')
           | Some u \<Rightarrow>
               if u_Scheme u = ''file'' then
                 (if \<not> filepath_IsAbs (u_Path u) then Some (invalid_location ''path is not absolute'') else None)
               else if u_Scheme u = ''s3'' then
                 (if u_Host u = [] then Some (invalid_location ''no bucket'')
                  else if u_RawQuery u \<noteq> [] \<or> u_Fragment u \<noteq> [] \<or> u_User u \<noteq> None
                  then Some (invalid_location ''query, fragment and user info are not supported'')
                  else None)
               else if u_Scheme u = ''http'' \<or> u_Scheme u = ''https'' then
                 (if u_Host u = [] then Some (invalid_location ''no host'')
                  else if u_RawQuery u \<noteq> [] \<or> u_Fragment u \<noteq> [] \<or> u_ForceQuery u
                  then Some (invalid_location ''query and fragment are not supported'')
                  else None)
               else Some (invalid_location ''unsupported scheme'')))"

definition location_Writable :: "location \<Rightarrow> bool" where
  "location_Writable l =
     (if location_validate l \<noteq> None then False
      else Kind l = KindContainersStorage \<or>
        (case URL l of None \<Rightarrow> False | Some u \<Rightarrow> u_Scheme u = ''file'' \<or> u_Scheme u = ''s3''))"

text \<open>Whether the text after \<open>store:\<close> is a URL: \<open>strings.Cut\<close> leaves the text itself without \<open>://\<close>.\<close>

definition location_isURL :: "string \<Rightarrow> bool" where
  "location_isURL rest =
     (case cut rest ''://'' of
        Some (scheme, _) \<Rightarrow> CHR ''/'' \<notin> set scheme \<and> CHR 92 \<notin> set scheme
      | None \<Rightarrow> False)"

definition location_url :: "url_env \<Rightarrow> string \<Rightarrow> url res" where
  "location_url E rest =
     (if location_isURL rest \<or> has_prefix rest ''file:'' then
        (case url_Parse E rest of
           Inl e \<Rightarrow> Err (WrapN ''parsing'' [Sentinel ErrInvalidLocation, e])
         | Inr u \<Rightarrow>
             if u_Scheme u = ''file'' then
               (if (u_Host u \<noteq> [] \<and> u_Host u \<noteq> ''localhost'') \<or> u_User u \<noteq> None \<or> u_RawQuery u \<noteq> [] \<or>
                    u_Fragment u \<noteq> [] \<or> u_ForceQuery u \<or> u_Opaque u \<noteq> []
                then Err (invalid_location ''a file URL takes only a local absolute path'')
                else Ok (file_url (u_Path u)))
             else Ok u)
      else Ok (file_url rest))"

definition ParseLocation :: "url_env \<Rightarrow> string \<Rightarrow> location res" where
  "ParseLocation E s =
     (if s = containersStoragePrefix then Ok \<lparr>Kind = KindContainersStorage, URL = None\<rparr>
      else if has_prefix s containersStoragePrefix
      then Err (invalid_location ''containers-storage takes no store specification'')
      else
        case cut_prefix s storePrefix of
          None \<Rightarrow> Err (invalid_location ''want store:<path|s3://bucket/prefix|http(s)://host/base>'')
        | Some rest \<Rightarrow>
            if rest = [] then Err (invalid_location ''want store:<path|s3://bucket/prefix|http(s)://host/base>'')
            else
              (case location_url E rest of
                 Err e \<Rightarrow> Err e
               | Panic \<Rightarrow> Panic
               | Ok u \<Rightarrow>
                   (case (if u_Scheme u = ''file'' \<and> u_Path u \<noteq> []
                          then (case filepath_Abs E (u_Path u) of
                                  Inl e \<Rightarrow> Inl e | Inr ap \<Rightarrow> Inr (u\<lparr>u_Path := ap\<rparr>))
                          else Inr u) of
                      Inl e \<Rightarrow> Err (WrapN ''absolute path'' [Sentinel ErrInvalidLocation, e])
                    | Inr u' \<Rightarrow>
                        let l = \<lparr>Kind = KindStore, URL = Some u'\<rparr> in
                        (case location_validate l of Some e \<Rightarrow> Err e | None \<Rightarrow> Ok l))))"

definition s3Location :: "url \<Rightarrow> string \<times> string" where
  "s3Location u =
     (let prefix = trim_char CHR ''/'' (u_Path u)
      in (u_Host u, if prefix \<noteq> [] then prefix @ ''/'' else prefix))"

section \<open>Clean absolute paths\<close>

definition clean_abs :: "string \<Rightarrow> bool" where
  "clean_abs p \<longleftrightarrow> (\<exists>segs. (\<forall>x \<in> set segs. clean_seg x) \<and> p = CHR ''/'' # join_on CHR ''/'' segs)"

lemma clean_abs_rooted: "clean_abs p \<Longrightarrow> filepath_IsAbs p" "clean_abs p \<Longrightarrow> p \<noteq> []"
  by (auto simp: clean_abs_def filepath_IsAbs_def has_prefix_def)

lemma clean_segs_rooted:
  assumes "list_all (\<lambda>x. CHR ''/'' \<notin> set x) xs" "list_all clean_seg acc"
  shows "list_all clean_seg (clean_segs True acc xs)"
  using assms
proof (induction xs arbitrary: acc)
  case Nil
  then show ?case by (simp add: list_all_iff)
next
  case (Cons y ys)
  consider "y = [] \<or> y = ''.''" | "y = ''..''" | "clean_seg y"
    using Cons.prems(1) by (auto simp: clean_seg_def)
  then show ?case
  proof cases
    case 1
    then show ?thesis using Cons by auto
  next
    case 2
    show ?thesis
    proof (cases acc)
      case Nil
      with 2 Cons show ?thesis by simp
    next
      case (Cons a as)
      with Cons.prems have "clean_seg a" "list_all clean_seg as" by simp_all
      moreover from this(1) have "a \<noteq> ''..''" by (simp add: clean_seg_def)
      ultimately show ?thesis using 2 \<open>acc = a # as\<close> Cons.IH Cons.prems(1) by simp
    qed
  next
    case 3
    then have "clean_segs True acc (y # ys) = clean_segs True (y # acc) ys" by (simp add: clean_seg_def)
    with 3 Cons show ?thesis by simp
  qed
qed

lemma Clean_rooted:
  assumes "filepath_IsAbs p" shows "clean_abs (path_Clean p)"
proof -
  have "list_all (\<lambda>x. CHR ''/'' \<notin> set x) (split_on CHR ''/'' p)"
    by (simp add: list_all_iff split_on_parts)
  then have "list_all clean_seg (clean_segs True [] (split_on CHR ''/'' p))"
    using clean_segs_rooted by simp
  moreover have "path_Clean p = CHR ''/'' # join_on CHR ''/'' (clean_segs True [] (split_on CHR ''/'' p))"
    using assms by (simp add: path_Clean_def filepath_IsAbs_def Let_def)
  ultimately show ?thesis unfolding clean_abs_def list_all_iff by blast
qed

lemma split_clean_abs:
  assumes "\<forall>x \<in> set segs. clean_seg x"
  shows "split_on CHR ''/'' (CHR ''/'' # join_on CHR ''/'' segs) = [] # (if segs = [] then [[]] else segs)"
  using assms by (auto simp: split_join clean_seg_def)

lemma Clean_clean_abs: "clean_abs p \<Longrightarrow> path_Clean p = p"
  by (auto simp: clean_abs_def path_Clean_def split_clean_abs clean_segs_clean has_prefix_def simp del: split_on.simps)

lemma clean_abs_no_scheme: "clean_abs p \<Longrightarrow> cut p ''://'' = None"
proof (rule ccontr)
  assume "clean_abs p" and "cut p ''://'' \<noteq> None"
  then obtain segs a b where segs: "\<forall>x \<in> set segs. clean_seg x" "p = CHR ''/'' # join_on CHR ''/'' segs"
    and "cut p ''://'' = Some (a, b)" by (auto simp: clean_abs_def)
  then have "p = (a @ '':'') @ CHR ''/'' # CHR ''/'' # b" using cut_Some [of p "''://''" a b] by simp
  then have "split_on CHR ''/'' p = split_on CHR ''/'' (a @ '':'') @ [] # split_on CHR ''/'' b"
    by (simp only: split_on_concat split_on.simps) simp
  moreover have "split_on CHR ''/'' p = [] # (if segs = [] then [[]] else segs)"
    unfolding segs(2) by (rule split_clean_abs [OF segs(1)])
  moreover obtain y ys where "split_on CHR ''/'' (a @ '':'') = y # ys"
    by (cases "split_on CHR ''/'' (a @ '':'')") auto
  ultimately have "ys @ [] # split_on CHR ''/'' b = (if segs = [] then [[]] else segs)" by simp
  moreover have "split_on CHR ''/'' b \<noteq> []" by simp
  ultimately have "[] \<in> set segs"
    by (cases "segs = []"; cases ys) (auto split: if_splits)
  with segs(1) show False by (auto simp: clean_seg_def)
qed

lemma Abs_clean:
  assumes "filepath_Abs E p = Inr q" "\<And>wd. os_Getwd E = Inr wd \<Longrightarrow> filepath_IsAbs wd"
  shows "clean_abs q"
proof (cases "filepath_IsAbs p")
  case True
  with assms(1) show ?thesis by (auto simp: filepath_Abs_def Clean_rooted)
next
  case False
  with assms(1) obtain wd where wd: "os_Getwd E = Inr wd" and q: "q = path_Join [wd, p]"
    by (auto simp: filepath_Abs_def split: sum.splits)
  have r: "filepath_IsAbs wd" by (rule assms(2) [OF wd])
  then have "filepath_IsAbs (join_on CHR ''/'' (filter (\<lambda>e. e \<noteq> []) [wd, p]))"
    by (auto simp: filepath_IsAbs_def has_prefix_iff)
  moreover have "wd \<noteq> []" using r by (auto simp: filepath_IsAbs_def has_prefix_iff)
  ultimately show ?thesis unfolding q path_Join_def Let_def by (auto intro: Clean_rooted)
qed

section \<open>What the parser guarantees\<close>

lemma location_url_err: "location_url E rest = Err e \<Longrightarrow> err_is e ErrInvalidLocation"
  by (auto simp: location_url_def invalid_location_def split: if_splits sum.splits)

lemma location_url_no_panic: "location_url E rest \<noteq> Panic"
  by (simp add: location_url_def split: sum.splits)

lemma location_url_file:
  "location_url E rest = Ok u \<Longrightarrow> u_Scheme u = ''file'' \<Longrightarrow> \<exists>p. u = file_url p"
  by (auto simp: location_url_def file_url_def split: if_splits sum.splits)

lemma validate_err: "location_validate l = Some e \<Longrightarrow> err_is e ErrInvalidLocation"
  by (auto simp: location_validate_def invalid_location_def split: kind.splits option.splits if_splits)

lemma ParseLocation_err: "ParseLocation E s = Err e \<Longrightarrow> err_is e ErrInvalidLocation"
  by (auto simp: ParseLocation_def invalid_location_def Let_def dest: location_url_err validate_err
      split: if_splits option.splits res.splits sum.splits)

lemma ParseLocation_no_panic: "ParseLocation E s \<noteq> Panic"
  using location_url_no_panic
  by (auto simp: ParseLocation_def Let_def split: option.splits res.splits sum.splits)

lemma ParseLocation_store:
  assumes "ParseLocation E s = Ok l" "Kind l \<noteq> KindContainersStorage"
  obtains rest u where "s = storePrefix @ rest" "rest \<noteq> []" "location_url E rest = Ok u"
    "Kind l = KindStore" "location_validate l = None"
    "(u_Scheme u = ''file'' \<and> u_Path u \<noteq> [] \<and> (\<exists>ap. filepath_Abs E (u_Path u) = Inr ap \<and>
        URL l = Some (u\<lparr>u_Path := ap\<rparr>))) \<or>
     (\<not> (u_Scheme u = ''file'' \<and> u_Path u \<noteq> []) \<and> URL l = Some u)"
  using assms
  by (auto simp: ParseLocation_def Let_def cut_prefix_Some split: if_splits option.splits res.splits sum.splits)

lemma ParseLocation_file:
  assumes "ParseLocation E s = Ok l" "URL l = Some u" "u_Scheme u = ''file''"
    and "\<And>wd. os_Getwd E = Inr wd \<Longrightarrow> filepath_IsAbs wd"
  shows "clean_abs (u_Path u) \<and> l = \<lparr>Kind = KindStore, URL = Some (file_url (u_Path u))\<rparr>"
proof -
  have k: "Kind l \<noteq> KindContainersStorage"
    using assms(1,2) by (auto simp: ParseLocation_def Let_def split: if_splits option.splits res.splits sum.splits)
  from assms(1) k obtain rest v where v: "location_url E rest = Ok v" "Kind l = KindStore" "location_validate l = None"
    "(u_Scheme v = ''file'' \<and> u_Path v \<noteq> [] \<and> (\<exists>ap. filepath_Abs E (u_Path v) = Inr ap \<and>
        URL l = Some (v\<lparr>u_Path := ap\<rparr>))) \<or>
     (\<not> (u_Scheme v = ''file'' \<and> u_Path v \<noteq> []) \<and> URL l = Some v)"
    by (rule ParseLocation_store)
  have scheme: "u_Scheme v = ''file''" using v(4) assms(2,3) by auto
  with location_url_file [OF v(1)] obtain p where p: "v = file_url p" by blast
  have "p \<noteq> []"
  proof
    assume "p = []"
    with p v(2-4) show False
      by (auto simp: file_url_def location_validate_def filepath_IsAbs_def has_prefix_def)
  qed
  with p v(4) scheme obtain ap where "filepath_Abs E p = Inr ap" "URL l = Some (file_url ap)"
    by (auto simp: file_url_def)
  moreover from this(1) assms(4) have "clean_abs ap" by (rule Abs_clean)
  ultimately show ?thesis using assms(2) v(2) by (auto simp: file_url_def intro: location.equality)
qed

lemma ParseLocation_validates: "ParseLocation E s = Ok l \<Longrightarrow> location_validate l = None"
  by (auto simp: ParseLocation_def Let_def location_validate_def [of "\<lparr>Kind = KindContainersStorage, URL = None\<rparr>"]
      split: if_splits option.splits res.splits sum.splits)

text \<open>A file location prints as a text that parses to it.\<close>

lemma ParseLocation_back:
  assumes "clean_abs p"
  shows "ParseLocation E (storePrefix @ p) = Ok \<lparr>Kind = KindStore, URL = Some (file_url p)\<rparr>"
proof -
  have ne: "storePrefix @ p \<noteq> containersStoragePrefix" "\<not> has_prefix (storePrefix @ p) containersStoragePrefix"
    by (auto simp: storePrefix_def containersStoragePrefix_def has_prefix_def)
  have "\<not> has_prefix p ''file:''" using assms by (auto simp: clean_abs_def has_prefix_def)
  then have "location_url E p = Ok (file_url p)"
    using clean_abs_no_scheme [OF assms] by (simp add: location_url_def location_isURL_def)
  moreover have "filepath_Abs E p = Inr p"
    using clean_abs_rooted(1) [OF assms] Clean_clean_abs [OF assms] by (simp add: filepath_Abs_def)
  ultimately show ?thesis
    using ne clean_abs_rooted [OF assms]
    by (simp add: ParseLocation_def Let_def file_url_def location_validate_def)
qed

end
