(* ===== verification/Config.thy ===== *)
theory Config
  imports Go_Strings
begin

text \<open>
  Package ociimagecopy, config.go: the configuration in layers, defaults, file, environment. The host
  (environment variables, directories, files), \<open>json.Unmarshal\<close> into \<open>PartialConfig\<close> and the library
  that decodes the environment are the record \<open>config_env\<close>. A pointer field and a nil slice are \<open>None\<close>.
\<close>

section \<open>The data\<close>

record s3_config =
  s3_Endpoint :: string
  s3_Region :: string
  s3_UsePathStyle :: bool

record config =
  cf_CacheDir :: string
  cf_Registries :: "string list option"
  cf_CompressionLevel :: string
  cf_Concurrency :: int
  cf_S3 :: s3_config

record partial_s3_config =
  p3_Endpoint :: "string option"
  p3_Region :: "string option"
  p3_UsePathStyle :: "bool option"

record partial_config =
  pc_CacheDir :: "string option"
  pc_Registries :: "string list option"
  pc_CompressionLevel :: "string option"
  pc_Concurrency :: "int option"
  pc_S3 :: partial_s3_config

record config_env =
  os_UserCacheDir :: "gerr + string"
  os_UserConfigDir :: "gerr + string"
  os_LookupEnv :: "string \<Rightarrow> string option"
  os_ReadFile :: "string \<Rightarrow> gerr + string"
  json_PartialConfig :: "string \<Rightarrow> gerr + partial_config"
  env_ParseWithOptions :: "string \<Rightarrow> gerr + partial_config"

definition ENV_OCI_IMAGE_COPY_CONF :: string where "ENV_OCI_IMAGE_COPY_CONF = ''OCI_IMAGE_COPY_CONF''"
definition EnvPrefix :: string where "EnvPrefix = ''OCI_IMAGE_COPY_''"
definition defaultConfigDir :: string where "defaultConfigDir = ''oci-image-copy''"

section \<open>The functions\<close>

definition DefaultConfig :: "config_env \<Rightarrow> config" where
  "DefaultConfig E =
     \<lparr>cf_CacheDir = (case os_UserCacheDir E of Inl _ \<Rightarrow> [] | Inr dir \<Rightarrow> path_Join [dir, defaultConfigDir]),
      cf_Registries = None, cf_CompressionLevel = ''best'', cf_Concurrency = 4,
      cf_S3 = \<lparr>s3_Endpoint = [], s3_Region = [], s3_UsePathStyle = False\<rparr>\<rparr>"

definition s3_Apply :: "partial_s3_config \<Rightarrow> s3_config \<Rightarrow> s3_config" where
  "s3_Apply p base =
     (let base = (case p3_Endpoint p of None \<Rightarrow> base | Some x \<Rightarrow> base\<lparr>s3_Endpoint := x\<rparr>);
          base = (case p3_Region p of None \<Rightarrow> base | Some x \<Rightarrow> base\<lparr>s3_Region := x\<rparr>)
      in (case p3_UsePathStyle p of None \<Rightarrow> base | Some x \<Rightarrow> base\<lparr>s3_UsePathStyle := x\<rparr>))"

definition config_Apply :: "partial_config \<Rightarrow> config \<Rightarrow> config" where
  "config_Apply p base =
     (let base = (case pc_CacheDir p of None \<Rightarrow> base | Some x \<Rightarrow> base\<lparr>cf_CacheDir := x\<rparr>);
          base = (case pc_Registries p of None \<Rightarrow> base | Some x \<Rightarrow> base\<lparr>cf_Registries := Some x\<rparr>);
          base = (case pc_CompressionLevel p of None \<Rightarrow> base | Some x \<Rightarrow> base\<lparr>cf_CompressionLevel := x\<rparr>);
          base = (case pc_Concurrency p of None \<Rightarrow> base | Some x \<Rightarrow> base\<lparr>cf_Concurrency := x\<rparr>)
      in base\<lparr>cf_S3 := s3_Apply (pc_S3 p) (cf_S3 base)\<rparr>)"

definition empty_partial :: partial_config where
  "empty_partial =
     \<lparr>pc_CacheDir = None, pc_Registries = None, pc_CompressionLevel = None, pc_Concurrency = None,
      pc_S3 = \<lparr>p3_Endpoint = None, p3_Region = None, p3_UsePathStyle = None\<rparr>\<rparr>"

definition configPath :: "config_env \<Rightarrow> string \<Rightarrow> string res" where
  "configPath E flagPath =
     (if flagPath \<noteq> [] then Ok flagPath
      else case os_LookupEnv E ENV_OCI_IMAGE_COPY_CONF of
        Some p \<Rightarrow> Ok p
      | None \<Rightarrow>
          (case os_UserConfigDir E of
             Inl e \<Rightarrow> Err (WrapN '''' [Sentinel ErrInvalidConfig, e])
           | Inr dir \<Rightarrow> Ok (path_Join [dir, defaultConfigDir, ''config.json''])))"

definition unmarshalConfigFile :: "config_env \<Rightarrow> string \<Rightarrow> partial_config res" where
  "unmarshalConfigFile E path =
     (case os_ReadFile E path of
        Inl e \<Rightarrow>
          if err_is e ErrNotExist then Ok empty_partial
          else Err (WrapN ''read config'' [Sentinel ErrInvalidConfig, e])
      | Inr b \<Rightarrow>
          (case json_PartialConfig E b of
             Inl e \<Rightarrow> Err (WrapN ''parse config'' [Sentinel ErrInvalidConfig, e])
           | Inr p \<Rightarrow> Ok p))"

text \<open>The configuration is returned with the error, as far as it got.\<close>

definition LoadConfig :: "config_env \<Rightarrow> string \<Rightarrow> config \<times> gerr option" where
  "LoadConfig E flagPath =
     (let cfg = DefaultConfig E in
      case configPath E flagPath of
        Ok path \<Rightarrow>
          (case unmarshalConfigFile E path of
             Ok filePartial \<Rightarrow>
               (let cfg = config_Apply filePartial cfg in
                case env_ParseWithOptions E EnvPrefix of
                  Inl e \<Rightarrow> (cfg, Some (WrapN '''' [Sentinel ErrInvalidConfig, e]))
                | Inr envPartial \<Rightarrow> (config_Apply envPartial cfg, None))
           | Err e \<Rightarrow> (cfg, Some e)
           | Panic \<Rightarrow> (cfg, None))
      | Err e \<Rightarrow> (cfg, Some e)
      | Panic \<Rightarrow> (cfg, None))"

section \<open>Layers\<close>

text \<open>The layer of two partial configurations, the upper one first.\<close>

fun or_else :: "'a option \<Rightarrow> 'a option \<Rightarrow> 'a option" where
  "or_else (Some x) y = Some x"
| "or_else None y = y"

fun the_or :: "'a option \<Rightarrow> 'a \<Rightarrow> 'a" where
  "the_or (Some x) d = x"
| "the_or None d = d"

definition overlay :: "partial_config \<Rightarrow> partial_config \<Rightarrow> partial_config" where
  "overlay p q =
     \<lparr>pc_CacheDir = or_else (pc_CacheDir p) (pc_CacheDir q),
      pc_Registries = or_else (pc_Registries p) (pc_Registries q),
      pc_CompressionLevel = or_else (pc_CompressionLevel p) (pc_CompressionLevel q),
      pc_Concurrency = or_else (pc_Concurrency p) (pc_Concurrency q),
      pc_S3 = \<lparr>p3_Endpoint = or_else (p3_Endpoint (pc_S3 p)) (p3_Endpoint (pc_S3 q)),
               p3_Region = or_else (p3_Region (pc_S3 p)) (p3_Region (pc_S3 q)),
               p3_UsePathStyle = or_else (p3_UsePathStyle (pc_S3 p)) (p3_UsePathStyle (pc_S3 q))\<rparr>\<rparr>"

lemma s3_Apply_fields:
  "s3_Apply p b = \<lparr>s3_Endpoint = the_or (p3_Endpoint p) (s3_Endpoint b), s3_Region = the_or (p3_Region p) (s3_Region b),
     s3_UsePathStyle = the_or (p3_UsePathStyle p) (s3_UsePathStyle b)\<rparr>"
  by (rule s3_config.equality) (simp_all add: s3_Apply_def Let_def split: option.split)

lemma config_Apply_fields:
  "config_Apply p b = \<lparr>cf_CacheDir = the_or (pc_CacheDir p) (cf_CacheDir b),
     cf_Registries = or_else (pc_Registries p) (cf_Registries b),
     cf_CompressionLevel = the_or (pc_CompressionLevel p) (cf_CompressionLevel b),
     cf_Concurrency = the_or (pc_Concurrency p) (cf_Concurrency b),
     cf_S3 = s3_Apply (pc_S3 p) (cf_S3 b)\<rparr>"
  by (rule config.equality) (simp_all add: config_Apply_def Let_def split: option.split)

lemma or_else_the [simp]: "the_or (or_else x y) d = the_or x (the_or y d)"
  by (cases x) simp_all

lemma or_else_assoc [simp]: "or_else (or_else x y) z = or_else x (or_else y z)"
  by (cases x) simp_all

lemma or_else_None [simp]: "or_else x None = x"
  by (cases x) simp_all

text \<open>Applying one layer over another is applying both at once.\<close>

lemma config_Apply_overlay: "config_Apply p (config_Apply q b) = config_Apply (overlay p q) b"
  by (simp add: config_Apply_fields overlay_def s3_Apply_fields)

lemma config_Apply_empty: "config_Apply empty_partial b = b"
  by (simp add: config_Apply_fields empty_partial_def s3_Apply_fields)

lemma configPath_cases: "configPath E f \<noteq> Panic" "configPath E f = Err e \<Longrightarrow> err_is e ErrInvalidConfig"
  by (auto simp: configPath_def split: option.splits sum.splits if_splits)

lemma unmarshal_cases:
  "unmarshalConfigFile E f \<noteq> Panic" "unmarshalConfigFile E f = Err e \<Longrightarrow> err_is e ErrInvalidConfig"
  by (auto simp: unmarshalConfigFile_def split: option.splits sum.splits if_splits)

lemma LoadConfig_err: "LoadConfig E f = (cfg, Some e) \<Longrightarrow> err_is e ErrInvalidConfig"
  by (auto simp: LoadConfig_def Let_def dest: configPath_cases(2) unmarshal_cases(2) split: res.splits sum.splits)

lemma LoadConfig_Ok:
  assumes "LoadConfig E f = (cfg, None)"
  obtains path p q where "configPath E f = Ok path" "unmarshalConfigFile E path = Ok q"
    "env_ParseWithOptions E EnvPrefix = Inr p" "cfg = config_Apply (overlay p q) (DefaultConfig E)"
  using assms configPath_cases(1) [of E f] unmarshal_cases(1) [of E]
  by (auto simp: LoadConfig_def Let_def config_Apply_overlay split: res.splits sum.splits)

end
