(* ===== verification/Cstorage.thy ===== *)
theory Cstorage
  imports Push Cache_Interface
begin

text \<open>
  Package cstorage: moving images between a store and containers-storage. The library
  go.podman.io/storage is the record \<open>layer_store\<close> of the methods the code calls. The concurrent
  \<open>transfer.Push\<close> that \<open>keepInStore\<close> starts is an argument: any function whose runs are runs of
  \<open>transfer_Push\<close>.
\<close>

section \<open>The library\<close>

datatype compression = Zstd | OtherCompression

record layer =
  ly_ID :: string
  ly_Parent :: string
  ly_UncompressedDigest :: string
  ly_CompressedDigest :: string
  ly_CompressedSize :: int
  ly_CompressionType :: compression

record layer_options =
  lo_OriginalDigest :: string
  lo_OriginalSize :: int
  lo_UncompressedDigest :: string

record image_record =
  ir_ID :: string
  ir_TopLayer :: string

record big_data =
  bd_Key :: string
  bd_Data :: bytes
  bd_Digest :: string

record image_options =
  io_BigData :: "big_data list"
  io_Metadata :: string
  io_CreationDate :: "string option"

record 'w layer_store =
  ls_Layer :: "string \<Rightarrow> ('w, layer) io"
  ls_PutLayer :: "string \<Rightarrow> string \<Rightarrow> layer_options \<Rightarrow> body \<Rightarrow> ('w, layer) io"
  ls_DeleteLayer :: "string \<Rightarrow> ('w, unit) io"
  ls_Diff :: "string \<Rightarrow> ('w, body) io"
  ls_Image :: "string \<Rightarrow> ('w, image_record) io"
  ls_ImagesByDigest :: "string \<Rightarrow> ('w, image_record list) io"
  ls_ImageBigData :: "string \<Rightarrow> string \<Rightarrow> ('w, bytes) io"
  ls_CreateImage :: "string \<Rightarrow> string \<Rightarrow> image_options \<Rightarrow> ('w, image_record) io"
  ls_SetImageBigData :: "string \<Rightarrow> string \<Rightarrow> bytes \<Rightarrow> ('w, unit) io"
  ls_AddNames :: "string \<Rightarrow> string list \<Rightarrow> ('w, unit) io"
  ls_Shutdown :: "('w, unit) io"

text \<open>
  \<open>Storage\<close> with its options. \<open>st_zstd\<close> is the zstd encoder of klauspost/compress at a level; level 0
  means the default, \<open>zstd.SpeedBestCompression\<close>.
\<close>

record 'w cstorage =
  st_store :: "'w layer_store"
  st_cache :: "'w cache"
  st_Fallback :: "'w source option"
  st_CompressionLevel :: nat
  st_owned :: bool
  st_zstd :: "nat \<Rightarrow> bytes \<Rightarrow> bytes"

definition ImageDigestBigDataKey :: string where "ImageDigestBigDataKey = ''manifest''"
definition ImageDigestManifestBigDataNamePrefix :: string where
  "ImageDigestManifestBigDataNamePrefix = ''manifest''"

definition SpeedBestCompression :: nat where "SpeedBestCompression = 4"

section \<open>cstorage.go\<close>

definition cstorage_New ::
  "'w layer_store \<Rightarrow> 'w cache \<Rightarrow> (nat \<Rightarrow> bytes \<Rightarrow> bytes) \<Rightarrow> ('w source option \<times> nat) option \<Rightarrow> 'w cstorage" where
  "cstorage_New st cache zstd opt =
     \<lparr>st_store = st, st_cache = cache,
      st_Fallback = (case opt of None \<Rightarrow> None | Some (fb, lvl) \<Rightarrow> fb),
      st_CompressionLevel = (case opt of None \<Rightarrow> 0 | Some (fb, lvl) \<Rightarrow> lvl),
      st_owned = False, st_zstd = zstd\<rparr>"

text \<open>\<open>Open\<close>: \<open>default_options\<close> and \<open>get_store\<close> are the calls of the library.\<close>

definition cstorage_Open ::
  "('w, 'o) io \<Rightarrow> ('o \<Rightarrow> ('w, 'w layer_store) io) \<Rightarrow> ('o \<Rightarrow> 'o) option \<Rightarrow> 'w cache \<Rightarrow>
   (nat \<Rightarrow> bytes \<Rightarrow> bytes) \<Rightarrow> ('w source option \<times> nat) option \<Rightarrow> ('w, 'w cstorage) io" where
  "cstorage_Open default_options get_store adjust cache zstd opt =
     ebind default_options (\<lambda>opts.
     ebind (get_store (case adjust of None \<Rightarrow> opts | Some f \<Rightarrow> f opts)) (\<lambda>st.
       ret ((cstorage_New st cache zstd opt)\<lparr>st_owned := True\<rparr>)))"

definition cstorage_zstdLevel :: "'w cstorage \<Rightarrow> nat" where
  "cstorage_zstdLevel s = (if st_CompressionLevel s = 0 then SpeedBestCompression else st_CompressionLevel s)"

definition cstorage_Close :: "'w cstorage \<Rightarrow> ('w, unit) io" where
  "cstorage_Close s = (if \<not> st_owned s then ret () else ls_Shutdown (st_store s))"

text \<open>
  \<open>chainIDs\<close>: \<open>Encoded\<close> panics on a diffID without a colon.
\<close>

fun chainIDs_from :: "oci_lib \<Rightarrow> string option \<Rightarrow> string list \<Rightarrow> string list res" where
  "chainIDs_from L prev [] = Ok []"
| "chainIDs_from L prev (d # ds) =
     (case digest_Encoded L d of
        None \<Rightarrow> Panic
      | Some h \<Rightarrow>
          (case (case prev of
                   None \<Rightarrow> Some h
                 | Some p \<Rightarrow> digest_Encoded L (digest_FromBytes L (p @ ''+'' @ h))) of
             None \<Rightarrow> Panic
           | Some i \<Rightarrow>
               (case chainIDs_from L (Some i) ds of
                  Ok rest \<Rightarrow> Ok (i # rest) | Err e \<Rightarrow> Err e | Panic \<Rightarrow> Panic)))"

definition cstorage_chainIDs :: "oci_lib \<Rightarrow> string list \<Rightarrow> string list res" where
  "cstorage_chainIDs L diffIDs = chainIDs_from L None diffIDs"

section \<open>Reading an image\<close>

definition cstorage_readBlob :: "oci_lib \<Rightarrow> 'w image \<Rightarrow> string \<Rightarrow> ('w, bytes) io" where
  "cstorage_readBlob L img dgst =
     ebind (od_Blobs (im_Dir img) dgst) (\<lambda>r.
     ebind (pure_res (read_all r)) (\<lambda>b.
       if digest_FromBytes L b \<noteq> dgst then throw (Msg ''blob does not match its digest'') else ret b))"

definition unmarshal :: "gerr + 'v \<Rightarrow> ('w, 'v) io" where
  "unmarshal r = (case r of Inl e \<Rightarrow> throw e | Inr v \<Rightarrow> ret v)"

definition cstorage_readImage :: "oci_lib \<Rightarrow> 'w image \<Rightarrow> ('w, manifest \<times> image_config) io" where
  "cstorage_readImage L img =
     ebind (cstorage_readBlob L img (d_Digest (im_Manifest img))) (\<lambda>b.
     ebind (unmarshal (json_Manifest L b)) (\<lambda>m.
     ebind (cstorage_readBlob L img (d_Digest (m_Config m))) (\<lambda>b2.
     ebind (unmarshal (json_Image L b2)) (\<lambda>cfg. ret (m, cfg)))))"

section \<open>Planning a pull\<close>

text \<open>The loop that counts the layers containers-storage has, from the bottom; any error ends it.\<close>

fun present_prefix :: "'w layer_store \<Rightarrow> string list \<Rightarrow> ('w, nat) io" where
  "present_prefix S [] = ret 0"
| "present_prefix S (i # ids) =
     ebind (attempt (ls_Layer S i)) (\<lambda>r.
       case r of
         Inl _ \<Rightarrow> ret 0
       | Inr _ \<Rightarrow> ebind (present_prefix S ids) (\<lambda>k. ret (Suc k)))"

definition cstorage_planEntry ::
  "oci_lib \<Rightarrow> 'w cstorage \<Rightarrow> 'w backend \<Rightarrow> reference \<Rightarrow> platform \<Rightarrow> ('w, 'w entry) io" where
  "cstorage_planEntry L s src ref p =
     ebind (attempt (store_Resolve L src ref p)) (\<lambda>r.
     ebind (case r of
              Inr img \<Rightarrow> ret (img, False)
            | Inl e \<Rightarrow>
                (case st_Fallback s of
                   Some fb \<Rightarrow> if err_is e ErrNotExist then ebind (fb ref p) (\<lambda>img. ret (img, True)) else throw e
                 | None \<Rightarrow> throw e)) (\<lambda>(img, fallback).
     ebind (cstorage_readImage L img) (\<lambda>(m, cfg).
       if length (c_DiffIDs cfg) \<noteq> length (m_Layers m) then throw (Msg ''config lists diffIDs for layers'')
       else
         ebind (pure_res (cstorage_chainIDs L (c_DiffIDs cfg))) (\<lambda>ids.
         ebind (present_prefix (st_store s) ids) (\<lambda>k.
           ret \<lparr>en_Image = img, en_Missing = drop k (m_Layers m), en_Present = take k (m_Layers m),
                en_Fallback = fallback\<rparr>)))))"

fun planPull_images ::
  "oci_lib \<Rightarrow> 'w cstorage \<Rightarrow> 'w backend \<Rightarrow> platform \<Rightarrow> string list \<Rightarrow> 'w plan \<times> gerr list \<Rightarrow>
   ('w, 'w plan \<times> gerr list) io" where
  "planPull_images L s src p [] acc = ret acc"
| "planPull_images L s src p (e # es) (plan, errs) =
     (case types_ParseReference L e of
        Panic \<Rightarrow> pure_res Panic
      | Err err \<Rightarrow> planPull_images L s src p es (plan, errs @ [err])
      | Ok ref \<Rightarrow>
          ebind (attempt (cstorage_planEntry L s src ref p)) (\<lambda>r.
            planPull_images L s src p es
              (case r of
                 Inl err \<Rightarrow> (plan, errs @ [EntryError ref p (Wrap1 ''cstorage: for'' err)])
               | Inr en \<Rightarrow> (plan\<lparr>pl_Entries := pl_Entries plan @ [en]\<rparr>, errs))))"

definition cstorage_PlanPull ::
  "oci_lib \<Rightarrow> 'w cstorage \<Rightarrow> 'w backend \<Rightarrow> string list \<Rightarrow> platform \<Rightarrow> ('w, 'w plan \<times> gerr option) io" where
  "cstorage_PlanPull L s src images p =
     ebind (planPull_images L s src p images (\<lparr>pl_Entries = []\<rparr>, [])) (\<lambda>(plan, errs).
       ret (plan, join_errs errs))"

section \<open>Pulling\<close>

text \<open>\<open>push\<close> is \<open>transfer.Push\<close> into \<open>src\<close>, under some schedule of its goroutines.\<close>

definition cstorage_keepInStore ::
  "oci_lib \<Rightarrow> ('w plan \<Rightarrow> ('w, unit) io) \<Rightarrow> 'w image \<Rightarrow> 'w backend \<Rightarrow> ('w, unit) io" where
  "cstorage_keepInStore L push img src =
     ebind (transfer_Diff L img src) (\<lambda>e.
     ebind (attempt (push \<lparr>pl_Entries = [e]\<rparr>)) (\<lambda>r.
       case r of
         Inl err \<Rightarrow> if err_is err ErrUnsupported then ret () else throw err
       | Inr _ \<Rightarrow> ret ()))"

text \<open>What a report of the cache becomes for the caller's progress.\<close>

definition pull_event :: "'w image \<Rightarrow> descriptor \<Rightarrow> int \<Rightarrow> event" where
  "pull_event img l n =
     \<lparr>ev_Ref = im_Ref img, ev_Platform = im_Platform img, ev_Blob = d_Digest l, ev_Done = n, ev_Total = d_Size l\<rparr>"

definition cstorage_fetch :: "'w cstorage \<Rightarrow> 'w image \<Rightarrow> descriptor \<Rightarrow> ('w, unit) io" where
  "cstorage_fetch s img l =
     ebind (co_Has (st_cache s) (d_Digest l)) (\<lambda>has.
     if has then ret ()
     else ebind (od_Blobs (im_Dir img) (d_Digest l)) (\<lambda>r. co_Fetch (st_cache s) l r))"

definition cstorage_applyLayer ::
  "'w cstorage \<Rightarrow> string \<Rightarrow> string \<Rightarrow> descriptor \<Rightarrow> string \<Rightarrow> ('w, unit) io" where
  "cstorage_applyLayer s i parent l diffID =
     ebind (co_Open (st_cache s) (d_Digest l)) (\<lambda>r.
     ebind (attempt (ls_PutLayer (st_store s) i parent
              \<lparr>lo_OriginalDigest = d_Digest l, lo_OriginalSize = d_Size l, lo_UncompressedDigest = diffID\<rparr>
              (section_body r))) (\<lambda>res.
       case res of
         Inl err \<Rightarrow>
           if err_is err ErrDuplicateID then
             ebind (attempt (ls_Layer (st_store s) i)) (\<lambda>ex.
               case ex of
                 Inl lerr \<Rightarrow> throw (Wrap1 ''applying layer'' (Joined [err, lerr]))
               | Inr existing \<Rightarrow>
                   if ly_UncompressedDigest existing \<noteq> diffID then throw (Wrap1 ''layer exists with diffID'' err)
                   else ret ())
           else throw (Wrap1 ''applying layer'' err)
       | Inr layer \<Rightarrow>
           if ly_UncompressedDigest layer \<noteq> diffID then
             ebind (attempt (ls_DeleteLayer (st_store s) (ly_ID layer))) (\<lambda>_.
               throw (Msg ''layer: diffID, config says''))
           else ret ()))"

text \<open>
  The loop over the layers of the manifest; indexing \<open>ids\<close> or the diffIDs out of range panics. The
  result is the ID of the top layer.
\<close>

fun cstorage_applyAll ::
  "'w cstorage \<Rightarrow> string list \<Rightarrow> string list \<Rightarrow> descriptor list \<Rightarrow> string \<Rightarrow> ('w, string) io" where
  "cstorage_applyAll s ids diffIDs [] parent = ret parent"
| "cstorage_applyAll s [] diffIDs (l # ls) parent = pure_res Panic"
| "cstorage_applyAll s (i # ids) diffIDs (l # ls) parent =
     ebind (attempt (ls_Layer (st_store s) i)) (\<lambda>r.
       case r of
         Inr _ \<Rightarrow> cstorage_applyAll s ids (drop 1 diffIDs) ls i
       | Inl _ \<Rightarrow>
           (case diffIDs of
              [] \<Rightarrow> pure_res Panic
            | d # ds \<Rightarrow> ebind (cstorage_applyLayer s i parent l d) (\<lambda>_. cstorage_applyAll s ids ds ls i)))"

definition image_bigData :: "descriptor \<Rightarrow> manifest \<Rightarrow> bytes \<Rightarrow> bytes \<Rightarrow> big_data list" where
  "image_bigData md m cBytes mBytes =
     [\<lparr>bd_Key = d_Digest (m_Config m), bd_Data = cBytes, bd_Digest = d_Digest (m_Config m)\<rparr>,
      \<lparr>bd_Key = ImageDigestManifestBigDataNamePrefix @ ''-'' @ d_Digest md, bd_Data = mBytes,
       bd_Digest = d_Digest md\<rparr>,
      \<lparr>bd_Key = ImageDigestBigDataKey, bd_Data = mBytes, bd_Digest = d_Digest md\<rparr>]"

definition cstorage_writeImage ::
  "oci_lib \<Rightarrow> 'w cstorage \<Rightarrow> 'w image \<Rightarrow> manifest \<Rightarrow> string \<Rightarrow> ('w, unit) io" where
  "cstorage_writeImage L s img m topl =
     ebind (cstorage_readBlob L img (d_Digest (im_Manifest img))) (\<lambda>mBytes.
     ebind (cstorage_readBlob L img (d_Digest (m_Config m))) (\<lambda>cBytes.
     ebind (unmarshal (json_Image L cBytes)) (\<lambda>cfg.
       let opts = \<lparr>io_BigData = image_bigData (im_Manifest img) m cBytes mBytes, io_Metadata = ''{}'',
                   io_CreationDate = c_Created cfg\<rparr> in
       case digest_Encoded L (d_Digest (m_Config m)) of
         None \<Rightarrow> pure_res Panic
       | Some iid \<Rightarrow>
           ebind (attempt (ls_CreateImage (st_store s) iid topl opts)) (\<lambda>r.
           ebind (case r of
                    Inr rec \<Rightarrow> ret rec
                  | Inl err \<Rightarrow>
                      if err_is err ErrDuplicateID then
                        ebind (ls_Image (st_store s) iid) (\<lambda>rec.
                          if ir_TopLayer rec \<noteq> topl
                          then throw (Wrap1 ''image exists with a different top layer'' (Sentinel ErrDuplicateID))
                          else
                            ebind (for_each (\<lambda>bd. ls_SetImageBigData (st_store s) iid (bd_Key bd) (bd_Data bd))
                                (io_BigData opts)) (\<lambda>_. ret rec))
                      else throw err) (\<lambda>rec.
             ls_AddNames (st_store s) (ir_ID rec) [reference_String (im_Ref img)])))))"

definition cstorage_pullEntry ::
  "oci_lib \<Rightarrow> 'w cstorage \<Rightarrow> ('w plan \<Rightarrow> ('w, unit) io) \<Rightarrow> 'w entry \<Rightarrow> 'w backend \<Rightarrow> ('w, unit) io" where
  "cstorage_pullEntry L s push e src =
     (let img = en_Image e in
      ebind (if en_Fallback e then cstorage_keepInStore L push img src else ret ()) (\<lambda>_.
      ebind (cstorage_readImage L img) (\<lambda>(m, cfg).
      ebind (pure_res (cstorage_chainIDs L (c_DiffIDs cfg))) (\<lambda>ids.
      ebind (for_each (cstorage_fetch s img) (en_Missing e)) (\<lambda>_.
      ebind (cstorage_applyAll s ids (c_DiffIDs cfg) (m_Layers m) []) (\<lambda>parent.
        cstorage_writeImage L s img m parent))))))"

text \<open>One round of \<open>Pull\<close>: the error is the entry's.\<close>

definition cstorage_pullOne ::
  "oci_lib \<Rightarrow> 'w cstorage \<Rightarrow> ('w, unit) io \<Rightarrow> ('w plan \<Rightarrow> ('w, unit) io) \<Rightarrow> 'w backend \<Rightarrow> 'w entry \<Rightarrow>
   ('w, unit) io" where
  "cstorage_pullOne L s ctx_Err push src e =
     (let img = en_Image e in
      ebind (map_err (EntryError (im_Ref img) (im_Platform img)) ctx_Err) (\<lambda>_.
        map_err (\<lambda>err. EntryError (im_Ref img) (im_Platform img) (Wrap1 ''cstorage: pulling'' err))
          (cstorage_pullEntry L s push e src)))"

definition cstorage_Pull ::
  "oci_lib \<Rightarrow> 'w cstorage \<Rightarrow> ('w, unit) io \<Rightarrow> ('w plan \<Rightarrow> ('w, unit) io) \<Rightarrow> 'w plan \<Rightarrow> 'w backend \<Rightarrow>
   ('w, unit) io" where
  "cstorage_Pull L s ctx_Err push p src =
     ebind (collect_errs (cstorage_pullOne L s ctx_Err push src) (pl_Entries p)) (\<lambda>es. raise_opt (join_errs es))"

end
