(* ===== verification/Cstorage_Push.thy ===== *)
theory Cstorage_Push
  imports Cstorage
begin

text \<open>
  Package cstorage, push.go: the images of containers-storage as a source of transfers. A layer whose
  compressed blob the destination or the blob cache holds is taken as it is; another blob of the same
  content is looked up by its diffID; otherwise the layer is compressed into the cache.
\<close>

section \<open>Finding the image\<close>

text \<open>
  The chain grows without bound when a layer is its own ancestor, until the memory (here \<open>k\<close> layers)
  is used up and the program dies.
\<close>

fun layerChain_up :: "'w layer_store \<Rightarrow> nat \<Rightarrow> string \<Rightarrow> layer list \<Rightarrow> ('w, layer list) io" where
  "layerChain_up S k i chain =
     (if i = [] then ret (rev chain)
      else case k of
        0 \<Rightarrow> pure_res Panic
      | Suc k' \<Rightarrow> ebind (ls_Layer S i) (\<lambda>l. layerChain_up S k' (ly_Parent l) (chain @ [l])))"

declare layerChain_up.simps [simp del]

definition cstorage_layerChain :: "'w cstorage \<Rightarrow> nat \<Rightarrow> string \<Rightarrow> ('w, layer list) io" where
  "cstorage_layerChain s k topl = layerChain_up (st_store s) k topl []"

definition cstorage_indexChild :: "oci_lib \<Rightarrow> bytes \<Rightarrow> platform \<Rightarrow> string option" where
  "cstorage_indexChild L b p =
     (case json_Index L b of
        Inl _ \<Rightarrow> None
      | Inr idx \<Rightarrow>
          (case List.find (\<lambda>d. case d_Platform d of None \<Rightarrow> False | Some q \<Rightarrow> platform_Matches p q)
                  (i_Manifests idx) of
             None \<Rightarrow> None | Some d \<Rightarrow> Some (d_Digest d)))"

definition cstorage_platformOf ::
  "oci_lib \<Rightarrow> 'w cstorage \<Rightarrow> image_record \<Rightarrow> bytes \<Rightarrow> platform \<Rightarrow> ('w, bool) io" where
  "cstorage_platformOf L s img manifestBytes p =
     ebind (unmarshal (json_Manifest L manifestBytes)) (\<lambda>m.
       if d_Digest (m_Config m) = [] then ret False
       else
         ebind (ls_ImageBigData (st_store s) (ir_ID img) (d_Digest (m_Config m))) (\<lambda>b.
         ebind (unmarshal (json_Image L b)) (\<lambda>cfg. ret (platform_Matches p (c_Platform cfg)))))"

definition manifestKey :: "string \<Rightarrow> string" where
  "manifestKey d = ImageDigestManifestBigDataNamePrefix @ ''-'' @ d"

text \<open>The loop of \<open>find\<close> over the candidates.\<close>

fun find_candidate ::
  "oci_lib \<Rightarrow> 'w cstorage \<Rightarrow> platform \<Rightarrow> string \<Rightarrow> image_record list \<Rightarrow> ('w, image_record \<times> bytes) io" where
  "find_candidate L s p key [] = throw (Wrap1 ''cstorage: no image for'' (Sentinel ErrNotExist))"
| "find_candidate L s p key (img # imgs) =
     ebind (attempt (ls_ImageBigData (st_store s) (ir_ID img) key)) (\<lambda>r.
       case r of
         Inl _ \<Rightarrow> find_candidate L s p key imgs
       | Inr b0 \<Rightarrow>
           ebind (case cstorage_indexChild L b0 p of
                    None \<Rightarrow> ret (Inr b0)
                  | Some child \<Rightarrow> attempt (ls_ImageBigData (st_store s) (ir_ID img) (manifestKey child))) (\<lambda>r2.
             case r2 of
               Inl _ \<Rightarrow> find_candidate L s p key imgs
             | Inr b \<Rightarrow>
                 ebind (cstorage_platformOf L s img b p) (\<lambda>ok.
                   if ok then ret (img, b) else find_candidate L s p key imgs)))"

definition cstorage_candidates ::
  "'w cstorage \<Rightarrow> reference \<Rightarrow> ('w, image_record list \<times> string) io" where
  "cstorage_candidates s ref =
     (if Digest ref \<noteq> [] then
        ebind (ls_ImagesByDigest (st_store s) (Digest ref)) (\<lambda>imgs.
          if imgs \<noteq> [] then ret (imgs, manifestKey (Digest ref))
          else
            ebind (attempt (ls_Image (st_store s) (reference_String ref))) (\<lambda>r.
              case r of
                Inr img \<Rightarrow> ret ([img], ImageDigestBigDataKey)
              | Inl _ \<Rightarrow> ret ([], manifestKey (Digest ref))))
      else
        ebind (attempt (ls_Image (st_store s) (reference_String ref))) (\<lambda>r.
          case r of
            Inl e \<Rightarrow> throw (WrapN ''cstorage'' [Sentinel ErrNotExist, e])
          | Inr img \<Rightarrow> ret ([img], ImageDigestBigDataKey)))"

definition cstorage_find ::
  "oci_lib \<Rightarrow> 'w cstorage \<Rightarrow> reference \<Rightarrow> platform \<Rightarrow> ('w, image_record \<times> bytes) io" where
  "cstorage_find L s ref p =
     ebind (cstorage_candidates s ref) (\<lambda>(imgs, key). find_candidate L s p key imgs)"

section \<open>The blobs of the layers\<close>

definition compressedMediaType :: "compression \<Rightarrow> string" where
  "compressedMediaType c = (if c = Zstd then MediaTypeImageLayerZstd else MediaTypeImageLayerGzip)"

text \<open>A descriptor of media type, digest and size alone.\<close>

definition blob_desc :: "string \<Rightarrow> string \<Rightarrow> int \<Rightarrow> descriptor" where
  "blob_desc mt d n =
     \<lparr>d_MediaType = mt, d_Digest = d, d_Size = n, d_Annotations = fmempty, d_Platform = None\<rparr>"

definition asIs_candidates :: "descriptor \<Rightarrow> layer \<Rightarrow> descriptor list" where
  "asIs_candidates listed l =
     listed # (if ly_CompressedDigest l \<noteq> [] \<and> ly_CompressedDigest l \<noteq> d_Digest listed
               then [blob_desc (compressedMediaType (ly_CompressionType l)) (ly_CompressedDigest l)
                       (ly_CompressedSize l)]
               else [])"

fun asIs_loop ::
  "oci_lib \<Rightarrow> 'w cstorage \<Rightarrow> 'w backend \<Rightarrow> layer \<Rightarrow> descriptor list \<Rightarrow> ('w, descriptor option) io" where
  "asIs_loop L s dst l [] = ret None"
| "asIs_loop L s dst l (c # cs) =
     (if d_Digest c = ly_UncompressedDigest l then asIs_loop L s dst l cs
      else
        ebind (co_Has (st_cache s) (d_Digest c)) (\<lambda>cached.
        if cached then ret (Some c)
        else
          ebind (store_HasBlob L dst (d_Digest c)) (\<lambda>ok.
          if ok then ret (Some c) else asIs_loop L s dst l cs)))"

definition push_asIs ::
  "oci_lib \<Rightarrow> 'w cstorage \<Rightarrow> 'w backend \<Rightarrow> descriptor \<Rightarrow> layer \<Rightarrow> ('w, descriptor option) io" where
  "push_asIs L s dst listed l = asIs_loop L s dst l (asIs_candidates listed l)"

definition layerMediaType :: "bytes \<Rightarrow> string option" where
  "layerMediaType magic =
     (if has_prefix magic [CHR 0x1f, CHR 0x8b] then Some MediaTypeImageLayerGzip
      else if has_prefix magic [CHR 0x28, CHR 0xb5, CHR 0x2f, CHR 0xfd] then Some MediaTypeImageLayerZstd
      else None)"

text \<open>The first bytes of a blob, as far as they can be read.\<close>

definition read_magic :: "reader \<Rightarrow> bytes" where
  "read_magic r =
     (case rd_Fail r of
        None \<Rightarrow> take 4 (rd_Content r)
      | Some (k, _) \<Rightarrow> take (min 4 k) (rd_Content r))"

fun byDiffID_loop :: "oci_lib \<Rightarrow> 'w backend \<Rightarrow> string list \<Rightarrow> ('w, descriptor option) io" where
  "byDiffID_loop L dst [] = ret None"
| "byDiffID_loop L dst (b # bs) =
     ebind (attempt (store_Blob L dst b)) (\<lambda>r.
       case r of
         Inl e \<Rightarrow> if err_is e ErrNotExist then byDiffID_loop L dst bs else throw e
       | Inr rd \<Rightarrow>
           (case layerMediaType (read_magic rd) of
              None \<Rightarrow> byDiffID_loop L dst bs
            | Some mt \<Rightarrow> ret (Some (blob_desc mt b (rd_Size rd)))))"

definition push_byDiffID ::
  "oci_lib \<Rightarrow> 'w backend \<Rightarrow> string \<Rightarrow> ('w, descriptor option) io" where
  "push_byDiffID L dst diffID =
     ebind (attempt (store_DiffIDBlobs L dst diffID)) (\<lambda>r.
       case r of
         Inl e \<Rightarrow> if err_is e ErrNotListable then ret None else throw e
       | Inr blobs \<Rightarrow> byDiffID_loop L dst blobs)"

text \<open>
  The pipe: what the encoder writes for the bytes of the diff that were read, then the diff's error.
  The digester has hashed the same bytes when \<open>Put\<close> has read the pipe to its end.
\<close>

definition cstorage_exportZstd :: "oci_lib \<Rightarrow> 'w cstorage \<Rightarrow> layer \<Rightarrow> ('w, descriptor) io" where
  "cstorage_exportZstd L s l =
     ebind (map_err (Wrap1 ''cstorage: reading layer'') (ls_Diff (st_store s) (ly_ID l))) (\<lambda>diff.
     ebind (map_err (Wrap1 ''cstorage: compressing layer'')
         (co_Put (st_cache s) MediaTypeImageLayerZstd (st_zstd s (cstorage_zstdLevel s) (fst diff), snd diff))) (\<lambda>desc.
       if digest_FromBytes L (fst diff) \<noteq> ly_UncompressedDigest l
       then throw (Msg ''cstorage: layer diff hashes to, recorded'')
       else ret desc))"

section \<open>Resolving\<close>

text \<open>One round of the loop over the layers: the descriptor, and whether it is the listed blob.\<close>

definition push_layer ::
  "oci_lib \<Rightarrow> 'w cstorage \<Rightarrow> 'w backend \<Rightarrow> descriptor \<Rightarrow> layer \<Rightarrow> ('w, descriptor \<times> bool) io" where
  "push_layer L s dst listed l =
     ebind (push_asIs L s dst listed l) (\<lambda>r.
       case r of
         Some desc \<Rightarrow> ret (desc, d_Digest desc = d_Digest listed)
       | None \<Rightarrow>
           ebind (push_byDiffID L dst (ly_UncompressedDigest l)) (\<lambda>r2.
             case r2 of
               Some desc \<Rightarrow> ret (desc, False)
             | None \<Rightarrow> ebind (cstorage_exportZstd L s l) (\<lambda>desc. ret (desc, False))))"

fun push_layers ::
  "oci_lib \<Rightarrow> 'w cstorage \<Rightarrow> 'w backend \<Rightarrow> descriptor list \<Rightarrow> layer list \<Rightarrow> ('w, descriptor list \<times> bool) io" where
  "push_layers L s dst (m # ms) (l # ls) =
     ebind (push_layer L s dst m l) (\<lambda>(desc, same).
     ebind (push_layers L s dst ms ls) (\<lambda>(descs, asIs). ret (desc # descs, same \<and> asIs)))"
| "push_layers L s dst _ _ = ret ([], True)"

definition push_blobs :: "oci_lib \<Rightarrow> 'w cstorage \<Rightarrow> 'w backend \<Rightarrow> string \<Rightarrow> ('w, reader) io" where
  "push_blobs L s dst d =
     ebind (attempt (co_Open (st_cache s) d)) (\<lambda>r.
       case r of
         Inl e \<Rightarrow> if err_is e ErrNotExist then store_Blob L dst d else throw e
       | Inr rd \<Rightarrow> ret rd)"

definition push_image ::
  "oci_lib \<Rightarrow> 'w cstorage \<Rightarrow> 'w backend \<Rightarrow> reference \<Rightarrow> platform \<Rightarrow> descriptor \<Rightarrow> 'w image" where
  "push_image L s dst ref p md =
     \<lparr>im_Ref = ref, im_Platform = p, im_Manifest = md,
      im_Dir = store_SingleManifestDir L (push_blobs L s dst) p md\<rparr>"

definition pushSource_Resolve ::
  "oci_lib \<Rightarrow> nat \<Rightarrow> 'w cstorage \<Rightarrow> 'w backend \<Rightarrow> 'w source" where
  "pushSource_Resolve L mem s dst ref p =
     ebind (cstorage_find L s ref p) (\<lambda>(rec, storedManifest).
     ebind (map_err (Wrap1 ''cstorage: manifest of'') (unmarshal (json_Manifest L storedManifest))) (\<lambda>m.
     ebind (map_err (Wrap1 ''cstorage: config of'')
         (ls_ImageBigData (st_store s) (ir_ID rec) (d_Digest (m_Config m)))) (\<lambda>cfgBytes.
     ebind (cstorage_layerChain s mem (ir_TopLayer rec)) (\<lambda>chain.
       if length chain \<noteq> length (m_Layers m) then throw (Msg ''cstorage: has layers but its manifest lists'')
       else
         ebind (push_layers L s dst (m_Layers m) chain) (\<lambda>(layers, asIs).
         ebind (co_Put (st_cache s) (d_MediaType (m_Config m)) (bytes_body cfgBytes)) (\<lambda>_.
         ebind (if asIs then ret (m_MediaType m, storedManifest)
                else
                  ebind (unmarshal (marshal_Manifest L
                      \<lparr>m_MediaType = MediaTypeImageManifest,
                       m_Config = (m_Config m)\<lparr>d_MediaType := MediaTypeImageConfig\<rparr>,
                       m_Layers = layers\<rparr>)) (\<lambda>b. ret (MediaTypeImageManifest, b))) (\<lambda>(mediaType, manifestBytes).
         ebind (co_Put (st_cache s) mediaType (bytes_body manifestBytes)) (\<lambda>md.
           ret (push_image L s dst ref p md)))))))))"

definition cstorage_PushSource :: "oci_lib \<Rightarrow> nat \<Rightarrow> 'w cstorage \<Rightarrow> 'w backend \<Rightarrow> 'w source" where
  "cstorage_PushSource L mem s dst = pushSource_Resolve L mem s dst"

end
