(* ===== verification/Imagecopy.thy ===== *)
theory Imagecopy
  imports Location Config Cstorage_Push
begin

text \<open>
  Package ociimagecopy, copy.go, without the opening of stores and caches: the checks of a copy's
  arguments, its result, and how errors of the transfer are put to the entries they belong to.
\<close>

section \<open>Usage errors\<close>

definition IsUsage :: "gerr \<Rightarrow> bool" where
  "IsUsage err \<longleftrightarrow>
     list_ex (err_is err)
       [ErrInvalidLocation, ErrInvalidReference, ErrInvalidPlatform, ErrInvalidConfig,
        ErrUnsupportedDirection, ErrReadOnly]"

text \<open>A loop that parses strings and collects values and errors.\<close>

fun parse_all :: "('a \<Rightarrow> 'b res) \<Rightarrow> (gerr \<Rightarrow> gerr) \<Rightarrow> 'a list \<Rightarrow> ('b list \<times> gerr list) res" where
  "parse_all f wrap [] = Ok ([], [])"
| "parse_all f wrap (s # ss) =
     (case f s of
        Panic \<Rightarrow> Panic
      | r \<Rightarrow>
          (case parse_all f wrap ss of
             Ok (out, errs) \<Rightarrow>
               (case r of
                  Ok p \<Rightarrow> Ok (p # out, errs)
                | Err e \<Rightarrow> Ok (out, WrapN '''' [wrap e, e] # errs)
                | Panic \<Rightarrow> Panic)
           | Err e \<Rightarrow> Err e
           | Panic \<Rightarrow> Panic))"

text \<open>\<open>ParsePlatforms\<close> returns what it could parse along with the error.\<close>

definition ParsePlatforms :: "string list \<Rightarrow> (platform list \<times> gerr option) res" where
  "ParsePlatforms ss =
     (case parse_all types_ParsePlatform (\<lambda>_. Sentinel ErrInvalidPlatform) ss of
        Ok (out, errs) \<Rightarrow> Ok (out, join_errs errs) | Err e \<Rightarrow> Err e | Panic \<Rightarrow> Panic)"

text \<open>\<open>read\<close> is \<open>os.ReadFile\<close> and \<open>dec\<close> decodes an \<open>ImageSetManifest\<close>, of which the images count.\<close>

fun imageSets ::
  "(string \<Rightarrow> gerr + bytes) \<Rightarrow> (bytes \<Rightarrow> gerr + string list) \<Rightarrow> string list \<Rightarrow> string list \<Rightarrow> string list res" where
  "imageSets read dec [] acc = Ok acc"
| "imageSets read dec (p # ps) acc =
     (case read p of
        Inl e \<Rightarrow> Err (WrapN '''' [Sentinel ErrInvalidReference, e])
      | Inr b \<Rightarrow>
          (case dec b of
             Inl e \<Rightarrow> Err (WrapN ''image set'' [Sentinel ErrInvalidReference, e])
           | Inr images \<Rightarrow> imageSets read dec ps (acc @ images)))"

definition ReadImageSet ::
  "(string \<Rightarrow> gerr + bytes) \<Rightarrow> (bytes \<Rightarrow> gerr + string list) \<Rightarrow> string list \<Rightarrow> string list \<Rightarrow> string list res" where
  "ReadImageSet read dec images paths = imageSets read dec paths images"

text \<open>\<open>parseSet\<close>: \<open>seen\<close> holds the printed form of the references.\<close>

fun parseSet_loop ::
  "oci_lib \<Rightarrow> string list \<Rightarrow> reference list \<times> string set \<times> gerr list \<Rightarrow> (reference list \<times> gerr list) res" where
  "parseSet_loop L [] (refs, seen, errs) = Ok (refs, errs)"
| "parseSet_loop L (s # ss) (refs, seen, errs) =
     (case types_ParseReference L s of
        Panic \<Rightarrow> Panic
      | Err e \<Rightarrow> parseSet_loop L ss (refs, seen, errs @ [WrapN '''' [Sentinel ErrInvalidReference, e]])
      | Ok ref \<Rightarrow>
          if reference_String ref \<in> seen then parseSet_loop L ss (refs, seen, errs)
          else parseSet_loop L ss (refs @ [ref], insert (reference_String ref) seen, errs))"

definition parseSet :: "oci_lib \<Rightarrow> string list \<Rightarrow> reference list res" where
  "parseSet L images =
     (if images = [] then Err (Wrap1 ''no images given'' (Sentinel ErrInvalidReference))
      else
        case parseSet_loop L images ([], {}, []) of
          Ok (refs, errs) \<Rightarrow> (case join_errs errs of None \<Rightarrow> Ok refs | Some e \<Rightarrow> Err e)
        | Err e \<Rightarrow> Err e
        | Panic \<Rightarrow> Panic)"

definition checkCopy :: "oci_lib \<Rightarrow> location \<Rightarrow> location \<Rightarrow> string list \<Rightarrow> reference list res" where
  "checkCopy L src dst images =
     (case location_validate src of
        Some e \<Rightarrow> Err e
      | None \<Rightarrow>
          (case location_validate dst of
             Some e \<Rightarrow> Err e
           | None \<Rightarrow>
               let push = (Kind src = KindContainersStorage \<and> Kind dst = KindStore);
                   pull = (Kind src = KindStore \<and> Kind dst = KindContainersStorage)
               in if \<not> push \<and> \<not> pull then Err (Wrap1 ''to'' (Sentinel ErrUnsupportedDirection))
                  else if \<not> location_Writable dst then Err (Wrap1 '''' (Sentinel ErrReadOnly))
                  else parseSet L images))"

definition ValidateCopy :: "oci_lib \<Rightarrow> location \<Rightarrow> location \<Rightarrow> string list \<Rightarrow> gerr option res" where
  "ValidateCopy L src dst images =
     (case checkCopy L src dst images of Ok _ \<Rightarrow> Ok None | Err e \<Rightarrow> Ok (Some e) | Panic \<Rightarrow> Panic)"

section \<open>The result\<close>

record entry_result =
  er_Ref :: reference
  er_Platform :: platform
  er_Manifest :: string
  er_Missing :: int
  er_Present :: int
  er_Fallback :: bool
  er_Err :: "gerr option"

record 'w result =
  rs_Plan :: "'w plan"
  rs_Entries :: "entry_result list"

definition sumSize :: "descriptor list \<Rightarrow> int" where
  "sumSize ds = fold (\<lambda>d n. wrap64 (n + d_Size d)) ds 0"

text \<open>The first unused plan entry for a reference and a platform, with its index.\<close>

fun first_match :: "reference \<Rightarrow> platform \<Rightarrow> nat set \<Rightarrow> nat \<Rightarrow> 'w entry list \<Rightarrow> (nat \<times> 'w entry) option" where
  "first_match ref p used i [] = None"
| "first_match ref p used i (e # es) =
     (if i \<in> used \<or> im_Ref (en_Image e) \<noteq> ref \<or> im_Platform (en_Image e) \<noteq> p
      then first_match ref p used (Suc i) es
      else Some (i, e))"

definition no_entry :: "reference \<Rightarrow> platform \<Rightarrow> entry_result" where
  "no_entry ref p =
     \<lparr>er_Ref = ref, er_Platform = p, er_Manifest = [], er_Missing = 0, er_Present = 0, er_Fallback = False,
      er_Err = None\<rparr>"

definition from_entry :: "'w entry \<Rightarrow> entry_result \<Rightarrow> entry_result" where
  "from_entry e er =
     er\<lparr>er_Manifest := d_Digest (im_Manifest (en_Image e)), er_Missing := sumSize (en_Missing e),
        er_Present := sumSize (en_Present e), er_Fallback := en_Fallback e\<rparr>"

fun result_rows :: "'w entry list \<Rightarrow> nat set \<Rightarrow> (reference \<times> platform) list \<Rightarrow> entry_result list" where
  "result_rows es used [] = []"
| "result_rows es used ((ref, p) # rps) =
     (case first_match ref p used 0 es of
        None \<Rightarrow> no_entry ref p # result_rows es used rps
      | Some (i, e) \<Rightarrow> from_entry e (no_entry ref p) # result_rows es (insert i used) rps)"

text \<open>The two nested loops go through the pairs in this order.\<close>

definition requested :: "reference list \<Rightarrow> platform list \<Rightarrow> (reference \<times> platform) list" where
  "requested refs platforms = List.product refs platforms"

definition newResult :: "reference list \<Rightarrow> platform list \<Rightarrow> 'w plan \<Rightarrow> 'w result" where
  "newResult refs platforms plan =
     \<lparr>rs_Plan = plan, rs_Entries = result_rows (pl_Entries plan) {} (requested refs platforms)\<rparr>"

text \<open>\<open>flatten\<close> splits every error whose \<open>Unwrap\<close> returns a slice.\<close>

fun flatten_err :: "gerr \<Rightarrow> gerr list" where
  "flatten_err (Joined es) = concat (map flatten_err es)"
| "flatten_err (WrapN _ es) = concat (map flatten_err es)"
| "flatten_err e = [e]"

definition flatten :: "gerr option \<Rightarrow> gerr list" where
  "flatten e = (case e of None \<Rightarrow> [] | Some x \<Rightarrow> flatten_err x)"

text \<open>\<open>errors.AsType[*transfer.EntryError]\<close>: the first one in the tree.\<close>

fun as_entry :: "gerr \<Rightarrow> (reference \<times> platform \<times> gerr) option" where
  "as_entry (EntryError r p e) = Some (r, p, e)"
| "as_entry (Wrap1 _ e) = as_entry e"
| "as_entry (WrapN _ es) = fold (\<lambda>x acc. case acc of Some y \<Rightarrow> Some y | None \<Rightarrow> x) (map as_entry es) None"
| "as_entry (Joined es) = fold (\<lambda>x acc. case acc of Some y \<Rightarrow> Some y | None \<Rightarrow> x) (map as_entry es) None"
| "as_entry (UsageError e) = as_entry e"
| "as_entry (Sentinel _) = None"
| "as_entry (Msg _) = None"
| "as_entry (HTTPStatus _) = None"

text \<open>Joining the error to the first row of its reference and platform; \<open>None\<close> when there is none.\<close>

fun join_row :: "reference \<Rightarrow> platform \<Rightarrow> gerr \<Rightarrow> entry_result list \<Rightarrow> entry_result list option" where
  "join_row ref p e [] = None"
| "join_row ref p e (er # ers) =
     (if er_Ref er = ref \<and> er_Platform er = p
      then Some (er\<lparr>er_Err := errors_Join [er_Err er, Some e]\<rparr> # ers)
      else map_option ((#) er) (join_row ref p e ers))"

fun record_all :: "gerr list \<Rightarrow> entry_result list \<times> gerr list \<Rightarrow> entry_result list \<times> gerr list" where
  "record_all [] st = st"
| "record_all (e # es) (rows, rest) =
     record_all es
       (case as_entry e of
          None \<Rightarrow> (rows, rest @ [e])
        | Some (ref, p, e0) \<Rightarrow>
            (case join_row ref p (EntryError ref p e0) rows of
               Some rows' \<Rightarrow> (rows', rest)
             | None \<Rightarrow> (rows, rest @ [EntryError ref p e0])))"

definition result_record :: "'w result \<Rightarrow> gerr option \<Rightarrow> 'w result \<times> gerr option" where
  "result_record r err =
     (case record_all (flatten err) (rs_Entries r, []) of
        (rows, rest) \<Rightarrow> (r\<lparr>rs_Entries := rows\<rparr>, join_errs rest))"

definition result_err :: "'w result \<Rightarrow> gerr option" where
  "result_err r = join_errs (List.map_filter er_Err (rs_Entries r))"

section \<open>After planning\<close>

record 'w copy_option =
  co_Platforms :: "platform list"
  co_DryRun :: bool
  co_Planned :: "('w result \<Rightarrow> ('w, unit) io) option"

text \<open>The planning of a pull goes through the platforms; the errors, nil or not, are joined.\<close>

fun plan_pulls ::
  "oci_lib \<Rightarrow> 'w cstorage \<Rightarrow> 'w backend \<Rightarrow> string list \<Rightarrow> platform list \<Rightarrow> 'w plan \<times> gerr option list \<Rightarrow>
   ('w, 'w plan \<times> gerr option) io" where
  "plan_pulls L cs st images [] (plan, errs) = ret (plan, errors_Join errs)"
| "plan_pulls L cs st images (p # ps) (plan, errs) =
     ebind (cstorage_PlanPull L cs st images p) (\<lambda>(pp, err).
       plan_pulls L cs st images ps
         (plan\<lparr>pl_Entries := pl_Entries plan @ pl_Entries pp\<rparr>, errs @ [err]))"

definition copy_plan ::
  "oci_lib \<Rightarrow> go_runtime \<Rightarrow> nat \<Rightarrow> bool \<Rightarrow> 'w cstorage \<Rightarrow> 'w backend \<Rightarrow> string list \<Rightarrow> platform list \<Rightarrow>
   ('w, 'w plan \<times> gerr option) io" where
  "copy_plan L rt mem push cs st images platforms =
     (if push then transfer_PlanPush L rt (cstorage_PushSource L mem cs st) st images platforms
      else plan_pulls L cs st images platforms (\<lparr>pl_Entries = []\<rparr>, []))"

text \<open>
  The rest of \<open>Copy\<close>: \<open>run\<close> is \<open>transfer.Push\<close> or \<open>cs.Pull\<close> on the plan. The result comes with the error.
\<close>

definition copy_finish ::
  "'w copy_option \<Rightarrow> ('w plan \<Rightarrow> ('w, unit) io) \<Rightarrow> reference list \<Rightarrow> platform list \<Rightarrow> 'w plan \<times> gerr option \<Rightarrow>
   ('w, 'w result \<times> gerr option) io" where
  "copy_finish opt run refs platforms planned =
     (case planned of (plan, planErr) \<Rightarrow>
      case result_record (newResult refs platforms plan) planErr of (res, err) \<Rightarrow>
        if err \<noteq> None then ret (res, err)
        else
          ebind (case co_Planned opt of None \<Rightarrow> ret () | Some f \<Rightarrow> f res) (\<lambda>_.
          if co_DryRun opt then ret (res, result_err res)
          else
            ebind (attempt (run plan)) (\<lambda>r.
              case result_record res (case r of Inl e \<Rightarrow> Some e | Inr _ \<Rightarrow> None) of (res', err') \<Rightarrow>
                if err' \<noteq> None then ret (res', errors_Join [err', result_err res'])
                else ret (res', result_err res'))))"

end
