(* ===== verification/Registry.thy ===== *)
theory Registry
  imports Push Cache_Interface
begin

text \<open>
  Package registry: pulling a single-platform image from a registry into the blob cache. The library
  go.podman.io/image is the record \<open>registry_lib\<close>: \<open>docker.NewReference\<close> with \<open>NewImageSource\<close>, the two
  methods of the image source, and the manifest lists.
\<close>

section \<open>The library\<close>

record 'w image_source =
  is_GetManifest :: "string option \<Rightarrow> ('w, bytes \<times> string) io"
  is_GetBlob :: "string \<Rightarrow> int \<Rightarrow> ('w, body) io"

text \<open>\<open>rg_Instances\<close> lists the instances of a manifest list with what \<open>list.Instance\<close> says of each.\<close>

record 'w registry_lib =
  rg_NewReference :: "named_ref \<Rightarrow> gerr option"
  rg_NewImageSource :: "named_ref \<Rightarrow> ('w, 'w image_source) io"
  rg_IsMultiImage :: "string \<Rightarrow> bool"
  rg_Instances :: "bytes \<Rightarrow> string \<Rightarrow> gerr + (string \<times> (gerr + platform option)) list"

record 'w registry_source =
  rs_cache :: "'w cache"
  rs_Registries :: "string list"

definition registry_New :: "'w cache \<Rightarrow> string list option \<Rightarrow> 'w registry_source" where
  "registry_New cache opt =
     \<lparr>rs_cache = cache, rs_Registries = (case opt of None \<Rightarrow> [] | Some rs \<Rightarrow> rs)\<rparr>"

section \<open>The functions\<close>

definition registry_candidates :: "'w registry_source \<Rightarrow> string \<Rightarrow> string list" where
  "registry_candidates s repository =
     repository #
       (case cut repository ''/'' of
          None \<Rightarrow> []
        | Some (_, path) \<Rightarrow> map (\<lambda>r. trim_suffix r ''/'' @ ''/'' @ path) (rs_Registries s))"

fun registry_matches ::
  "platform \<Rightarrow> (string \<times> (gerr + platform option)) list \<Rightarrow> string list \<Rightarrow> string list res" where
  "registry_matches p [] acc = Ok acc"
| "registry_matches p ((d, info) # ds) acc =
     (case info of
        Inl e \<Rightarrow> Err e
      | Inr None \<Rightarrow> registry_matches p ds acc
      | Inr (Some q) \<Rightarrow> registry_matches p ds (if platform_Matches p q then acc @ [d] else acc))"

definition registry_selectInstance ::
  "'w registry_lib \<Rightarrow> bytes \<Rightarrow> string \<Rightarrow> platform \<Rightarrow> string res" where
  "registry_selectInstance R blob mime p =
     (case rg_Instances R blob mime of
        Inl e \<Rightarrow> Err e
      | Inr list \<Rightarrow>
          (case registry_matches p list [] of
             Ok [] \<Rightarrow> Err (Msg ''no manifest in the index'')
           | Ok [d] \<Rightarrow> Ok d
           | Ok _ \<Rightarrow> Err (Wrap1 ''matches'' (Sentinel ErrAmbiguous))
           | Err e \<Rightarrow> Err e
           | Panic \<Rightarrow> Panic))"

definition MediaTypeDockerConfig :: string where
  "MediaTypeDockerConfig = ''application/vnd.docker.container.image.v1+json''"

definition registry_fetch ::
  "'w registry_source \<Rightarrow> 'w image_source \<Rightarrow> descriptor \<Rightarrow> ('w, bytes) io" where
  "registry_fetch s src d =
     ebind (co_Has (rs_cache s) (d_Digest d)) (\<lambda>has.
     ebind (if has then ret ()
            else
              ebind (is_GetBlob src (d_Digest d) (d_Size d)) (\<lambda>rc.
              ebind (co_Put (rs_cache s) (d_MediaType d) rc) (\<lambda>got.
                if d_Digest got \<noteq> d_Digest d \<or> d_Size got \<noteq> d_Size d
                then throw (Wrap1 ''blob arrived as'' (Sentinel ErrMismatch))
                else ret ()))) (\<lambda>_.
       if d_MediaType d = MediaTypeImageConfig \<or> d_MediaType d = MediaTypeDockerConfig
       then ebind (co_Open (rs_cache s) (d_Digest d)) (\<lambda>r. pure_res (read_all r))
       else ret []))"

definition registry_decode :: "gerr + 'v \<Rightarrow> ('w, 'v) io" where
  "registry_decode r = (case r of Inl e \<Rightarrow> throw e | Inr v \<Rightarrow> ret v)"

definition registry_spec :: "string \<Rightarrow> reference \<Rightarrow> string" where
  "registry_spec repo ref = (if Digest ref \<noteq> [] then repo @ ''@'' @ Digest ref else repo @ '':'' @ Tag ref)"

text \<open>The manifest of the platform, checked against the digest it was asked by.\<close>

definition registry_manifest ::
  "oci_lib \<Rightarrow> 'w registry_lib \<Rightarrow> 'w image_source \<Rightarrow> reference \<Rightarrow> platform \<Rightarrow> ('w, bytes \<times> string) io" where
  "registry_manifest L R src ref p =
     ebind (is_GetManifest src None) (\<lambda>(topl, mime).
       if Digest ref \<noteq> [] \<and> digest_FromBytes L topl \<noteq> Digest ref then throw (Msg ''manifest digest, want'')
       else if rg_IsMultiImage R mime then
         ebind (pure_res (registry_selectInstance R topl mime p)) (\<lambda>instance.
         ebind (is_GetManifest src (Some instance)) (\<lambda>(mb, mt).
           if digest_FromBytes L mb \<noteq> instance then throw (Msg ''manifest digest, want'')
           else ret (mb, mt)))
       else ret (topl, mime))"

definition registry_pull ::
  "oci_lib \<Rightarrow> 'w registry_lib \<Rightarrow> 'w registry_source \<Rightarrow> string \<Rightarrow> reference \<Rightarrow> platform \<Rightarrow> ('w, 'w image) io" where
  "registry_pull L R s repo ref p =
     ebind (registry_decode (ParseNormalizedNamed L (registry_spec repo ref))) (\<lambda>named.
     ebind (raise_opt (rg_NewReference R named)) (\<lambda>_.
     ebind (rg_NewImageSource R named) (\<lambda>src.
     ebind (registry_manifest L R src ref p) (\<lambda>(manifestBytes, manifestMIME).
     ebind (registry_decode (json_Manifest L manifestBytes)) (\<lambda>m.
     ebind (registry_fetch s src (m_Config m)) (\<lambda>cfgBytes.
     ebind (registry_decode (json_Image L cfgBytes)) (\<lambda>cfg.
       if \<not> platform_Matches p (c_Platform cfg) then throw (Msg ''image is, not'')
       else
         ebind (for_each (\<lambda>l. ebind (registry_fetch s src l) (\<lambda>_. ret ())) (m_Layers m)) (\<lambda>_.
         ebind (co_Put (rs_cache s) manifestMIME (bytes_body manifestBytes)) (\<lambda>md.
           ret \<lparr>im_Ref = ref, im_Platform = p, im_Manifest = md,
                im_Dir = store_SingleManifestDir L (co_Open (rs_cache s)) p md\<rparr>)))))))))"

text \<open>The loop over the candidates stops early when the context is done.\<close>

fun registry_try ::
  "oci_lib \<Rightarrow> 'w registry_lib \<Rightarrow> ('w, unit) io \<Rightarrow> 'w registry_source \<Rightarrow> reference \<Rightarrow> platform \<Rightarrow>
   string list \<Rightarrow> gerr list \<Rightarrow> ('w, gerr list + 'w image) io" where
  "registry_try L R ctx_Err s ref p [] errs = ret (Inl errs)"
| "registry_try L R ctx_Err s ref p (repo # repos) errs =
     ebind (attempt (registry_pull L R s repo ref p)) (\<lambda>r.
       case r of
         Inr img \<Rightarrow> ret (Inr img)
       | Inl e \<Rightarrow>
           ebind (attempt ctx_Err) (\<lambda>c.
             case c of
               Inl _ \<Rightarrow> ret (Inl (errs @ [Wrap1 repo e]))
             | Inr _ \<Rightarrow> registry_try L R ctx_Err s ref p repos (errs @ [Wrap1 repo e])))"

definition registry_Resolve ::
  "oci_lib \<Rightarrow> 'w registry_lib \<Rightarrow> ('w, unit) io \<Rightarrow> 'w registry_source \<Rightarrow> 'w source" where
  "registry_Resolve L R ctx_Err s ref p =
     ebind (registry_try L R ctx_Err s ref p (registry_candidates s (Repository ref)) []) (\<lambda>r.
       case r of
         Inr img \<Rightarrow> ret img
       | Inl errs \<Rightarrow> throw (WrapN ''registry'' [Sentinel ErrNotExist, Joined errs]))"

end
