(* ===== verification/Service.thy ===== *)
theory Service
  imports Imagecopy Registry Fsdir S3dir Httpdir
begin

text \<open>
  Package ociimagecopy: the Service and what it does. A service opens the blob cache,
  containers-storage and the S3 client on first use and keeps them until \<open>Close\<close>; its fields are a
  record that every method takes and returns, beside the world of the outside. The methods that use
  the fields hold the service's mutex while they do, so each of them is one step.
\<close>

section \<open>The host\<close>

text \<open>
  What the service calls outside the repository, and \<open>blobcache.New\<close> with the cache's \<open>Close\<close>.
  \<open>'o\<close> is \<open>storage.StoreOptions\<close>, \<open>'f\<close> an open file, \<open>'r\<close> a ranged HTTP reader, \<open>'a\<close> the loaded AWS
  configuration. \<open>ho_encoder\<close> is the zstd encoder of a level, \<open>ho_memory\<close> the memory a layer chain may
  fill, \<open>ho_pages\<close> the number of pages of a listing, \<open>ho_seeks\<close> whether a body is an \<open>io.Seeker\<close>.
\<close>

record ('w, 'o, 'f, 'r, 'a) host =
  ho_lib :: oci_lib
  ho_runtime :: go_runtime
  ho_url :: url_env
  ho_EncoderLevel :: "string \<Rightarrow> nat option"
  ho_encoder :: "nat \<Rightarrow> bytes \<Rightarrow> bytes"
  ho_memory :: nat
  ho_blobcache_New :: "string \<Rightarrow> ('w, 'w cache \<times> ('w, unit) io) io"
  ho_DefaultStoreOptions :: "('w, 'o) io"
  ho_GetStore :: "'o \<Rightarrow> ('w, 'w layer_store) io"
  ho_registry :: "'w registry_lib"
  ho_LoadDefaultConfig :: "string option \<Rightarrow> ('w, 'a) io"
  ho_s3_NewFromConfig :: "'a \<Rightarrow> string option \<Rightarrow> bool \<Rightarrow> 'w s3_client"
  ho_seeks :: "body \<Rightarrow> bool"
  ho_pages :: nat
  ho_MkdirAll :: "string \<Rightarrow> ('w, unit) io"
  ho_Stat :: "string \<Rightarrow> ('w, unit) io"
  ho_osfs_NewRoot :: "string \<Rightarrow> ('w, ('w, 'f) vfs \<times> ('w, unit) io) io"
  ho_memfs_New :: "string \<Rightarrow> ('w, 'f) vfs"
  ho_http :: "('w, 'r) http_client"

text \<open>\<open>Options\<close> and \<open>Service\<close>.\<close>

record ('w, 'o) service_options =
  so_AdjustStorage :: "('o \<Rightarrow> 'o) option"
  so_Fallback :: "'w source option"
  so_S3Client :: "'w s3_client option"

record ('w, 'o) service =
  sv_cfg :: config
  sv_opt :: "('w, 'o) service_options"
  sv_level :: nat
  sv_cache :: "('w cache \<times> ('w, unit) io) option"
  sv_cs :: "'w cstorage option"
  sv_s3 :: "'w s3_client option"

section \<open>Methods of the service\<close>

type_synonym ('w, 'o, 'a) service_io = "(('w, 'o) service \<times> 'w, 'a) io"

definition outside :: "('w, 'a) io \<Rightarrow> ('s \<times> 'w, 'a) io" where
  "outside m sw = (case m (snd sw) of (r, w') \<Rightarrow> (r, (fst sw, w')))"

definition field :: "('s \<Rightarrow> 'a) \<Rightarrow> ('s \<times> 'w, 'a) io" where
  "field f sw = (Ok (f (fst sw)), sw)"

definition assign :: "('s \<Rightarrow> 's) \<Rightarrow> ('s \<times> 'w, unit) io" where
  "assign f sw = (Ok (), (f (fst sw), snd sw))"

definition service_New ::
  "('w, 'o, 'f, 'r, 'a) host \<Rightarrow> config \<Rightarrow> ('w, 'o) service_options option \<Rightarrow> ('w, 'o) service res" where
  "service_New H cfg opt =
     (case ho_EncoderLevel H (cf_CompressionLevel cfg) of
        None \<Rightarrow> Err (Wrap1 ''compression_level'' (Sentinel ErrInvalidConfig))
      | Some level \<Rightarrow>
          if cf_Concurrency cfg < 1 then Err (Wrap1 ''concurrency'' (Sentinel ErrInvalidConfig))
          else Ok \<lparr>sv_cfg = cfg,
                   sv_opt = (case opt of
                      None \<Rightarrow> \<lparr>so_AdjustStorage = None, so_Fallback = None, so_S3Client = None\<rparr>
                    | Some x \<Rightarrow> x),
                   sv_level = level, sv_cache = None, sv_cs = None, sv_s3 = None\<rparr>)"

definition err_of :: "gerr + 'a \<Rightarrow> gerr option" where
  "err_of r = (case r of Inl e \<Rightarrow> Some e | Inr _ \<Rightarrow> None)"

definition service_Close :: "('w, 'o, gerr option) service_io" where
  "service_Close =
     ebind (field sv_cs) (\<lambda>cs.
     ebind (case cs of
              None \<Rightarrow> ret []
            | Some s \<Rightarrow>
                ebind (outside (attempt (cstorage_Close s))) (\<lambda>r.
                ebind (assign (sv_cs_update (\<lambda>_. None))) (\<lambda>_. ret [err_of r]))) (\<lambda>errs.
     ebind (field sv_cache) (\<lambda>cache.
     ebind (case cache of
              None \<Rightarrow> ret errs
            | Some (c, close) \<Rightarrow>
                ebind (outside (attempt close)) (\<lambda>r.
                ebind (assign (sv_cache_update (\<lambda>_. None))) (\<lambda>_. ret (errs @ [err_of r])))) (\<lambda>errs.
       ret (errors_Join errs)))))"

definition service_blobCache :: "('w, 'o, 'f, 'r, 'a) host \<Rightarrow> ('w, 'o, 'w cache) service_io" where
  "service_blobCache H =
     ebind (field sv_cache) (\<lambda>cache.
       case cache of
         Some (c, close) \<Rightarrow> ret c
       | None \<Rightarrow>
           ebind (field (\<lambda>s. cf_CacheDir (sv_cfg s))) (\<lambda>dir.
             if dir = [] then throw (Wrap1 ''cache_dir is empty'' (Sentinel ErrInvalidConfig))
             else
               ebind (outside (map_err (Wrap1 ''opening the blob cache'')
                   (ho_blobcache_New H (path_Join [dir, ''blobcache''])))) (\<lambda>(c, close).
               ebind (assign (sv_cache_update (\<lambda>_. Some (c, close)))) (\<lambda>_. ret c))))"

text \<open>\<open>ctx_Err\<close> is the \<open>Err\<close> method of the context the fallback is called with.\<close>

definition service_containersStorage ::
  "('w, 'o, 'f, 'r, 'a) host \<Rightarrow> ('w, unit) io \<Rightarrow> ('w, 'o, 'w cstorage) service_io" where
  "service_containersStorage H ctx_Err =
     ebind (field sv_cs) (\<lambda>cs.
       case cs of
         Some s \<Rightarrow> ret s
       | None \<Rightarrow>
           ebind (service_blobCache H) (\<lambda>cache.
           ebind (field id) (\<lambda>s.
             let fallback =
                   (case so_Fallback (sv_opt s) of
                      Some f \<Rightarrow> f
                    | None \<Rightarrow>
                        registry_Resolve (ho_lib H) (ho_registry H) ctx_Err
                          (registry_New cache
                             (Some (case cf_Registries (sv_cfg s) of None \<Rightarrow> [] | Some rs \<Rightarrow> rs))))
             in
             ebind (outside (map_err (Wrap1 ''opening containers-storage'')
                 (cstorage_Open (ho_DefaultStoreOptions H) (ho_GetStore H) (so_AdjustStorage (sv_opt s)) cache
                    (ho_encoder H) (Some (Some fallback, sv_level s))))) (\<lambda>cs.
             ebind (assign (sv_cs_update (\<lambda>_. Some cs))) (\<lambda>_. ret cs)))))"

definition service_s3Client :: "('w, 'o, 'f, 'r, 'a) host \<Rightarrow> ('w, 'o, 'w s3_client) service_io" where
  "service_s3Client H =
     ebind (field id) (\<lambda>s.
       case so_S3Client (sv_opt s) of
         Some c \<Rightarrow> ret c
       | None \<Rightarrow>
           (case sv_s3 s of
              Some c \<Rightarrow> ret c
            | None \<Rightarrow>
                let s3 = cf_S3 (sv_cfg s);
                    region = (if s3_Region s3 \<noteq> [] then Some (s3_Region s3) else None);
                    endpoint = (if s3_Endpoint s3 \<noteq> [] then Some (s3_Endpoint s3) else None)
                in
                ebind (outside (map_err (Wrap1 ''loading AWS configuration'') (ho_LoadDefaultConfig H region))) (\<lambda>aws.
                  let c = ho_s3_NewFromConfig H aws endpoint (s3_UsePathStyle s3) in
                  ebind (assign (sv_s3_update (\<lambda>_. Some c))) (\<lambda>_. ret c))))"

datatype openMode = mustExist | create | emptyIfMissing

text \<open>Opening the root of a filesystem store.\<close>

definition open_root ::
  "('w, 'o, 'f, 'r, 'a) host \<Rightarrow> ('w, unit) io \<Rightarrow> string \<Rightarrow> ('w, 'w backend \<times> ('w, unit) io) io" where
  "open_root H ctx_Err dir =
     ebind (map_err (Wrap1 ''opening'') (ho_osfs_NewRoot H dir)) (\<lambda>(root, close).
       ret (fsdir_NewStore (ho_lib H) ctx_Err root, close))"

definition service_openStore ::
  "('w, 'o, 'f, 'r, 'a) host \<Rightarrow> ('w, unit) io \<Rightarrow> location \<Rightarrow> openMode \<Rightarrow>
   ('w, 'o, 'w backend \<times> ('w, unit) io) service_io" where
  "service_openStore H ctx_Err loc mode =
     (case URL loc of
        None \<Rightarrow> pure_res Panic
      | Some u \<Rightarrow>
          if u_Scheme u = ''file'' then
            outside (case mode of
                create \<Rightarrow>
                  ebind (map_err (Wrap1 ''creating'') (ho_MkdirAll H (u_Path u))) (\<lambda>_.
                    open_root H ctx_Err (u_Path u))
              | emptyIfMissing \<Rightarrow>
                  ebind (attempt (ho_Stat H (u_Path u))) (\<lambda>r.
                    case r of
                      Inl e \<Rightarrow>
                        if err_is e ErrNotExist
                        then ret (fsdir_NewStore (ho_lib H) ctx_Err (ho_memfs_New H (u_Path u)), ret ())
                        else open_root H ctx_Err (u_Path u)
                    | Inr _ \<Rightarrow> open_root H ctx_Err (u_Path u))
              | mustExist \<Rightarrow> open_root H ctx_Err (u_Path u))
          else if u_Scheme u = ''s3'' then
            ebind (service_s3Client H) (\<lambda>client.
              case s3Location u of (bucket, pfx) \<Rightarrow>
                ret (s3_NewStore (ho_lib H) client (ho_seeks H) (ho_pages H) (s3_FlatStore bucket pfx), ret ()))
          else ret (http_NewStore (ho_http H) (http_BaseURLStore (url_String (ho_url H) u)), ret ()))"

section \<open>Copy and List\<close>

definition no_result :: "'w result" where
  "no_result = \<lparr>rs_Plan = \<lparr>pl_Entries = []\<rparr>, rs_Entries = []\<rparr>"

definition copy_mode :: "bool \<Rightarrow> bool \<Rightarrow> openMode" where
  "copy_mode push dry = (if push \<and> dry then emptyIfMissing else if push then create else mustExist)"

definition copy_platforms :: "go_runtime \<Rightarrow> platform list \<Rightarrow> platform list" where
  "copy_platforms rt ps = (if ps = [] then [types_HostPlatform rt] else ps)"

text \<open>
  The transfer of a plan: \<open>transfer.Push\<close> into the store, or \<open>cs.Pull\<close> from it. \<open>uploads\<close> is a schedule
  of the goroutines of \<open>transfer.Push\<close> into a store.
\<close>

definition copy_run ::
  "('w, 'o, 'f, 'r, 'a) host \<Rightarrow> ('w, unit) io \<Rightarrow>
   ('w backend \<Rightarrow> 'w plan \<Rightarrow> ('w, gerr list) io) \<Rightarrow> bool \<Rightarrow>
   'w cstorage \<Rightarrow> 'w backend \<Rightarrow> 'w plan \<Rightarrow> ('w, unit) io" where
  "copy_run H ctx_Err uploads push cs st p =
     (if push then push_run (ho_lib H) ctx_Err (uploads st) st p
      else cstorage_Pull (ho_lib H) cs ctx_Err (push_run (ho_lib H) ctx_Err (uploads st) st) p st)"

text \<open>What \<open>Copy\<close> does between opening and closing the store.\<close>

definition copy_transfer ::
  "('w, 'o, 'f, 'r, 'a) host \<Rightarrow> ('w, unit) io \<Rightarrow>
   ('w backend \<Rightarrow> 'w plan \<Rightarrow> ('w, gerr list) io) \<Rightarrow> bool \<Rightarrow>
   'w cstorage \<Rightarrow> 'w backend \<Rightarrow> reference list \<Rightarrow> 'w copy_option \<Rightarrow> ('w, 'w result \<times> gerr option) io" where
  "copy_transfer H ctx_Err uploads push cs st refs opt =
     (let platforms = copy_platforms (ho_runtime H) (co_Platforms opt) in
      ebind (copy_plan (ho_lib H) (ho_runtime H) (ho_memory H) push cs st (map reference_String refs) platforms)
        (copy_finish opt (copy_run H ctx_Err uploads push cs st) refs platforms))"

text \<open>\<open>x, err := m(); if err != nil { return Result{}, err }\<close>\<close>

definition or_return ::
  "('s, 'a) io \<Rightarrow> ('a \<Rightarrow> ('s, 'w result \<times> gerr option) io) \<Rightarrow> ('s, 'w result \<times> gerr option) io" where
  "or_return m f = ebind (attempt m) (\<lambda>r. case r of Inl e \<Rightarrow> ret (no_result, Some e) | Inr x \<Rightarrow> f x)"

definition service_Copy ::
  "('w, 'o, 'f, 'r, 'a) host \<Rightarrow> ('w, unit) io \<Rightarrow> (int \<Rightarrow> 'w backend \<Rightarrow> 'w plan \<Rightarrow> ('w, gerr list) io) \<Rightarrow>
   location \<Rightarrow> location \<Rightarrow> string list \<Rightarrow> 'w copy_option \<Rightarrow> ('w, 'o, 'w result \<times> gerr option) service_io" where
  "service_Copy H ctx_Err uploads src dst images opt =
     or_return (pure_res (checkCopy (ho_lib H) src dst images)) (\<lambda>refs.
       let push = (Kind src = KindContainersStorage) in
       or_return (service_containersStorage H ctx_Err) (\<lambda>cs.
       or_return (service_openStore H ctx_Err (if push then dst else src) (copy_mode push (co_DryRun opt)))
         (\<lambda>(st, closeStore).
           finally_do (outside closeStore)
             (ebind (field (\<lambda>s. cf_Concurrency (sv_cfg s))) (\<lambda>conc.
               outside (copy_transfer H ctx_Err (uploads conc) push cs st refs opt))))))"

text \<open>\<open>List\<close>: everything the iterator yields to a consumer that does not stop.\<close>

definition list_keeps :: "string \<Rightarrow> gerr + 'w image \<Rightarrow> bool" where
  "list_keeps repo x =
     (case x of Inl _ \<Rightarrow> True | Inr img \<Rightarrow> repo = [] \<or> Repository (im_Ref img) = repo)"

definition service_List ::
  "('w, 'o, 'f, 'r, 'a) host \<Rightarrow> ('w, unit) io \<Rightarrow> location \<Rightarrow> string \<Rightarrow> ('w, 'o, (gerr + 'w image) list) service_io" where
  "service_List H ctx_Err loc repo =
     (case location_validate loc of
        Some e \<Rightarrow> ret [Inl e]
      | None \<Rightarrow>
          if Kind loc \<noteq> KindStore \<or>
             (case URL loc of None \<Rightarrow> False | Some u \<Rightarrow> u_Scheme u \<noteq> ''file'' \<and> u_Scheme u \<noteq> ''s3'')
          then ret [Inl (Wrap1 ''cannot be listed'' (Sentinel ErrInvalidLocation))]
          else
            ebind (attempt (service_openStore H ctx_Err loc mustExist)) (\<lambda>r.
              case r of
                Inl e \<Rightarrow> ret [Inl e]
              | Inr (st, closeStore) \<Rightarrow>
                  finally_do (outside closeStore)
                    (ebind (outside (store_Walk (ho_lib H) st)) (\<lambda>xs. ret (filter (list_keeps repo) xs)))))"

end
