(* ===== verification/Imagecopy_Facts.thy ===== *)
theory Imagecopy_Facts
  imports Service Push_Facts
begin

text \<open>
  Facts about package ociimagecopy: which errors are usage errors, how the errors of a transfer reach
  the rows of the result, and what planning without an error has planned.
\<close>

section \<open>Usage errors\<close>

text \<open>The references the parser gives for a list of texts.\<close>

definition parsed :: "oci_lib \<Rightarrow> string list \<Rightarrow> reference set" where
  "parsed L ss = {x. \<exists>s \<in> set ss. types_ParseReference L s = Ok x}"

definition all_parse :: "oci_lib \<Rightarrow> string list \<Rightarrow> bool" where
  "all_parse L ss \<longleftrightarrow> (\<forall>s \<in> set ss. \<exists>x. types_ParseReference L s = Ok x)"

lemma parsed_simps [simp]:
  "parsed L [] = {}" "all_parse L []"
  "types_ParseReference L s = Ok x \<Longrightarrow> parsed L (s # ss) = insert x (parsed L ss)"
  "types_ParseReference L s = Ok x \<Longrightarrow> all_parse L (s # ss) = all_parse L ss"
  "types_ParseReference L s = Err e \<Longrightarrow> parsed L (s # ss) = parsed L ss"
  "types_ParseReference L s = Err e \<Longrightarrow> \<not> all_parse L (s # ss)"
  by (auto simp: parsed_def all_parse_def)

lemma ParseReference_no_panic [simp]: "types_ParseReference L s \<noteq> Panic"
  by (simp add: types_ParseReference_def Let_def split: sum.splits)

lemma parseSet_loop_run:
  assumes "parseSet_loop L ss (refs, seen, errs) = r" "seen = reference_String ` set refs"
    "distinct (map reference_String refs)" "list_all (\<lambda>e. err_is e ErrInvalidReference) errs"
  shows "\<exists>refs' errs'. r = Ok (refs', errs') \<and> distinct (map reference_String refs') \<and>
    list_all (\<lambda>e. err_is e ErrInvalidReference) errs' \<and>
    (errs' = [] \<longleftrightarrow> errs = [] \<and> all_parse L ss) \<and>
    reference_String ` set refs' = reference_String ` (set refs \<union> parsed L ss) \<and>
    set refs' \<subseteq> set refs \<union> parsed L ss"
  using assms
proof (induction L ss "(refs, seen, errs)" arbitrary: refs seen errs rule: parseSet_loop.induct)
  case (1 L refs seen errs)
  then show ?case by auto
next
  case (2 L s ss refs seen errs)
  show ?case
  proof (cases "types_ParseReference L s")
    case (Ok x)
    show ?thesis
    proof (cases "reference_String x \<in> seen")
      case True
      with 2(5) have i: "reference_String x \<in> reference_String ` (set refs \<union> parsed L ss)" by auto
      from 2(1) [OF Ok True _ 2(5-7)] 2(4) Ok True
      show ?thesis by (auto simp: image_insert insert_absorb [OF i])
    next
      case False
      with 2(5,6) have "distinct (map reference_String (refs @ [x]))" by auto
      from 2(2) [OF Ok False _ _ this 2(7)] 2(4,5) Ok False show ?thesis by simp
    qed
  next
    case (Err e)
    from 2(3) [OF Err] 2(4-) Err show ?thesis by simp
  next
    case Panic
    then show ?thesis by simp
  qed
qed

lemma err_is_joined: "join_errs es = Some e \<Longrightarrow> list_all (\<lambda>x. err_is x s) es \<Longrightarrow> err_is e s"
  by (cases es) (auto simp: join_errs_def split: if_splits)

lemma parseSet_Ok:
  assumes "parseSet L images = Ok refs"
  shows "refs \<noteq> [] \<and> distinct (map reference_String refs) \<and> all_parse L images \<and>
    reference_String ` set refs = reference_String ` parsed L images \<and> set refs \<subseteq> parsed L images"
proof -
  from assms have ne: "images \<noteq> []" by (auto simp: parseSet_def)
  from parseSet_loop_run [of L images "[]" "{}" "[]"] obtain refs' errs' where
    run: "parseSet_loop L images ([], {}, []) = Ok (refs', errs')" "distinct (map reference_String refs')"
    "errs' = [] \<longleftrightarrow> all_parse L images"
    "reference_String ` set refs' = reference_String ` parsed L images"
    "set refs' \<subseteq> parsed L images" by auto
  from run(1) assms ne have e: "errs' = []" "refs' = refs" by (auto simp: parseSet_def split: option.splits)
  with run(3) ne have "parsed L images \<noteq> {}" by (cases images) (auto simp: parsed_def all_parse_def)
  with run(4) have "refs' \<noteq> []" by auto
  with run e show ?thesis by simp
qed

lemma parseSet_Err: "parseSet L images = Err e \<Longrightarrow> err_is e ErrInvalidReference"
proof -
  assume run: "parseSet L images = Err e"
  show ?thesis
  proof (cases "images = []")
    case True
    with run show ?thesis by (auto simp: parseSet_def)
  next
    case False
    from parseSet_loop_run [of L images "[]" "{}" "[]"] obtain refs' errs' where
      "parseSet_loop L images ([], {}, []) = Ok (refs', errs')" "list_all (\<lambda>e. err_is e ErrInvalidReference) errs'"
      by auto
    with run False show ?thesis by (auto simp: parseSet_def intro: err_is_joined split: option.splits)
  qed
qed

lemma parseSet_no_panic: "parseSet L images \<noteq> Panic"
  using parseSet_loop_run [of L images "[]" "{}" "[]"] by (auto simp: parseSet_def split: option.splits)

lemma checkCopy_Err: "checkCopy L src dst images = Err e \<Longrightarrow> IsUsage e"
  by (auto simp: checkCopy_def IsUsage_def Let_def dest!: validate_err parseSet_Err
      split: option.splits if_splits)

lemma checkCopy_no_panic: "checkCopy L src dst images \<noteq> Panic"
  using parseSet_no_panic by (auto simp: checkCopy_def Let_def split: option.splits)

lemma checkCopy_Ok:
  assumes "checkCopy L src dst images = Ok refs"
  shows "parseSet L images = Ok refs \<and> location_validate src = None \<and> location_Writable dst \<and>
    (Kind src = KindContainersStorage \<and> Kind dst = KindStore \<or>
     Kind src = KindStore \<and> Kind dst = KindContainersStorage)"
  using assms by (auto simp: checkCopy_def Let_def split: option.splits if_splits)

section \<open>Errors and the rows of the result\<close>

definition row_keys :: "entry_result list \<Rightarrow> (reference \<times> platform) list" where
  "row_keys rows = map (\<lambda>er. (er_Ref er, er_Platform er)) rows"

text \<open>The parts of an error a row or the rest carries.\<close>

lemma join_row_keys: "join_row ref p e rows = Some rows' \<Longrightarrow> row_keys rows' = row_keys rows"
  by (induction rows arbitrary: rows') (auto simp: row_keys_def split: if_splits)

lemma join_row_None: "join_row ref p e rows = None \<longleftrightarrow> (ref, p) \<notin> set (row_keys rows)"
  by (induction rows) (auto simp: row_keys_def)

lemma flatten_leaves: "x \<in> set (flatten_err e) \<Longrightarrow> flatten_err x = [x]"
  by (induction e) auto

lemma flatten_join: "set (flatten (errors_Join [a, Some e])) = set (flatten a) \<union> set (flatten_err e)"
  by (cases a) (auto simp: flatten_def errors_Join_def join_errs_def)

lemma errors_Join_Some_r: "errors_Join [a, Some e] \<noteq> None"
  by (cases a) (auto simp: errors_Join_def List.map_filter_simps)

lemma join_row_errs:
  assumes "join_row ref p e rows = Some rows'"
  shows "(\<exists>er \<in> set rows'. er_Ref er = ref \<and> er_Platform er = p \<and> set (flatten_err e) \<subseteq> set (flatten (er_Err er))) \<and>
    (\<forall>er \<in> set rows. \<exists>er' \<in> set rows'. er_Ref er' = er_Ref er \<and> er_Platform er' = er_Platform er \<and>
       set (flatten (er_Err er)) \<subseteq> set (flatten (er_Err er')) \<and> (er_Err er \<noteq> None \<longrightarrow> er_Err er' \<noteq> None))"
  using assms
proof (induction rows arbitrary: rows')
  case Nil
  then show ?case by simp
next
  case (Cons er rows)
  show ?case
  proof (cases "er_Ref er = ref \<and> er_Platform er = p")
    case True
    with Cons.prems have rows': "rows' = er\<lparr>er_Err := errors_Join [er_Err er, Some e]\<rparr> # rows" by simp
    from True show ?thesis unfolding rows' by (auto simp: flatten_join errors_Join_Some_r)
  next
    case False
    with Cons.prems obtain rows1 where "join_row ref p e rows = Some rows1" "rows' = er # rows1" by auto
    with Cons.IH [OF this(1)] show ?thesis by auto
  qed
qed

text \<open>Recording keeps the keys; an error of the list ends in a row of its key or in the rest.\<close>

definition some_error :: "entry_result list \<times> gerr list \<Rightarrow> bool" where
  "some_error st \<longleftrightarrow> snd st \<noteq> [] \<or> (\<exists>er \<in> set (fst st). er_Err er \<noteq> None)"

fun entry_key :: "gerr \<Rightarrow> (reference \<times> platform) option" where
  "entry_key (EntryError r p e) = Some (r, p)"
| "entry_key e = None"

definition in_row :: "gerr \<Rightarrow> entry_result list \<Rightarrow> bool" where
  "in_row e rows \<longleftrightarrow>
     (\<exists>er \<in> set rows. entry_key e = Some (er_Ref er, er_Platform er) \<and> e \<in> set (flatten (er_Err er)))"

definition carried :: "gerr \<Rightarrow> entry_result list \<times> gerr list \<Rightarrow> bool" where
  "carried e st \<longleftrightarrow>
     (if entry_key e \<in> Some ` set (row_keys (fst st)) then in_row e (fst st) else e \<in> set (snd st))"

lemma entry_key_as [simp]: "as_entry e = None \<Longrightarrow> entry_key e = None"
  by (cases e) auto

lemma in_row_join:
  assumes "join_row r p (EntryError r p e0) rows = Some rows'"
  shows "in_row (EntryError r p e0) rows'" "in_row x rows \<Longrightarrow> in_row x rows'"
proof -
  note j = join_row_errs [OF assms]
  from conjunct1 [OF j] show "in_row (EntryError r p e0) rows'" by (auto simp: in_row_def)
  assume "in_row x rows"
  then obtain er where "er \<in> set rows" "entry_key x = Some (er_Ref er, er_Platform er)"
    "x \<in> set (flatten (er_Err er))" by (auto simp: in_row_def)
  moreover from this(1) conjunct2 [OF j] obtain er' where "er' \<in> set rows'" "er_Ref er' = er_Ref er"
    "er_Platform er' = er_Platform er" "set (flatten (er_Err er)) \<subseteq> set (flatten (er_Err er'))" by blast
  ultimately show "in_row x rows'" unfolding in_row_def by (intro bexI [of _ er']) auto
qed

definition record_one :: "gerr \<Rightarrow> entry_result list \<times> gerr list \<Rightarrow> entry_result list \<times> gerr list" where
  "record_one e st = record_all [e] st"

lemma record_all_Cons: "record_all (e # es) st = record_all es (record_one e st)"
  by (cases st) (simp add: record_one_def)

lemma record_one_cases:
  obtains (Rest) e' where "record_one e (rows, rest) = (rows, rest @ [e'])"
      "as_entry e = None \<and> e' = e \<or>
       (\<exists>r p e0. as_entry e = Some (r, p, e0) \<and> e' = EntryError r p e0 \<and> (r, p) \<notin> set (row_keys rows))"
  | (Row) r p e0 rows' where "record_one e (rows, rest) = (rows', rest)" "as_entry e = Some (r, p, e0)"
      "join_row r p (EntryError r p e0) rows = Some rows'"
proof (cases "as_entry e")
  case None
  then show ?thesis using Rest [of e] by (simp add: record_one_def)
next
  case (Some x)
  then obtain r p e0 where x: "as_entry e = Some (r, p, e0)" by (metis prod_cases3)
  show ?thesis
  proof (cases "join_row r p (EntryError r p e0) rows")
    case None
    with x Rest [of "EntryError r p e0"] join_row_None [of r p _ rows] show ?thesis
      by (simp add: record_one_def)
  next
    case (Some rows')
    with x Row [of rows' r p e0] show ?thesis by (simp add: record_one_def)
  qed
qed

lemma record_one_keys: "row_keys (fst (record_one e st)) = row_keys (fst st)"
proof -
  obtain rows rest where st: "st = (rows, rest)" by fastforce
  show ?thesis by (cases rule: record_one_cases [of e rows rest]) (simp_all add: st join_row_keys)
qed

lemma record_one_error: "some_error (record_one e st)"
proof -
  obtain rows rest where st: "st = (rows, rest)" by fastforce
  show ?thesis
  proof (cases rule: record_one_cases [of e rows rest])
    case (Rest e')
    then show ?thesis by (simp add: st some_error_def)
  next
    case (Row r p e0 rows')
    from join_row_errs [OF Row(3)] obtain er where "er \<in> set rows'" "EntryError r p e0 \<in> set (flatten (er_Err er))"
      by auto
    then have "er_Err er \<noteq> None" by (cases "er_Err er") (simp_all add: flatten_def)
    with \<open>er \<in> set rows'\<close> show ?thesis by (auto simp: st some_error_def Row(1))
  qed
qed

lemma record_one_carried: "carried x st \<Longrightarrow> carried x (record_one e st)"
proof -
  assume c: "carried x st"
  obtain rows rest where st: "st = (rows, rest)" by fastforce
  show ?thesis
  proof (cases rule: record_one_cases [of e rows rest])
    case (Rest e')
    with c show ?thesis by (simp add: st carried_def split: if_splits)
  next
    case (Row r p e0 rows')
    with c in_row_join(2) [OF Row(3)] join_row_keys [OF Row(3)] show ?thesis
      by (simp add: st carried_def split: if_splits)
  qed
qed

lemma record_one_carries:
  "as_entry e = None \<Longrightarrow> carried e (record_one e st)"
  "as_entry e = Some (r, p, e0) \<Longrightarrow> carried (EntryError r p e0) (record_one e st)"
proof -
  obtain rows rest where st: "st = (rows, rest)" by fastforce
  show "as_entry e = None \<Longrightarrow> carried e (record_one e st)"
    by (cases rule: record_one_cases [of e rows rest]) (auto simp: st carried_def)
  assume a: "as_entry e = Some (r, p, e0)"
  show "carried (EntryError r p e0) (record_one e st)"
  proof (cases rule: record_one_cases [of e rows rest])
    case (Rest e')
    with a show ?thesis by (auto simp: st carried_def)
  next
    case (Row r' p' e0' rows')
    moreover have "(r', p') \<in> set (row_keys rows')"
      using Row(3) join_row_keys [OF Row(3)] join_row_None [of r' p' "EntryError r' p' e0'" rows] by simp
    ultimately show ?thesis using a in_row_join(1) [OF Row(3)] by (simp add: st carried_def)
  qed
qed

lemma record_all_run:
  "row_keys (fst (record_all es st)) = row_keys (fst st)"
  "es \<noteq> [] \<or> some_error st \<Longrightarrow> some_error (record_all es st)"
  "carried x st \<Longrightarrow> carried x (record_all es st)"
  "e \<in> set es \<Longrightarrow> as_entry e = None \<Longrightarrow> carried e (record_all es st)"
  "e \<in> set es \<Longrightarrow> as_entry e = Some (r, p, e0) \<Longrightarrow> carried (EntryError r p e0) (record_all es st)"
proof -
  show k: "row_keys (fst (record_all es st)) = row_keys (fst st)" for es st
    by (induction es arbitrary: st) (simp_all add: record_all_Cons record_one_keys)
  show s: "es \<noteq> [] \<or> some_error st \<Longrightarrow> some_error (record_all es st)" for es st
    by (induction es arbitrary: st) (simp_all add: record_all_Cons record_one_error)
  show c: "carried x st \<Longrightarrow> carried x (record_all es st)" for x es st
    by (induction es arbitrary: st) (simp_all add: record_all_Cons record_one_carried)
  show "e \<in> set es \<Longrightarrow> as_entry e = None \<Longrightarrow> carried e (record_all es st)"
  proof (induction es arbitrary: st)
    case (Cons a es)
    show ?case
      using c [OF record_one_carries(1) [OF Cons.prems(2)]] Cons.IH [OF _ Cons.prems(2)] Cons.prems(1)
      unfolding record_all_Cons by (cases "e = a") (simp_all del: split_paired_All)
  qed simp
  show "e \<in> set es \<Longrightarrow> as_entry e = Some (r, p, e0) \<Longrightarrow> carried (EntryError r p e0) (record_all es st)"
  proof (induction es arbitrary: st)
    case (Cons a es)
    show ?case
      using c [OF record_one_carries(2) [OF Cons.prems(2)]] Cons.IH [OF _ Cons.prems(2)] Cons.prems(1)
      unfolding record_all_Cons by (cases "e = a") (simp_all del: split_paired_All)
  qed simp
qed

lemma result_err_None: "result_err r = None \<longleftrightarrow> (\<forall>er \<in> set (rs_Entries r). er_Err er = None)"
proof -
  have "List.map_filter er_Err rows = [] \<longleftrightarrow> (\<forall>er \<in> set rows. er_Err er = None)" for rows
    by (induction rows) (auto simp: List.map_filter_simps split: option.splits)
  then show ?thesis by (simp add: result_err_def)
qed

text \<open>A result on which nothing is reported has recorded nothing.\<close>

lemma result_record_run:
  assumes "result_record r err = (r', rest)"
  shows "row_keys (rs_Entries r') = row_keys (rs_Entries r)" "rs_Plan r' = rs_Plan r"
    "rest = None \<Longrightarrow> result_err r' = None \<Longrightarrow> flatten err = [] \<and> r' = r"
    "e \<in> set (flatten err) \<Longrightarrow> as_entry e = None \<Longrightarrow> e \<in> set (flatten rest)"
    "e \<in> set (flatten err) \<Longrightarrow> as_entry e = Some (ref, p, e0) \<Longrightarrow>
      (if (ref, p) \<in> set (row_keys (rs_Entries r)) then in_row (EntryError ref p e0) (rs_Entries r')
       else EntryError ref p e0 \<in> set (flatten rest))"
proof -
  obtain rows es where run: "record_all (flatten err) (rs_Entries r, []) = (rows, es)" by fastforce
  with assms have r': "r' = r\<lparr>rs_Entries := rows\<rparr>" "rest = join_errs es" by (auto simp: result_record_def)
  show "row_keys (rs_Entries r') = row_keys (rs_Entries r)" "rs_Plan r' = rs_Plan r"
    using record_all_run(1) [of "flatten err" "(rs_Entries r, [])"] by (simp_all add: run r')
  show "flatten err = [] \<and> r' = r" if "rest = None" "result_err r' = None"
  proof -
    have "\<not> some_error (rows, es)" using that by (simp add: r' some_error_def result_err_None)
    with record_all_run(2) [of "flatten err" "(rs_Entries r, [])"] run have "flatten err = []" by auto
    with run show ?thesis by (simp add: r')
  qed
  show "e \<in> set (flatten rest)" if e: "e \<in> set (flatten err)" "as_entry e = None"
  proof -
    from record_all_run(4) [OF e, of "(rs_Entries r, [])"] e(2) run have "e \<in> set es"
      by (simp add: carried_def image_iff)
    moreover have "flatten_err e = [e]" using e(1) flatten_leaves by (auto simp: flatten_def split: option.splits)
    ultimately show ?thesis by (auto simp: r'(2) flatten_def join_errs_def intro!: bexI [of _ e])
  qed
  show "if (ref, p) \<in> set (row_keys (rs_Entries r)) then in_row (EntryError ref p e0) (rs_Entries r')
       else EntryError ref p e0 \<in> set (flatten rest)"
    if e: "e \<in> set (flatten err)" "as_entry e = Some (ref, p, e0)"
  proof -
    from record_all_run(5) [OF e, of "(rs_Entries r, [])"] run
    have "carried (EntryError ref p e0) (rows, es)" by simp
    moreover have "row_keys rows = row_keys (rs_Entries r)"
      using record_all_run(1) [of "flatten err" "(rs_Entries r, [])"] run by simp
    ultimately show ?thesis
      by (auto simp: carried_def r' flatten_def join_errs_def image_iff split: if_splits
          intro!: bexI [of _ "EntryError ref p e0"])
  qed
qed

lemma rows_keys: "row_keys (result_rows es used rps) = rps"
proof (induction rps arbitrary: used)
  case (Cons rp rps)
  then show ?case
    by (cases rp) (auto simp: row_keys_def no_entry_def from_entry_def split: option.splits)
qed (simp add: row_keys_def)

lemma newResult_keys: "row_keys (rs_Entries (newResult refs ps plan)) = List.product refs ps"
  by (simp add: newResult_def requested_def rows_keys)

section \<open>The errors of the transfers\<close>

text \<open>An error that is not split, so \<open>flatten\<close> of a join of such errors gives them back.\<close>

definition plain_error :: "gerr \<Rightarrow> bool" where
  "plain_error e \<longleftrightarrow> flatten_err e = [e]"

lemma plain_errors [simp]:
  "plain_error (EntryError r p e)" "plain_error (Wrap1 m e)" "plain_error (Sentinel s)" "plain_error (Msg m)"
  by (simp_all add: plain_error_def)

lemma flatten_plain: "list_all plain_error es \<Longrightarrow> flatten (join_errs es) = es"
  by (induction es) (auto simp: plain_error_def flatten_def join_errs_def split: if_splits)

lemma ParseReference_plain: "types_ParseReference L s = Err e \<Longrightarrow> plain_error e"
  by (auto simp: types_ParseReference_def Let_def split: sum.splits)

lemma plan_platforms_plain:
  "plan_platforms L src dst ref ps (plan, errs) w = (Ok (plan', errs'), w') \<Longrightarrow> list_all plain_error errs \<Longrightarrow>
     list_all plain_error errs'"
proof (induction ps arbitrary: plan errs w)
  case (Cons p ps)
  from Cons.prems(1) obtain r w1 where r: "plan_entry L src dst ref p w = (Ok r, w1)"
    "plan_platforms L src dst ref ps (case r of Inl e \<Rightarrow> (plan, errs @ [e])
       | Inr en \<Rightarrow> (plan\<lparr>pl_Entries := pl_Entries plan @ [en]\<rparr>, errs)) w1 = (Ok (plan', errs'), w')"
    by (auto simp: ebind_Ok)
  show ?case
  proof (cases r)
    case (Inl e)
    with r(1) have "plain_error e"
      by (auto simp: plan_entry_def ebind_attempt_Ok transfer_entryError_def)
    with Cons.IH [of plan "errs @ [e]" w1] r(2) Cons.prems(2) Inl show ?thesis by simp
  next
    case (Inr en)
    with Cons.IH r(2) Cons.prems(2) show ?thesis by simp
  qed
qed simp

lemma plan_images_plain:
  "plan_images L src dst ps ss (plan, errs) w = (Ok (plan', errs'), w') \<Longrightarrow> list_all plain_error errs \<Longrightarrow>
     list_all plain_error errs'"
proof (induction ss arbitrary: plan errs w)
  case (Cons s ss)
  show ?case
  proof (cases "types_ParseReference L s")
    case (Ok ref)
    with Cons.prems(1) obtain st w1 where st: "plan_platforms L src dst ref ps (plan, errs) w = (Ok st, w1)"
      "plan_images L src dst ps ss st w1 = (Ok (plan', errs'), w')" by (auto simp: ebind_Ok)
    obtain plan1 errs1 where "st = (plan1, errs1)" by fastforce
    with st plan_platforms_plain [of L src dst ref ps plan errs w plan1 errs1 w1] Cons.IH [of plan1 errs1 w1]
      Cons.prems(2) show ?thesis by simp
  next
    case (Err e)
    with Cons.IH [of plan "errs @ [e]" w] Cons.prems ParseReference_plain [OF Err] show ?thesis by simp
  qed simp
qed simp

lemma PlanPush_plain:
  assumes "transfer_PlanPush L rt src dst images ps w = (Ok (plan, err), w')"
  shows "err = None \<longleftrightarrow> flatten err = []"
proof -
  from assms obtain errs where "plan_images L src dst (copy_platforms rt ps) images (\<lparr>pl_Entries = []\<rparr>, []) w = (Ok (plan, errs), w')"
    "err = join_errs errs" by (auto simp: transfer_PlanPush_def copy_platforms_def ebind_Ok Let_def)
  with plan_images_plain [OF this(1)] show ?thesis by (auto simp: flatten_plain)
qed

lemma planPull_images_plain:
  "planPull_images L s src p es (plan, errs) w = (Ok (plan', errs'), w') \<Longrightarrow> list_all plain_error errs \<Longrightarrow>
     list_all plain_error errs'"
proof (induction es arbitrary: plan errs w)
  case (Cons x es)
  show ?case
  proof (cases "types_ParseReference L x")
    case (Ok ref)
    with Cons.prems(1) obtain r w1 where r: "planPull_images L s src p es
        (case r of Inl err \<Rightarrow> (plan, errs @ [EntryError ref p (Wrap1 ''cstorage: for'' err)])
         | Inr en \<Rightarrow> (plan\<lparr>pl_Entries := pl_Entries plan @ [en]\<rparr>, errs)) w1 = (Ok (plan', errs'), w')"
      by (auto simp: ebind_Ok)
    with Cons.IH Cons.prems(2) show ?thesis by (cases r) (simp, fastforce)+
  next
    case (Err e)
    with Cons.IH [of plan "errs @ [e]" w] Cons.prems ParseReference_plain [OF Err] show ?thesis by simp
  qed simp
qed simp

lemma PlanPull_plain:
  assumes "cstorage_PlanPull L s src images p w = (Ok (plan, err), w')"
  shows "err = None \<longleftrightarrow> flatten err = []"
  using assms by (auto simp: cstorage_PlanPull_def ebind_Ok flatten_plain dest: planPull_images_plain)

lemma flatten_Join: "flatten (errors_Join errs) = concat (map flatten errs)"
proof -
  have "concat (map flatten_err (List.map_filter id errs)) = concat (map flatten errs)"
    by (induction errs) (simp_all add: List.map_filter_simps flatten_def split: option.splits)
  then show ?thesis by (auto simp: errors_Join_def flatten_def Let_def)
qed

lemma errors_Join_None: "errors_Join errs = None \<longleftrightarrow> (\<forall>e \<in> set errs. e = None)"
proof -
  have "List.map_filter id errs = [] \<longleftrightarrow> (\<forall>e \<in> set errs. e = None)"
    by (induction errs) (auto simp: List.map_filter_simps split: option.splits)
  then show ?thesis by (simp add: errors_Join_def Let_def)
qed

text \<open>An error is nil exactly when nothing is recorded for it.\<close>

definition sound_err :: "gerr option \<Rightarrow> bool" where
  "sound_err err \<longleftrightarrow> (err = None \<longleftrightarrow> flatten err = [])"

lemma plan_pulls_sound:
  assumes "plan_pulls L cs st images ps (plan, errs) w = (Ok (plan', err), w')" "list_all sound_err errs"
  shows "sound_err err"
  using assms
proof (induction ps arbitrary: plan errs w)
  case Nil
  then show ?case by (auto simp: sound_err_def flatten_Join errors_Join_None list_all_iff)
next
  case (Cons p ps)
  then obtain pp e w1 where e: "cstorage_PlanPull L cs st images p w = (Ok (pp, e), w1)"
    "plan_pulls L cs st images ps (plan\<lparr>pl_Entries := pl_Entries plan @ pl_Entries pp\<rparr>, errs @ [e]) w1 = (Ok (plan', err), w')"
    by (auto simp: ebind_Ok)
  from PlanPull_plain [OF e(1)] Cons.IH [OF e(2)] Cons.prems(2) show ?case by (simp add: sound_err_def)
qed

lemma copy_plan_sound:
  "copy_plan L rt mem push cs st images ps w = (Ok (plan, err), w') \<Longrightarrow> sound_err err"
  by (auto simp: copy_plan_def sound_err_def dest!: PlanPush_plain plan_pulls_sound split: if_splits)

lemma collect_errs_plain:
  assumes "collect_errs f xs w = (Ok es, w')" "\<And>x w e w'. f x w = (Err e, w') \<Longrightarrow> plain_error e"
  shows "list_all plain_error es"
  using assms(1)
proof (induction xs arbitrary: w es)
  case (Cons x xs)
  then obtain r w1 es' where r: "attempt (f x) w = (Ok r, w1)" "collect_errs f xs w1 = (Ok es', w')"
    "es = (case r of Inl e \<Rightarrow> e # es' | Inr _ \<Rightarrow> es')" by (auto simp: ebind_Ok)
  with Cons.IH [OF r(2)] assms(2) show ?case by (cases r) (auto simp: attempt_Ok)
qed simp

lemma raise_opt_Err: "raise_opt x w = (Err e, w') \<longleftrightarrow> x = Some e \<and> w' = w"
  by (auto simp: raise_opt_def split: option.splits)

text \<open>What a collecting loop of entry errors raises at its end.\<close>

lemma collect_raise_sound:
  assumes "ebind (collect_errs f xs) (\<lambda>es. raise_opt (join_errs (g es))) w = (Err e, w')"
    and "\<And>x w e w'. f x w = (Err e, w') \<Longrightarrow> plain_error e"
    and "\<And>es. list_all plain_error es \<Longrightarrow> list_all plain_error (g es)"
  shows "sound_err (Some e)"
proof -
  from assms(1) obtain es w1 where es: "collect_errs f xs w = (Ok es, w1)" "join_errs (g es) = Some e"
    by (auto simp: ebind_Err raise_opt_Err collect_errs_no_Err)
  from collect_errs_plain [OF es(1)] assms(2,3) have "list_all plain_error (g es)" by blast
  from flatten_plain [OF this] es(2) have "flatten (Some e) = g es" by simp
  moreover have "g es \<noteq> []" using es(2) by (auto simp: join_errs_def)
  ultimately show ?thesis by (simp add: sound_err_def)
qed

lemma Pull_sound: "cstorage_Pull L s ctx_Err push p src w = (Err e, w') \<Longrightarrow> sound_err (Some e)"
  unfolding cstorage_Pull_def
  by (erule collect_raise_sound) (auto simp: cstorage_pullOne_def Let_def ebind_Err map_err_Err)

lemma push_errs_plain:
  assumes "(push_step L dst p conc)\<^sup>*\<^sup>* (s, w) (s', w')" "list_all plain_error (po_errs s)"
  shows "list_all plain_error (po_errs s')"
  using assms
proof (induction "(s', w')" arbitrary: s' w' rule: rtranclp_induct)
  case (step x)
  obtain t u where x: "x = (t, u)" by fastforce
  with step have "list_all plain_error (po_errs t)" by simp
  with step(2) show ?case unfolding x by (auto elim!: push_stepE simp: upload_error_def)
qed simp

lemma push_run_sound:
  assumes "upload_schedule L B conc uploads" "push_run L ctx_Err uploads B p w = (Err e, w')"
  shows "sound_err (Some e)"
proof -
  from assms obtain es w1 where es: "uploads p w = (Ok es, w1)" "push_commits L ctx_Err B p es w1 = (Err e, w')"
    by (auto simp: push_run_def upload_schedule_def ebind_Err)
  with assms(1) obtain s where s: "(push_step L B p (push_concurrency conc))\<^sup>*\<^sup>* (push_start p, w) (s, w1)"
    "po_errs s = es" unfolding upload_schedule_def by blast
  from push_errs_plain [OF s(1)] s(2) have "list_all plain_error es" by (simp add: push_start_def)
  with es(2) show ?thesis
    unfolding push_commits_def
    by (elim collect_raise_sound) (auto simp: push_commit_def Let_def ebind_Err map_err_Err)
qed

section \<open>After planning\<close>

lemma finish_stage:
  assumes "(case result_record r0 rerr of (res', err') \<Rightarrow>
      if err' \<noteq> None then ret (res', errors_Join [err', result_err res']) else ret (res', result_err res')) w2 =
      (Ok (res, err), w')" "sound_err rerr"
  shows "w' = w2 \<and> row_keys (rs_Entries res) = row_keys (rs_Entries r0) \<and> rs_Plan res = rs_Plan r0 \<and>
    (err = None \<longrightarrow> rerr = None \<and> res = r0 \<and> result_err r0 = None)"
proof -
  obtain r1 e1 where rec: "result_record r0 rerr = (r1, e1)" by fastforce
  note r1 = result_record_run [OF rec]
  have "res = r1 \<and> w' = w2" "err = None \<Longrightarrow> e1 = None \<and> result_err r1 = None"
    using assms(1) rec
    by (auto simp: eq_commute [of None "errors_Join _"] errors_Join_None split: if_splits)
  with r1(1-3) assms(2) show ?thesis by (auto simp: sound_err_def)
qed

lemma copy_finish_run:
  assumes "copy_finish opt run refs ps (plan, planErr) w = (Ok (res, err), w')" "sound_err planErr"
    and "\<And>p w e w'. run p w = (Err e, w') \<Longrightarrow> sound_err (Some e)"
  shows "row_keys (rs_Entries res) = List.product refs ps \<and> rs_Plan res = plan \<and>
    (err = None \<longrightarrow> planErr = None \<and> res = newResult refs ps plan \<and> result_err res = None \<and>
       (\<exists>w1. (case co_Planned opt of None \<Rightarrow> ret () | Some f \<Rightarrow> f res) w = (Ok (), w1) \<and>
          (if co_DryRun opt then w' = w1 else run plan w1 = (Ok (), w'))))"
proof -
  obtain r0 e0 where rec: "result_record (newResult refs ps plan) planErr = (r0, e0)" by fastforce
  note r0 = result_record_run [OF rec]
  have keys: "row_keys (rs_Entries r0) = List.product refs ps" "rs_Plan r0 = plan"
    by (simp_all add: r0 newResult_keys) (simp add: newResult_def)
  have none: "planErr = None \<and> r0 = newResult refs ps plan" if "e0 = None" "result_err r0 = None"
    using r0(3) [OF that] assms(2) by (simp add: sound_err_def)
  let ?told = "case co_Planned opt of None \<Rightarrow> ret () | Some f \<Rightarrow> f r0"
  consider "e0 \<noteq> None" | w1 where "e0 = None" "co_DryRun opt" "?told w = (Ok (), w1)" "res = r0" "err = result_err r0" "w' = w1"
    | r w1 w2 where "e0 = None" "\<not> co_DryRun opt" "?told w = (Ok (), w1)" "attempt (run plan) w1 = (Ok r, w2)"
      "(case result_record r0 (case r of Inl e \<Rightarrow> Some e | Inr _ \<Rightarrow> None) of (res', err') \<Rightarrow>
          if err' \<noteq> None then ret (res', errors_Join [err', result_err res'])
          else ret (res', result_err res')) w2 = (Ok (res, err), w')"
    using assms(1) rec by (auto simp: copy_finish_def ebind_Ok split: if_splits)
  then show ?thesis
  proof cases
    case 1
    with assms(1) rec keys show ?thesis by (auto simp: copy_finish_def)
  next
    case 2
    with keys none show ?thesis by auto
  next
    case (3 r w1 w2)
    have "sound_err (case r of Inl e \<Rightarrow> Some e | Inr _ \<Rightarrow> None)"
      using 3(4) assms(3) by (cases r) (auto simp: attempt_Ok sound_err_def flatten_def)
    note s = finish_stage [OF 3(5) this]
    moreover have "err = None \<Longrightarrow> run plan w1 = (Ok (), w')"
      using s 3(4) by (cases r) (auto simp: attempt_Ok)
    ultimately show ?thesis using keys none 3(1,2,3) by auto
  qed
qed

text \<open>Without a callback nothing happens between the planning and the transfer.\<close>

lemma copy_finish_pushed:
  assumes "copy_finish opt run refs ps (plan, planErr) w = (Ok (res, None), w')" "sound_err planErr"
    and "\<And>p w e w'. run p w = (Err e, w') \<Longrightarrow> sound_err (Some e)"
    and "co_Planned opt = None" "\<not> co_DryRun opt"
  shows "planErr = None \<and> res = newResult refs ps plan \<and> run plan w = (Ok (), w')"
  using copy_finish_run [OF assms(1-3)] assms(4,5) by (auto simp: ret_def)

section \<open>The calls of Copy\<close>

lemma or_return_Ok:
  "or_return m f sw = (Ok (res, err), sw') \<longleftrightarrow>
     (\<exists>x sw1. m sw = (Ok x, sw1) \<and> f x sw1 = (Ok (res, err), sw')) \<or>
     (\<exists>e. m sw = (Err e, sw') \<and> res = no_result \<and> err = Some e)"
  by (auto simp: or_return_def ebind_attempt_Ok)

lemma outside_Ok: "outside m sw = (Ok x, sw') \<longleftrightarrow> m (snd sw) = (Ok x, snd sw') \<and> fst sw' = fst sw"
  by (cases sw') (auto simp: outside_def split: prod.splits)

lemma snd_outside: "snd (outside m sw) = (fst sw, snd (m (snd sw)))"
  by (simp add: outside_def split: prod.split)

lemma finally_do_Ok: "finally_do fin m sw = (Ok x, sw') \<longleftrightarrow> (\<exists>sw1. m sw = (Ok x, sw1) \<and> sw' = snd (fin sw1))"
  by (auto simp: finally_do_def split: prod.splits)

lemma field_Ok: "field f sw = (Ok x, sw') \<longleftrightarrow> x = f (fst sw) \<and> sw' = sw"
  by (auto simp: field_def)

text \<open>
  What \<open>Copy\<close> has done when it returns no error: it opened containers-storage and the store of its location,
  made a plan between these two, told the caller of it and, unless it is a dry run, carried it out; then it
  closed the store. \<open>w1\<close> is the world the plan is made in, \<open>w2\<close> the one the transfer leaves.
\<close>

definition carried_out ::
  "('w, 'o, 'f, 'r, 'a) host \<Rightarrow> ('w, unit) io \<Rightarrow> (int \<Rightarrow> 'w backend \<Rightarrow> 'w plan \<Rightarrow> ('w, gerr list) io) \<Rightarrow>
   location \<Rightarrow> location \<Rightarrow> reference list \<Rightarrow> 'w copy_option \<Rightarrow> 'w plan \<Rightarrow> 'w cstorage \<Rightarrow> 'w backend \<Rightarrow> 'w \<Rightarrow> 'w \<Rightarrow>
   ('w, 'o) service \<times> 'w \<Rightarrow> ('w, 'o) service \<times> 'w \<Rightarrow> bool" where
  "carried_out H ctx_Err uploads src dst refs opt plan cs st w1 w2 sw sw' \<longleftrightarrow>
     (let push = (Kind src = KindContainersStorage);
          platforms = copy_platforms (ho_runtime H) (co_Platforms opt)
      in \<exists>sw1 svc close u v.
        service_containersStorage H ctx_Err sw = (Ok cs, sw1) \<and>
        service_openStore H ctx_Err (if push then dst else src) (copy_mode push (co_DryRun opt)) sw1 =
          (Ok (st, close), (svc, w1)) \<and>
        copy_plan (ho_lib H) (ho_runtime H) (ho_memory H) push cs st (map reference_String refs) platforms w1 =
          (Ok (plan, None), u) \<and>
        (case co_Planned opt of None \<Rightarrow> ret () | Some f \<Rightarrow> f (newResult refs platforms plan)) u = (Ok (), v) \<and>
        (if co_DryRun opt then w2 = v
         else copy_run H ctx_Err (uploads (cf_Concurrency (sv_cfg svc))) push cs st plan v = (Ok (), w2)) \<and>
        sw' = (svc, snd (close w2)))"

text \<open>A call of \<open>Copy\<close> ends before the transfer, with an error, or closes the store after it.\<close>

lemma Copy_stages:
  assumes "service_Copy H ctx_Err uploads src dst images opt sw = (Ok (res, err), sw')"
  obtains (Early) e where "res = no_result" "err = Some e"
  | (Transfer) refs cs sw1 st close svc w1 w2 where "checkCopy (ho_lib H) src dst images = Ok refs"
      "service_containersStorage H ctx_Err sw = (Ok cs, sw1)"
      "service_openStore H ctx_Err (if Kind src = KindContainersStorage then dst else src)
         (copy_mode (Kind src = KindContainersStorage) (co_DryRun opt)) sw1 = (Ok (st, close), (svc, w1))"
      "copy_transfer H ctx_Err (uploads (cf_Concurrency (sv_cfg svc))) (Kind src = KindContainersStorage) cs st refs opt w1 =
         (Ok (res, err), w2)"
      "sw' = (svc, snd (close w2))"
  using assms
  by (auto simp: service_Copy_def Let_def or_return_Ok finally_do_Ok ebind_Ok field_Ok outside_Ok snd_outside)

lemma Copy_run:
  assumes "service_Copy H ctx_Err uploads src dst images opt sw = (Ok (res, err), sw')"
    and "\<And>n st. upload_schedule (ho_lib H) st n (uploads n st)"
  shows "res = no_result \<and> err \<noteq> None \<or>
    (\<exists>refs. checkCopy (ho_lib H) src dst images = Ok refs \<and>
       row_keys (rs_Entries res) = List.product refs (copy_platforms (ho_runtime H) (co_Platforms opt)) \<and>
       (err = None \<longrightarrow> (\<forall>er \<in> set (rs_Entries res). er_Err er = None) \<and>
          (\<exists>cs st w1 w2. carried_out H ctx_Err uploads src dst refs opt (rs_Plan res) cs st w1 w2 sw sw')))"
  using assms(1)
proof (cases rule: Copy_stages)
  case (Transfer refs cs sw1 st close svc w1 w2)
  let ?ps = "copy_platforms (ho_runtime H) (co_Platforms opt)" and ?push = "Kind src = KindContainersStorage"
  let ?up = "uploads (cf_Concurrency (sv_cfg svc))"
  from Transfer(4) obtain plan planErr u where plan: "copy_plan (ho_lib H) (ho_runtime H) (ho_memory H)
      ?push cs st (map reference_String refs) ?ps w1 = (Ok (plan, planErr), u)"
    and fin: "copy_finish opt (copy_run H ctx_Err ?up ?push cs st) refs ?ps (plan, planErr) u = (Ok (res, err), w2)"
    by (auto simp: copy_transfer_def Let_def ebind_Ok)
  have r: "row_keys (rs_Entries res) = List.product refs ?ps \<and> rs_Plan res = plan \<and>
    (err = None \<longrightarrow> planErr = None \<and> res = newResult refs ?ps plan \<and> result_err res = None \<and>
       (\<exists>v. (case co_Planned opt of None \<Rightarrow> ret () | Some f \<Rightarrow> f res) u = (Ok (), v) \<and>
          (if co_DryRun opt then w2 = v else copy_run H ctx_Err ?up ?push cs st plan v = (Ok (), w2))))"
    by (rule copy_finish_run [OF fin copy_plan_sound [OF plan]])
      (auto simp: copy_run_def split: if_splits intro: push_run_sound [OF assms(2)] Pull_sound)
  have "carried_out H ctx_Err uploads src dst refs opt (rs_Plan res) cs st w1 w2 sw sw'" if "err = None"
  proof -
    from r that obtain v where v: "planErr = None" "res = newResult refs ?ps plan" "rs_Plan res = plan"
      "(case co_Planned opt of None \<Rightarrow> ret () | Some f \<Rightarrow> f res) u = (Ok (), v)"
      "if co_DryRun opt then w2 = v else copy_run H ctx_Err ?up ?push cs st plan v = (Ok (), w2)" by auto
    show ?thesis unfolding carried_out_def Let_def v(3)
      by (intro exI [of _ sw1] exI [of _ svc] exI [of _ close] exI [of _ u] exI [of _ v] conjI Transfer(2,3,5)
          plan [unfolded v(1)] v(4) [unfolded v(2)] v(5))
  qed
  with r Transfer(1) show ?thesis by (auto simp: result_err_None)
qed simp

section \<open>What is opened\<close>

text \<open>
  The store at a location: the directory of a file URL, the bucket and prefix of an S3 URL, or the base URL
  itself. A dry run of a push takes an empty file system for a directory that is not there.
\<close>

definition opens_at ::
  "('w, 'o, 'f, 'r, 'a) host \<Rightarrow> ('w, unit) io \<Rightarrow> location \<Rightarrow> bool \<Rightarrow> 'w backend \<Rightarrow> bool" where
  "opens_at H ctx_Err loc absent_ok st \<longleftrightarrow>
     (\<exists>u. URL loc = Some u \<and>
        (if u_Scheme u = ''file'' then
           (\<exists>w root close w'. ho_osfs_NewRoot H (u_Path u) w = (Ok (root, close), w') \<and>
              st = fsdir_NewStore (ho_lib H) ctx_Err root) \<or>
           (absent_ok \<and> st = fsdir_NewStore (ho_lib H) ctx_Err (ho_memfs_New H (u_Path u)))
         else if u_Scheme u = ''s3'' then
           (\<exists>client bucket pfx. s3Location u = (bucket, pfx) \<and>
              st = s3_NewStore (ho_lib H) client (ho_seeks H) (ho_pages H) (s3_FlatStore bucket pfx))
         else st = http_NewStore (ho_http H) (http_BaseURLStore (url_String (ho_url H) u))))"

lemma open_root_at:
  "open_root H ctx_Err dir w = (Ok (st, close), w') \<Longrightarrow>
     \<exists>w root close w'. ho_osfs_NewRoot H dir w = (Ok (root, close), w') \<and> st = fsdir_NewStore (ho_lib H) ctx_Err root"
  by (auto simp: open_root_def ebind_Ok map_err_Ok)

lemma openStore_at:
  assumes "service_openStore H ctx_Err loc mode sw = (Ok (st, close), sw')"
  shows "opens_at H ctx_Err loc (mode = emptyIfMissing) st"
proof (cases "URL loc")
  case None
  with assms show ?thesis by (simp add: service_openStore_def pure_res_def)
next
  case (Some u)
  show ?thesis
  proof (cases "u_Scheme u = ''file''")
    case True
    let ?root = "\<exists>w root close w'. ho_osfs_NewRoot H (u_Path u) w = (Ok (root, close), w') \<and>
        st = fsdir_NewStore (ho_lib H) ctx_Err root"
    have "?root \<or> (mode = emptyIfMissing \<and> st = fsdir_NewStore (ho_lib H) ctx_Err (ho_memfs_New H (u_Path u)))"
    proof (cases "mode = emptyIfMissing")
      case empty: True
      with assms Some True have "ebind (attempt (ho_Stat H (u_Path u))) (\<lambda>r. case r of
          Inl e \<Rightarrow> if err_is e ErrNotExist then ret (fsdir_NewStore (ho_lib H) ctx_Err (ho_memfs_New H (u_Path u)), ret ())
            else open_root H ctx_Err (u_Path u)
        | Inr x \<Rightarrow> open_root H ctx_Err (u_Path u)) (snd sw) = (Ok (st, close), snd sw')"
        by (simp add: service_openStore_def outside_Ok)
      then show ?thesis
      proof (cases rule: ebind_attemptE)
        case (Val x w1)
        then have "open_root H ctx_Err (u_Path u) w1 = (Ok (st, close), snd sw')" by simp
        from open_root_at [OF this] show ?thesis ..
      next
        case (Fail e w1)
        show ?thesis
        proof (cases "err_is e ErrNotExist")
          case True
          with Fail(2) empty show ?thesis by (simp add: ret_run)
        next
          case False
          with Fail(2) have "open_root H ctx_Err (u_Path u) w1 = (Ok (st, close), snd sw')" by simp
          from open_root_at [OF this] show ?thesis ..
        qed
      qed simp
    next
      case False
      with assms Some True show ?thesis
        by (cases mode) (auto simp: service_openStore_def outside_Ok ebind_Ok map_err_Ok dest!: open_root_at)
    qed
    with Some True show ?thesis unfolding opens_at_def by simp
  next
    case other: False
    show ?thesis
    proof (cases "u_Scheme u = ''s3''")
      case True
      obtain bucket pfx where "s3Location u = (bucket, pfx)" by fastforce
      with assms Some True other show ?thesis by (auto simp: service_openStore_def opens_at_def ebind_Ok)
    next
      case False
      with assms Some other show ?thesis by (simp add: service_openStore_def opens_at_def ret_run)
    qed
  qed
qed

lemma containersStorage_opened:
  assumes "service_containersStorage H ctx_Err sw = (Ok cs, sw')" "sv_cs (fst sw) = None"
  shows "\<exists>opts w w'. ho_GetStore H opts w = (Ok (st_store cs), w')"
  using assms unfolding service_containersStorage_def
  by (auto simp: ebind_Ok field_Ok outside_Ok map_err_Ok cstorage_Open_def cstorage_New_def Let_def; metis)

end
