(* ===== verification/Copy_Push.thy ===== *)
theory Copy_Push
  imports Imagecopy_Facts
begin

text \<open>
  A push of \<open>Copy\<close> from planning to the last commit: the plan has one entry per image and platform,
  the rows of the result are those of the plan, and the images of containers-storage are sources that
  leave the store alone.
\<close>

section \<open>A plan without errors\<close>

text \<open>\<open>Q\<close> is what a source guarantees of the image it gives for a reference and a platform.\<close>

definition answers :: "'w source \<Rightarrow> (reference \<Rightarrow> platform \<Rightarrow> 'w image \<Rightarrow> bool) \<Rightarrow> bool" where
  "answers src Q \<longleftrightarrow> (\<forall>ref p w im w'. src ref p w = (Ok im, w') \<longrightarrow> Q ref p im)"

abbreviation plans :: "(reference \<Rightarrow> platform \<Rightarrow> 'w image \<Rightarrow> bool) \<Rightarrow> reference \<times> platform \<Rightarrow> 'w entry \<Rightarrow> bool" where
  "plans Q rp e \<equiv> Q (fst rp) (snd rp) (en_Image e)"

lemma diff_loop_image: "diff_loop L B ds e w = (Ok e', w') \<Longrightarrow> en_Image e' = en_Image e"
  by (induction ds arbitrary: e w) (fastforce simp: ebind_Ok)+

lemma plan_entry_image:
  assumes "plan_entry L src B ref p w = (Ok (Inr e), w')" "answers src Q"
  shows "Q ref p (en_Image e)"
proof -
  from assms(1) obtain im w1 where src: "src ref p w = (Ok im, w1)" and "transfer_Diff L im B w1 = (Ok e, w')"
    by (auto simp: plan_entry_def ebind_attempt_Ok)
  then have "en_Image e = im" by (auto simp: transfer_Diff_def ebind_Ok dest!: diff_loop_image)
  with src assms(2) show ?thesis unfolding answers_def by blast
qed

lemma list_all2_in: "list_all2 P xs ys \<Longrightarrow> y \<in> set ys \<Longrightarrow> \<exists>x \<in> set xs. P x y"
  by (induction xs ys rule: list_all2_induct) auto

lemma plan_platforms_entries:
  assumes "plan_platforms L src B ref ps (plan, errs) w = (Ok (plan', []), w')" "answers src Q"
  shows "errs = [] \<and> (\<exists>es. pl_Entries plan' = pl_Entries plan @ es \<and> list_all2 (plans Q) (map (Pair ref) ps) es)"
  using assms(1)
proof (induction ps arbitrary: plan errs w)
  case (Cons p ps)
  from Cons.prems obtain r w1 where r: "plan_entry L src B ref p w = (Ok r, w1)"
    "plan_platforms L src B ref ps (case r of Inl e \<Rightarrow> (plan, errs @ [e])
       | Inr en \<Rightarrow> (plan\<lparr>pl_Entries := pl_Entries plan @ [en]\<rparr>, errs)) w1 = (Ok (plan', []), w')"
    by (auto simp: ebind_Ok)
  show ?case
  proof (cases r)
    case (Inl e)
    with Cons.IH [of plan "errs @ [e]" w1] r(2) show ?thesis by simp
  next
    case (Inr en)
    with Cons.IH [of "plan\<lparr>pl_Entries := pl_Entries plan @ [en]\<rparr>" errs w1] r(2) obtain es where
      "errs = []" "pl_Entries plan' = pl_Entries plan @ en # es" "list_all2 (plans Q) (map (Pair ref) ps) es" by auto
    moreover from plan_entry_image [OF r(1) [unfolded Inr] assms(2)] have "Q ref p (en_Image en)" .
    ultimately show ?thesis by (intro conjI exI [of _ "en # es"]) auto
  qed
qed simp

lemma plan_images_entries:
  assumes "plan_images L src B ps ss (plan, errs) w = (Ok (plan', []), w')" "answers src Q"
    and "list_all2 (\<lambda>s ref. types_ParseReference L s = Ok ref) ss refs"
  shows "errs = [] \<and> (\<exists>es. pl_Entries plan' = pl_Entries plan @ es \<and> list_all2 (plans Q) (List.product refs ps) es)"
  using assms(3,1)
proof (induction ss refs arbitrary: plan errs w rule: list_all2_induct)
  case (Cons s ss ref refs)
  then obtain plan1 errs1 w1 where 1: "plan_platforms L src B ref ps (plan, errs) w = (Ok (plan1, errs1), w1)"
    "plan_images L src B ps ss (plan1, errs1) w1 = (Ok (plan', []), w')" by (auto simp: ebind_Ok)
  from Cons.IH [OF 1(2)] obtain es2 where e: "errs1 = []" "pl_Entries plan' = pl_Entries plan1 @ es2"
    "list_all2 (plans Q) (List.product refs ps) es2" by auto
  with plan_platforms_entries [OF _ assms(2)] 1(1) obtain es1 where "errs = []"
    "pl_Entries plan1 = pl_Entries plan @ es1" "list_all2 (plans Q) (map (Pair ref) ps) es1" by blast
  with e show ?case by (intro conjI exI [of _ "es1 @ es2"]) (auto intro: list_all2_appendI)
qed simp

text \<open>The rows of such a plan are its entries in order, even where a platform is asked for twice.\<close>

lemma first_match_used:
  "im_Ref (en_Image e) = ref \<Longrightarrow> im_Platform (en_Image e) = p \<Longrightarrow>
     first_match ref p {0..<i + length es1} i (es1 @ e # es2) = Some (i + length es1, e)"
proof (induction es1 arbitrary: i)
  case (Cons x es1)
  from Cons.IH [of "Suc i"] Cons.prems show ?case by simp
qed simp

definition row_of :: "'w entry \<Rightarrow> entry_result" where
  "row_of e = from_entry e (no_entry (im_Ref (en_Image e)) (im_Platform (en_Image e)))"

lemma rows_of_plan:
  assumes "list_all2 (plans (\<lambda>ref p im. im_Ref im = ref \<and> im_Platform im = p)) rps es2"
  shows "result_rows (es1 @ es2) {0..<length es1} rps = map row_of es2"
  using assms
proof (induction rps es2 arbitrary: es1 rule: list_all2_induct)
  case (Cons rp rps e es2)
  from first_match_used [of e _ _ 0 es1 es2] Cons.hyps Cons.IH [of "es1 @ [e]"] show ?case
    by (cases rp) (auto simp: row_of_def atLeast0_lessThan_Suc)
qed simp

lemma newResult_rows:
  assumes "list_all2 (plans (\<lambda>ref p im. im_Ref im = ref \<and> im_Platform im = p)) (List.product refs ps) (pl_Entries plan)"
  shows "rs_Entries (newResult refs ps plan) = map row_of (pl_Entries plan)"
  using rows_of_plan [OF assms, of "[]"] by (simp add: newResult_def requested_def)

text \<open>A new result carries no error.\<close>

lemma result_rows_err: "er \<in> set (result_rows es used rps) \<Longrightarrow> er_Err er = None"
  by (induction rps arbitrary: used) (auto simp: no_entry_def from_entry_def split: option.splits)

lemma newResult_err: "result_err (newResult refs ps plan) = None"
  using result_rows_err by (auto simp: result_err_None newResult_def)

section \<open>The source\<close>

text \<open>
  What is asked of containers-storage and the blob cache: their calls leave the store alone, and a
  cached blob does not fail as if a file of the store existed.
\<close>

definition beside :: "('w \<Rightarrow> tree) \<Rightarrow> ('w \<Rightarrow> bool) \<Rightarrow> 'w \<Rightarrow> 'w \<Rightarrow> bool" where
  "beside tree ok w w' \<longleftrightarrow> tree w' = tree w \<and> (ok w \<longrightarrow> ok w')"

definition push_side :: "('w \<Rightarrow> tree) \<Rightarrow> ('w \<Rightarrow> bool) \<Rightarrow> 'w cstorage \<Rightarrow> bool" where
  "push_side tree ok s \<longleftrightarrow>
     (\<forall>x. moves (beside tree ok) (ls_Layer (st_store s) x)) \<and>
     (\<forall>x. moves (beside tree ok) (ls_Diff (st_store s) x)) \<and>
     (\<forall>x. moves (beside tree ok) (ls_Image (st_store s) x)) \<and>
     (\<forall>x. moves (beside tree ok) (ls_ImagesByDigest (st_store s) x)) \<and>
     (\<forall>x y. moves (beside tree ok) (ls_ImageBigData (st_store s) x y)) \<and>
     (\<forall>x. moves (beside tree ok) (co_Has (st_cache s) x)) \<and>
     (\<forall>x. moves (beside tree ok) (co_Open (st_cache s) x)) \<and>
     (\<forall>x y. moves (beside tree ok) (co_Put (st_cache s) x y)) \<and>
     (\<forall>d w rd w'. ok w \<longrightarrow> co_Open (st_cache s) d w = (Ok rd, w') \<longrightarrow> body_ok (section_body rd))"

lemma beside_rel [simp]: "reflp (beside tree ok)" "transp (beside tree ok)"
  by (auto simp: beside_def intro!: reflpI transpI)

lemma push_sideD:
  assumes "push_side tree ok s"
  shows "moves (beside tree ok) (ls_Layer (st_store s) x)" "moves (beside tree ok) (ls_Diff (st_store s) x)"
    "moves (beside tree ok) (ls_Image (st_store s) x)" "moves (beside tree ok) (ls_ImagesByDigest (st_store s) x)"
    "moves (beside tree ok) (ls_ImageBigData (st_store s) x y)" "moves (beside tree ok) (co_Has (st_cache s) x)"
    "moves (beside tree ok) (co_Open (st_cache s) x)" "moves (beside tree ok) (co_Put (st_cache s) x z)"
  using assms unfolding push_side_def by blast+

context store_backend
begin

lemma reads_beside: "reads m \<longleftrightarrow> moves (beside tree ok) m"
  by (simp add: moves_def beside_def)

lemmas beside_store [keeps_intros] =
  reads_HasBlob [unfolded reads_beside] reads_Blob [unfolded reads_beside] reads_readAll [unfolded reads_beside]

lemma beside_layerChain_up: "push_side tree ok s \<Longrightarrow> moves (beside tree ok) (layerChain_up (st_store s) k i chain)"
proof (induction k arbitrary: i chain)
  case 0
  then show ?case by (simp add: layerChain_up.simps keeps_intros)
next
  case (Suc k)
  then show ?case by (subst layerChain_up.simps) (auto intro!: keeps_intros push_sideD(1))
qed

lemma beside_unmarshal: "moves (beside tree ok) (unmarshal r)"
  by (auto simp: unmarshal_def intro: keeps_intros split: sum.splits)

lemma beside_find_candidate:
  assumes "push_side tree ok s"
  shows "moves (beside tree ok) (find_candidate L s p key imgs)"
proof (induction imgs)
  case (Cons img imgs)
  have "moves (beside tree ok) (cstorage_platformOf L s img b p)" for b
    unfolding cstorage_platformOf_def by (auto intro!: keeps_intros push_sideD [OF assms] beside_unmarshal)
  with Cons show ?case
    by (auto intro!: keeps_intros push_sideD [OF assms] split: sum.splits option.splits)
qed (simp add: keeps_intros)

lemma beside_find: "push_side tree ok s \<Longrightarrow> moves (beside tree ok) (cstorage_find L s ref p)"
  unfolding cstorage_find_def cstorage_candidates_def
  by (auto intro!: keeps_intros push_sideD beside_find_candidate split: sum.splits prod.splits)

lemma beside_DiffIDBlobs: "moves (beside tree ok) (store_DiffIDBlobs L B d)"
proof -
  have "moves (beside tree ok) (ls n)" if "b_List B = Some ls" for ls n
    by (rule movesI) (use list_tree [OF that] list_ok [OF that] in \<open>simp add: beside_def\<close>)
  then show ?thesis
    unfolding store_DiffIDBlobs_def by (auto simp: Let_def intro!: keeps_intros split: option.splits)
qed

lemma beside_byDiffID: "moves (beside tree ok) (push_byDiffID L B d)"
proof -
  have "moves (beside tree ok) (byDiffID_loop L B bs)" for bs
    by (induction bs) (auto intro!: keeps_intros beside_store split: sum.splits option.splits)
  then show ?thesis
    unfolding push_byDiffID_def by (auto intro!: keeps_intros beside_DiffIDBlobs split: sum.splits)
qed

lemma beside_layers:
  assumes "push_side tree ok s"
  shows "moves (beside tree ok) (push_layers L s B ms chain)"
proof -
  have "moves (beside tree ok) (asIs_loop L s B l cs)" for l cs
    by (induction cs) (auto intro!: keeps_intros beside_store push_sideD [OF assms])
  moreover have "moves (beside tree ok) (cstorage_exportZstd L s l)" for l
    unfolding cstorage_exportZstd_def by (auto intro!: keeps_intros push_sideD [OF assms])
  ultimately have "moves (beside tree ok) (push_layer L s B m l)" for m l
    unfolding push_layer_def push_asIs_def
    by (auto intro!: keeps_intros beside_byDiffID split: option.splits)
  then show ?thesis
    by (induction L s B ms chain rule: push_layers.induct) (auto intro!: keeps_intros)
qed

lemma beside_PushSource:
  assumes "push_side tree ok s"
  shows "moves (beside tree ok) (cstorage_PushSource L mem s B ref p)"
  unfolding cstorage_PushSource_def pushSource_Resolve_def cstorage_layerChain_def
  by (auto intro!: keeps_intros push_sideD [OF assms] beside_find [OF assms] beside_unmarshal
      beside_layers [OF assms] beside_layerChain_up [OF assms] split: prod.splits)

text \<open>Its images answer the reference and the platform asked for, and they are sources for a push.\<close>

lemma answers_PushSource:
  assumes "push_side tree ok s" "digest_laws L"
  shows "answers (cstorage_PushSource L mem s B)
    (\<lambda>ref p im. im_Ref im = ref \<and> im_Platform im = p \<and> source_dir tree ok (im_Dir im))"
proof -
  have blobs: "moves (beside tree ok) (push_blobs L s B d)" for d
    unfolding push_blobs_def by (auto intro!: keeps_intros beside_store push_sideD [OF assms(1)] split: sum.splits)
  have "body_ok (section_body rd)" if "ok w" "push_blobs L s B d w = (Ok rd, w')" for d w rd w'
  proof -
    from that(2) consider "co_Open (st_cache s) d w = (Ok rd, w')"
      | e w1 where "co_Open (st_cache s) d w = (Err e, w1)" "store_Blob L B d w1 = (Ok rd, w')"
      by (auto simp: push_blobs_def ebind_attempt_Ok split: if_splits)
    then show ?thesis
    proof cases
      case 1
      with assms(1) that(1) show ?thesis unfolding push_side_def by blast
    next
      case 2
      from movesD [OF push_sideD(7) [OF assms(1)] 2(1)] that(1) have "ok w1" by (simp add: beside_def)
      with 2(2) source_Blob [OF assms(2)] show ?thesis by blast
    qed
  qed
  with blobs have "source_dir tree ok (im_Dir (push_image L s B ref p md))" for ref p md
    by (auto simp: source_dir_def push_image_def store_SingleManifestDir_def Let_def reads_beside)
  then show ?thesis
    unfolding answers_def cstorage_PushSource_def pushSource_Resolve_def
    by (auto simp: ebind_Ok push_image_def split: prod.splits if_splits)
qed

section \<open>Planning and pushing\<close>

lemma beside_Diff:
  assumes "source_dir tree ok (im_Dir im)"
  shows "moves (beside tree ok) (transfer_Diff L im B)"
proof -
  have "moves (beside tree ok) (diff_loop L B ds e)" for ds e
    by (induction ds arbitrary: e) (auto intro!: keeps_intros beside_store)
  then show ?thesis
    unfolding transfer_Diff_def transfer_ImageBlobs_def
    by (auto intro!: keeps_intros source_dirD(1) [OF assms, unfolded reads_beside] split: sum.splits)
qed

lemma beside_plan_entry:
  assumes "\<And>ref p. moves (beside tree ok) (src ref p)"
    and "answers src (\<lambda>ref p im. im_Ref im = ref \<and> im_Platform im = p \<and> source_dir tree ok (im_Dir im))"
  shows "moves (beside tree ok) (plan_entry L src B ref p)"
proof (rule movesI)
  fix w r w' assume "plan_entry L src B ref p w = (r, w')"
  then show "beside tree ok w w'"
    unfolding plan_entry_def
  proof (cases rule: ebind_attemptE)
    case (Val im w1)
    with assms(2) have "source_dir tree ok (im_Dir im)" unfolding answers_def by blast
    then have "moves (beside tree ok) (ebind (attempt (transfer_Diff L im B)) (\<lambda>r2. case r2 of
        Inl e \<Rightarrow> ret (Inl (transfer_entryError ref p e)) | Inr en \<Rightarrow> ret (Inr en)))"
      by (auto intro!: keeps_intros beside_Diff split: sum.splits)
    from movesD [OF this] Val(2) have "beside tree ok w1 w'" by simp
    with movesD [OF assms(1) Val(1)] show ?thesis by (auto simp: beside_def)
  next
    case (Fail e w1)
    with movesD [OF assms(1) Fail(1)] show ?thesis by (simp add: ret_run)
  next
    case Stop
    with movesD [OF assms(1) Stop(1)] show ?thesis by simp
  qed
qed

lemma beside_PlanPush:
  assumes "\<And>ref p. moves (beside tree ok) (src ref p)"
    and "answers src (\<lambda>ref p im. im_Ref im = ref \<and> im_Platform im = p \<and> source_dir tree ok (im_Dir im))"
  shows "moves (beside tree ok) (transfer_PlanPush L rt src B images ps)"
proof -
  have 1: "moves (beside tree ok) (plan_platforms L src B ref qs st)" for ref qs st
  proof (induction qs arbitrary: st)
    case (Cons p qs)
    show ?case by (cases st) (simp add: keeps_intros beside_plan_entry [OF assms] Cons.IH)
  qed (simp add: keeps_intros)
  have "moves (beside tree ok) (plan_images L src B qs ss st)" for qs ss st
    by (induction ss arbitrary: st) (auto intro!: keeps_intros 1 split: prod.splits res.splits)
  then show ?thesis
    unfolding transfer_PlanPush_def by (auto simp: Let_def intro!: keeps_intros split: prod.splits)
qed

lemma PlanPush_plan:
  assumes src: "\<And>ref p. moves (beside tree ok) (src ref p)"
    "answers src (\<lambda>ref p im. im_Ref im = ref \<and> im_Platform im = p \<and> source_dir tree ok (im_Dir im))"
    and refs: "\<forall>r \<in> set refs. types_ParseReference L (reference_String r) = Ok r"
    and run: "transfer_PlanPush L rt src B (map reference_String refs) (copy_platforms rt ps) w = (Ok (plan, None), w1)"
  shows "beside tree ok w w1" "plan_sources tree ok plan"
    "list_all2 (plans (\<lambda>ref p im. im_Ref im = ref \<and> im_Platform im = p))
       (List.product refs (copy_platforms rt ps)) (pl_Entries plan)"
proof -
  show "beside tree ok w w1" by (rule movesD [OF beside_PlanPush [OF src] run])
  have "copy_platforms rt (copy_platforms rt ps) = copy_platforms rt ps" by (simp add: copy_platforms_def)
  with run have run': "plan_images L src B (copy_platforms rt ps) (map reference_String refs)
      (\<lparr>pl_Entries = []\<rparr>, []) w = (Ok (plan, []), w1)"
    by (auto simp: transfer_PlanPush_def copy_platforms_def ebind_Ok Let_def eq_commute [of None "join_errs _"])
  have "list_all2 (\<lambda>s ref. types_ParseReference L s = Ok ref) (map reference_String refs) refs"
    using refs by (auto simp: list_all2_conv_all_nth)
  from plan_images_entries [OF run' src(2) this]
  have all: "list_all2 (plans (\<lambda>ref p im. im_Ref im = ref \<and> im_Platform im = p \<and> source_dir tree ok (im_Dir im)))
      (List.product refs (copy_platforms rt ps)) (pl_Entries plan)" by auto
  then show "list_all2 (plans (\<lambda>ref p im. im_Ref im = ref \<and> im_Platform im = p))
      (List.product refs (copy_platforms rt ps)) (pl_Entries plan)"
    by (rule list_all2_mono) auto
  from all show "plan_sources tree ok plan"
    by (auto simp: plan_sources_def list_all2_conv_all_nth in_set_conv_nth)
qed

lemma push_run_Ok:
  assumes "upload_schedule L B conc uploads" "push_run L ctx_Err uploads B p w = (Ok (), w')"
  obtains es w1 where "uploads p w = (Ok es, w1)" "transfer_Push L ctx_Err B p conc w w1 (Ok (), w')"
proof -
  from assms(2) obtain es w1 where es: "uploads p w = (Ok es, w1)" "push_commits L ctx_Err B p es w1 = (Ok (), w')"
    by (auto simp: push_run_def ebind_Ok)
  with assms(1) obtain s where "(push_step L B p (push_concurrency conc))\<^sup>*\<^sup>* (push_start p, w) (s, w1)"
    "po_pending s = []" "po_running s = []" "po_errs s = es" unfolding upload_schedule_def by blast
  with es show ?thesis by (intro that [of es w1]) (auto simp: transfer_Push_def)
qed

lemma Copy_push:
  assumes laws: "digest_laws L" "json_laws L" and side: "push_side tree ok cs"
    and sched: "upload_schedule L B conc uploads" and ctx: "moves (beside tree ok) ctx_Err"
    and w: "ok w" "store_inv L (tree w)"
    and refs: "\<forall>r \<in> set refs. types_ParseReference L (reference_String r) = Ok r \<and>
      (\<forall>p \<in> set (copy_platforms rt ps). leafable L r p)"
    and planned: "transfer_PlanPush L rt (cstorage_PushSource L mem cs B) B (map reference_String refs)
      (copy_platforms rt ps) w = (Ok (plan, None), w1)"
    and told: "beside tree ok w1 v"
    and up: "uploads plan v = (Ok es, w2)" "diff_ids_valid L (tree w2)"
    and run: "push_run L ctx_Err uploads B plan v = (Ok (), w')"
  shows "tree w \<subseteq>\<^sub>m tree w'" "store_inv L (tree w')"
    "rs_Entries (newResult refs (copy_platforms rt ps) plan) = map row_of (pl_Entries plan)"
    "(ref, p) \<in> set (List.product refs (copy_platforms rt ps)) \<Longrightarrow>
      \<exists>e \<in> set (pl_Entries plan). im_Ref (en_Image e) = ref \<and> im_Platform (en_Image e) = p \<and>
        entry_committed L (tree w') e"
proof -
  note plan = PlanPush_plan [OF beside_PushSource [OF side] answers_PushSource [OF side laws(1)] _ planned]
  have refs': "\<forall>r \<in> set refs. types_ParseReference L (reference_String r) = Ok r" using refs by blast
  from plan(1) [OF refs'] told w have w1: "ok v" "store_inv L (tree v)" "tree v = tree w"
    by (simp_all add: beside_def)
  from push_run_Ok [OF sched run] up(1) have push: "transfer_Push L ctx_Err B plan conc v w2 (Ok (), w')" by auto
  note entries = plan(3) [OF refs']
  have leaf: "plan_leafable L plan"
    unfolding plan_leafable_def
  proof
    fix e assume "e \<in> set (pl_Entries plan)"
    from list_all2_in [OF entries this] refs show "leafable L (im_Ref (en_Image e)) (im_Platform (en_Image e))"
      by auto
  qed
  note safe = Push_safe [OF laws ctx [folded reads_beside] leaf plan(2) [OF refs'] w1(1,2) push up(2)]
  show "tree w \<subseteq>\<^sub>m tree w'" "store_inv L (tree w')" using safe(1) w1(3) by auto
  show "rs_Entries (newResult refs (copy_platforms rt ps) plan) = map row_of (pl_Entries plan)"
    by (rule newResult_rows [OF entries])
  assume "(ref, p) \<in> set (List.product refs (copy_platforms rt ps))"
  with list_all2_in [OF list.rel_flip [THEN iffD2, OF entries]] obtain e where
    "e \<in> set (pl_Entries plan)" "im_Ref (en_Image e) = ref" "im_Platform (en_Image e) = p" by fastforce
  with safe(2) show "\<exists>e \<in> set (pl_Entries plan). im_Ref (en_Image e) = ref \<and> im_Platform (en_Image e) = p \<and>
      entry_committed L (tree w') e" by blast
qed

end

section \<open>A copy into a store\<close>

text \<open>
  What has to hold where the plan is made for a push to leave the images in the store: the store meets its
  contract and its invariant, calls that are not the store's leave it alone, and the references and platforms
  have leaves. The configs uploaded list valid diffIDs (see \<open>commit_panics_on_diffid\<close>).
\<close>

definition store_ready ::
  "('w, 'o, 'f, 'r, 'a) host \<Rightarrow> ('w, unit) io \<Rightarrow> (int \<Rightarrow> 'w backend \<Rightarrow> 'w plan \<Rightarrow> ('w, gerr list) io) \<Rightarrow>
   reference list \<Rightarrow> 'w copy_option \<Rightarrow> 'w plan \<Rightarrow> 'w cstorage \<Rightarrow> 'w backend \<Rightarrow> ('w \<Rightarrow> tree) \<Rightarrow> ('w \<Rightarrow> bool) \<Rightarrow> 'w \<Rightarrow> bool" where
  "store_ready H ctx_Err uploads refs opt plan cs st tree ok w \<longleftrightarrow>
     store_backend (ho_lib H) st tree ok \<and> digest_laws (ho_lib H) \<and> json_laws (ho_lib H) \<and>
     push_side tree ok cs \<and> moves (beside tree ok) ctx_Err \<and>
     (\<forall>f res. co_Planned opt = Some f \<longrightarrow> moves (beside tree ok) (f res)) \<and>
     ok w \<and> store_inv (ho_lib H) (tree w) \<and>
     (\<forall>r \<in> set refs. types_ParseReference (ho_lib H) (reference_String r) = Ok r \<and>
        (\<forall>p \<in> set (copy_platforms (ho_runtime H) (co_Platforms opt)). leafable (ho_lib H) r p)) \<and>
     (\<forall>conc v es v'. beside tree ok w v \<longrightarrow> uploads conc st plan v = (Ok es, v') \<longrightarrow> diff_ids_valid (ho_lib H) (tree v'))"

lemma carried_out_stored:
  assumes done_: "carried_out H ctx_Err uploads src dst refs opt plan cs st w1 w2 sw sw'"
    and push: "Kind src = KindContainersStorage" "\<not> co_DryRun opt"
    and ready: "store_ready H ctx_Err uploads refs opt plan cs st tree ok w1"
    and sched: "\<And>n. upload_schedule (ho_lib H) st n (uploads n st)"
  shows "tree w1 \<subseteq>\<^sub>m tree w2 \<and> store_inv (ho_lib H) (tree w2) \<and>
    (\<forall>ref \<in> set refs. \<forall>p \<in> set (copy_platforms (ho_runtime H) (co_Platforms opt)).
       \<exists>md. leaf_holds (ho_lib H) (tree w2) ref p md \<and> image_closed (ho_lib H) (tree w2) p (d_Digest md))"
proof -
  let ?ps = "copy_platforms (ho_runtime H) (co_Platforms opt)" and ?L = "ho_lib H"
  from done_ push obtain conc u v where plan: "transfer_PlanPush ?L (ho_runtime H)
      (cstorage_PushSource ?L (ho_memory H) cs st) st (map reference_String refs) ?ps w1 = (Ok (plan, None), u)"
    and told: "(case co_Planned opt of None \<Rightarrow> ret () | Some f \<Rightarrow> f (newResult refs ?ps plan)) u = (Ok (), v)"
    and run: "push_run ?L ctx_Err (uploads conc st) st plan v = (Ok (), w2)"
    unfolding carried_out_def by (auto simp: copy_plan_def copy_run_def Let_def)
  from ready have be: "store_backend ?L st tree ok" and laws: "digest_laws ?L" "json_laws ?L"
    and side: "push_side tree ok cs" and ctx: "moves (beside tree ok) ctx_Err"
    and call: "\<forall>f res. co_Planned opt = Some f \<longrightarrow> moves (beside tree ok) (f res)"
    and w: "ok w1" "store_inv ?L (tree w1)"
    and refs: "\<forall>r \<in> set refs. types_ParseReference ?L (reference_String r) = Ok r \<and> (\<forall>p \<in> set ?ps. leafable ?L r p)"
    and diffs: "\<And>conc v es v'. beside tree ok w1 v \<Longrightarrow> uploads conc st plan v = (Ok es, v') \<Longrightarrow> diff_ids_valid ?L (tree v')"
    unfolding store_ready_def by blast+
  have parsed: "\<forall>r \<in> set refs. types_ParseReference ?L (reference_String r) = Ok r" using refs by blast
  have 1: "beside tree ok w1 u"
    by (rule store_backend.PlanPush_plan(1) [OF be store_backend.beside_PushSource [OF be side]
        store_backend.answers_PushSource [OF be side laws(1)] parsed plan])
  have 2: "beside tree ok u v"
  proof (cases "co_Planned opt")
    case None
    with told show ?thesis by (simp add: ret_def beside_def)
  next
    case (Some f)
    with told call show ?thesis by (auto dest: movesD)
  qed
  from 1 2 have 3: "beside tree ok w1 v" by (simp add: beside_def)
  from store_backend.push_run_Ok [OF be sched run] obtain es v' where up: "uploads conc st plan v = (Ok es, v')"
    by blast
  note pushed = store_backend.Copy_push [OF be laws side sched ctx w refs plan 2 up diffs [OF 3 up] run]
  have "\<exists>md. leaf_holds ?L (tree w2) ref p md \<and> image_closed ?L (tree w2) p (d_Digest md)"
    if "ref \<in> set refs" "p \<in> set ?ps" for ref p
    using pushed(4) [of ref p] that by (auto simp: entry_committed_def Let_def)
  with pushed(1,2) show ?thesis by blast
qed

end
