(* ===== verification/Demo_Copy.thy ===== *)
theory Demo_Copy
  imports Copy_Push Demo_Push
begin

text \<open>
  A service whose containers-storage holds the demo image and whose store, on the POSIX model, has been
  pushed to before; the witnesses of package ociimagecopy's properties copy to it.
\<close>

section \<open>Containers-storage with the demo image\<close>

definition demo_record :: image_record where
  "demo_record = \<lparr>ir_ID = ''img'', ir_TopLayer = ''l1''\<rparr>"

definition demo_layer_record :: layer where
  "demo_layer_record =
     \<lparr>ly_ID = ''l1'', ly_Parent = [], ly_UncompressedDigest = demo_diff,
      ly_CompressedDigest = digest_FromBytes demo_lib demo_layer, ly_CompressedSize = 5,
      ly_CompressionType = OtherCompression\<rparr>"

definition demo_layer_store :: "'w layer_store" where
  "demo_layer_store =
     \<lparr>ls_Layer = (\<lambda>i. if i = ''l1'' then ret demo_layer_record else throw (Sentinel ErrNotExist)),
      ls_PutLayer = (\<lambda>i p lo b. throw (Sentinel ErrDuplicateID)),
      ls_DeleteLayer = (\<lambda>i. ret ()),
      ls_Diff = (\<lambda>i. throw (Sentinel ErrNotExist)),
      ls_Image = (\<lambda>n. if n = ''example.com/app:v1'' then ret demo_record else throw (Sentinel ErrNotExist)),
      ls_ImagesByDigest = (\<lambda>d. ret []),
      ls_ImageBigData = (\<lambda>i key.
         if key = ''manifest'' then ret (put_manifest (demo_manifest demo_diff))
         else ret (put_config (demo_config demo_diff))),
      ls_CreateImage = (\<lambda>i t opts. throw (Sentinel ErrDuplicateID)),
      ls_SetImageBigData = (\<lambda>i k b. ret ()),
      ls_AddNames = (\<lambda>i ns. ret ()),
      ls_Shutdown = ret ()\<rparr>"

definition demo_cache :: "'w cache" where
  "demo_cache =
     \<lparr>co_Has = (\<lambda>d. ret (list_ex (\<lambda>b. digest_FromBytes demo_lib b = d) demo_contents)),
      co_Open = memory_Blobs demo_contents,
      co_Fetch = (\<lambda>d r. ret ()),
      co_Put = (\<lambda>mt body. ret (demo_desc mt (fst body)))\<rparr>"

definition demo_registry :: "'w registry_lib" where
  "demo_registry =
     \<lparr>rg_NewReference = (\<lambda>n. None), rg_NewImageSource = (\<lambda>n. throw (HTTPStatus 404)),
      rg_IsMultiImage = (\<lambda>m. False), rg_Instances = (\<lambda>b m. Inr [])\<rparr>"

text \<open>What the demo service opens: \<open>cstorage.Open\<close> with the registry fallback.\<close>

definition demo_cs :: "os cstorage" where
  "demo_cs =
     \<lparr>st_store = demo_layer_store, st_cache = demo_cache,
      st_Fallback = Some (registry_Resolve demo_lib demo_registry os_ctx_Err (registry_New demo_cache (Some []))),
      st_CompressionLevel = 4, st_owned = True, st_zstd = (\<lambda>_ b. b)\<rparr>"

lemma demo_cs_side: "push_side tree ok demo_cs"
  unfolding push_side_def demo_cs_def demo_layer_store_def demo_cache_def
  by (auto simp: memory_Blobs_def section_body_def section_bytes_def intro!: keeps_intros split: option.splits)

lemma demo_cs_ops:
  "ls_Layer (st_store demo_cs) ''l1'' w = (Ok demo_layer_record, w)"
  "ls_Image (st_store demo_cs) ''example.com/app:v1'' w = (Ok demo_record, w)"
  "ls_ImageBigData (st_store demo_cs) i ''manifest'' w = (Ok (put_manifest (demo_manifest demo_diff)), w)"
  "ls_ImageBigData (st_store demo_cs) i (''sha256:'' @ k) w = (Ok (put_config (demo_config demo_diff)), w)"
  "co_Put (st_cache demo_cs) mt body w = (Ok (demo_desc mt (fst body)), w)"
  "co_Open (st_cache demo_cs) d w = memory_Blobs demo_contents d w"
  by (simp_all add: demo_cs_def demo_layer_store_def demo_cache_def ret_def)

lemma demo_ref_String: "reference_String demo_ref = ''example.com/app:v1''"
  by (simp add: demo_ref_def reference_String_def)

lemma demo_ref_back: "types_ParseReference demo_lib (reference_String demo_ref) = Ok demo_ref"
  by code_simp

lemma demo_no_child: "cstorage_indexChild demo_lib (put_manifest (demo_manifest demo_diff)) demo_platform = None"
  by code_simp

abbreviation demo_push_img :: "os image" where
  "demo_push_img \<equiv> push_image demo_lib demo_cs demo_store demo_ref demo_platform (demo_md demo_diff)"

lemma demo_find:
  "cstorage_find demo_lib demo_cs demo_ref demo_platform w =
     (Ok (demo_record, put_manifest (demo_manifest demo_diff)), w)"
proof -
  have "Digest demo_ref = []" by (simp add: demo_ref_def)
  then have c: "cstorage_candidates demo_cs demo_ref w = (Ok ([demo_record], ''manifest''), w)"
    by (simp add: cstorage_candidates_def demo_ref_String ebind_def attempt_def demo_cs_ops ret_def
        ImageDigestBigDataKey_def)
  have d: "d_Digest (m_Config (demo_manifest demo_diff)) = ''sha256:'' @ demo_hash (put_config (demo_config demo_diff))"
    by (simp add: demo_manifest_def demo_blobs_digests demo_digest)
  have "platform_Matches demo_platform (c_Platform (demo_config demo_diff))"
    by (simp add: demo_config_def platform_Matches_def)
  then have "cstorage_platformOf demo_lib demo_cs demo_record (put_manifest (demo_manifest demo_diff)) demo_platform w
      = (Ok True, w)"
    by (simp add: cstorage_platformOf_def unmarshal_def demo_manifest_json d ebind_def demo_cs_ops demo_config_json ret_def
        del: append.simps)
  then show ?thesis
    by (simp add: cstorage_find_def ebind_def c find_candidate.simps attempt_def demo_cs_ops demo_no_child ret_def)
qed

lemma demo_layers:
  "push_layers demo_lib demo_cs demo_store (m_Layers (demo_manifest demo_diff)) [demo_layer_record] w =
     (Ok (m_Layers (demo_manifest demo_diff), True), w)"
proof -
  have ne: "digest_FromBytes demo_lib demo_layer \<noteq> demo_diff" by code_simp
  have "co_Has (st_cache demo_cs) (digest_FromBytes demo_lib demo_layer) w = (Ok True, w)"
    by (simp add: demo_cs_def demo_cache_def demo_contents_def ret_def)
  with ne show ?thesis
    by (simp add: demo_manifest_def push_layer_def push_asIs_def asIs_candidates_def demo_blobs_digests
        demo_layer_record_def ebind_def ret_def)
qed

lemma demo_Resolve: "cstorage_PushSource demo_lib 9 demo_cs demo_store demo_ref demo_platform w = (Ok demo_push_img, w)"
proof -
  let ?m = "demo_manifest demo_diff"
  have chain: "cstorage_layerChain demo_cs 9 (ir_TopLayer demo_record) w = (Ok [demo_layer_record], w)"
    by (simp add: cstorage_layerChain_def demo_record_def layerChain_up.simps ebind_def demo_cs_ops)
      (simp add: demo_layer_record_def layerChain_up.simps ret_def)
  have cfg: "ls_ImageBigData (st_store demo_cs) (ir_ID demo_record) (d_Digest (m_Config ?m)) w =
      (Ok (put_config (demo_config demo_diff)), w)"
    unfolding demo_manifest_def manifest.simps demo_blobs_digests demo_digest by (rule demo_cs_ops(4))
  have len: "length [demo_layer_record] = length (m_Layers ?m)" by (simp add: demo_manifest_def)
  show ?thesis
    unfolding cstorage_PushSource_def pushSource_Resolve_def
    using len
    by (simp add: ebind_def demo_find map_err_def unmarshal_def demo_manifest_json cfg chain demo_layers demo_cs_ops(5) ret_def
        bytes_body_def demo_md_def) (simp add: demo_manifest_def)
qed

section \<open>A copy that has nothing left to upload\<close>

lemma demo_done_blobs: "\<forall>d \<in> set demo_blobs. has_blob demo_lib (demo_tree demo_done) (d_Digest d)"
proof -
  have "has_blob demo_lib (demo_tree (demo_world demo_diff)) (d_Digest d)" if "d \<in> set demo_blobs" for d
    using that
    by (auto simp: demo_blobs_def demo_manifest_def demo_md_def demo_blobs_digests demo_has_blob
        demo_world(2) [OF demo_sizes_diff(1)])
  then show ?thesis using has_blob_mono [OF _ demo_done_grown] by blast
qed

lemma demo_push_dir: "od_Blobs (im_Dir demo_push_img) = push_blobs demo_lib demo_cs demo_store"
  by (simp add: push_image_def store_SingleManifestDir_def Let_def)

lemma demo_push_ImageBlobs: "transfer_ImageBlobs demo_lib demo_push_img w = (Ok demo_blobs, w)"
proof -
  have mem: "put_manifest (demo_manifest demo_diff) \<in> set demo_contents" by (simp add: demo_contents_def)
  have "push_blobs demo_lib demo_cs demo_store (d_Digest (demo_md demo_diff)) w =
      (Ok \<lparr>rd_Size = int (length (put_manifest (demo_manifest demo_diff))),
         rd_Content = put_manifest (demo_manifest demo_diff), rd_Fail = None\<rparr>, w)"
    by (simp add: push_blobs_def ebind_def attempt_def demo_md_digest demo_cs_ops demo_open [OF mem] ret_def)
  then show ?thesis
    by (simp add: transfer_ImageBlobs_def ebind_def demo_push_dir)
      (simp add: push_image_def demo_md_digest read_all_def section_bytes_def demo_manifest_json demo_blobs_def ret_def
        pure_res_def)
qed

lemma demo_again_plan:
  "\<exists>e w1. transfer_PlanPush demo_lib rt (cstorage_PushSource demo_lib 9 demo_cs demo_store) demo_store
       (map reference_String [demo_ref]) (copy_platforms rt [demo_platform]) demo_done =
       (Ok (\<lparr>pl_Entries = [e]\<rparr>, None), w1) \<and>
     en_Image e = demo_push_img \<and> en_Missing e = [] \<and> demo_ok w1 \<and> demo_tree w1 = demo_tree demo_done"
proof -
  let ?e = "\<lparr>en_Image = demo_push_img, en_Missing = [], en_Present = [], en_Fallback = False\<rparr>"
  have "\<forall>d \<in> set demo_blobs. valid_digest demo_lib (d_Digest d)"
    by (simp add: demo_blobs_def demo_manifest_def demo_md_def demo_blobs_digests demo_valid_FromBytes)
  from reliable_backend.diff_loop_up [OF demo_up demo_digest_laws demo_done_ok(1) this] obtain e w1 where
    loop: "diff_loop demo_lib demo_store demo_blobs ?e demo_done = (Ok e, w1)" by blast
  from store_backend.diff_loop_Ok [OF demo_backend demo_digest_laws demo_done_ok(1) loop]
  have e: "demo_tree w1 = demo_tree demo_done" "demo_ok w1" "en_Image e = demo_push_img" "en_Missing e = []"
    using demo_done_blobs by (auto simp: filter_empty_conv)
  have "transfer_PlanPush demo_lib rt (cstorage_PushSource demo_lib 9 demo_cs demo_store) demo_store
       (map reference_String [demo_ref]) (copy_platforms rt [demo_platform]) demo_done =
       (Ok (\<lparr>pl_Entries = [e]\<rparr>, None), w1)"
    by (simp add: transfer_PlanPush_def copy_platforms_def demo_ref_back plan_entry_def ebind_def attempt_def
        demo_Resolve transfer_Diff_def demo_push_ImageBlobs loop ret_def join_errs_def)
  with e show ?thesis by blast
qed

definition demo_uploads :: "os backend \<Rightarrow> os plan \<Rightarrow> (os, gerr list) io" where
  "demo_uploads B p = push_sequential demo_lib B p (transfer_uploads p)"

lemma push_sequential_no_Err: "push_sequential L B p us w \<noteq> (Err e, w')"
  by (induction us arbitrary: w) (auto simp: ebind_Err)

lemma sequential_schedule: "upload_schedule L B conc (\<lambda>p. push_sequential L B p (transfer_uploads p))"
  unfolding upload_schedule_def
proof (intro allI conjI impI)
  fix p w es w1 e
  show "push_sequential L B p (transfer_uploads p) w \<noteq> (Err e, w1)" by (rule push_sequential_no_Err)
  assume run: "push_sequential L B p (transfer_uploads p) w = (Ok es, w1)"
  let ?s = "\<lparr>po_pending = [], po_running = [], po_errs = es\<rparr>"
  have "0 < push_concurrency conc" by (simp add: push_concurrency_def)
  from sequential_run [OF this run, of "[]"]
  have "(push_step L B p (push_concurrency conc))\<^sup>*\<^sup>* (push_start p, w) (?s, w1)" by (simp add: push_start_def)
  then have "(push_step L B p (push_concurrency conc))\<^sup>*\<^sup>* (push_start p, w) (?s, w1) \<and>
      po_pending ?s = [] \<and> po_running ?s = [] \<and> po_errs ?s = es" by (simp only: pool.simps)
  then show "\<exists>s. (push_step L B p (push_concurrency conc))\<^sup>*\<^sup>* (push_start p, w) (s, w1) \<and>
      po_pending s = [] \<and> po_running s = [] \<and> po_errs s = es" by (rule exI)
qed

lemma demo_schedule: "upload_schedule demo_lib B conc (demo_uploads B)"
  using sequential_schedule by (simp add: demo_uploads_def [abs_def])

lemma demo_again_run:
  assumes "demo_ok w1" "demo_tree w1 = demo_tree demo_done" "en_Image e = demo_push_img" "en_Missing e = []"
  shows "demo_uploads demo_store \<lparr>pl_Entries = [e]\<rparr> w1 = (Ok [], w1)"
    and "\<exists>w'. push_run demo_lib os_ctx_Err (demo_uploads demo_store) demo_store \<lparr>pl_Entries = [e]\<rparr> w1 = (Ok (), w')"
proof -
  show up: "demo_uploads demo_store \<lparr>pl_Entries = [e]\<rparr> w1 = (Ok [], w1)"
    by (simp add: demo_uploads_def transfer_uploads_def assms(4) ret_def)
  obtain b where b: "marshal_Index demo_lib (leaf_index demo_ref demo_platform (demo_md demo_diff)) = Inr b"
    using demo_marshal by blast
  obtain md where md: "leaf_holds demo_lib (demo_tree demo_done) demo_ref demo_platform md"
    "d_Digest md = d_Digest (demo_md demo_diff)"
    using demo_commit_safe(2) by blast
  from reliable_backend.Commit_up [OF demo_up demo_digest_laws demo_json_laws demo_leafable assms(1)
      demo_done_data [folded assms(2)] demo_manifest_type demo_diffs_listed b]
  obtain w' where "store_Commit demo_lib demo_store demo_ref demo_platform (demo_md demo_diff) w1 = (Ok (), w')"
    using md assms(2) by auto
  then have "push_commits demo_lib os_ctx_Err demo_store \<lparr>pl_Entries = [e]\<rparr> [] w1 = (Ok (), w')"
    using assms(1)
    by (simp add: push_commits_def push_commit_def assms(3) push_image_def os_ctx_Err_def os_good_def
        ebind_def map_err_def attempt_def ret_def raise_opt_def join_errs_def)
  with up show "\<exists>w'. push_run demo_lib os_ctx_Err (demo_uploads demo_store) demo_store \<lparr>pl_Entries = [e]\<rparr> w1 = (Ok (), w')"
    by (auto simp: push_run_def ebind_def)
qed

section \<open>The service\<close>

definition demo_runtime :: go_runtime where
  "demo_runtime = \<lparr>GOOS = ''linux'', GOARCH = ''amd64'', build_settings = None\<rparr>"

definition demo_s3 :: "'w s3_client" where
  "demo_s3 =
     \<lparr>c_HeadObject = (\<lambda>b k. throw (HTTPStatus 404)), c_GetObject = (\<lambda>b k r. throw (HTTPStatus 404)),
      c_PutObject = (\<lambda>i. throw (HTTPStatus 403)),
      c_ListObjectsV2 = (\<lambda>b p t. ret \<lparr>lo_Contents = [], lo_IsTruncated = None, lo_NextToken = None\<rparr>),
      c_Ranged = (\<lambda>b k e w. ([], None)), c_CreateTemp = ret (), c_CopyTemp = (\<lambda>b. ret ()), c_SeekTemp = ret ()\<rparr>"

definition demo_http :: "('w, unit) http_client" where
  "demo_http =
     \<lparr>h_New = (\<lambda>u. ret ()), h_Probe = (\<lambda>r. throw (HTTPStatus 404)), h_Metadata = (\<lambda>r w. None),
      h_Close = (\<lambda>r. ret ()), h_Ranged = (\<lambda>r w. ([], None)), h_NewRequest = (\<lambda>u. None),
      h_Do = (\<lambda>u. throw (HTTPStatus 404)), h_NotFound = (\<lambda>c. c = 404)\<rparr>"

definition demo_host :: "(os, unit, os_handle, unit, unit) host" where
  "demo_host =
     \<lparr>ho_lib = demo_lib, ho_runtime = demo_runtime,
      ho_url = \<lparr>url_Parse = (\<lambda>s. Inl (Msg ''url'')), url_String = (\<lambda>u. u_Path u), os_Getwd = Inr ''/''\<rparr>,
      ho_EncoderLevel = (\<lambda>s. if s = ''best'' then Some 4 else None), ho_encoder = (\<lambda>_ b. b), ho_memory = 9,
      ho_blobcache_New = (\<lambda>d. ret (demo_cache, ret ())),
      ho_DefaultStoreOptions = ret (), ho_GetStore = (\<lambda>opts. ret demo_layer_store),
      ho_registry = demo_registry, ho_LoadDefaultConfig = (\<lambda>r. ret ()), ho_s3_NewFromConfig = (\<lambda>a e p. demo_s3),
      ho_seeks = (\<lambda>b. True), ho_pages = 1, ho_MkdirAll = (\<lambda>d. ret ()), ho_Stat = (\<lambda>d. ret ()),
      ho_osfs_NewRoot = (\<lambda>d. ret (os_vfs, ret ())), ho_memfs_New = (\<lambda>d. os_vfs), ho_http = demo_http\<rparr>"

definition demo_cfg :: config where
  "demo_cfg =
     \<lparr>cf_CacheDir = ''/cache'', cf_Registries = None, cf_CompressionLevel = ''best'', cf_Concurrency = 4,
      cf_S3 = \<lparr>s3_Endpoint = [], s3_Region = [], s3_UsePathStyle = False\<rparr>\<rparr>"

definition demo_service :: "(os, unit) service" where
  "demo_service =
     \<lparr>sv_cfg = demo_cfg, sv_opt = \<lparr>so_AdjustStorage = None, so_Fallback = None, so_S3Client = None\<rparr>,
      sv_level = 4, sv_cache = None, sv_cs = Some demo_cs, sv_s3 = None\<rparr>"

definition demo_option :: "bool \<Rightarrow> os copy_option" where
  "demo_option dry = \<lparr>co_Platforms = [demo_platform], co_DryRun = dry, co_Planned = None\<rparr>"

definition demo_src :: location where "demo_src = \<lparr>Kind = KindContainersStorage, URL = None\<rparr>"
definition demo_dst :: location where "demo_dst = \<lparr>Kind = KindStore, URL = Some (file_url ''/store'')\<rparr>"

lemma demo_platforms: "copy_platforms rt [demo_platform] = [demo_platform]"
  by (simp add: copy_platforms_def)

lemma demo_transfer:
  assumes "plan = \<lparr>pl_Entries = [e]\<rparr>" "transfer_PlanPush demo_lib demo_runtime
      (cstorage_PushSource demo_lib 9 demo_cs demo_store) demo_store
      (map reference_String [demo_ref]) (copy_platforms demo_runtime [demo_platform]) demo_done = (Ok (plan, None), w1)"
    and "push_run demo_lib os_ctx_Err (demo_uploads demo_store) demo_store plan w1 = (Ok (), w')"
  shows "\<exists>res. copy_transfer demo_host os_ctx_Err demo_uploads True demo_cs demo_store [demo_ref]
      (demo_option False) demo_done = (Ok (res, None), w')"
proof -
  have rec: "result_record r None = (r, None)" for r :: "os result"
    by (simp add: result_record_def flatten_def)
  show ?thesis
    using assms(2,3) newResult_err
    by (simp add: copy_transfer_def copy_run_def demo_host_def demo_option_def copy_plan_def ebind_def copy_finish_def rec
        attempt_def ret_def Let_def)
qed

lemma demo_check: "checkCopy demo_lib demo_src demo_dst [''example.com/app:v1''] = Ok [demo_ref]"
  by code_simp

lemma demo_open_store:
  "service_openStore demo_host os_ctx_Err demo_dst (copy_mode True dry) (demo_service, w) =
     (Ok (demo_store, ret ()), (demo_service, w))"
  by (cases dry) (simp_all add: service_openStore_def demo_dst_def file_url_def copy_mode_def demo_host_def outside_def
      open_root_def ebind_def map_err_def attempt_def ret_def demo_store_def)

lemma demo_copy:
  "\<exists>res w'. service_Copy demo_host os_ctx_Err (\<lambda>n. demo_uploads) demo_src demo_dst [''example.com/app:v1'']
     (demo_option False) (demo_service, demo_done) = (Ok (res, None), (demo_service, w'))"
proof -
  from demo_again_plan [of demo_runtime] obtain e w1 where p: "transfer_PlanPush demo_lib demo_runtime
      (cstorage_PushSource demo_lib 9 demo_cs demo_store) demo_store (map reference_String [demo_ref])
      (copy_platforms demo_runtime [demo_platform]) demo_done = (Ok (\<lparr>pl_Entries = [e]\<rparr>, None), w1)"
    and e: "en_Image e = demo_push_img" "en_Missing e = []" "demo_ok w1" "demo_tree w1 = demo_tree demo_done" by auto
  from demo_again_run(2) [OF e(3,4,1,2)] obtain w' where
    "push_run demo_lib os_ctx_Err (demo_uploads demo_store) demo_store \<lparr>pl_Entries = [e]\<rparr> w1 = (Ok (), w')" by blast
  from demo_transfer [OF refl p this] obtain res where res: "copy_transfer demo_host os_ctx_Err demo_uploads True
      demo_cs demo_store [demo_ref] (demo_option False) demo_done = (Ok (res, None), w')" by blast
  have cs: "service_containersStorage demo_host os_ctx_Err (demo_service, demo_done) = (Ok demo_cs, (demo_service, demo_done))"
    by (simp add: service_containersStorage_def ebind_def field_def demo_service_def ret_def)
  have lib: "ho_lib demo_host = demo_lib" "Kind demo_src = KindContainersStorage" "co_DryRun (demo_option False) = False"
    by (simp_all add: demo_host_def demo_src_def demo_option_def)
  have "service_Copy demo_host os_ctx_Err (\<lambda>n. demo_uploads) demo_src demo_dst [''example.com/app:v1'']
     (demo_option False) (demo_service, demo_done) = (Ok (res, None), (demo_service, w'))"
    using demo_open_store [of False demo_done] res
    by (simp add: service_Copy_def lib demo_check or_return_def ebind_def attempt_def pure_res_def cs Let_def
        finally_do_def outside_def field_def ret_def)
  then show ?thesis by blast
qed

text \<open>The same by a service that has opened nothing yet.\<close>

definition demo_fresh :: "config \<Rightarrow> (os, unit) service" where
  "demo_fresh cfg =
     \<lparr>sv_cfg = cfg, sv_opt = \<lparr>so_AdjustStorage = None, so_Fallback = None, so_S3Client = None\<rparr>,
      sv_level = 4, sv_cache = None, sv_cs = None, sv_s3 = None\<rparr>"

lemma demo_fresh_cs:
  assumes "cf_CacheDir cfg \<noteq> []" "cf_Registries cfg = None"
  shows "\<exists>svc. service_containersStorage demo_host os_ctx_Err (demo_fresh cfg, w) = (Ok demo_cs, (svc, w)) \<and> sv_cfg svc = cfg"
  using assms
  by (simp add: service_containersStorage_def service_blobCache_def ebind_def field_def demo_fresh_def ret_def
      outside_def assign_def map_err_def demo_host_def cstorage_Open_def cstorage_New_def demo_cs_def Let_def)

lemma demo_fresh_copy:
  assumes "cf_CacheDir cfg \<noteq> []" "cf_Registries cfg = None"
  shows "\<exists>res sw. service_Copy demo_host os_ctx_Err (\<lambda>n. demo_uploads) demo_src demo_dst [''example.com/app:v1'']
     (demo_option False) (demo_fresh cfg, demo_done) = (Ok (res, None), sw)"
proof -
  from demo_again_plan [of demo_runtime] obtain e w1 where p: "transfer_PlanPush demo_lib demo_runtime
      (cstorage_PushSource demo_lib 9 demo_cs demo_store) demo_store (map reference_String [demo_ref])
      (copy_platforms demo_runtime [demo_platform]) demo_done = (Ok (\<lparr>pl_Entries = [e]\<rparr>, None), w1)"
    and e: "en_Image e = demo_push_img" "en_Missing e = []" "demo_ok w1" "demo_tree w1 = demo_tree demo_done" by auto
  from demo_again_run(2) [OF e(3,4,1,2)] obtain w' where
    "push_run demo_lib os_ctx_Err (demo_uploads demo_store) demo_store \<lparr>pl_Entries = [e]\<rparr> w1 = (Ok (), w')" by blast
  from demo_transfer [OF refl p this] obtain res where res: "copy_transfer demo_host os_ctx_Err demo_uploads True
      demo_cs demo_store [demo_ref] (demo_option False) demo_done = (Ok (res, None), w')" by blast
  from demo_fresh_cs [OF assms] obtain svc where cs: "service_containersStorage demo_host os_ctx_Err
      (demo_fresh cfg, demo_done) = (Ok demo_cs, (svc, demo_done))" by blast
  have store: "service_openStore demo_host os_ctx_Err demo_dst (copy_mode True False) (svc, demo_done) =
     (Ok (demo_store, ret ()), (svc, demo_done))"
    by (simp add: service_openStore_def demo_dst_def file_url_def copy_mode_def demo_host_def outside_def
      open_root_def ebind_def map_err_def ret_def demo_store_def)
  have lib: "ho_lib demo_host = demo_lib" "Kind demo_src = KindContainersStorage" "co_DryRun (demo_option False) = False"
    by (simp_all add: demo_host_def demo_src_def demo_option_def)
  have "service_Copy demo_host os_ctx_Err (\<lambda>n. demo_uploads) demo_src demo_dst [''example.com/app:v1'']
     (demo_option False) (demo_fresh cfg, demo_done) = (Ok (res, None), (svc, w'))"
    using store res
    by (simp add: service_Copy_def lib demo_check or_return_def ebind_def attempt_def pure_res_def cs Let_def
        finally_do_def outside_def field_def ret_def)
  then show ?thesis by blast
qed

end
