(* ===== verification/Copy_Properties.thy ===== *)
theory Copy_Properties
  imports Demo_Copy
begin

text \<open>
  The properties of package ociimagecopy's \<open>Copy\<close>: its checks, its reports, its dry run, and a push from
  containers-storage into a store from the first call to the last commit.
\<close>

text \<open>
  C29: \<open>Copy\<close> checks its arguments before it opens anything: a wrong one is a usage error, the one
  \<open>ValidateCopy\<close> reports, and nothing has been called. Otherwise the direction is one of the two
  supported, the destination can be written, every image parses, and the references are those of the
  images, each once.
\<close>

theorem copy_checks_first:
  "case checkCopy (ho_lib H) src dst images of
     Err e \<Rightarrow> IsUsage e \<and> ValidateCopy (ho_lib H) src dst images = Ok (Some e) \<and>
       service_Copy H ctx_Err uploads src dst images opt sw = (Ok (no_result, Some e), sw)
   | Ok refs \<Rightarrow> ValidateCopy (ho_lib H) src dst images = Ok None \<and>
       location_validate src = None \<and> location_Writable dst \<and>
       {Kind src, Kind dst} = {KindStore, KindContainersStorage} \<and>
       refs \<noteq> [] \<and> distinct (map reference_String refs) \<and> all_parse (ho_lib H) images \<and>
       set refs \<subseteq> parsed (ho_lib H) images \<and>
       reference_String ` set refs = reference_String ` parsed (ho_lib H) images
   | Panic \<Rightarrow> False"
proof (cases "checkCopy (ho_lib H) src dst images")
  case (Ok refs)
  from checkCopy_Ok [OF Ok] parseSet_Ok [of "ho_lib H" images refs] Ok show ?thesis
    by (auto simp: ValidateCopy_def)
next
  case (Err e)
  from checkCopy_Err [OF Err] Err show ?thesis
    by (simp add: ValidateCopy_def service_Copy_def or_return_def ebind_def attempt_def pure_res_def ret_def)
qed (simp add: checkCopy_no_panic)

text \<open>
  C30: \<open>Copy\<close> hides no failure. Past its checks and openings its result has one row per image and
  platform in the order asked for; and when it returns no error, planning had none, every row is free
  of errors, and, unless it is a dry run, the push or pull of the plan returned without an error: of the
  plan made for these references between the containers-storage and the store that were opened for these
  locations, carried out in the world that planning left.
\<close>

theorem copy_reports:
  assumes "\<And>n st. upload_schedule (ho_lib H) st n (uploads n st)"
    and "service_Copy H ctx_Err uploads src dst images opt sw = (Ok (res, err), sw')"
  shows "res = no_result \<and> err \<noteq> None \<or>
    (\<exists>refs. checkCopy (ho_lib H) src dst images = Ok refs \<and>
       row_keys (rs_Entries res) = List.product refs (copy_platforms (ho_runtime H) (co_Platforms opt)) \<and>
       (err = None \<longrightarrow> (\<forall>er \<in> set (rs_Entries res). er_Err er = None) \<and>
          (\<exists>cs st w1 w2. carried_out H ctx_Err uploads src dst refs opt (rs_Plan res) cs st w1 w2 sw sw')))"
  by (rule Copy_run [OF assms(2,1)])

theorem copy_reports_witness:
  "\<exists>res sw'. service_Copy demo_host os_ctx_Err (\<lambda>n. demo_uploads) demo_src demo_dst [''example.com/app:v1'']
       (demo_option False) (demo_service, demo_done) = (Ok (res, None), sw') \<and>
     row_keys (rs_Entries res) = [(demo_ref, demo_platform)]"
proof -
  obtain res w' where run: "service_Copy demo_host os_ctx_Err (\<lambda>n. demo_uploads) demo_src demo_dst
      [''example.com/app:v1''] (demo_option False) (demo_service, demo_done) = (Ok (res, None), (demo_service, w'))"
    using demo_copy by blast
  have sched: "upload_schedule (ho_lib demo_host) st n (demo_uploads st)" for n st
    by (simp add: demo_host_def demo_schedule)
  from copy_reports [of demo_host "\<lambda>n. demo_uploads", OF sched run] run show ?thesis
    by (auto simp: demo_host_def demo_check demo_option_def demo_platforms)
qed

text \<open>
  C31: a dry run carries nothing out: it makes no store directory and starts no upload, so \<open>Copy\<close> with
  \<open>DryRun\<close> does the same, call by call, on a host that makes directories in another way and under any
  other transfer.
\<close>

theorem copy_dry_run:
  assumes "co_DryRun opt"
  shows "service_Copy H ctx_Err uploads src dst images opt =
    service_Copy (H\<lparr>ho_MkdirAll := mk\<rparr>) ctx_Err uploads' src dst images opt"
proof -
  have mode: "copy_mode push True \<noteq> create" for push by (simp add: copy_mode_def)
  have root: "open_root (H\<lparr>ho_MkdirAll := mk\<rparr>) = open_root H"
    and s3: "service_s3Client (H\<lparr>ho_MkdirAll := mk\<rparr>) = service_s3Client H"
    and cache: "service_blobCache (H\<lparr>ho_MkdirAll := mk\<rparr>) = service_blobCache H"
    by (intro ext, simp add: open_root_def)
      (cases H, simp only: host.update_convs host.select_convs service_s3Client_def service_blobCache_def)+
  have "service_openStore (H\<lparr>ho_MkdirAll := mk\<rparr>) ctx_Err loc m = service_openStore H ctx_Err loc m" if "m \<noteq> create" for loc m
    using that by (cases m; cases "URL loc") (simp_all add: service_openStore_def root s3 cong: if_cong)
  moreover have "service_containersStorage (H\<lparr>ho_MkdirAll := mk\<rparr>) ctx_Err = service_containersStorage H ctx_Err"
    by (unfold service_containersStorage_def cache, cases H, simp only: host.update_convs host.select_convs)
  moreover have "copy_transfer (H\<lparr>ho_MkdirAll := mk\<rparr>) ctx_Err (uploads' c) push cs st refs opt =
      copy_transfer H ctx_Err (uploads c) push cs st refs opt" for c push cs st refs
  proof -
    have "copy_finish opt r refs ps = copy_finish opt r' refs ps" for r r' refs ps
      by (rule ext, rule ext) (simp only: copy_finish_def assms if_True split: prod.split)
    then show ?thesis unfolding copy_transfer_def by (simp add: Let_def) metis
  qed
  ultimately show ?thesis by (simp add: service_Copy_def assms mode Let_def)
qed

theorem copy_dry_run_witness:
  "service_Copy demo_host os_ctx_Err (\<lambda>n. demo_uploads) demo_src demo_dst [''example.com/app:v1''] (demo_option True) =
   service_Copy (demo_host\<lparr>ho_MkdirAll := \<lambda>d. throw (Msg ''read-only file system'')\<rparr>) os_ctx_Err
     (\<lambda>n B p. throw (Msg ''no upload'')) demo_src demo_dst [''example.com/app:v1''] (demo_option True)"
  by (rule copy_dry_run) (simp add: demo_option_def)

text \<open>
  C32: a push from containers-storage that \<open>Copy\<close> reports as a success is one: for every image and
  platform asked for, the row names the manifest the store's leaf now holds, with a complete and
  verified image behind it, and no file of the store has changed or vanished.
\<close>

theorem copy_push_complete:
  assumes "store_backend (ho_lib H) B tree ok" "digest_laws (ho_lib H)" "json_laws (ho_lib H)"
    and "push_side tree ok cs" "upload_schedule (ho_lib H) B conc (uploads B)" "moves (beside tree ok) ctx_Err"
    and "ok w" "store_inv (ho_lib H) (tree w)"
    and "\<forall>r \<in> set refs. types_ParseReference (ho_lib H) (reference_String r) = Ok r \<and>
      (\<forall>p \<in> set (copy_platforms (ho_runtime H) (co_Platforms opt)). leafable (ho_lib H) r p)"
    and "transfer_PlanPush (ho_lib H) (ho_runtime H) (cstorage_PushSource (ho_lib H) (ho_memory H) cs B) B
      (map reference_String refs) (copy_platforms (ho_runtime H) (co_Platforms opt)) w = (Ok (plan, planErr), w1)"
    and "uploads B plan w1 = (Ok es, w2)" "diff_ids_valid (ho_lib H) (tree w2)"
    and "co_Planned opt = None" "\<not> co_DryRun opt"
    and "copy_transfer H ctx_Err uploads True cs B refs opt w = (Ok (res, None), w')"
    and "ref \<in> set refs" "p \<in> set (copy_platforms (ho_runtime H) (co_Platforms opt))"
  shows "tree w \<subseteq>\<^sub>m tree w' \<and> store_inv (ho_lib H) (tree w') \<and>
    (\<exists>er \<in> set (rs_Entries res). er_Ref er = ref \<and> er_Platform er = p \<and> er_Err er = None \<and>
       image_closed (ho_lib H) (tree w') p (er_Manifest er) \<and>
       (\<exists>md. leaf_holds (ho_lib H) (tree w') ref p md \<and> d_Digest md = er_Manifest er))"
proof -
  let ?ps = "copy_platforms (ho_runtime H) (co_Platforms opt)"
  have plan: "copy_plan (ho_lib H) (ho_runtime H) (ho_memory H) True cs B (map reference_String refs) ?ps w =
      (Ok (plan, planErr), w1)" using assms(10) by (simp add: copy_plan_def)
  with assms(15) have fin: "copy_finish opt (copy_run H ctx_Err uploads True cs B) refs ?ps (plan, planErr) w1 = (Ok (res, None), w')"
    by (simp add: copy_transfer_def Let_def ebind_def)
  obtain run: "copy_run H ctx_Err uploads True cs B plan w1 = (Ok (), w')" and res: "planErr = None" "res = newResult refs ?ps plan"
    using copy_finish_pushed [OF fin copy_plan_sound [OF plan] _ assms(13,14)] push_run_sound [OF assms(5)]
    by (auto simp: copy_run_def)
  have told: "beside tree ok w1 w1" by (simp add: beside_def)
  note push = store_backend.Copy_push [OF assms(1-9) assms(10) [unfolded res(1)] told assms(11,12)
      run [unfolded copy_run_def if_True]]
  from push(4) [of ref p] assms(16,17) obtain e where e: "e \<in> set (pl_Entries plan)" "im_Ref (en_Image e) = ref"
    "im_Platform (en_Image e) = p" "entry_committed (ho_lib H) (tree w') e" by auto
  then have "row_of e \<in> set (rs_Entries res)" by (simp add: push(3) res(2))
  with e push(1,2) show ?thesis
    by (intro conjI bexI [of _ "row_of e"])
      (auto simp: row_of_def from_entry_def no_entry_def entry_committed_def Let_def)
qed

theorem copy_push_complete_witness:
  "\<exists>res w'. copy_transfer demo_host os_ctx_Err demo_uploads True demo_cs demo_store [demo_ref]
       (demo_option False) demo_done = (Ok (res, None), w') \<and>
     (\<exists>er \<in> set (rs_Entries res). er_Ref er = demo_ref \<and>
        image_closed demo_lib (demo_tree w') demo_platform (er_Manifest er))"
proof -
  let ?ps = "copy_platforms demo_runtime [demo_platform]"
  from demo_again_plan [of demo_runtime] obtain e w1 where p: "transfer_PlanPush demo_lib demo_runtime
      (cstorage_PushSource demo_lib 9 demo_cs demo_store) demo_store (map reference_String [demo_ref])
      ?ps demo_done = (Ok (\<lparr>pl_Entries = [e]\<rparr>, None), w1)"
    and e: "en_Image e = demo_push_img" "en_Missing e = []" "demo_ok w1" "demo_tree w1 = demo_tree demo_done" by auto
  note up = demo_again_run [OF e(3,4,1,2)]
  from up(2) obtain w' where
    "push_run demo_lib os_ctx_Err (demo_uploads demo_store) demo_store \<lparr>pl_Entries = [e]\<rparr> w1 = (Ok (), w')" by blast
  from demo_transfer [OF refl p this] obtain res where run: "copy_transfer demo_host os_ctx_Err demo_uploads True
      demo_cs demo_store [demo_ref] (demo_option False) demo_done = (Ok (res, None), w')" by blast
  have H: "ho_lib demo_host = demo_lib" "ho_runtime demo_host = demo_runtime" "ho_memory demo_host = 9"
    "co_Platforms (demo_option False) = [demo_platform]" "co_Planned (demo_option False) = None"
    "\<not> co_DryRun (demo_option False)"
    by (simp_all add: demo_host_def demo_option_def)
  have ctx: "moves (beside demo_tree (\<lambda>w. demo_ok w)) os_ctx_Err"
    using demo_ctx_reads by (simp add: moves_def beside_def)
  have refs: "\<forall>r \<in> set [demo_ref]. types_ParseReference demo_lib (reference_String r) = Ok r \<and>
      (\<forall>p \<in> set ?ps. leafable demo_lib r p)"
    using demo_ref_back demo_leafable by (simp add: demo_platforms)
  have diffs: "diff_ids_valid demo_lib (demo_tree w1)" using demo_done_ok(3) e(4) by simp
  from copy_push_complete [where H = demo_host and opt = "demo_option False" and uploads = demo_uploads and B = demo_store
      and conc = 4 and tree = demo_tree and ok = "\<lambda>w. demo_ok w" and ref = demo_ref and p = demo_platform,
      unfolded H(1-4), OF demo_backend demo_digest_laws demo_json_laws
      demo_cs_side demo_schedule ctx demo_done_ok(1,2) refs p up(1) diffs H(5,6) run] run
  show ?thesis by (auto simp: demo_platforms)
qed

end
