(* ===== verification/Settings_Properties.thy ===== *)
theory Settings_Properties
  imports Location Config
begin

text \<open>
  The properties of what a user gives package ociimagecopy: locations and configuration.
\<close>

text \<open>
  C34: \<open>ParseLocation\<close> refuses with \<open>ErrInvalidLocation\<close> or gives a location that validates. A location
  of a filesystem store has a clean absolute path and prints as a text that parses to it, whatever the
  working directory is by then; and a location can be written unless it is a store behind HTTP.
\<close>

theorem parse_location_sound:
  assumes "\<And>wd. os_Getwd E = Inr wd \<Longrightarrow> filepath_IsAbs wd"
  shows "case ParseLocation E s of
      Err e \<Rightarrow> err_is e ErrInvalidLocation
    | Panic \<Rightarrow> False
    | Ok l \<Rightarrow> location_validate l = None \<and>
        (case URL l of
           None \<Rightarrow> Kind l = KindContainersStorage \<and> location_Writable l
         | Some u \<Rightarrow> Kind l = KindStore \<and>
             (location_Writable l \<longleftrightarrow> u_Scheme u \<notin> {''http'', ''https''}) \<and>
             (u_Scheme u = ''file'' \<longrightarrow> clean_abs (u_Path u) \<and> ParseLocation E' (location_String E l) = Ok l))"
proof (cases "ParseLocation E s")
  case (Ok l)
  note v = ParseLocation_validates [OF Ok]
  show ?thesis
  proof (cases "URL l")
    case None
    with v have "Kind l = KindContainersStorage" by (auto simp: location_validate_def split: kind.splits)
    with Ok v None show ?thesis by (simp add: location_Writable_def)
  next
    case (Some u)
    have k: "Kind l = KindStore"
      using Ok Some by (auto simp: ParseLocation_def Let_def split: if_splits option.splits res.splits sum.splits)
    then have "location_Writable l \<longleftrightarrow> u_Scheme u \<notin> {''http'', ''https''}"
      using v Some by (auto simp: location_Writable_def location_validate_def split: if_splits)
    moreover have "clean_abs (u_Path u) \<and> ParseLocation E' (location_String E l) = Ok l" if f: "u_Scheme u = ''file''"
    proof -
      from ParseLocation_file [OF Ok Some f assms] have c: "clean_abs (u_Path u)"
        "l = \<lparr>Kind = KindStore, URL = Some (file_url (u_Path u))\<rparr>" by auto
      then have "location_String E l = storePrefix @ u_Path u"
        by (subst c(2)) (simp add: location_String_def file_url_def)
      with ParseLocation_back [OF c(1)] c show ?thesis by simp
    qed
    ultimately show ?thesis using Ok v Some k by simp
  qed
qed (auto simp: ParseLocation_no_panic dest: ParseLocation_err)

definition demo_urls :: url_env where
  "demo_urls = \<lparr>url_Parse = (\<lambda>s. Inl (Msg ''url'')), url_String = u_Path, os_Getwd = Inr ''/home/me''\<rparr>"

theorem parse_location_sound_witness:
  "ParseLocation demo_urls ''store:../img//a'' = Ok \<lparr>Kind = KindStore, URL = Some (file_url ''/home/img/a'')\<rparr> \<and>
   location_Writable \<lparr>Kind = KindStore, URL = Some (file_url ''/home/img/a'')\<rparr>"
proof -
  have run: "ParseLocation demo_urls ''store:../img//a'' = Ok \<lparr>Kind = KindStore, URL = Some (file_url ''/home/img/a'')\<rparr>"
    by code_simp
  have "\<And>wd. os_Getwd demo_urls = Inr wd \<Longrightarrow> filepath_IsAbs wd"
    by (simp add: demo_urls_def filepath_IsAbs_def has_prefix_def)
  from parse_location_sound [where E = demo_urls and s = "''store:../img//a''", OF this] run show ?thesis
    by (simp add: file_url_def)
qed

text \<open>The file that is read, what it sets, and a configuration made of two layers over the defaults.\<close>

definition reads_path :: "config_env \<Rightarrow> string \<Rightarrow> string \<Rightarrow> bool" where
  "reads_path E flagPath path \<longleftrightarrow>
     (if flagPath \<noteq> [] then path = flagPath
      else case os_LookupEnv E ''OCI_IMAGE_COPY_CONF'' of
        Some p \<Rightarrow> path = p
      | None \<Rightarrow> \<exists>dir. os_UserConfigDir E = Inr dir \<and> path = path_Join [dir, ''oci-image-copy'', ''config.json''])"

definition file_layer :: "config_env \<Rightarrow> string \<Rightarrow> partial_config \<Rightarrow> bool" where
  "file_layer E path q \<longleftrightarrow>
     (case os_ReadFile E path of
        Inl e \<Rightarrow> err_is e ErrNotExist \<and> q = empty_partial
      | Inr b \<Rightarrow> json_PartialConfig E b = Inr q)"

definition layered :: "config_env \<Rightarrow> partial_config \<Rightarrow> partial_config \<Rightarrow> config \<Rightarrow> bool" where
  "layered E p q cfg \<longleftrightarrow>
     cf_CacheDir cfg = the_or (pc_CacheDir p) (the_or (pc_CacheDir q)
       (case os_UserCacheDir E of Inl _ \<Rightarrow> [] | Inr dir \<Rightarrow> path_Join [dir, ''oci-image-copy''])) \<and>
     cf_Registries cfg = or_else (pc_Registries p) (pc_Registries q) \<and>
     cf_CompressionLevel cfg = the_or (pc_CompressionLevel p) (the_or (pc_CompressionLevel q) ''best'') \<and>
     cf_Concurrency cfg = the_or (pc_Concurrency p) (the_or (pc_Concurrency q) 4) \<and>
     s3_Endpoint (cf_S3 cfg) = the_or (p3_Endpoint (pc_S3 p)) (the_or (p3_Endpoint (pc_S3 q)) []) \<and>
     s3_Region (cf_S3 cfg) = the_or (p3_Region (pc_S3 p)) (the_or (p3_Region (pc_S3 q)) []) \<and>
     s3_UsePathStyle (cf_S3 cfg) = the_or (p3_UsePathStyle (pc_S3 p)) (the_or (p3_UsePathStyle (pc_S3 q)) False)"

lemma configPath_reads: "configPath E f = Ok path \<longleftrightarrow> reads_path E f path"
  by (auto simp: configPath_def reads_path_def ENV_OCI_IMAGE_COPY_CONF_def defaultConfigDir_def split: option.split sum.split)

lemma unmarshal_layer: "unmarshalConfigFile E path = Ok q \<longleftrightarrow> file_layer E path q"
  by (auto simp: unmarshalConfigFile_def file_layer_def split: sum.split)

lemma layered_Apply: "layered E p q (config_Apply (overlay p q) (DefaultConfig E))"
  by (simp add: layered_def config_Apply_fields overlay_def s3_Apply_fields DefaultConfig_def defaultConfigDir_def cong: sum.case_cong)

lemma overlay_empty: "overlay empty_partial q = q"
  by (simp add: overlay_def empty_partial_def)

text \<open>
  C35: the configuration is laid in layers. The file is the one the flag names, else the one the environment
  names, else the one in the user's directory. Without an error each field is that of the environment where it
  sets one, else that of the file, else the default, and a file that is not there sets nothing. An error is
  \<open>ErrInvalidConfig\<close> and comes with the layers below the one that failed: the file's over the defaults when it
  is the environment, the defaults alone when the file cannot be named, read or parsed.
\<close>

theorem load_config_layers:
  "case LoadConfig E flagPath of
     (cfg, None) \<Rightarrow> (\<exists>path p q. reads_path E flagPath path \<and> file_layer E path q \<and>
        env_ParseWithOptions E ''OCI_IMAGE_COPY_'' = Inr p \<and> layered E p q cfg)
   | (cfg, Some e) \<Rightarrow> err_is e ErrInvalidConfig \<and>
        (if \<exists>path q. reads_path E flagPath path \<and> file_layer E path q
         then \<exists>path q e'. reads_path E flagPath path \<and> file_layer E path q \<and>
           env_ParseWithOptions E ''OCI_IMAGE_COPY_'' = Inl e' \<and> layered E empty_partial q cfg
         else layered E empty_partial empty_partial cfg)"
proof (cases "LoadConfig E flagPath")
  case (Pair cfg err)
  show ?thesis
  proof (cases err)
    case None
    with Pair obtain path p q where "configPath E flagPath = Ok path" "unmarshalConfigFile E path = Ok q"
      "env_ParseWithOptions E EnvPrefix = Inr p" "cfg = config_Apply (overlay p q) (DefaultConfig E)"
      by (auto elim: LoadConfig_Ok)
    with layered_Apply [of E p q] show ?thesis
      unfolding Pair None prod.case option.case configPath_reads unmarshal_layer EnvPrefix_def by blast
  next
    case (Some e)
    with Pair have e: "err_is e ErrInvalidConfig" by (auto dest: LoadConfig_err)
    have no_panic: "configPath E flagPath \<noteq> Panic" "unmarshalConfigFile E path \<noteq> Panic" for path
      by (rule configPath_cases(1), rule unmarshal_cases(1))
    show ?thesis
    proof (cases "\<exists>path q. reads_path E flagPath path \<and> file_layer E path q")
      case True
      then obtain path q where read: "configPath E flagPath = Ok path" "unmarshalConfigFile E path = Ok q"
        by (auto simp: configPath_reads unmarshal_layer)
      with Pair Some obtain e' where env: "env_ParseWithOptions E EnvPrefix = Inl e'" "cfg = config_Apply q (DefaultConfig E)"
        by (auto simp: LoadConfig_def Let_def split: sum.splits)
      from layered_Apply [of E empty_partial q] env(2) have "layered E empty_partial q cfg" by (simp add: overlay_empty)
      with read env(1) e True show ?thesis
        unfolding Pair Some prod.case option.case if_P [OF True] configPath_reads unmarshal_layer EnvPrefix_def by blast
    next
      case False
      then have "\<not> (configPath E flagPath = Ok path \<and> unmarshalConfigFile E path = Ok q)" for path q
        by (auto simp: configPath_reads unmarshal_layer)
      with Pair Some no_panic have "cfg = DefaultConfig E"
        by (auto simp: LoadConfig_def Let_def split: res.splits sum.splits)
      with layered_Apply [of E empty_partial empty_partial] have "layered E empty_partial empty_partial cfg"
        by (simp add: overlay_empty config_Apply_empty)
      with e show ?thesis unfolding Pair Some prod.case option.case if_not_P [OF False] by blast
    qed
  qed
qed

end
