(* ===== verification/Registry_Facts.thy ===== *)
theory Registry_Facts
  imports Registry
begin

text \<open>
  What \<open>Resolve\<close> of a registry source guarantees over every cache that keeps the contract, and over any
  registry at all: what the registry sends is checked or content-addressed.
\<close>

text \<open>The calls of the library touch nothing of the cache; \<open>R\<close> is the cache's \<open>grows\<close>.\<close>

definition registry_side :: "('w \<Rightarrow> 'w \<Rightarrow> bool) \<Rightarrow> 'w registry_lib \<Rightarrow> ('w, unit) io \<Rightarrow> bool" where
  "registry_side R rg ctx_Err \<longleftrightarrow>
     moves R ctx_Err \<and> (\<forall>n. moves R (rg_NewImageSource rg n)) \<and>
     (\<forall>n w src w'. rg_NewImageSource rg n w = (Ok src, w') \<longrightarrow>
        (\<forall>x. moves R (is_GetManifest src x)) \<and> (\<forall>d n. moves R (is_GetBlob src d n)))"

text \<open>The manifest a run of \<open>pull\<close> has found, with what it was checked against.\<close>

definition manifest_checked :: "oci_lib \<Rightarrow> 'w registry_lib \<Rightarrow> reference \<Rightarrow> platform \<Rightarrow> bytes \<Rightarrow> bool" where
  "manifest_checked L rg ref p mb \<longleftrightarrow>
     (\<exists>topl mime. (Digest ref \<noteq> [] \<longrightarrow> digest_FromBytes L topl = Digest ref) \<and>
        (if rg_IsMultiImage rg mime
         then registry_selectInstance rg topl mime p = Ok (digest_FromBytes L mb)
         else mb = topl))"

lemma registry_manifest_Ok:
  "registry_manifest L rg src ref p w = (Ok (mb, mt), w') \<Longrightarrow> manifest_checked L rg ref p mb"
  unfolding registry_manifest_def manifest_checked_def
  by (auto simp: ebind_Ok split: if_splits; blast)

text \<open>A complete, verified image in the cache.\<close>

definition image_cached ::
  "oci_lib \<Rightarrow> (string \<Rightarrow> bool) \<Rightarrow> 'w registry_lib \<Rightarrow> reference \<Rightarrow> platform \<Rightarrow> 'w image \<Rightarrow> bool" where
  "image_cached L held rg ref p im \<longleftrightarrow> im_Ref im = ref \<and> im_Platform im = p \<and>
     (\<exists>mb m cb cfg. manifest_checked L rg ref p mb \<and> d_Digest (im_Manifest im) = digest_FromBytes L mb \<and>
        json_Manifest L mb = Inr m \<and> held (d_Digest (im_Manifest im)) \<and>
        digest_matches L (d_Digest (m_Config m)) cb \<and> json_Image L cb = Inr cfg \<and>
        platform_Matches p (c_Platform cfg) \<and>
        (\<forall>l \<in> set (m_Layers m @ [m_Config m]). held (d_Digest l)))"

lemma registry_decode_Ok [io_ok]: "registry_decode x w = (Ok v, w') \<longleftrightarrow> x = Inr v \<and> w' = w"
  by (auto simp: registry_decode_def split: sum.splits)

context blob_cache
begin

lemma moves_registry_fetch:
  assumes "rs_cache s = C" "\<And>d n. moves grows (is_GetBlob src d n)"
  shows "moves grows (registry_fetch s src d)"
  unfolding registry_fetch_def assms(1) by (auto intro!: grows_intros assms(2))

lemma registry_fetch_Ok:
  assumes s: "rs_cache s = C" and src: "\<And>d n. moves grows (is_GetBlob src d n)"
    and run: "sane w" "registry_fetch s src d w = (Ok b, w')"
  shows "holds w' (d_Digest d)"
    "d_MediaType d = MediaTypeImageConfig \<or> d_MediaType d = MediaTypeDockerConfig \<Longrightarrow> digest_matches L (d_Digest d) b"
    "\<not> (d_MediaType d = MediaTypeImageConfig \<or> d_MediaType d = MediaTypeDockerConfig) \<Longrightarrow> b = []"
proof -
  let ?open = "if d_MediaType d = MediaTypeImageConfig \<or> d_MediaType d = MediaTypeDockerConfig
       then ebind (co_Open C (d_Digest d)) (\<lambda>r. pure_res (read_all r)) else ret []"
  from run(2) obtain has w1 w2 where has: "co_Has C (d_Digest d) w = (Ok has, w1)"
    and get: "(if has then ret ()
            else
              ebind (is_GetBlob src (d_Digest d) (d_Size d)) (\<lambda>rc.
              ebind (co_Put C (d_MediaType d) rc) (\<lambda>got.
                if d_Digest got \<noteq> d_Digest d \<or> d_Size got \<noteq> d_Size d
                then throw (Wrap1 ''blob arrived as'' (Sentinel ErrMismatch))
                else ret ()))) w1 = (Ok (), w2)"
    and opened: "?open w2 = (Ok b, w')"
    unfolding registry_fetch_def s by (auto simp: ebind_Ok)
  from has_step [OF run(1) has] have w1: "sane w1" by blast
  have w2: "sane w2 \<and> holds w2 (d_Digest d)"
  proof (cases has)
    case True
    with get has_true [OF run(1), of "d_Digest d" w1] has w1 show ?thesis by simp
  next
    case False
    with get obtain rc u got where u: "is_GetBlob src (d_Digest d) (d_Size d) w1 = (Ok rc, u)"
      and put: "co_Put C (d_MediaType d) rc u = (Ok got, w2)" and got: "d_Digest got = d_Digest d"
      by (auto simp: ebind_Ok split: if_splits)
    from movesD [OF src u] w1 have "sane u" by (simp add: grows_def)
    from put_step [OF this put] got show ?thesis by auto
  qed
  from opened consider
      (config) rd where "d_MediaType d = MediaTypeImageConfig \<or> d_MediaType d = MediaTypeDockerConfig"
        "co_Open C (d_Digest d) w2 = (Ok rd, w')" "read_all rd = Ok b"
    | (other) "\<not> (d_MediaType d = MediaTypeImageConfig \<or> d_MediaType d = MediaTypeDockerConfig)" "b = []" "w' = w2"
    by (auto simp: ebind_Ok split: if_splits)
  then have "holds w' (d_Digest d) \<and>
      (if d_MediaType d = MediaTypeImageConfig \<or> d_MediaType d = MediaTypeDockerConfig
       then digest_matches L (d_Digest d) b else b = [])"
  proof cases
    case (config rd)
    with open_step [OF conjunct1 [OF w2] config(2)] open_read [OF conjunct1 [OF w2] config(2,3)] w2
    show ?thesis by simp
  qed (use w2 in simp)
  then show "holds w' (d_Digest d)"
    "d_MediaType d = MediaTypeImageConfig \<or> d_MediaType d = MediaTypeDockerConfig \<Longrightarrow> digest_matches L (d_Digest d) b"
    "\<not> (d_MediaType d = MediaTypeImageConfig \<or> d_MediaType d = MediaTypeDockerConfig) \<Longrightarrow> b = []"
    by (auto split: if_splits)
qed

lemma moves_registry_pull:
  assumes s: "rs_cache s = C" and side: "registry_side grows rg ctx_Err"
  shows "moves grows (registry_pull L rg s repo ref p)"
proof -
  have "moves grows (registry_decode x)" for x :: "gerr + 'b"
    by (auto simp: registry_decode_def intro: grows_intros split: sum.splits)
  note decode = this
  have new: "moves grows (rg_NewImageSource rg n)" for n using side by (simp add: registry_side_def)
  have rest: "moves grows (ebind (registry_manifest L rg src ref p) (\<lambda>(manifestBytes, manifestMIME).
     ebind (registry_decode (json_Manifest L manifestBytes)) (\<lambda>m.
     ebind (registry_fetch s src (m_Config m)) (\<lambda>cfgBytes.
     ebind (registry_decode (json_Image L cfgBytes)) (\<lambda>cfg.
       if \<not> platform_Matches p (c_Platform cfg) then throw (Msg ''image is, not'')
       else
         ebind (for_each (\<lambda>l. ebind (registry_fetch s src l) (\<lambda>_. ret ())) (m_Layers m)) (\<lambda>_.
         ebind (co_Put (rs_cache s) manifestMIME (bytes_body manifestBytes)) (\<lambda>md.
           ret \<lparr>im_Ref = ref, im_Platform = p, im_Manifest = md,
                im_Dir = store_SingleManifestDir L (co_Open (rs_cache s)) p md\<rparr>)))))))"
    if "rg_NewImageSource rg n w = (Ok src, w')" for n w src w'
  proof -
    from side that have ops: "\<And>x. moves grows (is_GetManifest src x)" "\<And>d n. moves grows (is_GetBlob src d n)"
      unfolding registry_side_def by blast+
    show ?thesis
      unfolding registry_manifest_def s
      by (auto intro!: grows_intros moves_registry_fetch [OF s] ops decode split: prod.splits)
  qed
  show ?thesis
    unfolding registry_pull_def
    by (intro moves_ebind moves_ebind_run decode new rest grows_rel moves_raise_opt) assumption
qed

lemma registry_layers_Ok:
  assumes s: "rs_cache s = C" and src: "\<And>d n. moves grows (is_GetBlob src d n)" and w: "sane w"
    and run: "for_each (\<lambda>l. ebind (registry_fetch s src l) (\<lambda>_. ret ())) ls w = (Ok (), w')"
  shows "sane w' \<and> (\<forall>d. holds w d \<longrightarrow> holds w' d) \<and> (\<forall>l \<in> set ls. holds w' (d_Digest l))"
proof -
  have m: "moves grows (ebind (registry_fetch s src l) (\<lambda>_. ret ()))" for l
    by (auto intro!: grows_intros moves_registry_fetch [OF s src])
  have all: "grows w w'" by (rule movesD [OF moves_for_each [OF grows_rel m] run])
  have "holds w' (d_Digest l)" if "l \<in> set ls" for l
  proof -
    from for_each_Ok [OF run that grows_rel(2,1) m] obtain w1 w2 where
      "grows w w1" "ebind (registry_fetch s src l) (\<lambda>_. ret ()) w1 = (Ok (), w2)" "grows w2 w'" by blast
    then obtain b where b: "registry_fetch s src l w1 = (Ok b, w2)" by (auto simp: ebind_Ok)
    from growsD [OF \<open>grows w w1\<close> w] have "sane w1" by blast
    moreover from movesD [OF moves_registry_fetch [OF s src] b] this have "sane w2" by (auto simp: grows_def)
    ultimately show ?thesis
      using registry_fetch_Ok(1) [OF s src _ b] growsD [OF \<open>grows w2 w'\<close>] by blast
  qed
  with growsD [OF all w] show ?thesis by blast
qed

lemma registry_pull_Ok:
  assumes s: "rs_cache s = C" and side: "registry_side grows rg ctx_Err"
    and empty: "\<And>cfg. json_Image L [] \<noteq> Inr cfg" and w: "sane w"
    and run: "registry_pull L rg s repo ref p w = (Ok im, w')"
  shows "image_cached L (holds w') rg ref p im \<and> od_Blobs (im_Dir im) = co_Open C"
proof -
  from run obtain named src w0 mb mime w1 m cb w2 cfg w3 md where
    new: "rg_NewImageSource rg named w = (Ok src, w0)"
    and man: "registry_manifest L rg src ref p w0 = (Ok (mb, mime), w1)"
    and m: "json_Manifest L mb = Inr m"
    and cfg: "registry_fetch s src (m_Config m) w1 = (Ok cb, w2)" "json_Image L cb = Inr cfg"
    and plat: "platform_Matches p (c_Platform cfg)"
    and layers: "for_each (\<lambda>l. ebind (registry_fetch s src l) (\<lambda>_. ret ())) (m_Layers m) w2 = (Ok (), w3)"
    and put: "co_Put C mime (bytes_body mb) w3 = (Ok md, w')"
    and im: "im = \<lparr>im_Ref = ref, im_Platform = p, im_Manifest = md,
        im_Dir = store_SingleManifestDir L (co_Open C) p md\<rparr>"
    unfolding registry_pull_def s
    by (auto simp: ebind_Ok raise_opt_Ok registry_decode_Ok split: if_splits)
  from side new have ops: "\<And>x. moves grows (is_GetManifest src x)" "\<And>d n. moves grows (is_GetBlob src d n)"
    unfolding registry_side_def by blast+
  from side have "moves grows (rg_NewImageSource rg named)" by (simp add: registry_side_def)
  from growsD [OF movesD [OF this new] w] have w0: "sane w0" by blast
  have "moves grows (registry_manifest L rg src ref p)"
    unfolding registry_manifest_def by (auto intro!: grows_intros ops split: prod.splits)
  from growsD [OF movesD [OF this man] w0] have w1: "sane w1" by blast
  from growsD [OF movesD [OF moves_registry_fetch [OF s ops(2)] cfg(1)] w1] have w2: "sane w2" by blast
  note fetched = registry_fetch_Ok [OF s ops(2) w1 cfg(1)]
  from fetched(3) cfg(2) empty have "digest_matches L (d_Digest (m_Config m)) cb" using fetched(2) by metis
  moreover from registry_layers_Ok [OF s ops(2) w2 layers] fetched(1)
  have w3: "sane w3" "\<forall>l \<in> set (m_Layers m @ [m_Config m]). holds w3 (d_Digest l)" by auto
  moreover from put_step [OF w3(1) put] have "d_Digest md = digest_FromBytes L mb" "holds w' (d_Digest md)"
    "\<forall>d. holds w3 d \<longrightarrow> holds w' d" by (auto simp: bytes_body_def)
  ultimately show ?thesis
    unfolding image_cached_def im store_SingleManifestDir_def Let_def
    by (intro conjI exI [of _ mb] exI [of _ m] exI [of _ cb] exI [of _ cfg])
      (auto simp: registry_manifest_Ok [OF man] m cfg(2) plat)
qed

lemma moves_registry_Resolve:
  assumes s: "rs_cache s = C" and side: "registry_side grows rg ctx_Err"
  shows "moves grows (registry_Resolve L rg ctx_Err s ref p)"
proof -
  have ctx: "moves grows ctx_Err" using side by (simp add: registry_side_def)
  have "moves grows (registry_try L rg ctx_Err s ref p repos errs)" for repos errs
    by (induction repos arbitrary: errs)
      (auto intro!: grows_intros ctx moves_registry_pull [OF s side] split: sum.splits)
  then show ?thesis
    unfolding registry_Resolve_def by (auto intro!: grows_intros split: sum.splits)
qed

lemma registry_Resolve_Ok:
  assumes s: "rs_cache s = C" and side: "registry_side grows rg ctx_Err"
    and empty: "\<And>cfg. json_Image L [] \<noteq> Inr cfg" and w: "sane w"
    and run: "registry_Resolve L rg ctx_Err s ref p w = (Ok im, w')"
  shows "image_cached L (holds w') rg ref p im \<and> od_Blobs (im_Dir im) = co_Open C"
proof -
  have found: "image_cached L (holds u') rg ref p im \<and> od_Blobs (im_Dir im) = co_Open C"
    if "r = Inr im" "sane u" "registry_try L rg ctx_Err s ref p repos errs u = (Ok r, u')" for repos errs u u' r
    using that
  proof (induction repos arbitrary: errs u)
    case (Cons repo repos)
    from Cons.prems(3) show ?case
      unfolding registry_try.simps
    proof (cases rule: ebind_attemptE)
      case (Val x u1)
      with Cons.prems registry_pull_Ok [OF s side empty Cons.prems(2)] show ?thesis by auto
    next
      case (Fail e u1)
      from growsD [OF movesD [OF moves_registry_pull [OF s side] Fail(1)] Cons.prems(2)] have u1: "sane u1" by blast
      from Fail(2) Cons.prems(1) obtain u2 v where u2: "ctx_Err u1 = (v, u2)"
        "registry_try L rg ctx_Err s ref p repos (errs @ [Wrap1 repo e]) u2 = (Ok r, u')"
        by (auto simp: ebind_attempt_Ok)
      from side have "moves grows ctx_Err" by (simp add: registry_side_def)
      from growsD [OF movesD [OF this u2(1)] u1] have "sane u2" by blast
      from Cons.IH [OF Cons.prems(1) this u2(2)] show ?thesis .
    qed simp
  qed simp
  from run obtain r w1 where r: "registry_try L rg ctx_Err s ref p (registry_candidates s (Repository ref)) [] w = (Ok r, w1)"
    "(case r of Inr img \<Rightarrow> ret img | Inl errs \<Rightarrow> throw (WrapN ''registry'' [Sentinel ErrNotExist, Joined errs])) w1 = (Ok im, w')"
    unfolding registry_Resolve_def ebind_Ok by blast
  then have "r = Inr im" "w1 = w'" by (cases r; simp)+
  with found [OF _ w r(1)] show ?thesis by simp
qed

end

end
