(* ===== verification/Registry_Properties.thy ===== *)
theory Registry_Properties
  imports Registry_Facts Blobcache_Facts Demo_Push
begin

text \<open>
  The property of package registry, over the cache directory of package blobcache.
\<close>

text \<open>
  C36: whatever a registry sends, an image that \<open>Resolve\<close> returns is the one asked for: its manifest has
  the digest of the reference, or is the instance an index of that digest lists for the platform; its
  verified config is of the platform; manifest, config and every layer are verified in the blob cache,
  and the image's blobs are read from there, each with the digest it is opened by.
\<close>

theorem registry_resolve_verified:
  assumes "digest_laws L" "canonical_laws L" "moves untouched ctx_Err" "registry_side (cache_step L) rg ctx_Err"
    and "\<And>cfg. json_Image L [] \<noteq> Inr cfg" "rs_cache s = blobcache_ops L ctx_Err" "cache_inv L w"
    and "registry_Resolve L rg ctx_Err s ref p w = (Ok im, w')"
  shows "cache_inv L w' \<and> image_cached L (cache_has L w') rg ref p im \<and>
    (\<forall>d u rd u'. cache_inv L u \<longrightarrow> od_Blobs (im_Dir im) d u = (Ok rd, u') \<longrightarrow>
       rd_Fail rd = None \<and> digest_matches L d (rd_Content rd))"
proof -
  note cache = blobcache_contract [OF assms(1-3)]
  have grows: "blob_cache.grows (cache_inv L) (cache_has L) = cache_step L"
    by (intro ext) (simp add: blob_cache.grows_def [OF cache] cache_step_def)
  note side = assms(4) [folded grows]
  note found = blob_cache.registry_Resolve_Ok [OF cache assms(6) side assms(5,7,8)]
  from movesD [OF blob_cache.moves_registry_Resolve [OF cache assms(6) side] assms(8)] assms(7)
  have "cache_inv L w'" by (simp add: grows cache_step_def)
  moreover have "rd_Fail rd = None \<and> digest_matches L d (rd_Content rd)"
    if "cache_inv L u" "od_Blobs (im_Dir im) d u = (Ok rd, u')" for d u rd u'
    using blob_cache.open_content [OF cache that(1)] that(2) found by auto
  ultimately show ?thesis using found by blast
qed

section \<open>A pull of the demo image\<close>

definition demo_image_source :: "bworld image_source" where
  "demo_image_source =
     \<lparr>is_GetManifest = (\<lambda>_. ret (put_manifest (demo_manifest demo_diff), MediaTypeImageManifest)),
      is_GetBlob = (\<lambda>d n. case List.find (\<lambda>b. digest_FromBytes demo_lib b = d) demo_contents of
          None \<Rightarrow> throw (Sentinel ErrNotExist)
        | Some b \<Rightarrow> ret (bytes_body b))\<rparr>"

definition pull_registry :: "bworld registry_lib" where
  "pull_registry =
     \<lparr>rg_NewReference = (\<lambda>_. None), rg_NewImageSource = (\<lambda>_. ret demo_image_source),
      rg_IsMultiImage = (\<lambda>_. False), rg_Instances = (\<lambda>_ _. Inl (Msg ''not a list''))\<rparr>"

definition pull_registry_source :: "bworld registry_source" where
  "pull_registry_source = registry_New (blobcache_ops demo_lib (ret ())) None"

definition demo_cache_empty :: bworld where
  "demo_cache_empty = \<lparr>bw_files = (\<lambda>_. None), bw_faults = \<lambda>_. None, bw_short = \<lambda>_. 0,
     bw_rand = (\<lambda>_. ''r''), bw_clock = 0, bw_reports = []\<rparr>"

lemma demo_pulled:
  "case fst (registry_Resolve demo_lib pull_registry (ret ()) pull_registry_source demo_ref demo_platform demo_cache_empty)
   of Ok _ \<Rightarrow> True | _ \<Rightarrow> False"
  by code_simp

lemma pull_registry_side: "registry_side (cache_step demo_lib) pull_registry (ret ())"
  unfolding registry_side_def pull_registry_def demo_image_source_def
  by (auto simp: ret_def [of demo_image_source] intro!: keeps_intros split: option.splits)

lemma demo_no_config: "json_Image demo_lib [] \<noteq> Inr cfg"
proof -
  have "case json_Image demo_lib [] of Inl _ \<Rightarrow> True | Inr _ \<Rightarrow> False" by code_simp
  then show ?thesis by (auto split: sum.splits)
qed

theorem registry_resolve_verified_witness:
  "\<exists>im w'. registry_Resolve demo_lib pull_registry (ret ()) pull_registry_source demo_ref demo_platform
      demo_cache_empty = (Ok im, w') \<and>
    image_cached demo_lib (cache_has demo_lib w') pull_registry demo_ref demo_platform im"
proof -
  obtain im w' where run: "registry_Resolve demo_lib pull_registry (ret ()) pull_registry_source demo_ref
      demo_platform demo_cache_empty = (Ok im, w')"
    using demo_pulled by (auto split: res.splits) (metis prod.collapse)
  have sane: "cache_inv demo_lib demo_cache_empty"
    by (simp add: cache_inv_def demo_cache_empty_def plain_seg_def)
  have cache: "rs_cache pull_registry_source = blobcache_ops demo_lib (ret ())"
    by (simp add: pull_registry_source_def registry_New_def)
  have ctx: "moves untouched (ret ())" by (intro keeps_intros) simp
  from registry_resolve_verified [OF demo_digest_laws demo_canonical_laws ctx pull_registry_side
      demo_no_config cache sane run] run
  show ?thesis by blast
qed

end
