(* ===== verification/Cstorage_Facts.thy ===== *)
theory Cstorage_Facts
  imports Cstorage
begin

text \<open>
  What a pull leaves in containers-storage. The library is seen through a \<open>storage_view\<close>: its layers with
  the bytes they were made from, its images with their top layers, the names, and the images' big data.
  \<open>layer_laws\<close> is its documented behaviour.
\<close>

record 'w storage_view =
  cs_layers :: "'w \<Rightarrow> string \<rightharpoonup> layer"
  cs_content :: "'w \<Rightarrow> string \<Rightarrow> bytes"
  cs_tops :: "'w \<Rightarrow> string \<rightharpoonup> string"
  cs_names :: "'w \<Rightarrow> string \<rightharpoonup> string"
  cs_data :: "'w \<Rightarrow> string \<Rightarrow> string \<rightharpoonup> bytes"

definition same_storage :: "'w storage_view \<Rightarrow> 'w \<Rightarrow> 'w \<Rightarrow> bool" where
  "same_storage V w w' \<longleftrightarrow>
     cs_layers V w' = cs_layers V w \<and> cs_content V w' = cs_content V w \<and> cs_tops V w' = cs_tops V w \<and>
     cs_names V w' = cs_names V w \<and> cs_data V w' = cs_data V w"

definition same_images :: "'w storage_view \<Rightarrow> 'w \<Rightarrow> 'w \<Rightarrow> bool" where
  "same_images V w w' \<longleftrightarrow>
     cs_tops V w' = cs_tops V w \<and> cs_names V w' = cs_names V w \<and> cs_data V w' = cs_data V w"

definition same_layers :: "'w storage_view \<Rightarrow> 'w \<Rightarrow> 'w \<Rightarrow> bool" where
  "same_layers V w w' \<longleftrightarrow> cs_layers V w' = cs_layers V w \<and> cs_content V w' = cs_content V w"

lemma same_rel [simp]: "reflp (same_storage V)" "transp (same_storage V)"
  "reflp (same_images V)" "transp (same_images V)" "reflp (same_layers V)" "transp (same_layers V)"
  by (auto simp: same_storage_def same_images_def same_layers_def intro!: reflpI transpI)

lemma same_storage_iff: "same_storage V w w' \<longleftrightarrow> same_layers V w w' \<and> same_images V w w'"
  by (auto simp: same_storage_def same_layers_def same_images_def)

text \<open>
  \<open>PutLayer\<close> takes the ID and the parent it is given, refuses an ID in use with \<open>ErrDuplicateID\<close>, and makes
  the layer from all of the body; \<open>CreateImage\<close> likewise; what fails has changed nothing, except that big data of the key
  may have been written.
\<close>

definition law_Layer :: "'w layer_store \<Rightarrow> 'w storage_view \<Rightarrow> bool" where
  "law_Layer S V \<longleftrightarrow>
     (\<forall>i w r w'. ls_Layer S i w = (r, w') \<longrightarrow> same_storage V w w' \<and> (\<forall>l. r = Ok l \<longrightarrow> cs_layers V w i = Some l))"

definition law_PutLayer :: "'w layer_store \<Rightarrow> 'w storage_view \<Rightarrow> bool" where
  "law_PutLayer S V \<longleftrightarrow>
     (\<forall>i p opts body w r w'. ls_PutLayer S i p opts body w = (r, w') \<longrightarrow> same_images V w w' \<and>
        (case r of
           Ok l \<Rightarrow> (i \<noteq> [] \<longrightarrow> ly_ID l = i) \<and> ly_Parent l = p \<and> snd body = None \<and> cs_layers V w (ly_ID l) = None \<and>
             cs_layers V w' = (cs_layers V w)(ly_ID l \<mapsto> l) \<and>
             cs_content V w' = (cs_content V w)(ly_ID l := fst body)
         | _ \<Rightarrow> same_layers V w w'))"

definition law_DeleteLayer :: "'w layer_store \<Rightarrow> 'w storage_view \<Rightarrow> bool" where
  "law_DeleteLayer S V \<longleftrightarrow>
     (\<forall>i w r w'. ls_DeleteLayer S i w = (r, w') \<longrightarrow> same_images V w w' \<and> cs_content V w' = cs_content V w \<and>
        (cs_layers V w' = cs_layers V w \<or> cs_layers V w' = (cs_layers V w)(i := None)))"

definition law_Image :: "'w layer_store \<Rightarrow> 'w storage_view \<Rightarrow> bool" where
  "law_Image S V \<longleftrightarrow>
     (\<forall>i w r w'. ls_Image S i w = (r, w') \<longrightarrow> same_storage V w w' \<and>
        (\<forall>rec. r = Ok rec \<longrightarrow> cs_tops V w (ir_ID rec) = Some (ir_TopLayer rec) \<and>
           (cs_tops V w i \<noteq> None \<longrightarrow> ir_ID rec = i)))"

definition law_CreateImage :: "'w layer_store \<Rightarrow> 'w storage_view \<Rightarrow> bool" where
  "law_CreateImage S V \<longleftrightarrow>
     (\<forall>i topl opts w r w'. ls_CreateImage S i topl opts w = (r, w') \<longrightarrow> same_layers V w w' \<and> cs_names V w' = cs_names V w \<and>
        (case r of
           Ok rec \<Rightarrow> (i \<noteq> [] \<longrightarrow> ir_ID rec = i) \<and> ir_TopLayer rec = topl \<and> cs_tops V w (ir_ID rec) = None \<and>
             cs_tops V w' = (cs_tops V w)(ir_ID rec \<mapsto> topl) \<and>
             (distinct (map bd_Key (io_BigData opts)) \<longrightarrow>
                (\<forall>bd \<in> set (io_BigData opts). cs_data V w' (ir_ID rec) (bd_Key bd) = Some (bd_Data bd)))
         | Err e \<Rightarrow> same_images V w w' \<and> (err_is e ErrDuplicateID \<longrightarrow> i = [] \<or> cs_tops V w i \<noteq> None)
         | Panic \<Rightarrow> same_images V w w'))"

definition law_SetImageBigData :: "'w layer_store \<Rightarrow> 'w storage_view \<Rightarrow> bool" where
  "law_SetImageBigData S V \<longleftrightarrow>
     (\<forall>i k b w r w'. ls_SetImageBigData S i k b w = (r, w') \<longrightarrow> same_layers V w w' \<and>
        cs_tops V w' = cs_tops V w \<and> cs_names V w' = cs_names V w \<and>
        (\<forall>i' k'. i' \<noteq> i \<or> k' \<noteq> k \<longrightarrow> cs_data V w' i' k' = cs_data V w i' k') \<and>
        (r = Ok () \<longrightarrow> cs_data V w' i k = Some b))"

definition law_AddNames :: "'w layer_store \<Rightarrow> 'w storage_view \<Rightarrow> bool" where
  "law_AddNames S V \<longleftrightarrow>
     (\<forall>i ns w r w'. ls_AddNames S i ns w = (r, w') \<longrightarrow> same_layers V w w' \<and> cs_tops V w' = cs_tops V w \<and>
        cs_data V w' = cs_data V w \<and> (r = Ok () \<longrightarrow> (\<forall>n \<in> set ns. cs_names V w' n = Some i)))"

definition layer_laws :: "'w layer_store \<Rightarrow> 'w storage_view \<Rightarrow> bool" where
  "layer_laws S V \<longleftrightarrow> law_Layer S V \<and> law_PutLayer S V \<and> law_DeleteLayer S V \<and> law_Image S V \<and>
     law_CreateImage S V \<and> law_SetImageBigData S V \<and> law_AddNames S V"

lemma law_LayerD:
  "layer_laws S V \<Longrightarrow> ls_Layer S i w = (r, w') \<Longrightarrow> same_storage V w w' \<and> (\<forall>l. r = Ok l \<longrightarrow> cs_layers V w i = Some l)"
  unfolding layer_laws_def law_Layer_def by blast

lemma law_PutLayerD:
  "layer_laws S V \<Longrightarrow> ls_PutLayer S i p opts body w = (r, w') \<Longrightarrow> same_images V w w' \<and>
        (case r of
           Ok l \<Rightarrow> (i \<noteq> [] \<longrightarrow> ly_ID l = i) \<and> ly_Parent l = p \<and> snd body = None \<and> cs_layers V w (ly_ID l) = None \<and>
             cs_layers V w' = (cs_layers V w)(ly_ID l \<mapsto> l) \<and>
             cs_content V w' = (cs_content V w)(ly_ID l := fst body)
         | _ \<Rightarrow> same_layers V w w')"
  unfolding layer_laws_def law_PutLayer_def by blast

lemma law_DeleteLayerD:
  "layer_laws S V \<Longrightarrow> ls_DeleteLayer S i w = (r, w') \<Longrightarrow> same_images V w w' \<and> cs_content V w' = cs_content V w \<and>
        (cs_layers V w' = cs_layers V w \<or> cs_layers V w' = (cs_layers V w)(i := None))"
  unfolding layer_laws_def law_DeleteLayer_def by blast

lemma law_ImageD:
  "layer_laws S V \<Longrightarrow> ls_Image S i w = (r, w') \<Longrightarrow> same_storage V w w' \<and>
        (\<forall>rec. r = Ok rec \<longrightarrow> cs_tops V w (ir_ID rec) = Some (ir_TopLayer rec) \<and>
           (cs_tops V w i \<noteq> None \<longrightarrow> ir_ID rec = i))"
  unfolding layer_laws_def law_Image_def by blast

lemma law_CreateImageD:
  "layer_laws S V \<Longrightarrow> ls_CreateImage S i topl opts w = (r, w') \<Longrightarrow> same_layers V w w' \<and> cs_names V w' = cs_names V w \<and>
        (case r of
           Ok rec \<Rightarrow> (i \<noteq> [] \<longrightarrow> ir_ID rec = i) \<and> ir_TopLayer rec = topl \<and> cs_tops V w (ir_ID rec) = None \<and>
             cs_tops V w' = (cs_tops V w)(ir_ID rec \<mapsto> topl) \<and>
             (distinct (map bd_Key (io_BigData opts)) \<longrightarrow>
                (\<forall>bd \<in> set (io_BigData opts). cs_data V w' (ir_ID rec) (bd_Key bd) = Some (bd_Data bd)))
         | Err e \<Rightarrow> same_images V w w' \<and> (err_is e ErrDuplicateID \<longrightarrow> i = [] \<or> cs_tops V w i \<noteq> None)
         | Panic \<Rightarrow> same_images V w w')"
  unfolding layer_laws_def law_CreateImage_def by blast

lemma law_SetImageBigDataD:
  "layer_laws S V \<Longrightarrow> ls_SetImageBigData S i k b w = (r, w') \<Longrightarrow> same_layers V w w' \<and>
        cs_tops V w' = cs_tops V w \<and> cs_names V w' = cs_names V w \<and>
        (\<forall>i' k'. i' \<noteq> i \<or> k' \<noteq> k \<longrightarrow> cs_data V w' i' k' = cs_data V w i' k') \<and>
        (r = Ok () \<longrightarrow> cs_data V w' i k = Some b)"
  unfolding layer_laws_def law_SetImageBigData_def by blast

lemma law_AddNamesD:
  "layer_laws S V \<Longrightarrow> ls_AddNames S i ns w = (r, w') \<Longrightarrow> same_layers V w w' \<and> cs_tops V w' = cs_tops V w \<and>
        cs_data V w' = cs_data V w \<and> (r = Ok () \<longrightarrow> (\<forall>n \<in> set ns. cs_names V w' n = Some i))"
  unfolding layer_laws_def law_AddNames_def by blast

section \<open>How the storage grows\<close>

text \<open>Nothing vanishes, and the bytes of every new layer have one of the digests \<open>D\<close>.\<close>

definition storage_grows :: "oci_lib \<Rightarrow> 'w storage_view \<Rightarrow> string set \<Rightarrow> 'w \<Rightarrow> 'w \<Rightarrow> bool" where
  "storage_grows L V D w w' \<longleftrightarrow>
     cs_layers V w \<subseteq>\<^sub>m cs_layers V w' \<and> cs_tops V w \<subseteq>\<^sub>m cs_tops V w' \<and>
     (\<forall>i. i \<in> dom (cs_layers V w) \<longrightarrow> cs_content V w' i = cs_content V w i) \<and>
     (\<forall>i. i \<in> dom (cs_layers V w') - dom (cs_layers V w) \<longrightarrow> (\<exists>d \<in> D. digest_matches L d (cs_content V w' i)))"

lemma storage_grows_refl: "reflp (storage_grows L V D)"
  by (auto simp: storage_grows_def intro!: reflpI)

lemma storage_grows_trans: "transp (storage_grows L V D)"
proof (rule transpI)
  fix x y z assume xy: "storage_grows L V D x y" and yz: "storage_grows L V D y z"
  have "\<exists>d \<in> D. digest_matches L d (cs_content V z i)" if "i \<in> dom (cs_layers V z) - dom (cs_layers V x)" for i
  proof (cases "i \<in> dom (cs_layers V y)")
    case True
    with yz have "cs_content V z i = cs_content V y i" by (simp add: storage_grows_def)
    moreover from True that xy have "\<exists>d \<in> D. digest_matches L d (cs_content V y i)" unfolding storage_grows_def by blast
    ultimately show ?thesis by simp
  next
    case False
    with that yz show ?thesis unfolding storage_grows_def by blast
  qed
  moreover have "cs_content V z i = cs_content V x i" if "i \<in> dom (cs_layers V x)" for i
  proof -
    from that xy have "i \<in> dom (cs_layers V y)" by (auto simp: storage_grows_def map_le_def dom_def)
    with that xy yz show ?thesis by (simp add: storage_grows_def)
  qed
  ultimately show "storage_grows L V D x z"
    using xy yz unfolding storage_grows_def by (blast intro: map_le_trans)
qed

lemma storage_grows_same: "same_storage V w w' \<Longrightarrow> storage_grows L V D w w'"
  by (simp add: same_storage_def storage_grows_def)

lemma storage_grows_mono: "storage_grows L V D w w' \<Longrightarrow> D \<subseteq> E \<Longrightarrow> storage_grows L V E w w'"
  unfolding storage_grows_def by blast

section \<open>The other calls of a pull\<close>

text \<open>The calls of a pull that are not the library's leave the storage alone, and all keep the cache sane.\<close>

definition pull_side ::
  "('w \<Rightarrow> 'w \<Rightarrow> bool) \<Rightarrow> 'w cstorage \<Rightarrow> 'w storage_view \<Rightarrow> ('w, unit) io \<Rightarrow> bool" where
  "pull_side G s V ctx_Err \<longleftrightarrow>
     moves (same_storage V) ctx_Err \<and> moves G ctx_Err \<and>
     (\<forall>d. moves (same_storage V) (co_Has (st_cache s) d)) \<and> (\<forall>d. moves (same_storage V) (co_Open (st_cache s) d)) \<and>
     (\<forall>d r. moves (same_storage V) (co_Fetch (st_cache s) d r)) \<and>
     (\<forall>i. moves G (ls_Layer (st_store s) i)) \<and> (\<forall>i p opts b. moves G (ls_PutLayer (st_store s) i p opts b)) \<and>
     (\<forall>i. moves G (ls_DeleteLayer (st_store s) i)) \<and> (\<forall>i. moves G (ls_Image (st_store s) i)) \<and>
     (\<forall>i tl opts. moves G (ls_CreateImage (st_store s) i tl opts)) \<and>
     (\<forall>i k b. moves G (ls_SetImageBigData (st_store s) i k b)) \<and> (\<forall>i ns. moves G (ls_AddNames (st_store s) i ns))"

definition entry_side ::
  "oci_lib \<Rightarrow> ('w \<Rightarrow> 'w \<Rightarrow> bool) \<Rightarrow> 'w storage_view \<Rightarrow> ('w plan \<Rightarrow> ('w, unit) io) \<Rightarrow> 'w backend \<Rightarrow> 'w entry \<Rightarrow> bool" where
  "entry_side L G V push src e \<longleftrightarrow>
     (\<forall>d. moves (same_storage V) (od_Blobs (im_Dir (en_Image e)) d) \<and> moves G (od_Blobs (im_Dir (en_Image e)) d)) \<and>
     (en_Fallback e \<longrightarrow> moves (same_storage V) (cstorage_keepInStore L push (en_Image e) src) \<and>
        moves G (cstorage_keepInStore L push (en_Image e) src))"

lemma pull_sideD:
  assumes "pull_side G s V ctx_Err"
  shows "moves (same_storage V) ctx_Err" "moves G ctx_Err"
    "moves (same_storage V) (co_Has (st_cache s) d)" "moves (same_storage V) (co_Open (st_cache s) d)"
    "moves (same_storage V) (co_Fetch (st_cache s) l rd)"
    "moves G (ls_Layer (st_store s) i)" "moves G (ls_PutLayer (st_store s) i p opts b)"
    "moves G (ls_DeleteLayer (st_store s) i)" "moves G (ls_Image (st_store s) i)"
    "moves G (ls_CreateImage (st_store s) i topl iopts)" "moves G (ls_SetImageBigData (st_store s) i k x)"
    "moves G (ls_AddNames (st_store s) i ns)"
  using assms unfolding pull_side_def by blast+

section \<open>Applying layers\<close>

context blob_cache
begin

lemma applyLayer_run:
  assumes laws: "layer_laws (st_store s) V" and side: "pull_side grows s V ctx_Err" and C: "st_cache s = C"
    and w: "sane w" and run: "cstorage_applyLayer s i parent l d w = (r, w')"
  shows "sane w' \<and> storage_grows L V {d_Digest l} w w' \<and> same_images V w w' \<and>
    (i \<noteq> [] \<longrightarrow> (\<forall>j. j \<noteq> i \<longrightarrow> cs_layers V w' j = cs_layers V w j) \<and>
       (r = Ok () \<longrightarrow> (\<exists>x. cs_layers V w' i = Some x \<and> ly_UncompressedDigest x = d \<and>
          (cs_layers V w i = Some x \<or> ly_Parent x = parent))))"
proof -
  note [simp] = storage_grows_same same_layers_def
  note side_same = pull_sideD(4) [OF side, unfolded C] and keep = pull_sideD [OF side]
  from run obtain ro w1 where open1: "co_Open C (d_Digest l) w = (ro, w1)" by (metis prod.exhaust_sel)
  from open_step [OF w open1] have w1: "sane w1" by blast
  from movesD [OF side_same open1] have same1: "same_storage V w w1" .
  show ?thesis
  proof (cases "\<exists>rd. ro = Ok rd")
    case False
    with run open1 C have "w' = w1" "r \<noteq> Ok ()"
      by (auto simp: cstorage_applyLayer_def ebind_def split: res.splits)
    with w1 same1 show ?thesis by (simp add: same_storage_iff)
  next
    case True
    then obtain rd where ro: "ro = Ok rd" by blast
    note content = open_content [OF w open1 [unfolded ro]]
    let ?opts = "\<lparr>lo_OriginalDigest = d_Digest l, lo_OriginalSize = d_Size l, lo_UncompressedDigest = d\<rparr>"
    obtain rp w2 where put: "ls_PutLayer (st_store s) i parent ?opts (section_body rd) w1 = (rp, w2)" by fastforce
    from growsD [OF movesD [OF keep(7) put] w1] have w2: "sane w2" by blast
    note law = law_PutLayerD [OF laws put]
    show ?thesis
    proof (cases rp)
      case (Ok x)
      with law have "ly_Parent x = parent" and x: "i \<noteq> [] \<Longrightarrow> ly_ID x = i" "cs_layers V w1 (ly_ID x) = None"
        "cs_layers V w2 = (cs_layers V w1)(ly_ID x \<mapsto> x)" "cs_content V w2 = (cs_content V w1)(ly_ID x := fst (section_body rd))"
        "same_images V w1 w2" by auto
      have body: "digest_matches L (d_Digest l) (fst (section_body rd))"
        using content by (simp add: section_body_def section_bytes_def)
      have others: "i \<noteq> [] \<longrightarrow> (\<forall>j. j \<noteq> i \<longrightarrow> cs_layers V w2 j = cs_layers V w j)"
        using x(1,3) same1 by (auto simp: same_storage_def)
      have grown: "storage_grows L V {d_Digest l} w w2" "same_images V w w2"
        using same1 x body by (auto simp: storage_grows_def same_storage_def same_images_def map_le_def)
      show ?thesis
      proof (cases "ly_UncompressedDigest x = d")
        case True
        with run open1 ro put Ok C have "w' = w2"
          by (auto simp: cstorage_applyLayer_def ebind_def attempt_def ret_def)
        with grown others w2 x True \<open>ly_Parent x = parent\<close> show ?thesis by auto
      next
        case False
        obtain rx w3 where del: "ls_DeleteLayer (st_store s) (ly_ID x) w2 = (rx, w3)" by fastforce
        with False run open1 ro put Ok C have w': "w' = w3" "r \<noteq> Ok ()"
          by (auto simp: cstorage_applyLayer_def ebind_def attempt_def throw_def split: res.splits)
        note ld = law_DeleteLayerD [OF laws del]
        have "storage_grows L V {d_Digest l} w w3"
        proof (cases "cs_layers V w3 = cs_layers V w2")
          case True
          with grown ld show ?thesis by (simp add: storage_grows_def same_images_def)
        next
          case False
          with ld x(2,3) have "cs_layers V w3 = cs_layers V w1" by auto
          with ld x(2,4) same1 x(5) show ?thesis
            by (auto simp: storage_grows_def same_images_def same_storage_def)
        qed
        moreover from grown(2) ld have "same_images V w w3" by (simp add: same_images_def)
        moreover from others ld x(1) have "i \<noteq> [] \<longrightarrow> (\<forall>j. j \<noteq> i \<longrightarrow> cs_layers V w3 j = cs_layers V w j)"
          by (metis fun_upd_other)
        ultimately show ?thesis using w' growsD [OF movesD [OF keep(8) del] w2] by simp
      qed
    next
      case (Err e)
      with law same1 have same2: "same_storage V w w2" by (simp add: same_storage_iff same_layers_def same_images_def)
      show ?thesis
      proof (cases "err_is e ErrDuplicateID")
        case False
        with run open1 ro put Err C have "w' = w2" "r \<noteq> Ok ()"
          by (auto simp: cstorage_applyLayer_def ebind_def attempt_def throw_def)
        with w2 same2 show ?thesis by (simp add: same_storage_iff)
      next
        case True
        obtain rl w3 where lay: "ls_Layer (st_store s) i w2 = (rl, w3)" by fastforce
        note ll = law_LayerD [OF laws lay]
        with same2 have same3: "same_storage V w w3" by (simp add: same_storage_def)
        from growsD [OF movesD [OF keep(6) lay] w2] have w3: "sane w3" by blast
        have "w' = w3 \<and> (r = Ok () \<longrightarrow> (\<exists>x. rl = Ok x \<and> ly_UncompressedDigest x = d))"
          using True run open1 ro put Err C lay
          by (auto simp: cstorage_applyLayer_def ebind_def attempt_def throw_def ret_def split: res.splits if_splits)
        with ll same2 same3 w3 show ?thesis by (auto simp: same_storage_iff same_layers_def)
      qed
    next
      case Panic
      with run open1 ro put C have "w' = w2" "r \<noteq> Ok ()"
        by (auto simp: cstorage_applyLayer_def ebind_def attempt_def)
      moreover from Panic law same1 have "same_storage V w w2"
        by (simp add: same_storage_iff same_layers_def same_images_def)
      ultimately show ?thesis using w2 by (simp add: same_storage_iff)
    qed
  qed
qed

lemma growsI: "(sane w \<Longrightarrow> sane w' \<and> (\<forall>d. holds w d \<longrightarrow> holds w' d)) \<Longrightarrow> grows w w'"
  by (simp add: grows_def)

text \<open>
  The loop over the layers: it returns the top layer's ID, and every layer of the chain is there, from
  before or with the uncompressed digest the config lists for it.
\<close>

lemma applyAll_run:
  assumes laws: "layer_laws (st_store s) V" and side: "pull_side grows s V ctx_Err" and C: "st_cache s = C"
    and w: "sane w" and run: "cstorage_applyAll s ids ds ls parent w = (r, w')"
  shows "sane w' \<and> storage_grows L V (d_Digest ` set ls) w w' \<and> same_images V w w' \<and>
    (\<forall>topl. r = Ok topl \<longrightarrow> topl = last (parent # take (length ls) ids) \<and>
       ([] \<notin> set ids \<longrightarrow> (\<forall>i \<in> set (take (length ls) ids). \<exists>x. cs_layers V w' i = Some x \<and>
          (cs_layers V w i = Some x \<or> (ly_Parent x, i, ly_UncompressedDigest x) \<in> set (zip (parent # ids) (zip ids ds))))))"
  using w run
proof (induction ls arbitrary: ids ds parent w)
  case Nil
  then show ?case by (cases ids) (auto simp: ret_run reflpD [OF storage_grows_refl] same_images_def)
next
  case (Cons l ls)
  note trans = transpD [OF storage_grows_trans]
  have wide: "storage_grows L V (d_Digest ` set ls) u v \<Longrightarrow> storage_grows L V (d_Digest ` set (l # ls)) u v"
    "storage_grows L V {d_Digest l} u v \<Longrightarrow> storage_grows L V (d_Digest ` set (l # ls)) u v" for u v
    by (erule storage_grows_mono, auto)+
  show ?case
  proof (cases ids)
    case Nil
    with Cons.prems show ?thesis by (auto simp: reflpD [OF storage_grows_refl] same_images_def)
  next
    case ids: (Cons i jds)
    from Cons.prems(2) [unfolded ids cstorage_applyAll.simps] show ?thesis
    proof (cases rule: ebind_attemptE)
      case (Val x w1)
      note law = law_LayerD [OF laws Val(1)]
      from growsD [OF movesD [OF pull_sideD(6) [OF side] Val(1)] Cons.prems(1)] have w1: "sane w1" by blast
      from Val(2) have rest: "cstorage_applyAll s jds (drop 1 ds) ls i w1 = (r, w')" by simp
      note IH = Cons.IH [OF w1 rest]
      have zip: "set (zip (i # jds) (zip jds (drop 1 ds))) \<subseteq> set (zip (parent # ids) (zip ids ds))" by (cases ds) (auto simp: ids)
      have at_i: "cs_layers V w' i = Some x"
        using law IH by (auto simp: storage_grows_def same_storage_def map_le_def dom_def)
      show ?thesis
      proof (intro conjI allI impI)
        show "storage_grows L V (d_Digest ` set (l # ls)) w w'"
          by (rule trans [OF storage_grows_same [OF conjunct1 [OF law]] wide(1) [OF conjunct1 [OF conjunct2 [OF IH]]]])
        show "same_images V w w'" using IH law by (simp add: same_images_def same_storage_def)
        fix topl assume topl: "r = Ok topl"
        then show "topl = last (parent # take (length (l # ls)) ids)" using IH by (simp add: ids)
        assume "[] \<notin> set ids"
        then have chain: "\<forall>j \<in> set (take (length ls) jds). \<exists>x. cs_layers V w' j = Some x \<and>
          (cs_layers V w1 j = Some x \<or> (ly_Parent x, j, ly_UncompressedDigest x) \<in> set (zip (i # jds) (zip jds (drop 1 ds))))"
          using IH topl by (simp add: ids)
        show "\<forall>j \<in> set (take (length (l # ls)) ids). \<exists>x. cs_layers V w' j = Some x \<and>
          (cs_layers V w j = Some x \<or> (ly_Parent x, j, ly_UncompressedDigest x) \<in> set (zip (parent # ids) (zip ids ds)))"
        proof
          fix j assume "j \<in> set (take (length (l # ls)) ids)"
          then consider "j = i" | "j \<in> set (take (length ls) jds)" by (auto simp: ids)
          then show "\<exists>x. cs_layers V w' j = Some x \<and>
            (cs_layers V w j = Some x \<or> (ly_Parent x, j, ly_UncompressedDigest x) \<in> set (zip (parent # ids) (zip ids ds)))"
            using chain zip at_i law by cases (auto simp: same_storage_def)
        qed
      qed (use IH in simp)
    next
      case (Fail e w1)
      note law = law_LayerD [OF laws Fail(1)]
      from growsD [OF movesD [OF pull_sideD(6) [OF side] Fail(1)] Cons.prems(1)] have w1: "sane w1" by blast
      show ?thesis
      proof (cases ds)
        case Nil
        with Fail(2) law w1 show ?thesis by (auto simp: storage_grows_same same_storage_iff)
      next
        case ds: (Cons d ds')
        from Fail(2) have "ebind (cstorage_applyLayer s i parent l d) (\<lambda>_. cstorage_applyAll s jds ds' ls i) w1 = (r, w')"
          by (simp add: ds)
        then show ?thesis
        proof (cases rule: ebindE)
          case (Next u w2)
          note ap = applyLayer_run [OF laws side C w1 Next(1)]
          then have w2: "sane w2" by blast
          note IH = Cons.IH [OF w2 Next(2)]
          show ?thesis
          proof (intro conjI allI impI)
            show "storage_grows L V (d_Digest ` set (l # ls)) w w'"
              by (rule trans [OF trans [OF storage_grows_same [OF conjunct1 [OF law]] wide(2) [OF conjunct1 [OF conjunct2 [OF ap]]]]
                  wide(1) [OF conjunct1 [OF conjunct2 [OF IH]]]])
            show "same_images V w w'" using IH law ap by (simp add: same_images_def same_storage_def)
            fix topl assume topl: "r = Ok topl"
            then show "topl = last (parent # take (length (l # ls)) ids)" using IH by (simp add: ids)
            assume ne: "[] \<notin> set ids"
            then have chain: "\<forall>j \<in> set (take (length ls) jds). \<exists>x. cs_layers V w' j = Some x \<and>
              (cs_layers V w2 j = Some x \<or> (ly_Parent x, j, ly_UncompressedDigest x) \<in> set (zip (i # jds) (zip jds ds')))"
              using IH topl by (simp add: ids)
            from ne ap obtain y where y: "cs_layers V w2 i = Some y" "ly_UncompressedDigest y = d"
              "cs_layers V w1 i = Some y \<or> ly_Parent y = parent"
              "\<And>j. j \<noteq> i \<Longrightarrow> cs_layers V w2 j = cs_layers V w1 j" by (auto simp: ids)
            from y(1) IH have at_i: "cs_layers V w' i = Some y" by (auto simp: storage_grows_def map_le_def dom_def)
            show "\<forall>j \<in> set (take (length (l # ls)) ids). \<exists>x. cs_layers V w' j = Some x \<and>
              (cs_layers V w j = Some x \<or> (ly_Parent x, j, ly_UncompressedDigest x) \<in> set (zip (parent # ids) (zip ids ds)))"
            proof
              fix j assume "j \<in> set (take (length (l # ls)) ids)"
              then consider "j = i" | "j \<noteq> i" "j \<in> set (take (length ls) jds)" by (auto simp: ids)
              then show "\<exists>x. cs_layers V w' j = Some x \<and>
                (cs_layers V w j = Some x \<or> (ly_Parent x, j, ly_UncompressedDigest x) \<in> set (zip (parent # ids) (zip ids ds)))"
                using chain y at_i law by cases (auto simp: same_storage_def ids ds)
            qed
          qed (use IH in simp)
        next
          case (Stop r0)
          note ap = applyLayer_run [OF laws side C w1 Stop(1)]
          have "storage_grows L V (d_Digest ` set (l # ls)) w w'"
            by (rule trans [OF storage_grows_same [OF conjunct1 [OF law]] wide(2) [OF conjunct1 [OF conjunct2 [OF ap]]]])
          moreover have "same_images V w w'" using law ap by (simp add: same_images_def same_storage_def)
          ultimately show ?thesis using ap Stop(3) by blast
        qed
      qed
    next
      case Stop
      from growsD [OF movesD [OF pull_sideD(6) [OF side] Stop(1)] Cons.prems(1)] law_LayerD [OF laws Stop(1)] Stop(2)
      show ?thesis by (auto simp: storage_grows_same same_storage_iff)
    qed
  qed
qed

end

section \<open>The image record\<close>

text \<open>The image of an entry, as containers-storage finds it by its name.\<close>

definition image_recorded :: "oci_lib \<Rightarrow> 'w storage_view \<Rightarrow> 'w image \<Rightarrow> manifest \<Rightarrow> string \<Rightarrow> 'w \<Rightarrow> bool" where
  "image_recorded L V img m topl w \<longleftrightarrow>
     (\<exists>iid mb cb cfg. digest_Encoded L (d_Digest (m_Config m)) = Some iid \<and>
        digest_FromBytes L mb = d_Digest (im_Manifest img) \<and> digest_FromBytes L cb = d_Digest (m_Config m) \<and>
        json_Image L cb = Inr cfg \<and>
        (iid \<noteq> [] \<longrightarrow> cs_names V w (reference_String (im_Ref img)) = Some iid \<and> cs_tops V w iid = Some topl \<and>
           (distinct (map bd_Key (image_bigData (im_Manifest img) m cb mb)) \<longrightarrow>
              (\<forall>bd \<in> set (image_bigData (im_Manifest img) m cb mb). cs_data V w iid (bd_Key bd) = Some (bd_Data bd)))))"

lemma readBlob_run:
  assumes "cstorage_readBlob L img d w = (r, w')" "\<And>d. moves R (od_Blobs (im_Dir img) d)" "reflp R" "transp R"
  shows "R w w' \<and> (\<forall>b. r = Ok b \<longrightarrow> digest_FromBytes L b = d)"
proof -
  have "moves R (cstorage_readBlob L img d)"
    unfolding cstorage_readBlob_def by (intro keeps_intros assms(2-4)) (auto intro: keeps_intros assms(3))
  with movesD assms(1) have "R w w'" by metis
  moreover have "r = Ok b \<Longrightarrow> digest_FromBytes L b = d" for b
    using assms(1) by (auto simp: cstorage_readBlob_def ebind_Ok split: if_splits)
  ultimately show ?thesis by blast
qed

context blob_cache
begin

lemma bigData_loop:
  assumes laws: "layer_laws S V" and "\<And>i k b. moves grows (ls_SetImageBigData S i k b)" and "sane w"
    and "for_each (\<lambda>bd. ls_SetImageBigData S iid (bd_Key bd) (bd_Data bd)) bds w = (r, w')"
  shows "sane w' \<and> same_layers V w w' \<and> cs_tops V w' = cs_tops V w \<and> cs_names V w' = cs_names V w \<and>
    (\<forall>k. k \<notin> bd_Key ` set bds \<longrightarrow> cs_data V w' iid k = cs_data V w iid k) \<and>
    (r = Ok () \<longrightarrow> distinct (map bd_Key bds) \<longrightarrow> (\<forall>bd \<in> set bds. cs_data V w' iid (bd_Key bd) = Some (bd_Data bd)))"
  using assms(3,4)
proof (induction bds arbitrary: w)
  case Nil
  then show ?case by (auto simp: ret_run same_layers_def)
next
  case (Cons bd bds)
  from Cons.prems(2) [unfolded for_each.simps] show ?case
  proof (cases rule: ebindE)
    case (Next u w1)
    note law = law_SetImageBigDataD [OF laws Next(1)]
    from growsD [OF movesD [OF assms(2) Next(1)] Cons.prems(1)] have w1: "sane w1" by blast
    note IH = Cons.IH [OF w1 Next(2)]
    have "cs_data V w' iid (bd_Key bd) = Some (bd_Data bd)" if "bd_Key bd \<notin> bd_Key ` set bds"
      using IH law that by simp
    with IH law show ?thesis by (auto simp: same_layers_def)
  next
    case (Stop r0)
    note law = law_SetImageBigDataD [OF laws Stop(1)]
    from growsD [OF movesD [OF assms(2) Stop(1)] Cons.prems(1)] law Stop(3) show ?thesis by auto
  qed
qed

text \<open>The config is read again to build the record; what is read is checked against its digest again.\<close>

lemma writeImage_run:
  assumes laws: "layer_laws (st_store s) V" and side: "pull_side grows s V ctx_Err" and w: "sane w"
    and blobs: "\<And>d. moves (same_storage V) (od_Blobs (im_Dir img) d)" "\<And>d. moves grows (od_Blobs (im_Dir img) d)"
    and run: "cstorage_writeImage L s img m topl w = (r, w')"
  shows "sane w' \<and> storage_grows L V {} w w' \<and> same_layers V w w' \<and> (r = Ok () \<longrightarrow> image_recorded L V img m topl w')"
proof -
  note R = readBlob_run [OF _ blobs(1) same_rel(1,2)] readBlob_run [OF _ blobs(2) grows_rel]
  have stay: ?thesis if "sane w'" "same_storage V w w'" "r \<noteq> Ok ()"
    using that by (simp add: storage_grows_same same_storage_iff)
  from run [unfolded cstorage_writeImage_def] show ?thesis
  proof (cases rule: ebindE)
    case (Stop r0)
    with R(1) [OF Stop(1)] growsD [OF conjunct1 [OF R(2) [OF Stop(1)]] w] show ?thesis by (intro stay) auto
  next
    case (Next mb w1)
    note one = R(1) [OF Next(1)]
    from growsD [OF conjunct1 [OF R(2) [OF Next(1)]] w] have w1: "sane w1" by blast
    from Next(2) show ?thesis
    proof (cases rule: ebindE)
      case (Stop r0)
      have "same_storage V w w'" using one R(1) [OF Stop(1)] by (simp add: same_storage_def)
      with Stop growsD [OF conjunct1 [OF R(2) [OF Stop(1)]] w1] show ?thesis by (intro stay) auto
    next
      case (Next cb w2)
      note two = R(1) [OF Next(1)]
      from growsD [OF conjunct1 [OF R(2) [OF Next(1)]] w1] have w2: "sane w2" by blast
      have same2: "same_storage V w w2" using one two by (simp add: same_storage_def)
      show ?thesis
      proof (cases "json_Image L cb")
        case (Inl e)
        with Next(2) have "w' = w2" "r \<noteq> Ok ()" by (auto simp: unmarshal_def throw_def)
        with w2 same2 show ?thesis by (intro stay) auto
      next
        case (Inr cfg)
        show ?thesis
        proof (cases "digest_Encoded L (d_Digest (m_Config m))")
          case None
          with Next(2) Inr have "w' = w2" "r \<noteq> Ok ()" by (auto simp: unmarshal_def Let_def)
          with w2 same2 show ?thesis by (intro stay) auto
        next
          case (Some iid)
          let ?opts = "\<lparr>io_BigData = image_bigData (im_Manifest img) m cb mb, io_Metadata = ''{}'',
                   io_CreationDate = c_Created cfg\<rparr>"
          obtain rc w3 where create: "ls_CreateImage (st_store s) iid topl ?opts w2 = (rc, w3)" by fastforce
          from growsD [OF movesD [OF pull_sideD(10) [OF side] create] w2] have w3: "sane w3" by blast
          note law = law_CreateImageD [OF laws create]
          let ?named = "\<lambda>rec. ls_AddNames (st_store s) (ir_ID rec) [reference_String (im_Ref img)]"
          let ?bds = "image_bigData (im_Manifest img) m cb mb"
          have names: ?thesis
            if u: "sane u" "storage_grows L V {} w u" "same_layers V w u"
              "iid \<noteq> [] \<Longrightarrow> ir_ID rec = iid \<and> cs_tops V u iid = Some topl \<and>
                 (distinct (map bd_Key ?bds) \<longrightarrow> (\<forall>bd \<in> set ?bds. cs_data V u iid (bd_Key bd) = Some (bd_Data bd)))"
              "?named rec u = (r, w')" for rec u
          proof -
            note add = law_AddNamesD [OF laws u(5)]
            have "storage_grows L V {} w w'" using u(2) add by (simp add: storage_grows_def same_layers_def)
            moreover have "image_recorded L V img m topl w'" if "r = Ok ()"
              unfolding image_recorded_def using add u(4) that Some one two Inr
              by (intro exI [of _ iid] exI [of _ mb] exI [of _ cb] exI [of _ cfg]) auto
            ultimately show ?thesis
              using growsD [OF movesD [OF pull_sideD(12) [OF side] u(5)] u(1)] u(3) add by (simp add: same_layers_def)
          qed
          note run1 = Next(2) [unfolded unmarshal_def Inr sum.case ebind_pure Let_def Some option.case
              image_options.select_convs]
          have rest:
            "ebind (case rc of Ok rec \<Rightarrow> ret rec | Panic \<Rightarrow> pure_res Panic
               | Err err \<Rightarrow> if err_is err ErrDuplicateID then
                    ebind (ls_Image (st_store s) iid) (\<lambda>rec.
                      if ir_TopLayer rec \<noteq> topl
                      then throw (Wrap1 ''image exists with a different top layer'' (Sentinel ErrDuplicateID))
                      else ebind (for_each (\<lambda>bd. ls_SetImageBigData (st_store s) iid (bd_Key bd) (bd_Data bd)) ?bds)
                        (\<lambda>_. ret rec))
                  else throw err) ?named w3 = (r, w')"
            using run1 create by (cases rc) (simp_all only: ebind_def attempt_def prod.case res.case sum.case pure_res_def)
          show ?thesis
          proof (cases rc)
            case (Ok rec)
            have "storage_grows L V {} w w3"
              using law same2 Ok by (auto simp: storage_grows_def same_layers_def same_storage_def map_le_def)
            moreover have "same_layers V w w3" using law same2 by (simp add: same_layers_def same_storage_def)
            ultimately show ?thesis using w3 law Ok rest by (intro names [of w3 rec]) auto
          next
            case Panic
            with rest law same2 w3 show ?thesis by (intro stay) (auto simp: same_storage_iff same_layers_def same_images_def)
          next
            case (Err e)
            with law same2 have same3: "same_storage V w w3" by (simp add: same_storage_iff same_layers_def same_images_def)
            show ?thesis
            proof (cases "err_is e ErrDuplicateID")
              case False
              with rest Err w3 same3 show ?thesis by (intro stay) (auto simp: throw_run)
            next
              case True
              with Err rest have dup: "ebind (ls_Image (st_store s) iid) (\<lambda>rec.
                  ebind (if ir_TopLayer rec \<noteq> topl
                      then throw (Wrap1 ''image exists with a different top layer'' (Sentinel ErrDuplicateID))
                      else ebind (for_each (\<lambda>bd. ls_SetImageBigData (st_store s) iid (bd_Key bd) (bd_Data bd)) ?bds)
                        (\<lambda>_. ret rec)) ?named) w3 = (r, w')"
                by (simp add: ebind_assoc)
              from dup show ?thesis
              proof (cases rule: ebindE)
                case (Stop r0)
                have "same_storage V w w'" using same3 law_ImageD [OF laws Stop(1)] by (simp add: same_storage_def)
                with growsD [OF movesD [OF pull_sideD(9) [OF side] Stop(1)] w3] Stop(3) show ?thesis by (intro stay) auto
              next
                case (Next rec w4)
                note li = law_ImageD [OF laws Next(1)]
                from growsD [OF movesD [OF pull_sideD(9) [OF side] Next(1)] w3] have w4: "sane w4" by blast
                have same4: "same_storage V w w4" using same3 li by (simp add: same_storage_def)
                show ?thesis
                proof (cases "ir_TopLayer rec = topl")
                  case False
                  with Next(2) w4 same4 show ?thesis by (intro stay) (auto simp: throw_run)
                next
                  case topl: True
                  from Next(2) topl have loop: "ebind (for_each (\<lambda>bd. ls_SetImageBigData (st_store s) iid (bd_Key bd) (bd_Data bd)) ?bds)
                      (\<lambda>_. ?named rec) w4 = (r, w')" by (simp add: ebind_assoc)
                  note keep = pull_sideD(11) [OF side]
                  have grow: "storage_grows L V {} w u \<and> same_layers V w u"
                    if "same_layers V w4 u" "cs_tops V u = cs_tops V w4" for u
                    using that same4 by (simp add: storage_grows_def same_layers_def same_storage_def)
                  from loop show ?thesis
                  proof (cases rule: ebindE)
                    case (Stop r0)
                    with bigData_loop [OF laws keep w4 Stop(1)] grow [of w'] show ?thesis by auto
                  next
                    case (Next u w5)
                    note bl = bigData_loop [OF laws keep w4 Next(1)]
                    have "iid \<noteq> [] \<Longrightarrow> ir_ID rec = iid \<and> cs_tops V w4 iid = Some topl"
                      using li law Err True topl same3 same2 by (auto simp: same_storage_def)
                    with bl grow [of w5] Next(2) show ?thesis by (intro names [of w5 rec]) auto
                  qed
                qed
              qed
            qed
          qed
        qed
      qed
    qed
  qed
qed

end

end
