(* ===== verification/Cstorage_Pull.thy ===== *)
theory Cstorage_Pull
  imports Cstorage_Facts
begin

text \<open>
  A pull into containers-storage, entry by entry: what an entry that returns without an error has
  installed, and that nothing vanishes however the others end.
\<close>

section \<open>Reading the image\<close>

definition image_read :: "oci_lib \<Rightarrow> 'w image \<Rightarrow> manifest \<Rightarrow> image_config \<Rightarrow> bool" where
  "image_read L img m cfg \<longleftrightarrow>
     (\<exists>mb cb. digest_FromBytes L mb = d_Digest (im_Manifest img) \<and> json_Manifest L mb = Inr m \<and>
        digest_FromBytes L cb = d_Digest (m_Config m) \<and> json_Image L cb = Inr cfg)"

lemma moves_readBlob:
  assumes "\<And>d. moves R (od_Blobs (im_Dir img) d)" "reflp R" "transp R"
  shows "moves R (cstorage_readBlob L img d)"
  unfolding cstorage_readBlob_def by (intro keeps_intros assms) (auto intro: keeps_intros assms(2))

lemma moves_readImage:
  assumes "\<And>d. moves R (od_Blobs (im_Dir img) d)" "reflp R" "transp R"
  shows "moves R (cstorage_readImage L img)"
  unfolding cstorage_readImage_def unmarshal_def
  by (intro keeps_intros moves_readBlob assms) (auto intro!: keeps_intros moves_readBlob assms split: sum.splits)

lemma readImage_Ok:
  assumes "cstorage_readImage L img w = (Ok (m, cfg), w')" shows "image_read L img m cfg"
  using assms unfolding cstorage_readImage_def image_read_def
  by (auto simp: cstorage_readBlob_def unmarshal_def ebind_Ok split: if_splits sum.splits)

section \<open>One entry\<close>

text \<open>
  What a pull of \<open>e\<close> from \<open>w\<close> to \<open>w'\<close> has put in place. A new layer has the chain ID, the uncompressed digest
  and, as its parent, the layer below of one and the same position.
\<close>

definition entry_installed :: "oci_lib \<Rightarrow> 'w storage_view \<Rightarrow> 'w entry \<Rightarrow> 'w \<Rightarrow> 'w \<Rightarrow> bool" where
  "entry_installed L V e w w' \<longleftrightarrow>
     (\<exists>m cfg ids. image_read L (en_Image e) m cfg \<and> cstorage_chainIDs L (c_DiffIDs cfg) = Ok ids \<and>
        storage_grows L V (d_Digest ` set (m_Layers m)) w w' \<and>
        image_recorded L V (en_Image e) m (last ([] # take (length (m_Layers m)) ids)) w' \<and>
        ([] \<notin> set ids \<longrightarrow> (\<forall>i \<in> set (take (length (m_Layers m)) ids). \<exists>x. cs_layers V w' i = Some x \<and>
           (cs_layers V w i = Some x \<or> (ly_Parent x, i, ly_UncompressedDigest x) \<in> set (zip ([] # ids) (zip ids (c_DiffIDs cfg)))))))"

text \<open>However it ends, nothing vanishes, and new layers are of a manifest that was verified.\<close>

definition entry_safe :: "oci_lib \<Rightarrow> 'w storage_view \<Rightarrow> 'w entry \<Rightarrow> 'w \<Rightarrow> 'w \<Rightarrow> bool" where
  "entry_safe L V e w w' \<longleftrightarrow>
     same_storage V w w' \<or>
     (\<exists>m cfg. image_read L (en_Image e) m cfg \<and> storage_grows L V (d_Digest ` set (m_Layers m)) w w')"

context blob_cache
begin

lemma stay_step:
  "moves (same_storage V) m \<Longrightarrow> moves grows m \<Longrightarrow> m u = (x, u') \<Longrightarrow> sane u \<Longrightarrow> same_storage V w u \<Longrightarrow>
     sane u' \<and> same_storage V w u'"
  using growsD [OF movesD [of grows m]] movesD [of "same_storage V" m] by (metis same_rel(2) transpD)

lemma moves_fetch:
  assumes "pull_side grows s V ctx_Err" "st_cache s = C" "entry_side L grows V push src e"
  shows "moves (same_storage V) (for_each (cstorage_fetch s (en_Image e)) ls)"
    "moves grows (for_each (cstorage_fetch s (en_Image e)) ls)"
proof -
  have blobs: "moves (same_storage V) (od_Blobs (im_Dir (en_Image e)) d)" "moves grows (od_Blobs (im_Dir (en_Image e)) d)" for d
    using assms(3) unfolding entry_side_def by blast+
  note same = pull_sideD(3,5) [OF assms(1)]
  have "moves (same_storage V) (cstorage_fetch s (en_Image e) l)" "moves grows (cstorage_fetch s (en_Image e) l)" for l
    unfolding cstorage_fetch_def using same
    by (auto intro!: keeps_intros blobs grows_rel grows_ops simp: assms(2))
  then show "moves (same_storage V) (for_each (cstorage_fetch s (en_Image e)) ls)"
    "moves grows (for_each (cstorage_fetch s (en_Image e)) ls)"
    by (auto intro!: keeps_intros grows_rel)
qed

lemma pullEntry_run:
  assumes laws: "layer_laws (st_store s) V" and side: "pull_side grows s V ctx_Err" and C: "st_cache s = C"
    and e: "entry_side L grows V push src e" and w: "sane w"
    and run: "cstorage_pullEntry L s push e src w = (r, w')"
  shows "sane w' \<and> entry_safe L V e w w' \<and> (r = Ok () \<longrightarrow> entry_installed L V e w w')"
proof -
  let ?img = "en_Image e"
  have blobs: "moves (same_storage V) (od_Blobs (im_Dir ?img) d)" "moves grows (od_Blobs (im_Dir ?img) d)" for d
    using e unfolding entry_side_def by blast+
  have kept: "moves (same_storage V) (if en_Fallback e then cstorage_keepInStore L push ?img src else ret ())"
    "moves grows (if en_Fallback e then cstorage_keepInStore L push ?img src else ret ())"
    using e grows_rel unfolding entry_side_def by (auto intro: keeps_intros)
  note reads = moves_readImage [OF blobs(1) same_rel(1,2)] moves_readImage [OF blobs(2) grows_rel]
  have early: ?thesis if "sane w' \<and> same_storage V w w'" "r \<noteq> Ok ()"
    using that by (simp add: entry_safe_def)
  have refl: "same_storage V w w" by (simp add: same_storage_def)
  from run [unfolded cstorage_pullEntry_def Let_def] show ?thesis
  proof (cases rule: ebindE)
    case (Stop r0)
    from stay_step [OF kept Stop(1) w refl] Stop(3) show ?thesis by (intro early) auto
  next
    case (Next u w1)
    note w1 = stay_step [OF kept Next(1) w refl]
    from Next(2) show ?thesis
    proof (cases rule: ebindE)
      case (Stop r0)
      from stay_step [OF reads Stop(1) conjunct1 [OF w1] conjunct2 [OF w1]] Stop(3) show ?thesis by (intro early) auto
    next
      case (Next mc w2)
      obtain m cfg where mc: "mc = (m, cfg)" by fastforce
      note w2 = stay_step [OF reads Next(1) conjunct1 [OF w1] conjunct2 [OF w1]]
      note img = readImage_Ok [OF Next(1) [unfolded mc]]
      show ?thesis
      proof (cases "\<exists>ids. cstorage_chainIDs L (c_DiffIDs cfg) = Ok ids")
        case False
        with Next(2) have "w' = w2" "r \<noteq> Ok ()"
          by (cases "cstorage_chainIDs L (c_DiffIDs cfg)"; auto simp: mc throw_run)+
        with w2 show ?thesis by (intro early) auto
      next
        case True
        then obtain ids where ids: "cstorage_chainIDs L (c_DiffIDs cfg) = Ok ids" by blast
        from Next(2) have "ebind (for_each (cstorage_fetch s ?img) (en_Missing e)) (\<lambda>_.
            ebind (cstorage_applyAll s ids (c_DiffIDs cfg) (m_Layers m) []) (\<lambda>parent.
              cstorage_writeImage L s ?img m parent)) w2 = (r, w')" by (simp add: mc ids)
        then show ?thesis
        proof (cases rule: ebindE)
          case (Stop r0)
          from stay_step [OF moves_fetch [OF side C e] Stop(1) conjunct1 [OF w2] conjunct2 [OF w2]] Stop(3)
          show ?thesis by (intro early) auto
        next
          case (Next u w3)
          note w3 = stay_step [OF moves_fetch [OF side C e] Next(1) conjunct1 [OF w2] conjunct2 [OF w2]]
          have safe: "entry_safe L V e w v" if "storage_grows L V (d_Digest ` set (m_Layers m)) w v" for v
            using that img unfolding entry_safe_def by blast
          note from_w = transpD [OF storage_grows_trans storage_grows_same [OF conjunct2 [OF w3]]]
          from Next(2) show ?thesis
          proof (cases rule: ebindE)
            case (Stop r0)
            note all = applyAll_run [OF laws side C conjunct1 [OF w3] Stop(1)]
            with safe [OF from_w [OF conjunct1 [OF conjunct2 [OF all]]]] Stop(3) show ?thesis by auto
          next
            case (Next topl w4)
            note all = applyAll_run [OF laws side C conjunct1 [OF w3] Next(1)]
            note wr = writeImage_run [OF laws side conjunct1 [OF all] blobs Next(2)]
            have grow: "storage_grows L V (d_Digest ` set (m_Layers m)) w w'"
              using from_w [OF conjunct1 [OF conjunct2 [OF all]]] storage_grows_mono [OF conjunct1 [OF conjunct2 [OF wr]]]
              by (meson empty_subsetI storage_grows_trans transpD)
            have "entry_installed L V e w w'" if "r = Ok ()"
              unfolding entry_installed_def
              using img ids grow wr that all w3
              by (intro exI [of _ m] exI [of _ cfg] exI [of _ ids])
                (auto simp: same_layers_def same_storage_def)
            with wr safe [OF grow] show ?thesis by blast
          qed
        qed
      qed
    qed
  qed
qed

end

section \<open>The pull\<close>

definition storage_kept :: "'w storage_view \<Rightarrow> 'w \<Rightarrow> 'w \<Rightarrow> bool" where
  "storage_kept V w w' \<longleftrightarrow> cs_layers V w \<subseteq>\<^sub>m cs_layers V w' \<and> cs_tops V w \<subseteq>\<^sub>m cs_tops V w'"

lemma storage_kept_rel: "reflp (storage_kept V)" "transp (storage_kept V)"
  by (auto simp: storage_kept_def intro!: reflpI transpI intro: map_le_trans)

lemma kept_safe: "entry_safe L V e w w' \<Longrightarrow> storage_kept V w w'"
  by (auto simp: entry_safe_def storage_kept_def storage_grows_def same_storage_def)

lemma installed_from:
  assumes "same_storage V w w0" "entry_installed L V e w0 w'" shows "entry_installed L V e w w'"
proof -
  have "storage_grows L V D w w' = storage_grows L V D w0 w'" for D
    using assms(1) by (simp add: storage_grows_def same_storage_def)
  moreover have "cs_layers V w0 = cs_layers V w" using assms(1) by (simp add: same_storage_def)
  ultimately show ?thesis using assms(2) unfolding entry_installed_def by simp
qed

context blob_cache
begin

lemma pullOne_run:
  assumes laws: "layer_laws (st_store s) V" and side: "pull_side grows s V ctx_Err" and C: "st_cache s = C"
    and e: "entry_side L grows V push src e" and w: "sane w"
    and run: "cstorage_pullOne L s ctx_Err push src e w = (r, w')"
  shows "sane w' \<and> storage_kept V w w' \<and> (r = Ok () \<longrightarrow> entry_installed L V e w w')"
proof -
  let ?wrap = "EntryError (im_Ref (en_Image e)) (im_Platform (en_Image e))"
  have ctx: "moves (same_storage V) (map_err ?wrap ctx_Err)" "moves grows (map_err ?wrap ctx_Err)"
    using pull_sideD(1,2) [OF side] by (auto intro: keeps_intros)
  have refl: "same_storage V w w" by (simp add: same_storage_def)
  from run [unfolded cstorage_pullOne_def Let_def] show ?thesis
  proof (cases rule: ebindE)
    case (Stop r0)
    from stay_step [OF ctx Stop(1) w refl] Stop(3) show ?thesis by (auto simp: storage_kept_def same_storage_def)
  next
    case (Next u w1)
    note w1 = stay_step [OF ctx Next(1) w refl]
    obtain r1 where pull: "cstorage_pullEntry L s push e src w1 = (r1, w')" "r = Ok () \<Longrightarrow> r1 = Ok ()"
      using Next(2) by (auto simp: map_err_def split: prod.splits res.splits)
    note pe = pullEntry_run [OF laws side C e conjunct1 [OF w1] pull(1)]
    have "storage_kept V w w'"
      using kept_safe [of L V e w1 w'] pe w1 by (simp add: storage_kept_def same_storage_def)
    with pe pull(2) installed_from [OF conjunct2 [OF w1]] show ?thesis by blast
  qed
qed

lemma Pull_run:
  assumes laws: "layer_laws (st_store s) V" and side: "pull_side grows s V ctx_Err" and C: "st_cache s = C"
    and e: "\<And>e. e \<in> set (pl_Entries p) \<Longrightarrow> entry_side L grows V push src e" and w: "sane w"
    and run: "cstorage_Pull L s ctx_Err push p src w = (r, w')"
  shows "sane w' \<and> storage_kept V w w' \<and>
    (r = Ok () \<longrightarrow> (\<forall>e \<in> set (pl_Entries p). \<exists>w1 w2. storage_kept V w w1 \<and> entry_installed L V e w1 w2 \<and>
       storage_kept V w2 w'))"
proof -
  let ?R = "\<lambda>u v. sane u \<longrightarrow> sane v \<and> storage_kept V u v"
  have R: "reflp ?R" "transp ?R"
    using storage_kept_rel [of V] by (auto intro!: reflpI transpI dest: reflpD transpD)
  have one: "moves ?R (cstorage_pullOne L s ctx_Err push src e)" if "e \<in> set (pl_Entries p)" for e
    using pullOne_run [OF laws side C assms(4) [OF that]] by (intro movesI) blast
  let ?run = "collect_errs (cstorage_pullOne L s ctx_Err push src) (pl_Entries p)"
  have all: "moves ?R ?run" by (rule moves_collect_errs [OF R one])
  from run [unfolded cstorage_Pull_def]
  have c: "(\<exists>es. ?run w = (Ok es, w') \<and> (r = Ok () \<longrightarrow> es = [])) \<or> ?run w = (Panic, w') \<and> r = Panic"
  proof (cases rule: ebindE)
    case (Next es w1)
    then show ?thesis by (cases es) (auto simp: raise_opt_def join_errs_def ret_run throw_run)
  next
    case (Stop r0)
    then show ?thesis by (cases r0; cases r) (auto simp: collect_errs_no_Err)
  qed
  have "?R w w'" using c movesD [OF all] by blast
  moreover have "\<exists>w1 w2. storage_kept V w w1 \<and> entry_installed L V e w1 w2 \<and> storage_kept V w2 w'"
    if r: "r = Ok ()" and e: "e \<in> set (pl_Entries p)" for e
  proof -
    from c r have "collect_errs (cstorage_pullOne L s ctx_Err push src) (pl_Entries p) w = (Ok [], w')"
      by auto
    from collect_errs_Nil [OF this e R(2,1) one] w obtain w1 w2 where
      "sane w1" "storage_kept V w w1" "cstorage_pullOne L s ctx_Err push src e w1 = (Ok (), w2)"
      "sane w2 \<longrightarrow> storage_kept V w2 w'" by blast
    with pullOne_run [OF laws side C assms(4) [OF e] this(1,3)] show ?thesis by blast
  qed
  ultimately show ?thesis using w by blast
qed

end

end
