(* ===== verification/Cstorage_Properties.thy ===== *)
theory Cstorage_Properties
  imports Cstorage_Pull Demo_Push
begin

text \<open>
  The property of package cstorage's pull, and a small containers-storage that obeys the library's
  documented behaviour to run it on.
\<close>

text \<open>
  C37: over any containers-storage that behaves as documented and any cache that keeps its contract (as
  package blobcache does), a pull that returns without an error has installed every entry of the plan:
  from a manifest and a config with the digests the plan names, it put layers whose bytes have the
  digests of that manifest, each new one under its chain ID with the diffID of the config and the layer
  below it as its parent, on top of them the image with its config, manifest and name; no layer and no image that was there before
  is gone.
\<close>

theorem pull_installs:
  assumes "blob_cache L (st_cache s) sane holds" "layer_laws (st_store s) V"
    and "pull_side (blob_cache.grows sane holds) s V ctx_Err"
    and "\<And>e. e \<in> set (pl_Entries p) \<Longrightarrow> entry_side L (blob_cache.grows sane holds) V push src e"
    and "sane w" "cstorage_Pull L s ctx_Err push p src w = (Ok (), w')"
  shows "storage_kept V w w' \<and>
    (\<forall>e \<in> set (pl_Entries p). \<exists>w1 w2. storage_kept V w w1 \<and> entry_installed L V e w1 w2 \<and> storage_kept V w2 w')"
  using blob_cache.Pull_run [OF assms(1,2,3) refl assms(4,5,6)] by blast

section \<open>A containers-storage in memory\<close>

record cs_world =
  cw_layers :: "string \<rightharpoonup> layer"
  cw_content :: "string \<Rightarrow> bytes"
  cw_tops :: "string \<rightharpoonup> string"
  cw_names :: "string \<rightharpoonup> string"
  cw_data :: "string \<Rightarrow> string \<rightharpoonup> bytes"

definition cw_view :: "cs_world storage_view" where
  "cw_view = \<lparr>cs_layers = cw_layers, cs_content = cw_content, cs_tops = cw_tops, cs_names = cw_names, cs_data = cw_data\<rparr>"

definition cw_empty :: cs_world where
  "cw_empty = \<lparr>cw_layers = Map.empty, cw_content = (\<lambda>_. []), cw_tops = Map.empty, cw_names = Map.empty,
     cw_data = (\<lambda>_. Map.empty)\<rparr>"

definition cw_Layer :: "string \<Rightarrow> (cs_world, layer) io" where
  "cw_Layer i w = (case cw_layers w i of None \<Rightarrow> (Err (Sentinel ErrNotExist), w) | Some l \<Rightarrow> (Ok l, w))"

definition cw_PutLayer :: "string \<Rightarrow> string \<Rightarrow> layer_options \<Rightarrow> body \<Rightarrow> (cs_world, layer) io" where
  "cw_PutLayer i p lo b w =
     (if snd b \<noteq> None then (Err (Msg ''read''), w)
      else if cw_layers w i \<noteq> None then (Err (Sentinel ErrDuplicateID), w)
      else let l = \<lparr>ly_ID = i, ly_Parent = p, ly_UncompressedDigest = lo_UncompressedDigest lo,
                    ly_CompressedDigest = lo_OriginalDigest lo, ly_CompressedSize = lo_OriginalSize lo,
                    ly_CompressionType = OtherCompression\<rparr> in
        (Ok l, w\<lparr>cw_layers := (cw_layers w)(i \<mapsto> l), cw_content := (cw_content w)(i := fst b)\<rparr>))"

definition cw_DeleteLayer :: "string \<Rightarrow> (cs_world, unit) io" where
  "cw_DeleteLayer i w = (Ok (), w\<lparr>cw_layers := (cw_layers w)(i := None)\<rparr>)"

definition cw_Image :: "string \<Rightarrow> (cs_world, image_record) io" where
  "cw_Image i w =
     (case cw_tops w i of None \<Rightarrow> (Err (Sentinel ErrNotExist), w)
      | Some t \<Rightarrow> (Ok \<lparr>ir_ID = i, ir_TopLayer = t\<rparr>, w))"

definition cw_CreateImage :: "string \<Rightarrow> string \<Rightarrow> image_options \<Rightarrow> (cs_world, image_record) io" where
  "cw_CreateImage i topl opts w =
     (if cw_tops w i \<noteq> None then (Err (Sentinel ErrDuplicateID), w)
      else (Ok \<lparr>ir_ID = i, ir_TopLayer = topl\<rparr>,
        w\<lparr>cw_tops := (cw_tops w)(i \<mapsto> topl),
          cw_data := (cw_data w)(i := map_of (map (\<lambda>bd. (bd_Key bd, bd_Data bd)) (io_BigData opts)))\<rparr>))"

definition cw_SetImageBigData :: "string \<Rightarrow> string \<Rightarrow> bytes \<Rightarrow> (cs_world, unit) io" where
  "cw_SetImageBigData i k b w = (Ok (), w\<lparr>cw_data := (cw_data w)(i := (cw_data w i)(k \<mapsto> b))\<rparr>)"

definition cw_AddNames :: "string \<Rightarrow> string list \<Rightarrow> (cs_world, unit) io" where
  "cw_AddNames i ns w = (Ok (), w\<lparr>cw_names := (\<lambda>n. if list_ex ((=) n) ns then Some i else cw_names w n)\<rparr>)"

definition cw_store :: "cs_world layer_store" where
  "cw_store =
     \<lparr>ls_Layer = cw_Layer, ls_PutLayer = cw_PutLayer, ls_DeleteLayer = cw_DeleteLayer,
      ls_Diff = (\<lambda>_. throw (Sentinel ErrNotExist)), ls_Image = cw_Image,
      ls_ImagesByDigest = (\<lambda>_. ret []), ls_ImageBigData = (\<lambda>_ _. throw (Sentinel ErrNotExist)),
      ls_CreateImage = cw_CreateImage, ls_SetImageBigData = cw_SetImageBigData, ls_AddNames = cw_AddNames,
      ls_Shutdown = ret ()\<rparr>"

lemmas cw_ops = cw_Layer_def cw_PutLayer_def cw_DeleteLayer_def cw_Image_def cw_CreateImage_def
  cw_SetImageBigData_def cw_AddNames_def

lemma cw_laws: "layer_laws cw_store cw_view"
proof -
  note [simp] = cw_store_def cw_view_def same_storage_def same_images_def same_layers_def
  have "law_Layer cw_store cw_view" by (auto simp: law_Layer_def cw_ops split: option.splits)
  moreover have "law_PutLayer cw_store cw_view" by (auto simp: law_PutLayer_def cw_ops Let_def split: if_splits)
  moreover have "law_DeleteLayer cw_store cw_view" by (auto simp: law_DeleteLayer_def cw_ops)
  moreover have "law_Image cw_store cw_view" by (auto simp: law_Image_def cw_ops split: option.splits)
  moreover have "law_CreateImage cw_store cw_view"
    by (auto simp: law_CreateImage_def cw_ops comp_def intro!: map_of_is_SomeI split: if_splits)
  moreover have "law_SetImageBigData cw_store cw_view"
    by (auto simp: law_SetImageBigData_def cw_ops)
  moreover have "law_AddNames cw_store cw_view" by (auto simp: law_AddNames_def cw_ops list_ex_iff)
  ultimately show ?thesis by (simp add: layer_laws_def)
qed

text \<open>A cache that holds the blobs of the demo image and takes no other.\<close>

definition cw_has :: "string \<Rightarrow> bool" where
  "cw_has d = list_ex (\<lambda>b. digest_FromBytes demo_lib b = d) demo_contents"

definition cw_cache :: "cs_world cache" where
  "cw_cache =
     \<lparr>co_Has = (\<lambda>d. ret (cw_has d)), co_Open = memory_Blobs demo_contents,
      co_Fetch = (\<lambda>desc r. if cw_has (d_Digest desc) then ret () else throw (Sentinel ErrReadOnly)),
      co_Put = (\<lambda>mt body. throw (Sentinel ErrReadOnly))\<rparr>"

lemma cw_cache_laws: "blob_cache demo_lib cw_cache (\<lambda>_. True) (\<lambda>_. cw_has)"
proof -
  have "cw_has d \<and> valid_digest demo_lib d \<and> rd_Fail rd = None \<and> rd_Size rd = int (length (rd_Content rd)) \<and>
      digest_matches demo_lib d (rd_Content rd)" if "memory_Blobs demo_contents d w = (Ok rd, w')" for d w rd w'
  proof -
    from that obtain b where b: "List.find (\<lambda>b. digest_FromBytes demo_lib b = d) demo_contents = Some b"
      "rd = \<lparr>rd_Size = int (length b), rd_Content = b, rd_Fail = None\<rparr>"
      by (auto simp: memory_Blobs_def ret_def throw_def split: option.splits)
    then have "digest_FromBytes demo_lib b = d" "b \<in> set demo_contents" by (auto simp: find_Some_iff)
    with b(2) show ?thesis
      using demo_valid_FromBytes [of b] canonical_matches [OF demo_canonical_laws]
      by (auto simp: cw_has_def list_ex_iff)
  qed
  note opened = this
  show ?thesis
    by unfold_locales (auto simp: cw_cache_def ret_def throw_def dest: opened split: if_splits)
qed

definition cw_cstorage :: "cs_world cstorage" where
  "cw_cstorage = cstorage_New cw_store cw_cache (\<lambda>_ b. b) None"

definition cw_img :: "cs_world image" where
  "cw_img = \<lparr>im_Ref = demo_ref, im_Platform = demo_platform, im_Manifest = demo_md demo_diff,
     im_Dir = store_SingleManifestDir demo_lib (memory_Blobs demo_contents) demo_platform (demo_md demo_diff)\<rparr>"

definition cw_plan :: "cs_world plan" where
  "cw_plan = \<lparr>pl_Entries = [\<lparr>en_Image = cw_img, en_Missing = m_Layers (demo_manifest demo_diff), en_Present = [],
     en_Fallback = False\<rparr>]\<rparr>"

definition cw_src :: "cs_world backend" where
  "cw_src = \<lparr>b_Open = (\<lambda>_. throw (Sentinel ErrNotExist)), b_Create = (\<lambda>_ _ _ _. throw (Sentinel ErrReadOnly)),
     b_List = None, b_MkdirAll = None\<rparr>"

lemma cw_pulled:
  "case cstorage_Pull demo_lib cw_cstorage (ret ()) (\<lambda>_. ret ()) cw_plan cw_src cw_empty of
     (Ok _, w') \<Rightarrow> cw_names w' (reference_String demo_ref) \<noteq> None
   | _ \<Rightarrow> False"
  by code_simp

lemma cw_moves_Blobs: "reflp R \<Longrightarrow> moves R (memory_Blobs bs d)"
  unfolding memory_Blobs_def by (auto intro: keeps_intros split: option.splits)

abbreviation cw_keeps :: "cs_world \<Rightarrow> cs_world \<Rightarrow> bool" where
  "cw_keeps \<equiv> blob_cache.grows (\<lambda>_. True) (\<lambda>_. cw_has)"

lemma cw_grows: "moves cw_keeps m"
  by (simp add: moves_def blob_cache.grows_def [OF cw_cache_laws])

lemma cw_side: "pull_side cw_keeps cw_cstorage cw_view (ret ())"
  unfolding pull_side_def cw_grows cw_cstorage_def cstorage_New_def cw_cache_def cstorage.simps cache.simps
  by (simp add: cw_grows moves_ret moves_throw cw_moves_Blobs)

lemma cw_entry_side:
  assumes "e \<in> set (pl_Entries cw_plan)" shows "entry_side demo_lib cw_keeps cw_view push src e"
proof -
  from assms have "od_Blobs (im_Dir (en_Image e)) = memory_Blobs demo_contents" "\<not> en_Fallback e"
    by (simp_all add: cw_plan_def cw_img_def store_SingleManifestDir_def Let_def)
  then show ?thesis by (simp add: entry_side_def cw_grows cw_moves_Blobs)
qed

theorem pull_installs_witness:
  "\<exists>w'. cstorage_Pull demo_lib cw_cstorage (ret ()) (\<lambda>_. ret ()) cw_plan cw_src cw_empty = (Ok (), w') \<and>
    cw_names w' (reference_String demo_ref) \<noteq> None \<and>
    (\<forall>e \<in> set (pl_Entries cw_plan). \<exists>w1 w2. storage_kept cw_view cw_empty w1 \<and>
       entry_installed demo_lib cw_view e w1 w2 \<and> storage_kept cw_view w2 w')"
proof -
  obtain w' where run: "cstorage_Pull demo_lib cw_cstorage (ret ()) (\<lambda>_. ret ()) cw_plan cw_src cw_empty = (Ok (), w')"
    "cw_names w' (reference_String demo_ref) \<noteq> None"
    using cw_pulled by (cases "cstorage_Pull demo_lib cw_cstorage (ret ()) (\<lambda>_. ret ()) cw_plan cw_src cw_empty")
      (auto split: res.split_asm intro: that)
  have fields: "st_cache cw_cstorage = cw_cache" "st_store cw_cstorage = cw_store"
    by (simp_all add: cw_cstorage_def cstorage_New_def)
  from pull_installs [of demo_lib cw_cstorage, unfolded fields, OF cw_cache_laws cw_laws cw_side cw_entry_side TrueI run(1)]
  show ?thesis using run by blast
qed

end
