(* ===== verification/Copy_Pull.thy ===== *)
theory Copy_Pull
  imports Copy_Push Cstorage_Pull
begin

text \<open>
  A pull of \<open>Copy\<close> from planning to the last image: the plan has one entry per image and platform, each
  from the store or its fallback, and when it is carried out without an error every row of the result is
  an image in containers-storage.
\<close>

section \<open>Reading a store\<close>

text \<open>Reading a store moves the world only as opening its files does.\<close>

definition opens_within :: "('w \<Rightarrow> 'w \<Rightarrow> bool) \<Rightarrow> 'w backend \<Rightarrow> bool" where
  "opens_within R B \<longleftrightarrow> reflp R \<and> transp R \<and> (\<forall>n. moves R (b_Open B n))"

lemma opens_withinD:
  assumes "opens_within R B" shows "reflp R" "transp R" "moves R (b_Open B n)"
  using assms by (simp_all add: opens_within_def)

lemma within_Blob: "opens_within R B \<Longrightarrow> moves R (store_Blob L B d)"
  unfolding store_Blob_def by (auto intro!: keeps_intros intro: opens_withinD split: option.splits)

lemma within_readAll: "opens_within R B \<Longrightarrow> moves R (store_readAll B n)"
  unfolding store_readAll_def by (auto intro!: keeps_intros intro: opens_withinD)

lemma within_readJSON: "opens_within R B \<Longrightarrow> moves R (store_readJSON L B dec d)"
  unfolding store_readJSON_def by (auto intro!: keeps_intros within_readAll intro: opens_withinD split: sum.splits)

lemma within_leafManifest: "opens_within R B \<Longrightarrow> moves R (store_leafManifest L B leaf)"
  unfolding store_leafManifest_def
  by (auto intro!: keeps_intros within_readAll intro: opens_withinD split: sum.splits list.splits)

lemma within_Resolve:
  assumes "opens_within R B" shows "moves R (store_Resolve L B ref p)"
  unfolding store_Resolve_def
  by (auto intro!: keeps_intros opens_withinD [OF assms] within_leafManifest [OF assms] within_readJSON [OF assms]
      split: sum.splits prod.splits)

lemma within_HasBlob: "opens_within R B \<Longrightarrow> moves R (store_HasBlob L B d)"
  unfolding store_HasBlob_def by (auto intro!: keeps_intros within_Blob intro: opens_withinD split: sum.splits)

lemma within_Diff:
  assumes R: "opens_within R B" and dir: "\<And>d. moves R (od_Blobs (im_Dir im) d)"
  shows "moves R (transfer_Diff L im B)"
proof -
  have "moves R (diff_loop L B ds e)" for ds e
    by (induction ds arbitrary: e) (auto intro!: keeps_intros opens_withinD [OF R] within_HasBlob [OF R])
  then show ?thesis
    unfolding transfer_Diff_def transfer_ImageBlobs_def
    by (auto intro!: keeps_intros opens_withinD [OF R] dir split: sum.splits)
qed

section \<open>A plan without errors\<close>

text \<open>What the entries of a pull are: images as asked for, whose directories move the world within \<open>R\<close>.\<close>

definition pulled_from :: "('w \<Rightarrow> 'w \<Rightarrow> bool) \<Rightarrow> reference \<Rightarrow> platform \<Rightarrow> 'w image \<Rightarrow> bool" where
  "pulled_from R ref p im \<longleftrightarrow> im_Ref im = ref \<and> im_Platform im = p \<and> (\<forall>d. moves R (od_Blobs (im_Dir im) d))"

lemma Resolve_pulled_from:
  assumes "opens_within R B" "store_Resolve L B ref p w = (Ok im, w')"
  shows "pulled_from R ref p im"
  using assms(2) within_Blob [OF assms(1)] unfolding store_Resolve_def
  by (auto simp: pulled_from_def store_image_def store_leafDir_def store_SingleManifestDir_def Let_def
      elim!: ebindE ebind_attemptE split: sum.splits if_splits prod.splits)

definition fallback_within :: "('w \<Rightarrow> 'w \<Rightarrow> bool) \<Rightarrow> 'w cstorage \<Rightarrow> bool" where
  "fallback_within R s \<longleftrightarrow>
     (\<forall>fb. st_Fallback s = Some fb \<longrightarrow> (\<forall>ref p. moves R (fb ref p)) \<and> answers fb (pulled_from R))"

text \<open>Where the image of an entry comes from.\<close>

definition plan_source :: "'w cstorage \<Rightarrow> reference \<Rightarrow> platform \<Rightarrow> gerr + 'w image \<Rightarrow> ('w, 'w image \<times> bool) io" where
  "plan_source s ref p r =
     (case r of
        Inr img \<Rightarrow> ret (img, False)
      | Inl e \<Rightarrow>
          (case st_Fallback s of
             Some fb \<Rightarrow> if err_is e ErrNotExist then ebind (fb ref p) (\<lambda>img. ret (img, True)) else throw e
           | None \<Rightarrow> throw e))"

definition plan_layers :: "oci_lib \<Rightarrow> 'w cstorage \<Rightarrow> 'w image \<times> bool \<Rightarrow> ('w, 'w entry) io" where
  "plan_layers L s x =
     (case x of (img, fallback) \<Rightarrow>
      ebind (cstorage_readImage L img) (\<lambda>(m, cfg).
       if length (c_DiffIDs cfg) \<noteq> length (m_Layers m) then throw (Msg ''config lists diffIDs for layers'')
       else
         ebind (pure_res (cstorage_chainIDs L (c_DiffIDs cfg))) (\<lambda>ids.
         ebind (present_prefix (st_store s) ids) (\<lambda>k.
           ret \<lparr>en_Image = img, en_Missing = drop k (m_Layers m), en_Present = take k (m_Layers m),
                en_Fallback = fallback\<rparr>))))"

lemma planEntry_parts:
  "cstorage_planEntry L s B ref p =
     ebind (attempt (store_Resolve L B ref p)) (\<lambda>r. ebind (plan_source s ref p r) (plan_layers L s))"
  by (simp add: cstorage_planEntry_def plan_source_def plan_layers_def [abs_def])

lemma plan_layers_image: "plan_layers L s (img, fallback) w = (Ok e, w') \<Longrightarrow> en_Image e = img"
  by (auto simp: plan_layers_def ebind_Ok split: if_splits)

lemma plan_source_pulled:
  assumes R: "opens_within R B" "fallback_within R s" and r: "attempt (store_Resolve L B ref p) w = (Ok r, u)"
    and img: "plan_source s ref p r u' = (Ok (img, fallback), v)"
  shows "pulled_from R ref p img"
proof (cases r)
  case (Inl err)
  with img obtain fb where "st_Fallback s = Some fb" "fb ref p u' = (Ok img, v)"
    by (auto simp: plan_source_def ebind_Ok split: option.splits if_splits)
  with R(2) show ?thesis unfolding fallback_within_def answers_def by blast
next
  case (Inr im)
  with r img have "store_Resolve L B ref p w = (Ok img, u)" by (simp add: plan_source_def attempt_Ok)
  with Resolve_pulled_from [OF R(1)] show ?thesis by blast
qed

lemma planEntry_pulled:
  assumes R: "opens_within R B" "fallback_within R s" and run: "cstorage_planEntry L s B ref p w = (Ok e, w')"
  shows "pulled_from R ref p (en_Image e)"
proof -
  from run obtain r u x v where r: "attempt (store_Resolve L B ref p) w = (Ok r, u)" and
    x: "plan_source s ref p r u = (Ok x, v)" and e: "plan_layers L s x v = (Ok e, w')"
    by (auto simp: planEntry_parts ebind_Ok)
  from plan_source_pulled [OF R r, of u "fst x" "snd x" v] plan_layers_image [of L s "fst x" "snd x"] x e
  show ?thesis by simp
qed

lemma within_readImage:
  assumes "reflp R" "transp R" "\<And>d. moves R (od_Blobs (im_Dir im) d)"
  shows "moves R (cstorage_readImage L im)"
  by (rule moves_readImage [OF assms(3,1,2)])

lemma within_present_prefix:
  assumes "reflp R" "transp R" "\<And>i. moves R (ls_Layer S i)" shows "moves R (present_prefix S ids)"
  by (induction ids) (auto intro!: keeps_intros assms split: sum.splits)

lemma within_planEntry:
  assumes R: "opens_within R B" "fallback_within R s" and layers: "\<And>i. moves R (ls_Layer (st_store s) i)"
  shows "moves R (cstorage_planEntry L s B ref p)"
proof -
  note rel = opens_withinD(1,2) [OF R(1)]
  have source: "moves R (plan_source s ref p r)" for r
    using R(2) unfolding fallback_within_def plan_source_def
    by (auto intro!: keeps_intros rel split: sum.splits option.splits)
  have layered: "moves R (plan_layers L s x)" if "pulled_from R ref p (fst x)" for x
    using that unfolding pulled_from_def plan_layers_def
    by (auto intro!: keeps_intros rel within_readImage [OF rel] within_present_prefix [OF rel] layers split: prod.splits)
  have "moves R (ebind (plan_source s ref p r) (plan_layers L s))"
    if r: "attempt (store_Resolve L B ref p) w = (Ok r, u)" for r w u
  proof (rule moves_ebind_run [OF rel(2) source])
    fix w x w' assume "plan_source s ref p r w = (Ok x, w')"
    with plan_source_pulled [OF R r, of w "fst x" "snd x" w'] layered show "moves R (plan_layers L s x)" by simp
  qed
  then show ?thesis unfolding planEntry_parts
    by (intro moves_ebind_run [OF rel(2) moves_attempt [OF within_Resolve [OF R(1)]]])
qed

text \<open>The entries of a plan, with the references and platforms they are for.\<close>

lemma within_planPull_images:
  assumes R: "opens_within R B" "fallback_within R s" and layers: "\<And>i. moves R (ls_Layer (st_store s) i)"
  shows "moves R (planPull_images L s B p images acc)"
proof (induction images arbitrary: acc)
  case (Cons e es)
  show ?case
    by (cases acc) (auto intro!: keeps_intros opens_withinD(1,2) [OF R(1)] within_planEntry [OF R layers] Cons.IH
      split: res.splits)
qed (use opens_withinD(1) [OF R(1)] in \<open>auto intro!: keeps_intros\<close>)

abbreviation all_pulled :: "('w \<Rightarrow> 'w \<Rightarrow> bool) \<Rightarrow> (reference \<times> platform) list \<Rightarrow> 'w entry list \<Rightarrow> bool" where
  "all_pulled R \<equiv> list_all2 (plans (pulled_from R))"

lemma planPull_images_entries:
  assumes R: "opens_within R B" "fallback_within R s"
    and run: "planPull_images L s B p images (plan, errs) w = (Ok (plan', []), w')"
    and refs: "list_all2 (\<lambda>x ref. types_ParseReference L x = Ok ref) images refs"
  shows "\<exists>es. pl_Entries plan' = pl_Entries plan @ es \<and> errs = [] \<and> all_pulled R (map (\<lambda>ref. (ref, p)) refs) es"
  using refs run
proof (induction images refs arbitrary: plan errs w rule: list_all2_induct)
  case Nil
  then show ?case by (simp add: ret_def)
next
  case (Cons x images ref refs)
  from Cons.prems Cons.hyps(1) obtain r u where r: "attempt (cstorage_planEntry L s B ref p) w = (Ok r, u)" and
    rest: "planPull_images L s B p images
              (case r of
                 Inl err \<Rightarrow> (plan, errs @ [EntryError ref p (Wrap1 ''cstorage: for'' err)])
               | Inr en \<Rightarrow> (plan\<lparr>pl_Entries := pl_Entries plan @ [en]\<rparr>, errs)) u = (Ok (plan', []), w')"
    by (auto simp: ebind_Ok)
  show ?case
  proof (cases r)
    case (Inl err)
    with Cons.IH [of plan "errs @ [EntryError ref p (Wrap1 ''cstorage: for'' err)]" u] rest show ?thesis by simp
  next
    case (Inr en)
    with Cons.IH [of "plan\<lparr>pl_Entries := pl_Entries plan @ [en]\<rparr>" errs u] rest obtain es where
      es: "pl_Entries plan' = pl_Entries plan @ en # es" "errs = []" "all_pulled R (map (\<lambda>ref. (ref, p)) refs) es" by auto
    moreover have "pulled_from R ref p (en_Image en)"
      using planEntry_pulled [OF R] r Inr by (simp add: attempt_Ok)
    ultimately show ?thesis by simp
  qed
qed

lemma plan_pulls_entries:
  assumes R: "opens_within R B" "fallback_within R s"
    and run: "plan_pulls L s B images ps (plan, errs) w = (Ok (plan', None), w')"
    and refs: "list_all2 (\<lambda>x ref. types_ParseReference L x = Ok ref) images refs"
  shows "(\<forall>e \<in> set errs. e = None) \<and>
    (\<exists>es. pl_Entries plan' = pl_Entries plan @ es \<and> all_pulled R (concat (map (\<lambda>p. map (\<lambda>ref. (ref, p)) refs) ps)) es)"
  using run
proof (induction ps arbitrary: plan errs w)
  case Nil
  then show ?case by (auto simp: ret_def eq_commute [of None "errors_Join _"] errors_Join_None)
next
  case (Cons p ps)
  from Cons.prems obtain pp err u where one: "cstorage_PlanPull L s B images p w = (Ok (pp, err), u)" and
    rest: "plan_pulls L s B images ps (plan\<lparr>pl_Entries := pl_Entries plan @ pl_Entries pp\<rparr>, errs @ [err]) u = (Ok (plan', None), w')"
    by (auto simp: ebind_Ok)
  from Cons.IH [OF rest] obtain es where es: "\<forall>e \<in> set errs. e = None" "err = None"
    "pl_Entries plan' = pl_Entries plan @ pl_Entries pp @ es"
    "all_pulled R (concat (map (\<lambda>p. map (\<lambda>ref. (ref, p)) refs) ps)) es" by auto
  from one es(2) have "planPull_images L s B p images (\<lparr>pl_Entries = []\<rparr>, []) w = (Ok (pp, []), u)"
    by (auto simp: cstorage_PlanPull_def ebind_Ok eq_commute [of None "join_errs _"])
  from planPull_images_entries [OF R this refs] obtain es1 where
    "pl_Entries pp = es1" "all_pulled R (map (\<lambda>ref. (ref, p)) refs) es1" by auto
  with es show ?case by (auto intro!: list_all2_appendI)
qed

lemma within_plan_pulls:
  assumes R: "opens_within R B" "fallback_within R s" and layers: "\<And>i. moves R (ls_Layer (st_store s) i)"
  shows "moves R (plan_pulls L s B images ps acc)"
proof (induction ps arbitrary: acc)
  case (Cons p ps)
  show ?case unfolding cstorage_PlanPull_def
    by (cases acc) (auto simp: cstorage_PlanPull_def
      intro!: keeps_intros opens_withinD(1,2) [OF R(1)] within_planPull_images [OF R layers] Cons.IH split: prod.splits)
next
  case Nil
  then show ?case using opens_withinD(1) [OF R(1)] by (cases acc) (auto intro!: keeps_intros)
qed

section \<open>The rows of the result\<close>

text \<open>The first row of a reference and a platform is that of an entry of the plan, if it has one.\<close>

definition wanted :: "'w entry \<Rightarrow> reference \<times> platform" where
  "wanted e = (im_Ref (en_Image e), im_Platform (en_Image e))"

lemma first_match_wanted:
  "first_match ref p used i es = Some (k, e) \<Longrightarrow> i \<le> k \<and> es ! (k - i) = e \<and> e \<in> set es \<and> wanted e = (ref, p)"
proof (induction es arbitrary: i)
  case (Cons x es)
  show ?case
  proof (cases "i \<in> used \<or> im_Ref (en_Image x) \<noteq> ref \<or> im_Platform (en_Image x) \<noteq> p")
    case True
    with Cons.prems have "first_match ref p used (Suc i) es = Some (k, e)" by simp
    from Cons.IH [OF this] show ?thesis by (auto simp: Suc_diff_le nth_Cons' less_eq_Suc_le)
  next
    case False
    with Cons.prems show ?thesis by (auto simp: wanted_def)
  qed
qed simp

lemma first_match_None:
  "first_match ref p used i es = None \<Longrightarrow> j < length es \<Longrightarrow> wanted (es ! j) = (ref, p) \<Longrightarrow> i + j \<in> used"
proof (induction es arbitrary: i j)
  case (Cons x es)
  show ?case
  proof (cases j)
    case 0
    with Cons.prems show ?thesis by (auto simp: wanted_def split: if_splits)
  next
    case (Suc k)
    with Cons.prems Cons.IH [of "Suc i" k] show ?thesis by (auto split: if_splits)
  qed
qed simp

lemma first_row:
  assumes "rp \<in> set rps" "e \<in> set es" "wanted e = rp"
    and "\<forall>j \<in> used. wanted (es ! j) \<noteq> rp"
  shows "\<exists>e \<in> set es. wanted e = rp \<and> row_of e \<in> set (result_rows es used rps)"
  using assms(1,4)
proof (induction rps arbitrary: used)
  case (Cons x rps)
  obtain ref p where x: "x = (ref, p)" by fastforce
  obtain j where j: "j < length es" "wanted (es ! j) = rp" using assms(2,3) by (metis in_set_conv_nth)
  show ?case
  proof (cases "first_match ref p used 0 es")
    case None
    with first_match_None [OF None j(1)] j(2) Cons.prems(2) x have "rp \<noteq> x" by auto
    with Cons.prems Cons.IH [of used] None x show ?thesis by auto
  next
    case (Some ke)
    obtain k e' where ke: "ke = (k, e')" by fastforce
    note m = first_match_wanted [OF Some [unfolded ke]]
    show ?thesis
    proof (cases "rp = x")
      case True
      with m x have "row_of e' = from_entry e' (no_entry ref p)" by (simp add: row_of_def wanted_def)
      with Some ke x True m show ?thesis by auto
    next
      case False
      with m x Cons.prems(2) have "\<forall>j \<in> insert k used. wanted (es ! j) \<noteq> rp" by auto
      with Cons.prems(1) False Cons.IH [of "insert k used"] Some ke x show ?thesis by auto
    qed
  qed
qed simp

lemma pulled_row:
  assumes "all_pulled R (concat (map (\<lambda>p. map (\<lambda>ref. (ref, p)) refs) ps)) (pl_Entries plan)"
    and "ref \<in> set refs" "p \<in> set ps"
  shows "\<exists>e \<in> set (pl_Entries plan). pulled_from R ref p (en_Image e) \<and> row_of e \<in> set (rs_Entries (newResult refs ps plan))"
proof -
  have pulled: "pulled_from R (fst (wanted e)) (snd (wanted e)) (en_Image e)" if "e \<in> set (pl_Entries plan)" for e
    using list_all2_in [OF assms(1) that] by (auto simp: pulled_from_def wanted_def)
  from assms(2,3) have "(ref, p) \<in> set (concat (map (\<lambda>p. map (\<lambda>ref. (ref, p)) refs) ps))" by auto
  then obtain i where i: "i < length (concat (map (\<lambda>p. map (\<lambda>ref. (ref, p)) refs) ps))"
    "concat (map (\<lambda>p. map (\<lambda>ref. (ref, p)) refs) ps) ! i = (ref, p)" unfolding in_set_conv_nth by blast
  have e: "pl_Entries plan ! i \<in> set (pl_Entries plan)" "wanted (pl_Entries plan ! i) = (ref, p)"
    using list_all2_nthD [OF assms(1) i(1)] list_all2_lengthD [OF assms(1)] i
    by (simp_all add: pulled_from_def wanted_def)
  from first_row [of "(ref, p)" "requested refs ps", OF _ e, of "{}"] assms(2,3) obtain e' where
    "e' \<in> set (pl_Entries plan)" "wanted e' = (ref, p)" "row_of e' \<in> set (rs_Entries (newResult refs ps plan))"
    by (auto simp: requested_def newResult_def)
  with pulled [of e'] show ?thesis by auto
qed

section \<open>The pull of a plan\<close>

text \<open>What moves neither the storage nor the cache, and so may happen between the calls of a pull.\<close>

definition aside :: "'w storage_view \<Rightarrow> ('w \<Rightarrow> 'w \<Rightarrow> bool) \<Rightarrow> 'w \<Rightarrow> 'w \<Rightarrow> bool" where
  "aside V G u v \<longleftrightarrow> same_storage V u v \<and> G u v"

lemma aside_rel: "reflp G \<Longrightarrow> transp G \<Longrightarrow> reflp (aside V G) \<and> transp (aside V G)"
  using same_rel(1,2) [of V] unfolding reflp_def transp_def aside_def by blast

lemma moves_aside: "moves (aside V G) m \<longleftrightarrow> moves (same_storage V) m \<and> moves G m"
  by (auto simp: moves_def aside_def)

text \<open>What a store does when it is pushed to, with images that move the world within \<open>R\<close>.\<close>

definition writes_within :: "('w \<Rightarrow> 'w \<Rightarrow> bool) \<Rightarrow> 'w backend \<Rightarrow> bool" where
  "writes_within R B \<longleftrightarrow> opens_within R B \<and> (\<forall>n b sz d. moves R (b_Create B n b sz d)) \<and>
     (\<forall>mk n. b_MkdirAll B = Some mk \<longrightarrow> moves R (mk n))"

lemma writes_withinD:
  assumes "writes_within R B"
  shows "opens_within R B" "moves R (b_Create B n b sz d)" "b_MkdirAll B = Some mk \<Longrightarrow> moves R (mk n)"
  using assms unfolding writes_within_def by blast+

abbreviation dir_within :: "('w \<Rightarrow> 'w \<Rightarrow> bool) \<Rightarrow> 'w image \<Rightarrow> bool" where
  "dir_within R im \<equiv> \<forall>d. moves R (od_Blobs (im_Dir im) d)"

definition push_within :: "('w \<Rightarrow> 'w \<Rightarrow> bool) \<Rightarrow> ('w plan \<Rightarrow> ('w, 'a) io) \<Rightarrow> bool" where
  "push_within R push \<longleftrightarrow> (\<forall>p :: 'w plan. (\<forall>e \<in> set (pl_Entries p). dir_within R (en_Image e)) \<longrightarrow> moves R (push p))"

lemma within_worker:
  assumes B: "writes_within R B" and dir: "dir_within R im"
  shows "moves R (worker_step L B im d ph)"
proof (cases ph)
  case Opening
  with dir show ?thesis unfolding worker_step_def
    by (auto intro!: keeps_intros opens_withinD(1,2) [OF writes_withinD(1) [OF B]] split: sum.splits)
next
  case (Checking r)
  then show ?thesis unfolding worker_step_def worker_check_def
    by (auto intro!: keeps_intros opens_withinD(1,2) [OF writes_withinD(1) [OF B]]
        within_HasBlob [OF writes_withinD(1) [OF B]] split: sum.splits bool.splits option.splits)
next
  case (Creating r)
  then show ?thesis unfolding worker_step_def worker_create_def
    by (auto intro!: keeps_intros opens_withinD(1,2) [OF writes_withinD(1) [OF B]] writes_withinD(2) [OF B] split: sum.splits)
qed

lemma within_push_steps:
  assumes B: "writes_within R B" and p: "\<forall>e \<in> set (pl_Entries p). dir_within R (en_Image e)"
    and steps: "(push_step L B p conc)\<^sup>*\<^sup>* (push_start p, w) (s, w1)"
  shows "R w w1 \<and> (\<forall>u \<in> set (po_pending s) \<union> fst ` set (po_running s). up_entry u < length (pl_Entries p))"
  using steps
proof (induction "(s, w1)" arbitrary: s w1 rule: rtranclp_induct)
  case base
  then show ?case
    using opens_withinD(1) [OF writes_withinD(1) [OF B]] by (auto simp: push_start_def reflp_def transfer_uploads_wf(3))
next
  case (step x)
  obtain t v where x: "x = (t, v)" by fastforce
  with step have IH: "R w v" "\<forall>u \<in> set (po_pending t) \<union> fst ` set (po_running t). up_entry u < length (pl_Entries p)"
    by auto
  note tr = transpD [OF opens_withinD(2) [OF writes_withinD(1) [OF B]] IH(1)]
  have img: "dir_within R (upload_image p u)" if "(u, ph) \<in> set (po_running t)" for u ph
    using IH(2) that p by (force simp: upload_image_def)
  from step(2) [unfolded x] show ?case
  proof (cases rule: push_stepE [consumes 1, case_names start call finish fail])
    case (start u us)
    with IH show ?thesis by auto
  next
    case (call xs u ph ys ph')
    then have "R v w1" using movesD [OF within_worker [OF B img]] by fastforce
    with call IH tr show ?thesis by auto
  next
    case (finish xs u ph ys)
    then have "R v w1" using movesD [OF within_worker [OF B img]] by fastforce
    with finish IH tr show ?thesis by auto
  next
    case (fail xs u ph ys e)
    then have "R v w1" using movesD [OF within_worker [OF B img]] by fastforce
    with fail IH tr show ?thesis by auto
  qed
qed

lemma within_createOnce: "writes_within R B \<Longrightarrow> moves R (store_createOnce B n b)"
  unfolding store_createOnce_def
  by (auto intro!: keeps_intros writes_withinD(2) intro: opens_withinD(1,2) [OF writes_withinD(1)] split: sum.splits)

lemma within_Commit:
  assumes B: "writes_within R B" shows "moves R (store_Commit L B ref p md)"
proof -
  note rel = opens_withinD(1,2) [OF writes_withinD(1) [OF B]]
  have check: "moves R (store_Commit_check L B p md)"
    unfolding store_Commit_check_def store_layerPresent_def
    by (auto intro!: keeps_intros rel within_readJSON [OF writes_withinD(1) [OF B]]
        within_HasBlob [OF writes_withinD(1) [OF B]] split: prod.splits)
  have index: "moves R (store_Commit_index L B ref p md leaf)" for leaf
    unfolding store_Commit_index_def
    by (auto intro!: keeps_intros rel writes_withinD(2) [OF B] within_leafManifest [OF writes_withinD(1) [OF B]]
        split: sum.splits)
  have mkdir: "moves R (case b_MkdirAll B of None \<Rightarrow> ret () | Some mk \<Rightarrow> mk n)" for n
    using writes_withinD(3) [OF B] by (auto intro: keeps_intros rel split: option.splits)
  have "moves R (store_Commit_write L B ref p md m cfg)" for m cfg
    unfolding store_Commit_write_def store_marker_def
    by (auto intro!: keeps_intros rel within_createOnce [OF B] mkdir index)
  with check show ?thesis unfolding store_Commit_def by (auto intro!: keeps_intros rel split: prod.splits)
qed

text \<open>Uploads that end the program have moved the world within \<open>R\<close>.\<close>

definition crash_within :: "('w \<Rightarrow> 'w \<Rightarrow> bool) \<Rightarrow> ('w plan \<Rightarrow> ('w, 'a) io) \<Rightarrow> bool" where
  "crash_within R uploads \<longleftrightarrow> (\<forall>(p :: 'w plan) w w1. (\<forall>e \<in> set (pl_Entries p). dir_within R (en_Image e)) \<longrightarrow>
     uploads p w = (Panic, w1) \<longrightarrow> R w w1)"

lemma within_push_run:
  fixes B :: "'w backend"
  assumes B: "writes_within R B" and ctx: "moves R ctx_Err" and sched: "upload_schedule L B conc uploads"
    and crash: "crash_within R uploads"
  shows "push_within R (push_run L ctx_Err uploads B)"
  unfolding push_within_def
proof (intro allI impI)
  note rel = opens_withinD(1,2) [OF writes_withinD(1) [OF B]]
  fix p :: "'w plan" assume p: "\<forall>e \<in> set (pl_Entries p). dir_within R (en_Image e)"
  have "moves R (uploads p)"
  proof (rule movesI)
    fix w r w1 assume run: "uploads p w = (r, w1)"
    then show "R w w1"
    proof (cases r)
      case (Ok es)
      with sched run obtain s where "(push_step L B p (push_concurrency conc))\<^sup>*\<^sup>* (push_start p, w) (s, w1)"
        unfolding upload_schedule_def by blast
      from within_push_steps [OF B p this] show ?thesis by blast
    qed (use sched run crash p in \<open>auto simp: upload_schedule_def crash_within_def\<close>)
  qed
  then show "moves R (push_run L ctx_Err uploads B p)"
    unfolding push_run_def push_commits_def push_commit_def Let_def
    by (auto intro!: keeps_intros rel within_Commit [OF B] ctx)
qed

lemma within_sequential:
  assumes B: "writes_within R B" and p: "\<forall>e \<in> set (pl_Entries p). dir_within R (en_Image e)"
    and us: "\<forall>u \<in> set us. up_entry u < length (pl_Entries p)"
  shows "moves R (push_sequential L B p us)"
  using us
proof (induction us)
  case (Cons u us)
  note rel = opens_withinD(1,2) [OF writes_withinD(1) [OF B]]
  from Cons.prems p have dir: "dir_within R (upload_image p u)" by (simp add: upload_image_def)
  have "moves R (transfer_putBlob L (upload_image p u) (up_desc u) B)"
    unfolding transfer_putBlob_def store_PutBlob_def using dir
    by (auto intro!: keeps_intros rel within_HasBlob [OF writes_withinD(1) [OF B]] writes_withinD(2) [OF B]
        split: sum.splits option.splits)
  with Cons show ?case by (auto intro!: keeps_intros rel)
qed (use opens_withinD(1) [OF writes_withinD(1) [OF B]] in \<open>auto intro: keeps_intros\<close>)

lemma within_keepInStore:
  assumes R: "opens_within R B" and dir: "dir_within R im" and push: "push_within R push"
  shows "moves R (cstorage_keepInStore L push im B)"
  unfolding cstorage_keepInStore_def
proof (rule moves_ebind_run [OF opens_withinD(2) [OF R]])
  from dir show "moves R (transfer_Diff L im B)" by (intro within_Diff [OF R]) blast
  fix w e w' assume "transfer_Diff L im B w = (Ok e, w')"
  then have "en_Image e = im" by (auto simp: transfer_Diff_def ebind_Ok dest: diff_loop_image)
  with push dir have "moves R (push \<lparr>pl_Entries = [e]\<rparr>)" by (simp add: push_within_def)
  then show "moves R (ebind (attempt (push \<lparr>pl_Entries = [e]\<rparr>)) (\<lambda>r. case r of
      Inl err \<Rightarrow> if err_is err ErrUnsupported then ret () else throw err | Inr _ \<Rightarrow> ret ()))"
    by (auto intro!: keeps_intros opens_withinD(1,2) [OF R] split: sum.splits)
qed

lemma pulled_entry_side:
  assumes "opens_within (aside V G) B" "pulled_from (aside V G) ref p (en_Image e)" "push_within (aside V G) push"
  shows "entry_side L G V push B e"
proof -
  have "dir_within (aside V G) (en_Image e)" using assms(2) by (simp add: pulled_from_def)
  from this within_keepInStore [OF assms(1) this assms(3), of L] show ?thesis by (simp add: entry_side_def moves_aside)
qed

context blob_cache
begin

lemma Copy_pull:
  assumes laws: "layer_laws (st_store cs) V" and side: "pull_side grows cs V ctx_Err" and C: "st_cache cs = C"
    and R: "opens_within (aside V grows) B" "fallback_within (aside V grows) cs"
    and push: "push_within (aside V grows) push" and w: "sane w"
    and refs: "\<forall>r \<in> set refs. types_ParseReference L (reference_String r) = Ok r"
    and planned: "plan_pulls L cs B (map reference_String refs) ps (\<lparr>pl_Entries = []\<rparr>, []) w = (Ok (plan, None), w1)"
    and run: "cstorage_Pull L cs ctx_Err push plan B w1 = (Ok (), w')"
  shows "storage_kept V w w'"
    "ref \<in> set refs \<Longrightarrow> p \<in> set ps \<Longrightarrow>
       \<exists>e. im_Ref (en_Image e) = ref \<and> im_Platform (en_Image e) = p \<and>
         row_of e \<in> set (rs_Entries (newResult refs ps plan)) \<and>
         (\<exists>u v. storage_kept V w u \<and> entry_installed L V e u v \<and> storage_kept V v w')"
proof -
  have layers: "moves (aside V grows) (ls_Layer (st_store cs) i)" for i
    using pull_sideD(6) [OF side] law_LayerD [OF laws] by (auto simp: moves_aside intro: movesI)
  from movesD [OF within_plan_pulls [OF R layers] planned] w have w1: "same_storage V w w1" "sane w1"
    using growsD by (auto simp: aside_def)
  have kept: "storage_kept V w u" if "storage_kept V w1 u" for u
    using w1(1) that by (simp add: storage_kept_def same_storage_def)
  have "list_all2 (\<lambda>x ref. types_ParseReference L x = Ok ref) (map reference_String refs) refs"
    using refs by (auto simp: list_all2_conv_all_nth)
  from plan_pulls_entries [OF R planned this] have entries:
    "all_pulled (aside V grows) (concat (map (\<lambda>p. map (\<lambda>ref. (ref, p)) refs) ps)) (pl_Entries plan)" by auto
  have entry: "entry_side L grows V push B e" if "e \<in> set (pl_Entries plan)" for e
    using list_all2_in [OF entries that] pulled_entry_side [OF R(1) _ push] by auto
  note pulled = Pull_run [OF laws side C entry w1(2) run]
  with kept show "storage_kept V w w'" by blast
  assume "ref \<in> set refs" "p \<in> set ps"
  from pulled_row [OF entries this] obtain e where e: "e \<in> set (pl_Entries plan)"
    "im_Ref (en_Image e) = ref" "im_Platform (en_Image e) = p" "row_of e \<in> set (rs_Entries (newResult refs ps plan))"
    unfolding pulled_from_def by blast
  with pulled kept show "\<exists>e. im_Ref (en_Image e) = ref \<and> im_Platform (en_Image e) = p \<and>
         row_of e \<in> set (rs_Entries (newResult refs ps plan)) \<and>
         (\<exists>u v. storage_kept V w u \<and> entry_installed L V e u v \<and> storage_kept V v w')" by blast
qed

end

end
