(* ===== verification/Copy_Pull_Properties.thy ===== *)
theory Copy_Pull_Properties
  imports Copy_Pull Copy_Properties Cstorage_Properties
begin

text \<open>
  The property of \<open>Copy\<close> in the direction of containers-storage, with a copy of the demo image from the
  registry, through a store that cannot be written, into the containers-storage in memory.
\<close>

text \<open>
  C33: a pull into containers-storage that \<open>Copy\<close> reports as a success is one: for every image and
  platform asked for, the row names a manifest that was verified and whose image, with the chain of layers
  below it, its config and its name, was installed from blobs with the digests of that manifest, and no layer
  and no image is gone at the end.
\<close>

theorem copy_pull_complete:
  assumes "blob_cache (ho_lib H) (st_cache cs) sane holds" "layer_laws (st_store cs) V"
    and "pull_side (blob_cache.grows sane holds) cs V ctx_Err"
    and "writes_within (aside V (blob_cache.grows sane holds)) B"
    and "fallback_within (aside V (blob_cache.grows sane holds)) cs"
    and "upload_schedule (ho_lib H) B conc (uploads B)"
    and "crash_within (aside V (blob_cache.grows sane holds)) (uploads B)"
    and "sane w" "\<forall>r \<in> set refs. types_ParseReference (ho_lib H) (reference_String r) = Ok r"
    and "co_Planned opt = None" "\<not> co_DryRun opt"
    and "copy_transfer H ctx_Err uploads False cs B refs opt w = (Ok (res, None), w')"
    and "ref \<in> set refs" "p \<in> set (copy_platforms (ho_runtime H) (co_Platforms opt))"
  shows "storage_kept V w w' \<and>
    (\<exists>er \<in> set (rs_Entries res). er_Ref er = ref \<and> er_Platform er = p \<and> er_Err er = None \<and>
      (\<exists>e u v. im_Ref (en_Image e) = ref \<and> im_Platform (en_Image e) = p \<and>
         d_Digest (im_Manifest (en_Image e)) = er_Manifest er \<and>
         storage_kept V w u \<and> entry_installed (ho_lib H) V e u v \<and> storage_kept V v w'))"
proof -
  let ?ps = "copy_platforms (ho_runtime H) (co_Platforms opt)" and ?R = "aside V (blob_cache.grows sane holds)"
  let ?push = "push_run (ho_lib H) ctx_Err (uploads B) B"
  from assms(12) obtain plan planErr w1 where plan: "copy_plan (ho_lib H) (ho_runtime H) (ho_memory H) False cs B
      (map reference_String refs) ?ps w = (Ok (plan, planErr), w1)" and
    fin: "copy_finish opt (copy_run H ctx_Err uploads False cs B) refs ?ps (plan, planErr) w1 = (Ok (res, None), w')"
    by (auto simp: copy_transfer_def Let_def ebind_Ok)
  have "planErr = None \<and> res = newResult refs ?ps plan \<and> copy_run H ctx_Err uploads False cs B plan w1 = (Ok (), w')"
    by (rule copy_finish_pushed [OF fin copy_plan_sound [OF plan] _ assms(10,11)])
      (auto simp: copy_run_def intro: Pull_sound)
  then have res: "planErr = None" "res = newResult refs ?ps plan"
    and run: "copy_run H ctx_Err uploads False cs B plan w1 = (Ok (), w')" by blast+
  have push: "push_within ?R ?push"
    using within_push_run [OF assms(4) _ assms(6,7)] pull_sideD(1,2) [OF assms(3)] by (simp add: moves_aside)
  note pull = blob_cache.Copy_pull [OF assms(1-3) refl writes_withinD(1) [OF assms(4)] assms(5) push assms(8,9)
      plan [unfolded copy_plan_def if_False res(1)] run [unfolded copy_run_def if_False]]
  from pull(2) [OF assms(13,14)] obtain e u v where e: "im_Ref (en_Image e) = ref" "im_Platform (en_Image e) = p"
    "row_of e \<in> set (rs_Entries res)" "storage_kept V w u" "entry_installed (ho_lib H) V e u v" "storage_kept V v w'"
    unfolding res(2) by blast
  then have row: "er_Ref (row_of e) = ref" "er_Platform (row_of e) = p" "er_Err (row_of e) = None"
    "d_Digest (im_Manifest (en_Image e)) = er_Manifest (row_of e)"
    by (simp_all add: row_of_def from_entry_def no_entry_def Let_def)
  show ?thesis by (intro conjI pull(1) bexI [OF _ e(3)] row exI [of _ e] exI [of _ u] exI [of _ v] e)
qed

section \<open>A pull through a store that cannot be written\<close>

definition cw_remote :: "cs_world backend" where
  "cw_remote = \<lparr>b_Open = (\<lambda>_. throw (Sentinel ErrNotExist)), b_Create = (\<lambda>_ _ _ _. throw (Sentinel ErrUnsupported)),
     b_List = None, b_MkdirAll = None\<rparr>"

definition cw_fallback :: "cs_world source" where
  "cw_fallback ref p = ret (cw_img\<lparr>im_Ref := ref, im_Platform := p\<rparr>)"

definition cw_pulling :: "cs_world cstorage" where
  "cw_pulling = cstorage_New cw_store cw_cache (\<lambda>_ b. b) (Some (Some cw_fallback, 3))"

definition cw_no_files :: "(cs_world, unit) vfs" where
  "cw_no_files =
     \<lparr>v_Open = (\<lambda>_. throw (Sentinel ErrNotExist)), v_Stat = (\<lambda>_. throw (Sentinel ErrNotExist)),
      v_Content = (\<lambda>_. ([], None)), v_Lstat = (\<lambda>_. throw (Sentinel ErrNotExist)),
      v_MkdirAll = (\<lambda>_. throw (Sentinel ErrReadOnly)), v_Rand = (\<lambda>w. ([], w)),
      v_OpenExcl = (\<lambda>_. throw (Sentinel ErrReadOnly)), v_Write = (\<lambda>_ _. throw (Sentinel ErrReadOnly)),
      v_Close = (\<lambda>_. ret ()), v_Link = (\<lambda>_ _. throw (Sentinel ErrReadOnly)),
      v_Remove = (\<lambda>_. throw (Sentinel ErrReadOnly)), v_Walk = (\<lambda>_. ret [])\<rparr>"

definition cw_host :: "(cs_world, unit, unit, unit, unit) host" where
  "cw_host =
     \<lparr>ho_lib = demo_lib, ho_runtime = demo_runtime,
      ho_url = \<lparr>url_Parse = (\<lambda>s. Inl (Msg ''url'')), url_String = (\<lambda>u. u_Path u), os_Getwd = Inr ''/''\<rparr>,
      ho_EncoderLevel = (\<lambda>s. Some 3), ho_encoder = (\<lambda>_ b. b), ho_memory = 9,
      ho_blobcache_New = (\<lambda>d. ret (cw_cache, ret ())), ho_DefaultStoreOptions = ret (), ho_GetStore = (\<lambda>opts. ret cw_store),
      ho_registry = demo_registry, ho_LoadDefaultConfig = (\<lambda>r. ret ()), ho_s3_NewFromConfig = (\<lambda>a e p. demo_s3),
      ho_seeks = (\<lambda>b. True), ho_pages = 1, ho_MkdirAll = (\<lambda>d. throw (Sentinel ErrReadOnly)),
      ho_Stat = (\<lambda>d. throw (Sentinel ErrNotExist)), ho_osfs_NewRoot = (\<lambda>d. throw (Sentinel ErrNotExist)),
      ho_memfs_New = (\<lambda>d. cw_no_files), ho_http = demo_http\<rparr>"

definition cw_option :: "cs_world copy_option" where
  "cw_option = \<lparr>co_Platforms = [demo_platform], co_DryRun = False, co_Planned = None\<rparr>"

definition cw_uploads :: "cs_world backend \<Rightarrow> cs_world plan \<Rightarrow> (cs_world, gerr list) io" where
  "cw_uploads B p = push_sequential demo_lib B p (transfer_uploads p)"

lemma cw_copied:
  "case copy_transfer cw_host (ret ()) cw_uploads False cw_pulling cw_remote [demo_ref] cw_option cw_empty of
     (Ok (res, err), w') \<Rightarrow> err = None \<and> cw_names w' (reference_String demo_ref) \<noteq> None
   | _ \<Rightarrow> False"
  by code_simp

abbreviation cw_aside :: "cs_world \<Rightarrow> cs_world \<Rightarrow> bool" where
  "cw_aside \<equiv> aside cw_view cw_keeps"

lemma cw_aside_rel: "reflp cw_aside" "transp cw_aside"
  using aside_rel [OF blob_cache.grows_rel [OF cw_cache_laws]] by blast+

lemma cw_moves_aside: "moves (same_storage cw_view) m \<Longrightarrow> moves cw_aside m"
  by (simp add: moves_aside cw_grows)

lemma cw_remote_within: "writes_within cw_aside cw_remote"
  by (simp add: writes_within_def opens_within_def cw_aside_rel cw_remote_def moves_throw)

lemma cw_fallback_within: "fallback_within cw_aside cw_pulling"
proof -
  have "dir_within cw_aside (cw_img\<lparr>im_Ref := ref, im_Platform := p\<rparr>)" for ref p
    by (simp add: cw_img_def store_SingleManifestDir_def Let_def cw_moves_Blobs cw_aside_rel)
  then show ?thesis
    by (simp add: fallback_within_def cw_pulling_def cstorage_New_def answers_def cw_fallback_def ret_def pulled_from_def
        moves_def cw_aside_rel(1) [THEN reflpD])
qed

lemma cw_pulling_side: "pull_side cw_keeps cw_pulling cw_view (ret ())"
  using cw_side by (simp add: pull_side_def cw_pulling_def cw_cstorage_def cstorage_New_def)

theorem copy_pull_complete_witness:
  "\<exists>res w'. copy_transfer cw_host (ret ()) cw_uploads False cw_pulling cw_remote [demo_ref] cw_option cw_empty =
       (Ok (res, None), w') \<and>
     (\<exists>er \<in> set (rs_Entries res). er_Ref er = demo_ref \<and> er_Platform er = demo_platform \<and>
        (\<exists>e u v. d_Digest (im_Manifest (en_Image e)) = er_Manifest er \<and> entry_installed demo_lib cw_view e u v))"
proof -
  obtain res w' where run: "copy_transfer cw_host (ret ()) cw_uploads False cw_pulling cw_remote [demo_ref] cw_option
      cw_empty = (Ok (res, None), w')"
    using cw_copied by (auto split: prod.splits res.split_asm)
  have H: "ho_lib cw_host = demo_lib" "ho_runtime cw_host = demo_runtime" "co_Platforms cw_option = [demo_platform]"
    "co_Planned cw_option = None" "\<not> co_DryRun cw_option"
    by (simp_all add: cw_host_def cw_option_def)
  have cs: "st_cache cw_pulling = cw_cache" "st_store cw_pulling = cw_store"
    by (simp_all add: cw_pulling_def cstorage_New_def)
  have sched: "upload_schedule demo_lib cw_remote 1 (cw_uploads cw_remote)"
    using sequential_schedule by (simp add: cw_uploads_def [abs_def])
  have crash: "crash_within cw_aside (cw_uploads cw_remote)"
    unfolding crash_within_def cw_uploads_def
    by (intro allI impI, rule movesD [OF within_sequential [OF cw_remote_within]]) (auto dest: transfer_uploads_wf(3))
  have refs: "\<forall>r \<in> set [demo_ref]. types_ParseReference demo_lib (reference_String r) = Ok r"
    using demo_ref_back by simp
  from copy_pull_complete [where H = cw_host and cs = cw_pulling and V = cw_view and B = cw_remote and uploads = cw_uploads
      and opt = cw_option and ref = demo_ref and p = demo_platform, unfolded H(1-3) cs, OF cw_cache_laws cw_laws
      cw_pulling_side cw_remote_within cw_fallback_within sched crash TrueI refs H(4,5) run] run
  show ?thesis by (auto simp: demo_platforms)
qed

end
