(* ===== verification/Go_Format.thy ===== *)
theory Go_Format
  imports Go_Strings
begin

text \<open>
  What the command line uses of Go's packages strconv, fmt and text/tabwriter: decimal integers, a
  float with one digit after the point, and tables.
\<close>

section \<open>Decimal integers\<close>

fun nat_digits :: "nat \<Rightarrow> string" where
  "nat_digits n = (if n < 10 then [char_of (48 + n)] else nat_digits (n div 10) @ [char_of (48 + n mod 10)])"

declare nat_digits.simps [simp del]

definition strconv_Itoa :: "int \<Rightarrow> string" where
  "strconv_Itoa n = (if n < 0 then CHR ''-'' # nat_digits (nat (- n)) else nat_digits (nat n))"

text \<open>The digits read back.\<close>

definition digits_value :: "string \<Rightarrow> nat" where
  "digits_value s = fold (\<lambda>c v. 10 * v + (of_char c - 48)) s 0"

lemma digits_back: "digits_value (nat_digits n) = n"
proof (induction n rule: nat_digits.induct)
  case (1 n)
  show ?case
  proof (cases "n < 10")
    case True
    then show ?thesis by (simp add: nat_digits.simps [of n] digits_value_def)
  next
    case False
    then have "nat_digits n = nat_digits (n div 10) @ [char_of (48 + n mod 10)]"
      by (simp add: nat_digits.simps [of n])
    with 1 [OF False] show ?thesis by (simp add: digits_value_def)
  qed
qed

section \<open>One digit after the point\<close>

text \<open>Rounding of \<open>a / b\<close> to the nearest integer, to the even one when two are as near.\<close>

definition round_even :: "int \<Rightarrow> int \<Rightarrow> int" where
  "round_even a b =
     (let q = a div b; r = a mod b
      in if 2 * r < b then q else if b < 2 * r then q + 1 else if even q then q else q + 1)"

lemma round_even_near:
  assumes "0 < b" shows "2 * \<bar>round_even a b * b - a\<bar> \<le> b"
proof -
  have r: "0 \<le> a mod b" "a mod b < b" "a div b * b - a = - (a mod b)"
    using assms minus_div_mult_eq_mod [of a b] by simp_all
  have "(a div b + 1) * b - a = b - a mod b" using r(3) by (simp add: distrib_right)
  moreover have "round_even a b = a div b \<and> 2 * (a mod b) \<le> b \<or> round_even a b = a div b + 1 \<and> b \<le> 2 * (a mod b)"
    by (auto simp: round_even_def Let_def)
  ultimately show ?thesis using r by auto
qed

lemma round_even_exact: "0 < b \<Longrightarrow> round_even (q * b) b = q"
  by (simp add: round_even_def Let_def)

text \<open>
  The value of \<open>float64(n)\<close> for an \<open>n\<close> from 0 to 2^63: 53 bits of \<open>n\<close> are kept. Division by a power of two
  is then exact, and \<open>%.1f\<close> rounds the exact quotient.
\<close>

fun spare_bits :: "nat \<Rightarrow> int \<Rightarrow> nat" where
  "spare_bits 0 n = 0"
| "spare_bits (Suc k) n = (if n < 2 ^ 53 then 0 else Suc (spare_bits k (n div 2)))"

definition float64_int :: "int \<Rightarrow> int" where
  "float64_int n = (let s = 2 ^ spare_bits 11 n in round_even n s * s)"

definition tenths :: "int \<Rightarrow> int \<Rightarrow> int" where
  "tenths n d = round_even (10 * float64_int n) d"

definition fmt_tenths :: "int \<Rightarrow> string" where
  "fmt_tenths t = strconv_Itoa (t div 10) @ ''.'' @ strconv_Itoa (t mod 10)"

lemma spare_bits_le: "spare_bits k n \<le> k"
  by (induction k n rule: spare_bits.induct) auto

lemma float64_int_exact: "n < 2 ^ 53 \<Longrightarrow> float64_int n = n"
  using round_even_exact [of 1 n] by (simp add: float64_int_def numeral_eq_Suc)

lemma float64_int_near: "\<bar>float64_int n - n\<bar> \<le> 2 ^ 10"
proof -
  let ?s = "2 ^ spare_bits 11 n :: int"
  have "?s \<le> 2 ^ 11" using spare_bits_le [of 11 n] by (intro power_increasing) simp_all
  with round_even_near [of ?s n] show ?thesis by (simp add: float64_int_def Let_def)
qed

text \<open>The printed value is the right one to half a tenth, and that of the float for big numbers.\<close>

lemma tenths_near:
  assumes "0 < d" shows "2 * \<bar>tenths n d * d - 10 * n\<bar> \<le> d + (if n < 2 ^ 53 then 0 else 20480)"
proof -
  have near: "2 * \<bar>tenths n d * d - 10 * float64_int n\<bar> \<le> d"
    using round_even_near [OF assms] by (simp add: tenths_def)
  have "2 * \<bar>x - 10 * n\<bar> \<le> 2 * \<bar>x - 10 * y\<bar> + 20 * \<bar>y - n\<bar>" for x y :: int
    by (simp add: abs_if)
  from this [of "tenths n d * d" "float64_int n"] near show ?thesis using float64_int_exact [of n] float64_int_near [of n] by (cases "n < 2 ^ 53") simp_all
qed

section \<open>Package tabwriter\<close>

text \<open>
  \<open>tabwriter.NewWriter(w, 0, 0, 2, ' ', 0)\<close>: a column block is a run of lines with a tab-terminated cell
  in the column; it is as wide as its widest cell and two spaces. The text is UTF-8 without the control
  characters vertical tab, form feed and \<open>tabwriter.Escape\<close>.
\<close>

definition utf8_RuneCount :: "string \<Rightarrow> nat" where
  "utf8_RuneCount s = length (filter (\<lambda>c. \<not> (128 \<le> (of_char c :: nat) \<and> (of_char c :: nat) < 192)) s)"

definition pad_cell :: "nat \<Rightarrow> string \<Rightarrow> string" where
  "pad_cell w c = c @ replicate (w - utf8_RuneCount c) CHR '' ''"

fun tw_line :: "nat list \<Rightarrow> string list \<Rightarrow> string" where
  "tw_line ws [] = []"
| "tw_line [] (c # cs) = c @ tw_line [] cs"
| "tw_line (w # ws) (c # cs) = pad_cell w c @ tw_line ws cs"

text \<open>\<open>in_column\<close>: the line has a tab-terminated cell in the column.\<close>

definition in_column :: "nat \<Rightarrow> string list \<Rightarrow> bool" where
  "in_column column line \<longleftrightarrow> Suc column < length line"

definition block_width :: "nat \<Rightarrow> string list list \<Rightarrow> nat" where
  "block_width column ls = fold (\<lambda>line w. max w (utf8_RuneCount (line ! column) + 2)) ls 0"

lemma columns_left:
  "(\<Sum>x \<leftarrow> takeWhile (in_column n) ls. Suc (length x - Suc n)) + length (takeWhile (in_column n) ls) \<le>
     (\<Sum>x \<leftarrow> ls. Suc (length x - n))"
  by (induction ls) (auto simp: in_column_def)

lemma columns_drop: "(\<Sum>x \<leftarrow> dropWhile P ls. f x :: nat) \<le> (\<Sum>x \<leftarrow> ls. f x)"
  by (induction ls) auto

function (sequential) tw_format :: "nat list \<Rightarrow> string list list \<Rightarrow> string list" where
  "tw_format ws [] = []"
| "tw_format ws (l # ls) =
     (if \<not> in_column (length ws) l then tw_line ws l # tw_format ws ls
      else
        let block = takeWhile (in_column (length ws)) (l # ls)
        in tw_format (ws @ [block_width (length ws) block]) block @
             tw_format ws (dropWhile (in_column (length ws)) (l # ls)))"
  by pat_completeness auto

termination
proof (relation "measure (\<lambda>(ws, ls). \<Sum>x \<leftarrow> ls. Suc (length x - length ws))")
  fix ws :: "nat list" and l ls block
  assume in_col: "\<not> \<not> in_column (length ws) l" and block: "block = takeWhile (in_column (length ws)) (l # ls)"
  from in_col columns_left [of "length ws" "l # ls"]
  show "((ws @ [block_width (length ws) block], block), ws, l # ls) \<in>
      measure (\<lambda>(ws, ls). \<Sum>x \<leftarrow> ls. Suc (length x - length ws))"
    by (simp add: block)
  from in_col columns_drop [of "\<lambda>x. Suc (length x - length ws)" "in_column (length ws)" ls]
  show "((ws, dropWhile (in_column (length ws)) (l # ls)), ws, l # ls) \<in>
      measure (\<lambda>(ws, ls). \<Sum>x \<leftarrow> ls. Suc (length x - length ws))"
    by simp
qed simp_all

definition tabwriter :: "string \<Rightarrow> string" where
  "tabwriter text =
     join_on (CHR 0x0A) (tw_format [] (map (split_on (CHR 0x09)) (split_on (CHR 0x0A) text)))"

text \<open>A table keeps its lines: as many come out as go in.\<close>

lemma tw_format_length: "length (tw_format ws ls) = length ls"
proof (induction ws ls rule: tw_format.induct)
  case (2 ws l ls)
  show ?case
  proof (cases "in_column (length ws) l")
    case True
    have "length (takeWhile P xs) + length (dropWhile P xs) = length xs" for P and xs :: "string list list"
      by (metis length_append takeWhile_dropWhile_id)
    from this [of "in_column (length ws)" ls] 2(2,3) True show ?thesis by (simp add: Let_def)
  next
    case False
    with 2(1) show ?thesis by simp
  qed
qed simp

lemma tabwriter_plain: "CHR 0x09 \<notin> set s \<Longrightarrow> CHR 0x0A \<notin> set s \<Longrightarrow> tabwriter s = s"
  by (simp add: tabwriter_def split_on_free in_column_def)

end
