(* ===== verification/Cli_Format.thy ===== *)
theory Cli_Format
  imports Go_Format Oci_Types Imagecopy
begin

text \<open>
  Package cli, exit.go and format.go: exit codes, the texts of sizes and counts, and the writer that
  keeps its first error. A text whose computation could panic is a \<open>res\<close>.
\<close>

section \<open>Exit codes\<close>

definition ExitOk :: int where "ExitOk = 0"
definition ExitUsage :: int where "ExitUsage = 1"
definition ExitFailure :: int where "ExitFailure = 2"

text \<open>\<open>Usage\<close> marks an error; nil stays nil.\<close>

definition Usage :: "gerr option \<Rightarrow> gerr option" where
  "Usage err = (case err of None \<Rightarrow> None | Some e \<Rightarrow> Some (UsageError e))"

text \<open>\<open>errors.AsType[*UsageError]\<close>: whether there is one in the error's tree.\<close>

fun as_usage :: "gerr \<Rightarrow> bool" where
  "as_usage (UsageError _) = True"
| "as_usage (Wrap1 _ e) = as_usage e"
| "as_usage (WrapN _ es) = list_ex as_usage es"
| "as_usage (Joined es) = list_ex as_usage es"
| "as_usage (EntryError _ _ e) = as_usage e"
| "as_usage (Sentinel _) = False"
| "as_usage (Msg _) = False"
| "as_usage (HTTPStatus _) = False"

definition ExitCode :: "gerr option \<Rightarrow> int" where
  "ExitCode err =
     (case err of
        None \<Rightarrow> ExitOk
      | Some e \<Rightarrow> if as_usage e \<or> IsUsage e then ExitUsage else ExitFailure)"

lemma ExitCode_zero [simp]: "ExitCode err = 0 \<longleftrightarrow> err = None"
  by (simp add: ExitCode_def ExitOk_def ExitUsage_def ExitFailure_def split: option.split)

lemma ExitCode_Usage [simp]: "ExitCode (Usage err) = (if err = None then 0 else 1)"
  by (simp add: ExitCode_def ExitOk_def ExitUsage_def Usage_def split: option.split)

section \<open>Sizes and counts\<close>

text \<open>The loop divides \<open>m\<close> until it is below the unit; \<open>k\<close> is the divisor and \<open>exp\<close> the unit's index.\<close>

function human_loop :: "int \<Rightarrow> int \<Rightarrow> nat \<Rightarrow> int \<times> nat" where
  "human_loop m k exp =
     (if m < 1024 then (k, exp) else human_loop (m div 1024) (wrap64 (k * 1024)) (Suc exp))"
  by pat_completeness auto

termination by (relation "measure (\<lambda>(m, k, exp). nat m)") auto

declare human_loop.simps [simp del]

text \<open>\<open>n / unit\<close> is taken of a number from the unit on only, where Go's division is \<open>div\<close>.\<close>

definition humanBytes :: "int \<Rightarrow> string res" where
  "humanBytes n =
     (if n < 1024 then Ok (strconv_Itoa n @ '' B'')
      else case human_loop (n div 1024) 1024 0 of
        (k, exp) \<Rightarrow>
          if exp < 6 then Ok (fmt_tenths (tenths n k) @ '' '' @ [''KMGTPE'' ! exp] @ ''iB'') else Panic)"

definition plural :: "int \<Rightarrow> string \<Rightarrow> string" where
  "plural n word =
     (if n = 1 then strconv_Itoa n @ '' '' @ word
      else case cut_suffix word ''y'' of
        Some stem \<Rightarrow> strconv_Itoa n @ '' '' @ stem @ ''ies''
      | None \<Rightarrow> strconv_Itoa n @ '' '' @ word @ ''s'')"

text \<open>The divisor stays a power of the unit that \<open>n\<close> reaches, so it is in the range of the type.\<close>

lemma human_loop_run:
  assumes "n < 2 ^ 63" "1024 ^ Suc e \<le> n"
  shows "\<exists>e'. human_loop (n div 1024 ^ Suc e) (1024 ^ Suc e) e = (1024 ^ Suc e', e') \<and> e' \<le> 5 \<and>
    1024 ^ Suc e' \<le> n \<and> n < 1024 * 1024 ^ Suc e'"
  using assms(2)
proof (induction "6 - e" arbitrary: e rule: less_induct)
  case less
  let ?a = "1024 ^ Suc e :: int"
  have pos: "0 < ?a" by simp
  have e: "e \<le> 5"
  proof (rule ccontr)
    assume "\<not> e \<le> 5"
    then have "(1024 :: int) ^ 7 \<le> ?a" by (intro power_increasing) auto
    with less.prems assms(1) show False by simp
  qed
  have n: "n = ?a * (n div ?a) + n mod ?a" "n mod ?a < ?a" "0 \<le> n mod ?a" using pos by simp_all
  show ?case
  proof (cases "n div ?a < 1024")
    case True
    then have "?a * (n div ?a) \<le> ?a * 1023" using pos by (intro mult_left_mono) auto
    with n have "n < 1024 * ?a" by linarith
    moreover have "human_loop (n div ?a) ?a e = (?a, e)" using True by (subst human_loop.simps) (simp only: if_True)
    ultimately show ?thesis using less.prems e by (intro exI [of _ e] conjI)
  next
    case False
    then have "?a * 1024 \<le> ?a * (n div ?a)" using pos by (intro mult_left_mono) auto
    also have "\<dots> \<le> n" using n by linarith
    finally have reach: "1024 ^ Suc (Suc e) \<le> n" by (simp only: power_Suc2 [of 1024 "Suc e"])
    moreover have "0 \<le> (1024 :: int) ^ Suc (Suc e)" by simp
    ultimately have "in_int64 (1024 ^ Suc (Suc e))" using assms(1) unfolding in_int64_def by linarith
    then have w: "wrap64 (?a * 1024) = 1024 ^ Suc (Suc e)" by (simp only: power_Suc2 [of 1024 "Suc e"] wrap64_id)
    have d: "n div ?a div 1024 = n div 1024 ^ Suc (Suc e)"
      by (simp add: zdiv_zmult2_eq [symmetric] mult.commute)
    have "human_loop (n div ?a) ?a e = human_loop (n div 1024 ^ Suc (Suc e)) (1024 ^ Suc (Suc e)) (Suc e)"
      using False by (subst human_loop.simps) (simp only: if_False d w)
    moreover have "6 - Suc e < 6 - e" using e by simp
    ultimately show ?thesis using less.hyps [OF _ reach] by metis
  qed
qed

text \<open>What is printed: the unit is the biggest the size reaches, and the number is right to half a tenth.\<close>

lemma humanBytes_text:
  assumes "in_int64 n"
  shows "if n < 1024 then humanBytes n = Ok (strconv_Itoa n @ '' B'')
    else \<exists>e t. e < 6 \<and> humanBytes n = Ok (fmt_tenths t @ '' '' @ [''KMGTPE'' ! e] @ ''iB'') \<and>
      1024 ^ Suc e \<le> n \<and> n < 1024 * 1024 ^ Suc e \<and>
      2 * \<bar>t * 1024 ^ Suc e - 10 * n\<bar> \<le> 1024 ^ Suc e + (if n < 2 ^ 53 then 0 else 20480)"
proof (cases "n < 1024")
  case True
  then show ?thesis by (simp add: humanBytes_def)
next
  case False
  with assms human_loop_run [of n 0] obtain e where e: "human_loop (n div 1024) 1024 0 = (1024 ^ Suc e, e)" "e \<le> 5"
    "1024 ^ Suc e \<le> n" "n < 1024 * 1024 ^ Suc e" by (auto simp: in_int64_def)
  have "2 * \<bar>tenths n (1024 ^ Suc e) * 1024 ^ Suc e - 10 * n\<bar> \<le> 1024 ^ Suc e + (if n < 2 ^ 53 then 0 else 20480)"
    by (rule tenths_near) simp
  moreover have "humanBytes n = Ok (fmt_tenths (tenths n (1024 ^ Suc e)) @ '' '' @ [''KMGTPE'' ! e] @ ''iB'')"
    using False e(1,2) by (simp add: humanBytes_def)
  moreover have "e < 6" using e(2) by simp
  ultimately show ?thesis
    unfolding if_not_P [OF False] using e(3,4) by (intro exI [of _ e] exI [of _ "tenths n (1024 ^ Suc e)"] conjI)
qed

lemma humanBytes_no_panic: "in_int64 n \<Longrightarrow> \<exists>s. humanBytes n = Ok s"
  using humanBytes_text [of n] by (auto split: if_splits)

section \<open>The writer that keeps its first error\<close>

text \<open>
  The two streams of a command, and the \<open>errWriter\<close> around the standard output: its field \<open>err\<close> is a
  part of the world, read by \<open>tm_err\<close> and set by \<open>tm_set_err\<close>. A \<open>Write\<close> that returns without an error
  has written everything, as \<open>io.Writer\<close> promises. \<open>tm_terminal\<close> is \<open>isTerminal\<close> of the error output.
\<close>

record 'w terminal =
  tm_stdout :: "string \<Rightarrow> ('w, unit) io"
  tm_stderr :: "string \<Rightarrow> ('w, unit) io"
  tm_err :: "'w \<Rightarrow> gerr option"
  tm_set_err :: "gerr option \<Rightarrow> 'w \<Rightarrow> 'w"
  tm_terminal :: "('w, bool) io"

definition errWriter_new :: "('w, 'm) terminal_scheme \<Rightarrow> ('w, unit) io" where
  "errWriter_new T w = (Ok (), tm_set_err T None w)"

definition errWriter_Write :: "('w, 'm) terminal_scheme \<Rightarrow> string \<Rightarrow> ('w, unit) io" where
  "errWriter_Write T p w =
     (case tm_err T w of
        Some e \<Rightarrow> (Err e, w)
      | None \<Rightarrow>
          (case tm_stdout T p w of
             (Ok _, w') \<Rightarrow> (Ok (), w')
           | (Err e, w') \<Rightarrow> (Err (Wrap1 ''writing output'' e), tm_set_err T (Some (Wrap1 ''writing output'' e)) w')
           | (Panic, w') \<Rightarrow> (Panic, w')))"

text \<open>\<open>fmt.Fprintf(w, ...)\<close> with its error dropped, as the renderers do.\<close>

definition ignore_err :: "('w, unit) io \<Rightarrow> ('w, unit) io" where
  "ignore_err m = ebind (attempt m) (\<lambda>_. ret ())"

end
