(* ===== verification/Cli_Progress.thy ===== *)
theory Cli_Progress
  imports Cli_Format Push "HOL-Library.AList"
begin

text \<open>
  Package cli, progress.go: the display of the events that the readers of a transfer emit
  (\<open>progress_events\<close>). A call of \<open>event\<close> holds the display's mutex, so it is one step.
\<close>

section \<open>The display\<close>

record progress =
  pg_tty :: bool
  pg_blob :: "(string \<times> event) list"
  pg_last :: int
  pg_drew :: bool

text \<open>Times are in nanoseconds.\<close>

definition redrawEvery :: int where "redrawEvery = 100000000"

definition newProgress :: "bool \<Rightarrow> progress" where
  "newProgress tty = \<lparr>pg_tty = tty, pg_blob = [], pg_last = 0, pg_drew = False\<rparr>"

definition finished :: "event \<Rightarrow> bool" where
  "finished e \<longleftrightarrow> ev_Done e = ev_Total e"

definition copied_line :: "event \<Rightarrow> string res" where
  "copied_line e =
     (case humanBytes (ev_Total e) of
        Ok h \<Rightarrow> Ok (''copied '' @ ev_Blob e @ '' ('' @ h @ '') for '' @ reference_String (ev_Ref e) @ '' '' @
                   platform_String (ev_Platform e) @ [CHR 0x0A])
      | Err e \<Rightarrow> Err e
      | Panic \<Rightarrow> Panic)"

text \<open>The status line: the sums are those of \<open>int64\<close>.\<close>

definition progress_draw :: "progress \<Rightarrow> (progress \<times> string list) res" where
  "progress_draw p =
     (let evs = map snd (pg_blob p);
          got = fold (\<lambda>e n. wrap64 (n + ev_Done e)) evs 0;
          total = fold (\<lambda>e n. wrap64 (n + ev_Total e)) evs 0
      in case (humanBytes got, humanBytes total) of
           (Ok a, Ok b) \<Rightarrow>
             Ok (p\<lparr>pg_drew := True\<rparr>,
                 [[CHR 0x0D, CHR 0x1B] @ ''[Kcopying '' @ a @ '' / '' @ b @ '', '' @
                    strconv_Itoa (int (length (filter finished evs))) @ '' of '' @
                    plural (int (length evs)) ''blob'' @ '' done''])
         | _ \<Rightarrow> Panic)"

definition progress_event :: "int \<Rightarrow> event \<Rightarrow> progress \<Rightarrow> (progress \<times> string list) res" where
  "progress_event now e p =
     (let prev = map_of (pg_blob p) (ev_Blob e);
          p' = p\<lparr>pg_blob := AList.update (ev_Blob e) e (pg_blob p)\<rparr>
      in if \<not> pg_tty p then
           (if finished e \<and> (case prev of None \<Rightarrow> True | Some q \<Rightarrow> \<not> finished q)
            then (case copied_line e of Ok l \<Rightarrow> Ok (p', [l]) | Err x \<Rightarrow> Err x | Panic \<Rightarrow> Panic)
            else Ok (p', []))
         else if redrawEvery \<le> now - pg_last p \<or> finished e
         then progress_draw (p'\<lparr>pg_last := now\<rparr>)
         else Ok (p', []))"

definition progress_finish :: "progress \<Rightarrow> (progress \<times> string list) res" where
  "progress_finish p =
     (if pg_tty p \<and> pg_drew p
      then (case progress_draw p of
              Ok (p', ls) \<Rightarrow> Ok (p', ls @ [[CHR 0x0A]]) | Err x \<Rightarrow> Err x | Panic \<Rightarrow> Panic)
      else Ok (p, []))"

text \<open>The texts a sequence of events, each with its time, writes.\<close>

fun progress_run :: "(int \<times> event) list \<Rightarrow> progress \<Rightarrow> (progress \<times> string list) res" where
  "progress_run [] p = Ok (p, [])"
| "progress_run ((now, e) # es) p =
     (case progress_event now e p of
        Ok (p', ls) \<Rightarrow>
          (case progress_run es p' of
             Ok (p'', ls') \<Rightarrow> Ok (p'', ls @ ls') | Err x \<Rightarrow> Err x | Panic \<Rightarrow> Panic)
      | Err x \<Rightarrow> Err x
      | Panic \<Rightarrow> Panic)"

section \<open>Facts\<close>

text \<open>A reader reaches its total at most once: with its last bytes.\<close>

lemma reads_finished:
  assumes "\<forall>n \<in> set ns. 0 \<le> n" "0 \<le> ev_Done ev" "ev_Done ev + sum_list ns \<le> ev_Total ev" "in_int64 (ev_Total ev)"
  shows "length (filter finished (progress_events ev ns)) =
    (if ev_Done ev + sum_list ns = ev_Total ev \<and> ev_Done ev < ev_Total ev then 1 else 0)"
  using assms
proof (induction ns arbitrary: ev)
  case (Cons n ns)
  have tail: "0 \<le> sum_list ns" using Cons.prems(1) by (auto intro: sum_list_nonneg)
  show ?case
  proof (cases "n > 0")
    case True
    with Cons.prems tail have w: "wrap64 (ev_Done ev + n) = ev_Done ev + n"
      by (intro wrap64_id) (auto simp: in_int64_def)
    let ?ev = "ev\<lparr>ev_Done := ev_Done ev + n\<rparr>"
    have IH: "length (filter finished (progress_events ?ev ns)) =
        (if ev_Done ?ev + sum_list ns = ev_Total ?ev \<and> ev_Done ?ev < ev_Total ?ev then 1 else 0)"
      by (rule Cons.IH) (use Cons.prems True in auto)
    have fin: "finished ?ev \<longleftrightarrow> ev_Done ev + n = ev_Total ev" by (simp add: finished_def)
    have "length (filter finished (progress_events ev (n # ns))) =
        (if finished ?ev then 1 else 0) + length (filter finished (progress_events ?ev ns))"
      using True by (simp add: w Let_def)
    with IH True Cons.prems(3) tail show ?thesis by (auto simp: fin)
  next
    case False
    with Cons.prems(1) have "n = 0" by simp
    with Cons.prems Cons.IH [of ev] show ?thesis by simp
  qed
qed (simp add: finished_def)

lemma reads_fields:
  "e \<in> set (progress_events ev ns) \<Longrightarrow> ev_Blob e = ev_Blob ev \<and> ev_Total e = ev_Total ev"
  by (induction ns arbitrary: ev) (fastforce simp: Let_def split: if_splits)+

lemma at_most_one_each:
  assumes "\<And>b. length (filter (\<lambda>x. f x = b) xs) \<le> 1" shows "distinct (map f xs)"
  using assms
proof (induction xs)
  case (Cons x xs)
  from Cons.prems [of "f x"] have "f x \<notin> f ` set xs" by (auto simp: filter_empty_conv)
  moreover have "length (filter (\<lambda>y. f y = b) xs) \<le> 1" for b
    using Cons.prems [of b] by (simp split: if_splits)
  ultimately show ?case using Cons.IH by simp
qed simp

lemma copied_line_Ok: "in_int64 (ev_Total e) \<Longrightarrow> \<exists>l. copied_line e = Ok l"
  using humanBytes_no_panic [of "ev_Total e"] by (auto simp: copied_line_def)

text \<open>
  The events at which a blob gets complete: the last byte is there, and was not at the event of that blob before
  it. A display without a terminal writes their lines and none else.
\<close>

definition event_before :: "event list \<Rightarrow> nat \<Rightarrow> event option" where
  "event_before es i = List.find (\<lambda>x. ev_Blob x = ev_Blob (es ! i)) (rev (take i es))"

definition completes :: "event list \<Rightarrow> nat \<Rightarrow> bool" where
  "completes es i \<longleftrightarrow> finished (es ! i) \<and> (case event_before es i of None \<Rightarrow> True | Some q \<Rightarrow> \<not> finished q)"

definition completions :: "event list \<Rightarrow> event list" where
  "completions es = map ((!) es) (filter (completes es) [0..<length es])"

lemma plain_run:
  assumes "\<not> pg_tty p" "\<forall>e \<in> snd ` set tes. in_int64 (ev_Total e)"
    and "\<forall>b. map_of (pg_blob p) b = List.find (\<lambda>x. ev_Blob x = b) (rev pre)"
  shows "\<exists>p' ls. progress_run tes p = Ok (p', ls) \<and> list_all2 (\<lambda>l e. copied_line e = Ok l) ls
    (map ((!) (pre @ map snd tes)) (filter (completes (pre @ map snd tes)) [length pre..<length pre + length tes]))"
  using assms
proof (induction tes arbitrary: p pre)
  case (Cons te tes)
  obtain now e where te: "te = (now, e)" by fastforce
  let ?p = "p\<lparr>pg_blob := AList.update (ev_Blob e) e (pg_blob p)\<rparr>" and ?es = "pre @ map snd (te # tes)"
  have seen: "\<forall>b. map_of (pg_blob ?p) b = List.find (\<lambda>x. ev_Blob x = b) (rev (pre @ [e]))"
    using Cons.prems(3) by (simp add: update_conv')
  from Cons.IH [of ?p, OF _ _ seen] Cons.prems(1,2) obtain p' ls where rest: "progress_run tes ?p = Ok (p', ls)"
    "list_all2 (\<lambda>l e. copied_line e = Ok l) ls
      (map ((!) ?es) (filter (completes ?es) [Suc (length pre)..<Suc (length pre) + length tes]))"
    by (auto simp: te)
  have here: "?es ! length pre = e" "event_before ?es (length pre) = map_of (pg_blob p) (ev_Blob e)"
    using Cons.prems(3) by (simp_all add: event_before_def te)
  have upt: "[length pre..<length pre + length (te # tes)] = length pre # [Suc (length pre)..<Suc (length pre) + length tes]"
    by (subst upt_conv_Cons) simp_all
  have guard: "completes ?es (length pre) \<longleftrightarrow>
      finished e \<and> (case map_of (pg_blob p) (ev_Blob e) of None \<Rightarrow> True | Some q \<Rightarrow> \<not> finished q)"
    unfolding completes_def here ..
  show ?case
  proof (cases "completes ?es (length pre)")
    case True
    obtain l where l: "copied_line e = Ok l" using copied_line_Ok [of e] Cons.prems(2) by (auto simp: te)
    from True [unfolded guard] have "progress_event now e p = Ok (?p, [l])"
      using Cons.prems(1) l by (simp add: progress_event_def Let_def)
    with rest True l show ?thesis unfolding upt by (simp add: te here(1) [unfolded te])
  next
    case False
    have "progress_event now e p = Ok (?p, [])"
      by (simp only: progress_event_def Let_def Cons.prems(1) not_False_eq_True if_True if_not_P [OF False [unfolded guard]])
    with rest False show ?thesis unfolding upt by (simp add: te)
  qed
qed simp

lemma plain_display:
  assumes "\<forall>e \<in> snd ` set tes. in_int64 (ev_Total e)"
  shows "\<exists>p ls. progress_run tes (newProgress False) = Ok (p, ls) \<and>
    list_all2 (\<lambda>l e. copied_line e = Ok l) ls (completions (map snd tes))"
  using plain_run [of "newProgress False" tes "[]", OF _ assms] by (simp add: newProgress_def completions_def)

text \<open>Where no blob finishes twice every finishing event counts.\<close>

lemma finishing_completes:
  assumes once: "\<And>b. length (filter (\<lambda>e. ev_Blob e = b) (filter finished es)) \<le> 1"
  shows "completions es = filter finished es"
proof -
  have "completes es i \<longleftrightarrow> finished (es ! i)" if i: "i < length es" for i
  proof
    assume fin: "finished (es ! i)"
    let ?b = "ev_Blob (es ! i)" and ?n = "\<lambda>xs. length (filter (\<lambda>e. ev_Blob e = ev_Blob (es ! i)) (filter finished xs))"
    have "?n (take i es @ es ! i # drop (Suc i) es) \<le> 1" using once [of ?b] i by (simp only: id_take_nth_drop [symmetric])
    with fin have "?n (take i es) = 0" by simp
    then have none: "\<not> finished x" if "x \<in> set (take i es)" "ev_Blob x = ?b" for x
      using that by (auto simp: filter_empty_conv)
    have "\<not> finished q" if "event_before es i = Some q" for q
    proof (rule none)
      from that have "q \<in> set (rev (take i es)) \<and> ev_Blob q = ?b"
        unfolding event_before_def find_Some_iff by (metis nth_mem)
      then show "q \<in> set (take i es)" "ev_Blob q = ?b" by simp_all
    qed
    with fin show "completes es i" by (simp add: completes_def split: option.split)
  qed (simp add: completes_def)
  then have "filter (completes es) [0..<length es] = filter (\<lambda>i. finished (es ! i)) [0..<length es]"
    by (intro filter_cong) auto
  also have "map ((!) es) \<dots> = filter finished (map ((!) es) [0..<length es])" by (simp add: filter_map comp_def)
  finally show ?thesis by (simp add: completions_def map_nth)
qed

text \<open>Events as the readers of a push produce them: one reader per blob, no more than the blob's size.\<close>

definition reader_events :: "(string \<Rightarrow> event \<times> int list) \<Rightarrow> event list \<Rightarrow> bool" where
  "reader_events R es \<longleftrightarrow>
     (\<forall>b. filter (\<lambda>e. ev_Blob e = b) es = progress_events (fst (R b)) (snd (R b)) \<and>
        ev_Done (fst (R b)) = 0 \<and> in_int64 (ev_Total (fst (R b))) \<and>
        (\<forall>n \<in> set (snd (R b)). 0 \<le> n) \<and> sum_list (snd (R b)) \<le> ev_Total (fst (R b)))"

lemma reader_eventsD:
  assumes "reader_events R es"
  shows "filter (\<lambda>e. ev_Blob e = b) es = progress_events (fst (R b)) (snd (R b))"
    "ev_Done (fst (R b)) = 0" "in_int64 (ev_Total (fst (R b)))" "\<forall>n \<in> set (snd (R b)). 0 \<le> n"
    "sum_list (snd (R b)) \<le> ev_Total (fst (R b))"
  using assms unfolding reader_events_def by blast+

definition fully_read :: "event \<times> int list \<Rightarrow> bool" where
  "fully_read R \<longleftrightarrow> 0 < ev_Total (fst R) \<and> sum_list (snd R) = ev_Total (fst R)"

lemma reader_finishes:
  assumes "reader_events R es"
  shows "length (filter (\<lambda>e. ev_Blob e = b) (filter finished es)) = (if fully_read (R b) then 1 else 0)"
proof -
  have "filter (\<lambda>e. ev_Blob e = b) (filter finished es) = filter finished (filter (\<lambda>e. ev_Blob e = b) es)"
    by (simp add: conj_commute)
  with reader_eventsD [OF assms, of b] reads_finished [of "snd (R b)" "fst (R b)"] show ?thesis
    by (auto simp: fully_read_def)
qed

lemma reader_totals:
  assumes "reader_events R es" "e \<in> set es" shows "in_int64 (ev_Total e)"
proof -
  from assms(2) have "e \<in> set (filter (\<lambda>x. ev_Blob x = ev_Blob e) es)" by simp
  with reader_eventsD(1,3) [OF assms(1), of "ev_Blob e"] show ?thesis by (metis reads_fields)
qed

end
