(* ===== verification/Cli.thy ===== *)
theory Cli
  imports Cli_Progress Service
begin

text \<open>
  Package cli: rendering the plan, the progress and the results of a copy, the listing of a store and the
  configuration. What the code calls of encoding/json and text/template, and the text of an error
  (\<open>Error()\<close>, which the errors of the model do not carry in full), is the record \<open>cli_lib\<close>.
\<close>

datatype out_mode = OutputText | OutputQuiet | OutputJson

record entry_report =
  rp_Ref :: string
  rp_Platform :: string
  rp_Manifest :: string
  rp_Missing :: int
  rp_Present :: int
  rp_Fallback :: bool
  rp_Error :: string

record copy_report =
  rp_Source :: string
  rp_Destination :: string
  rp_DryRun :: bool
  rp_Bytes :: int
  rp_Entries :: "entry_report list"
  rp_Failed :: nat
  rp_Whole :: string

record list_entry =
  le_Ref :: string
  le_Platform :: string
  le_Manifest :: string

text \<open>\<open>cl_template\<close> parses a template; executing it gives the text up to an error, and the error.\<close>

record cli_lib =
  cl_Error :: "gerr \<Rightarrow> string"
  cl_json_report :: "copy_report \<Rightarrow> gerr + string"
  cl_json_list :: "list_entry list \<Rightarrow> gerr + string"
  cl_json_config :: "config \<Rightarrow> gerr + string"
  cl_template :: "string \<Rightarrow> gerr + (config \<Rightarrow> string \<times> gerr option)"

text \<open>The terminal with the progress display, which is shared with the callbacks of the transfer.\<close>

record 'w console = "'w terminal" +
  cn_progress :: "'w \<Rightarrow> progress"
  cn_set_progress :: "progress \<Rightarrow> 'w \<Rightarrow> 'w"

section \<open>Texts\<close>

definition newline :: string where "newline = [CHR 0x0A]"
definition tab :: string where "tab = [CHR 0x09]"

definition entryName :: "reference \<Rightarrow> platform \<Rightarrow> string" where
  "entryName ref p = reference_String ref @ tab @ platform_String p"

definition failed_count :: "'w result \<Rightarrow> nat" where
  "failed_count res = length (filter (\<lambda>e. er_Err e \<noteq> None) (rs_Entries res))"

text \<open>The digests of the blobs that the plan is missing, each once.\<close>

definition plan_blobs :: "'w result \<Rightarrow> string list" where
  "plan_blobs res = remdups (map d_Digest (concat (map en_Missing (pl_Entries (rs_Plan res)))))"

definition plan_head :: "'w result \<Rightarrow> string res" where
  "plan_head res =
     (let n = length (plan_blobs res); entries = plural (int (length (rs_Entries res))) ''entry'' in
      if n = 0 then Ok (''plan: '' @ entries @ '', nothing to transfer'' @ newline)
      else case humanBytes (transfer_Bytes (rs_Plan res)) of
        Ok h \<Rightarrow> Ok (''plan: '' @ entries @ '', '' @ plural (int n) ''blob'' @ '' ('' @ h @ '') to transfer'' @ newline)
      | Err e \<Rightarrow> Err e
      | Panic \<Rightarrow> Panic)"

definition plan_line :: "cli_lib \<Rightarrow> entry_result \<Rightarrow> string res" where
  "plan_line C e =
     (case er_Err e of
        Some x \<Rightarrow> Ok (''  '' @ entryName (er_Ref e) (er_Platform e) @ tab @ ''error: '' @ cl_Error C x @ newline)
      | None \<Rightarrow>
          (case (humanBytes (er_Missing e), humanBytes (er_Present e)) of
             (Ok a, Ok b) \<Rightarrow>
               Ok (''  '' @ entryName (er_Ref e) (er_Platform e) @ tab @ ''missing '' @ a @ tab @ ''present '' @ b @
                   (if er_Fallback e then tab @ ''from registry'' else []) @ newline)
           | _ \<Rightarrow> Panic))"

fun concat_res :: "string res list \<Rightarrow> string res" where
  "concat_res [] = Ok []"
| "concat_res (Ok s # rs) = (case concat_res rs of Ok t \<Rightarrow> Ok (s @ t) | r \<Rightarrow> r)"
| "concat_res (r # rs) = r"

definition result_line :: "cli_lib \<Rightarrow> entry_result \<Rightarrow> string" where
  "result_line C e =
     (case er_Err e of
        Some x \<Rightarrow> ''failed'' @ tab @ entryName (er_Ref e) (er_Platform e) @ tab @ cl_Error C x @ newline
      | None \<Rightarrow> ''ok'' @ tab @ entryName (er_Ref e) (er_Platform e) @ tab @ er_Manifest e @ newline)"

section \<open>Rendering a copy\<close>

definition say :: "('w, 'm) terminal_scheme \<Rightarrow> string \<Rightarrow> ('w, unit) io" where
  "say T s = ignore_err (errWriter_Write T s)"

definition renderPlan :: "cli_lib \<Rightarrow> ('w, 'm) terminal_scheme \<Rightarrow> 'w result \<Rightarrow> bool \<Rightarrow> ('w, unit) io" where
  "renderPlan C T res dryRun =
     ebind (pure_res (plan_head res)) (\<lambda>h.
     ebind (say T h) (\<lambda>_.
     ebind (pure_res (concat_res (map (plan_line C) (rs_Entries res)))) (\<lambda>t.
     ebind (say T (tabwriter t)) (\<lambda>_.
       if dryRun then say T (''dry run: nothing transferred'' @ newline) else ret ()))))"

definition renderResults :: "cli_lib \<Rightarrow> ('w, 'm) terminal_scheme \<Rightarrow> 'w result \<Rightarrow> nat \<Rightarrow> ('w, unit) io" where
  "renderResults C T res failed =
     ebind (say T (tabwriter (concat (map (result_line C) (rs_Entries res))))) (\<lambda>_.
       say T (''copied '' @ strconv_Itoa (int (length (rs_Entries res)) - int failed) @ '' of '' @
         plural (int (length (rs_Entries res))) ''entry'' @ newline))"

definition entry_report_of :: "cli_lib \<Rightarrow> entry_result \<Rightarrow> entry_report" where
  "entry_report_of C e =
     \<lparr>rp_Ref = reference_String (er_Ref e), rp_Platform = platform_String (er_Platform e),
      rp_Manifest = er_Manifest e, rp_Missing = er_Missing e, rp_Present = er_Present e,
      rp_Fallback = er_Fallback e, rp_Error = (case er_Err e of None \<Rightarrow> [] | Some x \<Rightarrow> cl_Error C x)\<rparr>"

definition copy_report_of ::
  "cli_lib \<Rightarrow> url_env \<Rightarrow> location \<Rightarrow> location \<Rightarrow> bool \<Rightarrow> 'w result \<Rightarrow> nat \<Rightarrow> gerr option \<Rightarrow> copy_report" where
  "copy_report_of C E src dst dryRun res failed whole =
     \<lparr>rp_Source = location_String E src, rp_Destination = location_String E dst, rp_DryRun = dryRun,
      rp_Bytes = transfer_Bytes (rs_Plan res), rp_Entries = map (entry_report_of C) (rs_Entries res),
      rp_Failed = failed, rp_Whole = (case whole of None \<Rightarrow> [] | Some e \<Rightarrow> cl_Error C e)\<rparr>"

definition renderReport ::
  "cli_lib \<Rightarrow> url_env \<Rightarrow> ('w, 'm) terminal_scheme \<Rightarrow> location \<Rightarrow> location \<Rightarrow> bool \<Rightarrow> 'w result \<Rightarrow> nat \<Rightarrow>
   gerr option \<Rightarrow> ('w, unit) io" where
  "renderReport C E T src dst dryRun res failed whole =
     (case cl_json_report C (copy_report_of C E src dst dryRun res failed whole) of
        Inl e \<Rightarrow> throw e
      | Inr b \<Rightarrow> errWriter_Write T (b @ newline))"

section \<open>What failed\<close>

text \<open>
  \<open>errors.Is\<close> against an error value. The code compares pointers; here two errors with the same content
  are the same, which Cli_Facts shows to make no difference for the results of \<open>Copy\<close>.
\<close>

fun err_Is :: "gerr \<Rightarrow> gerr \<Rightarrow> bool" where
  "err_Is (Wrap1 s e) t \<longleftrightarrow> Wrap1 s e = t \<or> err_Is e t"
| "err_Is (WrapN s es) t \<longleftrightarrow> WrapN s es = t \<or> list_ex (\<lambda>e. err_Is e t) es"
| "err_Is (Joined es) t \<longleftrightarrow> Joined es = t \<or> list_ex (\<lambda>e. err_Is e t) es"
| "err_Is (EntryError r p e) t \<longleftrightarrow> EntryError r p e = t \<or> err_Is e t"
| "err_Is (UsageError e) t \<longleftrightarrow> UsageError e = t \<or> err_Is e t"
| "err_Is (Sentinel s) t \<longleftrightarrow> Sentinel s = t"
| "err_Is (Msg s) t \<longleftrightarrow> Msg s = t"
| "err_Is (HTTPStatus c) t \<longleftrightarrow> HTTPStatus c = t"

definition unattributed :: "gerr \<Rightarrow> 'w result \<Rightarrow> gerr list" where
  "unattributed err res =
     (let keep = filter (\<lambda>e. \<not> list_ex (\<lambda>er. case er_Err er of None \<Rightarrow> False | Some x \<Rightarrow> err_Is e x) (rs_Entries res))
      in case err of Joined es \<Rightarrow> keep es | WrapN _ es \<Rightarrow> keep es | _ \<Rightarrow> [])"

text \<open>The error beyond the entries' failures, which stopped the copy as a whole.\<close>

definition cli_whole :: "gerr option \<Rightarrow> 'w result \<Rightarrow> gerr option" where
  "cli_whole err res =
     (case err of
        None \<Rightarrow> None
      | Some e \<Rightarrow> if failed_count res = 0 then Some e else join_errs (unattributed e res))"

definition counted :: "'w result \<Rightarrow> gerr option" where
  "counted res = (if failed_count res > 0 then Some (Msg ''entries failed'') else None)"

text \<open>\<open>return errors.Join(whole, counted, ow.err)\<close>\<close>

definition cli_return :: "('w, 'm) terminal_scheme \<Rightarrow> gerr option \<Rightarrow> 'w result \<Rightarrow> ('w, unit) io" where
  "cli_return T whole res w = raise_opt (errors_Join [whole, counted res, tm_err T w]) w"

text \<open>What \<open>Copy\<close> does with the result and the error of the service.\<close>

definition cli_results ::
  "cli_lib \<Rightarrow> url_env \<Rightarrow> ('w, 'm) terminal_scheme \<Rightarrow> out_mode \<Rightarrow> location \<Rightarrow> location \<Rightarrow> bool \<Rightarrow>
   'w result \<times> gerr option \<Rightarrow> ('w, unit) io" where
  "cli_results C E T out src dst dryRun r =
     (case r of (res, err) \<Rightarrow>
        let failed = failed_count res; whole = cli_whole err res in
        if (case err of None \<Rightarrow> False | Some e \<Rightarrow> IsUsage e) then raise_opt err
        else case out of
          OutputQuiet \<Rightarrow> raise_opt err
        | OutputJson \<Rightarrow>
            ebind (attempt (renderReport C E T src dst dryRun res failed whole)) (\<lambda>x.
              case x of
                Inl e \<Rightarrow> raise_opt (errors_Join [whole, Some e])
              | Inr _ \<Rightarrow> cli_return T whole res)
        | OutputText \<Rightarrow>
            ebind (if \<not> dryRun \<and> rs_Entries res \<noteq> [] then renderResults C T res failed else ret ()) (\<lambda>_.
              cli_return T whole res))"

section \<open>Copy\<close>

text \<open>\<open>newProgress(stderr, isTerminal(stderr))\<close>, and \<open>prog.finish()\<close> with its texts on the error output.\<close>

definition progress_start :: "'w console \<Rightarrow> ('w, unit) io" where
  "progress_start T =
     ebind (tm_terminal T) (\<lambda>tty w. (Ok (), cn_set_progress T (newProgress tty) w))"

definition write_all :: "'w console \<Rightarrow> string list \<Rightarrow> ('w, unit) io" where
  "write_all T ls = for_each (\<lambda>l. ignore_err (tm_stderr T l)) ls"

definition progress_call ::
  "'w console \<Rightarrow> (progress \<Rightarrow> (progress \<times> string list) res) \<Rightarrow> ('w, unit) io" where
  "progress_call T f w =
     ebind (pure_res (f (cn_progress T w))) (\<lambda>(p, ls) w.
       write_all T ls (cn_set_progress T p w)) w"

definition copy_callbacks :: "cli_lib \<Rightarrow> 'w console \<Rightarrow> out_mode \<Rightarrow> 'w copy_option \<Rightarrow> 'w copy_option" where
  "copy_callbacks C T out opt =
     (if out = OutputText then opt\<lparr>co_Planned := Some (\<lambda>res. renderPlan C T res (co_DryRun opt))\<rparr> else opt)"

definition cli_Copy ::
  "('w, 'o, 'f, 'r, 'a) host \<Rightarrow> cli_lib \<Rightarrow> 'w console \<Rightarrow> ('w, unit) io \<Rightarrow>
   (int \<Rightarrow> 'w backend \<Rightarrow> 'w plan \<Rightarrow> ('w, gerr list) io) \<Rightarrow> out_mode \<Rightarrow>
   location \<Rightarrow> location \<Rightarrow> string list \<Rightarrow> 'w copy_option \<Rightarrow> ('w, 'o, unit) service_io" where
  "cli_Copy H C T ctx_Err uploads out src dst images opt =
     ebind (outside (errWriter_new T)) (\<lambda>_.
     ebind (if out = OutputText then outside (progress_start T) else ret ()) (\<lambda>_.
     ebind (service_Copy H ctx_Err uploads src dst images (copy_callbacks C T out opt)) (\<lambda>r.
     ebind (if out = OutputText then outside (progress_call T progress_finish) else ret ()) (\<lambda>_.
       outside (cli_results C (ho_url H) T out src dst (co_DryRun opt) r)))))"

section \<open>List and configuration\<close>

text \<open>The loop over what \<open>List\<close> yields: a usage error ends it at once.\<close>

fun list_loop :: "(gerr + 'w image) list \<Rightarrow> list_entry list \<times> gerr list \<Rightarrow> gerr + (list_entry list \<times> gerr list)" where
  "list_loop [] st = Inr st"
| "list_loop (Inl e # xs) (entries, errs) =
     (if IsUsage e then Inl e else list_loop xs (entries, errs @ [e]))"
| "list_loop (Inr img # xs) (entries, errs) =
     list_loop xs (entries @
       [\<lparr>le_Ref = reference_String (im_Ref img), le_Platform = platform_String (im_Platform img),
         le_Manifest = d_Digest (im_Manifest img)\<rparr>], errs)"

definition list_line :: "list_entry \<Rightarrow> string" where
  "list_line e = le_Ref e @ tab @ le_Platform e @ tab @ le_Manifest e @ newline"

definition cli_List ::
  "('w, 'o, 'f, 'r, 'a) host \<Rightarrow> cli_lib \<Rightarrow> 'w console \<Rightarrow> ('w, unit) io \<Rightarrow> bool \<Rightarrow> location \<Rightarrow> string \<Rightarrow>
   ('w, 'o, unit) service_io" where
  "cli_List H C T ctx_Err asJson loc repo =
     ebind (service_List H ctx_Err loc repo) (\<lambda>xs.
       case list_loop xs ([], []) of
         Inl e \<Rightarrow> throw e
       | Inr (entries, errs) \<Rightarrow>
           outside (
             ebind (errWriter_new T) (\<lambda>_.
             ebind (if asJson then
                      (case cl_json_list C entries of
                         Inl e \<Rightarrow> throw e
                       | Inr b \<Rightarrow> say T (b @ newline))
                    else say T (tabwriter (concat (map list_line entries)))) (\<lambda>_ w.
               raise_opt (errors_Join (map Some errs @ [tm_err T w])) w))))"

text \<open>The errors of the writes are dropped.\<close>

definition RenderConfig :: "cli_lib \<Rightarrow> ('w, 'm) terminal_scheme \<Rightarrow> config \<Rightarrow> string \<Rightarrow> ('w, unit) io" where
  "RenderConfig C T cfg format =
     (if format \<noteq> [] then
        (case cl_template C format of
           Inl e \<Rightarrow> throw (Wrap1 ''--format'' e)
         | Inr exec \<Rightarrow>
             (case exec cfg of (text, err) \<Rightarrow>
                ebind (map_err (Wrap1 ''--format'') (tm_stdout T text)) (\<lambda>_.
                case err of
                  Some e \<Rightarrow> throw (Wrap1 ''--format'' e)
                | None \<Rightarrow> ignore_err (tm_stdout T newline))))
      else
        (case cl_json_config C cfg of
           Inl e \<Rightarrow> throw e
         | Inr b \<Rightarrow> ignore_err (tm_stdout T (b @ newline))))"

end
