(* ===== verification/Loggerfactory.thy ===== *)
theory Loggerfactory
  imports Go_Strings
begin

text \<open>
  Package internal/loggerfactory: the logger a command line and the environment ask for. The callbacks
  that \<open>RegisterFlags\<close> gives to pflag set the configuration as they go, also when they then return an
  error; \<open>ReadEnv\<close> overrides it. Of \<open>log/slog\<close> the handler that is built is modelled, with the rule by which
  it is enabled for a record.
\<close>

section \<open>Levels and formats\<close>

text \<open>\<open>slog.Level\<close> is an integer.\<close>

type_synonym slog_level = int

definition LevelTrace :: slog_level where "LevelTrace = - 8"
definition LevelDebug :: slog_level where "LevelDebug = - 4"
definition LevelInfo :: slog_level where "LevelInfo = 0"
definition LevelWarn :: slog_level where "LevelWarn = 4"
definition LevelError :: slog_level where "LevelError = 8"
definition LevelFatal :: slog_level where "LevelFatal = 12"

text \<open>
  \<open>strings.ToLower\<close> as far as its result is compared with ASCII words: besides the ASCII capitals, only
  U+0130 and U+212A (in UTF-8 C4 B0 and E2 84 AA) have an ASCII letter as their lower case.
\<close>

fun lower_ascii :: "nat list \<Rightarrow> nat list" where
  "lower_ascii (a # b # cs) =
     (if a = 196 \<and> b = 176 then 105 # lower_ascii cs
      else if a = 226 \<and> b = 132 \<and> take 1 cs = [170] then 107 # lower_ascii (drop 1 cs)
      else (if 65 \<le> a \<and> a \<le> 90 then a + 32 else a) # lower_ascii (b # cs))"
| "lower_ascii [a] = [if 65 \<le> a \<and> a \<le> 90 then a + 32 else a]"
| "lower_ascii [] = []"

definition strings_ToLower :: "string \<Rightarrow> string" where
  "strings_ToLower s = map char_of (lower_ascii (map of_char s))"

definition parseFormat :: "string \<Rightarrow> gerr + string" where
  "parseFormat s =
     (let v = strings_ToLower s in
      if v = ''text'' \<or> v = ''json'' then Inr v
      else Inl (Msg ''must be text or json''))"

definition parseLevel :: "string \<Rightarrow> gerr + slog_level" where
  "parseLevel s =
     (let v = strings_ToLower s in
      if v = ''trace'' then Inr LevelTrace
      else if v = ''debug'' then Inr LevelDebug
      else if v = ''info'' then Inr LevelInfo
      else if v = ''warn'' then Inr LevelWarn
      else if v = ''error'' then Inr LevelError
      else if v = ''fatal'' then Inr LevelFatal
      else Inl (Msg ''must be one of trace, debug, info, warn, error, fatal''))"

section \<open>Flags\<close>

record log_config =
  lc_Enabled :: bool
  lc_Format :: string
  lc_Level :: slog_level

text \<open>The two callbacks: the configuration they leave, with the error they return.\<close>

definition log_flag :: "string \<Rightarrow> log_config \<Rightarrow> log_config \<times> gerr option" where
  "log_flag s config =
     (let config = config\<lparr>lc_Enabled := True\<rparr> in
      if strings_ToLower s = ''true'' then (config, None)
      else case parseFormat s of
        Inl e \<Rightarrow> (config, Some (Wrap1 ''--log'' e))
      | Inr format \<Rightarrow> (config\<lparr>lc_Format := format\<rparr>, None))"

definition log_level_flag :: "string \<Rightarrow> log_config \<Rightarrow> log_config \<times> gerr option" where
  "log_level_flag s config =
     (let config = config\<lparr>lc_Enabled := True\<rparr> in
      if strings_ToLower s = ''true'' then (config, None)
      else case parseLevel s of
        Inl e \<Rightarrow> (config, Some (Wrap1 ''--log-level'' e))
      | Inr level \<Rightarrow> (config\<lparr>lc_Level := level\<rparr>, None))"

text \<open>
  The flags of a command line in their order: \<open>FLog\<close> and \<open>FLogLevel\<close> with the value pflag hands over,
  which is \<open>true\<close> for a flag given alone. pflag stops at the first error.
\<close>

datatype log_arg = FLog string | FLogLevel string

definition RegisterFlags ::
  "log_config \<times> (log_arg \<Rightarrow> log_config \<Rightarrow> log_config \<times> gerr option)" where
  "RegisterFlags =
     (\<lparr>lc_Enabled = False, lc_Format = ''json'', lc_Level = LevelInfo\<rparr>,
      \<lambda>arg. case arg of FLog s \<Rightarrow> log_flag s | FLogLevel s \<Rightarrow> log_level_flag s)"

fun parse_log_args :: "log_arg list \<Rightarrow> log_config \<Rightarrow> log_config \<times> gerr option" where
  "parse_log_args [] config = (config, None)"
| "parse_log_args (x # xs) config =
     (case snd RegisterFlags x config of
        (config', None) \<Rightarrow> parse_log_args xs config'
      | (config', Some e) \<Rightarrow> (config', Some e))"

section \<open>The environment\<close>

definition envPrefix :: "string \<Rightarrow> string" where
  "envPrefix appName = map (\<lambda>c. if c = CHR ''-'' then CHR ''_'' else c) (to_upper appName)"

fun lookupEnv :: "string list \<Rightarrow> string set \<Rightarrow> (string \<rightharpoonup> string) \<Rightarrow> (string \<rightharpoonup> string)" where
  "lookupEnv [] want out = out"
| "lookupEnv (e # es) want out =
     (case cut e ''='' of
        None \<Rightarrow> lookupEnv es want out
      | Some (k, v) \<Rightarrow> lookupEnv es want (if k \<in> want then out(k \<mapsto> v) else out))"

text \<open>The value of a Go map, empty for a key that is not there.\<close>

definition map_value :: "(string \<rightharpoonup> string) \<Rightarrow> string \<Rightarrow> string" where
  "map_value m k = (case m k of None \<Rightarrow> [] | Some v \<Rightarrow> v)"

definition ReadEnv :: "log_config \<Rightarrow> string \<Rightarrow> string list \<Rightarrow> log_config \<times> gerr option" where
  "ReadEnv config appName env =
     (let formatKey = envPrefix appName @ ''_LOG_FORMAT'';
          levelKey = envPrefix appName @ ''_LOG_LEVEL'';
          values = lookupEnv env {formatKey, levelKey} Map.empty;
          f = map_value values formatKey;
          l = map_value values levelKey
      in case (if f = [] then Inr config
               else case parseFormat f of
                 Inl e \<Rightarrow> Inl (Wrap1 formatKey e)
               | Inr format \<Rightarrow> Inr (config\<lparr>lc_Format := format, lc_Enabled := True\<rparr>)) of
           Inl e \<Rightarrow> (config, Some e)
         | Inr config \<Rightarrow>
             if l = [] then (config, None)
             else (case parseLevel l of
                 Inl e \<Rightarrow> (config, Some (Wrap1 levelKey e))
               | Inr level \<Rightarrow> (config\<lparr>lc_Level := level, lc_Enabled := True\<rparr>, None)))"

section \<open>The logger\<close>

text \<open>The handler of the logger: which of slog's, with the level of its options.\<close>

datatype log_handler = DiscardHandler | TextHandler slog_level | JSONHandler slog_level

definition BuildLoggerTo :: "log_config \<Rightarrow> log_handler" where
  "BuildLoggerTo config =
     (if \<not> lc_Enabled config then DiscardHandler
      else if lc_Format config = ''text'' then TextHandler (lc_Level config)
      else JSONHandler (lc_Level config))"

text \<open>\<open>BuildLogger\<close> is \<open>BuildLoggerTo\<close> at the error output.\<close>

definition BuildLogger :: "log_config \<Rightarrow> log_handler" where
  "BuildLogger config = BuildLoggerTo config"

text \<open>\<open>slog.Handler.Enabled\<close>.\<close>

fun handler_Enabled :: "log_handler \<Rightarrow> slog_level \<Rightarrow> bool" where
  "handler_Enabled DiscardHandler l = False"
| "handler_Enabled (TextHandler m) l = (m \<le> l)"
| "handler_Enabled (JSONHandler m) l = (m \<le> l)"

section \<open>Facts\<close>

text \<open>The last value of a variable that is set, as \<open>os.Environ\<close> lists it.\<close>

definition env_last :: "string list \<Rightarrow> string \<Rightarrow> string" where
  "env_last es k = fold (\<lambda>e v. if has_prefix e (k @ ''='') then drop (Suc (length k)) e else v) es []"

lemma cut_key:
  assumes "CHR ''='' \<notin> set k"
  shows "(case cut e ''='' of None \<Rightarrow> False | Some (k', v) \<Rightarrow> k' = k) \<longleftrightarrow> has_prefix e (k @ ''='')"
    and "cut e ''='' = Some (k, v) \<Longrightarrow> drop (Suc (length k)) e = v"
proof -
  show "(case cut e ''='' of None \<Rightarrow> False | Some (k', v) \<Rightarrow> k' = k) \<longleftrightarrow> has_prefix e (k @ ''='')"
  proof
    assume "case cut e ''='' of None \<Rightarrow> False | Some (k', v) \<Rightarrow> k' = k"
    then obtain v where "cut e ''='' = Some (k, v)" by (auto split: option.splits)
    then have "e = (k @ ''='') @ v" by (simp add: cut_char_Some)
    then show "has_prefix e (k @ ''='')" by (simp only: has_prefix_append)
  next
    assume "has_prefix e (k @ ''='')"
    then obtain v where "e = k @ CHR ''='' # v" by (auto simp: has_prefix_iff)
    with cut_char [OF assms, of v] show "case cut e ''='' of None \<Rightarrow> False | Some (k', v) \<Rightarrow> k' = k" by simp
  qed
  show "cut e ''='' = Some (k, v) \<Longrightarrow> drop (Suc (length k)) e = v"
    by (auto simp: cut_char_Some)
qed

lemma lookupEnv_value:
  assumes "k \<in> want" "CHR ''='' \<notin> set k"
  shows "map_value (lookupEnv es want out) k =
    fold (\<lambda>e v. if has_prefix e (k @ ''='') then drop (Suc (length k)) e else v) es (map_value out k)"
proof (induction es arbitrary: out)
  case (Cons e es)
  note key = cut_key [OF assms(2), of e]
  show ?case
  proof (cases "cut e ''=''")
    case None
    with key(1) Cons.IH [of out] show ?thesis by simp
  next
    case (Some kv)
    obtain k' v where kv: "kv = (k', v)" by fastforce
    show ?thesis
    proof (cases "k' = k")
      case True
      have "map_value (out(k \<mapsto> v)) k = v" by (simp add: map_value_def)
      with True Some kv key assms(1) Cons.IH [of "out(k \<mapsto> v)"] show ?thesis by (simp del: fun_upd_apply)
    next
      case False
      have "map_value (if k' \<in> want then out(k' \<mapsto> v) else out) k = map_value out k"
        using False by (simp add: map_value_def)
      with False Some kv key(1) Cons.IH [of "if k' \<in> want then out(k' \<mapsto> v) else out"] show ?thesis by simp
    qed
  qed
qed simp

lemma upper_no_eq: "CHR ''='' \<notin> set s \<Longrightarrow> CHR ''='' \<notin> set (envPrefix s)"
proof -
  have eq: "x = CHR ''='' \<longleftrightarrow> (of_char x :: nat) = 61" for x
    using of_char_eq_iff [where ?'a = nat, of x "CHR ''=''"] by simp
  have "upper_char c = CHR ''='' \<longleftrightarrow> c = CHR ''=''" for c
  proof (cases "97 \<le> (of_char c :: nat) \<and> (of_char c :: nat) \<le> 122")
    case True
    then have "(of_char (upper_char c) :: nat) = of_char c - 32"
      by (auto simp: upper_char_def intro!: mod_less)
    with True show ?thesis unfolding eq by linarith
  next
    case False
    show ?thesis unfolding upper_char_def Let_def if_not_P [OF False] ..
  qed
  then have f: "(if upper_char c = CHR ''-'' then CHR ''_'' else upper_char c) \<noteq> CHR ''=''" if "c \<noteq> CHR ''=''" for c
    using that by simp
  assume no: "CHR ''='' \<notin> set s"
  show "CHR ''='' \<notin> set (envPrefix s)"
  proof
    assume "CHR ''='' \<in> set (envPrefix s)"
    then obtain c where c: "c \<in> set s" "(if upper_char c = CHR ''-'' then CHR ''_'' else upper_char c) = CHR ''=''"
      unfolding envPrefix_def to_upper_def map_map set_map comp_def by (elim imageE) (rule that, assumption, rule sym)
    have "c \<noteq> CHR ''=''" using c(1) no by (intro notI) (simp only: simp_thms)
    from f [OF this] c(2) show False by (rule notE)
  qed
qed

text \<open>What the flags of a command line say, the last of each kind with a value counting.\<close>

definition flags_format :: "log_arg list \<Rightarrow> string" where
  "flags_format args =
     fold (\<lambda>x v. case x of FLog s \<Rightarrow> (case parseFormat s of Inr f \<Rightarrow> f | Inl _ \<Rightarrow> v) | FLogLevel _ \<Rightarrow> v) args ''json''"

definition flags_level :: "log_arg list \<Rightarrow> slog_level" where
  "flags_level args =
     fold (\<lambda>x v. case x of FLogLevel s \<Rightarrow> (case parseLevel s of Inr l \<Rightarrow> l | Inl _ \<Rightarrow> v) | FLog _ \<Rightarrow> v) args LevelInfo"

lemma presence_only: "strings_ToLower s = ''true'' \<Longrightarrow> parseFormat s = Inl (Msg ''must be text or json'')"
  "strings_ToLower s = ''true'' \<Longrightarrow>
     parseLevel s = Inl (Msg ''must be one of trace, debug, info, warn, error, fatal'')"
  by (simp_all add: parseFormat_def parseLevel_def)

lemma log_flag_Ok:
  "log_flag s c = (c', None) \<Longrightarrow> c' = c\<lparr>lc_Enabled := True,
     lc_Format := (case parseFormat s of Inr f \<Rightarrow> f | Inl _ \<Rightarrow> lc_Format c)\<rparr>"
  by (cases c) (auto simp: log_flag_def Let_def presence_only split: if_splits sum.splits)

lemma log_level_flag_Ok:
  "log_level_flag s c = (c', None) \<Longrightarrow> c' = c\<lparr>lc_Enabled := True,
     lc_Level := (case parseLevel s of Inr l \<Rightarrow> l | Inl _ \<Rightarrow> lc_Level c)\<rparr>"
  by (cases c) (auto simp: log_level_flag_def Let_def presence_only split: if_splits sum.splits)

lemma parse_log_args_Ok:
  assumes "parse_log_args args c = (c', None)"
  shows "lc_Enabled c' \<longleftrightarrow> lc_Enabled c \<or> args \<noteq> []"
    and "lc_Format c' = fold (\<lambda>x v. case x of FLog s \<Rightarrow> (case parseFormat s of Inr f \<Rightarrow> f | Inl _ \<Rightarrow> v)
        | FLogLevel _ \<Rightarrow> v) args (lc_Format c)"
    and "lc_Level c' = fold (\<lambda>x v. case x of FLogLevel s \<Rightarrow> (case parseLevel s of Inr l \<Rightarrow> l | Inl _ \<Rightarrow> v)
        | FLog _ \<Rightarrow> v) args (lc_Level c)"
  using assms
proof (induction args arbitrary: c)
  case (Cons x xs)
  { case 1 then show ?case
      using Cons.IH(1) by (cases x) (auto simp: RegisterFlags_def dest!: log_flag_Ok log_level_flag_Ok split: prod.splits option.splits) }
  { case 2 then show ?case
      using Cons.IH(2) by (cases x) (auto simp: RegisterFlags_def dest!: log_flag_Ok log_level_flag_Ok split: prod.splits option.splits) }
  { case 3 then show ?case
      using Cons.IH(3) by (cases x) (auto simp: RegisterFlags_def dest!: log_flag_Ok log_level_flag_Ok split: prod.splits option.splits) }
qed simp_all

lemma ReadEnv_Ok:
  assumes "ReadEnv c appName env = (c', None)" "CHR ''='' \<notin> set appName"
  defines "f \<equiv> env_last env (envPrefix appName @ ''_LOG_FORMAT'')"
    and "l \<equiv> env_last env (envPrefix appName @ ''_LOG_LEVEL'')"
  shows "lc_Enabled c' \<longleftrightarrow> lc_Enabled c \<or> f \<noteq> [] \<or> l \<noteq> []"
    and "if f = [] then lc_Format c' = lc_Format c else parseFormat f = Inr (lc_Format c')"
    and "if l = [] then lc_Level c' = lc_Level c else parseLevel l = Inr (lc_Level c')"
proof -
  have key: "map_value (lookupEnv env want Map.empty) (envPrefix appName @ s) = env_last env (envPrefix appName @ s)"
    if "envPrefix appName @ s \<in> want" "CHR ''='' \<notin> set s" for s want
  proof -
    have a: "CHR ''='' \<notin> set (envPrefix appName @ s)" using upper_no_eq [OF assms(2)] that(2) by simp
    have b: "map_value Map.empty (envPrefix appName @ s) = []" by (simp add: map_value_def)
    show ?thesis using lookupEnv_value [OF that(1) a, of env Map.empty] unfolding b env_last_def .
  qed
  have keys: "map_value (lookupEnv env {envPrefix appName @ ''_LOG_FORMAT'', envPrefix appName @ ''_LOG_LEVEL''} Map.empty)
      (envPrefix appName @ ''_LOG_FORMAT'') = f"
    "map_value (lookupEnv env {envPrefix appName @ ''_LOG_FORMAT'', envPrefix appName @ ''_LOG_LEVEL''} Map.empty)
      (envPrefix appName @ ''_LOG_LEVEL'') = l"
    by (simp_all add: key f_def l_def)
  from assms(1) have "(case (if f = [] then Inr c
               else case parseFormat f of
                 Inl e \<Rightarrow> Inl (Wrap1 (envPrefix appName @ ''_LOG_FORMAT'') e)
               | Inr format \<Rightarrow> Inr (c\<lparr>lc_Format := format, lc_Enabled := True\<rparr>)) of
           Inl e \<Rightarrow> (c, Some e)
         | Inr c \<Rightarrow>
             if l = [] then (c, None)
             else (case parseLevel l of
                 Inl e \<Rightarrow> (c, Some (Wrap1 (envPrefix appName @ ''_LOG_LEVEL'') e))
               | Inr level \<Rightarrow> (c\<lparr>lc_Level := level, lc_Enabled := True\<rparr>, None))) = (c', None)"
    unfolding ReadEnv_def Let_def keys .
  then show "lc_Enabled c' \<longleftrightarrow> lc_Enabled c \<or> f \<noteq> [] \<or> l \<noteq> []"
    "if f = [] then lc_Format c' = lc_Format c else parseFormat f = Inr (lc_Format c')"
    "if l = [] then lc_Level c' = lc_Level c else parseLevel l = Inr (lc_Level c')"
    by (auto split: if_splits sum.splits)
qed

end
