(* ===== verification/Userdir.thy ===== *)
theory Userdir
  imports Location Go_Format
begin

text \<open>
  Package internal/userdir: the base directories of a user. The host, \<open>runtime.GOOS\<close>, the environment,
  \<open>os.TempDir\<close> and \<open>os.Getuid\<close>, is the record \<open>user_env\<close>. Paths are those of a Unix host wherever the code
  joins or tests them. Package internal/versioninfo is here too: what it reads of the build information.
\<close>

record user_env =
  ue_GOOS :: string
  ue_Getenv :: "string \<Rightarrow> string"
  ue_TempDir :: string
  ue_Getuid :: int

definition userdir_Data :: "user_env \<Rightarrow> gerr + string" where
  "userdir_Data E =
     (if ue_GOOS E = ''windows'' then
        (let dir = ue_Getenv E ''AppData''
         in if dir = [] then Inl (Msg ''%AppData% is not defined'') else Inr dir)
      else if ue_GOOS E = ''darwin'' \<or> ue_GOOS E = ''ios'' then
        (let dir = ue_Getenv E ''HOME''
         in if dir = [] then Inl (Msg ''$HOME is not defined'') else Inr (dir @ ''/Library/Application Support''))
      else
        (let dir = ue_Getenv E ''XDG_DATA_HOME''
         in if dir = [] then
              (let dir = ue_Getenv E ''HOME''
               in if dir = [] then Inl (Msg ''neither $XDG_DATA_HOME nor $HOME are defined'')
                  else Inr (dir @ ''/.local/share''))
            else if \<not> filepath_IsAbs dir then Inl (Msg ''path in $XDG_DATA_HOME is relative'')
            else Inr dir))"

definition userdir_State :: "user_env \<Rightarrow> gerr + string" where
  "userdir_State E =
     (if ue_GOOS E = ''windows'' then
        (let dir = ue_Getenv E ''LocalAppData''
         in if dir = [] then Inl (Msg ''%LocalAppData% is not defined'') else Inr dir)
      else if ue_GOOS E = ''darwin'' \<or> ue_GOOS E = ''ios'' then
        (let dir = ue_Getenv E ''HOME''
         in if dir = [] then Inl (Msg ''$HOME is not defined'') else Inr (dir @ ''/Library/Application Support''))
      else
        (let dir = ue_Getenv E ''XDG_STATE_HOME''
         in if dir = [] then
              (let dir = ue_Getenv E ''HOME''
               in if dir = [] then Inl (Msg ''neither $XDG_STATE_HOME nor $HOME are defined'')
                  else Inr (dir @ ''/.local/state''))
            else if \<not> filepath_IsAbs dir then Inl (Msg ''path in $XDG_STATE_HOME is relative'')
            else Inr dir))"

definition runtimeFallback :: "user_env \<Rightarrow> string" where
  "runtimeFallback E = path_Join [ue_TempDir E, ''runtime-'' @ strconv_Itoa (ue_Getuid E)]"

definition userdir_Runtime :: "user_env \<Rightarrow> gerr + string" where
  "userdir_Runtime E =
     (if ue_GOOS E = ''windows'' \<or> ue_GOOS E = ''darwin'' \<or> ue_GOOS E = ''ios'' then Inr (runtimeFallback E)
      else let dir = ue_Getenv E ''XDG_RUNTIME_DIR''
           in if dir = [] then Inr (runtimeFallback E)
              else if \<not> filepath_IsAbs dir then Inl (Msg ''path in $XDG_RUNTIME_DIR is relative'')
              else Inr dir)"

section \<open>Facts\<close>

definition unix_like :: "user_env \<Rightarrow> bool" where
  "unix_like E \<longleftrightarrow> ue_GOOS E \<noteq> ''windows''"

text \<open>A relative path in an XDG variable never becomes a base directory.\<close>

lemma userdir_abs:
  assumes "unix_like E" "ue_Getenv E ''HOME'' = [] \<or> filepath_IsAbs (ue_Getenv E ''HOME'')"
  shows "userdir_Data E = Inr d \<Longrightarrow> filepath_IsAbs d" "userdir_State E = Inr d \<Longrightarrow> filepath_IsAbs d"
  using assms
  by (auto simp: userdir_Data_def userdir_State_def Let_def unix_like_def filepath_IsAbs_def has_prefix_iff
      split: if_splits)

lemma IsAbs_Join: "filepath_IsAbs t \<Longrightarrow> filepath_IsAbs (path_Join [t, u])"
  by (auto simp: filepath_IsAbs_def path_Join_def path_Clean_def has_prefix_iff Let_def)

lemma Runtime_abs:
  assumes "filepath_IsAbs (ue_TempDir E)" "userdir_Runtime E = Inr d"
  shows "filepath_IsAbs d"
  using assms by (auto simp: userdir_Runtime_def runtimeFallback_def Let_def IsAbs_Join split: if_splits)

text \<open>\<open>Runtime\<close> fails for a relative \<open>$XDG_RUNTIME_DIR\<close> only.\<close>

lemma Runtime_total:
  "userdir_Runtime E = Inl e \<longleftrightarrow> e = Msg ''path in $XDG_RUNTIME_DIR is relative'' \<and>
     ue_GOOS E \<notin> {''windows'', ''darwin'', ''ios''} \<and> ue_Getenv E ''XDG_RUNTIME_DIR'' \<noteq> [] \<and>
     \<not> filepath_IsAbs (ue_Getenv E ''XDG_RUNTIME_DIR'')"
  by (auto simp: userdir_Runtime_def Let_def)

section \<open>Package versioninfo\<close>

record version_info =
  vi_Version :: string
  vi_Commit :: string
  vi_CommitTime :: string
  vi_Modified :: bool
  vi_GoVersion :: string

text \<open>What \<open>debug.ReadBuildInfo\<close> gives: the toolchain's version and the settings.\<close>

type_synonym build_info = "(string \<times> (string \<times> string) list) option"

definition build_setting :: "string \<times> string \<Rightarrow> version_info \<Rightarrow> version_info" where
  "build_setting s info =
     (if fst s = ''vcs.revision'' then info\<lparr>vi_Commit := snd s\<rparr>
      else if fst s = ''vcs.time'' then info\<lparr>vi_CommitTime := snd s\<rparr>
      else if fst s = ''vcs.modified'' then info\<lparr>vi_Modified := (snd s = ''true'')\<rparr>
      else info)"

definition ReadVersionInfo :: "build_info \<Rightarrow> string \<Rightarrow> version_info" where
  "ReadVersionInfo bi version =
     (let info = \<lparr>vi_Version = version, vi_Commit = [], vi_CommitTime = [], vi_Modified = False, vi_GoVersion = []\<rparr>
      in case bi of
           None \<Rightarrow> info
         | Some (goVersion, settings) \<Rightarrow> fold build_setting settings (info\<lparr>vi_GoVersion := goVersion\<rparr>))"

definition libver_Version :: string where
  "libver_Version = ''v0.0.2-devel''"

end
