(* ===== verification/Commands.thy ===== *)
theory Commands
  imports Cli Loggerfactory Userdir
begin

text \<open>
  The command tree (cmd/oci-image-copy) with package userns: what the handlers of the subcommands do with
  their arguments and flags, and the exit status. cobra and pflag are outside: their results, the
  arguments, the values of the flags and which of them were given, are arguments of the handlers.
\<close>

section \<open>Package userns\<close>

text \<open>
  \<open>us_cgo\<close> tells which of the two files of the package is built. \<open>us_Reexec_returns\<close> is whether
  \<open>unshare.MaybeReexecUsingUserNamespace\<close> returns; otherwise the process ends there, with the status of
  its child.
\<close>

record userns_env =
  us_cgo :: bool
  us_Geteuid :: int
  us_Current :: "gerr option"
  us_LookPath :: "string \<Rightarrow> gerr option"
  us_Reexec_returns :: bool

datatype entered = Entered | Reexec | Refused gerr

definition userns_ErrUnsupported :: gerr where
  "userns_ErrUnsupported = Msg ''userns: a non-root user needs a user namespace for containers-storage''"

definition userns_preflight :: "userns_env \<Rightarrow> gerr option" where
  "userns_preflight E =
     (case us_Current E of
        Some e \<Rightarrow> Some (Wrap1 ''userns: determining the current user'' e)
      | None \<Rightarrow>
          map_option (Wrap1 ''userns: is needed for a rootless user namespace'')
            (fold (\<lambda>tool acc. case acc of Some e \<Rightarrow> Some e | None \<Rightarrow> us_LookPath E tool)
               [''newuidmap'', ''newgidmap''] None))"

definition userns_Enter :: "userns_env \<Rightarrow> entered" where
  "userns_Enter E =
     (if us_Geteuid E = 0 then Entered
      else case userns_preflight E of
        Some e \<Rightarrow> Refused e
      | None \<Rightarrow> if us_Reexec_returns E then Entered else Reexec)"

definition userns_Enter_nocgo :: "userns_env \<Rightarrow> entered" where
  "userns_Enter_nocgo E = (if us_Geteuid E = 0 then Entered else Refused userns_ErrUnsupported)"

fun enterUserNamespace :: "userns_env \<Rightarrow> location list \<Rightarrow> entered" where
  "enterUserNamespace E [] = Entered"
| "enterUserNamespace E (l # ls) =
     (if Kind l = KindContainersStorage
      then (if us_cgo E then userns_Enter E else userns_Enter_nocgo E)
      else enterUserNamespace E ls)"

section \<open>Usage errors and completion\<close>

definition usageArgs :: "(string list \<Rightarrow> gerr option) \<Rightarrow> string list \<Rightarrow> gerr option" where
  "usageArgs args a = Usage (args a)"

definition usageFlagError :: "gerr option \<Rightarrow> gerr option" where
  "usageFlagError err = Usage err"

datatype completion_directive = NoSpace | NoFileComp

definition completeLocation :: "string list \<Rightarrow> string list \<times> completion_directive list" where
  "completeLocation args =
     (if length args \<ge> 2 then ([], [NoFileComp])
      else ([''store:'', ''containers-storage:''], [NoSpace, NoFileComp]))"

section \<open>The handlers\<close>

text \<open>What all handlers use: the host, the library of package cli, the streams, the configuration's host.\<close>

record ('w, 'o, 'f, 'r, 'a) command =
  cm_host :: "('w, 'o, 'f, 'r, 'a) host"
  cm_lib :: cli_lib
  cm_console :: "'w console"
  cm_config :: config_env
  cm_ReadFile :: "string \<Rightarrow> gerr + bytes"
  cm_json_ImageSet :: "bytes \<Rightarrow> gerr + string list"
  cm_userns :: userns_env
  cm_ctx_Err :: "('w, unit) io"
  cm_uploads :: "int \<Rightarrow> 'w backend \<Rightarrow> 'w plan \<Rightarrow> ('w, gerr list) io"
  cm_build_info :: build_info

record copy_flags =
  fl_sets :: "string list"
  fl_platforms :: "string list"
  fl_dryRun :: bool
  fl_quiet :: bool
  fl_json :: bool
  fl_compressionLevel :: string
  fl_concurrency :: int

text \<open>The values of the flags of \<open>copy\<close> that are not given.\<close>

definition copy_flag_defaults :: copy_flags where
  "copy_flag_defaults =
     \<lparr>fl_sets = [], fl_platforms = [], fl_dryRun = False, fl_quiet = False, fl_json = False,
      fl_compressionLevel = ''best'', fl_concurrency = 4\<rparr>"

text \<open>A handler ends normally, or the process is replaced by its child in a user namespace.\<close>

datatype ended = Finished | Replaced

text \<open>\<open>svc\<close> in use, with the deferred \<open>svc.Close()\<close>, whose error is dropped.\<close>

definition with_service :: "('w, 'o) service \<Rightarrow> ('w, 'o, 'x) service_io \<Rightarrow> ('w, 'x) io" where
  "with_service svc m w =
     (case finally_do (ebind service_Close (\<lambda>_. ret ())) m (svc, w) of (r, (s, w')) \<Rightarrow> (r, w'))"

definition flag_config :: "copy_flags \<Rightarrow> (string \<Rightarrow> bool) \<Rightarrow> config \<Rightarrow> config" where
  "flag_config flags changed cfg =
     (let cfg = (if changed ''compression-level'' then cfg\<lparr>cf_CompressionLevel := fl_compressionLevel flags\<rparr> else cfg)
      in if changed ''concurrency'' then cfg\<lparr>cf_Concurrency := fl_concurrency flags\<rparr> else cfg)"

definition flag_output :: "copy_flags \<Rightarrow> out_mode" where
  "flag_output flags = (if fl_quiet flags then OutputQuiet else if fl_json flags then OutputJson else OutputText)"

text \<open>\<open>args[0]\<close> and \<open>args[1]\<close> are there: cobra has checked for two arguments.\<close>

definition runCopy ::
  "('w, 'o, 'f, 'r, 'a) command \<Rightarrow> string list \<Rightarrow> string \<Rightarrow> (string \<Rightarrow> bool) \<Rightarrow> copy_flags \<Rightarrow> ('w, ended) io" where
  "runCopy M args flagConfig changed flags =
     (if fl_quiet flags \<and> fl_json flags
      then throw (UsageError (Msg ''--quiet and --json cannot be used together''))
      else case LoadConfig (cm_config M) flagConfig of
        (cfg, Some e) \<Rightarrow> throw e
      | (cfg, None) \<Rightarrow>
          (case args of
             a0 # a1 # images \<Rightarrow>
               ebind (pure_res (ParseLocation (ho_url (cm_host M)) a0)) (\<lambda>src.
               ebind (pure_res (ParseLocation (ho_url (cm_host M)) a1)) (\<lambda>dst.
               ebind (pure_res (ReadImageSet (cm_ReadFile M) (cm_json_ImageSet M) images (fl_sets flags))) (\<lambda>set.
               ebind (pure_res (ParsePlatforms (fl_platforms flags))) (\<lambda>(platforms, err).
               ebind (raise_opt err) (\<lambda>_.
               ebind (pure_res (service_New (cm_host M) (flag_config flags changed cfg) None)) (\<lambda>svc.
               with_service svc
                 (ebind (pure_res (ValidateCopy (ho_lib (cm_host M)) src dst set)) (\<lambda>v.
                  ebind (raise_opt v) (\<lambda>_.
                    case enterUserNamespace (cm_userns M) [src, dst] of
                      Refused e \<Rightarrow> throw e
                    | Reexec \<Rightarrow> ret Replaced
                    | Entered \<Rightarrow>
                        ebind (cli_Copy (cm_host M) (cm_lib M) (cm_console M) (cm_ctx_Err M) (cm_uploads M)
                            (flag_output flags) src dst set
                            \<lparr>co_Platforms = platforms, co_DryRun = fl_dryRun flags, co_Planned = None\<rparr>)
                          (\<lambda>_. ret Finished))))))))))
           | _ \<Rightarrow> pure_res Panic))"

definition runList ::
  "('w, 'o, 'f, 'r, 'a) command \<Rightarrow> string list \<Rightarrow> string \<Rightarrow> string \<Rightarrow> bool \<Rightarrow> ('w, unit) io" where
  "runList M args flagConfig flagRepository flagJson =
     (case LoadConfig (cm_config M) flagConfig of
        (cfg, Some e) \<Rightarrow> throw e
      | (cfg, None) \<Rightarrow>
          (case args of
             a0 # _ \<Rightarrow>
               ebind (pure_res (ParseLocation (ho_url (cm_host M)) a0)) (\<lambda>loc.
               ebind (pure_res (service_New (cm_host M) cfg None)) (\<lambda>svc.
                 with_service svc
                   (cli_List (cm_host M) (cm_lib M) (cm_console M) (cm_ctx_Err M) flagJson loc flagRepository)))
           | _ \<Rightarrow> pure_res Panic))"

definition runConfig :: "('w, 'o, 'f, 'r, 'a) command \<Rightarrow> string \<Rightarrow> string \<Rightarrow> ('w, unit) io" where
  "runConfig M flagConfig flagFormat =
     (case LoadConfig (cm_config M) flagConfig of
        (cfg, Some e) \<Rightarrow> throw e
      | (cfg, None) \<Rightarrow> RenderConfig (cm_lib M) (cm_console M) cfg flagFormat)"

text \<open>\<open>cmd.Printf\<close> writes to the error output and drops its errors.\<close>

definition version_lines :: "version_info \<Rightarrow> string list" where
  "version_lines info =
     [''version:     '' @ vi_Version info @ newline] @
     (if vi_Commit info \<noteq> []
      then [''commit:      '' @ vi_Commit info @ (if vi_Modified info then '' (modified)'' else []) @ newline] else []) @
     (if vi_CommitTime info \<noteq> [] then [''commit time: '' @ vi_CommitTime info @ newline] else []) @
     (if vi_GoVersion info \<noteq> [] then [''go version:  '' @ vi_GoVersion info @ newline] else [])"

definition runVersion :: "('w, 'o, 'f, 'r, 'a) command \<Rightarrow> ('w, unit) io" where
  "runVersion M = write_all (cm_console M) (version_lines (ReadVersionInfo (cm_build_info M) libver_Version))"

text \<open>The handler of the root command; \<open>help\<close> is \<open>cmd.Help\<close>.\<close>

definition root_RunE :: "('w, 'o, 'f, 'r, 'a) command \<Rightarrow> ('w, unit) io \<Rightarrow> bool \<Rightarrow> ('w, unit) io" where
  "root_RunE M help flagVersion = (if flagVersion then runVersion M else help)"

text \<open>Before every handler: the logger, with a warning for an environment that cannot be read.\<close>

definition root_PreRun ::
  "('w, 'o, 'f, 'r, 'a) command \<Rightarrow> log_config \<Rightarrow> string list \<Rightarrow> ('w, log_config \<times> log_handler) io" where
  "root_PreRun M logConfig environ =
     (case ReadEnv logConfig ''oci-image-copy'' environ of
        (logConfig, err) \<Rightarrow>
          ebind (case err of
                   None \<Rightarrow> ret ()
                 | Some e \<Rightarrow> ignore_err (tm_stderr (cm_console M) (''warning: '' @ cl_Error (cm_lib M) e @ newline)))
            (\<lambda>_. ret (logConfig, BuildLogger logConfig)))"

section \<open>main\<close>

text \<open>
  \<open>ctxErr\<close> is \<open>ctx.Err()\<close> and \<open>signal\<close> the \<open>*SignalReceivedError\<close> that is the cause of the cancellation.
\<close>

definition main_error :: "gerr option \<Rightarrow> gerr option \<Rightarrow> gerr option \<Rightarrow> gerr option" where
  "main_error err ctxErr signal =
     (case err of
        None \<Rightarrow> None
      | Some e \<Rightarrow>
          (case ctxErr of
             None \<Rightarrow> Some e
           | Some c \<Rightarrow> if err_Is e c then (case signal of Some s \<Rightarrow> Some s | None \<Rightarrow> Some e) else Some e))"

text \<open>The text on the error output and the exit status; \<open>reexec\<close> is what \<open>reexec.Init()\<close> returned.\<close>

definition main_exit ::
  "cli_lib \<Rightarrow> bool \<Rightarrow> gerr option \<Rightarrow> gerr option \<Rightarrow> gerr option \<Rightarrow> string list \<times> int" where
  "main_exit C reexec err ctxErr signal =
     (if reexec then ([], ExitOk)
      else case main_error err ctxErr signal of
        None \<Rightarrow> ([], ExitOk)
      | Some e \<Rightarrow> ([''error: '' @ cl_Error C e @ newline], ExitCode (Some e)))"

section \<open>Package templateutil\<close>

record func_doc =
  fd_Name :: string
  fd_Usage :: string
  fd_Desc :: string

definition FuncDocs :: "func_doc list" where
  "FuncDocs = [\<lparr>fd_Name = ''json'', fd_Usage = ''json VALUE'', fd_Desc = ''VALUE marshaled as indented JSON''\<rparr>]"

definition FuncHelp :: string where
  "FuncHelp =
     (let width = fold (\<lambda>d w. max w (length (fd_Usage d))) FuncDocs 0
      in concat (map (\<lambda>d. ''  '' @ fd_Usage d @ replicate (width - length (fd_Usage d)) CHR '' '' @ ''  '' @ fd_Desc d
           @ newline) FuncDocs))"

text \<open>\<open>marshal\<close> is \<open>json.MarshalIndent\<close> with the indentation of two spaces.\<close>

definition templateutil_Json :: "('v \<Rightarrow> gerr + bytes) \<Rightarrow> 'v \<Rightarrow> gerr + string" where
  "templateutil_Json marshal v = (case marshal v of Inl e \<Rightarrow> Inl e | Inr b \<Rightarrow> Inr b)"

definition FuncMap :: "('v \<Rightarrow> gerr + bytes) \<Rightarrow> string \<rightharpoonup> ('v \<Rightarrow> gerr + string)" where
  "FuncMap marshal = [''json'' \<mapsto> templateutil_Json marshal]"

text \<open>Every helper is documented, and what is documented is there.\<close>

lemma FuncDocs_exact: "fd_Name ` set FuncDocs = dom (FuncMap marshal)"
  by (simp add: FuncDocs_def FuncMap_def)

end
