(* ===== verification/Command_Tree.thy ===== *)
theory Command_Tree
  imports Commands
begin

text \<open>
  The commands of cmd/oci-image-copy as they are declared to cobra, with their flags and defaults, and the
  program from its command line to its exit status. What cobra and pflag make of a command line is the
  record \<open>cobra\<close>; of cobra's documented order the model uses that the flags are parsed first, then the
  number of arguments is checked, then \<open>PersistentPreRun\<close> and then \<open>RunE\<close> are called, and that nothing is
  printed for an error when \<open>SilenceErrors\<close> and \<open>SilenceUsage\<close> are set.
\<close>

section \<open>Declarations\<close>

datatype flag_value = FlagBool bool | FlagString string | FlagInt int | FlagStrings "string list"

text \<open>A flag with its default; a flag with \<open>None\<close> is one of \<open>loggerfactory\<close>, whose callback is called.\<close>

record flag =
  fg_Name :: string
  fg_Shorthand :: string
  fg_Default :: "flag_value option"

text \<open>The validators of cobra that the code names, and whether \<open>usageArgs\<close> is around them.\<close>

datatype positional = NoArgs | ExactArgs nat | MinimumNArgs nat

datatype args_check = PlainArgs positional | UsageArgs positional

datatype valid_args = FileCompletions | NoFileCompletions | CompleteWith "string list \<Rightarrow> string list \<times> completion_directive list"

text \<open>The values of the flags that were given; the others have their defaults.\<close>

type_synonym given = "string \<rightharpoonup> flag_value"

record 'w cobra_command =
  cc_Use :: string
  cc_Short :: string
  cc_Long :: string
  cc_Example :: string
  cc_Args :: args_check
  cc_ValidArgs :: valid_args
  cc_Flags :: "flag list"
  cc_FixedCompletions :: "(string \<times> string list) list"
  cc_RunE :: "given \<Rightarrow> string list \<Rightarrow> ('w, ended) io"

text \<open>What only the root command declares; \<open>rc_PersistentPreRun\<close> is called before the handler of any command.\<close>

record 'w root_command = "'w cobra_command" +
  rc_SilenceUsage :: bool
  rc_SilenceErrors :: bool
  rc_HiddenDefaultCmd :: bool
  rc_PersistentPreRun :: "log_config \<Rightarrow> string list \<Rightarrow> ('w, log_config \<times> log_handler) io"
  rc_PersistentFlags :: "flag list"
  rc_FlagErrorFunc :: "gerr option \<Rightarrow> gerr option"

definition flag_of :: "string \<Rightarrow> flag_value \<Rightarrow> flag" where
  "flag_of name v = \<lparr>fg_Name = name, fg_Shorthand = [], fg_Default = Some v\<rparr>"

text \<open>The variable a flag is bound to, after parsing.\<close>

definition flag_var :: "flag list \<Rightarrow> given \<Rightarrow> string \<Rightarrow> flag_value option" where
  "flag_var fs g name =
     (case List.find (\<lambda>f. fg_Name f = name) fs of
        None \<Rightarrow> None
      | Some f \<Rightarrow> (case g name of Some v \<Rightarrow> Some v | None \<Rightarrow> fg_Default f))"

definition bool_flag :: "flag list \<Rightarrow> given \<Rightarrow> string \<Rightarrow> bool" where
  "bool_flag fs g name = (flag_var fs g name = Some (FlagBool True))"

definition string_flag :: "flag list \<Rightarrow> given \<Rightarrow> string \<Rightarrow> string" where
  "string_flag fs g name = (case flag_var fs g name of Some (FlagString s) \<Rightarrow> s | _ \<Rightarrow> [])"

definition int_flag :: "flag list \<Rightarrow> given \<Rightarrow> string \<Rightarrow> int" where
  "int_flag fs g name = (case flag_var fs g name of Some (FlagInt i) \<Rightarrow> i | _ \<Rightarrow> 0)"

definition strings_flag :: "flag list \<Rightarrow> given \<Rightarrow> string \<Rightarrow> string list" where
  "strings_flag fs g name = (case flag_var fs g name of Some (FlagStrings ss) \<Rightarrow> ss | _ \<Rightarrow> [])"

section \<open>Texts\<close>

definition text_lines :: "string list \<Rightarrow> string" where
  "text_lines ls = concat (map (\<lambda>l. l @ newline) (butlast ls)) @ last ls"

definition quote :: string where "quote = [CHR 0x27]"
definition box_tee :: string where "box_tee = [CHR 0xE2, CHR 0x94, CHR 0x9C]"
definition box_corner :: string where "box_corner = [CHR 0xE2, CHR 0x94, CHR 0x94]"
definition box_line :: string where "box_line = [CHR 0xE2, CHR 0x94, CHR 0x80]"

definition copyLong :: string where
  "copyLong = text_lines
     [''copy moves images between an image store and containers-storage (podman'' @ quote @ ''s'',
      ''local image store), in either direction.'',
      [],
      ''SRC and DST are locations:'',
      [],
      ''  store:/path                   a store directory on the local filesystem'',
      ''  store:s3://bucket/prefix      a store in an S3 bucket (AWS default credentials)'',
      ''  store:https://host/base       a read-only store served over HTTP(S)'',
      ''  containers-storage:           the local containers-storage, as podman sees it'',
      [],
      ''One of SRC and DST must be containers-storage:.'',
      [],
      ''Images are references such as docker.io/library/ubuntu:26.04 or'',
      ''example.com/app@sha256:<digest>, given as arguments and/or in --set files'',
      ''holding {\"images\": [...]}. Both combine; duplicates are dropped.'',
      [],
      ''copy plans first and transfers only what the destination lacks. Copying into'',
      ''containers-storage skips layers the host already has and resumes interrupted'',
      ''downloads from the blob cache; an image missing from the store is pulled from'',
      ''its registry and kept in the store when the store is writable. Copying into a'',
      ''store keeps the original compressed layers when they are reachable and'',
      ''compresses the others with zstd.'',
      [],
      ''Exit status is 0 when every entry succeeded, 1 for a usage error, and 2 when'',
      ''any entry or the copy as a whole failed.'']"

definition copyExample :: string where
  "copyExample = text_lines
     [''  oci-image-copy copy containers-storage: store:/srv/images ubuntu:26.04 app:1'',
      ''  oci-image-copy copy store:s3://bucket/images containers-storage: --set set.json'',
      ''  oci-image-copy copy store:https://mirror/images containers-storage: --set set.json --dry-run'']"

definition listExample :: string where
  "listExample = text_lines
     [''  oci-image-copy list store:/srv/images'',
      ''  oci-image-copy list store:s3://bucket/images --repository docker.io/library/ubuntu --json'']"

text \<open>\<open>configLongFmt\<close> up to its verb, which the help of the template functions replaces.\<close>

definition configLongFmt :: string where
  "configLongFmt = text_lines
     [''config loads every layer (defaults < file < environment) and prints the'',
      ''fully-resolved configuration. With no flags it prints indented JSON; with'',
      ''--format it renders a Go text/template against the config value instead.'',
      [],
      ''The default file is $XDG_CONFIG_HOME/oci-image-copy/config.json; --config or'',
      ''OCI_IMAGE_COPY_CONF names another. Every field is also settable through an'',
      ''OCI_IMAGE_COPY_ environment variable named after its key, e.g.'',
      ''OCI_IMAGE_COPY_CONCURRENCY or OCI_IMAGE_COPY_S3_ENDPOINT.'',
      [],
      ''The value passed to --format has this shape (Go field name, type, JSON key):'',
      [],
      ''  Config'',
      ''  '' @ box_tee @ box_line @ '' .CacheDir          string    # downloaded blob cache        (cache_dir)'',
      ''  '' @ box_tee @ box_line @ '' .Registries        []string  # pull fallback mirrors        (registries)'',
      ''  '' @ box_tee @ box_line @ '' .CompressionLevel  string    # fastest|default|better|best  (compression_level)'',
      ''  '' @ box_tee @ box_line @ '' .Concurrency       int       # parallel blob transfers      (concurrency)'',
      ''  '' @ box_corner @ box_line @ '' .S3                          # S3-compatible server         (s3)'',
      ''      '' @ box_tee @ box_line @ '' .Endpoint      string    #   endpoint URL               (s3.endpoint)'',
      ''      '' @ box_tee @ box_line @ '' .Region        string    #   region override            (s3.region)'',
      ''      '' @ box_corner @ box_line @ '' .UsePathStyle  bool      #   path-style addressing      (s3.use_path_style)'',
      [],
      ''Use the Go field names in --format (e.g. {{.CacheDir}}, or {{.S3.Endpoint}});'',
      ''the default JSON output uses the lower-case keys shown in parentheses. The'',
      ''template also sees these helper functions:'',
      [],
      []]"

definition configExample :: string where
  "configExample = text_lines
     [''  oci-image-copy config'',
      ''  oci-image-copy config --format '' @ quote @ ''{{.CacheDir}}'' @ quote,
      ''  oci-image-copy config --format '' @ quote @ ''{{ json .S3 }}'' @ quote]"

definition TemplateFuncHelp :: string where "TemplateFuncHelp = FuncHelp"

section \<open>The commands\<close>

text \<open>The persistent flags of the root command: those of \<open>loggerfactory\<close> and \<open>--config\<close>.\<close>

definition log_flags :: "flag list" where
  "log_flags =
     [\<lparr>fg_Name = ''log'', fg_Shorthand = [], fg_Default = None\<rparr>,
      \<lparr>fg_Name = ''log-level'', fg_Shorthand = [], fg_Default = None\<rparr>]"

definition root_flags :: "flag list" where
  "root_flags = log_flags @ [flag_of ''config'' (FlagString [])]"

abbreviation config_flag :: "given \<Rightarrow> string" where
  "config_flag g \<equiv> string_flag root_flags g ''config''"

definition versionCmd :: "('w, 'o, 'f, 'r, 'a) command \<Rightarrow> 'w cobra_command" where
  "versionCmd M =
     \<lparr>cc_Use = ''version'', cc_Short = ''Print version information'', cc_Long = [], cc_Example = [],
      cc_Args = PlainArgs NoArgs, cc_ValidArgs = FileCompletions, cc_Flags = [], cc_FixedCompletions = [],
      cc_RunE = (\<lambda>g args. ebind (runVersion M) (\<lambda>_. ret Finished))\<rparr>"

definition config_flags :: "flag list" where
  "config_flags = [\<lparr>fg_Name = ''format'', fg_Shorthand = ''f'', fg_Default = Some (FlagString [])\<rparr>]"

definition configCmd :: "('w, 'o, 'f, 'r, 'a) command \<Rightarrow> 'w cobra_command" where
  "configCmd M =
     \<lparr>cc_Use = ''config'', cc_Short = ''Print the resolved configuration'',
      cc_Long = configLongFmt @ TemplateFuncHelp, cc_Example = configExample,
      cc_Args = PlainArgs NoArgs, cc_ValidArgs = NoFileCompletions, cc_Flags = config_flags, cc_FixedCompletions = [],
      cc_RunE = (\<lambda>g args.
        ebind (runConfig M (config_flag g) (string_flag config_flags g ''format'')) (\<lambda>_. ret Finished))\<rparr>"

definition copy_flag_list :: "flag list" where
  "copy_flag_list =
     [flag_of ''set'' (FlagStrings []), flag_of ''platform'' (FlagStrings []), flag_of ''dry-run'' (FlagBool False),
      \<lparr>fg_Name = ''quiet'', fg_Shorthand = ''q'', fg_Default = Some (FlagBool False)\<rparr>,
      flag_of ''json'' (FlagBool False), flag_of ''compression-level'' (FlagString ''best''),
      flag_of ''concurrency'' (FlagInt 4)]"

definition copy_flags_of :: "given \<Rightarrow> copy_flags" where
  "copy_flags_of g =
     \<lparr>fl_sets = strings_flag copy_flag_list g ''set'', fl_platforms = strings_flag copy_flag_list g ''platform'',
      fl_dryRun = bool_flag copy_flag_list g ''dry-run'', fl_quiet = bool_flag copy_flag_list g ''quiet'',
      fl_json = bool_flag copy_flag_list g ''json'',
      fl_compressionLevel = string_flag copy_flag_list g ''compression-level'',
      fl_concurrency = int_flag copy_flag_list g ''concurrency''\<rparr>"

definition copyCmd :: "('w, 'o, 'f, 'r, 'a) command \<Rightarrow> 'w cobra_command" where
  "copyCmd M =
     \<lparr>cc_Use = ''copy SRC DST [IMAGE...]'', cc_Short = ''Copy images between an image store and containers-storage'',
      cc_Long = copyLong, cc_Example = copyExample,
      cc_Args = UsageArgs (MinimumNArgs 2), cc_ValidArgs = CompleteWith completeLocation, cc_Flags = copy_flag_list,
      cc_FixedCompletions = [(''compression-level'', [''fastest'', ''default'', ''better'', ''best''])],
      cc_RunE = (\<lambda>g args. runCopy M args (config_flag g) (\<lambda>name. g name \<noteq> None) (copy_flags_of g))\<rparr>"

definition list_flags :: "flag list" where
  "list_flags = [flag_of ''repository'' (FlagString []), flag_of ''json'' (FlagBool False)]"

definition listCmd :: "('w, 'o, 'f, 'r, 'a) command \<Rightarrow> 'w cobra_command" where
  "listCmd M =
     \<lparr>cc_Use = ''list STORE'', cc_Short = ''List the images and platforms in a filesystem or S3 store'',
      cc_Long = text_lines
       [''list prints one line per image and platform in STORE: the reference, the'',
      ''platform and the manifest digest. STORE is store:/path or store:s3://bucket/prefix;'',
      ''HTTP(S) stores cannot be listed.''],
      cc_Example = listExample,
      cc_Args = UsageArgs (ExactArgs 1), cc_ValidArgs = CompleteWith completeLocation, cc_Flags = list_flags,
      cc_FixedCompletions = [],
      cc_RunE = (\<lambda>g args.
        ebind (runList M args (config_flag g) (string_flag list_flags g ''repository'') (bool_flag list_flags g ''json''))
          (\<lambda>_. ret Finished))\<rparr>"

definition runRoot :: "('w, unit) io \<Rightarrow> ('w, unit) io" where "runRoot help = help"

definition root_local_flags :: "flag list" where
  "root_local_flags = [flag_of ''version'' (FlagBool False)]"

text \<open>The root command, with its children in the order they are added.\<close>

definition rootCmd ::
  "('w, 'o, 'f, 'r, 'a) command \<Rightarrow> ('w, unit) io \<Rightarrow> 'w root_command \<times> 'w cobra_command list" where
  "rootCmd M help =
     (\<lparr>cc_Use = ''oci-image-copy'', cc_Short = ''Copy image sets between an image store and containers-storage.'',
       cc_Long = [], cc_Example = [], cc_Args = UsageArgs NoArgs, cc_ValidArgs = FileCompletions,
       cc_Flags = root_local_flags, cc_FixedCompletions = [],
       cc_RunE = (\<lambda>g args.
         ebind (root_RunE M (runRoot help) (bool_flag root_local_flags g ''version'')) (\<lambda>_. ret Finished)),
       rc_SilenceUsage = True, rc_SilenceErrors = True, rc_HiddenDefaultCmd = True,
       rc_PersistentPreRun = root_PreRun M, rc_PersistentFlags = root_flags, rc_FlagErrorFunc = usageFlagError\<rparr>,
      [versionCmd M, configCmd M, copyCmd M, listCmd M])"

section \<open>Execute\<close>

text \<open>
  What cobra and pflag make of a command line. \<open>BuiltIn\<close> is a command of cobra itself, the help or the
  completion. Otherwise it is a command of the tree, \<open>None\<close> for the root, with the values of \<open>--log\<close> and
  \<open>--log-level\<close> in their order up to the first flag that cannot be parsed, that flag's error, the flags
  that were given, and the arguments. \<open>cb_FlagError\<close> is pflag's error around that of a callback.
\<close>

datatype 'w invocation =
  BuiltIn "('w, unit) io"
| Invoke "nat option" "log_arg list" "gerr option" given "string list"

record 'w cobra =
  cb_Help :: "('w, unit) io"
  cb_Parse :: "'w root_command \<Rightarrow> 'w cobra_command list \<Rightarrow> string list \<Rightarrow> 'w invocation"
  cb_Args :: "positional \<Rightarrow> string list \<Rightarrow> gerr option"
  cb_FlagError :: "gerr \<Rightarrow> gerr"

definition check_args :: "'w cobra \<Rightarrow> args_check \<Rightarrow> string list \<Rightarrow> gerr option" where
  "check_args C a args =
     (case a of PlainArgs p \<Rightarrow> cb_Args C p args | UsageArgs p \<Rightarrow> usageArgs (cb_Args C p) args)"

definition command_of :: "'w root_command \<times> 'w cobra_command list \<Rightarrow> nat option \<Rightarrow> 'w cobra_command" where
  "command_of t i = (case i of None \<Rightarrow> cobra_command.truncate (fst t) | Some k \<Rightarrow> snd t ! k)"

text \<open>\<open>environ\<close> is \<open>os.Environ()\<close>.\<close>

definition Execute ::
  "('w, 'o, 'f, 'r, 'a) command \<Rightarrow> 'w cobra \<Rightarrow> string list \<Rightarrow> string list \<Rightarrow> ('w, ended) io" where
  "Execute M C environ argv =
     (let t = rootCmd M (cb_Help C) in
      case cb_Parse C (fst t) (snd t) argv of
        BuiltIn m \<Rightarrow> ebind m (\<lambda>_. ret Finished)
      | Invoke i logs ferr g args \<Rightarrow>
          (case parse_log_args logs (fst RegisterFlags) of
             (logConfig, Some e) \<Rightarrow> ebind (raise_opt (rc_FlagErrorFunc (fst t) (Some (cb_FlagError C e)))) (\<lambda>_. ret Finished)
           | (logConfig, None) \<Rightarrow>
               ebind (raise_opt (rc_FlagErrorFunc (fst t) ferr)) (\<lambda>_.
               ebind (raise_opt (check_args C (cc_Args (command_of t i)) args)) (\<lambda>_.
               ebind (rc_PersistentPreRun (fst t) logConfig environ) (\<lambda>_.
                 cc_RunE (command_of t i) g args)))))"

section \<open>The program\<close>

text \<open>
  \<open>main\<close>: the exit status, or \<open>None\<close> where the process has been replaced by its child in a user namespace.
  \<open>pr_reexec\<close> is what \<open>reexec.Init()\<close> returns, \<open>pr_ctxErr\<close> and \<open>pr_signal\<close> the context's error and the signal
  that caused it when \<open>Execute\<close> has returned. A panic ends a Go program with the status 2.
\<close>

record 'w process =
  pr_reexec :: bool
  pr_environ :: "string list"
  pr_argv :: "string list"
  pr_ctxErr :: "'w \<Rightarrow> gerr option"
  pr_signal :: "'w \<Rightarrow> gerr option"

text \<open>The world after writing to the error output, whether that fails or not.\<close>

definition printed :: "('w, 'o, 'f, 'r, 'a) command \<Rightarrow> string list \<Rightarrow> 'w \<Rightarrow> 'w" where
  "printed M ts w = snd (ignore_err (for_each (tm_stderr (cm_console M)) ts) w)"

definition program_exit ::
  "('w, 'o, 'f, 'r, 'a) command \<Rightarrow> 'w process \<Rightarrow> gerr option \<Rightarrow> 'w \<Rightarrow> int option \<times> 'w" where
  "program_exit M P err w =
     (case main_exit (cm_lib M) (pr_reexec P) err (pr_ctxErr P w) (pr_signal P w) of (texts, status) \<Rightarrow>
        (Some status, printed M texts w))"

definition program ::
  "('w, 'o, 'f, 'r, 'a) command \<Rightarrow> 'w cobra \<Rightarrow> 'w process \<Rightarrow> 'w \<Rightarrow> int option \<times> 'w" where
  "program M C P w =
     (if pr_reexec P then program_exit M P None w
      else case Execute M C (pr_environ P) (pr_argv P) w of
        (Ok Finished, w') \<Rightarrow> program_exit M P None w'
      | (Ok Replaced, w') \<Rightarrow> (None, w')
      | (Err e, w') \<Rightarrow> program_exit M P (Some e) w'
      | (Panic, w') \<Rightarrow> (Some 2, w'))"

section \<open>Facts\<close>

text \<open>What is documented of cobra: when its validators accept, that their errors are plain, and which commands there are.\<close>

definition cobra_laws :: "'w cobra \<Rightarrow> bool" where
  "cobra_laws C \<longleftrightarrow>
     (\<forall>args. cb_Args C NoArgs args = None \<longleftrightarrow> args = []) \<and>
     (\<forall>n args. cb_Args C (ExactArgs n) args = None \<longleftrightarrow> length args = n) \<and>
     (\<forall>n args. cb_Args C (MinimumNArgs n) args = None \<longleftrightarrow> n \<le> length args) \<and>
     (\<forall>p args e. cb_Args C p args = Some e \<longrightarrow> ExitCode (Some e) = ExitFailure) \<and>
     (\<forall>root subs argv k logs ferr g args. cb_Parse C root subs argv = Invoke (Some k) logs ferr g args \<longrightarrow> k < length subs)"

text \<open>The number of arguments that a command takes.\<close>

definition args_fit :: "nat option \<Rightarrow> string list \<Rightarrow> bool" where
  "args_fit i args \<longleftrightarrow>
     (case i of None \<Rightarrow> args = []
      | Some k \<Rightarrow> if k < 2 then args = [] else if k = 2 then 2 \<le> length args else length args = 1)"

lemma printed_Nil [simp]: "printed M [] w = w"
  by (simp add: printed_def ignore_err_def ebind_def attempt_def ret_def)

text \<open>A write to the error output returns.\<close>

definition stderr_returns :: "('w, 'o, 'f, 'r, 'a) command \<Rightarrow> bool" where
  "stderr_returns M \<longleftrightarrow> (\<forall>s w. fst (tm_stderr (cm_console M) s w) \<noteq> Panic)"

lemma PreRun_run:
  assumes "stderr_returns M"
  shows "\<exists>x us. root_PreRun M c environ w = (Ok x, printed M us w)"
proof -
  obtain c' err where env: "ReadEnv c ''oci-image-copy'' environ = (c', err)" by fastforce
  show ?thesis
  proof (cases err)
    case None
    with env show ?thesis by (intro exI [of _ "(c', BuildLogger c')"] exI [of _ "[]"]) (simp add: root_PreRun_def ret_def)
  next
    case (Some e)
    let ?t = "''warning: '' @ cl_Error (cm_lib M) e @ newline"
    obtain r v where r: "tm_stderr (cm_console M) ?t w = (r, v)" "r \<noteq> Panic"
      using assms [unfolded stderr_returns_def, THEN spec, THEN spec, of ?t w]
      by (cases "tm_stderr (cm_console M) ?t w") auto
    with env Some show ?thesis
      by (intro exI [of _ "(c', BuildLogger c')"] exI [of _ "[?t]"], cases r)
        (simp_all add: root_PreRun_def printed_def ignore_err_def ebind_def attempt_def ret_def)
  qed
qed

lemma usage_args_iff:
  "usageArgs f a = None \<longleftrightarrow> f a = None" "usageArgs f a = Some e \<Longrightarrow> ExitCode (Some e) = 1"
  "usageFlagError ferr = None \<longleftrightarrow> ferr = None" "usageFlagError ferr = Some e \<Longrightarrow> ExitCode (Some e) = 1"
  by (auto simp: usageArgs_def usageFlagError_def Usage_def ExitCode_def ExitUsage_def split: option.splits)

lemma command_cases:
  fixes i :: "nat option"
  assumes "case i of None \<Rightarrow> True | Some k \<Rightarrow> k < 4"
  obtains "i = None" | "i = Some 0" | "i = Some 1" | "i = Some 2" | "i = Some 3"
proof (cases i)
  case (Some k)
  with assms have "k = 0 \<or> k = 1 \<or> k = 2 \<or> k = 3" by auto
  with Some that show thesis by blast
qed (use that in blast)

lemma command_fields:
  "cc_Args (command_of (rootCmd M help) None) = UsageArgs NoArgs"
  "cc_Args (command_of (rootCmd M help) (Some 0)) = PlainArgs NoArgs"
  "cc_Args (command_of (rootCmd M help) (Some 1)) = PlainArgs NoArgs"
  "cc_Args (command_of (rootCmd M help) (Some 2)) = UsageArgs (MinimumNArgs 2)"
  "cc_Args (command_of (rootCmd M help) (Some 3)) = UsageArgs (ExactArgs 1)"
  "cc_RunE (command_of (rootCmd M help) (Some 2)) g args =
     runCopy M args (config_flag g) (\<lambda>name. g name \<noteq> None) (copy_flags_of g)"
  by (simp_all add: command_of_def rootCmd_def versionCmd_def configCmd_def copyCmd_def listCmd_def
      cobra_command.truncate_def)

lemma handler_fields:
  "cc_RunE (command_of (rootCmd M help) (Some 1)) g args =
     ebind (runConfig M (config_flag g) (string_flag config_flags g ''format'')) (\<lambda>_. ret Finished)"
  "cc_RunE (command_of (rootCmd M help) (Some 3)) g args =
     ebind (runList M args (config_flag g) (string_flag list_flags g ''repository'') (bool_flag list_flags g ''json''))
       (\<lambda>_. ret Finished)"
  by (simp_all add: command_of_def rootCmd_def configCmd_def listCmd_def cobra_command.truncate_def)

lemma check_args_fit:
  assumes "cobra_laws C" "case i of None \<Rightarrow> True | Some k \<Rightarrow> k < 4"
  shows "check_args C (cc_Args (command_of (rootCmd M help) i)) args = None \<longleftrightarrow> args_fit i args"
    "check_args C (cc_Args (command_of (rootCmd M help) i)) args = Some e \<Longrightarrow>
      ExitCode (Some e) = (if i = Some 0 \<or> i = Some 1 then 2 else 1)"
proof -
  note laws = assms(1) [unfolded cobra_laws_def]
  show "check_args C (cc_Args (command_of (rootCmd M help) i)) args = None \<longleftrightarrow> args_fit i args"
    using command_cases [OF assms(2)] laws
    by cases (simp_all add: command_fields [unfolded One_nat_def] check_args_def args_fit_def usage_args_iff(1))
  show "ExitCode (Some e) = (if i = Some 0 \<or> i = Some 1 then 2 else 1)"
    if "check_args C (cc_Args (command_of (rootCmd M help) i)) args = Some e"
    using command_cases [OF assms(2)] that conjunct1 [OF conjunct2 [OF conjunct2 [OF conjunct2 [OF laws]]]]
    by cases (auto simp: command_fields [unfolded One_nat_def] check_args_def ExitFailure_def intro: usage_args_iff(2))
qed

text \<open>The stages of a command line: its own errors, and otherwise the handler after the logger is set up.\<close>

lemma Execute_stages:
  assumes laws: "cobra_laws C" and stderr: "stderr_returns M"
    and parsed: "cb_Parse C (fst (rootCmd M (cb_Help C))) (snd (rootCmd M (cb_Help C))) argv = Invoke i logs ferr g args"
  obtains (Refused) e where "Execute M C environ argv w = (Err e, w)"
      "ExitCode (Some e) = (if snd (parse_log_args logs (fst RegisterFlags)) = None \<and> ferr = None \<and>
         (i = Some 0 \<or> i = Some 1) then 2 else 1)"
      "\<not> (snd (parse_log_args logs (fst RegisterFlags)) = None \<and> ferr = None \<and> args_fit i args)"
  | (Handled) us where
      "Execute M C environ argv w = cc_RunE (command_of (rootCmd M (cb_Help C)) i) g args (printed M us w)"
      "snd (parse_log_args logs (fst RegisterFlags)) = None" "ferr = None" "args_fit i args"
proof -
  let ?t = "rootCmd M (cb_Help C)"
  obtain c lerr where logs: "parse_log_args logs (fst RegisterFlags) = (c, lerr)" by fastforce
  have i: "case i of None \<Rightarrow> True | Some k \<Rightarrow> k < 4"
  proof (cases i)
    case (Some k)
    with laws parsed have "k < length (snd ?t)" unfolding cobra_laws_def by blast
    with Some show ?thesis by (simp add: rootCmd_def)
  qed simp
  have fields: "rc_FlagErrorFunc (fst ?t) = usageFlagError" "rc_PersistentPreRun (fst ?t) = root_PreRun M"
    by (simp_all add: rootCmd_def)
  note run = Execute_def [of M C environ argv, unfolded Let_def parsed invocation.case logs prod.case fields]
  show ?thesis
  proof (cases lerr)
    case (Some e)
    obtain e' where e': "usageFlagError (Some (cb_FlagError C e)) = Some e'"
      using usage_args_iff(3) [of "Some (cb_FlagError C e)"] by blast
    with run Some have "Execute M C environ argv w = (Err e', w)" by (simp add: raise_opt_def throw_def ebind_def)
    from Refused [OF this] usage_args_iff(4) [OF e'] logs Some show ?thesis by simp
  next
    case lnone: None
    show ?thesis
    proof (cases ferr)
      case (Some e)
      obtain e' where e': "usageFlagError ferr = Some e'" using usage_args_iff(3) [of ferr] Some by blast
      with run lnone have "Execute M C environ argv w = (Err e', w)" by (simp add: raise_opt_def throw_def ebind_def)
      from Refused [OF this] usage_args_iff(4) [OF e'] logs lnone Some show ?thesis by simp
    next
      case fnone: None
      then have fe: "usageFlagError ferr = None" by (simp add: usage_args_iff(3))
      show ?thesis
      proof (cases "check_args C (cc_Args (command_of ?t i)) args")
        case (Some e)
        with run lnone fe have "Execute M C environ argv w = (Err e, w)"
          by (simp add: raise_opt_def throw_def ret_def ebind_def)
        moreover note check_args_fit [OF laws i, of M "cb_Help C" args]
        ultimately show ?thesis using Some logs lnone fnone by (intro Refused) simp_all
      next
        case None
        from PreRun_run [where c = c and environ = environ and w = w, OF stderr] obtain x us where
          pre: "root_PreRun M c environ w = (Ok x, printed M us w)" by blast
        with run lnone fe None have "Execute M C environ argv w = cc_RunE (command_of ?t i) g args (printed M us w)"
          by (simp add: raise_opt_def ret_def ebind_def)
        moreover note check_args_fit(1) [OF laws i, of M "cb_Help C" args]
        ultimately show ?thesis using None logs lnone fnone by (intro Handled) simp_all
      qed
    qed
  qed
qed

lemma program_result:
  assumes "\<not> pr_reexec P" "pr_ctxErr P = (\<lambda>_. None)"
  shows "Execute M C (pr_environ P) (pr_argv P) w = (Err e, u) \<Longrightarrow>
      \<exists>t. program M C P w = (Some (ExitCode (Some e)), printed M [t] u)"
    "Execute M C (pr_environ P) (pr_argv P) w = (Ok Replaced, u) \<Longrightarrow> program M C P w = (None, u)"
  using assms by (auto simp: program_def program_exit_def main_exit_def main_error_def)

lemma program_zero:
  assumes "\<not> pr_reexec P" "program M C P w = (Some 0, w')"
  shows "\<exists>u. Execute M C (pr_environ P) (pr_argv P) w = (Ok Finished, u)"
proof -
  obtain r u where run: "Execute M C (pr_environ P) (pr_argv P) w = (r, u)" by fastforce
  show ?thesis
  proof (cases r)
    case (Ok x)
    with run assms show ?thesis by (cases x) (auto simp: program_def)
  next
    case (Err e)
    have "main_error (Some e) c s \<noteq> None" for c s by (auto simp: main_error_def split: option.splits)
    then obtain e' where "main_error (Some e) (pr_ctxErr P u) (pr_signal P u) = Some e'" by blast
    with run assms Err show ?thesis by (auto simp: program_def program_exit_def main_exit_def)
  next
    case Panic
    with run assms show ?thesis by (simp add: program_def)
  qed
qed

end
