(* ===== verification/Cli_Facts.thy ===== *)
theory Cli_Facts
  imports Cli Imagecopy_Facts
begin

text \<open>
  Facts about package cli: when \<open>Copy\<close> returns without an error, and which errors it blames on the copy as
  a whole.
\<close>

section \<open>The returned error\<close>

lemma cli_whole_None: "cli_whole err res = None \<Longrightarrow> failed_count res = 0 \<Longrightarrow> err = None"
  by (auto simp: cli_whole_def split: option.splits)

lemma cli_return_Ok:
  "cli_return T (cli_whole err res) res w = (Ok (), w') \<Longrightarrow>
     err = None \<and> failed_count res = 0 \<and> tm_err T w' = None"
  by (auto simp: cli_return_def raise_opt_Ok errors_Join_None counted_def dest: cli_whole_None split: if_splits)

lemma cli_results_Ok:
  assumes "cli_results C E T out src dst dry (res, err) w = (Ok (), w')"
  shows "err = None \<and> (out \<noteq> OutputQuiet \<longrightarrow> failed_count res = 0 \<and> tm_err T w' = None)"
proof -
  from assms have no_usage: "\<not> (case err of None \<Rightarrow> False | Some e \<Rightarrow> IsUsage e)"
    by (auto simp: cli_results_def Let_def raise_opt_def split: option.splits)
  note run = assms [unfolded cli_results_def prod.case Let_def if_not_P [OF no_usage]]
  show ?thesis
  proof (cases out)
    case OutputQuiet
    with run show ?thesis by (simp add: raise_opt_Ok)
  next
    case OutputJson
    from run [unfolded OutputJson out_mode.case] show ?thesis
    proof (cases rule: ebind_attemptE)
      case (Val x w1)
      then show ?thesis by (auto dest: cli_return_Ok)
    next
      case (Fail e w1)
      then show ?thesis by (simp add: raise_opt_Ok errors_Join_None)
    qed simp
  next
    case OutputText
    from run [unfolded OutputText out_mode.case] show ?thesis
      by (auto simp: ebind_Ok dest: cli_return_Ok)
  qed
qed

lemma failed_none: "failed_count res = 0 \<longleftrightarrow> (\<forall>er \<in> set (rs_Entries res). er_Err er = None)"
  by (simp add: failed_count_def filter_empty_conv)

lemma outside_run: "outside m sw = (r, sw') \<longleftrightarrow> (\<exists>w'. m (snd sw) = (r, w') \<and> sw' = (fst sw, w'))"
  by (auto simp: outside_def split: prod.splits)

text \<open>What the command does to the terminal before \<open>Copy\<close> is called.\<close>

definition cli_begins :: "'w console \<Rightarrow> out_mode \<Rightarrow> ('w, unit) io" where
  "cli_begins T out = ebind (errWriter_new T) (\<lambda>_. if out = OutputText then progress_start T else ret ())"

lemma cli_Copy_Ok:
  assumes "cli_Copy H C T ctx_Err uploads out src dst images opt (svc, w) = (Ok (), sw')"
  obtains res u sw2 where "cli_begins T out w = (Ok (), u)"
    "service_Copy H ctx_Err uploads src dst images (copy_callbacks C T out opt) (svc, u) = (Ok (res, None), sw2)"
    "out \<noteq> OutputQuiet \<Longrightarrow> failed_count res = 0 \<and> tm_err T (snd sw') = None"
proof -
  from assms obtain r w0 u sw2 sw3 where begins: "errWriter_new T w = (Ok (), w0)"
      "(if out = OutputText then outside (progress_start T) else ret ()) (svc, w0) = (Ok (), (svc, u))"
    and run: "service_Copy H ctx_Err uploads src dst images (copy_callbacks C T out opt) (svc, u) = (Ok r, sw2)"
    and res: "outside (cli_results C (ho_url H) T out src dst (co_DryRun opt) r) sw3 = (Ok (), sw')"
    unfolding cli_Copy_def by (cases "out = OutputText") (auto simp: ebind_Ok outside_Ok ret_run)
  from begins have start: "cli_begins T out w = (Ok (), u)"
    by (cases "out = OutputText") (auto simp: cli_begins_def ebind_def outside_Ok ret_def)
  obtain x err where r: "r = (x, err)" by fastforce
  from res r cli_results_Ok [of C "ho_url H" T out src dst "co_DryRun opt" x err "snd sw3"]
  have "err = None" "out \<noteq> OutputQuiet \<Longrightarrow> failed_count x = 0 \<and> tm_err T (snd sw') = None"
    by (auto simp: outside_run)
  with that start run r show ?thesis by simp
qed

section \<open>Whose failure an error is\<close>

text \<open>The errors shown in the rows.\<close>

definition row_leaves :: "'w result \<Rightarrow> gerr set" where
  "row_leaves res = (\<Union>er \<in> set (rs_Entries res). set (flatten (er_Err er)))"

lemma row_leaves_iff:
  "y \<in> row_leaves res \<longleftrightarrow> (\<exists>er \<in> set (rs_Entries res). \<exists>x. er_Err er = Some x \<and> y \<in> set (flatten_err x))"
proof -
  have "y \<in> set (flatten o') \<longleftrightarrow> (\<exists>x. o' = Some x \<and> y \<in> set (flatten_err x))" for o'
    by (cases o') (simp_all add: flatten_def)
  then show ?thesis by (simp add: row_leaves_def)
qed

text \<open>No failure of an entry inside the failure of another.\<close>

definition entry_flat :: "gerr \<Rightarrow> bool" where
  "entry_flat e \<longleftrightarrow> (case as_entry e of None \<Rightarrow> True | Some (r, p, e0) \<Rightarrow> as_entry e0 = None)"

lemma fold_first_None:
  "fold (\<lambda>x acc. case acc of Some y \<Rightarrow> Some y | None \<Rightarrow> x) xs (None :: 'a option) = None \<longleftrightarrow> set xs \<subseteq> {None}"
proof -
  have some: "fold (\<lambda>x acc. case acc of Some y \<Rightarrow> Some y | None \<Rightarrow> x) ys (Some (y :: 'a)) = Some y" for y ys
    by (induction ys) simp_all
  show ?thesis
  proof (induction xs)
    case (Cons x xs)
    then show ?case by (cases x) (simp_all add: some)
  qed simp
qed

lemma err_Is_entry: "as_entry e = None \<Longrightarrow> err_Is e t \<Longrightarrow> as_entry t = None"
  by (induction e t rule: err_Is.induct) (auto simp: fold_first_None list_ex_iff image_subset_iff)

definition rows_ok :: "entry_result list \<Rightarrow> bool" where
  "rows_ok rows \<longleftrightarrow> (\<forall>er \<in> set rows. case er_Err er of None \<Rightarrow> True
     | Some x \<Rightarrow> (\<exists>es. x = Joined es) \<and> as_entry x \<noteq> None \<and>
         (\<forall>y \<in> set (flatten_err x). entry_key y = Some (er_Ref er, er_Platform er)))"

definition rest_ok :: "(reference \<times> platform) set \<Rightarrow> gerr list \<Rightarrow> bool" where
  "rest_ok keys rest \<longleftrightarrow> (\<forall>e \<in> set rest. flatten_err e = [e] \<and>
     (as_entry e = None \<or> (\<exists>r p e0. e = EntryError r p e0 \<and> (r, p) \<notin> keys \<and> as_entry e0 = None)))"

lemma rows_ok_join:
  assumes "rows_ok rows" "join_row r p (EntryError r p e0) rows = Some rows'"
  shows "rows_ok rows'"
  using assms
proof (induction rows arbitrary: rows')
  case (Cons er rows)
  show ?case
  proof (cases "er_Ref er = r \<and> er_Platform er = p")
    case True
    with Cons.prems have "rows' = er\<lparr>er_Err := errors_Join [er_Err er, Some (EntryError r p e0)]\<rparr> # rows" by simp
    with True Cons.prems(1) show ?thesis
      by (cases "er_Err er") (auto simp: rows_ok_def errors_Join_def List.map_filter_simps fold_first_None)
  next
    case False
    with Cons.prems obtain rows1 where "join_row r p (EntryError r p e0) rows = Some rows1" "rows' = er # rows1" by auto
    with Cons show ?thesis by (simp add: rows_ok_def)
  qed
qed simp

lemma record_all_ok:
  assumes "rows_ok rows" "rest_ok (set (row_keys rows)) rest" "\<forall>e \<in> set es. flatten_err e = [e] \<and> entry_flat e"
    and "record_all es (rows, rest) = (rows', rest')"
  shows "rows_ok rows' \<and> rest_ok (set (row_keys rows')) rest'"
  using assms
proof (induction es arbitrary: rows rest)
  case (Cons e es)
  from Cons.prems(4) have run: "record_all es (record_one e (rows, rest)) = (rows', rest')"
    by (simp only: record_all_Cons)
  show ?case
  proof (cases rule: record_one_cases [of e rows rest])
    case (Rest e')
    have "rest_ok (set (row_keys rows)) (rest @ [e'])"
      using Rest(2) Cons.prems(2,3) by (auto simp: rest_ok_def entry_flat_def)
    with Cons.IH [OF Cons.prems(1)] Cons.prems(3) run Rest(1) show ?thesis by simp
  next
    case (Row r p e0 rows1)
    with Cons.IH [OF rows_ok_join [OF Cons.prems(1) Row(3)]] Cons.prems(2,3) run join_row_keys [OF Row(3)]
    show ?thesis by simp
  qed
qed simp

lemma rows_okD:
  assumes "rows_ok rows" "er \<in> set rows" "er_Err er = Some x"
  shows "\<exists>es. x = Joined es" "as_entry x \<noteq> None"
    "y \<in> set (flatten_err x) \<Longrightarrow> entry_key y = Some (er_Ref er, er_Platform er)"
  using bspec [OF assms(1) [unfolded rows_ok_def] assms(2)] assms(3) by auto

text \<open>The two sets of errors that a result keeps apart.\<close>

lemma rest_not_in_row:
  assumes "rows_ok (rs_Entries res)" "rest_ok (set (row_keys (rs_Entries res))) rest" "e \<in> set rest"
  shows "e \<notin> row_leaves res"
    and "er \<in> set (rs_Entries res) \<Longrightarrow> er_Err er = Some x \<Longrightarrow> \<not> err_Is e x \<and> \<not> err_Is (Joined rest) x"
proof -
  have key: "entry_key y \<in> Some ` set (row_keys (rs_Entries res))" if "y \<in> row_leaves res" for y
  proof -
    from that obtain er where er: "er \<in> set (rs_Entries res)" "y \<in> set (flatten (er_Err er))"
      by (auto simp: row_leaves_def)
    then obtain x where "er_Err er = Some x" "y \<in> set (flatten_err x)"
      by (cases "er_Err er") (simp_all add: flatten_def)
    with er(1) have "entry_key y = Some (er_Ref er, er_Platform er)" by (intro rows_okD(3) [OF assms(1)])
    with er(1) show ?thesis by (auto simp: row_keys_def)
  qed
  have out: "a \<notin> row_leaves res" if "a \<in> set rest" for a
    using that assms(2) key [of a] by (auto simp: rest_ok_def)
  then show "e \<notin> row_leaves res" using assms(3) .
  assume er: "er \<in> set (rs_Entries res)" "er_Err er = Some x"
  note x = rows_okD(1,2) [OF assms(1) er]
  have no: "\<not> err_Is a x" if "a \<in> set rest" for a
  proof -
    from assms(2) that consider "as_entry a = None" | r p e0 where "a = EntryError r p e0" "as_entry e0 = None"
      by (auto simp: rest_ok_def)
    then show ?thesis using x err_Is_entry [of a x] err_Is_entry [of _ x] by cases auto
  qed
  moreover have "Joined rest \<noteq> x"
  proof
    assume "Joined rest = x"
    moreover have "flatten_err e = [e]" using assms(2,3) by (auto simp: rest_ok_def)
    ultimately have "e \<in> set (flatten_err x)" using assms(3) by (auto intro!: bexI [of _ e])
    then have "e \<in> row_leaves res" using er by (auto simp: row_leaves_iff)
    with out assms(3) show False by blast
  qed
  ultimately show "\<not> err_Is e x \<and> \<not> err_Is (Joined rest) x" using assms(3) by (auto simp: list_ex_iff)
qed

lemma err_Is_refl: "err_Is e e"
  by (cases e) simp_all

lemma in_result_err: "x \<in> set (List.map_filter er_Err rows) \<longleftrightarrow> (\<exists>er \<in> set rows. er_Err er = Some x)"
  by (induction rows) (auto simp: List.map_filter_simps split: option.splits)

lemma result_err_leaves: "set (flatten (result_err res)) = row_leaves res"
proof -
  have "set (flatten (result_err res)) = (\<Union>x \<in> set (List.map_filter er_Err (rs_Entries res)). set (flatten_err x))"
    by (auto simp: result_err_def join_errs_def flatten_def)
  also have "\<dots> = row_leaves res"
    unfolding set_eq_iff UN_iff row_leaves_iff Bex_def in_result_err by blast
  finally show ?thesis .
qed

lemma failed_result_err: "failed_count res = 0 \<longleftrightarrow> result_err res = None"
  by (simp add: failed_none result_err_None)

text \<open>The whole's error has exactly the errors that no row shows.\<close>

lemma whole_blame:
  assumes rows: "rows_ok (rs_Entries res)" and rest: "rest_ok (set (row_keys (rs_Entries res))) rest"
    and err: "err = join_errs rest \<and> rest \<noteq> [] \<or> err = result_err res \<and> rest = [] \<or>
      err = errors_Join [join_errs rest, result_err res] \<and> rest \<noteq> []"
  shows "set (flatten (cli_whole err res)) = set (flatten err) - row_leaves res"
proof -
  have flat: "flatten (join_errs rest) = rest"
    using rest by (intro flatten_plain) (auto simp: rest_ok_def plain_error_def list_all_iff)
  have apart: "set rest \<inter> row_leaves res = {}" using rest_not_in_row(1) [OF rows rest] by blast
  have not_in: "\<not> list_ex (\<lambda>er. case er_Err er of None \<Rightarrow> False | Some x \<Rightarrow> err_Is e x) (rs_Entries res)"
    if "e \<in> set rest \<or> e = Joined rest \<and> rest \<noteq> []" for e
    using that rest_not_in_row(2) [OF rows rest]
    by (auto simp: list_ex_iff split: option.splits) (metis list.set_intros(1) neq_Nil_conv)+
  have keep: "filter (\<lambda>e. \<not> list_ex (\<lambda>er. case er_Err er of None \<Rightarrow> False | Some x \<Rightarrow> err_Is e x) (rs_Entries res)) rest = rest"
    using not_in by (auto simp: filter_id_conv)
  have row: "list_ex (\<lambda>er. case er_Err er of None \<Rightarrow> False | Some x \<Rightarrow> err_Is e x) (rs_Entries res)"
    if "e \<in> set (List.map_filter er_Err (rs_Entries res)) \<or>
      e = Joined (List.map_filter er_Err (rs_Entries res)) \<and> List.map_filter er_Err (rs_Entries res) \<noteq> []" for e
  proof -
    from that obtain x where "x \<in> set (List.map_filter er_Err (rs_Entries res))" "err_Is e x"
      using err_Is_refl by (auto simp: list_ex_iff) (metis err_Is_refl hd_in_set)
    then show ?thesis by (auto simp: in_result_err list_ex_iff) (metis option.simps(5))
  qed
  show ?thesis
  proof (cases "failed_count res = 0")
    case True
    with result_err_leaves [of res] have "row_leaves res = {}" by (simp add: failed_result_err flatten_def)
    with True show ?thesis by (cases err) (simp_all add: cli_whole_def)
  next
    case False
    then obtain ers where ers: "result_err res = Some (Joined ers)" "ers \<noteq> []" "ers = List.map_filter er_Err (rs_Entries res)"
      by (auto simp: failed_result_err result_err_def join_errs_def split: if_splits)
    from err consider "err = join_errs rest" "rest \<noteq> []" | "err = result_err res" "rest = []"
      | "err = errors_Join [join_errs rest, result_err res]" "rest \<noteq> []" by blast
    then show ?thesis
    proof cases
      case 1
      then have "cli_whole err res = join_errs rest"
        using False by (simp add: cli_whole_def join_errs_def unattributed_def keep)
      with 1 apart flat show ?thesis by auto
    next
      case 2
      have "unattributed (Joined ers) res = []" using row ers(3) by (auto simp: unattributed_def filter_empty_conv)
      with 2 False ers(1) have "cli_whole err res = None" by (simp add: cli_whole_def join_errs_def)
      with 2 result_err_leaves [of res] show ?thesis by (simp add: flatten_def)
    next
      case 3
      have e: "err = Some (Joined [Joined rest, Joined ers])"
        using 3 ers(1) by (simp add: errors_Join_def join_errs_def List.map_filter_simps)
      have "list_ex (\<lambda>er. case er_Err er of None \<Rightarrow> False | Some x \<Rightarrow> err_Is (Joined ers) x) (rs_Entries res)"
        by (rule row) (use ers in auto)
      moreover note not_in [of "Joined rest"] 3(2)
      ultimately have "unattributed (Joined [Joined rest, Joined ers]) res = [Joined rest]"
        by (simp add: unattributed_def)
      with e False have "cli_whole err res = Some (Joined [Joined rest])" by (simp add: cli_whole_def join_errs_def)
      moreover have "set (flatten err) = set rest \<union> row_leaves res"
        using 3(1) flat result_err_leaves [of res] by (simp add: flatten_Join)
      moreover have "flatten (Some (Joined [Joined rest])) = flatten (join_errs rest)"
        using 3(2) by (simp add: flatten_def join_errs_def)
      ultimately show ?thesis using flat apart by auto
    qed
  qed
qed

section \<open>The errors of a copy\<close>

definition flat_errors :: "gerr option \<Rightarrow> bool" where
  "flat_errors err \<longleftrightarrow> (\<forall>e \<in> set (flatten err). entry_flat e)"

lemma record_stage:
  assumes "result_record r err = (r', rest)" "flat_errors err" "rows_ok (rs_Entries r)"
  obtains es where "rest = join_errs es" "rows_ok (rs_Entries r')" "rest_ok (set (row_keys (rs_Entries r'))) es"
proof -
  obtain rows es where run: "record_all (flatten err) (rs_Entries r, []) = (rows, es)" by fastforce
  have leaves: "\<forall>e \<in> set (flatten err). flatten_err e = [e] \<and> entry_flat e"
    using assms(2) flatten_leaves by (auto simp: flat_errors_def flatten_def split: option.splits)
  from record_all_ok [OF assms(3) _ leaves run] have "rows_ok rows \<and> rest_ok (set (row_keys rows)) es"
    by (simp add: rest_ok_def)
  with assms(1) run that [of es] show ?thesis by (auto simp: result_record_def)
qed

lemma newResult_ok: "rows_ok (rs_Entries (newResult refs ps plan))"
proof -
  have "rows_ok (result_rows es used rps)" for es :: "'w entry list" and used rps
    by (induction es used rps rule: result_rows.induct)
      (auto simp: rows_ok_def no_entry_def from_entry_def split: option.splits)
  then show ?thesis by (simp add: newResult_def)
qed

lemma finish_blame:
  assumes "copy_finish opt run refs ps (plan, planErr) w = (Ok (res, err), w')" "flat_errors planErr"
    and "\<And>w e w'. run plan w = (Err e, w') \<Longrightarrow> flat_errors (Some e)"
  shows "set (flatten (cli_whole err res)) = set (flatten err) - row_leaves res"
proof -
  obtain r0 e0 where rec: "result_record (newResult refs ps plan) planErr = (r0, e0)" by fastforce
  obtain es0 where s0: "e0 = join_errs es0" "rows_ok (rs_Entries r0)" "rest_ok (set (row_keys (rs_Entries r0))) es0"
    by (rule record_stage [OF rec assms(2) newResult_ok])
  consider "e0 \<noteq> None" "res = r0" "err = e0" | "e0 = None" "res = r0" "err = result_err r0"
    | rerr r1 e1 where "result_record r0 rerr = (r1, e1)" "flat_errors rerr" "res = r1"
        "err = (if e1 \<noteq> None then errors_Join [e1, result_err r1] else result_err r1)"
  proof -
    assume one: "e0 \<noteq> None \<Longrightarrow> res = r0 \<Longrightarrow> err = e0 \<Longrightarrow> thesis"
      and two: "e0 = None \<Longrightarrow> res = r0 \<Longrightarrow> err = result_err r0 \<Longrightarrow> thesis"
      and three: "\<And>rerr r1 e1. result_record r0 rerr = (r1, e1) \<Longrightarrow> flat_errors rerr \<Longrightarrow> res = r1 \<Longrightarrow>
        err = (if e1 \<noteq> None then errors_Join [e1, result_err r1] else result_err r1) \<Longrightarrow> thesis"
    show thesis
    proof (cases "e0 = None")
      case False
      with assms(1) rec one show ?thesis by (simp add: copy_finish_def)
    next
      case e0: True
      show ?thesis
      proof (cases "co_DryRun opt")
        case True
        with assms(1) rec e0 two show ?thesis by (auto simp: copy_finish_def ebind_Ok)
      next
        case False
        from assms(1) rec e0 False obtain w1 where
          "ebind (attempt (run plan)) (\<lambda>r. case result_record r0 (case r of Inl e \<Rightarrow> Some e | Inr _ \<Rightarrow> None) of
             (res', err') \<Rightarrow> if err' \<noteq> None then ret (res', errors_Join [err', result_err res'])
               else ret (res', result_err res')) w1 = (Ok (res, err), w')"
          by (auto simp: copy_finish_def ebind_Ok)
        then show ?thesis
        proof (cases rule: ebind_attemptE)
          case (Val x w2)
          then show ?thesis using three [of None] by (auto simp: flat_errors_def flatten_def split: prod.splits if_splits)
        next
          case (Fail e w2)
          then show ?thesis using three [of "Some e"] assms(3) by (auto split: prod.splits if_splits)
        qed simp
      qed
    qed
  qed
  then show ?thesis
  proof cases
    case 1
    with s0 show ?thesis by (intro whole_blame [of res es0]) (auto simp: join_errs_def)
  next
    case 2
    with s0 show ?thesis by (intro whole_blame [of res es0]) (auto simp: join_errs_def split: if_splits)
  next
    case (3 rerr r1 e1)
    obtain es1 where s1: "e1 = join_errs es1" "rows_ok (rs_Entries r1)" "rest_ok (set (row_keys (rs_Entries r1))) es1"
      by (rule record_stage [OF 3(1,2) s0(2)])
    with 3 show ?thesis by (intro whole_blame [of res es1]) (auto simp: join_errs_def)
  qed
qed

end
