(* ===== verification/Command_Facts.thy ===== *)
theory Command_Facts
  imports Commands Cli_Facts
begin

text \<open>
  How far a \<open>copy\<close> command gets: every input error is found before anything outside is touched.
\<close>

lemma with_service_run:
  "with_service svc m w = (r, w') \<longleftrightarrow>
     (\<exists>sw1. m (svc, w) = (r, sw1) \<and> w' = snd (snd (ebind service_Close (\<lambda>_. ret ()) sw1)))"
  by (auto simp: with_service_def finally_do_def split: prod.splits)

text \<open>Closing a service that has opened nothing calls nothing.\<close>

lemma fresh_Close:
  "sv_cs svc = None \<Longrightarrow> sv_cache svc = None \<Longrightarrow> ebind service_Close (\<lambda>_. ret ()) (svc, w) = (Ok (), (svc, w))"
  by (simp add: service_Close_def ebind_def field_def ret_def)

lemma service_New_fresh: "service_New H cfg opt = Ok svc \<Longrightarrow> sv_cs svc = None \<and> sv_cache svc = None"
  unfolding service_New_def
  by (cases "ho_EncoderLevel H (cf_CompressionLevel cfg)"; cases "cf_Concurrency cfg < 1")
    (simp_all only: option.case if_True if_False res.inject res.distinct simp_thms, drule sym,
      simp only: service.select_convs simp_thms)

lemma service_New_Err: "service_New H cfg opt = Err e \<Longrightarrow> err_is e ErrInvalidConfig"
  unfolding service_New_def
  by (cases "ho_EncoderLevel H (cf_CompressionLevel cfg)"; cases "cf_Concurrency cfg < 1")
    (simp_all only: option.case if_True if_False res.inject res.distinct simp_thms, auto)

lemma service_New_no_panic: "service_New H cfg opt \<noteq> Panic"
  by (cases "ho_EncoderLevel H (cf_CompressionLevel cfg)"; cases "cf_Concurrency cfg < 1")
    (simp_all only: service_New_def option.case if_True if_False res.distinct simp_thms)

lemma imageSets_Err: "imageSets read dec ps acc = Err e \<Longrightarrow> err_is e ErrInvalidReference"
  by (induction read dec ps acc rule: imageSets.induct) (auto split: sum.splits)

lemma imageSets_no_panic: "imageSets read dec ps acc \<noteq> Panic"
  by (induction read dec ps acc rule: imageSets.induct) (auto split: sum.splits)

lemma ParsePlatform_no_panic: "types_ParsePlatform s \<noteq> Panic"
  by (simp add: types_ParsePlatform_def Let_def split: list.splits)

lemma ParsePlatforms_run: "\<exists>out errs. ParsePlatforms ss = Ok (out, join_errs errs) \<and> list_all (\<lambda>e. err_is e ErrInvalidPlatform) errs"
proof -
  have "\<exists>out errs. parse_all types_ParsePlatform (\<lambda>_. Sentinel ErrInvalidPlatform) ss = Ok (out, errs) \<and>
      list_all (\<lambda>e. err_is e ErrInvalidPlatform) errs"
    by (induction ss) (auto simp: ParsePlatform_no_panic split: res.splits)
  then show ?thesis by (auto simp: ParsePlatforms_def)
qed

lemma ParsePlatforms_err: "ParsePlatforms ss = Ok (out, Some e) \<Longrightarrow> IsUsage e"
proof -
  assume run: "ParsePlatforms ss = Ok (out, Some e)"
  from ParsePlatforms_run [of ss] obtain out' errs where
    "ParsePlatforms ss = Ok (out', join_errs errs)" "list_all (\<lambda>e. err_is e ErrInvalidPlatform) errs" by blast
  with run have "err_is e ErrInvalidPlatform" by (auto intro: err_is_joined)
  then show "IsUsage e" by (simp add: IsUsage_def)
qed

lemma usage_errors:
  "err_is e ErrInvalidLocation \<Longrightarrow> IsUsage e" "err_is e ErrInvalidReference \<Longrightarrow> IsUsage e"
  "err_is e ErrInvalidConfig \<Longrightarrow> IsUsage e"
  by (simp_all add: IsUsage_def)

lemma usage_exit: "IsUsage e \<Longrightarrow> ExitCode (Some e) = 1" "ExitCode (Some (UsageError x)) = 1"
  by (simp_all add: ExitCode_def ExitUsage_def)

text \<open>The stages of \<open>copy\<close>: what was parsed when it gets to the user namespace.\<close>

definition copy_input ::
  "('w, 'o, 'f, 'r, 'a) command \<Rightarrow> string list \<Rightarrow> string \<Rightarrow> (string \<Rightarrow> bool) \<Rightarrow> copy_flags \<Rightarrow>
   location \<Rightarrow> location \<Rightarrow> string list \<Rightarrow> platform list \<Rightarrow> ('w, 'o) service \<Rightarrow> reference list \<Rightarrow> bool" where
  "copy_input M args flagConfig changed flags src dst imgs platforms svc refs \<longleftrightarrow>
     (\<exists>cfg a0 a1 images.
        \<not> (fl_quiet flags \<and> fl_json flags) \<and> LoadConfig (cm_config M) flagConfig = (cfg, None) \<and>
        args = a0 # a1 # images \<and>
        ParseLocation (ho_url (cm_host M)) a0 = Ok src \<and> ParseLocation (ho_url (cm_host M)) a1 = Ok dst \<and>
        ReadImageSet (cm_ReadFile M) (cm_json_ImageSet M) images (fl_sets flags) = Ok imgs \<and>
        ParsePlatforms (fl_platforms flags) = Ok (platforms, None) \<and>
        service_New (cm_host M) (flag_config flags changed cfg) None = Ok svc \<and>
        checkCopy (ho_lib (cm_host M)) src dst imgs = Ok refs)"

lemma runCopy_stages:
  assumes "runCopy M args flagConfig changed flags w = (r, w')" "length args \<ge> 2"
  obtains (Usage) e where "r = Err e" "ExitCode (Some e) = 1" "w' = w"
      "\<nexists>src dst imgs platforms svc refs. copy_input M args flagConfig changed flags src dst imgs platforms svc refs"
  | (Namespace) src dst imgs platforms svc refs where
      "copy_input M args flagConfig changed flags src dst imgs platforms svc refs" "w' = w"
      "enterUserNamespace (cm_userns M) [src, dst] = Reexec \<and> r = Ok Replaced \<or>
        (\<exists>e. enterUserNamespace (cm_userns M) [src, dst] = Refused e \<and> r = Err e)"
  | (Copying) src dst imgs platforms svc refs sw' where
      "copy_input M args flagConfig changed flags src dst imgs platforms svc refs"
      "enterUserNamespace (cm_userns M) [src, dst] = Entered"
      "ebind (cli_Copy (cm_host M) (cm_lib M) (cm_console M) (cm_ctx_Err M) (cm_uploads M) (flag_output flags) src dst
          imgs \<lparr>co_Platforms = platforms, co_DryRun = fl_dryRun flags, co_Planned = None\<rparr>) (\<lambda>_. ret Finished) (svc, w) =
        (r, sw')"
proof (cases "fl_quiet flags \<and> fl_json flags")
  case True
  with assms(1) have "r = Err (UsageError (Msg ''--quiet and --json cannot be used together''))" "w' = w"
    by (auto simp: runCopy_def throw_def)
  with Usage usage_exit(2) True show ?thesis by (simp add: copy_input_def)
next
  case quiet: False
  obtain cfg err where cfg: "LoadConfig (cm_config M) flagConfig = (cfg, err)" by fastforce
  obtain a0 a1 images where args: "args = a0 # a1 # images"
    using assms(2) by (metis Suc_le_length_iff numeral_2_eq_2)
  have stop: ?thesis if "r = Err e" "IsUsage e" "w' = w"
    "\<And>src dst imgs platforms svc refs. \<not> copy_input M args flagConfig changed flags src dst imgs platforms svc refs" for e
    using that usage_exit(1) by (intro Usage) simp_all
  show ?thesis
  proof (cases err)
    case (Some e)
    with assms(1) quiet cfg have "r = Err e" "w' = w" by (auto simp: runCopy_def throw_def)
    with LoadConfig_err [of "cm_config M" flagConfig cfg e] cfg Some show ?thesis
      by (intro stop) (auto simp: usage_errors copy_input_def)
  next
    case None
    note run = assms(1) [unfolded runCopy_def if_not_P [OF quiet] cfg None args prod.case option.case list.case]
    have no_panic: "ParseLocation (ho_url (cm_host M)) a \<noteq> Panic" for a by (rule ParseLocation_no_panic)
    show ?thesis
    proof (cases "ParseLocation (ho_url (cm_host M)) a0")
      case (Err e)
      with run show ?thesis by (intro stop) (auto simp: throw_def usage_errors ParseLocation_err copy_input_def args)
    next
      case src: (Ok src)
      show ?thesis
      proof (cases "ParseLocation (ho_url (cm_host M)) a1")
        case (Err e)
        with run src show ?thesis by (intro stop) (auto simp: throw_def usage_errors ParseLocation_err copy_input_def args)
      next
        case dst: (Ok dst)
        show ?thesis
        proof (cases "ReadImageSet (cm_ReadFile M) (cm_json_ImageSet M) images (fl_sets flags)")
          case (Err e)
          with imageSets_Err have "err_is e ErrInvalidReference" by (auto simp: ReadImageSet_def)
          with run src dst Err show ?thesis by (intro stop) (auto simp: throw_def usage_errors copy_input_def args)
        next
          case imgs: (Ok imgs)
          from ParsePlatforms_run [of "fl_platforms flags"] obtain platforms perr where
            p: "ParsePlatforms (fl_platforms flags) = Ok (platforms, perr)" by blast
          show ?thesis
          proof (cases perr)
            case (Some e)
            with ParsePlatforms_err p have "IsUsage e" by blast
            with run src dst imgs p Some show ?thesis
              by (intro stop) (auto simp: raise_opt_def throw_def copy_input_def args)
          next
            case platforms: None
            show ?thesis
            proof (cases "service_New (cm_host M) (flag_config flags changed cfg) None")
              case (Err e)
              with service_New_Err have "IsUsage e" by (blast intro: usage_errors)
              with run src dst imgs p platforms Err show ?thesis
                by (intro stop) (auto simp: raise_opt_def throw_def copy_input_def args cfg)
            next
              case svc: (Ok svc)
              note fresh = service_New_fresh [OF svc]
              let ?stage = "ebind (pure_res (ValidateCopy (ho_lib (cm_host M)) src dst imgs)) (\<lambda>v.
                  ebind (raise_opt v) (\<lambda>_.
                    case enterUserNamespace (cm_userns M) [src, dst] of
                      Refused e \<Rightarrow> throw e
                    | Reexec \<Rightarrow> ret Replaced
                    | Entered \<Rightarrow>
                        ebind (cli_Copy (cm_host M) (cm_lib M) (cm_console M) (cm_ctx_Err M) (cm_uploads M)
                            (flag_output flags) src dst imgs
                            \<lparr>co_Platforms = platforms, co_DryRun = fl_dryRun flags, co_Planned = None\<rparr>)
                          (\<lambda>_. ret Finished)))"
              from run src dst imgs p platforms svc have "with_service svc ?stage w = (r, w')"
                by (simp add: raise_opt_def)
              then obtain sw1 where stage: "?stage (svc, w) = (r, sw1)"
                "w' = snd (snd (ebind service_Close (\<lambda>_. ret ()) sw1))" unfolding with_service_run by blast
              have w': "w' = w" if "sw1 = (svc, w)" using stage(2) that fresh by (simp add: fresh_Close)
              show ?thesis
              proof (cases "checkCopy (ho_lib (cm_host M)) src dst imgs")
                case (Err e)
                with stage have "r = Err e" "sw1 = (svc, w)"
                  by (auto simp: ValidateCopy_def raise_opt_def throw_def)
                with checkCopy_Err [OF Err] w' Err src dst imgs show ?thesis
                  by (intro stop) (auto simp: copy_input_def args)
              next
                case refs: (Ok refs)
                have input: "copy_input M args flagConfig changed flags src dst imgs platforms svc refs"
                  using quiet cfg None src dst imgs p platforms svc refs by (simp add: copy_input_def args)
                show ?thesis
                proof (cases "enterUserNamespace (cm_userns M) [src, dst]")
                  case Entered
                  with stage refs Copying [OF input Entered] show ?thesis
                    by (simp add: ValidateCopy_def raise_opt_def)
                next
                  case Reexec
                  with stage refs w' Namespace [OF input] show ?thesis
                    by (auto simp: ValidateCopy_def raise_opt_def ret_def)
                next
                  case (Refused e)
                  with stage refs w' Namespace [OF input] show ?thesis
                    by (auto simp: ValidateCopy_def raise_opt_def throw_def)
                qed
              qed (simp add: checkCopy_no_panic)
            qed (simp add: service_New_no_panic)
          qed
        qed (simp add: ReadImageSet_def imageSets_no_panic)
      qed (simp add: no_panic)
    qed (simp add: no_panic)
  qed
qed

lemma callbacks_fields:
  "co_Platforms (copy_callbacks C T out opt) = co_Platforms opt" "co_DryRun (copy_callbacks C T out opt) = co_DryRun opt"
  by (simp_all add: copy_callbacks_def)

text \<open>\<open>copy\<close> that ends normally has copied.\<close>

lemma runCopy_Finished:
  assumes "runCopy M args flagConfig changed flags w = (Ok Finished, w')" "length args \<ge> 2"
    and "\<And>n st. upload_schedule (ho_lib (cm_host M)) st n (cm_uploads M n st)"
  obtains src dst imgs platforms svc refs plan cs st w1 w2 u v where
    "copy_input M args flagConfig changed flags src dst imgs platforms svc refs"
    "cli_begins (cm_console M) (flag_output flags) w = (Ok (), u)"
    "carried_out (cm_host M) (cm_ctx_Err M) (cm_uploads M) src dst refs
      (copy_callbacks (cm_lib M) (cm_console M) (flag_output flags)
        \<lparr>co_Platforms = platforms, co_DryRun = fl_dryRun flags, co_Planned = None\<rparr>) plan cs st w1 w2 (svc, u) v"
  using assms(1,2)
proof (cases rule: runCopy_stages)
  case (Copying src dst imgs platforms svc refs sw')
  from Copying(3) obtain sw1 where "cli_Copy (cm_host M) (cm_lib M) (cm_console M) (cm_ctx_Err M) (cm_uploads M)
      (flag_output flags) src dst imgs \<lparr>co_Platforms = platforms, co_DryRun = fl_dryRun flags, co_Planned = None\<rparr>
      (svc, w) = (Ok (), sw1)"
    by (auto simp: ebind_Ok)
  then obtain res u v where start: "cli_begins (cm_console M) (flag_output flags) w = (Ok (), u)"
    and run: "service_Copy (cm_host M) (cm_ctx_Err M) (cm_uploads M) src dst imgs
      (copy_callbacks (cm_lib M) (cm_console M) (flag_output flags)
        \<lparr>co_Platforms = platforms, co_DryRun = fl_dryRun flags, co_Planned = None\<rparr>) (svc, u) = (Ok (res, None), v)"
    by (rule cli_Copy_Ok)
  from Copy_run [OF run assms(3)] Copying(1) obtain cs st w1 w2 where
    "carried_out (cm_host M) (cm_ctx_Err M) (cm_uploads M) src dst refs
      (copy_callbacks (cm_lib M) (cm_console M) (flag_output flags)
        \<lparr>co_Platforms = platforms, co_DryRun = fl_dryRun flags, co_Planned = None\<rparr>) (rs_Plan res) cs st w1 w2 (svc, u) v"
    by (auto simp: copy_input_def)
  with that Copying(1) start show ?thesis by blast
qed auto

section \<open>The input of the other subcommands\<close>

text \<open>What \<open>list\<close> needs: a configuration, and the location of a store that can be listed.\<close>

definition list_input ::
  "('w, 'o, 'f, 'r, 'a) command \<Rightarrow> string list \<Rightarrow> string \<Rightarrow> location \<Rightarrow> ('w, 'o) service \<Rightarrow> bool" where
  "list_input M args flagConfig loc svc \<longleftrightarrow>
     (\<exists>cfg. LoadConfig (cm_config M) flagConfig = (cfg, None) \<and> args \<noteq> [] \<and>
        ParseLocation (ho_url (cm_host M)) (hd args) = Ok loc \<and> service_New (cm_host M) cfg None = Ok svc \<and>
        Kind loc = KindStore \<and>
        (case URL loc of None \<Rightarrow> True | Some u \<Rightarrow> u_Scheme u = ''file'' \<or> u_Scheme u = ''s3''))"

text \<open>What \<open>config\<close> needs: a configuration, and a template that can be parsed.\<close>

definition config_input :: "('w, 'o, 'f, 'r, 'a) command \<Rightarrow> string \<Rightarrow> string \<Rightarrow> bool" where
  "config_input M flagConfig flagFormat \<longleftrightarrow>
     snd (LoadConfig (cm_config M) flagConfig) = None \<and>
     (flagFormat = [] \<or> (\<exists>exec. cl_template (cm_lib M) flagFormat = Inr exec))"

lemma runList_refused:
  assumes "runList M args flagConfig repo asJson w = (r, w')" "args \<noteq> []"
    and wrong: "\<nexists>loc svc. list_input M args flagConfig loc svc"
  shows "\<exists>e. r = Err e \<and> ExitCode (Some e) = 1 \<and> w' = w"
proof -
  obtain cfg err where cfg: "LoadConfig (cm_config M) flagConfig = (cfg, err)" by fastforce
  obtain a0 rest where args: "args = a0 # rest" using assms(2) by (cases args) auto
  show ?thesis
  proof (cases err)
    case (Some e)
    with assms(1) cfg have "r = Err e" "w' = w" by (auto simp: runList_def throw_def)
    with LoadConfig_err [of "cm_config M" flagConfig cfg e] cfg Some show ?thesis
      by (intro exI [of _ e]) (simp add: usage_errors usage_exit)
  next
    case None
    note run = assms(1) [unfolded runList_def cfg None args prod.case option.case list.case]
    show ?thesis
    proof (cases "ParseLocation (ho_url (cm_host M)) a0")
      case (Err e)
      with run have "r = Err e" "w' = w" by (auto simp: throw_def)
      with ParseLocation_err [OF Err] show ?thesis by (simp add: usage_errors usage_exit)
    next
      case Panic
      then show ?thesis using ParseLocation_no_panic by blast
    next
      case loc: (Ok loc)
      show ?thesis
      proof (cases "service_New (cm_host M) cfg None")
        case (Err e)
        with run loc have "r = Err e" "w' = w" by (auto simp: throw_def)
        with service_New_Err [OF Err] show ?thesis by (simp add: usage_errors usage_exit)
      next
        case Panic
        then show ?thesis using service_New_no_panic by blast
      next
        case svc: (Ok svc)
        let ?e = "Wrap1 ''cannot be listed'' (Sentinel ErrInvalidLocation)"
        from wrong cfg None args loc svc have unlisted: "Kind loc \<noteq> KindStore \<or>
            (case URL loc of None \<Rightarrow> False | Some u \<Rightarrow> u_Scheme u \<noteq> ''file'' \<and> u_Scheme u \<noteq> ''s3'')"
          by (auto simp: list_input_def split: option.splits)
        have usage: "IsUsage ?e" by (simp add: IsUsage_def)
        have "service_List (cm_host M) (cm_ctx_Err M) loc repo (svc, w) = (Ok [Inl ?e], (svc, w))"
          using unlisted ParseLocation_validates [OF loc] unfolding service_List_def
          by (simp only: option.case if_True) (simp add: ret_def)
        then have "cli_List (cm_host M) (cm_lib M) (cm_console M) (cm_ctx_Err M) asJson loc repo (svc, w) = (Err ?e, (svc, w))"
          by (simp add: cli_List_def ebind_def usage throw_def)
        moreover from service_New_fresh [OF svc] have "ebind service_Close (\<lambda>_. ret ()) (svc, w) = (Ok (), (svc, w))"
          by (simp add: fresh_Close)
        ultimately have "with_service svc (cli_List (cm_host M) (cm_lib M) (cm_console M) (cm_ctx_Err M) asJson loc repo) w =
            (Err ?e, w)"
          unfolding with_service_run by (intro exI [of _ "(svc, w)"] conjI) simp_all
        with run loc svc have "r = Err ?e" "w' = w" by simp_all
        with usage show ?thesis by (simp add: usage_exit)
      qed
    qed
  qed
qed

lemma runConfig_refused:
  assumes "runConfig M flagConfig flagFormat w = (r, w')" "\<not> config_input M flagConfig flagFormat"
  shows "\<exists>e. r = Err e \<and> w' = w \<and>
    (case snd (LoadConfig (cm_config M) flagConfig) of
       Some _ \<Rightarrow> ExitCode (Some e) = 1
     | None \<Rightarrow> \<exists>x. cl_template (cm_lib M) flagFormat = Inl x \<and> e = Wrap1 ''--format'' x)"
proof -
  obtain cfg err where cfg: "LoadConfig (cm_config M) flagConfig = (cfg, err)" by fastforce
  show ?thesis
  proof (cases err)
    case (Some e)
    with assms(1) cfg have "r = Err e" "w' = w" by (auto simp: runConfig_def throw_def)
    with LoadConfig_err [of "cm_config M" flagConfig cfg e] cfg Some show ?thesis
      by (intro exI [of _ e]) (simp add: usage_errors usage_exit)
  next
    case None
    with assms(2) cfg obtain x where bad: "flagFormat \<noteq> []" "cl_template (cm_lib M) flagFormat = Inl x"
      by (cases "cl_template (cm_lib M) flagFormat") (auto simp: config_input_def)
    with assms(1) cfg None show ?thesis by (auto simp: runConfig_def RenderConfig_def throw_def)
  qed
qed

end
