(* ===== verification/Cli_Properties.thy ===== *)
theory Cli_Properties
  imports Command_Facts Demo_Copy Blobcache_Properties
begin

text \<open>
  The properties of the command: what its end means, which errors stop it before it has touched anything,
  whose failure an error is shown as, and what the display of the progress prints.
\<close>

lemma copy_input_unique:
  "copy_input M args flagConfig changed flags src dst imgs platforms svc refs \<Longrightarrow>
   copy_input M args flagConfig changed flags src' dst' imgs' platforms' svc' refs' \<Longrightarrow> src' = src \<and> dst' = dst"
  by (auto simp: copy_input_def)

section \<open>A command to run\<close>

definition demo_console :: "'w console" where
  "demo_console = \<lparr>tm_stdout = (\<lambda>s. ret ()), tm_stderr = (\<lambda>s. ret ()), tm_err = (\<lambda>w. None), tm_set_err = (\<lambda>e w. w),
     tm_terminal = ret False, cn_progress = (\<lambda>w. newProgress False), cn_set_progress = (\<lambda>p w. w)\<rparr>"

definition demo_cli :: cli_lib where
  "demo_cli = \<lparr>cl_Error = (\<lambda>e. ''error''), cl_json_report = (\<lambda>r. Inr ''{}''), cl_json_list = (\<lambda>l. Inr ''[]''),
     cl_json_config = (\<lambda>c. Inr ''{}''), cl_template = (\<lambda>s. Inl (Msg ''template''))\<rparr>"

definition demo_config_env :: config_env where
  "demo_config_env = \<lparr>os_UserCacheDir = Inr ''/cache'', os_UserConfigDir = Inr ''/config'', os_LookupEnv = (\<lambda>_. None),
     os_ReadFile = (\<lambda>_. Inl (Sentinel ErrNotExist)), json_PartialConfig = (\<lambda>_. Inr empty_partial),
     env_ParseWithOptions = (\<lambda>_. Inr empty_partial)\<rparr>"

definition demo_command :: "(os, unit, os_handle, unit, unit) command" where
  "demo_command = \<lparr>cm_host = demo_host, cm_lib = demo_cli, cm_console = demo_console, cm_config = demo_config_env,
     cm_ReadFile = (\<lambda>_. Inl (Sentinel ErrNotExist)), cm_json_ImageSet = (\<lambda>_. Inr []),
     cm_userns = \<lparr>us_cgo = True, us_Geteuid = 0, us_Current = None, us_LookPath = (\<lambda>_. None), us_Reexec_returns = False\<rparr>,
     cm_ctx_Err = os_ctx_Err, cm_uploads = (\<lambda>n. demo_uploads), cm_build_info = None\<rparr>"

abbreviation demo_args :: "string list" where
  "demo_args \<equiv> [''containers-storage:'', ''store:/store'', ''example.com/app:v1'']"

definition demo_flags :: copy_flags where
  "demo_flags = copy_flag_defaults\<lparr>fl_quiet := True, fl_platforms := [''linux/amd64'']\<rparr>"

section \<open>The end of a copy\<close>

lemma demo_loaded:
  obtains cfg where "LoadConfig demo_config_env [] = (cfg, None)" "cf_CacheDir cfg \<noteq> []" "cf_Registries cfg = None"
    "service_New demo_host cfg None = Ok (demo_fresh cfg)"
proof -
  let ?r = "LoadConfig demo_config_env []"
  have ok: "snd ?r = None" "cf_CacheDir (fst ?r) \<noteq> []" "cf_Registries (fst ?r) = None"
    "cf_CompressionLevel (fst ?r) = ''best''" "cf_Concurrency (fst ?r) = 4"
    by code_simp+
  have "service_New demo_host (fst ?r) None = Ok (demo_fresh (fst ?r))"
    using ok by (simp add: service_New_def demo_host_def demo_fresh_def)
  with that [of "fst ?r"] ok show ?thesis by (metis prod.collapse)
qed

lemma demo_parsed:
  "ParseLocation (ho_url demo_host) ''containers-storage:'' = Ok demo_src"
  "ParseLocation (ho_url demo_host) ''store:/store'' = Ok demo_dst"
  "ReadImageSet (cm_ReadFile demo_command) (cm_json_ImageSet demo_command) [''example.com/app:v1''] [] = Ok [''example.com/app:v1'']"
  "ParsePlatforms [''linux/amd64''] = Ok ([demo_platform], None)"
  by code_simp+

lemma demo_run:
  assumes "\<not> changed ''compression-level''" "\<not> changed ''concurrency''"
  shows "\<exists>w'. runCopy demo_command demo_args [] changed demo_flags demo_done = (Ok Finished, w')"
proof -
  obtain cfg where cfg: "LoadConfig demo_config_env [] = (cfg, None)" "cf_CacheDir cfg \<noteq> []" "cf_Registries cfg = None"
    "service_New demo_host cfg None = Ok (demo_fresh cfg)" by (rule demo_loaded)
  from demo_fresh_copy [OF cfg(2,3)] obtain res svc w' where copy: "service_Copy demo_host os_ctx_Err (\<lambda>n. demo_uploads)
      demo_src demo_dst [''example.com/app:v1''] (demo_option False) (demo_fresh cfg, demo_done) = (Ok (res, None), (svc, w'))"
    by auto
  have fields: "cm_host demo_command = demo_host" "cm_lib demo_command = demo_cli" "cm_console demo_command = demo_console"
    "cm_config demo_command = demo_config_env" "cm_ctx_Err demo_command = os_ctx_Err"
    "cm_uploads demo_command = (\<lambda>n. demo_uploads)" "ho_lib demo_host = demo_lib"
    by (simp_all add: demo_command_def demo_host_def)
  have flags: "fl_quiet demo_flags" "\<not> fl_json demo_flags" "fl_sets demo_flags = []" "\<not> fl_dryRun demo_flags"
    "fl_platforms demo_flags = [''linux/amd64'']" "flag_output demo_flags = OutputQuiet"
    "flag_config demo_flags changed cfg = cfg"
    using assms by (simp_all add: demo_flags_def copy_flag_defaults_def flag_output_def flag_config_def)
  have userns: "enterUserNamespace (cm_userns demo_command) ls = Entered" for ls
    by (induction ls) (simp_all add: demo_command_def userns_Enter_def)
  let ?opt = "\<lparr>co_Platforms = [demo_platform], co_DryRun = False, co_Planned = None\<rparr> :: os copy_option"
  have start: "errWriter_new demo_console v = (Ok (), v)" for v :: os
    by (simp add: errWriter_new_def demo_console_def ret_def)
  have quiet: "cli_results demo_cli E demo_console OutputQuiet l m dry (res, None) v = (Ok (), v)" for E l m dry v
    by (simp add: cli_results_def raise_opt_def ret_def)
  have "cli_Copy demo_host demo_cli demo_console os_ctx_Err (\<lambda>n. demo_uploads) OutputQuiet demo_src demo_dst
      [''example.com/app:v1''] ?opt (demo_fresh cfg, demo_done) = (Ok (), (svc, w'))"
    using copy unfolding demo_option_def
    by (simp add: cli_Copy_def ebind_def start quiet copy_callbacks_def ret_def outside_def)
  then show ?thesis
    by (simp add: runCopy_def fields flags cfg(1,4) demo_parsed userns ValidateCopy_def demo_check raise_opt_def
        with_service_def finally_do_def ebind_def ret_def split: prod.split
        del: enterUserNamespace.simps)
qed

text \<open>What that command has opened and planned, which is ready to be pushed.\<close>

lemma demo_carried:
  assumes unset: "\<not> changed ''compression-level''" "\<not> changed ''concurrency''"
    and input: "copy_input demo_command demo_args [] changed demo_flags src dst imgs platforms svc refs"
    and begins: "cli_begins demo_console OutputQuiet demo_done = (Ok (), u)"
    and carried: "carried_out demo_host os_ctx_Err (\<lambda>n. demo_uploads) src dst refs
      \<lparr>co_Platforms = platforms, co_DryRun = False, co_Planned = None\<rparr> plan cs st w1 w2 (svc, u) v"
  shows "src = demo_src" "refs = [demo_ref]" "platforms = [demo_platform]"
    and "store_ready demo_host os_ctx_Err (\<lambda>n. demo_uploads) refs
      \<lparr>co_Platforms = platforms, co_DryRun = False, co_Planned = None\<rparr> plan cs st demo_tree (\<lambda>w. demo_ok w) w1"
proof -
  obtain cfg where cfg: "LoadConfig demo_config_env [] = (cfg, None)" "cf_CacheDir cfg \<noteq> []" "cf_Registries cfg = None"
    "service_New demo_host cfg None = Ok (demo_fresh cfg)" by (rule demo_loaded)
  have fields: "cm_host demo_command = demo_host" "cm_config demo_command = demo_config_env" "ho_lib demo_host = demo_lib"
    "fl_sets demo_flags = []" "fl_platforms demo_flags = [''linux/amd64'']" "flag_config demo_flags changed cfg = cfg"
    using unset by (simp_all add: demo_command_def demo_flags_def copy_flag_defaults_def flag_config_def demo_host_def)
  from input have eqs: "src = demo_src" "dst = demo_dst" "platforms = [demo_platform]" "svc = demo_fresh cfg" "refs = [demo_ref]"
    unfolding copy_input_def fields(1-5) using demo_parsed demo_check cfg(1,4) fields(6) by auto
  from begins have u: "u = demo_done" by (simp add: cli_begins_def errWriter_new_def demo_console_def ebind_def ret_def)
  from demo_fresh_cs [OF cfg(2,3)] obtain svc' where cs: "service_containersStorage demo_host os_ctx_Err
      (demo_fresh cfg, demo_done) = (Ok demo_cs, (svc', demo_done))" by blast
  have store: "service_openStore demo_host os_ctx_Err demo_dst (copy_mode True False) (svc', demo_done) =
     (Ok (demo_store, ret ()), (svc', demo_done))"
    by (simp add: service_openStore_def demo_dst_def file_url_def copy_mode_def demo_host_def outside_def
      open_root_def ebind_def map_err_def ret_def demo_store_def)
  let ?ps = "copy_platforms demo_runtime [demo_platform]"
  from demo_again_plan [of demo_runtime] obtain e w' where p: "transfer_PlanPush demo_lib demo_runtime
      (cstorage_PushSource demo_lib 9 demo_cs demo_store) demo_store (map reference_String [demo_ref]) ?ps demo_done =
      (Ok (\<lparr>pl_Entries = [e]\<rparr>, None), w')"
    and e: "en_Image e = demo_push_img" "en_Missing e = []" by auto
  have H: "ho_runtime demo_host = demo_runtime" "ho_memory demo_host = 9" by (simp_all add: demo_host_def)
  have p': "transfer_PlanPush demo_lib demo_runtime
      (cstorage_PushSource demo_lib 9 demo_cs demo_store) demo_store [reference_String demo_ref] ?ps demo_done =
      (Ok (\<lparr>pl_Entries = [e]\<rparr>, None), w')"
    using p by simp
  from carried have opened: "cs = demo_cs" "st = demo_store" "w1 = demo_done" "plan = \<lparr>pl_Entries = [e]\<rparr>"
    unfolding carried_out_def eqs u by (auto simp: demo_src_def cs store copy_plan_def H fields(3) p' Let_def)
  have "moves (beside demo_tree (\<lambda>w. demo_ok w)) os_ctx_Err"
    using demo_ctx_reads by (simp add: moves_def beside_def)
  moreover have "diff_ids_valid demo_lib (demo_tree v')"
    if "beside demo_tree (\<lambda>w. demo_ok w) demo_done v" "demo_uploads demo_store \<lparr>pl_Entries = [e]\<rparr> v = (Ok es, v')" for v es v'
  proof -
    from that(1) demo_done_ok(1) have "demo_ok v" "demo_tree v = demo_tree demo_done" by (simp_all add: beside_def)
    with demo_again_run(1) [OF this e] that(2) demo_done_ok(3) show ?thesis by simp
  qed
  ultimately show "store_ready demo_host os_ctx_Err (\<lambda>n. demo_uploads) refs
      \<lparr>co_Platforms = platforms, co_DryRun = False, co_Planned = None\<rparr> plan cs st demo_tree (\<lambda>w. demo_ok w) w1"
    unfolding store_ready_def eqs opened fields(3)
    using demo_backend demo_digest_laws demo_json_laws demo_cs_side demo_done_ok(1,2) demo_ref_back demo_leafable
    by (simp add: demo_platforms)
  show "src = demo_src" "refs = [demo_ref]" "platforms = [demo_platform]" by (fact eqs)+
qed

text \<open>
  A \<open>copy\<close> command whose input is wrong in any part (exclusive flags, configuration, a location, an
  image set, a platform, a setting, a copy no direction supports) ends with an error of exit status 1 and
  has touched nothing outside; with right input, a command that may not enter the user namespace, or
  that goes on in the child process, has touched nothing either.
\<close>

theorem copy_command_checks_first:
  assumes "runCopy M args flagConfig changed flags w = (r, w')" "length args \<ge> 2"
  shows "((\<nexists>src dst imgs platforms svc refs. copy_input M args flagConfig changed flags src dst imgs platforms svc refs) \<longrightarrow>
      (\<exists>e. r = Err e \<and> ExitCode (Some e) = 1 \<and> w' = w)) \<and>
    (\<forall>src dst imgs platforms svc refs. copy_input M args flagConfig changed flags src dst imgs platforms svc refs \<longrightarrow>
      enterUserNamespace (cm_userns M) [src, dst] \<noteq> Entered \<longrightarrow> r \<noteq> Ok Finished \<and> w' = w)"
  using assms
proof (cases rule: runCopy_stages)
  case (Namespace src dst imgs platforms svc refs)
  with copy_input_unique [OF Namespace(1)] show ?thesis by blast
next
  case (Copying src dst imgs platforms svc refs sw')
  with copy_input_unique [OF Copying(1)] show ?thesis by metis
qed blast

theorem copy_command_checks_first_witness:
  "\<exists>e. runCopy demo_command [''containers-storage:'', ''s3:/store''] [] (\<lambda>_. False) demo_flags demo_done =
     (Err e, demo_done) \<and> ExitCode (Some e) = 1"
proof -
  let ?args = "[''containers-storage:'', ''s3:/store'']"
  obtain r w' where run: "runCopy demo_command ?args [] (\<lambda>_. False) demo_flags demo_done = (r, w')" by fastforce
  have "case ParseLocation (ho_url demo_host) ''s3:/store'' of Ok _ \<Rightarrow> False | _ \<Rightarrow> True" by code_simp
  then have bad: "\<not> copy_input demo_command ?args [] (\<lambda>_. False) demo_flags src dst imgs platforms svc refs"
    for src dst imgs platforms svc refs
    by (auto simp: copy_input_def demo_command_def)
  have len: "length ?args \<ge> 2" by simp
  from copy_command_checks_first [OF run len] bad run show ?thesis by blast
qed

section \<open>Whose failure an error is\<close>

text \<open>
  The error that the output blames on the copy as a whole consists of exactly the errors that the
  result of the copy does not attribute to an entry: none is shown twice, none is lost.
\<close>

theorem cli_blame_exact:
  assumes "copy_finish opt run refs ps (plan, planErr) w = (Ok (res, err), w')" "flat_errors planErr"
    and "\<And>w e w'. run plan w = (Err e, w') \<Longrightarrow> flat_errors (Some e)"
  shows "set (flatten (cli_whole err res)) = set (flatten err) - row_leaves res"
  by (rule finish_blame [OF assms])

definition demo_failing :: "os plan \<Rightarrow> (os, unit) io" where
  "demo_failing _ = throw (Joined [EntryError demo_ref demo_platform (Msg ''x''), Msg ''y''])"

lemma demo_failed:
  "case copy_finish (demo_option False) demo_failing [demo_ref] [demo_platform] (\<lparr>pl_Entries = []\<rparr>, None) os_empty of
     (Ok (res, err), _) \<Rightarrow> flatten (cli_whole err res) = [Msg ''y''] \<and>
       flatten err = [Msg ''y'', EntryError demo_ref demo_platform (Msg ''x'')]
   | _ \<Rightarrow> False"
  by code_simp

theorem cli_blame_exact_witness:
  "\<exists>res err w'. copy_finish (demo_option False) demo_failing [demo_ref] [demo_platform] (\<lparr>pl_Entries = []\<rparr>, None) os_empty =
      (Ok (res, err), w') \<and>
    row_leaves res \<inter> set (flatten err) = {EntryError demo_ref demo_platform (Msg ''x'')}"
proof -
  obtain res err w' where run: "copy_finish (demo_option False) demo_failing [demo_ref] [demo_platform]
      (\<lparr>pl_Entries = []\<rparr>, None) os_empty = (Ok (res, err), w')"
    and errs: "flatten (cli_whole err res) = [Msg ''y'']"
      "flatten err = [Msg ''y'', EntryError demo_ref demo_platform (Msg ''x'')]"
    using demo_failed by (auto split: prod.splits res.splits)
  have flat: "flat_errors None" "\<And>v e v'. demo_failing p v = (Err e, v') \<Longrightarrow> flat_errors (Some e)" for p
    by (auto simp: flat_errors_def flatten_def demo_failing_def throw_def entry_flat_def)
  from cli_blame_exact [OF run flat] errs have "{Msg ''y''} =
      {Msg ''y'', EntryError demo_ref demo_platform (Msg ''x'')} - row_leaves res" by simp
  then have "row_leaves res \<inter> set (flatten err) = {EntryError demo_ref demo_platform (Msg ''x'')}"
    unfolding errs(2) by auto
  with run show ?thesis by blast
qed

section \<open>Progress\<close>

text \<open>
  C40: without a terminal the display prints one line each time a blob gets complete, and none else: at an
  event with the last byte, unless the event of that blob before it had the last byte already. It never
  panics, in whatever order events come and however often they repeat. The readers of a push make that one
  line for each blob that was read to its end; a pull that starts over may print a second.
\<close>

theorem progress_prints_once:
  assumes "\<forall>e \<in> snd ` set tes. in_int64 (ev_Total e)"
  shows "\<exists>p ls. progress_run tes (newProgress False) = Ok (p, ls) \<and>
    list_all2 (\<lambda>l e. copied_line e = Ok l) ls (completions (map snd tes)) \<and>
    (reader_events R (map snd tes) \<longrightarrow>
      distinct (map ev_Blob (completions (map snd tes))) \<and>
      ev_Blob ` set (completions (map snd tes)) = {b. fully_read (R b)})"
proof -
  have "distinct (map ev_Blob (completions (map snd tes))) \<and>
      ev_Blob ` set (completions (map snd tes)) = {b. fully_read (R b)}" if R: "reader_events R (map snd tes)"
  proof -
    note one = reader_finishes [OF R]
    have all: "completions (map snd tes) = filter finished (map snd tes)"
      by (rule finishing_completes) (simp only: one split: if_split, simp)
    have "distinct (map ev_Blob (filter finished (map snd tes)))"
      by (rule at_most_one_each) (simp only: one split: if_split, simp)
    moreover have "b \<in> ev_Blob ` set (filter finished (map snd tes)) \<longleftrightarrow> fully_read (R b)" for b
    proof -
      have "b \<in> ev_Blob ` set (filter finished (map snd tes)) \<longleftrightarrow>
          length (filter (\<lambda>e. ev_Blob e = b) (filter finished (map snd tes))) \<noteq> 0"
        unfolding length_0_conv filter_empty_conv by blast
      then show ?thesis by (simp only: one) simp
    qed
    ultimately show ?thesis unfolding all by blast
  qed
  with plain_display [OF assms] show ?thesis by blast
qed

definition demo_event :: "string \<Rightarrow> int \<Rightarrow> int \<Rightarrow> event" where
  "demo_event b n t = \<lparr>ev_Ref = demo_ref, ev_Platform = demo_platform, ev_Blob = b, ev_Done = n, ev_Total = t\<rparr>"

text \<open>Two uploads that interleave, one of which stops early.\<close>

definition demo_readers :: "string \<Rightarrow> event \<times> int list" where
  "demo_readers b =
     (if b = ''a'' then (demo_event b 0 2000, [1500, 500])
      else if b = ''b'' then (demo_event b 0 30, [10])
      else (demo_event b 0 0, []))"

definition demo_events :: "(int \<times> event) list" where
  "demo_events = [(1, demo_event ''a'' 1500 2000), (2, demo_event ''b'' 10 30), (3, demo_event ''a'' 2000 2000)]"

text \<open>The second run repeats the last event of a blob, which prints nothing more.\<close>

theorem progress_prints_once_witness:
  "\<exists>p q. progress_run demo_events (newProgress False) =
       Ok (p, [''copied a (2.0 KiB) for example.com/app:v1 linux/amd64'' @ [CHR 0x0A]]) \<and>
     progress_run (demo_events @ [(4, demo_event ''a'' 2000 2000)]) (newProgress False) =
       Ok (q, [''copied a (2.0 KiB) for example.com/app:v1 linux/amd64'' @ [CHR 0x0A]]) \<and>
     {b. fully_read (demo_readers b)} = {''a''}"
proof -
  let ?more = "demo_events @ [(4, demo_event ''a'' 2000 2000)]"
  have sizes: "\<forall>e \<in> snd ` set demo_events. in_int64 (ev_Total e)" "\<forall>e \<in> snd ` set ?more. in_int64 (ev_Total e)"
    by (auto simp: demo_events_def demo_event_def in_int64_def)
  have "reader_events demo_readers (map snd demo_events)"
    by (auto simp: reader_events_def demo_events_def demo_readers_def demo_event_def wrap64_id in_int64_def Let_def)
  with progress_prints_once [OF sizes(1)] obtain p ls where 1: "progress_run demo_events (newProgress False) = Ok (p, ls)"
    "list_all2 (\<lambda>l e. copied_line e = Ok l) ls (completions (map snd demo_events))"
    "ev_Blob ` set (completions (map snd demo_events)) = {b. fully_read (demo_readers b)}" by blast
  from progress_prints_once [OF sizes(2)] obtain q ls' where 2: "progress_run ?more (newProgress False) = Ok (q, ls')"
    "list_all2 (\<lambda>l e. copied_line e = Ok l) ls' (completions (map snd ?more))" by blast
  have "completions (map snd demo_events) = [demo_event ''a'' 2000 2000]"
    "completions (map snd ?more) = [demo_event ''a'' 2000 2000]"
    by (simp_all add: completions_def completes_def event_before_def demo_events_def finished_def demo_event_def upt_rec)
  moreover have "copied_line (demo_event ''a'' 2000 2000) =
      Ok (''copied a (2.0 KiB) for example.com/app:v1 linux/amd64'' @ [CHR 0x0A])" by code_simp
  ultimately show ?thesis using 1 2 by (auto simp: list_all2_Cons2 demo_event_def)
qed

text \<open>
  A pull is another matter: the cache reports the last byte of a blob before it checks the digest. A fetch
  that starts over because a partial file was corrupt shows the same blob as copied twice, the first time
  with content that was then thrown away.
\<close>

lemma copied_twice:
  "\<exists>p l. progress_run
     (map (\<lambda>n. (0, pull_event img demo_blob_desc n))
        (bw_reports (snd (cache_Fetch picky_lib (ret ()) demo_blob_desc demo_blob_src demo_cache))))
     (newProgress False) = Ok (p, [l, l])"
proof -
  have "d_Size demo_blob_desc = 5" "humanBytes 5 = Ok ''5 B''" by (simp add: demo_blob_desc_def, code_simp)
  then show ?thesis
    unfolding restart_reports
    by (auto simp: progress_event_def pull_event_def finished_def copied_line_def newProgress_def Let_def)
qed

end
