(* ===== verification/Program_Properties.thy ===== *)
theory Program_Properties
  imports Command_Tree Cli_Properties
begin

text \<open>
  The properties of the whole program: what the exit status of a \<open>copy\<close> command line means, from its
  arguments as the shell hands them over.
\<close>

text \<open>
  C38: a command line of \<open>copy\<close> with exit status 0 has done what it says. Its flags, configuration, locations,
  references and platforms were valid; containers-storage and the store at the location named were opened; the
  plan of exactly that input was made between the two and, unless it is a dry run, carried out without an error.
  When that was a push and the store was ready for it (its backend keeps the contract, the rest of the program
  leaves it alone), every reference is then in the store for every platform asked for: its leaf names a manifest
  that is there, verified, with its config and its layers.
\<close>

theorem program_copy_done:
  assumes "cobra_laws C" "stderr_returns M" "\<not> pr_reexec P"
    and "cb_Parse C (fst (rootCmd M (cb_Help C))) (snd (rootCmd M (cb_Help C))) (pr_argv P) = Invoke (Some 2) logs ferr g args"
    and "program M C P w = (Some 0, w')"
    and "\<And>n st. upload_schedule (ho_lib (cm_host M)) st n (cm_uploads M n st)"
  defines "H \<equiv> cm_host M" and "flags \<equiv> copy_flags_of g"
  shows "\<exists>src dst imgs platforms svc refs plan cs st w1 w2 us u v.
    copy_input M args (config_flag g) (\<lambda>name. g name \<noteq> None) flags src dst imgs platforms svc refs \<and>
    cli_begins (cm_console M) (flag_output flags) (printed M us w) = (Ok (), u) \<and>
    (let opt = copy_callbacks (cm_lib M) (cm_console M) (flag_output flags)
           \<lparr>co_Platforms = platforms, co_DryRun = fl_dryRun flags, co_Planned = None\<rparr>;
         push = (Kind src = KindContainersStorage)
     in
      carried_out H (cm_ctx_Err M) (cm_uploads M) src dst refs opt plan cs st w1 w2 (svc, u) v \<and>
      (\<exists>opts w w'. ho_GetStore H opts w = (Ok (st_store cs), w')) \<and>
      opens_at H (cm_ctx_Err M) (if push then dst else src) (push \<and> fl_dryRun flags) st \<and>
      (push \<and> \<not> fl_dryRun flags \<longrightarrow>
        (\<forall>tree ok. store_ready H (cm_ctx_Err M) (cm_uploads M) refs opt plan cs st tree ok w1 \<longrightarrow>
          tree w1 \<subseteq>\<^sub>m tree w2 \<and> store_inv (ho_lib H) (tree w2) \<and>
          (\<forall>ref \<in> set refs. \<forall>p \<in> set (copy_platforms (ho_runtime H) platforms).
             \<exists>md. leaf_holds (ho_lib H) (tree w2) ref p md \<and> image_closed (ho_lib H) (tree w2) p (d_Digest md)))))"
proof -
  from program_zero [OF assms(3,5)] obtain x where run: "Execute M C (pr_environ P) (pr_argv P) w = (Ok Finished, x)" ..
  from Execute_stages [OF assms(1,2,4), of "pr_environ P" w]
  obtain us where handled: "runCopy M args (config_flag g) (\<lambda>name. g name \<noteq> None) flags (printed M us w) = (Ok Finished, x)"
    and fit: "2 \<le> length args"
    unfolding flags_def by cases (use run in \<open>auto simp: command_fields args_fit_def\<close>)
  obtain src dst imgs platforms svc refs plan cs st w1 w2 u v where
    input: "copy_input M args (config_flag g) (\<lambda>name. g name \<noteq> None) flags src dst imgs platforms svc refs"
    and begins: "cli_begins (cm_console M) (flag_output flags) (printed M us w) = (Ok (), u)"
    and carried: "carried_out H (cm_ctx_Err M) (cm_uploads M) src dst refs
      (copy_callbacks (cm_lib M) (cm_console M) (flag_output flags)
        \<lparr>co_Platforms = platforms, co_DryRun = fl_dryRun flags, co_Planned = None\<rparr>) plan cs st w1 w2 (svc, u) v"
    unfolding H_def by (rule runCopy_Finished [OF handled fit assms(6)])
  from input have "service_New H (flag_config flags (\<lambda>name. g name \<noteq> None) (fst (LoadConfig (cm_config M) (config_flag g)))) None = Ok svc"
    unfolding copy_input_def H_def by auto
  from service_New_fresh [OF this] have fresh: "sv_cs svc = None" by blast
  have storage: "\<exists>opts w w'. ho_GetStore H opts w = (Ok (st_store cs), w')"
    using carried containersStorage_opened [of H "cm_ctx_Err M" "(svc, u)" cs] fresh
    unfolding carried_out_def Let_def by auto
  have place: "opens_at H (cm_ctx_Err M) (if Kind src = KindContainersStorage then dst else src)
      (Kind src = KindContainersStorage \<and> fl_dryRun flags) st"
  proof -
    from carried obtain sw1 close svc' where "service_openStore H (cm_ctx_Err M)
        (if Kind src = KindContainersStorage then dst else src)
        (copy_mode (Kind src = KindContainersStorage) (fl_dryRun flags)) sw1 = (Ok (st, close), (svc', w1))"
      unfolding carried_out_def Let_def by (auto simp: callbacks_fields)
    from openStore_at [OF this] show ?thesis by (simp add: copy_mode_def split: if_splits)
  qed
  let ?opt = "copy_callbacks (cm_lib M) (cm_console M) (flag_output flags)
    \<lparr>co_Platforms = platforms, co_DryRun = fl_dryRun flags, co_Planned = None\<rparr>"
  have stored: "Kind src = KindContainersStorage \<and> \<not> fl_dryRun flags \<longrightarrow>
    (\<forall>tree ok. store_ready H (cm_ctx_Err M) (cm_uploads M) refs ?opt plan cs st tree ok w1 \<longrightarrow>
      tree w1 \<subseteq>\<^sub>m tree w2 \<and> store_inv (ho_lib H) (tree w2) \<and>
      (\<forall>ref \<in> set refs. \<forall>p \<in> set (copy_platforms (ho_runtime H) platforms).
         \<exists>md. leaf_holds (ho_lib H) (tree w2) ref p md \<and> image_closed (ho_lib H) (tree w2) p (d_Digest md)))"
  proof (intro impI allI)
    fix tree and ok :: "'a \<Rightarrow> bool"
    assume push: "Kind src = KindContainersStorage \<and> \<not> fl_dryRun flags"
      and ready: "store_ready H (cm_ctx_Err M) (cm_uploads M) refs ?opt plan cs st tree ok w1"
    from push have "Kind src = KindContainersStorage" "\<not> co_DryRun ?opt" by (simp_all add: callbacks_fields)
    note stored = carried_out_stored [OF carried this ready assms(6) [folded H_def],
      unfolded callbacks_fields copy_option.select_convs]
    show "tree w1 \<subseteq>\<^sub>m tree w2 \<and> store_inv (ho_lib H) (tree w2) \<and>
      (\<forall>ref \<in> set refs. \<forall>p \<in> set (copy_platforms (ho_runtime H) platforms).
         \<exists>md. leaf_holds (ho_lib H) (tree w2) ref p md \<and> image_closed (ho_lib H) (tree w2) p (d_Digest md))"
      by (rule stored)
  qed
  show ?thesis
    unfolding Let_def by ((rule exI)+, (rule conjI input begins carried storage place stored)+)
qed

section \<open>A command line to run\<close>

text \<open>A parser of command lines that knows \<open>--quiet\<close> and \<open>--platform\<close>.\<close>

fun demo_options :: "string list \<Rightarrow> given \<times> string list" where
  "demo_options [] = (Map.empty, [])"
| "demo_options (a # as) =
     (case demo_options as of (g, args) \<Rightarrow>
        if a = ''--quiet'' then (g(''quiet'' \<mapsto> FlagBool True), args)
        else if a = ''--platform'' then
          (g(''platform'' \<mapsto> FlagStrings (take 1 args @ strings_flag copy_flag_list g ''platform'')), drop 1 args)
        else (g, a # args))"

fun demo_find_command :: "string \<Rightarrow> 'w cobra_command list \<Rightarrow> nat option" where
  "demo_find_command name [] = None"
| "demo_find_command name (c # cs) =
     (if takeWhile (\<lambda>x. x \<noteq> CHR '' '') (cc_Use c) = name then Some 0 else map_option Suc (demo_find_command name cs))"

definition demo_Parse :: "'w root_command \<Rightarrow> 'w cobra_command list \<Rightarrow> string list \<Rightarrow> 'w invocation" where
  "demo_Parse root subs argv =
     (case argv of
        [] \<Rightarrow> Invoke None [] None Map.empty []
      | name # rest \<Rightarrow>
          (case demo_find_command name subs of
             None \<Rightarrow> Invoke None [] None Map.empty argv
           | Some k \<Rightarrow> (case demo_options rest of (g, args) \<Rightarrow> Invoke (Some k) [] None g args)))"

definition demo_cobra :: "os cobra" where
  "demo_cobra =
     \<lparr>cb_Help = ret (), cb_Parse = demo_Parse,
      cb_Args = (\<lambda>p args.
        let ok = (case p of NoArgs \<Rightarrow> args = [] | ExactArgs n \<Rightarrow> length args = n | MinimumNArgs n \<Rightarrow> n \<le> length args)
        in if ok then None else Some (Msg ''args'')),
      cb_FlagError = id\<rparr>"

lemma demo_find_less: "demo_find_command name cs = Some k \<Longrightarrow> k < length cs"
  by (induction cs arbitrary: k) (auto split: if_splits)

lemma demo_cobra_laws: "cobra_laws demo_cobra"
proof -
  have "ExitCode (Some (Msg ''args'')) = ExitFailure" by code_simp
  then show ?thesis
    by (auto simp: cobra_laws_def demo_cobra_def Let_def demo_Parse_def dest: demo_find_less
        split: list.splits option.splits prod.splits)
qed

definition demo_process :: "string list \<Rightarrow> os process" where
  "demo_process argv = \<lparr>pr_reexec = False, pr_environ = [''HOME=/root''], pr_argv = argv, pr_ctxErr = (\<lambda>_. None), pr_signal = (\<lambda>_. None)\<rparr>"

lemma demo_stderr: "stderr_returns demo_command"
  by (simp add: stderr_returns_def demo_command_def demo_console_def ret_def)

abbreviation demo_given :: given where
  "demo_given \<equiv> [''platform'' \<mapsto> FlagStrings [''linux/amd64''], ''quiet'' \<mapsto> FlagBool True]"

text \<open>What the demo command line is parsed to, and the run of the program on it.\<close>

lemma demo_line:
  assumes "demo_options rest = (g, args)"
  shows "cb_Parse demo_cobra (fst (rootCmd M help)) (snd (rootCmd M help)) (pr_argv (demo_process (''copy'' # rest))) =
    Invoke (Some 2) [] None g args"
  using assms
  by (simp add: demo_cobra_def demo_Parse_def demo_process_def rootCmd_def versionCmd_def configCmd_def copyCmd_def)

lemma demo_lines:
  assumes "demo_options rest = (g, args)"
  shows "cb_Parse demo_cobra (fst (rootCmd M help)) (snd (rootCmd M help)) (pr_argv (demo_process (''version'' # rest))) =
      Invoke (Some 0) [] None g args"
    "cb_Parse demo_cobra (fst (rootCmd M help)) (snd (rootCmd M help)) (pr_argv (demo_process (''list'' # rest))) =
      Invoke (Some 3) [] None g args"
  using assms
  by (simp_all add: demo_cobra_def demo_Parse_def demo_process_def rootCmd_def versionCmd_def configCmd_def copyCmd_def
      listCmd_def)

lemma demo_printed: "printed demo_command ts w = w"
proof -
  have "for_each (\<lambda>s. ret ()) ts w = (Ok (), w)" for ts :: "string list" by (induction ts) (simp_all add: ret_def ebind_def)
  then show ?thesis
    by (simp add: printed_def demo_command_def demo_console_def ignore_err_def ebind_def attempt_def ret_def)
qed

lemma demo_copy_line: "demo_options (''--quiet'' # ''--platform'' # ''linux/amd64'' # demo_args) = (demo_given, demo_args)"
  by (simp add: strings_flag_def flag_var_def copy_flag_list_def flag_of_def fun_upd_twist)

lemma demo_copy_flags: "copy_flags_of demo_given = demo_flags" "config_flag demo_given = []"
  by (simp_all add: copy_flags_of_def demo_flags_def copy_flag_defaults_def bool_flag_def string_flag_def strings_flag_def
      int_flag_def flag_var_def copy_flag_list_def root_flags_def log_flags_def flag_of_def)

abbreviation demo_copy_process :: "os process" where
  "demo_copy_process \<equiv> demo_process (''copy'' # ''--quiet'' # ''--platform'' # ''linux/amd64'' # demo_args)"

lemma demo_program: "\<exists>w'. program demo_command demo_cobra demo_copy_process demo_done = (Some 0, w')"
proof -
  note parsed = demo_line [OF demo_copy_line]
  have ok: "snd (parse_log_args [] (fst RegisterFlags)) = None" "args_fit (Some 2) demo_args"
    by (simp_all add: args_fit_def)
  from demo_run [of "\<lambda>name. demo_given name \<noteq> None"] obtain w' where
    run: "runCopy demo_command demo_args [] (\<lambda>name. demo_given name \<noteq> None) demo_flags demo_done = (Ok Finished, w')" by auto
  from demo_cobra_laws demo_stderr parsed have "Execute demo_command demo_cobra (pr_environ demo_copy_process)
      (pr_argv demo_copy_process) demo_done = (Ok Finished, w')"
  proof (cases rule: Execute_stages [where environ = "pr_environ demo_copy_process" and w = demo_done])
    case (Refused e)
    with ok show ?thesis by blast
  next
    case (Handled us)
    with run show ?thesis by (simp only: command_fields demo_copy_flags demo_printed)
  qed
  then show ?thesis
    by (simp add: program_def program_exit_def main_exit_def main_error_def ExitOk_def demo_process_def)
qed

theorem program_copy_done_witness:
  "\<exists>md w2. program demo_command demo_cobra demo_copy_process demo_done = (Some 0, w2) \<and>
     (\<exists>t. leaf_holds demo_lib t demo_ref demo_platform md \<and> image_closed demo_lib t demo_platform (d_Digest md))"
proof -
  from demo_program obtain w' where run: "program demo_command demo_cobra demo_copy_process demo_done = (Some 0, w')" ..
  have fields: "cm_host demo_command = demo_host" "cm_ctx_Err demo_command = os_ctx_Err" "cm_console demo_command = demo_console"
    "cm_uploads demo_command = (\<lambda>n. demo_uploads)" "fl_dryRun demo_flags = False" "ho_lib demo_host = demo_lib"
    "flag_output demo_flags = OutputQuiet" "copy_callbacks cl T OutputQuiet opt = opt" for cl and T :: "os console" and opt
    by (simp_all add: demo_command_def demo_flags_def copy_flag_defaults_def demo_host_def flag_output_def copy_callbacks_def)
  have alive: "\<not> pr_reexec demo_copy_process" by (simp add: demo_process_def)
  from program_copy_done [OF demo_cobra_laws demo_stderr alive demo_line [OF demo_copy_line] run, unfolded fields
      demo_copy_flags demo_printed, OF demo_schedule]
  obtain src dst imgs platforms svc refs plan cs st w1 w2 u v where
    input: "copy_input demo_command demo_args [] (\<lambda>name. demo_given name \<noteq> None) demo_flags src dst imgs platforms svc refs"
    and begins: "cli_begins demo_console OutputQuiet demo_done = (Ok (), u)"
    and carried: "carried_out demo_host os_ctx_Err (\<lambda>n. demo_uploads) src dst refs
      \<lparr>co_Platforms = platforms, co_DryRun = False, co_Planned = None\<rparr> plan cs st w1 w2 (svc, u) v"
    and stored: "Kind src = KindContainersStorage \<longrightarrow> (\<forall>tree ok. store_ready demo_host os_ctx_Err (\<lambda>n. demo_uploads) refs
        \<lparr>co_Platforms = platforms, co_DryRun = False, co_Planned = None\<rparr> plan cs st tree ok w1 \<longrightarrow>
        (\<forall>ref \<in> set refs. \<forall>p \<in> set (copy_platforms (ho_runtime demo_host) platforms).
          \<exists>md. leaf_holds demo_lib (tree w2) ref p md \<and> image_closed demo_lib (tree w2) p (d_Digest md)))"
    unfolding Let_def by auto
  have unset: "\<not> demo_given ''compression-level'' \<noteq> None" "\<not> demo_given ''concurrency'' \<noteq> None" by simp_all
  note ready = demo_carried [OF unset input begins carried]
  have "Kind src = KindContainersStorage" using ready(1) by (simp add: demo_src_def)
  with stored have "store_ready demo_host os_ctx_Err (\<lambda>n. demo_uploads) refs
      \<lparr>co_Platforms = platforms, co_DryRun = False, co_Planned = None\<rparr> plan cs st demo_tree (\<lambda>w. demo_ok w) w1 \<longrightarrow>
      (\<forall>ref \<in> set refs. \<forall>p \<in> set (copy_platforms (ho_runtime demo_host) platforms).
        \<exists>md. leaf_holds demo_lib (demo_tree w2) ref p md \<and> image_closed demo_lib (demo_tree w2) p (d_Digest md))"
    by blast
  from mp [OF this ready(4)] have "\<forall>ref \<in> set refs. \<forall>p \<in> set (copy_platforms (ho_runtime demo_host) platforms).
      \<exists>md. leaf_holds demo_lib (demo_tree w2) ref p md \<and> image_closed demo_lib (demo_tree w2) p (d_Digest md)" .
  then obtain md where "leaf_holds demo_lib (demo_tree w2) demo_ref demo_platform md"
    "image_closed demo_lib (demo_tree w2) demo_platform (d_Digest md)"
    using ready(2,3) by (auto simp: demo_platforms)
  with run show ?thesis by blast
qed

section \<open>A command line that is wrong\<close>

text \<open>The input of a subcommand, after its flags and the number of its arguments have been found right.\<close>

definition right_input :: "('w, 'o, 'f, 'r, 'a) command \<Rightarrow> nat option \<Rightarrow> given \<Rightarrow> string list \<Rightarrow> bool" where
  "right_input M i g args \<longleftrightarrow>
     (if i = Some 1 then config_input M (config_flag g) (string_flag config_flags g ''format'')
      else if i = Some 2 then
        (\<exists>src dst imgs platforms svc refs. copy_input M args (config_flag g) (\<lambda>name. g name \<noteq> None)
           (copy_flags_of g) src dst imgs platforms svc refs)
      else if i = Some 3 then (\<exists>loc svc. list_input M args (config_flag g) loc svc)
      else True)"

text \<open>
  The exit status of a wrong command line: 1, but for superfluous arguments of \<open>version\<close> and \<open>config\<close>,
  which are not marked as usage errors, and for a template that cannot be parsed, whose error is the library's.
\<close>

definition wrong_status :: "('w, 'o, 'f, 'r, 'a) command \<Rightarrow> bool \<Rightarrow> nat option \<Rightarrow> given \<Rightarrow> string list \<Rightarrow> int" where
  "wrong_status M flags_ok i g args =
     (if \<not> flags_ok then 1
      else if \<not> args_fit i args then (if i = Some 0 \<or> i = Some 1 then 2 else 1)
      else if i = Some 1 \<and> snd (LoadConfig (cm_config M) (config_flag g)) = None then
        (case cl_template (cm_lib M) (string_flag config_flags g ''format'') of
           Inl x \<Rightarrow> ExitCode (Some (Wrap1 ''--format'' x))
         | Inr _ \<Rightarrow> 0)
      else 1)"

lemma handler_refused:
  assumes run: "cc_RunE (command_of (rootCmd M help) i) g args w = (r, w')"
    and fit: "args_fit i args" and wrong: "\<not> right_input M i g args"
  shows "\<exists>e. r = Err e \<and> w' = w \<and> ExitCode (Some e) = wrong_status M True i g args"
proof -
  consider (config) "i = Some 1" | (copy) "i = Some 2" | (list) "i = Some 3"
    using wrong unfolding right_input_def by presburger
  then show ?thesis
  proof cases
    case config
    obtain x v where done_: "runConfig M (config_flag g) (string_flag config_flags g ''format'') w = (x, v)" by fastforce
    from wrong config have "\<not> config_input M (config_flag g) (string_flag config_flags g ''format'')"
      by (simp add: right_input_def)
    from runConfig_refused [OF done_ this] obtain e where e: "x = Err e" "v = w"
      "case snd (LoadConfig (cm_config M) (config_flag g)) of
         Some _ \<Rightarrow> ExitCode (Some e) = 1
       | None \<Rightarrow> \<exists>y. cl_template (cm_lib M) (string_flag config_flags g ''format'') = Inl y \<and> e = Wrap1 ''--format'' y"
      by blast
    have "r = Err e" "w' = w" using run done_ e(1,2) config by (auto simp: handler_fields [unfolded One_nat_def] ebind_def)
    moreover have "ExitCode (Some e) = wrong_status M True i g args"
      using e(3) fit config by (auto simp: wrong_status_def split: option.splits)
    ultimately show ?thesis by (intro exI [of _ e]) simp
  next
    case copy
    have len: "2 \<le> length args" using fit copy by (simp add: args_fit_def)
    have status: "wrong_status M True i g args = 1" using copy fit by (simp add: wrong_status_def)
    from run copy have "runCopy M args (config_flag g) (\<lambda>name. g name \<noteq> None) (copy_flags_of g) w = (r, w')"
      by (simp add: command_fields)
    from this len show ?thesis
    proof (cases rule: runCopy_stages)
      case (Usage e)
      with status show ?thesis by simp
    qed (use wrong copy in \<open>auto simp: right_input_def\<close>)
  next
    case list
    have some: "args \<noteq> []" using fit list by (auto simp: args_fit_def)
    obtain x v where done_: "runList M args (config_flag g) (string_flag list_flags g ''repository'')
        (bool_flag list_flags g ''json'') w = (x, v)" by fastforce
    from wrong list have "\<nexists>loc svc. list_input M args (config_flag g) loc svc" by (simp add: right_input_def)
    from runList_refused [OF done_ some this] obtain e where e: "x = Err e" "v = w" "ExitCode (Some e) = 1" by blast
    from run have "ebind (runList M args (config_flag g) (string_flag list_flags g ''repository'')
        (bool_flag list_flags g ''json'')) (\<lambda>_. ret Finished) w = (r, w')"
      unfolding list handler_fields .
    then have "r = Err e" "w' = w" unfolding ebind_def done_ e(1,2) by simp_all
    moreover have "wrong_status M True i g args = 1" using list fit by (simp add: wrong_status_def)
    ultimately show ?thesis using e(3) by (intro exI [of _ e]) simp
  qed
qed

text \<open>A \<open>copy\<close> that does not get past the user namespace.\<close>

lemma copy_namespace:
  assumes run: "cc_RunE (command_of (rootCmd M help) (Some 2)) g args w = (r, w')" and fit: "args_fit (Some 2) args"
    and input: "copy_input M args (config_flag g) (\<lambda>name. g name \<noteq> None) (copy_flags_of g) src dst imgs platforms svc refs"
    and outside: "enterUserNamespace (cm_userns M) [src, dst] \<noteq> Entered"
  shows "w' = w \<and> (case enterUserNamespace (cm_userns M) [src, dst] of
    Refused e \<Rightarrow> r = Err e | _ \<Rightarrow> r = Ok Replaced)"
proof -
  from run have copy: "runCopy M args (config_flag g) (\<lambda>name. g name \<noteq> None) (copy_flags_of g) w = (r, w')"
    by (simp add: command_fields)
  have len: "2 \<le> length args" using fit by (simp add: args_fit_def)
  from copy len show ?thesis
  proof (cases rule: runCopy_stages)
    case (Namespace src' dst' imgs' platforms' svc' refs')
    with copy_input_unique [OF Namespace(1) input] show ?thesis by (auto simp del: enterUserNamespace.simps)
  next
    case (Copying src' dst' imgs' platforms' svc' refs' sw')
    with copy_input_unique [OF Copying(1) input] outside show ?thesis by blast
  qed (use input in blast)
qed

text \<open>
  C39: a command line that is wrong in any part touches nothing but the error output, where it says why.
  The parts are the flags, the number of arguments, and the input of the subcommand: for \<open>config\<close> the
  configuration and the template, for \<open>list\<close> the configuration and the location, which has to be one that can
  be listed, for \<open>copy\<close> the exclusive flags, the configuration, the locations, the image set, the platforms,
  the settings and the direction. The exit status is 1, the one of a usage error, but for superfluous arguments
  of \<open>version\<close> and \<open>config\<close> (2) and a template that cannot be parsed (the status of the library's error).
  A \<open>copy\<close> with right input that may not enter the user namespace, or that goes on in a child process, has
  touched nothing either.
\<close>

theorem program_checks_first:
  assumes "cobra_laws C" "stderr_returns M" "\<not> pr_reexec P" "pr_ctxErr P = (\<lambda>_. None)"
    and "cb_Parse C (fst (rootCmd M (cb_Help C))) (snd (rootCmd M (cb_Help C))) (pr_argv P) = Invoke i logs ferr g args"
    and "program M C P w = (st, w')"
  defines "flags_ok \<equiv> snd (parse_log_args logs (fst RegisterFlags)) = None \<and> ferr = None"
  shows "(\<not> (flags_ok \<and> args_fit i args \<and> right_input M i g args) \<longrightarrow>
      st = Some (wrong_status M flags_ok i g args) \<and>
      (\<exists>t us. w' = printed M [t] (printed M us w) \<and> (flags_ok \<and> args_fit i args \<or> us = []))) \<and>
    (\<forall>src dst imgs platforms svc refs.
      flags_ok \<and> args_fit i args \<and> i = Some 2 \<and> enterUserNamespace (cm_userns M) [src, dst] \<noteq> Entered \<and>
      copy_input M args (config_flag g) (\<lambda>name. g name \<noteq> None) (copy_flags_of g) src dst imgs platforms svc refs \<longrightarrow>
      (case enterUserNamespace (cm_userns M) [src, dst] of
         Refused e \<Rightarrow> st = Some (ExitCode (Some e)) \<and> (\<exists>t us. w' = printed M [t] (printed M us w))
       | _ \<Rightarrow> st = None \<and> (\<exists>us. w' = printed M us w)))"
  using assms(1,2,5)
proof (cases rule: Execute_stages [where environ = "pr_environ P" and w = w])
  case (Refused e)
  from program_result(1) [OF assms(3,4) Refused(1)] obtain t where
    "st = Some (ExitCode (Some e))" "w' = printed M [t] (printed M [] w)" using assms(6) by auto
  moreover have "\<not> (flags_ok \<and> args_fit i args)" "ExitCode (Some e) = wrong_status M flags_ok i g args"
    using Refused(2,3) by (auto simp: flags_ok_def wrong_status_def)
  ultimately show ?thesis by blast
next
  case (Handled us)
  let ?w = "printed M us w"
  have ok: "flags_ok" "args_fit i args" using Handled by (simp_all add: flags_ok_def)
  obtain r v where handler: "cc_RunE (command_of (rootCmd M (cb_Help C)) i) g args ?w = (r, v)" by fastforce
  have run: "Execute M C (pr_environ P) (pr_argv P) w = (r, v)" using Handled(1) handler by simp
  have failed: "st = Some (ExitCode (Some e)) \<and> (\<exists>t. w' = printed M [t] v)" if "r = Err e" for e
    using program_result(1) [OF assms(3,4) run [unfolded that]] assms(6) by auto
  have wrong: "st = Some (wrong_status M flags_ok i g args) \<and> (\<exists>t. w' = printed M [t] ?w)"
    if "\<not> right_input M i g args"
    using handler_refused [OF handler ok(2) that] failed ok(1) by auto
  have copy: "case enterUserNamespace (cm_userns M) [src, dst] of
      Refused e \<Rightarrow> st = Some (ExitCode (Some e)) \<and> (\<exists>t us. w' = printed M [t] (printed M us w))
    | _ \<Rightarrow> st = None \<and> (\<exists>us. w' = printed M us w)"
    if two: "i = Some 2" and space: "enterUserNamespace (cm_userns M) [src, dst] \<noteq> Entered"
      and input: "copy_input M args (config_flag g) (\<lambda>name. g name \<noteq> None) (copy_flags_of g) src dst imgs platforms svc refs"
    for src dst imgs platforms svc refs
  proof -
    from copy_namespace [OF handler [unfolded two] ok(2) [unfolded two] input space]
    have v: "v = ?w" and out: "case enterUserNamespace (cm_userns M) [src, dst] of
        Refused e \<Rightarrow> r = Err e | _ \<Rightarrow> r = Ok Replaced" by blast+
    show ?thesis
    proof (cases "enterUserNamespace (cm_userns M) [src, dst]")
      case (Refused e)
      with out failed [of e] v show ?thesis by (auto simp del: enterUserNamespace.simps)
    next
      case Reexec
      with out run v have "Execute M C (pr_environ P) (pr_argv P) w = (Ok Replaced, ?w)"
        by (simp del: enterUserNamespace.simps)
      from program_result(2) [OF assms(3,4) this] assms(6) Reexec show ?thesis
        by (auto simp del: enterUserNamespace.simps)
    qed (use space in blast)
  qed
  show ?thesis using wrong copy ok by blast
qed

text \<open>
  \<open>copy\<close> takes two locations, \<open>s3:/store\<close> is none, containers-storage cannot be listed, and \<open>version\<close> takes no
  argument.
\<close>

theorem program_checks_first_witness:
  "fst (program demo_command demo_cobra (demo_process [''copy'', ''containers-storage:'']) demo_done) = Some 1 \<and>
   fst (program demo_command demo_cobra (demo_process [''copy'', ''containers-storage:'', ''s3:/store'']) demo_done) = Some 1 \<and>
   fst (program demo_command demo_cobra (demo_process [''list'', ''containers-storage:'']) demo_done) = Some 1 \<and>
   fst (program demo_command demo_cobra (demo_process [''version'', ''now'']) demo_done) = Some 2"
proof -
  have alive: "\<not> pr_reexec (demo_process a)" "pr_ctxErr (demo_process a) = (\<lambda>_. None)" for a by (simp_all add: demo_process_def)
  have ok: "snd (parse_log_args [] (fst RegisterFlags)) = None" by simp
  let ?a = "[''containers-storage:'']" and ?b = "[''containers-storage:'', ''s3:/store'']"
  have lines: "demo_options ?a = (Map.empty, ?a)" "demo_options ?b = (Map.empty, ?b)"
    "demo_options [''now''] = (Map.empty, [''now''])" by simp_all
  have fit: "\<not> args_fit (Some 2) ?a" "args_fit (Some 2) ?b" "args_fit (Some 3) ?a" "\<not> args_fit (Some 0) [''now'']"
    by (simp_all add: args_fit_def)
  have "case ParseLocation (ho_url demo_host) ''s3:/store'' of Ok _ \<Rightarrow> False | _ \<Rightarrow> True" by code_simp
  then have no_copy: "\<not> right_input demo_command (Some 2) Map.empty ?b"
    by (auto simp: copy_input_def demo_command_def right_input_def)
  have "ParseLocation (ho_url demo_host) ''containers-storage:'' = Ok \<lparr>Kind = KindContainersStorage, URL = None\<rparr>" by code_simp
  then have no_list: "\<not> right_input demo_command (Some 3) Map.empty ?a"
    by (auto simp: list_input_def demo_command_def right_input_def)
  note check = program_checks_first [OF demo_cobra_laws demo_stderr alive]
  note version = conjunct1 [OF check [OF demo_lines(1) [OF lines(3)] prod.collapse [symmetric]]]
  note copy = conjunct1 [OF check [OF demo_line prod.collapse [symmetric]]]
  note list = conjunct1 [OF check [OF demo_lines(2) [OF lines(1)] prod.collapse [symmetric]]]
  have "fst (program demo_command demo_cobra (demo_process (''copy'' # ?a)) demo_done) = Some 1"
    using copy [OF lines(1)] fit(1) ok by (simp add: wrong_status_def)
  moreover have "fst (program demo_command demo_cobra (demo_process (''copy'' # ?b)) demo_done) = Some 1"
    using copy [OF lines(2)] fit(2) ok no_copy by (simp add: wrong_status_def)
  moreover have "fst (program demo_command demo_cobra (demo_process (''list'' # ?a)) demo_done) = Some 1"
    using list fit(3) ok no_list by (simp add: wrong_status_def)
  moreover have "fst (program demo_command demo_cobra (demo_process [''version'', ''now'']) demo_done) = Some 2"
    using version fit(4) ok by (simp add: wrong_status_def)
  ultimately show ?thesis by simp
qed

end
