(* ===== verification/Store_Abstract.thy ===== *)
theory Store_Abstract
  imports Store_Walk
begin

text \<open>
  What a store is, without its tree: blobs by digest, pairs of a diffID and a blob, and manifests by
  reference and platform. \<open>store_abs\<close> reads this off a tree, and over a backend whose calls succeed the
  operations of package store are simple updates of it.
\<close>

section \<open>The abstract store\<close>

record store_state =
  s_blobs :: "string \<rightharpoonup> bytes"
  s_marks :: "(string \<times> string) set"
  s_leaves :: "reference \<times> platform \<rightharpoonup> descriptor"

text \<open>The one manifest of an index.\<close>

definition sole_manifest :: "oci_lib \<Rightarrow> bytes \<Rightarrow> descriptor option" where
  "sole_manifest L b =
     (case json_Index L b of
        Inl e \<Rightarrow> None
      | Inr ix \<Rightarrow> (case i_Manifests ix of [md] \<Rightarrow> Some md | _ \<Rightarrow> None))"

definition store_abs :: "oci_lib \<Rightarrow> tree \<Rightarrow> store_state" where
  "store_abs L t =
     \<lparr>s_blobs = (\<lambda>d. if valid_digest L d then t (seg_path (blob_segs L d)) else None),
      s_marks = {(d, b). valid_digest L d \<and> valid_digest L b \<and> t (seg_path (diff_segs L d b)) \<noteq> None},
      s_leaves = (\<lambda>(ref, p).
        if leafable L ref p \<and> leaf_reference ref = ref
        then Option.bind (t (leaf_index_path L ref p)) (sole_manifest L) else None)\<rparr>"

definition spec_put :: "string \<Rightarrow> bytes \<Rightarrow> store_state \<Rightarrow> store_state" where
  "spec_put d b s = (if s_blobs s d = None then s\<lparr>s_blobs := (s_blobs s)(d \<mapsto> b)\<rparr> else s)"

definition spec_mark :: "(string \<times> string) set \<Rightarrow> store_state \<Rightarrow> store_state" where
  "spec_mark ms s = s\<lparr>s_marks := s_marks s \<union> ms\<rparr>"

definition spec_leaf :: "reference \<times> platform \<Rightarrow> descriptor \<Rightarrow> store_state \<Rightarrow> store_state" where
  "spec_leaf k md s = (if s_leaves s k = None then s\<lparr>s_leaves := (s_leaves s)(k \<mapsto> md)\<rparr> else s)"

text \<open>What a commit of manifest \<open>m\<close> with config \<open>cfg\<close> adds.\<close>

definition leaf_key :: "reference \<Rightarrow> platform \<Rightarrow> reference \<times> platform" where
  "leaf_key ref p = (leaf_reference ref, p)"

definition leaf_descriptor :: "reference \<Rightarrow> platform \<Rightarrow> descriptor \<Rightarrow> descriptor" where
  "leaf_descriptor ref p md = hd (i_Manifests (leaf_index ref p md))"

definition marks_of :: "manifest \<Rightarrow> image_config \<Rightarrow> (string \<times> string) set" where
  "marks_of m cfg = set (zip (c_DiffIDs cfg) (map d_Digest (m_Layers m)))"

definition spec_commit ::
  "reference \<Rightarrow> platform \<Rightarrow> descriptor \<Rightarrow> manifest \<Rightarrow> image_config \<Rightarrow> store_state \<Rightarrow> store_state" where
  "spec_commit ref p md m cfg s =
     spec_leaf (leaf_key ref p) (leaf_descriptor ref p md) (spec_mark (marks_of m cfg) s)"

lemma leaf_descriptor_fields [simp]:
  "d_Digest (leaf_descriptor ref p md) = d_Digest md" "d_MediaType (leaf_descriptor ref p md) = d_MediaType md"
  by (simp_all add: leaf_descriptor_def leaf_index_def)

lemma sole_leaf_index:
  "json_laws L \<Longrightarrow> marshal_Index L (leaf_index ref p md) = Inr b \<Longrightarrow> sole_manifest L b = Some (leaf_descriptor ref p md)"
  by (auto simp: json_laws_def sole_manifest_def leaf_index_def leaf_descriptor_def)

section \<open>Reading the tree\<close>

lemma leaf_holds_sole: "leaf_holds L t ref p md \<longleftrightarrow> Option.bind (t (leaf_index_path L ref p)) (sole_manifest L) = Some md"
  by (cases "t (leaf_index_path L ref p)")
    (auto simp: leaf_holds_def sole_manifest_def split: sum.splits list.splits)

lemma leaf_reference_segs [simp]:
  "leaf_segs L (leaf_reference ref) p = leaf_segs L ref p" "leaf_index_path L (leaf_reference ref) p = leaf_index_path L ref p"
  by (simp_all add: leaf_segs_def leaf_reference_def key_segs_def leaf_index_path_def)

lemma leaf_reference_idem [simp]: "leaf_reference (leaf_reference ref) = leaf_reference ref"
  by (simp add: leaf_reference_def)

lemma leafable_reference [simp]: "leafable L ref p \<Longrightarrow> leafable L (leaf_reference ref) p"
  unfolding leafable_def leaf_reference_segs by (auto simp: wf_reference_def leaf_reference_def)

lemma abs_leaf: "leafable L ref p \<Longrightarrow>
    s_leaves (store_abs L t) (leaf_key ref p) = Option.bind (t (leaf_index_path L ref p)) (sole_manifest L)"
  by (simp add: store_abs_def leaf_key_def)

lemma abs_leaf_holds: "leafable L ref p \<Longrightarrow>
    s_leaves (store_abs L t) (leaf_key ref p) = Some md \<longleftrightarrow> leaf_holds L t ref p md"
  by (simp add: abs_leaf leaf_holds_sole)

lemma abs_blob: "s_blobs (store_abs L t) d = Some b \<longleftrightarrow> blob_at L t d b"
  by (simp add: store_abs_def blob_at_def)

lemma abs_has_blob: "has_blob L t d \<longleftrightarrow> s_blobs (store_abs L t) d \<noteq> None"
  by (simp add: store_abs_def has_blob_def)

lemma leaf_index_inj:
  assumes "digest_laws L" "leafable L ref p" "leafable L ref' p'" "leaf_index_path L ref p = leaf_index_path L ref' p'"
  shows "leaf_key ref p = leaf_key ref' p'"
proof -
  have "leaf_segs L ref p = leaf_segs L ref' p'"
    using seg_path_inj [of "leaf_segs L ref p @ [ImageIndexFile]" "leaf_segs L ref' p' @ [ImageIndexFile]"]
      store_segs_leaf [OF assms(1)] assms(2-4) unfolding leaf_index_path_def leaf_file_def by simp
  then show ?thesis
    using leaf_segs_inj [OF assms(1)] leafableD(1,2) [OF assms(2)] leafableD(1,2) [OF assms(3)]
    unfolding leaf_key_def by metis
qed

lemma diff_segs_inj:
  assumes laws: "digest_laws L" and v: "valid_digest L d" "valid_digest L b" "valid_digest L d'" "valid_digest L b'"
    and eq: "seg_path (diff_segs L d b) = seg_path (diff_segs L d' b')"
  shows "d = d' \<and> b = b'"
proof -
  have "diff_segs L d b = diff_segs L d' b'"
    using eq by (intro seg_path_inj store_segs_diff [OF laws]) (use v in auto)
  then have eqs: "the (digest_Algorithm L d) = the (digest_Algorithm L d')" "the (digest_Encoded L d) = the (digest_Encoded L d')"
    "the (digest_Algorithm L b) = the (digest_Algorithm L b')" "the (digest_Encoded L b) = the (digest_Encoded L b')"
    by (simp_all add: diff_segs_def)
  have "\<exists>a h. digest_Algorithm L x = Some a \<and> digest_Encoded L x = Some h" if "valid_digest L x" for x
    using digest_parts [OF laws that] by metis
  with v eqs have "digest_Algorithm L d = digest_Algorithm L d'" "digest_Encoded L d = digest_Encoded L d'"
    "digest_Algorithm L b = digest_Algorithm L b'" "digest_Encoded L b = digest_Encoded L b'"
    by (metis option.sel)+
  with valid_digest_inj [OF laws] v show ?thesis by blast
qed

text \<open>What the four kinds of files are to the abstract store.\<close>

lemma abs_new_blob:
  assumes laws: "digest_laws L" and d: "valid_digest L d"
  shows "store_abs L (t(seg_path (blob_segs L d) \<mapsto> c)) = (store_abs L t)\<lparr>s_blobs := (s_blobs (store_abs L t))(d \<mapsto> c)\<rparr>"
proof -
  have "seg_path (diff_segs L x y) \<noteq> seg_path (blob_segs L d)" if "valid_digest L x" "valid_digest L y" for x y
    using diff_not_blob [OF laws that d] .
  moreover have "leaf_index_path L ref p \<noteq> seg_path (blob_segs L d)" if "leafable L ref p" for ref p
    using leaf_index_not_blob [OF laws that d] .
  moreover have "seg_path (blob_segs L x) = seg_path (blob_segs L d) \<longleftrightarrow> x = d" if "valid_digest L x" for x
    using blob_segs_inj [OF laws that d] by blast
  ultimately show ?thesis using d by (auto simp: store_abs_def fun_eq_iff)
qed

lemma abs_new_mark:
  assumes laws: "digest_laws L" and d: "valid_digest L d" "valid_digest L b"
  shows "store_abs L (t(seg_path (diff_segs L d b) \<mapsto> c)) = spec_mark {(d, b)} (store_abs L t)"
proof -
  have "seg_path (blob_segs L x) \<noteq> seg_path (diff_segs L d b)" if "valid_digest L x" for x
    using diff_not_blob [OF laws d that] by metis
  moreover have "leaf_index_path L ref p \<noteq> seg_path (diff_segs L d b)" if "leafable L ref p" for ref p
    using diff_not_index [OF laws d that] by metis
  moreover have "seg_path (diff_segs L x y) = seg_path (diff_segs L d b) \<longleftrightarrow> (x, y) = (d, b)"
    if "valid_digest L x" "valid_digest L y" for x y using diff_segs_inj [OF laws that d] by blast
  ultimately show ?thesis using d by (auto simp: store_abs_def spec_mark_def fun_eq_iff)
qed

lemma abs_new_layout:
  assumes laws: "digest_laws L" and leaf: "leafable L ref p"
  shows "store_abs L (t(leaf_layout_path L ref p \<mapsto> c)) = store_abs L t"
proof -
  have "seg_path (blob_segs L x) \<noteq> leaf_layout_path L ref p" if "valid_digest L x" for x
    using layout_not_blob [OF laws leaf that] by metis
  moreover have "leaf_index_path L ref' p' \<noteq> leaf_layout_path L ref p" if "leafable L ref' p'" for ref' p'
    using layout_not_index [OF laws leaf that] by metis
  moreover have "seg_path (diff_segs L x y) \<noteq> leaf_layout_path L ref p" if "valid_digest L x" "valid_digest L y" for x y
    unfolding leaf_layout_path_def
    by (rule paths_disjoint) (simp_all add: store_segs_diff [OF laws that] store_segs_leaf [OF laws leaf] leaf_file_def)
  ultimately show ?thesis by (auto simp: store_abs_def fun_eq_iff)
qed

lemma abs_new_index:
  assumes laws: "digest_laws L" and leaf: "leafable L ref p" and c: "sole_manifest L c = Some md"
  shows "store_abs L (t(leaf_index_path L ref p \<mapsto> c)) =
    (store_abs L t)\<lparr>s_leaves := (s_leaves (store_abs L t))(leaf_key ref p \<mapsto> md)\<rparr>"
proof -
  have "seg_path (blob_segs L x) \<noteq> leaf_index_path L ref p" if "valid_digest L x" for x
    using leaf_index_not_blob [OF laws leaf that] by metis
  moreover have "seg_path (diff_segs L x y) \<noteq> leaf_index_path L ref p" if "valid_digest L x" "valid_digest L y" for x y
    by (rule diff_not_index [OF laws that leaf])
  moreover have "leaf_index_path L ref' p' = leaf_index_path L ref p \<longleftrightarrow> (ref', p') = leaf_key ref p"
    if "leafable L ref' p'" "leaf_reference ref' = ref'" for ref' p'
    using leaf_index_inj [OF laws that(1) leaf] that(2) by (auto simp: leaf_key_def)
  moreover have "leafable L ref' p' \<and> leaf_reference ref' = ref'" if "(ref', p') = leaf_key ref p" for ref' p'
    using that leaf by (auto simp: leaf_key_def)
  ultimately show ?thesis using c by (auto simp: store_abs_def fun_eq_iff split: if_splits)
qed

section \<open>The operations over a backend whose calls succeed\<close>



lemma spec_leaf_taken: "s_leaves s k \<noteq> None \<Longrightarrow> spec_leaf k md s = s"
  by (auto simp: spec_leaf_def)

lemma spec_mark_mark [simp]: "spec_mark ms (spec_mark ns s) = spec_mark (ns \<union> ms) s"
  by (simp add: spec_mark_def Un_assoc)

lemma spec_mark_empty [simp]: "spec_mark {} s = s"
  by (simp add: spec_mark_def)

lemma spec_mark_fields [simp]:
  "s_blobs (spec_mark ms s) = s_blobs s" "s_leaves (spec_mark ms s) = s_leaves s" "s_marks (spec_mark ms s) = s_marks s \<union> ms"
  by (simp_all add: spec_mark_def)

lemma spec_leaf_fields [simp]:
  "s_blobs (spec_leaf k md s) = s_blobs s" "s_marks (spec_leaf k md s) = s_marks s"
  "s_leaves (spec_leaf k md s) = (if s_leaves s k = None then (s_leaves s)(k \<mapsto> md) else s_leaves s)"
  by (simp_all add: spec_leaf_def)

lemma spec_put_fields [simp]:
  "s_leaves (spec_put d b s) = s_leaves s" "s_marks (spec_put d b s) = s_marks s"
  "s_blobs (spec_put d b s) = (if s_blobs s d = None then (s_blobs s)(d \<mapsto> b) else s_blobs s)"
  by (simp_all add: spec_put_def)

lemma spec_commit_fields [simp]:
  "s_blobs (spec_commit ref p md m cfg s) = s_blobs s"
  "s_marks (spec_commit ref p md m cfg s) = s_marks s \<union> marks_of m cfg"
  "s_leaves (spec_commit ref p md m cfg s) =
     (if s_leaves s (leaf_key ref p) = None then (s_leaves s)(leaf_key ref p \<mapsto> leaf_descriptor ref p md) else s_leaves s)"
  by (simp_all add: spec_commit_def)

text \<open>A digest of the image is stored with its content, and the image is complete, told from the abstract store.\<close>

definition image_spec ::
  "oci_lib \<Rightarrow> store_state \<Rightarrow> platform \<Rightarrow> string \<Rightarrow> manifest \<Rightarrow> image_config \<Rightarrow> bool" where
  "image_spec L s p d m cfg \<longleftrightarrow>
     (\<exists>b. s_blobs s d = Some b \<and> digest_FromBytes L b = d \<and> json_Manifest L b = Inr m) \<and>
     (\<exists>b. s_blobs s (d_Digest (m_Config m)) = Some b \<and> digest_FromBytes L b = d_Digest (m_Config m) \<and>
          json_Image L b = Inr cfg) \<and>
     platform_Matches p (c_Platform cfg) \<and>
     (\<forall>l \<in> set (m_Layers m). s_blobs s (d_Digest l) \<noteq> None \<and> \<not> store_isForeign (d_MediaType l)) \<and>
     length (c_DiffIDs cfg) = length (m_Layers m)"

lemma image_spec_data: "image_spec L (store_abs L t) p d m cfg \<longleftrightarrow> image_data L t p d m cfg"
  unfolding image_spec_def image_data_def abs_blob abs_has_blob by blast

context reliable_backend
begin

abbreviation becomes :: "store_state \<Rightarrow> 'a \<Rightarrow> 'a \<Rightarrow> bool" where
  "becomes s w w' \<equiv> ok w' \<and> store_abs L (tree w') = s \<and> (store_inv L (tree w) \<longrightarrow> store_inv L (tree w'))"

lemma becomes_same: "quiet w w' \<Longrightarrow> becomes (store_abs L (tree w)) w w'"
  by simp

lemma PutBlob_abs:
  assumes laws: "digest_laws L" and w: "ok w" and v: "valid_digest L (d_Digest desc)"
    and body: "digest_matches L (d_Digest desc) b" "0 \<le> d_Size desc \<longrightarrow> d_Size desc = int (length b)"
  shows "\<exists>w'. store_PutBlob L B desc (bytes_body b) w = (Ok (), w') \<and>
    becomes (spec_put (d_Digest desc) b (store_abs L (tree w))) w w'"
proof -
  from PutBlob_up [OF laws w v body] obtain w' where
    run: "store_PutBlob L B desc (b, None) w = (Ok (), w')" "ok w'" and t: "tree w' = (if has_blob L (tree w) (d_Digest desc) then tree w
               else (tree w)(seg_path (blob_segs L (d_Digest desc)) \<mapsto> b))" by blast
  have "store_abs L (tree w') = spec_put (d_Digest desc) b (store_abs L (tree w))"
    using t abs_new_blob [OF laws v, of "tree w" b] by (simp add: spec_put_def abs_has_blob)
  with run movesD [OF safe_PutBlob [OF laws] run(1)] w show ?thesis
    unfolding bytes_body_def by (intro exI [of _ w']) simp
qed

lemma marker_abs:
  assumes laws: "digest_laws L" and v: "valid_digest L (fst dl)" "valid_digest L (d_Digest (snd dl))" and w: "ok w"
  shows "\<exists>w'. store_marker L B dl w = (Ok (), w') \<and> ok w' \<and>
    store_abs L (tree w') = spec_mark {(fst dl, d_Digest (snd dl))} (store_abs L (tree w)) \<and>
    (\<forall>ref p. leafable L ref p \<longrightarrow> tree w' (leaf_index_path L ref p) = tree w (leaf_index_path L ref p))"
proof -
  let ?n = "seg_path (diff_segs L (fst dl) (d_Digest (snd dl)))"
  from marker_up [OF laws v w] obtain w' where
    run: "store_marker L B dl w = (Ok (), w')" "ok w'" and t: "tree w' = (if tree w ?n = None then (tree w)(?n \<mapsto> ''{}'') else tree w)"
    unfolding Let_def by blast
  have "store_abs L (tree w') = spec_mark {(fst dl, d_Digest (snd dl))} (store_abs L (tree w))"
  proof (cases "tree w ?n")
    case None
    with t abs_new_mark [OF laws v, of "tree w" "''{}''"] show ?thesis by simp
  next
    case (Some c)
    then have "(fst dl, d_Digest (snd dl)) \<in> s_marks (store_abs L (tree w))" using v by (simp add: store_abs_def)
    with t Some show ?thesis by (simp add: spec_mark_def insert_absorb)
  qed
  moreover have "tree w' (leaf_index_path L ref p) = tree w (leaf_index_path L ref p)" if "leafable L ref p" for ref p
    using t diff_not_index [OF laws v that] by simp
  ultimately show ?thesis using run by blast
qed

lemma markers_abs:
  assumes laws: "digest_laws L" and w: "ok w"
    and v: "\<And>dl. dl \<in> set dls \<Longrightarrow> valid_digest L (fst dl) \<and> valid_digest L (d_Digest (snd dl))"
  shows "\<exists>w'. for_each (store_marker L B) dls w = (Ok (), w') \<and> ok w' \<and>
    store_abs L (tree w') = spec_mark ((\<lambda>dl. (fst dl, d_Digest (snd dl))) ` set dls) (store_abs L (tree w)) \<and>
    (\<forall>ref p. leafable L ref p \<longrightarrow> tree w' (leaf_index_path L ref p) = tree w (leaf_index_path L ref p))"
  using w v
proof (induction dls arbitrary: w)
  case Nil
  then show ?case by (simp add: ret_def)
next
  case (Cons dl dls)
  from marker_abs [OF laws, of dl w] Cons.prems obtain w1 where
    1: "store_marker L B dl w = (Ok (), w1)" "ok w1"
      "store_abs L (tree w1) = spec_mark {(fst dl, d_Digest (snd dl))} (store_abs L (tree w))"
      "\<forall>ref p. leafable L ref p \<longrightarrow> tree w1 (leaf_index_path L ref p) = tree w (leaf_index_path L ref p)" by auto
  from Cons.IH [of w1] 1(2) Cons.prems(2) obtain w2 where
    2: "for_each (store_marker L B) dls w1 = (Ok (), w2)" "ok w2"
      "store_abs L (tree w2) = spec_mark ((\<lambda>dl. (fst dl, d_Digest (snd dl))) ` set dls) (store_abs L (tree w1))"
      "\<forall>ref p. leafable L ref p \<longrightarrow> tree w2 (leaf_index_path L ref p) = tree w1 (leaf_index_path L ref p)" by auto
  have "for_each (store_marker L B) (dl # dls) w = (Ok (), w2)" using 1(1) 2(1) by (simp add: ebind_eval)
  with 1(3,4) 2(2-4) show ?case by (intro exI [of _ w2]) simp
qed

end

text \<open>How a commit of manifest digest \<open>d\<close> ends on a leaf.\<close>

definition commit_verdict :: "descriptor option \<Rightarrow> string \<Rightarrow> unit res \<Rightarrow> bool" where
  "commit_verdict held d r \<longleftrightarrow>
     (case held of
        None \<Rightarrow> r = Ok ()
      | Some md0 \<Rightarrow> if d_Digest md0 = d then r = Ok () else (\<exists>e. r = Err e \<and> err_is e ErrConflict))"

context reliable_backend
begin

lemma Commit_index_abs:
  assumes laws: "digest_laws L" "json_laws L" and leaf: "leafable L ref p" and w: "ok w"
    and enc: "marshal_Index L (leaf_index ref p md) = Inr b"
    and held: "tree w (leaf_index_path L ref p) \<noteq> None \<longrightarrow> (\<exists>md0. leaf_holds L (tree w) ref p md0)"
  shows "\<exists>r w'. store_Commit_index L B ref p md (seg_path (leaf_segs L ref p)) w = (r, w') \<and> ok w' \<and>
    store_abs L (tree w') = spec_leaf (leaf_key ref p) (leaf_descriptor ref p md) (store_abs L (tree w)) \<and>
    commit_verdict (s_leaves (store_abs L (tree w)) (leaf_key ref p)) (d_Digest md) r"
proof -
  let ?n = "leaf_index_path L ref p"
  note fl = store_file_leaf(1) [OF laws(1) leaf]
  note op = store_Commit_index_def store_indexJSON_def leaf_Join [OF laws(1) leaf] enc sum.case ebind_pure
  show ?thesis
  proof (cases "tree w ?n")
    case None
    then have cr: "created L (tree w) ?n (bytes_body b) (int (length b)) [] ((tree w)(?n \<mapsto> b))"
      by (simp add: created_def bytes_body_def)
    from create_up [OF w fl cr] obtain w' where
      c: "b_Create B ?n (bytes_body b) (int (length b)) [] w = (Ok (), w')" by auto
    from create_Ok [OF w fl c] have t: "tree w' = (tree w)(?n \<mapsto> b)" by (simp add: created_def bytes_body_def)
    have "s_leaves (store_abs L (tree w)) (leaf_key ref p) = None" using None by (simp add: abs_leaf [OF leaf])
    moreover have "store_abs L (tree w') = (store_abs L (tree w))
        \<lparr>s_leaves := (s_leaves (store_abs L (tree w)))(leaf_key ref p \<mapsto> leaf_descriptor ref p md)\<rparr>"
      unfolding t by (rule abs_new_index [OF laws(1) leaf sole_leaf_index [OF laws(2) enc]])
    moreover have "store_Commit_index L B ref p md (seg_path (leaf_segs L ref p)) w = (Ok (), w')"
      unfolding op using c by (simp add: ebind_attempt_Ok)
    ultimately show ?thesis using create_ok [OF w fl c]
      by (intro exI [of _ "Ok ()"] exI [of _ w']) (simp add: spec_leaf_def commit_verdict_def)
  next
    case (Some c)
    with held obtain md0 where md0: "leaf_holds L (tree w) ref p md0" by auto
    from Some obtain e w1 where c: "b_Create B ?n (bytes_body b) (int (length b)) [] w = (Err e, w1)"
      "err_is e ErrExist" using create_held [OF w fl _ offers_bytes] by blast
    from create_Exist [OF w fl c body_ok_simps(1)] create_ok [OF w fl c(1)] have w1: "tree w1 = tree w" "ok w1" by auto
    from md0 obtain c' ix where ix: "tree w1 ?n = Some c'" "json_Index L c' = Inr ix" "i_Manifests ix = [md0]"
      unfolding w1 by (auto simp: leaf_holds_def)
    from readAll_up [OF w1(2) fl ix(1)] obtain w2 where
      "store_readAll B ?n w1 = (Ok c', w2)" and w2: "quiet w1 w2" by blast
    with ix have read: "store_leafManifest L B (seg_path (leaf_segs L ref p)) w1 = (Ok md0, w2)"
      by (simp add: store_leafManifest_def leaf_Join [OF laws(1) leaf] ebind_Ok)
    let ?r = "if d_Digest md0 = d_Digest md then Ok ()
      else Err (Wrap1 ''leaf holds another manifest'' (Sentinel ErrConflict))"
    have "store_Commit_index L B ref p md (seg_path (leaf_segs L ref p)) w = (?r, w2)"
      unfolding op using c read by (simp add: ebind_def attempt_def ret_def throw_def)
    moreover have "s_leaves (store_abs L (tree w)) (leaf_key ref p) = Some md0"
      using md0 abs_leaf_holds [OF leaf] by blast
    ultimately show ?thesis using w1 w2
      by (intro exI [of _ ?r] exI [of _ w2]) (simp add: spec_leaf_taken commit_verdict_def)
  qed
qed

text \<open>\<open>Commit\<close> of a complete image.\<close>

lemma Commit_abs:
  assumes laws: "digest_laws L" "json_laws L" and leaf: "leafable L ref p"
    and w: "ok w" "store_inv L (tree w)"
    and data: "image_data L (tree w) p (d_Digest md) m cfg"
    and mt: "store_isManifest (d_MediaType md)"
    and diffs: "list_all (valid_digest L) (c_DiffIDs cfg)"
    and enc: "marshal_Index L (leaf_index ref p md) = Inr b"
  shows "\<exists>r w'. store_Commit L B ref p md w = (r, w') \<and>
    becomes (spec_commit ref p md m cfg (store_abs L (tree w))) w w' \<and>
    commit_verdict (s_leaves (store_abs L (tree w)) (leaf_key ref p)) (d_Digest md) r"
proof -
  let ?idx = "leaf_index_path L ref p" and ?lay = "leaf_layout_path L ref p"
  let ?ms = "zip (c_DiffIDs cfg) (m_Layers m)"
  from Commit_check_up [OF laws(1) w(1) data mt] obtain w1 where
    1: "store_Commit_check L B p md w = (Ok (m, cfg), w1)" "quiet w w1" by blast
  have v: "valid_digest L (fst dl) \<and> valid_digest L (d_Digest (snd dl))" if "dl \<in> set ?ms" for dl
  proof -
    from that have "fst dl \<in> set (c_DiffIDs cfg)" "snd dl \<in> set (m_Layers m)"
      by (metis prod.collapse set_zip_leftD set_zip_rightD)+
    with data diffs show ?thesis unfolding image_data_def has_blob_def list_all_iff by blast
  qed
  from markers_abs [OF laws(1) _ v] 1(2) obtain w2 where
    2: "for_each (store_marker L B) ?ms w1 = (Ok (), w2)" "ok w2"
      "store_abs L (tree w2) = spec_mark ((\<lambda>dl. (fst dl, d_Digest (snd dl))) ` set ?ms) (store_abs L (tree w))"
      "tree w2 ?idx = tree w ?idx" using leaf by fastforce
  have ms: "(\<lambda>dl. (fst dl, d_Digest (snd dl))) ` set ?ms = marks_of m cfg"
    by (auto simp: marks_of_def zip_map2 split_beta intro!: image_eqI)
  from createOnce_up [OF 2(2) store_file_leaf(2) [OF laws(1) leaf], of "store_layoutJSON L"] obtain w3 where
    3: "store_createOnce B ?lay (store_layoutJSON L) w2 = (Ok (), w3)" "ok w3"
    "tree w3 = (if tree w2 ?lay = None then (tree w2)(?lay \<mapsto> store_layoutJSON L) else tree w2)" by blast
  have abs3: "store_abs L (tree w3) = spec_mark (marks_of m cfg) (store_abs L (tree w))"
    using 2(3) 3(3) abs_new_layout [OF laws(1) leaf] by (simp add: ms)
  have idx3: "tree w3 ?idx = tree w ?idx"
    using 3(3) 2(4) layout_not_index [OF laws(1) leaf leaf] by simp
  let ?mk = "case b_MkdirAll B of None \<Rightarrow> ret ()
     | Some mk \<Rightarrow> mk (seg_path (leaf_segs L ref p @ [ImageBlobsDir]))"
  have "\<exists>w4. ?mk w3 = (Ok (), w4)"
    using mkdir_up [OF _ 3(2) store_dir_leaf [OF laws(1) leaf]]
    by (cases "b_MkdirAll B") (auto simp: ret_def)
  then obtain w4 where mk: "?mk w3 = (Ok (), w4)" by blast
  from movesD [OF mkdir_step [OF laws(1) leaf] mk] 3(2) have w4: "ok w4" "tree w4 = tree w3" by auto
  have held: "tree w4 ?idx \<noteq> None \<longrightarrow> (\<exists>md0. leaf_holds L (tree w4) ref p md0)"
  proof
    assume "tree w4 ?idx \<noteq> None"
    with w4(2) idx3 w(2) leaf obtain md0 where "leaf_holds L (tree w) ref p md0"
      unfolding store_inv_def leaves_closed_def by auto
    with idx3 w4(2) leaf_holds_at [of "tree w4" ref p "tree w"] show "\<exists>md0. leaf_holds L (tree w4) ref p md0" by auto
  qed
  from Commit_index_abs [OF laws leaf w4(1) enc held] obtain r w5 where
    5: "store_Commit_index L B ref p md (seg_path (leaf_segs L ref p)) w4 = (r, w5)" "ok w5"
      "store_abs L (tree w5) = spec_leaf (leaf_key ref p) (leaf_descriptor ref p md) (store_abs L (tree w4))"
      "commit_verdict (s_leaves (store_abs L (tree w4)) (leaf_key ref p)) (d_Digest md) r" by blast
  have written: "store_Commit_write L B ref p md m cfg w1 = (r, w5)"
    unfolding store_Commit_write_def LeafPath_leafable [OF laws(1) leaf] ebind_pure leaf_Join [OF laws(1) leaf]
    by (simp add: ebind_def 2(1) 3(1) mk 5(1))
  then have "store_Commit L B ref p md w = (r, w5)"
    unfolding store_Commit_def by (simp add: ebind_def 1(1))
  moreover have "store_inv L (tree w5)"
    using Commit_write(1) [OF laws leaf _ _ _ diffs written] 1(2) w data by auto
  ultimately show ?thesis using 5 abs3 w4(2)
    by (intro exI [of _ r] exI [of _ w5]) (simp add: spec_commit_def)
qed

end

section \<open>Refusals\<close>

lemma Commit_stops: "store_Commit_check L B p md w = (Err e, w') \<Longrightarrow> store_Commit L B ref p md w = (Err e, w')"
  by (simp add: store_Commit_def ebind_eval_Err)

lemma Commit_other_media:
  "\<not> store_isManifest (d_MediaType md) \<Longrightarrow> \<exists>e. store_Commit L B ref p md w = (Err e, w)"
  by (simp add: store_Commit_def store_Commit_check_def ebind_def throw_def)

context reliable_backend
begin

lemma readJSON_abs:
  assumes "digest_laws L" "ok w" "s_blobs (store_abs L (tree w)) d = Some b" "digest_FromBytes L b = d" "dec b = Inr v"
  shows "\<exists>w'. store_readJSON L B dec d w = (Ok (b, v), w') \<and> quiet w w'"
  using readJSON_up [of w d b dec, OF assms(1,2)] assms(3-5) unfolding abs_blob by blast

lemma HasBlob_abs:
  assumes "digest_laws L" "ok w" "valid_digest L d"
  shows "\<exists>w'. store_HasBlob L B d w = (Ok (s_blobs (store_abs L (tree w)) d \<noteq> None), w') \<and> quiet w w'"
  using HasBlob_up [OF assms] unfolding abs_has_blob by blast

text \<open>A foreign layer is refused before the config is read, another platform before the layers are looked for.\<close>

lemma Commit_foreign:
  assumes laws: "digest_laws L" and w: "ok w" and mt: "store_isManifest (d_MediaType md)"
    and mb: "s_blobs (store_abs L (tree w)) (d_Digest md) = Some mb" "digest_FromBytes L mb = d_Digest md" "json_Manifest L mb = Inr m"
    and foreign: "\<exists>l \<in> set (m_Layers m). store_isForeign (d_MediaType l)"
  shows "\<exists>e w'. store_Commit L B ref p md w = (Err e, w') \<and> err_is e ErrForeignLayer \<and> quiet w w'"
proof -
  from readJSON_abs [of w _ _ "json_Manifest L", OF laws w mb] obtain w1 where
    1: "store_readJSON L B (json_Manifest L) (d_Digest md) w = (Ok (mb, m), w1)" "quiet w w1" by blast
  have "list_ex (\<lambda>l. store_isForeign (d_MediaType l)) (m_Layers m)" using foreign by (simp add: list_ex_iff)
  with 1(1) mt have "store_Commit_check L B p md w = (Err (Wrap1 ''foreign layer'' (Sentinel ErrForeignLayer)), w1)"
    by (simp add: store_Commit_check_def ebind_def map_err_def throw_def)
  from Commit_stops [OF this] 1(2) show ?thesis by (intro exI conjI) (assumption, simp_all)
qed

lemma Commit_config_read:
  assumes laws: "digest_laws L" and w: "ok w" and mt: "store_isManifest (d_MediaType md)"
    and mb: "s_blobs (store_abs L (tree w)) (d_Digest md) = Some mb" "digest_FromBytes L mb = d_Digest md" "json_Manifest L mb = Inr m"
    and native: "\<forall>l \<in> set (m_Layers m). \<not> store_isForeign (d_MediaType l)"
    and cb: "s_blobs (store_abs L (tree w)) (d_Digest (m_Config m)) = Some cb" "digest_FromBytes L cb = d_Digest (m_Config m)" "json_Image L cb = Inr cfg"
  shows "\<exists>w2. quiet w w2 \<and> store_Commit_check L B p md w =
    (if \<not> platform_Matches p (c_Platform cfg) then throw (Wrap1 ''config platform'' (Sentinel ErrPlatform))
     else ebind (for_each (store_layerPresent L B) (m_Layers m)) (\<lambda>_.
            if length (c_DiffIDs cfg) \<noteq> length (m_Layers m)
            then throw (Msg ''store: config lists diffIDs for layers'') else ret (m, cfg))) w2"
proof -
  from readJSON_abs [of w _ _ "json_Manifest L", OF laws w mb] obtain w1 where
    1: "store_readJSON L B (json_Manifest L) (d_Digest md) w = (Ok (mb, m), w1)" "quiet w w1" by blast
  from readJSON_abs [of w1 _ _ "json_Image L", OF laws _ _ cb(2,3)] 1(2) cb(1) obtain w2 where
    2: "store_readJSON L B (json_Image L) (d_Digest (m_Config m)) w1 = (Ok (cb, cfg), w2)" "quiet w1 w2" by auto
  have "\<not> list_ex (\<lambda>l. store_isForeign (d_MediaType l)) (m_Layers m)" using native by (simp add: list_ex_iff)
  with mt have "store_Commit_check L B p md w =
    (if \<not> platform_Matches p (c_Platform cfg) then throw (Wrap1 ''config platform'' (Sentinel ErrPlatform))
     else ebind (for_each (store_layerPresent L B) (m_Layers m)) (\<lambda>_.
            if length (c_DiffIDs cfg) \<noteq> length (m_Layers m)
            then throw (Msg ''store: config lists diffIDs for layers'') else ret (m, cfg))) w2"
    by (simp add: store_Commit_check_def ebind_def map_err_def 1(1) 2(1))
  with 1(2) 2(2) show ?thesis by auto
qed

lemma Commit_platform:
  assumes "digest_laws L" "ok w" "store_isManifest (d_MediaType md)"
    and "s_blobs (store_abs L (tree w)) (d_Digest md) = Some mb" "digest_FromBytes L mb = d_Digest md" "json_Manifest L mb = Inr m"
    and "\<forall>l \<in> set (m_Layers m). \<not> store_isForeign (d_MediaType l)"
    and "s_blobs (store_abs L (tree w)) (d_Digest (m_Config m)) = Some cb" "digest_FromBytes L cb = d_Digest (m_Config m)" "json_Image L cb = Inr cfg"
    and "\<not> platform_Matches p (c_Platform cfg)"
  shows "\<exists>e w'. store_Commit L B ref p md w = (Err e, w') \<and> err_is e ErrPlatform \<and> quiet w w'"
proof -
  from Commit_config_read [OF assms(1-10), of p] assms(11) obtain w2 where
    w2: "quiet w w2" and run: "store_Commit_check L B p md w = (Err (Wrap1 ''config platform'' (Sentinel ErrPlatform)), w2)"
    by (auto simp: throw_def)
  from Commit_stops [OF run] w2 show ?thesis by (intro exI conjI) (assumption, simp_all)
qed

lemma layers_missing:
  assumes laws: "digest_laws L" and w: "ok w" and v: "\<forall>l \<in> set ls. valid_digest L (d_Digest l)"
    and miss: "\<exists>l \<in> set ls. s_blobs (store_abs L (tree w)) (d_Digest l) = None"
  shows "\<exists>e w'. for_each (store_layerPresent L B) ls w = (Err e, w') \<and> err_is e ErrNotExist \<and> quiet w w'"
  using w v miss
proof (induction ls arbitrary: w)
  case Nil
  then show ?case by simp
next
  case (Cons l ls)
  from HasBlob_abs [OF laws Cons.prems(1), of "d_Digest l"] Cons.prems(2) obtain w1 where
    h: "store_HasBlob L B (d_Digest l) w = (Ok (s_blobs (store_abs L (tree w)) (d_Digest l) \<noteq> None), w1)" "quiet w w1" by auto
  show ?case
  proof (cases "s_blobs (store_abs L (tree w)) (d_Digest l)")
    case None
    with h show ?thesis
      by (intro exI [of _ "Wrap1 ''store: layer of manifest'' (Sentinel ErrNotExist)"] exI [of _ w1])
        (simp add: store_layerPresent_def ebind_def throw_def)
  next
    case (Some b)
    with h have one: "store_layerPresent L B l w = (Ok (), w1)" by (simp add: store_layerPresent_def ebind_def ret_def)
    have "\<exists>l \<in> set ls. s_blobs (store_abs L (tree w1)) (d_Digest l) = None"
      using Cons.prems(3) Some h(2) by auto
    from Cons.IH [OF _ _ this] Cons.prems(2) h(2) obtain e w' where
      "for_each (store_layerPresent L B) ls w1 = (Err e, w')" "err_is e ErrNotExist" "quiet w1 w'" by auto
    with one h(2) show ?thesis by (intro exI [of _ e] exI [of _ w']) (simp add: ebind_def)
  qed
qed

lemma Commit_missing:
  assumes "digest_laws L" "ok w" "store_isManifest (d_MediaType md)"
    and "s_blobs (store_abs L (tree w)) (d_Digest md) = Some mb" "digest_FromBytes L mb = d_Digest md" "json_Manifest L mb = Inr m"
    and "\<forall>l \<in> set (m_Layers m). \<not> store_isForeign (d_MediaType l)"
    and "s_blobs (store_abs L (tree w)) (d_Digest (m_Config m)) = Some cb" "digest_FromBytes L cb = d_Digest (m_Config m)" "json_Image L cb = Inr cfg"
    and "platform_Matches p (c_Platform cfg)" "\<forall>l \<in> set (m_Layers m). valid_digest L (d_Digest l)"
    and "\<exists>l \<in> set (m_Layers m). s_blobs (store_abs L (tree w)) (d_Digest l) = None"
  shows "\<exists>e w'. store_Commit L B ref p md w = (Err e, w') \<and> err_is e ErrNotExist \<and> quiet w w'"
proof -
  from Commit_config_read [OF assms(1-10), of p] assms(11) obtain w2 where w2: "quiet w w2"
    and run: "store_Commit_check L B p md w = ebind (for_each (store_layerPresent L B) (m_Layers m)) (\<lambda>_.
            if length (c_DiffIDs cfg) \<noteq> length (m_Layers m)
            then throw (Msg ''store: config lists diffIDs for layers'') else ret (m, cfg)) w2" by auto
  from layers_missing [OF assms(1) _ assms(12), of w2] assms(13) w2 obtain e w3 where
    "for_each (store_layerPresent L B) (m_Layers m) w2 = (Err e, w3)" "err_is e ErrNotExist" "quiet w2 w3" by auto
  with run w2 have stop: "store_Commit_check L B p md w = (Err e, w3)" "err_is e ErrNotExist" "quiet w w3" by (simp_all add: ebind_def)
  from Commit_stops [OF stop(1)] stop(2,3) show ?thesis by blast
qed

section \<open>Resolve\<close>

lemma Resolve_abs:
  assumes laws: "digest_laws L" and leaf: "leafable L ref p" and w: "ok w"
    and held: "s_leaves (store_abs L (tree w)) (leaf_key ref p) = Some md"
  shows "\<exists>w'. store_Resolve L B ref p w = (Ok (store_image L B ref p md (seg_path (leaf_segs L ref p))), w') \<and> quiet w w'"
proof -
  from held obtain c ix where ix: "tree w (leaf_index_path L ref p) = Some c" "json_Index L c = Inr ix"
    "i_Manifests ix = [md]" unfolding abs_leaf_holds [OF leaf] by (auto simp: leaf_holds_def)
  from readAll_up [OF w store_file_leaf(1) [OF laws leaf] ix(1)] obtain w' where
    "store_readAll B (leaf_index_path L ref p) w = (Ok c, w')" and w': "quiet w w'" by blast
  with ix have "store_leafManifest L B (seg_path (leaf_segs L ref p)) w = (Ok md, w')"
    by (simp add: store_leafManifest_def leaf_Join [OF laws leaf] ebind_Ok)
  then have "store_Resolve L B ref p w = (Ok (store_image L B ref p md (seg_path (leaf_segs L ref p))), w')"
    unfolding store_Resolve_def LeafPath_leafable [OF laws leaf] ebind_pure
    by (simp add: ebind_attempt_Ok)
  with w' show ?thesis by blast
qed

lemma leafManifest_absent:
  assumes laws: "digest_laws L" and leaf: "leafable L ref p" and w: "ok w" "store_inv L (tree w)"
    and free: "s_leaves (store_abs L (tree w)) (leaf_key ref p) = None"
  shows "\<exists>e w'. store_leafManifest L B (seg_path (leaf_segs L ref p)) w = (Err e, w') \<and> err_is e ErrNotExist \<and> quiet w w'"
proof -
  have "tree w (leaf_index_path L ref p) = None"
  proof (rule ccontr)
    assume "tree w (leaf_index_path L ref p) \<noteq> None"
    with w(2) leaf obtain md where "leaf_holds L (tree w) ref p md" unfolding store_inv_def leaves_closed_def by blast
    with free show False by (simp add: abs_leaf_holds [OF leaf, symmetric])
  qed
  from open_absent [OF w(1) store_file_leaf(1) [OF laws leaf] this] obtain e w' where
    o: "b_Open B (leaf_index_path L ref p) w = (Err e, w')" "err_is e ErrNotExist" by blast
  then have "store_leafManifest L B (seg_path (leaf_segs L ref p)) w = (Err e, w')"
    by (simp add: store_leafManifest_def leaf_Join [OF laws leaf] store_readAll_def ebind_def)
  with o open_ok [OF w(1) o(1)] open_tree [OF o(1)] show ?thesis by blast
qed

lemma Resolve_absent:
  assumes laws: "digest_laws L" and leaf: "leafable L ref p" and w: "ok w" "store_inv L (tree w)"
    and free: "s_leaves (store_abs L (tree w)) (leaf_key ref p) = None" and tag: "Digest ref = []"
  shows "\<exists>e w'. store_Resolve L B ref p w = (Err e, w') \<and> err_is e ErrNotExist \<and> quiet w w'"
proof -
  from leafManifest_absent [OF assms(1-5)] obtain e w' where
    r: "store_leafManifest L B (seg_path (leaf_segs L ref p)) w = (Err e, w')" "err_is e ErrNotExist" "quiet w w'" by blast
  then have "store_Resolve L B ref p w = (Err (Wrap1 ''store: resolving'' e), w')"
    unfolding store_Resolve_def LeafPath_leafable [OF laws leaf] ebind_pure
    using tag by (simp add: ebind_def attempt_def throw_def)
  with r show ?thesis by (intro exI conjI) (assumption, simp_all)
qed

lemma Resolve_blob:
  assumes laws: "digest_laws L" and leaf: "leafable L ref p" and w: "ok w" "store_inv L (tree w)"
    and free: "s_leaves (store_abs L (tree w)) (leaf_key ref p) = None" and dig: "Digest ref \<noteq> []"
    and b: "s_blobs (store_abs L (tree w)) (Digest ref) = Some b" "digest_FromBytes L b = Digest ref" "json_MediaType L b = Inr mt"
    and mt: "store_isManifest mt"
  shows "\<exists>w'. store_Resolve L B ref p w = (Ok (store_image L B ref p
      \<lparr>d_MediaType = mt, d_Digest = Digest ref, d_Size = int (length b), d_Annotations = fmempty, d_Platform = None\<rparr> []), w') \<and>
    quiet w w'"
proof -
  from leafManifest_absent [OF assms(1-5)] obtain e w1 where
    r: "store_leafManifest L B (seg_path (leaf_segs L ref p)) w = (Err e, w1)" "err_is e ErrNotExist" "quiet w w1" by blast
  from readJSON_abs [of w1 "Digest ref" b "json_MediaType L", OF laws _ _ b(2,3)] r(3) b(1) obtain w2 where
    "store_readJSON L B (json_MediaType L) (Digest ref) w1 = (Ok (b, mt), w2)" "quiet w1 w2" by auto
  with r dig mt show ?thesis
    unfolding store_Resolve_def LeafPath_leafable [OF laws leaf] ebind_pure
    by (intro exI [of _ w2]) (simp add: ebind_def attempt_def ret_def)
qed

end

end
