(* ===== verification/Spec_Properties.thy ===== *)
theory Spec_Properties
  imports Store_Abstract Store_Properties
begin

text \<open>
  The refinement of the abstract store by package store, over any history of writes and commits: what the
  operations return and what can be read afterwards is what the abstract store says.
\<close>

section \<open>Histories\<close>

datatype store_op =
  OpPut descriptor bytes
| OpCommit reference platform descriptor

definition op_run :: "oci_lib \<Rightarrow> 'w backend \<Rightarrow> store_op \<Rightarrow> ('w, unit) io" where
  "op_run L B op =
     (case op of
        OpPut d b \<Rightarrow> store_PutBlob L B d (bytes_body b)
      | OpCommit ref p md \<Rightarrow> store_Commit L B ref p md)"

text \<open>A history goes on after a call that returns an error, and collects the results.\<close>

fun ops_run :: "oci_lib \<Rightarrow> 'w backend \<Rightarrow> store_op list \<Rightarrow> 'w \<Rightarrow> unit res list \<times> 'w" where
  "ops_run L B [] w = ([], w)"
| "ops_run L B (op # ops) w =
     (case op_run L B op w of (r, w1) \<Rightarrow> (case ops_run L B ops w1 of (rs, w2) \<Rightarrow> (r # rs, w2)))"

text \<open>The manifest and the config a descriptor leads to.\<close>

definition image_at :: "oci_lib \<Rightarrow> store_state \<Rightarrow> descriptor \<Rightarrow> (manifest \<times> image_config) option" where
  "image_at L s md =
     (case s_blobs s (d_Digest md) of
        None \<Rightarrow> None
      | Some b \<Rightarrow>
          (case json_Manifest L b of
             Inl e \<Rightarrow> None
           | Inr m \<Rightarrow>
               (case s_blobs s (d_Digest (m_Config m)) of
                  None \<Rightarrow> None
                | Some c \<Rightarrow> (case json_Image L c of Inl e \<Rightarrow> None | Inr cfg \<Rightarrow> Some (m, cfg)))))"

definition spec_op :: "oci_lib \<Rightarrow> store_op \<Rightarrow> store_state \<Rightarrow> store_state" where
  "spec_op L op s =
     (case op of
        OpPut d b \<Rightarrow> spec_put (d_Digest d) b s
      | OpCommit ref p md \<Rightarrow> (case image_at L s md of None \<Rightarrow> s | Some (m, cfg) \<Rightarrow> spec_commit ref p md m cfg s))"

definition op_verdict :: "store_op \<Rightarrow> store_state \<Rightarrow> unit res \<Rightarrow> bool" where
  "op_verdict op s r \<longleftrightarrow>
     (case op of
        OpPut d b \<Rightarrow> r = Ok ()
      | OpCommit ref p md \<Rightarrow> commit_verdict (s_leaves s (leaf_key ref p)) (d_Digest md) r)"

text \<open>
  A proper history: contents are put under their own digest and size, and only complete images are
  committed, under references that give leaves.
\<close>

definition op_ready :: "oci_lib \<Rightarrow> store_op \<Rightarrow> store_state \<Rightarrow> bool" where
  "op_ready L op s \<longleftrightarrow>
     (case op of
        OpPut d b \<Rightarrow>
          valid_digest L (d_Digest d) \<and> digest_matches L (d_Digest d) b \<and> (0 \<le> d_Size d \<longrightarrow> d_Size d = int (length b))
      | OpCommit ref p md \<Rightarrow>
          leafable L ref p \<and> store_isManifest (d_MediaType md) \<and> (\<exists>b. marshal_Index L (leaf_index ref p md) = Inr b) \<and>
          (\<exists>m cfg. image_spec L s p (d_Digest md) m cfg \<and> list_all (valid_digest L) (c_DiffIDs cfg)))"

fun ops_ready :: "oci_lib \<Rightarrow> store_op list \<Rightarrow> store_state \<Rightarrow> bool" where
  "ops_ready L [] s = True"
| "ops_ready L (op # ops) s = (op_ready L op s \<and> ops_ready L ops (spec_op L op s))"

fun ops_verdict :: "oci_lib \<Rightarrow> store_op list \<Rightarrow> store_state \<Rightarrow> unit res list \<Rightarrow> bool" where
  "ops_verdict L [] s rs = (rs = [])"
| "ops_verdict L (op # ops) s rs =
     (case rs of [] \<Rightarrow> False | r # rs' \<Rightarrow> op_verdict op s r \<and> ops_verdict L ops (spec_op L op s) rs')"

lemma image_at_spec: "image_spec L s p (d_Digest md) m cfg \<Longrightarrow> image_at L s md = Some (m, cfg)"
  by (auto simp: image_spec_def image_at_def)

context reliable_backend
begin

lemma op_abs:
  assumes laws: "digest_laws L" "json_laws L" and w: "ok w" "store_inv L (tree w)" and ready: "op_ready L op (store_abs L (tree w))"
  shows "\<exists>r w'. op_run L B op w = (r, w') \<and> ok w' \<and> store_inv L (tree w') \<and>
    store_abs L (tree w') = spec_op L op (store_abs L (tree w)) \<and> op_verdict op (store_abs L (tree w)) r"
proof (cases op)
  case (OpPut d b)
  with ready PutBlob_abs [OF laws(1) w(1), of d b] w(2) show ?thesis
    by (auto simp: op_ready_def op_run_def spec_op_def op_verdict_def)
next
  case (OpCommit ref p md)
  with ready obtain m cfg ib where c: "leafable L ref p" "store_isManifest (d_MediaType md)"
    "marshal_Index L (leaf_index ref p md) = Inr ib" "list_all (valid_digest L) (c_DiffIDs cfg)"
    and spec: "image_spec L (store_abs L (tree w)) p (d_Digest md) m cfg" by (auto simp: op_ready_def)
  from Commit_abs [OF laws c(1) w spec [unfolded image_spec_data] c(2,4,3)] w(2) image_at_spec [OF spec] OpCommit show ?thesis
    by (auto simp: op_run_def spec_op_def op_verdict_def)
qed

lemma ops_abs:
  assumes laws: "digest_laws L" "json_laws L" and "ok w" "store_inv L (tree w)" "ops_ready L ops (store_abs L (tree w))"
  shows "\<exists>rs w'. ops_run L B ops w = (rs, w') \<and> ok w' \<and> store_inv L (tree w') \<and>
    store_abs L (tree w') = fold (spec_op L) ops (store_abs L (tree w)) \<and> ops_verdict L ops (store_abs L (tree w)) rs"
  using assms(3-5)
proof (induction ops arbitrary: w)
  case Nil
  then show ?case by simp
next
  case (Cons op ops)
  from op_abs [OF laws Cons.prems(1,2), of op] Cons.prems(3) obtain r w1 where
    1: "op_run L B op w = (r, w1)" "ok w1" "store_inv L (tree w1)" "store_abs L (tree w1) = spec_op L op (store_abs L (tree w))"
      "op_verdict op (store_abs L (tree w)) r" by auto
  from Cons.IH [OF 1(2,3)] Cons.prems(3) 1(4) obtain rs w2 where
    2: "ops_run L B ops w1 = (rs, w2)" "ok w2" "store_inv L (tree w2)" "store_abs L (tree w2) = fold (spec_op L) ops (store_abs L (tree w1))"
      "ops_verdict L ops (store_abs L (tree w1)) rs" by auto
  from 1 2 show ?case by (intro exI [of _ "r # rs"] exI [of _ w2]) simp
qed

text \<open>What can be read of a store is what the abstract store holds.\<close>

lemma Resolve_reads:
  assumes "digest_laws L" "ok w" "leafable L ref p" "s_leaves (store_abs L (tree w)) (leaf_key ref p) = Some md"
  shows "\<exists>im w'. store_Resolve L B ref p w = (Ok im, w') \<and> im_Manifest im = md"
  using Resolve_abs [OF assms(1,3,2,4)] by (auto simp: store_image_def)

lemma Blob_reads:
  assumes laws: "digest_laws L" and w: "ok w" and b: "s_blobs (store_abs L (tree w)) d = Some b"
  shows "\<exists>rd w'. store_Blob L B d w = (Ok rd, w') \<and> read_all rd = Ok b"
  using Blob_up [OF laws w] b unfolding abs_blob by blast

end

text \<open>
  C5: over a backend whose calls succeed, package store implements the abstract store: after any proper history
  of \<open>PutBlob\<close> and \<open>Commit\<close> its contents are what the abstract operations give, each call returned what they
  say (nothing, or a conflict), every leaf resolves to its manifest and every blob reads back.
\<close>

theorem store_implements_spec:
  assumes "reliable_backend L B tree ok" "digest_laws L" "json_laws L" "ok w" "store_inv L (tree w)"
    and "ops_ready L ops (store_abs L (tree w))"
  shows "\<exists>rs w' s. ops_run L B ops w = (rs, w') \<and> s = fold (spec_op L) ops (store_abs L (tree w)) \<and>
    store_abs L (tree w') = s \<and> ops_verdict L ops (store_abs L (tree w)) rs \<and>
    (\<forall>ref p md. leafable L ref p \<longrightarrow> s_leaves s (leaf_key ref p) = Some md \<longrightarrow>
       (\<exists>im w''. store_Resolve L B ref p w' = (Ok im, w'') \<and> im_Manifest im = md)) \<and>
    (\<forall>d b. s_blobs s d = Some b \<longrightarrow> (\<exists>rd w''. store_Blob L B d w' = (Ok rd, w'') \<and> read_all rd = Ok b))"
proof -
  from reliable_backend.ops_abs [OF assms] obtain rs w' where
    r: "ops_run L B ops w = (rs, w')" "ok w'" "store_abs L (tree w') = fold (spec_op L) ops (store_abs L (tree w))"
      "ops_verdict L ops (store_abs L (tree w)) rs" by blast
  note reads = reliable_backend.Resolve_reads [OF assms(1,2) r(2)] reliable_backend.Blob_reads [OF assms(1,2) r(2)]
  show ?thesis
    by (intro exI [of _ rs] exI [of _ w'] exI conjI, rule r(1), rule refl, rule r(3), rule r(4)) (use reads r(3) in auto)
qed

theorem store_implements_spec_witness:
  "\<exists>r w'. ops_run demo_lib demo_store [OpCommit demo_ref demo_platform (demo_md demo_diff)] (demo_world demo_diff) = ([r], w') \<and>
     (\<exists>im w''. store_Resolve demo_lib demo_store demo_ref demo_platform w' = (Ok im, w'') \<and>
        d_Digest (im_Manifest im) = d_Digest (demo_md demo_diff))"
proof -
  let ?w = "demo_world demo_diff" and ?s = "store_abs demo_lib (demo_tree (demo_world demo_diff))"
  let ?op = "OpCommit demo_ref demo_platform (demo_md demo_diff)"
  note data = demo_image_data [OF demo_sizes_diff(1)]
  have spec: "\<exists>m cfg. image_spec demo_lib ?s demo_platform (d_Digest (demo_md demo_diff)) m cfg \<and> list_all (valid_digest demo_lib) (c_DiffIDs cfg)"
    unfolding image_spec_data using data demo_diffs_listed by blast
  then have ready: "ops_ready demo_lib [?op] ?s"
    using demo_leafable demo_manifest_type demo_marshal by (auto simp: op_ready_def)
  have free: "s_leaves ?s (leaf_key demo_ref demo_platform) = None"
    using demo_leaf_free by (simp add: abs_leaf [OF demo_leafable])
  from store_implements_spec [OF demo_up demo_digest_laws demo_json_laws demo_world(1) [OF demo_sizes_diff(1)]
      demo_inv [OF demo_sizes_diff(1)] ready]
  obtain rs w' s where r: "ops_run demo_lib demo_store [?op] ?w = (rs, w')" "s = fold (spec_op demo_lib) [?op] ?s"
    "ops_verdict demo_lib [?op] ?s rs" and reads: "\<forall>ref p md. leafable demo_lib ref p \<longrightarrow> s_leaves s (leaf_key ref p) = Some md \<longrightarrow>
       (\<exists>im w''. store_Resolve demo_lib demo_store ref p w' = (Ok im, w'') \<and> im_Manifest im = md)" by blast
  from spec image_at_spec have "s_leaves s (leaf_key demo_ref demo_platform) = Some (leaf_descriptor demo_ref demo_platform (demo_md demo_diff))"
    using free by (auto simp: r(2) spec_op_def)
  with reads demo_leafable obtain im w'' where
    "store_Resolve demo_lib demo_store demo_ref demo_platform w' = (Ok im, w'')"
    "im_Manifest im = leaf_descriptor demo_ref demo_platform (demo_md demo_diff)" by blast
  moreover obtain r where "rs = [r]" using r(3) by (auto split: list.splits)
  ultimately show ?thesis using r(1) by (intro exI [of _ r] exI [of _ w']) auto
qed

end
