(* ===== verification/Go_Testing.thy ===== *)
theory Go_Testing
  imports Oci_Prelude
begin

text \<open>
  What the packages of tests use of Go's package testing. A test runs in the world of what it tests and
  in the list of the failures it has reported. \<open>Fatalf\<close> reports and ends the running test function, which
  is an error here; \<open>T.Run\<close> goes on after a subtest that ended so. A panic ends the whole run.
\<close>

type_synonym ('w, 'a) test = "('w \<times> string list, 'a) io"

text \<open>A call of the code under test, with its result and its error at hand.\<close>

definition under_test :: "('w, 'a) io \<Rightarrow> ('w, 'a) test" where
  "under_test m t = (case m (fst t) of (r, w) \<Rightarrow> (r, (w, snd t)))"

definition call :: "('w, 'a) io \<Rightarrow> ('w, gerr + 'a) test" where
  "call m = attempt (under_test m)"

definition Errorf :: "string \<Rightarrow> ('w, unit) test" where
  "Errorf msg t = (Ok (), (fst t, snd t @ [msg]))"

definition Fatalf :: "string \<Rightarrow> ('w, 'a) test" where
  "Fatalf msg t = (Err (Msg ''FailNow''), (fst t, snd t @ [msg]))"

definition subtest :: "('w, unit) test \<Rightarrow> ('w, unit) test" where
  "subtest body = ebind (attempt body) (\<lambda>_. ret ())"

text \<open>\<open>if !ok { t.Errorf(msg) }\<close> and \<open>if err != nil { t.Fatalf(msg) }\<close>\<close>

definition check :: "bool \<Rightarrow> string \<Rightarrow> ('w, unit) test" where
  "check good msg = (if good then ret () else Errorf msg)"

definition must :: "string \<Rightarrow> ('w, 'a) io \<Rightarrow> ('w, 'a) test" where
  "must msg m = ebind (call m) (\<lambda>r. case r of Inl e \<Rightarrow> Fatalf msg | Inr x \<Rightarrow> ret x)"

definition succeeded :: "gerr + 'a \<Rightarrow> bool" where
  "succeeded r = (case r of Inl e \<Rightarrow> False | Inr x \<Rightarrow> True)"

definition failed_with :: "gerr + 'a \<Rightarrow> sentinel \<Rightarrow> bool" where
  "failed_with r s = (case r of Inl e \<Rightarrow> err_is e s | Inr x \<Rightarrow> False)"

section \<open>Runs that report nothing\<close>

lemma call_run:
  "ebind (call m) f (w, log) =
     (case m w of
        (Ok x, w') \<Rightarrow> f (Inr x) (w', log)
      | (Err e, w') \<Rightarrow> f (Inl e) (w', log)
      | (Panic, w') \<Rightarrow> (Panic, (w', log)))"
  by (simp add: call_def under_test_def attempt_def ebind_def split: prod.split res.split)

lemma must_run:
  "ebind (must msg m) f (w, log) =
     (case m w of
        (Ok x, w') \<Rightarrow> f x (w', log)
      | (Err e, w') \<Rightarrow> (Err (Msg ''FailNow''), (w', log @ [msg]))
      | (Panic, w') \<Rightarrow> (Panic, (w', log)))"
  by (simp only: must_def ebind_assoc call_run) (simp add: Fatalf_def ebind_def split: prod.split res.split)

lemma for_each_step: "f x t = (Ok (), t1) \<Longrightarrow> for_each f (x # xs) t = for_each f xs t1"
  by (simp add: ebind_def)

lemma check_good [simp]: "good \<Longrightarrow> ebind (check good msg) f = f ()"
  by (simp add: check_def)

lemma check_last [simp]: "good \<Longrightarrow> check good msg = ret ()"
  by (simp add: check_def)

lemma subtest_Ok: "body t = (Ok (), t') \<Longrightarrow> ebind (subtest body) f t = f () t'"
  by (simp add: subtest_def ebind_def attempt_def ret_def)

lemma succeeded_simps [simp]: "succeeded (Inr x)" "\<not> succeeded (Inl e)"
  by (simp_all add: succeeded_def)

lemma failed_with_simps [simp]: "failed_with (Inl e) s = err_is e s" "\<not> failed_with (Inr x) s"
  by (simp_all add: failed_with_def)

end
