(* ===== verification/Ocidirtest.thy ===== *)
theory Ocidirtest
  imports Fsdir Ocidir_Helper Go_Testing
begin

text \<open>
  Package internal/ocidirtest: the synthetic OCI image layout the tests of the backends work on
  (ocidirtest.go), and the checks every implementation of \<open>ocidir.OciDir\<close> is put through
  (conformance.go), with the search for the generated test data.
\<close>

section \<open>ocidirtest.go\<close>

definition SingleName :: string where "SingleName = ''example.com/single:1''"
definition MultiName :: string where "MultiName = ''example.com/multi:1''"
definition DockerName :: string where "DockerName = ''example.com/docker:1''"
definition DockerListName :: string where "DockerListName = ''example.com/docker-list:1''"

definition MediaTypeImageLayer :: string where
  "MediaTypeImageLayer = ''application/vnd.oci.image.layer.v1.tar''"

definition MediaTypeDockerConfig :: string where
  "MediaTypeDockerConfig = ''application/vnd.docker.container.image.v1+json''"

definition MediaTypeDockerLayerGzip :: string where
  "MediaTypeDockerLayerGzip = ''application/vnd.docker.image.rootfs.diff.tar.gzip''"

record media_types =
  mt_index :: string
  mt_manifest :: string
  mt_config :: string
  mt_layer :: string

definition ociTypes :: media_types where
  "ociTypes = \<lparr>mt_index = MediaTypeImageIndex, mt_manifest = MediaTypeImageManifest,
     mt_config = MediaTypeImageConfig, mt_layer = MediaTypeImageLayer\<rparr>"

definition dockerTypes :: media_types where
  "dockerTypes = \<lparr>mt_index = MediaTypeDockerManifestList, mt_manifest = MediaTypeDockerManifest,
     mt_config = MediaTypeDockerConfig, mt_layer = MediaTypeDockerLayerGzip\<rparr>"

record fimage =
  fi_Manifest :: descriptor
  fi_Config :: descriptor
  fi_Layers :: "descriptor list"
  fi_Image :: image_config

text \<open>
  \<open>json.Marshal\<close> of what only the tests encode: an \<open>ocispec.Image\<close> whose rootfs has the type \<open>layers\<close>,
  and an \<open>ocispec.Index\<close> with the media type given.
\<close>

record test_codec =
  marshal_Image :: "image_config \<Rightarrow> gerr + bytes"
  marshal_Index_of :: "string \<Rightarrow> image_index \<Rightarrow> gerr + bytes"

record fixture =
  fx_Files :: "string \<rightharpoonup> bytes"
  fx_SharedLayer :: descriptor
  fx_Single :: fimage
  fx_Multi :: descriptor
  fx_MultiAmd64 :: fimage
  fx_MultiArm64 :: fimage
  fx_Unnamed :: fimage
  fx_Docker :: fimage
  fx_DockerList :: descriptor
  fx_DockerAmd64 :: fimage

definition ocidirtest_BlobPath :: "oci_lib \<Rightarrow> string \<Rightarrow> string res" where
  "ocidirtest_BlobPath L dgst =
     (case digest_split L dgst of
        Ok (a, h) \<Rightarrow> Ok (path_Join [ImageBlobsDir, a, h])
      | Err e \<Rightarrow> Err e | Panic \<Rightarrow> Panic)"

text \<open>The closures of \<open>New\<close>. They run in the files of the fixture.\<close>

definition bare_descriptor :: "oci_lib \<Rightarrow> string \<Rightarrow> bytes \<Rightarrow> descriptor" where
  "bare_descriptor L mt b =
     \<lparr>d_MediaType = mt, d_Digest = digest_FromBytes L b, d_Size = int (length b),
      d_Annotations = fmempty, d_Platform = None\<rparr>"

definition fixture_put :: "oci_lib \<Rightarrow> string \<Rightarrow> bytes \<Rightarrow> (tree, descriptor) io" where
  "fixture_put L mt b =
     ebind (pure_res (ocidirtest_BlobPath L (digest_FromBytes L b))) (\<lambda>name files.
       (Ok (bare_descriptor L mt b), files(name \<mapsto> b)))"

definition fixture_putJSON :: "oci_lib \<Rightarrow> string \<Rightarrow> gerr + bytes \<Rightarrow> (tree, descriptor) io" where
  "fixture_putJSON L mt v = (case v of Inl e \<Rightarrow> pure_res Panic | Inr b \<Rightarrow> fixture_put L mt b)"

definition fixture_config :: "string \<Rightarrow> descriptor list \<Rightarrow> image_config" where
  "fixture_config arch layers =
     \<lparr>c_Platform = \<lparr>OS = ''linux'', Architecture = arch, Variant = []\<rparr>,
      c_DiffIDs = map d_Digest layers, c_Created = None\<rparr>"

definition fixture_image ::
  "oci_lib \<Rightarrow> test_codec \<Rightarrow> media_types \<Rightarrow> string \<Rightarrow> descriptor list \<Rightarrow> (tree, fimage) io" where
  "fixture_image L K mt arch layers =
     (let img = fixture_config arch layers in
      ebind (fixture_putJSON L (mt_config mt) (marshal_Image K img)) (\<lambda>config.
      ebind (fixture_putJSON L (mt_manifest mt) (marshal_Manifest L
          \<lparr>m_MediaType = mt_manifest mt, m_Config = config, m_Layers = layers\<rparr>)) (\<lambda>manifest.
        ret \<lparr>fi_Manifest = manifest\<lparr>d_Platform := Some (c_Platform img)\<rparr>, fi_Config = config,
             fi_Layers = layers, fi_Image = img\<rparr>)))"

definition fixture_layer :: "oci_lib \<Rightarrow> media_types \<Rightarrow> string \<Rightarrow> (tree, descriptor) io" where
  "fixture_layer L mt content = fixture_put L (mt_layer mt) content"

definition fixture_index ::
  "oci_lib \<Rightarrow> test_codec \<Rightarrow> media_types \<Rightarrow> descriptor list \<Rightarrow> (tree, descriptor) io" where
  "fixture_index L K mt manifests =
     fixture_putJSON L (mt_index mt) (marshal_Index_of K (mt_index mt) \<lparr>i_Manifests = manifests\<rparr>)"

definition fixture_named :: "descriptor \<Rightarrow> string \<Rightarrow> descriptor" where
  "fixture_named d name = d\<lparr>d_Platform := None, d_Annotations := fmupd AnnotationRefName name fmempty\<rparr>"

definition fixture_file :: "string \<Rightarrow> gerr + bytes \<Rightarrow> (tree, unit) io" where
  "fixture_file name v = (case v of Inl e \<Rightarrow> pure_res Panic | Inr b \<Rightarrow> (\<lambda>files. (Ok (), files(name \<mapsto> b))))"

definition fixture_root :: "fixture \<Rightarrow> image_index" where
  "fixture_root f =
     \<lparr>i_Manifests =
        [fixture_named (fi_Manifest (fx_Single f)) SingleName,
         fixture_named (fx_Multi f) MultiName,
         (fi_Manifest (fx_Unnamed f))\<lparr>d_Platform := None\<rparr>,
         fixture_named (fi_Manifest (fx_Docker f)) DockerName,
         fixture_named (fx_DockerList f) DockerListName]\<rparr>"

definition fixture_build :: "oci_lib \<Rightarrow> test_codec \<Rightarrow> (tree, fixture) io" where
  "fixture_build L K =
     ebind (fixture_layer L ociTypes ''shared'') (\<lambda>shared.
     ebind (fixture_layer L ociTypes ''single'') (\<lambda>l1.
     ebind (fixture_image L K ociTypes ''amd64'' [shared, l1]) (\<lambda>single.
     ebind (fixture_layer L ociTypes ''multi-amd64'') (\<lambda>l2.
     ebind (fixture_image L K ociTypes ''amd64'' [shared, l2]) (\<lambda>multiAmd64.
     ebind (fixture_layer L ociTypes ''multi-arm64'') (\<lambda>l3.
     ebind (fixture_image L K ociTypes ''arm64'' [shared, l3]) (\<lambda>multiArm64.
     ebind (fixture_index L K ociTypes [fi_Manifest multiAmd64, fi_Manifest multiArm64]) (\<lambda>multi.
     ebind (fixture_layer L ociTypes ''unnamed'') (\<lambda>l4.
     ebind (fixture_image L K ociTypes ''riscv64'' [l4]) (\<lambda>unnamed.
     ebind (fixture_layer L dockerTypes ''docker'') (\<lambda>l5.
     ebind (fixture_image L K dockerTypes ''amd64'' [l5]) (\<lambda>docker.
     ebind (fixture_layer L dockerTypes ''docker-list-amd64'') (\<lambda>l6.
     ebind (fixture_image L K dockerTypes ''amd64'' [l6]) (\<lambda>dockerAmd64.
     ebind (fixture_index L K dockerTypes [fi_Manifest dockerAmd64]) (\<lambda>dockerList.
     let f = \<lparr>fx_Files = Map.empty, fx_SharedLayer = shared, fx_Single = single, fx_Multi = multi,
              fx_MultiAmd64 = multiAmd64, fx_MultiArm64 = multiArm64, fx_Unnamed = unnamed,
              fx_Docker = docker, fx_DockerList = dockerList, fx_DockerAmd64 = dockerAmd64\<rparr> in
     ebind (fixture_file ImageIndexFile (marshal_Index_of K MediaTypeImageIndex (fixture_root f))) (\<lambda>_.
     ebind (fixture_file ImageLayoutFile (Inr (marshal_Layout L \<lparr>l_Version = ImageLayoutVersion\<rparr>))) (\<lambda>_.
       ret f)))))))))))))))))"

definition fixture_New :: "oci_lib \<Rightarrow> test_codec \<Rightarrow> fixture res" where
  "fixture_New L K =
     (case fixture_build L K Map.empty of
        (Ok f, files) \<Rightarrow> Ok (f\<lparr>fx_Files := files\<rparr>)
      | (Err e, files) \<Rightarrow> Err e
      | (Panic, files) \<Rightarrow> Panic)"

text \<open>A read of \<open>f.Files\<close>: an absent name gives no bytes.\<close>

definition fixture_bytes :: "fixture \<Rightarrow> string \<Rightarrow> bytes" where
  "fixture_bytes f name = (case fx_Files f name of None \<Rightarrow> [] | Some b \<Rightarrow> b)"

section \<open>conformance.go\<close>

text \<open>\<open>path.Split\<close>: the directory with its slash, and the name.\<close>

definition path_Split :: "string \<Rightarrow> string \<times> string" where
  "path_Split s =
     (let xs = split_on CHR ''/'' s in (concat (map (\<lambda>x. x @ ''/'') (butlast xs)), last xs))"

definition BlobDigest :: "oci_lib \<Rightarrow> string \<Rightarrow> string option" where
  "BlobDigest L name =
     (case path_Split name of (dir, enc) \<Rightarrow>
        let alg = path_Base (path_Clean dir) in
        if path_Dir (path_Clean dir) \<noteq> ImageBlobsDir then None
        else (let dgst = digest_NewFromEncoded L alg enc in
              if digest_Validate L dgst = None then Some dgst else None))"

text \<open>
  \<open>Write\<close> stores files in a file system in the order of their names, \<open>names\<close>; \<open>creat\<close> is the file system's
  \<open>Create\<close>. The error of \<open>Close\<close> counts when the write had none.
\<close>

definition ocidirtest_writeFile ::
  "('w, 'f) vfs \<Rightarrow> (string \<Rightarrow> ('w, 'f) io) \<Rightarrow> (string \<rightharpoonup> bytes) \<Rightarrow> string \<Rightarrow> ('w, unit) io" where
  "ocidirtest_writeFile V creat files name =
     ebind (v_MkdirAll V (path_Dir name)) (\<lambda>_.
     ebind (creat name) (\<lambda>f.
     ebind (attempt (v_Write V f (case files name of None \<Rightarrow> [] | Some b \<Rightarrow> b))) (\<lambda>written.
     ebind (attempt (v_Close V f)) (\<lambda>closed.
       case written of
         Inl e \<Rightarrow> throw e
       | Inr _ \<Rightarrow> (case closed of Inl e \<Rightarrow> throw e | Inr _ \<Rightarrow> ret ())))))"

definition ocidirtest_Write ::
  "('w, 'f) vfs \<Rightarrow> (string \<Rightarrow> ('w, 'f) io) \<Rightarrow> (string \<rightharpoonup> bytes) \<Rightarrow> string list \<Rightarrow> ('w, unit) io" where
  "ocidirtest_Write V creat files names = for_each (ocidirtest_writeFile V creat files) names"

text \<open>
  \<open>TestOciDir\<close> goes through the files of the fixture in the order \<open>names\<close>, which Go leaves open. Closing a
  reader has no effect here and does not fail.
\<close>

definition checkBlob :: "oci_lib \<Rightarrow> 'w oci_dir \<Rightarrow> fixture \<Rightarrow> string \<Rightarrow> ('w, unit) test" where
  "checkBlob L dir f name =
     (case BlobDigest L name of
        None \<Rightarrow> ret ()
      | Some dgst \<Rightarrow>
          (let want = fixture_bytes f name; off = length want div 2 in
           ebind (call (od_Blobs dir dgst)) (\<lambda>r.
             case r of
               Inl e \<Rightarrow> Errorf ''Blobs''
             | Inr rd \<Rightarrow>
                 ebind (check (rd_Size rd = int (length want)) ''Blobs.Size'') (\<lambda>_.
                   case reader_ReadAt rd off (length want - off) of
                     (buf, err) \<Rightarrow>
                       check ((case err of None \<Rightarrow> True | Some e \<Rightarrow> err_is e EOF) \<and> buf = drop off want)
                         ''Blobs.ReadAt''))))"

definition TestOciDir :: "oci_lib \<Rightarrow> string list \<Rightarrow> 'w oci_dir \<Rightarrow> fixture \<Rightarrow> ('w, unit) test" where
  "TestOciDir L names dir f =
     ebind (call (od_OciLayoutBin dir)) (\<lambda>layoutBin.
     ebind (check (layoutBin = Inr (fixture_bytes f ImageLayoutFile)) ''OciLayoutBin'') (\<lambda>_.
     ebind (call (od_OciLayout dir)) (\<lambda>layout.
     ebind (check (case layout of Inl e \<Rightarrow> False | Inr l \<Rightarrow> l_Version l = ImageLayoutVersion) ''OciLayout'') (\<lambda>_.
     ebind (call (od_IndexBin dir)) (\<lambda>indexBin.
     ebind (check (indexBin = Inr (fixture_bytes f ImageIndexFile)) ''IndexBin'') (\<lambda>_.
     ebind (call (od_Index dir)) (\<lambda>idx.
     ebind (check (case idx of Inl e \<Rightarrow> False | Inr ix \<Rightarrow> length (i_Manifests ix) = 5) ''Index'') (\<lambda>_.
     ebind (for_each (checkBlob L dir f) names) (\<lambda>_.
     ebind (call (od_Blobs dir (digest_FromBytes L ''missing''))) (\<lambda>missing.
     ebind (check (failed_with missing ErrNotExist) ''Blobs(missing)'') (\<lambda>_.
     ebind (call (od_Blobs dir ''sha256:../../index.json'')) (\<lambda>invalid.
       check (\<not> succeeded invalid) ''Blobs(invalid digest)''))))))))))))"

text \<open>\<open>TestSameAs\<close>. \<open>depth\<close> is the depth of the call stack the walks of package ocidir may use.\<close>

fun readBlobs ::
  "oci_lib \<Rightarrow> 'w oci_dir \<Rightarrow> string list \<Rightarrow> (string, bytes) fmap \<Rightarrow> ('w, (string, bytes) fmap) test" where
  "readBlobs L dir [] out = ret out"
| "readBlobs L dir (name # names) out =
     ebind (must ''blob'' (od_Blobs dir name)) (\<lambda>rd.
     ebind (must ''blob'' (pure_res (read_all rd))) (\<lambda>b.
     ebind (check (digest_FromBytes L b = name) ''blob: content digest mismatch'') (\<lambda>_.
       readBlobs L dir names (fmupd name b out))))"

definition blobs_of_dir :: "oci_lib \<Rightarrow> nat \<Rightarrow> 'w oci_dir \<Rightarrow> ('w, (string, bytes) fmap) test" where
  "blobs_of_dir L depth dir =
     ebind (must ''AllBlobsFromNames'' (helper_AllBlobsFromNames L depth dir [])) (\<lambda>names.
       readBlobs L dir names fmempty)"

definition TestSameAs :: "oci_lib \<Rightarrow> nat \<Rightarrow> 'w oci_dir \<Rightarrow> 'w oci_dir \<Rightarrow> ('w, unit) test" where
  "TestSameAs L depth want got =
     ebind (must ''AllImages'' (helper_AllImages L depth want)) (\<lambda>wantImages.
     ebind (must ''AllImages'' (helper_AllImages L depth got)) (\<lambda>gotImages.
     ebind (if wantImages = [] then Fatalf ''no images in want'' else ret ()) (\<lambda>_.
     ebind (check (gotImages = wantImages) ''AllImages mismatch'') (\<lambda>_.
     ebind (blobs_of_dir L depth want) (\<lambda>wantBlobs.
     ebind (blobs_of_dir L depth got) (\<lambda>gotBlobs.
       check (gotBlobs = wantBlobs) ''blobs mismatch''))))))"

section \<open>UbuntuDir\<close>

text \<open>
  The directory above a path is shorter, unless the path is a root or has no slash: cleaning a path that ends with
  a slash drops at least that. So the search for go.mod ends.
\<close>

abbreviation seg_weight :: "string list \<Rightarrow> nat" where
  "seg_weight xs \<equiv> sum_list (map (\<lambda>x. Suc (length x)) xs)"

lemma weight_join: "xs \<noteq> [] \<Longrightarrow> Suc (length (join_on c xs)) = seg_weight xs"
  by (induction c xs rule: join_on.induct) auto

lemma weight_split: "seg_weight (split_on c s) = Suc (length s)"
proof -
  have "split_on c s \<noteq> []" by (cases s) (auto split: list.split)
  from weight_join [OF this, of c] show ?thesis by simp
qed

lemma weight_clean: "seg_weight (clean_segs r acc xs) \<le> seg_weight acc + seg_weight xs"
proof (induction r acc xs rule: clean_segs.induct)
  case (1 r acc)
  have "seg_weight (rev acc) = seg_weight acc" by (simp only: rev_map [symmetric] sum_list_rev)
  then show ?case by (simp only: clean_segs.simps)
qed (auto split: list.split)

lemma clean_segs_blank: "clean_segs r acc (xs @ [[]]) = clean_segs r acc xs"
  by (induction r acc xs rule: clean_segs.induct) (auto split: list.split)

lemma split_snoc: "split_on c (s @ [c]) = split_on c s @ [[]]"
proof (induction s)
  case (Cons a s)
  have "split_on c s \<noteq> []" by (cases s) (auto split: list.split)
  with Cons show ?case by (cases "split_on c s") auto
qed simp

lemma path_Clean_slash:
  assumes "q \<noteq> []" shows "length (path_Clean (q @ ''/'')) < length (q @ ''/'')"
proof -
  let ?r = "has_prefix (q @ ''/'') ''/''"
  let ?segs = "clean_segs ?r [] (split_on CHR ''/'' (q @ ''/''))"
  have same: "?segs = clean_segs ?r [] (split_on CHR ''/'' q)"
    by (simp add: split_snoc clean_segs_blank)
  have "seg_weight ?segs \<le> (if ?r then length q else Suc (length q))"
  proof (cases ?r)
    case True
    with assms obtain t where q: "q = CHR ''/'' # t" by (cases q) (auto simp: has_prefix_def)
    have "?segs = clean_segs ?r [] (split_on CHR ''/'' t)" unfolding same by (simp add: q)
    moreover have "seg_weight (clean_segs ?r [] (split_on CHR ''/'' t)) \<le> length q"
      using weight_clean [of ?r "[]" "split_on CHR ''/'' t"] unfolding weight_split by (simp add: q)
    ultimately show ?thesis using True by simp
  next
    case False
    with weight_clean [of ?r "[]" "split_on CHR ''/'' q"] same show ?thesis by (simp add: weight_split)
  qed
  moreover have "Suc (length (join_on CHR ''/'' ?segs)) = seg_weight ?segs" if "?segs \<noteq> []" using weight_join that by blast
  ultimately show ?thesis
    using assms unfolding path_Clean_def Let_def by (cases "?segs = []"; cases ?r) (auto simp: Suc_le_eq)
qed

lemma path_Dir_shorter:
  assumes "path_Dir s \<noteq> s"
  shows "path_Dir s = ''.'' \<and> s \<noteq> ''.'' \<or> length (path_Dir s) < length s"
proof -
  let ?p = "rev (dropWhile (\<lambda>c. c \<noteq> CHR ''/'') (rev s))"
  have le: "length ?p \<le> length s" using length_dropWhile_le [of _ "rev s"] by simp
  show ?thesis
  proof (cases ?p rule: rev_cases)
    case Nil
    have "path_Clean [] = ''.''" by (simp add: path_Clean_def has_prefix_def)
    with Nil have "path_Dir s = ''.''" by (simp only: path_Dir_def)
    with assms show ?thesis by auto
  next
    case (snoc q c)
    then have c: "c = CHR ''/''"
      using hd_dropWhile [of "\<lambda>c. c \<noteq> CHR ''/''" "rev s"] by (metis hd_rev last_snoc rev_is_Nil_conv rev_rev_ident snoc_eq_iff_butlast)
    show ?thesis
    proof (cases "q = []")
      case False
      from path_Clean_slash [OF this] snoc c le show ?thesis by (simp add: path_Dir_def)
    next
      case True
      then have "path_Dir s = ''/''" using snoc c by (simp add: path_Dir_def path_Clean_def has_prefix_def)
      with assms le snoc show ?thesis by (cases s) (auto simp: True)
    qed
  qed
qed

text \<open>
  \<open>t.Skipf\<close> ends the test without a report. \<open>stat\<close> is \<open>os.Stat\<close>, of which only the error is read; every error
  counts as the file not being there.
\<close>

definition Skipf :: "string \<Rightarrow> ('w, 'a) test" where
  "Skipf msg t = (Err (Msg ''SkipNow''), t)"

function find_go_mod :: "(string \<Rightarrow> ('w, unit) io) \<Rightarrow> string \<Rightarrow> ('w, string) test" where
  "find_go_mod stat dir =
     ebind (call (stat (path_Join [dir, ''go.mod'']))) (\<lambda>r.
       if succeeded r then ret dir
       else if path_Dir dir = dir then Fatalf ''go.mod not found''
       else find_go_mod stat (path_Dir dir))"
  by pat_completeness auto

termination
proof (relation "measure (\<lambda>(stat, dir). if dir = ''.'' then 0 else Suc (length dir))", goal_cases)
  case (2 stat dir)
  have "path_Dir ''.'' = ''.''" by (simp add: path_Dir_def path_Clean_def has_prefix_def)
  with 2 path_Dir_shorter [of dir] show ?case by (cases "dir = ''.''") auto
qed simp

declare find_go_mod.simps [simp del]

definition UbuntuDir :: "('w, string) io \<Rightarrow> (string \<Rightarrow> ('w, unit) io) \<Rightarrow> ('w, string) test" where
  "UbuntuDir getwd stat =
     ebind (must ''Getwd'' getwd) (\<lambda>wd.
     ebind (find_go_mod stat wd) (\<lambda>dir.
     let ubuntu = path_Join [dir, ''internal'', ''testdata'', ''ocidir'', ''ubuntu''] in
     ebind (call (stat (path_Join [ubuntu, ImageIndexFile]))) (\<lambda>r.
       if succeeded r then ret ubuntu else Skipf (ubuntu @ '' is not generated; run go generate ./...''))))"

text \<open>What is found has a go.mod, and no test fails because the data is not there.\<close>

lemma find_go_mod_found:
  assumes "find_go_mod stat dir t = (Ok d, t')"
  shows "\<exists>w. fst (stat (path_Join [d, ''go.mod'']) w) = Ok ()"
  using assms
proof (induction stat dir arbitrary: t rule: find_go_mod.induct)
  case (1 stat dir)
  obtain w log where t: "t = (w, log)" by (cases t)
  show ?case
  proof (cases "stat (path_Join [dir, ''go.mod'']) w")
    case (Pair r w')
    show ?thesis
    proof (cases r)
      case (Ok u)
      with 1(2) Pair have "d = dir" by (subst (asm) find_go_mod.simps) (simp add: t call_run ret_def)
      with Ok Pair show ?thesis by (intro exI [of _ w]) simp
    next
      case (Err e)
      with 1(2) Pair have "path_Dir dir \<noteq> dir" "find_go_mod stat (path_Dir dir) (w', log) = (Ok d, t')"
        by (subst (asm) find_go_mod.simps, auto simp: t call_run Fatalf_def split: if_splits)+
      with 1(1) [of "Inl e"] show ?thesis by simp
    next
      case Panic
      with 1(2) Pair show ?thesis by (subst (asm) find_go_mod.simps) (simp add: t call_run)
    qed
  qed
qed

end
