(* ===== verification/Storetest.thy ===== *)
theory Storetest
  imports Ocidirtest "HOL-Library.List_Lexorder" "HOL-Library.Char_ord"
begin

text \<open>
  Package internal/storetest: the cases every backend is put through as a \<open>store.Store\<close>. \<open>newStore\<close> gives
  the backend of an empty store. \<open>Walk\<close> is run to its end before its items are looked at; where the loop
  over it stops early, what it would have yielded after that is not read. Package internal/imagetest, which
  writes one image into a store, is at the end.
\<close>

definition storetest_amd64 :: platform where
  "storetest_amd64 = \<lparr>OS = ''linux'', Architecture = ''amd64'', Variant = []\<rparr>"

definition storetest_arm64 :: platform where
  "storetest_arm64 = \<lparr>OS = ''linux'', Architecture = ''arm64'', Variant = []\<rparr>"

definition errReader :: body where "errReader = ([], Some (Msg ''read of an existing blob''))"

text \<open>A file of the fixture by the path of a blob.\<close>

definition fixture_blob :: "oci_lib \<Rightarrow> fixture \<Rightarrow> string \<Rightarrow> bytes" where
  "fixture_blob L f dgst = (case ocidirtest_BlobPath L dgst of Ok n \<Rightarrow> fixture_bytes f n | _ \<Rightarrow> [])"

definition test_PutBlob :: "oci_lib \<Rightarrow> 'w backend \<Rightarrow> bytes \<Rightarrow> descriptor \<Rightarrow> ('w, unit) test" where
  "test_PutBlob L s b d = must ''PutBlob'' (store_PutBlob L s d (bytes_body b))"

definition test_PutImage :: "oci_lib \<Rightarrow> 'w backend \<Rightarrow> fixture \<Rightarrow> fimage \<Rightarrow> ('w, unit) test" where
  "test_PutImage L s f img =
     for_each (\<lambda>d. test_PutBlob L s (fixture_blob L f (d_Digest d)) d)
       (fi_Layers img @ [fi_Config img, fi_Manifest img])"

definition test_ref :: "oci_lib \<Rightarrow> string \<Rightarrow> ('w, reference) test" where
  "test_ref L s = must ''ParseReference'' (pure_res (types_ParseReference L s))"

definition digestRef :: "string \<Rightarrow> string \<Rightarrow> reference" where
  "digestRef repo d = \<lparr>Repository = repo, Tag = [], Digest = d\<rparr>"

text \<open>The blobs of an image, each opened.\<close>

definition test_blobsOf :: "oci_lib \<Rightarrow> nat \<Rightarrow> 'w image \<Rightarrow> ('w, string list) test" where
  "test_blobsOf L depth img =
     ebind (must ''AllBlobsFromNames'' (helper_AllBlobsFromNames L depth (im_Dir img) [])) (\<lambda>names.
     ebind (for_each (\<lambda>n. ebind (must ''blob'' (od_Blobs (im_Dir img) n)) (\<lambda>_. ret ())) names) (\<lambda>_. ret names))"

definition test_want :: "fimage \<Rightarrow> string list" where
  "test_want img = map d_Digest (fi_Layers img) @ [d_Digest (fi_Config img), d_Digest (fi_Manifest img)]"

section \<open>The subtests\<close>

text \<open>The first subtest, \<open>commit and resolve\<close>, for one leaf.\<close>

definition test_leaf :: "oci_lib \<Rightarrow> nat \<Rightarrow> 'w backend \<Rightarrow> reference \<times> fimage \<Rightarrow> ('w, unit) test" where
  "test_leaf L depth s l =
     ebind (must ''Commit'' (store_Commit L s (fst l) storetest_amd64 (fi_Manifest (snd l)))) (\<lambda>_.
     ebind (must ''Resolve'' (store_Resolve L s (fst l) storetest_amd64)) (\<lambda>img.
     ebind (check (d_Digest (im_Manifest img) = d_Digest (fi_Manifest (snd l))) ''Resolve.Manifest'') (\<lambda>_.
     ebind (test_blobsOf L depth img) (\<lambda>got.
     ebind (check (got = test_want (snd l)) ''blobs'') (\<lambda>_.
     ebind (call (store_Commit L s (fst l) storetest_amd64 (fi_Manifest (snd l)))) (\<lambda>again.
       check (succeeded again) ''re-Commit''))))))"

definition walk_line :: "reference \<Rightarrow> platform \<Rightarrow> string \<Rightarrow> string" where
  "walk_line ref p dgst = reference_String ref @ '' '' @ platform_String p @ '' '' @ dgst"

fun test_walked :: "bool \<Rightarrow> (gerr + 'w image) list \<Rightarrow> string list \<Rightarrow> ('w, string list) test" where
  "test_walked listable [] walked = ret walked"
| "test_walked listable (x # xs) walked =
     (if \<not> listable then
        ebind (check (failed_with x ErrNotListable) ''Walk on a non-listable backend'') (\<lambda>_. ret walked)
      else
        (case x of
           Inl e \<Rightarrow> Fatalf ''Walk''
         | Inr img \<Rightarrow>
             test_walked listable xs (walked @ [walk_line (im_Ref img) (im_Platform img) (d_Digest (im_Manifest img))])))"

definition test_leaves :: "fixture \<Rightarrow> reference \<Rightarrow> string \<Rightarrow> (reference \<times> fimage) list" where
  "test_leaves f single multiRepo =
     [(single, fx_Single f),
      (digestRef (Repository single) (d_Digest (fi_Manifest (fx_Single f))), fx_Single f),
      (digestRef multiRepo (d_Digest (fx_Multi f)), fx_MultiAmd64 f)]"

definition test_commit_resolve ::
  "oci_lib \<Rightarrow> nat \<Rightarrow> ('w, 'w backend) test \<Rightarrow> bool \<Rightarrow> fixture \<Rightarrow> reference \<Rightarrow> string \<Rightarrow> ('w, unit) test" where
  "test_commit_resolve L depth newStore listable f single multiRepo =
     ebind newStore (\<lambda>s.
     ebind (test_PutImage L s f (fx_Single f)) (\<lambda>_.
     ebind (test_PutImage L s f (fx_MultiAmd64 f)) (\<lambda>_.
     let leaves = test_leaves f single multiRepo in
     ebind (for_each (test_leaf L depth s) leaves) (\<lambda>_.
     ebind (call (store_HasBlob L s (d_Digest (fx_Multi f)))) (\<lambda>has.
     ebind (check (has \<noteq> Inr True) ''the index blob was stored'') (\<lambda>_.
     ebind (call (store_Commit L s single storetest_amd64 (fi_Manifest (fx_MultiAmd64 f)))) (\<lambda>conflict.
     ebind (check (failed_with conflict ErrConflict) ''conflicting Commit'') (\<lambda>_.
     ebind (must ''Walk'' (store_Walk L s)) (\<lambda>items.
     ebind (test_walked listable items []) (\<lambda>walked.
       check (listable \<longrightarrow> sort walked =
           sort (map (\<lambda>l. walk_line (fst l) storetest_amd64 (d_Digest (fi_Manifest (snd l)))) leaves))
         ''Walk''))))))))))"

definition test_without_leaf ::
  "oci_lib \<Rightarrow> nat \<Rightarrow> ('w, 'w backend) test \<Rightarrow> fixture \<Rightarrow> reference \<Rightarrow> string \<Rightarrow> ('w, unit) test" where
  "test_without_leaf L depth newStore f single multiRepo =
     ebind newStore (\<lambda>s.
     ebind (test_PutImage L s f (fx_MultiArm64 f)) (\<lambda>_.
     ebind (must ''Resolve'' (store_Resolve L s
       (digestRef multiRepo (d_Digest (fi_Manifest (fx_MultiArm64 f)))) storetest_arm64)) (\<lambda>img.
     ebind (test_blobsOf L depth img) (\<lambda>got.
     ebind (check (got = test_want (fx_MultiArm64 f)) ''blobs'') (\<lambda>_.
     ebind (call (store_Resolve L s single storetest_amd64)) (\<lambda>absent.
       check (failed_with absent ErrNotExist) ''Resolve of an absent tag''))))))"

text \<open>The errors of \<open>json.Marshal\<close> that the tests ignore leave no bytes.\<close>

definition marshalled :: "gerr + bytes \<Rightarrow> bytes" where
  "marshalled v = (case v of Inl e \<Rightarrow> [] | Inr b \<Rightarrow> b)"

definition test_markers ::
  "oci_lib \<Rightarrow> test_codec \<Rightarrow> ('w, 'w backend) test \<Rightarrow> bool \<Rightarrow> fixture \<Rightarrow> reference \<Rightarrow> ('w, unit) test" where
  "test_markers L K newStore listable f single =
     ebind newStore (\<lambda>s.
     ebind (test_PutImage L s f (fx_Single f)) (\<lambda>_.
     ebind (must ''Commit'' (store_Commit L s single storetest_amd64 (fi_Manifest (fx_Single f)))) (\<lambda>_.
     ebind (for_each (\<lambda>l.
         ebind (call (store_HasDiffIDBlob L s (d_Digest l) (d_Digest l))) (\<lambda>has. check (has = Inr True) ''marker''))
       (fi_Layers (fx_Single f))) (\<lambda>_.
     let variant = ''shared, compressed differently'';
         vd = bare_descriptor L MediaTypeImageLayerGzip variant;
         cfg = marshalled (marshal_Image K
           ((fi_Image (fx_Single f))\<lparr>c_DiffIDs := [d_Digest (fx_SharedLayer f)]\<rparr>));
         cd = bare_descriptor L MediaTypeImageConfig cfg;
         m = marshalled (marshal_Manifest L
           \<lparr>m_MediaType = MediaTypeImageManifest, m_Config = cd, m_Layers = [vd]\<rparr>);
         md = bare_descriptor L MediaTypeImageManifest m in
     ebind (test_PutBlob L s variant vd) (\<lambda>_.
     ebind (test_PutBlob L s cfg cd) (\<lambda>_.
     ebind (test_PutBlob L s m md) (\<lambda>_.
     ebind (test_ref L ''example.com/variant:1'') (\<lambda>ref.
     ebind (must ''Commit'' (store_Commit L s ref storetest_amd64 md)) (\<lambda>_.
     ebind (call (store_DiffIDBlobs L s (d_Digest (fx_SharedLayer f)))) (\<lambda>got.
       if \<not> listable then check (failed_with got ErrNotListable) ''DiffIDBlobs on a non-listable backend''
       else
         (case got of
            Inl e \<Rightarrow> Fatalf ''DiffIDBlobs''
          | Inr ds \<Rightarrow> check (sort ds = sort [d_Digest (fx_SharedLayer f), d_Digest vd]) ''DiffIDBlobs'')))))))))))"

definition test_refusals ::
  "oci_lib \<Rightarrow> ('w, 'w backend) test \<Rightarrow> fixture \<Rightarrow> reference \<Rightarrow> ('w, unit) test" where
  "test_refusals L newStore f single =
     (let img = fx_Single f in
     ebind newStore (\<lambda>s.
     ebind (for_each (\<lambda>d. test_PutBlob L s (fixture_blob L f (d_Digest d)) d) [fi_Config img, fi_Manifest img]) (\<lambda>_.
     ebind (call (store_Commit L s single storetest_amd64 (fi_Manifest img))) (\<lambda>r.
     ebind (check (failed_with r ErrNotExist) ''missing layer'') (\<lambda>_.
     ebind (call (store_Resolve L s single storetest_amd64)) (\<lambda>r.
     ebind (check (failed_with r ErrNotExist) ''a refused Commit left a leaf'') (\<lambda>_.
     ebind (test_PutImage L s f img) (\<lambda>_.
     ebind (call (store_Commit L s single storetest_arm64 (fi_Manifest img))) (\<lambda>r.
     ebind (check (failed_with r ErrPlatform) ''wrong platform'') (\<lambda>_.
     ebind (call (store_Commit L s single storetest_amd64 (fx_Multi f))) (\<lambda>r.
     ebind (check (\<not> succeeded r) ''committing an image index'') (\<lambda>_.
     let foreign = (fi_Layers img ! 0)\<lparr>d_MediaType := ''application/vnd.docker.image.rootfs.foreign.diff.tar.gzip''\<rparr>;
         m = marshalled (marshal_Manifest L
           \<lparr>m_MediaType = MediaTypeImageManifest, m_Config = fi_Config img, m_Layers = [foreign]\<rparr>);
         md = bare_descriptor L MediaTypeImageManifest m in
     ebind (test_PutBlob L s m md) (\<lambda>_.
     ebind (call (store_Commit L s single storetest_amd64 md)) (\<lambda>r.
     ebind (check (failed_with r ErrForeignLayer) ''foreign layer'') (\<lambda>_.
     let ad = bare_descriptor L [] ''absent blob'' in
     ebind (call (store_PutBlob L s ad (bytes_body ''other bytes''))) (\<lambda>r.
     ebind (check (\<not> succeeded r) ''PutBlob with mismatching content'') (\<lambda>_.
     ebind (call (store_HasBlob L s (d_Digest ad))) (\<lambda>has.
     ebind (check (has \<noteq> Inr True) ''mismatching content was stored'') (\<lambda>_.
     ebind (call (store_PutBlob L s (fi_Layers img ! 1) errReader)) (\<lambda>r.
       check (succeeded r) ''PutBlob of an existing blob''))))))))))))))))))))"

definition TestBackend ::
  "oci_lib \<Rightarrow> test_codec \<Rightarrow> nat \<Rightarrow> ('w, 'w backend) test \<Rightarrow> bool \<Rightarrow> ('w, unit) test" where
  "TestBackend L K depth newStore listable =
     ebind (pure_res (fixture_New L K)) (\<lambda>f.
     ebind (test_ref L SingleName) (\<lambda>single.
     ebind (test_ref L MultiName) (\<lambda>multi.
     let multiRepo = Repository multi in
     ebind (subtest (test_commit_resolve L depth newStore listable f single multiRepo)) (\<lambda>_.
     ebind (subtest (test_without_leaf L depth newStore f single multiRepo)) (\<lambda>_.
     ebind (subtest (test_markers L K newStore listable f single)) (\<lambda>_.
       subtest (test_refusals L newStore f single)))))))"

section \<open>Package internal/imagetest\<close>

text \<open>
  \<open>tarball name body\<close> is what archive/tar writes for one file, or the error of the writer. \<open>new_root\<close> and
  \<open>close_root\<close> are \<open>osfs.NewRoot\<close> and the \<open>Close\<close> of what it opens; \<open>ctx_Err\<close> is the context of the test.
\<close>

definition imagetest_Amd64 :: platform where
  "imagetest_Amd64 = \<lparr>OS = ''linux'', Architecture = ''amd64'', Variant = []\<rparr>"

definition TarLayer :: "(string \<Rightarrow> bytes \<Rightarrow> gerr + bytes) \<Rightarrow> string \<Rightarrow> bytes \<Rightarrow> ('w, bytes) test" where
  "TarLayer tarball name body = (case tarball name body of Inl e \<Rightarrow> Fatalf ''tar'' | Inr b \<Rightarrow> ret b)"

definition imagetest_put :: "oci_lib \<Rightarrow> 'w backend \<Rightarrow> string \<Rightarrow> bytes \<Rightarrow> ('w, descriptor) test" where
  "imagetest_put L st mt b =
     (let d = bare_descriptor L mt b in
      ebind (must ''PutBlob'' (store_PutBlob L st d (bytes_body b))) (\<lambda>_. ret d))"

definition imagetest_write ::
  "oci_lib \<Rightarrow> test_codec \<Rightarrow> (string \<Rightarrow> bytes \<Rightarrow> gerr + bytes) \<Rightarrow> 'w backend \<Rightarrow> string \<Rightarrow> ('w, string) test" where
  "imagetest_write L K tarball st ref =
     ebind (TarLayer tarball ''etc/hello'' (ref @ [CHR 0x0A])) (\<lambda>layer.
     ebind (imagetest_put L st MediaTypeImageLayer layer) (\<lambda>ld.
     let cfg = marshalled (marshal_Image K
           \<lparr>c_Platform = imagetest_Amd64, c_DiffIDs = [d_Digest ld], c_Created = None\<rparr>) in
     ebind (imagetest_put L st MediaTypeImageConfig cfg) (\<lambda>cd.
     let m = marshalled (marshal_Manifest L
           \<lparr>m_MediaType = MediaTypeImageManifest, m_Config = cd, m_Layers = [ld]\<rparr>) in
     ebind (imagetest_put L st MediaTypeImageManifest m) (\<lambda>md.
     ebind (test_ref L ref) (\<lambda>r.
     ebind (must ''Commit'' (store_Commit L st r imagetest_Amd64 md)) (\<lambda>_. ret (d_Digest cd)))))))"

definition WriteStore ::
  "oci_lib \<Rightarrow> test_codec \<Rightarrow> (string \<Rightarrow> bytes \<Rightarrow> gerr + bytes) \<Rightarrow> ('w, unit) io \<Rightarrow>
   (string \<Rightarrow> ('w, ('w, 'f) vfs) io) \<Rightarrow> (('w, 'f) vfs \<Rightarrow> ('w, unit) io) \<Rightarrow> string \<Rightarrow> string \<Rightarrow> ('w, string) test" where
  "WriteStore L K tarball ctx_Err new_root close_root dir ref =
     ebind (must ''NewRoot'' (new_root dir)) (\<lambda>root.
       finally_do (call (close_root root)) (imagetest_write L K tarball (fsdir_NewStore L ctx_Err root) ref))"

end
