(* ===== verification/Fixture_Facts.thy ===== *)
theory Fixture_Facts
  imports Storetest
begin

text \<open>
  What the fixture of package ocidirtest holds: its images, written out, and its files. The codecs encode
  every value the tests give them and read it back; no two of the contents have the same digest.
\<close>

section \<open>The codecs\<close>

definition simple_annotations :: "descriptor \<Rightarrow> bool" where
  "simple_annotations d \<longleftrightarrow> d_Annotations d = fmempty \<or> (\<exists>n. d_Annotations d = fmupd AnnotationRefName n fmempty)"

definition codec_laws :: "oci_lib \<Rightarrow> test_codec \<Rightarrow> bool" where
  "codec_laws L K \<longleftrightarrow>
     (\<forall>c. \<exists>b. marshal_Image K c = Inr b \<and> json_Image L b = Inr c) \<and>
     (\<forall>mt ix. list_all simple_annotations (i_Manifests ix) \<longrightarrow>
        (\<exists>b. marshal_Index_of K mt ix = Inr b \<and> json_Index L b = Inr ix)) \<and>
     (\<forall>ix. list_all simple_annotations (i_Manifests ix) \<longrightarrow> (\<exists>b. marshal_Index L ix = Inr b)) \<and>
     (\<forall>m. simple_annotations (m_Config m) \<and> list_all simple_annotations (m_Layers m) \<longrightarrow>
        (\<exists>b. marshal_Manifest L m = Inr b \<and> json_MediaType L b = Inr (m_MediaType m)))"

lemma codec_Image: "codec_laws L K \<Longrightarrow> marshal_Image K c = Inr (marshalled (marshal_Image K c)) \<and>
    json_Image L (marshalled (marshal_Image K c)) = Inr c"
  unfolding codec_laws_def marshalled_def by (metis sum.simps(6))

lemma codec_Index: "codec_laws L K \<Longrightarrow> list_all simple_annotations (i_Manifests ix) \<Longrightarrow>
    marshal_Index_of K mt ix = Inr (marshalled (marshal_Index_of K mt ix)) \<and>
    json_Index L (marshalled (marshal_Index_of K mt ix)) = Inr ix"
  unfolding codec_laws_def marshalled_def by (metis sum.simps(6))

lemma codec_leaf: "codec_laws L K \<Longrightarrow> \<exists>b. marshal_Index L (leaf_index ref p md) = Inr b"
proof -
  have "list_all simple_annotations (i_Manifests (leaf_index ref p md))"
    by (auto simp: leaf_index_def simple_annotations_def)
  then show "codec_laws L K \<Longrightarrow> ?thesis" unfolding codec_laws_def by blast
qed

lemma codec_Manifest:
  assumes "codec_laws L K" "json_laws L" "simple_annotations (m_Config m)" "list_all simple_annotations (m_Layers m)"
  shows "marshal_Manifest L m = Inr (marshalled (marshal_Manifest L m)) \<and>
    json_Manifest L (marshalled (marshal_Manifest L m)) = Inr m \<and>
    json_MediaType L (marshalled (marshal_Manifest L m)) = Inr (m_MediaType m)"
proof -
  from assms obtain b where "marshal_Manifest L m = Inr b" "json_MediaType L b = Inr (m_MediaType m)"
    unfolding codec_laws_def by blast
  with assms(2) show ?thesis by (simp add: marshalled_def json_laws_def)
qed

lemma simple_bare [simp]: "simple_annotations (bare_descriptor L mt b)"
  by (simp add: simple_annotations_def bare_descriptor_def)

lemma bare_fields [simp]:
  "d_MediaType (bare_descriptor L mt b) = mt" "d_Digest (bare_descriptor L mt b) = digest_FromBytes L b"
  "d_Size (bare_descriptor L mt b) = int (length b)" "d_Annotations (bare_descriptor L mt b) = fmempty"
  by (simp_all add: bare_descriptor_def)

section \<open>The images\<close>

definition config_bytes :: "test_codec \<Rightarrow> string \<Rightarrow> descriptor list \<Rightarrow> bytes" where
  "config_bytes K arch layers = marshalled (marshal_Image K (fixture_config arch layers))"

definition manifest_of :: "oci_lib \<Rightarrow> test_codec \<Rightarrow> media_types \<Rightarrow> string \<Rightarrow> descriptor list \<Rightarrow> manifest" where
  "manifest_of L K mt arch layers =
     \<lparr>m_MediaType = mt_manifest mt, m_Config = bare_descriptor L (mt_config mt) (config_bytes K arch layers), m_Layers = layers\<rparr>"

definition manifest_bytes :: "oci_lib \<Rightarrow> test_codec \<Rightarrow> media_types \<Rightarrow> string \<Rightarrow> descriptor list \<Rightarrow> bytes" where
  "manifest_bytes L K mt arch layers = marshalled (marshal_Manifest L (manifest_of L K mt arch layers))"

definition the_image :: "oci_lib \<Rightarrow> test_codec \<Rightarrow> media_types \<Rightarrow> string \<Rightarrow> descriptor list \<Rightarrow> fimage" where
  "the_image L K mt arch layers =
     \<lparr>fi_Manifest = (bare_descriptor L (mt_manifest mt) (manifest_bytes L K mt arch layers))
        \<lparr>d_Platform := Some (c_Platform (fixture_config arch layers))\<rparr>,
      fi_Config = bare_descriptor L (mt_config mt) (config_bytes K arch layers),
      fi_Layers = layers, fi_Image = fixture_config arch layers\<rparr>"

text \<open>The path of a content in the layout, and the files with some contents added.\<close>

definition content_path :: "oci_lib \<Rightarrow> bytes \<Rightarrow> string" where
  "content_path L b = (let d = digest_FromBytes L b in
     seg_path [ImageBlobsDir, the (digest_Algorithm L d), the (digest_Encoded L d)])"

definition add_contents :: "oci_lib \<Rightarrow> tree \<Rightarrow> bytes list \<Rightarrow> tree" where
  "add_contents L t bs = foldl (\<lambda>t b. t(content_path L b \<mapsto> b)) t bs"

lemma add_contents_simps [simp]:
  "add_contents L t [] = t" "add_contents L (add_contents L t bs) cs = add_contents L t (bs @ cs)"
  by (simp_all add: add_contents_def)

lemma BlobPath_content:
  assumes "digest_laws L" shows "ocidirtest_BlobPath L (digest_FromBytes L b) = Ok (content_path L b)"
proof -
  note d = digest_split_valid [OF assms valid_FromBytes [OF assms, of b]]
  have "path_Join [ImageBlobsDir, the (digest_Algorithm L (digest_FromBytes L b)), the (digest_Encoded L (digest_FromBytes L b))]
      = seg_path [ImageBlobsDir, the (digest_Algorithm L (digest_FromBytes L b)), the (digest_Encoded L (digest_FromBytes L b))]"
    using d by (intro path_Join_segs) simp_all
  with d show ?thesis by (simp add: ocidirtest_BlobPath_def content_path_def Let_def del: join_on.simps)
qed

lemma put_run:
  "digest_laws L \<Longrightarrow> fixture_put L mt b t = (Ok (bare_descriptor L mt b), add_contents L t [b])"
  by (simp add: fixture_put_def BlobPath_content add_contents_def)

lemma putJSON_run:
  "digest_laws L \<Longrightarrow> v = Inr b \<Longrightarrow> fixture_putJSON L mt v t = (Ok (bare_descriptor L mt b), add_contents L t [b])"
  by (simp add: fixture_putJSON_def put_run)

lemma image_run:
  assumes laws: "digest_laws L" "json_laws L" "codec_laws L K" and ls: "list_all simple_annotations layers"
  shows "fixture_image L K mt arch layers t =
    (Ok (the_image L K mt arch layers), add_contents L t [config_bytes K arch layers, manifest_bytes L K mt arch layers])"
proof -
  have c: "marshal_Image K (fixture_config arch layers) = Inr (config_bytes K arch layers)"
    using codec_Image [OF laws(3)] unfolding config_bytes_def by blast
  have m: "marshal_Manifest L (manifest_of L K mt arch layers) = Inr (manifest_bytes L K mt arch layers)"
    using codec_Manifest [OF laws(3,2), of "manifest_of L K mt arch layers"] ls
    unfolding manifest_bytes_def by (simp add: manifest_of_def)
  show ?thesis
    unfolding fixture_image_def Let_def ebind_def putJSON_run [OF laws(1) c] prod.case res.case
    using m by (simp add: manifest_of_def putJSON_run [OF laws(1)] the_image_def ret_def)
qed

lemma index_run:
  assumes "digest_laws L" "codec_laws L K" "list_all simple_annotations ds"
  shows "fixture_index L K mt ds t =
    (Ok (bare_descriptor L (mt_index mt) (marshalled (marshal_Index_of K (mt_index mt) \<lparr>i_Manifests = ds\<rparr>))),
     add_contents L t [marshalled (marshal_Index_of K (mt_index mt) \<lparr>i_Manifests = ds\<rparr>)])"
  using codec_Index [OF assms(2), of "\<lparr>i_Manifests = ds\<rparr>" "mt_index mt"] assms(3)
  unfolding fixture_index_def by (intro putJSON_run [OF assms(1)]) simp

section \<open>The fixture\<close>

definition layer_of :: "oci_lib \<Rightarrow> media_types \<Rightarrow> string \<Rightarrow> descriptor" where
  "layer_of L mt b = bare_descriptor L (mt_layer mt) b"

definition fx_single :: "oci_lib \<Rightarrow> descriptor list" where
  "fx_single L = [layer_of L ociTypes ''shared'', layer_of L ociTypes ''single'']"
definition fx_amd64 :: "oci_lib \<Rightarrow> descriptor list" where
  "fx_amd64 L = [layer_of L ociTypes ''shared'', layer_of L ociTypes ''multi-amd64'']"
definition fx_arm64 :: "oci_lib \<Rightarrow> descriptor list" where
  "fx_arm64 L = [layer_of L ociTypes ''shared'', layer_of L ociTypes ''multi-arm64'']"
definition fx_unnamed :: "oci_lib \<Rightarrow> descriptor list" where
  "fx_unnamed L = [layer_of L ociTypes ''unnamed'']"
definition fx_docker :: "oci_lib \<Rightarrow> descriptor list" where
  "fx_docker L = [layer_of L dockerTypes ''docker'']"
definition fx_dockerAmd64 :: "oci_lib \<Rightarrow> descriptor list" where
  "fx_dockerAmd64 L = [layer_of L dockerTypes ''docker-list-amd64'']"

definition multi_bytes :: "oci_lib \<Rightarrow> test_codec \<Rightarrow> bytes" where
  "multi_bytes L K = marshalled (marshal_Index_of K (mt_index ociTypes)
     \<lparr>i_Manifests = [fi_Manifest (the_image L K ociTypes ''amd64'' (fx_amd64 L)),
                     fi_Manifest (the_image L K ociTypes ''arm64'' (fx_arm64 L))]\<rparr>)"

definition list_bytes :: "oci_lib \<Rightarrow> test_codec \<Rightarrow> bytes" where
  "list_bytes L K = marshalled (marshal_Index_of K (mt_index dockerTypes)
     \<lparr>i_Manifests = [fi_Manifest (the_image L K dockerTypes ''amd64'' (fx_dockerAmd64 L))]\<rparr>)"

abbreviation image_contents :: "oci_lib \<Rightarrow> test_codec \<Rightarrow> media_types \<Rightarrow> string \<Rightarrow> descriptor list \<Rightarrow> bytes list" where
  "image_contents L K mt arch layers \<equiv> [config_bytes K arch layers, manifest_bytes L K mt arch layers]"

definition fixture_contents :: "oci_lib \<Rightarrow> test_codec \<Rightarrow> bytes list" where
  "fixture_contents L K =
     [''shared'', ''single''] @ image_contents L K ociTypes ''amd64'' (fx_single L) @
     ''multi-amd64'' # image_contents L K ociTypes ''amd64'' (fx_amd64 L) @
     ''multi-arm64'' # image_contents L K ociTypes ''arm64'' (fx_arm64 L) @
     multi_bytes L K #
     ''unnamed'' # image_contents L K ociTypes ''riscv64'' (fx_unnamed L) @
     ''docker'' # image_contents L K dockerTypes ''amd64'' (fx_docker L) @
     ''docker-list-amd64'' # image_contents L K dockerTypes ''amd64'' (fx_dockerAmd64 L) @
     [list_bytes L K]"

definition bare_fixture :: "oci_lib \<Rightarrow> test_codec \<Rightarrow> fixture" where
  "bare_fixture L K =
     \<lparr>fx_Files = Map.empty, fx_SharedLayer = layer_of L ociTypes ''shared'',
      fx_Single = the_image L K ociTypes ''amd64'' (fx_single L),
      fx_Multi = bare_descriptor L (mt_index ociTypes) (multi_bytes L K),
      fx_MultiAmd64 = the_image L K ociTypes ''amd64'' (fx_amd64 L),
      fx_MultiArm64 = the_image L K ociTypes ''arm64'' (fx_arm64 L),
      fx_Unnamed = the_image L K ociTypes ''riscv64'' (fx_unnamed L),
      fx_Docker = the_image L K dockerTypes ''amd64'' (fx_docker L),
      fx_DockerList = bare_descriptor L (mt_index dockerTypes) (list_bytes L K),
      fx_DockerAmd64 = the_image L K dockerTypes ''amd64'' (fx_dockerAmd64 L)\<rparr>"

definition root_bytes :: "oci_lib \<Rightarrow> test_codec \<Rightarrow> bytes" where
  "root_bytes L K = marshalled (marshal_Index_of K MediaTypeImageIndex (fixture_root (bare_fixture L K)))"

definition the_fixture :: "oci_lib \<Rightarrow> test_codec \<Rightarrow> fixture" where
  "the_fixture L K = (bare_fixture L K)\<lparr>fx_Files :=
     (add_contents L Map.empty (fixture_contents L K))
       (ImageIndexFile \<mapsto> root_bytes L K, ImageLayoutFile \<mapsto> store_layoutJSON L)\<rparr>"

lemma simple_images [simp]:
  "simple_annotations (fi_Manifest (the_image L K mt arch layers))" "simple_annotations (layer_of L mt b)"
  "simple_annotations (fixture_named d name)" "simple_annotations d \<Longrightarrow> simple_annotations (d\<lparr>d_Platform := x\<rparr>)"
  by (auto simp: simple_annotations_def the_image_def layer_of_def fixture_named_def)

lemma simple_layers [simp]:
  "list_all simple_annotations (fx_single L)" "list_all simple_annotations (fx_amd64 L)"
  "list_all simple_annotations (fx_arm64 L)" "list_all simple_annotations (fx_unnamed L)"
  "list_all simple_annotations (fx_docker L)" "list_all simple_annotations (fx_dockerAmd64 L)"
  by (simp_all add: fx_single_def fx_amd64_def fx_arm64_def fx_unnamed_def fx_docker_def fx_dockerAmd64_def)

lemma fixture_New_run:
  assumes "digest_laws L" "json_laws L" "codec_laws L K"
  shows "fixture_New L K = Ok (the_fixture L K)"
proof -
  note steps = put_run [OF assms(1)] image_run [OF assms] index_run [OF assms(1,3)]
  have root: "marshal_Index_of K MediaTypeImageIndex (fixture_root (bare_fixture L K)) = Inr (root_bytes L K)"
    using codec_Index [OF assms(3), of "fixture_root (bare_fixture L K)" MediaTypeImageIndex]
    unfolding root_bytes_def by (simp add: fixture_root_def bare_fixture_def)
  have "fixture_build L K Map.empty = (Ok (bare_fixture L K),
      (add_contents L Map.empty (fixture_contents L K))
        (ImageIndexFile \<mapsto> root_bytes L K, ImageLayoutFile \<mapsto> store_layoutJSON L))"
    unfolding fixture_build_def
    using root
    by (simp add: ebind_def fixture_layer_def steps Let_def fixture_file_def ret_def bare_fixture_def [symmetric] fixture_contents_def
        layer_of_def [symmetric] fx_single_def [symmetric] fx_amd64_def [symmetric] fx_arm64_def [symmetric]
        fx_unnamed_def [symmetric] fx_docker_def [symmetric] fx_dockerAmd64_def [symmetric]
        multi_bytes_def [symmetric] list_bytes_def [symmetric] store_layoutJSON_def [symmetric])
  then show ?thesis by (simp add: fixture_New_def the_fixture_def)
qed

section \<open>Its files\<close>

lemma content_path_segs: "content_path L b = seg_path [''blobs'', the (digest_Algorithm L (digest_FromBytes L b)), the (digest_Encoded L (digest_FromBytes L b))]"
  by (simp add: content_path_def Let_def ImageBlobsDir_def)

lemma content_path_inj:
  assumes laws: "digest_laws L" and eq: "content_path L b = content_path L c"
  shows "digest_FromBytes L b = digest_FromBytes L c"
proof -
  note v = valid_FromBytes [OF laws]
  have slash: "CHR ''/'' \<notin> set (the (digest_Algorithm L (digest_FromBytes L x)))" "CHR ''/'' \<notin> set (the (digest_Encoded L (digest_FromBytes L x)))" for x
    using digest_split_valid(2,3) [OF laws v, of x] by (simp_all add: digest_seg_def)
  have "[''blobs'', the (digest_Algorithm L (digest_FromBytes L b)), the (digest_Encoded L (digest_FromBytes L b))] =
      [''blobs'', the (digest_Algorithm L (digest_FromBytes L c)), the (digest_Encoded L (digest_FromBytes L c))]"
    using eq unfolding content_path_segs by (rule join_on_inject) (use slash in auto)
  moreover have "\<exists>a h. digest_Algorithm L (digest_FromBytes L x) = Some a \<and> digest_Encoded L (digest_FromBytes L x) = Some h" for x
    using digest_parts [OF laws v] by metis
  ultimately show ?thesis
    using valid_digest_inj [OF laws v v] by (metis list.inject option.sel)
qed

lemma content_path_fresh: "content_path L b \<noteq> ImageIndexFile" "content_path L b \<noteq> ImageLayoutFile"
  by (simp_all add: content_path_segs ImageIndexFile_def ImageLayoutFile_def)

lemma add_contents_at:
  assumes "digest_laws L" "distinct (map (digest_FromBytes L) bs)" "b \<in> set bs"
  shows "add_contents L t bs (content_path L b) = Some b"
  using assms(2,3)
proof (induction bs rule: rev_induct)
  case (snoc c bs)
  have step: "add_contents L t (bs @ [c]) = (add_contents L t bs)(content_path L c \<mapsto> c)"
    by (simp add: add_contents_def)
  show ?case
  proof (cases "b = c")
    case False
    with snoc.prems(2) have b: "b \<in> set bs" by simp
    then have "digest_FromBytes L b \<in> digest_FromBytes L ` set bs" by (rule imageI)
    then have "digest_FromBytes L b \<noteq> digest_FromBytes L c" using snoc.prems(1) by auto
    with content_path_inj [OF assms(1)] have "content_path L b \<noteq> content_path L c" by blast
    with snoc.IH snoc.prems(1) b show ?thesis unfolding step by simp
  qed (simp add: step)
qed simp

lemma fixture_blob_at:
  assumes "digest_laws L" "distinct (map (digest_FromBytes L) (fixture_contents L K))" "b \<in> set (fixture_contents L K)"
  shows "fixture_blob L (the_fixture L K) (digest_FromBytes L b) = b"
  using add_contents_at [OF assms, of Map.empty] content_path_fresh [of L b]
  by (simp add: fixture_blob_def BlobPath_content [OF assms(1)] fixture_bytes_def the_fixture_def)

end
