(* ===== verification/Storetest_Facts.thy ===== *)
theory Storetest_Facts
  imports Fixture_Facts Store_Abstract
begin

text \<open>
  The conformance suite on a store that meets the contract: what the fixture is made of, and the runs of
  its subtests, told with the abstract store of \<open>Store_Abstract\<close>.
\<close>

section \<open>The blobs of an image\<close>

lemma fold_add_once:
  "distinct (map f ls) \<Longrightarrow> f ` set ls \<inter> set xs = {} \<Longrightarrow> fold (\<lambda>l. add_once (f l)) ls xs = xs @ map f ls"
  by (induction ls arbitrary: xs) (auto simp: add_once_def)

context reliable_backend
begin

lemma Blob_abs:
  assumes "digest_laws L" "ok w" "s_blobs (store_abs L (tree w)) d = Some b"
  shows "\<exists>rd w'. store_Blob L B d w = (Ok rd, w') \<and> read_all rd = Ok b \<and> quiet w w'"
proof -
  from Blob_up [OF assms(1,2)] assms(3) obtain rd w' where r: "store_Blob L B d w = (Ok rd, w')" "read_all rd = Ok b"
    unfolding abs_blob by blast
  from movesD [OF reads_Blob r(1)] assms(2) r show ?thesis by auto
qed

lemma AllBlobs_manifest:
  assumes laws: "digest_laws L" and dir: "od_Blobs dir = store_Blob L B"
    and ix: "od_Index dir w = (Ok ix, w1)" "i_Manifests ix = [md]" "quiet w w1" and w: "ok w"
    and mt: "store_isManifest (d_MediaType md)"
    and mb: "s_blobs (store_abs L (tree w)) (d_Digest md) = Some mb" "json_Manifest L mb = Inr m"
    and dist: "distinct (map d_Digest (m_Layers m) @ [d_Digest (m_Config m), d_Digest md])"
  shows "\<exists>w'. helper_AllBlobsFromNames L depth dir [] w =
      (Ok (map d_Digest (m_Layers m) @ [d_Digest (m_Config m), d_Digest md]), w') \<and> quiet w w'"
proof -
  from Blob_abs [OF laws _ , of w1 "d_Digest md" mb] ix(3) mb(1) obtain rd w2 where
    b: "store_Blob L B (d_Digest md) w1 = (Ok rd, w2)" "read_all rd = Ok mb" "quiet w1 w2" by auto
  then have read: "helper_readJSON dir (json_Manifest L) (d_Digest md) w1 = (Ok m, w2)"
    by (simp add: helper_readJSON_def dir ebind_def mb(2) ret_def)
  have kinds: "\<not> helper_isIndex (d_MediaType md)" "helper_isManifest (d_MediaType md)"
    using mt by (auto simp: store_isManifest_def helper_isManifest_def helper_isIndex_def MediaTypeImageManifest_def
        MediaTypeImageIndex_def MediaTypeDockerManifest_def MediaTypeDockerManifestList_def)
  have "fold (\<lambda>l. add_once (d_Digest l)) (m_Layers m) [] = map d_Digest (m_Layers m)"
    using fold_add_once [of d_Digest "m_Layers m" "[]"] dist by simp
  then have order: "add_once (d_Digest md) (add_once (d_Digest (m_Config m)) (fold (\<lambda>l. add_once (d_Digest l)) (m_Layers m) []))
      = map d_Digest (m_Layers m) @ [d_Digest (m_Config m), d_Digest md]"
    using dist by (auto simp: add_once_def)
  have "helper_AllBlobsFromNames L depth dir [] w =
      (Ok (map d_Digest (m_Layers m) @ [d_Digest (m_Config m), d_Digest md]), w2)"
    using kinds by (simp add: helper_AllBlobsFromNames_def helper_blobsFrom_def ebind_def ix(1,2) ret_def read order)
  with ix(3) b(3) show ?thesis by auto
qed

text \<open>The index of an image that was resolved, by its leaf or without one.\<close>

lemma leafDir_index:
  assumes laws: "digest_laws L" and leaf: "leafable L ref p" and w: "ok w"
    and held: "s_leaves (store_abs L (tree w)) (leaf_key ref p) = Some md"
  shows "\<exists>ix w'. od_Index (im_Dir (store_image L B ref p md' (seg_path (leaf_segs L ref p)))) w = (Ok ix, w') \<and>
    i_Manifests ix = [md] \<and> quiet w w'"
proof -
  from held obtain c ix where ix: "tree w (leaf_index_path L ref p) = Some c" "json_Index L c = Inr ix"
    "i_Manifests ix = [md]" unfolding abs_leaf_holds [OF leaf] by (auto simp: leaf_holds_def)
  from readAll_up [OF w store_file_leaf(1) [OF laws leaf] ix(1)] obtain w' where
    r: "store_readAll B (leaf_index_path L ref p) w = (Ok c, w')" "quiet w w'" by blast
  have ne: "seg_path (leaf_segs L ref p) \<noteq> []" by (simp add: leaf_segs_def imageRefsDir_def join_on_Cons)
  from r ix show ?thesis
    by (intro exI [of _ ix] exI [of _ w'])
      (simp add: store_image_def ne store_leafDir_def Let_def leaf_Join [OF laws leaf] decode_def ebind_def ret_def)
qed

lemma singleDir_index:
  assumes "json_laws L" "marshal_Index L (leaf_index \<lparr>Repository = [], Tag = [], Digest = d_Digest md\<rparr> p md) = Inr b"
  shows "\<exists>ix. od_Index (im_Dir (store_image L B ref p md [])) w = (Ok ix, w) \<and>
    i_Manifests ix = [leaf_descriptor \<lparr>Repository = [], Tag = [], Digest = d_Digest md\<rparr> p md]"
proof -
  from assms have "json_Index L b = Inr (leaf_index \<lparr>Repository = [], Tag = [], Digest = d_Digest md\<rparr> p md)"
    by (simp add: json_laws_def)
  then show ?thesis
    using assms(2) by (auto simp: store_image_def store_SingleManifestDir_def Let_def decode_def store_indexJSON_def ret_def
        leaf_index_def leaf_descriptor_def)
qed

lemma image_Blobs: "od_Blobs (im_Dir (store_image L B ref p md leaf)) = store_Blob L B"
  by (simp add: store_image_def store_SingleManifestDir_def store_leafDir_def Let_def)

text \<open>\<open>blobsOf\<close> gives the blobs of the manifest in their order, and reports nothing.\<close>

lemma test_blobsOf_run:
  assumes laws: "digest_laws L" and dir: "od_Blobs (im_Dir img) = store_Blob L B"
    and ix: "od_Index (im_Dir img) w = (Ok ix, w1)" "i_Manifests ix = [md]" "quiet w w1" and w: "ok w"
    and mt: "store_isManifest (d_MediaType md)"
    and mb: "s_blobs (store_abs L (tree w)) (d_Digest md) = Some mb" "json_Manifest L mb = Inr m"
    and names: "names = map d_Digest (m_Layers m) @ [d_Digest (m_Config m), d_Digest md]" "distinct names"
    and stored: "\<And>d. d \<in> set names \<Longrightarrow> s_blobs (store_abs L (tree w)) d \<noteq> None"
  shows "\<exists>w'. test_blobsOf L depth img (w, log) = (Ok names, (w', log)) \<and> quiet w w'"
proof -
  from AllBlobs_manifest [OF laws dir ix w mt mb names(2) [unfolded names(1)]] obtain w2 where
    all: "helper_AllBlobsFromNames L depth (im_Dir img) [] w = (Ok names, w2)" "quiet w w2" unfolding names(1) by blast
  let ?open = "\<lambda>n. ebind (must ''blob'' (od_Blobs (im_Dir img) n)) (\<lambda>_. ret ())"
  have "\<exists>w'. for_each ?open ns (u, log) = (Ok (), (w', log)) \<and> quiet w w'"
    if "quiet w u" "set ns \<subseteq> set names" for ns u
    using that
  proof (induction ns arbitrary: u)
    case Nil
    then show ?case by (simp add: ret_def)
  next
    case (Cons n ns)
    then obtain b where "s_blobs (store_abs L (tree u)) n = Some b" using stored [of n] by auto
    from Blob_abs [OF laws _ this] Cons.prems(1) obtain rd u' where r: "store_Blob L B n u = (Ok rd, u')" "quiet w u'" by auto
    from Cons.IH [OF r(2)] Cons.prems(2) obtain w' where
      rest: "for_each ?open ns (u', log) = (Ok (), (w', log))" "quiet w w'" by auto
    have "?open n (u, log) = (Ok (), (u', log))"
      unfolding dir by (simp add: must_run r(1) ret_def)
    from for_each_step [of ?open, OF this] rest show ?case by (intro exI [of _ w']) simp
  qed
  from this [OF all(2) order_refl] obtain w3 where
    "for_each ?open names (w2, log) = (Ok (), (w3, log))" "quiet w w3" by blast
  then show ?thesis
    unfolding test_blobsOf_def by (intro exI [of _ w3]) (simp add: must_run all(1), simp add: ebind_def ret_def)
qed

end

section \<open>Blobs put into a store\<close>

definition put_all :: "oci_lib \<Rightarrow> bytes list \<Rightarrow> store_state \<Rightarrow> store_state" where
  "put_all L bs s = fold (\<lambda>b. spec_put (digest_FromBytes L b) b) bs s"

text \<open>The blobs of a store into which contents were put, the first of each digest.\<close>

definition stores :: "oci_lib \<Rightarrow> bytes list \<Rightarrow> store_state \<Rightarrow> bool" where
  "stores L bs s \<longleftrightarrow> s_blobs s = (\<lambda>d. List.find (\<lambda>b. digest_FromBytes L b = d) bs)"

lemma find_snoc: "List.find P (xs @ [x]) = (case List.find P xs of None \<Rightarrow> if P x then Some x else None | Some y \<Rightarrow> Some y)"
  by (induction xs) auto

lemma stores_put: "stores L bs s \<Longrightarrow> stores L (bs @ [b]) (spec_put (digest_FromBytes L b) b s)"
  by (auto simp: stores_def find_snoc fun_eq_iff split: option.split)

lemma stores_put_all: "stores L bs s \<Longrightarrow> stores L (bs @ cs) (put_all L cs s)"
proof (induction cs arbitrary: bs s)
  case (Cons c cs)
  from Cons.IH [OF stores_put [OF Cons.prems]] show ?case by (simp add: put_all_def)
qed (simp add: put_all_def)

lemma put_all_fields [simp]: "s_leaves (put_all L bs s) = s_leaves s" "s_marks (put_all L bs s) = s_marks s"
proof -
  have "s_leaves (put_all L bs s) = s_leaves s \<and> s_marks (put_all L bs s) = s_marks s"
    unfolding put_all_def by (induction bs arbitrary: s) simp_all
  then show "s_leaves (put_all L bs s) = s_leaves s" "s_marks (put_all L bs s) = s_marks s" by simp_all
qed

lemma put_all_append: "put_all L cs (put_all L bs s) = put_all L (bs @ cs) s"
  by (simp add: put_all_def)

lemma stores_found:
  assumes "stores L bs s" "distinct (map (digest_FromBytes L) cs)" "set bs \<subseteq> set cs" "b \<in> set bs"
  shows "s_blobs s (digest_FromBytes L b) = Some b"
proof -
  have inj: "inj_on (digest_FromBytes L) (set cs)" using assms(2) by (simp add: distinct_map)
  obtain x where x: "List.find (\<lambda>c. digest_FromBytes L c = digest_FromBytes L b) bs = Some x"
    using assms(4) by (cases "List.find (\<lambda>c. digest_FromBytes L c = digest_FromBytes L b) bs") (auto simp: find_None_iff)
  then have "x \<in> set bs" "digest_FromBytes L x = digest_FromBytes L b" by (auto simp: find_Some_iff)
  with inj assms(3,4) have "x = b" by (auto dest: inj_onD)
  with x assms(1) show ?thesis by (simp add: stores_def)
qed

lemma stores_none:
  assumes "stores L bs s" "distinct (map (digest_FromBytes L) cs)" "set bs \<subseteq> set cs" "b \<in> set cs" "b \<notin> set bs"
  shows "s_blobs s (digest_FromBytes L b) = None"
proof -
  have "inj_on (digest_FromBytes L) (set cs)" using assms(2) by (simp add: distinct_map)
  with assms(3-5) have "\<forall>x \<in> set bs. digest_FromBytes L x \<noteq> digest_FromBytes L b" by (auto dest: inj_onD)
  then show ?thesis using assms(1) by (simp add: stores_def find_None_iff)
qed

definition empty_state :: store_state where
  "empty_state = \<lparr>s_blobs = Map.empty, s_marks = {}, s_leaves = Map.empty\<rparr>"

lemma empty_state_simps [simp]: "s_leaves empty_state = Map.empty" "s_marks empty_state = {}" "stores L [] empty_state"
  by (simp_all add: empty_state_def stores_def)

lemma abs_empty: "store_abs L Map.empty = empty_state"
  by (auto simp: store_abs_def empty_state_def fun_eq_iff)

lemma stores_commit [simp]: "stores L bs (spec_commit ref p md m cfg s) = stores L bs s"
  by (simp add: stores_def)

text \<open>The blobs a subtest puts, as a descriptor and its content.\<close>

definition described :: "oci_lib \<Rightarrow> bytes \<Rightarrow> descriptor \<Rightarrow> bool" where
  "described L b d \<longleftrightarrow> d_Digest d = digest_FromBytes L b \<and> d_Size d = int (length b)"

lemma described_bare [simp]: "described L b (bare_descriptor L mt b)"
  by (simp add: described_def)

context reliable_backend
begin

lemma test_PutBlob_run:
  assumes laws: "digest_laws L" "canonical_laws L" and w: "ok w" and d: "described L b d"
  shows "\<exists>w'. test_PutBlob L B b d (w, log) = (Ok (), (w', log)) \<and>
    becomes (put_all L [b] (store_abs L (tree w))) w w'"
proof -
  have v: "valid_digest L (d_Digest d)" "digest_matches L (d_Digest d) b" "0 \<le> d_Size d \<longrightarrow> d_Size d = int (length b)"
    using d valid_FromBytes [OF laws(1)] canonical_matches [OF laws(2) refl] by (simp_all add: described_def)
  from PutBlob_abs [OF laws(1) w v] obtain w' where r: "store_PutBlob L B d (bytes_body b) w = (Ok (), w')"
    "becomes (spec_put (d_Digest d) b (store_abs L (tree w))) w w'" by blast
  have "test_PutBlob L B b d (w, log) = ebind (must ''PutBlob'' (store_PutBlob L B d (bytes_body b))) ret (w, log)"
    by (simp add: test_PutBlob_def ebind_def ret_def split: prod.split res.split)
  also have "\<dots> = (Ok (), (w', log))" by (simp add: must_run r(1) ret_def)
  finally show ?thesis using r(2) d by (intro exI [of _ w']) (simp add: put_all_def described_def)
qed

lemma test_PutBlobs_run:
  assumes laws: "digest_laws L" "canonical_laws L" and "ok w" "\<forall>d \<in> set ds. described L (content d) d"
  shows "\<exists>w'. for_each (\<lambda>d. test_PutBlob L B (content d) d) ds (w, log) = (Ok (), (w', log)) \<and>
    becomes (put_all L (map content ds) (store_abs L (tree w))) w w'"
  using assms(3,4)
proof (induction ds arbitrary: w)
  case Nil
  then show ?case by (simp add: ret_def put_all_def)
next
  case (Cons d ds)
  from test_PutBlob_run [OF laws Cons.prems(1), of "content d" d log] Cons.prems(2) obtain w1 where
    1: "test_PutBlob L B (content d) d (w, log) = (Ok (), (w1, log))"
      "becomes (put_all L [content d] (store_abs L (tree w))) w w1" by auto
  from Cons.IH [of w1] 1(2) Cons.prems(2) obtain w2 where
    2: "for_each (\<lambda>d. test_PutBlob L B (content d) d) ds (w1, log) = (Ok (), (w2, log))"
      "becomes (put_all L (map content ds) (store_abs L (tree w1))) w1 w2" by auto
  from for_each_step [of "\<lambda>d. test_PutBlob L B (content d) d", OF 1(1)] 1(2) 2 show ?case
    by (intro exI [of _ w2]) (simp add: put_all_def)
qed

end

section \<open>Images\<close>

text \<open>\<open>packed L img m cfg mb cb ls\<close>: the image with manifest \<open>m\<close> and config \<open>cfg\<close> and the contents they are made of.\<close>

definition packed ::
  "oci_lib \<Rightarrow> fimage \<Rightarrow> manifest \<Rightarrow> image_config \<Rightarrow> bytes \<Rightarrow> bytes \<Rightarrow> bytes list \<Rightarrow> bool" where
  "packed L img m cfg mb cb ls \<longleftrightarrow>
     json_Manifest L mb = Inr m \<and> json_MediaType L mb = Inr MediaTypeImageManifest \<and> json_Image L cb = Inr cfg \<and>
     fi_Layers img = m_Layers m \<and> fi_Config img = m_Config m \<and> d_MediaType (fi_Manifest img) = MediaTypeImageManifest \<and>
     described L mb (fi_Manifest img) \<and> described L cb (m_Config m) \<and> list_all2 (described L) ls (m_Layers m) \<and>
     (\<forall>l \<in> set (m_Layers m). \<not> store_isForeign (d_MediaType l)) \<and> length (c_DiffIDs cfg) = length (m_Layers m) \<and>
     list_all (valid_digest L) (c_DiffIDs cfg)"

lemma layers_described:
  assumes "list_all2 (described L) ls ds"
  shows "map d_Digest ds = map (digest_FromBytes L) ls"
    "d \<in> set ds \<Longrightarrow> \<exists>b \<in> set ls. described L b d"
  using assms by (induction rule: list_all2_induct) (auto simp: described_def)

lemma isManifest_oci [simp]: "store_isManifest MediaTypeImageManifest"
  by (simp add: store_isManifest_def)

lemma oci_fields:
  "mt_manifest ociTypes = MediaTypeImageManifest" "mt_config ociTypes = MediaTypeImageConfig"
  "mt_index ociTypes = MediaTypeImageIndex"
  by (simp_all add: ociTypes_def)

lemma the_image_packed:
  assumes laws: "digest_laws L" "json_laws L" "codec_laws L K"
    and layers: "layers = map (layer_of L ociTypes) ls"
  shows "packed L (the_image L K ociTypes arch layers) (manifest_of L K ociTypes arch layers) (fixture_config arch layers)
    (manifest_bytes L K ociTypes arch layers) (config_bytes K arch layers) ls"
proof -
  have simple: "list_all simple_annotations layers" by (simp add: layers list_all_iff)
  have foreign: "\<not> store_isForeign (d_MediaType (layer_of L ociTypes b))" for b
    by (simp add: layer_of_def ociTypes_def store_isForeign_def MediaTypeImageLayer_def)
  note m = codec_Manifest [OF laws(3,2), of "manifest_of L K ociTypes arch layers"]
  have all: "list_all2 (described L) ls layers"
    unfolding layers by (simp add: list_all2_conv_all_nth layer_of_def)
  have valid: "list_all (valid_digest L) (c_DiffIDs (fixture_config arch layers))"
    by (auto simp: fixture_config_def layers list_all_iff layer_of_def valid_FromBytes [OF laws(1)])
  have m: "json_Manifest L (manifest_bytes L K ociTypes arch layers) = Inr (manifest_of L K ociTypes arch layers)"
    "json_MediaType L (manifest_bytes L K ociTypes arch layers) = Inr MediaTypeImageManifest"
    using m simple unfolding manifest_bytes_def by (simp_all add: manifest_of_def oci_fields)
  have c: "json_Image L (config_bytes K arch layers) = Inr (fixture_config arch layers)"
    using codec_Image [OF laws(3)] unfolding config_bytes_def by blast
  have fields: "m_Layers (manifest_of L K ociTypes arch layers) = layers"
    "m_Config (manifest_of L K ociTypes arch layers) = fi_Config (the_image L K ociTypes arch layers)"
    by (simp_all add: manifest_of_def the_image_def)
  have "\<forall>l \<in> set layers. \<not> store_isForeign (d_MediaType l)" using foreign by (auto simp: layers)
  then show ?thesis
    using m c all valid unfolding packed_def fields
    by (simp add: the_image_def oci_fields fixture_config_def described_def)
qed

lemma packed_spec:
  assumes "packed L img m cfg mb cb ls" "stores L bs s" "distinct (map (digest_FromBytes L) cs)" "set bs \<subseteq> set cs"
    and "set (ls @ [cb, mb]) \<subseteq> set bs" "platform_Matches p (c_Platform cfg)"
  shows "image_spec L s p (d_Digest (fi_Manifest img)) m cfg"
proof -
  note at = stores_found [OF assms(2-4)]
  have "s_blobs s (d_Digest l) \<noteq> None" if "l \<in> set (m_Layers m)" for l
  proof -
    from assms(1) that layers_described(2) [of L ls "m_Layers m" l] obtain b where "b \<in> set ls" "described L b l"
      by (auto simp: packed_def)
    with at [of b] assms(5) show ?thesis by (auto simp: described_def)
  qed
  with at [of mb] at [of cb] assms(1,5,6) show ?thesis
    by (auto simp: image_spec_def packed_def described_def)
qed

lemma packed_want:
  "packed L img m cfg mb cb ls \<Longrightarrow> test_want img = map (digest_FromBytes L) (ls @ [cb, mb])"
  by (auto simp: packed_def test_want_def layers_described(1) described_def)

context reliable_backend
begin

lemma test_PutImage_run:
  assumes laws: "digest_laws L" "canonical_laws L" and w: "ok w" and img: "packed L img m cfg mb cb ls"
    and at: "\<forall>b \<in> set (ls @ [cb, mb]). fixture_blob L f (digest_FromBytes L b) = b"
  shows "\<exists>w'. test_PutImage L B f img (w, log) = (Ok (), (w', log)) \<and>
    becomes (put_all L (ls @ [cb, mb]) (store_abs L (tree w))) w w'"
proof -
  let ?ds = "fi_Layers img @ [fi_Config img, fi_Manifest img]"
  let ?content = "\<lambda>d. fixture_blob L f (d_Digest d)"
  from img have all: "list_all2 (described L) (ls @ [cb, mb]) ?ds"
    by (auto simp: packed_def intro!: list_all2_appendI)
  have "\<forall>d \<in> set ?ds. described L (?content d) d"
  proof
    fix d assume "d \<in> set ?ds"
    with layers_described(2) [OF all] obtain b where b: "b \<in> set (ls @ [cb, mb])" "described L b d" by blast
    with at have "fixture_blob L f (digest_FromBytes L b) = b" by blast
    with b(2) show "described L (?content d) d" by (simp add: described_def)
  qed
  from test_PutBlobs_run [OF laws w this] obtain w' where
    r: "for_each (\<lambda>d. test_PutBlob L B (?content d) d) ?ds (w, log) = (Ok (), (w', log))"
    "becomes (put_all L (map ?content ?ds) (store_abs L (tree w))) w w'" by blast
  have "map ?content ?ds = map (fixture_blob L f) (map d_Digest ?ds)" by simp
  also have "\<dots> = map (\<lambda>b. fixture_blob L f (digest_FromBytes L b)) (ls @ [cb, mb])"
    unfolding layers_described(1) [OF all] by simp
  also have "\<dots> = ls @ [cb, mb]" using at by (intro map_idI) blast
  finally show ?thesis using r unfolding test_PutImage_def by metis
qed

lemma Commit_spec:
  assumes laws: "digest_laws L" "json_laws L" "codec_laws L K" and leaf: "leafable L ref p"
    and w: "ok w" "store_inv L (tree w)" "store_abs L (tree w) = s"
    and spec: "image_spec L s p (d_Digest md) m cfg" "list_all (valid_digest L) (c_DiffIDs cfg)"
    and mt: "d_MediaType md = MediaTypeImageManifest"
  shows "\<exists>r w'. store_Commit L B ref p md w = (r, w') \<and> becomes (spec_commit ref p md m cfg s) w w' \<and>
    commit_verdict (s_leaves s (leaf_key ref p)) (d_Digest md) r"
proof -
  from codec_leaf [OF laws(3)] obtain b where "marshal_Index L (leaf_index ref p md) = Inr b" by blast
  with Commit_abs [OF laws(1,2) leaf w(1,2) _ _ spec(2)] spec(1) mt show ?thesis
    unfolding image_spec_data [symmetric] w(3) by simp
qed

text \<open>One leaf: it is committed, resolved with all its blobs, and committed again.\<close>

lemma test_leaf_run:
  assumes laws: "digest_laws L" "json_laws L" "codec_laws L K" and leaf: "leafable L ref storetest_amd64"
    and w: "ok w" "store_inv L (tree w)" "store_abs L (tree w) = s"
    and img: "packed L img m cfg mb cb ls" and spec: "image_spec L s storetest_amd64 (d_Digest (fi_Manifest img)) m cfg"
    and stored: "stores L bs s" "distinct (map (digest_FromBytes L) cs)" "set bs \<subseteq> set cs" "set (ls @ [cb, mb]) \<subseteq> set bs"
    and dist: "distinct (ls @ [cb, mb])" and free: "s_leaves s (leaf_key ref storetest_amd64) = None"
  shows "\<exists>w'. test_leaf L depth B (ref, img) (w, log) = (Ok (), (w', log)) \<and>
    becomes (spec_commit ref storetest_amd64 (fi_Manifest img) m cfg s) w w'"
proof -
  let ?p = storetest_amd64 and ?md = "fi_Manifest img"
  let ?s = "spec_commit ref ?p ?md m cfg s" and ?ld = "leaf_descriptor ref ?p ?md"
  have mt: "d_MediaType ?md = MediaTypeImageManifest" and diffs: "list_all (valid_digest L) (c_DiffIDs cfg)"
    and md: "d_Digest ?md = digest_FromBytes L mb" and m: "json_Manifest L mb = Inr m"
    using img by (auto simp: packed_def described_def)
  from Commit_spec [OF laws leaf w spec diffs mt] free obtain w1 where
    1: "store_Commit L B ref ?p ?md w = (Ok (), w1)" "becomes ?s w w1" by (auto simp: commit_verdict_def)
  have held: "s_leaves (store_abs L (tree w1)) (leaf_key ref ?p) = Some ?ld" using 1(2) free by simp
  from Resolve_abs [OF laws(1) leaf _ held] 1(2) obtain im w2 where im: "im = store_image L B ref ?p ?ld (seg_path (leaf_segs L ref ?p))"
    and 2: "store_Resolve L B ref ?p w1 = (Ok im, w2)" "quiet w1 w2" by blast
  from leafDir_index [OF laws(1) leaf _ held [folded conjunct2 [OF 2(2)]], of ?ld] 2(2) obtain ix w3 where
    3: "od_Index (im_Dir im) w2 = (Ok ix, w3)" "i_Manifests ix = [?ld]" "quiet w2 w3" unfolding im by auto
  have names: "test_want img = map d_Digest (m_Layers m) @ [d_Digest (m_Config m), d_Digest ?ld]"
    using img by (simp add: test_want_def packed_def)
  have all: "distinct (test_want img)"
  proof -
    have "set (ls @ [cb, mb]) \<subseteq> set cs" using stored(3,4) by (rule order_trans [rotated])
    then have "inj_on (digest_FromBytes L) (set (ls @ [cb, mb]))"
      using stored(2) by (auto simp only: distinct_map intro: inj_on_subset)
    with dist show ?thesis unfolding packed_want [OF img] by (simp only: distinct_map)
  qed
  have blobs: "s_blobs (store_abs L (tree w2)) = s_blobs s" using 1(2) 2(2) by simp
  have at: "s_blobs s (d_Digest ?ld) = Some mb" using stores_found [OF stored(1-3), of mb] stored(4) md by simp
  have present: "s_blobs s d \<noteq> None" if "d \<in> set (test_want img)" for d
    using that stores_found [OF stored(1-3)] stored(4) unfolding packed_want [OF img] by auto
  from test_blobsOf_run [OF laws(1) _ 3 _ _ _ m names all, of depth log] 2(2) at present obtain w4 where
    4: "test_blobsOf L depth im (w2, log) = (Ok (test_want img), (w4, log))" "quiet w2 w4"
    unfolding blobs by (auto simp: im image_Blobs mt)
  have again: "ok w4" "store_inv L (tree w4)" "store_abs L (tree w4) = ?s" using 1(2) 2(2) 4(2) w(2) by auto
  have spec': "image_spec L ?s ?p (d_Digest ?md) m cfg" using spec by (simp add: image_spec_def)
  from Commit_spec [OF laws leaf again spec' diffs mt] free obtain w5 where
    5: "store_Commit L B ref ?p ?md w4 = (Ok (), w5)" "becomes (spec_commit ref ?p ?md m cfg ?s) w4 w5"
    by (auto simp: commit_verdict_def)
  have same: "spec_commit ref ?p ?md m cfg ?s = ?s"
    by (rule store_state.equality) simp_all
  have found: "d_Digest (im_Manifest im) = d_Digest ?md" by (simp add: im store_image_def)
  have "test_leaf L depth B (ref, img) (w, log) = (Ok (), (w5, log))"
    unfolding test_leaf_def by (simp add: must_run 1(1) 2(1) found ebind_eval [of "test_blobsOf L depth im", OF 4(1)] call_run 5(1) ret_def)
  with 5(2) again same 1(2) show ?thesis by auto
qed

end

end
