(* ===== verification/Storetest_Runs.thy ===== *)
theory Storetest_Runs
  imports Storetest_Facts "HOL-Library.Multiset"
begin

text \<open>
  The four subtests of package storetest on an empty store that meets the contract: none of them reports
  anything, whatever the third-party code is, as long as its documented behaviour is what \<open>suite_ready\<close> says.
\<close>

section \<open>The setting\<close>

definition variant_bytes :: bytes where "variant_bytes = ''shared, compressed differently''"

definition variant_config :: "oci_lib \<Rightarrow> image_config" where
  "variant_config L = (fixture_config ''amd64'' (fx_single L))\<lparr>c_DiffIDs := [digest_FromBytes L ''shared'']\<rparr>"

definition variant_manifest :: "oci_lib \<Rightarrow> test_codec \<Rightarrow> manifest" where
  "variant_manifest L K =
     \<lparr>m_MediaType = MediaTypeImageManifest,
      m_Config = bare_descriptor L MediaTypeImageConfig (marshalled (marshal_Image K (variant_config L))),
      m_Layers = [bare_descriptor L MediaTypeImageLayerGzip variant_bytes]\<rparr>"

definition foreign_layer :: "oci_lib \<Rightarrow> descriptor" where
  "foreign_layer L = (layer_of L ociTypes ''shared'')
     \<lparr>d_MediaType := ''application/vnd.docker.image.rootfs.foreign.diff.tar.gzip''\<rparr>"

definition foreign_manifest :: "oci_lib \<Rightarrow> test_codec \<Rightarrow> manifest" where
  "foreign_manifest L K =
     \<lparr>m_MediaType = MediaTypeImageManifest,
      m_Config = bare_descriptor L MediaTypeImageConfig (config_bytes K ''amd64'' (fx_single L)),
      m_Layers = [foreign_layer L]\<rparr>"

definition suite_contents :: "oci_lib \<Rightarrow> test_codec \<Rightarrow> bytes list" where
  "suite_contents L K =
     fixture_contents L K @
     [variant_bytes, marshalled (marshal_Image K (variant_config L)),
      marshalled (marshal_Manifest L (variant_manifest L K)),
      marshalled (marshal_Manifest L (foreign_manifest L K)), ''absent blob'', ''other bytes'']"

definition named :: "string \<Rightarrow> named_ref" where
  "named repo = \<lparr>n_Name = ''example.com/'' @ repo, n_Tag = Some ''1'', n_Digest = None\<rparr>"

text \<open>
  The third-party code: digests of different contents of the suite differ and their encoded part is not the
  name of a file, the codecs work, and the three references parse to their parts.
\<close>

definition suite_ready :: "oci_lib \<Rightarrow> test_codec \<Rightarrow> bool" where
  "suite_ready L K \<longleftrightarrow>
     digest_laws L \<and> colon_laws L \<and> canonical_laws L \<and> json_laws L \<and> reference_laws L \<and> codec_laws L K \<and>
     (\<forall>b. \<not> leaf_file (the (digest_Encoded L (digest_FromBytes L b)))) \<and>
     distinct (map (digest_FromBytes L) (suite_contents L K)) \<and>
     ParseNormalizedNamed L SingleName = Inr (named ''single'') \<and>
     ParseNormalizedNamed L MultiName = Inr (named ''multi'') \<and>
     ParseNormalizedNamed L ''example.com/variant:1'' = Inr (named ''variant'')"

lemma suite_readyD:
  assumes "suite_ready L K"
  shows "digest_laws L" "colon_laws L" "canonical_laws L" "json_laws L" "reference_laws L" "codec_laws L K"
    and "\<not> leaf_file (the (digest_Encoded L (digest_FromBytes L b)))"
    and "distinct (map (digest_FromBytes L) (suite_contents L K))"
    and "ParseNormalizedNamed L SingleName = Inr (named ''single'')" "ParseNormalizedNamed L MultiName = Inr (named ''multi'')"
      "ParseNormalizedNamed L ''example.com/variant:1'' = Inr (named ''variant'')"
  using assms unfolding suite_ready_def by blast+

definition tag_ref :: "string \<Rightarrow> reference" where
  "tag_ref repo = \<lparr>Repository = ''example.com/'' @ repo, Tag = ''1'', Digest = []\<rparr>"

lemma parse_named: "ParseNormalizedNamed L s = Inr (named repo) \<Longrightarrow> types_ParseReference L s = Ok (tag_ref repo)"
  by (simp add: types_ParseReference_def named_def tag_ref_def Let_def)

lemma plain_word: "x \<noteq> [] \<Longrightarrow> CHR ''/'' \<notin> set x \<Longrightarrow> hd x \<noteq> CHR ''.'' \<Longrightarrow> plain_seg x"
  by (auto simp: plain_seg_def)

lemma repo_split: "CHR ''/'' \<notin> set repo \<Longrightarrow> split_on CHR ''/'' (''example.com/'' @ repo) = [''example.com'', repo]"
  using split_on_append [of "CHR ''/''" "''example.com''" repo] by (simp add: split_on_free)

lemma platforms_plain [simp]: "plain_platform storetest_amd64" "plain_platform storetest_arm64"
  by (simp_all add: plain_platform_def storetest_amd64_def storetest_arm64_def plain_seg_def)

text \<open>A repository of the suite: one plain name below the host.\<close>

definition suite_repo :: "string \<Rightarrow> bool" where
  "suite_repo repo \<longleftrightarrow> CHR ''/'' \<notin> set repo \<and> repo \<noteq> [] \<and> hd repo \<noteq> CHR ''.'' \<and> hd repo \<noteq> CHR ''_'' \<and> \<not> leaf_file repo"

lemma suite_repos [simp]: "suite_repo ''single''" "suite_repo ''multi''" "suite_repo ''variant''"
  by (simp_all add: suite_repo_def leaf_file_def ImageIndexFile_def ImageLayoutFile_def)

lemma suite_repo_ok:
  assumes "suite_repo repo"
  shows "\<forall>x \<in> set (split_on CHR ''/'' (''example.com/'' @ repo)). plain_seg x \<and> x \<noteq> ''_tag'' \<and> x \<noteq> ''_digest'' \<and> \<not> leaf_file x"
  using assms unfolding suite_repo_def
  by (auto simp: repo_split split_on_free plain_seg_def leaf_file_def ImageIndexFile_def ImageLayoutFile_def)

lemma suite_platform:
  "p = storetest_amd64 \<or> p = storetest_arm64 \<Longrightarrow> x \<in> set (platform_segs p) \<Longrightarrow> \<not> leaf_file x"
  by (auto simp: platform_segs_def storetest_amd64_def storetest_arm64_def leaf_file_def ImageIndexFile_def ImageLayoutFile_def)

lemma tag_leafable:
  assumes "suite_repo repo" "p = storetest_amd64 \<or> p = storetest_arm64"
  shows "leafable L (tag_ref repo) p"
proof -
  have "wf_reference L (tag_ref repo)"
    using suite_repo_ok [OF assms(1)] by (auto simp: wf_reference_def tag_ref_def plain_seg_def)
  moreover have "plain_platform p" using assms(2) by auto
  moreover have "\<forall>x \<in> set (leaf_segs L (tag_ref repo) p). \<not> leaf_file x"
    using suite_repo_ok [OF assms(1)] suite_platform [OF assms(2)]
    by (auto simp: leaf_segs_def tag_ref_def key_segs_def marker_defs leaf_file_def)
  ultimately show ?thesis by (simp add: leafable_def)
qed

lemma digest_leafable:
  assumes "suite_ready L K" "suite_repo repo" "p = storetest_amd64 \<or> p = storetest_arm64"
  shows "leafable L (digestRef (''example.com/'' @ repo) (digest_FromBytes L b)) p"
proof -
  let ?ref = "digestRef (''example.com/'' @ repo) (digest_FromBytes L b)"
  note r = suite_readyD [OF assms(1)]
  have ne: "digest_FromBytes L b \<noteq> []" by (rule valid_digest_nonempty [OF r(1) valid_FromBytes [OF r(1)]])
  have "wf_reference L ?ref"
    using suite_repo_ok [OF assms(2)] ne valid_FromBytes [OF r(1)] by (auto simp: wf_reference_def digestRef_def)
  moreover have "plain_platform p" using assms(3) by auto
  moreover have "digest_Algorithm L (digest_FromBytes L b) = Some ''sha256''" using r(3) by (simp add: canonical_laws_def)
  then have "\<forall>x \<in> set (leaf_segs L ?ref p). \<not> leaf_file x"
    using suite_repo_ok [OF assms(2)] suite_platform [OF assms(3)] ne r(7)
    by (auto simp: leaf_segs_def digestRef_def key_segs_def marker_defs leaf_file_def)
  ultimately show ?thesis by (simp add: leafable_def)
qed

lemma suite_keys:
  "leaf_key (tag_ref repo) p = (tag_ref repo, p)" "leaf_key (digestRef repo' d) p = (digestRef repo' d, p)"
  by (simp_all add: leaf_key_def leaf_reference_def tag_ref_def digestRef_def)

text \<open>The contents that are in play.\<close>

lemma suite_distinct: "suite_ready L K \<Longrightarrow> distinct (suite_contents L K)"
  using suite_readyD(8) by (simp add: distinct_map)

lemma fixture_digests: "suite_ready L K \<Longrightarrow> distinct (map (digest_FromBytes L) (fixture_contents L K))"
  using suite_readyD(8) by (simp add: suite_contents_def)

abbreviation single_config :: "oci_lib \<Rightarrow> test_codec \<Rightarrow> bytes" where
  "single_config L K \<equiv> config_bytes K ''amd64'' (fx_single L)"
abbreviation single_manifest :: "oci_lib \<Rightarrow> test_codec \<Rightarrow> bytes" where
  "single_manifest L K \<equiv> manifest_bytes L K ociTypes ''amd64'' (fx_single L)"
abbreviation amd64_config :: "oci_lib \<Rightarrow> test_codec \<Rightarrow> bytes" where
  "amd64_config L K \<equiv> config_bytes K ''amd64'' (fx_amd64 L)"
abbreviation amd64_manifest :: "oci_lib \<Rightarrow> test_codec \<Rightarrow> bytes" where
  "amd64_manifest L K \<equiv> manifest_bytes L K ociTypes ''amd64'' (fx_amd64 L)"
abbreviation arm64_config :: "oci_lib \<Rightarrow> test_codec \<Rightarrow> bytes" where
  "arm64_config L K \<equiv> config_bytes K ''arm64'' (fx_arm64 L)"
abbreviation arm64_manifest :: "oci_lib \<Rightarrow> test_codec \<Rightarrow> bytes" where
  "arm64_manifest L K \<equiv> manifest_bytes L K ociTypes ''arm64'' (fx_arm64 L)"

lemma suite_apart:
  assumes "suite_ready L K"
  shows "distinct ([''shared'', ''single''] @ [single_config L K, single_manifest L K])"
    and "distinct ([''shared'', ''multi-amd64''] @ [amd64_config L K, amd64_manifest L K])"
    and "distinct ([''shared'', ''multi-arm64''] @ [arm64_config L K, arm64_manifest L K])"
    and "single_manifest L K \<noteq> multi_bytes L K" "single_manifest L K \<noteq> amd64_manifest L K"
    and "distinct [''shared'', ''single'', single_config L K, single_manifest L K, ''multi-amd64'', amd64_config L K,
      amd64_manifest L K, multi_bytes L K]"
  using suite_distinct [OF assms] by (simp_all add: suite_contents_def fixture_contents_def)

lemma suite_mem:
  "set ([''shared'', ''single''] @ [single_config L K, single_manifest L K]) \<subseteq> set (fixture_contents L K)"
  "set ([''shared'', ''multi-amd64''] @ [amd64_config L K, amd64_manifest L K]) \<subseteq> set (fixture_contents L K)"
  "set ([''shared'', ''multi-arm64''] @ [arm64_config L K, arm64_manifest L K]) \<subseteq> set (fixture_contents L K)"
  "multi_bytes L K \<in> set (fixture_contents L K)" "set (fixture_contents L K) \<subseteq> set (suite_contents L K)"
  by (simp_all add: fixture_contents_def suite_contents_def)

lemma suite_digest_eq:
  assumes "suite_ready L K" "b \<in> set (suite_contents L K)" "c \<in> set (suite_contents L K)"
  shows "digest_FromBytes L b = digest_FromBytes L c \<longleftrightarrow> b = c"
  using suite_readyD(8) [OF assms(1)] assms(2,3) by (auto simp: distinct_map dest: inj_onD)

lemma suite_layers:
  "fx_single L = map (layer_of L ociTypes) [''shared'', ''single'']"
  "fx_amd64 L = map (layer_of L ociTypes) [''shared'', ''multi-amd64'']"
  "fx_arm64 L = map (layer_of L ociTypes) [''shared'', ''multi-arm64'']"
  by (simp_all add: fx_single_def fx_amd64_def fx_arm64_def)

lemma suite_fields [simp]:
  "fx_Single (the_fixture L K) = the_image L K ociTypes ''amd64'' (fx_single L)"
  "fx_MultiAmd64 (the_fixture L K) = the_image L K ociTypes ''amd64'' (fx_amd64 L)"
  "fx_MultiArm64 (the_fixture L K) = the_image L K ociTypes ''arm64'' (fx_arm64 L)"
  "fx_Multi (the_fixture L K) = bare_descriptor L MediaTypeImageIndex (multi_bytes L K)"
  "fx_SharedLayer (the_fixture L K) = layer_of L ociTypes ''shared''"
  by (simp_all add: the_fixture_def bare_fixture_def oci_fields)

lemma image_digests [simp]:
  "d_Digest (fi_Manifest (the_image L K mt arch layers)) = digest_FromBytes L (manifest_bytes L K mt arch layers)"
  "d_Digest (layer_of L mt b) = digest_FromBytes L b"
  by (simp_all add: the_image_def layer_of_def)

lemma suite_packed:
  assumes "suite_ready L K"
  shows "packed L (the_image L K ociTypes ''amd64'' (fx_single L)) (manifest_of L K ociTypes ''amd64'' (fx_single L))
      (fixture_config ''amd64'' (fx_single L)) (manifest_bytes L K ociTypes ''amd64'' (fx_single L))
      (config_bytes K ''amd64'' (fx_single L)) [''shared'', ''single'']"
    and "packed L (the_image L K ociTypes ''amd64'' (fx_amd64 L)) (manifest_of L K ociTypes ''amd64'' (fx_amd64 L))
      (fixture_config ''amd64'' (fx_amd64 L)) (manifest_bytes L K ociTypes ''amd64'' (fx_amd64 L))
      (config_bytes K ''amd64'' (fx_amd64 L)) [''shared'', ''multi-amd64'']"
    and "packed L (the_image L K ociTypes ''arm64'' (fx_arm64 L)) (manifest_of L K ociTypes ''arm64'' (fx_arm64 L))
      (fixture_config ''arm64'' (fx_arm64 L)) (manifest_bytes L K ociTypes ''arm64'' (fx_arm64 L))
      (config_bytes K ''arm64'' (fx_arm64 L)) [''shared'', ''multi-arm64'']"
  using the_image_packed [OF suite_readyD(1,4,6) [OF assms]] suite_layers by metis+

lemma suite_at: "suite_ready L K \<Longrightarrow> b \<in> set (fixture_contents L K) \<Longrightarrow>
    fixture_blob L (the_fixture L K) (digest_FromBytes L b) = b"
  using fixture_blob_at [OF suite_readyD(1) fixture_digests] by blast

lemma suite_match [simp]:
  "platform_Matches storetest_amd64 (c_Platform (fixture_config ''amd64'' ls))"
  "platform_Matches storetest_arm64 (c_Platform (fixture_config ''arm64'' ls))"
  "\<not> platform_Matches storetest_arm64 (c_Platform (fixture_config ''amd64'' ls))"
  by (simp_all add: platform_Matches_def storetest_amd64_def storetest_arm64_def fixture_config_def)

section \<open>The subtests\<close>

text \<open>A fresh store: the backend \<open>newStore\<close> returns, with the world it returns it in.\<close>

lemma sort_same: "mset xs = mset ys \<Longrightarrow> sort xs = sort (ys :: string list)"
  by (metis sorted_list_of_multiset_mset)

lemma test_walked_all:
  "test_walked True (map Inr imgs) acc t =
     (Ok (acc @ map (\<lambda>i. walk_line (im_Ref i) (im_Platform i) (d_Digest (im_Manifest i))) imgs), t)"
  by (induction imgs arbitrary: acc) (simp_all add: ret_def)

context reliable_backend
begin

text \<open>The leaves of a store whose contents are known, as \<open>Walk\<close> gives them.\<close>

lemma walk_leaves:
  "{(ref, p, md). leafable L ref p \<and> leaf_reference ref = ref \<and> leaf_holds L t ref p md} =
     {(ref, p, md). s_leaves (store_abs L t) (ref, p) = Some md}"
  by (auto simp: store_abs_def leaf_holds_sole split: if_splits)

lemma test_walk_run:
  assumes laws: "digest_laws L" "colon_laws L" and w: "ok w" "store_inv L (tree w)"
    and list: "listable \<longrightarrow> (\<exists>ls. listed_backend L B tree ok ls (\<lambda>_. True))" "\<not> listable \<longrightarrow> b_List B = None"
    and leaves: "s_leaves (store_abs L (tree w)) = map_of kvs" "distinct (map fst kvs)"
  shows "\<exists>items walked w'. store_Walk L B w = (Ok items, w') \<and> quiet w w' \<and>
    test_walked listable items [] (w', log) = (Ok walked, (w', log)) \<and>
    (listable \<longrightarrow> sort walked = sort (map (\<lambda>((ref, p), md). walk_line ref p (d_Digest md)) kvs))"
proof (cases listable)
  case False
  then have "store_Walk L B w = (Ok [Inl (Sentinel ErrNotListable)], w)" using list(2) by (simp add: store_Walk_def ret_def)
  moreover have "test_walked listable [Inl (Sentinel ErrNotListable)] [] (w, log) = (Ok [], (w, log))"
    using False by (simp add: ret_def)
  ultimately show ?thesis using False w(1) by blast
next
  case True
  with list(1) obtain ls where lb: "listed_backend L B tree ok ls (\<lambda>_. True)" by blast
  from listed_backend.Walk_up [OF lb laws w TrueI] obtain imgs w' where
    walk: "store_Walk L B w = (Ok (map Inr imgs), w')" "quiet w w'" and
    dist: "distinct (map (\<lambda>i. (im_Ref i, im_Platform i)) imgs)" and
    set: "(\<lambda>i. (im_Ref i, im_Platform i, im_Manifest i)) ` set imgs =
      {(ref, p, md). s_leaves (store_abs L (tree w)) (ref, p) = Some md}" unfolding walk_leaves by blast
  let ?key = "\<lambda>i. (im_Ref i, im_Platform i, im_Manifest i)"
  let ?flat = "map (\<lambda>((ref, p), md). (ref, p, md)) kvs"
  have "distinct (map ?key imgs)"
    using dist by (auto simp: distinct_map intro!: inj_onI dest: inj_onD)
  moreover have "distinct ?flat"
    using leaves(2) by (auto simp: distinct_map inj_on_def)
  moreover have "set ?flat = {(ref, p, md). ((ref, p), md) \<in> set kvs}" by force
  then have "set (map ?key imgs) = set ?flat"
    unfolding set_map set leaves(1) map_of_eq_Some_iff [OF leaves(2)] by simp
  ultimately have "mset (map ?key imgs) = mset ?flat" by (simp only: set_eq_iff_mset_eq_distinct)
  then have "mset (map (\<lambda>(ref, p, md). walk_line ref p (d_Digest md)) (map ?key imgs)) =
      mset (map (\<lambda>(ref, p, md). walk_line ref p (d_Digest md)) ?flat)" unfolding mset_map by simp
  then have "sort (map (\<lambda>i. walk_line (im_Ref i) (im_Platform i) (d_Digest (im_Manifest i))) imgs) =
      sort (map (\<lambda>((ref, p), md). walk_line ref p (d_Digest md)) kvs)"
    by (intro sort_same) (simp add: comp_def case_prod_unfold)
  with walk True test_walked_all [of imgs "[]" "(w', log)"] show ?thesis by auto
qed

end

lemma bind_run: "m t = (Ok x, t') \<Longrightarrow> f x t' = r \<Longrightarrow> ebind m f t = r"
  by (simp add: ebind_def)

lemma leaves_run:
  assumes "test_leaf L depth s l1 t = (Ok (), t1)" "test_leaf L depth s l2 t1 = (Ok (), t2)" "test_leaf L depth s l3 t2 = (Ok (), t3)"
  shows "for_each (test_leaf L depth s) [l1, l2, l3] t = (Ok (), t3)"
  using assms by (simp add: ebind_def ret_def)

context reliable_backend
begin

text \<open>An empty store, and what \<open>newStore\<close> gives.\<close>

lemma fresh_state: "tree w = Map.empty \<Longrightarrow> store_abs L (tree w) = empty_state \<and> store_inv L (tree w)"
  by (simp add: abs_empty store_inv_empty)

lemma commit_resolve_run:
  assumes ready: "suite_ready L K" and w: "ok w" "tree w = Map.empty" and new: "newStore t = (Ok B, (w, log))"
    and list: "listable \<longrightarrow> (\<exists>ls. listed_backend L B tree ok ls (\<lambda>_. True))" "\<not> listable \<longrightarrow> b_List B = None"
  shows "\<exists>w'. test_commit_resolve L depth newStore listable (the_fixture L K) (tag_ref ''single'') ''example.com/multi'' t
    = (Ok (), (w', log))"
proof -
  note r = suite_readyD [OF ready] and pk = suite_packed [OF ready]
  note laws = r(1,3) and claws = r(1,4,6)
  let ?f = "the_fixture L K" and ?p = storetest_amd64
  let ?S = "the_image L K ociTypes ''amd64'' (fx_single L)" and ?A = "the_image L K ociTypes ''amd64'' (fx_amd64 L)"
  let ?mS = "manifest_bytes L K ociTypes ''amd64'' (fx_single L)" and ?cS = "config_bytes K ''amd64'' (fx_single L)"
  let ?mA = "manifest_bytes L K ociTypes ''amd64'' (fx_amd64 L)" and ?cA = "config_bytes K ''amd64'' (fx_amd64 L)"
  let ?mmS = "manifest_of L K ociTypes ''amd64'' (fx_single L)" and ?mmA = "manifest_of L K ociTypes ''amd64'' (fx_amd64 L)"
  let ?ccS = "fixture_config ''amd64'' (fx_single L)" and ?ccA = "fixture_config ''amd64'' (fx_amd64 L)"
  let ?cs = "suite_contents L K"
  let ?dS = "digest_FromBytes L ?mS" and ?dA = "digest_FromBytes L ?mA" and ?dX = "digest_FromBytes L (multi_bytes L K)"
  let ?r1 = "tag_ref ''single''" and ?r2 = "digestRef ''example.com/single'' ?dS" and ?r3 = "digestRef ''example.com/multi'' ?dX"
  let ?bs = "([''shared'', ''single''] @ [?cS, ?mS]) @ [''shared'', ''multi-amd64''] @ [?cA, ?mA]"
  have mem: "set ?bs \<subseteq> set (fixture_contents L K)" using suite_mem(1,2) by auto
  then have mem': "set ?bs \<subseteq> set ?cs" using suite_mem(5) by blast
  have at: "\<forall>b \<in> set ?bs. fixture_blob L ?f (digest_FromBytes L b) = b" using suite_at [OF ready] mem by blast
  have leaf: "leafable L ?r1 ?p" "leafable L ?r2 ?p" "leafable L ?r3 ?p"
    using tag_leafable [of "''single''"] digest_leafable [OF ready, of "''single''"] digest_leafable [OF ready, of "''multi''"] by simp_all
  note fresh = fresh_state [OF w(2)]
  from test_PutImage_run [OF laws w(1) pk(1), of ?f log] at obtain w1 where
    1: "test_PutImage L B ?f ?S (w, log) = (Ok (), (w1, log))"
      "becomes (put_all L ([''shared'', ''single''] @ [?cS, ?mS]) empty_state) w w1" using fresh by auto
  from test_PutImage_run [OF laws _ pk(2), of w1 ?f log] at 1(2) obtain w2 where
    2: "test_PutImage L B ?f ?A (w1, log) = (Ok (), (w2, log))" "becomes (put_all L ?bs empty_state) w1 w2"
    by (auto simp: put_all_append)
  let ?s = "put_all L ?bs empty_state"
  have stored: "stores L ?bs ?s" using stores_put_all [of L "[]" empty_state ?bs] by simp
  note spec = packed_spec [OF _ _ r(8) mem']
  have in_bs: "set ([''shared'', ''single''] @ [?cS, ?mS]) \<subseteq> set ?bs" "set ([''shared'', ''multi-amd64''] @ [?cA, ?mA]) \<subseteq> set ?bs"
    by auto
  note dn = suite_apart(1,2) [OF ready]
  have ne: "?dS \<noteq> ?dX" "?dA \<noteq> ?dS"
  proof -
    have m: "?mS \<in> set ?cs" "?mA \<in> set ?cs" using mem' by simp_all
    have mx: "multi_bytes L K \<in> set ?cs" by (rule subsetD [OF suite_mem(5) suite_mem(4)])
    show "?dS \<noteq> ?dX" using suite_apart(4) [OF ready] suite_digest_eq [OF ready m(1) mx] by simp
    show "?dA \<noteq> ?dS" using suite_apart(5) [OF ready, symmetric] suite_digest_eq [OF ready m(2,1)] by simp
  qed
  have keys: "leaf_key ?r1 ?p = (?r1, ?p)" "leaf_key ?r2 ?p = (?r2, ?p)" "leaf_key ?r3 ?p = (?r3, ?p)"
    by (simp_all add: suite_keys)
  have rs: "?r1 \<noteq> ?r2" "?r1 \<noteq> ?r3" "?r2 \<noteq> ?r3" using ne by (simp_all add: tag_ref_def digestRef_def)
  let ?s1 = "spec_commit ?r1 ?p (fi_Manifest ?S) ?mmS ?ccS ?s"
  let ?s2 = "spec_commit ?r2 ?p (fi_Manifest ?S) ?mmS ?ccS ?s1"
  let ?s3 = "spec_commit ?r3 ?p (fi_Manifest ?A) ?mmA ?ccA ?s2"
  let ?s4 = "spec_commit ?r1 ?p (fi_Manifest ?A) ?mmA ?ccA ?s3"
  have st: "stores L ?bs ?s1" "stores L ?bs ?s2" "stores L ?bs ?s3" using stored by simp_all
  have w2: "ok w2" "store_inv L (tree w2)" "store_abs L (tree w2) = ?s" using 2(2) 1(2) fresh by auto
  from test_leaf_run [OF claws leaf(1) w2 pk(1) spec [OF pk(1) stored in_bs(1) suite_match(1)] stored r(8) mem' in_bs(1) dn(1), of depth log]
  obtain w3 where 3: "test_leaf L depth B (?r1, ?S) (w2, log) = (Ok (), (w3, log))" "becomes ?s1 w2 w3" by (auto simp: empty_state_def)
  have w3: "ok w3" "store_inv L (tree w3)" "store_abs L (tree w3) = ?s1" using 3(2) w2 by auto
  from test_leaf_run [OF claws leaf(2) w3 pk(1) spec [OF pk(1) st(1) in_bs(1) suite_match(1)] st(1) r(8) mem' in_bs(1) dn(1), of depth log]
  obtain w4 where 4: "test_leaf L depth B (?r2, ?S) (w3, log) = (Ok (), (w4, log))" "becomes ?s2 w3 w4"
    using rs by (auto simp: keys empty_state_def)
  have w4: "ok w4" "store_inv L (tree w4)" "store_abs L (tree w4) = ?s2" using 4(2) w3 by auto
  from test_leaf_run [OF claws leaf(3) w4 pk(2) spec [OF pk(2) st(2) in_bs(2) suite_match(1)] st(2) r(8) mem' in_bs(2) dn(2), of depth log]
  obtain w5 where 5: "test_leaf L depth B (?r3, ?A) (w4, log) = (Ok (), (w5, log))" "becomes ?s3 w4 w5"
    using rs by (auto simp: keys empty_state_def)
  have w5: "ok w5" "store_inv L (tree w5)" "store_abs L (tree w5) = ?s3" using 5(2) w4 by auto
  have "s_blobs ?s3 ?dX = None"
  proof (rule stores_none [OF st(3) r(8) mem'])
    show "multi_bytes L K \<in> set ?cs" by (rule subsetD [OF suite_mem(5) suite_mem(4)])
    show "multi_bytes L K \<notin> set ?bs" using suite_apart(6) [OF ready] by auto
  qed
  with HasBlob_abs [OF r(1) w5(1) valid_FromBytes [OF r(1)], of "multi_bytes L K", unfolded w5(3)] obtain w6 where
    6: "store_HasBlob L B ?dX w5 = (Ok False, w6)" "quiet w5 w6" by auto
  have w6: "ok w6" "store_inv L (tree w6)" "store_abs L (tree w6) = ?s3" using 6(2) w5 by auto
  have mtA: "d_MediaType (fi_Manifest ?A) = MediaTypeImageManifest" "list_all (valid_digest L) (c_DiffIDs ?ccA)"
    using pk(2) by (simp_all add: packed_def)
  from Commit_spec [OF claws leaf(1) w6 spec [OF pk(2) st(3) in_bs(2) suite_match(1)] mtA(2,1)] obtain res w7 where
    7: "store_Commit L B ?r1 ?p (fi_Manifest ?A) w6 = (res, w7)" "becomes ?s4 w6 w7"
      "commit_verdict (s_leaves ?s3 (leaf_key ?r1 ?p)) ?dA res" by auto
  from 7(3) ne(2) rs obtain e where e: "res = Err e" "err_is e ErrConflict"
    by (auto simp: commit_verdict_def keys empty_state_def split: if_splits)
  have w7: "ok w7" "store_inv L (tree w7)" "store_abs L (tree w7) = ?s4" using 7(2) w6 by auto
  let ?kvs = "[((?r1, ?p), leaf_descriptor ?r1 ?p (fi_Manifest ?S)), ((?r2, ?p), leaf_descriptor ?r2 ?p (fi_Manifest ?S)),
    ((?r3, ?p), leaf_descriptor ?r3 ?p (fi_Manifest ?A))]"
  have leaves: "s_leaves (store_abs L (tree w7)) = map_of ?kvs" "distinct (map fst ?kvs)"
    using rs by (auto simp: w7(3) keys empty_state_def fun_eq_iff)
  from test_walk_run [OF r(1,2) w7(1,2) list leaves, of log] obtain items walked w8 where
    8: "store_Walk L B w7 = (Ok items, w8)" "test_walked listable items [] (w8, log) = (Ok walked, (w8, log))"
      "listable \<longrightarrow> sort walked = sort (map (\<lambda>((ref, p), md). walk_line ref p (d_Digest md)) ?kvs)" by blast
  have leaves_eq: "test_leaves ?f ?r1 ''example.com/multi'' = [(?r1, ?S), (?r2, ?S), (?r3, ?A)]"
    by (simp add: test_leaves_def tag_ref_def)
  have rest: "for_each (test_leaf L depth B) (test_leaves ?f ?r1 ''example.com/multi'') (w2, log) = (Ok (), (w5, log))"
    unfolding leaves_eq by (rule leaves_run [OF 3(1) 4(1) 5(1)])
  have lines: "listable \<longrightarrow> sort walked = sort (map (\<lambda>l. walk_line (fst l) ?p (d_Digest (fi_Manifest (snd l))))
      (test_leaves ?f ?r1 ''example.com/multi''))" using 8(3) unfolding leaves_eq by simp
  have "test_commit_resolve L depth newStore listable ?f ?r1 ''example.com/multi'' t = (Ok (), (w8, log))"
    unfolding test_commit_resolve_def suite_fields Let_def
    by (rule bind_run, rule new, rule bind_run, rule 1(1), rule bind_run, rule 2(1), rule bind_run, rule rest)
      (simp add: call_run must_run 6(1) 7(1) e 8(1) ebind_def [of "test_walked listable items []"] 8(2) lines ret_def)
  then show ?thesis by blast
qed

end

lemma packed_names:
  assumes "packed L img m cfg mb cb ls"
  shows "test_want img = map d_Digest (m_Layers m) @ [d_Digest (m_Config m), d_Digest (fi_Manifest img)]"
  using assms by (simp add: test_want_def packed_def)

lemma packed_distinct:
  assumes "packed L img m cfg mb cb ls" "distinct (map (digest_FromBytes L) cs)" "set (ls @ [cb, mb]) \<subseteq> set cs"
    and "distinct (ls @ [cb, mb])"
  shows "distinct (test_want img)"
proof -
  have "inj_on (digest_FromBytes L) (set (ls @ [cb, mb]))"
    using assms(2,3) by (auto simp only: distinct_map intro: inj_on_subset)
  with assms(4) show ?thesis unfolding packed_want [OF assms(1)] by (simp only: distinct_map)
qed

lemma packed_fields:
  assumes "packed L img m cfg mb cb ls"
  shows "d_MediaType (fi_Manifest img) = MediaTypeImageManifest" "d_Digest (fi_Manifest img) = digest_FromBytes L mb"
    "json_Manifest L mb = Inr m" "json_MediaType L mb = Inr MediaTypeImageManifest" "json_Image L cb = Inr cfg"
    "d_Digest (m_Config m) = digest_FromBytes L cb" "fi_Config img = m_Config m" "fi_Layers img = m_Layers m"
    "list_all (valid_digest L) (c_DiffIDs cfg)" "\<forall>l \<in> set (m_Layers m). \<not> store_isForeign (d_MediaType l)"
    "described L cb (m_Config m)" "described L mb (fi_Manifest img)"
  using assms by (auto simp: packed_def described_def)

section \<open>A digest reference without a leaf\<close>

context reliable_backend
begin

lemma without_leaf_run:
  assumes ready: "suite_ready L K" and w: "ok w" "tree w = Map.empty" and new: "newStore t = (Ok B, (w, log))"
  shows "\<exists>w'. test_without_leaf L depth newStore (the_fixture L K) (tag_ref ''single'') ''example.com/multi'' t
    = (Ok (), (w', log))"
proof -
  note r = suite_readyD [OF ready] and pk = suite_packed(3) [OF ready]
  note laws = r(1,3) and pf = packed_fields [OF pk]
  let ?f = "the_fixture L K" and ?p = storetest_arm64
  let ?I = "the_image L K ociTypes ''arm64'' (fx_arm64 L)"
  let ?m = "arm64_manifest L K" and ?c = "arm64_config L K" and ?bs = "[''shared'', ''multi-arm64''] @ [arm64_config L K, arm64_manifest L K]"
  let ?d = "digest_FromBytes L ?m" and ?cs = "suite_contents L K"
  let ?ref = "digestRef ''example.com/multi'' ?d"
  have mem: "set ?bs \<subseteq> set ?cs" by (rule order_trans [OF suite_mem(3) suite_mem(5)])
  have at: "\<forall>b \<in> set ?bs. fixture_blob L ?f (digest_FromBytes L b) = b" using suite_at [OF ready] suite_mem(3) by blast
  have leaf: "leafable L ?ref ?p" "leafable L (tag_ref ''single'') storetest_amd64"
    using digest_leafable [OF ready, of "''multi''"] tag_leafable [of "''single''"] by simp_all
  note fresh = fresh_state [OF w(2)]
  from test_PutImage_run [OF laws w(1) pk, of ?f log] at fresh obtain w1 where
    1: "test_PutImage L B ?f ?I (w, log) = (Ok (), (w1, log))" "becomes (put_all L ?bs empty_state) w w1" by auto
  let ?s = "put_all L ?bs empty_state"
  have stored: "stores L ?bs ?s" using stores_put_all [of L "[]" empty_state ?bs] by simp
  note found = stores_found [OF stored r(8) mem]
  have w1: "ok w1" "store_inv L (tree w1)" "store_abs L (tree w1) = ?s" using 1(2) fresh by auto
  have free: "s_leaves (store_abs L (tree w1)) k = None" for k unfolding w1(3) by (simp add: empty_state_def)
  have dig: "Digest ?ref \<noteq> []" "Digest ?ref = ?d" using valid_digest_nonempty [OF r(1) valid_FromBytes [OF r(1)]] by (simp_all add: digestRef_def)
  have blob: "s_blobs (store_abs L (tree w1)) (Digest ?ref) = Some ?m" unfolding w1(3) dig(2) using found by simp
  let ?md = "\<lparr>d_MediaType = MediaTypeImageManifest, d_Digest = Digest ?ref, d_Size = int (length ?m), d_Annotations = fmempty, d_Platform = None\<rparr>"
  from Resolve_blob [OF r(1) leaf(1) w1(1,2) free dig(1) blob dig(2) [symmetric] pf(4) isManifest_oci] obtain im w2 where
    im: "im = store_image L B ?ref ?p ?md []" and 2: "store_Resolve L B ?ref ?p w1 = (Ok im, w2)" "quiet w1 w2" by blast
  from codec_leaf [OF r(6)] obtain ib where
    "marshal_Index L (leaf_index \<lparr>Repository = [], Tag = [], Digest = d_Digest ?md\<rparr> ?p ?md) = Inr ib" by blast
  from singleDir_index [OF r(4) this] obtain ix ld where
    3: "od_Index (im_Dir im) w2 = (Ok ix, w2)" "i_Manifests ix = [ld]" and ld: "d_Digest ld = ?d" "d_MediaType ld = MediaTypeImageManifest"
    unfolding im by (force simp: dig(2))
  have w2: "ok w2" "store_inv L (tree w2)" "store_abs L (tree w2) = ?s" using 2(2) w1 by auto
  have names: "test_want ?I = map d_Digest (m_Layers (manifest_of L K ociTypes ''arm64'' (fx_arm64 L))) @
      [d_Digest (m_Config (manifest_of L K ociTypes ''arm64'' (fx_arm64 L))), d_Digest ld]"
    unfolding packed_names [OF pk] ld pf(2) by (rule refl)
  have present: "s_blobs (store_abs L (tree w2)) d \<noteq> None" if "d \<in> set (test_want ?I)" for d
    using that found unfolding packed_want [OF pk] w2(3) by auto
  have at2: "s_blobs (store_abs L (tree w2)) (d_Digest ld) = Some ?m" unfolding w2(3) ld using found by simp
  have man: "store_isManifest (d_MediaType ld)" by (simp add: ld)
  have dir: "od_Blobs (im_Dir im) = store_Blob L B" by (simp add: im image_Blobs)
  from test_blobsOf_run [OF r(1) dir 3 _ w2(1) man at2 pf(3) names packed_distinct [OF pk r(8) mem suite_apart(3) [OF ready]] present,
      of depth log] obtain w3 where
    4: "test_blobsOf L depth im (w2, log) = (Ok (test_want ?I), (w3, log))" "quiet w2 w3" using w2(1) by blast
  have w3: "ok w3" "store_inv L (tree w3)" "s_leaves (store_abs L (tree w3)) k = None" for k using 4(2) w2 by (auto simp: empty_state_def)
  from Resolve_absent [OF r(1) leaf(2) w3] obtain e w4 where
    5: "store_Resolve L B (tag_ref ''single'') storetest_amd64 w3 = (Err e, w4)" "err_is e ErrNotExist"
    by (auto simp: tag_ref_def)
  have "test_without_leaf L depth newStore ?f (tag_ref ''single'') ''example.com/multi'' t = (Ok (), (w4, log))"
    unfolding test_without_leaf_def suite_fields image_digests
    by (rule bind_run, rule new, rule bind_run, rule 1(1))
      (simp add: must_run 2(1) ebind_def [of "test_blobsOf L depth im"] 4(1), simp add: call_run 5 ret_def)
  then show ?thesis by blast
qed

end

section \<open>Markers\<close>

lemma simple_foreign [simp]: "simple_annotations (d\<lparr>d_MediaType := mt\<rparr>) = simple_annotations d"
  by (simp add: simple_annotations_def)

definition variant_image :: "oci_lib \<Rightarrow> test_codec \<Rightarrow> fimage" where
  "variant_image L K =
     \<lparr>fi_Manifest = bare_descriptor L MediaTypeImageManifest (marshalled (marshal_Manifest L (variant_manifest L K))),
      fi_Config = m_Config (variant_manifest L K), fi_Layers = m_Layers (variant_manifest L K), fi_Image = variant_config L\<rparr>"

lemma variant_packed:
  assumes "suite_ready L K"
  shows "packed L (variant_image L K) (variant_manifest L K) (variant_config L)
    (marshalled (marshal_Manifest L (variant_manifest L K))) (marshalled (marshal_Image K (variant_config L))) [variant_bytes]"
proof -
  note r = suite_readyD [OF assms]
  have "\<not> store_isForeign MediaTypeImageLayerGzip" by (simp add: store_isForeign_def MediaTypeImageLayerGzip_def)
  moreover have "list_all (valid_digest L) (c_DiffIDs (variant_config L))"
    by (simp add: variant_config_def valid_FromBytes [OF r(1)])
  ultimately show ?thesis
    using codec_Manifest [OF r(6,4), of "variant_manifest L K"] codec_Image [OF r(6), of "variant_config L"]
    by (simp add: packed_def variant_image_def variant_manifest_def variant_config_def)
qed

lemma variant_match: "platform_Matches storetest_amd64 (c_Platform (variant_config L))"
  by (simp add: variant_config_def)

lemma image_fields [simp]:
  "fi_Image (the_image L K mt arch layers) = fixture_config arch layers"
  "fi_Layers (the_image L K mt arch layers) = layers"
  "fi_Config (the_image L K mt arch layers) = bare_descriptor L (mt_config mt) (config_bytes K arch layers)"
  by (simp_all add: the_image_def)

lemma single_marks:
  "marks_of (manifest_of L K ociTypes ''amd64'' (fx_single L)) (fixture_config ''amd64'' (fx_single L)) =
     {(digest_FromBytes L ''shared'', digest_FromBytes L ''shared''), (digest_FromBytes L ''single'', digest_FromBytes L ''single'')}"
  by (simp add: marks_of_def manifest_of_def fixture_config_def fx_single_def)

lemma variant_marks:
  "marks_of (variant_manifest L K) (variant_config L) = {(digest_FromBytes L ''shared'', digest_FromBytes L variant_bytes)}"
  by (simp add: marks_of_def variant_manifest_def variant_config_def)

context reliable_backend
begin

lemma HasDiffID_abs:
  assumes "digest_laws L" "valid_digest L d" "valid_digest L b" "ok w"
  shows "\<exists>w'. store_HasDiffIDBlob L B d b w = (Ok ((d, b) \<in> s_marks (store_abs L (tree w))), w') \<and> quiet w w'"
  using HasDiffIDBlob_up [OF assms] assms(2,3) by (simp add: store_abs_def)

lemma has_markers:
  assumes "digest_laws L" "ok w" "\<forall>l \<in> set ls. valid_digest L (d_Digest l) \<and> (d_Digest l, d_Digest l) \<in> s_marks (store_abs L (tree w))"
  shows "\<exists>w'. for_each (\<lambda>l. ebind (call (store_HasDiffIDBlob L B (d_Digest l) (d_Digest l))) (\<lambda>has. check (has = Inr True) ''marker''))
    ls (w, log) = (Ok (), (w', log)) \<and> quiet w w'"
  using assms(2,3)
proof (induction ls arbitrary: w)
  case Nil
  then show ?case by (simp add: ret_def)
next
  case (Cons l ls)
  let ?one = "\<lambda>l. ebind (call (store_HasDiffIDBlob L B (d_Digest l) (d_Digest l))) (\<lambda>has. check (has = Inr True) ''marker'')"
  from HasDiffID_abs [OF assms(1), of "d_Digest l" "d_Digest l" w] Cons.prems obtain w1 where
    1: "store_HasDiffIDBlob L B (d_Digest l) (d_Digest l) w = (Ok True, w1)" "quiet w w1" by auto
  from Cons.IH [of w1] Cons.prems 1(2) obtain w2 where
    2: "for_each ?one ls (w1, log) = (Ok (), (w2, log))" "quiet w1 w2" by auto
  have "?one l (w, log) = (Ok (), (w1, log))" by (simp add: call_run 1(1) ret_def)
  from for_each_step [of ?one, OF this] 1(2) 2 show ?case by (intro exI [of _ w2]) simp
qed

text \<open>What \<open>DiffIDBlobs\<close> gives, in any order.\<close>

lemma DiffIDBlobs_abs:
  assumes laws: "digest_laws L" "colon_laws L" and d: "valid_digest L d" and w: "ok w"
    and list: "listable \<longrightarrow> (\<exists>ls. listed_backend L B tree ok ls (\<lambda>_. True))" "\<not> listable \<longrightarrow> b_List B = None"
    and marks: "\<And>b. (d, b) \<in> s_marks (store_abs L (tree w)) \<longleftrightarrow> b \<in> set want" "distinct want"
  shows "if listable then \<exists>out w'. store_DiffIDBlobs L B d w = (Ok out, w') \<and> sort out = sort want
    else store_DiffIDBlobs L B d w = (Err (Sentinel ErrNotListable), w)"
proof (cases listable)
  case True
  with list(1) obtain ls where lb: "listed_backend L B tree ok ls (\<lambda>_. True)" by blast
  from listed_backend.DiffIDBlobs_up [OF lb laws d w TrueI] obtain out w' where
    out: "store_DiffIDBlobs L B d w = (Ok out, w')" "distinct out"
      "set out = {b. valid_digest L b \<and> tree w (seg_path (diff_segs L d b)) \<noteq> None}" by blast
  have "b \<in> set out \<longleftrightarrow> b \<in> set want" for b
    using marks(1) [of b] d unfolding out(3) by (simp add: store_abs_def)
  then have "set out = set want" by blast
  with out(2) marks(2) have "mset out = mset want" by (simp only: set_eq_iff_mset_eq_distinct)
  from sort_same [OF this] out(1) True show ?thesis by auto
next
  case False
  with list(2) d show ?thesis by (simp add: store_DiffIDBlobs_def valid_digest_def throw_def)
qed

end

text \<open>The blobs of the second image of this subtest.\<close>

definition variant_puts :: "oci_lib \<Rightarrow> test_codec \<Rightarrow> 'w backend \<Rightarrow> ('w, unit) test \<Rightarrow> ('w, unit) test" where
  "variant_puts L K s k =
     ebind (test_PutBlob L s variant_bytes (bare_descriptor L MediaTypeImageLayerGzip variant_bytes)) (\<lambda>_.
     ebind (test_PutBlob L s (marshalled (marshal_Image K (variant_config L))) (m_Config (variant_manifest L K))) (\<lambda>_.
     ebind (test_PutBlob L s (marshalled (marshal_Manifest L (variant_manifest L K))) (fi_Manifest (variant_image L K))) (\<lambda>_. k)))"

lemma test_markers_fixture:
  "test_markers L K newStore listable (the_fixture L K) single =
     ebind newStore (\<lambda>s.
     ebind (test_PutImage L s (the_fixture L K) (the_image L K ociTypes ''amd64'' (fx_single L))) (\<lambda>_.
     ebind (must ''Commit'' (store_Commit L s single storetest_amd64 (fi_Manifest (the_image L K ociTypes ''amd64'' (fx_single L))))) (\<lambda>_.
     ebind (for_each (\<lambda>l.
         ebind (call (store_HasDiffIDBlob L s (d_Digest l) (d_Digest l))) (\<lambda>has. check (has = Inr True) ''marker''))
       (fx_single L)) (\<lambda>_.
     variant_puts L K s (
     ebind (test_ref L ''example.com/variant:1'') (\<lambda>ref.
     ebind (must ''Commit'' (store_Commit L s ref storetest_amd64 (fi_Manifest (variant_image L K)))) (\<lambda>_.
     ebind (call (store_DiffIDBlobs L s (digest_FromBytes L ''shared''))) (\<lambda>got.
       if \<not> listable then check (failed_with got ErrNotListable) ''DiffIDBlobs on a non-listable backend''
       else
         (case got of
            Inl e \<Rightarrow> Fatalf ''DiffIDBlobs''
          | Inr ds \<Rightarrow> check (sort ds = sort [digest_FromBytes L ''shared'', digest_FromBytes L variant_bytes]) ''DiffIDBlobs'')))))))))"
proof -
  have cfg: "(fixture_config ''amd64'' (fx_single L))\<lparr>c_DiffIDs := [digest_FromBytes L ''shared'']\<rparr> = variant_config L"
    by (simp add: variant_config_def)
  have m: "\<lparr>m_MediaType = MediaTypeImageManifest,
      m_Config = bare_descriptor L MediaTypeImageConfig (marshalled (marshal_Image K (variant_config L))),
      m_Layers = [bare_descriptor L MediaTypeImageLayerGzip variant_bytes]\<rparr> = variant_manifest L K"
    by (simp add: variant_manifest_def)
  have parts: "bare_descriptor L MediaTypeImageConfig (marshalled (marshal_Image K (variant_config L))) = m_Config (variant_manifest L K)"
    "bare_descriptor L MediaTypeImageManifest (marshalled (marshal_Manifest L (variant_manifest L K))) = fi_Manifest (variant_image L K)"
    by (simp_all add: variant_manifest_def variant_image_def)
  show ?thesis
    unfolding test_markers_def Let_def suite_fields image_fields image_digests bare_fields
    unfolding cfg variant_bytes_def [symmetric] m
    unfolding parts variant_puts_def
    by (rule refl)
qed

context reliable_backend
begin

lemma variant_puts_run:
  assumes ready: "suite_ready L K" and w: "ok w"
  shows "\<exists>w'. (\<forall>k. variant_puts L K B k (w, log) = k (w', log)) \<and>
    becomes (put_all L [variant_bytes, marshalled (marshal_Image K (variant_config L)), marshalled (marshal_Manifest L (variant_manifest L K))]
      (store_abs L (tree w))) w w'"
proof -
  note r = suite_readyD [OF ready]
  note put = test_PutBlob_run [OF r(1,3)]
  have d: "described L (marshalled (marshal_Image K (variant_config L))) (m_Config (variant_manifest L K))"
    "described L (marshalled (marshal_Manifest L (variant_manifest L K))) (fi_Manifest (variant_image L K))"
    by (simp_all add: variant_manifest_def variant_image_def)
  from put [OF w described_bare, of variant_bytes MediaTypeImageLayerGzip log] obtain w1 where
    1: "test_PutBlob L B variant_bytes (bare_descriptor L MediaTypeImageLayerGzip variant_bytes) (w, log) = (Ok (), (w1, log))"
      "becomes (put_all L [variant_bytes] (store_abs L (tree w))) w w1" by blast
  from put [OF _ d(1), of w1 log] 1(2) obtain w2 where
    2: "test_PutBlob L B (marshalled (marshal_Image K (variant_config L))) (m_Config (variant_manifest L K)) (w1, log) = (Ok (), (w2, log))"
      "becomes (put_all L [variant_bytes, marshalled (marshal_Image K (variant_config L))] (store_abs L (tree w))) w1 w2"
    by (auto simp: put_all_append)
  from put [OF _ d(2), of w2 log] 2(2) obtain w3 where
    3: "test_PutBlob L B (marshalled (marshal_Manifest L (variant_manifest L K))) (fi_Manifest (variant_image L K)) (w2, log) = (Ok (), (w3, log))"
      "becomes (put_all L [variant_bytes, marshalled (marshal_Image K (variant_config L)), marshalled (marshal_Manifest L (variant_manifest L K))]
        (store_abs L (tree w))) w2 w3"
    by (auto simp: put_all_append)
  have "variant_puts L K B k (w, log) = k (w3, log)" for k
    unfolding variant_puts_def
    by (rule bind_run, rule 1(1), rule bind_run, rule 2(1), rule bind_run, rule 3(1), rule refl)
  with 1(2) 2(2) 3(2) show ?thesis by auto
qed

lemma markers_run:
  assumes ready: "suite_ready L K" and w: "ok w" "tree w = Map.empty" and new: "newStore t = (Ok B, (w, log))"
    and list: "listable \<longrightarrow> (\<exists>ls. listed_backend L B tree ok ls (\<lambda>_. True))" "\<not> listable \<longrightarrow> b_List B = None"
  shows "\<exists>w'. test_markers L K newStore listable (the_fixture L K) (tag_ref ''single'') t = (Ok (), (w', log))"
proof -
  note r = suite_readyD [OF ready] and pkS = suite_packed(1) [OF ready] and pkV = variant_packed [OF ready]
  note laws = r(1,3) and claws = r(1,4,6) and pfS = packed_fields [OF pkS] and pfV = packed_fields [OF pkV]
  let ?f = "the_fixture L K" and ?p = storetest_amd64 and ?cs = "suite_contents L K" and ?D = "digest_FromBytes L"
  let ?S = "the_image L K ociTypes ''amd64'' (fx_single L)" and ?V = "variant_image L K"
  let ?mmS = "manifest_of L K ociTypes ''amd64'' (fx_single L)" and ?ccS = "fixture_config ''amd64'' (fx_single L)"
  let ?mmV = "variant_manifest L K" and ?ccV = "variant_config L"
  let ?bS = "[''shared'', ''single''] @ [single_config L K, single_manifest L K]"
  let ?bV = "[variant_bytes, marshalled (marshal_Image K ?ccV), marshalled (marshal_Manifest L ?mmV)]"
  let ?r1 = "tag_ref ''single''" and ?r2 = "tag_ref ''variant''"
  have memS: "set ?bS \<subseteq> set ?cs" by (rule order_trans [OF suite_mem(1) suite_mem(5)])
  have memV: "set ?bV \<subseteq> set ?cs" by (simp add: suite_contents_def)
  have mem: "set (?bS @ ?bV) \<subseteq> set ?cs" using memS memV by (simp only: set_append Un_least)
  have at: "\<forall>b \<in> set ?bS. fixture_blob L ?f (?D b) = b" using suite_at [OF ready] suite_mem(1) by blast
  have leaf: "leafable L ?r1 ?p" "leafable L ?r2 ?p" using tag_leafable by simp_all
  have keys: "leaf_key ?r1 ?p = (?r1, ?p)" "leaf_key ?r2 ?p = (?r2, ?p)" by (simp_all add: suite_keys)
  have rs: "?r1 \<noteq> ?r2" by (simp add: tag_ref_def)
  note fresh = fresh_state [OF w(2)]
  from test_PutImage_run [OF laws w(1) pkS, of ?f log] at fresh obtain w1 where
    1: "test_PutImage L B ?f ?S (w, log) = (Ok (), (w1, log))" "becomes (put_all L ?bS empty_state) w w1" by auto
  let ?s = "put_all L ?bS empty_state"
  have st: "stores L ?bS ?s" using stores_put_all [of L "[]" empty_state ?bS] by simp
  have w1: "ok w1" "store_inv L (tree w1)" "store_abs L (tree w1) = ?s" using 1(2) fresh by auto
  let ?s1 = "spec_commit ?r1 ?p (fi_Manifest ?S) ?mmS ?ccS ?s"
  from Commit_spec [OF claws leaf(1) w1 packed_spec [OF pkS st r(8) memS order_refl suite_match(1)] pfS(9,1)] obtain w2 where
    2: "store_Commit L B ?r1 ?p (fi_Manifest ?S) w1 = (Ok (), w2)" "becomes ?s1 w1 w2"
    by (auto simp: commit_verdict_def empty_state_def)
  have w2: "ok w2" "store_inv L (tree w2)" "store_abs L (tree w2) = ?s1" using 2(2) w1 by auto
  have "\<forall>l \<in> set (fx_single L). valid_digest L (d_Digest l) \<and> (d_Digest l, d_Digest l) \<in> s_marks (store_abs L (tree w2))"
    unfolding w2(3) spec_commit_fields single_marks by (simp add: fx_single_def valid_FromBytes [OF r(1)])
  from has_markers [OF r(1) w2(1) this, of log] obtain w3 where
    3: "for_each (\<lambda>l. ebind (call (store_HasDiffIDBlob L B (d_Digest l) (d_Digest l))) (\<lambda>has. check (has = Inr True) ''marker''))
      (fx_single L) (w2, log) = (Ok (), (w3, log))" "quiet w2 w3" by blast
  have w3: "ok w3" "store_inv L (tree w3)" "store_abs L (tree w3) = ?s1" using 3(2) w2 by auto
  let ?s2 = "put_all L ?bV ?s1"
  from variant_puts_run [OF ready w3(1), of log] obtain w4 where
    4: "\<And>k. variant_puts L K B k (w3, log) = k (w4, log)" "becomes ?s2 w3 w4" unfolding w3(3) by blast
  have w4: "ok w4" "store_inv L (tree w4)" "store_abs L (tree w4) = ?s2" using 4(2) w3 by auto
  have st2: "stores L (?bS @ ?bV) ?s2" using stores_put_all [of L ?bS ?s1 ?bV] st by simp
  let ?s3 = "spec_commit ?r2 ?p (fi_Manifest ?V) ?mmV ?ccV ?s2"
  have inV: "set ([variant_bytes] @ [marshalled (marshal_Image K ?ccV), marshalled (marshal_Manifest L ?mmV)]) \<subseteq> set (?bS @ ?bV)" by auto
  from Commit_spec [OF claws leaf(2) w4 packed_spec [OF pkV st2 r(8) mem inV variant_match] pfV(9,1)] keys rs obtain w5 where
    5: "store_Commit L B ?r2 ?p (fi_Manifest ?V) w4 = (Ok (), w5)" "becomes ?s3 w4 w5"
    by (auto simp: commit_verdict_def empty_state_def)
  have w5: "ok w5" "store_inv L (tree w5)" "store_abs L (tree w5) = ?s3" using 5(2) w4 by auto
  let ?want = "[?D ''shared'', ?D variant_bytes]"
  have "distinct [''shared'', ''single'', variant_bytes]"
    using suite_distinct [OF ready] by (simp add: suite_contents_def fixture_contents_def)
  then have dist: "distinct [?D ''shared'', ?D ''single'', ?D variant_bytes]"
    using suite_readyD(8) [OF ready] by (simp add: suite_contents_def fixture_contents_def)
  have "(?D ''shared'', b) \<in> s_marks (store_abs L (tree w5)) \<longleftrightarrow> b \<in> set ?want" for b
    using dist unfolding w5(3) by (auto simp: single_marks variant_marks)
  from DiffIDBlobs_abs [OF r(1,2) valid_FromBytes [OF r(1)] w5(1) list this] dist obtain out w6 where
    6: "if listable then store_DiffIDBlobs L B (?D ''shared'') w5 = (Ok out, w6) \<and> sort out = sort ?want
      else store_DiffIDBlobs L B (?D ''shared'') w5 = (Err (Sentinel ErrNotListable), w6)" by (auto split: if_splits)
  have ref: "test_ref L ''example.com/variant:1'' (w4, log) = (Ok ?r2, (w4, log))"
    by (simp add: test_ref_def parse_named [OF r(11)] must_def call_def under_test_def attempt_def ebind_def pure_res_def ret_def)
  have "test_markers L K newStore listable ?f ?r1 t = (Ok (), (w6, log))"
    unfolding test_markers_fixture
    apply (rule bind_run, rule new, rule bind_run, rule 1(1))
    apply (simp only: must_run 2(1) prod.case res.case)
    apply (rule bind_run, rule 3(1))
    apply (simp only: 4(1))
    apply (rule bind_run, rule ref)
    apply (simp only: must_run 5(1) prod.case res.case)
    using 6 by (cases listable) (simp_all add: call_run ret_def)
  then show ?thesis by blast
qed

end

section \<open>Refusals\<close>

text \<open>\<open>Create\<close> with a digest that is valid does not panic.\<close>

definition creates_return :: "oci_lib \<Rightarrow> 'w backend \<Rightarrow> ('w \<Rightarrow> bool) \<Rightarrow> bool" where
  "creates_return L B ok \<longleftrightarrow>
     (\<forall>w n body sz d. ok w \<longrightarrow> store_file n \<longrightarrow> valid_digest L d \<longrightarrow> fst (b_Create B n body sz d w) \<noteq> Panic)"

lemma canonical_apart:
  "canonical_laws L \<Longrightarrow> digest_FromBytes L a \<noteq> digest_FromBytes L b \<Longrightarrow> \<not> digest_matches L (digest_FromBytes L a) b"
  unfolding canonical_laws_def digest_matches_def by auto

lemma suite_absent:
  assumes "suite_ready L K"
  shows "''absent blob'' \<notin> set (fixture_contents L K @ [marshalled (marshal_Manifest L (foreign_manifest L K))])"
proof -
  have "a \<notin> set (xs @ [c, d, e, f])" if "distinct (xs @ [c, d, e, f, a, b])" for a b c d e f :: bytes and xs using that by auto
  from this [OF suite_distinct [OF assms, unfolded suite_contents_def]] show ?thesis by (simp only: set_append set_simps) blast
qed

lemma foreign_kind: "store_isForeign ''application/vnd.docker.image.rootfs.foreign.diff.tar.gzip''"
  by (simp add: store_isForeign_def)

context reliable_backend
begin

lemma PutBlob_mismatch:
  assumes laws: "digest_laws L" and w: "ok w" and v: "valid_digest L (d_Digest desc)" and calm: "creates_return L B ok"
    and free: "s_blobs (store_abs L (tree w)) (d_Digest desc) = None" and bad: "\<not> digest_matches L (d_Digest desc) b"
  shows "\<exists>e w'. store_PutBlob L B desc (bytes_body b) w = (Err e, w') \<and> quiet w w'"
proof -
  let ?d = "d_Digest desc" and ?n = "seg_path (blob_segs L (d_Digest desc))"
  note n = store_file_seg_path [OF store_segs_blob [OF laws v]]
  from HasBlob_abs [OF laws w v] free obtain w1 where has: "store_HasBlob L B ?d w = (Ok False, w1)" "quiet w w1" by auto
  have none: "tree w1 ?n = None" using free has(2) v by (simp add: store_abs_def)
  have valid: "digest_Validate L ?d = None" "?d \<noteq> []" using v valid_digest_nonempty [OF laws v] by (simp_all add: valid_digest_def)
  have never: "\<not> created L (tree w1) ?n (bytes_body b) (d_Size desc) ?d t'" for t'
    using bad valid(2) v by (simp add: created_def bytes_body_def)
  obtain res w2 where c: "b_Create B ?n (bytes_body b) (d_Size desc) ?d w1 = (res, w2)" by fastforce
  have w2: "quiet w1 w2" using create_any [OF _ n c] create_ok [OF _ n c] has(2) never by blast
  have "\<exists>e. res = Err e \<and> \<not> err_is e ErrExist"
  proof (cases res)
    case (Ok u)
    with create_Ok [OF _ n] c has(2) never show ?thesis by blast
  next
    case (Err e)
    with create_Exist [OF _ n c [unfolded Err] _ body_ok_simps(1)] has(2) none show ?thesis by blast
  next
    case Panic
    with calm c has(2) v n show ?thesis unfolding creates_return_def by (metis fst_conv)
  qed
  then obtain e where e: "res = Err e" "\<not> err_is e ErrExist" by blast
  have "store_PutBlob L B desc (bytes_body b) w = (Err e, w2)"
    unfolding store_PutBlob_def valid(1) option.case BlobPath_valid [OF laws v] ebind_pure
    using has(1) c e by (simp add: ebind_def attempt_def throw_def)
  with has(2) w2 show ?thesis by auto
qed

lemma PutBlob_stored:
  assumes "digest_laws L" "ok w" "valid_digest L (d_Digest desc)" "s_blobs (store_abs L (tree w)) (d_Digest desc) \<noteq> None"
  shows "\<exists>w'. store_PutBlob L B desc body w = (Ok (), w') \<and> quiet w w'"
proof -
  from HasBlob_abs [OF assms(1-3)] assms(4) obtain w1 where
    "store_HasBlob L B (d_Digest desc) w = (Ok True, w1)" "quiet w w1" by auto
  with assms(3) show ?thesis
    by (intro exI [of _ w1]) (simp add: store_PutBlob_def valid_digest_def ebind_def ret_def)
qed

end

text \<open>The manifest with a foreign layer, and what the subtest puts.\<close>

lemma test_refusals_fixture:
  "test_refusals L newStore (the_fixture L K) single =
     (let img = the_image L K ociTypes ''amd64'' (fx_single L); md = bare_descriptor L MediaTypeImageManifest (marshalled (marshal_Manifest L (foreign_manifest L K)));
          ad = bare_descriptor L [] ''absent blob'' in
     ebind newStore (\<lambda>s.
     ebind (for_each (\<lambda>d. test_PutBlob L s (fixture_blob L (the_fixture L K) (d_Digest d)) d) [fi_Config img, fi_Manifest img]) (\<lambda>_.
     ebind (call (store_Commit L s single storetest_amd64 (fi_Manifest img))) (\<lambda>r.
     ebind (check (failed_with r ErrNotExist) ''missing layer'') (\<lambda>_.
     ebind (call (store_Resolve L s single storetest_amd64)) (\<lambda>r.
     ebind (check (failed_with r ErrNotExist) ''a refused Commit left a leaf'') (\<lambda>_.
     ebind (test_PutImage L s (the_fixture L K) img) (\<lambda>_.
     ebind (call (store_Commit L s single storetest_arm64 (fi_Manifest img))) (\<lambda>r.
     ebind (check (failed_with r ErrPlatform) ''wrong platform'') (\<lambda>_.
     ebind (call (store_Commit L s single storetest_amd64 (bare_descriptor L MediaTypeImageIndex (multi_bytes L K)))) (\<lambda>r.
     ebind (check (\<not> succeeded r) ''committing an image index'') (\<lambda>_.
     ebind (test_PutBlob L s (marshalled (marshal_Manifest L (foreign_manifest L K))) md) (\<lambda>_.
     ebind (call (store_Commit L s single storetest_amd64 md)) (\<lambda>r.
     ebind (check (failed_with r ErrForeignLayer) ''foreign layer'') (\<lambda>_.
     ebind (call (store_PutBlob L s ad (bytes_body ''other bytes''))) (\<lambda>r.
     ebind (check (\<not> succeeded r) ''PutBlob with mismatching content'') (\<lambda>_.
     ebind (call (store_HasBlob L s (d_Digest ad))) (\<lambda>has.
     ebind (check (has \<noteq> Inr True) ''mismatching content was stored'') (\<lambda>_.
     ebind (call (store_PutBlob L s (layer_of L ociTypes ''single'') errReader)) (\<lambda>r.
       check (succeeded r) ''PutBlob of an existing blob''))))))))))))))))))))"
proof -
  have m: "\<lparr>m_MediaType = MediaTypeImageManifest, m_Config = fi_Config (the_image L K ociTypes ''amd64'' (fx_single L)),
      m_Layers = [(fi_Layers (the_image L K ociTypes ''amd64'' (fx_single L)) ! 0)
        \<lparr>d_MediaType := ''application/vnd.docker.image.rootfs.foreign.diff.tar.gzip''\<rparr>]\<rparr> = foreign_manifest L K"
    by (simp add: foreign_manifest_def foreign_layer_def fx_single_def oci_fields)
  have l: "fi_Layers (the_image L K ociTypes ''amd64'' (fx_single L)) ! 1 = layer_of L ociTypes ''single''"
    by (simp add: fx_single_def)
  show ?thesis
    unfolding test_refusals_def Let_def suite_fields m l by (rule refl)
qed

lemma foreign_spec:
  assumes "suite_ready L K"
  shows "json_Manifest L (marshalled (marshal_Manifest L (foreign_manifest L K))) = Inr (foreign_manifest L K)"
    "\<exists>l \<in> set (m_Layers (foreign_manifest L K)). store_isForeign (d_MediaType l)"
proof -
  note r = suite_readyD [OF assms]
  show "json_Manifest L (marshalled (marshal_Manifest L (foreign_manifest L K))) = Inr (foreign_manifest L K)"
    using codec_Manifest [OF r(6,4), of "foreign_manifest L K"] by (simp add: foreign_manifest_def foreign_layer_def)
  show "\<exists>l \<in> set (m_Layers (foreign_manifest L K)). store_isForeign (d_MediaType l)"
    by (simp add: foreign_manifest_def foreign_layer_def foreign_kind)
qed

context reliable_backend
begin

lemma refusals_run:
  assumes ready: "suite_ready L K" and w: "ok w" "tree w = Map.empty" and new: "newStore t = (Ok B, (w, log))"
    and calm: "creates_return L B ok"
  shows "\<exists>w'. test_refusals L newStore (the_fixture L K) (tag_ref ''single'') t = (Ok (), (w', log))"
proof -
  note r = suite_readyD [OF ready] and pk = suite_packed(1) [OF ready]
  note laws = r(1,3) and pf = packed_fields [OF pk] and valid = valid_FromBytes [OF r(1)]
  let ?f = "the_fixture L K" and ?p = storetest_amd64 and ?cs = "suite_contents L K" and ?D = "digest_FromBytes L"
  let ?S = "the_image L K ociTypes ''amd64'' (fx_single L)" and ?mm = "manifest_of L K ociTypes ''amd64'' (fx_single L)"
  let ?cb = "single_config L K" and ?mb = "single_manifest L K" and ?fb = "marshalled (marshal_Manifest L (foreign_manifest L K))"
  let ?put = "\<lambda>d. fixture_blob L ?f (d_Digest d)" and ?md = "fi_Manifest ?S" and ?r = "tag_ref ''single''"
  let ?bs = "[''shared'', ''single''] @ [?cb, ?mb]"
  have mem: "set ?bs \<subseteq> set ?cs" by (rule order_trans [OF suite_mem(1) suite_mem(5)])
  have mem1: "set [?cb, ?mb] \<subseteq> set ?cs" "set ([?cb, ?mb] @ ?bs) \<subseteq> set ?cs" using mem by simp_all
  have memf: "set (([?cb, ?mb] @ ?bs) @ [?fb]) \<subseteq> set ?cs" "''absent blob'' \<in> set ?cs" "''shared'' \<in> set ?cs" "''other bytes'' \<in> set ?cs"
    using mem1(2) by (simp_all add: suite_contents_def)
  have at: "\<forall>b \<in> set ?bs. fixture_blob L ?f (?D b) = b" using suite_at [OF ready] suite_mem(1) by blast
  have leaf: "leafable L ?r ?p" using tag_leafable by simp
  note fresh = fresh_state [OF w(2)]
  have ds: "\<forall>d \<in> set [fi_Config ?S, ?md]. described L (?put d) d" "map ?put [fi_Config ?S, ?md] = [?cb, ?mb]"
    using at pf(2,6,7,11,12) by (simp_all del: image_digests image_fields)
  from test_PutBlobs_run [OF laws w(1) ds(1), of log] fresh obtain w1 where
    1: "for_each (\<lambda>d. test_PutBlob L B (?put d) d) [fi_Config ?S, ?md] (w, log) = (Ok (), (w1, log))"
      "becomes (put_all L [?cb, ?mb] empty_state) w w1" unfolding ds(2) by auto
  let ?s1 = "put_all L [?cb, ?mb] empty_state"
  have st1: "stores L [?cb, ?mb] ?s1" using stores_put_all [of L "[]" empty_state "[?cb, ?mb]"] by simp
  have w1: "ok w1" "store_inv L (tree w1)" "store_abs L (tree w1) = ?s1" using 1(2) fresh by auto
  have native: "\<forall>l \<in> set (m_Layers ?mm). \<not> store_isForeign (d_MediaType l)" by (rule pf(10))
  have mt: "store_isManifest (d_MediaType ?md)" unfolding pf(1) by (rule isManifest_oci)
  have layers: "m_Layers ?mm = fx_single L" by (simp add: manifest_of_def)
  have lv: "\<forall>l \<in> set (m_Layers ?mm). valid_digest L (d_Digest l)" unfolding layers by (simp add: fx_single_def valid)
  have apart: "''shared'' \<notin> set [?cb, ?mb]" using suite_apart(1) [OF ready] by simp
  have gone: "\<exists>l \<in> set (m_Layers ?mm). s_blobs (store_abs L (tree w1)) (d_Digest l) = None"
    unfolding layers w1(3) using stores_none [OF st1 r(8) mem1(1) memf(3) apart] by (simp add: fx_single_def)
  have at1: "s_blobs (store_abs L (tree w1)) (d_Digest ?md) = Some ?mb" "s_blobs (store_abs L (tree w1)) (d_Digest (m_Config ?mm)) = Some ?cb"
    unfolding w1(3) pf(2,6) using stores_found [OF st1 r(8) mem1(1)] by simp_all
  from Commit_missing [OF r(1) w1(1) mt at1(1) pf(2) [symmetric] pf(3) native at1(2) pf(6) [symmetric] pf(5) suite_match(1) lv gone]
  obtain e1 w2 where 2: "store_Commit L B ?r ?p ?md w1 = (Err e1, w2)" "err_is e1 ErrNotExist" "quiet w1 w2" by blast
  have w2: "ok w2" "store_inv L (tree w2)" "store_abs L (tree w2) = ?s1" using 2(3) w1 by auto
  have free: "s_leaves (store_abs L (tree w2)) k = None" for k unfolding w2(3) by (simp add: empty_state_def)
  have tag: "Digest ?r = []" by (simp add: tag_ref_def)
  from Resolve_absent [OF r(1) leaf w2(1,2) free tag] obtain e2 w3 where
    3: "store_Resolve L B ?r ?p w2 = (Err e2, w3)" "err_is e2 ErrNotExist" "quiet w2 w3" by blast
  have w3: "ok w3" "store_inv L (tree w3)" "store_abs L (tree w3) = ?s1" using 3(3) w2 by auto
  from test_PutImage_run [OF laws w3(1) pk, of ?f log] at w3 obtain w4 where
    4: "test_PutImage L B ?f ?S (w3, log) = (Ok (), (w4, log))" "becomes (put_all L ?bs ?s1) w3 w4" by auto
  let ?s2 = "put_all L ?bs ?s1"
  have st2: "stores L ([?cb, ?mb] @ ?bs) ?s2" by (rule stores_put_all [OF st1])
  have w4: "ok w4" "store_inv L (tree w4)" "store_abs L (tree w4) = ?s2" using 4(2) w3 by auto
  have at2: "s_blobs (store_abs L (tree w4)) (d_Digest ?md) = Some ?mb" "s_blobs (store_abs L (tree w4)) (d_Digest (m_Config ?mm)) = Some ?cb"
    unfolding w4(3) pf(2,6) using stores_found [OF st2 r(8) mem1(2)] by simp_all
  from Commit_platform [OF r(1) w4(1) mt at2(1) pf(2) [symmetric] pf(3) native at2(2) pf(6) [symmetric] pf(5) suite_match(3)]
  obtain e3 w5 where 5: "store_Commit L B ?r storetest_arm64 ?md w4 = (Err e3, w5)" "err_is e3 ErrPlatform" "quiet w4 w5" by blast
  have w5: "ok w5" "store_inv L (tree w5)" "store_abs L (tree w5) = ?s2" using 5(3) w4 by auto
  let ?ix = "bare_descriptor L MediaTypeImageIndex (multi_bytes L K)"
  have "\<not> store_isManifest (d_MediaType ?ix)"
    by (simp add: store_isManifest_def MediaTypeImageIndex_def MediaTypeImageManifest_def MediaTypeDockerManifest_def)
  from Commit_other_media [OF this, of L B ?r ?p w5] obtain e4 where 6: "store_Commit L B ?r ?p ?ix w5 = (Err e4, w5)" by blast
  let ?fmd = "bare_descriptor L MediaTypeImageManifest ?fb"
  from test_PutBlob_run [OF laws w5(1) described_bare, of ?fb MediaTypeImageManifest log] w5 obtain w6 where
    7: "test_PutBlob L B ?fb ?fmd (w5, log) = (Ok (), (w6, log))" "becomes (put_all L [?fb] ?s2) w5 w6" by auto
  let ?s3 = "put_all L [?fb] ?s2"
  have st3: "stores L (([?cb, ?mb] @ ?bs) @ [?fb]) ?s3" by (rule stores_put_all [OF st2])
  have w6: "ok w6" "store_inv L (tree w6)" "store_abs L (tree w6) = ?s3" using 7(2) w5 by auto
  have at3: "s_blobs (store_abs L (tree w6)) (d_Digest ?fmd) = Some ?fb" "?D ?fb = d_Digest ?fmd" "store_isManifest (d_MediaType ?fmd)"
    unfolding w6(3) using stores_found [OF st3 r(8) memf(1)] by simp_all
  from Commit_foreign [OF r(1) w6(1) at3(3,1,2) foreign_spec [OF ready]] obtain e5 w7 where
    8: "store_Commit L B ?r ?p ?fmd w6 = (Err e5, w7)" "err_is e5 ErrForeignLayer" "quiet w6 w7" by blast
  have w7: "ok w7" "store_inv L (tree w7)" "store_abs L (tree w7) = ?s3" using 8(3) w6 by auto
  let ?ad = "bare_descriptor L [] ''absent blob''"
  have apart2: "''absent blob'' \<notin> set (([?cb, ?mb] @ ?bs) @ [?fb])" "''absent blob'' \<noteq> ''other bytes''"
    using suite_absent [OF ready] by (simp_all add: fixture_contents_def)
  have none: "s_blobs (store_abs L (tree w7)) (d_Digest ?ad) = None"
    unfolding w7(3) using stores_none [OF st3 r(8) memf(1) memf(2) apart2(1)] by simp
  have bad: "\<not> digest_matches L (d_Digest ?ad) ''other bytes''"
    using canonical_apart [OF r(3)] suite_digest_eq [OF ready memf(2,4)] by simp
  have va: "valid_digest L (d_Digest ?ad)" by (simp add: valid)
  from PutBlob_mismatch [OF r(1) w7(1) va calm none bad] obtain e6 w8 where
    9: "store_PutBlob L B ?ad (bytes_body ''other bytes'') w7 = (Err e6, w8)" "quiet w7 w8" by blast
  from HasBlob_abs [OF r(1) _ va, of w8] 9(2) none obtain w9 where
    10: "store_HasBlob L B (d_Digest ?ad) w8 = (Ok False, w9)" "quiet w8 w9" by auto
  have w9: "ok w9" "store_abs L (tree w9) = ?s3" using 10(2) 9(2) w7 by auto
  have "s_blobs (store_abs L (tree w9)) (d_Digest (layer_of L ociTypes ''single'')) \<noteq> None"
    unfolding w9(2) using stores_found [OF st3 r(8) memf(1)] by simp
  from PutBlob_stored [OF r(1) w9(1) _ this, of errReader] obtain w10 where
    11: "store_PutBlob L B (layer_of L ociTypes ''single'') errReader w9 = (Ok (), w10)" by (auto simp: valid)
  have "test_refusals L newStore ?f ?r t = (Ok (), (w10, log))"
    unfolding test_refusals_fixture Let_def
    apply (rule bind_run, rule new, rule bind_run, rule 1(1))
    apply (simp only: call_run 2(1) 3(1) prod.case res.case check_good failed_with_simps 2(2) 3(2))
    apply (rule bind_run, rule 4(1))
    apply (simp only: call_run 5(1) 6 prod.case res.case check_good failed_with_simps succeeded_simps not_False_eq_True 5(2))
    apply (rule bind_run, rule 7(1))
    by (simp add: call_run 8(1,2) 9(1) 10(1) [simplified] 11 ret_def)
  then show ?thesis by blast
qed

end


section \<open>The store of package imagetest\<close>

text \<open>What \<open>WriteStore\<close> puts, by the content \<open>b\<close> of its layer.\<close>

abbreviation (input) imagetest_layers :: "oci_lib \<Rightarrow> bytes \<Rightarrow> descriptor list" where
  "imagetest_layers L b \<equiv> [layer_of L ociTypes b]"

abbreviation (input) imagetest_contents :: "oci_lib \<Rightarrow> test_codec \<Rightarrow> bytes \<Rightarrow> bytes list" where
  "imagetest_contents L K b \<equiv>
     [b, config_bytes K ''amd64'' (imagetest_layers L b), manifest_bytes L K ociTypes ''amd64'' (imagetest_layers L b)]"

lemma imagetest_put_is: "imagetest_put L s mt b = ebind (test_PutBlob L s b (bare_descriptor L mt b)) (\<lambda>_. ret (bare_descriptor L mt b))"
  by (simp add: imagetest_put_def test_PutBlob_def Let_def)

context reliable_backend
begin

lemma imagetest_put_run:
  assumes "digest_laws L" "canonical_laws L" "ok w"
  shows "\<exists>w'. imagetest_put L B mt b (w, log) = (Ok (bare_descriptor L mt b), (w', log)) \<and>
    becomes (put_all L [b] (store_abs L (tree w))) w w'"
proof -
  from test_PutBlob_run [OF assms described_bare, of b mt log] obtain w' where
    r: "test_PutBlob L B b (bare_descriptor L mt b) (w, log) = (Ok (), (w', log))"
    "becomes (put_all L [b] (store_abs L (tree w))) w w'" by blast
  have "imagetest_put L B mt b (w, log) = (Ok (bare_descriptor L mt b), (w', log))"
    unfolding imagetest_put_is by (rule bind_run, rule r(1)) (simp add: ret_def)
  with r(2) show ?thesis by blast
qed

text \<open>In an empty store the image is then committed under its reference, and the ID returned is the config's digest.\<close>

lemma imagetest_write_run:
  assumes laws: "digest_laws L" "canonical_laws L" "json_laws L" "codec_laws L K" and w: "ok w" "tree w = Map.empty"
    and tar: "tarball ''etc/hello'' (ref @ [CHR 0x0A]) = Inr b" and parse: "types_ParseReference L ref = Ok r"
    and leaf: "leafable L r imagetest_Amd64" and dist: "distinct (map (digest_FromBytes L) (imagetest_contents L K b))"
  shows "\<exists>w'. imagetest_write L K tarball B ref (w, log) =
      (Ok (digest_FromBytes L (config_bytes K ''amd64'' (imagetest_layers L b))), (w', log)) \<and>
    becomes (spec_commit r imagetest_Amd64
      (bare_descriptor L MediaTypeImageManifest (manifest_bytes L K ociTypes ''amd64'' (imagetest_layers L b)))
      (manifest_of L K ociTypes ''amd64'' (imagetest_layers L b)) (fixture_config ''amd64'' (imagetest_layers L b))
      (put_all L (imagetest_contents L K b) empty_state)) w w'"
proof -
  let ?ls = "imagetest_layers L b" and ?p = imagetest_Amd64
  let ?cb = "config_bytes K ''amd64'' ?ls" and ?mb = "manifest_bytes L K ociTypes ''amd64'' ?ls"
  let ?m = "manifest_of L K ociTypes ''amd64'' ?ls" and ?cfg = "fixture_config ''amd64'' ?ls"
  let ?img = "the_image L K ociTypes ''amd64'' ?ls" and ?md = "bare_descriptor L MediaTypeImageManifest ?mb"
  have s0: "store_abs L (tree w) = empty_state" "store_inv L (tree w)" using fresh_state [OF w(2)] by simp_all
  have ls: "?ls = map (layer_of L ociTypes) [b]" by simp
  note img = the_image_packed [OF laws(1,3,4) ls, of "''amd64''"]
  from imagetest_put_run [OF laws(1,2) w(1), of MediaTypeImageLayer b log] obtain w1 where
    1: "imagetest_put L B MediaTypeImageLayer b (w, log) = (Ok (bare_descriptor L MediaTypeImageLayer b), (w1, log))"
    "becomes (put_all L [b] empty_state) w w1" unfolding s0(1) by blast
  from imagetest_put_run [OF laws(1,2), of w1 MediaTypeImageConfig ?cb log] 1(2) obtain w2 where
    2: "imagetest_put L B MediaTypeImageConfig ?cb (w1, log) = (Ok (bare_descriptor L MediaTypeImageConfig ?cb), (w2, log))"
    "becomes (put_all L [b, ?cb] empty_state) w1 w2" by (auto simp: put_all_append)
  from imagetest_put_run [OF laws(1,2), of w2 MediaTypeImageManifest ?mb log] 2(2) obtain w3 where
    3: "imagetest_put L B MediaTypeImageManifest ?mb (w2, log) = (Ok ?md, (w3, log))"
    "becomes (put_all L (imagetest_contents L K b) empty_state) w2 w3" by (auto simp: put_all_append)
  let ?s = "put_all L (imagetest_contents L K b) empty_state"
  have st: "stores L (imagetest_contents L K b) ?s"
    using stores_put_all [of L "[]" empty_state "imagetest_contents L K b"] by simp
  have match: "platform_Matches ?p (c_Platform ?cfg)"
    by (simp add: imagetest_Amd64_def fixture_config_def platform_Matches_def)
  have "image_spec L ?s ?p (d_Digest (fi_Manifest ?img)) ?m ?cfg"
    by (rule packed_spec [OF img st dist order_refl]) (simp_all add: match)
  then have spec: "image_spec L ?s ?p (d_Digest ?md) ?m ?cfg" by (simp add: the_image_def oci_fields)
  have diffs: "list_all (valid_digest L) (c_DiffIDs ?cfg)" using img by (simp add: packed_def)
  have w3: "ok w3" "store_inv L (tree w3)" "store_abs L (tree w3) = ?s" using 1(2) 2(2) 3(2) s0 by auto
  have mt: "d_MediaType ?md = MediaTypeImageManifest" by simp
  from Commit_spec [OF laws(1,3,4) leaf w3 spec diffs mt] obtain w4 where
    4: "store_Commit L B r ?p ?md w3 = (Ok (), w4)" "becomes (spec_commit r ?p ?md ?m ?cfg ?s) w3 w4"
    by (auto simp: commit_verdict_def)
  have cfg: "\<lparr>c_Platform = imagetest_Amd64, c_DiffIDs = [d_Digest (bare_descriptor L MediaTypeImageLayer b)], c_Created = None\<rparr> = ?cfg"
    by (simp add: fixture_config_def imagetest_Amd64_def layer_of_def)
  have mani: "\<lparr>m_MediaType = MediaTypeImageManifest, m_Config = bare_descriptor L MediaTypeImageConfig ?cb,
      m_Layers = [bare_descriptor L MediaTypeImageLayer b]\<rparr> = ?m"
    by (simp add: manifest_of_def oci_fields layer_of_def ociTypes_def)
  have "imagetest_write L K tarball B ref (w, log) = (Ok (d_Digest (bare_descriptor L MediaTypeImageConfig ?cb)), (w4, log))"
    unfolding imagetest_write_def
    apply (rule bind_run, simp add: TarLayer_def tar ret_def)
    apply (rule bind_run, rule 1(1))
    apply (unfold cfg Let_def, fold config_bytes_def)
    apply (rule bind_run, rule 2(1))
    apply (unfold mani, fold manifest_bytes_def)
    apply (rule bind_run, rule 3(1))
    by (simp add: test_ref_def must_run pure_res_def parse 4(1) ret_def)
  then show ?thesis using 4(2) w3 1(2) 2(2) 3(2) w by (intro exI [of _ w4]) simp
qed

end

text \<open>\<open>WriteStore\<close> closes the directory after that.\<close>

lemma WriteStore_run:
  assumes be: "reliable_backend L (fsdir_NewStore L ctx_Err root) tree ok" and root: "new_root dir w0 = (Ok root, w)"
    and laws: "digest_laws L" "canonical_laws L" "json_laws L" "codec_laws L K" and w: "ok w" "tree w = Map.empty"
    and tar: "tarball ''etc/hello'' (ref @ [CHR 0x0A]) = Inr b" and parse: "types_ParseReference L ref = Ok r"
    and leaf: "leafable L r imagetest_Amd64" and dist: "distinct (map (digest_FromBytes L) (imagetest_contents L K b))"
  shows "\<exists>w'. WriteStore L K tarball ctx_Err new_root close_root dir ref (w0, log) =
      (Ok (digest_FromBytes L (config_bytes K ''amd64'' (imagetest_layers L b))), (snd (close_root root w'), log)) \<and>
    ok w' \<and> store_inv L (tree w') \<and> store_abs L (tree w') = spec_commit r imagetest_Amd64
      (bare_descriptor L MediaTypeImageManifest (manifest_bytes L K ociTypes ''amd64'' (imagetest_layers L b)))
      (manifest_of L K ociTypes ''amd64'' (imagetest_layers L b)) (fixture_config ''amd64'' (imagetest_layers L b))
      (put_all L (imagetest_contents L K b) empty_state)"
proof -
  note run = reliable_backend.imagetest_write_run [OF be laws w, where tarball = tarball and ref = ref, OF tar parse leaf dist, of log]
  from run obtain w' where
    r: "imagetest_write L K tarball (fsdir_NewStore L ctx_Err root) ref (w, log) =
        (Ok (digest_FromBytes L (config_bytes K ''amd64'' (imagetest_layers L b))), (w', log))"
      "ok w' \<and> store_abs L (tree w') = spec_commit r imagetest_Amd64
        (bare_descriptor L MediaTypeImageManifest (manifest_bytes L K ociTypes ''amd64'' (imagetest_layers L b)))
        (manifest_of L K ociTypes ''amd64'' (imagetest_layers L b)) (fixture_config ''amd64'' (imagetest_layers L b))
        (put_all L (imagetest_contents L K b) empty_state) \<and> (store_inv L (tree w) \<longrightarrow> store_inv L (tree w'))" by blast
  have fin: "snd (call (close_root root) (w', log)) = (snd (close_root root w'), log)"
    by (simp add: call_def under_test_def attempt_def split: prod.split res.split)
  have "store_inv L (tree w)" by (simp add: w(2) store_inv_empty)
  moreover have "WriteStore L K tarball ctx_Err new_root close_root dir ref (w0, log) =
      (Ok (digest_FromBytes L (config_bytes K ''amd64'' (imagetest_layers L b))), (snd (close_root root w'), log))"
    by (simp add: WriteStore_def must_run root finally_do_def r(1) fin)
  ultimately show ?thesis
    using r(2) by blast
qed

end
