(* ===== verification/Storetest_Properties.thy ===== *)
theory Storetest_Properties
  imports Storetest_Runs Walk_Properties
begin

text \<open>
  The conformance suite accepts every backend that keeps the contract of package store: run over stores it
  gets fresh from \<open>newStore\<close>, it reports no failure. The witness runs it over package fsdir
  on an empty directory, under third-party code in which the suite can run: \<open>demo_lib\<close> with a hash that tells
  all contents apart, since two of the suite's contents have one length.
\<close>

section \<open>The suite\<close>

text \<open>An empty store that keeps the contract, and lists its files when it is said to.\<close>

definition fresh_store :: "oci_lib \<Rightarrow> bool \<Rightarrow> 'w backend \<Rightarrow> 'w \<Rightarrow> bool" where
  "fresh_store L listable B w \<longleftrightarrow>
     (\<exists>tree ok. reliable_backend L B tree ok \<and> ok w \<and> tree w = Map.empty \<and> creates_return L B ok \<and>
        (if listable then \<exists>ls. listed_backend L B tree ok ls (\<lambda>_. True) else b_List B = None))"

lemma test_ref_run:
  "ParseNormalizedNamed L s = Inr (named repo) \<Longrightarrow> test_ref L s t = (Ok (tag_ref repo), t)"
  by (cases t) (simp add: test_ref_def parse_named must_def call_def under_test_def attempt_def ebind_def pure_res_def ret_def)

lemma subtest_fresh:
  assumes stores: "\<forall>t. \<exists>B w. newStore t = (Ok B, (w, snd t)) \<and> fresh_store L listable B w"
    and run: "\<And>B tree ok w. reliable_backend L B tree ok \<Longrightarrow> ok w \<Longrightarrow> tree w = Map.empty \<Longrightarrow> newStore t = (Ok B, (w, snd t)) \<Longrightarrow>
      creates_return L B ok \<Longrightarrow> (listable \<longrightarrow> (\<exists>ls. listed_backend L B tree ok ls (\<lambda>_. True))) \<Longrightarrow>
      (\<not> listable \<longrightarrow> b_List B = None) \<Longrightarrow> \<exists>w'. body t = (Ok (), (w', snd t))"
  shows "\<exists>w'. \<forall>k. ebind (subtest body) k t = k () (w', snd t)"
proof -
  from stores obtain B w where B: "newStore t = (Ok B, (w, snd t))" "fresh_store L listable B w" by blast
  then obtain tree ok where "reliable_backend L B tree ok" "ok w" "tree w = Map.empty" "creates_return L B ok"
    "listable \<longrightarrow> (\<exists>ls. listed_backend L B tree ok ls (\<lambda>_. True))" "\<not> listable \<longrightarrow> b_List B = None"
    unfolding fresh_store_def by (auto split: if_splits)
  from run [OF this(1-3) B(1) this(4-6)] obtain w' where "body t = (Ok (), (w', snd t))" by blast
  then show ?thesis by (intro exI [of _ w'] allI subtest_Ok)
qed

text \<open>
  C15: the suite of package storetest reports nothing on a backend that keeps the contract of package store,
  listable or not, whatever the third-party code, as long as that does what it is documented to do.
\<close>

theorem suite_accepts_contract:
  fixes newStore :: "('w, 'w backend) test"
  assumes ready: "suite_ready L K"
    and stores: "\<forall>t. \<exists>B w. newStore t = (Ok B, (w, snd t)) \<and> fresh_store L listable B w"
  shows "\<exists>w'. TestBackend L K depth newStore listable (w, []) = (Ok (), (w', []))"
proof -
  note r = suite_readyD [OF ready]
  let ?f = "the_fixture L K" and ?single = "tag_ref ''single''" and ?repo = "''example.com/multi''"
  note run = subtest_fresh [OF stores]
  have "\<exists>w'. \<forall>k :: unit \<Rightarrow> ('w, unit) test. ebind (subtest (test_commit_resolve L depth newStore listable ?f ?single ?repo)) k t = k () (w', snd t)" for t
    by (rule run) (rule reliable_backend.commit_resolve_run [OF _ ready], assumption+)
  from this [of "(w, [])"] obtain w1 where
    1: "\<And>k :: unit \<Rightarrow> ('w, unit) test. ebind (subtest (test_commit_resolve L depth newStore listable ?f ?single ?repo)) k (w, []) = k () (w1, [])" by auto
  have "\<exists>w'. \<forall>k :: unit \<Rightarrow> ('w, unit) test. ebind (subtest (test_without_leaf L depth newStore ?f ?single ?repo)) k t = k () (w', snd t)" for t
    by (rule run) (rule reliable_backend.without_leaf_run [OF _ ready], assumption+)
  from this [of "(w1, [])"] obtain w2 where
    2: "\<And>k :: unit \<Rightarrow> ('w, unit) test. ebind (subtest (test_without_leaf L depth newStore ?f ?single ?repo)) k (w1, []) = k () (w2, [])" by auto
  have "\<exists>w'. \<forall>k :: unit \<Rightarrow> ('w, unit) test. ebind (subtest (test_markers L K newStore listable ?f ?single)) k t = k () (w', snd t)" for t
    by (rule run) (rule reliable_backend.markers_run [OF _ ready], assumption+)
  from this [of "(w2, [])"] obtain w3 where
    3: "\<And>k :: unit \<Rightarrow> ('w, unit) test. ebind (subtest (test_markers L K newStore listable ?f ?single)) k (w2, []) = k () (w3, [])" by auto
  have "\<exists>w'. \<forall>k :: unit \<Rightarrow> ('w, unit) test. ebind (subtest (test_refusals L newStore ?f ?single)) k t = k () (w', snd t)" for t
    by (rule run) (rule reliable_backend.refusals_run [OF _ ready], assumption+)
  from this [of "(w3, [])"] obtain w4 where
    4: "\<And>k :: unit \<Rightarrow> ('w, unit) test. ebind (subtest (test_refusals L newStore ?f ?single)) k (w3, []) = k () (w4, [])" by auto
  have last: "subtest (test_refusals L newStore ?f ?single) = ebind (subtest (test_refusals L newStore ?f ?single)) ret"
    by (rule ext) (simp add: subtest_def ebind_def ret_def split: prod.split res.split)
  have 5: "subtest (test_refusals L newStore ?f ?single) (w3, []) = (Ok (), (w4, []))"
    by (subst last) (simp only: 4 ret_def)
  have repo: "Repository (tag_ref ''multi'') = ?repo" by (simp add: tag_ref_def)
  have "TestBackend L K depth newStore listable (w, []) = (Ok (), (w4, []))"
    unfolding TestBackend_def fixture_New_run [OF r(1,4,6)] ebind_pure Let_def
    by (rule bind_run, rule test_ref_run [OF r(9)], rule bind_run, rule test_ref_run [OF r(10)])
      (simp only: repo 1 2 3 5)
  then show ?thesis by blast
qed

section \<open>A hash without collisions\<close>

definition bit_letter :: "bool \<Rightarrow> char" where
  "bit_letter b = (if b then CHR ''b'' else CHR ''a'')"

definition spell :: "char \<Rightarrow> string" where
  "spell c = map bit_letter [digit0 c, digit1 c, digit2 c, digit3 c, digit4 c, digit5 c, digit6 c, digit7 c]"

definition spelled :: "bytes \<Rightarrow> string" where
  "spelled b = CHR ''x'' # concat (map spell b)"

lemma bit_letter_eq [simp]: "bit_letter a = bit_letter b \<longleftrightarrow> a = b"
  by (simp add: bit_letter_def)

lemma spell_eq [simp]: "spell c = spell d \<longleftrightarrow> c = d"
  by (cases c; cases d) (auto simp: spell_def)

lemma spell_length [simp]: "length (spell c) = 8"
  by (simp add: spell_def)

lemma spelled_eq [simp]: "spelled a = spelled b \<longleftrightarrow> a = b"
proof -
  have "concat (map spell xs) = concat (map spell ys) \<Longrightarrow> xs = ys" for xs ys
  proof (induction xs arbitrary: ys)
    case Nil
    then show ?case using spell_length by (cases ys) (auto simp: spell_def)
  next
    case (Cons x xs)
    then show ?case by (cases ys) (auto simp: append_eq_append_conv, simp add: spell_def)
  qed
  then show ?thesis by (auto simp: spelled_def)
qed

lemma spelled_word: "demo_word (spelled b)"
proof -
  have "demo_char (bit_letter x)" for x by (simp add: bit_letter_def demo_char_def)
  then have "list_all demo_char (spell c)" for c by (simp add: spell_def)
  then have "list_all demo_char (concat (map spell b))" by (induction b) simp_all
  then show ?thesis by (simp add: demo_word_def spelled_def demo_char_def)
qed

definition clear_lib :: oci_lib where
  "clear_lib = demo_lib
     \<lparr>digest_FromBytes := (\<lambda>b. ''sha256:'' @ spelled b),
      digest_Digester := (\<lambda>a b. a @ '':'' @ spelled b)\<rparr>"

definition clear_codec :: test_codec where
  "clear_codec = \<lparr>marshal_Image = (\<lambda>c. Inr (put_config c)), marshal_Index_of = (\<lambda>mt ix. Inr (put_index ix))\<rparr>"

lemma clear_same:
  "digest_Algorithm clear_lib = digest_Algorithm demo_lib" "digest_Encoded clear_lib = digest_Encoded demo_lib"
  "digest_Validate clear_lib = digest_Validate demo_lib" "digest_NewFromEncoded clear_lib = digest_NewFromEncoded demo_lib"
  "ParseNormalizedNamed clear_lib = ParseNormalizedNamed demo_lib"
  "json_Manifest clear_lib = json_Manifest demo_lib" "json_Index clear_lib = json_Index demo_lib"
  "json_Image clear_lib = json_Image demo_lib" "json_MediaType clear_lib = json_MediaType demo_lib"
  "json_Layout clear_lib = json_Layout demo_lib" "marshal_Layout clear_lib = marshal_Layout demo_lib"
  "marshal_Index clear_lib = marshal_Index demo_lib" "marshal_Manifest clear_lib = marshal_Manifest demo_lib"
  "valid_digest clear_lib = valid_digest demo_lib"
  by (simp_all add: clear_lib_def valid_digest_def fun_eq_iff)

lemma clear_FromBytes [simp]: "digest_FromBytes clear_lib b = ''sha256:'' @ spelled b"
  by (simp add: clear_lib_def)

lemma clear_split:
  "digest_Algorithm clear_lib (''sha256:'' @ spelled b) = Some ''sha256''"
  "digest_Encoded clear_lib (''sha256:'' @ spelled b) = Some (spelled b)"
  "digest_Validate clear_lib (''sha256:'' @ spelled b) = None"
proof -
  have cut: "cut (''sha256:'' @ spelled b) '':'' = Some (''sha256'', spelled b)"
    using cut_char [of "CHR '':''" "''sha256''" "spelled b"] by simp
  then show "digest_Algorithm clear_lib (''sha256:'' @ spelled b) = Some ''sha256''"
    "digest_Encoded clear_lib (''sha256:'' @ spelled b) = Some (spelled b)"
    unfolding clear_same by (simp_all add: demo_lib_def)
  show "digest_Validate clear_lib (''sha256:'' @ spelled b) = None"
    using cut spelled_word demo_sha256_word unfolding clear_same by (simp add: demo_lib_def demo_Validate_def)
qed

lemma clear_laws:
  "digest_laws clear_lib" "colon_laws clear_lib" "canonical_laws clear_lib" "json_laws clear_lib" "reference_laws clear_lib"
proof -
  show "digest_laws clear_lib"
    using demo_digest_laws clear_split(3) unfolding digest_laws_def clear_same clear_FromBytes by blast
  show "colon_laws clear_lib" using demo_colon_laws unfolding colon_laws_def clear_same .
  show "canonical_laws clear_lib"
    using clear_split(1) unfolding canonical_laws_def by (simp add: clear_lib_def)
  show "json_laws clear_lib" using demo_json_laws unfolding json_laws_def clear_same .
  show "reference_laws clear_lib"
    using demo_reference_laws unfolding reference_laws_def clear_same wf_named_def .
qed

lemma simple_short: "simple_annotations d \<Longrightarrow> short d"
  by (auto simp: simple_annotations_def short_def short_annotations_def)

lemma clear_codec_laws: "codec_laws clear_lib clear_codec"
proof -
  have "list_all simple_annotations ds \<Longrightarrow> list_all short ds" for ds
    by (auto simp: list_all_iff simple_short)
  then show ?thesis
    unfolding codec_laws_def clear_same
    by (simp add: clear_codec_def demo_lib_def config_back index_back manifest_back simple_short)
qed


section \<open>The contents of the suite differ\<close>

lemma clear_config: "marshalled (marshal_Image clear_codec c) = put_config c"
  by (simp add: marshalled_def clear_codec_def)

lemma clear_index: "marshalled (marshal_Index_of clear_codec mt ix) = put_index ix"
  by (simp add: marshalled_def clear_codec_def)

lemma clear_manifest:
  "simple_annotations (m_Config m) \<Longrightarrow> list_all simple_annotations (m_Layers m) \<Longrightarrow>
    marshalled (marshal_Manifest clear_lib m) = put_manifest m"
  by (auto simp: marshalled_def clear_same demo_lib_def simple_short list_all_iff)

text \<open>What a content is about: the diffIDs of a config, the layers of a manifest, or itself.\<close>

definition gist :: "bytes \<Rightarrow> string \<times> string list" where
  "gist b =
     (if take 2 b = ''+l'' then (''config'', case whole get_config b of Inl e \<Rightarrow> [] | Inr c \<Rightarrow> c_DiffIDs c)
      else if take 2 b = ''+a''
      then (''manifest'', case whole get_manifest b of Inl e \<Rightarrow> [] | Inr m \<Rightarrow> map d_Digest (m_Layers m))
      else (''other'', [b]))"

lemma gist_config: "OS (c_Platform c) = ''linux'' \<Longrightarrow> gist (put_config c) = (''config'', c_DiffIDs c)"
  by (simp add: gist_def config_back) (simp add: put_config_def put_platform_def numeral_2_eq_2)

lemma gist_manifest:
  assumes "simple_annotations (m_Config m)" "list_all simple_annotations (m_Layers m)" "hd (m_MediaType m) = CHR ''a''" "m_MediaType m \<noteq> []"
  shows "gist (marshalled (marshal_Manifest clear_lib m)) = (''manifest'', map d_Digest (m_Layers m))"
proof -
  obtain s where s: "m_MediaType m = CHR ''a'' # s" using assms(3,4) by (cases "m_MediaType m") auto
  have "take 2 (put_manifest m) = ''+a''" by (simp add: put_manifest_def s numeral_2_eq_2)
  moreover have "whole get_manifest (put_manifest m) = Inr m"
    using assms(1,2) by (intro manifest_back) (auto simp: list_all_iff simple_short)
  ultimately show ?thesis unfolding clear_manifest [OF assms(1,2)] by (simp add: gist_def)
qed

lemma gist_config_bytes: "gist (config_bytes clear_codec arch layers) = (''config'', map d_Digest layers)"
  unfolding config_bytes_def clear_config by (simp add: gist_config fixture_config_def)

lemma gist_manifest_bytes:
  assumes "list_all simple_annotations layers" "mt = ociTypes \<or> mt = dockerTypes"
  shows "gist (manifest_bytes clear_lib clear_codec mt arch layers) = (''manifest'', map d_Digest layers)"
proof -
  have "hd (mt_manifest mt) = CHR ''a''" "mt_manifest mt \<noteq> []"
    using assms(2) by (auto simp: ociTypes_def dockerTypes_def MediaTypeImageManifest_def MediaTypeDockerManifest_def)
  with assms(1) gist_manifest [of "manifest_of clear_lib clear_codec mt arch layers"] show ?thesis
    by (simp add: manifest_bytes_def manifest_of_def)
qed

lemma gist_index: "gist (marshalled (marshal_Index_of clear_codec mt \<lparr>i_Manifests = d # ds\<rparr>)) =
    (''other'', [CHR ''1'' # put_nat (length ds) @ put_list put_descriptor (d # ds)])"
  unfolding clear_index by (simp add: gist_def put_index_def numeral_2_eq_2)

lemma gist_letters: "b = x # s \<Longrightarrow> x \<noteq> CHR ''+'' \<Longrightarrow> gist b = (''other'', [b])"
  by (simp add: gist_def numeral_2_eq_2)

lemma layer_digests [simp]: "map d_Digest (fx_single L) = [digest_FromBytes L ''shared'', digest_FromBytes L ''single'']"
  "map d_Digest (fx_amd64 L) = [digest_FromBytes L ''shared'', digest_FromBytes L ''multi-amd64'']"
  "map d_Digest (fx_arm64 L) = [digest_FromBytes L ''shared'', digest_FromBytes L ''multi-arm64'']"
  "map d_Digest (fx_unnamed L) = [digest_FromBytes L ''unnamed'']" "map d_Digest (fx_docker L) = [digest_FromBytes L ''docker'']"
  "map d_Digest (fx_dockerAmd64 L) = [digest_FromBytes L ''docker-list-amd64'']"
  by (simp_all add: fx_single_def fx_amd64_def fx_arm64_def fx_unnamed_def fx_docker_def fx_dockerAmd64_def)

lemma gist_rest:
  "gist (multi_bytes clear_lib clear_codec) = (''other'', [CHR ''1'' # put_nat 1 @ put_list put_descriptor
     [fi_Manifest (the_image clear_lib clear_codec ociTypes ''amd64'' (fx_amd64 clear_lib)),
      fi_Manifest (the_image clear_lib clear_codec ociTypes ''arm64'' (fx_arm64 clear_lib))]])"
  "gist (list_bytes clear_lib clear_codec) = (''other'', [CHR ''1'' # put_nat 0 @ put_list put_descriptor
     [fi_Manifest (the_image clear_lib clear_codec dockerTypes ''amd64'' (fx_dockerAmd64 clear_lib))]])"
  "gist (marshalled (marshal_Image clear_codec (variant_config clear_lib))) = (''config'', [digest_FromBytes clear_lib ''shared''])"
  "gist (marshalled (marshal_Manifest clear_lib (variant_manifest clear_lib clear_codec))) = (''manifest'', [digest_FromBytes clear_lib variant_bytes])"
  "gist (marshalled (marshal_Manifest clear_lib (foreign_manifest clear_lib clear_codec))) = (''manifest'', [digest_FromBytes clear_lib ''shared''])"
proof -
  show "gist (multi_bytes clear_lib clear_codec) = (''other'', [CHR ''1'' # put_nat 1 @ put_list put_descriptor
     [fi_Manifest (the_image clear_lib clear_codec ociTypes ''amd64'' (fx_amd64 clear_lib)),
      fi_Manifest (the_image clear_lib clear_codec ociTypes ''arm64'' (fx_arm64 clear_lib))]])"
    unfolding multi_bytes_def gist_index by simp
  show "gist (list_bytes clear_lib clear_codec) = (''other'', [CHR ''1'' # put_nat 0 @ put_list put_descriptor
     [fi_Manifest (the_image clear_lib clear_codec dockerTypes ''amd64'' (fx_dockerAmd64 clear_lib))]])"
    unfolding list_bytes_def gist_index by simp
  show "gist (marshalled (marshal_Image clear_codec (variant_config clear_lib))) = (''config'', [digest_FromBytes clear_lib ''shared''])"
    unfolding clear_config by (simp add: gist_config variant_config_def fixture_config_def)
  show "gist (marshalled (marshal_Manifest clear_lib (variant_manifest clear_lib clear_codec))) = (''manifest'', [digest_FromBytes clear_lib variant_bytes])"
    by (subst gist_manifest) (simp_all add: variant_manifest_def MediaTypeImageManifest_def)
  show "gist (marshalled (marshal_Manifest clear_lib (foreign_manifest clear_lib clear_codec))) = (''manifest'', [digest_FromBytes clear_lib ''shared''])"
    by (subst gist_manifest) (simp_all add: foreign_manifest_def foreign_layer_def MediaTypeImageManifest_def)
qed

lemma clear_distinct: "distinct (map (digest_FromBytes clear_lib) (suite_contents clear_lib clear_codec))"
proof -
  note g = gist_config_bytes gist_manifest_bytes gist_rest gist_letters [OF refl]
  have "distinct (map gist (suite_contents clear_lib clear_codec))"
    unfolding suite_contents_def fixture_contents_def
    by (simp add: g variant_bytes_def del: put_list.simps)
  then have "distinct (suite_contents clear_lib clear_codec)" by (simp add: distinct_map)
  then show ?thesis by (simp add: distinct_map inj_on_def)
qed

lemma clear_ready: "suite_ready clear_lib clear_codec"
proof -
  have "\<not> leaf_file (the (digest_Encoded clear_lib (digest_FromBytes clear_lib b)))" for b
    unfolding clear_FromBytes clear_split option.sel by (simp add: spelled_def leaf_file_def ImageIndexFile_def ImageLayoutFile_def)
  moreover have "ParseNormalizedNamed clear_lib SingleName = Inr (named ''single'')"
    "ParseNormalizedNamed clear_lib MultiName = Inr (named ''multi'')"
    "ParseNormalizedNamed clear_lib ''example.com/variant:1'' = Inr (named ''variant'')"
    unfolding clear_same by code_simp+
  ultimately show ?thesis using clear_laws clear_codec_laws clear_distinct unfolding suite_ready_def by blast
qed


section \<open>Package fsdir\<close>

text \<open>The contract of the file system does not depend on the third-party code beyond its digest laws.\<close>

lemma os_contract: "digest_laws L \<Longrightarrow> listed_vfs L os_ctx_Err os_vfs os_files os_dirs h_name os_good os_ready"
proof -
  assume "digest_laws L"
  moreover have os: "vroot_fs demo_lib os_ctx_Err os_vfs os_files os_dirs h_name"
    "reliable_vfs_axioms os_ctx_Err os_vfs os_files os_dirs h_name os_good os_ready" "listed_vfs_axioms os_vfs os_files os_good"
    using os_listed.listed_vfs_axioms unfolding listed_vfs_def reliable_vfs_def by blast+
  ultimately have "vroot_fs L os_ctx_Err os_vfs os_files os_dirs h_name"
    unfolding vroot_fs_def by (elim conjE) (intro conjI, assumption+)
  with os(2,3) show ?thesis unfolding listed_vfs_def reliable_vfs_def by blast
qed

definition calm :: "('w, 'a) io \<Rightarrow> bool" where
  "calm m \<longleftrightarrow> (\<forall>w w'. m w \<noteq> (Panic, w'))"

lemma calm_basic: "calm (ret x)" "calm (throw e)" "calm os_ctx_Err" "calm (random_hex V)"
  by (simp_all add: calm_def ret_def throw_def os_ctx_Err_def random_hex_def split: prod.split)

lemma calm_ebind: "calm m \<Longrightarrow> (\<And>x. calm (f x)) \<Longrightarrow> calm (ebind m f)"
  unfolding calm_def ebind_def by (auto split: prod.split res.split)

lemma calm_attempt: "calm m \<Longrightarrow> calm (attempt m)"
  unfolding calm_def attempt_def by (auto split: prod.split res.split)

lemma calm_finally: "calm m \<Longrightarrow> calm (finally_do fin m)"
  unfolding calm_def finally_do_def by (auto split: prod.split)

lemma calm_os: "calm (os_Lstat n)" "calm (os_MkdirAll n)" "calm (os_OpenExcl n)" "calm (os_Write f b)" "calm (os_Link a b)"
  by (auto simp: calm_def os_ops os_call_def Let_def split: option.split)

lemma calm_writeVerified:
  assumes "digest_laws L" "valid_digest L d"
  shows "calm (fsdir_writeVerified L os_vfs f body sz d)"
proof -
  from digest_parts [OF assms] obtain a where "digest_Algorithm L d = Some a" by blast
  with assms(2) show ?thesis
    by (auto simp: fsdir_writeVerified_def valid_digest_def os_vfs_def
        intro!: calm_basic calm_ebind calm_os split: option.split)
qed

lemma fsdir_creates_return: "digest_laws L \<Longrightarrow> creates_return L (fsdir_NewStore L os_ctx_Err os_vfs) ok"
proof -
  assume laws: "digest_laws L"
  have "calm (fsdir_Create L os_ctx_Err os_vfs n body sz d)" if "valid_digest L d" for n body sz d
    unfolding fsdir_Create_def Let_def
    by (auto simp: os_vfs_def intro!: calm_basic calm_ebind calm_attempt calm_finally calm_os
        calm_writeVerified [OF laws that, unfolded os_vfs_def] split: sum.split)
  then show ?thesis unfolding creates_return_def calm_def by (simp add: fsdir_NewStore_def) (metis prod.collapse)
qed


context listed_vfs
begin

lemma store_contract: "listed_backend L (fsdir_NewStore L ctx_Err V) (fs_tree files) (\<lambda>w. fs_ok dirs w \<and> good w)
    (fsdir_List ctx_Err V) (\<lambda>_. True)"
  by (rule fsdir_listed.listed_backend_axioms)

end

lemmas os_store_contract = listed_vfs.store_contract [OF os_contract]

lemma os_empty_state: "fs_ok os_dirs os_empty" "os_good os_empty" "fs_tree os_files os_empty = Map.empty"
  by (simp_all add: fs_ok_def os_good_def fs_tree_def os_empty_def os_dirs_def os_files_def fun_eq_iff)

lemma fsdir_fresh:
  assumes "digest_laws L"
  shows "fresh_store L True (fsdir_NewStore L os_ctx_Err os_vfs) os_empty"
  unfolding fresh_store_def if_True
  using os_store_contract [OF assms] listed_backend.axioms(1) [OF os_store_contract [OF assms]] os_empty_state
    fsdir_creates_return [OF assms]
  by (intro exI [of _ "fs_tree os_files"] exI [of _ "\<lambda>w. fs_ok os_dirs w \<and> os_good w"]) auto

lemma suite_accepts_contract_witness:
  "\<exists>w'. TestBackend clear_lib clear_codec 2 (\<lambda>t. (Ok (fsdir_NewStore clear_lib os_ctx_Err os_vfs), (os_empty, snd t))) True (os_empty, [])
    = (Ok (), (w', []))"
proof (rule suite_accepts_contract [OF clear_ready])
  show "\<forall>t :: os \<times> string list. \<exists>B w. (Ok (fsdir_NewStore clear_lib os_ctx_Err os_vfs), (os_empty, snd t)) = (Ok B, (w, snd t)) \<and>
      fresh_store clear_lib True B w"
    using fsdir_fresh [OF clear_laws(1)] by blast
qed

end
