(* ===== verification/Storecheck.thy ===== *)
theory Storecheck
  imports Cstorage Fsdir Cli
begin

text \<open>
  The program internal/cmd/storecheck, with the part of Go's package flag it uses. The operations of
  go.podman.io/storage that only this program calls extend the record of package cstorage.
\<close>

section \<open>Package flag\<close>

text \<open>
  \<open>flag.Parse\<close> for flags that take a string. Flags end at the first argument that does not begin with a minus
  or is a single one, and after two minus signs. \<open>-help\<close> and \<open>-h\<close> are not errors, unless such a flag is declared.
\<close>

datatype flag_error = ErrHelp | BadFlagSyntax string | FlagNotDefined string | FlagNeedsArgument string

definition flag_name :: "string \<Rightarrow> string option" where
  "flag_name s =
     (if length s < 2 \<or> hd s \<noteq> CHR ''-'' then None
      else Some (if s ! 1 = CHR ''-'' then drop 2 s else drop 1 s))"

text \<open>A name and what follows the first equals sign after its first character.\<close>

definition flag_split :: "string \<Rightarrow> string \<times> string option" where
  "flag_split name =
     (let n = takeWhile (\<lambda>c. c \<noteq> CHR ''='') (tl name) in
      (hd name # n, if length n < length (tl name) then Some (drop (Suc (length n)) (tl name)) else None))"

fun flag_Parse :: "(string \<rightharpoonup> string) \<Rightarrow> string list \<Rightarrow> flag_error + (string \<rightharpoonup> string)" where
  "flag_Parse vals [] = Inr vals"
| "flag_Parse vals (s # args) =
     (case flag_name s of
        None \<Rightarrow> Inr vals
      | Some name \<Rightarrow>
          if s = ''--'' then Inr vals
          else if name = [] \<or> hd name = CHR ''-'' \<or> hd name = CHR ''='' then Inl (BadFlagSyntax s)
          else
            (case flag_split name of
               (n, v) \<Rightarrow>
                 if vals n = None
                 then Inl (if n = ''help'' \<or> n = ''h'' then ErrHelp else FlagNotDefined n)
                 else
                   (case v of
                      Some x \<Rightarrow> flag_Parse (vals(n \<mapsto> x)) args
                    | None \<Rightarrow>
                        (case args of
                           [] \<Rightarrow> Inl (FlagNeedsArgument n)
                         | a # rest \<Rightarrow> flag_Parse (vals(n \<mapsto> a)) rest))))"

section \<open>main.go\<close>

record store_options =
  sp_GraphRoot :: string
  sp_RunRoot :: string
  sp_GraphDriverName :: string

record 'w checked_store = "'w layer_store" +
  ls_Layers :: "('w, layer list) io"
  ls_Images :: "('w, image_record list) io"
  ls_GraphDriverName :: string

text \<open>
  What the program calls; \<open>ck_usage\<close> is what package flag prints on the error output for a command line it
  refuses, \<open>ck_reexec\<close> what \<open>reexec.Init()\<close> returns.
\<close>

record 'w checker =
  ck_reexec :: bool
  ck_usage :: "flag_error \<Rightarrow> string"
  ck_blobcache_New :: "string \<Rightarrow> ('w, 'w cache \<times> ('w, unit) io) io"
  ck_GetStore :: "store_options \<Rightarrow> ('w, 'w checked_store) io"
  ck_encoder :: "nat \<Rightarrow> bytes \<Rightarrow> bytes"
  ck_lib :: cli_lib
  ck_terminal :: "'w terminal"

definition storecheck_line :: "string \<Rightarrow> nat \<Rightarrow> nat \<Rightarrow> string" where
  "storecheck_line driver layers images =
     ''driver='' @ driver @ '' layers='' @ strconv_Itoa (int layers) @ '' images='' @ strconv_Itoa (int images) @ newline"

text \<open>The deferred calls run in the order opposite to the one they are stated in; their errors are dropped.\<close>

definition storecheck_run :: "'w checker \<Rightarrow> string \<Rightarrow> string \<Rightarrow> ('w, unit) io" where
  "storecheck_run K root driver =
     ebind (ck_blobcache_New K (path_Join [root, ''cache''])) (\<lambda>(cache, close).
     finally_do close (
       ebind (ck_GetStore K \<lparr>sp_GraphRoot = path_Join [root, ''graph''], sp_RunRoot = path_Join [root, ''run''],
                sp_GraphDriverName = driver\<rparr>) (\<lambda>st.
       finally_do (ls_Shutdown st) (
         let cs = cstorage_New (layer_store.truncate st) cache (ck_encoder K) None in
         finally_do (cstorage_Close cs) (
           ebind (ls_Layers st) (\<lambda>layers.
           ebind (ls_Images st) (\<lambda>images.
             ignore_err (tm_stdout (ck_terminal K)
               (storecheck_line (ls_GraphDriverName st) (length layers) (length images))))))))))"

text \<open>The exit status of the program on its arguments.\<close>

definition storecheck_flags :: "string \<rightharpoonup> string" where
  "storecheck_flags = [''root'' \<mapsto> [], ''driver'' \<mapsto> ''vfs'']"

definition storecheck_main :: "'w checker \<Rightarrow> string list \<Rightarrow> ('w, int) io" where
  "storecheck_main K args =
     (let stderr = (\<lambda>s. ignore_err (tm_stderr (ck_terminal K) s)) in
      if ck_reexec K then ret 0
      else case flag_Parse storecheck_flags args of
        Inl e \<Rightarrow> ebind (stderr (ck_usage K e)) (\<lambda>_. ret (if e = ErrHelp then 0 else 2))
      | Inr vals \<Rightarrow>
          if vals ''root'' = Some []
          then ebind (stderr (''storecheck: -root is required'' @ newline)) (\<lambda>_. ret 2)
          else ebind (attempt (storecheck_run K (the (vals ''root'')) (the (vals ''driver'')))) (\<lambda>r.
            case r of
              Inl e \<Rightarrow> ebind (stderr (''storecheck: '' @ cl_Error (ck_lib K) e @ newline)) (\<lambda>_. ret 1)
            | Inr _ \<Rightarrow> ret 0))"

lemma flag_Parse_defined: "flag_Parse vals args = Inr vals' \<Longrightarrow> dom vals' = dom vals"
  by (induction vals args rule: flag_Parse.induct)
    (auto split: option.splits if_splits prod.splits list.splits)

lemma flag_Parse_examples:
  "flag_Parse storecheck_flags [''-root'', ''/r'', ''--driver=overlay'', ''x'', ''-root''] =
     Inr [''root'' \<mapsto> ''/r'', ''driver'' \<mapsto> ''overlay'']"
  "flag_Parse storecheck_flags [''-root''] = Inl (FlagNeedsArgument ''root'')"
  "flag_Parse storecheck_flags [''-h''] = Inl ErrHelp"
  "flag_Parse storecheck_flags [''-=x''] = Inl (BadFlagSyntax ''-=x'')"
  "flag_Parse storecheck_flags [''-root='', ''--'', ''-x''] = Inr storecheck_flags"
  by (auto simp: storecheck_flags_def flag_name_def flag_split_def fun_eq_iff)

text \<open>A command line that is refused, or a request for help, opens nothing.\<close>

lemma storecheck_refuses:
  assumes "\<not> ck_reexec K" "flag_Parse storecheck_flags args = Inl e \<or>
    (\<exists>vals. flag_Parse storecheck_flags args = Inr vals \<and> vals ''root'' = Some [])"
  shows "\<exists>s. storecheck_main K args = ebind (ignore_err (tm_stderr (ck_terminal K) s))
    (\<lambda>_. ret (if flag_Parse storecheck_flags args = Inl ErrHelp then 0 else 2))"
  using assms by (auto simp: storecheck_main_def Let_def)

text \<open>A store that was opened is shut down after all else, and the cache is closed after that.\<close>

lemma storecheck_closes:
  assumes "ck_blobcache_New K (path_Join [root, ''cache'']) w = (Ok (cache, close), w1)"
    and "ck_GetStore K \<lparr>sp_GraphRoot = path_Join [root, ''graph''], sp_RunRoot = path_Join [root, ''run''],
           sp_GraphDriverName = driver\<rparr> w1 = (Ok st, w2)"
  shows "\<exists>r w3. storecheck_run K root driver w = (r, snd (close (snd (ls_Shutdown st w3))))"
proof -
  have fin: "finally_do fin m w = (fst (m w), snd (fin (snd (m w))))" for fin :: "('x, 'b) io" and m :: "('x, 'c) io" and w
    by (simp add: finally_do_def split: prod.split)
  show ?thesis
    by (simp only: storecheck_run_def ebind_def assms prod.case res.case fin Let_def snd_conv fst_conv) blast
qed

text \<open>The counts are printed when the library can be asked for them.\<close>

lemma storecheck_prints:
  assumes "ck_blobcache_New K (path_Join [root, ''cache'']) w = (Ok (cache, close), w1)"
    and "ck_GetStore K \<lparr>sp_GraphRoot = path_Join [root, ''graph''], sp_RunRoot = path_Join [root, ''run''],
           sp_GraphDriverName = driver\<rparr> w1 = (Ok st, w2)"
    and "ls_Layers st w2 = (Ok layers, w3)" "ls_Images st w3 = (Ok images, w4)"
    and "tm_stdout (ck_terminal K) (storecheck_line (ls_GraphDriverName st) (length layers) (length images)) w4 = (r, w5)"
    and "r \<noteq> Panic"
  shows "storecheck_run K root driver w = (Ok (), snd (close (snd (ls_Shutdown st w5))))"
  using assms
  by (cases r) (simp_all add: storecheck_run_def ebind_def finally_do_def Let_def cstorage_Close_def cstorage_New_def
      ret_def ignore_err_def attempt_def)

end
