(* ===== verification/Spec2Isabelle.thy ===== *)
theory Spec2Isabelle
  imports Store_Properties Walk_Properties Push_Properties Blobcache_Properties
    Ocidir_Properties Remote_Properties Copy_Properties Settings_Properties Registry_Properties
    Cstorage_Properties Copy_Pull_Properties Program_Properties Spec_Properties Storetest_Properties
    Storecheck
begin

text \<open>
  \<^bold>\<open>oci-image-copy: copying container images between OCI stores.\<close>

  \<^bold>\<open>The program.\<close> \<open>oci-image-copy copy SRC DST image...\<close> moves images between containers-storage on the
  local host and a store, a directory tree of content-addressed blobs with one leaf directory per image
  reference and platform. A store lives on a file system, in an object storage or behind an HTTP server.
  From a store to containers-storage a copy pulls: it resolves each image in the store or in a registry,
  fetches the missing blobs into a cache and hands the layers to go.podman.io/storage. In the other
  direction it pushes: it plans what the store lacks, uploads that with several goroutines and commits the
  leaves. Nothing of another process is trusted: every blob is checked against the digest it is asked for.

  \<^bold>\<open>The model.\<close> A Go function is a HOL function of the same name, with the name of its package in front where
  names would clash. A function that may fail is a function into \<open>'a res\<close>, whose values are a result, an
  error and a panic; one with effects is a function from a world to such a value and the next world
  (\<open>('w, 'a) io\<close>). Errors are the datatype \<open>gerr\<close> with the sentinels the code tests for and the wrapping
  that \<open>errors.Is\<close> looks through; operands in the texts of errors are left out where nothing reads them.
  Structs are records, enumerations are datatypes. Code outside the repository is a record of the functions
  the code calls, with its documented behaviour as a predicate or a locale, which a concrete instance
  (the theories whose names begin with Demo, and Os_Fs) shows to be possible.

  \<^bold>\<open>The theories and the code they model\<close>, paths below src/:
    \<^item> Oci_Prelude, Go_Strings, Go_Format: results, errors and state passing with their rules, and what the
      code uses of Go's packages strings, path, strconv, fmt and text/tabwriter.
    \<^item> Oci_Types: types/platform.go and types/reference.go, the structs of the OCI image format, and the
      record \<open>oci_lib\<close> of go-digest, the reference grammar and the JSON codecs.
    \<^item> Store_Paths, Store_Backend, Store: store/store.go and ocidir/ocidir.go. The tree of a store is a map
      from paths to contents; \<open>BlobPath\<close>, \<open>DiffIDPath\<close> and \<open>LeafPath\<close> say where things are in it.
    \<^item> Fsdir, S3dir, Httpdir: the backends ocidir/fsdir, ocidir/s3dir and ocidir/httpdir, with their views of a
      directory in the OCI image layout. Ocidir_Helper: ocidir/helper.go.
    \<^item> Push, From_Oci_Dir: transfer/transfer.go and transfer/ocidir.go. The goroutines of \<open>Push\<close> are the step
      relation \<open>push_step\<close> on a pool of workers (\<open>worker_step\<close>), one step for each call a worker makes.
    \<^item> Blobcache, Blobcache_Lock: blobcache/blobcache.go with lock_unix.go. Within one digest the operations
      are sequential, since a lock is held; that it is held by one process at a time is the step relation
      \<open>lock_step\<close> over processes, the directory and its inodes.
    \<^item> Registry: registry/registry.go. Cstorage, Cstorage_Push: cstorage/cstorage.go, pull.go and push.go.
    \<^item> Location, Config, Imagecopy, Service: ociimagecopy/location.go, config.go, copy.go and service.go. The
      fields of a \<open>Service\<close>, which open on first use, are a record beside the world.
    \<^item> Cli_Format, Cli_Progress, Cli: the files of ociimagecopy/cli. Loggerfactory, Userdir, Commands: the
      packages internal/loggerfactory, userdir, versioninfo, libver, templateutil and userns, and the handlers
      of cmd/oci-image-copy with \<open>main\<close>. Command_Tree: what that program declares to cobra (names, texts,
      flags, hooks) as data, and \<open>program\<close>, the run of a command line from \<open>main\<close> to the exit status; what cobra
      makes of a command line is the record \<open>cobra\<close>.
    \<^item> Go_Testing, Ocidirtest, Storetest: package testing as a state of reports beside the world, and the suites of
      internal/ocidirtest, internal/storetest and internal/imagetest, with the fixture they build. Storecheck: the
      program internal/cmd/storecheck and what it uses of package flag.
    \<^item> Store_Abstract: the specification of a store, a record of blobs, markers and leaves with one function per
      operation. \<open>store_abs\<close> reads it off the tree of a store.

  \<^bold>\<open>The interfaces\<close>, each a locale with the laws its clients rely on:
    \<^item> \<open>store_backend\<close> (Store_Backend): what package store needs of \<open>store.Backend\<close>. A creation adds the whole
      verified content or nothing and replaces nothing, whatever fails. The invariant of the store and the
      safety of its operations are proved in it (Store_Invariant, Store_Commit). The file system, object
      storage and HTTP backends are sublocales of it (Fsdir_Backend, S3dir_Backend, Httpdir).
    \<^item> \<open>reliable_backend\<close> and \<open>listed_backend\<close> (Store_Resolve, Store_Walk): calls also succeed, what
      is absent is reported as \<open>fs.ErrNotExist\<close>, and listings are complete. They carry what can only be said without failures: a commit succeeds, what is committed is
      found, a walk finds exactly the leaves. The file system and object storage backends are sublocales
      (Fsdir_Reliable, Fsdir_Listed, S3dir_Reliable).
    \<^item> \<open>vroot_fs\<close>, \<open>reliable_vfs\<close>, \<open>listed_vfs\<close>: the file system library below fsdir, interpreted in Os_Fs,
      Fsdir_Reliable and Fsdir_Listed on a POSIX file system whose calls may fail at any time, or none does.
    \<^item> \<open>s3_service\<close>, \<open>reliable_s3\<close> and \<open>http_service\<close>: the AWS client and the HTTP client, interpreted in
      Demo_Remote on a bucket that fails now and then and on a web server, and in Demo_Bucket on a bucket that
      does not fail.
    \<^item> \<open>blob_cache\<close> (Cache_Interface): what registry and cstorage need of a cache. \<open>cache_directory\<close>
      (Blobcache_Facts) provides it for package blobcache.

  \<^bold>\<open>What is proved.\<close> The theories whose names end in Properties hold the properties, with witnesses at
  concrete inputs; those ending in Facts, and Copy_Push, Copy_Pull, Cstorage_Pull and Storetest_Runs, hold the
  lemmas they rest on.
    \<^item> Store_Properties: parsers and printers are inverse, no two files of a store meet; \<open>Commit\<close> keeps the store's promise at
      whatever call it stops, leaves a complete image behind a leaf, never changes a leaf, is found again, and
      succeeds when the calls below it do; fsdir meets the contract of a backend.
    \<^item> Walk_Properties: \<open>Walk\<close> and \<open>DiffIDBlobs\<close> say exactly what the store holds.
    \<^item> Push_Properties: what is planned; every interleaving of uploads keeps the store's promise, stays within
      the concurrency asked for, ends, and if no error is returned has stored and committed everything.
    \<^item> Blobcache_Properties: only verified content is at a blob's path; a fetch heals what an earlier one left;
      one process at a time works on a blob. Registry_Properties and Cstorage_Properties: what is pulled is
      verified and is what was asked for, and is installed in containers-storage.
    \<^item> Ocidir_Properties: the order of a layout's blobs. Remote_Properties: the object storage and HTTP
      backends meet the contract, and a server's answer that a page is not there is told from any other failure.
    \<^item> Settings_Properties and Copy_Properties: locations and configuration; what \<open>Copy\<close> does with its
      arguments. Wrong input changes nothing, a failure is always reported, a dry run carries nothing out. A
      success has carried out the plan made between the storage and the store of these locations
      (\<open>carried_out\<close>), and in the direction of a store has committed all of it.
    \<^item> Copy_Pull_Properties: a success in the other direction has installed every image under its name, with
      the layers of the manifest that was asked for, and touched nothing else.
    \<^item> Cli_Properties and Program_Properties: the output, where a failure is shown once and a blob's end once, and
      the whole program: a command line whose flags, arguments or input (\<open>right_input\<close>) are wrong has done nothing
      and ends with the status \<open>wrong_status\<close>; status 0 of \<open>copy\<close> means that containers-storage and the store at
      the location named were opened and that everything the command line asked for is done between them.
    \<^item> Spec_Properties: over a backend that does not fail, any sequence of operations on a store gives the results
      of the specification and leaves the store that the specification describes.
    \<^item> Storetest_Properties: a backend that keeps the contract of \<open>reliable_backend\<close> passes every case of
      \<open>TestBackend\<close> without a report, so the contract is at least as strong as what the suite probes.
      Storetest_Runs also has the run of \<open>WriteStore\<close>.

  \<^bold>\<open>Loops and bounds.\<close> Loops over lists are structural; those that count (\<open>fetch_loop\<close>, \<open>human_loop\<close>,
  the layout of tables) have their measure. The walks of nested indexes in Ocidir_Helper and From_Oci_Dir take
  the depth of the call stack as an argument and end in a panic when it is used up, as the Go program does; a
  depth greater than the nesting is shown to be enough, and an index that contains itself to exceed every
  depth. A listing of an object storage takes the number of pages as an argument: at least as many as the
  service has is enough (\<open>list_pages_up\<close>). No bound is chosen for the goroutines: \<open>push_step\<close> and
  \<open>lock_step\<close> are relations, and \<open>push_bounded\<close> shows that runs of the first end. Sizes and byte counts
  that Go keeps in 64 bits wrap around in the model where the code adds or multiplies them
  (\<open>transfer_Bytes\<close>, \<open>humanBytes\<close>).

  \<^bold>\<open>Not modelled.\<close>
    \<^item> prep_testdata.go has directives for go generate and no code. Of the test data it makes, Ocidirtest has the
      search only. The tar archive that imagetest writes is a parameter.
    \<^item> internal/cmdsignals names functions of a third-party package; what \<open>main\<close> does with a signal's error is
      \<open>main_error\<close> in Commands. How cobra and pflag take a command line apart, and what help they print, is the
      record \<open>cobra\<close> with the laws \<open>cobra_laws\<close>.
    \<^item> blobcache/lock_other.go locks nothing, on systems that are not unix; paths are those of unix.
    \<^item> The display of progress is driven by sequences of events. What a transfer emits is modelled on its own side:
      the readers of a push have \<open>progress_events\<close>, and a cache keeps what it reports of a fetch in \<open>bw_reports\<close>,
      which \<open>pull_event\<close> turns into events. The display does not run beside a transfer.
    \<^item> Cancellation is a call that may fail at any point where the code asks for it; contexts are not values.
\<close>

end
